(* ===== verification/Prelude.thy ===== *)
theory Prelude
  imports Complex_Main "HOL-Library.Multiset"
begin

text \<open>
  Shared vocabulary of the development: the fact collections that the component
  theories fill and the proofs consume, and generic facts on lists, association
  lists, options and the comparator-driven sort of the source language
  (\<open>Array.prototype.sort\<close> is stable, so for a comparator that is a total
  preorder its result is the one insertion sort computes).
\<close>

named_theorems js_simps \<open>evaluation rules for the value universe\<close>
named_theorems num_simps \<open>evaluation rules for the number model\<close>
named_theorems sort_intros \<open>facts about comparator sorting\<close>

section \<open>Comparator sorting\<close>

text \<open>
  A comparator returns a negative, zero or positive number. \<open>ins_by\<close> inserts in front
  of the first element that is not smaller, and \<open>sort_by\<close> inserts from the right, so
  equal elements keep their order.
\<close>

fun ins_by :: "('a \<Rightarrow> 'a \<Rightarrow> int) \<Rightarrow> 'a \<Rightarrow> 'a list \<Rightarrow> 'a list" where
  "ins_by c x [] = [x]"
| "ins_by c x (y # ys) = (if c x y \<le> 0 then x # y # ys else y # ins_by c x ys)"

definition sort_by :: "('a \<Rightarrow> 'a \<Rightarrow> int) \<Rightarrow> 'a list \<Rightarrow> 'a list" where
  "sort_by c xs = foldr (ins_by c) xs []"

lemma sort_by_simps [simp]:
  "sort_by c [] = []"
  "sort_by c (x # xs) = ins_by c x (sort_by c xs)"
  by (simp_all add: sort_by_def)

lemma mset_ins_by [simp]: "mset (ins_by c x xs) = add_mset x (mset xs)"
  by (induction xs) auto

lemma mset_sort_by [simp]: "mset (sort_by c xs) = mset xs"
  by (induction xs) auto

lemma set_sort_by [simp]: "set (sort_by c xs) = set xs"
  by (metis mset_sort_by set_mset_mset)

lemma length_sort_by [simp]: "length (sort_by c xs) = length xs"
  by (metis mset_sort_by size_mset)

lemma sort_by_eq_Nil [simp]: "sort_by c xs = [] \<longleftrightarrow> xs = []"
  by (metis length_0_conv length_sort_by)

lemma distinct_sort_by [simp]: "distinct (sort_by c xs) = distinct xs"
  using mset_eq_imp_distinct_iff mset_sort_by by blast

lemma filter_sort_by_mset: "mset (filter p (sort_by c xs)) = mset (filter p xs)"
  by (simp add: mset_filter)

text \<open>The laws a comparator promises to its callers.\<close>

locale comparator =
  fixes c :: "'a \<Rightarrow> 'a \<Rightarrow> int"
  assumes total: "c x y \<le> 0 \<or> c y x \<le> 0"
    and trans: "c x y \<le> 0 \<Longrightarrow> c y z \<le> 0 \<Longrightarrow> c x z \<le> 0"
begin

lemma refl: "c x x \<le> 0"
  using total by blast

lemma set_ins_by: "set (ins_by c x xs) = insert x (set xs)"
  by (metis mset_ins_by set_mset_add_mset_insert set_mset_mset)

lemma sorted_ins_by:
  "sorted_wrt (\<lambda>a b. c a b \<le> 0) xs \<Longrightarrow> sorted_wrt (\<lambda>a b. c a b \<le> 0) (ins_by c x xs)"
proof (induction xs)
  case (Cons y ys)
  then show ?case
    using total [of x y] trans by (auto simp: set_ins_by)
qed simp

lemma sorted_sort_by: "sorted_wrt (\<lambda>a b. c a b \<le> 0) (sort_by c xs)"
  by (induction xs) (simp_all add: sorted_ins_by)

lemma ins_by_front: "\<forall>y \<in> set ys. c x y \<le> 0 \<Longrightarrow> ins_by c x ys = x # ys"
  by (cases ys) auto

text \<open>A list that is already in order is left as it is: sorting twice is sorting once.\<close>

lemma sort_by_sorted: "sorted_wrt (\<lambda>a b. c a b \<le> 0) xs \<Longrightarrow> sort_by c xs = xs"
  by (induction xs) (simp_all add: ins_by_front)

lemma sort_by_idem: "sort_by c (sort_by c xs) = sort_by c xs"
  by (rule sort_by_sorted) (rule sorted_sort_by)

end

text \<open>
  A comparator whose sign is antisymmetric. Such comparators can be reversed, read through a
  key and combined lexicographically, and the sort keeps equal elements in their order.
\<close>

locale comparison = comparator +
  assumes sgn_swap: "sgn (c y x) = - sgn (c x y)"
begin

lemma zero_swap: "c x y = 0 \<longleftrightarrow> c y x = 0"
  using sgn_swap [of x y] by (metis neg_equal_0_iff_equal sgn_0_0)

lemma neg_swap: "c x y < 0 \<longleftrightarrow> 0 < c y x"
  using sgn_swap [of x y] by (metis neg_0_less_iff_less sgn_greater sgn_less neg_less_0_iff_less)

lemma zero_trans: "c a x = 0 \<Longrightarrow> c a y = 0 \<Longrightarrow> c x y = 0"
  using trans [of x a y] trans [of y a x] zero_swap neg_swap
  by (metis order_antisym order_refl linorder_not_le)

lemma le_less_trans: "c x y \<le> 0 \<Longrightarrow> c y z < 0 \<Longrightarrow> c x z < 0"
  using trans [of x y z] trans [of z x y] neg_swap zero_swap
  by (metis linorder_not_le order_less_le)

lemma less_le_trans: "c x y < 0 \<Longrightarrow> c y z \<le> 0 \<Longrightarrow> c x z < 0"
  using trans [of x y z] trans [of y z x] neg_swap zero_swap
  by (metis linorder_not_le order_less_le)

lemma filter_ins_by:
  "filter (\<lambda>y. c a y = 0) (ins_by c x ys) = filter (\<lambda>y. c a y = 0) (x # ys)"
proof (induction ys)
  case (Cons y ys)
  then show ?case using zero_trans [of a x y] by auto
qed simp

lemma sort_by_stable: "filter (\<lambda>y. c a y = 0) (sort_by c xs) = filter (\<lambda>y. c a y = 0) xs"
  by (induction xs) (simp_all add: filter_ins_by)

end

lemma comparison_I:
  assumes "\<And>x y. sgn (c y x) = - sgn (c x y)" and "\<And>x y z. c x y \<le> 0 \<Longrightarrow> c y z \<le> 0 \<Longrightarrow> c x z \<le> 0"
  shows "comparison (c :: 'a \<Rightarrow> 'a \<Rightarrow> int)"
proof
  fix x y z
  show "c x y \<le> 0 \<or> c y x \<le> 0"
    using assms(1) [of x y] by (metis linorder_not_le neg_less_0_iff_less less_asym sgn_greater)
qed (use assms in blast)+

lemma comparison_key [sort_intros]:
  assumes "comparison c"
  shows "comparison (\<lambda>a b. c (f a) (f b))"
  using comparison.sgn_swap [OF assms] comparator.trans [OF comparison.axioms(1) [OF assms]]
  by (intro comparison_I) blast+

lemma comparison_swap [sort_intros]:
  assumes "comparison c"
  shows "comparison (\<lambda>a b. c b a)"
  using comparison.sgn_swap [OF assms] comparator.trans [OF comparison.axioms(1) [OF assms]]
  by (intro comparison_I) blast+

lemma comparison_uminus [sort_intros]:
  assumes "comparison c"
  shows "comparison (\<lambda>a b. - c a b)"
proof (rule comparison_I)
  fix x y z
  show "sgn (- c y x) = - sgn (- c x y)" using comparison.sgn_swap [OF assms, of y x] by (simp add: sgn_minus)
  have "- c a b \<le> 0 \<longleftrightarrow> c b a \<le> 0" for a b
    using comparison.neg_swap [OF assms, of a b] by auto
  then show "- c x y \<le> 0 \<Longrightarrow> - c y z \<le> 0 \<Longrightarrow> - c x z \<le> 0"
    using comparator.trans [OF comparison.axioms(1) [OF assms], of z y x] by blast
qed

lemma comparison_lex [sort_intros]:
  assumes "comparison c" "comparison d"
  shows "comparison (\<lambda>a b. if c a b = 0 then d a b else c a b)"
proof (rule comparison_I)
  fix x y z
  show "sgn (if c y x = 0 then d y x else c y x) = - sgn (if c x y = 0 then d x y else c x y)"
    using comparison.sgn_swap [OF assms(1), of y x] comparison.sgn_swap [OF assms(2), of y x]
      comparison.zero_swap [OF assms(1), of x y]
    by (cases "c x y = 0") simp_all
  assume xy: "(if c x y = 0 then d x y else c x y) \<le> 0" and yz: "(if c y z = 0 then d y z else c y z) \<le> 0"
  consider "c x y = 0" "c y z = 0" | "c x y < 0" | "c x y = 0" "c y z < 0" using xy yz by (auto split: if_splits)
  then show "(if c x z = 0 then d x z else c x z) \<le> 0"
  proof cases
    case 1
    then have "c x z = 0"
      using comparison.zero_trans [OF assms(1), of y x z] comparison.zero_swap [OF assms(1), of x y] by blast
    then show ?thesis using 1 xy yz comparator.trans [OF comparison.axioms(1) [OF assms(2)], of x y z] by simp
  next
    case 2
    have "c y z \<le> 0" using yz by (auto split: if_splits)
    then show ?thesis using 2 comparison.less_le_trans [OF assms(1), of x y z] by simp
  next
    case 3
    then show ?thesis using comparison.le_less_trans [OF assms(1), of x y z] by simp
  qed
qed

section \<open>Lists and association lists\<close>

text \<open>\<open>Array.prototype.slice(-n)\<close> for a non-negative \<open>n\<close>: the last \<open>n\<close> elements.\<close>

definition takeLast :: "nat \<Rightarrow> 'a list \<Rightarrow> 'a list" where
  "takeLast n xs = drop (length xs - n) xs"

lemma length_takeLast [simp]: "length (takeLast n xs) = min n (length xs)"
  by (simp add: takeLast_def)

lemma set_takeLast: "set (takeLast n xs) \<subseteq> set xs"
  by (simp add: takeLast_def set_drop_subset)

lemma takeLast_idem [simp]: "takeLast n (takeLast n xs) = takeLast n xs"
  by (simp add: takeLast_def)

lemma takeLast_all: "length xs \<le> n \<Longrightarrow> takeLast n xs = xs"
  by (simp add: takeLast_def)

text \<open>Writing a key of an object: in place when present, at the end when new.\<close>

fun aput :: "'k \<Rightarrow> 'v \<Rightarrow> ('k \<times> 'v) list \<Rightarrow> ('k \<times> 'v) list" where
  "aput k v [] = [(k, v)]"
| "aput k v ((k', v') # xs) = (if k = k' then (k, v) # xs else (k', v') # aput k v xs)"

definition adel :: "'k \<Rightarrow> ('k \<times> 'v) list \<Rightarrow> ('k \<times> 'v) list" where
  "adel k xs = filter (\<lambda>p. fst p \<noteq> k) xs"

lemma map_of_aput [simp]: "map_of (aput k v xs) = (map_of xs)(k \<mapsto> v)"
  by (induction xs) auto

lemma map_of_adel [simp]: "map_of (adel k xs) = (map_of xs)(k := None)"
  by (induction xs) (auto simp: adel_def)

lemma keys_aput: "fst ` set (aput k v xs) = insert k (fst ` set xs)"
  using dom_map_of_conv_image_fst [of "aput k v xs"] dom_map_of_conv_image_fst [of xs]
  by simp

lemma keys_adel: "fst ` set (adel k xs) = fst ` set xs - {k}"
  by (auto simp: adel_def image_iff)

lemma distinct_aput: "distinct (map fst xs) \<Longrightarrow> distinct (map fst (aput k v xs))"
proof (induction xs)
  case (Cons p xs)
  then show ?case using keys_aput [of k v xs]
    by (cases p) (auto simp del: map_of_aput)
qed simp

lemma distinct_adel: "distinct (map fst xs) \<Longrightarrow> distinct (map fst (adel k xs))"
  by (simp add: adel_def distinct_map_filter)

lemma length_filter_partition3:
  "\<lbrakk>\<And>x. x \<in> set xs \<Longrightarrow> (P x \<or> Q x \<or> R x) \<and> \<not> (P x \<and> Q x) \<and> \<not> (P x \<and> R x) \<and> \<not> (Q x \<and> R x)\<rbrakk>
   \<Longrightarrow> length (filter P xs) + length (filter Q xs) + length (filter R xs) = length xs"
  by (induction xs) auto

lemma sum_list_map_filter_zero:
  "sum_list (map f xs) = sum_list (map f (filter (\<lambda>x. f x \<noteq> (0::nat)) xs))"
  by (induction xs) auto

end
