(* ===== verification/JsNumber.thy ===== *)
theory JsNumber
  imports Prelude
begin

text \<open>
  The numbers of the source language: IEEE 754 binary64 values. A finite value is the
  rational it denotes; \<open>round64\<close> is rounding to nearest, ties to even, with gradual
  underflow, and \<open>fl\<close> adds the overflow to an infinity, so every arithmetic operation
  below computes what the machine computes. The two zeros are identified: the code never
  divides by a zero whose sign could be seen.

  The lemmas show that rounding is monotone and exact on integers up to \<open>2 ^ 53\<close>;
  percentages and ages in the component theories rest on those two facts.
\<close>

datatype jsnum = NaN | PInf | NInf | Fin rat

section \<open>Rounding to binary64\<close>

definition pow2 :: "int \<Rightarrow> rat" where
  "pow2 e = (if 0 \<le> e then 2 ^ nat e else 1 / 2 ^ nat (- e))"

lemma pow2_pos [simp]: "0 < pow2 e"
  by (simp add: pow2_def)

lemma pow2_nonzero [simp]: "pow2 e \<noteq> 0"
  using pow2_pos [of e] by linarith

lemma pow2_nonneg [simp]: "0 \<le> pow2 e"
  using pow2_pos [of e] by linarith

lemma pow2_powi: "pow2 e = 2 powi e"
  by (simp add: pow2_def power_int_def inverse_eq_divide power_one_over)

lemma pow2_add: "pow2 (a + b) = pow2 a * pow2 b"
  by (simp add: pow2_powi power_int_add)

lemma pow2_diff: "pow2 (a - b) = pow2 a / pow2 b"
  by (simp add: pow2_powi power_int_diff)

lemma pow2_mono: "a \<le> b \<Longrightarrow> pow2 a \<le> pow2 b"
  by (simp add: pow2_powi power_int_increasing)

lemma pow2_nat: "pow2 (int n) = 2 ^ n"
  by (simp add: pow2_def)

lemma pow2_less_imp: "pow2 a < pow2 b \<Longrightarrow> a < b"
  using pow2_mono [of b a] by (meson leD leI)

text \<open>The number of binary digits of a positive integer.\<close>

fun blen :: "int \<Rightarrow> int" where
  "blen n = (if n \<le> 0 then 0 else 1 + blen (n div 2))"

declare blen.simps [simp del]

lemma blen_nonneg: "0 \<le> blen n"
  by (induction n rule: blen.induct) (subst blen.simps, simp)

lemma blen_bounds: "0 < n \<Longrightarrow> 1 \<le> blen n \<and> 2 ^ nat (blen n - 1) \<le> n \<and> n < 2 ^ nat (blen n)"
proof (induction n rule: blen.induct)
  case (1 n)
  show ?case
  proof (cases "n = 1")
    case True
    then show ?thesis by (simp add: blen.simps [of 1] blen.simps [of 0])
  next
    case False
    define m where "m = n div 2"
    have m: "0 < m" "2 * m \<le> n" "n < 2 * m + 2" using False "1.prems" by (simp_all add: m_def)
    have IH: "1 \<le> blen m" "2 ^ nat (blen m - 1) \<le> m" "m < 2 ^ nat (blen m)"
      using "1.IH" "1.prems" m by (simp_all add: m_def)
    have n: "blen n = 1 + blen m" using "1.prems" by (subst blen.simps) (simp add: m_def)
    have e: "nat (blen n - 1) = Suc (nat (blen m - 1))" "nat (blen n) = Suc (nat (blen m))"
      using IH(1) n by arith+
    have "1 \<le> blen n" using n IH(1) by linarith
    moreover have "2 * 2 ^ nat (blen m - 1) \<le> n" using IH(2) m(2) by linarith
    moreover have "n < 2 * 2 ^ nat (blen m)" using IH(3) m(3) by linarith
    ultimately show ?thesis by (simp only: e power_Suc)
  qed
qed

text \<open>The binary exponent: \<open>2 ^ e \<le> |x| < 2 ^ (e + 1)\<close>.\<close>

definition expo :: "rat \<Rightarrow> int" where
  "expo x = (case quotient_of \<bar>x\<bar> of (p, q) \<Rightarrow>
     (let e = blen p - blen q in if \<bar>x\<bar> < pow2 e then e - 1 else e))"

definition ulp_of :: "rat \<Rightarrow> rat" where
  "ulp_of x = pow2 (max (expo x - 52) (- 1074))"

text \<open>Rounding a rational to an integer, ties to even.\<close>

definition rne :: "rat \<Rightarrow> int" where
  "rne x = (let f = \<lfloor>x\<rfloor>; d = x - of_int f in
     if d < 1 / 2 then f else if 1 / 2 < d then f + 1 else if even f then f else f + 1)"

definition round64 :: "rat \<Rightarrow> rat" where
  "round64 x = (if x = 0 then 0 else of_int (rne (x / ulp_of x)) * ulp_of x)"

definition fl :: "rat \<Rightarrow> jsnum" where
  "fl x = (let r = round64 x in
     if r \<noteq> 0 \<and> 1024 \<le> expo r then (if r < 0 then NInf else PInf) else Fin r)"

section \<open>Rounding is exact on small integers and monotone\<close>

lemma expo_bounds:
  assumes "x \<noteq> 0"
  shows "pow2 (expo x) \<le> \<bar>x\<bar>" and "\<bar>x\<bar> < pow2 (expo x + 1)"
proof -
  obtain p q where pq: "quotient_of \<bar>x\<bar> = (p, q)" by (cases "quotient_of \<bar>x\<bar>")
  then have x: "\<bar>x\<bar> = of_int p / of_int q" and q: "0 < q"
    by (auto dest: quotient_of_div quotient_of_denom_pos)
  have p: "0 < p"
    using assms x q by (metis (no_types) abs_ge_zero abs_eq_0 divide_eq_0_iff linorder_cases
        of_int_0 of_int_less_0_iff divide_neg_pos leD of_int_0_less_iff)
  have bp: "(2::int) ^ nat (blen p - 1) \<le> p" "p < 2 ^ nat (blen p)" "1 \<le> blen p"
    using blen_bounds [OF p] by simp_all
  have bq: "(2::int) ^ nat (blen q - 1) \<le> q" "q < 2 ^ nat (blen q)" "1 \<le> blen q"
    using blen_bounds [OF q] by simp_all
  have p1: "pow2 (blen p - 1) \<le> of_int p" "of_int p < pow2 (blen p)"
    using bp of_int_le_iff [of "2 ^ nat (blen p - 1)" p, where ?'a = rat]
      of_int_less_iff [of p "2 ^ nat (blen p)", where ?'a = rat]
    by (simp_all add: pow2_def)
  have q1: "pow2 (blen q - 1) \<le> of_int q" "of_int q < pow2 (blen q)"
    using bq of_int_le_iff [of "2 ^ nat (blen q - 1)" q, where ?'a = rat]
      of_int_less_iff [of q "2 ^ nat (blen q)", where ?'a = rat]
    by (simp_all add: pow2_def)
  let ?e = "blen p - blen q"
  have qp: "0 < (of_int q :: rat)" using q by simp
  have "pow2 (?e - 1) * of_int q \<le> pow2 (?e - 1) * pow2 (blen q)"
    using q1 by (intro mult_left_mono) auto
  also have "\<dots> = pow2 (blen p - 1)" by (simp flip: pow2_add)
  finally have lo: "pow2 (?e - 1) \<le> \<bar>x\<bar>"
    using p1 qp by (simp add: x field_simps)
  have "of_int p < pow2 (blen p)" by (fact p1)
  also have "\<dots> = pow2 (?e + 1) * pow2 (blen q - 1)" by (simp flip: pow2_add)
  also have "\<dots> \<le> pow2 (?e + 1) * of_int q"
    using q1 by (intro mult_left_mono) auto
  finally have hi: "\<bar>x\<bar> < pow2 (?e + 1)"
    using qp by (simp add: x field_simps)
  show "pow2 (expo x) \<le> \<bar>x\<bar>" "\<bar>x\<bar> < pow2 (expo x + 1)"
    using lo hi by (auto simp: expo_def pq Let_def)
qed

lemma expo_le_iff: "x \<noteq> 0 \<Longrightarrow> \<bar>x\<bar> < pow2 (e + 1) \<Longrightarrow> expo x \<le> e"
  using expo_bounds [of x] pow2_less_imp [of "expo x" "e + 1"] by fastforce

lemma expo_mono:
  assumes "x \<noteq> 0" "\<bar>x\<bar> \<le> \<bar>y\<bar>"
  shows "expo x \<le> expo y"
proof -
  have "y \<noteq> 0" using assms by auto
  then have "\<bar>x\<bar> < pow2 (expo y + 1)" using expo_bounds(2) [of y] assms by linarith
  then show ?thesis using assms(1) by (rule expo_le_iff [rotated])
qed

lemma rne_mono: "x \<le> y \<Longrightarrow> rne x \<le> rne y"
proof -
  assume xy: "x \<le> y"
  then have f: "\<lfloor>x\<rfloor> \<le> \<lfloor>y\<rfloor>" by (rule floor_mono)
  show ?thesis
  proof (cases "\<lfloor>x\<rfloor> = \<lfloor>y\<rfloor>")
    case True
    then show ?thesis using xy by (auto simp: rne_def Let_def)
  next
    case False
    then have "\<lfloor>x\<rfloor> + 1 \<le> \<lfloor>y\<rfloor>" using f by linarith
    moreover have "rne x \<le> \<lfloor>x\<rfloor> + 1" "\<lfloor>y\<rfloor> \<le> rne y" by (auto simp: rne_def Let_def)
    ultimately show ?thesis by linarith
  qed
qed

lemma rne_of_int [simp]: "rne (of_int n) = n"
  by (simp add: rne_def)

lemma rne_le_int: "x \<le> of_int n \<Longrightarrow> rne x \<le> n"
  using rne_mono [of x "of_int n"] by simp

lemma rne_ge_int: "of_int n \<le> x \<Longrightarrow> n \<le> rne x"
  using rne_mono [of "of_int n" x] by simp

lemma rne_uminus: "rne (- x) = - rne x"
proof -
  have x: "x = of_int \<lfloor>x\<rfloor> + frac x" by (simp add: frac_def)
  show ?thesis
  proof (cases "frac x = 0")
    case True
    then have "x = of_int \<lfloor>x\<rfloor>" using x by simp
    then show ?thesis by (metis of_int_minus rne_of_int)
  next
    case False
    then have "\<lfloor>- x\<rfloor> = - \<lfloor>x\<rfloor> - 1"
      by (metis Ints_of_int ceiling_altdef ceiling_def frac_eq_0_iff minus_diff_eq minus_minus diff_conv_add_uminus minus_add_distrib)
    then show ?thesis
      by (auto simp: rne_def Let_def)
  qed
qed

lemma expo_uminus [simp]: "expo (- x) = expo x"
  by (simp add: expo_def)

lemma round64_uminus: "round64 (- x) = - round64 x"
  by (simp add: round64_def ulp_of_def rne_uminus)

definition ulp_exp :: "rat \<Rightarrow> int" where
  "ulp_exp x = max (expo x - 52) (- 1074)"

lemma ulp_of_exp: "ulp_of x = pow2 (ulp_exp x)"
  by (simp add: ulp_of_def ulp_exp_def)

lemma pow2_div_int: "b \<le> a \<Longrightarrow> pow2 a / pow2 b = of_int (2 ^ nat (a - b))"
  using pow2_diff [of a b] pow2_nat [of "nat (a - b)"] by simp

lemma round64_le_pow2:
  assumes "x \<noteq> 0" "x \<le> pow2 k" "ulp_exp x \<le> k"
  shows "round64 x \<le> pow2 k"
proof -
  have "x / ulp_of x \<le> pow2 k / ulp_of x"
    using assms(2) by (simp add: ulp_of_exp divide_right_mono)
  also have "\<dots> = of_int (2 ^ nat (k - ulp_exp x))"
    using assms(3) by (simp add: ulp_of_exp pow2_div_int)
  finally have "rne (x / ulp_of x) \<le> 2 ^ nat (k - ulp_exp x)" by (rule rne_le_int)
  then have "of_int (rne (x / ulp_of x)) \<le> (of_int (2 ^ nat (k - ulp_exp x)) :: rat)"
    by (simp only: of_int_le_iff)
  also have "\<dots> = pow2 k / ulp_of x"
    using assms(3) by (simp add: ulp_of_exp pow2_div_int)
  finally show ?thesis
    using assms(1) by (simp add: round64_def ulp_of_exp field_simps)
qed

lemma round64_ge_pow2:
  assumes "pow2 k \<le> x" "ulp_exp x \<le> k"
  shows "pow2 k \<le> round64 x"
proof -
  have "x \<noteq> 0" using assms(1) pow2_pos [of k] by linarith
  have "pow2 k / ulp_of x = of_int (2 ^ nat (k - ulp_exp x))"
    using assms(2) by (simp add: ulp_of_exp pow2_div_int)
  moreover have "pow2 k / ulp_of x \<le> x / ulp_of x"
    using assms(1) by (simp add: ulp_of_exp divide_right_mono)
  ultimately have "2 ^ nat (k - ulp_exp x) \<le> rne (x / ulp_of x)"
    by (intro rne_ge_int) simp
  then have "(of_int (2 ^ nat (k - ulp_exp x)) :: rat) \<le> of_int (rne (x / ulp_of x))"
    by (simp only: of_int_le_iff)
  then have "pow2 k / ulp_of x \<le> of_int (rne (x / ulp_of x))"
    using assms(2) by (simp add: ulp_of_exp pow2_div_int)
  then show ?thesis
    using \<open>x \<noteq> 0\<close> by (simp add: round64_def ulp_of_exp field_simps)
qed

lemma round64_nonneg: "0 \<le> x \<Longrightarrow> 0 \<le> round64 x"
  using rne_ge_int [of 0 "x / ulp_of x"] by (simp add: round64_def ulp_of_def)

lemma round64_mono_pos:
  assumes "0 < x" "x \<le> y"
  shows "round64 x \<le> round64 y"
proof (cases "ulp_exp x = ulp_exp y")
  case True
  then have "x / ulp_of x \<le> y / ulp_of y"
    using assms by (simp add: ulp_of_exp divide_right_mono)
  then have "rne (x / ulp_of x) \<le> rne (y / ulp_of y)" by (rule rne_mono)
  then show ?thesis using True assms by (simp add: round64_def ulp_of_exp)
next
  case False
  have le: "expo x \<le> expo y" using assms by (intro expo_mono) auto
  with False have lt: "ulp_exp x < ulp_exp y" "expo x < expo y"
    by (auto simp: ulp_exp_def max_def split: if_splits)
  then have uy: "ulp_exp y = expo y - 52" and ux: "ulp_exp x \<le> expo y"
    by (auto simp: ulp_exp_def max_def split: if_splits)
  have "x < pow2 (expo x + 1)" using expo_bounds(2) [of x] assms by simp
  also have "\<dots> \<le> pow2 (expo y)" using lt by (intro pow2_mono) simp
  finally have "round64 x \<le> pow2 (expo y)"
    using assms ux by (intro round64_le_pow2) auto
  moreover have "pow2 (expo y) \<le> round64 y"
    using expo_bounds(1) [of y] assms uy by (intro round64_ge_pow2) auto
  ultimately show ?thesis by linarith
qed

lemma round64_mono: "x \<le> y \<Longrightarrow> round64 x \<le> round64 y"
proof -
  assume xy: "x \<le> y"
  consider "0 < x" | "x \<le> 0" "0 \<le> y" | "y < 0" by linarith
  then show ?thesis
  proof cases
    case 1
    then show ?thesis using xy by (rule round64_mono_pos)
  next
    case 2
    then have "round64 x \<le> 0" using round64_nonneg [of "- x"] by (simp add: round64_uminus)
    then show ?thesis using round64_nonneg [OF 2(2)] by linarith
  next
    case 3
    then show ?thesis
      using round64_mono_pos [of "- y" "- x"] xy by (simp add: round64_uminus)
  qed
qed

lemma round64_dyadic_lt:
  assumes "\<bar>m\<bar> < 2 ^ 53" "- 1074 \<le> k"
  shows "round64 (of_int m * pow2 k) = of_int m * pow2 k"
proof (cases "m = 0")
  case False
  let ?x = "of_int m * pow2 k"
  have nz: "?x \<noteq> 0" using False by simp
  have "\<bar>?x\<bar> = of_int \<bar>m\<bar> * pow2 k" by (simp add: abs_mult)
  also have "\<dots> < of_int (2 ^ 53) * pow2 k"
    using assms(1) by (intro mult_strict_right_mono) (simp_all only: of_int_less_iff pow2_pos)
  also have "\<dots> = pow2 (53 + k)" by (simp add: pow2_add) (simp add: pow2_def)
  finally have "expo ?x \<le> k + 52"
    using nz by (intro expo_le_iff) (simp_all add: algebra_simps)
  then have u: "ulp_exp ?x \<le> k" using assms(2) by (simp add: ulp_exp_def)
  have "?x / ulp_of ?x = of_int m * (pow2 k / pow2 (ulp_exp ?x))"
    by (simp add: ulp_of_exp)
  also have "\<dots> = of_int (m * 2 ^ nat (k - ulp_exp ?x))"
    by (simp only: pow2_div_int [OF u] of_int_mult)
  finally have "?x / ulp_of ?x = of_int (m * 2 ^ nat (k - ulp_exp ?x))" .
  then have "of_int (rne (?x / ulp_of ?x)) = ?x / ulp_of ?x"
    by (simp only: rne_of_int)
  then show ?thesis using nz by (simp add: round64_def ulp_of_exp)
qed (simp add: round64_def)

lemma round64_dyadic:
  assumes "\<bar>m\<bar> \<le> 2 ^ 53" "- 1074 \<le> k"
  shows "round64 (of_int m * pow2 k) = of_int m * pow2 k"
proof (cases "\<bar>m\<bar> = 2 ^ 53")
  case True
  then have "m = 2 ^ 53 \<or> m = - (2 ^ 53)" by linarith
  moreover have "pow2 (53 + k) = 2 ^ 53 * pow2 k" by (simp add: pow2_add) (simp add: pow2_def)
  ultimately have m: "of_int m * pow2 k = of_int (sgn m) * pow2 (53 + k)" by auto
  have "\<bar>sgn m\<bar> < (2::int) ^ 53" by (simp add: sgn_if)
  then show ?thesis using assms(2) unfolding m by (intro round64_dyadic_lt) auto
next
  case False
  then show ?thesis using assms by (intro round64_dyadic_lt) auto
qed

lemma round64_of_int: "\<bar>n\<bar> \<le> 2 ^ 53 \<Longrightarrow> round64 (of_int n) = of_int n"
  using round64_dyadic [of n 0] by (simp add: pow2_def)

lemma fl_finite: "\<bar>round64 x\<bar> < pow2 1024 \<Longrightarrow> fl x = Fin (round64 x)"
  using expo_le_iff [of "round64 x" 1023] by (auto simp: fl_def Let_def)

lemma fl_of_int: "\<bar>n\<bar> \<le> 2 ^ 53 \<Longrightarrow> fl (of_int n) = Fin (of_int n)"
proof -
  assume n: "\<bar>n\<bar> \<le> 2 ^ 53"
  have "(of_int \<bar>n\<bar> :: rat) \<le> of_int (2 ^ 53)" using n by (simp only: of_int_le_iff)
  also have "\<dots> < pow2 1024" by (simp add: pow2_def)
  finally have "\<bar>of_int n\<bar> < pow2 1024" by simp
  then show ?thesis using n fl_finite [of "of_int n"] by (simp add: round64_of_int)
qed

lemma fl_numeral [num_simps]:
  "numeral k \<le> (2::int) ^ 53 \<Longrightarrow> fl (numeral k) = Fin (numeral k)"
  using fl_of_int [of "numeral k"] by simp

lemma fl_0 [simp]: "fl 0 = Fin 0"
  using fl_of_int [of 0] by simp

lemma fl_1 [simp]: "fl 1 = Fin 1"
  using fl_of_int [of 1] by simp

text \<open>A result between two small integers is finite and stays between them.\<close>

lemma fl_between:
  assumes "of_int a \<le> x" "x \<le> of_int b" "\<bar>a\<bar> \<le> 2 ^ 53" "\<bar>b\<bar> \<le> 2 ^ 53"
  shows "\<exists>r. fl x = Fin r \<and> of_int a \<le> r \<and> r \<le> of_int b"
proof -
  have r: "of_int a \<le> round64 x" "round64 x \<le> of_int b"
    using round64_mono [OF assms(1)] round64_mono [OF assms(2)] assms(3,4)
    by (simp_all add: round64_of_int)
  have "(of_int \<bar>a\<bar> :: rat) \<le> of_int (2 ^ 53)" "(of_int \<bar>b\<bar> :: rat) \<le> of_int (2 ^ 53)"
    using assms(3,4) by (simp_all only: of_int_le_iff)
  moreover have "(of_int (2 ^ 53) :: rat) < pow2 1024" by (simp add: pow2_def)
  ultimately have "\<bar>of_int a\<bar> < pow2 1024" "\<bar>of_int b\<bar> < pow2 1024" by simp_all
  then have "\<bar>round64 x\<bar> < pow2 1024" using r by (simp add: abs_less_iff)
  then show ?thesis using r fl_finite [of x] by blast
qed

section \<open>Arithmetic and comparison\<close>

fun n_neg :: "jsnum \<Rightarrow> jsnum" where
  "n_neg NaN = NaN"
| "n_neg PInf = NInf"
| "n_neg NInf = PInf"
| "n_neg (Fin a) = Fin (- a)"

fun n_add :: "jsnum \<Rightarrow> jsnum \<Rightarrow> jsnum" where
  "n_add (Fin a) (Fin b) = fl (a + b)"
| "n_add NaN _ = NaN"
| "n_add _ NaN = NaN"
| "n_add PInf NInf = NaN"
| "n_add NInf PInf = NaN"
| "n_add PInf _ = PInf"
| "n_add _ PInf = PInf"
| "n_add NInf _ = NInf"
| "n_add _ NInf = NInf"

definition n_sub :: "jsnum \<Rightarrow> jsnum \<Rightarrow> jsnum" where
  "n_sub a b = n_add a (n_neg b)"

definition inf_sgn :: "bool \<Rightarrow> jsnum" where
  "inf_sgn neg = (if neg then NInf else PInf)"

fun n_mul :: "jsnum \<Rightarrow> jsnum \<Rightarrow> jsnum" where
  "n_mul (Fin a) (Fin b) = fl (a * b)"
| "n_mul NaN _ = NaN"
| "n_mul _ NaN = NaN"
| "n_mul (Fin a) y = (if a = 0 then NaN else inf_sgn ((a < 0) = (y = PInf)))"
| "n_mul x (Fin b) = (if b = 0 then NaN else inf_sgn ((b < 0) = (x = PInf)))"
| "n_mul x y = inf_sgn (x \<noteq> y)"

fun n_div :: "jsnum \<Rightarrow> jsnum \<Rightarrow> jsnum" where
  "n_div (Fin a) (Fin b) =
     (if b = 0 then (if a = 0 then NaN else inf_sgn (a < 0)) else fl (a / b))"
| "n_div NaN _ = NaN"
| "n_div _ NaN = NaN"
| "n_div (Fin a) _ = Fin 0"
| "n_div x (Fin b) = inf_sgn ((b < 0) = (x = PInf))"
| "n_div _ _ = NaN"

fun n_lt :: "jsnum \<Rightarrow> jsnum \<Rightarrow> bool" where
  "n_lt (Fin a) (Fin b) = (a < b)"
| "n_lt NaN _ = False"
| "n_lt _ NaN = False"
| "n_lt NInf y = (y \<noteq> NInf)"
| "n_lt _ NInf = False"
| "n_lt x PInf = (x \<noteq> PInf)"
| "n_lt PInf _ = False"

definition n_eq :: "jsnum \<Rightarrow> jsnum \<Rightarrow> bool" where
  "n_eq a b \<longleftrightarrow> a \<noteq> NaN \<and> a = b"

definition n_le :: "jsnum \<Rightarrow> jsnum \<Rightarrow> bool" where
  "n_le a b \<longleftrightarrow> n_lt a b \<or> n_eq a b"

fun n_finite :: "jsnum \<Rightarrow> bool" where
  "n_finite (Fin _) = True"
| "n_finite _ = False"

text \<open>The falsy numbers are zero and NaN.\<close>

definition n_truthy :: "jsnum \<Rightarrow> bool" where
  "n_truthy a \<longleftrightarrow> a \<noteq> NaN \<and> a \<noteq> Fin 0"

text \<open>\<open>Math.floor\<close>, \<open>Math.round\<close> (ties towards plus infinity) and \<open>Math.max\<close>/\<open>Math.min\<close>.\<close>

definition rround :: "rat \<Rightarrow> int" where
  "rround x = \<lfloor>x + 1 / 2\<rfloor>"

fun n_round :: "jsnum \<Rightarrow> jsnum" where
  "n_round (Fin a) = Fin (of_int (rround a))"
| "n_round x = x"

fun n_floor :: "jsnum \<Rightarrow> jsnum" where
  "n_floor (Fin a) = Fin (of_int \<lfloor>a\<rfloor>)"
| "n_floor x = x"

definition n_max :: "jsnum \<Rightarrow> jsnum \<Rightarrow> jsnum" where
  "n_max a b = (if a = NaN \<or> b = NaN then NaN else if n_lt a b then b else a)"

definition n_min :: "jsnum \<Rightarrow> jsnum \<Rightarrow> jsnum" where
  "n_min a b = (if a = NaN \<or> b = NaN then NaN else if n_lt b a then b else a)"

lemma n_le_Fin [simp]: "n_le (Fin a) (Fin b) \<longleftrightarrow> a \<le> b"
  by (auto simp: n_le_def n_eq_def)

lemma n_eq_Fin [simp]: "n_eq (Fin a) (Fin b) \<longleftrightarrow> a = b"
  by (simp add: n_eq_def)

lemma n_max_Fin [simp]: "n_max (Fin a) (Fin b) = Fin (max a b)"
  by (simp add: n_max_def)

lemma n_min_Fin [simp]: "n_min (Fin a) (Fin b) = Fin (min a b)"
  by (simp add: n_min_def)

lemma n_truthy_Fin [simp]: "n_truthy (Fin a) \<longleftrightarrow> a \<noteq> 0"
  by (simp add: n_truthy_def)

lemma rround_mono: "x \<le> y \<Longrightarrow> rround x \<le> rround y"
  by (simp add: rround_def floor_mono)

lemma rround_of_int [simp]: "rround (of_int n) = n"
proof -
  have "\<lfloor>(of_int n :: rat) + 1 / 2\<rfloor> = n" by (rule floor_unique) simp_all
  then show ?thesis by (simp add: rround_def)
qed

lemma rround_numeral [simp]: "rround (numeral k) = numeral k" "rround 0 = 0" "rround 1 = 1"
  using rround_of_int [of "numeral k"] rround_of_int [of 0] rround_of_int [of 1] by simp_all

lemma rround_uminus_numeral [simp]: "rround (- numeral k) = - numeral k" "rround (- 1) = - 1"
  using rround_of_int [of "- numeral k"] rround_of_int [of "- 1"] by simp_all

lemma rround_bounds: "of_int a \<le> x \<Longrightarrow> x \<le> of_int b \<Longrightarrow> a \<le> rround x \<and> rround x \<le> b"
  using rround_mono [of "of_int a" x] rround_mono [of x "of_int b"] by simp

section \<open>Numbers as text\<close>

definition digit_char :: "int \<Rightarrow> char" where
  "digit_char d = ''0123456789'' ! nat d"

fun nat_str :: "int \<Rightarrow> string" where
  "nat_str n = (if n < 10 then [digit_char n] else nat_str (n div 10) @ [digit_char (n mod 10)])"

declare nat_str.simps [simp del]

definition int_str :: "int \<Rightarrow> string" where
  "int_str n = (if n < 0 then CHR ''-'' # nat_str (- n) else nat_str n)"

text \<open>
  \<open>Number.prototype.toFixed\<close>: the integer nearest to \<open>x * 10 ^ f\<close>, the larger one on a tie.
\<close>

definition pad_left :: "nat \<Rightarrow> char \<Rightarrow> string \<Rightarrow> string" where
  "pad_left n c s = replicate (n - length s) c @ s"

definition to_fixed_nn :: "nat \<Rightarrow> rat \<Rightarrow> string" where
  "to_fixed_nn f x =
     (let m = nat_str \<lfloor>x * 10 ^ f + 1 / 2\<rfloor> in
      if f = 0 then m
      else (let m' = pad_left (f + 1) (CHR ''0'') m; k = length m' - f
            in take k m' @ ''.'' @ drop k m'))"

definition to_fixed :: "nat \<Rightarrow> rat \<Rightarrow> string" where
  "to_fixed f x = (if x < 0 then CHR ''-'' # to_fixed_nn f (- x) else to_fixed_nn f x)"

text \<open>
  \<open>Number::toString\<close>: a safe integer prints as its decimal digits; any other finite value
  prints as the shortest digit string that rounds back to it, placed as the language
  standard says. \<open>dexp\<close> is the decimal exponent \<open>n\<close> with \<open>10 ^ (n - 1) \<le> x < 10 ^ n\<close>;
  400 steps are enough because the smallest positive value is above \<open>10 ^ -324\<close>, and 17 digits
  always round back.
\<close>

fun lead_zeros :: "nat \<Rightarrow> rat \<Rightarrow> nat" where
  "lead_zeros 0 x = 0"
| "lead_zeros (Suc n) x = (if 1 \<le> x * 10 then 0 else Suc (lead_zeros n (x * 10)))"

definition pow10 :: "int \<Rightarrow> rat" where
  "pow10 e = (if 0 \<le> e then 10 ^ nat e else 1 / 10 ^ nat (- e))"

definition dexp :: "rat \<Rightarrow> int" where
  "dexp x = (if 1 \<le> x then int (length (nat_str \<lfloor>x\<rfloor>)) else - int (lead_zeros 400 x))"

fun shortest :: "nat \<Rightarrow> nat \<Rightarrow> rat \<Rightarrow> int \<Rightarrow> int \<times> int" where
  "shortest 0 k x n = (rround (x / pow10 (n - int k)), n - int k)"
| "shortest (Suc fuel) k x n =
     (let s = rround (x / pow10 (n - int k)) in
      if round64 (of_int s * pow10 (n - int k)) = x then (s, n - int k)
      else shortest fuel (Suc k) x n)"

definition place_digits :: "string \<Rightarrow> int \<Rightarrow> string" where
  "place_digits ds e =
     (let k = int (length ds); n = k + e in
      if k \<le> n \<and> n \<le> 21 then ds @ replicate (nat (n - k)) (CHR ''0'')
      else if 0 < n \<and> n \<le> 21 then take (nat n) ds @ ''.'' @ drop (nat n) ds
      else if - 6 < n \<and> n \<le> 0 then ''0.'' @ replicate (nat (- n)) (CHR ''0'') @ ds
      else (let x = n - 1; sgn = (if x < 0 then ''-'' else ''+'') in
        take 1 ds @ (if k = 1 then [] else ''.'' @ drop 1 ds) @ ''e'' @ sgn @ nat_str \<bar>x\<bar>))"

definition rat_str_pos :: "rat \<Rightarrow> string" where
  "rat_str_pos x = (case shortest 16 1 x (dexp x) of (s, e) \<Rightarrow> place_digits (nat_str s) e)"

definition rat_str :: "rat \<Rightarrow> string" where
  "rat_str x =
     (if x = of_int \<lfloor>x\<rfloor> \<and> \<bar>x\<bar> \<le> 2 ^ 53 then int_str \<lfloor>x\<rfloor>
      else if x < 0 then CHR ''-'' # rat_str_pos (- x) else rat_str_pos x)"

fun num_str :: "jsnum \<Rightarrow> string" where
  "num_str NaN = ''NaN''"
| "num_str PInf = ''Infinity''"
| "num_str NInf = ''-Infinity''"
| "num_str (Fin x) = rat_str x"

lemma nat_str_nonempty [simp]: "nat_str n \<noteq> []"
  by (subst nat_str.simps) simp

lemma digit_char_inj:
  "0 \<le> a \<Longrightarrow> a < 10 \<Longrightarrow> 0 \<le> b \<Longrightarrow> b < 10 \<Longrightarrow> digit_char a = digit_char b \<Longrightarrow> a = b"
  using nth_eq_iff_index_eq [of "''0123456789''" "nat a" "nat b"] by (simp add: digit_char_def)

lemma nat_str_inj: "0 \<le> m \<Longrightarrow> 0 \<le> n \<Longrightarrow> nat_str m = nat_str n \<Longrightarrow> m = n"
proof (induction m arbitrary: n rule: nat_str.induct)
  case (1 m)
  show ?case
  proof (cases "m < 10 \<or> n < 10")
    case True
    have len: "length (nat_str k) = 1 \<longleftrightarrow> k < 10" for k
      by (subst nat_str.simps) simp
    have "m < 10" "n < 10" using True len [of m] len [of n] "1.prems" by auto
    then show ?thesis
      using "1.prems" digit_char_inj by (simp add: nat_str.simps [of m] nat_str.simps [of n])
  next
    case False
    then have "nat_str (m div 10) = nat_str (n div 10)" "digit_char (m mod 10) = digit_char (n mod 10)"
      using "1.prems" by (simp_all add: nat_str.simps [of m] nat_str.simps [of n])
    then have "m div 10 = n div 10" "m mod 10 = n mod 10"
      using "1.IH" [of "n div 10"] False digit_char_inj [of "m mod 10" "n mod 10"] by auto
    then show ?thesis by (metis div_mult_mod_eq)
  qed
qed

lemma digit_char_range: "d < 10 \<Longrightarrow> digit_char d \<in> set ''0123456789''"
  unfolding digit_char_def by (rule nth_mem) simp

lemma set_nat_str: "c \<in> set (nat_str n) \<Longrightarrow> c \<in> set ''0123456789''"
proof (induction n rule: nat_str.induct)
  case (1 n)
  show ?case
  proof (cases "n < 10")
    case True
    then have "c = digit_char n" using "1.prems" by (simp add: nat_str.simps [of n])
    with True show ?thesis using digit_char_range by blast
  next
    case False
    then have "c \<in> set (nat_str (n div 10)) \<or> c = digit_char (n mod 10)"
      using "1.prems" by (subst (asm) nat_str.simps) auto
    moreover have "n mod 10 < 10" by simp
    ultimately show ?thesis using "1.IH" False digit_char_range by blast
  qed
qed

lemma nat_str_no_minus: "nat_str n \<noteq> CHR ''-'' # xs"
proof
  assume "nat_str n = CHR ''-'' # xs"
  then have "CHR ''-'' \<in> set ''0123456789''" using set_nat_str [of "CHR ''-''" n] by simp
  then show False by simp
qed

lemma int_str_inj: "int_str a = int_str b \<Longrightarrow> a = b"
  using nat_str_no_minus nat_str_no_minus [symmetric] nat_str_inj [of a b] nat_str_inj [of "- a" "- b"]
  by (auto simp: int_str_def split: if_splits)

end
