(* ===== verification/JsText.thy ===== *)
theory JsText
  imports JsNumber
begin

text \<open>
  Strings of the source language and the string operations the code uses. A string is a
  list of code units below 256 (\<open>char list\<close>); literals of the source outside that range
  are transliterated (Hangul labels in romanised form, the em dash as two hyphens, the
  arrow as \<open>->\<close>, the middle dot as \<open>.\<close>), which keeps every comparison and every length the
  code takes of its own ASCII keys exact.

  Regular expressions are run by a backtracking matcher in the priority order of the
  source language: \<open>rx_run\<close> lists the matches from one position, first choice first, with
  their captures; \<open>rx_exec\<close> scans the start positions from the left.
\<close>

section \<open>Character classes\<close>

definition code :: "char \<Rightarrow> nat" where
  "code c = of_char c"

definition is_digit :: "char \<Rightarrow> bool" where
  "is_digit c \<longleftrightarrow> c \<in> set ''0123456789''"

definition digit_val :: "char \<Rightarrow> int" where
  "digit_val c = int (code c) - 48"

definition is_upper :: "char \<Rightarrow> bool" where
  "is_upper c \<longleftrightarrow> 65 \<le> code c \<and> code c \<le> 90"

definition is_lower :: "char \<Rightarrow> bool" where
  "is_lower c \<longleftrightarrow> 97 \<le> code c \<and> code c \<le> 122"

text \<open>The class \<open>\w\<close>, and the white space that \<open>trim\<close> and \<open>\s\<close> know below 256.\<close>

definition is_word :: "char \<Rightarrow> bool" where
  "is_word c \<longleftrightarrow> is_digit c \<or> is_upper c \<or> is_lower c \<or> c = CHR ''_''"

definition is_space :: "char \<Rightarrow> bool" where
  "is_space c \<longleftrightarrow> (9 \<le> code c \<and> code c \<le> 13) \<or> code c = 32 \<or> code c = 160"

text \<open>Case conversion: the ASCII letters and the Latin-1 capitals but the multiplication sign.\<close>

definition lower_char :: "char \<Rightarrow> char" where
  "lower_char c = (if is_upper c \<or> (192 \<le> code c \<and> code c \<le> 222 \<and> code c \<noteq> 215)
     then char_of (code c + 32) else c)"

definition upper_char :: "char \<Rightarrow> char" where
  "upper_char c = (if is_lower c \<or> (224 \<le> code c \<and> code c \<le> 254 \<and> code c \<noteq> 247)
     then char_of (code c - 32) else c)"

definition lower :: "string \<Rightarrow> string" where "lower = map lower_char"
definition upper :: "string \<Rightarrow> string" where "upper = map upper_char"

section \<open>String operations\<close>

definition trim :: "string \<Rightarrow> string" where
  "trim s = rev (dropWhile is_space (rev (dropWhile is_space s)))"

fun starts_with :: "string \<Rightarrow> string \<Rightarrow> bool" where
  "starts_with [] s = True"
| "starts_with (p # ps) [] = False"
| "starts_with (p # ps) (c # cs) = (p = c \<and> starts_with ps cs)"

text \<open>\<open>s.indexOf(p) >= 0\<close>.\<close>

fun contains :: "string \<Rightarrow> string \<Rightarrow> bool" where
  "contains p [] = (p = [])"
| "contains p (c # cs) = (starts_with p (c # cs) \<or> contains p cs)"

text \<open>\<open>s.slice(a, b)\<close> for non-negative bounds.\<close>

definition slice :: "nat \<Rightarrow> nat \<Rightarrow> 'a list \<Rightarrow> 'a list" where
  "slice a b s = take (b - a) (drop a s)"

fun join :: "string \<Rightarrow> string list \<Rightarrow> string" where
  "join sep [] = []"
| "join sep [x] = x"
| "join sep (x # y # xs) = x @ sep @ join sep (y # xs)"

text \<open>\<open>s.split(c)\<close> for a one-character separator.\<close>

fun split_on :: "char \<Rightarrow> string \<Rightarrow> string list" where
  "split_on c [] = [[]]"
| "split_on c (x # xs) = (if x = c then [] # split_on c xs
     else (case split_on c xs of [] \<Rightarrow> [[x]] | w # ws \<Rightarrow> (x # w) # ws))"

text \<open>\<open>s.replace(p, r)\<close> with a string pattern: the first occurrence only.\<close>

fun replace_first :: "string \<Rightarrow> string \<Rightarrow> string \<Rightarrow> string" where
  "replace_first p r [] = (if p = [] then r else [])"
| "replace_first p r (c # cs) =
     (if starts_with p (c # cs) then r @ drop (length p) (c # cs) else c # replace_first p r cs)"

section \<open>Regular expressions\<close>

datatype rx =
    RChr "char \<Rightarrow> bool"
  | RSeq rx rx
  | RAlt rx rx
  | RStar "char \<Rightarrow> bool"
  | REps
  | REos
  | RBos
  | RWb
  | RCap rx

type_synonym rx_pos = "char option \<times> string"

fun star_run :: "(char \<Rightarrow> bool) \<Rightarrow> char option \<Rightarrow> string \<Rightarrow> rx_pos list" where
  "star_run P p [] = [(p, [])]"
| "star_run P p (c # cs) = (if P c then star_run P (Some c) cs @ [(p, c # cs)] else [(p, c # cs)])"

definition wordish :: "char option \<Rightarrow> bool" where
  "wordish x = (case x of None \<Rightarrow> False | Some c \<Rightarrow> is_word c)"

fun rx_run :: "rx \<Rightarrow> rx_pos \<Rightarrow> (string list \<times> rx_pos) list" where
  "rx_run (RChr P) (p, []) = []"
| "rx_run (RChr P) (p, c # cs) = (if P c then [([], Some c, cs)] else [])"
| "rx_run (RSeq a b) st = concat (map (\<lambda>r. map (\<lambda>q. (fst r @ fst q, snd q)) (rx_run b (snd r))) (rx_run a st))"
| "rx_run (RAlt a b) st = rx_run a st @ rx_run b st"
| "rx_run (RStar P) st = map (\<lambda>q. ([], q)) (star_run P (fst st) (snd st))"
| "rx_run REps st = [([], st)]"
| "rx_run REos st = (if snd st = [] then [([], st)] else [])"
| "rx_run RBos st = (if fst st = None then [([], st)] else [])"
| "rx_run RWb st = (if wordish (fst st) \<noteq> wordish (case snd st of [] \<Rightarrow> None | c # _ \<Rightarrow> Some c)
     then [([], st)] else [])"
| "rx_run (RCap a) st = map (\<lambda>r. (take (length (snd st) - length (snd (snd r))) (snd st) # fst r, snd r))
     (rx_run a st)"

text \<open>
  \<open>rx_exec r s\<close> is the first match: the text before it, the text matched, its captures and
  the text after it.
\<close>

fun rx_scan :: "rx \<Rightarrow> string \<Rightarrow> char option \<Rightarrow> string \<Rightarrow> (string \<times> string \<times> string list \<times> string) option" where
  "rx_scan r bef p s =
     (case rx_run r (p, s) of
        (caps, q) # _ \<Rightarrow> Some (bef, take (length s - length (snd q)) s, caps, snd q)
      | [] \<Rightarrow> (case s of [] \<Rightarrow> None | c # cs \<Rightarrow> rx_scan r (bef @ [c]) (Some c) cs))"

definition rx_exec :: "rx \<Rightarrow> string \<Rightarrow> (string \<times> string \<times> string list \<times> string) option" where
  "rx_exec r s = rx_scan r [] None s"

definition rx_test :: "rx \<Rightarrow> string \<Rightarrow> bool" where
  "rx_test r s \<longleftrightarrow> rx_exec r s \<noteq> None"

text \<open>\<open>s.replace(/r/, t)\<close> without the global flag.\<close>

definition rx_replace :: "rx \<Rightarrow> string \<Rightarrow> string \<Rightarrow> string" where
  "rx_replace r t s = (case rx_exec r s of None \<Rightarrow> s | Some (b, m, caps, a) \<Rightarrow> b @ t @ a)"

text \<open>Building blocks: literals, literals under the \<open>i\<close> flag, repetitions, alternatives.\<close>

fun rlit :: "string \<Rightarrow> rx" where
  "rlit [] = REps"
| "rlit (c # cs) = RSeq (RChr (\<lambda>x. x = c)) (rlit cs)"

fun rlit_ci :: "string \<Rightarrow> rx" where
  "rlit_ci [] = REps"
| "rlit_ci (c # cs) = RSeq (RChr (\<lambda>x. lower_char x = lower_char c)) (rlit_ci cs)"

fun ralts :: "rx list \<Rightarrow> rx" where
  "ralts [] = RChr (\<lambda>_. False)"
| "ralts [r] = r"
| "ralts (r # s # rs) = RAlt r (ralts (s # rs))"

fun rseqs :: "rx list \<Rightarrow> rx" where
  "rseqs [] = REps"
| "rseqs (r # rs) = RSeq r (rseqs rs)"

definition rplus :: "(char \<Rightarrow> bool) \<Rightarrow> rx" where "rplus P = RSeq (RChr P) (RStar P)"
definition ropt :: "rx \<Rightarrow> rx" where "ropt r = RAlt r REps"
definition rdig :: "rx" where "rdig = RChr is_digit"
definition rdigits :: "nat \<Rightarrow> rx" where "rdigits n = rseqs (replicate n rdig)"
definition rone :: "string \<Rightarrow> rx" where "rone cs = RChr (\<lambda>c. c \<in> set cs)"

lemmas rx_defs = rplus_def ropt_def rdig_def rdigits_def rone_def

section \<open>Facts\<close>

lemma dropWhile_dropWhile [simp]: "dropWhile P (dropWhile P xs) = dropWhile P xs"
  by (induction xs) auto

lemma dropWhile_id_iff: "dropWhile P xs = xs \<longleftrightarrow> xs = [] \<or> \<not> P (hd xs)"
proof (cases xs)
  case (Cons y ys)
  have "dropWhile P ys \<noteq> y # ys"
    using length_dropWhile_le [of P ys] by (metis impossible_Cons)
  then show ?thesis using Cons by simp
qed simp

lemma dropWhile_rev_keeps:
  assumes "dropWhile P xs = xs"
  shows "dropWhile P (rev (dropWhile Q (rev xs))) = rev (dropWhile Q (rev xs))"
proof (cases "rev (dropWhile Q (rev xs))")
  case (Cons y ys)
  have "xs = rev (dropWhile Q (rev xs)) @ rev (takeWhile Q (rev xs))"
    by (metis rev_append rev_rev_ident takeWhile_dropWhile_id)
  then have "hd xs = y" "xs \<noteq> []" using Cons by (metis append_Cons list.sel(1), auto)
  then show ?thesis using assms Cons by (simp add: dropWhile_id_iff)
next
  case Nil
  then show ?thesis by (simp only: dropWhile.simps)
qed

lemma trim_idem [simp]: "trim (trim s) = trim s"
  by (simp add: trim_def dropWhile_rev_keeps)

lemma length_trim: "length (trim s) \<le> length s"
  unfolding trim_def by (metis le_trans length_dropWhile_le length_rev)

lemma starts_with_append: "starts_with p s \<longleftrightarrow> (\<exists>t. s = p @ t)"
  by (induction p s rule: starts_with.induct) auto

lemma contains_append: "contains p s \<longleftrightarrow> (\<exists>a b. s = a @ p @ b)"
proof (induction s)
  case Nil
  then show ?case by auto
next
  case IH: (Cons c cs)
  show ?case
  proof
    assume "contains p (c # cs)"
    then consider "starts_with p (c # cs)" | "contains p cs" by auto
    then show "\<exists>a b. c # cs = a @ p @ b"
    proof cases
      case 1
      then show ?thesis by (metis starts_with_append append_Nil)
    next
      case 2
      then show ?thesis using IH by (metis append_Cons)
    qed
  next
    assume "\<exists>a b. c # cs = a @ p @ b"
    then obtain a b where ab: "c # cs = a @ p @ b" by blast
    show "contains p (c # cs)"
    proof (cases a)
      case Nil
      then have "starts_with p (c # cs)" using ab by (auto simp: starts_with_append)
      then show ?thesis by simp
    next
      case (Cons x xs)
      then have "cs = xs @ p @ b" using ab by simp
      then show ?thesis using IH by auto
    qed
  qed
qed

lemma length_slice: "length (slice a b s) \<le> b - a"
  by (simp add: slice_def)

lemma join_append:
  "xs \<noteq> [] \<Longrightarrow> ys \<noteq> [] \<Longrightarrow> join sep (xs @ ys) = join sep xs @ sep @ join sep ys"
proof (induction sep xs rule: join.induct)
  case (2 sep x)
  then show ?case by (cases ys) auto
qed auto

lemma set_join: "c \<in> set (join sep xs) \<Longrightarrow> c \<in> set sep \<or> (\<exists>x \<in> set xs. c \<in> set x)"
  by (induction sep xs rule: join.induct) auto

lemma split_on_none: "c \<notin> set x \<Longrightarrow> split_on c x = [x]"
  by (induction x) auto

lemma split_on_app: "c \<notin> set x \<Longrightarrow> split_on c (x @ c # r) = x # split_on c r"
  by (induction x) auto

text \<open>Joining with a character no piece contains loses nothing: splitting gives the pieces back.\<close>

lemma split_on_join: "xs \<noteq> [] \<Longrightarrow> \<forall>x \<in> set xs. c \<notin> set x \<Longrightarrow> split_on c (join [c] xs) = xs"
  by (induction "[c]" xs rule: join.induct) (auto simp: split_on_none split_on_app)

lemma join_inj:
  assumes "xs \<noteq> []" "ys \<noteq> []" "\<forall>x \<in> set xs. c \<notin> set x" "\<forall>y \<in> set ys. c \<notin> set y"
    and "join [c] xs = join [c] ys"
  shows "xs = ys"
  using assms split_on_join by metis

end
