(* ===== verification/JsValue.thy ===== *)
theory JsValue
  imports JsText
begin

text \<open>
  The value universe of the source language as far as data can reach the code: what
  \<open>JSON.parse\<close> produces, plus \<open>undefined\<close>. An object is the list of its own enumerable
  properties in enumeration order. Property access, truthiness and the conversions
  \<open>String(v)\<close> and \<open>Number(v)\<close> follow the language standard; inherited members of
  \<open>Object.prototype\<close> are not modelled (the code looks up its own keys only).

  \<open>host\<close> bundles what the run-time environment decides: the clock, the collation
  of \<open>localeCompare(_, 'ko', {numeric: true})\<close> and of plain \<open>localeCompare\<close>, and the implementation-defined part of
  \<open>Date.parse\<close>. The standard formats of \<open>Date.parse\<close> are computed.
\<close>

datatype jsval =
    Undef
  | Null
  | JBool bool
  | JNum jsnum
  | JStr string
  | JArr "jsval list"
  | JObj "(string \<times> jsval) list"

section \<open>Tests and property access\<close>

fun truthy :: "jsval \<Rightarrow> bool" where
  "truthy Undef = False"
| "truthy Null = False"
| "truthy (JBool b) = b"
| "truthy (JNum n) = n_truthy n"
| "truthy (JStr s) = (s \<noteq> [])"
| "truthy (JArr _) = True"
| "truthy (JObj _) = True"

definition nullish :: "jsval \<Rightarrow> bool" where
  "nullish v \<longleftrightarrow> v = Undef \<or> v = Null"

text \<open>\<open>v && typeof v === 'object'\<close>: objects and arrays.\<close>

fun is_obj :: "jsval \<Rightarrow> bool" where
  "is_obj (JArr _) = True"
| "is_obj (JObj _) = True"
| "is_obj _ = False"

text \<open>The same with \<open>!Array.isArray(v)\<close>.\<close>

fun is_map :: "jsval \<Rightarrow> bool" where
  "is_map (JObj _) = True"
| "is_map _ = False"

fun is_arr :: "jsval \<Rightarrow> bool" where
  "is_arr (JArr _) = True"
| "is_arr _ = False"

fun is_str :: "jsval \<Rightarrow> bool" where
  "is_str (JStr _) = True"
| "is_str _ = False"

fun is_num :: "jsval \<Rightarrow> bool" where
  "is_num (JNum _) = True"
| "is_num _ = False"

text \<open>
  \<open>v.k\<close> for a named property. On \<open>undefined\<close> and \<open>null\<close> the language throws; the code reads
  a property only behind a guard that excludes the two, and the models keep the guard.
\<close>

fun jget :: "jsval \<Rightarrow> string \<Rightarrow> jsval" where
  "jget (JObj ps) k = (case map_of ps k of None \<Rightarrow> Undef | Some v \<Rightarrow> v)"
| "jget (JArr vs) k = (if k = ''length'' then JNum (Fin (of_nat (length vs))) else Undef)"
| "jget (JStr s) k = (if k = ''length'' then JNum (Fin (of_nat (length s))) else Undef)"
| "jget _ k = Undef"

fun has_own :: "jsval \<Rightarrow> string \<Rightarrow> bool" where
  "has_own (JObj ps) k = (k \<in> fst ` set ps)"
| "has_own _ k = False"

fun own_keys :: "jsval \<Rightarrow> string list" where
  "own_keys (JObj ps) = map fst ps"
| "own_keys _ = []"

text \<open>\<open>a || b\<close>, \<open>Array.isArray(v) ? v : []\<close> and \<open>{ ...v, k: x }\<close>.\<close>

definition jor :: "jsval \<Rightarrow> jsval \<Rightarrow> jsval" where
  "jor a b = (if truthy a then a else b)"

fun arr_of :: "jsval \<Rightarrow> jsval list" where
  "arr_of (JArr vs) = vs"
| "arr_of _ = []"

fun jput :: "string \<Rightarrow> jsval \<Rightarrow> jsval \<Rightarrow> jsval" where
  "jput k x (JObj ps) = JObj (aput k x ps)"
| "jput k x _ = JObj [(k, x)]"

section \<open>Conversions\<close>

fun to_str :: "jsval \<Rightarrow> string" where
  "to_str Undef = ''undefined''"
| "to_str Null = ''null''"
| "to_str (JBool b) = (if b then ''true'' else ''false'')"
| "to_str (JNum n) = num_str n"
| "to_str (JStr s) = s"
| "to_str (JArr vs) = join '','' (map (\<lambda>v. if v = Undef \<or> v = Null then [] else to_str v) vs)"
| "to_str (JObj _) = ''[object Object]''"

text \<open>\<open>String(v || '')\<close> and \<open>String(v == null ? '' : v)\<close>.\<close>

definition str_or :: "jsval \<Rightarrow> string" where
  "str_or v = (if truthy v then to_str v else [])"

definition str_nn :: "jsval \<Rightarrow> string" where
  "str_nn v = (if nullish v then [] else to_str v)"

text \<open>Digits to a number, the numeric literal grammar of \<open>StringToNumber\<close>.\<close>

definition digs_val :: "int \<Rightarrow> (char \<Rightarrow> int) \<Rightarrow> string \<Rightarrow> int" where
  "digs_val b f ds = foldl (\<lambda>a c. b * a + f c) 0 ds"

definition hex_val :: "char \<Rightarrow> int" where
  "hex_val c = (if is_digit c then digit_val c else int (code (lower_char c)) - 87)"

definition is_hex :: "char \<Rightarrow> bool" where
  "is_hex c \<longleftrightarrow> is_digit c \<or> c \<in> set ''abcdefABCDEF''"

definition split_sign :: "string \<Rightarrow> bool \<times> string" where
  "split_sign s = (case s of c # cs \<Rightarrow>
     if c = CHR ''-'' then (True, cs) else if c = CHR ''+'' then (False, cs) else (False, s) | [] \<Rightarrow> (False, s))"

definition parse_exp :: "string \<Rightarrow> int option" where
  "parse_exp s = (case s of [] \<Rightarrow> Some 0 | c # cs \<Rightarrow>
     if c = CHR ''e'' \<or> c = CHR ''E'' then
       (case split_sign cs of (neg, ds) \<Rightarrow>
          if ds \<noteq> [] \<and> list_all is_digit ds
          then Some ((if neg then - 1 else 1) * digs_val 10 digit_val ds) else None)
     else None)"

definition parse_unsigned :: "string \<Rightarrow> jsnum" where
  "parse_unsigned s =
     (if s = ''Infinity'' then PInf else
      let i = takeWhile is_digit s; r = dropWhile is_digit s;
          (f, r') = (case r of c # cs \<Rightarrow> if c = CHR ''.'' then (takeWhile is_digit cs, dropWhile is_digit cs)
                                        else ([], r) | [] \<Rightarrow> ([], r))
      in if i = [] \<and> f = [] then NaN
         else (case parse_exp r' of None \<Rightarrow> NaN
               | Some e \<Rightarrow> fl (of_int (digs_val 10 digit_val (i @ f)) * pow10 (e - int (length f)))))"

definition str_to_num :: "string \<Rightarrow> jsnum" where
  "str_to_num s0 =
     (let s = trim s0 in
      if s = [] then Fin 0
      else if starts_with ''0x'' s \<or> starts_with ''0X'' s then
        (let ds = drop 2 s in if ds \<noteq> [] \<and> list_all is_hex ds then fl (of_int (digs_val 16 hex_val ds)) else NaN)
      else if starts_with ''0b'' s \<or> starts_with ''0B'' s then
        (let ds = drop 2 s in if ds \<noteq> [] \<and> list_all (\<lambda>c. c \<in> set ''01'') ds
           then fl (of_int (digs_val 2 digit_val ds)) else NaN)
      else if starts_with ''0o'' s \<or> starts_with ''0O'' s then
        (let ds = drop 2 s in if ds \<noteq> [] \<and> list_all (\<lambda>c. c \<in> set ''01234567'') ds
           then fl (of_int (digs_val 8 digit_val ds)) else NaN)
      else (case split_sign s of (neg, u) \<Rightarrow>
        let n = parse_unsigned u in if neg then n_neg n else n))"

fun to_num :: "jsval \<Rightarrow> jsnum" where
  "to_num Undef = NaN"
| "to_num Null = Fin 0"
| "to_num (JBool b) = Fin (if b then 1 else 0)"
| "to_num (JNum n) = n"
| "to_num (JStr s) = str_to_num s"
| "to_num v = str_to_num (to_str v)"

text \<open>\<open>Number(v) || d\<close> and \<open>Number.isFinite(Number(v)) ? Number(v) : d\<close>.\<close>

definition num_or :: "jsval \<Rightarrow> jsnum \<Rightarrow> jsnum" where
  "num_or v d = (let n = to_num v in if n_truthy n then n else d)"

definition num_fin :: "jsval \<Rightarrow> rat \<Rightarrow> rat" where
  "num_fin v d = (case to_num v of Fin x \<Rightarrow> x | _ \<Rightarrow> d)"

text \<open>\<open>typeof v === 'number' && Number.isFinite(v) ? v : null\<close> (\<open>_num\<close> of base.js).\<close>

fun num_val :: "jsval \<Rightarrow> rat option" where
  "num_val (JNum (Fin x)) = Some x"
| "num_val _ = None"

section \<open>Well-formed values\<close>

text \<open>What the JSON parser guarantees: keys are distinct and there is no \<open>undefined\<close>.\<close>

fun wf_json :: "jsval \<Rightarrow> bool" where
  "wf_json Undef = False"
| "wf_json (JNum n) = n_finite n"
| "wf_json (JArr vs) = list_all wf_json vs"
| "wf_json (JObj ps) = (distinct (map fst ps) \<and> list_all (\<lambda>p. wf_json (snd p)) ps)"
| "wf_json _ = True"

lemma is_obj_truthy: "is_obj v \<Longrightarrow> truthy v"
  by (cases v) auto

lemma is_map_obj: "is_map v \<Longrightarrow> is_obj v"
  by (cases v) auto

lemma jor_simps [js_simps]:
  "jor Undef b = b" "jor Null b = b" "jor (JStr []) b = b" "jor (JArr vs) b = JArr vs"
  "jor (JObj ps) b = JObj ps" "jor (JStr (c # cs)) b = JStr (c # cs)"
  "jor (JBool True) b = JBool True" "jor (JBool False) b = b"
  by (simp_all add: jor_def)

lemma jget_jput [simp]: "is_map v \<Longrightarrow> jget (jput k x v) k' = (if k = k' then x else jget v k')"
  by (cases v) auto

lemma is_map_jput [simp]: "is_map (jput k x v)"
  by (cases v) auto

lemma has_own_jput: "is_map v \<Longrightarrow> has_own (jput k x v) k' \<longleftrightarrow> k' = k \<or> has_own v k'"
  by (cases v) (auto simp: keys_aput)

lemma jget_not_own: "\<not> has_own v k \<Longrightarrow> is_map v \<Longrightarrow> jget v k = Undef"
  by (cases v) (auto split: option.splits dest!: map_of_SomeD simp: image_iff)

lemma own_keys_has_own: "is_map v \<Longrightarrow> k \<in> set (own_keys v) \<longleftrightarrow> has_own v k"
  by (cases v) auto

lemma str_or_JStr [simp]: "str_or (JStr s) = s"
  by (simp add: str_or_def)

lemma str_or_falsy: "\<not> truthy v \<Longrightarrow> str_or v = []"
  by (simp add: str_or_def)

lemma num_fin_JNum [simp]: "num_fin (JNum (Fin x)) d = x"
  by (simp add: num_fin_def)

lemma num_fin_Undef [simp]: "num_fin Undef d = d"
  by (simp add: num_fin_def)

section \<open>The host environment\<close>

record host =
  now :: int \<comment> \<open>\<open>Date.now()\<close>, in milliseconds\<close>
  collate :: "string \<Rightarrow> string \<Rightarrow> int" \<comment> \<open>\<open>localeCompare\<close> with Korean numeric collation\<close>
  collate_dflt :: "string \<Rightarrow> string \<Rightarrow> int" \<comment> \<open>\<open>localeCompare\<close> without arguments\<close>
  legacy_date :: "string \<Rightarrow> int option" \<comment> \<open>\<open>Date.parse\<close> outside the standard formats\<close>

section \<open>Dates\<close>

text \<open>Days since 1970-01-01 in the proleptic Gregorian calendar, and back.\<close>

definition leap_year :: "int \<Rightarrow> bool" where
  "leap_year y \<longleftrightarrow> y mod 4 = 0 \<and> (y mod 100 \<noteq> 0 \<or> y mod 400 = 0)"

definition days_in_month :: "int \<Rightarrow> int \<Rightarrow> int" where
  "days_in_month y m =
     (if m = 2 then (if leap_year y then 29 else 28)
      else if m = 4 \<or> m = 6 \<or> m = 9 \<or> m = 11 then 30 else 31)"

definition year_start :: "int \<Rightarrow> int" where
  "year_start y = 365 * (y - 1970) + (y - 1) div 4 - (y - 1) div 100 + (y - 1) div 400 - 477"

fun month_start :: "int \<Rightarrow> nat \<Rightarrow> int" where
  "month_start y 0 = 0"
| "month_start y (Suc k) = month_start y k + days_in_month y (int (Suc k))"

definition days_from_civil :: "int \<Rightarrow> int \<Rightarrow> int \<Rightarrow> int" where
  "days_from_civil y m d = year_start y + month_start y (nat (m - 1)) + d - 1"

text \<open>The year is found from an estimate that is never late, the month by subtraction.\<close>

lemma div_step:
  assumes "0 < (n :: int)"
  shows "(y - 1) div n = (if y mod n = 0 then y div n - 1 else y div n)"
proof (cases "y mod n = 0")
  case True
  have "y - 1 = n * (y div n - 1) + (n - 1)" using True mult_div_mod_eq [of n y] by (simp add: right_diff_distrib)
  from int_div_pos_eq [OF this] have "(y - 1) div n = y div n - 1" using assms by simp
  then show ?thesis using True by simp
next
  case False
  have m: "0 < y mod n" "y mod n < n" using False assms pos_mod_sign [of n y] pos_mod_bound [of n y] by linarith+
  have "y - 1 = n * (y div n) + (y mod n - 1)" by simp
  from int_div_pos_eq [OF this] have "(y - 1) div n = y div n" using m by simp
  then show ?thesis using False by simp
qed

lemma year_start_Suc: "year_start (y + 1) = year_start y + (if leap_year y then 366 else 365)"
proof -
  have q: "(y - 1) div 4 = (if y mod 4 = 0 then y div 4 - 1 else y div 4)"
    "(y - 1) div 100 = (if y mod 100 = 0 then y div 100 - 1 else y div 100)"
    "(y - 1) div 400 = (if y mod 400 = 0 then y div 400 - 1 else y div 400)" by (simp_all only: div_step)
  have d: "y mod 400 = 0 \<Longrightarrow> y mod 100 = 0" "y mod 100 = 0 \<Longrightarrow> y mod 4 = 0"
    using dvd_trans [of 100 400 y] dvd_trans [of 4 100 y] by (auto simp: dvd_eq_mod_eq_0)
  have s: "year_start (y + 1) = 365 * (y - 1970) + 365 + y div 4 - y div 100 + y div 400 - 477"
    by (simp add: year_start_def)
  show ?thesis
    unfolding s unfolding year_start_def leap_year_def q using d by (simp split: if_splits)
qed

function year_up :: "int \<Rightarrow> int \<Rightarrow> int" where
  "year_up z y = (if year_start (y + 1) \<le> z then year_up z (y + 1) else y)"
  by pat_completeness auto
termination
proof (relation "measure (\<lambda>(z, y). nat (z + 400 - year_start y))")
  fix z y :: int
  assume "year_start (y + 1) \<le> z"
  moreover have "year_start y < year_start (y + 1)" using year_start_Suc [of y] by (cases "leap_year y") simp_all
  ultimately show "((z, y + 1), z, y) \<in> measure (\<lambda>(z, y). nat (z + 400 - year_start y))" by simp
qed simp

declare year_up.simps [simp del]

function month_up :: "int \<Rightarrow> int \<Rightarrow> int \<Rightarrow> int \<times> int" where
  "month_up y doy m = (if m < 12 \<and> days_in_month y m \<le> doy
     then month_up y (doy - days_in_month y m) (m + 1) else (m, doy + 1))"
  by pat_completeness auto
termination
  by (relation "measure (\<lambda>(y, doy, m). nat (12 - m))") auto

declare month_up.simps [simp del]

definition civil_from_days :: "int \<Rightarrow> int \<times> int \<times> int" where
  "civil_from_days z =
     (let y = year_up z (1970 + (if 0 \<le> z then z div 366 else z div 365))
      in (y, month_up y (z - year_start y) 1))"

definition valid_civil :: "int \<Rightarrow> int \<Rightarrow> int \<Rightarrow> bool" where
  "valid_civil y m d \<longleftrightarrow> 1 \<le> m \<and> m \<le> 12 \<and> 1 \<le> d \<and> d \<le> days_in_month y m"

definition ms_of :: "int \<Rightarrow> int \<Rightarrow> int \<Rightarrow> int \<Rightarrow> int \<Rightarrow> int \<Rightarrow> int \<Rightarrow> int" where
  "ms_of y m d hh mi ss ms =
     days_from_civil y m d * 86400000 + hh * 3600000 + mi * 60000 + ss * 1000 + ms"

text \<open>
  The date-time string format of the standard, with an explicit offset or as a date only:
  captures are year, month, day, hour, minute, second, milliseconds, sign, offset hours,
  offset minutes.
\<close>

definition num_of :: "string \<Rightarrow> int" where
  "num_of ds = digs_val 10 digit_val ds"

definition rx_iso :: rx where
  "rx_iso = rseqs [RBos, RCap (rdigits 4), rlit ''-'', RCap (rdigits 2), rlit ''-'', RCap (rdigits 2),
     RAlt (rseqs [rlit ''T'', RCap (rdigits 2), rlit '':'', RCap (rdigits 2),
             RAlt (rseqs [rlit '':'', RCap (rdigits 2),
                     RAlt (RSeq (rlit ''.'') (RCap (rdigits 3))) (RCap REps)])
                  (RSeq (RCap REps) (RCap REps)),
             RAlt (RSeq (rlit ''Z'') (RSeq (RCap REps) (RSeq (RCap REps) (RCap REps))))
                  (rseqs [RCap (rone ''+-''), RCap (rdigits 2), rlit '':'', RCap (rdigits 2)])])
          REps, REos]"

definition date_parse :: "host \<Rightarrow> string \<Rightarrow> int option" where
  "date_parse h s =
     (case rx_exec rx_iso s of
        Some (_, _, y # mo # d # rest, _) \<Rightarrow>
          if \<not> valid_civil (num_of y) (num_of mo) (num_of d) then legacy_date h s
          else (case rest of
            [] \<Rightarrow> Some (ms_of (num_of y) (num_of mo) (num_of d) 0 0 0 0)
          | [hh, mi, ss, ms, sg, oh, om] \<Rightarrow>
              if num_of mi \<le> 59 \<and> num_of ss \<le> 59 \<and> num_of om \<le> 59 \<and> num_of oh \<le> 23
                 \<and> (num_of hh \<le> 23 \<or> (num_of hh = 24 \<and> num_of mi = 0 \<and> num_of ss = 0 \<and> num_of ms = 0))
              then Some (ms_of (num_of y) (num_of mo) (num_of d) (num_of hh) (num_of mi) (num_of ss) (num_of ms)
                     - (if sg = ''-'' then - 1 else 1) * (num_of oh * 3600000 + num_of om * 60000))
              else legacy_date h s
          | _ \<Rightarrow> legacy_date h s)
      | _ \<Rightarrow> legacy_date h s)"

text \<open>
  The console formatter (\<open>sv-SE\<close>, \<open>Asia/Seoul\<close>): \<open>YYYY-MM-DD HH:MM:SS\<close> at the fixed
  offset of nine hours that Seoul has kept since October 1988.
\<close>

definition pad2 :: "int \<Rightarrow> string" where "pad2 n = pad_left 2 (CHR ''0'') (nat_str n)"
definition pad4 :: "int \<Rightarrow> string" where "pad4 n = pad_left 4 (CHR ''0'') (nat_str n)"

definition kst_text :: "int \<Rightarrow> string" where
  "kst_text t =
     (let k = t + 9 * 3600000; days = k div 86400000; s = (k mod 86400000) div 1000 in
      case civil_from_days days of (y, m, d) \<Rightarrow>
        pad4 y @ ''-'' @ pad2 m @ ''-'' @ pad2 d @ '' '' @
        pad2 (s div 3600) @ '':'' @ pad2 (s mod 3600 div 60) @ '':'' @ pad2 (s mod 60))"

section \<open>Calendar facts\<close>

lemma year_start_step: "year_start y + 365 \<le> year_start (y + 1) \<and> year_start (y + 1) \<le> year_start y + 366"
  by (simp add: year_start_Suc)

lemma year_start_bounds:
  "year_start y + 365 * int k \<le> year_start (y + int k) \<and> year_start (y + int k) \<le> year_start y + 366 * int k"
proof (induction k)
  case (Suc k)
  then show ?case using year_start_step [of "y + int k"] by (simp add: algebra_simps)
qed simp

lemma year_start_mono: "a \<le> b \<Longrightarrow> year_start a \<le> year_start b"
  using year_start_bounds [of a "nat (b - a)"] by simp

lemma year_up_found: "year_start y \<le> z \<Longrightarrow> year_start (year_up z y) \<le> z \<and> z < year_start (year_up z y + 1)"
proof (induction z y rule: year_up.induct)
  case (1 z y)
  then show ?case by (cases "year_start (y + 1) \<le> z") (simp_all add: year_up.simps [of z y])
qed

lemma year_unique:
  "year_start a \<le> z \<Longrightarrow> z < year_start (a + 1) \<Longrightarrow> year_start b \<le> z \<Longrightarrow> z < year_start (b + 1) \<Longrightarrow> a = b"
  using year_start_mono [of "a + 1" b] year_start_mono [of "b + 1" a] by linarith

lemma year_estimate: "year_start (1970 + (if 0 \<le> z then z div 366 else z div 365)) \<le> z"
proof (cases "0 \<le> z")
  case True
  have "year_start (1970 + int (nat (z div 366))) \<le> year_start 1970 + 366 * int (nat (z div 366))"
    using year_start_bounds by blast
  moreover have "366 * (z div 366) \<le> z" by presburger
  ultimately show ?thesis using True by (simp add: year_start_def pos_imp_zdiv_nonneg_iff)
next
  case False
  let ?n = "nat (- (z div 365))"
  have neg: "z div 365 \<le> 0" using False by presburger
  have "year_start (1970 + z div 365) + 365 * int ?n \<le> year_start ((1970 + z div 365) + int ?n)"
    using year_start_bounds by blast
  moreover have "year_start ((1970 + z div 365) + int ?n) = 0" using neg by (simp add: year_start_def)
  moreover have "365 * (z div 365) \<le> z" by presburger
  ultimately show ?thesis using False neg by simp
qed

lemma month_start_12: "month_start y 12 = (if leap_year y then 366 else 365)"
  by (simp add: numeral_eq_Suc days_in_month_def)

lemma month_start_mono: "a \<le> b \<Longrightarrow> month_start y a \<le> month_start y b"
proof (induction b)
  case (Suc b)
  have "0 \<le> days_in_month y k" for k by (simp add: days_in_month_def)
  then show ?case using Suc by (cases "a = Suc b") (auto intro: add_increasing2)
qed simp

lemma month_up_found:
  "1 \<le> m \<Longrightarrow> m + int k \<le> 12 \<Longrightarrow> 0 \<le> r \<Longrightarrow> r < days_in_month y (m + int k) \<Longrightarrow>
   month_up y (month_start y (nat (m - 1) + k) - month_start y (nat (m - 1)) + r) m = (m + int k, r + 1)"
proof (induction k arbitrary: m)
  case 0
  then show ?case by (subst month_up.simps) simp
next
  case (Suc k)
  let ?i = "nat (m - 1)"
  have i: "Suc ?i = nat (m + 1 - 1)" "int (Suc ?i) = m" using Suc.prems by simp_all
  have step: "month_start y (Suc ?i) = month_start y ?i + days_in_month y m" using i(2) by simp
  have ge: "month_start y (Suc ?i) \<le> month_start y (?i + Suc k)" by (rule month_start_mono) simp
  have IH: "month_up y (month_start y (nat (m + 1 - 1) + k) - month_start y (nat (m + 1 - 1)) + r) (m + 1)
      = (m + 1 + int k, r + 1)"
    using Suc.prems by (intro Suc.IH) (simp_all add: algebra_simps)
  have e: "nat (m + 1 - 1) + k = ?i + Suc k" using i by linarith
  define N where "N = month_start y (?i + Suc k)"
  define M where "M = month_start y ?i"
  have "month_up y (N - (M + days_in_month y m) + r) (m + 1) = (m + 1 + int k, r + 1)"
    using IH unfolding e i(1) [symmetric] step N_def M_def by simp
  moreover have "N - M + r - days_in_month y m = N - (M + days_in_month y m) + r" by simp
  moreover have "days_in_month y m \<le> N - M + r" using ge step Suc.prems by (simp add: N_def M_def)
  moreover have "m < 12" "m + int (Suc k) = m + 1 + int k" using Suc.prems by simp_all
  ultimately show ?case unfolding N_def [symmetric] M_def [symmetric]
    by (subst month_up.simps) (simp only: if_True simp_thms)
qed

lemma civil_roundtrip:
  assumes "valid_civil y m d"
  shows "civil_from_days (days_from_civil y m d) = (y, m, d)"
proof -
  let ?z = "days_from_civil y m d" and ?k = "nat (m - 1)"
  have m: "1 \<le> m" "m \<le> 12" "1 \<le> d" "d \<le> days_in_month y m" using assms by (auto simp: valid_civil_def)
  have step: "month_start y (Suc ?k) = month_start y ?k + days_in_month y m" using m by simp
  have "month_start y (Suc ?k) \<le> month_start y 12" using m by (intro month_start_mono) auto
  then have hi: "?z < year_start (y + 1)"
    using step m by (simp add: days_from_civil_def year_start_Suc month_start_12)
  have "0 \<le> month_start y ?k" using month_start_mono [of 0 ?k y] by simp
  then have lo: "year_start y \<le> ?z" using m by (simp add: days_from_civil_def)
  have y: "year_up ?z (1970 + (if 0 \<le> ?z then ?z div 366 else ?z div 365)) = y"
    using year_up_found [OF year_estimate, of ?z] lo hi by (blast intro: year_unique)
  have "month_up y (month_start y (nat (1 - 1) + ?k) - month_start y (nat (1 - 1)) + (d - 1)) 1 = (1 + int ?k, (d - 1) + 1)"
    using m by (intro month_up_found) simp_all
  then have "month_up y (?z - year_start y) 1 = (m, d)"
    using m by (simp add: days_from_civil_def algebra_simps)
  then show ?thesis using y by (simp add: civil_from_days_def Let_def)
qed

end
