(* ===== verification/Json.thy ===== *)
theory Json
  imports JsValue
begin

text \<open>
  \<open>JSON.stringify\<close> and \<open>JSON.parse\<close> on the value universe, as far as the code uses them
  (compact output, no replacer). The parser is recursive descent with fuel; the length of
  the text plus one is enough, because every nested call consumes a character. Members keep
  the order of the text.

  The main fact is the round trip \<open>json_roundtrip\<close>: what was written for a value without
  \<open>undefined\<close>, with distinct keys and safe integers as its numbers, is read back unchanged.
\<close>

section \<open>Writing\<close>

definition QUO :: char where "QUO = CHR 0x22"
definition BSL :: char where "BSL = CHR 0x5C"

definition hex_char :: "nat \<Rightarrow> char" where
  "hex_char n = ''0123456789abcdef'' ! n"

definition json_esc :: "char \<Rightarrow> string" where
  "json_esc c =
     (if c = QUO then [BSL, QUO] else if c = BSL then [BSL, BSL]
      else if code c = 8 then [BSL, CHR ''b''] else if code c = 9 then [BSL, CHR ''t'']
      else if code c = 10 then [BSL, CHR ''n''] else if code c = 12 then [BSL, CHR ''f'']
      else if code c = 13 then [BSL, CHR ''r'']
      else if code c < 32 then [BSL, CHR ''u'', CHR ''0'', CHR ''0'', hex_char (code c div 16), hex_char (code c mod 16)]
      else [c])"

definition json_quote :: "string \<Rightarrow> string" where
  "json_quote s = QUO # concat (map json_esc s) @ [QUO]"

fun stringify :: "jsval \<Rightarrow> string" where
  "stringify Undef = ''null''"
| "stringify Null = ''null''"
| "stringify (JBool b) = (if b then ''true'' else ''false'')"
| "stringify (JNum n) = (if n_finite n then num_str n else ''null'')"
| "stringify (JStr s) = json_quote s"
| "stringify (JArr vs) = ''['' @ join '','' (map stringify vs) @ '']''"
| "stringify (JObj ps) = ''{'' @ join '',''
     (concat (map (\<lambda>(k, v). if v = Undef then [] else [json_quote k @ '':'' @ stringify v]) ps)) @ ''}''"

section \<open>Reading\<close>

fun parse_chars :: "string \<Rightarrow> (string \<times> string) option" where
  "parse_chars [] = None"
| "parse_chars (c # cs) =
     (if c = QUO then Some ([], cs)
      else if c = BSL then
        (case cs of
           [] \<Rightarrow> None
         | e # r \<Rightarrow>
            if e = CHR ''u'' then
              (case r of
                 a # b # x # y # r' \<Rightarrow>
                   if is_hex a \<and> is_hex b \<and> is_hex x \<and> is_hex y
                   then map_option (\<lambda>(s, t). (char_of (nat (digs_val 16 hex_val [a, b, x, y])) # s, t)) (parse_chars r')
                   else None
               | _ \<Rightarrow> None)
            else
              (case map_of [(QUO, QUO), (BSL, BSL), (CHR ''/'', CHR ''/''), (CHR ''b'', CHR 0x08),
                   (CHR ''f'', CHR 0x0C), (CHR ''n'', CHR 0x0A), (CHR ''r'', CHR 0x0D), (CHR ''t'', CHR 0x09)] e of
                 None \<Rightarrow> None
               | Some c' \<Rightarrow> map_option (\<lambda>(s, t). (c' # s, t)) (parse_chars r)))
      else if code c < 32 then None
      else map_option (\<lambda>(s, t). (c # s, t)) (parse_chars cs))"

definition json_ws :: "char \<Rightarrow> bool" where
  "json_ws c \<longleftrightarrow> code c = 32 \<or> code c = 9 \<or> code c = 10 \<or> code c = 13"

definition skip_ws :: "string \<Rightarrow> string" where "skip_ws = dropWhile json_ws"

definition parse_num :: "string \<Rightarrow> (jsnum \<times> string) option" where
  "parse_num s =
     (let neg = starts_with ''-'' s; s1 = (if neg then tl s else s);
          ds = takeWhile is_digit s1; r = dropWhile is_digit s1 in
      if ds = [] \<or> (hd ds = CHR ''0'' \<and> 1 < length ds) then None
      else
        (let frac = starts_with ''.'' r;
             fs = (if frac then takeWhile is_digit (tl r) else []);
             r2 = (if frac then dropWhile is_digit (tl r) else r) in
         if frac \<and> fs = [] then None
         else
           (let ex = starts_with ''e'' r2 \<or> starts_with ''E'' r2;
                (eneg, r3) = (if ex then split_sign (tl r2) else (False, r2));
                es = (if ex then takeWhile is_digit r3 else []);
                r4 = (if ex then dropWhile is_digit r3 else r3) in
            if ex \<and> es = [] then None
            else
              (let e = (if eneg then - 1 else 1) * digs_val 10 digit_val es;
                   v = of_int (digs_val 10 digit_val (ds @ fs)) * pow10 (e - int (length fs))
               in Some (fl (if neg then - v else v), r4)))))"

fun parse_val :: "nat \<Rightarrow> string \<Rightarrow> (jsval \<times> string) option"
  and parse_items :: "nat \<Rightarrow> string \<Rightarrow> (jsval list \<times> string) option"
  and parse_members :: "nat \<Rightarrow> (string \<times> jsval) list \<Rightarrow> string \<Rightarrow> ((string \<times> jsval) list \<times> string) option" where
  "parse_val 0 s = None"
| "parse_val (Suc n) s =
     (case skip_ws s of
        [] \<Rightarrow> None
      | c # r \<Rightarrow>
          if c = QUO then map_option (\<lambda>(t, r'). (JStr t, r')) (parse_chars r)
          else if c = CHR ''['' then
            (case skip_ws r of
               [] \<Rightarrow> None
             | d # r' \<Rightarrow> if d = CHR '']'' then Some (JArr [], r')
                         else map_option (\<lambda>(vs, t). (JArr vs, t)) (parse_items n (d # r')))
          else if c = CHR ''{'' then
            (case skip_ws r of
               [] \<Rightarrow> None
             | d # r' \<Rightarrow> if d = CHR ''}'' then Some (JObj [], r')
                         else map_option (\<lambda>(ps, t). (JObj ps, t)) (parse_members n [] (d # r')))
          else if starts_with ''null'' (c # r) then Some (Null, drop 4 (c # r))
          else if starts_with ''true'' (c # r) then Some (JBool True, drop 4 (c # r))
          else if starts_with ''false'' (c # r) then Some (JBool False, drop 5 (c # r))
          else map_option (\<lambda>(x, t). (JNum x, t)) (parse_num (c # r)))"
| "parse_items 0 s = None"
| "parse_items (Suc n) s =
     (case parse_val n s of
        None \<Rightarrow> None
      | Some (v, r) \<Rightarrow>
          (case skip_ws r of
             [] \<Rightarrow> None
           | c # r' \<Rightarrow> if c = CHR '']'' then Some ([v], r')
                       else if c = CHR '','' then map_option (\<lambda>(vs, t). (v # vs, t)) (parse_items n r')
                       else None))"
| "parse_members 0 acc s = None"
| "parse_members (Suc n) acc s =
     (case skip_ws s of
        [] \<Rightarrow> None
      | q # r0 \<Rightarrow>
         if q \<noteq> QUO then None else
         (case parse_chars r0 of
            None \<Rightarrow> None
          | Some (k, r1) \<Rightarrow>
              (case skip_ws r1 of
                 [] \<Rightarrow> None
               | c # r2 \<Rightarrow>
                   if c \<noteq> CHR '':'' then None else
                   (case parse_val n r2 of
                      None \<Rightarrow> None
                    | Some (v, r3) \<Rightarrow>
                        (case skip_ws r3 of
                           [] \<Rightarrow> None
                         | d # r4 \<Rightarrow> if d = CHR ''}'' then Some (aput k v acc, r4)
                                     else if d = CHR '','' then parse_members n (aput k v acc) r4
                                     else None)))))"

definition json_parse :: "string \<Rightarrow> jsval option" where
  "json_parse s = (case parse_val (Suc (length s)) s of
     Some (v, r) \<Rightarrow> if skip_ws r = [] then Some v else None | None \<Rightarrow> None)"

section \<open>The round trip\<close>

fun json_safe :: "jsval \<Rightarrow> bool" where
  "json_safe Undef = False"
| "json_safe (JNum n) = (\<exists>i. n = Fin (of_int i) \<and> \<bar>i\<bar> \<le> 2 ^ 53)"
| "json_safe (JArr vs) = list_all json_safe vs"
| "json_safe (JObj ps) = (distinct (map fst ps) \<and> list_all (\<lambda>p. json_safe (snd p)) ps)"
| "json_safe _ = True"

lemma control_escape:
  "code c < 32 \<Longrightarrow> is_hex (hex_char (code c div 16)) \<and> is_hex (hex_char (code c mod 16)) \<and>
     char_of (nat (digs_val 16 hex_val [CHR ''0'', CHR ''0'', hex_char (code c div 16), hex_char (code c mod 16)])) = c"
proof -
  have all: "list_all (\<lambda>n. is_hex (hex_char (n div 16)) \<and> is_hex (hex_char (n mod 16)) \<and>
      nat (digs_val 16 hex_val [CHR ''0'', CHR ''0'', hex_char (n div 16), hex_char (n mod 16)]) = n) [0..<32]"
    by code_simp
  assume "code c < 32"
  then have "is_hex (hex_char (code c div 16)) \<and> is_hex (hex_char (code c mod 16)) \<and>
      nat (digs_val 16 hex_val [CHR ''0'', CHR ''0'', hex_char (code c div 16), hex_char (code c mod 16)]) = code c"
    using all bspec [of "set [0..<32]" _ "code c"] unfolding list_all_iff by force
  then show ?thesis by (simp add: code_def)
qed

lemma code_CHR:
  "code c = 8 \<longleftrightarrow> c = CHR 0x08" "code c = 9 \<longleftrightarrow> c = CHR 0x09" "code c = 10 \<longleftrightarrow> c = CHR 0x0A"
  "code c = 12 \<longleftrightarrow> c = CHR 0x0C" "code c = 13 \<longleftrightarrow> c = CHR 0x0D"
proof -
  have "code (CHR 0x08) = 8" "code (CHR 0x09) = 9" "code (CHR 0x0A) = 10" "code (CHR 0x0C) = 12"
    "code (CHR 0x0D) = 13"
    by code_simp+
  then show "code c = 8 \<longleftrightarrow> c = CHR 0x08" "code c = 9 \<longleftrightarrow> c = CHR 0x09" "code c = 10 \<longleftrightarrow> c = CHR 0x0A"
    "code c = 12 \<longleftrightarrow> c = CHR 0x0C" "code c = 13 \<longleftrightarrow> c = CHR 0x0D"
    by (metis code_def of_char_eq_iff)+
qed

lemma BSL_QUO_neq [simp]: "BSL \<noteq> QUO" "QUO \<noteq> BSL" "CHR ''u'' \<noteq> QUO" "CHR ''u'' \<noteq> BSL"
  by (simp_all add: QUO_def BSL_def)

lemma is_hex_0 [simp]: "is_hex (CHR ''0'')"
  by (simp add: is_hex_def is_digit_def)

lemma parse_chars_esc1: "parse_chars (json_esc c @ t) = map_option (\<lambda>(s, r). (c # s, r)) (parse_chars t)"
proof -
  consider "c = QUO" | "c = BSL" | "c \<noteq> QUO" "c \<noteq> BSL" "c \<in> {CHR 0x08, CHR 0x09, CHR 0x0A, CHR 0x0C, CHR 0x0D}"
    | "c \<noteq> QUO" "c \<noteq> BSL" "c \<notin> {CHR 0x08, CHR 0x09, CHR 0x0A, CHR 0x0C, CHR 0x0D}" "code c < 32"
    | "c \<noteq> QUO" "c \<noteq> BSL" "\<not> code c < 32" by blast
  then show ?thesis
  proof cases
    case 3
    then show ?thesis by (auto simp: json_esc_def code_CHR QUO_def BSL_def)
  next
    case 4
    then have "json_esc c = [BSL, CHR ''u'', CHR ''0'', CHR ''0'', hex_char (code c div 16), hex_char (code c mod 16)]"
      by (simp add: json_esc_def code_CHR)
    then show ?thesis using control_escape [OF 4(4)] by simp
  next
    case 5
    then have "json_esc c = [c]" by (auto simp: json_esc_def)
    then show ?thesis using 5 by simp
  qed (simp_all add: json_esc_def QUO_def BSL_def)
qed

lemma parse_chars_quote: "parse_chars (concat (map json_esc s) @ QUO # r) = Some (s, r)"
  by (induction s) (simp_all add: parse_chars_esc1 del: parse_chars.simps(2), simp)

lemma digs_val_snoc: "digs_val b f (xs @ [c]) = b * digs_val b f xs + f c"
  by (simp add: digs_val_def)

lemma digit_val_char: "0 \<le> d \<Longrightarrow> d < 10 \<Longrightarrow> digit_val (digit_char d) = d"
proof -
  have all: "list_all (\<lambda>n. digit_val (''0123456789'' ! n) = int n) [0..<10]" by code_simp
  assume d: "0 \<le> d" "d < 10"
  then have "nat d \<in> set [0..<10]" by auto
  then have "digit_val (''0123456789'' ! nat d) = int (nat d)" using all unfolding list_all_iff by blast
  then show ?thesis using d by (simp add: digit_char_def)
qed

lemma digs_val_nat_str: "0 \<le> n \<Longrightarrow> digs_val 10 digit_val (nat_str n) = n"
proof (induction n rule: nat_str.induct)
  case (1 n)
  show ?case
  proof (cases "n < 10")
    case True
    then show ?thesis using 1 by (simp add: nat_str.simps [of n] digs_val_def digit_val_char)
  next
    case False
    then have "digs_val 10 digit_val (nat_str (n div 10)) = n div 10" using 1 by simp
    moreover have "digit_val (digit_char (n mod 10)) = n mod 10" by (rule digit_val_char) simp_all
    ultimately show ?thesis using False by (subst nat_str.simps) (simp add: digs_val_snoc)
  qed
qed

lemma hd_nat_str: "1 \<le> n \<Longrightarrow> hd (nat_str n) \<noteq> CHR ''0''"
proof (induction n rule: nat_str.induct)
  case (1 n)
  show ?case
  proof (cases "n < 10")
    case True
    then have "digit_char n \<noteq> digit_char 0" using 1 digit_char_inj [of n 0] by auto
    then show ?thesis using True by (simp add: nat_str.simps [of n] digit_char_def)
  next
    case False
    then have "1 \<le> n div 10" by auto
    then have "hd (nat_str (n div 10)) \<noteq> CHR ''0''" using 1 False by simp
    then show ?thesis using False by (subst nat_str.simps) simp
  qed
qed

lemma all_digits_nat_str: "c \<in> set (nat_str n) \<Longrightarrow> is_digit c"
  using set_nat_str by (simp add: is_digit_def)

definition json_stop :: "string \<Rightarrow> bool" where
  "json_stop r \<longleftrightarrow> (case r of [] \<Rightarrow> True | c # _ \<Rightarrow> c \<in> set '',]}'')"

lemma json_stop_cases [consumes 1]:
  assumes "json_stop r"
  obtains "r = []" | t where "r = CHR '','' # t" | t where "r = CHR '']'' # t" | t where "r = CHR ''}'' # t"
  using assms by (cases r) (auto simp: json_stop_def)

lemma stop_span:
  assumes "json_stop r" "\<forall>c \<in> set ds. is_digit c"
  shows "takeWhile is_digit (ds @ r) = ds" "dropWhile is_digit (ds @ r) = r"
proof -
  have "takeWhile is_digit r = [] \<and> dropWhile is_digit r = r"
    using assms(1) by (cases rule: json_stop_cases) (simp_all add: is_digit_def)
  then show "takeWhile is_digit (ds @ r) = ds" "dropWhile is_digit (ds @ r) = r"
    using assms(2) by (simp_all add: takeWhile_append2 dropWhile_append2)
qed

lemma parse_num_nat:
  assumes "json_stop r" "0 \<le> n" "n \<le> 2 ^ 53"
  shows "parse_num (nat_str n @ r) = Some (Fin (of_int n), r)"
    and "parse_num (CHR ''-'' # nat_str n @ r) = Some (Fin (- of_int n), r)"
proof -
  have no: "\<not> (hd (nat_str n) = CHR ''0'' \<and> 1 < length (nat_str n))"
    using hd_nat_str [of n] assms(2) by (cases "1 \<le> n") (auto simp: nat_str.simps [of 0] dest: order_antisym)
  have rs: "\<not> starts_with ''.'' r" "\<not> starts_with ''e'' r" "\<not> starts_with ''E'' r"
    using assms(1) by (cases rule: json_stop_cases; simp)+
  have ns: "\<not> starts_with ''-'' (nat_str n @ r)"
  proof
    assume "starts_with ''-'' (nat_str n @ r)"
    then have "hd (nat_str n) = CHR ''-''" by (auto simp: starts_with_append dest: arg_cong [where f = hd])
    then have "is_digit (CHR ''-'')" by (metis all_digits_nat_str hd_in_set nat_str_nonempty)
    then show False by (simp add: is_digit_def)
  qed
  have span: "takeWhile is_digit (nat_str n @ r) = nat_str n" "dropWhile is_digit (nat_str n @ r) = r"
    using stop_span [OF assms(1)] all_digits_nat_str by blast+
  have fl: "fl (of_int n) = Fin (of_int n)" "fl (- of_int n) = Fin (- of_int n)"
    using fl_of_int [of n] fl_of_int [of "- n"] assms by simp_all
  show "parse_num (nat_str n @ r) = Some (Fin (of_int n), r)"
    using no rs ns span fl assms(2) by (simp add: parse_num_def Let_def digs_val_nat_str digs_val_def [of _ _ "[]"] pow10_def)
  show "parse_num (CHR ''-'' # nat_str n @ r) = Some (Fin (- of_int n), r)"
    using no rs span fl assms(2) by (simp add: parse_num_def Let_def digs_val_nat_str digs_val_def [of _ _ "[]"] pow10_def)
qed

lemma num_str_int: "\<bar>i\<bar> \<le> 2 ^ 53 \<Longrightarrow> num_str (Fin (of_int i)) = int_str i"
proof -
  assume "\<bar>i\<bar> \<le> 2 ^ 53"
  then have "(of_int \<bar>i\<bar> :: rat) \<le> of_int (2 ^ 53)" by (simp only: of_int_le_iff)
  then show ?thesis by (simp add: rat_str_def)
qed

lemma parse_num_int: "json_stop r \<Longrightarrow> \<bar>i\<bar> \<le> 2 ^ 53 \<Longrightarrow> parse_num (int_str i @ r) = Some (Fin (of_int i), r)"
  using parse_num_nat [of r i] parse_num_nat [of r "- i"] by (auto simp: int_str_def)

lemma aput_new: "k \<notin> fst ` set xs \<Longrightarrow> aput k v xs = xs @ [(k, v)]"
  by (induction xs) auto

lemma digit_head: "is_digit c \<Longrightarrow> \<not> json_ws c \<and> c \<notin> set ''[]{}:,tfn'' \<and> c \<noteq> QUO"
  by (auto simp: is_digit_def json_ws_def QUO_def code_def)

lemma int_str_head: "\<exists>c t. int_str i = c # t \<and> \<not> json_ws c \<and> c \<notin> set ''[]{}:,tfn'' \<and> c \<noteq> QUO"
proof (cases "i < 0")
  case True
  then show ?thesis by (auto simp: int_str_def json_ws_def code_def QUO_def)
next
  case False
  obtain c t where "nat_str i = c # t" by (cases "nat_str i") auto
  moreover from this have "is_digit c" using all_digits_nat_str [of c i] by simp
  ultimately show ?thesis using False digit_head by (simp add: int_str_def)
qed

lemma stringify_head:
  "json_safe v \<Longrightarrow> \<exists>c t. stringify v = c # t \<and> \<not> json_ws c \<and> c \<noteq> CHR '']'' \<and> c \<noteq> CHR ''}''"
proof (cases v)
  case (JNum n)
  assume "json_safe v"
  then obtain i where i: "n = Fin (of_int i)" "\<bar>i\<bar> \<le> 2 ^ 53" using JNum by auto
  then have "stringify v = int_str i" using JNum num_str_int by simp
  then show ?thesis using int_str_head [of i] by auto
qed (auto simp: json_ws_def code_def json_quote_def QUO_def)

lemma skip_ws_stringify: "json_safe v \<Longrightarrow> skip_ws (stringify v @ r) = stringify v @ r"
  using stringify_head [of v] by (auto simp: skip_ws_def)

lemma json_ws_punct [simp]:
  "\<not> json_ws (CHR '','')" "\<not> json_ws (CHR '']'')" "\<not> json_ws (CHR ''}'')" "\<not> json_ws (CHR '':'')"
  "\<not> json_ws (CHR ''['')" "\<not> json_ws (CHR ''{'')" "\<not> json_ws QUO"
  by (simp_all add: json_ws_def code_def QUO_def)

definition rt :: "jsval \<Rightarrow> bool" where
  "rt v \<longleftrightarrow> (\<forall>n r. json_safe v \<longrightarrow> json_stop r \<longrightarrow> length (stringify v) \<le> n \<longrightarrow>
     parse_val (Suc n) (stringify v @ r) = Some (v, r))"

lemma rtD: "rt v \<Longrightarrow> json_safe v \<Longrightarrow> json_stop r \<Longrightarrow> Suc (length (stringify v)) \<le> n \<Longrightarrow>
  parse_val n (stringify v @ r) = Some (v, r)"
  by (cases n) (auto simp: rt_def)

lemma json_stop_punct [simp]: "json_stop (CHR '','' # t)" "json_stop (CHR '']'' # t)" "json_stop (CHR ''}'' # t)" "json_stop []"
  by (simp_all add: json_stop_def)

lemma parse_items_rt:
  "vs \<noteq> [] \<Longrightarrow> \<forall>v \<in> set vs. rt v \<and> json_safe v \<Longrightarrow> length (join '','' (map stringify vs)) + 2 \<le> n \<Longrightarrow>
   parse_items n (join '','' (map stringify vs) @ '']'' @ r) = Some (vs, r)"
proof (induction vs arbitrary: n)
  case (Cons v vs)
  then obtain m where n: "n = Suc m" by (cases n) auto
  show ?case
  proof (cases vs)
    case Nil
    have "parse_val m (stringify v @ CHR '']'' # r) = Some (v, CHR '']'' # r)"
      using Cons.prems Nil n by (intro rtD) auto
    then show ?thesis using Nil n by (simp add: skip_ws_def)
  next
    case C: (Cons w ws)
    let ?t = "join '','' (map stringify vs) @ '']'' @ r"
    have "parse_val m (stringify v @ CHR '','' # ?t) = Some (v, CHR '','' # ?t)"
      using Cons.prems C n by (intro rtD) auto
    moreover have "parse_items m ?t = Some (vs, r)"
      using Cons.prems C n by (intro Cons.IH) auto
    ultimately show ?thesis using C n by (simp add: skip_ws_def)
  qed
qed simp

definition json_member :: "string \<times> jsval \<Rightarrow> string" where
  "json_member p = json_quote (fst p) @ '':'' @ stringify (snd p)"

lemma concat_members:
  "list_all (\<lambda>p. json_safe (snd p)) ps \<Longrightarrow>
   concat (map (\<lambda>(k, v). if v = Undef then [] else [json_quote k @ '':'' @ stringify v]) ps) = map json_member ps"
  by (induction ps) (auto simp: json_member_def)

lemma parse_members_rt:
  "ps \<noteq> [] \<Longrightarrow> \<forall>p \<in> set ps. rt (snd p) \<and> json_safe (snd p) \<Longrightarrow> distinct (map fst (acc @ ps)) \<Longrightarrow>
   length (join '','' (map json_member ps)) + 2 \<le> n \<Longrightarrow>
   parse_members n acc (join '','' (map json_member ps) @ ''}'' @ r) = Some (acc @ ps, r)"
proof (induction ps arbitrary: n acc)
  case (Cons p ps)
  obtain k v where p: "p = (k, v)" by (cases p)
  obtain m where n: "n = Suc m" using Cons.prems by (cases n) auto
  have new: "aput k v acc = acc @ [(k, v)]"
    using Cons.prems(3) p by (intro aput_new) force
  have q: "json_member p @ t = QUO # concat (map json_esc k) @ QUO # CHR '':'' # stringify v @ t" for t
    by (simp add: json_member_def json_quote_def p)
  show ?case
  proof (cases ps)
    case Nil
    have "parse_val m (stringify v @ CHR ''}'' # r) = Some (v, CHR ''}'' # r)"
      using Cons.prems Nil n p by (intro rtD) (auto simp: json_member_def)
    then show ?thesis using Nil n q new p by (simp add: skip_ws_def parse_chars_quote)
  next
    case C: (Cons w ws)
    let ?t = "join '','' (map json_member ps) @ ''}'' @ r"
    have "parse_val m (stringify v @ CHR '','' # ?t) = Some (v, CHR '','' # ?t)"
      using Cons.prems C n p by (intro rtD) (auto simp: json_member_def)
    moreover have "parse_members m (acc @ [(k, v)]) ?t = Some ((acc @ [(k, v)]) @ ps, r)"
      using Cons.prems C n p by (intro Cons.IH) auto
    ultimately show ?thesis using C n q new p by (simp add: skip_ws_def parse_chars_quote)
  qed
qed simp

lemma join_first: "xs \<noteq> [] \<Longrightarrow> hd xs = c # t \<Longrightarrow> \<exists>u. join sep xs = c # u"
  by (cases "(sep, xs)" rule: join.cases) auto

lemma rt_all: "rt v"
proof (induction v)
  case Undef show ?case by (simp add: rt_def)
next
  case Null show ?case by (simp add: rt_def skip_ws_def json_ws_def code_def QUO_def)
next
  case (JBool b) show ?case by (simp add: rt_def skip_ws_def json_ws_def code_def QUO_def)
next
  case (JNum x)
  show ?case unfolding rt_def
  proof (intro allI impI)
    fix n r assume safe: "json_safe (JNum x)" and r: "json_stop r"
    then obtain i where i: "x = Fin (of_int i)" "\<bar>i\<bar> \<le> 2 ^ 53" by auto
    then have s: "stringify (JNum x) = int_str i" using num_str_int by simp
    obtain c t where c: "int_str i = c # t" "\<not> json_ws c" "c \<notin> set ''[]{}:,tfn''" "c \<noteq> QUO"
      using int_str_head by blast
    show "parse_val (Suc n) (stringify (JNum x) @ r) = Some (JNum x, r)"
      using parse_num_int [OF r i(2)] c i(1) unfolding s by (auto simp: skip_ws_def)
  qed
next
  case (JStr s)
  show ?case by (simp add: rt_def json_quote_def skip_ws_def parse_chars_quote)
next
  case (JArr vs)
  show ?case unfolding rt_def
  proof (intro allI impI)
    fix n r assume safe: "json_safe (JArr vs)" and r: "json_stop r" and n: "length (stringify (JArr vs)) \<le> n"
    show "parse_val (Suc n) (stringify (JArr vs) @ r) = Some (JArr vs, r)"
    proof (cases vs)
      case Nil
      then show ?thesis by (simp add: skip_ws_def QUO_def)
    next
      case (Cons w ws)
      have all: "\<forall>v \<in> set vs. rt v \<and> json_safe v" using JArr safe by (auto simp: list_all_iff)
      obtain c t where c: "stringify w = c # t" "\<not> json_ws c" "c \<noteq> CHR '']''"
        using stringify_head [of w] all Cons by auto
      have "hd (map stringify vs) = c # t" using c Cons by simp
      then obtain u where u: "join '','' (map stringify vs) = c # u"
        using join_first [of "map stringify vs" c t "'',''"] Cons by auto
      have "parse_items n (join '','' (map stringify vs) @ '']'' @ r) = Some (vs, r)"
        using all n Cons by (intro parse_items_rt) simp_all
      then show ?thesis using c u by (simp add: skip_ws_def QUO_def)
    qed
  qed
next
  case (JObj ps)
  show ?case unfolding rt_def
  proof (intro allI impI)
    fix n r assume safe: "json_safe (JObj ps)" and r: "json_stop r" and n: "length (stringify (JObj ps)) \<le> n"
    have all: "\<forall>p \<in> set ps. rt (snd p) \<and> json_safe (snd p)" using JObj safe by (auto simp: list_all_iff snds.simps)
    have str: "stringify (JObj ps) = ''{'' @ join '','' (map json_member ps) @ ''}''"
      using safe concat_members [of ps] by simp
    show "parse_val (Suc n) (stringify (JObj ps) @ r) = Some (JObj ps, r)"
    proof (cases ps)
      case Nil
      then show ?thesis by (simp add: skip_ws_def QUO_def)
    next
      case (Cons p qs)
      have "hd (map json_member ps) = QUO # concat (map json_esc (fst p)) @ QUO # '':'' @ stringify (snd p)"
        using Cons by (simp add: json_member_def json_quote_def)
      then obtain u where u: "join '','' (map json_member ps) = QUO # u"
        using join_first [of "map json_member ps" QUO _ "'',''"] Cons by auto
      have "parse_members n [] (join '','' (map json_member ps) @ ''}'' @ r) = Some ([] @ ps, r)"
        using all n Cons safe unfolding str by (intro parse_members_rt) simp_all
      then show ?thesis using u unfolding str by (simp add: skip_ws_def) (simp add: QUO_def)
    qed
  qed
qed

lemma json_roundtrip: "json_safe v \<Longrightarrow> json_parse (stringify v) = Some v"
  using rtD [OF rt_all, of v "[]" "Suc (length (stringify v))"]
  by (simp add: json_parse_def skip_ws_def)

section \<open>What a parse establishes\<close>

text \<open>No object of a parsed value has a key twice.\<close>

fun keys_ok :: "jsval \<Rightarrow> bool" where
  "keys_ok (JArr vs) = list_all keys_ok vs"
| "keys_ok (JObj ps) = (distinct (map fst ps) \<and> list_all (\<lambda>p. keys_ok (snd p)) ps)"
| "keys_ok _ = True"

lemma keys_ok_aput:
  "list_all (\<lambda>p. keys_ok (snd p)) ps \<Longrightarrow> keys_ok v \<Longrightarrow> list_all (\<lambda>p. keys_ok (snd p)) (aput k v ps)"
  by (induction k v ps rule: aput.induct) auto

lemma parse_keys_ok:
  "parse_val n s = Some (v, r) \<Longrightarrow> keys_ok v"
  "parse_items n s = Some (vs, r) \<Longrightarrow> list_all keys_ok vs"
  "parse_members n acc s = Some (ps, r) \<Longrightarrow> distinct (map fst acc) \<and> list_all (\<lambda>p. keys_ok (snd p)) acc
     \<Longrightarrow> distinct (map fst ps) \<and> list_all (\<lambda>p. keys_ok (snd p)) ps"
proof (induction n s and n s and n acc s arbitrary: v r and vs r and ps r
    rule: parse_val_parse_items_parse_members.induct)
  case (2 n s)
  then show ?case by (auto split: list.splits if_splits prod.splits)
next
  case (4 n s)
  from "4.prems" obtain v r' where v: "parse_val n s = Some (v, r')" by (auto split: option.splits)
  obtain c t where c: "skip_ws r' = c # t" using "4.prems" v by (auto split: list.splits)
  have ok: "keys_ok v" using "4.IH"(1) v by blast
  show ?case
  proof (cases "c = CHR '']''")
    case True
    then show ?thesis using "4.prems" v c ok by auto
  next
    case False
    then have "c = CHR '',''" using "4.prems" v c by (auto split: if_splits)
    then show ?thesis using "4.prems" "4.IH"(2) [OF v refl c] v c False ok by auto
  qed
next
  case (6 n acc s)
  from "6.prems"(1) obtain r0 where q: "skip_ws s = QUO # r0" by (auto split: list.splits if_splits)
  from "6.prems"(1) q obtain k r1 where k: "parse_chars r0 = Some (k, r1)" by (auto split: option.splits)
  from "6.prems"(1) q k obtain r2 where c: "skip_ws r1 = CHR '':'' # r2" by (auto split: list.splits if_splits)
  from "6.prems"(1) q k c obtain v r3 where v: "parse_val n r2 = Some (v, r3)" by (auto split: option.splits)
  from "6.prems"(1) q k c v obtain d r4 where d: "skip_ws r3 = d # r4" by (auto split: list.splits)
  have "keys_ok v" using "6.IH"(1) q k c v by blast
  then have acc: "distinct (map fst (aput k v acc)) \<and> list_all (\<lambda>p. keys_ok (snd p)) (aput k v acc)"
    using "6.prems"(2) by (simp add: distinct_aput keys_ok_aput)
  show ?case
  proof (cases "d = CHR ''}''")
    case True
    then show ?thesis using "6.prems"(1) q k c v d acc by simp
  next
    case False
    then have "d = CHR '',''" "parse_members n (aput k v acc) r4 = Some (ps, r)"
      using "6.prems"(1) q k c v d by (simp_all split: if_splits)
    then show ?thesis using "6.IH"(2) q k c v d False acc by blast
  qed
qed simp_all

lemma json_parse_keys: "json_parse s = Some v \<Longrightarrow> keys_ok v"
  by (auto simp: json_parse_def simp del: parse_val.simps intro: parse_keys_ok(1) split: option.splits if_splits)

end
