(* ===== verification/Data.thy ===== *)
theory Data
  imports JsValue
begin

text \<open>
  The device model of \<open>src/web/js/model/data.js\<close>: the type registry, the status and
  synchronisation rules, and the normalisation of the poller's answer into devices. A raw
  answer is a \<open>jsval\<close>; a normalised device is a record whose fields have the types the
  normaliser establishes. Objects the normaliser passes through unread stay \<open>jsval\<close>.

  The lemmas show that every device that leaves the normaliser satisfies \<open>wf_device\<close>
  whatever the answer was, and that the capability normaliser is idempotent and fails closed.
\<close>

section \<open>Type registry\<close>

datatype dev_type = EV | EDGE | END | FTS | SRV | PLC | PC | NAS | WIN | PI | PRN

datatype dev_status = Op | Deg | Down

datatype dev_sync = Sync | Simplex | Offline

record type_meta =
  tm_label :: string
  tm_labelEN :: "string option"
  tm_short :: string
  tm_kindEN :: string
  tm_kindKO :: string
  tm_icon :: string
  tm_supported :: bool

definition mk_type :: "string \<Rightarrow> string option \<Rightarrow> string \<Rightarrow> string \<Rightarrow> string \<Rightarrow> string \<Rightarrow> bool \<Rightarrow> type_meta" where
  "mk_type l e s ke kk ic spd = \<lparr>tm_label = l, tm_labelEN = e, tm_short = s, tm_kindEN = ke,
     tm_kindKO = kk, tm_icon = ic, tm_supported = spd\<rparr>"

fun TYPES :: "dev_type \<Rightarrow> type_meta" where
  "TYPES EV = mk_type ''everRun'' None ''EV'' ''Datacenter FT'' ''deiteosenteo FT'' ''ph-stack'' True"
| "TYPES EDGE = mk_type ''ztC Edge'' None ''EDGE'' ''Edge FT'' ''eji FT'' ''ph-cpu'' True"
| "TYPES END = mk_type ''ztC Endurance'' None ''END'' ''Legacy imported record'' ''regeosi gajyeoogi rekodeu'' ''ph-hard-drives'' False"
| "TYPES FTS = mk_type ''ftServer'' None ''FTS'' ''Fault-tolerant server'' ''mujeongji seobeo'' ''ph-shield-check'' True"
| "TYPES SRV = mk_type ''seobeo'' (Some ''Server'') ''SRV'' ''General server'' ''ilban seobeo'' ''ph-hard-drive'' True"
| "TYPES PLC = mk_type ''PLC'' None ''PLC'' ''Controller'' ''jeeogi'' ''ph-squares-four'' True"
| "TYPES PC = mk_type ''PC'' None ''PC'' ''PC / Workstation'' ''PC / wokeuseuteisyeon'' ''ph-desktop'' True"
| "TYPES NAS = mk_type ''NAS'' None ''NAS'' ''Network storage'' ''neteuwokeu seutoriji'' ''ph-hard-drives'' True"
| "TYPES WIN = mk_type ''Windows Server'' None ''WIN'' ''Windows Server'' ''Windows seobeo'' ''ph-windows-logo'' True"
| "TYPES PI = mk_type ''Raspberry Pi'' None ''PI'' ''Single-board computer'' ''singgeulbodeu keompyuteo'' ''ph-raspberry-pi'' True"
| "TYPES PRN = mk_type ''peurinteo'' (Some ''Printer'') ''PRN'' ''Network printer'' ''neteuwokeu peurinteo'' ''ph-printer'' True"

definition type_key :: "dev_type \<Rightarrow> string" where
  "type_key t = tm_short (TYPES t)"

definition TYPE_KEYS :: "dev_type list" where
  "TYPE_KEYS = [EV, EDGE, END, FTS, SRV, PLC, PC, NAS, WIN, PI, PRN]"

fun status_key :: "dev_status \<Rightarrow> string" where
  "status_key Op = ''op''"
| "status_key Deg = ''deg''"
| "status_key Down = ''down''"

fun sync_key :: "dev_sync \<Rightarrow> string" where
  "sync_key Sync = ''sync''"
| "sync_key Simplex = ''simplex''"
| "sync_key Offline = ''offline''"

definition STATUS_KEYS :: "dev_status list" where "STATUS_KEYS = [Op, Deg, Down]"
definition SYNC_KEYS :: "dev_sync list" where "SYNC_KEYS = [Sync, Simplex, Offline]"

text \<open>The membership tests \<open>KEYS.indexOf(v) >= 0\<close>, with the key recognised.\<close>

definition find_type :: "jsval \<Rightarrow> dev_type option" where
  "find_type v = find (\<lambda>t. v = JStr (type_key t)) TYPE_KEYS"

definition find_status :: "jsval \<Rightarrow> dev_status option" where
  "find_status v = find (\<lambda>s. v = JStr (status_key s)) STATUS_KEYS"

definition find_sync :: "jsval \<Rightarrow> dev_sync option" where
  "find_sync v = find (\<lambda>s. v = JStr (sync_key s)) SYNC_KEYS"

definition FT_TYPES :: "dev_type list" where "FT_TYPES = [EV, EDGE, END, FTS]"

definition isFT :: "dev_type \<Rightarrow> bool" where "isFT t \<longleftrightarrow> t \<in> set FT_TYPES"

definition isNoTel :: "dev_type \<Rightarrow> bool" where "isNoTel t \<longleftrightarrow> t = PLC \<or> t = PRN"

section \<open>Status derivation\<close>

definition clamp3 :: "'a::linorder \<Rightarrow> 'a \<Rightarrow> 'a \<Rightarrow> 'a" where
  "clamp3 v a b = (if v < a then a else if v > b then b else v)"

definition rx_CRIT :: rx where
  "rx_CRIT = ralts (map rlit_ci [''offline'', ''unreachable'', ''failed'', ''fault'', ''lost'',
      ''cannot'', ''expired'', ''broken''] @ [rseqs [RWb, rlit_ci ''down'', RWb], rlit_ci ''simplex''])"

definition rx_WARN :: rx where
  "rx_WARN = ralts (map rlit_ci [''warning'', ''no link'', ''disconnect'', ''maintenance''] @
      [RSeq RWb (rlit_ci ''sync'')] @
      map rlit_ci [''pressure'', ''capacity'', ''temporary'', ''degrade'', ''reboot'', ''unexpected''])"

definition classify :: "string \<Rightarrow> string" where
  "classify v = (if rx_test rx_CRIT v then ''critical''
                 else if rx_test rx_WARN v then ''warning'' else ''info'')"

definition node_running :: "jsval \<Rightarrow> bool" where
  "node_running n \<longleftrightarrow> truthy n \<and> jget n ''state'' = JStr ''running''"

definition node_abnormal :: "jsval \<Rightarrow> bool" where
  "node_abnormal n \<longleftrightarrow> truthy n \<and> truthy (jget n ''standing'') \<and> jget n ''standing'' \<noteq> JStr ''normal''"

definition node_healthy :: "jsval \<Rightarrow> bool" where
  "node_healthy n \<longleftrightarrow> node_running n \<and>
     (\<not> truthy (jget n ''standing'') \<or> jget n ''standing'' = JStr ''normal'')"

definition deriveStatus :: "jsval \<Rightarrow> jsval \<Rightarrow> dev_status" where
  "deriveStatus nodes snmpNodes =
     (let ns = arr_of nodes in
      if ns \<noteq> [] then
        (let running = length (filter node_running ns) in
         if running = 0 then Down
         else if running < length ns \<or> list_ex node_abnormal ns then Deg
         else Op)
      else
        (let sn = arr_of snmpNodes;
             reach = filter (\<lambda>n. truthy n \<and> truthy (jget n ''reachable'')) sn in
         if length reach = 0 then Down
         else if length reach < length sn then Deg
         else if list_ex (\<lambda>n. truthy (jget n ''degraded'')) reach then Deg else Op))"

definition deriveSync :: "jsval \<Rightarrow> dev_status \<Rightarrow> dev_sync" where
  "deriveSync nodes status =
     (let ns = arr_of nodes in
      if ns = [] then (if status = Op then Sync else if status = Deg then Simplex else Offline)
      else
        (let runningAny = length (filter node_running ns);
             healthy = length (filter node_healthy ns) in
         if runningAny = 0 then Offline else if 2 \<le> healthy then Sync else Simplex))"

text \<open>The nominal availability, as the doubles the literals denote.\<close>

fun availN :: "dev_status \<Rightarrow> rat" where
  "availN Op = round64 (9999 / 100)"
| "availN Deg = round64 (999 / 10)"
| "availN Down = 99"

section \<open>Normalised devices\<close>

record alert_rec =
  al_name :: string
  al_desc :: string
  al_time :: string
  al_severity :: string
  al_sev :: jsval

record trap_rec =
  tr_desc :: string
  tr_oid :: string
  tr_time :: string
  tr_src :: string
  tr_sev :: jsval

record dev_meta =
  m_label :: string
  m_company :: string
  m_factory :: string
  m_mgmt :: string
  m_version :: string
  m_assetTag :: string
  m_floorPos :: string
  m_vendor :: string
  m_sample :: bool
  m_demo :: bool
  m_error :: jsval
  m_pending :: bool
  m_downSince :: string
  m_issueSince :: string
  m_unit :: jsval
  m_nodes :: "jsval list"
  m_snmp :: "jsval list"
  m_vmList :: "jsval list"
  m_vms :: rat
  m_vmRunning :: rat
  m_alerts :: "alert_rec list"
  m_traps :: "trap_rec list"
  m_license :: jsval
  m_lastVmSwitch :: jsval
  m_lastNodeSwitch :: jsval
  m_lastReboot :: jsval
  m_bmc :: jsval
  m_events :: "jsval list"
  m_topo :: jsval
  m_platform :: string
  m_healthLevel :: string
  m_healthReasons :: "jsval list"
  m_alertCounts :: jsval
  m_collection :: jsval
  m_stale :: bool
  m_uuid :: string
  m_plc :: jsval
  m_srv :: jsval
  m_srvNet :: "jsval list"
  m_srvDisks :: "jsval list"
  m_srvStorage :: "jsval list"
  m_srvThermal :: jsval
  m_pc :: jsval
  m_nas :: jsval
  m_win :: jsval
  m_pi :: jsval
  m_printer :: jsval
  m_endurance :: jsval
  m_localEdit :: jsval

record device =
  d_id :: string
  d_host :: string
  d_type :: dev_type
  d_site :: string
  d_status :: dev_status
  d_availN :: rat
  d_availDays :: rat
  d_cpu0 :: int
  d_mem0 :: int
  d_cpuNA :: bool
  d_memNA :: bool
  d_sync :: dev_sync
  d_uptime :: int
  d_updatedAt :: rat
  d_live :: bool
  d_meta :: dev_meta
  d_histCpu :: "rat list"
  d_histMem :: "rat list"
  d_histRtt :: "rat list"

section \<open>Normalisation\<close>

definition normalizeAlert :: "jsval \<Rightarrow> alert_rec" where
  "normalizeAlert a =
     (let desc = str_or (jor (jget a ''desc'') (jor (jget a ''message'') (jget a ''name''))) in
      \<lparr>al_name = str_or (jget a ''name''),
       al_desc = desc,
       al_time = str_or (jget a ''time''),
       al_severity = str_or (jget a ''severity''),
       al_sev = jor (jget a ''sev'') (JStr (classify (str_or (jget a ''name'') @ '' '' @ desc)))\<rparr>)"

definition normalizeTrap :: "jsval \<Rightarrow> trap_rec" where
  "normalizeTrap t =
     (let desc = to_str (jor (jget t ''desc'') (jor (jget t ''oid'') (JStr ''SNMP trap''))) in
      \<lparr>tr_desc = desc,
       tr_oid = str_or (jget t ''oid''),
       tr_time = str_or (jget t ''time''),
       tr_src = str_or (jget t ''src''),
       tr_sev = jor (jget t ''sev'') (JStr (classify desc))\<rparr>)"

text \<open>\<open>Object.assign({}, v)\<close>: an array becomes an object with its indices as keys.\<close>

fun obj_copy :: "jsval \<Rightarrow> jsval" where
  "obj_copy (JObj ps) = JObj ps"
| "obj_copy (JArr vs) = JObj (map (\<lambda>i. (nat_str (int i), vs ! i)) [0..<length vs])"
| "obj_copy _ = JObj []"

definition filter_objs :: "jsval \<Rightarrow> jsval list" where
  "filter_objs v = filter is_obj (arr_of v)"

text \<open>\<open>if (Array.isArray(o.k)) out.k = o.k.filter(isObject)\<close>.\<close>

definition clean_list :: "string \<Rightarrow> jsval \<Rightarrow> jsval \<Rightarrow> jsval" where
  "clean_list k src out = (if is_arr (jget src k) then jput k (JArr (filter_objs (jget src k))) out else out)"

definition normPlc :: "jsval \<Rightarrow> jsval" where
  "normPlc plc =
     (if \<not> is_obj plc then plc
      else let out0 = obj_copy plc; sd = jget plc ''sysDiag'';
               out1 = (if is_obj sd \<and> is_arr (jget sd ''modules'')
                 then jput ''sysDiag'' (jput ''modules'' (JArr (filter_objs (jget sd ''modules''))) (obj_copy sd)) out0
                 else out0)
           in clean_list ''errHistory'' plc (clean_list ''procVars'' plc out1))"

definition normTopo :: "jsval \<Rightarrow> jsval" where
  "normTopo topo =
     (if \<not> is_obj topo then Null
      else if \<not> is_arr (jget topo ''storage'') then topo
      else jput ''storage'' (JArr (filter_objs (jget topo ''storage''))) (obj_copy topo))"

definition numArr :: "jsval \<Rightarrow> rat list" where
  "numArr v = takeLast 48
     (List.map_filter (\<lambda>x. case to_num x of Fin r \<Rightarrow> Some r | _ \<Rightarrow> None) (arr_of v))"

definition obj_or :: "jsval \<Rightarrow> jsval \<Rightarrow> jsval" where
  "obj_or v d = (if is_obj v then v else d)"

text \<open>The \<open>meta\<close> literal of \<open>normalizeDevice\<close>.\<close>

definition normalizeMeta :: "string \<Rightarrow> jsval \<Rightarrow> dev_meta" where
  "normalizeMeta host meta =
     (let vmList = filter_objs (jget meta ''vmList'');
          sample = (jget meta ''sample'' = JBool True \<or> jget meta ''demo'' = JBool True) in
      \<lparr>m_label = to_str (jor (jget meta ''label'') (JStr host)),
       m_company = str_or (jget meta ''company''),
       m_factory = str_or (jget meta ''factory''),
       m_mgmt = str_or (jget meta ''mgmt''),
       m_version = str_or (jget meta ''version''),
       m_assetTag = str_or (jget meta ''assetTag''),
       m_floorPos = str_or (jget meta ''floorPos''),
       m_vendor = str_or (jget meta ''vendor''),
       m_sample = sample,
       m_demo = sample,
       m_error = (if nullish (jget meta ''error'') then Null else jget meta ''error''),
       m_pending = truthy (jget meta ''pending''),
       m_downSince = str_or (jget meta ''downSince''),
       m_issueSince = str_or (jget meta ''issueSince''),
       m_unit = obj_or (jget meta ''unit'') (JObj []),
       m_nodes = filter_objs (jget meta ''nodes''),
       m_snmp = filter_objs (jget meta ''snmp''),
       m_vmList = vmList,
       m_vms = num_fin (jget meta ''vms'') (of_nat (length vmList)),
       m_vmRunning = num_fin (jget meta ''vmRunning'')
         (of_nat (length (filter (\<lambda>v. jget v ''state'' = JStr ''running'') vmList))),
       m_alerts = map normalizeAlert (filter is_obj (take 25 (arr_of (jget meta ''alerts'')))),
       m_traps = map normalizeTrap (filter is_obj (take 40 (arr_of (jget meta ''traps'')))),
       m_license = jor (jget meta ''license'') Null,
       m_lastVmSwitch = jor (jget meta ''lastVmSwitch'') Null,
       m_lastNodeSwitch = jor (jget meta ''lastNodeSwitch'') Null,
       m_lastReboot = jor (jget meta ''lastReboot'') Null,
       m_bmc = jor (jget meta ''bmc'') Null,
       m_events = filter_objs (jget meta ''events''),
       m_topo = normTopo (jget meta ''topo''),
       m_platform = str_or (jget meta ''platform''),
       m_healthLevel = str_or (jget meta ''healthLevel''),
       m_healthReasons = arr_of (jget meta ''healthReasons''),
       m_alertCounts = obj_or (jget meta ''alertCounts'') (JObj []),
       m_collection = obj_or (jget meta ''collection'') Null,
       m_stale = truthy (jget meta ''stale''),
       m_uuid = str_or (jget meta ''uuid''),
       m_plc = jor (normPlc (jget meta ''plc'')) Undef,
       m_srv = obj_or (jget meta ''srv'') Undef,
       m_srvNet = filter_objs (jget meta ''srvNet''),
       m_srvDisks = filter_objs (jget meta ''srvDisks''),
       m_srvStorage = filter_objs (jget meta ''srvStorage''),
       m_srvThermal = obj_or (jget meta ''srvThermal'') Null,
       m_pc = jor (jget meta ''pc'') Undef,
       m_nas = jor (jget meta ''nas'') Undef,
       m_win = jor (jget meta ''win'') Undef,
       m_pi = jor (jget meta ''pi'') Undef,
       m_printer = jor (jget meta ''printer'') Undef,
       m_endurance = obj_or (jget meta ''endurance'') Undef,
       m_localEdit = Undef\<rparr>)"

text \<open>The object literal of \<open>normalizeDevice\<close>, for a host, type and status that passed its checks.\<close>

definition mkDevice :: "string \<Rightarrow> dev_type \<Rightarrow> dev_status \<Rightarrow> jsval \<Rightarrow> device" where
  "mkDevice host type status d =
     (let rawCpu = num_fin (jget d ''cpu0'') (- 1);
          rawMem = num_fin (jget d ''mem0'') (- 1);
          meta = obj_or (jget d ''meta'') (JObj []);
          noTel = isNoTel type;
          cpuNA = (noTel \<or> rawCpu < 0);
          memNA = (noTel \<or> rawMem < 0);
          site = str_nn (jget d ''site'')
      in \<lparr>d_id = host, d_host = host, d_type = type,
          d_site = (if site \<noteq> [] then site else ''--''),
          d_status = status,
          d_availN = num_fin (jget d ''availN'') (availN status),
          d_availDays = num_fin (jget d ''availDays'') 0,
          d_cpu0 = (if cpuNA then - 1 else clamp3 (rround rawCpu) 0 100),
          d_mem0 = (if memNA then - 1 else clamp3 (rround rawMem) 0 100),
          d_cpuNA = cpuNA, d_memNA = memNA,
          d_sync = (case find_sync (jget d ''sync'') of Some s \<Rightarrow> s | None \<Rightarrow> Sync),
          d_uptime = rround (num_fin (jget d ''uptime'') 0),
          d_updatedAt = num_fin (jget d ''updatedAt'') 0,
          d_live = True,
          d_meta = normalizeMeta host meta,
          d_histCpu = numArr (jget d ''histCpu''),
          d_histMem = numArr (jget d ''histMem''),
          d_histRtt = numArr (jget d ''histRtt'')\<rparr>)"

definition raw_host :: "jsval \<Rightarrow> string" where
  "raw_host d = trim (str_or (jor (jget d ''host'') (jget d ''id'')))"

definition normalizeDevice :: "jsval \<Rightarrow> device option" where
  "normalizeDevice d =
     (if \<not> is_obj d then None
      else if raw_host d = [] then None
      else (case find_type (jget d ''type'') of
          None \<Rightarrow> None
        | Some type \<Rightarrow>
            (case find_status (jget d ''status'') of
               None \<Rightarrow> None
             | Some status \<Rightarrow> Some (mkDevice (raw_host d) type status d))))"

definition normalize :: "jsval \<Rightarrow> device list" where
  "normalize apiJson =
     (let raw = (if is_arr apiJson then arr_of apiJson else arr_of (jget apiJson ''devices''))
      in List.map_filter normalizeDevice raw)"

section \<open>Capabilities\<close>

record capability =
  cap_supported :: bool
  cap_actions :: "string list"
  cap_endpoint :: string
  cap_reason :: string
  cap_reason_ko :: string

definition CLUSTER_ACTIONS_DEFAULT_REASON :: string where
  "CLUSTER_ACTIONS_DEFAULT_REASON = ''Server did not advertise cluster action support.''"

definition CLUSTER_ACTIONS_DEFAULT_REASON_KO :: string where
  "CLUSTER_ACTIONS_DEFAULT_REASON_KO = ''seobeoga keulleoseuteo jeeo jiwoneul alliji anhasseumnida.''"

text \<open>\<open>Array.from(new Set(xs))\<close>: the first occurrence of each element, in order.\<close>

fun nub :: "'a list \<Rightarrow> 'a list" where
  "nub [] = []"
| "nub (x # xs) = x # filter (\<lambda>y. y \<noteq> x) (nub xs)"

definition trimmed_str :: "jsval \<Rightarrow> string option" where
  "trimmed_str v = (case v of JStr s \<Rightarrow> if trim s \<noteq> [] then Some (trim s) else None | _ \<Rightarrow> None)"

definition str_dflt :: "string \<Rightarrow> string option \<Rightarrow> string" where
  "str_dflt d x = (case x of Some s \<Rightarrow> s | None \<Rightarrow> d)"

definition normalizeCapabilities :: "jsval \<Rightarrow> capability" where
  "normalizeCapabilities raw =
     (let root = obj_or raw (JObj []);
          src = obj_or (jget root ''cluster_actions'') (JObj []);
          actions = nub (List.map_filter trimmed_str (arr_of (jget src ''actions'')));
          supported = (jget src ''supported'' = JBool True)
      in \<lparr>cap_supported = supported,
          cap_actions = (if supported then actions else []),
          cap_endpoint = (case jget src ''endpoint'' of JStr s \<Rightarrow> s | _ \<Rightarrow> ''/api/clusters/{id}/action''),
          cap_reason = str_dflt CLUSTER_ACTIONS_DEFAULT_REASON (trimmed_str (jget src ''reason'')),
          cap_reason_ko = str_dflt CLUSTER_ACTIONS_DEFAULT_REASON_KO (trimmed_str (jget src ''reason_ko''))\<rparr>)"

record availability =
  av_supported :: bool
  av_reason :: string
  av_reason_ko :: string

definition clusterActionAvailability :: "jsval \<Rightarrow> jsval \<Rightarrow> availability" where
  "clusterActionAvailability capabilities action =
     (let cap = normalizeCapabilities capabilities; key = str_or action in
      if \<not> cap_supported cap
      then \<lparr>av_supported = False, av_reason = cap_reason cap, av_reason_ko = cap_reason_ko cap\<rparr>
      else if key \<notin> set (cap_actions cap)
      then \<lparr>av_supported = False,
            av_reason = ''Server did not advertise support for action: '' @ key,
            av_reason_ko = ''seobeoga i jeeo jageobui jiwoneul alliji anhasseumnida: '' @ key\<rparr>
      else \<lparr>av_supported = True, av_reason = [], av_reason_ko = []\<rparr>)"

text \<open>The value the normaliser returns, as the object the state keeps and passes back in.\<close>

definition caps_value :: "capability \<Rightarrow> jsval" where
  "caps_value c = JObj [(''cluster_actions'', JObj [
     (''supported'', JBool (cap_supported c)), (''actions'', JArr (map JStr (cap_actions c))),
     (''endpoint'', JStr (cap_endpoint c)), (''reason'', JStr (cap_reason c)),
     (''reason_ko'', JStr (cap_reason_ko c))])]"

section \<open>Facts about the derivations\<close>

lemma find_type_iff: "find_type v = Some t \<longleftrightarrow> v = JStr (type_key t)"
  by (cases t) (auto simp: find_type_def TYPE_KEYS_def type_key_def mk_type_def)

lemma find_status_iff: "find_status v = Some s \<longleftrightarrow> v = JStr (status_key s)"
  by (cases s) (auto simp: find_status_def STATUS_KEYS_def)

lemma find_sync_iff: "find_sync v = Some s \<longleftrightarrow> v = JStr (sync_key s)"
  by (cases s) (auto simp: find_sync_def SYNC_KEYS_def)

lemma find_type_key [simp]: "find_type (JStr (type_key t)) = Some t"
  by (simp add: find_type_iff)

lemma find_status_key [simp]: "find_status (JStr (status_key s)) = Some s"
  by (simp add: find_status_iff)

lemma type_key_inj: "type_key a = type_key b \<longleftrightarrow> a = b"
  by (cases a; cases b) (simp_all add: type_key_def mk_type_def)

lemma status_key_inj [simp]: "status_key a = status_key b \<longleftrightarrow> a = b"
  by (cases a; cases b) simp_all

lemma clamp3_bounds: "a \<le> b \<Longrightarrow> a \<le> clamp3 v a b \<and> clamp3 v a b \<le> b"
  by (auto simp: clamp3_def)

lemma filter_objs_all [simp]: "list_all is_obj (filter_objs v)"
  by (simp add: filter_objs_def list_all_iff)

lemma filter_objs_JArr [simp]: "filter_objs (JArr vs) = filter is_obj vs"
  by (simp add: filter_objs_def)

lemma is_map_obj_copy [simp]: "is_map (obj_copy v)"
  by (cases v) auto

lemma length_numArr: "length (numArr v) \<le> 48"
  by (simp add: numArr_def)

lemma filter_le_length: "length (filter P xs) \<le> length xs"
  by simp

lemma length_filter_mono: "(\<And>x. x \<in> set xs \<Longrightarrow> P x \<Longrightarrow> Q x) \<Longrightarrow> length (filter P xs) \<le> length (filter Q xs)"
  by (induction xs) auto

lemma all_filter_length: "length (filter P xs) = length xs \<longleftrightarrow> (\<forall>x \<in> set xs. P x)"
proof (induction xs)
  case (Cons x xs)
  have "length (filter P xs) \<noteq> Suc (length xs)" using length_filter_le [of P xs] by linarith
  then show ?case using Cons by simp
qed simp

lemma nub_set [simp]: "set (nub xs) = set xs"
  by (induction xs) auto

lemma nub_distinct [simp]: "distinct (nub xs)"
  by (induction xs) auto

lemma nub_id: "distinct xs \<Longrightarrow> nub xs = xs"
  by (induction xs) (auto simp: filter_id_conv)

section \<open>Well-formed devices\<close>

text \<open>
  What the screens may rely on: an identity that is the trimmed, non-empty host; usage
  percentages in range exactly where they are available; only objects in the lists whose
  elements are read by property; bounded lists.
\<close>

definition wf_meta :: "dev_meta \<Rightarrow> bool" where
  "wf_meta m \<longleftrightarrow>
     list_all is_obj (m_nodes m) \<and> list_all is_obj (m_snmp m) \<and> list_all is_obj (m_vmList m) \<and>
     list_all is_obj (m_events m) \<and> list_all is_obj (m_srvNet m) \<and>
     list_all is_obj (m_srvDisks m) \<and> list_all is_obj (m_srvStorage m) \<and>
     is_obj (m_unit m) \<and> is_obj (m_alertCounts m) \<and>
     length (m_alerts m) \<le> 25 \<and> length (m_traps m) \<le> 40 \<and>
     (m_topo m = Null \<or> is_obj (m_topo m)) \<and> list_all is_obj (arr_of (jget (m_topo m) ''storage'')) \<and>
     list_all is_obj (arr_of (jget (m_plc m) ''procVars'')) \<and>
     list_all is_obj (arr_of (jget (m_plc m) ''errHistory'')) \<and>
     list_all is_obj (arr_of (jget (jget (m_plc m) ''sysDiag'') ''modules'')) \<and>
     m_sample m = m_demo m \<and> \<not> is_obj (m_localEdit m)"

definition usage_ok :: "bool \<Rightarrow> int \<Rightarrow> bool" where
  "usage_ok na v \<longleftrightarrow> (if na then v = - 1 else 0 \<le> v \<and> v \<le> 100)"

definition wf_device :: "device \<Rightarrow> bool" where
  "wf_device d \<longleftrightarrow>
     d_id d = d_host d \<and> d_id d \<noteq> [] \<and> trim (d_id d) = d_id d \<and> d_site d \<noteq> [] \<and>
     usage_ok (d_cpuNA d) (d_cpu0 d) \<and> usage_ok (d_memNA d) (d_mem0 d) \<and>
     (isNoTel (d_type d) \<longrightarrow> d_cpuNA d \<and> d_memNA d) \<and>
     length (d_histCpu d) \<le> 48 \<and> length (d_histMem d) \<le> 48 \<and> length (d_histRtt d) \<le> 48 \<and>
     wf_meta (d_meta d)"

lemma clean_list_storage: "is_map out \<Longrightarrow> list_all is_obj (arr_of (jget (clean_list k src out) k)) \<or> \<not> is_arr (jget src k)"
  by (simp add: clean_list_def)

lemma is_map_clean_list: "is_map out \<Longrightarrow> is_map (clean_list k src out)"
  by (simp add: clean_list_def)

lemma jget_clean_list: "is_map out \<Longrightarrow>
  jget (clean_list k src out) k' =
    (if k' = k \<and> is_arr (jget src k) then JArr (filter_objs (jget src k)) else jget out k')"
  by (simp add: clean_list_def)

lemma jget_obj_copy_arr: "is_arr (jget (obj_copy v) k) \<Longrightarrow> k \<notin> set (map (\<lambda>i. nat_str (int i)) [0..<n]) \<Longrightarrow> is_map v \<Longrightarrow> is_arr (jget v k)"
  by (cases v) auto

lemma nat_str_not_lower: "hd k \<notin> set ''0123456789'' \<Longrightarrow> nat_str i \<noteq> k"
  using set_nat_str [of "hd k" i] nat_str_nonempty [of i] by (metis hd_in_set)

lemma jget_obj_copy: "hd k \<notin> set ''0123456789'' \<Longrightarrow> is_arr (jget (obj_copy v) k) \<Longrightarrow> is_arr (jget v k)"
proof (cases v)
  case (JArr vs)
  assume k: "hd k \<notin> set ''0123456789''" and a: "is_arr (jget (obj_copy v) k)"
  have "map_of (map (\<lambda>i. (nat_str (int i), vs ! i)) [0..<length vs]) k = None"
  proof -
    have "k \<noteq> nat_str (int i)" for i using nat_str_not_lower [OF k, of "int i"] by (rule not_sym)
    then show ?thesis by (simp add: map_of_eq_None_iff image_iff)
  qed
  then show ?thesis using a JArr by simp
qed auto

lemma arr_of_not_arr: "\<not> is_arr v \<Longrightarrow> arr_of v = []"
  by (cases v) auto

lemma normTopo_ok: "(normTopo t = Null \<or> is_obj (normTopo t)) \<and> list_all is_obj (arr_of (jget (normTopo t) ''storage''))"
  by (auto simp: normTopo_def is_map_obj arr_of_not_arr)

lemma normPlc_lists:
  assumes "k = ''procVars'' \<or> k = ''errHistory''"
  shows "list_all is_obj (arr_of (jget (jor (normPlc p) Undef) k))"
proof (cases "is_obj p")
  case False
  then have "\<not> is_arr (jget (jor p Undef) k)" using assms by (cases p) (auto simp: jor_def)
  then show ?thesis using False by (simp add: normPlc_def arr_of_not_arr)
next
  case True
  have hd: "hd k \<notin> set ''0123456789''" using assms by auto
  let ?o = "obj_copy p" and ?sd = "jget p ''sysDiag''"
  define o1 where "o1 = (if is_obj ?sd \<and> is_arr (jget ?sd ''modules'')
    then jput ''sysDiag'' (jput ''modules'' (JArr (filter_objs (jget ?sd ''modules''))) (obj_copy ?sd)) ?o
    else ?o)"
  have n: "normPlc p = clean_list ''errHistory'' p (clean_list ''procVars'' p o1)"
    using True by (simp add: normPlc_def Let_def o1_def)
  have o1: "is_map o1" "jget o1 k = jget ?o k" using assms by (auto simp: o1_def)
  have "is_obj (normPlc p)" using o1 by (simp add: n is_map_clean_list is_map_obj)
  then have j: "jor (normPlc p) Undef = normPlc p" by (simp add: jor_def is_obj_truthy)
  have g: "jget (normPlc p) k = (if is_arr (jget p k) then JArr (filter_objs (jget p k)) else jget ?o k)"
    using o1 assms by (auto simp: n jget_clean_list is_map_clean_list)
  have "arr_of (jget ?o k) = []" if "\<not> is_arr (jget p k)"
    using that jget_obj_copy [OF hd] arr_of_not_arr by blast
  then show ?thesis by (cases "is_arr (jget p k)") (simp_all add: j g)
qed

lemma jget_obj_copy_none: "hd k \<notin> set ''0123456789'' \<Longrightarrow> is_obj v \<Longrightarrow> jget (obj_copy v) k = jget v k \<or> \<not> is_obj (jget (obj_copy v) k)"
proof (cases v)
  case (JArr vs)
  assume "hd k \<notin> set ''0123456789''"
  then have "k \<noteq> nat_str (int i)" for i using nat_str_not_lower [of k "int i"] by (rule_tac not_sym)
  then have "map_of (map (\<lambda>i. (nat_str (int i), vs ! i)) [0..<length vs]) k = None" by (simp add: map_of_eq_None_iff image_iff)
  then show ?thesis using JArr by simp
qed auto

lemma modules_of_no_object: "\<not> is_obj v \<Longrightarrow> arr_of (jget v ''modules'') = []"
  by (cases v) auto

lemma normPlc_modules: "list_all is_obj (arr_of (jget (jget (jor (normPlc p) Undef) ''sysDiag'') ''modules''))"
proof (cases "is_obj p")
  case False
  then have "\<not> is_obj (jget (jor p Undef) ''sysDiag'')" by (cases p) (auto simp: jor_def)
  then show ?thesis using False by (simp add: normPlc_def modules_of_no_object)
next
  case True
  let ?o = "obj_copy p" and ?sd = "jget p ''sysDiag''"
  define o1 where "o1 = (if is_obj ?sd \<and> is_arr (jget ?sd ''modules'')
    then jput ''sysDiag'' (jput ''modules'' (JArr (filter_objs (jget ?sd ''modules''))) (obj_copy ?sd)) ?o
    else ?o)"
  have n: "normPlc p = clean_list ''errHistory'' p (clean_list ''procVars'' p o1)"
    using True by (simp add: normPlc_def Let_def o1_def)
  have o1: "is_map o1" by (auto simp: o1_def)
  have "is_obj (normPlc p)" using o1 by (simp add: n is_map_clean_list is_map_obj)
  then have j: "jor (normPlc p) Undef = normPlc p" by (simp add: jor_def is_obj_truthy)
  have g: "jget (normPlc p) ''sysDiag'' = jget o1 ''sysDiag''" using o1 by (simp add: n jget_clean_list is_map_clean_list)
  show ?thesis
  proof (cases "is_obj ?sd \<and> is_arr (jget ?sd ''modules'')")
    case True
    then show ?thesis by (simp add: j g o1_def)
  next
    case False
    have "jget ?o ''sysDiag'' = ?sd \<or> \<not> is_obj (jget ?o ''sysDiag'')" using jget_obj_copy_none [of "''sysDiag''" p] True by simp
    then have "arr_of (jget (jget ?o ''sysDiag'') ''modules'') = []"
      using False modules_of_no_object by (metis arr_of_not_arr)
    moreover have "jget (normPlc p) ''sysDiag'' = jget ?o ''sysDiag''" using False by (auto simp: g o1_def)
    ultimately show ?thesis by (simp add: j)
  qed
qed

lemma normalizeMeta_lists:
  "m_nodes (normalizeMeta h m) = filter_objs (jget m ''nodes'')"
  "m_snmp (normalizeMeta h m) = filter_objs (jget m ''snmp'')"
  "m_vmList (normalizeMeta h m) = filter_objs (jget m ''vmList'')"
  "m_events (normalizeMeta h m) = filter_objs (jget m ''events'')"
  "m_srvNet (normalizeMeta h m) = filter_objs (jget m ''srvNet'')"
  "m_srvDisks (normalizeMeta h m) = filter_objs (jget m ''srvDisks'')"
  "m_srvStorage (normalizeMeta h m) = filter_objs (jget m ''srvStorage'')"
  "m_alerts (normalizeMeta h m) = map normalizeAlert (filter is_obj (take 25 (arr_of (jget m ''alerts''))))"
  "m_traps (normalizeMeta h m) = map normalizeTrap (filter is_obj (take 40 (arr_of (jget m ''traps''))))"
  "m_unit (normalizeMeta h m) = obj_or (jget m ''unit'') (JObj [])"
  "m_alertCounts (normalizeMeta h m) = obj_or (jget m ''alertCounts'') (JObj [])"
  "m_topo (normalizeMeta h m) = normTopo (jget m ''topo'')"
  "m_plc (normalizeMeta h m) = jor (normPlc (jget m ''plc'')) Undef"
  "m_demo (normalizeMeta h m) = m_sample (normalizeMeta h m)"
  "m_localEdit (normalizeMeta h m) = Undef"
  by (simp_all add: normalizeMeta_def Let_def)

lemma length_filter_take: "length (filter P (take n xs)) \<le> n"
  by (rule le_trans [OF length_filter_le]) simp

lemma is_obj_obj_or [simp]: "is_obj (obj_or v (JObj ps))"
  by (simp add: obj_or_def)

lemma normalizeMeta_wf: "wf_meta (normalizeMeta host meta)"
  unfolding wf_meta_def normalizeMeta_lists
  using normTopo_ok by (simp add: length_filter_take normPlc_lists normPlc_modules)

lemma normalizeDevice_Some_iff:
  "normalizeDevice v = Some d \<longleftrightarrow>
     is_obj v \<and> raw_host v \<noteq> [] \<and>
     (\<exists>t st. jget v ''type'' = JStr (type_key t) \<and> jget v ''status'' = JStr (status_key st) \<and>
        d = mkDevice (raw_host v) t st v)"
  by (auto simp: normalizeDevice_def split: option.splits
      dest: find_type_iff [THEN iffD1] find_status_iff [THEN iffD1])

lemma mkDevice_wf: "h \<noteq> [] \<Longrightarrow> trim h = h \<Longrightarrow> wf_device (mkDevice h t st v)"
  by (simp add: wf_device_def mkDevice_def Let_def usage_ok_def normalizeMeta_wf length_numArr
      clamp3_bounds)

lemma normalizeDevice_wf_aux: "normalizeDevice v = Some d \<Longrightarrow> wf_device d"
  by (auto simp: normalizeDevice_Some_iff intro!: mkDevice_wf) (simp add: raw_host_def)

section \<open>Facts about status and synchronisation\<close>

lemma healthy_running: "node_healthy n \<Longrightarrow> node_running n"
  by (simp add: node_healthy_def)

lemma healthy_iff: "node_healthy n \<longleftrightarrow> node_running n \<and> \<not> node_abnormal n"
  by (auto simp: node_healthy_def node_abnormal_def node_running_def)

lemma length_healthy_le: "length (filter node_healthy ns) \<le> length (filter node_running ns)"
  by (rule length_filter_mono) (simp add: healthy_running)

lemma all_healthy_length:
  "length (filter node_healthy ns) = length ns \<longleftrightarrow> (\<forall>n \<in> set ns. node_running n \<and> \<not> node_abnormal n)"
  by (simp add: all_filter_length healthy_iff)

lemma deriveStatus_Down: "ns \<noteq> [] \<Longrightarrow> deriveStatus (JArr ns) sn = Down \<longleftrightarrow> filter node_running ns = []"
  by (simp add: deriveStatus_def Let_def)

lemma deriveStatus_Op:
  assumes "ns \<noteq> []"
  shows "deriveStatus (JArr ns) sn = Op \<longleftrightarrow> (\<forall>n \<in> set ns. node_running n \<and> \<not> node_abnormal n)"
proof -
  have "length (filter node_running ns) \<le> length ns" by simp
  then have "length (filter node_running ns) < length ns \<longleftrightarrow> \<not> (\<forall>n \<in> set ns. node_running n)"
    using all_filter_length [of node_running ns] by linarith
  moreover have "filter node_running ns = [] \<longleftrightarrow> (\<forall>n \<in> set ns. \<not> node_running n)"
    by (simp add: filter_empty_conv)
  ultimately show ?thesis
    using assms by (auto simp: deriveStatus_def Let_def list_ex_iff)
qed

lemma deriveSync_nodes:
  "ns \<noteq> [] \<Longrightarrow> deriveSync (JArr ns) st =
     (if filter node_running ns = [] then Offline
      else if 2 \<le> length (filter node_healthy ns) then Sync else Simplex)"
  by (simp add: deriveSync_def Let_def)

section \<open>Facts about capabilities\<close>

lemma trimmed_str_Some: "trimmed_str v = Some s \<longleftrightarrow> (\<exists>t. v = JStr t \<and> s = trim t \<and> s \<noteq> [])"
  by (auto simp: trimmed_str_def split: jsval.splits)

lemma set_map_filter: "y \<in> set (List.map_filter f xs) \<longleftrightarrow> (\<exists>x \<in> set xs. f x = Some y)"
  by (force simp: List.map_filter_def)

lemma trimmed_str_fixed: "s \<noteq> [] \<Longrightarrow> trim s = s \<Longrightarrow> trimmed_str (JStr s) = Some s"
  by (simp add: trimmed_str_def)

lemma map_filter_trimmed_fixed:
  "(\<And>s. s \<in> set xs \<Longrightarrow> s \<noteq> [] \<and> trim s = s) \<Longrightarrow> List.map_filter trimmed_str (map JStr xs) = xs"
  by (induction xs) (simp_all add: trimmed_str_fixed List.map_filter_simps)

lemma cap_actions_clean:
  "s \<in> set (cap_actions (normalizeCapabilities raw)) \<Longrightarrow> s \<noteq> [] \<and> trim s = s"
  by (auto simp: normalizeCapabilities_def Let_def set_map_filter trimmed_str_Some split: if_splits)

lemma cap_actions_distinct: "distinct (cap_actions (normalizeCapabilities raw))"
  by (simp add: normalizeCapabilities_def Let_def)

lemma str_dflt_trimmed_clean:
  "d \<noteq> [] \<Longrightarrow> trim d = d \<Longrightarrow> str_dflt d (trimmed_str v) \<noteq> [] \<and> trim (str_dflt d (trimmed_str v)) = str_dflt d (trimmed_str v)"
  by (auto simp: str_dflt_def trimmed_str_Some split: option.splits)

lemma reason_defaults_clean:
  "trim CLUSTER_ACTIONS_DEFAULT_REASON = CLUSTER_ACTIONS_DEFAULT_REASON"
  "trim CLUSTER_ACTIONS_DEFAULT_REASON_KO = CLUSTER_ACTIONS_DEFAULT_REASON_KO"
  "CLUSTER_ACTIONS_DEFAULT_REASON \<noteq> []" "CLUSTER_ACTIONS_DEFAULT_REASON_KO \<noteq> []"
  by (code_simp)+

lemma cap_reason_clean:
  "cap_reason (normalizeCapabilities raw) \<noteq> []"
  "trim (cap_reason (normalizeCapabilities raw)) = cap_reason (normalizeCapabilities raw)"
  "cap_reason_ko (normalizeCapabilities raw) \<noteq> []"
  "trim (cap_reason_ko (normalizeCapabilities raw)) = cap_reason_ko (normalizeCapabilities raw)"
  by (simp_all add: normalizeCapabilities_def Let_def str_dflt_trimmed_clean reason_defaults_clean)

lemma normalizeCapabilities_value:
  assumes "distinct (cap_actions c)" "\<And>s. s \<in> set (cap_actions c) \<Longrightarrow> s \<noteq> [] \<and> trim s = s"
    and "\<not> cap_supported c \<Longrightarrow> cap_actions c = []"
    and "cap_reason c \<noteq> []" "trim (cap_reason c) = cap_reason c"
    and "cap_reason_ko c \<noteq> []" "trim (cap_reason_ko c) = cap_reason_ko c"
  shows "normalizeCapabilities (caps_value c) = c"
proof -
  have acts: "nub (List.map_filter trimmed_str (map JStr (cap_actions c))) = cap_actions c"
    using assms(1,2) by (simp add: map_filter_trimmed_fixed nub_id)
  show ?thesis
    using assms(3) by (cases c)
      (use assms acts in \<open>simp add: normalizeCapabilities_def caps_value_def Let_def obj_or_def
        trimmed_str_fixed str_dflt_def\<close>)
qed

section \<open>Properties\<close>

text \<open>
  C22. Whatever value the poller answers with, each device the normaliser accepts is well
  formed (trimmed non-empty identity, usage in 0..100 exactly where it is available, histories of at most 48 finite numbers,
  at most 25 alerts and 40 traps, and only objects in the lists it filters: nodes, SNMP ports, virtual machines, events, the network, disks and volumes of
  a server, the storage groups of a cluster, and the modules, variables and errors of a controller), and it carries the identity, type and status of
  the answer. The supplies of a printer are not among these lists: they pass as they are.
\<close>

theorem normalizeDevice_wf:
  assumes "normalizeDevice v = Some d"
  shows "wf_device d \<and> d_id d = raw_host v \<and> jget v ''type'' = JStr (type_key (d_type d))
    \<and> jget v ''status'' = JStr (status_key (d_status d))"
proof -
  obtain t st where d: "d = mkDevice (raw_host v) t st v"
    and ts: "jget v ''type'' = JStr (type_key t)" "jget v ''status'' = JStr (status_key st)"
    using assms by (auto simp: normalizeDevice_Some_iff)
  have "d_id d = raw_host v" "d_type d = t" "d_status d = st"
    by (simp_all add: d mkDevice_def Let_def)
  then show ?thesis using ts normalizeDevice_wf_aux [OF assms] by simp
qed

text \<open>A null among the supplies of a printer passes, and the topology, which reads the name of each supply, throws on it.\<close>

definition null_supply :: jsval where
  "null_supply = JObj [(''host'', JStr ''prn-1''), (''type'', JStr ''PRN''), (''status'', JStr ''op''),
     (''meta'', JObj [(''printer'', JObj [(''supplies'', JArr [Null])])])]"

lemma null_supply_passes: "\<exists>d. normalizeDevice null_supply = Some d \<and> arr_of (jget (m_printer (d_meta d)) ''supplies'') = [Null]"
proof -
  have "raw_host null_supply = ''prn-1''" by code_simp
  moreover have "jget null_supply ''type'' = JStr (type_key PRN)" "jget null_supply ''status'' = JStr (status_key Op)" "is_obj null_supply"
    by (simp_all add: null_supply_def type_key_def mk_type_def)
  ultimately have "normalizeDevice null_supply = Some (mkDevice ''prn-1'' PRN Op null_supply)"
    unfolding normalizeDevice_Some_iff by (metis list.distinct(1))
  then show ?thesis by (simp add: mkDevice_def Let_def normalizeMeta_def null_supply_def obj_or_def jor_def)
qed

definition sample_answer :: jsval where
  "sample_answer = JObj [(''host'', JStr '' ev-01 ''), (''type'', JStr ''EV''), (''status'', JStr ''deg''),
     (''cpu0'', JNum (Fin 250)), (''mem0'', JStr ''x''),
     (''meta'', JObj [(''nodes'', JArr [Null, JObj [(''name'', JStr ''node0'')]])])]"

lemma sample_answer_ok: "\<exists>d. normalizeDevice sample_answer = Some d"
proof -
  have "raw_host sample_answer = ''ev-01''" by code_simp
  moreover have "jget sample_answer ''type'' = JStr (type_key EV)"
    "jget sample_answer ''status'' = JStr (status_key Deg)" "is_obj sample_answer"
    by (simp_all add: sample_answer_def type_key_def mk_type_def)
  ultimately have "normalizeDevice sample_answer = Some (mkDevice ''ev-01'' EV Deg sample_answer)"
    unfolding normalizeDevice_Some_iff by (metis list.distinct(1))
  then show ?thesis by blast
qed

theorem normalizeDevice_wf_witness:
  "\<exists>d. normalizeDevice sample_answer = Some d \<and> wf_device d \<and> d_id d = ''ev-01''"
proof -
  obtain d where d: "normalizeDevice sample_answer = Some d" using sample_answer_ok by blast
  have "raw_host sample_answer = ''ev-01''" by code_simp
  then show ?thesis using normalizeDevice_wf [OF d] d by auto
qed

text \<open>
  The status and the synchronisation state derived from one node list never contradict
  each other: a cluster is down exactly when it is offline and operational exactly when all
  its nodes run in standing normal; an operational cluster of two or more nodes is in sync,
  and a degraded cluster of at most two nodes is simplex, never in sync.
\<close>

theorem derive_consistent:
  assumes "ns \<noteq> []"
  shows "(deriveStatus (JArr ns) sn = Down \<longleftrightarrow> deriveSync (JArr ns) (deriveStatus (JArr ns) sn) = Offline)
    \<and> (deriveStatus (JArr ns) sn = Op \<longleftrightarrow> (\<forall>n \<in> set ns. node_running n \<and> \<not> node_abnormal n))
    \<and> (deriveStatus (JArr ns) sn = Op \<and> 2 \<le> length ns \<longrightarrow>
        deriveSync (JArr ns) (deriveStatus (JArr ns) sn) = Sync)
    \<and> (deriveStatus (JArr ns) sn = Deg \<and> length ns \<le> 2 \<longrightarrow>
        deriveSync (JArr ns) (deriveStatus (JArr ns) sn) = Simplex)"
proof -
  let ?h = "length (filter node_healthy ns)"
  have down: "deriveStatus (JArr ns) sn = Down \<longleftrightarrow> filter node_running ns = []"
    using assms by (rule deriveStatus_Down)
  have op: "deriveStatus (JArr ns) sn = Op \<longleftrightarrow> ?h = length ns"
    using deriveStatus_Op [OF assms] all_healthy_length by simp
  have le: "?h \<le> length ns" by simp
  have deg: "\<not> 2 \<le> ?h" if "deriveStatus (JArr ns) sn = Deg" "length ns \<le> 2"
    using that op le by (auto simp del: length_filter_le)
  have "filter node_healthy ns = []" if "filter node_running ns = []"
    using that length_healthy_le [of ns] by simp
  then show ?thesis
    using assms le down op deg deriveStatus_Op [OF assms] by (auto simp: deriveSync_nodes)
qed

theorem derive_consistent_witness:
  "deriveStatus (JArr [JObj [(''state'', JStr ''running'')], JObj [(''state'', JStr ''stopped'')]]) Undef = Deg
   \<and> deriveSync (JArr [JObj [(''state'', JStr ''running'')], JObj [(''state'', JStr ''stopped'')]]) Deg = Simplex"
proof -
  let ?ns = "[JObj [(''state'', JStr ''running'')], JObj [(''state'', JStr ''stopped'')]]"
  have "deriveStatus (JArr ?ns) Undef = Deg"
    by (simp add: deriveStatus_def Let_def node_running_def)
  then show ?thesis using derive_consistent [of ?ns Undef] by simp
qed

text \<open>
  Normalising the capabilities a second time changes nothing, so the check made at the
  moment of a click sees the capabilities that were stored at the last poll.
\<close>

theorem normalizeCapabilities_idem:
  "normalizeCapabilities (caps_value (normalizeCapabilities raw)) = normalizeCapabilities raw"
  by (rule normalizeCapabilities_value)
    (use cap_actions_clean cap_reason_clean cap_actions_distinct in
      \<open>auto simp: normalizeCapabilities_def Let_def\<close>)

text \<open>
  Cluster actions fail closed: an action is available only if the server advertised
  \<open>supported: true\<close> and listed that action as a non-blank string; a missing, malformed or
  partial advertisement refuses it and always gives a non-empty reason.
\<close>

theorem clusterActionAvailability_closed:
  "(if av_supported (clusterActionAvailability raw action)
    then jget (obj_or (jget (obj_or raw (JObj [])) ''cluster_actions'') (JObj [])) ''supported'' = JBool True
      \<and> (\<exists>s. JStr s \<in> set (arr_of (jget (obj_or (jget (obj_or raw (JObj [])) ''cluster_actions'') (JObj [])) ''actions''))
            \<and> trim s = str_or action \<and> trim s \<noteq> [])
    else av_reason (clusterActionAvailability raw action) \<noteq> []
      \<and> av_reason_ko (clusterActionAvailability raw action) \<noteq> [])"
proof -
  let ?c = "normalizeCapabilities raw"
  have sup: "cap_supported ?c \<longleftrightarrow>
      jget (obj_or (jget (obj_or raw (JObj [])) ''cluster_actions'') (JObj [])) ''supported'' = JBool True"
    by (simp add: normalizeCapabilities_def Let_def)
  have act: "\<exists>s. JStr s \<in> set (arr_of (jget (obj_or (jget (obj_or raw (JObj [])) ''cluster_actions'') (JObj [])) ''actions''))
      \<and> trim s = k \<and> trim s \<noteq> []" if "k \<in> set (cap_actions ?c)" for k
    using that by (auto simp: normalizeCapabilities_def Let_def set_map_filter trimmed_str_Some split: if_splits)
  show ?thesis
    using sup act cap_reason_clean(1,3) [of raw]
    by (auto simp: clusterActionAvailability_def Let_def split: if_splits)
qed

end
