(* ===== verification/Store.thy ===== *)
theory Store
  imports Data Json
begin

text \<open>
  The state store of \<open>src/web/js/store.js\<close>: the application state, its persistence in
  \<open>localStorage\<close> and the subscription store. The storage is a map from keys to texts
  with two ways to fail, as browsers have them: it may be closed (every access throws, as in
  private mode) and it may refuse a write (quota). Every access of the source is inside a
  \<open>try\<close>; the model returns the storage unchanged where the source catches.

  The main facts: nothing secret survives a load, \<open>loadPersisted\<close> only returns values of
  the right shape whatever the storage holds, and what \<open>persist\<close> wrote is loaded back.
\<close>

section \<open>Application state\<close>

record settings =
  sg_refresh :: bool
  sg_sound :: bool
  sg_dense :: bool
  sg_ackAutoDays :: jsval
  sg_escHours :: jsval

record log_event =
  ev_time :: string
  ev_host :: string
  ev_label :: string
  ev_kind :: string
  ev_sev :: string
  ev_desc :: string

record app_state =
  s_view :: string
  s_selected :: "string option"
  s_originView :: string
  s_lang :: string
  s_theme :: string
  s_tick :: nat
  s_paused :: bool
  s_logPaused :: bool
  s_toast :: "string option"
  s_search :: string
  s_railOpen :: bool
  s_fleet :: "device list"
  s_source :: string
  s_sampleMode :: bool
  s_demoMode :: bool
  s_lastPoll :: int
  s_lastAttempt :: int
  s_pollPending :: bool
  s_refreshSec :: jsnum
  s_stale :: bool
  s_liveError :: string
  s_uiError :: string
  s_syncError :: string
  s_liveEventLog :: "log_event list option"
  s_pollerOverall :: string
  s_cacheAgeSec :: "jsnum option"
  s_capabilities :: capability
  s_alertView :: string
  s_alertExpanded :: bool
  s_hist :: jsval
  s_ovFilter :: string
  s_nodesSort :: "string \<times> string"
  s_nodesFilter :: string
  s_nodesCollapsed :: jsval
  s_topoView :: string
  s_topoFocus :: "string option"
  s_collapsed :: jsval
  s_companyColors :: jsval
  s_capMetric :: string
  s_clustersFilter :: string
  s_alertFilter :: string
  s_logLevel :: string
  s_logQuery :: string
  s_manageCollapsed :: jsval
  s_editKey :: "string option"
  s_wizardStep :: nat
  s_form :: jsval
  s_companyColorsDirty :: bool
  s_ackedAlerts :: jsval
  s_thresholds :: "(jsnum \<times> jsnum) option"
  s_maint :: jsval
  s_notes :: jsval
  s_setg :: settings
  s_view3d :: bool
  s_zoom :: jsnum

text \<open>
  The initial state. An error message that is \<open>null\<close> in the source is the empty text here
  (both are falsy and the code only tests and prints it); the poller's overall verdict likewise.
\<close>

definition initialState :: app_state where
  "initialState = \<lparr>s_view = ''overview'', s_selected = None, s_originView = ''overview'', s_lang = ''ko'',
     s_theme = ''system'', s_tick = 0, s_paused = False, s_logPaused = False, s_toast = None, s_search = [], s_railOpen = False,
     s_fleet = [], s_source = ''live'', s_sampleMode = False, s_demoMode = False, s_lastPoll = 0, s_lastAttempt = 0,
     s_pollPending = True, s_refreshSec = Fin 30, s_stale = False, s_liveError = [], s_uiError = [], s_syncError = [],
     s_liveEventLog = None, s_pollerOverall = [], s_cacheAgeSec = None,
     s_capabilities = \<lparr>cap_supported = False, cap_actions = [], cap_endpoint = ''/api/clusters/{id}/action'',
       cap_reason = CLUSTER_ACTIONS_DEFAULT_REASON, cap_reason_ko = CLUSTER_ACTIONS_DEFAULT_REASON_KO\<rparr>,
     s_alertView = ''cards'', s_alertExpanded = False, s_hist = JObj [], s_ovFilter = ''all'',
     s_nodesSort = (''host'', ''asc''), s_nodesFilter = ''all'', s_nodesCollapsed = JObj [], s_topoView = ''tree'', s_topoFocus = None,
     s_collapsed = JObj [], s_companyColors = JObj [], s_capMetric = ''cpu'', s_clustersFilter = ''all'',
     s_alertFilter = ''all'', s_logLevel = ''all'', s_logQuery = [], s_manageCollapsed = JObj [], s_editKey = None, s_wizardStep = 0, s_form = Null,
     s_companyColorsDirty = False, s_ackedAlerts = JObj [], s_thresholds = None, s_maint = JObj [], s_notes = JObj [],
     s_setg = \<lparr>sg_refresh = True, sg_sound = False, sg_dense = False, sg_ackAutoDays = JNum (Fin 0),
       sg_escHours = Undef\<rparr>,
     s_view3d = False, s_zoom = Fin 1\<rparr>"

section \<open>Browser storage\<close>

record storage =
  ls_open :: bool
  ls_accepts :: "string \<Rightarrow> string \<Rightarrow> bool"
  ls_items :: "string \<rightharpoonup> string"

definition LS_LANG :: string where "LS_LANG = ''sd.lang''"
definition LS_COMPANY_COLORS :: string where "LS_COMPANY_COLORS = ''sd.companyColors''"
definition LS_RAIL_OPEN :: string where "LS_RAIL_OPEN = ''sd.railOpen''"
definition LS_THEME :: string where "LS_THEME = ''sd.theme''"
definition LS_SETG :: string where "LS_SETG = ''sd.setg''"
definition LS_MAINT :: string where "LS_MAINT = ''sd.maint''"
definition LS_NOTES :: string where "LS_NOTES = ''sd.notes''"
definition LS_NOTIFY :: string where "LS_NOTIFY = ''sd.notify''"
definition LS_ACKED :: string where "LS_ACKED = ''sd.ackedAlerts''"
definition LS_DATA_SCHEMA :: string where "LS_DATA_SCHEMA = ''sd.dataSchema''"
definition DATA_SCHEMA :: string where "DATA_SCHEMA = ''live-only-v1''"

lemmas ls_keys = LS_LANG_def LS_COMPANY_COLORS_def LS_RAIL_OPEN_def LS_THEME_def LS_SETG_def
  LS_MAINT_def LS_NOTES_def LS_NOTIFY_def LS_ACKED_def LS_DATA_SCHEMA_def

text \<open>\<open>getItem\<close>: \<open>None\<close> when it throws. Writes return \<open>None\<close> when they throw.\<close>

definition getItem :: "storage \<Rightarrow> string \<Rightarrow> string option option" where
  "getItem ls k = (if ls_open ls then Some (ls_items ls k) else None)"

definition setItem :: "string \<Rightarrow> string \<Rightarrow> storage \<Rightarrow> storage option" where
  "setItem k v ls = (if ls_open ls \<and> ls_accepts ls k v
     then Some (ls\<lparr>ls_items := (ls_items ls)(k \<mapsto> v)\<rparr>) else None)"

definition removeItem :: "string \<Rightarrow> storage \<Rightarrow> storage option" where
  "removeItem k ls = (if ls_open ls then Some (ls\<lparr>ls_items := (ls_items ls)(k := None)\<rparr>) else None)"

text \<open>\<open>try { step } catch { }\<close>.\<close>

definition attempt :: "(storage \<Rightarrow> storage option) \<Rightarrow> storage \<Rightarrow> storage" where
  "attempt f ls = (case f ls of None \<Rightarrow> ls | Some ls' \<Rightarrow> ls')"

section \<open>Loading\<close>

definition migrateSchema :: "storage \<Rightarrow> storage" where
  "migrateSchema ls =
     (case getItem ls LS_DATA_SCHEMA of
        None \<Rightarrow> ls
      | Some v \<Rightarrow>
          if v \<noteq> Some DATA_SCHEMA
          then attempt (setItem LS_DATA_SCHEMA DATA_SCHEMA)
                 (attempt (removeItem LS_NOTES) (attempt (removeItem LS_MAINT)
                   (attempt (removeItem LS_ACKED) (attempt (removeItem LS_COMPANY_COLORS) ls))))
          else ls)"

definition parse_item :: "storage \<Rightarrow> string \<Rightarrow> jsval option" where
  "parse_item ls k = (case getItem ls k of
     Some (Some raw) \<Rightarrow> if raw = [] then None else json_parse raw | _ \<Rightarrow> None)"

fun jdel :: "string \<Rightarrow> jsval \<Rightarrow> jsval" where
  "jdel k (JObj ps) = JObj (adel k ps)"
| "jdel k v = v"

definition dropToken :: "storage \<Rightarrow> storage" where
  "dropToken ls =
     (case parse_item ls LS_SETG of
        None \<Rightarrow> ls
      | Some saved \<Rightarrow> if is_obj saved \<and> has_own saved ''token''
                       then attempt (setItem LS_SETG (stringify (jdel ''token'' saved))) ls else ls)"

definition migrateLocalState :: "storage \<Rightarrow> storage" where
  "migrateLocalState ls = dropToken (migrateSchema (attempt (removeItem LS_NOTIFY) ls))"

record persisted =
  pp_lang :: "string option"
  pp_companyColors :: "jsval option"
  pp_theme :: "string option"
  pp_railOpen :: "bool option"
  pp_setg :: "settings option"
  pp_acked :: "jsval option"
  pp_notes :: "jsval option"
  pp_maint :: "jsval option"

definition only :: "('a \<Rightarrow> bool) \<Rightarrow> 'a option \<Rightarrow> 'a option" where
  "only P x = (case x of Some v \<Rightarrow> if P v then Some v else None | None \<Rightarrow> None)"

definition item :: "storage \<Rightarrow> string \<Rightarrow> string option" where
  "item ls k = (case getItem ls k of Some (Some v) \<Rightarrow> Some v | _ \<Rightarrow> None)"

definition bool_or :: "jsval \<Rightarrow> bool \<Rightarrow> bool" where
  "bool_or v d = (case v of JBool b \<Rightarrow> b | _ \<Rightarrow> d)"

definition ackDays :: "jsval \<Rightarrow> jsval" where
  "ackDays v = (if v = JNum (Fin 7) \<or> v = JNum (Fin 30) then v else JNum (Fin 0))"

definition load_setg :: "jsval \<Rightarrow> settings" where
  "load_setg x = \<lparr>sg_refresh = bool_or (jget x ''refresh'') True, sg_sound = bool_or (jget x ''sound'') False,
     sg_dense = bool_or (jget x ''dense'') False, sg_ackAutoDays = ackDays (jget x ''ackAutoDays''),
     sg_escHours = Undef\<rparr>"

definition load_rail :: "string option \<Rightarrow> bool option" where
  "load_rail ro = (if ro = Some ''1'' \<or> ro = Some ''true'' then Some True
     else if ro = Some ''0'' \<or> ro = Some ''false'' then Some False else None)"

definition readPersisted :: "storage \<Rightarrow> persisted" where
  "readPersisted ls = \<lparr>
     pp_lang = only (\<lambda>l. l = ''ko'' \<or> l = ''en'') (item ls LS_LANG),
     pp_companyColors = only is_obj (parse_item ls LS_COMPANY_COLORS),
     pp_theme = only (\<lambda>t. t = ''light'' \<or> t = ''dark'') (item ls LS_THEME),
     pp_railOpen = load_rail (item ls LS_RAIL_OPEN),
     pp_setg = map_option load_setg (only is_obj (parse_item ls LS_SETG)),
     pp_acked = only is_obj (parse_item ls LS_ACKED),
     pp_notes = only is_obj (parse_item ls LS_NOTES),
     pp_maint = only is_obj (parse_item ls LS_MAINT)\<rparr>"

definition loadPersisted :: "storage \<Rightarrow> storage \<times> persisted" where
  "loadPersisted ls = (let ls' = migrateLocalState ls in (ls', readPersisted ls'))"

section \<open>Saving\<close>

definition setg_value :: "settings \<Rightarrow> jsval" where
  "setg_value g = JObj [(''refresh'', JBool (sg_refresh g)), (''sound'', JBool (sg_sound g)),
     (''dense'', JBool (sg_dense g)), (''ackAutoDays'', ackDays (sg_ackAutoDays g))]"

definition or_empty :: "jsval \<Rightarrow> jsval" where
  "or_empty v = jor v (JObj [])"

definition persist :: "app_state \<Rightarrow> storage \<Rightarrow> storage" where
  "persist s ls =
     attempt (setItem LS_SETG (stringify (setg_value (s_setg s))))
     (attempt (removeItem LS_NOTIFY)
     (attempt (setItem LS_NOTES (stringify (or_empty (s_notes s))))
     (attempt (setItem LS_MAINT (stringify (or_empty (s_maint s))))
     (attempt (setItem LS_ACKED (stringify (or_empty (s_ackedAlerts s))))
     (attempt (if s_theme s = ''light'' \<or> s_theme s = ''dark'' then setItem LS_THEME (s_theme s) else removeItem LS_THEME)
     (attempt (setItem LS_RAIL_OPEN (if s_railOpen s then ''1'' else ''0''))
     (attempt (setItem LS_COMPANY_COLORS (stringify (or_empty (s_companyColors s))))
     (attempt (setItem LS_LANG (s_lang s)) ls))))))))"

section \<open>The subscription store\<close>

text \<open>
  \<open>createStore\<close>: the state is an object, merged shallowly; listeners are a set in insertion
  order. \<open>setState\<close> returns the calls it makes. A patch function is applied by the caller.
\<close>

record 'v store =
  so_state :: "(string \<times> 'v) list"
  so_listeners :: "nat list"

definition createStore :: "(string \<times> 'v) list \<Rightarrow> 'v store" where
  "createStore ini = \<lparr>so_state = ini, so_listeners = []\<rparr>"

definition mergeState :: "(string \<times> 'v) list \<Rightarrow> (string \<times> 'v) list \<Rightarrow> (string \<times> 'v) list" where
  "mergeState st patch = foldl (\<lambda>acc p. aput (fst p) (snd p) acc) st patch"

definition setState :: "(string \<times> 'v) list option \<Rightarrow> 'v store \<Rightarrow> 'v store \<times> (nat \<times> (string \<times> 'v) list) list" where
  "setState patch so =
     (case patch of
        None \<Rightarrow> (so, [])
      | Some p \<Rightarrow> (let st = mergeState (so_state so) p in
          (so\<lparr>so_state := st\<rparr>, map (\<lambda>l. (l, st)) (so_listeners so))))"

definition subscribe :: "nat \<Rightarrow> 'v store \<Rightarrow> 'v store" where
  "subscribe l so = so\<lparr>so_listeners := (if l \<in> set (so_listeners so) then so_listeners so
     else so_listeners so @ [l])\<rparr>"

definition unsubscribe :: "nat \<Rightarrow> 'v store \<Rightarrow> 'v store" where
  "unsubscribe l so = so\<lparr>so_listeners := filter (\<lambda>x. x \<noteq> l) (so_listeners so)\<rparr>"

section \<open>Facts about the storage\<close>

definition ls_ok :: "storage \<Rightarrow> bool" where
  "ls_ok ls \<longleftrightarrow> ls_open ls \<and> (\<forall>k v. ls_accepts ls k v)"

lemma attempt_setItem [simp]:
  "ls_ok ls \<Longrightarrow> attempt (setItem k v) ls = ls\<lparr>ls_items := (ls_items ls)(k \<mapsto> v)\<rparr>"
  by (simp add: attempt_def setItem_def ls_ok_def)

lemma attempt_removeItem [simp]:
  "ls_open ls \<Longrightarrow> attempt (removeItem k) ls = ls\<lparr>ls_items := (ls_items ls)(k := None)\<rparr>"
  by (simp add: attempt_def removeItem_def)

lemma ls_ok_open [simp]: "ls_ok ls \<Longrightarrow> ls_open ls"
  by (simp add: ls_ok_def)

lemma ls_ok_update [simp]: "ls_ok (ls\<lparr>ls_items := m\<rparr>) = ls_ok ls"
  by (simp add: ls_ok_def)

lemma open_attempt [simp]: "ls_open (attempt (setItem k v) ls) = ls_open ls"
  "ls_open (attempt (removeItem k) ls) = ls_open ls"
  by (simp_all add: attempt_def setItem_def removeItem_def)

lemma accepts_attempt [simp]: "ls_accepts (attempt (setItem k v) ls) = ls_accepts ls"
  "ls_accepts (attempt (removeItem k) ls) = ls_accepts ls"
  by (simp_all add: attempt_def setItem_def removeItem_def)

lemma migrateSchema_keeps [simp]:
  "ls_open (migrateSchema ls) = ls_open ls" "ls_accepts (migrateSchema ls) = ls_accepts ls"
  by (simp_all add: migrateSchema_def split: option.splits)

lemma dropToken_keeps [simp]:
  "ls_open (dropToken ls) = ls_open ls" "ls_accepts (dropToken ls) = ls_accepts ls"
  by (simp_all add: dropToken_def split: option.splits)

lemma migrate_keeps [simp]:
  "ls_open (migrateLocalState ls) = ls_open ls" "ls_accepts (migrateLocalState ls) = ls_accepts ls"
  by (simp_all add: migrateLocalState_def)

lemma migrateSchema_item:
  "ls_ok ls \<Longrightarrow> ls_items (migrateSchema ls) LS_DATA_SCHEMA = Some DATA_SCHEMA"
  by (simp add: migrateSchema_def getItem_def)

lemma migrateSchema_id:
  "ls_items ls LS_DATA_SCHEMA = Some DATA_SCHEMA \<Longrightarrow> migrateSchema ls = ls"
  by (simp add: migrateSchema_def getItem_def)

lemma dropToken_other: "k \<noteq> LS_SETG \<Longrightarrow> ls_items (dropToken ls) k = ls_items ls k"
  by (simp add: dropToken_def attempt_def setItem_def split: option.splits)

lemma migrate_schema_set:
  assumes "ls_ok ls"
  shows "ls_items (migrateLocalState ls) LS_DATA_SCHEMA = Some DATA_SCHEMA"
proof -
  have "LS_DATA_SCHEMA \<noteq> LS_SETG" by (simp add: ls_keys)
  then show ?thesis using assms by (simp add: migrateLocalState_def dropToken_other migrateSchema_item)
qed

lemma notify_removed: "ls_open ls \<Longrightarrow> ls_items (migrateLocalState ls) LS_NOTIFY = None"
  by (simp add: migrateLocalState_def dropToken_other ls_keys migrateSchema_def getItem_def
      attempt_def setItem_def removeItem_def split: option.splits)

section \<open>Facts about persistence\<close>

lemma stringify_nonempty: "json_safe v \<Longrightarrow> stringify v \<noteq> []"
  using stringify_head [of v] by auto

lemma parse_item_stringify:
  "ls_open ls \<Longrightarrow> ls_items ls k = Some (stringify v) \<Longrightarrow> json_safe v \<Longrightarrow> parse_item ls k = Some v"
  by (simp add: parse_item_def getItem_def stringify_nonempty json_roundtrip)

definition theme_item :: "string \<Rightarrow> string option" where
  "theme_item t = (if t = ''light'' \<or> t = ''dark'' then Some t else None)"

lemma persist_items:
  assumes "ls_ok ls"
  shows "persist s ls = ls\<lparr>ls_items := (ls_items ls)(LS_LANG \<mapsto> s_lang s,
     LS_COMPANY_COLORS \<mapsto> stringify (or_empty (s_companyColors s)),
     LS_RAIL_OPEN \<mapsto> (if s_railOpen s then ''1'' else ''0''),
     LS_THEME := theme_item (s_theme s),
     LS_ACKED \<mapsto> stringify (or_empty (s_ackedAlerts s)),
     LS_MAINT \<mapsto> stringify (or_empty (s_maint s)),
     LS_NOTES \<mapsto> stringify (or_empty (s_notes s)),
     LS_NOTIFY := None,
     LS_SETG \<mapsto> stringify (setg_value (s_setg s)))\<rparr>"
  using assms by (simp add: persist_def theme_item_def)

lemma json_safe_setg: "json_safe (setg_value g)"
proof -
  have "json_safe (ackDays v)" for v
    unfolding ackDays_def by (auto intro: exI [of _ 7] exI [of _ 30] exI [of _ 0])
  then show ?thesis by (simp add: setg_value_def)
qed

lemma is_obj_or_empty: "is_obj v \<Longrightarrow> or_empty v = v"
  by (simp add: or_empty_def jor_def is_obj_truthy)

lemma setg_no_token: "\<not> has_own (setg_value g) ''token''"
  by (simp add: setg_value_def)

lemma ackDays_idem [simp]: "ackDays (ackDays v) = ackDays v"
  by (simp add: ackDays_def)

lemma load_setg_value: "load_setg (setg_value g) = g\<lparr>sg_ackAutoDays := ackDays (sg_ackAutoDays g), sg_escHours := Undef\<rparr>"
  by (cases g) (simp add: load_setg_def setg_value_def bool_or_def)

lemma reload_unchanged:
  assumes "ls_ok ls" "ls_items ls LS_DATA_SCHEMA = Some DATA_SCHEMA"
  shows "migrateLocalState (persist s ls) = persist s ls"
proof -
  let ?p = "persist s ls"
  have p: "ls_items ?p LS_DATA_SCHEMA = Some DATA_SCHEMA" "ls_items ?p LS_NOTIFY = None"
    "ls_items ?p LS_SETG = Some (stringify (setg_value (s_setg s)))" "ls_open ?p"
    using assms by (simp_all add: persist_items ls_keys)
  have "parse_item ?p LS_SETG = Some (setg_value (s_setg s))"
    using p by (simp add: parse_item_stringify json_safe_setg)
  then have "dropToken ?p = ?p" by (simp add: dropToken_def setg_no_token)
  moreover have "(ls_items ?p)(LS_NOTIFY := None) = ls_items ?p" using p(2) by (simp add: fun_upd_idem)
  ultimately show ?thesis using p by (simp add: migrateLocalState_def migrateSchema_id)
qed

lemma readPersisted_persist:
  assumes "ls_ok ls" and "is_obj (s_companyColors s)" "json_safe (s_companyColors s)"
    and "is_obj (s_ackedAlerts s)" "json_safe (s_ackedAlerts s)" "is_obj (s_maint s)" "json_safe (s_maint s)"
    and "is_obj (s_notes s)" "json_safe (s_notes s)"
  shows "readPersisted (persist s ls) = \<lparr>
     pp_lang = only (\<lambda>l. l = ''ko'' \<or> l = ''en'') (Some (s_lang s)),
     pp_companyColors = Some (s_companyColors s),
     pp_theme = theme_item (s_theme s),
     pp_railOpen = Some (s_railOpen s),
     pp_setg = Some ((s_setg s)\<lparr>sg_ackAutoDays := ackDays (sg_ackAutoDays (s_setg s)), sg_escHours := Undef\<rparr>),
     pp_acked = Some (s_ackedAlerts s), pp_notes = Some (s_notes s), pp_maint = Some (s_maint s)\<rparr>"
proof -
  let ?p = "persist s ls"
  have i: "item ?p LS_LANG = Some (s_lang s)" "item ?p LS_THEME = theme_item (s_theme s)"
    "item ?p LS_RAIL_OPEN = Some (if s_railOpen s then ''1'' else ''0'')"
    using assms(1) by (simp_all add: item_def getItem_def persist_items ls_keys split: option.splits)
  have j: "parse_item ?p LS_COMPANY_COLORS = Some (s_companyColors s)"
    "parse_item ?p LS_ACKED = Some (s_ackedAlerts s)" "parse_item ?p LS_MAINT = Some (s_maint s)"
    "parse_item ?p LS_NOTES = Some (s_notes s)" "parse_item ?p LS_SETG = Some (setg_value (s_setg s))"
    using assms by (auto intro!: parse_item_stringify simp: persist_items ls_keys is_obj_or_empty json_safe_setg)
  have o: "is_obj (setg_value g)" for g by (simp add: setg_value_def)
  show ?thesis
    using assms by (simp add: readPersisted_def i j o only_def load_rail_def theme_item_def load_setg_value)
qed

lemma pred_only: "pred_option P (only P x)"
  by (auto simp: only_def split: option.splits)

lemma only_lang: "only (\<lambda>l. l = a \<or> l = b) x = None \<or> only (\<lambda>l. l = a \<or> l = b) x = Some a
    \<or> only (\<lambda>l. l = a \<or> l = b) x = Some b"
  by (auto simp: only_def split: option.splits)

lemmas only_theme = only_lang [of "''light''" "''dark''"]

lemma pred_setg: "pred_option (\<lambda>g. sg_ackAutoDays g = JNum (Fin 0) \<or> sg_ackAutoDays g = JNum (Fin 7)
    \<or> sg_ackAutoDays g = JNum (Fin 30)) (map_option load_setg x)"
  by (cases x) (auto simp: load_setg_def ackDays_def)

lemma map_of_mergeState: "map_of (mergeState st p) k = (case map_of (rev p) k of None \<Rightarrow> map_of st k | Some v \<Rightarrow> Some v)"
proof (induction p arbitrary: st)
  case (Cons q p)
  then show ?case by (simp add: mergeState_def map_add_def split: option.splits)
qed (simp add: mergeState_def)

section \<open>Properties\<close>

text \<open>
  C32. The console's local state survives a reload: for an open storage that has been loaded
  once, what \<open>persist\<close> writes is what the next \<open>loadPersisted\<close> returns (acknowledgements,
  maintenance windows, notes and colours exactly; language and theme where they are one of the
  known values; the auto-acknowledge period reduced to 0, 7 or 30 days).
\<close>

theorem persist_load_roundtrip:
  assumes "ls_ok ls" and "is_obj (s_companyColors s)" "json_safe (s_companyColors s)"
    and "is_obj (s_ackedAlerts s)" "json_safe (s_ackedAlerts s)" "is_obj (s_maint s)" "json_safe (s_maint s)"
    and "is_obj (s_notes s)" "json_safe (s_notes s)"
  shows "snd (loadPersisted (persist s (fst (loadPersisted ls)))) = \<lparr>
     pp_lang = only (\<lambda>l. l = ''ko'' \<or> l = ''en'') (Some (s_lang s)),
     pp_companyColors = Some (s_companyColors s),
     pp_theme = only (\<lambda>t. t = ''light'' \<or> t = ''dark'') (Some (s_theme s)),
     pp_railOpen = Some (s_railOpen s),
     pp_setg = Some ((s_setg s)\<lparr>sg_ackAutoDays := ackDays (sg_ackAutoDays (s_setg s)), sg_escHours := Undef\<rparr>),
     pp_acked = Some (s_ackedAlerts s), pp_notes = Some (s_notes s), pp_maint = Some (s_maint s)\<rparr>"
proof -
  let ?l = "migrateLocalState ls"
  have ok: "ls_ok ?l" using assms(1) by (simp add: ls_ok_def)
  have "migrateLocalState (persist s ?l) = persist s ?l"
    using ok migrate_schema_set [OF assms(1)] by (rule reload_unchanged)
  then show ?thesis
    using readPersisted_persist [OF ok assms(2-9)]
    by (simp add: loadPersisted_def Let_def theme_item_def only_def)
qed

definition wit_storage :: storage where
  "wit_storage = \<lparr>ls_open = True, ls_accepts = (\<lambda>_ _. True), ls_items = Map.empty\<rparr>"

definition wit_state :: app_state where
  "wit_state = initialState\<lparr>s_theme := ''dark'', s_notes := JObj [(''ev-01'', JObj [(''text'', JStr ''swap PSU'')])]\<rparr>"

theorem persist_load_roundtrip_witness:
  "pp_notes (snd (loadPersisted (persist wit_state (fst (loadPersisted wit_storage)))))
     = Some (JObj [(''ev-01'', JObj [(''text'', JStr ''swap PSU'')])])
   \<and> pp_theme (snd (loadPersisted (persist wit_state (fst (loadPersisted wit_storage))))) = Some ''dark''"
  using persist_load_roundtrip [of wit_storage wit_state]
  by (simp add: wit_storage_def ls_ok_def wit_state_def initialState_def only_def)

text \<open>
  A polluted or foreign storage cannot give the state a value of the wrong shape: whatever
  the storage holds, a loaded language is ko or en, a loaded theme light or dark, the loaded
  maps are objects, and the loaded auto-acknowledge period is 0, 7 or 30 days; and on an open
  storage the legacy notification key, which may hold a webhook token, is gone after the load.
\<close>

theorem loadPersisted_shape:
  "(case loadPersisted ls of (ls', p) \<Rightarrow>
     pp_lang p \<in> {None, Some ''ko'', Some ''en''} \<and> pp_theme p \<in> {None, Some ''light'', Some ''dark''}
     \<and> pred_option is_obj (pp_companyColors p) \<and> pred_option is_obj (pp_acked p)
     \<and> pred_option is_obj (pp_notes p) \<and> pred_option is_obj (pp_maint p)
     \<and> pred_option (\<lambda>g. sg_ackAutoDays g \<in> {JNum (Fin 0), JNum (Fin 7), JNum (Fin 30)}) (pp_setg p)
     \<and> (if ls_open ls then ls_items ls' LS_NOTIFY = None else ls' = ls))"
proof -
  have closed: "migrateLocalState ls = ls" if "\<not> ls_open ls"
    using that by (simp add: migrateLocalState_def migrateSchema_def dropToken_def attempt_def
        removeItem_def getItem_def parse_item_def)
  show ?thesis
    using closed notify_removed [of ls]
    by (simp add: loadPersisted_def Let_def readPersisted_def pred_only only_lang only_theme pred_setg)
qed

text \<open>
  \<open>setState\<close> merges shallowly and notifies everyone once: a key of the patch takes the
  last value the patch gives it, every other key keeps its value, and each current listener
  is called exactly once, in subscription order, with the merged state.
\<close>

theorem setState_merges:
  "map_of (so_state (fst (setState (Some p) so))) k =
     (case map_of (rev p) k of None \<Rightarrow> map_of (so_state so) k | Some v \<Rightarrow> Some v)
   \<and> snd (setState (Some p) so) = map (\<lambda>l. (l, so_state (fst (setState (Some p) so)))) (so_listeners so)
   \<and> so_listeners (fst (setState (Some p) so)) = so_listeners so"
  by (simp add: setState_def Let_def map_of_mergeState)

end
