(* ===== verification/UiState.thy ===== *)
theory UiState
  imports Store
begin

text \<open>
  \<open>src/web/js/util/ui_state.js\<close>: which collection state the shell may advertise, the console
  time format and its inverse, the impact of a restore and the confirmation validator.

  The main facts: the badge says LIVE exactly when the last poll succeeded recently, on real
  data and without any error; and the text the console prints for an instant is read back as
  that instant.
\<close>

section \<open>Collection state\<close>

definition isSampleMode :: "app_state \<Rightarrow> bool" where
  "isSampleMode st \<longleftrightarrow> s_sampleMode st \<or> s_demoMode st
     \<or> s_source st = ''sample'' \<or> s_source st = ''demo''"

record coll_state =
  cs_key :: string
  cs_label :: string
  cs_tone :: string
  cs_lastSuccess :: int

definition coll :: "string \<Rightarrow> string \<Rightarrow> string \<Rightarrow> int \<Rightarrow> coll_state" where
  "coll k l t s = \<lparr>cs_key = k, cs_label = l, cs_tone = t, cs_lastSuccess = s\<rparr>"

definition refresh_ms :: "app_state \<Rightarrow> jsnum" where
  "refresh_ms st = n_mul (n_max (Fin 1) (if n_truthy (s_refreshSec st) then s_refreshSec st else Fin 30)) (Fin 3000)"

definition poll_age :: "app_state \<Rightarrow> int \<Rightarrow> jsnum" where
  "poll_age st t = n_sub (Fin (of_int t)) (Fin (of_int (s_lastPoll st)))"

definition collectionState :: "app_state \<Rightarrow> int \<Rightarrow> coll_state" where
  "collectionState st t =
     (let lastSuccess = s_lastPoll st in
      if s_pollPending st \<and> lastSuccess = 0 \<and> s_liveError st = [] \<and> s_uiError st = []
      then coll ''connecting'' ''CONNECTING'' ''warn'' lastSuccess
      else if s_uiError st \<noteq> [] \<or> (lastSuccess = 0 \<and> (s_liveError st \<noteq> [] \<or> \<not> s_pollPending st))
      then coll ''offline'' ''OFFLINE'' ''neg'' lastSuccess
      else if s_liveError st \<noteq> [] \<or> s_stale st
        \<or> (lastSuccess \<noteq> 0 \<and> n_lt (refresh_ms st) (poll_age st t))
      then coll ''stale'' ''STALE'' ''warn'' lastSuccess
      else if isSampleMode st \<and> lastSuccess \<noteq> 0
      then coll ''sample'' ''SAMPLE'' ''warn'' lastSuccess
      else coll ''live'' ''LIVE'' ''pos'' lastSuccess)"

definition isInitialLoading :: "app_state \<Rightarrow> bool" where
  "isInitialLoading st \<longleftrightarrow> s_pollPending st \<and> s_lastPoll st = 0 \<and> s_liveError st = [] \<and> s_uiError st = []"

section \<open>Console time\<close>

text \<open>\<open>new Date(v)\<close>: a string is parsed, an object through its text, the rest is a time value.\<close>

definition time_clip :: "jsnum \<Rightarrow> int option" where
  "time_clip n = (case n of Fin x \<Rightarrow> if \<bar>x\<bar> \<le> 8640000000000000
       then Some (if 0 \<le> x then \<lfloor>x\<rfloor> else \<lceil>x\<rceil>) else None | _ \<Rightarrow> None)"

fun new_date :: "host \<Rightarrow> jsval \<Rightarrow> int option" where
  "new_date h (JStr s) = date_parse h s"
| "new_date h (JArr vs) = date_parse h (to_str (JArr vs))"
| "new_date h (JObj ps) = date_parse h (to_str (JObj ps))"
| "new_date h v = time_clip (to_num v)"

definition rx_kst_suffix :: rx where
  "rx_kst_suffix = rseqs [rplus is_space, rlit_ci ''KST'', REos]"

definition rx_zone :: rx where
  "rx_zone = RSeq (RAlt (rlit_ci ''Z'') (rseqs [rone ''+-'', rdigits 2, ropt (rlit '':''), rdigits 2])) REos"

definition zoned :: "string \<Rightarrow> string" where
  "zoned s = (let raw = replace_first '' '' ''T'' (rx_replace rx_kst_suffix ''+09:00'' s)
     in if rx_test rx_zone raw then raw else raw @ ''+09:00'')"

definition timestampKey :: "host \<Rightarrow> jsval \<Rightarrow> int" where
  "timestampKey h v =
     (let raw = trim (str_nn v) in
      if raw = [] then 0
      else (case date_parse h (zoned raw) of None \<Rightarrow> 0 | Some t \<Rightarrow> t))"

datatype date_arg = ADate "int option" | AVal jsval

definition rx_stamp_head :: rx where
  "rx_stamp_head = rseqs [RBos, rdigits 4, rlit ''-'', rdigits 2, rlit ''-'', rdigits 2, rone '' T'',
     rdigits 2, rlit '':'', rdigits 2]"

definition console_date :: "host \<Rightarrow> date_arg \<Rightarrow> int option" where
  "console_date h a = (case a of
     ADate d \<Rightarrow> d
   | AVal (JStr s) \<Rightarrow>
       if rx_test rx_stamp_head (trim s)
       then (let key = timestampKey h (JStr s) in if key \<noteq> 0 then Some key else new_date h (JStr s))
       else new_date h (JStr s)
   | AVal v \<Rightarrow> new_date h v)"

definition formatConsoleTime :: "host \<Rightarrow> date_arg \<Rightarrow> bool \<Rightarrow> string" where
  "formatConsoleTime h a includeZone = (case console_date h a of
     None \<Rightarrow> ''--''
   | Some t \<Rightarrow> (let text = replace_first ''T'' '' '' (kst_text t) in if includeZone then text @ '' KST'' else text))"

section \<open>Small helpers of the dialogs\<close>

text \<open>The text content of the profile element, \<open>None\<close> when there is no document or no element.\<close>

definition currentOperator :: "string option \<Rightarrow> string" where
  "currentOperator node = (case node of None \<Rightarrow> ''admin'' | Some t \<Rightarrow> if trim t \<noteq> [] then trim t else ''admin'')"

record impact =
  ri_incomingDevices :: nat
  ri_currentDevices :: jsnum
  ri_restoresUIState :: bool

definition restoreImpact :: "jsval \<Rightarrow> jsval \<Rightarrow> impact" where
  "restoreImpact documentValue currentDevices =
     (let doc = obj_or documentValue (JObj []);
          cfg = obj_or (jget doc ''config'') (JObj []);
          clusters = length (arr_of (jget cfg ''clusters''));
          edge = length (arr_of (jget cfg ''edge_devices''))
      in \<lparr>ri_incomingDevices = clusters + edge,
          ri_currentDevices = n_max (Fin 0) (num_or currentDevices (Fin 0)),
          ri_restoresUIState = is_obj (jget doc ''ui'')\<rparr>)"

definition confirmationIssues :: "jsval \<Rightarrow> jsval \<Rightarrow> string list" where
  "confirmationIssues values options =
     (let v = jor values (JObj []); opts = jor options (JObj []) in
      (if jget opts ''requireReason'' \<noteq> JBool False \<and> trim (str_or (jget v ''reason'')) = [] then [''reason''] else [])
      @ (if truthy (jget opts ''typedPhrase'') \<and> trim (str_or (jget v ''phrase'')) \<noteq> to_str (jget opts ''typedPhrase'')
         then [''phrase''] else []))"

section \<open>Facts about stamps\<close>

lemma digit_char_facts:
  assumes "0 \<le> d" "d < 10"
  shows "is_digit (digit_char d)" "digit_val (digit_char d) = d"
proof -
  have "\<forall>d \<in> {0..<10}. is_digit (digit_char d) \<and> digit_val (digit_char d) = d" by code_simp
  then show "is_digit (digit_char d)" "digit_val (digit_char d) = d" using assms by simp_all
qed

text \<open>A digit is none of the characters that delimit a stamp.\<close>

lemma digit_plain:
  assumes "is_digit c"
  shows "\<not> is_space c" "lower_char c = c" "lower_char c \<noteq> CHR ''z''" "lower_char c \<noteq> CHR ''k''"
    "c \<noteq> CHR '' ''" "c \<noteq> CHR ''-''" "c \<noteq> CHR '':''" "c \<noteq> CHR ''+''" "c \<noteq> CHR ''T''" "c \<noteq> CHR ''z''" "c \<noteq> CHR ''k''"
proof -
  have "\<forall>c \<in> set ''0123456789''. \<not> is_space c \<and> lower_char c = c \<and> lower_char c \<noteq> CHR ''z'' \<and> lower_char c \<noteq> CHR ''k''
     \<and> c \<noteq> CHR '' '' \<and> c \<noteq> CHR ''-'' \<and> c \<noteq> CHR '':'' \<and> c \<noteq> CHR ''+'' \<and> c \<noteq> CHR ''T'' \<and> c \<noteq> CHR ''z'' \<and> c \<noteq> CHR ''k''"
    by code_simp
  then show "\<not> is_space c" "lower_char c = c" "lower_char c \<noteq> CHR ''z''" "lower_char c \<noteq> CHR ''k''"
    "c \<noteq> CHR '' ''" "c \<noteq> CHR ''-''" "c \<noteq> CHR '':''" "c \<noteq> CHR ''+''" "c \<noteq> CHR ''T''" "c \<noteq> CHR ''z''" "c \<noteq> CHR ''k''"
    using assms unfolding is_digit_def by blast+
qed

lemma punct_plain [simp]:
  "is_space (CHR '' '')" "\<not> is_space (CHR ''-'')" "\<not> is_space (CHR '':'')" "\<not> is_space (CHR ''K'')" "\<not> is_space (CHR ''T'')"
  "\<not> is_digit (CHR ''-'')" "\<not> is_digit (CHR '':'')" "\<not> is_digit (CHR '' '')" "\<not> is_digit (CHR ''T'')"  "\<not> is_digit (CHR ''+'')"
  "lower_char (CHR ''K'') = CHR ''k''" "lower_char (CHR ''S'') = CHR ''s''" "lower_char (CHR ''T'') = CHR ''t''"
  "lower_char (CHR ''Z'') = CHR ''z''" "lower_char (CHR ''-'') = CHR ''-''" "lower_char (CHR '':'') = CHR '':''"
  "lower_char (CHR ''+'') = CHR ''+''" "is_digit (CHR ''0'')" "is_digit (CHR ''9'')"
  by code_simp+

lemma rdigits_num:
  "rdigits 2 = RSeq rdig (RSeq rdig REps)"
  "rdigits 3 = RSeq rdig (RSeq rdig (RSeq rdig REps))"
  "rdigits 4 = RSeq rdig (RSeq rdig (RSeq rdig (RSeq rdig REps)))"
  by (simp_all add: rdigits_def eval_nat_numeral)

lemmas rx_eval = rx_exec_def rx_test_def rx_replace_def rseqs.simps rlit.simps rlit_ci.simps ralts.simps
  rdigits_num rplus_def ropt_def rdig_def rone_def

lemma digit_zero: "CHR ''0'' = digit_char 0"
  by code_simp

lemma pad2_digits: "0 \<le> n \<Longrightarrow> n < 100 \<Longrightarrow> pad2 n = [digit_char (n div 10), digit_char (n mod 10)]"
  by (cases "n < 10") (simp_all add: pad2_def pad_left_def nat_str.simps [of n] nat_str.simps [of "n div 10"] digit_zero)

lemma div10_div10: "n div 10 div 10 = n div (100 :: int)" "n div 100 div 10 = n div (1000 :: int)"
  "n div 10 div 100 = n div (1000 :: int)"
  by (simp_all add: zdiv_zmult2_eq [symmetric])

lemma nat_str_1: "n < 10 \<Longrightarrow> nat_str n = [digit_char n]"
  by (simp add: nat_str.simps [of n])

lemma nat_str_2: "10 \<le> n \<Longrightarrow> n < 100 \<Longrightarrow> nat_str n = [digit_char (n div 10), digit_char (n mod 10)]"
  by (simp add: nat_str.simps [of n] nat_str_1)

lemma nat_str_3: "100 \<le> n \<Longrightarrow> n < 1000 \<Longrightarrow>
  nat_str n = [digit_char (n div 100), digit_char (n div 10 mod 10), digit_char (n mod 10)]"
  using nat_str_2 [of "n div 10"] by (simp add: nat_str.simps [of n] div10_div10)

lemma nat_str_4: "1000 \<le> n \<Longrightarrow> n < 10000 \<Longrightarrow> nat_str n =
   [digit_char (n div 1000), digit_char (n div 100 mod 10), digit_char (n div 10 mod 10), digit_char (n mod 10)]"
  using nat_str_3 [of "n div 10"] by (simp add: nat_str.simps [of n] div10_div10)

lemma pad4_digits:
  assumes "0 \<le> n" "n < 10000"
  shows "pad4 n = [digit_char (n div 1000), digit_char (n div 100 mod 10), digit_char (n div 10 mod 10), digit_char (n mod 10)]"
proof -
  consider "n < 10" | "10 \<le> n" "n < 100" | "100 \<le> n" "n < 1000" | "1000 \<le> n" by linarith
  then show ?thesis
  proof cases
    case 1
    then show ?thesis using assms by (simp add: pad4_def pad_left_def nat_str_1 digit_zero eval_nat_numeral)
  next
    case 2
    then show ?thesis by (simp add: pad4_def pad_left_def nat_str_2 digit_zero eval_nat_numeral)
  next
    case 3
    then show ?thesis by (simp add: pad4_def pad_left_def nat_str_3 digit_zero eval_nat_numeral)
  next
    case 4
    then show ?thesis using assms by (simp add: pad4_def pad_left_def nat_str_4)
  qed
qed

definition stamp :: "char list \<Rightarrow> char \<Rightarrow> string" where
  "stamp ds sep = (case ds of [a, b, c, d, e, f, g, h, i, j, k, l, m, n] \<Rightarrow>
     [a, b, c, d, CHR ''-'', e, f, CHR ''-'', g, h, sep, i, j, CHR '':'', k, l, CHR '':'', m, n] | _ \<Rightarrow> [])"

lemma stamp_zoned:
  assumes "list_all is_digit [a, b, c, d, e, f, g, h, i, j, k, l, m, n]"
  shows "zoned (stamp [a, b, c, d, e, f, g, h, i, j, k, l, m, n] (CHR '' '') @ '' KST'')
    = stamp [a, b, c, d, e, f, g, h, i, j, k, l, m, n] (CHR ''T'') @ ''+09:00''"
proof -
  have 1: "rx_replace rx_kst_suffix ''+09:00'' (stamp [a, b, c, d, e, f, g, h, i, j, k, l, m, n] (CHR '' '') @ '' KST'')
    = stamp [a, b, c, d, e, f, g, h, i, j, k, l, m, n] (CHR '' '') @ ''+09:00''"
    using assms by (simp add: rx_kst_suffix_def rx_eval stamp_def digit_plain)
  have 2: "replace_first '' '' ''T'' (stamp [a, b, c, d, e, f, g, h, i, j, k, l, m, n] (CHR '' '') @ ''+09:00'')
    = stamp [a, b, c, d, e, f, g, h, i, j, k, l, m, n] (CHR ''T'') @ ''+09:00''"
    using assms by (auto simp add: stamp_def digit_plain)
  have 3: "rx_test rx_zone (stamp [a, b, c, d, e, f, g, h, i, j, k, l, m, n] (CHR ''T'') @ ''+09:00'')"
    using assms by (simp add: rx_zone_def rx_eval stamp_def digit_plain)
  show ?thesis unfolding zoned_def 1 2 Let_def using 3 by simp
qed

lemma stamp_iso:
  assumes "list_all is_digit [a, b, c, d, e, f, g, h, i, j, k, l, m, n]"
  shows "rx_exec rx_iso (stamp [a, b, c, d, e, f, g, h, i, j, k, l, m, n] (CHR ''T'') @ ''+09:00'')
    = Some ([], stamp [a, b, c, d, e, f, g, h, i, j, k, l, m, n] (CHR ''T'') @ ''+09:00'',
        [[a, b, c, d], [e, f], [g, h], [i, j], [k, l], [m, n], [], ''+'', ''09'', ''00''], [])"
  using assms by (simp add: rx_iso_def rx_eval stamp_def digit_plain)

lemma stamp_head:
  assumes "list_all is_digit [a, b, c, d, e, f, g, h, i, j, k, l, m, n]"
  shows "rx_test rx_stamp_head (stamp [a, b, c, d, e, f, g, h, i, j, k, l, m, n] (CHR '' '') @ z)"
  using assms by (simp add: rx_stamp_head_def rx_eval stamp_def digit_plain)

lemma stamp_trim:
  assumes "list_all is_digit [a, b, c, d, e, f, g, h, i, j, k, l, m, n]"
  shows "trim (stamp [a, b, c, d, e, f, g, h, i, j, k, l, m, n] (CHR '' '') @ '' KST'')
    = stamp [a, b, c, d, e, f, g, h, i, j, k, l, m, n] (CHR '' '') @ '' KST''"
proof -
  have "\<not> is_space (CHR ''T'')" by code_simp
  then show ?thesis using assms by (simp add: trim_def stamp_def digit_plain)
qed

definition kst_ms :: "int \<Rightarrow> int \<Rightarrow> int \<Rightarrow> int \<Rightarrow> int \<Rightarrow> int \<Rightarrow> int" where
  "kst_ms y mo d hh mi ss = ms_of y mo d hh mi ss 0 - 32400000"

definition clock_ok :: "int \<Rightarrow> int \<Rightarrow> int \<Rightarrow> int \<Rightarrow> int \<Rightarrow> int \<Rightarrow> bool" where
  "clock_ok y mo d hh mi ss \<longleftrightarrow> 0 \<le> y \<and> y < 10000 \<and> valid_civil y mo d \<and>
     0 \<le> hh \<and> hh < 24 \<and> 0 \<le> mi \<and> mi < 60 \<and> 0 \<le> ss \<and> ss < 60"

lemma kst_split:
  assumes "clock_ok y mo d hh mi ss"
  shows "(kst_ms y mo d hh mi ss + 32400000) div 86400000 = days_from_civil y mo d"
    "(kst_ms y mo d hh mi ss + 32400000) mod 86400000 = (hh * 3600 + mi * 60 + ss) * 1000"
proof -
  let ?s = "(hh * 3600 + mi * 60 + ss) * 1000"
  have e: "kst_ms y mo d hh mi ss + 32400000 = 86400000 * days_from_civil y mo d + ?s"
    by (simp add: kst_ms_def ms_of_def)
  have s: "0 \<le> ?s" "?s < 86400000" using assms by (simp_all add: clock_ok_def)
  show "(kst_ms y mo d hh mi ss + 32400000) div 86400000 = days_from_civil y mo d"
    using int_div_pos_eq [OF e] s by simp
  show "(kst_ms y mo d hh mi ss + 32400000) mod 86400000 = ?s"
    using int_mod_pos_eq [OF e] s by simp
qed

lemma clock_split:
  assumes "0 \<le> mi" "mi < 60" "0 \<le> ss" "ss < (60 :: int)"
  shows "(hh * 3600 + mi * 60 + ss) div 3600 = hh" "(hh * 3600 + mi * 60 + ss) mod 3600 div 60 = mi"
    "(hh * 3600 + mi * 60 + ss) mod 60 = ss"
proof -
  have e: "hh * 3600 + mi * 60 + ss = 3600 * hh + (mi * 60 + ss)" by simp
  show "(hh * 3600 + mi * 60 + ss) div 3600 = hh" using int_div_pos_eq [OF e] assms by simp
  have "(hh * 3600 + mi * 60 + ss) mod 3600 = mi * 60 + ss" using int_mod_pos_eq [OF e] assms by simp
  moreover have "mi * 60 + ss = 60 * mi + ss" by simp
  ultimately show "(hh * 3600 + mi * 60 + ss) mod 3600 div 60 = mi"
    using int_div_pos_eq [of "mi * 60 + ss" 60 mi ss] assms by simp
  have "hh * 3600 + mi * 60 + ss = 60 * (hh * 60 + mi) + ss" by simp
  from int_mod_pos_eq [OF this] show "(hh * 3600 + mi * 60 + ss) mod 60 = ss" using assms by simp
qed

lemma kst_text_eq:
  assumes "clock_ok y mo d hh mi ss"
  shows "kst_text (kst_ms y mo d hh mi ss) = pad4 y @ ''-'' @ pad2 mo @ ''-'' @ pad2 d @ '' '' @
     pad2 hh @ '':'' @ pad2 mi @ '':'' @ pad2 ss"
proof -
  have c: "civil_from_days (days_from_civil y mo d) = (y, mo, d)"
    using assms by (simp add: clock_ok_def civil_roundtrip)
  have s: "0 \<le> mi" "mi < 60" "0 \<le> ss" "ss < 60" using assms by (simp_all add: clock_ok_def)
  have n: "9 * 3600000 = (32400000 :: int)" by simp
  have k: "x * 1000 div 1000 = x" for x :: int by simp
  show ?thesis unfolding kst_text_def Let_def n kst_split [OF assms] k c clock_split [OF s] by simp
qed

lemma valid_civil_small: "valid_civil y m d \<Longrightarrow> 0 \<le> m \<and> m < 100 \<and> 0 \<le> d \<and> d < 100"
  by (auto simp: valid_civil_def days_in_month_def split: if_splits)

text \<open>The fourteen digits of a stamp and the numbers they denote.\<close>

definition stamp_digits :: "int \<Rightarrow> int \<Rightarrow> int \<Rightarrow> int \<Rightarrow> int \<Rightarrow> int \<Rightarrow> char list" where
  "stamp_digits y mo d hh mi ss = map digit_char [y div 1000, y div 100 mod 10, y div 10 mod 10, y mod 10,
     mo div 10, mo mod 10, d div 10, d mod 10, hh div 10, hh mod 10, mi div 10, mi mod 10, ss div 10, ss mod 10]"

lemma digits_range:
  "0 \<le> (n :: int) mod 10" "n mod 10 < 10"
  "0 \<le> n \<Longrightarrow> n < 100 \<Longrightarrow> 0 \<le> n div 10 \<and> n div 10 < 10"
  "0 \<le> n \<Longrightarrow> n < 10000 \<Longrightarrow> 0 \<le> n div 1000 \<and> n div 1000 < 10"
  by (simp_all add: pos_imp_zdiv_nonneg_iff)

lemma kst_text_stamp:
  assumes "clock_ok y mo d hh mi ss"
  shows "kst_text (kst_ms y mo d hh mi ss) = stamp (stamp_digits y mo d hh mi ss) (CHR '' '')"
  using assms valid_civil_small [of y mo d]
  by (simp add: kst_text_eq clock_ok_def pad2_digits pad4_digits stamp_digits_def stamp_def)

lemma stamp_digits_digits: "clock_ok y mo d hh mi ss \<Longrightarrow> list_all is_digit (stamp_digits y mo d hh mi ss)"
  using valid_civil_small [of y mo d]
  by (auto simp: clock_ok_def stamp_digits_def intro!: digit_char_facts)

lemma horner4: "(y :: int) = 10 * a + r0 \<Longrightarrow> a = 10 * b + r1 \<Longrightarrow> b = 10 * c + r2 \<Longrightarrow>
    10 * (10 * (10 * c + r2) + r1) + r0 = y"
  by simp

lemma num_of_digits:
  "0 \<le> y \<Longrightarrow> y < 10000 \<Longrightarrow>
    num_of [digit_char (y div 1000), digit_char (y div 100 mod 10), digit_char (y div 10 mod 10), digit_char (y mod 10)] = y"
  "0 \<le> n \<Longrightarrow> n < 100 \<Longrightarrow> num_of [digit_char (n div 10), digit_char (n mod 10)] = n"
proof -
  assume y: "0 \<le> y" "y < 10000"
  have "10 * (10 * (10 * (y div 1000) + y div 100 mod 10) + y div 10 mod 10) + y mod 10 = y"
    using mult_div_mod_eq [of 10 y] mult_div_mod_eq [of 10 "y div 10"] mult_div_mod_eq [of 10 "y div 100"]
    unfolding div10_div10 by (intro horner4 [of y "y div 10" _ "y div 100"]) (simp_all only:)
  moreover have "digit_val (digit_char (y div 1000)) = y div 1000" "digit_val (digit_char (x mod 10)) = x mod 10" for x
    using y digits_range by (simp_all add: digit_char_facts)
  ultimately show "num_of [digit_char (y div 1000), digit_char (y div 100 mod 10), digit_char (y div 10 mod 10), digit_char (y mod 10)] = y"
    unfolding num_of_def digs_val_def foldl.simps by (simp only: mult_zero_right add_0)
next
  assume "0 \<le> n" "n < 100"
  then show "num_of [digit_char (n div 10), digit_char (n mod 10)] = n"
    by (simp add: num_of_def digs_val_def digit_char_facts)
qed

lemma date_parse_stamp:
  assumes c: "clock_ok y mo d hh mi ss"
  shows "date_parse h (stamp (stamp_digits y mo d hh mi ss) (CHR ''T'') @ ''+09:00'') = Some (kst_ms y mo d hh mi ss)"
proof -
  have v: "0 \<le> y" "y < 10000" "valid_civil y mo d" "0 \<le> mo" "mo < 100" "0 \<le> d" "d < 100"
    "0 \<le> hh" "hh < 24" "0 \<le> mi" "mi < 60" "0 \<le> ss" "ss < 60"
    using c valid_civil_small [of y mo d] by (simp_all add: clock_ok_def)
  have o: "num_of ''09'' = 9" "num_of ''00'' = 0" "num_of [] = 0" by code_simp+
  show ?thesis
    using stamp_digits_digits [OF c] v
    by (simp add: date_parse_def stamp_digits_def stamp_iso num_of_digits o kst_ms_def)
qed

lemma timestampKey_stamp:
  assumes c: "clock_ok y mo d hh mi ss"
  shows "timestampKey h (JStr (stamp (stamp_digits y mo d hh mi ss) (CHR '' '') @ '' KST'')) = kst_ms y mo d hh mi ss"
proof -
  let ?s = "stamp (stamp_digits y mo d hh mi ss)"
  note dig = stamp_digits_digits [OF c, unfolded stamp_digits_def list.map]
  have t: "trim (?s (CHR '' '') @ '' KST'') = ?s (CHR '' '') @ '' KST''"
    unfolding stamp_digits_def list.map by (rule stamp_trim [OF dig])
  have z: "zoned (?s (CHR '' '') @ '' KST'') = ?s (CHR ''T'') @ ''+09:00''"
    unfolding stamp_digits_def list.map by (rule stamp_zoned [OF dig])
  show ?thesis
    by (simp add: timestampKey_def str_nn_def nullish_def t z date_parse_stamp [OF c])
qed

lemma console_stamp:
  assumes c: "clock_ok y mo d hh mi ss" and nz: "kst_ms y mo d hh mi ss \<noteq> 0"
  shows "console_date h (AVal (JStr (stamp (stamp_digits y mo d hh mi ss) (CHR '' '') @ '' KST''))) = Some (kst_ms y mo d hh mi ss)"
proof -
  let ?s = "stamp (stamp_digits y mo d hh mi ss)"
  note dig = stamp_digits_digits [OF c, unfolded stamp_digits_def list.map]
  have t: "trim (?s (CHR '' '') @ '' KST'') = ?s (CHR '' '') @ '' KST''"
    unfolding stamp_digits_def list.map by (rule stamp_trim [OF dig])
  have hd: "rx_test rx_stamp_head (?s (CHR '' '') @ '' KST'')"
    unfolding stamp_digits_def list.map by (rule stamp_head [OF dig])
  show ?thesis using nz by (simp add: console_date_def Let_def t hd timestampKey_stamp [OF c])
qed

lemma replace_T_stamp:
  assumes "list_all is_digit [a, b, c, d, e, f, g, h, i, j, k, l, m, n]"
  shows "replace_first ''T'' '' '' (stamp [a, b, c, d, e, f, g, h, i, j, k, l, m, n] (CHR '' ''))
    = stamp [a, b, c, d, e, f, g, h, i, j, k, l, m, n] (CHR '' '')"
proof -
  have "\<And>c. is_digit c \<Longrightarrow> CHR ''T'' \<noteq> c" using digit_plain(9) by blast
  then show ?thesis using assms unfolding stamp_def list.case replace_first.simps starts_with.simps list.pred_inject by simp
qed

lemma format_ms:
  assumes c: "clock_ok y mo d hh mi ss"
  shows "formatConsoleTime h (ADate (Some (kst_ms y mo d hh mi ss))) True
    = stamp (stamp_digits y mo d hh mi ss) (CHR '' '') @ '' KST''"
proof -
  note dig = stamp_digits_digits [OF c, unfolded stamp_digits_def list.map]
  have "replace_first ''T'' '' '' (stamp (stamp_digits y mo d hh mi ss) (CHR '' ''))
      = stamp (stamp_digits y mo d hh mi ss) (CHR '' '')"
    unfolding stamp_digits_def list.map by (rule replace_T_stamp [OF dig])
  then show ?thesis by (simp add: formatConsoleTime_def console_date_def kst_text_stamp [OF c])
qed

section \<open>Properties\<close>

text \<open>
  The badge tells the truth: the shell advertises LIVE exactly when some poll has
  succeeded, there is neither a collection nor an interface error, nothing is marked stale,
  the last success is not older than three refresh periods, and the data is not sample data.
\<close>

theorem collectionState_live_iff:
  "cs_key (collectionState st t) = ''live'' \<longleftrightarrow>
     s_lastPoll st \<noteq> 0 \<and> s_liveError st = [] \<and> s_uiError st = [] \<and> \<not> s_stale st
     \<and> \<not> n_lt (refresh_ms st) (poll_age st t) \<and> \<not> isSampleMode st"
  by (simp add: collectionState_def coll_def Let_def)

text \<open>
  The console's time text is exact and stable: for every valid Korean wall-clock second of
  the years 0 to 9999, the text \<open>formatConsoleTime\<close> prints for it is read back by
  \<open>timestampKey\<close> as the same instant, and formatting the printed text again prints it unchanged
  (except at the epoch itself, whose key is the code's marker for an unreadable time).
\<close>

theorem console_time_roundtrip:
  assumes "clock_ok y mo d hh mi ss" and "kst_ms y mo d hh mi ss \<noteq> 0"
  shows "timestampKey h (JStr (formatConsoleTime h (ADate (Some (kst_ms y mo d hh mi ss))) True)) = kst_ms y mo d hh mi ss
    \<and> formatConsoleTime h (AVal (JStr (formatConsoleTime h (ADate (Some (kst_ms y mo d hh mi ss))) True))) True
       = formatConsoleTime h (ADate (Some (kst_ms y mo d hh mi ss))) True"
proof -
  note f = format_ms [OF assms(1), of h]
  have d: "console_date h (ADate (Some x)) = Some x" for x by (simp add: console_date_def)
  show ?thesis
    using timestampKey_stamp [OF assms(1)] console_stamp [OF assms] f
    by (simp add: formatConsoleTime_def d)
qed

definition wit_host :: host where
  "wit_host = \<lparr>now = 1784170800000, collate = (\<lambda>a b. if a = b then 0 else 1),
     collate_dflt = (\<lambda>a b. if a = b then 0 else 1), legacy_date = (\<lambda>_. None)\<rparr>"

theorem console_time_roundtrip_witness:
  "timestampKey wit_host (JStr (formatConsoleTime wit_host (ADate (Some (kst_ms 2026 7 16 12 0 5))) True))
     = kst_ms 2026 7 16 12 0 5"
proof -
  have "clock_ok 2026 7 16 12 0 5" "kst_ms 2026 7 16 12 0 5 \<noteq> 0" by code_simp+
  then show ?thesis using console_time_roundtrip by blast
qed

end
