(* ===== verification/Fmt.thy ===== *)
theory Fmt
  imports UiState "HOL-Library.Word"
begin

text \<open>
  \<open>src/web/js/util/fmt.js\<close>, \<open>model/compute/base.js\<close> and \<open>model/compute/time.js\<close>: language
  selection, clamping, the usage thresholds and the colours they select, the severity table,
  the content hash, the histories and the time texts. The module variable that holds the
  thresholds is passed as the argument \<open>th\<close>; a label function \<open>L(en, ko)\<close> is a HOL function.
\<close>

section \<open>Language, numbers, thresholds (fmt.js)\<close>

type_synonym lfun = "string \<Rightarrow> string \<Rightarrow> string"

definition setLang :: "jsval \<Rightarrow> string \<Rightarrow> string" where
  "setLang lang current = (if lang = JStr ''en'' then ''en'' else if lang = JStr ''ko'' then ''ko'' else current)"

definition L :: "string \<Rightarrow> lfun" where
  "L current en ko = (if current = ''en'' then en else ko)"

definition clamp :: "jsval \<Rightarrow> rat \<Rightarrow> rat \<Rightarrow> rat" where
  "clamp v a b = (case to_num v of Fin n \<Rightarrow> min b (max a n) | _ \<Rightarrow> a)"

record thresholds =
  th_warn :: jsnum
  th_crit :: jsnum

definition USAGE_THRESH :: thresholds where
  "USAGE_THRESH = \<lparr>th_warn = Fin 78, th_crit = Fin 90\<rparr>"

definition setUsageThresholds :: "jsval \<Rightarrow> jsval \<Rightarrow> thresholds \<Rightarrow> thresholds" where
  "setUsageThresholds warn crit th =
     (let w = to_num warn; c = to_num crit in
      if n_lt (Fin 0) w \<and> n_lt w c \<and> n_le c (Fin 100) then \<lparr>th_warn = w, th_crit = c\<rparr> else th)"

definition barColor :: "thresholds \<Rightarrow> jsval \<Rightarrow> string" where
  "barColor th v =
     (let n = num_or v (Fin 0) in
      if n_le (th_crit th) n then ''var(--neg-on-tint)''
      else if n_le (th_warn th) n then ''var(--warn-on-tint)''
      else ''var(--blue-on-tint)'')"

definition barFill :: "thresholds \<Rightarrow> jsval \<Rightarrow> string" where
  "barFill th v =
     (let n = num_or v (Fin 0) in
      if n_le (th_crit th) n then ''var(--neg)''
      else if n_le (th_warn th) n then ''var(--warn-bright)''
      else ''var(--accent)'')"

definition allocFill :: "thresholds \<Rightarrow> jsval \<Rightarrow> string" where
  "allocFill th v = barFill th v"

section \<open>Small tools (base.js)\<close>

definition base_clamp :: "jsval \<Rightarrow> rat \<Rightarrow> rat \<Rightarrow> rat" where
  "base_clamp v a b = (case to_num v of Fin n \<Rightarrow> max a (min b n) | _ \<Rightarrow> a)"

definition DASH :: string where "DASH = ''--''"

text \<open>
  The fingerprint hash: the source keeps the accumulator in 32 bits with \<open>| 0\<close>, which is
  arithmetic on a 32-bit word; \<open>>>> 0\<close> reads it unsigned, \<open>toString(36)\<close> prints it.
\<close>

definition digit36 :: "int \<Rightarrow> char" where
  "digit36 d = ''0123456789abcdefghijklmnopqrstuvwxyz'' ! nat d"

fun str36 :: "int \<Rightarrow> string" where
  "str36 n = (if n < 36 then [digit36 n] else str36 (n div 36) @ [digit36 (n mod 36)])"

declare str36.simps [simp del]

definition hash_step :: "32 word \<Rightarrow> char \<Rightarrow> 32 word" where
  "hash_step h c = (push_bit 5 h + h) + of_nat (code c)"

definition strHash :: "string \<Rightarrow> string" where
  "strHash s = str36 (uint (foldl hash_step 5381 s))"

definition cmpKo :: "host \<Rightarrow> jsval \<Rightarrow> jsval \<Rightarrow> int" where
  "cmpKo h a b = collate h (str_nn a) (str_nn b)"

definition langOf :: "string \<Rightarrow> string" where
  "langOf lang = (if lang = ''en'' then ''en'' else ''ko'')"

definition makeL :: "string \<Rightarrow> lfun" where
  "makeL lang en k = (if langOf lang = ''ko'' then k else en)"

record resolved =
  rs_fleet :: "jsval list"
  rs_state :: jsval

definition resolve :: "jsval \<Rightarrow> jsval \<Rightarrow> resolved" where
  "resolve a b = (if is_arr a then \<lparr>rs_fleet = arr_of a, rs_state = jor b (JObj [])\<rparr>
     else (let st = jor a (JObj []) in \<lparr>rs_fleet = arr_of (jget st ''fleet''), rs_state = st\<rparr>))"

text \<open>Severities: the rank table, with 3 for an unknown key as every caller writes it.\<close>

definition SEV_RANK :: "string \<Rightarrow> int option" where
  "SEV_RANK k = (if k = ''critical'' then Some 0 else if k = ''warning'' then Some 1
     else if k = ''info'' then Some 2 else None)"

definition sev_rank :: "jsval \<Rightarrow> int" where
  "sev_rank v = (case SEV_RANK (to_str v) of Some r \<Rightarrow> r | None \<Rightarrow> 3)"

definition STALE_ALERT_DAYS :: int where "STALE_ALERT_DAYS = 7"

record sev_info =
  si_key :: string
  si_tone :: string
  si_level :: string
  si_label :: string
  si_icon :: string

definition sevInfo :: "jsval \<Rightarrow> lfun \<Rightarrow> sev_info" where
  "sevInfo sev l =
     (if sev = JStr ''critical'' then \<lparr>si_key = ''critical'', si_tone = ''neg'', si_level = ''ERROR'',
        si_label = l ''CRITICAL'' ''simgak'', si_icon = ''warningCircle''\<rparr>
      else if sev = JStr ''warning'' then \<lparr>si_key = ''warning'', si_tone = ''warn'', si_level = ''WARN'',
        si_label = l ''WARNING'' ''gyeonggo'', si_icon = ''warningCircle''\<rparr>
      else \<lparr>si_key = ''info'', si_tone = ''info'', si_level = ''INFO'',
        si_label = l ''INFO'' ''jeongbo'', si_icon = ''infoCircle''\<rparr>)"

text \<open>\<open>state.hist[dev.id][field]\<close> when it is a non-empty array, the device's own history otherwise.\<close>

definition own_hist :: "device \<Rightarrow> string \<Rightarrow> rat list" where
  "own_hist d field = (if field = ''cpu'' then d_histCpu d else if field = ''mem'' then d_histMem d else d_histRtt d)"

definition histOf :: "jsval \<Rightarrow> device \<Rightarrow> string \<Rightarrow> jsval list" where
  "histOf hist d field =
     (let h = jget hist (d_id d) in
      if truthy h \<and> is_arr (jget h field) \<and> arr_of (jget h field) \<noteq> [] then arr_of (jget h field)
      else map (\<lambda>x. JNum (Fin x)) (own_hist d field))"

definition sparkHist :: "jsval list \<Rightarrow> int option \<Rightarrow> jsval list" where
  "sparkHist vs cur = (if 1 < length vs then vs
     else (case cur of None \<Rightarrow> [] | Some v \<Rightarrow> [JNum (Fin (of_int v)), JNum (Fin (of_int v))]))"

section \<open>Time texts (time.js)\<close>

definition tsNorm :: "host \<Rightarrow> jsval \<Rightarrow> string" where
  "tsNorm h t =
     (let raw = trim (str_nn t) in
      if raw = [] then []
      else if rx_test rx_zone raw then formatConsoleTime h (AVal (JStr raw)) True
      else replace_first ''T'' '' '' raw @ '' KST'')"

definition rx_z_end :: rx where "rx_z_end = RSeq (rlit_ci ''Z'') REos"

definition ackTimeNorm :: "jsval \<Rightarrow> string" where
  "ackTimeNorm t =
     (let raw = trim (str_nn t) in
      if raw = [] then ''no-time'' else rx_replace rx_z_end [] (replace_first ''T'' '' '' raw))"

definition ackTimestampKey :: "host \<Rightarrow> jsval \<Rightarrow> int" where
  "ackTimestampKey h v =
     (let raw = (if is_obj v then jget v ''ts'' else v)
      in case date_parse h (str_or raw) of Some t \<Rightarrow> t | None \<Rightarrow> 0)"

definition nowStamp :: "host \<Rightarrow> string" where
  "nowStamp h = formatConsoleTime h (ADate (Some (now h))) True"

definition tsKey :: "host \<Rightarrow> jsval \<Rightarrow> int" where
  "tsKey h ts = timestampKey h ts"

text \<open>
  Whole seconds since an instant. Both instants are integers below 2^53, and the double
  quotient of two such integers is below an integer bound exactly when the real quotient is.
\<close>

definition agoSec :: "host \<Rightarrow> jsval \<Rightarrow> int option" where
  "agoSec h ts =
     (let k = tsKey h ts in
      if k = 0 then None
      else (let sec = (now h - k) div 1000 in if sec < 0 then None else Some sec))"

definition agoText :: "int option \<Rightarrow> lfun \<Rightarrow> bool \<Rightarrow> string" where
  "agoText sec l ko =
     (case sec of None \<Rightarrow> []
      | Some s \<Rightarrow>
          if s < 60 then l ''just now'' ''banggeum''
          else (let mi = s div 60 in
            if mi < 60 then (if ko then int_str mi @ ''bun jeon'' else int_str mi @ ''m ago'')
            else (let hh = mi div 60 in
              if hh < 24 then (if ko then int_str hh @ ''sigan jeon'' else int_str hh @ ''h ago'')
              else (if ko then int_str (hh div 24) @ ''il jeon'' else int_str (hh div 24) @ ''d ago''))))"

definition rx_full_stamp :: rx where
  "rx_full_stamp = rseqs [RCap (rdigits 4), rlit ''-'', RCap (rdigits 2), rlit ''-'', RCap (rdigits 2), rone '' T'',
     RCap (rdigits 2), rlit '':'', RCap (rdigits 2), rlit '':'', RCap (rdigits 2)]"

definition rx_clock :: rx where
  "rx_clock = rseqs [rdigits 2, rlit '':'', rdigits 2, rlit '':'', rdigits 2]"

definition shortTime :: "jsval \<Rightarrow> string \<Rightarrow> string" where
  "shortTime t todayStr =
     (let s = str_nn t in
      case rx_exec rx_full_stamp s of
        Some (_, _, [yy, mo, dd, hh, mi, ss], _) \<Rightarrow>
          (if yy @ ''-'' @ mo @ ''-'' @ dd = todayStr then hh @ '':'' @ mi @ '':'' @ ss
           else mo @ ''-'' @ dd @ '' '' @ hh @ '':'' @ mi)
      | _ \<Rightarrow> (case rx_exec rx_clock s of Some (_, m, _, _) \<Rightarrow> m | None \<Rightarrow> takeLast 8 s))"

definition todayStr :: "host \<Rightarrow> string" where
  "todayStr h = take 10 (formatConsoleTime h (ADate (Some (now h))) False)"

text \<open>Licence dates, \<open>Mon Jun 29 17:01:47 KST 2026\<close>.\<close>

definition MO :: "string \<Rightarrow> string option" where
  "MO = map_of [(''Jan'', ''01''), (''Feb'', ''02''), (''Mar'', ''03''), (''Apr'', ''04''), (''May'', ''05''),
     (''Jun'', ''06''), (''Jul'', ''07''), (''Aug'', ''08''), (''Sep'', ''09''), (''Oct'', ''10''), (''Nov'', ''11''),
     (''Dec'', ''12'')]"

definition rx_lic :: rx where
  "rx_lic = rseqs [RCap (rseqs (replicate 3 (RChr is_word))), rplus is_space, RCap (rplus is_digit), rplus is_space,
     rplus (\<lambda>c. is_digit c \<or> c = CHR '':''), rplus is_space, rplus is_word, rplus is_space, RCap (rdigits 4)]"

definition lic_ymd :: "string \<Rightarrow> string option" where
  "lic_ymd s = (case rx_exec rx_lic s of
     Some (_, _, [mon, d, y], _) \<Rightarrow>
       Some (y @ ''-'' @ (case MO mon of Some m \<Rightarrow> m | None \<Rightarrow> ''01'') @ ''-'' @ pad_left 2 (CHR ''0'') d)
   | _ \<Rightarrow> None)"

definition parseLicDate :: "host \<Rightarrow> jsval \<Rightarrow> int option" where
  "parseLicDate h v =
     (if \<not> truthy v then None
      else (case lic_ymd (to_str v) of
          Some ymd \<Rightarrow> date_parse h (ymd @ ''T00:00:00Z'')
        | None \<Rightarrow> new_date h v))"

definition fmtLicDate :: "jsval \<Rightarrow> string" where
  "fmtLicDate v = (if \<not> truthy v then []
     else (case lic_ymd (to_str v) of None \<Rightarrow> to_str v | Some ymd \<Rightarrow> ymd))"

definition ddayText :: "int option \<Rightarrow> bool \<Rightarrow> string" where
  "ddayText days ko = (case days of None \<Rightarrow> []
     | Some d \<Rightarrow> if d < 0 then (if ko then ''mallyo D+'' @ int_str (- d) else ''D+'' @ int_str (- d) @ '' overdue'')
                 else ''D-'' @ int_str d)"

definition licTone :: "int option \<Rightarrow> string" where
  "licTone days = (case days of None \<Rightarrow> ''mut''
     | Some d \<Rightarrow> if d < 0 then ''neg'' else if d \<le> 60 then ''warn'' else ''mut'')"

section \<open>Facts about the hash\<close>

definition horner33 :: "int \<Rightarrow> string \<Rightarrow> int" where
  "horner33 a s = foldl (\<lambda>a c. 33 * a + int (code c)) a s"

lemma hash_step_of_int: "hash_step (of_int a) c = of_int (33 * a + int (code c))"
  by (simp add: hash_step_def push_bit_eq_mult algebra_simps)

lemma hash_of_int: "foldl hash_step (of_int a) s = of_int (horner33 a s)"
  by (induction s arbitrary: a) (simp_all only: foldl.simps horner33_def hash_step_of_int)

lemma hash_value: "uint (foldl hash_step 5381 s) = horner33 5381 s mod 2 ^ 32"
  using hash_of_int [of 5381 s] by (simp add: unsigned_of_int take_bit_eq_mod)

lemma digit36_inj:
  assumes "0 \<le> a" "a < 36" "0 \<le> b" "b < 36" "digit36 a = digit36 b"
  shows "a = b"
proof -
  let ?t = "''0123456789abcdefghijklmnopqrstuvwxyz''"
  have "distinct ?t" "length ?t = 36" by code_simp+
  moreover have "nat a < 36" "nat b < 36" using assms by simp_all
  ultimately have "nat a = nat b" using assms(5) nth_eq_iff_index_eq [of ?t "nat a" "nat b"]
    by (simp only: digit36_def)
  then show ?thesis using assms by simp
qed

lemma str36_nonempty: "str36 n \<noteq> []"
  by (subst str36.simps) simp

lemma str36_inj: "0 \<le> m \<Longrightarrow> 0 \<le> n \<Longrightarrow> str36 m = str36 n \<Longrightarrow> m = n"
proof (induction m arbitrary: n rule: str36.induct)
  case (1 m)
  consider "m < 36" "n < 36" | "m < 36" "36 \<le> n" | "36 \<le> m" "n < 36" | "36 \<le> m" "36 \<le> n" by linarith
  then show ?case
  proof cases
    case 1
    then show ?thesis using "1.prems" digit36_inj [of m n] by (simp add: str36.simps [of m] str36.simps [of n])
  next
    case 2
    then show ?thesis using "1.prems" str36_nonempty [of "n div 36"]
      by (simp add: str36.simps [of m] str36.simps [of n] Cons_eq_append_conv)
  next
    case 3
    then show ?thesis using "1.prems" str36_nonempty [of "m div 36"]
      by (simp add: str36.simps [of m] str36.simps [of n] append_eq_Cons_conv)
  next
    case 4
    then have eq: "str36 (m div 36) = str36 (n div 36)" "digit36 (m mod 36) = digit36 (n mod 36)"
      using "1.prems" by (simp_all add: str36.simps [of m] str36.simps [of n])
    have "m div 36 = n div 36" using 4 "1.prems" eq(1) by (intro "1.IH") simp_all
    moreover have "m mod 36 = n mod 36" using eq(2) by (intro digit36_inj) simp_all
    ultimately show ?thesis by (metis mult_div_mod_eq)
  qed
qed

section \<open>Facts about thresholds\<close>

definition thresholds_ok :: "thresholds \<Rightarrow> bool" where
  "thresholds_ok th \<longleftrightarrow> (\<exists>w c. th = \<lparr>th_warn = Fin w, th_crit = Fin c\<rparr> \<and> 0 < w \<and> w < c \<and> c \<le> 100)"

lemma thresholds_set: "thresholds_ok th \<Longrightarrow> thresholds_ok (setUsageThresholds w c th)"
proof -
  assume th: "thresholds_ok th"
  show ?thesis
  proof (cases "n_lt (Fin 0) (to_num w) \<and> n_lt (to_num w) (to_num c) \<and> n_le (to_num c) (Fin 100)")
    case True
    then obtain a b where "to_num w = Fin a" "to_num c = Fin b"
      by (cases "to_num w"; cases "to_num c") (auto simp: n_le_def n_eq_def)
    then show ?thesis using True by (simp add: setUsageThresholds_def Let_def thresholds_ok_def)
  next
    case False
    then show ?thesis using th unfolding setUsageThresholds_def Let_def by (simp only: if_False)
  qed
qed

lemma thresholds_foldl:
  "thresholds_ok th \<Longrightarrow> thresholds_ok (foldl (\<lambda>t u. setUsageThresholds (fst u) (snd u) t) th us)"
  by (induction us arbitrary: th) (simp_all add: thresholds_set)

lemma thresholds_default: "thresholds_ok USAGE_THRESH"
  by (simp add: thresholds_ok_def USAGE_THRESH_def)

section \<open>Properties\<close>

text \<open>
  The model's cache key sees every change of content that the hash sees: two texts get the
  same fingerprint exactly when their base-33 polynomials agree modulo 2^32; nothing is lost by
  the 32-bit wrap-around steps or by printing the hash in base 36.
\<close>

theorem strHash_iff:
  "strHash s = strHash t \<longleftrightarrow> horner33 5381 s mod 2 ^ 32 = horner33 5381 t mod 2 ^ 32"
  using str36_inj [of "horner33 5381 s mod 2 ^ 32" "horner33 5381 t mod 2 ^ 32"]
  by (auto simp: strHash_def hash_value)

text \<open>
  The usage thresholds can never be set to nonsense: from the built-in pair and after any
  sequence of updates from the server, both are finite with 0 < warning < critical <= 100, so a
  value is coloured critical exactly from the critical threshold on, and the text colour and the
  bar fill always name the same level.
\<close>

theorem usage_colours:
  "(let th = foldl (\<lambda>t u. setUsageThresholds (fst u) (snd u) t) USAGE_THRESH us in
     thresholds_ok th
     \<and> (barFill th v = ''var(--neg)'' \<longleftrightarrow> n_le (th_crit th) (num_or v (Fin 0)))
     \<and> (barFill th v = ''var(--neg)'' \<longleftrightarrow> barColor th v = ''var(--neg-on-tint)'')
     \<and> (barFill th v = ''var(--warn-bright)'' \<longleftrightarrow> barColor th v = ''var(--warn-on-tint)'')
     \<and> (barFill th v = ''var(--accent)'' \<longleftrightarrow> barColor th v = ''var(--blue-on-tint)'')
     \<and> barFill th (JNum (Fin 100)) = ''var(--neg)'' \<and> barFill th (JNum (Fin 0)) = ''var(--accent)'')"
proof -
  define th where "th = foldl (\<lambda>t u. setUsageThresholds (fst u) (snd u) t) USAGE_THRESH us"
  have ok: "thresholds_ok th" unfolding th_def by (rule thresholds_foldl [OF thresholds_default])
  then obtain w c where th: "th = \<lparr>th_warn = Fin w, th_crit = Fin c\<rparr>" "0 < w" "w < c" "c \<le> 100"
    by (auto simp: thresholds_ok_def)
  have n: "num_or (JNum (Fin 100)) (Fin 0) = Fin 100" "num_or (JNum (Fin 0)) (Fin 0) = Fin 0"
    by (simp_all add: num_or_def Let_def)
  have ends: "barFill th (JNum (Fin 100)) = ''var(--neg)''" "barFill th (JNum (Fin 0)) = ''var(--accent)''"
    using th(2-4) by (simp_all add: barFill_def n th(1))
  have col: "(barFill th v = ''var(--neg)'' \<longleftrightarrow> n_le (th_crit th) (num_or v (Fin 0)))
     \<and> (barFill th v = ''var(--neg)'' \<longleftrightarrow> barColor th v = ''var(--neg-on-tint)'')
     \<and> (barFill th v = ''var(--warn-bright)'' \<longleftrightarrow> barColor th v = ''var(--warn-on-tint)'')
     \<and> (barFill th v = ''var(--accent)'' \<longleftrightarrow> barColor th v = ''var(--blue-on-tint)'')"
    by (simp add: barFill_def barColor_def Let_def)
  show ?thesis unfolding th_def [symmetric] Let_def using ok ends col by blast
qed

end
