(* ===== verification/Format.thy ===== *)
theory Format
  imports Fmt "HOL-Library.List_Lexorder"
begin

text \<open>
  \<open>src/web/js/model/compute/format.js\<close> and \<open>node.js\<close>: how a device's state, usage, type and
  availability are worded, and the sort of the node table.

  The main facts: a device that is not fully available is never printed as 100%, a usage cell
  shows a value exactly when there is one, and the table sort is a stable permutation in order.
\<close>

section \<open>State, type and usage\<close>

fun statusTone :: "dev_status \<Rightarrow> string" where
  "statusTone Down = ''neg''"
| "statusTone Deg = ''warn''"
| "statusTone Op = ''pos''"

fun statusLabel :: "dev_status \<Rightarrow> lfun \<Rightarrow> string" where
  "statusLabel Down l = l ''Offline'' ''opeurain''"
| "statusLabel Deg l = l ''Degraded'' ''jeoha''"
| "statusLabel Op l = l ''Operational'' ''gadong''"

fun statusAnim :: "dev_status \<Rightarrow> string" where
  "statusAnim Down = ''blink''"
| "statusAnim Deg = ''pulse''"
| "statusAnim Op = []"

definition pctTone :: "thresholds \<Rightarrow> jsnum option \<Rightarrow> string" where
  "pctTone th v = (case v of None \<Rightarrow> ''mut''
     | Some n \<Rightarrow> if n_le (th_crit th) n then ''neg'' else if n_le (th_warn th) n then ''warn'' else ''pos'')"

fun typeIconOf :: "dev_type \<Rightarrow> string" where
  "typeIconOf EV = ''box''"
| "typeIconOf EDGE = ''link''"
| "typeIconOf END = ''db''"
| "typeIconOf FTS = ''ssd''"
| "typeIconOf SRV = ''db''"
| "typeIconOf PLC = ''crop''"
| "typeIconOf PC = ''dash''"
| "typeIconOf NAS = ''ssd''"
| "typeIconOf WIN = ''checklist''"
| "typeIconOf PI = ''bolt''"
| "typeIconOf PRN = ''checklist''"

record type_info =
  ti_key :: dev_type
  ti_label :: string
  ti_short :: string
  ti_kind :: string
  ti_icon :: string

definition typeInfo :: "dev_type \<Rightarrow> lfun \<Rightarrow> type_info" where
  "typeInfo ty l =
     (let t = TYPES ty in
      \<lparr>ti_key = ty,
       ti_label = (case tm_labelEN t of Some en \<Rightarrow> l en (tm_label t) | None \<Rightarrow> tm_label t),
       ti_short = tm_short t,
       ti_kind = l (tm_kindEN t) (tm_kindKO t),
       ti_icon = typeIconOf ty\<rparr>)"

definition subPctText :: "int \<Rightarrow> jsval \<Rightarrow> string" where
  "subPctText val sub =
     (if val = 0 \<and> (case num_val sub of Some x \<Rightarrow> 0 < x | None \<Rightarrow> False) then ''<1%''
      else int_str val @ ''%'')"

record usage =
  us_na :: bool
  us_val :: "int option"
  us_text :: string
  us_width :: string
  us_tone :: string

definition usageOf :: "thresholds \<Rightarrow> device \<Rightarrow> string \<Rightarrow> usage" where
  "usageOf th d field =
     (let cpu = (field = ''cpu'');
          raw = (if cpu then d_cpu0 d else d_mem0 d);
          na = ((if cpu then d_cpuNA d else d_memNA d) \<or> raw < 0 \<or> d_status d = Down \<or> isNoTel (d_type d));
          val = clamp3 raw 0 100;
          srv = m_srv (d_meta d);
          sub = (if cpu \<and> truthy srv then jget srv ''cpuPct1'' else Null)
      in \<lparr>us_na = na,
          us_val = (if na then None else Some val),
          us_text = (if na then DASH else subPctText val sub),
          us_width = (if na then ''0'' else int_str val) @ ''%'',
          us_tone = (if na then ''mut'' else pctTone th (Some (Fin (of_int val))))\<rparr>)"

record sync_info =
  sy_key :: string
  sy_label :: string
  sy_tone :: string
  sy_icon :: string

definition sy :: "string \<Rightarrow> string \<Rightarrow> string \<Rightarrow> string \<Rightarrow> sync_info" where
  "sy k la t i = \<lparr>sy_key = k, sy_label = la, sy_tone = t, sy_icon = i\<rparr>"

definition syncInfo :: "device \<Rightarrow> lfun \<Rightarrow> sync_info" where
  "syncInfo d l =
     (if \<not> isFT (d_type d) then
        (if d_status d = Down then sy ''offline'' (l ''Offline'' ''opeurain'') ''neg'' ''link''
         else sy ''online'' (l ''Online'' ''onrain'') ''pos'' ''check'')
      else if d_sync d = Sync then sy ''sync'' (l ''In sync'' ''donggihwadoem'') ''pos'' ''cycle''
      else if d_sync d = Simplex then sy ''simplex'' (l ''Simplex'' ''simpeullekseu'') ''warn'' ''warningCircle''
      else sy ''offline'' (l ''Offline'' ''opeurain'') ''neg'' ''link'')"

definition nodeMaint :: "jsval \<Rightarrow> bool" where
  "nodeMaint n = rx_test (rlit_ci ''mainten'')
     (str_or (if truthy n then jget n ''standing'' else Undef) @ '' '' @
      str_or (if truthy n then jget n ''mode'' else Undef))"

definition isMaint :: "device \<Rightarrow> bool" where
  "isMaint d \<longleftrightarrow> list_ex nodeMaint (m_nodes (d_meta d))"

section \<open>Numbers as texts\<close>

text \<open>\<open>n.toFixed(f)\<close> for the finite numbers it is called on (below \<open>10 ^ 21\<close>).\<close>

fun n_fixed :: "nat \<Rightarrow> jsnum \<Rightarrow> string" where
  "n_fixed f (Fin x) = to_fixed f x"
| "n_fixed f n = num_str n"

definition fmtAvailN :: "jsval \<Rightarrow> string" where
  "fmtAvailN a =
     (let n = to_num a in
      if \<not> n_finite n then DASH
      else if n_lt n (Fin 100) then n_fixed 3 (n_div (n_floor (n_mul n (Fin 1000))) (Fin 1000)) @ ''%''
      else ''100.000%'')"

definition fmtDowntimeYr :: "jsval \<Rightarrow> lfun option \<Rightarrow> string" where
  "fmtDowntimeYr a lo =
     (let n = to_num a; l = (case lo of Some f \<Rightarrow> f | None \<Rightarrow> (\<lambda>en ko. en)) in
      if \<not> n_finite n \<or> n_le (Fin 100) n then l ''0/yr'' ''yeon 0bun''
      else (let mins = n_mul (n_div (n_sub (Fin 100) n) (Fin 100)) (Fin 525960) in
        if n_lt mins (Fin 90)
        then l (num_str (n_round mins) @ ''m/yr'') (''yeon '' @ num_str (n_round mins) @ ''bun'')
        else (let hrs = n_div mins (Fin 60) in
          if n_lt hrs (Fin 48) then l (n_fixed 1 hrs @ ''h/yr'') (''yeon '' @ n_fixed 1 hrs @ ''sigan'')
          else l (n_fixed 1 (n_div hrs (Fin 24)) @ ''d/yr'') (''yeon '' @ n_fixed 1 (n_div hrs (Fin 24)) @ ''il''))))"

definition deviceCode :: "jsval \<Rightarrow> jsval \<Rightarrow> string" where
  "deviceCode label company =
     (let s = trim (str_nn label); co = trim (str_nn company);
          s' = (if co \<noteq> [] \<and> starts_with co s then trim (drop (length co) s) else s)
      in if s' \<noteq> [] then s' else trim (str_nn label))"

definition fmtUptimeD :: "jsval \<Rightarrow> string" where
  "fmtUptimeD d =
     (let n = to_num d in
      if \<not> n_finite n \<or> n_lt n (Fin 0) then DASH
      else if n_eq n (Fin 0) then ''0d''
      else if n_lt n (Fin 1) then ''<1d''
      else num_str (n_floor n) @ ''d'')"

section \<open>Sorting the node table (node.js)\<close>

text \<open>The columns the comparison reads. Only the sign of a comparison matters to the sort.\<close>

record sort_row =
  sr_host :: string
  sr_typeLabel :: string
  sr_site :: string
  sr_syncLabel :: string
  sr_cpuVal :: "int option"
  sr_memVal :: "int option"
  sr_availN :: rat
  sr_uptimeDays :: "int option"
  sr_status :: dev_status

fun STATUS_RANK :: "dev_status \<Rightarrow> int" where
  "STATUS_RANK Down = 0"
| "STATUS_RANK Deg = 1"
| "STATUS_RANK Op = 2"

definition cmp_num :: "'a::linorder \<Rightarrow> 'a \<Rightarrow> int" where
  "cmp_num a b = (if a < b then - 1 else if b < a then 1 else 0)"

fun numCmp :: "'a::linorder option \<Rightarrow> 'a option \<Rightarrow> int" where
  "numCmp None None = 0"
| "numCmp None (Some b) = - 1"
| "numCmp (Some a) None = 1"
| "numCmp (Some a) (Some b) = cmp_num a b"

definition keyCmp :: "(string \<Rightarrow> string \<Rightarrow> int) \<Rightarrow> string \<Rightarrow> 'r sort_row_scheme \<Rightarrow> 'r sort_row_scheme \<Rightarrow> int" where
  "keyCmp col k a b =
     (if k = ''cpu'' then numCmp (sr_cpuVal a) (sr_cpuVal b)
      else if k = ''mem'' then numCmp (sr_memVal a) (sr_memVal b)
      else if k = ''avail'' then cmp_num (sr_availN a) (sr_availN b)
      else if k = ''uptime'' then numCmp (sr_uptimeDays a) (sr_uptimeDays b)
      else if k = ''type'' then col (sr_typeLabel a) (sr_typeLabel b)
      else if k = ''site'' then col (sr_site a) (sr_site b)
      else if k = ''sync'' then col (sr_syncLabel a) (sr_syncLabel b)
      else if k = ''status'' then STATUS_RANK (sr_status a) - STATUS_RANK (sr_status b)
      else col (sr_host a) (sr_host b))"

definition rowCmp :: "(string \<Rightarrow> string \<Rightarrow> int) \<Rightarrow> string \<Rightarrow> string \<Rightarrow> 'r sort_row_scheme \<Rightarrow> 'r sort_row_scheme \<Rightarrow> int" where
  "rowCmp col key dir a b =
     (let k = (if key = [] then ''host'' else key);
          sign = (if dir = ''desc'' then - 1 else 1);
          r = keyCmp col k a b;
          r' = (if r = 0 then col (sr_host a) (sr_host b) else r)
      in r' * sign)"

definition sortRows :: "host \<Rightarrow> 'r sort_row_scheme list \<Rightarrow> string \<Rightarrow> string \<Rightarrow> 'r sort_row_scheme list" where
  "sortRows h rows key dir = sort_by (rowCmp (collate h) key dir) rows"

section \<open>Facts about the comparators\<close>

lemma comparison_cmp_num: "comparison cmp_num"
  by (rule comparison_I) (auto simp: cmp_num_def split: if_splits)

lemma comparison_numCmp: "comparison numCmp"
proof (rule comparison_I)
  fix x y z :: "'a option"
  show "sgn (numCmp y x) = - sgn (numCmp x y)"
    by (cases x; cases y) (auto simp: cmp_num_def)
  show "numCmp x y \<le> 0 \<Longrightarrow> numCmp y z \<le> 0 \<Longrightarrow> numCmp x z \<le> 0"
    by (cases x; cases y; cases z) (auto simp: cmp_num_def split: if_splits)
qed

lemma comparison_status: "comparison (\<lambda>a b. STATUS_RANK a - STATUS_RANK b)"
  by (rule comparison_I) (auto simp: sgn_if)

interpretation num: comparison cmp_num
  by (rule comparison_cmp_num)

interpretation optnum: comparison numCmp
  by (rule comparison_numCmp)

interpretation status: comparison "\<lambda>a b. STATUS_RANK a - STATUS_RANK b"
  by (rule comparison_status)

lemma comparison_if: "comparison c \<Longrightarrow> comparison d \<Longrightarrow> comparison (\<lambda>a b. if P then c a b else d a b)"
  by (cases P) simp_all

lemma comparison_keyCmp:
  assumes "comparison col"
  shows "comparison (keyCmp col k :: 'r sort_row_scheme \<Rightarrow> 'r sort_row_scheme \<Rightarrow> int)"
  unfolding keyCmp_def
  by (intro comparison_if comparison_key [OF comparison_numCmp, of sr_cpuVal]
      comparison_key [OF comparison_numCmp, of sr_memVal] comparison_key [OF comparison_cmp_num, of sr_availN]
      comparison_key [OF comparison_numCmp, of sr_uptimeDays] comparison_key [OF assms, of sr_typeLabel]
      comparison_key [OF assms, of sr_site] comparison_key [OF assms, of sr_syncLabel]
      comparison_key [OF comparison_status, of sr_status] comparison_key [OF assms, of sr_host])

lemma comparison_rowCmp:
    assumes "comparison col"
  shows "comparison (rowCmp col key dir :: 'r sort_row_scheme \<Rightarrow> 'r sort_row_scheme \<Rightarrow> int)"
proof -
  define kc :: "'r sort_row_scheme \<Rightarrow> 'r sort_row_scheme \<Rightarrow> int"
    where "kc = keyCmp col (if key = [] then ''host'' else key)"
  have lex: "comparison (\<lambda>a b. if kc a b = 0 then col (sr_host a) (sr_host b) else kc a b)"
    unfolding kc_def by (rule comparison_lex [OF comparison_keyCmp [OF assms] comparison_key [OF assms, of sr_host]])
  have "rowCmp col key dir = (if dir = ''desc''
      then (\<lambda>a b. - (if kc a b = 0 then col (sr_host a) (sr_host b) else kc a b))
      else (\<lambda>a b. if kc a b = 0 then col (sr_host a) (sr_host b) else kc a b))"
    by (intro ext) (simp add: rowCmp_def Let_def kc_def)
  then show ?thesis using comparison_uminus [OF lex] lex by (cases "dir = ''desc''") simp_all
qed

section \<open>Facts about availability texts\<close>

lemma length_nat_str: "n < 10 ^ Suc k \<Longrightarrow> length (nat_str n) \<le> Suc k"
proof (induction k arbitrary: n)
  case 0
  then show ?case by (simp add: nat_str.simps [of n])
next
  case (Suc k)
  show ?case
  proof (cases "n < 10")
    case False
    have "n div 10 < 10 ^ Suc k" using Suc.prems by simp
    then show ?thesis using Suc.IH False by (simp add: nat_str.simps [of n])
  qed (simp add: nat_str.simps [of n])
qed

lemma length_to_fixed3:
  assumes "0 \<le> x" "x * 1000 + 1 / 2 < 100000"
  shows "length (to_fixed 3 x) \<le> 6"
proof -
  have "\<lfloor>x * 1000 + 1 / 2\<rfloor> < 100000" using assms(2) by (simp add: floor_less_iff)
  then have "length (nat_str \<lfloor>x * 1000 + 1 / 2\<rfloor>) \<le> 5" using length_nat_str [of _ 4] by simp
  then show ?thesis using assms(1) by (simp add: to_fixed_def to_fixed_nn_def Let_def pad_left_def)
qed

text \<open>Two different doubles below a power of two are at least one unit in the last place apart.\<close>

lemma double_gap:
  assumes "round64 x = x" "x < 100"
  shows "x \<le> 100 - 1 / 2 ^ 46"
proof (cases "x < 64")
  case False
  have lo: "pow2 6 \<le> \<bar>x\<bar>" and hi: "\<bar>x\<bar> < pow2 (6 + 1)" and nz: "x \<noteq> 0"
    using False assms(2) by (simp_all add: pow2_def)
  have "expo x \<le> 6" using expo_le_iff [OF nz hi] .
  moreover have "6 < expo x + 1" using lo expo_bounds(2) [OF nz] by (intro pow2_less_imp) simp
  ultimately have "ulp_of x = pow2 (- 46)" by (simp add: ulp_of_def)
  then have "x = of_int (rne (x / pow2 (- 46))) * pow2 (- 46)"
    using assms(1) nz by (simp add: round64_def)
  then obtain k where k: "x = of_int k * pow2 (- 46)" by blast
  then have k2: "x * 2 ^ 46 = of_int k" by (simp add: pow2_def)
  have "x * 2 ^ 46 < of_int (100 * 2 ^ 46)" using assms(2) by simp
  then have "k < 100 * 2 ^ 46" unfolding k2 by (simp only: of_int_less_iff)
  then have "k \<le> 100 * 2 ^ 46 - 1" by simp
  then have "(of_int k :: rat) \<le> of_int (100 * 2 ^ 46 - 1)" by (simp only: of_int_le_iff)
  then show ?thesis unfolding k2 [symmetric] by simp
qed simp

lemma fl_below:
  assumes "x \<le> of_int b" "\<bar>b\<bar> \<le> 2 ^ 53"
  shows "fl x = NInf \<or> fl x = Fin (round64 x)"
proof -
  have le: "round64 x \<le> of_int b" using round64_mono [OF assms(1)] assms(2) by (simp add: round64_of_int)
  have "\<not> 1024 \<le> expo (round64 x)" if "0 < round64 x"
  proof -
    have "(of_int b :: rat) \<le> of_int (2 ^ 53)" using assms(2) by (simp only: of_int_le_iff)
    also have "\<dots> < pow2 (1023 + 1)" by (simp add: pow2_def)
    finally have "\<bar>round64 x\<bar> < pow2 (1023 + 1)" using le that by simp
    then have "expo (round64 x) \<le> 1023" using that by (intro expo_le_iff) simp_all
    then show ?thesis by simp
  qed
  then show ?thesis by (auto simp: fl_def Let_def)
qed

lemma near_100000: "round64 (100000 - 1000 / 2 ^ 46) < 100000"
  by code_simp

lemma near_100: "round64 (99999 / 1000) * 1000 + 1 / 2 < 100000"
  by code_simp

lemma avail_text_short:
  assumes "round64 x = x" "x < 100"
  shows "n_fixed 3 (n_div (n_floor (n_mul (Fin x) (Fin 1000))) (Fin 1000)) @ ''%'' \<noteq> ''100.000%''"
proof -
  have x: "x * 1000 \<le> 100000 - 1000 / 2 ^ 46" using double_gap [OF assms] by simp
  then have "x * 1000 \<le> of_int 100000" by simp
  then consider "fl (x * 1000) = NInf" | "fl (x * 1000) = Fin (round64 (x * 1000))" using fl_below by fastforce
  then show ?thesis
  proof cases
    case 1
    then show ?thesis by (simp add: inf_sgn_def)
  next
    case 2
    define k where "k = \<lfloor>round64 (x * 1000)\<rfloor>"
    have "round64 (x * 1000) < 100000" using round64_mono [OF x] near_100000 by simp
    then have k: "k \<le> 99999" unfolding k_def by linarith
    then have q: "of_int k / 1000 \<le> (99999 / 1000 :: rat)" by (simp add: divide_right_mono)
    then have "of_int k / (1000 :: rat) \<le> of_int 100" by simp
    then consider "fl (of_int k / 1000) = NInf" | "fl (of_int k / 1000) = Fin (round64 (of_int k / 1000))"
      using fl_below by fastforce
    then show ?thesis
    proof cases
      case 1
      then show ?thesis using 2 by (simp add: k_def [symmetric] inf_sgn_def)
    next
      case F: 2
      define y where "y = round64 (of_int k / 1000)"
      have "y * 1000 + 1 / 2 < 100000" using round64_mono [OF q] near_100 by (simp add: y_def)
      then have "length (to_fixed 3 y @ ''%'') \<noteq> length ''100.000%''" if "0 \<le> y"
        using length_to_fixed3 [of y] that by simp
      moreover have "hd (to_fixed 3 y @ ''%'') \<noteq> hd ''100.000%''" if "y < 0"
        using that by (simp add: to_fixed_def)
      ultimately have "to_fixed 3 y @ ''%'' \<noteq> ''100.000%''" by (metis linorder_not_le)
      then show ?thesis using 2 F by (simp add: k_def [symmetric] y_def [symmetric])
    qed
  qed
qed

section \<open>Properties\<close>

text \<open>
  A device that is not fully available is never shown as fully available: for every double
  below 100 the availability text differs from 100.000%, although it has only three decimals.
\<close>

theorem fmtAvailN_never_full:
  assumes "round64 x = x" "x < 100"
  shows "fmtAvailN (JNum (Fin x)) \<noteq> ''100.000%''"
  using avail_text_short [OF assms] assms(2) by (simp add: fmtAvailN_def Let_def)

theorem fmtAvailN_never_full_witness:
  "fmtAvailN (JNum (Fin (round64 (999996 / 10000)))) \<noteq> ''100.000%''"
proof -
  have "round64 (round64 (999996 / 10000)) = round64 (999996 / 10000)" "round64 (999996 / 10000) < 100"
    by code_simp+
  then show ?thesis by (rule fmtAvailN_never_full)
qed

text \<open>
  A usage cell of a well-formed device shows a value exactly when the device reports one: it
  is empty (dash, zero width, muted) exactly for a device that is down, has no telemetry or did
  not report the metric; otherwise the value is the device's, lies between 0 and 100, and has
  the tone of its threshold level.
\<close>

theorem usageOf_honest:
  assumes "wf_device d"
  shows "(let u = usageOf th d ''cpu'' in
      (us_na u \<longleftrightarrow> d_cpuNA d \<or> d_status d = Down)
      \<and> (if us_na u then us_val u = None \<and> us_text u = DASH \<and> us_width u = ''0%'' \<and> us_tone u = ''mut''
         else us_val u = Some (d_cpu0 d) \<and> 0 \<le> d_cpu0 d \<and> d_cpu0 d \<le> 100
           \<and> us_width u = int_str (d_cpu0 d) @ ''%'' \<and> us_tone u = pctTone th (Some (Fin (of_int (d_cpu0 d))))))"
proof -
  have u: "usage_ok (d_cpuNA d) (d_cpu0 d)" "isNoTel (d_type d) \<longrightarrow> d_cpuNA d"
    using assms by (simp_all add: wf_device_def)
  have c: "clamp3 (d_cpu0 d) 0 100 = d_cpu0 d" if "\<not> d_cpuNA d"
    using u that by (simp add: usage_ok_def clamp3_def)
  show ?thesis using u c by (cases "d_cpuNA d") (auto simp: usageOf_def Let_def usage_ok_def)
qed

theorem usageOf_honest_witness:
  "us_val (usageOf th (mkDevice ''pc-01'' PC Op (JObj [(''cpu0'', JNum (Fin 42))])) ''cpu'') = Some 42"
proof -
  let ?d = "mkDevice ''pc-01'' PC Op (JObj [(''cpu0'', JNum (Fin 42))])"
  have "trim ''pc-01'' = ''pc-01''" by code_simp
  then have w: "wf_device ?d" by (intro mkDevice_wf) simp_all
  have "d_cpu0 ?d = 42" "\<not> d_cpuNA ?d" "d_status ?d = Op"
    by (simp_all add: mkDevice_def Let_def isNoTel_def clamp3_def)
  then show ?thesis using usageOf_honest [OF w, of th] by (simp add: Let_def)
qed

text \<open>
  Sorting the node table by any column in either direction is a permutation of the rows, in
  the order of the comparison, and rows the comparison ties keep their order, whenever the
  collation is a total preorder with an antisymmetric sign.
\<close>

theorem sortRows_sorted_stable:
  fixes rows :: "'r sort_row_scheme list"
  assumes "comparison (collate h)"
  shows "mset (sortRows h rows key dir) = mset rows
    \<and> sorted_wrt (\<lambda>a b. rowCmp (collate h) key dir a b \<le> 0) (sortRows h rows key dir)
    \<and> filter (\<lambda>y. rowCmp (collate h) key dir x y = 0) (sortRows h rows key dir)
        = filter (\<lambda>y. rowCmp (collate h) key dir x y = 0) rows"
proof -
  have c: "comparison (rowCmp (collate h) key dir :: 'r sort_row_scheme \<Rightarrow> 'r sort_row_scheme \<Rightarrow> int)"
    by (rule comparison_rowCmp [OF assms])
  show ?thesis
    unfolding sortRows_def
    using comparator.sorted_sort_by [OF comparison.axioms(1) [OF c]] comparison.sort_by_stable [OF c] by simp
qed

definition wit_row :: "string \<Rightarrow> int option \<Rightarrow> sort_row" where
  "wit_row h c = \<lparr>sr_host = h, sr_typeLabel = [], sr_site = [], sr_syncLabel = [], sr_cpuVal = c,
     sr_memVal = None, sr_availN = 0, sr_uptimeDays = None, sr_status = Op\<rparr>"

definition code_host :: host where
  "code_host = \<lparr>now = 1784170800000, collate = (\<lambda>a b. cmp_num (map code a) (map code b)),
     collate_dflt = (\<lambda>a b. cmp_num (map code a) (map code b)),
     legacy_date = (\<lambda>_. None)\<rparr>"

lemma code_host_comparison: "comparison (collate code_host)"
  unfolding code_host_def by (simp add: comparison_key [OF comparison_cmp_num])

theorem sortRows_sorted_stable_witness:
  "map sr_host (sortRows code_host [wit_row ''b'' (Some 5), wit_row ''a'' None] ''cpu'' ''desc'') = [''b'', ''a'']
   \<and> mset (sortRows code_host [wit_row ''b'' (Some 5), wit_row ''a'' None] ''cpu'' ''desc'')
     = mset [wit_row ''b'' (Some 5), wit_row ''a'' None]"
  using sortRows_sorted_stable [OF code_host_comparison, of "[wit_row ''b'' (Some 5), wit_row ''a'' None]" "''cpu''" "''desc''"]
  by (simp add: sortRows_def rowCmp_def keyCmp_def wit_row_def)

end
