(* ===== verification/Alert.thy ===== *)
theory Alert
  imports Format
begin

text \<open>
  \<open>src/web/js/model/compute/alert.js\<close>: the alert list of the fleet, the acknowledgement key,
  automatic acknowledgement, maintenance windows, escalation, traps and CSV export. The module
  variable \<open>_onsetMap\<close> (first sighting of an alert without a time) is an argument and a result.

  The main facts: the key of an alert does not depend on the session (clock, first sightings),
  keys of different alerts differ, every device that is not operational has an alert, the
  automatic acknowledgement takes exactly the old unacknowledged alerts, every maintenance window is either active
  or expired, and an exported CSV parses back to its cells.
\<close>

section \<open>Korean summaries\<close>

definition ALERT_KO :: "string \<Rightarrow> string option" where
  "ALERT_KO = map_of [
     (''DISK_PRESSURE'', ''gongyu bollyum geurup jeojang yongnyang bujok''),
     (''NIC_NO_LINK'', ''neteuwokeu inteopeiseu ringkeu eopseum''),
     (''VM_MIGRATED'', ''VM i pieo nodeuro ijeondoem''),
     (''FIRMWARE_AVAILABLE'', ''peomweeo eopdeiteu sayong ganeung''),
     (''SYNC_STARTED'', ''mireo jaedonggihwa sijak''),
     (''PSU_REDUNDANCY'', ''jeonwon ijunghwa ilsi sangsil''),
     (''NTP_DRIFT'', ''NTP sigye pyeoncha gamji''),
     (''NODE_MAINTENANCE'', ''nodeu jeomgeom modeu jinip''),
     (''Node Maintenance'', ''nodeu jeomgeom jung''),
     (''Node Unreachable'', ''nodeu yeongyeol bulga''),
     (''Node rebooted unexpectedly'', ''nodeu bijeongsang jaebuting''),
     (''unit_isSyncing'', ''yunit mireo donggihwa jung''),
     (''unit_tooFew10GSyncLinks'', ''10G donggihwa A-Link bujok''),
     (''unit_testAlert'', ''teseuteu gyeongbo''),
     (''E-Alert Notification Not Enabled'', ''E-Alert allim miseoljeong''),
     (''Call Home Not Enabled'', ''Call Home miseoljeong''),
     (''The quorum server is offline'', ''kworeom seobeo opeurain''),
     (''Detection of Disconnected Network'', ''neteuwokeu yeongyeol kkeunkim gamji''),
     (''Detection of Bad Network'', ''neteuwokeu bullyang gamji''),
     (''Detection of Degraded Network'', ''neteuwokeu jeoha gamji''),
     (''Detection of Slow Business Network'', ''eommu neteuwokeu sokdo jeoha gamji''),
     (''A Shared Network is miswired'', ''gongyu neteuwokeu baeseon oryu''),
     (''VM failed to start'', ''VM sijak silpae''),
     (''Disk problem'', ''diseukeu munje''),
     (''License Outdated'', ''raiseonseu gaengsin piryo''),
     (''Single PM Detected'', ''danil PM gamji -- ijunghwa bulga'')]"

definition rx_state_offline :: rx where
  "rx_state_offline = ralts (map rlit_ci [''offline'', ''not responding'', ''opeurain'', ''eungdap''])"

definition alertMsgKo :: "string \<Rightarrow> string \<Rightarrow> string option" where
  "alertMsgKo name desc =
     (let key = trim name in
      if key = ''DEVICE_STATE'' then
        (if rx_test rx_state_offline desc then Some ''jangbi opeurain -- eungdaphaneun nodeu eopseum''
         else Some ''jangbi jeoha -- ijunghwa sangsil ttoneun nodeu bijeongsang'')
      else ALERT_KO key)"

section \<open>Collecting alerts\<close>

text \<open>\<open>/^srv-evt-test$/i\<close>.\<close>

definition test_fixture :: "string \<Rightarrow> bool" where
  "test_fixture s = rx_test (rseqs [RBos, rlit_ci ''srv-evt-test'', REos]) s"

definition ACK_TIME_MISSING :: string where "ACK_TIME_MISSING = ''no-time''"

definition sor :: "string \<Rightarrow> string \<Rightarrow> string" where
  "sor a b = (if a \<noteq> [] then a else b)"

record alert_row =
  ar_host :: string
  ar_hostId :: string
  ar_sev :: jsval
  ar_name :: string
  ar_desc :: string
  ar_time :: string
  ar_ackTime :: string
  ar_testFixture :: bool

text \<open>The onset map and the set of keys seen in this run.\<close>

type_synonym onsets = "(string \<times> string) list"

definition alertOnsetKind :: "alert_rec \<Rightarrow> string" where
  "alertOnsetKind a = ''alert|'' @ al_name a @ ''|'' @ sor (al_desc a) (al_name a)"

definition onset :: "string \<Rightarrow> string \<Rightarrow> string \<Rightarrow> onsets \<times> string list \<Rightarrow> string \<times> onsets \<times> string list" where
  "onset nw did kind st =
     (let key = did @ ''|'' @ kind; om = fst st; seen = key # snd st in
      case map_of om key of
        Some v \<Rightarrow> if v \<noteq> [] then (v, om, seen) else (nw, aput key nw om, seen)
      | None \<Rightarrow> (nw, aput key nw om, seen))"

definition time_or_onset :: "string \<Rightarrow> string \<Rightarrow> string \<Rightarrow> string \<Rightarrow> onsets \<times> string list \<Rightarrow> string \<times> onsets \<times> string list" where
  "time_or_onset nw t did kind st = (if t \<noteq> [] then (t, st) else onset nw did kind st)"

definition alert_label :: "device \<Rightarrow> string" where
  "alert_label s =
     (let m = d_meta s; la = sor (m_label m) (d_host s) in
      la @ (if \<not> rx_test rdig la \<and> m_mgmt m \<noteq> [] then '' . '' @ m_mgmt m else []))"

definition alert_ackTime :: "device \<Rightarrow> alert_rec \<Rightarrow> string" where
  "alert_ackTime s a =
     (if al_name a = ''DEVICE_STATE''
      then ackTimeNorm (JStr (sor (m_downSince (d_meta s)) (m_issueSince (d_meta s))))
      else ackTimeNorm (JStr (al_time a)))"

definition push_alert :: "host \<Rightarrow> string \<Rightarrow> device \<Rightarrow> alert_rec \<Rightarrow> onsets \<times> string list \<Rightarrow> alert_row \<times> onsets \<times> string list" where
  "push_alert h nw s a st =
     (case time_or_onset nw (tsNorm h (JStr (al_time a))) (d_id s) (alertOnsetKind a) st of (t, st') \<Rightarrow>
        (\<lparr>ar_host = alert_label s, ar_hostId = d_id s,
          ar_sev = jor (al_sev a) (jor (JStr (al_severity a)) (JStr ''info'')),
          ar_name = al_name a, ar_desc = sor (al_desc a) (al_name a),
          ar_time = t, ar_ackTime = alert_ackTime s a, ar_testFixture = test_fixture (d_id s)\<rparr>, st'))"

definition synth_alert :: "host \<Rightarrow> string \<Rightarrow> device \<Rightarrow> string \<Rightarrow> string \<Rightarrow> string \<Rightarrow> string \<Rightarrow> onsets \<times> string list
    \<Rightarrow> alert_row \<times> onsets \<times> string list" where
  "synth_alert h nw s sev desc since kind st =
     (case time_or_onset nw (tsNorm h (JStr since)) (d_id s) kind st of (t, st') \<Rightarrow>
        (\<lparr>ar_host = alert_label s, ar_hostId = d_id s, ar_sev = JStr sev,
          ar_name = ''DEVICE_STATE'', ar_desc = desc,
          ar_time = t, ar_ackTime = ackTimeNorm (JStr since), ar_testFixture = test_fixture (d_id s)\<rparr>, st'))"

fun run_alerts :: "host \<Rightarrow> string \<Rightarrow> device \<Rightarrow> alert_rec list \<Rightarrow> onsets \<times> string list
    \<Rightarrow> alert_row list \<times> onsets \<times> string list" where
  "run_alerts h nw s [] st = ([], st)"
| "run_alerts h nw s (a # as) st =
     (case push_alert h nw s a st of (r, st1) \<Rightarrow>
      case run_alerts h nw s as st1 of (rs, st2) \<Rightarrow> (r # rs, st2))"

text \<open>One step of the \<open>forEach\<close> over the fleet.\<close>

definition device_alerts :: "host \<Rightarrow> string \<Rightarrow> device \<Rightarrow> onsets \<times> string list \<Rightarrow> alert_row list \<times> onsets \<times> string list" where
  "device_alerts h nw s st =
     (let m = d_meta s; al = m_alerts m;
          hasSynth = list_ex (\<lambda>a. al_name a = ''DEVICE_STATE'') al
      in case run_alerts h nw s al st of (rs, st1) \<Rightarrow>
        if d_status s = Down \<and> \<not> hasSynth then
          (case synth_alert h nw s ''critical'' ''Device offline -- no node responded to the collector''
              (m_downSince m) ''down'' st1 of (r, st2) \<Rightarrow> (rs @ [r], st2))
        else if d_status s = Deg \<and> al = [] then
          (case synth_alert h nw s ''warning'' ''Device degraded -- redundancy lost or a node is not normal''
              (m_issueSince m) ''deg'' st1 of (r, st2) \<Rightarrow> (rs @ [r], st2))
        else (rs, st1))"

fun fleet_alerts :: "host \<Rightarrow> string \<Rightarrow> device list \<Rightarrow> onsets \<times> string list \<Rightarrow> alert_row list \<times> onsets \<times> string list" where
  "fleet_alerts h nw [] st = ([], st)"
| "fleet_alerts h nw (s # ss) st =
     (case device_alerts h nw s st of (rs, st1) \<Rightarrow>
      case fleet_alerts h nw ss st1 of (rs', st2) \<Rightarrow> (rs @ rs', st2))"

definition alertCmp :: "host \<Rightarrow> alert_row \<Rightarrow> alert_row \<Rightarrow> int" where
  "alertCmp h a b =
     (if sev_rank (ar_sev a) - sev_rank (ar_sev b) = 0 then collate_dflt h (ar_time b) (ar_time a)
      else sev_rank (ar_sev a) - sev_rank (ar_sev b))"

definition collectAlerts :: "host \<Rightarrow> onsets \<Rightarrow> device list \<Rightarrow> alert_row list \<times> onsets" where
  "collectAlerts h om fleet =
     (case fleet_alerts h (nowStamp h) fleet (om, []) of (rs, om', seen) \<Rightarrow>
        (sort_by (alertCmp h) rs, filter (\<lambda>p. fst p \<in> set seen) om'))"

section \<open>Acknowledgement\<close>

definition alertAckKey :: "string \<Rightarrow> string \<Rightarrow> string \<Rightarrow> string \<Rightarrow> string" where
  "alertAckKey hostId name desc time = join [CHR 0x01] [hostId, name, desc, time]"

definition row_key :: "alert_row \<Rightarrow> string" where
  "row_key a = alertAckKey (ar_hostId a) (ar_name a) (ar_desc a) (sor (ar_ackTime a) (ar_time a))"

text \<open>A state object read as a map: an array counts as an object with its indices as keys.\<close>

definition as_map :: "jsval \<Rightarrow> jsval" where
  "as_map v = obj_copy v"

definition overdue :: "host \<Rightarrow> int \<Rightarrow> alert_row \<Rightarrow> bool" where
  "overdue h cutoff a = (case agoSec h (JStr (ar_time a)) of None \<Rightarrow> False | Some sec \<Rightarrow> cutoff \<le> sec)"

definition autoAckDue :: "host \<Rightarrow> onsets \<Rightarrow> app_state \<Rightarrow> string list \<times> onsets" where
  "autoAckDue h om st =
     (let days = to_num (sg_ackAutoDays (s_setg st)) in
      if days \<noteq> Fin 7 \<and> days \<noteq> Fin 30 then ([], om)
      else (let cutoff = (if days = Fin 7 then 7 else 30) * 86400; ackMap = as_map (s_ackedAlerts st) in
        case collectAlerts h om (s_fleet st) of (as, om') \<Rightarrow>
          (map row_key (filter (\<lambda>a. \<not> test_fixture (ar_hostId a) \<and> \<not> truthy (jget ackMap (row_key a))
             \<and> overdue h cutoff a) as), om')))"

section \<open>CSV export\<close>

fun quote2 :: "string \<Rightarrow> string" where
  "quote2 [] = []"
| "quote2 (c # cs) = (if c = CHR 0x22 then [CHR 0x22, CHR 0x22] else [c]) @ quote2 cs"

definition csv_cell :: "jsval \<Rightarrow> string" where
  "csv_cell v = [CHR 0x22] @ quote2 (str_nn v) @ [CHR 0x22]"

definition toCsv :: "jsval list \<Rightarrow> jsval list list \<Rightarrow> string" where
  "toCsv headers rows =
     join [CHR 0x0D, CHR 0x0A] (join '','' (map csv_cell headers) # map (\<lambda>r. join '','' (map csv_cell r)) rows)"

section \<open>Maintenance windows and escalation\<close>

definition window_end :: "host \<Rightarrow> jsval \<Rightarrow> int option" where
  "window_end h w = (if truthy w then date_parse h (str_or (jget w ''until'')) else date_parse h [])"

definition activeMaint :: "host \<Rightarrow> jsval \<Rightarrow> int \<Rightarrow> (string \<times> jsval) list" where
  "activeMaint h maint t =
     (let src = as_map maint in
      List.map_filter (\<lambda>k. let w = jor (jget src k) (JObj []) in
         case window_end h w of Some e \<Rightarrow> if t < e then Some (k, w) else None | None \<Rightarrow> None)
        (own_keys src))"

definition expiredMaint :: "host \<Rightarrow> jsval \<Rightarrow> int \<Rightarrow> string list" where
  "expiredMaint h maint t =
     (let src = as_map maint in
      filter (\<lambda>k. case window_end h (jor (jget src k) (JObj [])) of Some e \<Rightarrow> e \<le> t | None \<Rightarrow> True) (own_keys src))"

record escalation =
  es_key :: string
  es_host :: string
  es_desc :: string
  es_time :: string
  es_ageSec :: int

definition escalDue :: "host \<Rightarrow> onsets \<Rightarrow> app_state \<Rightarrow> int \<Rightarrow> escalation list \<times> onsets" where
  "escalDue h om st t =
     (let hours = to_num (sg_escHours (s_setg st)) in
      if hours \<noteq> Fin 4 \<and> hours \<noteq> Fin 24 then ([], om)
      else (let cutoff = (if hours = Fin 4 then 4 else 24) * 3600; ackMap = as_map (s_ackedAlerts st);
                maintMap = activeMaint h (s_maint st) t in
        case collectAlerts h om (s_fleet st) of (as, om') \<Rightarrow>
          (List.map_filter (\<lambda>a.
             if ar_sev a \<noteq> JStr ''critical'' \<or> test_fixture (ar_hostId a) \<or> ar_hostId a \<in> fst ` set maintMap
                \<or> truthy (jget ackMap (row_key a)) then None
             else (case agoSec h (JStr (ar_time a)) of None \<Rightarrow> None
               | Some sec \<Rightarrow> if cutoff \<le> sec
                   then Some \<lparr>es_key = row_key a, es_host = ar_host a, es_desc = ar_desc a,
                              es_time = ar_time a, es_ageSec = sec\<rparr> else None)) as, om')))"

section \<open>Traps\<close>

record trap_row =
  tp_host :: string
  tp_hostId :: string
  tp_sev :: jsval
  tp_desc :: string
  tp_time :: string

definition collectTraps :: "host \<Rightarrow> device list \<Rightarrow> trap_row list" where
  "collectTraps h fleet = concat (map (\<lambda>s. map (\<lambda>t.
      \<lparr>tp_host = alert_label s, tp_hostId = d_id s, tp_sev = jor (tr_sev t) (JStr ''info''),
       tp_desc = ''(!) '' @ sor (tr_desc t) (sor (tr_oid t) ''SNMP trap''),
       tp_time = tsNorm h (JStr (tr_time t))\<rparr>) (m_traps (d_meta s))) fleet)"

section \<open>Facts about the collection\<close>

text \<open>The part of a row its acknowledgement key is built from.\<close>

definition identity :: "alert_row \<Rightarrow> string \<times> string \<times> string \<times> string" where
  "identity a = (ar_hostId a, ar_name a, ar_desc a, ar_ackTime a)"

definition rec_identity :: "device \<Rightarrow> alert_rec \<Rightarrow> string \<times> string \<times> string \<times> string" where
  "rec_identity s a = (d_id s, al_name a, sor (al_desc a) (al_name a), alert_ackTime s a)"

definition synth_identities :: "device \<Rightarrow> (string \<times> string \<times> string \<times> string) list" where
  "synth_identities s =
     (if d_status s = Down \<and> \<not> list_ex (\<lambda>a. al_name a = ''DEVICE_STATE'') (m_alerts (d_meta s))
      then [(d_id s, ''DEVICE_STATE'', ''Device offline -- no node responded to the collector'',
             ackTimeNorm (JStr (m_downSince (d_meta s))))]
      else if d_status s = Deg \<and> m_alerts (d_meta s) = []
      then [(d_id s, ''DEVICE_STATE'', ''Device degraded -- redundancy lost or a node is not normal'',
             ackTimeNorm (JStr (m_issueSince (d_meta s))))]
      else [])"

definition device_identities :: "device \<Rightarrow> (string \<times> string \<times> string \<times> string) list" where
  "device_identities s = map (rec_identity s) (m_alerts (d_meta s)) @ synth_identities s"

lemma push_identity: "identity (fst (push_alert h nw s a st)) = rec_identity s a"
  by (simp add: push_alert_def identity_def rec_identity_def split: prod.splits)

lemma synth_identity:
  "identity (fst (synth_alert h nw s sev desc since kind st)) = (d_id s, ''DEVICE_STATE'', desc, ackTimeNorm (JStr since))"
  by (simp add: synth_alert_def identity_def split: prod.splits)

lemma run_identities: "map identity (fst (run_alerts h nw s as st)) = map (rec_identity s) as"
proof (induction as arbitrary: st)
  case (Cons a as)
  then show ?case
    using push_identity [of h nw s a st] by (auto split: prod.splits) (metis fst_conv)
qed simp

lemma device_identities_eq: "map identity (fst (device_alerts h nw s st)) = device_identities s"
proof -
  obtain rs st1 where r: "run_alerts h nw s (m_alerts (d_meta s)) st = (rs, st1)" by (cases "run_alerts h nw s (m_alerts (d_meta s)) st")
  have rs: "map identity rs = map (rec_identity s) (m_alerts (d_meta s))"
    using run_identities [of h nw s "m_alerts (d_meta s)" st] r by simp
  obtain r1 s1 where 1: "synth_alert h nw s ''critical'' ''Device offline -- no node responded to the collector''
      (m_downSince (d_meta s)) ''down'' st1 = (r1, s1)" by (rule prod.exhaust)
  obtain r2 s2 where 2: "synth_alert h nw s ''warning'' ''Device degraded -- redundancy lost or a node is not normal''
      (m_issueSince (d_meta s)) ''deg'' st1 = (r2, s2)" by (rule prod.exhaust)
  note i = arg_cong [OF 1, of "\<lambda>x. identity (fst x)"] arg_cong [OF 2, of "\<lambda>x. identity (fst x)"]
  have i1: "identity r1 = (d_id s, ''DEVICE_STATE'', ''Device offline -- no node responded to the collector'',
      ackTimeNorm (JStr (m_downSince (d_meta s))))"
    and i2: "identity r2 = (d_id s, ''DEVICE_STATE'', ''Device degraded -- redundancy lost or a node is not normal'',
      ackTimeNorm (JStr (m_issueSince (d_meta s))))"
    using i by (simp_all only: synth_identity fst_conv)
  have d: "device_alerts h nw s st =
      (if d_status s = Down \<and> \<not> list_ex (\<lambda>a. al_name a = ''DEVICE_STATE'') (m_alerts (d_meta s)) then (rs @ [r1], s1)
       else if d_status s = Deg \<and> m_alerts (d_meta s) = [] then (rs @ [r2], s2) else (rs, st1))"
    unfolding device_alerts_def Let_def r prod.case 1 2 ..
  show ?thesis
    unfolding d device_identities_def synth_identities_def rs [symmetric]
    by (simp only: if_distrib [of fst] if_distrib [of "map identity"] fst_conv map_append list.map i1 i2 append_Nil2
        if_distrib [of "\<lambda>x. map identity rs @ x"])
qed

lemma fleet_identities: "map identity (fst (fleet_alerts h nw fleet st)) = concat (map device_identities fleet)"
proof (induction fleet arbitrary: st)
  case (Cons s fleet)
  then show ?case
    using device_identities_eq [of h nw s st] by (auto split: prod.splits) (metis fst_conv)
qed simp

lemma collect_identities:
  "mset (map identity (fst (collectAlerts h om fleet))) = mset (concat (map device_identities fleet))"
proof -
  obtain rs om' seen where f: "fleet_alerts h (nowStamp h) fleet (om, []) = (rs, om', seen)" by (metis prod_cases3)
  then have "map identity rs = concat (map device_identities fleet)"
    using fleet_identities [of h "nowStamp h" fleet "(om, [])"] by simp
  then show ?thesis by (simp add: collectAlerts_def f flip: mset_map) (metis mset_map mset_sort_by)
qed

lemma set_collect_identities:
  "identity ` set (fst (collectAlerts h om fleet)) = set (concat (map device_identities fleet))"
  using arg_cong [OF collect_identities, of set_mset] by (metis set_map set_mset_mset)

lemma down_identity:
  "d_status s = Down \<Longrightarrow> \<exists>d t. (d_id s, ''DEVICE_STATE'', d, t) \<in> set (device_identities s)"
  by (force simp: device_identities_def synth_identities_def rec_identity_def list_ex_iff)

lemma deg_identity:
  "d_status s = Deg \<Longrightarrow> \<exists>n d t. (d_id s, n, d, t) \<in> set (device_identities s)"
  by (cases "m_alerts (d_meta s)") (auto simp: device_identities_def synth_identities_def rec_identity_def)

lemma comparison_alertCmp:
  assumes "comparison (collate_dflt h)"
  shows "comparison (alertCmp h)"
proof -
  have rank: "comparison (\<lambda>a b. sev_rank (ar_sev a) - sev_rank (ar_sev b))"
    by (rule comparison_I) (auto simp: sgn_if)
  have time: "comparison (\<lambda>a b. collate_dflt h (ar_time b) (ar_time a))"
    using comparison_key [OF comparison_swap [OF assms], of ar_time] .
  show ?thesis using comparison_lex [OF rank time] unfolding alertCmp_def [abs_def] .
qed

section \<open>Facts about acknowledgement\<close>

lemma alertAckKey_inj:
  assumes "\<forall>x \<in> set [i, n, d, t, i', n', d', t']. CHR 0x01 \<notin> set x"
    and "alertAckKey i n d t = alertAckKey i' n' d' t'"
  shows "i = i' \<and> n = n' \<and> d = d' \<and> t = t'"
proof -
  have "[i, n, d, t] = [i', n', d', t']"
    using assms by (intro join_inj [of _ _ "CHR 0x01"]) (simp_all add: alertAckKey_def)
  then show ?thesis by simp
qed

definition auto_due :: "host \<Rightarrow> jsval \<Rightarrow> int \<Rightarrow> alert_row \<Rightarrow> bool" where
  "auto_due h acked cutoff a \<longleftrightarrow> \<not> test_fixture (ar_hostId a) \<and> \<not> truthy (jget (as_map acked) (row_key a))
     \<and> overdue h cutoff a"

lemma autoAckDue_eq:
  "fst (autoAckDue h om st) =
     (let days = to_num (sg_ackAutoDays (s_setg st)) in
      if days = Fin 7 \<or> days = Fin 30
      then map row_key (filter (auto_due h (s_ackedAlerts st) ((if days = Fin 7 then 7 else 30) * 86400))
             (fst (collectAlerts h om (s_fleet st))))
      else [])"
  by (simp add: autoAckDue_def Let_def auto_due_def [abs_def] split: prod.splits)

text \<open>What the caller does with the list: one record per key.\<close>

definition ack_all :: "jsval \<Rightarrow> string list \<Rightarrow> jsval \<Rightarrow> jsval" where
  "ack_all r ks acked = foldl (\<lambda>m k. jput k r m) (as_map acked) ks"

lemma ack_all_map: "is_map (ack_all r ks acked)"
  unfolding ack_all_def by (induction ks rule: rev_induct) (simp_all add: as_map_def)

lemma as_map_id: "is_map m \<Longrightarrow> as_map m = m"
  by (cases m) (simp_all add: as_map_def)

lemma foldl_jput: "is_map m \<Longrightarrow> is_map (foldl (\<lambda>m k. jput k r m) m ks)
    \<and> jget (foldl (\<lambda>m k. jput k r m) m ks) k' = (if k' \<in> set ks then r else jget m k')"
  by (induction ks arbitrary: m) auto

lemma jget_ack_all:
  "jget (as_map (ack_all r ks acked)) k = (if k \<in> set ks then r else jget (as_map acked) k)"
proof -
  have "jget (ack_all r ks acked) k = (if k \<in> set ks then r else jget (as_map acked) k)"
    using foldl_jput [of "as_map acked" r ks k] by (simp add: ack_all_def as_map_def)
  then show ?thesis by (simp add: as_map_id ack_all_map)
qed

section \<open>Facts about CSV\<close>

text \<open>A reader of quoted CSV: a field ends at a quote that is not doubled.\<close>

fun csv_q :: "string \<Rightarrow> (string \<times> string) option" where
  "csv_q [] = None"
| "csv_q (c # cs) =
     (if c = CHR 0x22
      then (case cs of d # ds \<Rightarrow> if d = CHR 0x22 then map_option (\<lambda>r. (d # fst r, snd r)) (csv_q ds) else Some ([], cs)
            | [] \<Rightarrow> Some ([], []))
      else map_option (\<lambda>r. (c # fst r, snd r)) (csv_q cs))"

fun csv_go :: "nat \<Rightarrow> string \<Rightarrow> string list list option" where
  "csv_go 0 s = None"
| "csv_go (Suc n) s =
     (case s of c # cs \<Rightarrow>
        if c \<noteq> CHR 0x22 then None
        else (case csv_q cs of
            None \<Rightarrow> None
          | Some (f, r) \<Rightarrow>
              (case r of
                 [] \<Rightarrow> Some [[f]]
               | x # r' \<Rightarrow>
                   if x = CHR '','' then
                     (case csv_go n r' of Some (row # rows) \<Rightarrow> Some ((f # row) # rows) | _ \<Rightarrow> None)
                   else if x = CHR 0x0D \<and> r' \<noteq> [] \<and> hd r' = CHR 0x0A
                   then map_option (\<lambda>rows. [f] # rows) (csv_go n (tl r'))
                   else None))
      | [] \<Rightarrow> None)"

definition csv_parse :: "string \<Rightarrow> string list list option" where
  "csv_parse s = csv_go (length s) s"

lemma csv_q_quote2:
  "r = [] \<or> hd r \<noteq> CHR 0x22 \<Longrightarrow> csv_q (quote2 f @ CHR 0x22 # r) = Some (f, r)"
proof (induction f)
  case Nil
  then show ?case by (cases r) auto
qed auto

definition csv_row :: "string list \<Rightarrow> string" where
  "csv_row fs = join '','' (map (\<lambda>f. [CHR 0x22] @ quote2 f @ [CHR 0x22]) fs)"

definition csv_text :: "string list list \<Rightarrow> string" where
  "csv_text rows = join [CHR 0x0D, CHR 0x0A] (map csv_row rows)"

lemma toCsv_text: "toCsv hs rows = csv_text (map (map str_nn) (hs # rows))"
  by (simp add: toCsv_def csv_text_def csv_row_def csv_cell_def [abs_def] comp_def)

lemma csv_text_cell:
  "csv_text ((f # g # fs) # rows) = CHR 0x22 # quote2 f @ CHR 0x22 # CHR '','' # csv_text ((g # fs) # rows)"
  by (cases rows) (simp_all add: csv_text_def csv_row_def)

lemma csv_text_row:
  "csv_text ([f] # r # rows) = CHR 0x22 # quote2 f @ CHR 0x22 # CHR 0x0D # CHR 0x0A # csv_text (r # rows)"
  by (simp add: csv_text_def csv_row_def)

lemma csv_text_last: "csv_text [[f]] = CHR 0x22 # quote2 f @ [CHR 0x22]"
  by (simp add: csv_text_def csv_row_def)

lemma csv_go_text:
  "list_all (\<lambda>r. r \<noteq> []) rows \<Longrightarrow> rows \<noteq> [] \<Longrightarrow> length (csv_text rows) \<le> n \<Longrightarrow> csv_go n (csv_text rows) = Some rows"
proof (induction n arbitrary: rows)
  case 0
  then obtain f fs rs where "rows = (f # fs) # rs" by (cases rows; cases "hd rows") auto
  then show ?case using 0 by (cases fs; cases rs) (simp_all add: csv_text_cell csv_text_row csv_text_last)
next
  case (Suc n)
  then obtain f fs rs where r: "rows = (f # fs) # rs" by (cases rows; cases "hd rows") auto
  show ?case
  proof (cases fs)
    case (Cons g gs)
    have "csv_go n (csv_text ((g # gs) # rs)) = Some ((g # gs) # rs)"
      using Suc.prems r Cons by (intro Suc.IH) (simp_all add: csv_text_cell)
    then show ?thesis by (simp add: r Cons csv_text_cell csv_q_quote2)
  next
    case Nil
    show ?thesis
    proof (cases rs)
      case Nil
      then show ?thesis using \<open>fs = []\<close> csv_q_quote2 [of "[]" f] by (simp add: r csv_text_last)
    next
      case (Cons q qs)
      have "csv_go n (csv_text (q # qs)) = Some (q # qs)"
        using Suc.prems r Cons \<open>fs = []\<close> by (intro Suc.IH) (simp_all add: csv_text_row)
      then show ?thesis using \<open>fs = []\<close> by (simp add: r Cons csv_text_row csv_q_quote2)
    qed
  qed
qed

section \<open>Facts about windows\<close>

lemma map_filter_fst:
  "(\<And>k. k \<in> set ks \<Longrightarrow> f k = (if P k then Some (k, g k) else None)) \<Longrightarrow> map fst (List.map_filter f ks) = filter P ks"
  by (induction ks) (simp_all add: List.map_filter_simps)

lemma activeMaint_keys:
  "map fst (activeMaint h maint t) =
     filter (\<lambda>k. case window_end h (jor (jget (as_map maint) k) (JObj [])) of Some e \<Rightarrow> t < e | None \<Rightarrow> False)
       (own_keys (as_map maint))"
  unfolding activeMaint_def Let_def
  by (rule map_filter_fst [where g = "\<lambda>k. jor (jget (as_map maint) k) (JObj [])"]) (simp split: option.splits)

section \<open>Properties\<close>

text \<open>
  An acknowledgement survives reloads and is shared between consoles: the identities the keys
  are built from (device, name, text, acknowledgement time) are the same multiset for any two
  consoles, whatever their clocks and whatever alerts each of them has seen before.
\<close>

theorem alert_identity_session_free:
  "mset (map identity (fst (collectAlerts h om fleet))) = mset (map identity (fst (collectAlerts h' om' fleet)))"
  by (simp only: collect_identities)

text \<open>
  Different alerts have different acknowledgement keys: the key determines device, name, text
  and time, as long as none of them contains the separator control character.
\<close>

theorem alertAckKey_injective:
  assumes "\<forall>x \<in> set [i, n, d, t, i', n', d', t']. CHR 0x01 \<notin> set x"
  shows "alertAckKey i n d t = alertAckKey i' n' d' t' \<longleftrightarrow> i = i' \<and> n = n' \<and> d = d' \<and> t = t'"
  using alertAckKey_inj [OF assms] by auto

theorem alertAckKey_injective_witness:
  "alertAckKey ''ev-01'' ''PSU'' ''lost'' ''no-time'' \<noteq> alertAckKey ''ev-01'' ''PSU'' ''lost'' ''2026''"
  using alertAckKey_injective [of "''ev-01''" "''PSU''" "''lost''" "''no-time''" "''ev-01''" "''PSU''" "''lost''" "''2026''"]
  by simp

text \<open>
  C34. No outage stays silent: every device of the fleet that is down has a device-state alert in
  the list, every degraded device has some alert, and no alert belongs to a device outside the fleet.
\<close>

theorem abnormal_device_alerted:
  "(\<forall>s \<in> set fleet. d_status s = Down \<longrightarrow>
      (\<exists>a \<in> set (fst (collectAlerts h om fleet)). ar_hostId a = d_id s \<and> ar_name a = ''DEVICE_STATE''))
   \<and> (\<forall>s \<in> set fleet. d_status s = Deg \<longrightarrow> (\<exists>a \<in> set (fst (collectAlerts h om fleet)). ar_hostId a = d_id s))
   \<and> (\<forall>a \<in> set (fst (collectAlerts h om fleet)). ar_hostId a \<in> d_id ` set fleet)"
proof (intro conjI ballI impI)
  note ids = set_collect_identities [of h om fleet]
  fix s assume s: "s \<in> set fleet" "d_status s = Down"
  then obtain d t where "(d_id s, ''DEVICE_STATE'', d, t) \<in> identity ` set (fst (collectAlerts h om fleet))"
    using down_identity unfolding ids by fastforce
  then show "\<exists>a \<in> set (fst (collectAlerts h om fleet)). ar_hostId a = d_id s \<and> ar_name a = ''DEVICE_STATE''"
    by (auto simp: identity_def)
next
  note ids = set_collect_identities [of h om fleet]
  fix s assume s: "s \<in> set fleet" "d_status s = Deg"
  then obtain n d t where "(d_id s, n, d, t) \<in> identity ` set (fst (collectAlerts h om fleet))"
    using deg_identity unfolding ids by fastforce
  then show "\<exists>a \<in> set (fst (collectAlerts h om fleet)). ar_hostId a = d_id s"
    by (auto simp: identity_def)
next
  note ids = set_collect_identities [of h om fleet]
  fix a assume "a \<in> set (fst (collectAlerts h om fleet))"
  then have "identity a \<in> set (concat (map device_identities fleet))" unfolding ids [symmetric] by blast
  then show "ar_hostId a \<in> d_id ` set fleet"
    by (auto simp: identity_def device_identities_def rec_identity_def synth_identities_def split: if_splits)
qed

theorem abnormal_device_alerted_witness:
  "\<exists>a \<in> set (fst (collectAlerts code_host [] [mkDevice ''ev-01'' EV Down (JObj [])])).
     ar_hostId a = ''ev-01'' \<and> ar_name a = ''DEVICE_STATE''"
proof -
  have "d_status (mkDevice ''ev-01'' EV Down (JObj [])) = Down" "d_id (mkDevice ''ev-01'' EV Down (JObj [])) = ''ev-01''"
    by (simp_all add: mkDevice_def Let_def)
  then show ?thesis
    using abnormal_device_alerted [of "[mkDevice ''ev-01'' EV Down (JObj [])]" code_host "[]", THEN conjunct1,
        THEN bspec, of "mkDevice ''ev-01'' EV Down (JObj [])"] by auto
qed

text \<open>
  Automatic acknowledgement is safe and settles: it only names alerts that are listed, not
  acknowledged, not test fixtures and older than the configured 7 or 30 days; and once a truthy record
  is stored for each of them, the same fleet has nothing left to acknowledge.
\<close>

theorem autoAckDue_settles:
  "(\<forall>k \<in> set (fst (autoAckDue h om st)).
      (\<exists>a \<in> set (fst (collectAlerts h om (s_fleet st))). row_key a = k \<and> \<not> test_fixture (ar_hostId a)
         \<and> (\<exists>sec. agoSec h (JStr (ar_time a)) = Some sec \<and> 7 * 86400 \<le> sec))
      \<and> \<not> truthy (jget (as_map (s_ackedAlerts st)) k))
   \<and> fst (autoAckDue h om (st\<lparr>s_ackedAlerts := ack_all (JObj ps) (fst (autoAckDue h om st)) (s_ackedAlerts st)\<rparr>)) = []"
proof
  have "overdue h c a \<Longrightarrow> 7 * 86400 \<le> c \<Longrightarrow> \<exists>sec. agoSec h (JStr (ar_time a)) = Some sec \<and> 7 * 86400 \<le> sec" for c a
    by (auto simp: overdue_def split: option.splits)
  then show "\<forall>k \<in> set (fst (autoAckDue h om st)).
      (\<exists>a \<in> set (fst (collectAlerts h om (s_fleet st))). row_key a = k \<and> \<not> test_fixture (ar_hostId a)
         \<and> (\<exists>sec. agoSec h (JStr (ar_time a)) = Some sec \<and> 7 * 86400 \<le> sec))
      \<and> \<not> truthy (jget (as_map (s_ackedAlerts st)) k)"
    by (auto simp: autoAckDue_eq Let_def auto_due_def)
next
  define due where "due = fst (autoAckDue h om st)"
  have "fst (autoAckDue h om (st\<lparr>s_ackedAlerts := ack_all (JObj ps) due (s_ackedAlerts st)\<rparr>)) = []"
    by (auto simp: autoAckDue_eq [of h om "st\<lparr>s_ackedAlerts := ack_all (JObj ps) due (s_ackedAlerts st)\<rparr>"]
        Let_def filter_empty_conv auto_due_def jget_ack_all)
      (auto simp: due_def autoAckDue_eq Let_def auto_due_def)
  then show "fst (autoAckDue h om (st\<lparr>s_ackedAlerts := ack_all (JObj ps) (fst (autoAckDue h om st)) (s_ackedAlerts st)\<rparr>)) = []"
    by (simp add: due_def)
qed

definition old_alert_state :: app_state where
  "old_alert_state = initialState\<lparr>s_fleet := [mkDevice ''e1'' EV Op (JObj [(''meta'', JObj [(''alerts'',
      JArr [JObj [(''name'', JStr ''X''), (''time'', JStr ''2020-01-02 03:04:05''), (''sev'', JStr ''info'')]])])])],
    s_setg := (s_setg initialState)\<lparr>sg_ackAutoDays := JNum (Fin 7)\<rparr>\<rparr>"

lemma old_alert_due: "fst (autoAckDue code_host [] old_alert_state) = [alertAckKey ''e1'' ''X'' ''X'' ''2020-01-02 03:04:05'']"
  by code_simp

theorem autoAckDue_settles_witness:
  "\<not> truthy (jget (as_map (s_ackedAlerts old_alert_state)) (alertAckKey ''e1'' ''X'' ''X'' ''2020-01-02 03:04:05''))
   \<and> fst (autoAckDue code_host [] (old_alert_state\<lparr>s_ackedAlerts := ack_all (JObj [])
        [alertAckKey ''e1'' ''X'' ''X'' ''2020-01-02 03:04:05''] (s_ackedAlerts old_alert_state)\<rparr>)) = []"
  using autoAckDue_settles [of code_host "[]" old_alert_state "[]"] unfolding old_alert_due by simp

text \<open>
  A CSV text loses nothing: reading it back gives the header and every row, cell by
  cell, whatever quotes, commas and line ends the cells contain (for tables without empty rows).
\<close>

theorem toCsv_roundtrip:
  assumes "hs \<noteq> []" "list_all (\<lambda>r. r \<noteq> []) rows"
  shows "csv_parse (toCsv hs rows) = Some (map (map str_nn) (hs # rows))"
  unfolding csv_parse_def toCsv_text
  by (rule csv_go_text) (use assms in \<open>auto simp: list_all_iff\<close>)

theorem toCsv_roundtrip_witness:
  "csv_parse (toCsv [JStr ''name''] [[JStr [CHR 0x22, CHR '','', CHR 0x0D, CHR 0x0A]]])
     = Some [[''name''], [[CHR 0x22, CHR '','', CHR 0x0D, CHR 0x0A]]]"
  using toCsv_roundtrip [of "[JStr ''name'']" "[[JStr [CHR 0x22, CHR '','', CHR 0x0D, CHR 0x0A]]]"]
  by (simp add: str_nn_def nullish_def)

text \<open>
  Every maintenance window is at each moment either active or due for the sweep, never both:
  the active keys are the window keys without the expired ones; a window whose end cannot be read is expired.
\<close>

theorem maint_active_xor_expired:
  "set (map fst (activeMaint h maint t)) = set (own_keys (as_map maint)) - set (expiredMaint h maint t)
   \<and> set (expiredMaint h maint t) \<subseteq> set (own_keys (as_map maint))
   \<and> (\<forall>(k, w) \<in> set (activeMaint h maint t). \<exists>e. window_end h w = Some e \<and> t < e)"
proof (intro conjI)
  show "set (map fst (activeMaint h maint t)) = set (own_keys (as_map maint)) - set (expiredMaint h maint t)"
    unfolding activeMaint_keys by (auto simp: expiredMaint_def Let_def split: option.splits)
  show "set (expiredMaint h maint t) \<subseteq> set (own_keys (as_map maint))"
    by (auto simp: expiredMaint_def Let_def)
  show "\<forall>(k, w) \<in> set (activeMaint h maint t). \<exists>e. window_end h w = Some e \<and> t < e"
  proof clarify
    fix k w assume "(k, w) \<in> set (activeMaint h maint t)"
    then obtain k' where "(case window_end h (jor (jget (as_map maint) k') (JObj [])) of
        None \<Rightarrow> None | Some e \<Rightarrow> if t < e then Some (k', jor (jget (as_map maint) k') (JObj [])) else None) = Some (k, w)"
      unfolding activeMaint_def Let_def set_map_filter by blast
    then show "\<exists>e. window_end h w = Some e \<and> t < e"
      by (cases "window_end h (jor (jget (as_map maint) k') (JObj []))") (auto split: if_splits)
  qed
qed

theorem maint_active_xor_expired_witness:
  "map fst (activeMaint code_host (JObj [(''ev-01'', JObj [])]) 0) = []"
proof -
  have "date_parse code_host [] = None" by code_simp
  then have "expiredMaint code_host (JObj [(''ev-01'', JObj [])]) 0 = [''ev-01'']"
    by (simp add: expiredMaint_def as_map_def window_end_def jor_def str_or_def)
  moreover have "own_keys (as_map (JObj [(''ev-01'', JObj [])])) = [''ev-01'']" by (simp add: as_map_def)
  ultimately show ?thesis
    using maint_active_xor_expired [of code_host "JObj [(''ev-01'', JObj [])]" 0] by simp
qed

text \<open>
  A critical alert is never buried: in the collected list no alert is followed by one of a more
  severe class, and within a class no alert is followed by a newer one, whenever the collation is a
  total preorder with an antisymmetric sign.
\<close>

theorem alerts_severe_first:
  assumes "comparison (collate_dflt h)"
  shows "sorted_wrt (\<lambda>a b. sev_rank (ar_sev a) < sev_rank (ar_sev b)
      \<or> sev_rank (ar_sev a) = sev_rank (ar_sev b) \<and> collate_dflt h (ar_time b) (ar_time a) \<le> 0)
    (fst (collectAlerts h om fleet))"
proof -
  have "alertCmp h a b \<le> 0 \<Longrightarrow> sev_rank (ar_sev a) < sev_rank (ar_sev b)
      \<or> sev_rank (ar_sev a) = sev_rank (ar_sev b) \<and> collate_dflt h (ar_time b) (ar_time a) \<le> 0" for a b
    by (auto simp: alertCmp_def split: if_splits)
  moreover have "sorted_wrt (\<lambda>a b. alertCmp h a b \<le> 0) (fst (collectAlerts h om fleet))"
    using comparator.sorted_sort_by [OF comparison.axioms(1) [OF comparison_alertCmp [OF assms]]]
    by (simp add: collectAlerts_def split: prod.splits)
  ultimately show ?thesis using sorted_wrt_mono_rel by (metis (mono_tags, lifting))
qed

theorem alerts_severe_first_witness:
  "sorted_wrt (\<lambda>a b. sev_rank (ar_sev a) < sev_rank (ar_sev b)
      \<or> sev_rank (ar_sev a) = sev_rank (ar_sev b) \<and> collate_dflt code_host (ar_time b) (ar_time a) \<le> 0)
    (fst (collectAlerts code_host [] [mkDevice ''ev-01'' EV Down (JObj [])]))"
proof -
  have "comparison (collate_dflt code_host)" using code_host_comparison by (simp add: code_host_def)
  then show ?thesis by (rule alerts_severe_first)
qed

end
