(* ===== verification/Outbox.thy ===== *)
theory Outbox
  imports Store
begin

text \<open>
  The first half of \<open>src/web/js/util/shared_sync.js\<close>: the contract for pending operator-state
  changes (\<open>cleanSharedValue\<close>, \<open>cleanDelta\<close>, \<open>cleanQueues\<close>) and the durable outbox on the
  browser storage (\<open>createDurableSharedOutbox\<close>). The kinds are the three the program defines.

  The main facts: what the cleaner accepts it accepts again unchanged, an accepted value carries no
  field outside its contract, what \<open>save\<close> stores is what \<open>load\<close> returns, and a refused \<open>save\<close>
  leaves the stored queues untouched.
\<close>

section \<open>Contracts\<close>

datatype shared_kind = Ack | Maintenance | Notes

fun kind_key :: "shared_kind \<Rightarrow> string" where
  "kind_key Ack = ''ack''"
| "kind_key Maintenance = ''maintenance''"
| "kind_key Notes = ''notes''"

definition OUTBOX_KINDS :: "shared_kind list" where "OUTBOX_KINDS = [Ack, Maintenance, Notes]"

definition OUTBOX_MAX_BYTES :: nat where "OUTBOX_MAX_BYTES = 256 * 1024"
definition OUTBOX_MAX_ITEMS_PER_KIND :: nat where "OUTBOX_MAX_ITEMS_PER_KIND = 256"
definition OUTBOX_MAX_OPS_PER_DELTA :: nat where "OUTBOX_MAX_OPS_PER_DELTA = 512"
definition OUTBOX_MAX_KEY_LENGTH :: nat where "OUTBOX_MAX_KEY_LENGTH = 1024"
definition OUTBOX_MAX_VALUE_BYTES :: nat where "OUTBOX_MAX_VALUE_BYTES = 16 * 1024"

definition SECRET_FIELD :: rx where
  "SECRET_FIELD = ralts (map rlit_ci [''webhook'', ''secret'', ''token'', ''password'', ''passwd'', ''credential''])"

definition SECRET_URL :: rx where
  "SECRET_URL = rseqs [rlit_ci ''http'', ropt (rlit_ci ''s''), rlit ''://'', RStar (\<lambda>c. \<not> is_space c),
     ralts [rseqs [rlit_ci ''/api/webhook'', ropt (rlit_ci ''s''), rlit ''/''], rlit_ci ''hooks.'', rlit_ci ''webhook.'']]"

fun containsSecretField :: "nat \<Rightarrow> jsval \<Rightarrow> bool" where
  "containsSecretField depth (JArr vs) =
     (8 < depth \<or> list_ex (\<lambda>v. containsSecretField (Suc depth) v) vs)"
| "containsSecretField depth (JObj ps) =
     (8 < depth \<or> list_ex (\<lambda>p. rx_test SECRET_FIELD (fst p) \<or> containsSecretField (Suc depth) (snd p)) ps)"
| "containsSecretField depth v = (8 < depth)"

definition boundedString :: "jsval \<Rightarrow> nat \<Rightarrow> bool \<Rightarrow> string option" where
  "boundedString value mx required =
     (case value of JStr s \<Rightarrow>
        if mx < length s \<or> rx_test SECRET_URL s then None
        else if required \<and> trim s = [] then None
        else Some s
      | _ \<Rightarrow> None)"

fun contract_fields :: "shared_kind \<Rightarrow> (string \<times> nat) list" where
  "contract_fields Ack = [(''ts'', 40), (''by'', 80), (''reason'', 500)]"
| "contract_fields Maintenance = [(''until'', 40), (''note'', 200), (''by'', 40), (''ts'', 40)]"
| "contract_fields Notes = [(''text'', 1000), (''ts'', 40), (''by'', 40)]"

fun contract_required :: "shared_kind \<Rightarrow> string" where
  "contract_required Ack = ''ts''"
| "contract_required Maintenance = ''until''"
| "contract_required Notes = ''text''"

text \<open>The loop over the contract's fields; \<open>None\<close> is the early \<open>return null\<close>.\<close>

fun clean_fields :: "jsval \<Rightarrow> string \<Rightarrow> (string \<times> nat) list \<Rightarrow> (string \<times> jsval) list option" where
  "clean_fields itm req [] = Some []"
| "clean_fields itm req ((f, mx) # fs) =
     (if \<not> has_own itm f then clean_fields itm req fs
      else (case boundedString (jget itm f) mx (f = req) of
          None \<Rightarrow> None
        | Some s \<Rightarrow> map_option (\<lambda>out. (f, JStr s) # out) (clean_fields itm req fs)))"

definition cleanSharedValue :: "shared_kind \<Rightarrow> jsval \<Rightarrow> jsval option" where
  "cleanSharedValue kind itm =
     (if kind = Ack \<and> is_str itm then map_option JStr (boundedString itm 40 True)
      else if \<not> is_map itm \<or> containsSecretField 0 itm then None
      else if list_ex (\<lambda>k. k \<notin> fst ` set (contract_fields kind)) (own_keys itm) then None
      else (case clean_fields itm (contract_required kind) (contract_fields kind) of
          None \<Rightarrow> None
        | Some out \<Rightarrow> if contract_required kind \<in> fst ` set out then Some (JObj out) else None))"

section \<open>Deltas and queues\<close>

record delta =
  dl_set :: "(string \<times> jsval) list"
  dl_del :: "string list"

definition key_ok :: "string \<Rightarrow> bool" where
  "key_ok k \<longleftrightarrow> k \<noteq> [] \<and> length k \<le> OUTBOX_MAX_KEY_LENGTH"

fun clean_sets :: "shared_kind \<Rightarrow> jsval \<Rightarrow> string list \<Rightarrow> (string \<times> jsval) list option" where
  "clean_sets kind src [] = Some []"
| "clean_sets kind src (k # ks) =
     (if \<not> key_ok k then None
      else (case cleanSharedValue kind (jget src k) of
          None \<Rightarrow> None
        | Some itm \<Rightarrow> if OUTBOX_MAX_VALUE_BYTES < length (stringify itm) then None
            else map_option (\<lambda>out. (k, itm) # out) (clean_sets kind src ks)))"

fun clean_dels :: "jsval list \<Rightarrow> string list option" where
  "clean_dels [] = Some []"
| "clean_dels (v # vs) = (case v of JStr k \<Rightarrow> if key_ok k then map_option (\<lambda>ks. k # ks) (clean_dels vs) else None
     | _ \<Rightarrow> None)"

definition cleanDelta :: "jsval \<Rightarrow> shared_kind \<Rightarrow> delta option" where
  "cleanDelta value kind =
     (if \<not> is_map value then None
      else if list_ex (\<lambda>k. k \<noteq> ''set'' \<and> k \<noteq> ''del'') (own_keys value) then None
      else (let sourceSet = (if nullish (jget value ''set'') then JObj [] else jget value ''set'');
                sourceDel = (if nullish (jget value ''del'') then JArr [] else jget value ''del'') in
        if \<not> is_map sourceSet \<or> \<not> is_arr sourceDel then None
        else if OUTBOX_MAX_OPS_PER_DELTA < length (own_keys sourceSet) + length (arr_of sourceDel) then None
        else (case clean_sets kind sourceSet (own_keys sourceSet) of
            None \<Rightarrow> None
          | Some st \<Rightarrow> (case clean_dels (arr_of sourceDel) of
                None \<Rightarrow> None
              | Some dl \<Rightarrow> Some \<lparr>dl_set = st, dl_del = dl\<rparr>))))"

type_synonym queues = "shared_kind \<Rightarrow> delta list"

fun clean_list_of :: "shared_kind \<Rightarrow> jsval list \<Rightarrow> delta list option" where
  "clean_list_of kind [] = Some []"
| "clean_list_of kind (v # vs) = (case cleanDelta v kind of
     None \<Rightarrow> None
   | Some d \<Rightarrow> map_option (\<lambda>ds. d # ds) (clean_list_of kind vs))"

definition clean_queue :: "jsval \<Rightarrow> shared_kind \<Rightarrow> delta list option" where
  "clean_queue value kind =
     (let source = (if nullish (jget value (kind_key kind)) then JArr [] else jget value (kind_key kind)) in
      if \<not> is_arr source \<or> OUTBOX_MAX_ITEMS_PER_KIND < length (arr_of source) then None
      else clean_list_of kind (arr_of source))"

definition cleanQueues :: "jsval \<Rightarrow> queues option" where
  "cleanQueues value =
     (if \<not> is_map value then None
      else if list_ex (\<lambda>k. k \<notin> set (map kind_key OUTBOX_KINDS)) (own_keys value) then None
      else (case (clean_queue value Ack, clean_queue value Maintenance, clean_queue value Notes) of
          (Some a, Some m, Some n) \<Rightarrow> Some (\<lambda>k. case k of Ack \<Rightarrow> a | Maintenance \<Rightarrow> m | Notes \<Rightarrow> n)
        | _ \<Rightarrow> None))"

definition delta_value :: "delta \<Rightarrow> jsval" where
  "delta_value d = JObj [(''set'', JObj (dl_set d)), (''del'', JArr (map JStr (dl_del d)))]"

definition queues_value :: "queues \<Rightarrow> jsval" where
  "queues_value q = JObj (map (\<lambda>k. (kind_key k, JArr (map delta_value (q k)))) OUTBOX_KINDS)"

section \<open>The durable outbox\<close>

definition SHARED_OUTBOX_KEY :: string where "SHARED_OUTBOX_KEY = ''sd.sharedOutbox.v1''"

datatype outbox_error = ReadFailed | TooLarge | InvalidJson | UnsupportedVersion | InvalidShape

definition no_queues :: queues where "no_queues = (\<lambda>_. [])"

definition outbox_load :: "storage \<Rightarrow> outbox_error + queues" where
  "outbox_load ls =
     (case getItem ls SHARED_OUTBOX_KEY of
        None \<Rightarrow> Inl ReadFailed
      | Some None \<Rightarrow> Inr no_queues
      | Some (Some raw) \<Rightarrow>
          if OUTBOX_MAX_BYTES < length raw then Inl TooLarge
          else (case json_parse raw of
              None \<Rightarrow> Inl InvalidJson
            | Some doc \<Rightarrow>
                if \<not> is_map doc \<or> jget doc ''version'' \<noteq> JNum (Fin 1) \<or> \<not> is_map (jget doc ''queues'')
                then Inl UnsupportedVersion
                else (case cleanQueues (jget doc ''queues'') of None \<Rightarrow> Inl InvalidShape | Some q \<Rightarrow> Inr q)))"

definition outbox_doc :: "queues \<Rightarrow> jsval" where
  "outbox_doc q = JObj [(''version'', JNum (Fin 1)), (''queues'', queues_value q)]"

text \<open>\<open>None\<close> when the source returns \<open>false\<close>; the storage is then as it was.\<close>

definition outbox_save :: "queues \<Rightarrow> storage \<Rightarrow> storage option" where
  "outbox_save q ls =
     (case cleanQueues (queues_value q) of
        None \<Rightarrow> None
      | Some cleaned \<Rightarrow>
          if list_all (\<lambda>k. cleaned k = []) OUTBOX_KINDS then removeItem SHARED_OUTBOX_KEY ls
          else (let raw = stringify (outbox_doc cleaned) in
            if OUTBOX_MAX_BYTES < length raw then None else setItem SHARED_OUTBOX_KEY raw ls))"

section \<open>What the cleaner establishes\<close>

fun value_ok :: "shared_kind \<Rightarrow> jsval \<Rightarrow> bool" where
  "value_ok kind v = (cleanSharedValue kind v = Some v \<and> json_safe v)"

definition delta_ok :: "shared_kind \<Rightarrow> delta \<Rightarrow> bool" where
  "delta_ok kind d \<longleftrightarrow>
     distinct (map fst (dl_set d)) \<and> length (dl_set d) + length (dl_del d) \<le> OUTBOX_MAX_OPS_PER_DELTA \<and>
     list_all key_ok (dl_del d) \<and>
     list_all (\<lambda>p. key_ok (fst p) \<and> value_ok kind (snd p) \<and> length (stringify (snd p)) \<le> OUTBOX_MAX_VALUE_BYTES) (dl_set d)"

definition queues_ok :: "queues \<Rightarrow> bool" where
  "queues_ok q \<longleftrightarrow> (\<forall>k. length (q k) \<le> OUTBOX_MAX_ITEMS_PER_KIND \<and> list_all (delta_ok k) (q k))"

section \<open>Facts about the cleaner\<close>

lemma boundedString_Some: "boundedString v m r = Some s \<longleftrightarrow>
   v = JStr s \<and> length s \<le> m \<and> \<not> rx_test SECRET_URL s \<and> (r \<longrightarrow> trim s \<noteq> [])"
  by (auto simp: boundedString_def split: jsval.splits)

lemma clean_fields_Cons: "clean_fields itm req ((f, mx) # fs) = Some out \<longleftrightarrow>
   (if \<not> has_own itm f then clean_fields itm req fs = Some out
    else (\<exists>s r. boundedString (jget itm f) mx (f = req) = Some s \<and> clean_fields itm req fs = Some r \<and> out = (f, JStr s) # r))"
  by (auto split: option.splits)

declare clean_fields.simps(2) [simp del]

lemma clean_fields_keys: "clean_fields itm req fs = Some out \<Longrightarrow> fst ` set out \<subseteq> fst ` set fs"
proof (induction fs arbitrary: out)
  case (Cons p fs)
  obtain f mx where p: "p = (f, mx)" by (cases p)
  show ?case
  proof (cases "has_own itm f")
    case False
    then have "clean_fields itm req fs = Some out" using Cons.prems by (simp add: p clean_fields_Cons)
    from Cons.IH [OF this] show ?thesis by auto
  next
    case True
    then obtain s r where r: "clean_fields itm req fs = Some r" "out = (f, JStr s) # r"
      using Cons.prems by (auto simp: p clean_fields_Cons)
    from Cons.IH [OF r(1)] show ?thesis by (auto simp: r(2) p)
  qed
qed simp

lemma clean_fields_distinct:
  "clean_fields itm req fs = Some out \<Longrightarrow> distinct (map fst fs) \<Longrightarrow> distinct (map fst out)"
proof (induction fs arbitrary: out)
  case (Cons p fs)
  obtain f mx where p: "p = (f, mx)" by (cases p)
  show ?case
  proof (cases "has_own itm f")
    case False
    then show ?thesis using Cons by (simp add: p clean_fields_Cons)
  next
    case True
    then obtain s r where r: "clean_fields itm req fs = Some r" "out = (f, JStr s) # r"
      using Cons.prems by (auto simp: p clean_fields_Cons)
    have "f \<notin> fst ` set r" using clean_fields_keys [OF r(1)] Cons.prems(2) by (auto simp: p)
    then show ?thesis using Cons.IH [OF r(1)] Cons.prems(2) by (simp add: r(2))
  qed
qed simp

lemma clean_fields_strings:
  "clean_fields itm req fs = Some out \<Longrightarrow> p \<in> set out \<Longrightarrow>
    \<exists>s mx. snd p = JStr s \<and> (fst p, mx) \<in> set fs \<and> length s \<le> mx \<and> \<not> rx_test SECRET_URL s"
proof (induction fs arbitrary: out)
  case (Cons q fs)
  obtain f mx where q: "q = (f, mx)" by (cases q)
  show ?case
  proof (cases "has_own itm f")
    case False
    then have "clean_fields itm req fs = Some out" using Cons.prems(1) by (simp add: q clean_fields_Cons)
    from Cons.IH [OF this Cons.prems(2)] show ?thesis by auto
  next
    case True
    then obtain s r where s: "boundedString (jget itm f) mx (f = req) = Some s"
      and r: "clean_fields itm req fs = Some r" "out = (f, JStr s) # r"
      using Cons.prems by (auto simp: q clean_fields_Cons)
    show ?thesis
    proof (cases "p \<in> set r")
      case True
      from Cons.IH [OF r(1) this] show ?thesis by auto
    next
      case False
      then have "p = (f, JStr s)" using Cons.prems(2) r(2) by simp
      then show ?thesis using s by (auto simp: q boundedString_Some)
    qed
  qed
qed simp

lemma clean_fields_again:
  "clean_fields itm req fs = Some out \<Longrightarrow> distinct (map fst fs) \<Longrightarrow> fst ` set pre \<inter> fst ` set fs = {}
   \<Longrightarrow> clean_fields (JObj (pre @ out)) req fs = Some out"
proof (induction fs arbitrary: out pre)
  case (Cons p fs)
  obtain f mx where p: "p = (f, mx)" by (cases p)
  have f: "f \<notin> fst ` set pre" "f \<notin> fst ` set fs" "distinct (map fst fs)" "fst ` set pre \<inter> fst ` set fs = {}"
    using Cons.prems(2,3) p by auto
  show ?case
  proof (cases "has_own itm f")
    case False
    then have out: "clean_fields itm req fs = Some out" using Cons.prems(1) by (simp add: p clean_fields_Cons)
    then have "\<not> has_own (JObj (pre @ out)) f" using f clean_fields_keys [OF out] by auto
    then show ?thesis using Cons.IH [OF out f(3,4)] by (simp add: p clean_fields_Cons)
  next
    case True
    then obtain s r where s: "boundedString (jget itm f) mx (f = req) = Some s"
      "clean_fields itm req fs = Some r" and out: "out = (f, JStr s) # r"
      using Cons.prems(1) by (auto simp: p clean_fields_Cons)
    have "fst ` set (pre @ [(f, JStr s)]) \<inter> fst ` set fs = {}" using f by auto
    from Cons.IH [OF s(2) f(3) this] have "clean_fields (JObj (pre @ (f, JStr s) # r)) req fs = Some r" by simp
    moreover have "map_of (pre @ out) f = Some (JStr s)"
    proof -
      have "map_of pre f = None" using f(1) by (simp add: map_of_eq_None_iff)
      then show ?thesis by (simp add: out map_add_def)
    qed
    moreover have "boundedString (JStr s) mx (f = req) = Some s" using s(1) by (auto simp: boundedString_Some)
    ultimately show ?thesis by (simp add: p clean_fields_Cons out)
  qed
qed simp

lemma contract_distinct: "distinct (map fst (contract_fields k))"
  by (cases k) simp_all

lemma contract_no_secret: "f \<in> fst ` set (contract_fields k) \<Longrightarrow> \<not> rx_test SECRET_FIELD f"
proof -
  have all: "\<not> rx_test SECRET_FIELD ''ts''" "\<not> rx_test SECRET_FIELD ''by''" "\<not> rx_test SECRET_FIELD ''reason''"
    "\<not> rx_test SECRET_FIELD ''until''" "\<not> rx_test SECRET_FIELD ''note''" "\<not> rx_test SECRET_FIELD ''text''"
    by code_simp+
  assume "f \<in> fst ` set (contract_fields k)"
  then show ?thesis using all by (cases k) auto
qed

lemma cleanSharedValue_obj:
  assumes "cleanSharedValue k v = Some w" "\<not> (k = Ack \<and> is_str v)"
  shows "\<not> containsSecretField 0 v \<and> (\<exists>out. clean_fields v (contract_required k) (contract_fields k) = Some out
    \<and> w = JObj out \<and> contract_required k \<in> fst ` set out)"
  using assms by (auto simp: cleanSharedValue_def split: if_splits option.splits)

lemma cleanSharedValue_ok:
  assumes "cleanSharedValue k v = Some w"
  shows "value_ok k w"
proof (cases "k = Ack \<and> is_str v")
  case True
  then show ?thesis using assms by (auto simp: cleanSharedValue_def boundedString_Some)
next
  case False
  obtain out where out: "clean_fields v (contract_required k) (contract_fields k) = Some out"
    and w: "w = JObj out" and req: "contract_required k \<in> fst ` set out"
    using cleanSharedValue_obj [OF assms False] by blast
  have keys: "fst ` set out \<subseteq> fst ` set (contract_fields k)" using clean_fields_keys [OF out] by simp
  have str: "\<exists>s. snd p = JStr s" if "p \<in> set out" for p using clean_fields_strings [OF out that] by blast
  have sec: "\<not> containsSecretField 0 (JObj out)"
  proof -
    have "\<not> rx_test SECRET_FIELD (fst p) \<and> \<not> containsSecretField (Suc 0) (snd p)" if "p \<in> set out" for p
      using str [OF that] contract_no_secret [of "fst p" k] keys that by auto
    then show ?thesis by (auto simp: list_ex_iff)
  qed
  have again: "clean_fields (JObj out) (contract_required k) (contract_fields k) = Some out"
    using clean_fields_again [OF out contract_distinct, of "[]"] by simp
  have inb: "\<not> list_ex (\<lambda>f. f \<notin> fst ` set (contract_fields k)) (own_keys (JObj out))"
    using keys by (auto simp: list_ex_iff)
  have "json_safe (JObj out)"
    using clean_fields_distinct [OF out contract_distinct] str by (fastforce simp: list_all_iff)
  then show ?thesis using sec again inb req by (simp add: w cleanSharedValue_def)
qed

lemma clean_sets_ok:
  "clean_sets k src ks = Some out \<Longrightarrow> map fst out = ks \<and>
     list_all (\<lambda>p. key_ok (fst p) \<and> value_ok k (snd p) \<and> length (stringify (snd p)) \<le> OUTBOX_MAX_VALUE_BYTES) out"
proof (induction k src ks arbitrary: out rule: clean_sets.induct)
  case (2 k src x ks)
  then obtain itm r where "key_ok x" "cleanSharedValue k (jget src x) = Some itm"
    "length (stringify itm) \<le> OUTBOX_MAX_VALUE_BYTES" "clean_sets k src ks = Some r" "out = (x, itm) # r"
    by (auto split: if_splits option.splits)
  then show ?case using "2.IH" cleanSharedValue_ok by simp
qed simp

lemma clean_dels_Some: "clean_dels vs = Some ks \<longleftrightarrow> vs = map JStr ks \<and> list_all key_ok ks"
proof (induction vs arbitrary: ks)
  case (Cons v vs)
  then show ?case by (cases v; cases ks) (auto split: if_splits)
qed auto

text \<open>An object as the language has it: no key twice.\<close>

definition delta_obj :: "jsval \<Rightarrow> bool" where
  "delta_obj v \<longleftrightarrow> distinct (own_keys (jget v ''set''))"

lemma cleanDelta_ok:
  assumes "cleanDelta v k = Some d" "delta_obj v"
  shows "delta_ok k d"
proof -
  define src where "src = (if nullish (jget v ''set'') then JObj [] else jget v ''set'')"
  have dist: "distinct (own_keys src)" using assms(2) by (simp add: src_def delta_obj_def)
  obtain st dl where st: "clean_sets k src (own_keys src) = Some st"
    and dl: "clean_dels (arr_of (if nullish (jget v ''del'') then JArr [] else jget v ''del'')) = Some dl"
    and len: "length (own_keys src) + length (arr_of (if nullish (jget v ''del'') then JArr [] else jget v ''del''))
        \<le> OUTBOX_MAX_OPS_PER_DELTA"
    and d: "d = \<lparr>dl_set = st, dl_del = dl\<rparr>"
    using assms(1) unfolding cleanDelta_def Let_def src_def [symmetric]
    by (auto split: if_splits option.splits)
  have "length st = length (own_keys src)" using clean_sets_ok [OF st] by (metis length_map)
  then show ?thesis
    using clean_sets_ok [OF st] dl len dist by (simp add: d delta_ok_def clean_dels_Some)
qed

lemma clean_sets_again:
  "list_all (\<lambda>p. key_ok (fst p) \<and> value_ok k (snd p) \<and> length (stringify (snd p)) \<le> OUTBOX_MAX_VALUE_BYTES) out
   \<Longrightarrow> (\<forall>p \<in> set out. jget src (fst p) = snd p) \<Longrightarrow> clean_sets k src (map fst out) = Some out"
  by (induction out) auto

lemma cleanDelta_again: "delta_ok k d \<Longrightarrow> cleanDelta (delta_value d) k = Some d"
proof -
  assume d: "delta_ok k d"
  have "clean_sets k (JObj (dl_set d)) (map fst (dl_set d)) = Some (dl_set d)"
    using d by (intro clean_sets_again) (auto simp: delta_ok_def)
  moreover have "clean_dels (map JStr (dl_del d)) = Some (dl_del d)"
    using d by (simp add: clean_dels_Some delta_ok_def)
  ultimately show ?thesis using d by (simp add: cleanDelta_def delta_value_def delta_ok_def nullish_def)
qed

lemma delta_value_safe: "delta_ok k d \<Longrightarrow> json_safe (delta_value d)"
  by (auto simp: delta_ok_def delta_value_def list_all_iff)

lemma delta_value_obj: "delta_ok k d \<Longrightarrow> delta_obj (delta_value d)"
  by (simp add: delta_ok_def delta_value_def delta_obj_def)

lemma clean_list_again: "list_all (delta_ok k) ds \<Longrightarrow> clean_list_of k (map delta_value ds) = Some ds"
  by (induction ds) (simp_all add: cleanDelta_again)

lemma queues_get: "jget (queues_value q) (kind_key k) = JArr (map delta_value (q k))"
  by (cases k) (simp_all add: queues_value_def OUTBOX_KINDS_def)

lemma clean_queue_again: "queues_ok q \<Longrightarrow> clean_queue (queues_value q) k = Some (q k)"
  by (auto simp: clean_queue_def queues_get nullish_def queues_ok_def clean_list_again not_less)

lemma cleanQueues_again: "queues_ok q \<Longrightarrow> cleanQueues (queues_value q) = Some q"
proof -
  assume q: "queues_ok q"
  have "(\<lambda>k. case k of Ack \<Rightarrow> q Ack | Maintenance \<Rightarrow> q Maintenance | Notes \<Rightarrow> q Notes) = q"
    by (rule ext) (simp split: shared_kind.splits)
  then show ?thesis
    by (simp add: cleanQueues_def clean_queue_again [OF q] list_ex_iff) (simp add: queues_value_def)
qed

lemma queues_value_safe: "queues_ok q \<Longrightarrow> json_safe (queues_value q)"
  by (auto simp: queues_value_def OUTBOX_KINDS_def queues_ok_def list_all_iff intro: delta_value_safe)

lemma no_queues_ok: "queues_ok no_queues"
  by (simp add: queues_ok_def no_queues_def)

lemma jget_keys_ok: "keys_ok v \<Longrightarrow> keys_ok (jget v k)"
proof (cases v)
  case (JObj ps)
  assume "keys_ok v"
  then show ?thesis using JObj map_of_SomeD [of ps k] by (fastforce simp: list_all_iff split: option.splits)
qed auto

lemma keys_ok_delta_obj: "keys_ok v \<Longrightarrow> delta_obj v"
  using jget_keys_ok [of v "''set''"] by (cases "jget v ''set''") (auto simp: delta_obj_def)

lemma clean_list_ok:
  "clean_list_of k vs = Some ds \<Longrightarrow> list_all keys_ok vs \<Longrightarrow> list_all (delta_ok k) ds \<and> length ds = length vs"
proof (induction vs arbitrary: ds)
  case (Cons v vs)
  then obtain d r where d: "cleanDelta v k = Some d" and r: "clean_list_of k vs = Some r" and ds: "ds = d # r"
    by (auto split: option.splits)
  have "delta_ok k d" using cleanDelta_ok [OF d] keys_ok_delta_obj Cons.prems(2) by simp
  then show ?case using Cons.IH [OF r] Cons.prems(2) by (simp add: ds)
qed simp

lemma clean_queue_ok:
  assumes "clean_queue v k = Some ds" "keys_ok v"
  shows "length ds \<le> OUTBOX_MAX_ITEMS_PER_KIND \<and> list_all (delta_ok k) ds"
proof -
  define src where "src = (if nullish (jget v (kind_key k)) then JArr [] else jget v (kind_key k))"
  have a: "is_arr src" "length (arr_of src) \<le> OUTBOX_MAX_ITEMS_PER_KIND" "clean_list_of k (arr_of src) = Some ds"
    using assms(1) unfolding clean_queue_def src_def [symmetric] Let_def by (simp_all split: if_splits)
  have "keys_ok src" using assms(2) jget_keys_ok by (simp add: src_def)
  then have "list_all keys_ok (arr_of src)" using a(1) by (cases src) simp_all
  then show ?thesis using clean_list_ok [OF a(3)] a(2) by simp
qed

lemma cleanQueues_ok: "cleanQueues v = Some q \<Longrightarrow> keys_ok v \<Longrightarrow> queues_ok q"
proof -
  assume c: "cleanQueues v = Some q" and v: "keys_ok v"
  have "clean_queue v k = Some (q k)" for k
    using c by (cases k) (auto simp: cleanQueues_def split: if_splits option.splits)
  then show ?thesis using clean_queue_ok [OF _ v] by (simp add: queues_ok_def)
qed

section \<open>The outbox as an interface\<close>

text \<open>
  What a durable queue store promises to the coordinator: only well-formed queues are loaded, a
  successful save of well-formed queues makes them what the next load returns.
\<close>

locale durable_outbox =
  fixes load :: "'d \<Rightarrow> 'e + 'q" and save :: "'q \<Rightarrow> 'd \<Rightarrow> 'd option" and ok :: "'q \<Rightarrow> bool"
  assumes load_ok: "load d = Inr q \<Longrightarrow> ok q"
    and load_save: "ok q \<Longrightarrow> save q d = Some d' \<Longrightarrow> load d' = Inr q"
begin

text \<open>Attempted saves: a failure leaves the store as it was.\<close>

definition attempts :: "'q list \<Rightarrow> 'd \<Rightarrow> 'd" where
  "attempts qs d = foldl (\<lambda>d q. case save q d of None \<Rightarrow> d | Some d' \<Rightarrow> d') d qs"

lemma attempts_last:
  "\<forall>q \<in> set qs. ok q \<Longrightarrow> load d = Inr q0 \<Longrightarrow> \<exists>q \<in> insert q0 (set qs). load (attempts qs d) = Inr q"
proof (induction qs arbitrary: d q0)
  case (Cons q qs)
  show ?case
  proof (cases "save q d")
    case None
    then have "attempts (q # qs) d = attempts qs d" by (simp add: attempts_def)
    then show ?thesis using Cons by auto
  next
    case (Some d')
    then have "load d' = Inr q" "attempts (q # qs) d = attempts qs d'"
      using load_save Cons.prems(1) by (auto simp: attempts_def)
    then show ?thesis using Cons.IH [of d' q] Cons.prems(1) by auto
  qed
qed (simp add: attempts_def)

end

lemma outbox_load_ok: "outbox_load ls = Inr q \<Longrightarrow> queues_ok q"
  by (auto simp: outbox_load_def no_queues_ok split: option.splits if_splits
      intro!: cleanQueues_ok [OF _ jget_keys_ok [OF json_parse_keys]])

lemma setItem_reads: "setItem k v ls = Some ls' \<Longrightarrow> getItem ls' k = Some (Some v)"
  by (auto simp: setItem_def getItem_def split: if_splits)

lemma removeItem_reads: "removeItem k ls = Some ls' \<Longrightarrow> getItem ls' k = Some None"
  by (auto simp: removeItem_def getItem_def split: if_splits)

lemma outbox_load_save:
  assumes q: "queues_ok q" and s: "outbox_save q ls = Some ls'"
  shows "outbox_load ls' = Inr q"
proof (cases "list_all (\<lambda>k. q k = []) OUTBOX_KINDS")
  case True
  have "q k = []" for k using True by (cases k) (simp_all add: OUTBOX_KINDS_def)
  then have "q = no_queues" by (simp add: no_queues_def fun_eq_iff)
  moreover have "getItem ls' SHARED_OUTBOX_KEY = Some None"
    using s True by (intro removeItem_reads) (simp add: outbox_save_def cleanQueues_again [OF q])
  ultimately show ?thesis by (simp add: outbox_load_def)
next
  case False
  then have st: "setItem SHARED_OUTBOX_KEY (stringify (outbox_doc q)) ls = Some ls'"
    and len: "\<not> OUTBOX_MAX_BYTES < length (stringify (outbox_doc q))"
    using s by (simp_all add: outbox_save_def cleanQueues_again [OF q] Let_def split: if_splits)
  have "json_safe (outbox_doc q)"
    using queues_value_safe [OF q] by (auto simp: outbox_doc_def intro: exI [of _ 1])
  then have "json_parse (stringify (outbox_doc q)) = Some (outbox_doc q)" by (rule json_roundtrip)
  then show ?thesis
    using setItem_reads [OF st] len
    by (simp add: outbox_load_def outbox_doc_def cleanQueues_again [OF q]) (simp add: queues_value_def)
qed

interpretation outbox: durable_outbox outbox_load outbox_save queues_ok
  by unfold_locales (fact outbox_load_ok, fact outbox_load_save)

section \<open>Properties\<close>

text \<open>
  Nothing outside the contract leaves the browser: a value the cleaner accepts is an
  acknowledgement time or an object whose own fields are all fields of the kind's contract, each a
  string within its length bound that holds no webhook address; the required field is there, no field name
  looks like a secret, and the cleaner accepts its own output unchanged.
\<close>

theorem cleanSharedValue_contract:
  assumes "cleanSharedValue kind v = Some w"
  shows "cleanSharedValue kind w = Some w
    \<and> ((kind = Ack \<and> is_str w)
       \<or> (\<not> containsSecretField 0 w \<and> contract_required kind \<in> set (own_keys w)
          \<and> (\<exists>ps. w = JObj ps \<and> (\<forall>(f, x) \<in> set ps. \<exists>s mx. x = JStr s \<and> (f, mx) \<in> set (contract_fields kind)
                \<and> length s \<le> mx \<and> \<not> rx_test SECRET_URL s))))"
proof -
  have ok: "cleanSharedValue kind w = Some w" using cleanSharedValue_ok [OF assms] by simp
  show ?thesis
  proof (cases "kind = Ack \<and> is_str w")
    case False
    then obtain out where out: "clean_fields w (contract_required kind) (contract_fields kind) = Some out"
      and w: "w = JObj out" and req: "contract_required kind \<in> fst ` set out"
      using conjunct2 [OF cleanSharedValue_obj [OF ok False]] by (elim exE conjE) (rule that)
    have sec: "\<not> containsSecretField 0 w" by (rule conjunct1 [OF cleanSharedValue_obj [OF ok False]])
    have "\<forall>(f, x) \<in> set out. \<exists>s mx. x = JStr s \<and> (f, mx) \<in> set (contract_fields kind)
        \<and> length s \<le> mx \<and> \<not> rx_test SECRET_URL s"
    proof (intro ballI case_prodI2)
      fix p f x assume p: "p \<in> set out" "p = (f, x)"
      from clean_fields_strings [OF out p(1)]
      show "\<exists>s mx. x = JStr s \<and> (f, mx) \<in> set (contract_fields kind) \<and> length s \<le> mx \<and> \<not> rx_test SECRET_URL s"
        by (simp only: p(2) fst_conv snd_conv)
    qed
    moreover have "set (own_keys w) = fst ` set out" by (simp add: w(1))
    ultimately show ?thesis using ok w req sec by (intro conjI disjI2 exI [of _ out]) (simp_all only: simp_thms)
  qed (use ok in blast)
qed

theorem cleanSharedValue_contract_witness:
  "cleanSharedValue Ack (JObj [(''ts'', JStr ''2026-07-16T12:00:00Z'')]) = Some (JObj [(''ts'', JStr ''2026-07-16T12:00:00Z'')])
   \<and> \<not> containsSecretField 0 (JObj [(''ts'', JStr ''2026-07-16T12:00:00Z'')])"
proof -
  have "cleanSharedValue Ack (JObj [(''ts'', JStr ''2026-07-16T12:00:00Z'')])
      = Some (JObj [(''ts'', JStr ''2026-07-16T12:00:00Z'')])" by code_simp
  then show ?thesis using cleanSharedValue_contract by fastforce
qed

text \<open>
  C23. Pending changes survive a reload: queues that the cleaner accepts and \<open>save\<close> stores are
  exactly what the next \<open>load\<close> returns, in order; whatever a storage holds, a successful \<open>load\<close>
  only returns queues the cleaner accepts; and after any series of save attempts, some failing,
  the storage loads as the queues of one of them or as before, never as a mixture.
\<close>

theorem outbox_survives_reload:
  assumes "queues_ok q" and "outbox_save q ls = Some ls'"
    and "\<forall>p \<in> set qs. queues_ok p"
  shows "outbox_load ls' = Inr q
    \<and> (outbox_load any = Inr r \<longrightarrow> queues_ok r)
    \<and> (\<exists>p \<in> insert q (set qs). outbox_load
        (foldl (\<lambda>d p. case outbox_save p d of None \<Rightarrow> d | Some d' \<Rightarrow> d') ls' qs) = Inr p)"
  using outbox.load_save [OF assms(1,2)] outbox.attempts_last [OF assms(3), of ls' q] outbox_load_ok [of any r]
  by (simp add: outbox.attempts_def)

definition wit_queues :: queues where
  "wit_queues = (\<lambda>k. if k = Ack then [\<lparr>dl_set = [(''k1'', JStr ''2026-07-16'')], dl_del = [''k0'']\<rparr>] else [])"

theorem outbox_survives_reload_witness:
  "\<exists>ls'. outbox_save wit_queues wit_storage = Some ls' \<and> outbox_load ls' = Inr wit_queues"
proof -
  have "cleanSharedValue Ack (JStr ''2026-07-16'') = Some (JStr ''2026-07-16'')" by code_simp
  then have ok: "queues_ok wit_queues"
    by (simp add: queues_ok_def wit_queues_def delta_ok_def key_ok_def OUTBOX_MAX_ITEMS_PER_KIND_def
        OUTBOX_MAX_OPS_PER_DELTA_def OUTBOX_MAX_KEY_LENGTH_def OUTBOX_MAX_VALUE_BYTES_def) code_simp
  have "length (stringify (outbox_doc wit_queues)) \<le> 200" by code_simp
  then obtain ls' where s: "outbox_save wit_queues wit_storage = Some ls'"
    unfolding outbox_save_def cleanQueues_again [OF ok]
    by (simp add: OUTBOX_KINDS_def wit_queues_def [of] OUTBOX_MAX_BYTES_def setItem_def wit_storage_def Let_def)
  then show ?thesis using outbox_survives_reload [OF ok s, of "[]"] by auto
qed

end
