(* ===== verification/Coordinator.thy ===== *)
theory Coordinator
  imports Outbox
begin

text \<open>
  The second half of \<open>src/web/js/util/shared_sync.js\<close>: \<open>createSharedSyncCoordinator\<close> with the durable
  outbox, as a transition system. A slot is the per-kind object of the source. Between two awaits
  the source runs to completion, so each event below is one such run: a call of \<open>enqueue\<close>,
  \<open>drain\<close> or \<open>refreshKind\<close>, the settlement of a push or a pull, or a change of what the
  browser storage accepts. The effects are the calls the source makes.

  \<open>sl_drain\<close> says that \<open>drainPromise\<close> is set; \<open>sl_read\<close> is the version the outstanding pull has captured;
  \<open>sl_first\<close> and \<open>sl_second\<close> count the drains that wait for their first and their second reconciliation.

  The main facts: deltas are delivered in order, none is lost and none is sent before it is
  durable; a pull is applied only when no local change is pending or younger than the pull; and a
  queue whose drain finds the storage refusing stays stuck for the rest of the session.
\<close>

datatype blocked = Free | BSave | BLoad

record slot =
  sl_queue :: "delta list"
  sl_inFlight :: bool
  sl_drain :: bool
  sl_read :: "nat option"
  sl_version :: nat
  sl_blocked :: blocked
  sl_first :: nat
  sl_second :: nat

record coord =
  co_slots :: "shared_kind \<Rightarrow> slot"
  co_disk :: storage

datatype effect =
    Push shared_kind delta
  | Pull shared_kind
  | Apply shared_kind jsval
  | WriteStatus shared_kind bool bool
  | ReadStatus shared_kind bool
  | Accepted shared_kind delta
  | Delivered shared_kind delta

text \<open>The last two are observations of the model: an enqueued delta entered the queue, the server took the head.\<close>

datatype event =
    Enqueue shared_kind jsval
  | DrainCall shared_kind
  | RefreshCall shared_kind
  | PushDone shared_kind bool
  | ReadDone shared_kind "jsval option" bool
  | Storage bool "string \<Rightarrow> string \<Rightarrow> bool"

definition fresh_slot :: "blocked \<Rightarrow> delta list \<Rightarrow> slot" where
  "fresh_slot b q = \<lparr>sl_queue = q, sl_inFlight = False, sl_drain = False, sl_read = None, sl_version = 0,
     sl_blocked = b, sl_first = 0, sl_second = 0\<rparr>"

definition createCoordinator :: "storage \<Rightarrow> coord" where
  "createCoordinator ls = (case outbox_load ls of
     Inl e \<Rightarrow> \<lparr>co_slots = (\<lambda>k. fresh_slot BLoad []), co_disk = ls\<rparr>
   | Inr q \<Rightarrow> \<lparr>co_slots = (\<lambda>k. fresh_slot Free (q k)), co_disk = ls\<rparr>)"

definition upd :: "shared_kind \<Rightarrow> (slot \<Rightarrow> slot) \<Rightarrow> coord \<Rightarrow> coord" where
  "upd k f c = c\<lparr>co_slots := (co_slots c)(k := f (co_slots c k))\<rparr>"

definition pending :: "slot \<Rightarrow> bool" where
  "pending s \<longleftrightarrow> sl_blocked s \<noteq> Free \<or> sl_inFlight s \<or> sl_queue s \<noteq> []"

definition queueSnapshot :: "coord \<Rightarrow> queues" where
  "queueSnapshot c = (\<lambda>k. sl_queue (co_slots c k))"

definition persistQueues :: "coord \<Rightarrow> coord option" where
  "persistQueues c = map_option (\<lambda>d. c\<lparr>co_disk := d\<rparr>) (outbox_save (queueSnapshot c) (co_disk c))"

definition writeStatus :: "shared_kind \<Rightarrow> bool \<Rightarrow> coord \<Rightarrow> effect" where
  "writeStatus k ok c = WriteStatus k ok (pending (co_slots c k))"

section \<open>Operations\<close>

text \<open>\<open>refreshKind\<close> up to its first await.\<close>

definition refreshKind :: "shared_kind \<Rightarrow> coord \<Rightarrow> coord \<times> effect list" where
  "refreshKind k c =
     (let s = co_slots c k in
      if pending s \<or> sl_read s \<noteq> None then (c, [])
      else (upd k (\<lambda>s. s\<lparr>sl_read := Some (sl_version s)\<rparr>) c, [Pull k]))"

text \<open>The entry of the push loop: mark the slot and send the head.\<close>

definition startPush :: "shared_kind \<Rightarrow> coord \<Rightarrow> coord \<times> effect list" where
  "startPush k c = (upd k (\<lambda>s. s\<lparr>sl_inFlight := True, sl_drain := True\<rparr>) c, [Push k (hd (sl_queue (co_slots c k)))])"

text \<open>
  \<open>drain\<close> with the synchronous part of \<open>runDrain\<close>. The two early returns of \<open>runDrain\<close> leave the
  slot with the settled promise that \<open>drain\<close> stores right after the call.
\<close>

definition drain :: "shared_kind \<Rightarrow> coord \<Rightarrow> coord \<times> effect list" where
  "drain k c =
     (let s = co_slots c k in
      if sl_drain s \<or> sl_queue s = [] then (c, [])
      else if sl_blocked s = BLoad then (upd k (\<lambda>s. s\<lparr>sl_drain := True\<rparr>) c, [writeStatus k False c])
      else if sl_blocked s = BSave then
        (case persistQueues c of
           None \<Rightarrow> (upd k (\<lambda>s. s\<lparr>sl_drain := True\<rparr>) c, [writeStatus k False c])
         | Some c' \<Rightarrow> startPush k (upd k (\<lambda>s. s\<lparr>sl_blocked := Free\<rparr>) c'))
      else startPush k c)"

definition enqueue :: "shared_kind \<Rightarrow> jsval \<Rightarrow> coord \<Rightarrow> coord \<times> effect list" where
  "enqueue k v c =
     (let s = co_slots c k in
      if sl_blocked s = BLoad then (c, [writeStatus k False c])
      else (case cleanDelta (jor v (delta_value \<lparr>dl_set = [], dl_del = []\<rparr>)) k of
          None \<Rightarrow> (let c' = upd k (\<lambda>s. s\<lparr>sl_blocked := BSave\<rparr>) c in (c', [writeStatus k False c']))
        | Some d \<Rightarrow>
            if OUTBOX_MAX_ITEMS_PER_KIND \<le> length (sl_queue s)
            then (let c' = upd k (\<lambda>s. s\<lparr>sl_blocked := BSave\<rparr>) c in (c', [writeStatus k False c']))
            else (let c1 = upd k (\<lambda>s. s\<lparr>sl_queue := sl_queue s @ [d], sl_version := Suc (sl_version s)\<rparr>) c in
              case persistQueues c1 of
                None \<Rightarrow> (let c2 = upd k (\<lambda>s. s\<lparr>sl_blocked := BSave\<rparr>) c1 in (c2, [Accepted k d, writeStatus k False c2]))
              | Some c2 \<Rightarrow> (case drain k c2 of (c3, es) \<Rightarrow> (c3, Accepted k d # es)))))"

text \<open>
  The continuation of the push loop after \<open>await def.push(...)\<close>. After the loop the drain waits for
  one reconciliation, unless the slot is still blocked, in which case the refresh returns at once.
\<close>

definition endLoop :: "slot \<Rightarrow> slot" where
  "endLoop s = s\<lparr>sl_inFlight := False, sl_drain := False\<rparr>"

definition pushDone :: "shared_kind \<Rightarrow> bool \<Rightarrow> coord \<Rightarrow> coord \<times> effect list" where
  "pushDone k pushed c =
     (let s = co_slots c k in
      if \<not> sl_inFlight s then (c, [])
      else if \<not> pushed then (upd k endLoop c, [writeStatus k False c])
      else (let d = hd (sl_queue s); c1 = upd k (\<lambda>s. s\<lparr>sl_queue := tl (sl_queue s)\<rparr>) c in
        case persistQueues c1 of
          None \<Rightarrow> (let c2 = upd k (\<lambda>s. s\<lparr>sl_blocked := BSave\<rparr>) c
                   in (upd k endLoop c2, [Delivered k d, writeStatus k False c2]))
        | Some c2 \<Rightarrow>
            if sl_queue (co_slots c2 k) \<noteq> [] then (c2, [Delivered k d, Push k (hd (sl_queue (co_slots c2 k)))])
            else (let c3 = upd k endLoop c2 in
              if pending (co_slots c3 k) then (c3, [Delivered k d, writeStatus k True c3])
              else (case refreshKind k (upd k (\<lambda>s. s\<lparr>sl_first := Suc (sl_first s)\<rparr>) c3) of (c4, es) \<Rightarrow>
                (c4, [Delivered k d, writeStatus k True c3] @ es)))))"

text \<open>
  The continuation of a pull, and of the drains that wait for it: those on their first
  reconciliation try once more when it was skipped and nothing is pending, the others are finished;
  a finished drain restarts the queue if something has been queued meanwhile.
\<close>

definition readEffects :: "shared_kind \<Rightarrow> jsval option \<Rightarrow> bool \<Rightarrow> effect list" where
  "readEffects k remote throws =
     (case remote of Some r \<Rightarrow> if is_map r then Apply k r # [ReadStatus k (\<not> throws)] else [ReadStatus k False]
      | None \<Rightarrow> [ReadStatus k False])"

definition restart :: "shared_kind \<Rightarrow> coord \<Rightarrow> coord \<times> effect list" where
  "restart k c =
     (let s = co_slots c k in if sl_queue s \<noteq> [] \<and> \<not> sl_inFlight s \<and> \<not> sl_drain s then drain k c else (c, []))"

definition readDone :: "shared_kind \<Rightarrow> jsval option \<Rightarrow> bool \<Rightarrow> coord \<Rightarrow> coord \<times> effect list" where
  "readDone k remote throws c =
     (let s = co_slots c k in
      case sl_read s of
        None \<Rightarrow> (c, [])
      | Some v \<Rightarrow>
          (let skipped = (pending s \<or> sl_version s \<noteq> v);
               es = (if skipped then [] else readEffects k remote throws);
               c1 = upd k (\<lambda>s. s\<lparr>sl_read := None\<rparr>) c in
           if skipped \<and> \<not> pending s \<and> 0 < sl_first s then
             (case refreshKind k (upd k (\<lambda>s. s\<lparr>sl_second := sl_first s, sl_first := 0\<rparr>) c1) of (c2, es') \<Rightarrow> (c2, es @ es'))
           else if 0 < sl_first s + sl_second s then
             (case restart k (upd k (\<lambda>s. s\<lparr>sl_first := 0, sl_second := 0\<rparr>) c1) of (c2, es') \<Rightarrow> (c2, es @ es'))
           else (c1, es)))"

fun step :: "event \<Rightarrow> coord \<Rightarrow> coord \<times> effect list" where
  "step (Enqueue k v) c = enqueue k v c"
| "step (DrainCall k) c = drain k c"
| "step (RefreshCall k) c = refreshKind k c"
| "step (PushDone k ok) c = pushDone k ok c"
| "step (ReadDone k r t) c = readDone k r t c"
| "step (Storage op acc) c = (c\<lparr>co_disk := (co_disk c)\<lparr>ls_open := op, ls_accepts := acc\<rparr>\<rparr>, [])"

fun run :: "event list \<Rightarrow> coord \<Rightarrow> coord \<times> effect list" where
  "run [] c = (c, [])"
| "run (e # es) c = (case step e c of (c1, f1) \<Rightarrow> case run es c1 of (c2, f2) \<Rightarrow> (c2, f1 @ f2))"

section \<open>Facts about one step\<close>

lemma upd_slots [simp]: "co_slots (upd k f c) k' = (if k' = k then f (co_slots c k) else co_slots c k')"
  by (simp add: upd_def)

lemma upd_disk [simp]: "co_disk (upd k f c) = co_disk c"
  by (simp add: upd_def)

lemma persist_Some:
  "persistQueues c = Some c' \<longleftrightarrow> (\<exists>d. outbox_save (queueSnapshot c) (co_disk c) = Some d \<and> c' = c\<lparr>co_disk := d\<rparr>)"
  by (auto simp: persistQueues_def)

lemma persist_slots: "persistQueues c = Some c' \<Longrightarrow> co_slots c' = co_slots c"
  by (auto simp: persist_Some)

definition accepted :: "shared_kind \<Rightarrow> effect list \<Rightarrow> delta list" where
  "accepted k es = List.map_filter (\<lambda>e. case e of Accepted k' d \<Rightarrow> if k' = k then Some d else None | _ \<Rightarrow> None) es"

definition delivered :: "shared_kind \<Rightarrow> effect list \<Rightarrow> delta list" where
  "delivered k es = List.map_filter (\<lambda>e. case e of Delivered k' d \<Rightarrow> if k' = k then Some d else None | _ \<Rightarrow> None) es"

lemma accepted_simps [simp]:
  "accepted k [] = []" "accepted k (Accepted k' d # es) = (if k' = k then d # accepted k es else accepted k es)"
  "accepted k (Push k' d # es) = accepted k es" "accepted k (Pull k' # es) = accepted k es"
  "accepted k (Apply k' r # es) = accepted k es" "accepted k (WriteStatus k' b b' # es) = accepted k es"
  "accepted k (ReadStatus k' b # es) = accepted k es" "accepted k (Delivered k' d # es) = accepted k es"
  by (simp_all add: accepted_def List.map_filter_simps)

lemma delivered_simps [simp]:
  "delivered k [] = []" "delivered k (Delivered k' d # es) = (if k' = k then d # delivered k es else delivered k es)"
  "delivered k (Push k' d # es) = delivered k es" "delivered k (Pull k' # es) = delivered k es"
  "delivered k (Apply k' r # es) = delivered k es" "delivered k (WriteStatus k' b b' # es) = delivered k es"
  "delivered k (ReadStatus k' b # es) = delivered k es" "delivered k (Accepted k' d # es) = delivered k es"
  by (simp_all add: delivered_def List.map_filter_simps)

lemma trace_append [simp]:
  "accepted k (es @ fs) = accepted k es @ accepted k fs" "delivered k (es @ fs) = delivered k es @ delivered k fs"
  by (simp_all add: accepted_def delivered_def List.map_filter_def)

lemma writeStatus_trace [simp]:
  "accepted k (writeStatus k' b c # es) = accepted k es" "delivered k (writeStatus k' b c # es) = delivered k es"
  by (simp_all add: writeStatus_def)

text \<open>Steps that only read, restart or start a queue change no queue.\<close>

definition quiet :: "coord \<Rightarrow> coord \<times> effect list \<Rightarrow> bool" where
  "quiet c r \<longleftrightarrow> (\<forall>k. sl_queue (co_slots (fst r) k) = sl_queue (co_slots c k) \<and> sl_version (co_slots (fst r) k) = sl_version (co_slots c k)
     \<and> accepted k (snd r) = [] \<and> delivered k (snd r) = [])"

lemma quiet_refresh: "quiet c (refreshKind k c)"
  by (simp add: quiet_def refreshKind_def Let_def)

lemma quiet_startPush: "quiet c (startPush k c)"
  by (simp add: quiet_def startPush_def)

lemma quiet_drain: "quiet c (drain k c)"
proof -
  have "quiet c (startPush k (upd k (\<lambda>s. s\<lparr>sl_blocked := Free\<rparr>) c'))" if "persistQueues c = Some c'" for c'
    using quiet_startPush [of "upd k (\<lambda>s. s\<lparr>sl_blocked := Free\<rparr>) c'" k] persist_slots [OF that] by (simp add: quiet_def)
  then show ?thesis
    using quiet_startPush [of c k] by (auto simp: drain_def Let_def quiet_def split: option.splits)
qed

lemma quiet_restart: "quiet c (restart k c)"
  using quiet_drain [of c k] by (simp add: restart_def Let_def quiet_def)

lemma quiet_readDone: "quiet c (readDone k r t c)"
proof (cases "sl_read (co_slots c k)")
  case None
  then show ?thesis by (simp add: readDone_def quiet_def)
next
  case (Some v)
  have e: "accepted k' (readEffects k r t) = []" "delivered k' (readEffects k r t) = []" for k'
    by (simp_all add: readEffects_def split: option.splits)
  define c1 where "c1 = upd k (\<lambda>s. s\<lparr>sl_read := None\<rparr>) c"
  define ca where "ca = upd k (\<lambda>s. s\<lparr>sl_second := sl_first s, sl_first := 0\<rparr>) c1"
  define cb where "cb = upd k (\<lambda>s. s\<lparr>sl_first := 0, sl_second := 0\<rparr>) c1"
  have q: "quiet c (refreshKind k ca)" "quiet c (restart k cb)" "quiet c (c1, [])"
    using quiet_refresh [of ca k] quiet_restart [of cb k] by (simp_all add: quiet_def ca_def cb_def c1_def)
  show ?thesis
    using q e unfolding readDone_def Let_def Some option.case c1_def [symmetric] ca_def [symmetric] cb_def [symmetric]
    by (auto simp: quiet_def split: prod.splits)
qed

text \<open>What one step does to a queue: nothing, append one accepted delta, or let the server take the head.\<close>

definition queue_step :: "shared_kind \<Rightarrow> coord \<Rightarrow> coord \<times> effect list \<Rightarrow> bool" where
  "queue_step k c r \<longleftrightarrow>
     (let s = co_slots c k; s' = co_slots (fst r) k in
      (sl_queue s' = sl_queue s \<and> sl_version s' = sl_version s \<and> accepted k (snd r) = [] \<and> delivered k (snd r) = [])
      \<or> (\<exists>d. sl_queue s' = sl_queue s @ [d] \<and> sl_version s' = Suc (sl_version s)
            \<and> accepted k (snd r) = [d] \<and> delivered k (snd r) = [])
      \<or> (sl_queue s \<noteq> [] \<and> sl_version s' = sl_version s \<and> accepted k (snd r) = []
            \<and> delivered k (snd r) = [hd (sl_queue s)] \<and> (sl_queue s' = sl_queue s \<or> sl_queue s' = tl (sl_queue s))))"

lemma quiet_queue_step: "quiet c r \<Longrightarrow> queue_step k c r"
  by (simp add: quiet_def queue_step_def)

lemma enqueue_queue_step: "queue_step k' c (enqueue k v c)"
proof (cases "sl_blocked (co_slots c k) = BLoad")
  case True
  then show ?thesis by (simp add: enqueue_def queue_step_def)
next
  case nl: False
  show ?thesis
  proof (cases "cleanDelta (jor v (delta_value \<lparr>dl_set = [], dl_del = []\<rparr>)) k")
    case None
    then show ?thesis using nl by (simp add: enqueue_def queue_step_def Let_def)
  next
    case (Some d)
    show ?thesis
    proof (cases "OUTBOX_MAX_ITEMS_PER_KIND \<le> length (sl_queue (co_slots c k))")
      case True
      then show ?thesis using nl Some by (simp add: enqueue_def queue_step_def Let_def)
    next
      case False
      define c1 where "c1 = upd k (\<lambda>s. s\<lparr>sl_queue := sl_queue s @ [d], sl_version := Suc (sl_version s)\<rparr>) c"
      have e: "enqueue k v c = (case persistQueues c1 of
             None \<Rightarrow> (let c2 = upd k (\<lambda>s. s\<lparr>sl_blocked := BSave\<rparr>) c1 in (c2, [Accepted k d, writeStatus k False c2]))
           | Some c2 \<Rightarrow> (case drain k c2 of (c3, es) \<Rightarrow> (c3, Accepted k d # es)))"
        using nl Some False unfolding c1_def by (simp add: enqueue_def Let_def)
      show ?thesis
      proof (cases "persistQueues c1")
        case None
        then show ?thesis by (simp add: e queue_step_def Let_def) (simp add: c1_def)
      next
        case (Some c2)
        then show ?thesis
          using quiet_drain [of c2 k] persist_slots [OF Some]
          by (auto simp add: e queue_step_def quiet_def c1_def Let_def split: prod.splits)
      qed
    qed
  qed
qed

lemma pushDone_queue_step:
  assumes "sl_inFlight (co_slots c k) \<longrightarrow> sl_queue (co_slots c k) \<noteq> []"
  shows "queue_step k' c (pushDone k ok c)"
proof (cases "sl_inFlight (co_slots c k) \<and> ok")
  case False
  then show ?thesis
    by (cases "sl_inFlight (co_slots c k)") (simp_all add: pushDone_def queue_step_def endLoop_def Let_def)
next
  case True
  define c1 where "c1 = upd k (\<lambda>s. s\<lparr>sl_queue := tl (sl_queue s)\<rparr>) c"
  have ne: "sl_queue (co_slots c k) \<noteq> []" using assms True by simp
  show ?thesis
  proof (cases "persistQueues c1")
    case None
    then show ?thesis using True ne
      by (cases "k = k'") (simp_all add: pushDone_def c1_def queue_step_def Let_def endLoop_def)
  next
    case (Some c2)
    have s2: "co_slots c2 = co_slots c1" using persist_slots [OF Some] .
    define c3 where "c3 = upd k endLoop c2"
    define c4 where "c4 = upd k (\<lambda>s. s\<lparr>sl_first := Suc (sl_first s)\<rparr>) c3"
    define r where "r = refreshKind k c4"
    have e: "pushDone k ok c = (if sl_queue (co_slots c2 k) \<noteq> []
        then (c2, [Delivered k (hd (sl_queue (co_slots c k))), Push k (hd (sl_queue (co_slots c2 k)))])
        else if pending (co_slots c3 k) then (c3, [Delivered k (hd (sl_queue (co_slots c k))), writeStatus k True c3])
        else (fst r, [Delivered k (hd (sl_queue (co_slots c k))), writeStatus k True c3] @ snd r))"
      using True Some by (simp add: pushDone_def Let_def c1_def c3_def c4_def r_def split: prod.splits)
    have q2: "sl_queue (co_slots c2 k') = (if k' = k then tl (sl_queue (co_slots c k)) else sl_queue (co_slots c k'))"
      "sl_version (co_slots c2 k') = sl_version (co_slots c k')" for k' by (simp_all add: s2 c1_def)
    have q3: "sl_queue (co_slots c3 k') = sl_queue (co_slots c2 k')" "sl_version (co_slots c3 k') = sl_version (co_slots c2 k')"
      "sl_queue (co_slots c4 k') = sl_queue (co_slots c2 k')" "sl_version (co_slots c4 k') = sl_version (co_slots c2 k')" for k'
      by (simp_all add: c3_def c4_def endLoop_def)
    have q: "quiet c4 r" by (simp add: r_def quiet_refresh)
    show ?thesis
      using ne q q2 q3 by (cases "k' = k") (simp_all add: e queue_step_def quiet_def)
  qed
qed

definition flight_ok :: "coord \<Rightarrow> bool" where
  "flight_ok c \<longleftrightarrow> (\<forall>k. sl_inFlight (co_slots c k) \<longrightarrow> sl_queue (co_slots c k) \<noteq> [])"

lemma step_queue: "flight_ok c \<Longrightarrow> queue_step k c (step e c)"
  by (cases e) (simp_all add: enqueue_queue_step quiet_queue_step quiet_drain quiet_refresh quiet_readDone
      pushDone_queue_step flight_ok_def, simp add: queue_step_def)

section \<open>Invariants\<close>

text \<open>What a storage holds, whether or not it is open at the moment.\<close>

definition stored :: "storage \<Rightarrow> outbox_error + queues" where
  "stored ls = outbox_load (ls\<lparr>ls_open := True\<rparr>)"

lemma stored_load: "outbox_load ls = Inr q \<Longrightarrow> stored ls = Inr q"
proof -
  assume l: "outbox_load ls = Inr q"
  have "ls_open ls" using l by (auto simp: outbox_load_def getItem_def split: if_splits)
  then have "ls\<lparr>ls_open := True\<rparr> = ls" by (cases ls) simp
  then show ?thesis using l by (simp add: stored_def)
qed

lemma stored_storage: "stored (ls\<lparr>ls_open := op, ls_accepts := acc\<rparr>) = stored ls"
  by (simp add: stored_def outbox_load_def getItem_def)

definition slot_ok :: "shared_kind \<Rightarrow> slot \<Rightarrow> bool" where
  "slot_ok k s \<longleftrightarrow> length (sl_queue s) \<le> OUTBOX_MAX_ITEMS_PER_KIND \<and> list_all (delta_ok k) (sl_queue s)
     \<and> (sl_inFlight s \<longrightarrow> sl_queue s \<noteq> [] \<and> sl_drain s \<and> sl_blocked s \<noteq> BLoad)"

text \<open>The storage holds the queue of every unblocked kind and at least the delta that is in flight.\<close>

definition agrees :: "delta list \<Rightarrow> slot \<Rightarrow> bool" where
  "agrees q s \<longleftrightarrow> (sl_blocked s = Free \<longrightarrow> q = sl_queue s) \<and> (sl_inFlight s \<longrightarrow> q \<noteq> [] \<and> hd q = hd (sl_queue s))"

definition disk_ok :: "coord \<Rightarrow> bool" where
  "disk_ok c \<longleftrightarrow> (\<exists>q. stored (co_disk c) = Inr q \<and> (\<forall>k. agrees (q k) (co_slots c k)))"

definition coord_ok :: "coord \<Rightarrow> bool" where
  "coord_ok c \<longleftrightarrow> (\<forall>k. slot_ok k (co_slots c k)) \<and>
     ((\<forall>k. sl_blocked (co_slots c k) = BLoad) \<or> (\<forall>k. sl_blocked (co_slots c k) \<noteq> BLoad) \<and> disk_ok c)"

lemma coord_ok_flight: "coord_ok c \<Longrightarrow> flight_ok c"
  by (simp add: coord_ok_def flight_ok_def slot_ok_def)

lemma coord_ok_create: "coord_ok (createCoordinator ls)"
proof (cases "outbox_load ls")
  case (Inl e)
  then show ?thesis by (simp add: createCoordinator_def coord_ok_def slot_ok_def fresh_slot_def)
next
  case (Inr q)
  then show ?thesis
    using outbox_load_ok [OF Inr] stored_load [OF Inr]
    by (simp add: createCoordinator_def coord_ok_def slot_ok_def fresh_slot_def disk_ok_def queues_ok_def agrees_def)
qed

text \<open>A successful save makes the storage agree with every queue.\<close>

lemma persist_disk:
  assumes "persistQueues c = Some c'" "\<forall>k. length (sl_queue (co_slots c k)) \<le> OUTBOX_MAX_ITEMS_PER_KIND
     \<and> list_all (delta_ok k) (sl_queue (co_slots c k))"
  shows "stored (co_disk c') = Inr (queueSnapshot c)"
proof -
  obtain d where d: "outbox_save (queueSnapshot c) (co_disk c) = Some d" "c' = c\<lparr>co_disk := d\<rparr>"
    using assms(1) by (auto simp: persist_Some)
  have "queues_ok (queueSnapshot c)" using assms(2) by (simp add: queues_ok_def queueSnapshot_def)
  then show ?thesis using outbox.load_save [OF _ d(1)] stored_load d(2) by simp
qed

text \<open>The same with the fields of one slot changed.\<close>

lemma coord_ok_upd:
  assumes "coord_ok c" and "slot_ok k (f (co_slots c k))"
    and "sl_blocked (f (co_slots c k)) = BLoad \<longleftrightarrow> sl_blocked (co_slots c k) = BLoad"
    and "\<And>q. agrees q (co_slots c k) \<Longrightarrow> agrees q (f (co_slots c k))"
  shows "coord_ok (upd k f c)"
proof -
  have "agrees (q k') (co_slots (upd k f c) k')" if "\<forall>k. agrees (q k) (co_slots c k)" for q k'
    using that assms(4) by simp
  then have "disk_ok c \<Longrightarrow> disk_ok (upd k f c)" unfolding disk_ok_def by (metis upd_disk)
  then show ?thesis using assms(1,2,3) by (auto simp: coord_ok_def)
qed

lemma coord_ok_synced:
  assumes "\<forall>k. slot_ok k (co_slots c k)" "\<forall>k. sl_blocked (co_slots c k) \<noteq> BLoad" "stored (co_disk c) = Inr (queueSnapshot c)"
  shows "coord_ok c"
  using assms by (auto simp: coord_ok_def disk_ok_def agrees_def slot_ok_def queueSnapshot_def)

lemma coord_ok_persist:
  assumes "persistQueues c = Some c'" "\<forall>k. slot_ok k (co_slots c k)" "\<forall>k. sl_blocked (co_slots c k) \<noteq> BLoad"
  shows "coord_ok c'"
proof -
  have "stored (co_disk c') = Inr (queueSnapshot c)"
    using persist_disk [OF assms(1)] assms(2) by (simp add: slot_ok_def)
  then show ?thesis
    using assms(2,3) persist_slots [OF assms(1)] by (intro coord_ok_synced) (simp_all add: queueSnapshot_def)
qed

lemma coord_ok_slot: "coord_ok c \<Longrightarrow> slot_ok k (co_slots c k)"
  by (simp add: coord_ok_def)

lemma coord_ok_same:
  assumes "coord_ok c" and "\<And>s. sl_queue (f s) = sl_queue s \<and> sl_inFlight (f s) = sl_inFlight s
      \<and> sl_blocked (f s) = sl_blocked s \<and> sl_drain (f s) = sl_drain s"
  shows "coord_ok (upd k f c)"
  using assms coord_ok_slot [OF assms(1), of k] by (intro coord_ok_upd) (auto simp: slot_ok_def agrees_def)

lemma coord_ok_refresh: "coord_ok c \<Longrightarrow> coord_ok (fst (refreshKind k c))"
  by (simp add: refreshKind_def Let_def coord_ok_same)

lemma coord_ok_startPush:
  assumes "coord_ok c" "sl_queue (co_slots c k) \<noteq> []" "sl_blocked (co_slots c k) = Free"
  shows "coord_ok (fst (startPush k c))"
  unfolding startPush_def fst_conv
  using assms coord_ok_slot [OF assms(1), of k] by (intro coord_ok_upd) (auto simp: slot_ok_def agrees_def)

lemma no_load: "coord_ok c \<Longrightarrow> sl_blocked (co_slots c k) \<noteq> BLoad \<Longrightarrow> sl_blocked (co_slots c k') \<noteq> BLoad"
  by (auto simp: coord_ok_def)

lemma coord_ok_drain:
  assumes "coord_ok c"
  shows "coord_ok (fst (drain k c))"
proof -
  let ?s = "co_slots c k"
  have slots: "\<forall>k. slot_ok k (co_slots c k)" using assms by (simp add: coord_ok_def)
  have set: "coord_ok (upd k (\<lambda>s. s\<lparr>sl_drain := True\<rparr>) c)"
    using assms slots by (intro coord_ok_upd) (auto simp: slot_ok_def agrees_def)
  consider "sl_drain ?s \<or> sl_queue ?s = []" | "\<not> sl_drain ?s" "sl_queue ?s \<noteq> []" "sl_blocked ?s = BLoad"
    | "\<not> sl_drain ?s" "sl_queue ?s \<noteq> []" "sl_blocked ?s = BSave" | "\<not> sl_drain ?s" "sl_queue ?s \<noteq> []" "sl_blocked ?s = Free"
    by (cases "sl_blocked ?s") auto
  then show ?thesis
  proof cases
    case 3
    show ?thesis
    proof (cases "persistQueues c")
      case None
      then show ?thesis using 3 set by (simp add: drain_def Let_def)
    next
      case (Some c')
      define c2 where "c2 = upd k (\<lambda>s. s\<lparr>sl_blocked := Free\<rparr>) c'"
      have "stored (co_disk c') = Inr (queueSnapshot c)"
        using persist_disk [OF Some] slots by (simp add: slot_ok_def)
      moreover have "sl_blocked (co_slots c ka) \<noteq> BLoad" for ka using no_load [OF assms, of k ka] 3 by simp
      ultimately have "coord_ok c2"
        using slots 3 persist_slots [OF Some] unfolding c2_def
        by (intro coord_ok_synced) (auto simp: slot_ok_def queueSnapshot_def)
      then have "coord_ok (fst (startPush k c2))"
        by (rule coord_ok_startPush) (use 3 persist_slots [OF Some] in \<open>simp_all add: c2_def\<close>)
      then show ?thesis using 3 Some by (simp add: drain_def Let_def c2_def)
    qed
  qed (use assms set coord_ok_startPush [OF assms] in \<open>simp_all add: drain_def Let_def\<close>)
qed

lemma coord_ok_restart: "coord_ok c \<Longrightarrow> coord_ok (fst (restart k c))"
  by (simp add: restart_def Let_def coord_ok_drain)

lemma coord_ok_readDone:
  assumes "coord_ok c"
  shows "coord_ok (fst (readDone k r t c))"
proof (cases "sl_read (co_slots c k)")
  case None
  then show ?thesis using assms by (simp add: readDone_def)
next
  case (Some v)
  define c1 where "c1 = upd k (\<lambda>s. s\<lparr>sl_read := None\<rparr>) c"
  define ca where "ca = upd k (\<lambda>s. s\<lparr>sl_second := sl_first s, sl_first := 0\<rparr>) c1"
  define cb where "cb = upd k (\<lambda>s. s\<lparr>sl_first := 0, sl_second := 0\<rparr>) c1"
  have e: "ca = upd k (\<lambda>s. s\<lparr>sl_read := None, sl_second := sl_first s, sl_first := 0\<rparr>) c"
    "cb = upd k (\<lambda>s. s\<lparr>sl_read := None, sl_first := 0, sl_second := 0\<rparr>) c"
    by (simp_all add: ca_def cb_def c1_def upd_def)
  have "coord_ok c1" "coord_ok ca" "coord_ok cb" unfolding e c1_def by (rule coord_ok_same [OF assms]; simp)+
  then have "coord_ok c1" "coord_ok (fst (refreshKind k ca))" "coord_ok (fst (restart k cb))"
    by (simp_all add: coord_ok_refresh coord_ok_restart)
  then show ?thesis
    unfolding readDone_def Let_def Some option.case c1_def [symmetric] ca_def [symmetric] cb_def [symmetric]
    by (auto split: prod.splits)
qed

lemma coord_ok_enqueue:
  assumes "coord_ok c" "keys_ok v"
  shows "coord_ok (fst (enqueue k v c))"
proof (cases "sl_blocked (co_slots c k) = BLoad")
  case True
  then show ?thesis using assms by (simp add: enqueue_def)
next
  case nl: False
  note slots = coord_ok_slot [OF assms(1)]
  have block: "coord_ok (upd k (\<lambda>s. s\<lparr>sl_blocked := BSave\<rparr>) c)"
    using assms(1) slots [of k] nl by (intro coord_ok_upd) (auto simp: slot_ok_def agrees_def)
  show ?thesis
  proof (cases "cleanDelta (jor v (delta_value \<lparr>dl_set = [], dl_del = []\<rparr>)) k")
    case None
    then show ?thesis using nl block by (simp add: enqueue_def Let_def)
  next
    case (Some d)
    show ?thesis
    proof (cases "OUTBOX_MAX_ITEMS_PER_KIND \<le> length (sl_queue (co_slots c k))")
      case True
      then show ?thesis using nl block Some by (simp add: enqueue_def Let_def)
    next
      case False
      have "delta_obj (jor v (delta_value \<lparr>dl_set = [], dl_del = []\<rparr>))"
        using assms(2) keys_ok_delta_obj by (simp add: jor_def delta_value_def delta_obj_def)
      then have d: "delta_ok k d" using cleanDelta_ok [OF Some] by simp
      define c1 where "c1 = upd k (\<lambda>s. s\<lparr>sl_queue := sl_queue s @ [d], sl_version := Suc (sl_version s)\<rparr>) c"
      have e: "fst (enqueue k v c) = (case persistQueues c1 of
             None \<Rightarrow> upd k (\<lambda>s. s\<lparr>sl_blocked := BSave\<rparr>) c1 | Some c2 \<Rightarrow> fst (drain k c2))"
        using nl Some False unfolding c1_def by (simp add: enqueue_def Let_def split: option.splits prod.splits)
      have s1: "slot_ok k' (co_slots c1 k')" for k'
        using slots [of k'] d False by (auto simp: c1_def slot_ok_def)
      show ?thesis
      proof (cases "persistQueues c1")
        case None
        have "coord_ok (upd k (\<lambda>s. s\<lparr>sl_queue := sl_queue s @ [d], sl_version := Suc (sl_version s), sl_blocked := BSave\<rparr>) c)"
          using assms(1) slots [of k] s1 [of k] nl by (intro coord_ok_upd) (auto simp: slot_ok_def agrees_def c1_def)
        moreover have "upd k (\<lambda>s. s\<lparr>sl_blocked := BSave\<rparr>) c1
            = upd k (\<lambda>s. s\<lparr>sl_queue := sl_queue s @ [d], sl_version := Suc (sl_version s), sl_blocked := BSave\<rparr>) c"
          by (simp add: c1_def upd_def)
        ultimately show ?thesis by (simp add: e None)
      next
        case S: (Some c2)
        have "coord_ok c2"
          using S s1 no_load [OF assms(1) nl] by (intro coord_ok_persist [of c1]) (auto simp: c1_def)
        then show ?thesis by (simp add: e S coord_ok_drain)
      qed
    qed
  qed
qed

lemma coord_ok_pushDone:
  assumes "coord_ok c"
  shows "coord_ok (fst (pushDone k ok c))"
proof (cases "sl_inFlight (co_slots c k)")
  case False
  then show ?thesis using assms by (simp add: pushDone_def)
next
  case fl: True
  note slots = coord_ok_slot [OF assms]
  have nl: "sl_blocked (co_slots c k) \<noteq> BLoad" "sl_queue (co_slots c k) \<noteq> []" "sl_drain (co_slots c k)"
    using slots [of k] fl by (auto simp: slot_ok_def)
  show ?thesis
  proof (cases ok)
    case False
    have "coord_ok (upd k endLoop c)"
      using assms slots [of k] by (intro coord_ok_upd) (auto simp: slot_ok_def agrees_def endLoop_def)
    then show ?thesis using fl False by (simp add: pushDone_def)
  next
    case True
    define c1 where "c1 = upd k (\<lambda>s. s\<lparr>sl_queue := tl (sl_queue s)\<rparr>) c"
    show ?thesis
    proof (cases "persistQueues c1")
      case None
      have "coord_ok (upd k (\<lambda>s. endLoop (s\<lparr>sl_blocked := BSave\<rparr>)) c)"
        using assms slots [of k] nl by (intro coord_ok_upd) (auto simp: slot_ok_def agrees_def endLoop_def)
      then show ?thesis using fl True None by (simp add: pushDone_def Let_def c1_def upd_def)
    next
      case (Some c2)
      define c3 where "c3 = upd k endLoop c2"
      define c4 where "c4 = upd k (\<lambda>s. s\<lparr>sl_first := Suc (sl_first s)\<rparr>) c3"
      have e: "fst (pushDone k ok c) = (if sl_queue (co_slots c2 k) \<noteq> [] then c2
          else if pending (co_slots c3 k) then c3 else fst (refreshKind k c4))"
        using fl True Some by (simp add: pushDone_def Let_def c1_def c3_def c4_def split: prod.splits)
      have "stored (co_disk c2) = Inr (queueSnapshot c1)"
      proof (rule persist_disk [OF Some], rule allI)
        fix k'
        show "length (sl_queue (co_slots c1 k')) \<le> OUTBOX_MAX_ITEMS_PER_KIND \<and> list_all (delta_ok k') (sl_queue (co_slots c1 k'))"
          using slots [of k'] nl(2) by (cases "sl_queue (co_slots c k')") (auto simp: c1_def slot_ok_def)
      qed
      then have disk: "stored (co_disk c2) = Inr (queueSnapshot c2)"
        by (simp add: queueSnapshot_def persist_slots [OF Some])
      have s2: "slot_ok k' (co_slots c2 k')" if "k' = k \<longrightarrow> sl_queue (co_slots c2 k) \<noteq> []" for k'
        using slots [of k'] nl that by (cases "sl_queue (co_slots c k')") (auto simp: persist_slots [OF Some] c1_def slot_ok_def)
      have b2: "sl_blocked (co_slots c2 k') \<noteq> BLoad" for k'
        using no_load [OF assms nl(1)] by (auto simp: persist_slots [OF Some] c1_def)
      have ok2: "coord_ok c2" if "sl_queue (co_slots c2 k) \<noteq> []"
        using s2 that b2 disk by (intro coord_ok_synced) auto
      have "slot_ok k' (co_slots c3 k')" for k'
        using s2 [of k'] slots [of k] by (cases "sl_queue (co_slots c k)")
          (auto simp: c3_def endLoop_def slot_ok_def persist_slots [OF Some] c1_def)
      then have ok3: "coord_ok c3"
        using b2 disk unfolding c3_def by (intro coord_ok_synced) (auto simp: endLoop_def queueSnapshot_def fun_eq_iff)
      have "coord_ok c4" unfolding c4_def by (rule coord_ok_same [OF ok3]) simp
      then show ?thesis using ok2 ok3 coord_ok_refresh by (simp add: e)
    qed
  qed
qed

fun event_ok :: "event \<Rightarrow> bool" where
  "event_ok (Enqueue k v) = keys_ok v"
| "event_ok _ = True"

lemma coord_ok_step: "coord_ok c \<Longrightarrow> event_ok e \<Longrightarrow> coord_ok (fst (step e c))"
  by (cases e) (simp_all add: coord_ok_enqueue coord_ok_drain coord_ok_refresh coord_ok_pushDone coord_ok_readDone,
      simp add: coord_ok_def disk_ok_def stored_storage)

lemma coord_ok_run: "coord_ok c \<Longrightarrow> list_all event_ok es \<Longrightarrow> coord_ok (fst (run es c))"
proof (induction es arbitrary: c)
  case (Cons e es)
  then show ?case using coord_ok_step [of c e] by (auto split: prod.splits) (metis fst_conv)
qed simp

section \<open>Order of delivery\<close>

text \<open>
  The history of a queue: what entered it is what was finished followed by what is still queued,
  and the server took the finished deltas in order, each at least once, then possibly the head again.
\<close>

definition history_ok :: "delta list \<Rightarrow> delta list \<Rightarrow> delta list \<Rightarrow> bool" where
  "history_ok entered taken q \<longleftrightarrow> (\<exists>finished ns m.
     entered = finished @ q \<and> length ns = length finished \<and> (\<forall>n \<in> set ns. 1 \<le> n)
     \<and> taken = concat (map2 replicate ns finished) @ replicate m (hd q) \<and> (q = [] \<longrightarrow> m = 0))"

lemma history_ok_start: "history_ok q [] q"
  unfolding history_ok_def by (intro exI [of _ "[]"] exI [of _ 0]) simp

lemma history_ok_append: "history_ok en ta q \<Longrightarrow> history_ok (en @ [d]) ta (q @ [d])"
  unfolding history_ok_def
proof (elim exE conjE)
  fix fi ns m
  assume a: "en = fi @ q" "length ns = length fi" "\<forall>n \<in> set ns. 1 \<le> n"
    "ta = concat (map2 replicate ns fi) @ replicate m (hd q)" "q = [] \<longrightarrow> m = 0"
  show "\<exists>fi ns m. en @ [d] = fi @ q @ [d] \<and> length ns = length fi \<and> (\<forall>n \<in> set ns. 1 \<le> n)
     \<and> ta = concat (map2 replicate ns fi) @ replicate m (hd (q @ [d])) \<and> (q @ [d] = [] \<longrightarrow> m = 0)"
    by (rule exI [of _ fi], rule exI [of _ ns], rule exI [of _ m]) (use a in \<open>cases q; simp\<close>)
qed

lemma history_ok_again: "history_ok en ta q \<Longrightarrow> q \<noteq> [] \<Longrightarrow> history_ok en (ta @ [hd q]) q"
  unfolding history_ok_def
proof (elim exE conjE)
  fix fi ns m
  assume a: "q \<noteq> []" "en = fi @ q" "length ns = length fi" "\<forall>n \<in> set ns. 1 \<le> n"
    "ta = concat (map2 replicate ns fi) @ replicate m (hd q)"
  show "\<exists>fi ns m. en = fi @ q \<and> length ns = length fi \<and> (\<forall>n \<in> set ns. 1 \<le> n)
     \<and> ta @ [hd q] = concat (map2 replicate ns fi) @ replicate m (hd q) \<and> (q = [] \<longrightarrow> m = 0)"
    by (rule exI [of _ fi], rule exI [of _ ns], rule exI [of _ "Suc m"]) (use a in \<open>simp add: replicate_append_same\<close>)
qed

lemma history_ok_done: "history_ok en ta q \<Longrightarrow> q \<noteq> [] \<Longrightarrow> history_ok en (ta @ [hd q]) (tl q)"
  unfolding history_ok_def
proof (elim exE conjE)
  fix fi ns m
  assume a: "q \<noteq> []" "en = fi @ q" "length ns = length fi" "\<forall>n \<in> set ns. 1 \<le> n"
    "ta = concat (map2 replicate ns fi) @ replicate m (hd q)"
  show "\<exists>fi ns m. en = fi @ tl q \<and> length ns = length fi \<and> (\<forall>n \<in> set ns. 1 \<le> n)
     \<and> ta @ [hd q] = concat (map2 replicate ns fi) @ replicate m (hd (tl q)) \<and> (tl q = [] \<longrightarrow> m = 0)"
    by (rule exI [of _ "fi @ [hd q]"], rule exI [of _ "ns @ [Suc m]"], rule exI [of _ 0])
      (use a in \<open>simp add: replicate_append_same\<close>)
qed

lemma history_ok_step:
  assumes "queue_step k c r" "history_ok en ta (sl_queue (co_slots c k))"
  shows "history_ok (en @ accepted k (snd r)) (ta @ delivered k (snd r)) (sl_queue (co_slots (fst r) k))"
  using assms history_ok_append history_ok_again history_ok_done unfolding queue_step_def Let_def
  by (elim disjE exE conjE) (simp_all)

lemma history_ok_run:
  "coord_ok c \<Longrightarrow> list_all event_ok es \<Longrightarrow> history_ok en ta (sl_queue (co_slots c k)) \<Longrightarrow>
   history_ok (en @ accepted k (snd (run es c))) (ta @ delivered k (snd (run es c))) (sl_queue (co_slots (fst (run es c)) k))"
proof (induction es arbitrary: c en ta)
  case (Cons e es)
  obtain c1 f1 where s: "step e c = (c1, f1)" by (cases "step e c")
  obtain c2 f2 where r: "run es c1 = (c2, f2)" by (cases "run es c1")
  have "history_ok (en @ accepted k f1) (ta @ delivered k f1) (sl_queue (co_slots c1 k))"
    using history_ok_step [OF step_queue [OF coord_ok_flight [OF Cons.prems(1)], of k e] Cons.prems(3)] s by simp
  moreover have "coord_ok c1" using coord_ok_step [of c e] Cons.prems s by simp
  ultimately show ?case
    using Cons.IH [of c1 "en @ accepted k f1" "ta @ delivered k f1"] Cons.prems(2) s r by simp
qed simp

section \<open>Durability and staleness of single steps\<close>

lemma pushDone_Some:
  assumes "sl_inFlight (co_slots c k)" "persistQueues (upd k (\<lambda>s. s\<lparr>sl_queue := tl (sl_queue s)\<rparr>) c) = Some c2"
  defines "d \<equiv> hd (sl_queue (co_slots c k))" and "c3 \<equiv> upd k endLoop c2"
  shows "pushDone k True c = (if sl_queue (co_slots c2 k) \<noteq> [] then (c2, [Delivered k d, Push k (hd (sl_queue (co_slots c2 k)))])
        else if pending (co_slots c3 k) then (c3, [Delivered k d, writeStatus k True c3])
        else (fst (refreshKind k (upd k (\<lambda>s. s\<lparr>sl_first := Suc (sl_first s)\<rparr>) c3)),
              [Delivered k d, writeStatus k True c3] @ snd (refreshKind k (upd k (\<lambda>s. s\<lparr>sl_first := Suc (sl_first s)\<rparr>) c3))))"
  using assms(1,2) by (simp add: pushDone_def Let_def d_def c3_def split: prod.splits)

lemma readDone_Some:
  fixes r :: "jsval option" and t :: bool
  assumes "sl_read (co_slots c k) = Some v"
  defines "s \<equiv> co_slots c k" and "c1 \<equiv> upd k (\<lambda>s. s\<lparr>sl_read := None\<rparr>) c"
  defines "skipped \<equiv> pending s \<or> sl_version s \<noteq> v"
  defines "es \<equiv> if skipped then [] else readEffects k r t"
  shows "readDone k r t c =
     (if skipped \<and> \<not> pending s \<and> 0 < sl_first s
      then (fst (refreshKind k (upd k (\<lambda>s. s\<lparr>sl_second := sl_first s, sl_first := 0\<rparr>) c1)),
            es @ snd (refreshKind k (upd k (\<lambda>s. s\<lparr>sl_second := sl_first s, sl_first := 0\<rparr>) c1)))
      else if 0 < sl_first s + sl_second s
      then (fst (restart k (upd k (\<lambda>s. s\<lparr>sl_first := 0, sl_second := 0\<rparr>) c1)),
            es @ snd (restart k (upd k (\<lambda>s. s\<lparr>sl_first := 0, sl_second := 0\<rparr>) c1)))
      else (c1, es))"
  using assms(1) unfolding readDone_def Let_def s_def c1_def skipped_def es_def by (simp split: prod.splits)

lemma enqueue_Some:
  assumes "sl_blocked (co_slots c k) \<noteq> BLoad" "cleanDelta (jor v (delta_value \<lparr>dl_set = [], dl_del = []\<rparr>)) k = Some d"
    and "length (sl_queue (co_slots c k)) < OUTBOX_MAX_ITEMS_PER_KIND"
  defines "c1 \<equiv> upd k (\<lambda>s. s\<lparr>sl_queue := sl_queue s @ [d], sl_version := Suc (sl_version s)\<rparr>) c"
  shows "enqueue k v c = (case persistQueues c1 of
       None \<Rightarrow> (upd k (\<lambda>s. s\<lparr>sl_blocked := BSave\<rparr>) c1, [Accepted k d, writeStatus k False (upd k (\<lambda>s. s\<lparr>sl_blocked := BSave\<rparr>) c1)])
     | Some c2 \<Rightarrow> (fst (drain k c2), Accepted k d # snd (drain k c2)))"
  using assms(1-3) unfolding c1_def by (simp add: enqueue_def Let_def split: option.splits prod.splits)

lemma enqueue_refused:
  assumes "sl_blocked (co_slots c k) = BLoad \<or> cleanDelta (jor v (delta_value \<lparr>dl_set = [], dl_del = []\<rparr>)) k = None
     \<or> OUTBOX_MAX_ITEMS_PER_KIND \<le> length (sl_queue (co_slots c k))"
  shows "\<exists>b. enqueue k v c = (upd k (\<lambda>s. s\<lparr>sl_blocked := b\<rparr>) c, [writeStatus k False (upd k (\<lambda>s. s\<lparr>sl_blocked := b\<rparr>) c)])"
proof (cases "sl_blocked (co_slots c k) = BLoad")
  case True
  moreover have "upd k (\<lambda>s. s\<lparr>sl_blocked := BLoad\<rparr>) c = c" using True by (simp add: upd_def fun_upd_idem)
  ultimately show ?thesis by (intro exI [of _ BLoad]) (simp add: enqueue_def)
next
  case False
  then show ?thesis using assms by (intro exI [of _ BSave]) (auto simp: enqueue_def Let_def split: option.splits)
qed

text \<open>A push always sends the head of a queue that is then in flight.\<close>

definition sends_head :: "coord \<times> effect list \<Rightarrow> bool" where
  "sends_head r \<longleftrightarrow> (\<forall>k d. Push k d \<in> set (snd r) \<longrightarrow>
     sl_inFlight (co_slots (fst r) k) \<and> d = hd (sl_queue (co_slots (fst r) k)))"

lemma sends_head_drain: "sends_head (drain k c)"
  by (auto simp: sends_head_def drain_def Let_def startPush_def writeStatus_def persist_slots split: if_splits option.splits)

lemma sends_head_refresh: "sends_head (refreshKind k c)"
  by (simp add: sends_head_def refreshKind_def Let_def)

lemma sends_head_add:
  "sends_head r \<Longrightarrow> \<forall>k d. Push k d \<notin> set es \<Longrightarrow> sends_head (fst r, es @ snd r)"
  by (auto simp: sends_head_def)

lemma sends_head_none: "\<forall>k d. Push k d \<notin> set es \<Longrightarrow> sends_head (c, es)"
  by (simp add: sends_head_def)

lemma sends_head_pushDone: "sends_head (pushDone k ok c)"
proof (cases "sl_inFlight (co_slots c k) \<and> ok")
  case False
  then show ?thesis by (cases "sl_inFlight (co_slots c k)") (simp_all add: pushDone_def sends_head_def writeStatus_def)
next
  case True
  show ?thesis
  proof (cases "persistQueues (upd k (\<lambda>s. s\<lparr>sl_queue := tl (sl_queue s)\<rparr>) c)")
    case None
    then show ?thesis using True by (simp add: pushDone_def sends_head_def writeStatus_def Let_def)
  next
    case (Some c2)
    have fl: "sl_inFlight (co_slots c2 k)" using True by (simp add: persist_slots [OF Some])
    have no: "\<forall>k' d'. Push k' d' \<notin> set [Delivered k d, writeStatus k True c3]" for d c3 by (simp add: writeStatus_def)
    show ?thesis
      using True fl sends_head_add [OF sends_head_refresh no] sends_head_none [OF no]
      by (simp add: pushDone_Some [OF _ Some]) (simp add: sends_head_def)
  qed
qed

lemma sends_head_readDone: "sends_head (readDone k r t c)"
proof (cases "sl_read (co_slots c k)")
  case None
  then show ?thesis by (simp add: readDone_def sends_head_def)
next
  case (Some v)
  have re: "sends_head (restart k c)" for c using sends_head_drain by (simp add: restart_def Let_def sends_head_none)
  have no: "\<forall>k' d. Push k' d \<notin> set (readEffects k r t)" by (simp add: readEffects_def split: option.splits)
  show ?thesis
    unfolding readDone_Some [OF Some]
    using sends_head_add [OF sends_head_refresh no] sends_head_add [OF re no] sends_head_none [OF no]
      sends_head_refresh re sends_head_none [of "[]"] by simp
qed

lemma sends_head_enqueue: "sends_head (enqueue k v c)"
proof (cases "sl_blocked (co_slots c k) = BLoad \<or> cleanDelta (jor v (delta_value \<lparr>dl_set = [], dl_del = []\<rparr>)) k = None
     \<or> OUTBOX_MAX_ITEMS_PER_KIND \<le> length (sl_queue (co_slots c k))")
  case True
  then show ?thesis using enqueue_refused [OF True] by (auto simp: sends_head_def writeStatus_def)
next
  case False
  then obtain d where d: "cleanDelta (jor v (delta_value \<lparr>dl_set = [], dl_del = []\<rparr>)) k = Some d" by auto
  have no: "\<forall>k' d'. Push k' d' \<notin> set [Accepted k d]" by simp
  have "sends_head (fst (drain k c2), Accepted k d # snd (drain k c2))" for c2
    using sends_head_add [OF sends_head_drain no, of k c2] by simp
  then show ?thesis
    using False d enqueue_Some [of c k v d] by (auto simp: sends_head_none writeStatus_def split: option.splits)
qed

lemma sends_head_step: "sends_head (step e c)"
  by (cases e) (simp_all add: sends_head_enqueue sends_head_drain sends_head_refresh sends_head_pushDone sends_head_readDone,
      simp add: sends_head_def)

lemma apply_in_step:
  assumes "Apply k x \<in> set (snd (step e c))"
  shows "\<exists>t. e = ReadDone k (Some x) t \<and> sl_read (co_slots c k) = Some (sl_version (co_slots c k)) \<and> \<not> pending (co_slots c k)"
proof -
  have dr: "Apply k x \<notin> set (snd (drain k' c))" for k' c
    by (auto simp: drain_def Let_def startPush_def writeStatus_def split: if_splits option.splits)
  have rf: "Apply k x \<notin> set (snd (refreshKind k' c))" for k' c by (simp add: refreshKind_def Let_def)
  have rs: "Apply k x \<notin> set (snd (restart k' c))" for k' c using dr by (simp add: restart_def Let_def)
  have en: "Apply k x \<notin> set (snd (enqueue k' v c))" for k' v
  proof (cases "sl_blocked (co_slots c k') = BLoad \<or> cleanDelta (jor v (delta_value \<lparr>dl_set = [], dl_del = []\<rparr>)) k' = None
     \<or> OUTBOX_MAX_ITEMS_PER_KIND \<le> length (sl_queue (co_slots c k'))")
    case True
    then show ?thesis using enqueue_refused [OF True] by (auto simp: writeStatus_def)
  next
    case False
    then obtain d where "cleanDelta (jor v (delta_value \<lparr>dl_set = [], dl_del = []\<rparr>)) k' = Some d" by auto
    then show ?thesis using False dr enqueue_Some [of c k' v d] by (simp add: writeStatus_def split: option.splits)
  qed
  have pd: "Apply k x \<notin> set (snd (pushDone k' ok c))" for k' ok
  proof (cases "sl_inFlight (co_slots c k') \<and> ok")
    case False
    then show ?thesis by (cases "sl_inFlight (co_slots c k')") (simp_all add: pushDone_def writeStatus_def)
  next
    case True
    show ?thesis
    proof (cases "persistQueues (upd k' (\<lambda>s. s\<lparr>sl_queue := tl (sl_queue s)\<rparr>) c)")
      case None
      then show ?thesis using True by (simp add: pushDone_def writeStatus_def Let_def)
    next
      case (Some c2)
      then show ?thesis using True rf pushDone_Some [OF _ Some] by (simp add: writeStatus_def)
    qed
  qed
  obtain k' r t where e: "e = ReadDone k' r t" using assms dr rf en pd by (cases e) auto
  obtain v where v: "sl_read (co_slots c k') = Some v"
    using assms by (cases "sl_read (co_slots c k')") (simp_all add: e readDone_def)
  have "Apply k x \<in> set (if pending (co_slots c k') \<or> sl_version (co_slots c k') \<noteq> v then [] else readEffects k' r t)"
    using assms rf rs unfolding e step.simps readDone_Some [OF v] by (auto split: if_splits)
  then show ?thesis using v by (auto simp: e readEffects_def split: if_splits option.splits)
qed

lemma version_run:
  "coord_ok c \<Longrightarrow> list_all event_ok es \<Longrightarrow>
   sl_version (co_slots (fst (run es c)) k) = sl_version (co_slots c k) + length (accepted k (snd (run es c)))"
proof (induction es arbitrary: c)
  case (Cons e es)
  obtain c1 f1 where s: "step e c = (c1, f1)" by (cases "step e c")
  obtain c2 f2 where r: "run es c1 = (c2, f2)" by (cases "run es c1")
  have "sl_version (co_slots c1 k) = sl_version (co_slots c k) + length (accepted k f1)"
    using step_queue [OF coord_ok_flight [OF Cons.prems(1)], of k e] s by (auto simp: queue_step_def Let_def)
  moreover have "coord_ok c1" using coord_ok_step [of c e] Cons.prems s by simp
  ultimately show ?case using Cons.IH [of c1] Cons.prems(2) s r by simp
qed simp

section \<open>The stuck queue\<close>

text \<open>A slot whose drain promise is set although no push is under way.\<close>

definition stuck :: "shared_kind \<Rightarrow> coord \<Rightarrow> bool" where
  "stuck k c \<longleftrightarrow> sl_drain (co_slots c k) \<and> \<not> sl_inFlight (co_slots c k) \<and> sl_queue (co_slots c k) \<noteq> []"

text \<open>What a step for another kind leaves alone, and what a step for a stuck kind does.\<close>

definition keeps_stuck :: "shared_kind \<Rightarrow> coord \<Rightarrow> coord \<times> effect list \<Rightarrow> bool" where
  "keeps_stuck k c r \<longleftrightarrow> stuck k (fst r) \<and> (\<forall>d. Push k d \<notin> set (snd r))
     \<and> (\<exists>ds. sl_queue (co_slots (fst r) k) = sl_queue (co_slots c k) @ ds)"

lemma keeps_drain: "stuck k c \<Longrightarrow> keeps_stuck k c (drain k' c)"
  by (cases "k' = k") (auto simp: keeps_stuck_def stuck_def drain_def Let_def startPush_def writeStatus_def persist_slots
      split: option.splits)

lemma keeps_refresh: "stuck k c \<Longrightarrow> keeps_stuck k c (refreshKind k' c)"
  by (auto simp: keeps_stuck_def stuck_def refreshKind_def Let_def)

lemma keeps_restart: "stuck k c \<Longrightarrow> keeps_stuck k c (restart k' c)"
  using keeps_drain by (auto simp: restart_def Let_def) (auto simp: keeps_stuck_def)

lemma keeps_after:
  assumes "sl_drain (co_slots c' k) = sl_drain (co_slots c k)" "sl_inFlight (co_slots c' k) = sl_inFlight (co_slots c k)"
    and "\<exists>ds. sl_queue (co_slots c' k) = sl_queue (co_slots c k) @ ds" and "stuck k c"
    and "\<And>c'. stuck k c' \<Longrightarrow> keeps_stuck k c' (f c')" and "\<forall>d. Push k d \<notin> set es"
  shows "keeps_stuck k c (fst (f c'), es @ snd (f c'))"
proof -
  have "stuck k c'" using assms(1-4) by (auto simp: stuck_def)
  then have "keeps_stuck k c' (f c')" by (rule assms(5))
  then show ?thesis using assms(3,6) by (auto simp: keeps_stuck_def)
qed

lemma keeps_enqueue:
  assumes "stuck k c"
  shows "keeps_stuck k c (enqueue k' v c)"
proof (cases "sl_blocked (co_slots c k') = BLoad \<or> cleanDelta (jor v (delta_value \<lparr>dl_set = [], dl_del = []\<rparr>)) k' = None
     \<or> OUTBOX_MAX_ITEMS_PER_KIND \<le> length (sl_queue (co_slots c k'))")
  case True
  obtain b where b: "enqueue k' v c = (upd k' (\<lambda>s. s\<lparr>sl_blocked := b\<rparr>) c,
      [writeStatus k' False (upd k' (\<lambda>s. s\<lparr>sl_blocked := b\<rparr>) c)])"
    using enqueue_refused [OF True] by blast
  show ?thesis using assms by (cases "k = k'") (simp_all add: b keeps_stuck_def stuck_def writeStatus_def)
next
  case False
  then obtain d where d: "cleanDelta (jor v (delta_value \<lparr>dl_set = [], dl_del = []\<rparr>)) k' = Some d" by auto
  define c1 where "c1 = upd k' (\<lambda>s. s\<lparr>sl_queue := sl_queue s @ [d], sl_version := Suc (sl_version s)\<rparr>) c"
  have c1: "sl_drain (co_slots c1 k) = sl_drain (co_slots c k)" "sl_inFlight (co_slots c1 k) = sl_inFlight (co_slots c k)"
    "\<exists>ds. sl_queue (co_slots c1 k) = sl_queue (co_slots c k) @ ds" by (auto simp: c1_def)
  show ?thesis
  proof (cases "persistQueues c1")
    case None
    then show ?thesis using False d assms c1 enqueue_Some [of c k' v d]
      by (auto simp: c1_def [symmetric] keeps_stuck_def stuck_def writeStatus_def)
  next
    case (Some c2)
    have "keeps_stuck k c (fst (drain k' c2), [Accepted k' d] @ snd (drain k' c2))"
      by (rule keeps_after [where f = "drain k'"]) (use c1 assms keeps_drain persist_slots [OF Some] in \<open>simp_all\<close>)
    then show ?thesis using False d Some enqueue_Some [of c k' v d] by (simp add: c1_def [symmetric])
  qed
qed

lemma keeps_pushDone:
  assumes "stuck k c"
  shows "keeps_stuck k c (pushDone k' ok c)"
proof (cases "sl_inFlight (co_slots c k') \<and> ok")
  case False
  then show ?thesis using assms
    by (cases "sl_inFlight (co_slots c k')") (auto simp: pushDone_def writeStatus_def keeps_stuck_def stuck_def endLoop_def)
next
  case True
  then have ne: "k' \<noteq> k" using assms by (auto simp: stuck_def)
  show ?thesis
  proof (cases "persistQueues (upd k' (\<lambda>s. s\<lparr>sl_queue := tl (sl_queue s)\<rparr>) c)")
    case None
    then show ?thesis using True ne assms
      by (auto simp: pushDone_def writeStatus_def Let_def keeps_stuck_def stuck_def)
  next
    case (Some c2)
    define c3 where "c3 = upd k' endLoop c2"
    define c4 where "c4 = upd k' (\<lambda>s. s\<lparr>sl_first := Suc (sl_first s)\<rparr>) c3"
    have same: "co_slots c2 k = co_slots c k" "co_slots c3 k = co_slots c k" "co_slots c4 k = co_slots c k"
      using ne by (simp_all add: persist_slots [OF Some] c3_def c4_def)
    have "keeps_stuck k c (fst (refreshKind k' c4), [Delivered k' d, writeStatus k' True c3] @ snd (refreshKind k' c4))" for d
      by (rule keeps_after [where f = "refreshKind k'"]) (use same assms keeps_refresh in \<open>simp_all add: writeStatus_def\<close>)
    then show ?thesis
      using True ne same assms unfolding c3_def c4_def
      by (auto simp: pushDone_Some [OF _ Some] keeps_stuck_def stuck_def writeStatus_def)
  qed
qed

lemma keeps_readDone:
  assumes "stuck k c"
  shows "keeps_stuck k c (readDone k' r t c)"
proof (cases "sl_read (co_slots c k')")
  case None
  then show ?thesis using assms by (auto simp: readDone_def keeps_stuck_def)
next
  case (Some v)
  have no: "\<forall>d. Push k d \<notin> set (readEffects k' r t)" by (simp add: readEffects_def split: option.splits)
  define es where "es = (if pending (co_slots c k') \<or> sl_version (co_slots c k') \<noteq> v then [] else readEffects k' r t)"
  have nes: "\<forall>d. Push k d \<notin> set es" using no by (simp add: es_def)
  define c1 where "c1 = upd k' (\<lambda>s. s\<lparr>sl_read := None\<rparr>) c"
  define ca where "ca = upd k' (\<lambda>s. s\<lparr>sl_second := sl_first s, sl_first := 0\<rparr>) c1"
  define cb where "cb = upd k' (\<lambda>s. s\<lparr>sl_first := 0, sl_second := 0\<rparr>) c1"
  have "keeps_stuck k c (fst (refreshKind k' ca), es @ snd (refreshKind k' ca))"
    by (rule keeps_after [where f = "refreshKind k'"]) (use assms keeps_refresh nes in \<open>simp_all add: ca_def c1_def\<close>)
  moreover have "keeps_stuck k c (fst (restart k' cb), es @ snd (restart k' cb))"
    by (rule keeps_after [where f = "restart k'"]) (use assms keeps_restart nes in \<open>simp_all add: cb_def c1_def\<close>)
  moreover have "keeps_stuck k c (c1, es)" using assms nes by (auto simp: keeps_stuck_def stuck_def c1_def)
  ultimately show ?thesis
    unfolding readDone_Some [OF Some] es_def [symmetric] c1_def [symmetric] ca_def [symmetric] cb_def [symmetric]
    by (simp only: split: if_split) blast
qed

lemma keeps_step: "stuck k c \<Longrightarrow> keeps_stuck k c (step e c)"
  by (cases e) (simp_all add: keeps_enqueue keeps_drain keeps_refresh keeps_pushDone keeps_readDone,
      auto simp: keeps_stuck_def stuck_def)

lemma keeps_run: "stuck k c \<Longrightarrow> keeps_stuck k c (run es c)"
proof (induction es arbitrary: c)
  case (Cons e es)
  have "keeps_stuck k c (step e c)" using keeps_step Cons.prems by blast
  moreover from this have "keeps_stuck k (fst (step e c)) (run es (fst (step e c)))"
    using Cons.IH by (auto simp: keeps_stuck_def)
  ultimately show ?case by (auto simp: keeps_stuck_def split: prod.splits)
qed (auto simp: keeps_stuck_def)

section \<open>Outstanding pulls\<close>

text \<open>A pull that has just begun has captured the version of that moment; only its answer ends it.\<close>

definition pulls_fresh :: "coord \<times> effect list \<Rightarrow> bool" where
  "pulls_fresh r \<longleftrightarrow> (\<forall>k. Pull k \<in> set (snd r) \<longrightarrow> sl_read (co_slots (fst r) k) = Some (sl_version (co_slots (fst r) k)))"

definition no_pulls :: "effect list \<Rightarrow> bool" where
  "no_pulls es \<longleftrightarrow> (\<forall>k. Pull k \<notin> set es)"

lemma no_pulls_drain: "no_pulls (snd (drain k c))"
  by (auto simp: no_pulls_def drain_def Let_def startPush_def writeStatus_def split: if_splits option.splits)

lemma no_pulls_restart: "no_pulls (snd (restart k c))"
  using no_pulls_drain by (simp add: restart_def Let_def no_pulls_def)

lemma no_pulls_enqueue: "no_pulls (snd (enqueue k v c))"
proof (cases "sl_blocked (co_slots c k) = BLoad \<or> cleanDelta (jor v (delta_value \<lparr>dl_set = [], dl_del = []\<rparr>)) k = None
     \<or> OUTBOX_MAX_ITEMS_PER_KIND \<le> length (sl_queue (co_slots c k))")
  case True
  then show ?thesis using enqueue_refused [OF True] by (auto simp: writeStatus_def no_pulls_def)
next
  case False
  then obtain d where "cleanDelta (jor v (delta_value \<lparr>dl_set = [], dl_del = []\<rparr>)) k = Some d" by auto
  then show ?thesis using False no_pulls_drain [of k] enqueue_Some [of c k v d]
    by (simp add: writeStatus_def no_pulls_def split: option.splits)
qed

lemma no_pulls_fresh: "no_pulls (snd r) \<Longrightarrow> pulls_fresh r"
  by (simp add: no_pulls_def pulls_fresh_def)

lemma pulls_fresh_refresh: "pulls_fresh (refreshKind k c)"
  by (simp add: pulls_fresh_def refreshKind_def Let_def)

lemma pulls_fresh_add: "pulls_fresh r \<Longrightarrow> no_pulls es \<Longrightarrow> pulls_fresh (fst r, es @ snd r)"
  by (auto simp: pulls_fresh_def no_pulls_def)

lemma pulls_fresh_pushDone: "pulls_fresh (pushDone k ok c)"
proof (cases "sl_inFlight (co_slots c k) \<and> ok")
  case False
  then show ?thesis by (cases "sl_inFlight (co_slots c k)") (simp_all add: pushDone_def pulls_fresh_def writeStatus_def)
next
  case True
  show ?thesis
  proof (cases "persistQueues (upd k (\<lambda>s. s\<lparr>sl_queue := tl (sl_queue s)\<rparr>) c)")
    case None
    then show ?thesis using True by (simp add: pushDone_def pulls_fresh_def writeStatus_def Let_def)
  next
    case (Some c2)
    have no: "no_pulls [Delivered k d, writeStatus k True c3]" for d c3 by (simp add: writeStatus_def no_pulls_def)
    show ?thesis
      using True pulls_fresh_add [OF pulls_fresh_refresh no] no_pulls_fresh [of "(c3, [Delivered k d, writeStatus k True c3])" for c3 d] no
      by (simp add: pushDone_Some [OF _ Some]) (simp add: pulls_fresh_def)
  qed
qed

lemma pulls_fresh_readDone: "pulls_fresh (readDone k r t c)"
proof (cases "sl_read (co_slots c k)")
  case None
  then show ?thesis by (simp add: readDone_def pulls_fresh_def)
next
  case (Some v)
  have no: "no_pulls (readEffects k r t)" by (simp add: readEffects_def no_pulls_def split: option.splits)
  have re: "pulls_fresh (restart k c)" for c using no_pulls_restart no_pulls_fresh by blast
  have none: "pulls_fresh (c, [])" "pulls_fresh (c, readEffects k r t)" for c using no by (simp_all add: pulls_fresh_def no_pulls_def)
  show ?thesis
    unfolding readDone_Some [OF Some]
    using pulls_fresh_add [OF pulls_fresh_refresh no] pulls_fresh_add [OF re no] none pulls_fresh_refresh re by simp
qed

lemma pulls_fresh_step: "pulls_fresh (step e c)"
  by (cases e) (simp_all add: no_pulls_fresh no_pulls_enqueue no_pulls_drain pulls_fresh_refresh pulls_fresh_pushDone
      pulls_fresh_readDone, simp add: pulls_fresh_def)

definition reads_kept :: "shared_kind \<Rightarrow> coord \<Rightarrow> coord \<Rightarrow> bool" where
  "reads_kept k c c' \<longleftrightarrow> (\<forall>v. sl_read (co_slots c k) = Some v \<longrightarrow> sl_read (co_slots c' k) = Some v)"

lemma reads_drain: "sl_read (co_slots (fst (drain k' c)) k) = sl_read (co_slots c k)"
  by (auto simp: drain_def Let_def startPush_def persist_slots split: option.splits)

lemma reads_refresh: "reads_kept k c (fst (refreshKind k' c))"
  by (simp add: reads_kept_def refreshKind_def Let_def)

lemma reads_enqueue: "sl_read (co_slots (fst (enqueue k' v c)) k) = sl_read (co_slots c k)"
proof (cases "sl_blocked (co_slots c k') = BLoad \<or> cleanDelta (jor v (delta_value \<lparr>dl_set = [], dl_del = []\<rparr>)) k' = None
     \<or> OUTBOX_MAX_ITEMS_PER_KIND \<le> length (sl_queue (co_slots c k'))")
  case True
  then show ?thesis using enqueue_refused [OF True] by auto
next
  case False
  then obtain d where "cleanDelta (jor v (delta_value \<lparr>dl_set = [], dl_del = []\<rparr>)) k' = Some d" by auto
  then show ?thesis using False enqueue_Some [of c k' v d] by (auto simp: reads_drain persist_slots split: option.splits)
qed

lemma reads_pushDone: "reads_kept k c (fst (pushDone k' ok c))"
proof (cases "sl_inFlight (co_slots c k') \<and> ok")
  case False
  then show ?thesis by (cases "sl_inFlight (co_slots c k')") (simp_all add: pushDone_def reads_kept_def endLoop_def)
next
  case True
  show ?thesis
  proof (cases "persistQueues (upd k' (\<lambda>s. s\<lparr>sl_queue := tl (sl_queue s)\<rparr>) c)")
    case None
    then show ?thesis using True by (simp add: pushDone_def reads_kept_def Let_def endLoop_def)
  next
    case (Some c2)
    have "reads_kept k c c2" "reads_kept k c (upd k' endLoop c2)"
      by (simp_all add: reads_kept_def persist_slots [OF Some] endLoop_def)
    then show ?thesis
      using True reads_refresh [of k "upd k' (\<lambda>s. s\<lparr>sl_first := Suc (sl_first s)\<rparr>) (upd k' endLoop c2)" k']
      by (simp add: pushDone_Some [OF _ Some]) (simp add: reads_kept_def split: if_splits)
  qed
qed

fun answers :: "shared_kind \<Rightarrow> event \<Rightarrow> bool" where
  "answers k (ReadDone k' r t) = (k' = k)"
| "answers k _ = False"

lemma reads_readDone: "k' \<noteq> k \<Longrightarrow> reads_kept k c (fst (readDone k' r t c))"
proof (cases "sl_read (co_slots c k')")
  case None
  then show ?thesis by (simp add: readDone_def reads_kept_def)
next
  case (Some v)
  assume ne: "k' \<noteq> k"
  have re: "sl_read (co_slots (fst (restart k' c)) k) = sl_read (co_slots c k)" for c
    by (simp add: restart_def Let_def reads_drain)
  show ?thesis
    unfolding readDone_Some [OF Some]
    using ne re reads_refresh [of k "upd k' (\<lambda>s. s\<lparr>sl_second := sl_first s, sl_first := 0\<rparr>) (upd k' (\<lambda>s. s\<lparr>sl_read := None\<rparr>) c)" k']
    by (simp add: reads_kept_def)
qed

lemma reads_step: "\<not> answers k e \<Longrightarrow> reads_kept k c (fst (step e c))"
  by (cases e) (simp_all add: reads_pushDone reads_refresh reads_readDone, simp_all add: reads_kept_def reads_drain reads_enqueue)

lemma reads_run: "list_all (\<lambda>e. \<not> answers k e) es \<Longrightarrow> reads_kept k c (fst (run es c))"
proof (induction es arbitrary: c)
  case (Cons e es)
  then show ?case using reads_step [of k e c] Cons.IH [of "fst (step e c)"]
    by (auto simp: reads_kept_def split: prod.splits) (metis fst_conv)
qed (simp add: reads_kept_def)

section \<open>The muted slot\<close>

text \<open>A blocked slot with nothing to save: no event but another \<open>enqueue\<close> of that kind leaves it.\<close>

definition muted :: "shared_kind \<Rightarrow> coord \<Rightarrow> bool" where
  "muted k c \<longleftrightarrow> sl_blocked (co_slots c k) = BSave \<and> sl_queue (co_slots c k) = [] \<and> \<not> sl_inFlight (co_slots c k)"

fun enqueues :: "shared_kind \<Rightarrow> event \<Rightarrow> bool" where
  "enqueues k (Enqueue k' v) = (k' = k)"
| "enqueues k _ = False"

definition keeps_muted :: "shared_kind \<Rightarrow> coord \<times> effect list \<Rightarrow> bool" where
  "keeps_muted k r \<longleftrightarrow> muted k (fst r) \<and> Pull k \<notin> set (snd r)"

lemma other_drain: "k' \<noteq> k \<Longrightarrow> co_slots (fst (drain k' c)) k = co_slots c k"
  by (auto simp: drain_def Let_def startPush_def persist_slots split: option.splits)

lemma other_refresh: "k' \<noteq> k \<Longrightarrow> co_slots (fst (refreshKind k' c)) k = co_slots c k \<and> Pull k \<notin> set (snd (refreshKind k' c))"
  by (simp add: refreshKind_def Let_def)

lemma muted_drain: "muted k c \<Longrightarrow> keeps_muted k (drain k' c)"
proof (cases "k' = k")
  case True
  assume "muted k c"
  then show ?thesis using True by (simp add: drain_def keeps_muted_def muted_def Let_def)
next
  case False
  assume "muted k c"
  then show ?thesis using False other_drain [OF False] no_pulls_drain [of k'] by (auto simp: keeps_muted_def muted_def no_pulls_def)
qed

lemma muted_refresh: "muted k c \<Longrightarrow> keeps_muted k (refreshKind k' c)"
  using other_refresh [of k' k c] by (cases "k' = k") (auto simp: keeps_muted_def muted_def refreshKind_def pending_def Let_def)

lemma muted_enqueue: "muted k c \<Longrightarrow> k' \<noteq> k \<Longrightarrow> keeps_muted k (enqueue k' v c)"
proof -
  assume m: "muted k c" and ne: "k' \<noteq> k"
  have "co_slots (fst (enqueue k' v c)) k = co_slots c k"
  proof (cases "sl_blocked (co_slots c k') = BLoad \<or> cleanDelta (jor v (delta_value \<lparr>dl_set = [], dl_del = []\<rparr>)) k' = None
     \<or> OUTBOX_MAX_ITEMS_PER_KIND \<le> length (sl_queue (co_slots c k'))")
    case True
    then show ?thesis using enqueue_refused [OF True] ne by auto
  next
    case False
    then obtain d where "cleanDelta (jor v (delta_value \<lparr>dl_set = [], dl_del = []\<rparr>)) k' = Some d" by auto
    then show ?thesis using False ne enqueue_Some [of c k' v d] by (auto simp: other_drain persist_slots split: option.splits)
  qed
  then show ?thesis using m no_pulls_enqueue [of k' v c] by (simp add: keeps_muted_def muted_def no_pulls_def)
qed

lemma muted_pushDone: "muted k c \<Longrightarrow> keeps_muted k (pushDone k' ok c)"
proof (cases "sl_inFlight (co_slots c k') \<and> ok")
  case False
  assume "muted k c"
  then show ?thesis using False by (cases "sl_inFlight (co_slots c k')")
    (auto simp: pushDone_def keeps_muted_def muted_def endLoop_def writeStatus_def)
next
  case True
  assume m: "muted k c"
  then have ne: "k' \<noteq> k" using True by (auto simp: muted_def)
  show ?thesis
  proof (cases "persistQueues (upd k' (\<lambda>s. s\<lparr>sl_queue := tl (sl_queue s)\<rparr>) c)")
    case None
    then show ?thesis using True m ne by (simp add: pushDone_def keeps_muted_def muted_def Let_def writeStatus_def)
  next
    case (Some c2)
    have same: "co_slots c2 k = co_slots c k" using ne by (simp add: persist_slots [OF Some])
    show ?thesis
      using True m ne same other_refresh [OF ne, of "upd k' (\<lambda>s. s\<lparr>sl_first := Suc (sl_first s)\<rparr>) (upd k' endLoop c2)"]
      by (simp add: pushDone_Some [OF _ Some] keeps_muted_def muted_def writeStatus_def)
  qed
qed

lemma muted_readDone: "muted k c \<Longrightarrow> keeps_muted k (readDone k' r t c)"
proof (cases "sl_read (co_slots c k')")
  case None
  assume "muted k c"
  then show ?thesis by (simp add: None readDone_def keeps_muted_def)
next
  case (Some v)
  assume m: "muted k c"
  show ?thesis
  proof (cases "k' = k")
    case True
    then have "pending (co_slots c k')" using m by (simp add: pending_def muted_def)
    then show ?thesis using m True unfolding readDone_Some [OF Some]
      by (simp add: keeps_muted_def muted_def restart_def Let_def)
  next
    case False
    have re: "co_slots (fst (restart k' c)) k = co_slots c k \<and> Pull k \<notin> set (snd (restart k' c))" for c
      using other_drain [OF False] no_pulls_drain by (simp add: restart_def Let_def no_pulls_def)
    have "Pull k \<notin> set (readEffects k' r t)" by (simp add: readEffects_def split: option.splits)
    then show ?thesis using m False re other_refresh [OF False] unfolding readDone_Some [OF Some]
      by (simp add: keeps_muted_def muted_def)
  qed
qed

lemma muted_step: "muted k c \<Longrightarrow> \<not> enqueues k e \<Longrightarrow> keeps_muted k (step e c)"
  by (cases e) (simp_all add: muted_drain muted_refresh muted_enqueue muted_pushDone muted_readDone,
      simp add: keeps_muted_def muted_def)

lemma muted_run: "muted k c \<Longrightarrow> list_all (\<lambda>e. \<not> enqueues k e) es \<Longrightarrow> keeps_muted k (run es c)"
proof (induction es arbitrary: c)
  case (Cons e es)
  have "keeps_muted k (step e c)" using muted_step Cons.prems by simp
  moreover from this have "keeps_muted k (run es (fst (step e c)))" using Cons by (simp add: keeps_muted_def)
  ultimately show ?case by (auto simp: keeps_muted_def split: prod.splits)
qed (simp add: keeps_muted_def)

lemma muted_rejected:
  assumes "sl_blocked (co_slots c k) \<noteq> BLoad" "sl_queue (co_slots c k) = []" "\<not> sl_inFlight (co_slots c k)"
    and "cleanDelta (jor v (delta_value \<lparr>dl_set = [], dl_del = []\<rparr>)) k = None"
  shows "muted k (fst (enqueue k v c))"
  using assms by (simp add: enqueue_def muted_def Let_def)

text \<open>A delta that meets a refusing storage twice.\<close>

lemma refused_save: "ls_accepts ls = (\<lambda>_ _. False) \<Longrightarrow> queues_ok q \<Longrightarrow> q k \<noteq> [] \<Longrightarrow> outbox_save q ls = None"
  by (cases k) (auto simp: outbox_save_def cleanQueues_again OUTBOX_KINDS_def setItem_def Let_def)

lemma drain_refused:
  assumes "queues_ok (queueSnapshot c)" "ls_accepts (co_disk c) = (\<lambda>_ _. False)"
    and "sl_queue (co_slots c k) \<noteq> []" "sl_blocked (co_slots c k) = BSave" "\<not> sl_drain (co_slots c k)"
  shows "drain k c = (upd k (\<lambda>s. s\<lparr>sl_drain := True\<rparr>) c, [writeStatus k False c])"
proof -
  have "outbox_save (queueSnapshot c) (co_disk c) = None"
    by (rule refused_save [OF assms(2,1), where k = k]) (simp add: queueSnapshot_def assms(3))
  then have "persistQueues c = None" by (simp add: persistQueues_def)
  then show ?thesis using assms by (simp add: drain_def Let_def)
qed

lemma enqueue_refused_save:
  assumes "queues_ok (queueSnapshot c)" "ls_accepts (co_disk c) = (\<lambda>_ _. False)"
    and "sl_blocked (co_slots c k) \<noteq> BLoad" "delta_ok k d" "length (sl_queue (co_slots c k)) < OUTBOX_MAX_ITEMS_PER_KIND"
  shows "fst (enqueue k (delta_value d) c)
    = upd k (\<lambda>s. s\<lparr>sl_queue := sl_queue s @ [d], sl_version := Suc (sl_version s), sl_blocked := BSave\<rparr>) c"
proof -
  define c1 where "c1 = upd k (\<lambda>s. s\<lparr>sl_queue := sl_queue s @ [d], sl_version := Suc (sl_version s)\<rparr>) c"
  have clean: "cleanDelta (jor (delta_value d) (delta_value \<lparr>dl_set = [], dl_del = []\<rparr>)) k = Some d"
    using cleanDelta_again [OF assms(4)] by (simp add: jor_def delta_value_def)
  have ok: "queues_ok (queueSnapshot c1)"
    using assms(1,4,5) by (auto simp: queues_ok_def queueSnapshot_def c1_def)
  have "outbox_save (queueSnapshot c1) (co_disk c1) = None"
    by (rule refused_save [OF _ ok, where k = k]) (simp_all add: queueSnapshot_def c1_def assms(2))
  then have "persistQueues c1 = None" by (simp add: persistQueues_def)
  then show ?thesis using enqueue_Some [OF assms(3) clean assms(5)] by (simp add: c1_def [symmetric]) (simp add: c1_def upd_def)
qed

section \<open>Properties\<close>

text \<open>
  C1. No operator change is lost, reordered or skipped: after any sequence of events from any stored
  state, what has entered a queue (restored or accepted) is exactly what has been finished followed by what is
  still queued, and the server has taken the finished deltas in that order, each at least
  once, and possibly the head of the queue again, never another one.
\<close>

theorem queue_fifo_no_loss:
  assumes "list_all event_ok es"
  shows "(let c = createCoordinator ls; r = run es c in
      history_ok (sl_queue (co_slots c k) @ accepted k (snd r)) (delivered k (snd r)) (sl_queue (co_slots (fst r) k)))"
  using history_ok_run [OF coord_ok_create assms history_ok_start, of ls k] by (simp add: Let_def)

definition wit_delta :: delta where
  "wit_delta = \<lparr>dl_set = [(''k1'', JStr ''2026-07-16'')], dl_del = []\<rparr>"

theorem queue_fifo_no_loss_witness:
  "history_ok (accepted Ack (snd (run [Enqueue Ack (delta_value wit_delta), PushDone Ack False] (createCoordinator wit_storage))))
     (delivered Ack (snd (run [Enqueue Ack (delta_value wit_delta), PushDone Ack False] (createCoordinator wit_storage))))
     (sl_queue (co_slots (fst (run [Enqueue Ack (delta_value wit_delta), PushDone Ack False] (createCoordinator wit_storage))) Ack))"
proof -
  have "outbox_load wit_storage = Inr no_queues" by (simp add: outbox_load_def getItem_def wit_storage_def)
  then have "sl_queue (co_slots (createCoordinator wit_storage) Ack) = []"
    by (simp add: createCoordinator_def fresh_slot_def no_queues_def)
  then show ?thesis
    using queue_fifo_no_loss [of "[Enqueue Ack (delta_value wit_delta), PushDone Ack False]" wit_storage Ack]
    by (simp add: Let_def wit_delta_def delta_value_def del: run.simps)
qed

text \<open>
  C2. Nothing is sent that is not durable: in every reachable state, a delta handed to the network by
  a step is the head of its queue and is at that moment the first delta of that kind in the
  browser storage, so a reload at any later point before its removal replays it.
\<close>

theorem push_is_durable:
  assumes "list_all event_ok es" "event_ok e"
    and "Push k d \<in> set (snd (step e (fst (run es (createCoordinator ls)))))"
  shows "(let c = fst (step e (fst (run es (createCoordinator ls)))) in
     d = hd (sl_queue (co_slots c k)) \<and> (\<exists>q ds. stored (co_disk c) = Inr q \<and> q k = d # ds))"
proof -
  let ?c = "fst (step e (fst (run es (createCoordinator ls))))"
  have ok: "coord_ok ?c" using coord_ok_step [OF coord_ok_run [OF coord_ok_create assms(1)] assms(2)] .
  have fl: "sl_inFlight (co_slots ?c k)" "d = hd (sl_queue (co_slots ?c k))"
    using sends_head_step [of e "fst (run es (createCoordinator ls))"] assms(3) by (auto simp: sends_head_def)
  have "sl_blocked (co_slots ?c k) \<noteq> BLoad" using coord_ok_slot [OF ok, of k] fl(1) by (simp add: slot_ok_def)
  then have "disk_ok ?c" using ok by (auto simp: coord_ok_def)
  then obtain q where q: "stored (co_disk ?c) = Inr q" "agrees (q k) (co_slots ?c k)" by (auto simp: disk_ok_def)
  then have "q k = d # tl (q k)" using fl by (cases "q k") (auto simp: agrees_def)
  then show ?thesis unfolding Let_def using fl(2) q(1) by blast
qed

text \<open>
  C3. A server answer never overwrites a younger local change: when a pull that began in some
  reachable state is answered and its value is applied, no change of that kind has entered the queue since
  the pull began, and none is queued, in flight or blocked.
\<close>

theorem pull_never_stale:
  assumes "list_all event_ok es0" "event_ok e0" "list_all event_ok es" "list_all (\<lambda>e. \<not> answers k e) es"
    and "Pull k \<in> set (snd (step e0 (fst (run es0 (createCoordinator ls)))))"
    and "Apply k x \<in> set (snd (step (ReadDone k r t) (fst (run es (fst (step e0 (fst (run es0 (createCoordinator ls)))))))))"
  shows "accepted k (snd (run es (fst (step e0 (fst (run es0 (createCoordinator ls))))))) = []
    \<and> \<not> pending (co_slots (fst (run es (fst (step e0 (fst (run es0 (createCoordinator ls))))))) k)"
proof -
  define c1 where "c1 = fst (step e0 (fst (run es0 (createCoordinator ls))))"
  define c2 where "c2 = fst (run es c1)"
  have ok: "coord_ok c1" unfolding c1_def
    by (rule coord_ok_step [OF coord_ok_run [OF coord_ok_create assms(1)] assms(2)])
  have "sl_read (co_slots c1 k) = Some (sl_version (co_slots c1 k))"
    using pulls_fresh_step assms(5) unfolding pulls_fresh_def c1_def by blast
  then have "sl_read (co_slots c2 k) = Some (sl_version (co_slots c1 k))"
    using reads_run [OF assms(4), of c1] by (simp add: reads_kept_def c2_def)
  moreover have "sl_read (co_slots c2 k) = Some (sl_version (co_slots c2 k))" "\<not> pending (co_slots c2 k)"
    using apply_in_step assms(6) unfolding c1_def [symmetric] c2_def [symmetric] by blast+
  moreover have "sl_version (co_slots c2 k) = sl_version (co_slots c1 k) + length (accepted k (snd (run es c1)))"
    unfolding c2_def by (rule version_run [OF ok assms(3)])
  ultimately show ?thesis unfolding c1_def [symmetric] c2_def [symmetric] by simp
qed

lemma wit_create: "createCoordinator wit_storage = \<lparr>co_slots = (\<lambda>k. fresh_slot Free []), co_disk = wit_storage\<rparr>"
  by (simp add: createCoordinator_def outbox_load_def getItem_def wit_storage_def no_queues_def)

theorem pull_never_stale_witness:
  "accepted Notes (snd (run [] (fst (step (RefreshCall Notes) (createCoordinator wit_storage))))) = []
   \<and> Apply Notes (JObj []) \<in> set (snd (step (ReadDone Notes (Some (JObj [])) False)
       (fst (run [] (fst (step (RefreshCall Notes) (createCoordinator wit_storage)))))))"
proof -
  have p: "Pull Notes \<in> set (snd (step (RefreshCall Notes) (fst (run [] (createCoordinator wit_storage)))))"
    by (simp add: wit_create refreshKind_def fresh_slot_def pending_def)
  have a: "Apply Notes (JObj []) \<in> set (snd (step (ReadDone Notes (Some (JObj [])) False)
       (fst (run [] (fst (step (RefreshCall Notes) (fst (run [] (createCoordinator wit_storage)))))))))"
    by (simp add: wit_create refreshKind_def fresh_slot_def pending_def readDone_def Let_def readEffects_def)
  show ?thesis using pull_never_stale [OF _ _ _ _ p a] a by simp
qed

lemma wit_delta_ok: "delta_ok Ack wit_delta"
proof -
  have "cleanSharedValue Ack (JStr ''2026-07-16'') = Some (JStr ''2026-07-16'')" by code_simp
  moreover have "length (stringify (JStr ''2026-07-16'')) \<le> 100" by code_simp
  ultimately show ?thesis
    by (simp add: delta_ok_def wit_delta_def key_ok_def OUTBOX_MAX_OPS_PER_DELTA_def OUTBOX_MAX_KEY_LENGTH_def
        OUTBOX_MAX_VALUE_BYTES_def)
qed

definition wit_queue :: queues where
  "wit_queue = (\<lambda>k. if k = Ack then [wit_delta] else [])"

lemma wit_queue_ok: "queues_ok wit_queue"
  by (simp add: queues_ok_def wit_queue_def wit_delta_ok OUTBOX_MAX_ITEMS_PER_KIND_def)

lemma wit_save: "\<exists>d. outbox_save wit_queue wit_storage = Some d"
proof -
  have "length (stringify (outbox_doc wit_queue)) \<le> 200" by code_simp
  then show ?thesis unfolding outbox_save_def cleanQueues_again [OF wit_queue_ok]
    by (simp add: OUTBOX_KINDS_def wit_queue_def [of] OUTBOX_MAX_BYTES_def setItem_def wit_storage_def Let_def)
qed

theorem push_is_durable_witness:
  "\<exists>q ds. stored (co_disk (fst (step (Enqueue Ack (delta_value wit_delta)) (createCoordinator wit_storage)))) = Inr q
     \<and> q Ack = wit_delta # ds"
proof -
  let ?c = "createCoordinator wit_storage"
  define c1 where "c1 = upd Ack (\<lambda>s. s\<lparr>sl_queue := sl_queue s @ [wit_delta], sl_version := Suc (sl_version s)\<rparr>) ?c"
  have clean: "cleanDelta (jor (delta_value wit_delta) (delta_value \<lparr>dl_set = [], dl_del = []\<rparr>)) Ack = Some wit_delta"
    using cleanDelta_again [OF wit_delta_ok] by (simp add: jor_def delta_value_def)
  have "queueSnapshot c1 = wit_queue" by (auto simp: queueSnapshot_def c1_def wit_create fresh_slot_def wit_queue_def)
  then obtain c2 where c2: "persistQueues c1 = Some c2"
    using wit_save by (auto simp: persistQueues_def c1_def wit_create upd_def)
  have "Push Ack wit_delta \<in> set (snd (drain Ack c2))"
    by (simp add: drain_def startPush_def persist_slots [OF c2] c1_def wit_create fresh_slot_def Let_def)
  then have "Push Ack wit_delta \<in> set (snd (step (Enqueue Ack (delta_value wit_delta)) (fst (run [] ?c))))"
    using enqueue_Some [OF _ clean, of ?c] c2 unfolding c1_def by (simp add: wit_create fresh_slot_def OUTBOX_MAX_ITEMS_PER_KIND_def)
  moreover have "event_ok (Enqueue Ack (delta_value wit_delta))" by (simp add: wit_delta_def delta_value_def)
  ultimately show ?thesis using push_is_durable [of "[]" "Enqueue Ack (delta_value wit_delta)" Ack wit_delta wit_storage] by (simp add: Let_def)
qed

text \<open>
  A queue can get stuck for the rest of the session: there is a sequence of events (a change is made while
  the browser storage refuses writes, a retry comes before the storage recovers) after which the storage is open and
  accepts everything, the change is still queued, and yet no event whatever makes the code send it.
\<close>

theorem refused_retry_sticks:
  "\<exists>es0. list_all event_ok es0
     \<and> ls_ok (co_disk (fst (run es0 (createCoordinator wit_storage))))
     \<and> sl_queue (co_slots (fst (run es0 (createCoordinator wit_storage))) Ack) = [wit_delta]
     \<and> (\<forall>es d. Push Ack d \<notin> set (snd (run es (fst (run es0 (createCoordinator wit_storage)))))
          \<and> wit_delta = hd (sl_queue (co_slots (fst (run es (fst (run es0 (createCoordinator wit_storage))))) Ack)))"
proof -
  let ?no = "Storage True (\<lambda>_ _. False)" and ?yes = "Storage True (\<lambda>_ _. True)"
  define ca where "ca = fst (step ?no (createCoordinator wit_storage))"
  define cb where "cb = fst (step (Enqueue Ack (delta_value wit_delta)) ca)"
  define cc where "cc = fst (step (DrainCall Ack) cb)"
  define cd where "cd = fst (step ?yes cc)"
  have r: "fst (run [?no, Enqueue Ack (delta_value wit_delta), DrainCall Ack, ?yes] (createCoordinator wit_storage)) = cd"
    by (simp add: ca_def cb_def cc_def cd_def split: prod.splits)
  have a: "co_slots ca = (\<lambda>k. fresh_slot Free [])" "ls_accepts (co_disk ca) = (\<lambda>_ _. False)"
    by (simp_all add: ca_def wit_create)
  have b: "cb = upd Ack (\<lambda>s. s\<lparr>sl_queue := sl_queue s @ [wit_delta], sl_version := Suc (sl_version s), sl_blocked := BSave\<rparr>) ca"
    unfolding cb_def step.simps
    by (rule enqueue_refused_save) (simp_all add: a fresh_slot_def wit_delta_ok queues_ok_def queueSnapshot_def OUTBOX_MAX_ITEMS_PER_KIND_def)
  have "queueSnapshot cb = wit_queue" by (auto simp: queueSnapshot_def b a fresh_slot_def wit_queue_def)
  then have c: "cc = upd Ack (\<lambda>s. s\<lparr>sl_drain := True\<rparr>) cb"
    unfolding cc_def step.simps using wit_queue_ok a by (subst drain_refused) (simp_all add: b fresh_slot_def)
  have q: "sl_queue (co_slots cd Ack) = [wit_delta]" and st: "stuck Ack cd" and ls: "ls_ok (co_disk cd)"
    by (simp_all add: cd_def c b a fresh_slot_def stuck_def ls_ok_def)
  have run: "Push Ack d \<notin> set (snd (run es cd)) \<and> wit_delta = hd (sl_queue (co_slots (fst (run es cd)) Ack))" for es d
    using keeps_run [OF st, of es] q by (auto simp: keeps_stuck_def)
  have ev: "list_all event_ok [?no, Enqueue Ack (delta_value wit_delta), DrainCall Ack, ?yes]"
    by (simp add: wit_delta_def delta_value_def)
  show ?thesis by (rule exI, rule conjI [OF ev], unfold r) (use ls q run in blast)
qed

text \<open>
  A rejected change silences a kind: after \<open>enqueue\<close> has refused a malformed change on an idle
  slot, no event but a further \<open>enqueue\<close> of that kind makes the code read the server's state of that kind again,
  although nothing is waiting to be saved.
\<close>

theorem rejected_change_mutes:
  assumes "sl_blocked (co_slots c k) \<noteq> BLoad" "sl_queue (co_slots c k) = []" "\<not> sl_inFlight (co_slots c k)"
    and "cleanDelta (jor v (delta_value \<lparr>dl_set = [], dl_del = []\<rparr>)) k = None"
    and "list_all (\<lambda>e. \<not> enqueues k e) es"
  shows "Pull k \<notin> set (snd (run es (fst (step (Enqueue k v) c))))"
  using muted_run [OF muted_rejected [OF assms(1-4)] assms(5)] by (simp add: keeps_muted_def)

theorem rejected_change_mutes_witness:
  "Pull Notes \<notin> set (snd (run [DrainCall Notes, RefreshCall Notes] (fst (step (Enqueue Notes (JArr [])) (createCoordinator wit_storage)))))"
proof (rule rejected_change_mutes)
  show "cleanDelta (jor (JArr []) (delta_value \<lparr>dl_set = [], dl_del = []\<rparr>)) Notes = None"
    by (simp add: jor_def cleanDelta_def)
qed (simp_all add: wit_create fresh_slot_def)

section \<open>The push loop ends\<close>

text \<open>Whether the outbox can be saved does not depend on what it holds.\<close>

lemma save_items: "outbox_save q ls = Some d \<Longrightarrow> \<exists>x. d = ls\<lparr>ls_items := x\<rparr>"
  by (auto simp: outbox_save_def Let_def removeItem_def setItem_def split: option.splits if_splits)

lemma saves_again: "outbox_save q (ls\<lparr>ls_items := x\<rparr>) \<noteq> None \<longleftrightarrow> outbox_save q ls \<noteq> None"
  by (auto simp: outbox_save_def Let_def removeItem_def setItem_def split: option.splits)

lemma pushDone_accepted:
  assumes "sl_inFlight (co_slots c k)" "sl_queue (co_slots c k) = d # q" "sl_blocked (co_slots c k) = Free"
    and "outbox_save ((queueSnapshot c)(k := q)) (co_disk c) \<noteq> None"
  defines "r \<equiv> pushDone k True c"
  shows "delivered k (snd r) = [d]" "sl_queue (co_slots (fst r) k) = q" "sl_blocked (co_slots (fst r) k) = Free"
    "sl_inFlight (co_slots (fst r) k) = (q \<noteq> [])" "q = [] \<Longrightarrow> \<not> sl_drain (co_slots (fst r) k) \<and> sl_read (co_slots (fst r) k) \<noteq> None"
    "\<exists>x. co_disk (fst r) = (co_disk c)\<lparr>ls_items := x\<rparr>" "queueSnapshot (fst r) = (queueSnapshot c)(k := q)"
proof -
  define c1 where "c1 = upd k (\<lambda>s. s\<lparr>sl_queue := tl (sl_queue s)\<rparr>) c"
  have "queueSnapshot c1 = (queueSnapshot c)(k := q)" by (auto simp: c1_def queueSnapshot_def assms(2))
  then obtain x where x: "persistQueues c1 = Some (c1\<lparr>co_disk := (co_disk c)\<lparr>ls_items := x\<rparr>\<rparr>)"
    using assms(4) save_items [of "(queueSnapshot c)(k := q)" "co_disk c"] by (auto simp: persistQueues_def c1_def)
  have r: "r = (let c2 = c1\<lparr>co_disk := (co_disk c)\<lparr>ls_items := x\<rparr>\<rparr> in
      if sl_queue (co_slots c2 k) \<noteq> [] then (c2, [Delivered k d, Push k (hd (sl_queue (co_slots c2 k)))])
      else (let c3 = upd k endLoop c2 in
        if pending (co_slots c3 k) then (c3, [Delivered k d, writeStatus k True c3])
        else (case refreshKind k (upd k (\<lambda>s. s\<lparr>sl_first := Suc (sl_first s)\<rparr>) c3) of (c4, es) \<Rightarrow>
          (c4, [Delivered k d, writeStatus k True c3] @ es))))"
    using assms(1,2) x by (simp add: r_def pushDone_def Let_def c1_def)
  show "delivered k (snd r) = [d]" "sl_queue (co_slots (fst r) k) = q" "sl_blocked (co_slots (fst r) k) = Free"
    "sl_inFlight (co_slots (fst r) k) = (q \<noteq> [])" "q = [] \<Longrightarrow> \<not> sl_drain (co_slots (fst r) k) \<and> sl_read (co_slots (fst r) k) \<noteq> None"
    "\<exists>x. co_disk (fst r) = (co_disk c)\<lparr>ls_items := x\<rparr>" "queueSnapshot (fst r) = (queueSnapshot c)(k := q)"
    using assms(1-3) unfolding r Let_def
    by (auto simp: c1_def endLoop_def pending_def refreshKind_def Let_def queueSnapshot_def fun_eq_iff)
qed

lemma push_loop_run:
  assumes "sl_inFlight (co_slots c k)" "sl_blocked (co_slots c k) = Free" "sl_queue (co_slots c k) = q" "q \<noteq> []"
    and "\<And>i. i \<in> {1..length q} \<Longrightarrow> outbox_save ((queueSnapshot c)(k := drop i q)) (co_disk c) \<noteq> None"
  shows "delivered k (snd (run (replicate (length q) (PushDone k True)) c)) = q
    \<and> (let s = co_slots (fst (run (replicate (length q) (PushDone k True)) c)) k
       in sl_queue s = [] \<and> \<not> sl_inFlight s \<and> \<not> sl_drain s \<and> sl_read s \<noteq> None)"
  using assms
proof (induction q arbitrary: c)
  case (Cons d q)
  define r where "r = pushDone k True c"
  have s0: "outbox_save ((queueSnapshot c)(k := q)) (co_disk c) \<noteq> None" 
  proof -
    have "drop 1 (d # q) = q" by simp
    moreover have "1 \<in> {1..length (d # q)}" by simp
    ultimately show ?thesis using Cons.prems(5) [of 1] by metis
  qed
  note P = pushDone_accepted [OF Cons.prems(1,3,2) s0, folded r_def]
  obtain c1 es where r: "r = (c1, es)" by (cases r)
  show ?case
  proof (cases "q = []")
    case True
    then show ?thesis using P by (simp add: r_def [symmetric] r Let_def)
  next
    case False
    obtain x where x: "co_disk c1 = (co_disk c)\<lparr>ls_items := x\<rparr>" using P(6) by (auto simp: r)
    have "outbox_save ((queueSnapshot c1)(k := drop i q)) (co_disk c1) \<noteq> None" if "i \<in> {1..length q}" for i
    proof -
      have "drop (Suc i) (d # q) = drop i q" "Suc i \<in> {1..length (d # q)}" using that by auto
      then have "outbox_save ((queueSnapshot c)(k := drop i q)) (co_disk c) \<noteq> None" using Cons.prems(5) [of "Suc i"] by metis
      moreover have "(queueSnapshot c1)(k := drop i q) = (queueSnapshot c)(k := drop i q)" using P(7) by (simp add: r)
      ultimately show ?thesis unfolding x saves_again by metis
    qed
    note saves = this
    have "delivered k (snd (run (replicate (length q) (PushDone k True)) c1)) = q
        \<and> (let s = co_slots (fst (run (replicate (length q) (PushDone k True)) c1)) k
           in sl_queue s = [] \<and> \<not> sl_inFlight s \<and> \<not> sl_drain s \<and> sl_read s \<noteq> None)"
      by (rule Cons.IH [OF _ _ _ False saves]) (use P False in \<open>simp_all add: r\<close>)
    then show ?thesis using P(1) by (auto simp add: r_def [symmetric] r Let_def split: prod.splits)
  qed
qed simp


definition wit_pushing :: coord where
  "wit_pushing = upd Ack (\<lambda>s. s\<lparr>sl_queue := [wit_delta, wit_delta], sl_drain := True, sl_inFlight := True\<rparr>) (createCoordinator wit_storage)"

lemma wit_pushing_slot: "sl_queue (co_slots wit_pushing Ack) = [wit_delta, wit_delta]" "sl_inFlight (co_slots wit_pushing Ack)"
  "sl_blocked (co_slots wit_pushing Ack) = Free" "co_disk wit_pushing = wit_storage"
  "queueSnapshot wit_pushing = no_queues(Ack := [wit_delta, wit_delta])"
  by (auto simp: wit_pushing_def wit_create fresh_slot_def queueSnapshot_def no_queues_def)

lemma wit_save_none: "outbox_save no_queues wit_storage \<noteq> None"
proof -
  have "queues_ok no_queues" by (simp add: queues_ok_def no_queues_def)
  then have "cleanQueues (queues_value no_queues) = Some no_queues" by (rule cleanQueues_again)
  then show ?thesis
    by (simp add: outbox_save_def OUTBOX_KINDS_def no_queues_def removeItem_def wit_storage_def Let_def)
qed


end
