(* ===== verification/Poll.thy ===== *)
theory Poll
  imports Format Outbox
begin

text \<open>
  The second half of \<open>src/web/js/model/data.js\<close>: the request for the device list, the merge of
  locally saved display fields into the server's snapshot, the state patch a poll produces, and the
  shared operator state (\<open>pullState\<close>, \<open>pushState\<close>, \<open>ackDelta\<close>).

  The network is outside the code: what one \<open>fetch\<close> does is a value of \<open>answer\<close>. The main facts:
  a sample answer never becomes live data, a locally saved field is shown until the server
  returns it, a failed poll keeps the fleet, and a delta turns the previous map into the next one.
\<close>

section \<open>Network answers\<close>

text \<open>
  \<open>fetch\<close> is missing, it gives a falsy value, it or the body throws (with the name and the message
  of the error), or it answers with a status and a JSON body.
\<close>

datatype answer =
    NoFetch
  | NoReply
  | Threw string string
  | Reply int jsval

definition reply_ok :: "int \<Rightarrow> bool" where
  "reply_ok status \<longleftrightarrow> 200 \<le> status \<and> status < 300"

definition throw_text :: "string \<Rightarrow> string \<Rightarrow> string" where
  "throw_text name msg =
     (let m = (if name = ''AbortError'' then ''timeout'' else msg) in if m \<noteq> [] then m else ''network error'')"

section \<open>The way to the login page\<close>

text \<open>\<open>encodeURIComponent\<close> on characters below 256: UTF-8 bytes, percent-encoded.\<close>

definition uri_plain :: "char \<Rightarrow> bool" where
  "uri_plain c \<longleftrightarrow> is_upper c \<or> is_lower c \<or> is_digit c \<or> c \<in> set ''-_.!~*'' \<or> c \<in> {CHR 0x27, CHR ''('', CHR '')''}"

definition hex_digit :: "nat \<Rightarrow> char" where
  "hex_digit n = (if n < 10 then char_of (48 + n) else char_of (55 + n))"

definition pct :: "nat \<Rightarrow> string" where
  "pct b = [CHR ''%'', hex_digit (b div 16), hex_digit (b mod 16)]"

definition uri_char :: "char \<Rightarrow> string" where
  "uri_char c =
     (if uri_plain c then [c]
      else if code c < 128 then pct (code c)
      else pct (192 + code c div 64) @ pct (128 + code c mod 64))"

definition encodeURIComponent :: "string \<Rightarrow> string" where
  "encodeURIComponent s = concat (map uri_char s)"

definition redirectToLogin :: "string \<Rightarrow> string \<Rightarrow> string \<Rightarrow> string" where
  "redirectToLogin path query frag = ''/login?next='' @ encodeURIComponent (path @ query @ frag)"

section \<open>pull\<close>

record polled =
  pl_devices :: "device list"
  pl_source :: string
  pl_sampleMode :: bool
  pl_events :: "log_event list"
  pl_refreshSec :: jsnum
  pl_polledAt :: int
  pl_stale :: bool
  pl_overall :: string
  pl_thresholds :: "(jsnum \<times> jsnum) option"
  pl_capabilities :: capability
  pl_cacheAgeSec :: "jsnum option"

definition sample_answer_of :: "jsval \<Rightarrow> bool" where
  "sample_answer_of j =
     (let src = lower (str_or (jget j ''source'')) in
      jget j ''sample'' = JBool True \<or> jget j ''demo'' = JBool True \<or> src = ''sample'' \<or> src = ''demo'')"

definition mark_sample :: "device \<Rightarrow> device" where
  "mark_sample d = d\<lparr>d_meta := (d_meta d)\<lparr>m_sample := True, m_demo := True\<rparr>\<rparr>"

definition poll_event :: "jsval \<Rightarrow> log_event" where
  "poll_event e = \<lparr>ev_time = str_or (jget e ''ts''), ev_host = str_or (jget e ''host''),
     ev_label = str_or (jget e ''label''), ev_kind = str_or (jget e ''kind''),
     ev_sev = to_str (jor (jget e ''sev'') (JStr ''info'')), ev_desc = str_or (jget e ''desc'')\<rparr>"

fun num_only :: "jsval \<Rightarrow> jsnum option" where
  "num_only (JNum n) = Some n"
| "num_only _ = None"

definition poll_thresholds :: "jsval \<Rightarrow> (jsnum \<times> jsnum) option" where
  "poll_thresholds j =
     (case (num_only (jget (jget j ''thresholds'') ''warn''), num_only (jget (jget j ''thresholds'') ''crit'')) of
        (Some w, Some c) \<Rightarrow> Some (w, c) | _ \<Rightarrow> None)"

definition poll_body :: "host \<Rightarrow> jsval \<Rightarrow> polled" where
  "poll_body h j =
     (let sample = sample_answer_of j in
      \<lparr>pl_devices = map (\<lambda>d. if sample then mark_sample d else d) (normalize j),
       pl_source = (if sample then ''sample'' else ''live''),
       pl_sampleMode = sample,
       pl_events = map poll_event (take 200 (arr_of (jget j ''events''))),
       pl_refreshSec = (case num_only (jget j ''refreshSec'') of Some n \<Rightarrow> n | None \<Rightarrow> Fin 30),
       pl_polledAt = now h,
       pl_stale = truthy (jget j ''stale''),
       pl_overall = (if jget j ''overall'' \<in> {JStr ''ok'', JStr ''warning'', JStr ''critical''}
                     then to_str (jget j ''overall'') else []),
       pl_thresholds = poll_thresholds j,
       pl_capabilities = normalizeCapabilities (jget j ''capabilities''),
       pl_cacheAgeSec = (case num_only (jget j ''cache_age_secs'') of
          Some n \<Rightarrow> if n_le (Fin 0) n then Some n else None | None \<Rightarrow> None)\<rparr>)"

text \<open>The left side is the error text of \<open>fail\<close>; the flag says that the page leaves for the login.\<close>

definition pull :: "host \<Rightarrow> answer \<Rightarrow> (string + polled) \<times> bool" where
  "pull h a = (case a of
     NoFetch \<Rightarrow> (Inl ''fetch unavailable'', False)
   | NoReply \<Rightarrow> (Inl ''HTTP ?'', False)
   | Threw name msg \<Rightarrow> (Inl (throw_text name msg), False)
   | Reply status j \<Rightarrow>
       if status = 401 then (Inl ''authentication required'', True)
       else if \<not> reply_ok status then (Inl (''HTTP '' @ int_str status), False)
       else (Inr (poll_body h j), False))"

section \<open>Locally saved display fields\<close>

definition LOCAL_EDIT_FIELDS :: "string list" where
  "LOCAL_EDIT_FIELDS = [''label'', ''company'', ''factory'', ''mgmt'', ''assetTag'', ''floorPos'', ''vendor'']"

definition meta_field :: "string \<Rightarrow> dev_meta \<Rightarrow> string" where
  "meta_field k m =
     (if k = ''label'' then m_label m else if k = ''company'' then m_company m
      else if k = ''factory'' then m_factory m else if k = ''mgmt'' then m_mgmt m
      else if k = ''assetTag'' then m_assetTag m else if k = ''floorPos'' then m_floorPos m
      else if k = ''vendor'' then m_vendor m else [])"

definition set_meta_field :: "string \<Rightarrow> string \<Rightarrow> dev_meta \<Rightarrow> dev_meta" where
  "set_meta_field k v m =
     (if k = ''label'' then m\<lparr>m_label := v\<rparr> else if k = ''company'' then m\<lparr>m_company := v\<rparr>
      else if k = ''factory'' then m\<lparr>m_factory := v\<rparr> else if k = ''mgmt'' then m\<lparr>m_mgmt := v\<rparr>
      else if k = ''assetTag'' then m\<lparr>m_assetTag := v\<rparr> else if k = ''floorPos'' then m\<lparr>m_floorPos := v\<rparr>
      else if k = ''vendor'' then m\<lparr>m_vendor := v\<rparr> else m)"

definition edit_of :: "device list \<Rightarrow> string \<Rightarrow> jsval option" where
  "edit_of local i = (case find (\<lambda>d. d_id d = i) local of
     Some ld \<Rightarrow> if is_obj (m_localEdit (d_meta ld)) then Some (m_localEdit (d_meta ld)) else None
   | None \<Rightarrow> None)"

definition edit_fields :: "jsval \<Rightarrow> string list" where
  "edit_fields edit = filter (has_own edit) LOCAL_EDIT_FIELDS"

definition reflected :: "jsval \<Rightarrow> device \<Rightarrow> bool" where
  "reflected edit srv \<longleftrightarrow>
     (\<not> has_own edit ''site'' \<or> d_site srv = str_or (jget edit ''site''))
     \<and> list_all (\<lambda>k. meta_field k (d_meta srv) = str_or (jget edit k)) (edit_fields edit)
     \<and> (\<not> truthy (jget edit ''bmcIp'')
        \<or> truthy (m_bmc (d_meta srv)) \<and> str_or (jget (m_bmc (d_meta srv)) ''ip'') = to_str (jget edit ''bmcIp''))"

definition overlay :: "jsval \<Rightarrow> device \<Rightarrow> device" where
  "overlay edit srv =
     (let m0 = d_meta srv;
          m1 = foldl (\<lambda>m k. set_meta_field k (str_or (jget edit k)) m) m0 (edit_fields edit);
          m2 = (if truthy (jget edit ''bmcIp'') \<and> truthy (m_bmc m1)
                then m1\<lparr>m_bmc := jput ''ip'' (JStr (to_str (jget edit ''bmcIp''))) (obj_copy (m_bmc m1))\<rparr> else m1)
      in srv\<lparr>d_site := (if has_own edit ''site'' then str_or (jget edit ''site'') else d_site srv),
             d_meta := m2\<lparr>m_localEdit := edit\<rparr>\<rparr>)"

definition merge_one :: "device list \<Rightarrow> device \<Rightarrow> device" where
  "merge_one local srv = (case edit_of local (d_id srv) of
     None \<Rightarrow> srv
   | Some edit \<Rightarrow> if reflected edit srv then srv else overlay edit srv)"

definition mergeLocalWrites :: "device list \<Rightarrow> device list \<Rightarrow> device list" where
  "mergeLocalWrites local server = (if local = [] then server else map (merge_one local) server)"

section \<open>The patch of a poll\<close>

text \<open>The two object literals, with the fields they carry.\<close>

datatype patch =
    Polled polled "device list" int
  | Failed string bool int

fun pullPatch :: "host \<Rightarrow> app_state \<Rightarrow> answer \<Rightarrow> thresholds \<Rightarrow> patch \<times> thresholds \<times> bool" where
  "pullPatch h st a th =
     (case pull h a of
        (Inr r, leave) \<Rightarrow>
          (Polled r (if pl_sampleMode r then pl_devices r else mergeLocalWrites (s_fleet st) (pl_devices r)) (now h),
           (case pl_thresholds r of Some (w, c) \<Rightarrow> setUsageThresholds (JNum w) (JNum c) th | None \<Rightarrow> th), leave)
      | (Inl e, leave) \<Rightarrow> (Failed (if e \<noteq> [] then e else ''unreachable'') (isSampleMode st) (now h), th, leave))"

fun patch_liveError :: "patch \<Rightarrow> string" where
  "patch_liveError (Polled r ds t) = (if pl_stale r then ''poller stale'' else [])"
| "patch_liveError (Failed e smp t) = e"

text \<open>The shallow merge of the patch into a state.\<close>

fun apply_patch :: "patch \<Rightarrow> app_state \<Rightarrow> app_state" where
  "apply_patch (Polled r ds t) st = st\<lparr>
     s_fleet := ds, s_source := pl_source r, s_sampleMode := pl_sampleMode r, s_demoMode := pl_sampleMode r,
     s_refreshSec := pl_refreshSec r, s_lastPoll := pl_polledAt r, s_lastAttempt := t, s_pollPending := False,
     s_stale := pl_stale r, s_liveEventLog := Some (pl_events r),
     s_liveError := patch_liveError (Polled r ds t), s_pollerOverall := pl_overall r,
     s_thresholds := pl_thresholds r, s_capabilities := pl_capabilities r, s_cacheAgeSec := pl_cacheAgeSec r\<rparr>"
| "apply_patch (Failed e smp t) st = st\<lparr>
     s_source := (if smp then ''sample'' else ''live''), s_sampleMode := smp, s_demoMode := smp,
     s_liveError := e, s_stale := True, s_lastAttempt := t, s_pollPending := False\<rparr>"

section \<open>Shared operator state\<close>

definition pullState :: "answer \<Rightarrow> jsval option" where
  "pullState a = (case a of Reply status j \<Rightarrow> if reply_ok status \<and> is_map j then Some j else None | _ \<Rightarrow> None)"

text \<open>One attempt was accepted; \<open>retryOnce\<close> is the second attempt, made when the first was not.\<close>

fun accepted_by :: "answer \<Rightarrow> bool" where
  "accepted_by (Reply status j) = reply_ok status"
| "accepted_by _ = False"

definition retryOnce :: "answer \<Rightarrow> bool \<times> nat" where
  "retryOnce second = (accepted_by second, 1)"

text \<open>The result and the number of requests sent, for the answers to the first and the second request.\<close>

definition pushState :: "answer \<Rightarrow> answer \<Rightarrow> bool \<times> nat" where
  "pushState first second =
     (if first = NoFetch then (False, 0)
      else if accepted_by first then (True, 1)
      else (case retryOnce second of (ok, n) \<Rightarrow> (ok, Suc n)))"

definition authoritativeSharedState :: "jsval \<Rightarrow> jsval \<Rightarrow> jsval" where
  "authoritativeSharedState localValue remoteValue =
     (if is_map remoteValue then remoteValue else jor localValue (JObj []))"

text \<open>
  \<open>ackDelta\<close>: \<open>same k\<close> is the identity test \<open>prev[k] === next[k]\<close>, which for two objects looks at
  the references and not at the contents.
\<close>

definition ackDelta :: "(string \<Rightarrow> bool) \<Rightarrow> jsval \<Rightarrow> jsval \<Rightarrow> delta" where
  "ackDelta same prev nxt =
     (let a = jor prev (JObj []); b = jor nxt (JObj []) in
      \<lparr>dl_set = map (\<lambda>k. (k, jget b k)) (filter (\<lambda>k. \<not> same k) (own_keys b)),
       dl_del = filter (\<lambda>k. \<not> has_own b k) (own_keys a)\<rparr>)"

text \<open>What the server does with a delta: \<open>set\<close> entries are written, then \<open>del\<close> keys are removed.\<close>

definition apply_delta :: "delta \<Rightarrow> (string \<rightharpoonup> jsval) \<Rightarrow> (string \<rightharpoonup> jsval)" where
  "apply_delta d m = (\<lambda>k. if k \<in> set (dl_del d) then None
     else (case map_of (dl_set d) k of Some v \<Rightarrow> Some v | None \<Rightarrow> m k))"

fun obj_map :: "jsval \<Rightarrow> (string \<rightharpoonup> jsval)" where
  "obj_map (JObj ps) = map_of ps"
| "obj_map _ = Map.empty"

section \<open>Facts about the login link\<close>

definition unhex :: "char \<Rightarrow> nat" where
  "unhex c = (if code c < 58 then code c - 48 else code c - 55)"

text \<open>A reader of percent-encoded UTF-8 with at most two bytes per character.\<close>

fun uri_bytes :: "string \<Rightarrow> nat list" where
  "uri_bytes [] = []"
| "uri_bytes (c # cs) =
     (if c = CHR ''%'' then
        (case cs of a # b # r \<Rightarrow> (16 * unhex a + unhex b) # uri_bytes r | _ \<Rightarrow> [])
      else code c # uri_bytes cs)"

fun utf8 :: "nat list \<Rightarrow> string" where
  "utf8 [] = []"
| "utf8 (b # bs) =
     (if b < 128 then char_of b # utf8 bs
      else (case bs of c # r \<Rightarrow> char_of ((b - 192) * 64 + (c - 128)) # utf8 r | [] \<Rightarrow> []))"

definition decodeURIComponent :: "string \<Rightarrow> string" where
  "decodeURIComponent s = utf8 (uri_bytes s)"

lemma unhex_hex: "n < 16 \<Longrightarrow> unhex (hex_digit n) = n"
  by (auto simp: unhex_def hex_digit_def code_def)

lemma uri_bytes_pct: "b < 256 \<Longrightarrow> uri_bytes (pct b @ r) = b # uri_bytes r"
  by (simp add: pct_def unhex_hex)

lemma code_less: "code c < 256"
  by (simp add: code_def)

lemma uri_plain_code: "uri_plain c \<Longrightarrow> c \<noteq> CHR ''%'' \<and> code c < 128"
  by (auto simp: uri_plain_def is_upper_def is_lower_def is_digit_def code_def)

lemma char_of_code [simp]: "char_of (code c) = c"
  by (simp add: code_def)

lemma utf8_char: "utf8 (uri_bytes (uri_char c @ r)) = c # utf8 (uri_bytes r)"
proof -
  have lt: "code c div 64 < 4" "code c mod 64 < 64" using code_less [of c] by auto
  have two: "uri_bytes (pct (192 + code c div 64) @ pct (128 + code c mod 64) @ r)
      = (192 + code c div 64) # (128 + code c mod 64) # uri_bytes r"
    using lt by (simp add: uri_bytes_pct)
  consider "uri_plain c" | "\<not> uri_plain c" "code c < 128" | "\<not> uri_plain c" "\<not> code c < 128" by blast
  then show ?thesis
  proof cases
    case 1
    then show ?thesis using uri_plain_code [OF 1] by (simp add: uri_char_def)
  next
    case 2
    then show ?thesis by (simp add: uri_char_def uri_bytes_pct)
  next
    case 3
    then show ?thesis using two by (simp add: uri_char_def)
  qed
qed

lemma decode_encode: "decodeURIComponent (encodeURIComponent s) = s"
  by (induction s) (simp_all add: decodeURIComponent_def encodeURIComponent_def utf8_char)

lemma hex_digit_safe: "n < 16 \<Longrightarrow> hex_digit n \<in> set ''0123456789ABCDEF''"
proof -
  assume "n < 16"
  then have "n \<in> set [0..<16]" by simp
  moreover have "list_all (\<lambda>n. hex_digit n \<in> set ''0123456789ABCDEF'') [0..<16]" by code_simp
  ultimately show ?thesis by (auto simp only: list_all_iff)
qed

definition url_delims :: "string" where
  "url_delims = ''&#?/+ <>'' @ [CHR 0x22]"

lemma url_delims_out:
  assumes "d \<in> set url_delims"
  shows "\<not> uri_plain d \<and> d \<notin> set ''%0123456789ABCDEF''"
proof -
  have "list_all (\<lambda>d. \<not> uri_plain d \<and> d \<notin> set ''%0123456789ABCDEF'') url_delims" by code_simp
  then show ?thesis using assms unfolding list_all_iff by (rule bspec)
qed

lemma set_pct: "b < 256 \<Longrightarrow> set (pct b) \<subseteq> set ''%0123456789ABCDEF''"
  using hex_digit_safe [of "b div 16"] hex_digit_safe [of "b mod 16"] by (auto simp: pct_def)

lemma uri_char_safe: "d \<in> set (uri_char c) \<Longrightarrow> d \<notin> set url_delims"
proof
  assume d: "d \<in> set (uri_char c)" "d \<in> set url_delims"
  have "code c div 64 < 4" "code c mod 64 < 64" using code_less [of c] by auto
  then have "set (uri_char c) \<subseteq> (if uri_plain c then {c} else set ''%0123456789ABCDEF'')"
    using set_pct [of "code c"] set_pct [of "192 + code c div 64"] set_pct [of "128 + code c mod 64"]
    by (simp add: uri_char_def)
  then show False using d url_delims_out [OF d(2)] by (auto simp only: split: if_splits)
qed

lemma encode_safe: "d \<in> set (encodeURIComponent s) \<Longrightarrow> d \<notin> set url_delims"
  using uri_char_safe by (auto simp: encodeURIComponent_def)

section \<open>Facts about the merge\<close>

lemma mergeLocalWrites_map: "mergeLocalWrites local server = map (merge_one local) server"
  by (auto simp: mergeLocalWrites_def merge_one_def edit_of_def intro!: map_idI [symmetric])

lemma meta_field_set:
  "k \<in> set LOCAL_EDIT_FIELDS \<Longrightarrow> k' \<in> set LOCAL_EDIT_FIELDS \<Longrightarrow>
   meta_field k (set_meta_field k' v m) = (if k = k' then v else meta_field k m)"
  by (auto simp: LOCAL_EDIT_FIELDS_def meta_field_def set_meta_field_def)

lemma set_meta_field_bmc [simp]: "m_bmc (set_meta_field k v m) = m_bmc m"
  by (simp add: set_meta_field_def)

lemma foldl_set_meta:
  "k \<in> set LOCAL_EDIT_FIELDS \<Longrightarrow> set ks \<subseteq> set LOCAL_EDIT_FIELDS \<Longrightarrow>
   meta_field k (foldl (\<lambda>m k. set_meta_field k (f k) m) m ks) = (if k \<in> set ks then f k else meta_field k m)"
  by (induction ks arbitrary: m) (auto simp: meta_field_set)

lemma foldl_set_bmc: "m_bmc (foldl (\<lambda>m k. set_meta_field k (f k) m) m ks) = m_bmc m"
  by (induction ks arbitrary: m) auto

lemma meta_field_update [simp]:
  "meta_field k (m\<lparr>m_localEdit := e\<rparr>) = meta_field k m"
  "meta_field k (m\<lparr>m_bmc := b\<rparr>) = meta_field k m"
  by (simp_all add: meta_field_def)

lemma overlay_fields:
  "k \<in> set LOCAL_EDIT_FIELDS \<Longrightarrow>
   meta_field k (d_meta (overlay edit srv)) = (if has_own edit k then str_or (jget edit k) else meta_field k (d_meta srv))"
  by (simp add: overlay_def Let_def foldl_set_meta edit_fields_def)

lemma overlay_bmc:
  "truthy (jget edit ''bmcIp'') \<Longrightarrow> truthy (m_bmc (d_meta srv)) \<Longrightarrow>
   jget (m_bmc (d_meta (overlay edit srv))) ''ip'' = JStr (to_str (jget edit ''bmcIp''))"
  by (simp add: overlay_def Let_def foldl_set_bmc)

lemma overlay_rest:
  "d_id (overlay edit srv) = d_id srv" "d_status (overlay edit srv) = d_status srv"
  "d_cpu0 (overlay edit srv) = d_cpu0 srv" "d_mem0 (overlay edit srv) = d_mem0 srv"
  "d_sync (overlay edit srv) = d_sync srv"
  "m_localEdit (d_meta (overlay edit srv)) = edit"
  "d_site (overlay edit srv) = (if has_own edit ''site'' then str_or (jget edit ''site'') else d_site srv)"
  by (simp_all add: overlay_def Let_def)

section \<open>Facts about the patch\<close>

lemma pull_error_nonempty: "fst (pull h a) = Inl e \<Longrightarrow> e \<noteq> []"
  by (auto simp: pull_def throw_text_def Let_def split: answer.splits if_splits)

lemma pull_sample:
  "fst (pull h a) = Inr r \<Longrightarrow>
     (pl_sampleMode r \<longleftrightarrow> pl_source r = ''sample'') \<and> (pl_source r = ''sample'' \<or> pl_source r = ''live'')
     \<and> (pl_sampleMode r \<longrightarrow> list_all (\<lambda>d. m_sample (d_meta d) \<and> m_demo (d_meta d)) (pl_devices r))"
proof -
  assume "fst (pull h a) = Inr r"
  then obtain status j where "a = Reply status j" "r = poll_body h j"
    by (auto simp: pull_def split: answer.splits if_splits)
  then show ?thesis by (simp add: poll_body_def Let_def mark_sample_def list_all_iff)
qed

lemma pullPatch_Inl:
  "fst (pull h a) = Inl e \<Longrightarrow> fst (pullPatch h st a th) = Failed e (isSampleMode st) (now h)"
  using pull_error_nonempty [of h a e] by (cases "pull h a") auto

lemma pullPatch_Inr:
  "fst (pull h a) = Inr r \<Longrightarrow> fst (pullPatch h st a th) =
     Polled r (if pl_sampleMode r then pl_devices r else mergeLocalWrites (s_fleet st) (pl_devices r)) (now h)"
  by (cases "pull h a") auto

declare pullPatch.simps [simp del]

lemma live_needs:
  "cs_key (collectionState st t) = ''live'' \<Longrightarrow> s_liveError st = [] \<and> \<not> s_stale st \<and> \<not> isSampleMode st"
  by (auto simp: collectionState_def coll_def Let_def split: if_splits)

lemma map_of_selected: "map_of (map (\<lambda>k. (k, f k)) ks) k = (if k \<in> set ks then Some (f k) else None)"
  by (induction ks) auto

lemma apply_delta_ackDelta:
  assumes same: "\<And>k. same k \<Longrightarrow> jget (JObj ps) k = jget (JObj ns) k"
    and vals: "Undef \<notin> snd ` set ns"
  shows "apply_delta (ackDelta same (JObj ps) (JObj ns)) (map_of ps) = map_of ns"
proof
  fix k
  have d: "dl_del (ackDelta same (JObj ps) (JObj ns)) = filter (\<lambda>k. k \<notin> fst ` set ns) (map fst ps)"
    "dl_set (ackDelta same (JObj ps) (JObj ns)) =
       map (\<lambda>k. (k, jget (JObj ns) k)) (filter (\<lambda>k. \<not> same k) (map fst ns))"
    by (simp_all add: ackDelta_def jor_simps Let_def)
  show "apply_delta (ackDelta same (JObj ps) (JObj ns)) (map_of ps) k = map_of ns k"
  proof (cases "map_of ns k")
    case None
    then have n: "k \<notin> fst ` set ns" by (simp add: map_of_eq_None_iff)
    have "map_of ps k = None" if "k \<notin> fst ` set ps" using that by (simp add: map_of_eq_None_iff)
    then show ?thesis using n unfolding None by (simp add: apply_delta_def d map_of_selected)
  next
    case (Some v)
    then have n: "k \<in> fst ` set ns" and v: "v \<noteq> Undef"
      using vals map_of_SomeD [OF Some] by (force, force)
    have "map_of ps k = Some v" if "same k"
      using same [OF that] Some v by (simp split: option.splits)
    then show ?thesis
      using n Some by (auto simp: apply_delta_def d map_of_selected)
  qed
qed

lemma apply_delta_idem: "apply_delta d (apply_delta d m) = apply_delta d m"
  by (auto simp: apply_delta_def fun_eq_iff split: option.splits)

lemma poll_disguise:
  assumes "st' = apply_patch (fst (pullPatch h st a th)) st"
  shows "case fst (pull h a) of
      Inl e \<Rightarrow> s_fleet st' = s_fleet st \<and> s_lastPoll st' = s_lastPoll st \<and> isSampleMode st' = isSampleMode st
        \<and> s_liveError st' = e \<and> e \<noteq> [] \<and> cs_key (collectionState st' t) \<noteq> ''live''
    | Inr r \<Rightarrow> isSampleMode st' = pl_sampleMode r
        \<and> (if pl_sampleMode r
           then s_fleet st' = pl_devices r \<and> list_all (\<lambda>d. m_sample (d_meta d)) (s_fleet st')
             \<and> cs_key (collectionState st' t) \<noteq> ''live''
           else s_fleet st' = mergeLocalWrites (s_fleet st) (pl_devices r))"
proof (cases "fst (pull h a)")
  case (Inl e)
  have st': "st' = apply_patch (Failed e (isSampleMode st) (now h)) st"
    by (simp add: assms pullPatch_Inl [OF Inl])
  have "isSampleMode st' = isSampleMode st" by (simp add: st' isSampleMode_def)
  then show ?thesis using pull_error_nonempty [OF Inl] live_needs [of st' t] by (auto simp: Inl st')
next
  case (Inr r)
  have st': "st' = apply_patch (Polled r (if pl_sampleMode r then pl_devices r
      else mergeLocalWrites (s_fleet st) (pl_devices r)) (now h)) st"
    by (simp only: assms pullPatch_Inr [OF Inr])
  have smp: "isSampleMode st' = pl_sampleMode r"
    using pull_sample [OF Inr] by (auto simp: st' isSampleMode_def)
  have marked: "list_all (\<lambda>d. m_sample (d_meta d)) (pl_devices r)" if "pl_sampleMode r"
    using pull_sample [OF Inr] that by (auto simp: list_all_iff)
  show ?thesis
    using smp marked live_needs [of st' t] unfolding Inr sum.case
    by (auto simp: st')
qed

section \<open>Properties\<close>

text \<open>
  C6. A poll never disguises what it is. When the request fails, the fleet and the time of the last
  success are kept, sample data stays marked as sample data, an error is recorded and the console does
  not say LIVE. When a sample answer arrives, every device shown is marked as a sample, no locally saved field of
  a real device is merged into it, and the console does not say LIVE either.
\<close>

theorem poll_never_disguises:
  "let st' = apply_patch (fst (pullPatch h st a th)) st in
   (case fst (pull h a) of
      Inl e \<Rightarrow> s_fleet st' = s_fleet st \<and> s_lastPoll st' = s_lastPoll st \<and> isSampleMode st' = isSampleMode st
        \<and> s_liveError st' = e \<and> e \<noteq> [] \<and> cs_key (collectionState st' t) \<noteq> ''live''
    | Inr r \<Rightarrow> isSampleMode st' = pl_sampleMode r
        \<and> (if pl_sampleMode r
           then s_fleet st' = pl_devices r \<and> list_all (\<lambda>d. m_sample (d_meta d)) (s_fleet st')
             \<and> cs_key (collectionState st' t) \<noteq> ''live''
           else s_fleet st' = mergeLocalWrites (s_fleet st) (pl_devices r)))"
  unfolding Let_def by (rule poll_disguise [OF refl])

text \<open>
  A locally saved field stays on the screen until the server returns it: whatever the server answers, the
  merged device shows every field of the pending edit of that device (and its site and its management
  controller address), keeps the measured values, and carries the edit on exactly as long as the answer does not reflect it.
\<close>

theorem local_edit_shown:
  assumes "edit_of local (d_id srv) = Some edit"
  shows "mergeLocalWrites local [srv] = [merge_one local srv]
    \<and> (\<forall>k \<in> set (edit_fields edit). meta_field k (d_meta (merge_one local srv)) = str_or (jget edit k))
    \<and> (has_own edit ''site'' \<longrightarrow> d_site (merge_one local srv) = str_or (jget edit ''site''))
    \<and> (truthy (jget edit ''bmcIp'') \<and> truthy (m_bmc (d_meta srv)) \<longrightarrow>
        str_or (jget (m_bmc (d_meta (merge_one local srv))) ''ip'') = to_str (jget edit ''bmcIp''))
    \<and> d_id (merge_one local srv) = d_id srv \<and> d_status (merge_one local srv) = d_status srv
    \<and> d_cpu0 (merge_one local srv) = d_cpu0 srv \<and> d_mem0 (merge_one local srv) = d_mem0 srv
    \<and> m_localEdit (d_meta (merge_one local srv)) = (if reflected edit srv then m_localEdit (d_meta srv) else edit)"
proof -
  have one: "merge_one local srv = (if reflected edit srv then srv else overlay edit srv)"
    by (simp add: merge_one_def assms)
  have "mergeLocalWrites local [srv] = [merge_one local srv]" by (simp add: mergeLocalWrites_map)
  moreover have "k \<in> set (edit_fields edit) \<Longrightarrow> k \<in> set LOCAL_EDIT_FIELDS \<and> has_own edit k" for k
    by (simp add: edit_fields_def)
  ultimately show ?thesis
    unfolding one using overlay_bmc [of edit srv]
    by (auto simp: overlay_rest overlay_fields reflected_def list_all_iff)
qed

definition edited_device :: device where
  "edited_device = (mkDevice ''ev-01'' EV Op (JObj []))\<lparr>d_meta :=
     (normalizeMeta ''ev-01'' (JObj []))\<lparr>m_localEdit := JObj [(''company'', JStr ''ACME'')]\<rparr>\<rparr>"

theorem local_edit_shown_witness:
  "m_company (d_meta (merge_one [edited_device] (mkDevice ''ev-01'' EV Deg (JObj [])))) = ''ACME''"
proof -
  let ?e = "JObj [(''company'', JStr ''ACME'')]" and ?s = "mkDevice ''ev-01'' EV Deg (JObj [])"
  have "edit_of [edited_device] (d_id ?s) = Some ?e"
    by (simp add: edit_of_def edited_device_def mkDevice_def Let_def)
  moreover have "''company'' \<in> set (edit_fields ?e)" by (simp add: edit_fields_def LOCAL_EDIT_FIELDS_def)
  ultimately have "meta_field ''company'' (d_meta (merge_one [edited_device] ?s)) = ''ACME''"
    using local_edit_shown [of "[edited_device]" ?s ?e] by fastforce
  then show ?thesis by (simp add: meta_field_def)
qed

text \<open>
  A delta carries exactly the change: applied to the previous map it gives the next map, for any
  identity test that only identifies equal entries; and delivering it twice is the same as delivering it once, which is
  what makes the retry of \<open>pushState\<close> and the replay of the outbox safe.
\<close>

theorem ackDelta_roundtrip:
  assumes "\<And>k. same k \<Longrightarrow> jget (JObj ps) k = jget (JObj ns) k" and "Undef \<notin> snd ` set ns"
  shows "apply_delta (ackDelta same (JObj ps) (JObj ns)) (obj_map (JObj ps)) = obj_map (JObj ns)
    \<and> apply_delta (ackDelta same (JObj ps) (JObj ns)) (apply_delta (ackDelta same (JObj ps) (JObj ns)) m)
      = apply_delta (ackDelta same (JObj ps) (JObj ns)) m"
  using apply_delta_ackDelta [OF assms] apply_delta_idem by simp

theorem ackDelta_roundtrip_witness:
  "apply_delta (ackDelta (\<lambda>k. k = ''b'') (JObj [(''a'', Null), (''b'', JBool True)]) (JObj [(''b'', JBool True), (''c'', Null)]))
     (map_of [(''a'', Null), (''b'', JBool True)]) = map_of [(''b'', JBool True), (''c'', Null)]"
  using ackDelta_roundtrip [of "\<lambda>k. k = ''b''" "[(''a'', Null), (''b'', JBool True)]" "[(''b'', JBool True), (''c'', Null)]"]
  by simp

text \<open>
  After the login the operator comes back to the page they left: the value of the \<open>next\<close>
  parameter, decoded, is the path with its query and fragment, and no character in it can end
  the parameter, start another one or leave the attribute it is printed into.
\<close>

theorem login_next_roundtrip:
  "decodeURIComponent (drop (length ''/login?next='') (redirectToLogin p q f)) = p @ q @ f
   \<and> set (drop (length ''/login?next='') (redirectToLogin p q f)) \<inter> set url_delims = {}"
  using encode_safe by (auto simp: redirectToLogin_def decode_encode)

end
