(* ===== verification/PollLoop.thy ===== *)
theory PollLoop
  imports Alert Poll
begin

text \<open>
  The collection loop of \<open>src/web/js/app.js\<close>: \<open>computeStale\<close>, the automatic acknowledgement and
  the sweep of expired maintenance windows, the ticks, and \<open>startPull\<close> with its generation token,
  its timer and the visibility handler.

  The loop is a transition system. \<open>lp_armed\<close> are the timeouts the browser has pending, \<open>lp_timer\<close> is the variable
  that holds the last one, and \<open>lp_flight\<close> are the runs that wait for their answer, each with the generation and the
  state it captured before its \<open>await\<close>. The main facts: while the tab is visible exactly one chain of polls is
  alive, its waits stay between 3 and 30 seconds, and an answer is merged with the fleet its run captured.
\<close>

section \<open>Derived state\<close>

definition computeStale :: "host \<Rightarrow> app_state \<Rightarrow> bool" where
  "computeStale h st =
     (if s_liveError st \<noteq> [] then True
      else if s_lastPoll st = 0 then False
      else n_lt (n_mul (n_mul (if n_truthy (s_refreshSec st) then s_refreshSec st else Fin 30) (Fin 3)) (Fin 1000))
             (n_sub (Fin (of_int (now h))) (Fin (of_int (s_lastPoll st)))))"

text \<open>\<open>new Date().toISOString()\<close> for the years 0 to 9999.\<close>

definition pad3 :: "int \<Rightarrow> string" where "pad3 n = pad_left 3 (CHR ''0'') (nat_str n)"

definition iso_text :: "int \<Rightarrow> string" where
  "iso_text t =
     (let r = t mod 86400000; s = r div 1000 in
      case civil_from_days (t div 86400000) of (y, m, d) \<Rightarrow>
        pad4 y @ ''-'' @ pad2 m @ ''-'' @ pad2 d @ ''T'' @
        pad2 (s div 3600) @ '':'' @ pad2 (s mod 3600 div 60) @ '':'' @ pad2 (s mod 60) @ ''.'' @ pad3 (r mod 1000) @ ''Z'')"

definition auto_ack_record :: "host \<Rightarrow> jsval" where
  "auto_ack_record h = JObj [(''ts'', JStr (iso_text (now h))), (''by'', JStr ''serverdesk:auto-ack''),
     (''reason'', JStr ''Automatic acknowledgement after configured stale-alert retention period'')]"

definition applyAutoAck :: "host \<Rightarrow> app_state \<times> onsets \<Rightarrow> app_state \<times> onsets" where
  "applyAutoAck h so =
     (case autoAckDue h (snd so) (fst so) of (due, om') \<Rightarrow>
        if due = [] then (fst so, om')
        else ((fst so)\<lparr>s_ackedAlerts :=
                foldl (\<lambda>m k. if truthy (jget m k) then m else jput k (auto_ack_record h) m)
                  (obj_copy (s_ackedAlerts (fst so))) due\<rparr>, om'))"

definition sweepMaint :: "host \<Rightarrow> app_state \<Rightarrow> app_state" where
  "sweepMaint h st =
     (let ids = expiredMaint h (s_maint st) (now h) in
      if ids = [] then st
      else st\<lparr>s_maint := foldl (\<lambda>m i. jdel i m) (obj_copy (s_maint st)) ids\<rparr>)"

text \<open>
  \<open>applyAlertSound\<close>: the keys heard so far (\<open>None\<close> before the first snapshot), the keys of the model, the switch;
  the result says whether the beep is played.
\<close>

definition applyAlertSound :: "string list \<Rightarrow> bool \<Rightarrow> string list option \<Rightarrow> string list option \<times> bool" where
  "applyAlertSound keys on seen = (case seen of
     None \<Rightarrow> (Some keys, False)
   | Some old \<Rightarrow> (Some keys, list_ex (\<lambda>k. k \<notin> set old) keys \<and> on))"

definition housekeeping :: "host \<Rightarrow> app_state \<times> onsets \<Rightarrow> app_state \<times> onsets" where
  "housekeeping h so = (case applyAutoAck h so of (st, om) \<Rightarrow> (sweepMaint h st, om))"

text \<open>The handler of \<open>startTick\<close>.\<close>

definition tick :: "host \<Rightarrow> app_state \<times> onsets \<Rightarrow> app_state \<times> onsets" where
  "tick h so =
     (let st = fst so in
      if \<not> sg_refresh (s_setg st) then so
      else housekeeping h (st\<lparr>s_tick := Suc (s_tick st), s_stale := computeStale h st\<rparr>, snd so))"

section \<open>The loop\<close>

record loop =
  lp_st :: app_state
  lp_th :: thresholds
  lp_onsets :: onsets
  lp_gen :: nat
  lp_active :: bool
  lp_timer :: "nat option"
  lp_armed :: "nat list"
  lp_next :: nat
  lp_fails :: nat
  lp_flight :: "(nat \<times> app_state) list"

datatype effect = Fetch | Arm nat nat | Leave

text \<open>
  \<open>Settle\<close> is the answer to the \<open>i\<close>-th waiting run; its last argument is the message of an error that a
  listener threw while the patch was being announced.
\<close>

datatype event =
    Settle host nat answer "string option"
  | Fire nat
  | Visible bool
  | PullNow
  | Tick host
  | Local "app_state \<Rightarrow> app_state"

definition BASE_MS :: nat where "BASE_MS = 3000"
definition MAX_MS :: nat where "MAX_MS = 30000"

definition poll_wait :: "nat \<Rightarrow> nat" where
  "poll_wait fails = min MAX_MS (BASE_MS * 2 ^ (fails - 3))"

definition clearTimer :: "loop \<Rightarrow> loop" where
  "clearTimer l = l\<lparr>lp_armed := (case lp_timer l of None \<Rightarrow> lp_armed l | Some i \<Rightarrow> filter (\<lambda>j. j \<noteq> i) (lp_armed l))\<rparr>"

definition setTimer :: "loop \<Rightarrow> loop \<times> effect list" where
  "setTimer l = (l\<lparr>lp_timer := Some (lp_next l), lp_armed := lp_armed l @ [lp_next l], lp_next := Suc (lp_next l)\<rparr>,
     [Arm (lp_next l) (poll_wait (lp_fails l))])"

text \<open>\<open>run\<close> up to its \<open>await\<close>.\<close>

definition startRun :: "loop \<Rightarrow> loop \<times> effect list" where
  "startRun l = (if \<not> lp_active l then (l, [])
     else (l\<lparr>lp_flight := lp_flight l @ [(lp_gen l, lp_st l)]\<rparr>, [Fetch]))"

text \<open>What \<open>run\<close> does with the answer, without the timer.\<close>

definition catch_state :: "host \<Rightarrow> string \<Rightarrow> app_state \<Rightarrow> app_state" where
  "catch_state h msg st = st\<lparr>s_source := ''live'',
     s_liveError := (if msg \<noteq> [] then msg else ''collector request failed''), s_stale := True,
     s_lastAttempt := now h, s_pollPending := False\<rparr>"

definition absorb :: "host \<Rightarrow> app_state \<Rightarrow> answer \<Rightarrow> string option \<Rightarrow> loop \<Rightarrow> loop" where
  "absorb h snap a thrown l =
     (case pullPatch h snap a (lp_th l) of (p, th, leave) \<Rightarrow>
        let merged = apply_patch p (lp_st l);
            st = merged\<lparr>s_stale := computeStale h merged\<rparr>;
            fails = (if patch_liveError p \<noteq> [] then Suc (lp_fails l) else 0)
        in case thrown of
             Some msg \<Rightarrow> l\<lparr>lp_st := catch_state h msg st, lp_th := th, lp_fails := Suc fails\<rparr>
           | None \<Rightarrow> (case housekeeping h (st, lp_onsets l) of (st', om) \<Rightarrow>
               l\<lparr>lp_st := st', lp_th := th, lp_onsets := om, lp_fails := fails\<rparr>))"

definition settle :: "host \<Rightarrow> nat \<Rightarrow> answer \<Rightarrow> string option \<Rightarrow> loop \<Rightarrow> loop \<times> effect list" where
  "settle h i a thrown l =
     (if length (lp_flight l) \<le> i then (l, [])
      else (case lp_flight l ! i of (g, snap) \<Rightarrow>
        let l1 = absorb h snap a thrown (l\<lparr>lp_flight := take i (lp_flight l) @ drop (Suc i) (lp_flight l)\<rparr>);
            leave = (if snd (pull h a) then [Leave] else [])
        in if g \<noteq> lp_gen l then (l1, leave)
           else (case setTimer l1 of (l2, es) \<Rightarrow> (l2, leave @ es))))"

definition restartPull :: "loop \<Rightarrow> loop \<times> effect list" where
  "restartPull l = startRun ((clearTimer l)\<lparr>lp_gen := Suc (lp_gen l)\<rparr>)"

definition pullNow :: "loop \<Rightarrow> loop \<times> effect list" where
  "pullNow l = (if \<not> lp_active l then (l, []) else restartPull l)"

definition onVisibility :: "bool \<Rightarrow> loop \<Rightarrow> loop \<times> effect list" where
  "onVisibility vis l =
     (if vis then restartPull (l\<lparr>lp_active := True\<rparr>) else (clearTimer (l\<lparr>lp_active := False\<rparr>), []))"

definition fire :: "nat \<Rightarrow> loop \<Rightarrow> loop \<times> effect list" where
  "fire i l = (if i \<notin> set (lp_armed l) then (l, [])
     else startRun (l\<lparr>lp_armed := filter (\<lambda>j. j \<noteq> i) (lp_armed l)\<rparr>))"

definition startPull :: "app_state \<Rightarrow> bool \<Rightarrow> loop \<times> effect list" where
  "startPull st visible = startRun \<lparr>lp_st = st, lp_th = USAGE_THRESH, lp_onsets = [], lp_gen = 0, lp_active = visible,
     lp_timer = None, lp_armed = [], lp_next = 0, lp_fails = 0, lp_flight = []\<rparr>"

fun loop_step :: "event \<Rightarrow> loop \<Rightarrow> loop \<times> effect list" where
  "loop_step (Settle h i a thrown) l = settle h i a thrown l"
| "loop_step (Fire i) l = fire i l"
| "loop_step (Visible v) l = onVisibility v l"
| "loop_step PullNow l = pullNow l"
| "loop_step (Tick h) l = (case tick h (lp_st l, lp_onsets l) of (st, om) \<Rightarrow> (l\<lparr>lp_st := st, lp_onsets := om\<rparr>, []))"
| "loop_step (Local f) l = (l\<lparr>lp_st := f (lp_st l)\<rparr>, [])"

inductive loop_reach :: "loop \<Rightarrow> effect list \<Rightarrow> bool" where
  start: "startPull st visible = (l, es) \<Longrightarrow> loop_reach l es"
| step: "loop_reach l es \<Longrightarrow> loop_step e l = (l', es') \<Longrightarrow> loop_reach l' (es @ es')"

section \<open>One chain\<close>

definition chains :: "loop \<Rightarrow> nat" where
  "chains l = length (lp_armed l) + length (filter (\<lambda>r. fst r = lp_gen l) (lp_flight l))"

definition loop_ok :: "loop \<Rightarrow> bool" where
  "loop_ok l \<longleftrightarrow> chains l \<le> 1 \<and> (lp_active l \<longrightarrow> chains l = 1)
     \<and> list_all (\<lambda>i. lp_timer l = Some i) (lp_armed l)
     \<and> list_all (\<lambda>r. fst r \<le> lp_gen l) (lp_flight l)"

lemma clearTimer_empty: "list_all (\<lambda>i. lp_timer l = Some i) (lp_armed l) \<Longrightarrow> lp_armed (clearTimer l) = []"
  by (auto simp: clearTimer_def list_all_iff filter_empty_conv split: option.splits)

lemma clearTimer_other [simp]:
  "lp_gen (clearTimer l) = lp_gen l" "lp_active (clearTimer l) = lp_active l"
  "lp_flight (clearTimer l) = lp_flight l" "lp_st (clearTimer l) = lp_st l"
  by (simp_all add: clearTimer_def)

lemma clearTimer_active: "lp_armed (clearTimer (l\<lparr>lp_active := b\<rparr>)) = lp_armed (clearTimer l)"
  by (cases "lp_timer l") (simp_all add: clearTimer_def)

lemma same_active: "lp_active l \<Longrightarrow> l\<lparr>lp_active := True\<rparr> = l"
  by (cases l) simp

lemma absorb_other [simp]:
  "lp_gen (absorb h s a t l) = lp_gen l" "lp_active (absorb h s a t l) = lp_active l"
  "lp_flight (absorb h s a t l) = lp_flight l" "lp_armed (absorb h s a t l) = lp_armed l"
  "lp_timer (absorb h s a t l) = lp_timer l" "lp_next (absorb h s a t l) = lp_next l"
  by (simp_all add: absorb_def Let_def split: prod.splits option.splits)

lemma startRun_active:
  assumes "lp_active l" "lp_armed l = []" "list_all (\<lambda>r. fst r < lp_gen l) (lp_flight l)"
  shows "loop_ok (fst (startRun l))"
proof -
  have "filter (\<lambda>r. fst r = lp_gen l) (lp_flight l) = []"
    using assms(3) by (auto simp: list_all_iff filter_empty_conv)
  then show ?thesis using assms by (auto simp: startRun_def loop_ok_def chains_def list_all_iff)
qed

lemma loop_ok_clear: "loop_ok l \<Longrightarrow> lp_armed (clearTimer l) = []"
  by (simp add: loop_ok_def clearTimer_empty)

lemma restartPull_ok:
  assumes "loop_ok l"
  shows "loop_ok (fst (restartPull (l\<lparr>lp_active := True\<rparr>)))"
  unfolding restartPull_def
  by (rule startRun_active)
    (use assms loop_ok_clear [OF assms] in \<open>auto simp: loop_ok_def list_all_iff clearTimer_active less_Suc_eq_le\<close>)

lemma onVisibility_ok: "loop_ok l \<Longrightarrow> loop_ok (fst (onVisibility v l))"
proof (cases v)
  case False
  assume l: "loop_ok l"
  have "lp_armed (clearTimer (l\<lparr>lp_active := False\<rparr>)) = []"
    using loop_ok_clear [OF l] by (simp add: clearTimer_active)
  then show ?thesis using l False by (simp add: onVisibility_def loop_ok_def chains_def)
qed (simp add: onVisibility_def restartPull_ok)

lemma pullNow_ok: "loop_ok l \<Longrightarrow> loop_ok (fst (pullNow l))"
  using restartPull_ok [of l] by (cases "lp_active l") (simp_all add: pullNow_def same_active)

lemma loop_ok_armed: "loop_ok l \<Longrightarrow> lp_armed l = [] \<or> (\<exists>i. lp_armed l = [i] \<and> filter (\<lambda>r. fst r = lp_gen l) (lp_flight l) = [])"
  by (cases "lp_armed l") (auto simp: loop_ok_def chains_def)

lemma fire_ok: "loop_ok l \<Longrightarrow> loop_ok (fst (fire i l))"
proof -
  assume l: "loop_ok l"
  show ?thesis
  proof (cases "i \<in> set (lp_armed l)")
    case True
    then have a: "lp_armed l = [i]" "filter (\<lambda>r. fst r = lp_gen l) (lp_flight l) = []" using loop_ok_armed [OF l] by auto
    then show ?thesis
      using l by (auto simp: fire_def startRun_def loop_ok_def chains_def)
  qed (simp add: fire_def l)
qed

lemma filter_remove_nth:
  "i < length xs \<Longrightarrow> length (filter P xs) = length (filter P (take i xs @ drop (Suc i) xs)) + (if P (xs ! i) then 1 else 0)"
proof -
  assume "i < length xs"
  then have "xs = take i xs @ xs ! i # drop (Suc i) xs" by (rule id_take_nth_drop)
  then have "length (filter P xs) = length (filter P (take i xs @ xs ! i # drop (Suc i) xs))" by simp
  then show ?thesis by simp
qed

lemma list_all_remove_nth: "list_all P xs \<Longrightarrow> list_all P (take i xs @ drop (Suc i) xs)"
  by (auto simp: list_all_iff dest: in_set_takeD in_set_dropD)

lemma settle_ok: "loop_ok l \<Longrightarrow> loop_ok (fst (settle h i a t l))"
proof -
  assume l: "loop_ok l"
  show ?thesis
  proof (cases "i < length (lp_flight l)")
    case True
    obtain g snap where r: "lp_flight l ! i = (g, snap)" by force
    let ?fl = "take i (lp_flight l) @ drop (Suc i) (lp_flight l)"
    note cnt = filter_remove_nth [OF True, of "\<lambda>r. fst r = lp_gen l", unfolded r fst_conv]
    have fl: "list_all (\<lambda>r. fst r \<le> lp_gen l) ?fl" using l list_all_remove_nth by (auto simp only: loop_ok_def)
    show ?thesis
    proof (cases "g = lp_gen l")
      case False
      then show ?thesis
        using l True cnt fl by (simp add: settle_def r Let_def loop_ok_def chains_def)
    next
      case cur: True
      then have "lp_armed l = []" "length (filter (\<lambda>r. fst r = lp_gen l) ?fl) = 0"
        using l cnt by (auto simp: loop_ok_def chains_def)
      then show ?thesis
        using True fl cur by (simp add: settle_def r Let_def setTimer_def loop_ok_def chains_def)
    qed
  qed (simp add: settle_def l)
qed

lemma loop_ok_data [simp]:
  "loop_ok (l\<lparr>lp_st := s\<rparr>) = loop_ok l" "loop_ok (l\<lparr>lp_onsets := s2\<rparr>) = loop_ok l"
  by (simp_all add: loop_ok_def chains_def)

lemma loop_step_ok: "loop_ok l \<Longrightarrow> loop_ok (fst (loop_step e l))"
  by (cases e) (auto simp: settle_ok fire_ok onVisibility_ok pullNow_ok split: prod.splits)

lemma startPull_ok: "loop_ok (fst (startPull st v))"
  by (simp add: startPull_def startRun_def loop_ok_def chains_def)

lemma loop_reach_ok: "loop_reach l es \<Longrightarrow> loop_ok l"
proof (induction rule: loop_reach.induct)
  case (start st visible l es)
  then show ?case using startPull_ok [of st visible] by simp
next
  case (step l es e l' es')
  then show ?case using loop_step_ok [of l e] by simp
qed

section \<open>The abstract chain\<close>

text \<open>
  What the loop promises: one chain that is stopped, waits for an answer, or has its next poll scheduled.
  \<open>hits\<close> says that the event concerns that chain (its answer, its timer).
\<close>

datatype chain = Stopped | Waiting | Scheduled

definition chain_of :: "loop \<Rightarrow> chain" where
  "chain_of l = (if lp_armed l \<noteq> [] then Scheduled
     else if filter (\<lambda>r. fst r = lp_gen l) (lp_flight l) \<noteq> [] then Waiting else Stopped)"

fun hits :: "event \<Rightarrow> loop \<Rightarrow> bool" where
  "hits (Settle h i a t) l = (i < length (lp_flight l) \<and> fst (lp_flight l ! i) = lp_gen l)"
| "hits (Fire i) l = (i \<in> set (lp_armed l))"
| "hits _ l = True"

fun chain_step :: "bool \<Rightarrow> event \<Rightarrow> chain \<Rightarrow> chain" where
  "chain_step active (Settle h i a t) c = Scheduled"
| "chain_step active (Fire i) c = (if active then Waiting else Stopped)"
| "chain_step active (Visible v) c = (if v then Waiting else if c = Scheduled then Stopped else c)"
| "chain_step active PullNow c = (if active then Waiting else c)"
| "chain_step active (Tick h) c = c"
| "chain_step active (Local f) c = c"

lemma chain_of_data [simp]:
  "chain_of (l\<lparr>lp_st := s\<rparr>) = chain_of l" "chain_of (l\<lparr>lp_onsets := s2\<rparr>) = chain_of l"
  by (simp_all add: chain_of_def)

lemma chain_restart: "loop_ok l \<Longrightarrow> chain_of (fst (restartPull (l\<lparr>lp_active := True\<rparr>))) = Waiting"
  using loop_ok_clear [of l] by (simp add: restartPull_def startRun_def chain_of_def clearTimer_active)

lemma chain_settle:
  assumes "loop_ok l"
  shows "chain_of (fst (settle h i a t l)) = (if hits (Settle h i a t) l then Scheduled else chain_of l)"
proof (cases "i < length (lp_flight l)")
  case True
  obtain g snap where r: "lp_flight l ! i = (g, snap)" by force
  have nle: "\<not> length (lp_flight l) \<le> i" using True by simp
  note cnt = filter_remove_nth [OF True, of "\<lambda>r. fst r = lp_gen l", unfolded r fst_conv]
  show ?thesis
  proof (cases "g = lp_gen l")
    case False
    then have "filter (\<lambda>r. fst r = lp_gen l) (take i (lp_flight l) @ drop (Suc i) (lp_flight l)) = []
        \<longleftrightarrow> filter (\<lambda>r. fst r = lp_gen l) (lp_flight l) = []"
      using cnt by (simp flip: length_0_conv)
    then show ?thesis using False True by (simp add: settle_def r Let_def chain_of_def)
  qed (simp add: settle_def r Let_def chain_of_def setTimer_def True nle)
qed (simp add: settle_def)

lemma chain_fire:
  assumes "loop_ok l" "i \<in> set (lp_armed l)"
  shows "chain_of (fst (fire i l)) = (if lp_active l then Waiting else Stopped)"
proof -
  have "lp_armed l = [i]" "filter (\<lambda>r. fst r = lp_gen l) (lp_flight l) = []"
    using loop_ok_armed [OF assms(1)] assms(2) by auto
  then show ?thesis by (simp add: fire_def startRun_def chain_of_def)
qed

lemma chain_visible:
  assumes "loop_ok l"
  shows "chain_of (fst (onVisibility v l)) = chain_step (lp_active l) (Visible v) (chain_of l)"
proof (cases v)
  case False
  have "lp_armed (clearTimer (l\<lparr>lp_active := False\<rparr>)) = []"
    using loop_ok_clear [OF assms] by (simp add: clearTimer_active)
  then show ?thesis using False loop_ok_armed [OF assms] by (auto simp: onVisibility_def chain_of_def)
qed (simp add: onVisibility_def chain_restart assms)

lemma loop_refines:
  assumes "loop_ok l"
  shows "chain_of (fst (loop_step e l)) = (if hits e l then chain_step (lp_active l) e (chain_of l) else chain_of l)"
proof (cases e)
  case (Fire i)
  then show ?thesis using chain_fire [OF assms, of i] by (cases "i \<in> set (lp_armed l)") (simp_all add: fire_def)
next
  case PullNow
  then show ?thesis using chain_restart [OF assms] by (cases "lp_active l") (simp_all add: pullNow_def same_active)
qed (simp_all add: chain_settle chain_visible assms split: prod.splits)

section \<open>Waits\<close>

text \<open>
  What the answers so far were: a failure is an answer that could not be used or that the poller marks as stale, and a listener may have thrown.
  \<open>fail_count\<close> is the number of failures since the last good answer.
\<close>

definition answer_failed :: "host \<Rightarrow> answer \<Rightarrow> bool" where
  "answer_failed h a = (case fst (pull h a) of Inl e \<Rightarrow> True | Inr r \<Rightarrow> pl_stale r)"

fun outcome_of :: "event \<Rightarrow> loop \<Rightarrow> (bool \<times> bool) list" where
  "outcome_of (Settle h i a thrown) l = (if i < length (lp_flight l) then [(answer_failed h a, thrown \<noteq> None)] else [])"
| "outcome_of _ l = []"

definition poll_history :: "app_state \<Rightarrow> bool \<Rightarrow> event list \<Rightarrow> loop \<times> (bool \<times> bool) list" where
  "poll_history st visible evs = foldl (\<lambda>(l, as) e. (fst (loop_step e l), as @ outcome_of e l)) (fst (startPull st visible), []) evs"

definition fail_count :: "(bool \<times> bool) list \<Rightarrow> nat" where
  "fail_count as = foldl (\<lambda>n (failed, threw). (if failed then Suc n else 0) + (if threw then 1 else 0)) 0 as"

lemma fail_count_snoc [simp]:
  "fail_count [] = 0" "fail_count (as @ [(f, t)]) = (if f then Suc (fail_count as) else 0) + (if t then 1 else 0)"
  by (simp_all add: fail_count_def)

lemma fail_count_streak: "fail_count (as @ (False, False) # replicate k (True, False)) = k"
proof (induction k)
  case 0
  then show ?case by (simp add: fail_count_def)
next
  case (Suc k)
  have "as @ (False, False) # replicate (Suc k) (True, False) = (as @ (False, False) # replicate k (True, False)) @ [(True, False)]"
    by (simp add: replicate_append_same)
  then show ?case using Suc fail_count_snoc(2) by presburger
qed

lemma pull_error: "fst (pull h a) = Inl e \<Longrightarrow> e \<noteq> []"
  by (auto simp: pull_def throw_text_def split: answer.splits if_splits)

lemma patch_failed: "patch_liveError (fst (pullPatch h st a th)) \<noteq> [] \<longleftrightarrow> answer_failed h a"
proof (cases "fst (pull h a)")
  case (Inl e)
  then show ?thesis using pull_error [OF Inl] by (cases "pull h a") (simp add: pullPatch.simps answer_failed_def)
next
  case (Inr r)
  then show ?thesis by (simp add: pullPatch_Inr answer_failed_def)
qed

lemma absorb_fails: "lp_fails (absorb h s a t l) = (if answer_failed h a then Suc (lp_fails l) else 0) + (if t \<noteq> None then 1 else 0)"
  using patch_failed [of h s a "lp_th l"] by (auto simp: absorb_def Let_def split: prod.splits option.splits)

lemma clearTimer_fails [simp]: "lp_fails (clearTimer l) = lp_fails l"
  by (simp add: clearTimer_def)

lemma startRun_fails [simp]: "lp_fails (fst (startRun l)) = lp_fails l" "Arm i w \<notin> set (snd (startRun l))"
  by (simp_all add: startRun_def)

lemma settle_wait:
  "lp_fails (fst (settle h j a t l)) = (if j < length (lp_flight l) then (if answer_failed h a then Suc (lp_fails l) else 0) + (if t \<noteq> None then 1 else 0)
     else lp_fails l)"
  "Arm i w \<in> set (snd (settle h j a t l)) \<Longrightarrow> w = poll_wait (lp_fails (fst (settle h j a t l)))"
  by (auto simp: settle_def setTimer_def absorb_fails Let_def split: prod.splits if_splits)

lemma step_fails: "lp_fails l = fail_count as \<Longrightarrow> lp_fails (fst (loop_step e l)) = fail_count (as @ outcome_of e l)"
  by (cases e) (auto simp: settle_wait(1) fire_def onVisibility_def pullNow_def restartPull_def split: prod.splits)

lemma step_wait: "Arm i w \<in> set (snd (loop_step e l)) \<Longrightarrow> w = poll_wait (lp_fails (fst (loop_step e l)))"
  by (cases e) (auto simp: settle_wait(2) fire_def onVisibility_def pullNow_def restartPull_def split: prod.splits if_splits)

lemma history_fails: "poll_history st v evs = (l, as) \<Longrightarrow> lp_fails l = fail_count as"
proof (induction evs arbitrary: l as rule: rev_induct)
  case Nil
  then show ?case by (auto simp: poll_history_def startPull_def)
next
  case (snoc e evs)
  obtain l0 as0 where h: "poll_history st v evs = (l0, as0)" by (cases "poll_history st v evs")
  then show ?case using snoc step_fails [of l0 as0 e] by (auto simp: poll_history_def)
qed

section \<open>Housekeeping\<close>

lemma foldl_jdel: "foldl (\<lambda>m i. jdel i m) (JObj ps) ids = JObj (filter (\<lambda>p. fst p \<notin> set ids) ps)"
  by (induction ids arbitrary: ps) (auto simp: adel_def intro: filter_cong)

lemma map_of_filter_keys: "P k \<Longrightarrow> map_of (filter (\<lambda>p. P (fst p)) ps) k = map_of ps k"
  by (induction ps) auto

lemma map_filter_filter:
  "(\<And>k. k \<in> set ks \<Longrightarrow> \<not> P k \<Longrightarrow> f k = None) \<Longrightarrow> List.map_filter f (filter P ks) = List.map_filter f ks"
proof (induction ks)
  case (Cons a ks)
  then show ?case by (cases "P a") (simp_all add: List.map_filter_simps split: option.splits)
qed simp

lemma map_filter_cong: "(\<And>k. k \<in> set ks \<Longrightarrow> f k = g k) \<Longrightarrow> List.map_filter f ks = List.map_filter g ks"
  by (induction ks) (simp_all add: List.map_filter_simps split: option.splits)

lemma obj_copy_JObj: "\<exists>ps. obj_copy v = JObj ps"
  by (cases v) auto

lemma sweepMaint_maint:
  "obj_copy (s_maint st) = JObj ps \<Longrightarrow>
   as_map (s_maint (sweepMaint h st)) = JObj (filter (\<lambda>p. fst p \<notin> set (expiredMaint h (s_maint st) (now h))) ps)"
  by (simp add: sweepMaint_def Let_def foldl_jdel as_map_def)

lemma sweep_result:
  shows "expiredMaint h (s_maint (sweepMaint h st)) (now h) = []
    \<and> activeMaint h (s_maint (sweepMaint h st)) (now h) = activeMaint h (s_maint st) (now h)"
proof -
  obtain ps where ps: "obj_copy (s_maint st) = JObj ps" using obj_copy_JObj by blast
  define ids where "ids = expiredMaint h (s_maint st) (now h)"
  let ?w = "\<lambda>k. jor (jget (JObj ps) k) (JObj [])"
  have new: "as_map (s_maint (sweepMaint h st)) = JObj (filter (\<lambda>p. fst p \<notin> set ids) ps)"
    using sweepMaint_maint [OF ps] by (simp add: ids_def)
  have old: "as_map (s_maint st) = JObj ps" by (simp add: as_map_def ps)
  have w: "jor (jget (JObj (filter (\<lambda>p. fst p \<notin> set ids) ps)) k) (JObj []) = ?w k" if "k \<notin> set ids" for k
    using map_of_filter_keys [of "\<lambda>k. k \<notin> set ids" k ps] that by simp
  have keys: "map fst (filter (\<lambda>p. fst p \<notin> set ids) ps) = filter (\<lambda>k. k \<notin> set ids) (map fst ps)"
    by (simp add: filter_map comp_def)
  have exp: "k \<in> set (map fst ps) \<Longrightarrow> k \<in> set ids \<longleftrightarrow> (case window_end h (?w k) of Some e \<Rightarrow> e \<le> now h | None \<Rightarrow> True)" for k
    by (simp add: ids_def expiredMaint_def old)
  have "expiredMaint h (s_maint (sweepMaint h st)) (now h) = []"
    unfolding expiredMaint_def new Let_def own_keys.simps keys filter_empty_conv
  proof
    fix k assume "k \<in> set (filter (\<lambda>k. k \<notin> set ids) (map fst ps))"
    then have "k \<in> set (map fst ps)" "k \<notin> set ids" by auto
    then show "\<not> (case window_end h (jor (jget (JObj (filter (\<lambda>p. fst p \<notin> set ids) ps)) k) (JObj [])) of
        None \<Rightarrow> True | Some e \<Rightarrow> e \<le> now h)"
      using exp [of k] w [of k] by (simp only: simp_thms)
  qed
  moreover have "activeMaint h (s_maint (sweepMaint h st)) (now h) = activeMaint h (s_maint st) (now h)"
  proof -
    let ?f = "\<lambda>k. case window_end h (?w k) of Some e \<Rightarrow> if now h < e then Some (k, ?w k) else None | None \<Rightarrow> None"
    have "activeMaint h (s_maint (sweepMaint h st)) (now h) = List.map_filter ?f (filter (\<lambda>k. k \<notin> set ids) (map fst ps))"
      unfolding activeMaint_def new Let_def own_keys.simps keys
      by (rule map_filter_cong) (simp only: set_filter mem_Collect_eq w simp_thms)
    also have "\<dots> = List.map_filter ?f (map fst ps)"
      by (rule map_filter_filter) (use exp in \<open>auto simp del: jget.simps split: option.splits\<close>)
    also have "\<dots> = activeMaint h (s_maint st) (now h)"
      by (simp only: activeMaint_def old Let_def own_keys.simps)
    finally show ?thesis .
  qed
  ultimately show ?thesis by blast
qed

lemma foldl_ack_keeps:
  "is_map m \<Longrightarrow> truthy (jget m k) \<Longrightarrow>
   jget (foldl (\<lambda>m k. if truthy (jget m k) then m else jput k r m) m ks) k = jget m k"
proof (induction ks arbitrary: m)
  case (Cons a ks)
  have "jget (jput a r m) k = jget m k" if "\<not> truthy (jget m a)" using Cons.prems that by auto
  then show ?case
    using Cons.prems Cons.IH [OF is_map_jput [of a r m]] by (simp add: Cons.IH)
qed simp

lemma applyAutoAck_keeps:
  assumes "truthy (jget (as_map (s_ackedAlerts st)) k)"
  shows "jget (as_map (s_ackedAlerts (fst (applyAutoAck h (st, om))))) k = jget (as_map (s_ackedAlerts st)) k"
proof -
  have m: "is_map (foldl (\<lambda>m k. if truthy (jget m k) then m else jput k r m) m ks)" if "is_map m" for r m ks
    using that by (induction ks arbitrary: m) auto
  show ?thesis
    using assms foldl_ack_keeps [of "obj_copy (s_ackedAlerts st)" k] m [of "obj_copy (s_ackedAlerts st)"]
    by (auto simp: applyAutoAck_def as_map_def as_map_id [unfolded as_map_def] split: prod.splits)
qed

section \<open>Answers and edits\<close>

lemma housekeeping_fleet [simp]: "s_fleet (fst (housekeeping h (st, om))) = s_fleet st"
  by (simp add: housekeeping_def applyAutoAck_def sweepMaint_def Let_def split: prod.splits)

lemma housekeeping_fleet_eq: "housekeeping h (st, om) = (st', om') \<Longrightarrow> s_fleet st' = s_fleet st"
  using housekeeping_fleet [of h st om] by simp

lemma absorb_fleet:
  "fst (pull h a) = Inr r \<Longrightarrow> s_fleet (lp_st (absorb h snap a t l)) =
     (if pl_sampleMode r then pl_devices r else mergeLocalWrites (s_fleet snap) (pl_devices r))"
  using pullPatch_Inr [of h a r snap "lp_th l"]
  by (auto simp: absorb_def Let_def catch_state_def housekeeping_fleet_eq split: prod.splits option.splits)

lemma settle_fleet:
  assumes "i < length (lp_flight l)" "fst (pull h a) = Inr r"
  shows "s_fleet (lp_st (fst (settle h i a t l))) =
     (if pl_sampleMode r then pl_devices r else mergeLocalWrites (s_fleet (snd (lp_flight l ! i))) (pl_devices r))"
  using assms(1)
  by (simp add: settle_def Let_def setTimer_def absorb_fleet [OF assms(2)] split: prod.splits)

section \<open>Properties\<close>

text \<open>
  C7. The console polls through exactly one chain: in every state the loop can reach, at most one timer or current request
  exists, and while the tab is visible there is exactly one, so polling neither stops nor
  multiplies when the tab is hidden and shown, when the operator retries, or when late answers arrive.
\<close>

theorem poll_single_chain:
  assumes "loop_reach l es"
  shows "chains l \<le> 1 \<and> (lp_active l \<longrightarrow> chains l = 1) \<and> (lp_armed l \<noteq> [] \<longrightarrow> lp_timer l = Some (hd (lp_armed l)))"
  using loop_reach_ok [OF assms] by (cases "lp_armed l") (auto simp: loop_ok_def)

definition shown_twice :: "loop \<times> effect list" where
  "shown_twice = (let l0 = fst (startPull initialState True) in
     let l1 = fst (loop_step (Visible False) l0) in loop_step (Visible True) l1)"

lemma shown_twice_reach: "\<exists>es. loop_reach (fst shown_twice) es"
proof -
  obtain l0 e0 where 0: "startPull initialState True = (l0, e0)" by (cases "startPull initialState True")
  obtain l1 e1 where 1: "loop_step (Visible False) l0 = (l1, e1)" by (cases "loop_step (Visible False) l0")
  obtain l2 e2 where 2: "loop_step (Visible True) l1 = (l2, e2)" by (cases "loop_step (Visible True) l1")
  have "loop_reach l2 ((e0 @ e1) @ e2)"
    by (rule loop_reach.step [OF loop_reach.step [OF loop_reach.start [OF 0] 1] 2])
  moreover have "shown_twice = (l2, e2)" unfolding shown_twice_def Let_def 0 fst_conv 1 2 ..
  ultimately show ?thesis by (metis fst_conv)
qed

theorem poll_single_chain_witness:
  "length (lp_flight (fst shown_twice)) = 2 \<and> chains (fst shown_twice) = 1"
proof -
  have "lp_active (fst shown_twice)" "length (lp_flight (fst shown_twice)) = 2"
    by (simp_all add: shown_twice_def startPull_def startRun_def onVisibility_def restartPull_def clearTimer_def Let_def)
  then show ?thesis using shown_twice_reach poll_single_chain by blast
qed

text \<open>
  C8. The loop implements a three-state chain (stopped, waiting for an answer, scheduled): an
  answer to the current run schedules the next poll whatever the answer was, its timer starts the next run exactly while the
  tab is visible, showing the tab starts a run at once, and so does the operator's retry while the tab is visible; hiding the tab cancels the
  timer but not a request; and an answer to an older run, a timer that was cleared, a retry while the tab is hidden, a tick and a change of the state leave the chain
  as it is.
\<close>

theorem poll_loop_refines_chain:
  assumes "loop_reach l es"
  shows "chain_of (fst (loop_step e l)) = (if hits e l then chain_step (lp_active l) e (chain_of l) else chain_of l)"
  using loop_refines [OF loop_reach_ok [OF assms]] .

theorem poll_loop_refines_chain_witness:
  "chain_of (fst (loop_step (Settle code_host 1 NoReply None) (fst shown_twice))) = Scheduled"
proof -
  obtain es where r: "loop_reach (fst shown_twice) es" using shown_twice_reach by blast
  have "hits (Settle code_host 1 NoReply None) (fst shown_twice)"
    by (simp add: shown_twice_def startPull_def startRun_def onVisibility_def restartPull_def clearTimer_def Let_def)
  then show ?thesis using poll_loop_refines_chain [OF r, of "Settle code_host 1 NoReply None"] by simp
qed

text \<open>
  C37. The back-off follows the failures and is bounded: whatever has happened, a timer the loop sets waits 3 seconds, doubled for each failure after the
  third since the last good answer, and 30 seconds at most; so it is 3 seconds up to the third failure in a row and 30 seconds from the seventh on. A failure is an answer that could not be used
  or that the poller marks as stale; a listener that throws counts as one as well.
\<close>

theorem poll_wait_bounds:
  assumes "poll_history st visible evs = (l, as)" and "Arm i w \<in> set (snd (loop_step e l))" and "n = fail_count (as @ outcome_of e l)"
  shows "w = min 30000 (3000 * 2 ^ (n - 3)) \<and> 3000 \<le> w \<and> w \<le> 30000 \<and> (n \<le> 3 \<longrightarrow> w = 3000) \<and> (7 \<le> n \<longrightarrow> w = 30000)
    \<and> fail_count (bs @ (False, False) # replicate k (True, False)) = k"
proof -
  have w: "w = poll_wait n" using step_wait [OF assms(2)] step_fails [OF history_fails [OF assms(1)], of e] assms(3) by simp
  have "7 \<le> n \<Longrightarrow> poll_wait n = 30000"
  proof -
    assume "7 \<le> n"
    then have "2 ^ 4 \<le> (2 :: nat) ^ (n - 3)" by (intro power_increasing) auto
    then show ?thesis by (simp add: poll_wait_def BASE_MS_def MAX_MS_def)
  qed
  then show ?thesis using w fail_count_streak by (simp add: poll_wait_def BASE_MS_def MAX_MS_def)
qed

definition fails_then :: "nat \<Rightarrow> event list" where
  "fails_then k = concat (map (\<lambda>i. [Settle code_host 0 NoReply None, Fire i]) [0..<k])"

text \<open>The fourth failure in a row: six seconds.\<close>

theorem poll_wait_bounds_witness:
  "Arm 3 6000 \<in> set (snd (loop_step (Settle code_host 0 NoReply None) (fst (poll_history initialState True (fails_then 3)))))"
proof -
  obtain l as where h: "poll_history initialState True (fails_then 3) = (l, as)" by (cases "poll_history initialState True (fails_then 3)")
  have f: "answer_failed code_host NoReply" by (simp add: answer_failed_def pull_def)
  have k: "lp_flight (absorb h s a t x) = lp_flight x" for h s a t x by simp
  have "[0..<3] = [0, 1, 2 :: nat]" by (simp add: upt_rec)
  then have l: "length (lp_flight l) = 1 \<and> fst (lp_flight l ! 0) = lp_gen l \<and> lp_next l = 3 \<and> as = replicate 3 (True, False)"
    using h by (auto simp: poll_history_def fails_then_def startPull_def startRun_def settle_def setTimer_def fire_def Let_def f numeral_3_eq_3)
  then have "Arm 3 (poll_wait (lp_fails (fst (loop_step (Settle code_host 0 NoReply None) l))))
      \<in> set (snd (loop_step (Settle code_host 0 NoReply None) l))"
    by (cases "lp_flight l ! 0") (auto simp: settle_def setTimer_def Let_def pull_def)
  from poll_wait_bounds [OF h this refl, of "[]" 0] this
  have "Arm 3 6000 \<in> set (snd (loop_step (Settle code_host 0 NoReply None) l))"
    using l by (simp add: f fail_count_def numeral_3_eq_3)
  then show ?thesis unfolding h fst_conv .
qed

text \<open>
  Housekeeping after a poll is safe: the sweep leaves no expired maintenance window, keeps every active one as it
  was, and the automatic acknowledgement never touches an existing acknowledgement nor the fleet.
\<close>

theorem housekeeping_safe:
  assumes "truthy (jget (as_map (s_ackedAlerts st)) k)"
  shows "expiredMaint h (s_maint (sweepMaint h st)) (now h) = []
    \<and> activeMaint h (s_maint (sweepMaint h st)) (now h) = activeMaint h (s_maint st) (now h)
    \<and> jget (as_map (s_ackedAlerts (fst (applyAutoAck h (st, om))))) k = jget (as_map (s_ackedAlerts st)) k
    \<and> s_fleet (fst (housekeeping h (st, om))) = s_fleet st"
  using sweep_result applyAutoAck_keeps [OF assms] by simp

theorem housekeeping_safe_witness:
  "expiredMaint code_host (s_maint (sweepMaint code_host (initialState\<lparr>s_ackedAlerts := JObj [(''k'', JBool True)],
     s_maint := JObj [(''ev-01'', JObj [])]\<rparr>))) (now code_host) = []"
  using housekeeping_safe [of "initialState\<lparr>s_ackedAlerts := JObj [(''k'', JBool True)],
     s_maint := JObj [(''ev-01'', JObj [])]\<rparr>" "''k''" code_host "[]"] by (simp add: as_map_def)

text \<open>
  C38. A display edit saved while a poll is on its way is lost: the answer is merged with the fleet the run
  captured before its request, so whatever the fleet has become since, the result is the same as without the change;
  in particular the pending edit of a device disappears and the old server value is shown again.
\<close>

theorem inflight_poll_forgets_edits:
  assumes "i < length (lp_flight l)" and "fst (pull h a) = Inr r"
  shows "s_fleet (lp_st (fst (settle h i a t (fst (loop_step (Local f) l))))) = s_fleet (lp_st (fst (settle h i a t l)))"
  using settle_fleet [OF _ assms(2), of i "l\<lparr>lp_st := f (lp_st l)\<rparr>" t] settle_fleet [OF assms, of t] assms(1) by simp

definition edit_company :: "app_state \<Rightarrow> app_state" where
  "edit_company st = st\<lparr>s_fleet := [edited_device]\<rparr>"

definition one_device :: jsval where
  "one_device = JObj [(''host'', JStr ''ev-01''), (''type'', JStr ''EV''), (''status'', JStr ''op'')]"

lemma one_device_norm: "normalizeDevice one_device = Some (mkDevice ''ev-01'' EV Op one_device)"
proof -
  have "raw_host one_device = ''ev-01''" by code_simp
  moreover have "jget one_device ''type'' = JStr (type_key EV)" "jget one_device ''status'' = JStr (status_key Op)" "is_obj one_device"
    by (simp_all add: one_device_def type_key_def mk_type_def)
  ultimately show ?thesis unfolding normalizeDevice_Some_iff by (metis list.distinct(1))
qed

theorem inflight_poll_forgets_edits_witness:
  "map (\<lambda>d. m_localEdit (d_meta d)) (s_fleet (edit_company initialState)) = [JObj [(''company'', JStr ''ACME'')]]
   \<and> map (\<lambda>d. m_localEdit (d_meta d)) (s_fleet (lp_st (fst (settle code_host 0 (Reply 200 (JArr [one_device])) None
      (fst (loop_step (Local edit_company) (fst (startPull initialState True)))))))) = [Undef]"
proof -
  let ?l = "fst (startPull initialState True)" and ?a = "Reply 200 (JArr [one_device])"
  have len: "0 < length (lp_flight ?l)" and snap: "s_fleet (snd (lp_flight ?l ! 0)) = []"
    by (simp_all add: startPull_def startRun_def initialState_def)
  have r: "fst (pull code_host ?a) = Inr (poll_body code_host (JArr [one_device]))"
    by (simp add: pull_def reply_ok_def)
  have "pl_devices (poll_body code_host (JArr [one_device])) = [mkDevice ''ev-01'' EV Op one_device]"
    "\<not> pl_sampleMode (poll_body code_host (JArr [one_device]))"
    by (simp_all add: poll_body_def Let_def normalize_def List.map_filter_simps one_device_norm sample_answer_of_def
        str_or_def lower_def)
  then have "s_fleet (lp_st (fst (settle code_host 0 ?a None ?l))) = [mkDevice ''ev-01'' EV Op one_device]"
    using settle_fleet [OF len r] snap by (simp add: mergeLocalWrites_def)
  then show ?thesis
    using inflight_poll_forgets_edits [OF len r, of None edit_company]
    by (simp add: edit_company_def edited_device_def mkDevice_def Let_def normalizeMeta_lists)
qed

end
