(* ===== verification/KpiRow.thy ===== *)
theory KpiRow
  imports Alert
begin

text \<open>
  The first part of \<open>buildModel\<close> in \<open>src/web/js/model/compute/kpi.js\<close>: the memo key and the cache, the
  fleet counters, the row of a device, the overview cards and filters, the attention list, the
  heat map and the redundancy list. \<open>th\<close> are the usage thresholds, \<open>h\<close> the host environment; the fleet
  is the one of the state, as every caller of the console passes it.

  The main facts: the counters partition the fleet, the attention list is the exact set of devices that
  need attention in order of risk, and the cache key does not see an edit of display fields.
\<close>

section \<open>The memo key\<close>

text \<open>The default order of \<open>Array.prototype.sort\<close> on strings.\<close>

definition cmp_code :: "string \<Rightarrow> string \<Rightarrow> int" where
  "cmp_code a b = cmp_num (map code a) (map code b)"

definition max_updated :: "device list \<Rightarrow> rat" where
  "max_updated fleet = foldl (\<lambda>mx d. if mx < d_updatedAt d then d_updatedAt d else mx) 0 fleet"

definition memo_parts :: "app_state \<Rightarrow> string list" where
  "memo_parts st =
     (let maint = as_map (s_maint st); notes = as_map (s_notes st); col = as_map (s_manageCollapsed st) in
      [int_str (s_lastPoll st), sor (s_lang st) ''ko'', sor (s_view st) ''overview'',
       (case s_selected st of Some s \<Rightarrow> s | None \<Rightarrow> []), sor (s_ovFilter st) ''all'', sor (s_alertFilter st) ''all'',
       sor (s_logLevel st) ''all'', s_logQuery st, sor (fst (s_nodesSort st)) ''host'', sor (snd (s_nodesSort st)) ''asc'',
       sor (s_nodesFilter st) ''all'', sor (s_clustersFilter st) ''all'', s_search st,
       join '','' (sort_by cmp_code (own_keys (as_map (s_ackedAlerts st)))),
       join '','' (map (\<lambda>k. k @ str_or (jget (jor (jget maint k) (JObj [])) ''until'')) (sort_by cmp_code (own_keys maint))),
       join '','' (map (\<lambda>k. k @ strHash (str_or (jget (jor (jget notes k) (JObj [])) ''text''))) (sort_by cmp_code (own_keys notes))),
       join '','' (sort_by cmp_code (filter (\<lambda>k. truthy (jget col k)) (own_keys col))),
       to_str (JBool (s_logPaused st)), s_source st, to_str (JBool (s_sampleMode st \<or> s_demoMode st)),
       to_str (JBool (s_stale st)), s_liveError st, int_str (int (length (s_fleet st))),
       num_str (Fin (max_updated (s_fleet st))), join '','' (map d_id (s_fleet st)), s_pollerOverall st,
       num_str (n_round (case s_cacheAgeSec st of Some n \<Rightarrow> if n_truthy n then n else Fin 0 | None \<Rightarrow> Fin 0))])"

definition memoKey :: "app_state \<Rightarrow> string" where
  "memoKey st = join ''|'' (memo_parts st)"

record 'm memo =
  me_key :: string
  me_result :: "'m option"

text \<open>\<open>build\<close> is the rest of the function.\<close>

definition buildMemo :: "(app_state \<Rightarrow> 'm) \<Rightarrow> app_state \<Rightarrow> 'm memo \<Rightarrow> 'm \<times> 'm memo" where
  "buildMemo build st me =
     (case me_result me of
        Some m \<Rightarrow> if memoKey st = me_key me then (m, me)
                  else (build st, \<lparr>me_key = memoKey st, me_result = Some (build st)\<rparr>)
      | None \<Rightarrow> (build st, \<lparr>me_key = memoKey st, me_result = Some (build st)\<rparr>))"

section \<open>Counters\<close>

record kpis =
  kp_total :: nat
  kp_operational :: nat
  kp_degraded :: nat
  kp_down :: nat
  kp_ftTotal :: nat
  kp_availPct :: jsnum
  kp_availDays :: rat
  kp_avail :: string
  kp_availNominal :: string
  kp_availIsMeasured :: bool
  kp_availMeasuredLabel :: string
  kp_availBarW :: string
  kp_synced :: nat
  kp_resync :: int
  kp_simplex :: nat
  kp_offline :: nat
  kp_healthyPct :: jsnum

definition count_if :: "('a \<Rightarrow> bool) \<Rightarrow> 'a list \<Rightarrow> nat" where
  "count_if P xs = length (filter P xs)"

definition n_of_nat :: "nat \<Rightarrow> jsnum" where "n_of_nat n = Fin (of_nat n)"

definition n_mean :: "rat list \<Rightarrow> jsnum" where
  "n_mean xs = n_div (foldl (\<lambda>acc x. n_add acc (Fin x)) (Fin 0) xs) (n_of_nat (length xs))"

fun n_clamp01 :: "jsnum \<Rightarrow> jsnum" where
  "n_clamp01 n = Fin (base_clamp (JNum n) 0 1)"

definition buildKpi :: "device list \<Rightarrow> lfun \<Rightarrow> kpis" where
  "buildKpi fleet l =
     (let total = length fleet; ft = filter (\<lambda>s. isFT (d_type s)) fleet;
          op = count_if (\<lambda>s. d_status s = Op) fleet;
          syncedN = count_if (\<lambda>s. d_sync s = Sync) ft;
          simplexN = count_if (\<lambda>s. d_sync s = Simplex) ft;
          offlineN = count_if (\<lambda>s. d_sync s = Offline) ft;
          availPct = (if total = 0 then Fin 100 else n_mean (map d_availN fleet));
          nominal = (if total = 0 then Fin 100 else n_mean (map (\<lambda>s. availN (d_status s)) fleet));
          visual = n_clamp01 (n_div (n_sub availPct (Fin (round64 (999 / 10)))) (Fin (round64 (1 / 10))));
          measured = (total \<noteq> 0 \<and> list_all (\<lambda>s. 0 < d_availDays s) fleet)
      in \<lparr>kp_total = total, kp_operational = op,
          kp_degraded = count_if (\<lambda>s. d_status s = Deg) fleet, kp_down = count_if (\<lambda>s. d_status s = Down) fleet,
          kp_ftTotal = length ft, kp_availPct = availPct,
          kp_availDays = foldl (\<lambda>mx s. max mx (d_availDays s)) 0 fleet,
          kp_avail = (if total = 0 then DASH else n_fixed 3 availPct @ ''%''),
          kp_availNominal = (if total = 0 then DASH else n_fixed 3 nominal @ ''%''),
          kp_availIsMeasured = measured,
          kp_availMeasuredLabel = (if measured then l ''Measured'' ''silcheuk''
             else l ''Nominal (status-derived)'' ''myeongmokgap(sangtae giban)''),
          kp_availBarW = (if total = 0 then ''0%'' else n_fixed 0 (n_mul visual (Fin 100)) @ ''%''),
          kp_synced = syncedN,
          kp_resync = int (length ft) - int syncedN - int simplexN - int offlineN,
          kp_simplex = simplexN, kp_offline = offlineN,
          kp_healthyPct = (if total = 0 then Fin 0
             else n_round (n_mul (n_div (n_of_nat op) (n_of_nat total)) (Fin 100)))\<rparr>)"

section \<open>Rows\<close>

record dev_row = sort_row +
  dr_id :: string
  dr_label :: string
  dr_company :: string
  dr_factory :: string
  dr_mgmt :: string
  dr_type :: dev_type
  dr_typeShort :: string
  dr_typeIcon :: string
  dr_typeKind :: string
  dr_statusLabel :: string
  dr_statusTone :: string
  dr_anim :: string
  dr_cpu :: usage
  dr_mem :: usage
  dr_cpuHist :: "jsval list"
  dr_memHist :: "jsval list"
  dr_syncKey :: string
  dr_syncTone :: string
  dr_syncIcon :: string
  dr_avail :: string
  dr_availIsMeasured :: bool
  dr_availNominal :: string
  dr_availDown :: string
  dr_availTone :: string
  dr_uptime :: string
  dr_maint :: bool
  dr_maintLabel :: string
  dr_maintWin :: bool
  dr_maintWinInfo :: "jsval option"
  dr_sample :: bool
  dr_pending :: bool
  dr_error :: jsval
  dr_isFT :: bool
  dr_noTel :: bool
  dr_vms :: rat
  dr_vmRunning :: rat
  dr_version :: string
  dr_sel :: bool

definition has_uptime :: "device \<Rightarrow> bool" where
  "has_uptime s \<longleftrightarrow> \<not> (d_status s = Down \<or> isNoTel (d_type s) \<or> d_uptime s < 0)"

definition inMaint :: "host \<Rightarrow> app_state \<Rightarrow> string \<Rightarrow> bool" where
  "inMaint h st i \<longleftrightarrow> i \<in> fst ` set (activeMaint h (s_maint st) (now h))"

definition rowOf :: "host \<Rightarrow> thresholds \<Rightarrow> app_state \<Rightarrow> lfun \<Rightarrow> device \<Rightarrow> dev_row" where
  "rowOf h th st l s =
     (let m = d_meta s; ti = typeInfo (d_type s) l; cpu = usageOf th s ''cpu''; mem = usageOf th s ''mem'';
          si = syncInfo s l; win = inMaint h st (d_id s)
      in \<lparr>sr_host = d_host s, sr_typeLabel = ti_label ti, sr_site = sor (d_site s) DASH, sr_syncLabel = sy_label si,
          sr_cpuVal = us_val cpu, sr_memVal = us_val mem, sr_availN = d_availN s,
          sr_uptimeDays = (if has_uptime s then Some (d_uptime s) else None), sr_status = d_status s,
          dr_id = d_id s, dr_label = sor (m_label m) (d_host s), dr_company = m_company m, dr_factory = m_factory m,
          dr_mgmt = m_mgmt m, dr_type = d_type s, dr_typeShort = ti_short ti, dr_typeIcon = ti_icon ti, dr_typeKind = ti_kind ti,
          dr_statusLabel = statusLabel (d_status s) l, dr_statusTone = statusTone (d_status s), dr_anim = statusAnim (d_status s),
          dr_cpu = cpu, dr_mem = mem,
          dr_cpuHist = (if us_na cpu then [] else sparkHist (histOf (s_hist st) s ''cpu'') (us_val cpu)),
          dr_memHist = (if us_na mem then [] else sparkHist (histOf (s_hist st) s ''mem'') (us_val mem)),
          dr_syncKey = sy_key si, dr_syncTone = sy_tone si, dr_syncIcon = sy_icon si,
          dr_avail = fmtAvailN (JNum (Fin (d_availN s))), dr_availIsMeasured = (0 < d_availDays s),
          dr_availNominal = fmtAvailN (JNum (Fin (availN (d_status s)))),
          dr_availDown = fmtDowntimeYr (JNum (Fin (d_availN s))) (Some l),
          dr_availTone = (if round64 (9999 / 100) \<le> d_availN s then ''mut''
             else if round64 (999 / 10) \<le> d_availN s then ''warn'' else ''neg''),
          dr_uptime = (if has_uptime s then fmtUptimeD (JNum (Fin (of_int (d_uptime s)))) else DASH),
          dr_maint = isMaint s, dr_maintLabel = l ''MAINT'' ''jeomgeom'', dr_maintWin = win,
          dr_maintWinInfo = (if win then map_of (activeMaint h (s_maint st) (now h)) (d_id s) else None),
          dr_sample = (m_sample m \<or> m_demo m), dr_pending = m_pending m, dr_error = jor (m_error m) Null,
          dr_isFT = isFT (d_type s), dr_noTel = isNoTel (d_type s), dr_vms = m_vms m, dr_vmRunning = m_vmRunning m,
          dr_version = sor (m_version m) (str_or (jget (m_unit m) ''version'')),
          dr_sel = (s_selected st = Some (d_id s))\<rparr>)"

text \<open>\<open>byId\<close> and \<open>devById\<close>: the last entry of a key wins.\<close>

definition devById :: "device list \<Rightarrow> string \<Rightarrow> device option" where
  "devById fleet i = find (\<lambda>s. d_id s = i) (rev fleet)"

definition rowById :: "dev_row list \<Rightarrow> string \<Rightarrow> dev_row option" where
  "rowById rows i = find (\<lambda>r. dr_id r = i) (rev rows)"

section \<open>Overview cards and filters\<close>

record card = dev_row +
  cd_lastEvt :: "(string \<times> string) option"

definition lastEvt :: "lfun \<Rightarrow> string \<Rightarrow> device \<Rightarrow> (string \<times> string) option" where
  "lastEvt l today s =
     (let m = d_meta s; sw = m_lastNodeSwitch m in
      if truthy sw \<and> truthy (jget sw ''ts'') then Some (l ''Node failover'' ''nodeu jeonhwan'', JsText.slice 5 16 (to_str (jget sw ''ts'')))
      else (case m_alerts m of
          [] \<Rightarrow> None
        | a # _ \<Rightarrow> Some (take 42 (sor (al_desc a) (al_name a)), shortTime (JStr (al_time a)) today)))"

definition cards :: "app_state \<Rightarrow> lfun \<Rightarrow> string \<Rightarrow> dev_row list \<Rightarrow> card list" where
  "cards st l today rows =
     (let f = sor (s_ovFilter st) ''all'' in
      map (\<lambda>r. dev_row.extend r (card.fields (case devById (s_fleet st) (dr_id r) of Some s \<Rightarrow> lastEvt l today s | None \<Rightarrow> None)))
        (if f = ''all'' then rows else filter (\<lambda>r. status_key (sr_status r) = f) rows))"

record chip =
  ch_key :: string
  ch_label :: string
  ch_count :: nat
  ch_active :: bool

definition chip :: "string \<Rightarrow> string \<Rightarrow> string \<Rightarrow> nat \<Rightarrow> chip" where
  "chip k la sel n = \<lparr>ch_key = k, ch_label = la, ch_count = n, ch_active = (sel = k)\<rparr>"

definition status_chips :: "lfun \<Rightarrow> string \<Rightarrow> 'r sort_row_scheme list \<Rightarrow> chip list" where
  "status_chips l sel rows =
     [chip ''all'' (l ''All'' ''jeonche'') sel (length rows),
      chip ''op'' (l ''Healthy'' ''jeongsang'') sel (count_if (\<lambda>r. sr_status r = Op) rows),
      chip ''deg'' (l ''Degraded'' ''jeoha'') sel (count_if (\<lambda>r. sr_status r = Deg) rows),
      chip ''down'' (l ''Offline'' ''opeurain'') sel (count_if (\<lambda>r. sr_status r = Down) rows)]"

definition shownLabel :: "bool \<Rightarrow> nat \<Rightarrow> nat \<Rightarrow> string" where
  "shownLabel ko n shown =
     (if ko then int_str (int n) @ ''dae jung '' @ int_str (int shown) @ ''dae''
      else int_str (int shown) @ '' of '' @ int_str (int n))"

section \<open>Attention\<close>

definition isAcked :: "app_state \<Rightarrow> device \<Rightarrow> alert_rec \<Rightarrow> bool" where
  "isAcked st s a \<longleftrightarrow> truthy (jget (as_map (s_ackedAlerts st))
     (alertAckKey (d_id s) (al_name a) (sor (al_desc a) (al_name a)) (alert_ackTime s a)))"

definition active_crits :: "app_state \<Rightarrow> device \<Rightarrow> alert_rec list" where
  "active_crits st s = filter (\<lambda>a. jor (al_sev a) (JStr (al_severity a)) = JStr ''critical'' \<and> \<not> isAcked st s a) (m_alerts (d_meta s))"

definition critOf :: "host \<Rightarrow> app_state \<Rightarrow> string \<Rightarrow> nat" where
  "critOf h st i =
     (if inMaint h st i then 0
      else (case devById (s_fleet st) i of Some s \<Rightarrow> length (active_crits st s) | None \<Rightarrow> 0))"

definition isAttn :: "host \<Rightarrow> app_state \<Rightarrow> dev_row \<Rightarrow> bool" where
  "isAttn h st r \<longleftrightarrow> \<not> inMaint h st (dr_id r)
     \<and> (sr_status r = Down \<or> sr_status r = Deg \<or> dr_maint r \<or> 0 < critOf h st (dr_id r))"

definition attnRank :: "host \<Rightarrow> app_state \<Rightarrow> dev_row \<Rightarrow> int" where
  "attnRank h st r = (if sr_status r = Down then 0 else if sr_status r = Deg then 1
     else if 0 < critOf h st (dr_id r) then 2 else 3)"

definition attnCmp :: "host \<Rightarrow> app_state \<Rightarrow> dev_row \<Rightarrow> dev_row \<Rightarrow> int" where
  "attnCmp h st x y =
     (if attnRank h st x - attnRank h st y = 0 then cmpKo h (JStr (sr_host x)) (JStr (sr_host y))
      else attnRank h st x - attnRank h st y)"

definition attentionAll :: "host \<Rightarrow> app_state \<Rightarrow> dev_row list \<Rightarrow> dev_row list" where
  "attentionAll h st rows = sort_by (attnCmp h st) (filter (isAttn h st) rows)"

definition attention :: "host \<Rightarrow> app_state \<Rightarrow> dev_row list \<Rightarrow> dev_row list \<times> nat" where
  "attention h st rows = (let al = attentionAll h st rows in (take 4 al, length al - 4))"

definition fleetRows :: "host \<Rightarrow> app_state \<Rightarrow> dev_row list \<Rightarrow> dev_row list" where
  "fleetRows h st rows =
     (let f = sor (s_nodesFilter st) ''all'' in
      sortRows h (if f = ''all'' then rows else if f = ''attention'' then filter (isAttn h st) rows
                  else filter (\<lambda>r. status_key (sr_status r) = f) rows)
        (fst (s_nodesSort st)) (snd (s_nodesSort st)))"

definition nodesFilters :: "host \<Rightarrow> app_state \<Rightarrow> lfun \<Rightarrow> dev_row list \<Rightarrow> chip list" where
  "nodesFilters h st l rows =
     (let f = sor (s_nodesFilter st) ''all'' in
      status_chips l f rows @ [chip ''attention'' (l ''Attention'' ''juui piryo'') f (count_if (isAttn h st) rows)])"

section \<open>Heat map and redundancy list\<close>

record heat_cell =
  hc_id :: string
  hc_host :: string
  hc_label :: string
  hc_code :: string
  hc_typeShort :: string
  hc_status :: dev_status
  hc_tone :: string
  hc_anim :: string
  hc_title :: string

definition heat :: "dev_row list \<Rightarrow> heat_cell list" where
  "heat rows = map (\<lambda>r. \<lparr>hc_id = dr_id r, hc_host = sr_host r, hc_label = dr_label r,
     hc_code = deviceCode (JStr (sor (dr_label r) (sr_host r))) (JStr (dr_company r)), hc_typeShort = dr_typeShort r,
     hc_status = sr_status r, hc_tone = dr_statusTone r, hc_anim = dr_anim r,
     hc_title = sr_host r @ '' . '' @ dr_statusLabel r\<rparr>) rows"

definition ftClusters :: "dev_row list \<Rightarrow> (string \<times> string \<times> string \<times> string) list" where
  "ftClusters rows = map (\<lambda>r. (dr_id r, deviceCode (JStr (sor (dr_label r) (sr_host r))) (JStr (dr_company r)),
     sr_syncLabel r, dr_syncTone r)) (filter (\<lambda>r. isFT (dr_type r)) rows)"

definition heatLegend :: "lfun \<Rightarrow> kpis \<Rightarrow> (string \<times> string \<times> string \<times> nat) list" where
  "heatLegend l k = [(''op'', l ''Operational'' ''gadong'', ''pos'', kp_operational k),
     (''deg'', l ''Degraded'' ''jeoha'', ''warn'', kp_degraded k), (''down'', l ''Offline'' ''opeurain'', ''neg'', kp_down k)]"

section \<open>Facts about the counters\<close>

lemma count_status: "count_if (\<lambda>s. d_status s = Op) xs + count_if (\<lambda>s. d_status s = Deg) xs + count_if (\<lambda>s. d_status s = Down) xs = length xs"
  unfolding count_if_def by (rule length_filter_partition3) (metis dev_status.distinct dev_status.exhaust)

lemma count_sync: "count_if (\<lambda>s. d_sync s = Sync) xs + count_if (\<lambda>s. d_sync s = Simplex) xs + count_if (\<lambda>s. d_sync s = Offline) xs = length xs"
  unfolding count_if_def by (rule length_filter_partition3) (metis dev_sync.distinct dev_sync.exhaust)

section \<open>Facts about the attention list\<close>

lemma comparison_attnCmp:
  assumes "comparison (collate h)"
  shows "comparison (attnCmp h st)"
proof -
  have rank: "comparison (\<lambda>x y. attnRank h st x - attnRank h st y)"
    by (rule comparison_I) (auto simp: sgn_if)
  have host: "comparison (\<lambda>x y. cmpKo h (JStr (sr_host x)) (JStr (sr_host y)))"
    using comparison_key [OF assms, of "\<lambda>x. str_nn (JStr (sr_host x))"] by (simp only: cmpKo_def)
  show ?thesis using comparison_lex [OF rank host] unfolding attnCmp_def [abs_def] .
qed

lemma rowOf_fields [simp]:
  "dr_id (rowOf h th st l s) = d_id s" "sr_status (rowOf h th st l s) = d_status s"
  "dr_maint (rowOf h th st l s) = isMaint s" "dr_maintWin (rowOf h th st l s) = inMaint h st (d_id s)"
  "dr_isFT (rowOf h th st l s) = isFT (d_type s)" "dr_type (rowOf h th st l s) = d_type s"
  by (simp_all add: rowOf_def Let_def)

lemma active_crits_filter [simp]: "active_crits (st\<lparr>s_nodesFilter := f\<rparr>) = active_crits st"
  by (simp add: fun_eq_iff active_crits_def isAcked_def)

lemma devById_distinct: "distinct (map d_id fleet) \<Longrightarrow> s \<in> set fleet \<Longrightarrow> devById fleet (d_id s) = Some s"
proof -
  assume d: "distinct (map d_id fleet)" and s: "s \<in> set fleet"
  have "find (\<lambda>x. d_id x = d_id s) (rev fleet) \<noteq> None" using s by (auto simp: find_None_iff)
  then obtain t where t: "find (\<lambda>x. d_id x = d_id s) (rev fleet) = Some t" by blast
  then have "t \<in> set (rev fleet)" "d_id t = d_id s" unfolding find_Some_iff by (metis length_rev nth_mem)+
  then have "t \<in> set fleet" "d_id t = d_id s" by simp_all
  then have "t = s" using d s by (metis distinct_map inj_onD)
  then show ?thesis using t by (simp add: devById_def)
qed

definition needs_attention :: "host \<Rightarrow> app_state \<Rightarrow> device \<Rightarrow> bool" where
  "needs_attention h st s \<longleftrightarrow> \<not> inMaint h st (d_id s)
     \<and> (d_status s = Down \<or> d_status s = Deg \<or> isMaint s \<or> active_crits st s \<noteq> [])"

lemma isAttn_row:
  "distinct (map d_id (s_fleet st)) \<Longrightarrow> s \<in> set (s_fleet st) \<Longrightarrow>
   isAttn h st (rowOf h th st l s) \<longleftrightarrow> needs_attention h st s"
  by (auto simp: isAttn_def needs_attention_def critOf_def devById_distinct)

lemma attention_devices:
  assumes "distinct (map d_id (s_fleet st))"
  shows "mset (map dr_id (attentionAll h st (map (rowOf h th st l) (s_fleet st))))
       = mset (map d_id (filter (needs_attention h st) (s_fleet st)))"
proof -
  have "filter (isAttn h st) (map (rowOf h th st l) (s_fleet st)) = map (rowOf h th st l) (filter (needs_attention h st) (s_fleet st))"
    unfolding filter_map comp_def using isAttn_row [OF assms] by (simp cong: filter_cong)
  then show ?thesis by (simp add: attentionAll_def multiset.map_comp comp_def)
qed

section \<open>Facts about the memo key\<close>

lemma max_updated_cong:
  assumes "\<And>d. d_updatedAt (g d) = d_updatedAt d"
  shows "max_updated (map g fleet) = max_updated fleet"
  by (simp add: max_updated_def foldl_map assms cong: if_cong)

lemma memoKey_relabel:
  assumes "\<And>d. d_id (g d) = d_id d" "\<And>d. d_updatedAt (g d) = d_updatedAt d"
  shows "memoKey (st\<lparr>s_fleet := map g (s_fleet st)\<rparr>) = memoKey st"
  using max_updated_cong [of g "s_fleet st"] assms by (simp add: memoKey_def memo_parts_def Let_def comp_def)

section \<open>Properties\<close>

text \<open>
  The counters are a partition: operational, degraded and offline devices add up to the fleet; in sync, simplex and
  offline clusters add up to the fault-tolerant devices, so the resynchronising count the overview shows is zero
  for every fleet; and a fleet is only called measured when every device of it has been observed.
\<close>

theorem kpi_partition:
  "kp_operational (buildKpi fleet l) + kp_degraded (buildKpi fleet l) + kp_down (buildKpi fleet l) = kp_total (buildKpi fleet l)
   \<and> kp_synced (buildKpi fleet l) + kp_simplex (buildKpi fleet l) + kp_offline (buildKpi fleet l) = kp_ftTotal (buildKpi fleet l)
   \<and> kp_resync (buildKpi fleet l) = 0
   \<and> kp_availIsMeasured (buildKpi fleet l) = (fleet \<noteq> [] \<and> list_all (\<lambda>s. 0 < d_availDays s) fleet)"
  using count_status [of fleet] count_sync [of "filter (\<lambda>s. isFT (d_type s)) fleet"]
  by (simp add: buildKpi_def Let_def)

text \<open>
  C30. The attention list is complete and ordered: for a fleet with distinct identifiers it holds exactly the devices
  outside a maintenance window that are down, degraded, in device maintenance or carry an unacknowledged critical
  alert; no device is followed by one of a higher risk class; and the attention filter of the node table shows the same
  devices, as many as its chip counts.
\<close>

theorem attention_exact:
  assumes "distinct (map d_id (s_fleet st))" and "comparison (collate h)"
    and "rows = map (rowOf h th st l) (s_fleet st)"
  shows "mset (map dr_id (attentionAll h st rows)) = mset (map d_id (filter (needs_attention h st) (s_fleet st)))
    \<and> sorted_wrt (\<lambda>x y. attnRank h st x \<le> attnRank h st y) (attentionAll h st rows)
    \<and> mset (fleetRows h (st\<lparr>s_nodesFilter := ''attention''\<rparr>) rows) = mset (attentionAll h st rows)
    \<and> ch_count (last (nodesFilters h st l rows)) = length (attentionAll h st rows)"
proof (intro conjI)
  have "sorted_wrt (\<lambda>x y. attnCmp h st x y \<le> 0) (attentionAll h st rows)"
    unfolding attentionAll_def
    by (rule comparator.sorted_sort_by [OF comparison.axioms(1) [OF comparison_attnCmp [OF assms(2)]]])
  moreover have "attnCmp h st x y \<le> 0 \<Longrightarrow> attnRank h st x \<le> attnRank h st y" for x y
    by (auto simp: attnCmp_def split: if_splits)
  ultimately show "sorted_wrt (\<lambda>x y. attnRank h st x \<le> attnRank h st y) (attentionAll h st rows)"
    using sorted_wrt_mono_rel by (metis (mono_tags, lifting))
  have same: "isAttn h (st\<lparr>s_nodesFilter := f\<rparr>) = isAttn h st" for f
    by (simp add: fun_eq_iff isAttn_def critOf_def inMaint_def cong: option.case_cong)
  show "mset (fleetRows h (st\<lparr>s_nodesFilter := ''attention''\<rparr>) rows) = mset (attentionAll h st rows)"
    by (simp add: fleetRows_def Let_def sor_def sortRows_def attentionAll_def same)
  show "mset (map dr_id (attentionAll h st rows)) = mset (map d_id (filter (needs_attention h st) (s_fleet st)))"
    unfolding assms(3) by (rule attention_devices [OF assms(1)])
qed (simp add: nodesFilters_def Let_def chip_def count_if_def attentionAll_def)

theorem attention_exact_witness:
  "map dr_id (attentionAll code_host (initialState\<lparr>s_fleet := [mkDevice ''ev-01'' EV Down (JObj [])]\<rparr>)
     (map (rowOf code_host USAGE_THRESH (initialState\<lparr>s_fleet := [mkDevice ''ev-01'' EV Down (JObj [])]\<rparr>) (makeL ''en''))
        [mkDevice ''ev-01'' EV Down (JObj [])])) = [''ev-01'']"
proof -
  let ?d = "mkDevice ''ev-01'' EV Down (JObj [])"
  let ?st = "initialState\<lparr>s_fleet := [?d]\<rparr>"
  have "d_id ?d = ''ev-01''" "d_status ?d = Down" by (simp_all add: mkDevice_def Let_def)
  then have "filter (needs_attention code_host ?st) [?d] = [?d]"
    by (simp add: needs_attention_def inMaint_def activeMaint_def initialState_def as_map_def List.map_filter_simps)
  then have "mset (map dr_id (attentionAll code_host ?st (map (rowOf code_host USAGE_THRESH ?st (makeL ''en'')) [?d]))) = mset [''ev-01'']"
    using attention_exact [of ?st code_host "map (rowOf code_host USAGE_THRESH ?st (makeL ''en'')) [?d]" USAGE_THRESH "makeL ''en''"]
      code_host_comparison \<open>d_id ?d = ''ev-01''\<close> by simp
  then show ?thesis by (metis mset_single_iff_right mset.simps)
qed

text \<open>
  The cache cannot confuse what it covers: as long as no part of the key contains the separator, two
  states with the same key agree in the time of the last poll, the view, the search text, the filters, the
  number of devices and every other part, so the cached model is the model of a state that looks the same in all of them.
\<close>

theorem memoKey_separates:
  assumes "\<forall>x \<in> set (memo_parts st) \<union> set (memo_parts st'). CHR ''|'' \<notin> set x" and "memoKey st = memoKey st'"
  shows "memo_parts st = memo_parts st' \<and> s_lastPoll st = s_lastPoll st' \<and> s_search st = s_search st'
    \<and> s_logQuery st = s_logQuery st' \<and> s_liveError st = s_liveError st' \<and> length (s_fleet st) = length (s_fleet st')"
proof -
  have ne: "memo_parts s \<noteq> []" for s by (simp add: memo_parts_def Let_def)
  have eq: "memo_parts st = memo_parts st'"
    using assms by (intro join_inj [of _ _ "CHR ''|''", OF ne ne]) (auto simp: memoKey_def)
  have "memo_parts s ! 0 = int_str (s_lastPoll s)" "memo_parts s ! 7 = s_logQuery s" "memo_parts s ! 12 = s_search s"
    "memo_parts s ! 21 = s_liveError s" "memo_parts s ! 22 = int_str (int (length (s_fleet s)))" for s
    by (simp_all add: memo_parts_def Let_def)
  then have "int_str (s_lastPoll st) = int_str (s_lastPoll st')" "s_logQuery st = s_logQuery st'" "s_search st = s_search st'"
    "s_liveError st = s_liveError st'" "int_str (int (length (s_fleet st))) = int_str (int (length (s_fleet st')))"
    using eq by metis+
  then show ?thesis using eq by (auto dest: int_str_inj)
qed

theorem memoKey_separates_witness:
  "s_search (initialState\<lparr>s_search := ''a''\<rparr>) \<noteq> s_search initialState
   \<and> memoKey (initialState\<lparr>s_search := ''a''\<rparr>) \<noteq> memoKey initialState"
proof
  show ne: "s_search (initialState\<lparr>s_search := ''a''\<rparr>) \<noteq> s_search initialState" by (simp add: initialState_def)
  have "list_all (\<lambda>x. CHR ''|'' \<notin> set x) (memo_parts (initialState\<lparr>s_search := ''a''\<rparr>) @ memo_parts initialState)" by code_simp
  then have "\<forall>x \<in> set (memo_parts (initialState\<lparr>s_search := ''a''\<rparr>)) \<union> set (memo_parts initialState). CHR ''|'' \<notin> set x"
    by (simp only: list_all_iff set_append)
  then show "memoKey (initialState\<lparr>s_search := ''a''\<rparr>) \<noteq> memoKey initialState"
    using memoKey_separates [of "initialState\<lparr>s_search := ''a''\<rparr>" initialState] ne by blast
qed

text \<open>
  The cache hides a display edit: the key does not read labels, companies, sites or any other display field, so after
  such an edit (any change of devices that keeps identifiers and update times) the console keeps showing the model built before
  the edit.
\<close>

theorem memo_hides_edit:
  assumes "\<And>d. d_id (g d) = d_id d" "\<And>d. d_updatedAt (g d) = d_updatedAt d"
  shows "fst (buildMemo build (st\<lparr>s_fleet := map g (s_fleet st)\<rparr>) (snd (buildMemo build st me)))
       = fst (buildMemo build st me)"
  using memoKey_relabel [of g st, OF assms] by (auto simp: buildMemo_def split: option.splits)

theorem memo_hides_edit_witness:
  "fst (buildMemo (\<lambda>s. map d_site (s_fleet s))
      ((initialState\<lparr>s_fleet := [mkDevice ''ev-01'' EV Op (JObj [])]\<rparr>)
         \<lparr>s_fleet := map (\<lambda>d. d\<lparr>d_site := ''Seoul''\<rparr>) [mkDevice ''ev-01'' EV Op (JObj [])]\<rparr>)
      (snd (buildMemo (\<lambda>s. map d_site (s_fleet s)) (initialState\<lparr>s_fleet := [mkDevice ''ev-01'' EV Op (JObj [])]\<rparr>)
         \<lparr>me_key = [], me_result = None\<rparr>))) = [''--'']"
  using memo_hides_edit [of "\<lambda>d. d\<lparr>d_site := ''Seoul''\<rparr>" "\<lambda>s. map d_site (s_fleet s)"
      "initialState\<lparr>s_fleet := [mkDevice ''ev-01'' EV Op (JObj [])]\<rparr>" "\<lparr>me_key = [], me_result = None\<rparr>"]
  by (simp add: buildMemo_def mkDevice_def Let_def str_nn_def nullish_def)

end
