(* ===== verification/KpiLog.thy ===== *)
theory KpiLog
  imports KpiRow
begin

text \<open>
  The second part of \<open>buildModel\<close> in \<open>src/web/js/model/compute/kpi.js\<close>: the decorated alerts and their
  populations, the statistics and filter chips, the verdict on the fleet, the collapse of flapping state
  changes, and the event log.

  The main facts: collapsing loses no event and keeps their order, every chip counts the rows its
  filter shows, the statistics partition the active alerts, and the verdict is never milder than what the devices,
  the active alerts or the collector say.
\<close>

section \<open>Event sources\<close>

record log_src =
  lr_id :: string
  lr_hostId :: string
  lr_host :: string
  lr_sev :: jsval
  lr_name :: string
  lr_desc :: string
  lr_time :: string
  lr_ackTime :: string
  lr_trap :: bool
  lr_fixture :: bool

text \<open>An item of the log: a plain row, or a collapsed one that keeps its members.\<close>

record log_item = log_src +
  li_members :: "log_src list"

definition plain :: "log_src \<Rightarrow> log_item" where
  "plain r = log_src.extend r (log_item.fields [])"

definition src_of :: "log_item \<Rightarrow> log_src" where
  "src_of i = log_src.truncate i"

definition of_alert :: "alert_row \<Rightarrow> log_src" where
  "of_alert a = \<lparr>lr_id = ar_hostId a, lr_hostId = ar_hostId a, lr_host = ar_host a, lr_sev = ar_sev a, lr_name = ar_name a,
     lr_desc = ar_desc a, lr_time = ar_time a, lr_ackTime = ar_ackTime a, lr_trap = False, lr_fixture = ar_testFixture a\<rparr>"

definition of_trap :: "trap_row \<Rightarrow> log_src" where
  "of_trap t = \<lparr>lr_id = tp_hostId t, lr_hostId = tp_hostId t, lr_host = tp_host t, lr_sev = tp_sev t, lr_name = [],
     lr_desc = tp_desc t, lr_time = tp_time t, lr_ackTime = [], lr_trap = True, lr_fixture = False\<rparr>"

definition of_event :: "log_event \<Rightarrow> log_src" where
  "of_event e = \<lparr>lr_id = ''ev|'' @ ev_host e @ ''|'' @ ev_time e @ ''|'' @ ev_desc e,
     lr_hostId = ev_host e, lr_host = sor (ev_label e) (ev_host e), lr_sev = JStr (ev_sev e),
     lr_name = (if ev_kind e = ''state'' then ''STATE_CHANGE'' else upper (sor (ev_kind e) ''EVENT'')),
     lr_desc = ev_desc e, lr_time = ev_time e, lr_ackTime = [], lr_trap = False, lr_fixture = test_fixture (ev_host e)\<rparr>"

definition newestFirst :: "host \<Rightarrow> log_src \<Rightarrow> log_src \<Rightarrow> int" where
  "newestFirst h x y = collate_dflt h (lr_time y) (lr_time x)"

section \<open>Decoration\<close>

record shown =
  sh_id :: string
  sh_hostId :: string
  sh_host :: string
  sh_ackKey :: string
  sh_acked :: bool
  sh_maintWin :: bool
  sh_sev :: string
  sh_sevLabel :: string
  sh_sevTone :: string
  sh_sevIcon :: string
  sh_level :: string
  sh_msg :: string
  sh_msgLocal :: string
  sh_time :: string
  sh_timeShort :: string
  sh_ago :: string
  sh_stLabel :: string
  sh_ageDays :: "int option"
  sh_stale :: bool
  sh_trap :: bool
  sh_fixture :: bool

record shown_item = shown +
  sw_flap :: bool
  sw_flapCount :: nat
  sw_members :: "shown list"

definition decorate_src :: "host \<Rightarrow> app_state \<Rightarrow> lfun \<Rightarrow> bool \<Rightarrow> log_src \<Rightarrow> shown" where
  "decorate_src h st l ko a =
     (let sv = sevInfo (lr_sev a) l; sec = agoSec h (JStr (lr_time a));
          loc = (if ko then alertMsgKo (lr_name a) (lr_desc a) else None);
          key = alertAckKey (lr_hostId a) (lr_name a) (lr_desc a) (sor (lr_ackTime a) (lr_time a));
          acked = truthy (jget (as_map (s_ackedAlerts st)) key)
      in \<lparr>sh_id = lr_id a, sh_hostId = lr_hostId a, sh_host = lr_host a, sh_ackKey = key, sh_acked = acked,
          sh_maintWin = inMaint h st (lr_hostId a),
          sh_sev = si_key sv, sh_sevLabel = si_label sv, sh_sevTone = si_tone sv, sh_sevIcon = si_icon sv, sh_level = si_level sv,
          sh_msg = lr_desc a, sh_msgLocal = (case loc of Some s \<Rightarrow> sor s (lr_desc a) | None \<Rightarrow> lr_desc a),
          sh_time = lr_time a, sh_timeShort = shortTime (JStr (lr_time a)) (todayStr h),
          sh_ago = sor (agoText sec l ko) (lr_time a),
          sh_stLabel = (if acked then l ''Acknowledged'' ''hwagindoem'' else l ''Active'' ''hwalseong''),
          sh_ageDays = map_option (\<lambda>s. s div 86400) sec,
          sh_stale = (case sec of Some s \<Rightarrow> STALE_ALERT_DAYS * 86400 \<le> s | None \<Rightarrow> False),
          sh_trap = lr_trap a, sh_fixture = lr_fixture a\<rparr>)"

definition decorate :: "host \<Rightarrow> app_state \<Rightarrow> lfun \<Rightarrow> bool \<Rightarrow> log_item \<Rightarrow> shown_item" where
  "decorate h st l ko a = shown.extend (decorate_src h st l ko (src_of a))
     (shown_item.fields (li_members a \<noteq> []) (length (li_members a)) (map (decorate_src h st l ko) (li_members a)))"

section \<open>Populations and statistics\<close>

record population =
  po_all :: "shown_item list"
  po_real :: "shown_item list"
  po_active :: "shown_item list"

definition populations :: "host \<Rightarrow> app_state \<Rightarrow> lfun \<Rightarrow> bool \<Rightarrow> alert_row list \<Rightarrow> population" where
  "populations h st l ko alerts =
     (let al = map (\<lambda>a. decorate h st l ko (plain (of_alert a))) alerts; real = filter (\<lambda>x. \<not> sh_fixture x) al in
      \<lparr>po_all = al, po_real = real, po_active = filter (\<lambda>x. \<not> sh_acked x \<and> \<not> sh_maintWin x) real\<rparr>)"

definition preview :: "population \<Rightarrow> shown_item list" where
  "preview p = take 7 (po_active p @ filter sh_acked (po_real p))"

record inc_stats =
  ic_critical :: nat
  ic_warning :: nat
  ic_info :: nat
  ic_total :: nat
  ic_acked :: nat
  ic_totalAll :: nat

definition sev_count :: "string \<Rightarrow> 'r shown_scheme list \<Rightarrow> nat" where
  "sev_count k xs = count_if (\<lambda>x. sh_sev x = k) xs"

definition incStats :: "population \<Rightarrow> inc_stats" where
  "incStats p = \<lparr>ic_critical = sev_count ''critical'' (po_active p), ic_warning = sev_count ''warning'' (po_active p),
     ic_info = sev_count ''info'' (po_active p), ic_total = length (po_active p),
     ic_acked = length (po_real p) - length (po_active p), ic_totalAll = length (po_real p)\<rparr>"

definition alertTopSev :: "inc_stats \<Rightarrow> string" where
  "alertTopSev i = (if ic_critical i \<noteq> 0 then ''critical'' else if ic_warning i \<noteq> 0 then ''warning''
     else if ic_total i \<noteq> 0 then ''info'' else [])"

record stat_card =
  sc_key :: string
  sc_label :: string
  sc_value :: nat
  sc_tone :: string
  sc_icon :: string
  sc_note :: string

definition stat_cards :: "lfun \<Rightarrow> inc_stats \<Rightarrow> stat_card list" where
  "stat_cards l i =
     [\<lparr>sc_key = ''total'', sc_label = l ''All alerts'' ''jeonche allim'', sc_value = ic_total i, sc_tone = ''mut'',
       sc_icon = ''bell'', sc_note = l ''Live device alerts'' ''silsigan jangbi allim''\<rparr>,
      \<lparr>sc_key = ''critical'', sc_label = l ''Critical'' ''simgak'', sc_value = ic_critical i, sc_tone = ''neg'',
       sc_icon = ''warningCircle'', sc_note = l ''Across the fleet'' ''peullit jeonche''\<rparr>,
      \<lparr>sc_key = ''warning'', sc_label = l ''Warnings'' ''gyeonggo'', sc_value = ic_warning i, sc_tone = ''warn'',
       sc_icon = ''warningCircle'', sc_note = l ''Active'' ''hwalseong''\<rparr>,
      \<lparr>sc_key = ''info'', sc_label = l ''Info'' ''jeongbo'', sc_value = ic_info i, sc_tone = ''info'',
       sc_icon = ''infoCircle'', sc_note = l ''Notices'' ''gongji''\<rparr>]"

definition sev_chips :: "lfun \<Rightarrow> string \<Rightarrow> (string \<Rightarrow> nat) \<Rightarrow> chip list" where
  "sev_chips l sel n =
     [chip ''all'' (l ''All'' ''jeonche'') sel (n ''all''), chip ''critical'' (l ''Critical'' ''simgak'') sel (n ''critical''),
      chip ''warning'' (l ''Warning'' ''gyeonggo'') sel (n ''warning''), chip ''info'' (l ''Info'' ''jeongbo'') sel (n ''info'')]"

definition incFilters :: "app_state \<Rightarrow> lfun \<Rightarrow> population \<Rightarrow> chip list" where
  "incFilters st l p = sev_chips l (sor (s_alertFilter st) ''all'')
     (\<lambda>k. if k = ''all'' then length (po_real p) else sev_count k (po_real p))"

definition incList :: "app_state \<Rightarrow> population \<Rightarrow> shown_item list" where
  "incList st p =
     (let f = sor (s_alertFilter st) ''all'' in if f = ''all'' then po_all p else filter (\<lambda>x. sh_sev x = f) (po_all p))"

section \<open>The verdict on the fleet\<close>

record verdict =
  fv_key :: string
  fv_label :: string
  fv_tone :: string
  fv_reasons :: "string list"

definition RANK :: "string \<Rightarrow> nat option" where
  "RANK k = (if k = ''ok'' then Some 0 else if k = ''warning'' then Some 1 else if k = ''critical'' then Some 2 else None)"

definition rank_worse :: "string \<Rightarrow> string \<Rightarrow> bool" where
  "rank_worse a b = (case (RANK a, RANK b) of (Some x, Some y) \<Rightarrow> y < x | _ \<Rightarrow> False)"

definition fleetVerdict :: "lfun \<Rightarrow> string \<Rightarrow> kpis \<Rightarrow> population \<Rightarrow> verdict" where
  "fleetVerdict l backend k p =
     (let i = incStats p; dn = kp_down k; dg = kp_degraded k; cr = ic_critical i; wn = ic_warning i;
          hosts = nub (map sh_hostId (filter (\<lambda>a. sh_sev a = ''critical'') (po_active p)));
          derived = (if 0 < dn \<or> 0 < cr then ''critical'' else if 0 < dg \<or> 0 < wn then ''warning'' else ''ok'');
          worse = (backend \<noteq> [] \<and> rank_worse backend derived);
          key = (if worse then backend else derived);
          num = (\<lambda>n. int_str (int n));
          reasons =
            (if 0 < dn then [l (num dn @ '' device(s) offline'') (num dn @ ''dae opeurain'')] else []) @
            (if 0 < cr then [l (num cr @ '' active critical alert(s) on '' @ num (length hosts) @ '' device(s)'')
               (''hwalseong simgak allim '' @ num cr @ ''geon(jangbi '' @ num (length hosts) @ ''dae)'')] else []) @
            (if 0 < dg then [l (num dg @ '' device(s) degraded'') (num dg @ ''dae seongneung jeoha'')] else []) @
            (if 0 < wn \<and> cr = 0 \<and> dn = 0
             then [l (num wn @ '' active warning(s)'') (''hwalseong gyeonggo '' @ num wn @ ''geon'')] else []) @
            (if worse then [l (''Poller reports '' @ backend) (''polleo panjeong: '' @ backend)] else [])
      in \<lparr>fv_key = key,
          fv_label = (if key = ''critical'' then l ''Critical'' ''simgak''
             else if key = ''warning'' then l ''Warning'' ''gyeonggo'' else l ''Healthy'' ''jeongsang''),
          fv_tone = (if key = ''critical'' then ''neg'' else if key = ''warning'' then ''warn'' else ''pos''),
          fv_reasons = (if reasons \<noteq> [] then reasons
             else [l (num (kp_total k) @ '' device(s) operational'') (''jeonche '' @ num (kp_total k) @ ''dae jeongsang'')])\<rparr>)"

section \<open>Collapsing flapping devices\<close>

definition FLAP_WINDOW_MS :: int where "FLAP_WINDOW_MS = 12 * 60 * 60 * 1000"
definition FLAP_MIN_COUNT :: nat where "FLAP_MIN_COUNT = 4"

definition gap_ok :: "host \<Rightarrow> log_src \<Rightarrow> log_src \<Rightarrow> bool" where
  "gap_ok h a b \<longleftrightarrow> (let gap = tsKey h (JStr (lr_time a)) - tsKey h (JStr (lr_time b)) in \<not> (FLAP_WINDOW_MS < gap \<or> gap < 0))"

text \<open>The rows after \<open>r\<close> that join its run.\<close>

fun flap_run :: "host \<Rightarrow> log_src \<Rightarrow> log_src list \<Rightarrow> log_src list" where
  "flap_run h r [] = []"
| "flap_run h r (x # xs) =
     (if lr_name x = ''STATE_CHANGE'' \<and> lr_hostId x = lr_hostId r \<and> gap_ok h r x then x # flap_run h x xs else [])"

definition worst_sev :: "log_src list \<Rightarrow> jsval" where
  "worst_sev ms = foldl (\<lambda>w m. case (SEV_RANK (to_str (lr_sev m)), SEV_RANK (to_str w)) of
     (Some a, Some b) \<Rightarrow> if a < b then lr_sev m else w | _ \<Rightarrow> w) (lr_sev (hd ms)) ms"

definition flap_item :: "host \<Rightarrow> lfun \<Rightarrow> log_src list \<Rightarrow> log_item" where
  "flap_item h l ms =
     (let r = hd ms; n = int_str (int (length ms));
          fromT = JsText.slice 5 10 (tsNorm h (JStr (lr_time (last ms)))); toT = JsText.slice 5 10 (tsNorm h (JStr (lr_time r)))
      in \<lparr>lr_id = ''flap|'' @ lr_hostId r @ ''|'' @ lr_time r @ ''|'' @ n,
          lr_hostId = lr_hostId r, lr_host = lr_host r, lr_sev = worst_sev ms, lr_name = ''STATE_FLAP'',
          lr_desc = l (lr_host r @ '' state flapping x'' @ n @ '' ('' @ fromT @ '' ~ '' @ toT @ '')'')
            (lr_host r @ '' . sangtae peullaeping x'' @ n @ '' ('' @ fromT @ '' ~ '' @ toT @ '')''),
          lr_time = lr_time r, lr_ackTime = [], lr_trap = False, lr_fixture = test_fixture (lr_hostId r), li_members = ms\<rparr>)"

function collapseFlaps :: "host \<Rightarrow> lfun \<Rightarrow> log_src list \<Rightarrow> log_item list" where
  "collapseFlaps h l [] = []"
| "collapseFlaps h l (r # rs) =
     (if lr_name r \<noteq> ''STATE_CHANGE'' then plain r # collapseFlaps h l rs
      else (let ms = r # flap_run h r rs in
        if FLAP_MIN_COUNT \<le> length ms then flap_item h l ms # collapseFlaps h l (drop (length ms - 1) rs)
        else plain r # collapseFlaps h l rs))"
  by pat_completeness auto
termination
  by (relation "measure (\<lambda>(h, l, rs). length rs)") auto

section \<open>The log\<close>

definition liveEvents :: "host \<Rightarrow> alert_row list \<Rightarrow> trap_row list \<Rightarrow> log_src list" where
  "liveEvents h alerts traps = sort_by (newestFirst h) (map of_alert alerts @ map of_trap traps)"

definition logMerged :: "host \<Rightarrow> app_state \<Rightarrow> alert_row list \<Rightarrow> trap_row list \<Rightarrow> log_src list" where
  "logMerged h st alerts traps =
     (let ev = (case s_liveEventLog st of Some es \<Rightarrow> map of_event es | None \<Rightarrow> []) in
      if ev \<noteq> [] then sort_by (newestFirst h) (ev @ map of_trap traps) else liveEvents h alerts traps)"

definition logRows :: "host \<Rightarrow> app_state \<Rightarrow> lfun \<Rightarrow> bool \<Rightarrow> alert_row list \<Rightarrow> trap_row list \<Rightarrow> shown_item list" where
  "logRows h st l ko alerts traps =
     filter (\<lambda>r. \<not> sh_fixture r) (map (decorate h st l ko) (collapseFlaps h l (logMerged h st alerts traps)))"

definition logQueryMatch :: "app_state \<Rightarrow> shown_item \<Rightarrow> bool" where
  "logQueryMatch st r =
     (let q = lower (trim (s_logQuery st)) in q = [] \<or> contains q (lower (sh_msg r @ '' '' @ sh_host r @ '' '' @ sh_time r)))"

definition logsFull :: "app_state \<Rightarrow> shown_item list \<Rightarrow> shown_item list" where
  "logsFull st rows =
     (let lev = sor (s_logLevel st) ''all'' in filter (\<lambda>r. (lev = ''all'' \<or> sh_level r = upper lev) \<and> logQueryMatch st r) rows)"

definition incLogFilters :: "app_state \<Rightarrow> lfun \<Rightarrow> shown_item list \<Rightarrow> chip list" where
  "incLogFilters st l rows = sev_chips l (sor (s_alertFilter st) ''all'')
     (\<lambda>k. count_if (\<lambda>r. (k = ''all'' \<or> sh_sev r = k) \<and> logQueryMatch st r) rows)"

definition logCountLabel :: "bool \<Rightarrow> nat \<Rightarrow> string" where
  "logCountLabel ko n = (if ko then int_str (int n) @ ''haeng'' else int_str (int n) @ '' lines'')"

declare collapseFlaps.simps(2) [simp del]

section \<open>Facts about the collapse\<close>

definition expand :: "log_item \<Rightarrow> log_src list" where
  "expand i = (if li_members i = [] then [src_of i] else li_members i)"

lemma src_of_plain [simp]: "src_of (plain r) = r" "li_members (plain r) = []"
  by (simp_all add: src_of_def plain_def log_src.defs log_item.defs)

lemma expand_plain [simp]: "expand (plain r) = [r]"
  by (simp add: expand_def)

lemma flap_item_members [simp]: "li_members (flap_item h l ms) = ms"
  by (simp add: flap_item_def Let_def)

lemma expand_flap: "expand (flap_item h l (r # ms)) = r # ms"
  by (simp add: expand_def)

lemma flap_run_prefix: "flap_run h r rs @ drop (length (flap_run h r rs)) rs = rs"
  by (induction h r rs rule: flap_run.induct) auto

definition one_flap :: "host \<Rightarrow> log_src list \<Rightarrow> bool" where
  "one_flap h ms \<longleftrightarrow> FLAP_MIN_COUNT \<le> length ms
     \<and> list_all (\<lambda>m. lr_name m = ''STATE_CHANGE'' \<and> lr_hostId m = lr_hostId (hd ms)) ms \<and> successively (gap_ok h) ms"

lemma flap_run_good:
  "list_all (\<lambda>m. lr_name m = ''STATE_CHANGE'' \<and> lr_hostId m = lr_hostId r) (flap_run h r rs)
   \<and> successively (gap_ok h) (r # flap_run h r rs)"
proof (induction h r rs rule: flap_run.induct)
  case (2 h r x xs)
  show ?case
  proof (cases "lr_name x = ''STATE_CHANGE'' \<and> lr_hostId x = lr_hostId r \<and> gap_ok h r x")
    case True
    then show ?thesis using 2 [OF True] by simp
  qed auto
qed simp

lemma collapse_cons:
  "collapseFlaps h l (r # rs) =
     (if lr_name r = ''STATE_CHANGE'' \<and> FLAP_MIN_COUNT \<le> Suc (length (flap_run h r rs))
      then flap_item h l (r # flap_run h r rs) # collapseFlaps h l (drop (length (flap_run h r rs)) rs)
      else plain r # collapseFlaps h l rs)"
  by (simp add: collapseFlaps.simps(2) Let_def)

lemma collapse_facts:
  "length rows = n \<Longrightarrow> concat (map expand (collapseFlaps h l rows)) = rows
   \<and> list_all (\<lambda>i. li_members i = [] \<or> one_flap h (li_members i)) (collapseFlaps h l rows)"
proof (induction n arbitrary: rows rule: less_induct)
  case (less n)
  show ?case
  proof (cases rows)
    case (Cons r rs)
    let ?ms = "flap_run h r rs"
    have rest: "concat (map expand (collapseFlaps h l xs)) = xs
        \<and> list_all (\<lambda>i. li_members i = [] \<or> one_flap h (li_members i)) (collapseFlaps h l xs)" if "length xs \<le> length rs" for xs
      using less.IH [of "length xs" xs] that less.prems Cons by simp
    show ?thesis
    proof (cases "lr_name r = ''STATE_CHANGE'' \<and> FLAP_MIN_COUNT \<le> Suc (length ?ms)")
      case True
      have "one_flap h (r # ?ms)" using flap_run_good [of r h rs] True by (simp add: one_flap_def)
      then show ?thesis
        using rest [of "drop (length ?ms) rs"] flap_run_prefix [of h r rs]
        unfolding Cons collapse_cons if_P [OF True] by (simp add: expand_flap)
    next
      case False
      then show ?thesis using rest [of rs] unfolding Cons collapse_cons if_not_P [OF False] by simp
    qed
  qed simp
qed

section \<open>Facts about the populations\<close>

lemma sev_keys: "si_key (sevInfo v l) \<in> {''critical'', ''warning'', ''info''}"
  by (simp add: sevInfo_def)

lemma decorate_fields [simp]:
  "sh_sev (decorate h st l ko a) = si_key (sevInfo (lr_sev a) l)"
  "sh_fixture (decorate h st l ko a) = lr_fixture a"
  by (simp_all add: decorate_def decorate_src_def Let_def shown.defs shown_item.defs src_of_def log_src.defs)

lemma population_sev: "x \<in> set (po_all (populations h st l ko as)) \<Longrightarrow> sh_sev x \<in> {''critical'', ''warning'', ''info''}"
proof -
  assume "x \<in> set (po_all (populations h st l ko as))"
  then obtain a where "x = decorate h st l ko (plain (of_alert a))" by (auto simp: populations_def Let_def)
  then show ?thesis using sev_keys [of "lr_sev (plain (of_alert a))" l] by simp
qed

lemma population_subsets:
  "set (po_active (populations h st l ko as)) \<subseteq> set (po_real (populations h st l ko as))"
  "set (po_real (populations h st l ko as)) \<subseteq> set (po_all (populations h st l ko as))"
  by (auto simp: populations_def Let_def)

lemma po_real_eq: "po_real (populations h st l ko as) = filter (\<lambda>x. \<not> sh_fixture x) (po_all (populations h st l ko as))"
  by (simp add: populations_def Let_def)

lemma sev_partition:
  "(\<And>x. x \<in> set xs \<Longrightarrow> sh_sev x \<in> {''critical'', ''warning'', ''info''}) \<Longrightarrow>
   sev_count ''critical'' xs + sev_count ''warning'' xs + sev_count ''info'' xs = length xs"
  unfolding sev_count_def count_if_def by (rule length_filter_partition3) auto

section \<open>Properties\<close>

text \<open>
  Collapsing a flapping device loses nothing: expanding every row of the log gives back the original events in
  their order, and a collapsed row stands for at least four consecutive state changes of one device, each at most twelve hours
  before the previous one. The recursion ends for every log.
\<close>

theorem flap_collapse_lossless:
  "concat (map expand (collapseFlaps h l rows)) = rows
   \<and> list_all (\<lambda>i. li_members i = [] \<or> one_flap h (li_members i)) (collapseFlaps h l rows)"
  using collapse_facts [OF refl] .

text \<open>
  Every chip counts what its filter shows: for each severity the card chip counts the rows the alert list holds
  under that filter without test fixtures, and the log chip the rows of the log view that match the search.
\<close>

theorem chips_count_lists:
  "map ch_count (incFilters st l (populations h st l ko as)) =
     map (\<lambda>k. length (filter (\<lambda>x. \<not> sh_fixture x) (incList (st\<lparr>s_alertFilter := k\<rparr>) (populations h st l ko as))))
       [''all'', ''critical'', ''warning'', ''info'']
   \<and> map ch_count (incLogFilters st l rows) =
     map (\<lambda>k. length (filter (\<lambda>r. k = ''all'' \<or> sh_sev r = k) (logsFull (st\<lparr>s_logLevel := ''all''\<rparr>) rows)))
       [''all'', ''critical'', ''warning'', ''info'']"
proof -
  have q: "logQueryMatch (st\<lparr>s_logLevel := x\<rparr>) = logQueryMatch st" for x by (simp add: logQueryMatch_def fun_eq_iff)
  show ?thesis
    by (simp add: incFilters_def incLogFilters_def sev_chips_def chip_def incList_def sor_def po_real_eq sev_count_def
        count_if_def logsFull_def q conj_commute)
qed

text \<open>
  The alert statistics are a partition: critical, warning and information alerts add up to the active ones; active
  and handled ones add up to all real alerts; and an active alert is neither acknowledged, nor muted by a window, nor a fixture.
\<close>

theorem incStats_partition:
  "let p = populations h st l ko as; i = incStats p in
   ic_critical i + ic_warning i + ic_info i = ic_total i \<and> ic_acked i + ic_total i = ic_totalAll i
   \<and> ic_acked i = length (filter (\<lambda>x. sh_acked x \<or> sh_maintWin x) (po_real p))
   \<and> list_all (\<lambda>x. \<not> sh_acked x \<and> \<not> sh_maintWin x \<and> \<not> sh_fixture x) (po_active p)"
proof -
  let ?p = "populations h st l ko as"
  have sev: "x \<in> set (po_active ?p) \<Longrightarrow> sh_sev x \<in> {''critical'', ''warning'', ''info''}" for x
    using population_sev population_subsets by blast
  have act: "po_active ?p = filter (\<lambda>x. \<not> (sh_acked x \<or> sh_maintWin x)) (po_real ?p)"
    by (simp add: populations_def Let_def)
  have "length (po_active ?p) + length (filter (\<lambda>x. sh_acked x \<or> sh_maintWin x) (po_real ?p)) = length (po_real ?p)"
    unfolding act using sum_length_filter_compl [of "\<lambda>x. sh_acked x \<or> sh_maintWin x" "po_real ?p"] by simp
  moreover have "list_all (\<lambda>x. \<not> sh_acked x \<and> \<not> sh_maintWin x \<and> \<not> sh_fixture x) (po_active ?p)"
    by (simp add: list_all_iff populations_def Let_def)
  ultimately show ?thesis using sev_partition [OF sev] by (simp add: Let_def incStats_def)
qed

text \<open>
  C28. The verdict never plays down a risk: it is \<open>ok\<close> exactly when every device is operational, no active
  alert is critical or a warning and the collector reports neither; it is never milder than the collector's own verdict; and it always
  gives a reason.
\<close>

theorem fleetVerdict_never_mild:
  "(fv_key (fleetVerdict l backend (buildKpi fleet l) p) = ''ok'' \<longleftrightarrow>
      list_all (\<lambda>s. d_status s = Op) fleet \<and> list_all (\<lambda>a. sh_sev a \<noteq> ''critical'' \<and> sh_sev a \<noteq> ''warning'') (po_active p)
      \<and> backend \<noteq> ''warning'' \<and> backend \<noteq> ''critical'')
   \<and> \<not> rank_worse backend (fv_key (fleetVerdict l backend (buildKpi fleet l) p))
   \<and> fv_reasons (fleetVerdict l backend (buildKpi fleet l) p) \<noteq> []"
proof -
  have dev: "list_all (\<lambda>s. d_status s = Op) fleet \<longleftrightarrow> kp_down (buildKpi fleet l) = 0 \<and> kp_degraded (buildKpi fleet l) = 0"
    by (auto simp: buildKpi_def Let_def count_if_def list_all_iff filter_empty_conv) (metis dev_status.exhaust)
  have al: "list_all (\<lambda>a. sh_sev a \<noteq> ''critical'' \<and> sh_sev a \<noteq> ''warning'') (po_active p)
      \<longleftrightarrow> ic_critical (incStats p) = 0 \<and> ic_warning (incStats p) = 0"
    by (auto simp: incStats_def sev_count_def count_if_def list_all_iff filter_empty_conv)
  show ?thesis
    unfolding dev al by (auto simp: fleetVerdict_def Let_def rank_worse_def RANK_def split: if_splits)
qed

end
