(* ===== verification/KpiAgg.thy ===== *)
theory KpiAgg
  imports KpiLog
begin

text \<open>
  The third part of \<open>buildModel\<close> in \<open>src/web/js/model/compute/kpi.js\<close>: resource sums, licences, storage
  groups, recent events and changes, the state of the collection, the top consumers, the platforms and the
  insights of the statistics tab. The figures of \<open>meta.unit\<close> and the ages of \<open>meta.lastReboot\<close> are read as
  the numbers the collector sends (the source adds them without a conversion).

  The main facts: a licence is in exactly one bucket and the most urgent comes first, a platform table
  counts every device once, no abnormal device is missing from the recent changes, and a tally counts exactly.
\<close>

section \<open>Resources\<close>

record res_acc =
  rc_counted :: nat
  rc_vn :: nat
  rc_vu :: jsnum
  rc_vt :: jsnum
  rc_mn :: nat
  rc_mu :: jsnum
  rc_mt :: jsnum

definition or0 :: "jsval \<Rightarrow> jsnum" where "or0 v = (if truthy v then to_num v else Fin 0)"

definition res_step :: "res_acc \<Rightarrow> device \<Rightarrow> res_acc" where
  "res_step a s =
     (let u = m_unit (d_meta s); tv = jget u ''totVcpu''; tm = jget u ''totMem'' in
      if \<not> (truthy tv \<or> truthy tm) then a
      else (let b = a\<lparr>rc_counted := Suc (rc_counted a)\<rparr>;
                c = (if truthy tv then b\<lparr>rc_vn := Suc (rc_vn b), rc_vu := n_add (rc_vu b) (or0 (jget u ''usedVcpu'')),
                       rc_vt := n_add (rc_vt b) (or0 tv)\<rparr> else b)
            in (if truthy tm then c\<lparr>rc_mn := Suc (rc_mn c), rc_mu := n_add (rc_mu c) (or0 (jget u ''usedMem'')),
                       rc_mt := n_add (rc_mt c) (or0 tm)\<rparr> else c)))"

record res_agg =
  ra_has :: bool
  ra_counted :: nat
  ra_total :: nat
  ra_vcpuHas :: bool
  ra_memHas :: bool
  ra_vcpuUsed :: jsnum
  ra_vcpuTot :: jsnum
  ra_vcpuPct :: jsnum
  ra_memUsed :: jsnum
  ra_memTot :: jsnum
  ra_memPct :: jsnum
  ra_vcpuTone :: string
  ra_memTone :: string

definition pct_of :: "jsnum \<Rightarrow> jsnum \<Rightarrow> jsnum" where
  "pct_of used tot = (if n_truthy tot then n_round (n_mul (n_div used tot) (Fin 100)) else Fin 0)"

definition fixed1 :: "jsnum \<Rightarrow> jsnum" where "fixed1 n = str_to_num (n_fixed 1 n)"

definition resAgg :: "thresholds \<Rightarrow> device list \<Rightarrow> res_agg" where
  "resAgg th fleet =
     (let a = foldl res_step \<lparr>rc_counted = 0, rc_vn = 0, rc_vu = Fin 0, rc_vt = Fin 0, rc_mn = 0, rc_mu = Fin 0, rc_mt = Fin 0\<rparr> fleet;
          has = (rc_counted a \<noteq> 0);
          vp = (if has then pct_of (rc_vu a) (rc_vt a) else Fin 0); mp = (if has then pct_of (rc_mu a) (rc_mt a) else Fin 0)
      in \<lparr>ra_has = has, ra_counted = rc_counted a, ra_total = length fleet,
          ra_vcpuHas = (has \<and> 0 < rc_vn a), ra_memHas = (has \<and> 0 < rc_mn a),
          ra_vcpuUsed = (if has then n_round (rc_vu a) else Fin 0), ra_vcpuTot = (if has then n_round (rc_vt a) else Fin 0),
          ra_vcpuPct = vp,
          ra_memUsed = (if has then fixed1 (rc_mu a) else Fin 0), ra_memTot = (if has then fixed1 (rc_mt a) else Fin 0),
          ra_memPct = mp, ra_vcpuTone = pctTone th (Some vp), ra_memTone = pctTone th (Some mp)\<rparr>)"

definition vmAgg :: "device list \<Rightarrow> jsnum \<times> jsnum" where
  "vmAgg fleet = foldl (\<lambda>(r, t) s. (n_add r (Fin (m_vmRunning (d_meta s))), n_add t (Fin (m_vms (d_meta s))))) (Fin 0, Fin 0) fleet"

section \<open>Licences\<close>

record lic_row =
  lx_id :: string
  lx_host :: string
  lx_lic :: string
  lx_days :: int
  lx_expDate :: string
  lx_tone :: string
  lx_txt :: string

datatype bucket = Expiring | Perpetual | Unknown

text \<open>\<open>Math.round((d - now) / 86400000)\<close>, and the date part of \<open>toISOString\<close> for the years 0 to 9999.\<close>

definition day_count :: "int \<Rightarrow> int \<Rightarrow> int" where
  "day_count d t = rround (round64 (of_int (d - t) / 86400000))"

definition iso_date :: "int \<Rightarrow> string" where
  "iso_date t = (case civil_from_days (t div 86400000) of (y, m, d) \<Rightarrow> pad4 y @ ''-'' @ pad2 m @ ''-'' @ pad2 d)"

definition dev_name :: "device \<Rightarrow> string" where
  "dev_name s = sor (m_label (d_meta s)) (d_host s)"

definition licence_of :: "host \<Rightarrow> lfun \<Rightarrow> bool \<Rightarrow> device \<Rightarrow> (bucket \<times> lic_row) option" where
  "licence_of h l ko s =
     (let lic = m_license (d_meta s);
          row = (\<lambda>days ex tone txt. \<lparr>lx_id = d_id s, lx_host = dev_name s, lx_lic = str_or (jget lic ''name''),
                   lx_days = days, lx_expDate = ex, lx_tone = tone, lx_txt = txt\<rparr>)
      in if \<not> truthy lic then None
         else if truthy (jget lic ''expires'') then
           (case parseLicDate h (jget lic ''expire'') of
              Some d \<Rightarrow> (let days = day_count d (now h) in
                Some (Expiring, row days (iso_date d) (licTone (Some days)) (ddayText (Some days) ko)))
            | None \<Rightarrow> Some (Unknown, row 0 [] ''mut'' (l ''Unknown'' ''misang'')))
         else Some (Perpetual, row 0 [] ''mut'' (l ''Perpetual'' ''yeonggu'')))"

record licences =
  lc_has :: bool
  lc_empty :: bool
  lc_min :: "lic_row option"
  lc_list :: "(lic_row \<times> string) list"
  lc_all :: "lic_row list"
  lc_perp :: "lic_row list"
  lc_perpAll :: "lic_row list"
  lc_na :: "lic_row list"
  lc_naAll :: "lic_row list"

definition in_bucket :: "bucket \<Rightarrow> (bucket \<times> lic_row) list \<Rightarrow> lic_row list" where
  "in_bucket b rows = map snd (filter (\<lambda>r. fst r = b) rows)"

definition licenses :: "host \<Rightarrow> lfun \<Rightarrow> bool \<Rightarrow> device list \<Rightarrow> licences" where
  "licenses h l ko fleet =
     (let rows = List.map_filter (licence_of h l ko) fleet;
          ex = sort_by (\<lambda>x y. lx_days x - lx_days y) (in_bucket Expiring rows);
          perp = in_bucket Perpetual rows; na = in_bucket Unknown rows
      in \<lparr>lc_has = (ex \<noteq> []), lc_empty = (fleet = []), lc_min = (case ex of [] \<Rightarrow> None | x # _ \<Rightarrow> Some x),
          lc_list = map (\<lambda>x. (x, lx_expDate x @ l '' expiry'' '' mallyo'')) (take 3 ex), lc_all = ex,
          lc_perp = take 2 perp, lc_perpAll = perp, lc_na = take 2 na, lc_naAll = na\<rparr>)"

section \<open>Storage groups\<close>

record storage_group =
  sg_id :: string
  sg_key :: string
  sg_dev :: string
  sg_host :: string
  sg_group :: string
  sg_pct :: int
  sg_tone :: string
  sg_usage :: string
  sg_mirrored :: bool
  sg_tip :: string

definition group_row :: "thresholds \<Rightarrow> device \<Rightarrow> dev_row option \<Rightarrow> nat \<Rightarrow> jsval \<Rightarrow> storage_group option" where
  "group_row th s ro i g =
     (case num_val (jget g ''pct'') of
        None \<Rightarrow> None
      | Some raw \<Rightarrow>
          (let pct = rround (base_clamp (JNum (Fin raw)) 0 100); t = pctTone th (Some (Fin (of_int pct)));
               usage = (if truthy (jget g ''usedRaw'') \<and> truthy (jget g ''sizeRaw'')
                        then to_str (jget g ''usedRaw'') @ '' / '' @ to_str (jget g ''sizeRaw'') else [])
           in Some \<lparr>sg_id = d_id s,
                sg_key = d_id s @ '':'' @ (if truthy (jget g ''name'') then to_str (jget g ''name'') else int_str (int i)),
                sg_dev = (case ro of Some r \<Rightarrow> deviceCode (JStr (dr_label r)) (JStr (dr_company r)) | None \<Rightarrow> sor (d_host s) DASH),
                sg_host = (case ro of Some r \<Rightarrow> dr_label r | None \<Rightarrow> d_host s),
                sg_group = to_str (jor (jget g ''name'') (JStr DASH)), sg_pct = pct,
                sg_tone = (if t = ''neg'' \<or> t = ''warn'' then t else []), sg_usage = usage,
                sg_mirrored = truthy (jget g ''mirrored''),
                sg_tip = join '' . '' (filter (\<lambda>x. x \<noteq> []) [str_or (jget g ''name''), usage, int_str pct @ ''%''])\<rparr>))"

definition storage_groups :: "thresholds \<Rightarrow> device list \<Rightarrow> dev_row list \<Rightarrow> storage_group list" where
  "storage_groups th fleet rows =
     sort_by (\<lambda>x y. sg_pct y - sg_pct x)
       (concat (map (\<lambda>s. if \<not> isFT (d_type s) then []
           else (let gs = arr_of (jget (m_topo (d_meta s)) ''storage'') in
             List.map_filter (\<lambda>(i, g). group_row th s (rowById rows (d_id s)) i g) (enumerate 0 gs))) fleet))"

section \<open>Events\<close>

text \<open>The arrow between the two ends of a switch is a character outside the model's range; a control character stands for it.\<close>

definition ARROW :: string where "ARROW = [CHR 0x1A]"

record evt =
  et_id :: string
  et_k :: jsnum
  et_icon :: string
  et_tone :: string
  et_label :: string
  et_host :: string
  et_when :: string
  et_flow :: string

definition evt :: "device \<Rightarrow> jsnum \<Rightarrow> string \<Rightarrow> string \<Rightarrow> string \<Rightarrow> string \<Rightarrow> string \<Rightarrow> evt" where
  "evt s k icon tone la wh flow = \<lparr>et_id = d_id s, et_k = k, et_icon = icon, et_tone = tone, et_label = la,
     et_host = dev_name s, et_when = wh, et_flow = flow\<rparr>"

definition switch_flow :: "jsval \<Rightarrow> string \<Rightarrow> string" where
  "switch_flow sw d = (if truthy (jget sw ''from'') \<and> truthy (jget sw ''to'')
     then to_str (jget sw ''from'') @ '' '' @ ARROW @ '' '' @ to_str (jget sw ''to'') else d)"

definition ts_num :: "host \<Rightarrow> jsval \<Rightarrow> jsnum" where "ts_num h v = Fin (of_int (tsKey h v))"

definition age_int :: "jsval \<Rightarrow> int option" where
  "age_int v = (case to_num v of Fin x \<Rightarrow> Some \<lfloor>x\<rfloor> | _ \<Rightarrow> None)"

definition meta_evt :: "host \<Rightarrow> lfun \<Rightarrow> string \<Rightarrow> device \<Rightarrow> jsval \<Rightarrow> evt" where
  "meta_evt h l today s e =
     (let k = jget e ''kind'';
          kind = (if k = JStr ''reboot'' then ''reboot'' else if k = JStr ''alert'' then ''alert'' else ''status'')
      in evt s (to_num (jor (jget e ''at'') (JNum (ts_num h (jget e ''ts'')))))
           (if kind = ''reboot'' then ''cycle'' else if kind = ''alert'' then ''bell'' else ''bolt'')
           (si_tone (sevInfo (jget e ''sev'') l))
           (if kind = ''reboot'' then l ''Reboot'' ''jaebuting'' else if kind = ''alert'' then l ''Alert'' ''jangbi allim''
            else l ''Status change'' ''sangtae byeongyeong'')
           (shortTime (jget e ''ts'') today) (str_or (jget e ''text'')))"

definition device_evts :: "host \<Rightarrow> lfun \<Rightarrow> bool \<Rightarrow> string \<Rightarrow> device \<Rightarrow> evt list" where
  "device_evts h l ko today s =
     (let m = d_meta s; ns = m_lastNodeSwitch m; vs = m_lastVmSwitch m; rb = m_lastReboot m in
      (if truthy ns \<and> truthy (jget ns ''ts'')
       then [evt s (ts_num h (jget ns ''ts'')) ''cycle'' ''warn'' (l ''Node failover'' ''nodeu jeonhwan'')
               (JsText.slice 5 16 (to_str (jget ns ''ts''))) (switch_flow ns [])] else []) @
      (if truthy vs \<and> truthy (jget vs ''ts'')
       then [evt s (ts_num h (jget vs ''ts'')) ''cycle'' ''info'' (l ''VM failover'' ''VM jeonhwan'')
               (JsText.slice 5 16 (to_str (jget vs ''ts''))) (switch_flow vs (str_or (jget vs ''vm'')))] else []) @
      (if truthy rb \<and> \<not> nullish (jget rb ''agoSecs'')
       then [evt s (if truthy (jget rb ''at'') then n_mul (to_num (jget rb ''at'')) (Fin 1000)
                    else n_sub (Fin (of_int (now h))) (n_mul (to_num (jget rb ''agoSecs'')) (Fin 1000)))
               ''cycle'' ''mut'' (l ''Reboot'' ''jaebuting'') (agoText (age_int (jget rb ''agoSecs'')) l ko)
               (str_or (jget rb ''node''))] else []) @
      map (meta_evt h l today s) (m_events m))"

text \<open>A comparator that yields \<open>NaN\<close> counts as zero.\<close>

definition evtCmp :: "evt \<Rightarrow> evt \<Rightarrow> int" where
  "evtCmp x y = (if n_lt (et_k x) (et_k y) then 1 else if n_lt (et_k y) (et_k x) then - 1 else 0)"

definition evts :: "host \<Rightarrow> lfun \<Rightarrow> bool \<Rightarrow> string \<Rightarrow> device list \<Rightarrow> evt list" where
  "evts h l ko today fleet = sort_by evtCmp (concat (map (device_evts h l ko today) fleet))"

record change =
  cg_id :: string
  cg_host :: string
  cg_icon :: string
  cg_label :: string
  cg_tone :: string
  cg_when :: string
  cg_detail :: string
  cg_statusTone :: string
  cg_statusLabel :: string

definition evt_change :: "dev_row list \<Rightarrow> evt \<Rightarrow> change" where
  "evt_change rows e =
     (let ro = rowById rows (et_id e) in
      \<lparr>cg_id = et_id e, cg_host = et_host e, cg_icon = et_icon e, cg_label = et_label e, cg_tone = et_tone e,
       cg_when = et_when e, cg_detail = (if contains ARROW (et_flow e) then et_flow e else []),
       cg_statusTone = (case ro of Some r \<Rightarrow> dr_statusTone r | None \<Rightarrow> ''mut''),
       cg_statusLabel = (case ro of Some r \<Rightarrow> dr_statusLabel r | None \<Rightarrow> [])\<rparr>)"

definition row_change :: "lfun \<Rightarrow> dev_row \<Rightarrow> change" where
  "row_change l r =
     \<lparr>cg_id = dr_id r, cg_host = dr_label r, cg_icon = (if sr_status r = Down then ''link'' else ''warningCircle''),
      cg_label = (if sr_status r = Down then l ''Offline'' ''opeurain'' else l ''Degraded'' ''sangtae jeoha''),
      cg_tone = dr_statusTone r, cg_when = [], cg_detail = [], cg_statusTone = dr_statusTone r, cg_statusLabel = dr_statusLabel r\<rparr>"

text \<open>The first element of each key that has not been seen.\<close>

fun first_by :: "('a \<Rightarrow> string) \<Rightarrow> string list \<Rightarrow> 'a list \<Rightarrow> 'a list" where
  "first_by f seen [] = []"
| "first_by f seen (x # xs) = (if f x \<in> set seen then first_by f seen xs else x # first_by f (f x # seen) xs)"

definition recentChangesAll :: "lfun \<Rightarrow> dev_row list \<Rightarrow> evt list \<Rightarrow> change list" where
  "recentChangesAll l rows es =
     map (evt_change rows) (first_by et_id [] es) @
     map (row_change l) (first_by dr_id (map et_id es) (filter (\<lambda>r. sr_status r = Down \<or> sr_status r = Deg) rows))"

section \<open>State of the collection\<close>

definition tierErrOf :: "device \<Rightarrow> string list" where
  "tierErrOf s =
     (let e = jget (m_collection (d_meta s)) ''errors'' in
      if is_obj e then filter (\<lambda>k. truthy (jget (obj_copy e) k)) (own_keys (obj_copy e)) else [])"

record poll_stat =
  ps_empty :: bool
  ps_ok :: bool
  ps_errCnt :: nat
  ps_errHosts :: "string list"
  ps_errHostMore :: nat
  ps_maintCnt :: nat
  ps_tierErrs :: "(string \<times> string list) list"
  ps_source :: string
  ps_sourceLabel :: string
  ps_lastPoll :: int
  ps_ago :: string
  ps_agoSec :: "int option"
  ps_dataAgeSec :: "int option"
  ps_dataAge :: string
  ps_cacheAgeSec :: "int option"
  ps_refreshSec :: jsnum
  ps_stale :: bool
  ps_liveError :: string
  ps_paused :: bool

text \<open>\<open>Number(S.cacheAgeSec)\<close>: an unknown age is \<open>null\<close>, which converts to zero.\<close>

definition cache_age :: "app_state \<Rightarrow> rat option" where
  "cache_age st = (case s_cacheAgeSec st of None \<Rightarrow> Some 0 | Some (Fin x) \<Rightarrow> Some x | Some _ \<Rightarrow> None)"

definition pollStat :: "host \<Rightarrow> app_state \<Rightarrow> lfun \<Rightarrow> bool \<Rightarrow> poll_stat" where
  "pollStat h st l ko =
     (let fleet = s_fleet st;
          tiers = map (\<lambda>s. (dev_name s, tierErrOf s)) (filter (\<lambda>s. tierErrOf s \<noteq> []) fleet);
          errs = map dev_name (filter (\<lambda>s. truthy (m_error (d_meta s)) \<or> tierErrOf s \<noteq> []) fleet);
          maint = sum_list (map (\<lambda>s. count_if nodeMaint (m_nodes (d_meta s))) fleet);
          lp = s_lastPoll st; ago = (if lp = 0 then None else Some (max 0 ((now h - lp) div 1000)));
          age = (case (ago, cache_age st) of (Some a, Some c) \<Rightarrow> Some (a + rround c) | _ \<Rightarrow> ago);
          sample = isSampleMode st
      in \<lparr>ps_empty = (fleet = []), ps_ok = (errs = [] \<and> maint = 0), ps_errCnt = length errs, ps_errHosts = take 2 errs,
          ps_errHostMore = length errs - 2, ps_maintCnt = maint, ps_tierErrs = take 3 tiers,
          ps_source = (if sample then ''sample'' else ''live''),
          ps_sourceLabel = (if sample then ''SAMPLE'' else l ''Live'' ''silsigan''),
          ps_lastPoll = lp, ps_ago = agoText ago l ko, ps_agoSec = ago, ps_dataAgeSec = age, ps_dataAge = agoText age l ko,
          ps_cacheAgeSec = map_option rround (cache_age st),
          ps_refreshSec = (if n_truthy (s_refreshSec st) then s_refreshSec st else Fin 30),
          ps_stale = s_stale st, ps_liveError = s_liveError st, ps_paused = s_logPaused st\<rparr>)"

section \<open>Consumers and platforms\<close>

definition val_desc :: "int option \<Rightarrow> int option \<Rightarrow> int" where
  "val_desc x y = (case (x, y) of (Some a, Some b) \<Rightarrow> b - a | _ \<Rightarrow> 0)"

definition topConsumers :: "dev_row list \<Rightarrow> dev_row list" where
  "topConsumers rows = take 5 (sort_by (\<lambda>x y. val_desc (sr_cpuVal x) (sr_cpuVal y))
     (filter (\<lambda>r. \<not> us_na (dr_cpu r) \<and> \<not> dr_noTel r) rows))"

record platform =
  pf_key :: dev_type
  pf_label :: string
  pf_icon :: string
  pf_total :: nat
  pf_up :: nat

definition plat_add :: "lfun \<Rightarrow> (string \<times> platform) list \<Rightarrow> device \<Rightarrow> (string \<times> platform) list" where
  "plat_add l pm s =
     (let ti = typeInfo (d_type s) l;
          cur = (case map_of pm (ti_label ti) of Some p \<Rightarrow> p
            | None \<Rightarrow> \<lparr>pf_key = d_type s, pf_label = ti_label ti, pf_icon = ti_icon ti, pf_total = 0, pf_up = 0\<rparr>)
      in aput (ti_label ti) (cur\<lparr>pf_total := Suc (pf_total cur),
           pf_up := (if d_status s \<noteq> Down then Suc (pf_up cur) else pf_up cur)\<rparr>) pm)"

definition plat_pct :: "platform \<Rightarrow> jsnum" where
  "plat_pct p = n_round (n_mul (n_div (n_of_nat (pf_up p)) (n_of_nat (max 1 (pf_total p)))) (Fin 100))"

definition platforms :: "host \<Rightarrow> lfun \<Rightarrow> device list \<Rightarrow> (platform \<times> jsnum \<times> string) list" where
  "platforms h l fleet =
     (let pm = foldl (plat_add l) [] fleet in
      map (\<lambda>k. let p = the (map_of pm k); pct = plat_pct p in
             (p, pct, if n_eq pct (Fin 100) then ''pos'' else if n_le (Fin 50) pct then ''warn'' else ''neg''))
        (sort_by (collate h) (map fst pm)))"

section \<open>Insights\<close>

definition bump :: "string \<Rightarrow> (string \<times> nat) list \<Rightarrow> (string \<times> nat) list" where
  "bump k cnt = (if k = [] then cnt else aput k (case map_of cnt k of Some n \<Rightarrow> Suc n | None \<Rightarrow> 1) cnt)"

definition tally :: "string list \<Rightarrow> (string \<times> nat) list" where
  "tally ks = foldl (\<lambda>c k. bump k c) [] ks"

definition alert_word :: "'r shown_scheme \<Rightarrow> string" where
  "alert_word r = sor (sh_msgLocal r) (sh_msg r)"

definition topAlerts :: "shown_item list \<Rightarrow> shown_item list \<Rightarrow> (string \<times> nat) list" where
  "topAlerts als rows = take 5 (sort_by (\<lambda>a b. int (snd b) - int (snd a)) (tally (map alert_word als @ map alert_word rows)))"

record dev_count =
  dc_host :: string
  dc_hostId :: string
  dc_count :: nat
  dc_critN :: nat

definition dev_bump :: "(string \<times> dev_count) list \<Rightarrow> shown_item \<Rightarrow> (string \<times> dev_count) list" where
  "dev_bump m r =
     (let d = (case map_of m (sh_hostId r) of Some d \<Rightarrow> d
        | None \<Rightarrow> \<lparr>dc_host = sh_host r, dc_hostId = sh_hostId r, dc_count = 0, dc_critN = 0\<rparr>)
      in aput (sh_hostId r) (d\<lparr>dc_count := Suc (dc_count d),
           dc_critN := (if sh_sev r = ''critical'' then Suc (dc_critN d) else dc_critN d)\<rparr>) m)"

definition topDevices :: "shown_item list \<Rightarrow> dev_count list" where
  "topDevices active = take 5 (sort_by (\<lambda>a b. if int (dc_critN b) - int (dc_critN a) = 0 then int (dc_count b) - int (dc_count a)
       else int (dc_critN b) - int (dc_critN a)) (map snd (foldl dev_bump [] active)))"

definition onset_of :: "host \<Rightarrow> shown_item list \<Rightarrow> string \<Rightarrow> int" where
  "onset_of h als k = (case find (\<lambda>r. sh_ackKey r = k) als of Some r \<Rightarrow> tsKey h (JStr (sh_time r)) | None \<Rightarrow> 0)"

definition latencies :: "host \<Rightarrow> app_state \<Rightarrow> shown_item list \<Rightarrow> rat list" where
  "latencies h st als =
     (let acks = as_map (s_ackedAlerts st) in
      sort_by cmp_num (List.map_filter (\<lambda>k. let t0 = onset_of h als k; t1 = ackTimestampKey h (jget acks k) in
        if t0 \<noteq> 0 \<and> t1 \<noteq> 0 \<and> t0 \<le> t1 then Some (round64 (of_int (t1 - t0) / 3600000)) else None) (own_keys acks)))"

definition tenth :: "jsnum \<Rightarrow> jsnum" where "tenth n = n_div (n_round (n_mul n (Fin 10))) (Fin 10)"

definition median :: "rat list \<Rightarrow> jsnum" where
  "median xs = (let n = length xs in
     if n mod 2 = 1 then Fin (xs ! (n div 2))
     else n_div (n_add (Fin (xs ! (n div 2 - 1))) (Fin (xs ! (n div 2)))) (Fin 2))"

definition ackStats :: "host \<Rightarrow> app_state \<Rightarrow> shown_item list \<Rightarrow> (nat \<times> jsnum \<times> jsnum) option" where
  "ackStats h st als =
     (let xs = latencies h st als in
      if xs = [] then None else Some (length xs, tenth (n_mean xs), tenth (median xs)))"

definition oldestUnacked :: "host \<Rightarrow> shown_item list \<Rightarrow> (shown_item \<times> int) option" where
  "oldestUnacked h active = foldl (\<lambda>best r. case agoSec h (JStr (sh_time r)) of
       None \<Rightarrow> best
     | Some sec \<Rightarrow> (case best of None \<Rightarrow> Some (r, sec) | Some (b, s) \<Rightarrow> if s < sec then Some (r, sec) else best)) None active"

section \<open>Facts about the tables\<close>

lemma days_comparison: "comparison (\<lambda>x y. lx_days x - lx_days y)"
  by (rule comparison_I) (auto simp: sgn_if)

lemma bucket_partition:
  "mset (in_bucket Expiring rows) + mset (in_bucket Perpetual rows) + mset (in_bucket Unknown rows) = mset (map snd rows)"
proof (induction rows)
  case (Cons r rows)
  then show ?case by (cases "fst r") (simp_all add: in_bucket_def ac_simps)
qed (simp add: in_bucket_def)

lemma licence_of_Some:
  "licence_of h l ko s \<noteq> None \<longleftrightarrow> truthy (m_license (d_meta s))"
  "licence_of h l ko s = Some (b, r) \<Longrightarrow> lx_id r = d_id s"
  by (auto simp: licence_of_def Let_def split: if_splits option.splits)

lemma licence_ids:
  "map (\<lambda>r. lx_id (snd r)) (List.map_filter (licence_of h l ko) fleet) = map d_id (filter (\<lambda>s. truthy (m_license (d_meta s))) fleet)"
proof (induction fleet)
  case (Cons s fleet)
  then show ?case
    using licence_of_Some(1) [of h l ko s] licence_of_Some(2) [of h l ko s]
    by (cases "licence_of h l ko s") (auto simp: List.map_filter_simps)
qed (simp add: List.map_filter_simps)

lemma map_of_bump: "map_of (bump k c) x = (if k \<noteq> [] \<and> x = k then Some (case map_of c k of Some n \<Rightarrow> Suc n | None \<Rightarrow> 1) else map_of c x)"
  by (simp add: bump_def)

lemma tally_fold:
  "map_of (foldl (\<lambda>c k. bump k c) c0 ks) x =
     (if x = [] \<or> count_list ks x = 0 then map_of c0 x
      else Some (count_list ks x + (case map_of c0 x of Some n \<Rightarrow> n | None \<Rightarrow> 0)))"
  by (induction ks arbitrary: c0) (auto simp: map_of_bump split: option.splits)

lemma distinct_tally: "distinct (map fst c0) \<Longrightarrow> distinct (map fst (foldl (\<lambda>c k. bump k c) c0 ks))"
  by (induction ks arbitrary: c0) (simp_all add: bump_def distinct_aput)

lemma first_by_keys:
  "set (map f (first_by f seen xs)) = set (map f xs) - set seen \<and> distinct (map f (first_by f seen xs))"
  by (induction xs arbitrary: seen) (auto simp: image_iff)

text \<open>Replacing the value of a key exchanges its share of a sum.\<close>

lemma sum_aput:
  "sum_list (map (\<lambda>p. f (snd p)) (aput k v xs)) + (case map_of xs k of Some w \<Rightarrow> f w | None \<Rightarrow> 0)
     = sum_list (map (\<lambda>p. f (snd p)) xs) + (f v :: 'b::comm_monoid_add)"
  by (induction xs) (auto simp: ac_simps split: option.splits)

lemma plat_step:
  "sum_list (map (\<lambda>p. pf_total (snd p)) (plat_add l pm s)) = Suc (sum_list (map (\<lambda>p. pf_total (snd p)) pm))
   \<and> sum_list (map (\<lambda>p. pf_up (snd p)) (plat_add l pm s))
      = sum_list (map (\<lambda>p. pf_up (snd p)) pm) + (if d_status s \<noteq> Down then 1 else 0)"
proof -
  define k where "k = ti_label (typeInfo (d_type s) l)"
  obtain v where v: "plat_add l pm s = aput k v pm"
    "pf_total v = Suc (case map_of pm k of Some p \<Rightarrow> pf_total p | None \<Rightarrow> 0)"
    "pf_up v = (case map_of pm k of Some p \<Rightarrow> pf_up p | None \<Rightarrow> 0) + (if d_status s \<noteq> Down then 1 else 0)"
    by (cases "map_of pm k") (simp_all add: plat_add_def Let_def k_def)
  show ?thesis using sum_aput [of pf_total k v pm] sum_aput [of pf_up k v pm] unfolding v by linarith
qed

lemma plat_sum:
  "sum_list (map (\<lambda>p. pf_total (snd p)) (foldl (plat_add l) pm fleet)) = sum_list (map (\<lambda>p. pf_total (snd p)) pm) + length fleet
   \<and> sum_list (map (\<lambda>p. pf_up (snd p)) (foldl (plat_add l) pm fleet))
     = sum_list (map (\<lambda>p. pf_up (snd p)) pm) + length (filter (\<lambda>s. d_status s \<noteq> Down) fleet)"
  by (induction fleet arbitrary: pm) (simp_all add: plat_step)

lemma plat_distinct: "distinct (map fst pm) \<Longrightarrow> distinct (map fst (foldl (plat_add l) pm fleet))"
  by (induction fleet arbitrary: pm) (simp_all add: plat_add_def Let_def distinct_aput)

lemma sum_by_keys:
  assumes "distinct (map fst (pm :: (string \<times> 'v) list))"
  shows "sum_list (map (\<lambda>k. f (the (map_of pm k)) :: 'b::comm_monoid_add) (sort_by c (map fst pm))) = sum_list (map (\<lambda>p. f (snd p)) pm)"
proof -
  have "map (\<lambda>k. f (the (map_of pm k))) (map fst pm) = map (\<lambda>p. f (snd p)) pm"
    using assms by (auto simp: comp_def map_of_eq_Some_iff [OF assms, THEN iffD2])
  moreover have "sum_list (map g (sort_by c ks)) = sum_list (map g ks)" for g :: "string \<Rightarrow> 'b" and ks :: "string list"
    by (metis mset_map mset_sort_by sum_mset_sum_list)
  ultimately show ?thesis by metis
qed

text \<open>The platform table counts every device once, and the devices that are up once.\<close>

lemma platforms_count:
  "sum_list (map (\<lambda>r. pf_total (fst r)) (platforms h l fleet)) = length fleet"
  "sum_list (map (\<lambda>r. pf_up (fst r)) (platforms h l fleet)) = length (filter (\<lambda>s. d_status s \<noteq> Down) fleet)"
  using sum_by_keys [OF plat_distinct [of "[]" l fleet], of pf_total "collate h"] sum_by_keys [OF plat_distinct [of "[]" l fleet], of pf_up "collate h"]
  by (simp_all add: platforms_def Let_def comp_def plat_sum)

text \<open>A collector that does not tell the age of its cache is shown with an age of zero seconds.\<close>

lemma unknown_age_is_zero:
  "s_cacheAgeSec st = None \<Longrightarrow> ps_cacheAgeSec (pollStat h st l ko) = Some 0"
  by (simp add: pollStat_def Let_def cache_age_def rround_def floor_eq_iff)

section \<open>Properties\<close>

text \<open>
  Every licence is in exactly one bucket: the expiring, perpetual and unknown ones together are the devices that
  carry a licence, each once; the expiring ones are ordered by the days that are left, so that the headline shows the most urgent one.
\<close>

theorem licences_partition:
  "mset (map lx_id (lc_all (licenses h l ko fleet) @ lc_perpAll (licenses h l ko fleet) @ lc_naAll (licenses h l ko fleet)))
     = mset (map d_id (filter (\<lambda>s. truthy (m_license (d_meta s))) fleet))
   \<and> sorted_wrt (\<lambda>x y. lx_days x \<le> lx_days y) (lc_all (licenses h l ko fleet))
   \<and> lc_has (licenses h l ko fleet) = (lc_min (licenses h l ko fleet) \<noteq> None)
   \<and> (case lc_min (licenses h l ko fleet) of None \<Rightarrow> lc_all (licenses h l ko fleet) = []
      | Some x \<Rightarrow> list_all (\<lambda>y. lx_days x \<le> lx_days y) (lc_all (licenses h l ko fleet)))"
proof -
  let ?rows = "List.map_filter (licence_of h l ko) fleet"
  let ?ex = "sort_by (\<lambda>x y. lx_days x - lx_days y) (in_bucket Expiring ?rows)"
  have "sorted_wrt (\<lambda>x y. lx_days x - lx_days y \<le> 0) ?ex"
    by (rule comparator.sorted_sort_by [OF comparison.axioms(1) [OF days_comparison]])
  then have sorted: "sorted_wrt (\<lambda>x y. lx_days x \<le> lx_days y) ?ex" by simp
  have "mset (map lx_id (?ex @ in_bucket Perpetual ?rows @ in_bucket Unknown ?rows)) = image_mset lx_id (mset (map snd ?rows))"
    unfolding bucket_partition [symmetric] by simp
  also have "\<dots> = mset (map d_id (filter (\<lambda>s. truthy (m_license (d_meta s))) fleet))"
    unfolding licence_ids [of h l ko, symmetric] by (simp add: multiset.map_comp comp_def)
  finally show ?thesis using sorted
    by (cases ?ex) (auto simp: licenses_def Let_def list_all_iff simp del: sort_by_eq_Nil)
qed

text \<open>
  The list of recent changes shows every device at most once, and misses none that matters: it holds exactly the
  devices with an event and the ones that are down or degraded, even when they have no event.
\<close>

theorem recent_changes_once:
  "distinct (map cg_id (recentChangesAll l rows es))
   \<and> set (map cg_id (recentChangesAll l rows es)) =
       set (map et_id es) \<union> set (map dr_id (filter (\<lambda>r. sr_status r = Down \<or> sr_status r = Deg) rows))"
proof -
  have ids: "map cg_id (recentChangesAll l rows es) = map et_id (first_by et_id [] es)
      @ map dr_id (first_by dr_id (map et_id es) (filter (\<lambda>r. sr_status r = Down \<or> sr_status r = Deg) rows))"
    by (simp add: recentChangesAll_def comp_def evt_change_def row_change_def Let_def)
  show ?thesis
    unfolding ids
    using first_by_keys [of et_id "[]" es]
      first_by_keys [of dr_id "map et_id es" "filter (\<lambda>r. sr_status r = Down \<or> sr_status r = Deg) rows"]
    by (auto simp del: set_map set_filter)
qed

end
