(* ===== verification/Cluster.thy ===== *)
theory Cluster
  imports KpiAgg
begin

text \<open>
  \<open>src/web/js/model/compute/cluster.js\<close>: the table of redundant clusters, the capacity page, the
  tree of companies, factories and devices, and the global search. As in \<^const>\<open>resAgg\<close>, the figures of
  \<open>meta.unit\<close> are read as the numbers the collector sends.

  The main facts: the tree holds every device exactly once, in the group of its company and factory, and a group is as
  bad as its worst device; the cluster table words a licence as the licence card does; a search lists the matching devices before
  the matching alerts, at most eight.
\<close>

section \<open>Clusters\<close>

record cluster_row = dev_row +
  cl_nodeCount :: nat
  cl_vmText :: string
  cl_licTxt :: string
  cl_licTone :: string

definition lic_note :: "host \<Rightarrow> lfun \<Rightarrow> bool \<Rightarrow> jsval \<Rightarrow> string \<times> string" where
  "lic_note h l ko lic =
     (if \<not> truthy lic then (DASH, ''mut'')
      else if truthy (jget lic ''expires'') then
        (case parseLicDate h (jget lic ''expire'') of
           Some d \<Rightarrow> (let days = day_count d (now h) in (ddayText (Some days) ko, licTone (Some days)))
         | None \<Rightarrow> (l ''Unknown'' ''misang'', ''mut''))
      else (l ''Perpetual'' ''yeonggu'', ''mut''))"

definition cluster_row_of :: "host \<Rightarrow> lfun \<Rightarrow> bool \<Rightarrow> device list \<Rightarrow> dev_row \<Rightarrow> cluster_row" where
  "cluster_row_of h l ko fleet r =
     dev_row.extend r (case find (\<lambda>s. d_id s = dr_id r) fleet of
        Some d \<Rightarrow> (let m = d_meta d; n = lic_note h l ko (m_license m) in
          cluster_row.fields (length (m_nodes m))
            (num_str (Fin (m_vmRunning m)) @ '' / '' @ num_str (Fin (m_vms m))) (fst n) (snd n))
      | None \<Rightarrow> cluster_row.fields 0 ''0 / 0'' DASH ''mut'')"

record clusters =
  cs_list :: "cluster_row list"
  cs_filters :: "chip list"
  cs_total :: nat

definition buildClusterRows :: "host \<Rightarrow> app_state \<Rightarrow> lfun \<Rightarrow> bool \<Rightarrow> dev_row list \<Rightarrow> device list \<Rightarrow> clusters" where
  "buildClusterRows h st l ko rows fleet =
     (let f = sor (s_clustersFilter st) ''all''; ft = filter dr_isFT rows in
      \<lparr>cs_list = map (cluster_row_of h l ko fleet)
         (if f = ''all'' then ft else filter (\<lambda>r. status_key (sr_status r) = f) ft),
       cs_filters = status_chips l f ft, cs_total = length ft\<rparr>)"

section \<open>Capacity\<close>

record headroom_row =
  hd_id :: string
  hd_host :: string
  hd_typeLabel :: string
  hd_vcpuUsed :: jsnum
  hd_vcpuTot :: jsnum
  hd_vcpuPct :: jsnum
  hd_vcpuTone :: string
  hd_memUsed :: jsnum
  hd_memTot :: jsnum
  hd_memPct :: jsnum
  hd_memTone :: string
  hd_freeVcpu :: jsnum
  hd_freeMem :: jsnum

definition unit_pct :: "jsval \<Rightarrow> jsval \<Rightarrow> jsnum" where
  "unit_pct used tot = (if truthy tot then n_round (n_mul (n_div (or0 used) (to_num tot)) (Fin 100)) else Fin 0)"

definition headroom_of :: "thresholds \<Rightarrow> device \<Rightarrow> headroom_row option" where
  "headroom_of th s =
     (let u = m_unit (d_meta s); tv = jget u ''totVcpu''; tm = jget u ''totMem''; uv = jget u ''usedVcpu''; um = jget u ''usedMem'' in
      if \<not> (truthy tv \<or> truthy tm) then None
      else Some \<lparr>hd_id = d_id s, hd_host = dev_name s, hd_typeLabel = tm_label (TYPES (d_type s)),
        hd_vcpuUsed = n_round (or0 uv), hd_vcpuTot = n_round (or0 tv), hd_vcpuPct = unit_pct uv tv,
        hd_vcpuTone = pctTone th (Some (unit_pct uv tv)),
        hd_memUsed = fixed1 (or0 um), hd_memTot = fixed1 (or0 tm), hd_memPct = unit_pct um tm,
        hd_memTone = pctTone th (Some (unit_pct um tm)),
        hd_freeVcpu = n_max (Fin 0) (n_round (n_sub (or0 tv) (or0 uv))),
        hd_freeMem = fixed1 (n_max (Fin 0) (n_sub (or0 tm) (or0 um)))\<rparr>)"

record vm_node =
  vn_node :: string
  vn_nodeKey :: string
  vn_host :: string
  vn_id :: string
  vn_total :: nat
  vn_running :: nat

text \<open>The pattern \<open>/^.*?-(node\d+)$/i\<close>, where the dot matches no line terminator.\<close>

definition rx_node :: rx where
  "rx_node = rseqs [RBos, RStar (\<lambda>c. c \<noteq> CHR 0x0A \<and> c \<noteq> CHR 0x0D), rlit ''-'', RCap (RSeq (rlit_ci ''node'') (rplus is_digit)), REos]"

definition node_short :: "string \<Rightarrow> string" where
  "node_short n = (case rx_exec rx_node n of Some (b, m, c # cs, a) \<Rightarrow> b @ c @ a | _ \<Rightarrow> n)"

definition vm_add :: "device \<Rightarrow> (string \<times> vm_node) list \<Rightarrow> jsval \<Rightarrow> (string \<times> vm_node) list" where
  "vm_add s per v =
     (let n = str_or (jget v ''node'') in
      if n = [] then per
      else (let cur = (case map_of per n of Some c \<Rightarrow> c
              | None \<Rightarrow> \<lparr>vn_node = node_short n, vn_nodeKey = n, vn_host = dev_name s, vn_id = d_id s, vn_total = 0, vn_running = 0\<rparr>)
            in aput n (cur\<lparr>vn_total := Suc (vn_total cur),
                 vn_running := (if jget v ''state'' = JStr ''running'' then Suc (vn_running cur) else vn_running cur)\<rparr>) per))"

definition vm_nodes :: "host \<Rightarrow> device \<Rightarrow> vm_node list" where
  "vm_nodes h s = (let per = foldl (vm_add s) [] (m_vmList (d_meta s)) in
     map (\<lambda>k. the (map_of per k)) (sort_by (collate h) (map fst per)))"

definition vm_width :: "vm_node \<Rightarrow> string" where
  "vm_width v = (if vn_total v \<noteq> 0
     then num_str (n_round (n_mul (n_div (n_of_nat (vn_running v)) (n_of_nat (vn_total v))) (Fin 100))) else ''0'') @ ''%''"

definition peak :: "headroom_row \<Rightarrow> jsnum" where "peak x = n_max (hd_vcpuPct x) (hd_memPct x)"

definition peakCmp :: "headroom_row \<Rightarrow> headroom_row \<Rightarrow> int" where
  "peakCmp x y = (if n_lt (peak x) (peak y) then 1 else if n_lt (peak y) (peak x) then - 1 else 0)"

record capacity =
  cp_cpuRank :: "dev_row list"
  cp_memRank :: "dev_row list"
  cp_headroom :: "headroom_row list"
  cp_vmByNode :: "(vm_node \<times> string) list"
  cp_resAgg :: res_agg
  cp_tight :: nat
  cp_tightNames :: "string list"

definition is_tight :: "thresholds \<Rightarrow> headroom_row \<Rightarrow> bool" where
  "is_tight th x \<longleftrightarrow> n_le (th_warn th) (hd_vcpuPct x) \<or> n_le (th_warn th) (hd_memPct x)"

definition buildCapacityModel :: "host \<Rightarrow> thresholds \<Rightarrow> dev_row list \<Rightarrow> device list \<Rightarrow> res_agg \<Rightarrow> capacity" where
  "buildCapacityModel h th rows fleet ra =
     (let usable = filter (\<lambda>r. \<not> dr_noTel r) rows;
          hr = sort_by peakCmp (List.map_filter (headroom_of th) fleet);
          vn = sort_by (\<lambda>a b. int (vn_total b) - int (vn_total a)) (concat (map (vm_nodes h) fleet))
      in \<lparr>cp_cpuRank = sort_by (\<lambda>a b. val_desc (sr_cpuVal a) (sr_cpuVal b)) (filter (\<lambda>r. \<not> us_na (dr_cpu r)) usable),
          cp_memRank = sort_by (\<lambda>a b. val_desc (sr_memVal a) (sr_memVal b)) (filter (\<lambda>r. \<not> us_na (dr_mem r)) usable),
          cp_headroom = hr, cp_vmByNode = map (\<lambda>v. (v, vm_width v)) vn, cp_resAgg = ra,
          cp_tight = count_if (is_tight th) hr,
          cp_tightNames = filter (\<lambda>x. x \<noteq> []) (map hd_host (filter (is_tight th) hr))\<rparr>)"

section \<open>The tree of companies and factories\<close>

definition worstOf :: "dev_status list \<Rightarrow> dev_status" where
  "worstOf xs = (if Down \<in> set xs then Down else if Deg \<in> set xs then Deg else Op)"

definition UNASSIGNED_CO :: string where "UNASSIGNED_CO = ''(unassigned)''"
definition UNASSIGNED_FA :: string where "UNASSIGNED_FA = ''(no-factory)''"

record fac_node =
  fn_key :: string
  fn_name :: string
  fn_count :: nat
  fn_collapsed :: bool
  fn_worst :: dev_status
  fn_devices :: "dev_row list"

record co_node =
  cn_key :: string
  cn_name :: string
  cn_count :: nat
  cn_collapsed :: bool
  cn_worst :: dev_status
  cn_factories :: "fac_node list"

definition company_of :: "dev_row \<Rightarrow> string" where "company_of r = sor (dr_company r) UNASSIGNED_CO"
definition factory_of :: "dev_row \<Rightarrow> string" where "factory_of r = sor (dr_factory r) UNASSIGNED_FA"

definition push_key :: "string \<Rightarrow> 'a \<Rightarrow> (string \<times> 'a list) list \<Rightarrow> (string \<times> 'a list) list" where
  "push_key k x m = aput k ((case map_of m k of Some xs \<Rightarrow> xs | None \<Rightarrow> []) @ [x]) m"

type_synonym co_map = "(string \<times> (string \<times> dev_row list) list) list"

definition tree_add :: "co_map \<Rightarrow> dev_row \<Rightarrow> co_map" where
  "tree_add m r = (let co = company_of r in
     aput co (push_key (factory_of r) r (case map_of m co of Some c \<Rightarrow> c | None \<Rightarrow> [])) m)"

definition is_collapsed :: "app_state \<Rightarrow> string \<Rightarrow> bool" where
  "is_collapsed st k \<longleftrightarrow> truthy (jget (as_map (s_manageCollapsed st)) k)"

definition fac_of :: "host \<Rightarrow> app_state \<Rightarrow> lfun \<Rightarrow> string \<Rightarrow> (string \<times> dev_row list) list \<Rightarrow> string \<Rightarrow> fac_node" where
  "fac_of h st l co c fa =
     (let devs = sort_by (\<lambda>a b. collate h (dr_label a) (dr_label b)) (the (map_of c fa)); k = ''fa:'' @ co @ ''/'' @ fa
      in \<lparr>fn_key = k, fn_name = (if fa = UNASSIGNED_FA then l ''Unassigned'' ''mijijeong'' else fa), fn_count = length devs,
          fn_collapsed = is_collapsed st k, fn_worst = worstOf (map sr_status devs), fn_devices = devs\<rparr>)"

definition co_of :: "host \<Rightarrow> app_state \<Rightarrow> lfun \<Rightarrow> co_map \<Rightarrow> string \<Rightarrow> co_node" where
  "co_of h st l m co =
     (let c = the (map_of m co); facs = map (fac_of h st l co c) (sort_by (collate h) (map fst c));
          al = concat (map fn_devices facs)
      in \<lparr>cn_key = ''co:'' @ co, cn_name = (if co = UNASSIGNED_CO then l ''Unassigned'' ''mibunryu'' else co),
          cn_count = length al, cn_collapsed = is_collapsed st (''co:'' @ co), cn_worst = worstOf (map sr_status al),
          cn_factories = facs\<rparr>)"

definition buildTree :: "host \<Rightarrow> app_state \<Rightarrow> lfun \<Rightarrow> dev_row list \<Rightarrow> co_node list" where
  "buildTree h st l rows = (let m = foldl tree_add [] rows in map (co_of h st l m) (sort_by (collate h) (map fst m)))"

section \<open>Search\<close>

record hit =
  hi_kind :: string
  hi_id :: string
  hi_icon :: string
  hi_label :: string
  hi_meta :: string
  hi_status :: string
  hi_tone :: string

definition and_get :: "jsval \<Rightarrow> string \<Rightarrow> jsval" where
  "and_get x k = (if truthy x then jget x k else x)"

definition vm_names :: "device \<Rightarrow> jsval list" where
  "vm_names s = filter truthy (map (\<lambda>v. jget v ''name'') (m_vmList (d_meta s)))"

definition hay_parts :: "app_state \<Rightarrow> lfun \<Rightarrow> device \<Rightarrow> jsval list" where
  "hay_parts st l s =
     (let m = d_meta s; subs = [m_printer m, m_nas m, m_plc m, m_win m, m_pi m, m_pc m];
          note = jget (jor (jget (as_map (s_notes st)) (d_id s)) (JObj [])) ''text''
      in filter truthy
        ([JStr (d_host s), JStr (m_label m), JStr (m_mgmt m), JStr (m_assetTag m), JStr (ti_label (typeInfo (d_type s) l)), JStr (d_site s), note]
         @ map (\<lambda>n. jget n ''name'') (m_nodes m) @ map (\<lambda>n. jget n ''ip'') (m_nodes m) @ vm_names s
         @ map (\<lambda>x. and_get x ''serial'') subs @ map (\<lambda>x. and_get x ''mac'') subs
         @ map (\<lambda>x. and_get x ''serial'') (m_snmp m)))"

definition hay :: "app_state \<Rightarrow> lfun \<Rightarrow> device \<Rightarrow> string" where
  "hay st l s = lower (join '' '' (map to_str (hay_parts st l s)))"

definition device_hit :: "lfun \<Rightarrow> string \<Rightarrow> device \<Rightarrow> hit" where
  "device_hit l q s =
     (let ti = typeInfo (d_type s) l; vm = find (\<lambda>x. contains q (lower (to_str x))) (vm_names s)
      in \<lparr>hi_kind = ''node'', hi_id = d_id s, hi_icon = ti_icon ti, hi_label = dev_name s,
          hi_meta = join '' . '' (filter (\<lambda>x. x \<noteq> []) [ti_label ti, m_mgmt (d_meta s),
             case vm of Some x \<Rightarrow> ''VM: '' @ to_str x | None \<Rightarrow> []]),
          hi_status = status_key (d_status s), hi_tone = statusTone (d_status s)\<rparr>)"

definition alert_matches :: "string \<Rightarrow> 'r shown_scheme \<Rightarrow> bool" where
  "alert_matches q a \<longleftrightarrow> contains q (lower (sh_msg a)) \<or> contains q (lower (sh_host a))"

definition alert_hit :: "string \<Rightarrow> 'r shown_scheme \<Rightarrow> hit" where
  "alert_hit today a = \<lparr>hi_kind = ''incident'', hi_id = sh_hostId a, hi_icon = sh_sevIcon a, hi_label = sh_msg a,
     hi_meta = join '' . '' (filter (\<lambda>x. x \<noteq> []) [sh_host a, shortTime (JStr (sh_time a)) today]),
     hi_status = sh_sev a, hi_tone = sh_sevTone a\<rparr>"

definition search_query :: "app_state \<Rightarrow> string" where
  "search_query st = lower (trim (s_search st))"

definition buildSearchList :: "app_state \<Rightarrow> lfun \<Rightarrow> string \<Rightarrow> device list \<Rightarrow> 'r shown_scheme list \<Rightarrow> hit list" where
  "buildSearchList st l today fleet alerts =
     (let q = search_query st in
      if q = [] then []
      else take 8 (map (device_hit l q) (filter (\<lambda>s. contains q (hay st l s)) fleet)
                   @ map (alert_hit today) (filter (alert_matches q) alerts)))"

section \<open>Facts about the tree\<close>

definition group_sum :: "(string \<times> 'a list) list \<Rightarrow> 'a multiset" where
  "group_sum m = sum_list (map (\<lambda>p. mset (snd p)) m)"

definition tree_sum :: "co_map \<Rightarrow> dev_row multiset" where
  "tree_sum m = sum_list (map (\<lambda>p. group_sum (snd p)) m)"

lemma group_sum_push: "group_sum (push_key k x m) = add_mset x (group_sum m)"
proof -
  define xs where "xs = (case map_of m k of Some xs \<Rightarrow> xs | None \<Rightarrow> [])"
  have "(case map_of m k of Some w \<Rightarrow> mset w | None \<Rightarrow> {#}) = mset xs" by (simp add: xs_def split: option.splits)
  then have "group_sum (push_key k x m) + mset xs = add_mset x (group_sum m) + mset xs"
    using sum_aput [of mset k "xs @ [x]" m] by (simp add: group_sum_def push_key_def xs_def)
  then show ?thesis by simp
qed

lemma tree_sum_add: "tree_sum (tree_add m r) = add_mset r (tree_sum m)"
proof -
  define c where "c = (case map_of m (company_of r) of Some c \<Rightarrow> c | None \<Rightarrow> [])"
  have "(case map_of m (company_of r) of Some w \<Rightarrow> group_sum w | None \<Rightarrow> {#}) = group_sum c"
    by (simp add: c_def group_sum_def split: option.splits)
  then have "tree_sum (tree_add m r) + group_sum c = tree_sum m + add_mset r (group_sum c)"
    using sum_aput [of group_sum "company_of r" "push_key (factory_of r) r c" m] group_sum_push [of "factory_of r" r c]
    by (simp add: tree_sum_def tree_add_def Let_def c_def)
  then show ?thesis by simp
qed

lemma tree_sum_fold: "tree_sum (foldl tree_add m rows) = tree_sum m + mset rows"
  by (induction rows arbitrary: m) (simp_all add: tree_sum_add)

text \<open>What the nested map keeps: no key twice, no empty group, and every device in the group of its company and factory.\<close>

definition groups_ok :: "string \<Rightarrow> (string \<times> dev_row list) list \<Rightarrow> bool" where
  "groups_ok co c \<longleftrightarrow> distinct (map fst c)
     \<and> (\<forall>fa xs. map_of c fa = Some xs \<longrightarrow> xs \<noteq> [] \<and> list_all (\<lambda>r. company_of r = co \<and> factory_of r = fa) xs)"

definition co_map_ok :: "co_map \<Rightarrow> bool" where
  "co_map_ok m \<longleftrightarrow> distinct (map fst m) \<and> (\<forall>co c. map_of m co = Some c \<longrightarrow> groups_ok co c \<and> c \<noteq> [])"

lemma groups_ok_push: "groups_ok (company_of r) c \<Longrightarrow> groups_ok (company_of r) (push_key (factory_of r) r c)"
  by (auto simp: groups_ok_def push_key_def distinct_aput split: option.splits)

lemma push_key_nonempty [simp]: "push_key k x c \<noteq> []"
  by (cases c) (auto simp: push_key_def)

lemma co_map_ok_add: "co_map_ok m \<Longrightarrow> co_map_ok (tree_add m r)"
proof -
  assume ok: "co_map_ok m"
  define c where "c = (case map_of m (company_of r) of Some c \<Rightarrow> c | None \<Rightarrow> [])"
  have "groups_ok (company_of r) []" by (simp add: groups_ok_def)
  then have "groups_ok (company_of r) c" using ok by (simp add: c_def co_map_ok_def split: option.splits)
  then have "groups_ok (company_of r) (push_key (factory_of r) r c)" by (rule groups_ok_push)
  then show ?thesis using ok by (simp add: co_map_ok_def tree_add_def Let_def c_def distinct_aput)
qed

lemma co_map_ok_fold: "co_map_ok m \<Longrightarrow> co_map_ok (foldl tree_add m rows)"
  by (induction rows arbitrary: m) (simp_all add: co_map_ok_add)

lemma mset_concat_sum: "mset (concat (map f xs)) = sum_list (map (\<lambda>x. mset (f x)) xs)"
  by (induction xs) simp_all

lemma co_devices:
  assumes "distinct (map fst c)" "map_of m co = Some c"
  shows "mset (concat (map fn_devices (cn_factories (co_of h st l m co)))) = group_sum c"
  using sum_by_keys [OF assms(1), of mset "collate h"] assms(2)
  by (simp add: co_of_def Let_def fac_of_def mset_concat_sum comp_def group_sum_def)

lemma tree_devices:
  assumes "co_map_ok m"
  shows "mset (concat (map (\<lambda>co. concat (map fn_devices (cn_factories (co_of h st l m co)))) (sort_by (collate h) (map fst m)))) = tree_sum m"
proof -
  let ?dev = "\<lambda>co. concat (map fn_devices (cn_factories (co_of h st l m co)))" and ?ks = "sort_by (collate h) (map fst m)"
  have d: "distinct (map fst m)" using assms by (simp add: co_map_ok_def)
  have "mset (?dev co) = group_sum (the (map_of m co))" if "co \<in> set ?ks" for co
  proof -
    have "co \<in> fst ` set m" using that by simp
    then obtain c where c: "map_of m co = Some c" by (metis map_of_eq_None_iff not_None_eq)
    then have "distinct (map fst c)" using assms by (simp add: co_map_ok_def groups_ok_def)
    then show ?thesis using co_devices [OF _ c, of h st l] by (simp only: c option.sel)
  qed
  then have "map (\<lambda>co. mset (?dev co)) ?ks = map (\<lambda>co. group_sum (the (map_of m co))) ?ks" by (rule map_cong [OF refl])
  then show ?thesis unfolding mset_concat_sum [of ?dev] tree_sum_def sum_by_keys [OF d, symmetric, of group_sum "collate h"] by (rule arg_cong)
qed

definition co_node_ok :: "co_node \<Rightarrow> bool" where
  "co_node_ok c \<longleftrightarrow> cn_factories c \<noteq> [] \<and> distinct (map fn_key (cn_factories c))
     \<and> cn_count c = sum_list (map fn_count (cn_factories c))
     \<and> cn_worst c = worstOf (map fn_worst (cn_factories c))
     \<and> list_all (\<lambda>f. fn_count f = length (fn_devices f) \<and> 0 < fn_count f \<and> fn_worst f = worstOf (map sr_status (fn_devices f))
          \<and> list_all (\<lambda>r. cn_key c = ''co:'' @ company_of r \<and> fn_key f = ''fa:'' @ company_of r @ ''/'' @ factory_of r) (fn_devices f))
        (cn_factories c)"

lemma worstOf_map: "worstOf (map worstOf xss) = worstOf (concat xss)"
  by (auto simp: worstOf_def image_iff split: if_splits)

lemma co_node_ok_of:
  assumes "groups_ok co c" "c \<noteq> []" "map_of m co = Some c"
  shows "co_node_ok (co_of h st l m co)"
proof -
  let ?n = "co_of h st l m co"
  have facs: "cn_factories ?n = map (fac_of h st l co c) (sort_by (collate h) (map fst c))"
    using assms(3) by (simp add: co_of_def Let_def)
  have fac: "fn_count f = length (fn_devices f) \<and> 0 < fn_count f \<and> fn_worst f = worstOf (map sr_status (fn_devices f))
      \<and> list_all (\<lambda>r. cn_key ?n = ''co:'' @ company_of r \<and> fn_key f = ''fa:'' @ company_of r @ ''/'' @ factory_of r) (fn_devices f)"
    if "f \<in> set (cn_factories ?n)" for f
  proof -
    have "f \<in> fac_of h st l co c ` (fst ` set c)" using that by (simp add: facs)
    then obtain fa where fa: "f = fac_of h st l co c fa" "fa \<in> fst ` set c" by blast
    then obtain xs where xs: "map_of c fa = Some xs" by (metis map_of_eq_None_iff not_None_eq)
    then have "xs \<noteq> []" "list_all (\<lambda>r. company_of r = co \<and> factory_of r = fa) xs" using assms(1) by (auto simp: groups_ok_def)
    then show ?thesis by (auto simp: fa(1) fac_of_def Let_def xs list_all_iff co_of_def)
  qed
  have "cn_count ?n = sum_list (map (\<lambda>f. length (fn_devices f)) (cn_factories ?n))"
    by (simp add: co_of_def Let_def length_concat comp_def)
  moreover have "map (\<lambda>f. length (fn_devices f)) (cn_factories ?n) = map fn_count (cn_factories ?n)" using fac by simp
  moreover have "map fn_worst (cn_factories ?n) = map worstOf (map (\<lambda>f. map sr_status (fn_devices f)) (cn_factories ?n))" using fac by simp
  moreover have "cn_worst ?n = worstOf (concat (map (\<lambda>f. map sr_status (fn_devices f)) (cn_factories ?n)))"
    by (simp add: co_of_def Let_def map_concat comp_def)
  moreover have "cn_factories ?n \<noteq> []" unfolding facs using assms(2) by simp
  moreover have "map fn_key (cn_factories ?n) = map (\<lambda>fa. ''fa:'' @ co @ ''/'' @ fa) (sort_by (collate h) (map fst c))"
    by (simp add: facs comp_def fac_of_def Let_def)
  then have "distinct (map fn_key (cn_factories ?n))"
    using assms(1) by (simp add: distinct_map inj_on_def groups_ok_def)
  ultimately show ?thesis using fac by (simp only: co_node_ok_def list_all_iff worstOf_map) blast
qed

text \<open>The key under which a factory is folded does not tell where the company's name ends.\<close>

lemma fa_key_ambiguous:
  "fn_key (fac_of h st l ''a/b'' c ''c'') = fn_key (fac_of h st l ''a'' c' ''b/c'')"
  by (simp add: fac_of_def Let_def)

section \<open>Properties\<close>

text \<open>
  C31. The management tree shows the fleet as it is: every device stands in it exactly once, in the group of its
  company and factory; no company is shown twice, no factory twice within its company, and none of them is empty; each level counts its devices; and a
  factory is as bad as its worst device, a company as its worst factory.
\<close>

theorem tree_partitions_fleet:
  "mset (concat (map (\<lambda>c. concat (map fn_devices (cn_factories c))) (buildTree h st l rows))) = mset rows
   \<and> distinct (map cn_key (buildTree h st l rows)) \<and> list_all co_node_ok (buildTree h st l rows)"
proof -
  define m where "m = foldl tree_add [] rows"
  have ok: "co_map_ok m" unfolding m_def by (rule co_map_ok_fold) (simp add: co_map_ok_def)
  have tree: "buildTree h st l rows = map (co_of h st l m) (sort_by (collate h) (map fst m))"
    by (simp add: buildTree_def Let_def m_def)
  have "tree_sum m = mset rows" unfolding m_def tree_sum_fold by (simp add: tree_sum_def)
  then have "mset (concat (map (\<lambda>c. concat (map fn_devices (cn_factories c))) (buildTree h st l rows))) = mset rows"
    using tree_devices [OF ok, of h st l] by (simp add: tree comp_def)
  moreover have "cn_key (co_of h st l m co) = ''co:'' @ co" for co by (simp add: co_of_def Let_def)
  then have "distinct (map cn_key (buildTree h st l rows))"
    using ok by (simp add: tree comp_def distinct_map inj_on_def co_map_ok_def)
  moreover have "co_node_ok (co_of h st l m co)" if "co \<in> fst ` set m" for co
  proof -
    obtain c where c: "map_of m co = Some c" using \<open>co \<in> fst ` set m\<close> by (metis map_of_eq_None_iff not_None_eq)
    then show ?thesis using ok co_node_ok_of [OF _ _ c] c by (simp add: co_map_ok_def)
  qed
  ultimately show ?thesis by (auto simp: tree list_all_iff)
qed

text \<open>
  The cluster table and the licence card agree on every device: the table words its licence, and colours it,
  exactly as the card of the bucket that holds it, and shows a dash for a device without a licence.
\<close>

theorem cluster_licence_agrees:
  "lic_note h l ko (m_license (d_meta s)) =
     (case licence_of h l ko s of Some (b, r) \<Rightarrow> (lx_txt r, lx_tone r) | None \<Rightarrow> (DASH, ''mut''))"
  by (simp add: lic_note_def licence_of_def Let_def split: option.splits)

text \<open>
  The search finds what it says: an empty query finds nothing; otherwise it lists every matching device
  before every matching alert, in the order of the fleet and of the alerts, and cuts the list at eight. A device whose name, label, address or asset tag
  contains the query matches.
\<close>

theorem search_complete:
  "map hi_id (buildSearchList st l today fleet alerts) =
     (if search_query st = [] then []
      else take 8 (map d_id (filter (\<lambda>s. contains (search_query st) (hay st l s)) fleet)
                   @ map sh_hostId (filter (alert_matches (search_query st)) alerts)))
   \<and> length (buildSearchList st l today fleet alerts) \<le> 8"
proof
  show "length (buildSearchList st l today fleet alerts) \<le> 8"
    by (simp add: buildSearchList_def Let_def del: take_append)
qed (simp add: buildSearchList_def Let_def take_map [symmetric] device_hit_def alert_hit_def comp_def)

end
