(* ===== verification/Router.thy ===== *)
theory Router
  imports PollLoop
begin

text \<open>
  Navigation in \<open>src/web/js/app.js\<close>: the hash of the address bar and the state of the console
  (\<open>parseHash\<close>, \<open>hashOf\<close>, \<open>syncHash\<close>, \<open>resolveRoute\<close>, \<open>applyHash\<close>, \<open>goView\<close>, \<open>goDetail\<close>, \<open>goBack\<close>), and the exchange of the
  mounted screen (\<open>swapView\<close>), which waits for a module to load.

  The main facts: hash and state are two views of one route, whatever sequence of links, clicks, back buttons and
  answers of the poller the console goes through; and a screen that loads late never replaces a newer one.
\<close>

section \<open>Routes\<close>

definition SCREEN_KEYS :: "string list" where
  "SCREEN_KEYS = [''overview'', ''nodes'', ''topology'', ''capacity'', ''clusters'', ''incidents'', ''manage'', ''settings'', ''detail'']"

record route =
  rt_view :: string
  rt_selected :: "string option"
  rt_alertView :: "string option"

definition plain_route :: "string \<Rightarrow> route" where
  "plain_route v = \<lparr>rt_view = v, rt_selected = None, rt_alertView = None\<rparr>"

text \<open>
  \<open>decodeURIComponent\<close> over the characters of the model: \<open>None\<close> where the source throws. A
  sequence for a character beyond the first 256 is not a text of the model and counts as malformed.
\<close>

definition hex_byte :: "char \<Rightarrow> char \<Rightarrow> nat option" where
  "hex_byte a b = (if is_hex a \<and> is_hex b then Some (nat (16 * hex_val a + hex_val b)) else None)"

fun uri_dec :: "string \<Rightarrow> string option" where
  "uri_dec [] = Some []"
| "uri_dec (c # cs) =
     (if c \<noteq> CHR ''%'' then map_option ((#) c) (uri_dec cs)
      else (case cs of
          a # b # r \<Rightarrow> (case hex_byte a b of
              None \<Rightarrow> None
            | Some n \<Rightarrow>
                if n < 128 then map_option ((#) (char_of n)) (uri_dec r)
                else (case r of
                    p # d # e # r' \<Rightarrow> (case hex_byte d e of
                        None \<Rightarrow> None
                      | Some m \<Rightarrow> if p = CHR ''%'' \<and> (n = 194 \<or> n = 195) \<and> 128 \<le> m \<and> m < 192
                          then map_option ((#) (char_of ((n - 192) * 64 + (m - 128)))) (uri_dec r') else None)
                  | _ \<Rightarrow> None))
        | _ \<Rightarrow> None))"

definition uri_seg :: "string \<Rightarrow> string" where
  "uri_seg s = (case uri_dec s of Some t \<Rightarrow> t | None \<Rightarrow> s)"

definition strip_hash :: "string \<Rightarrow> string" where
  "strip_hash s = (case s of
     c # cs \<Rightarrow> if c = CHR ''#'' then (case cs of d # ds \<Rightarrow> if d = CHR ''/'' then ds else cs | [] \<Rightarrow> []) else s
   | [] \<Rightarrow> [])"

definition parseHash :: "string \<Rightarrow> route" where
  "parseHash hash =
     (case map uri_seg (filter (\<lambda>s. s \<noteq> []) (split_on (CHR ''/'') (strip_hash hash))) of
        [] \<Rightarrow> plain_route ''overview''
      | view # rest \<Rightarrow>
          if view = ''logs'' then \<lparr>rt_view = ''incidents'', rt_selected = None, rt_alertView = Some ''log''\<rparr>
          else if view \<notin> set SCREEN_KEYS then plain_route ''overview''
          else if view = ''detail'' then
            (case rest of
               x # _ \<Rightarrow> if x = [] then plain_route ''overview'' else \<lparr>rt_view = ''detail'', rt_selected = Some x, rt_alertView = None\<rparr>
             | [] \<Rightarrow> plain_route ''overview'')
          else if view = ''incidents'' then
            \<lparr>rt_view = ''incidents'', rt_selected = None,
             rt_alertView = Some (case rest of x # _ \<Rightarrow> if x = ''stats'' then ''stats'' else ''cards'' | [] \<Rightarrow> ''cards'')\<rparr>
          else plain_route view)"

definition hashOf :: "app_state \<Rightarrow> string" where
  "hashOf st =
     (case (if s_view st = ''detail'' then s_selected st else None) of
        Some i \<Rightarrow> ''#/detail/'' @ encodeURIComponent i
      | None \<Rightarrow>
          if s_view st = ''incidents'' \<and> s_alertView st = ''log'' then ''#/logs''
          else if s_view st = ''incidents'' \<and> s_alertView st = ''stats'' then ''#/incidents/stats''
          else ''#/'' @ s_view st)"

definition resolveRoute :: "bool \<Rightarrow> route \<Rightarrow> app_state \<Rightarrow> route" where
  "resolveRoute settled r st =
     (if rt_view r \<noteq> ''detail'' \<or> \<not> settled \<or> s_fleet st = [] then r
      else if list_ex (\<lambda>d. Some (d_id d) = rt_selected r) (s_fleet st) then r
      else plain_route ''overview'')"

section \<open>The address bar\<close>

text \<open>
  \<open>nv_pushed\<close> are the entries the console has added to the session history, newest first. Where
  \<open>pushState\<close> or \<open>replaceState\<close> is refused the source assigns \<open>location.hash\<close>, which shows the same hash; \<open>nv_history\<close> tells whether they work.
\<close>

record nav =
  nv_st :: app_state
  nv_hash :: string
  nv_pushed :: "string list"
  nv_history :: bool
  nv_settled :: bool

definition syncHash :: "bool \<Rightarrow> nav \<Rightarrow> nav" where
  "syncHash lock n =
     (if lock \<or> nv_hash n = hashOf (nv_st n) then n
      else n\<lparr>nv_hash := hashOf (nv_st n), nv_pushed := hashOf (nv_st n) # nv_pushed n\<rparr>)"

text \<open>\<open>setState\<close> renders the shell, whose last step is \<open>syncHash\<close>.\<close>

definition patchState :: "bool \<Rightarrow> (app_state \<Rightarrow> app_state) \<Rightarrow> nav \<Rightarrow> nav" where
  "patchState lock f n = syncHash lock (n\<lparr>nv_st := f (nv_st n)\<rparr>)"

definition route_patch :: "route \<Rightarrow> app_state \<Rightarrow> app_state" where
  "route_patch r st =
     st\<lparr>s_view := rt_view r, s_selected := rt_selected r,
        s_originView := (if rt_view r = ''detail'' then s_originView st else rt_view r),
        s_alertView := (case rt_alertView r of Some v \<Rightarrow> v | None \<Rightarrow> s_alertView st)\<rparr>"

definition not_found :: "lfun \<Rightarrow> string \<Rightarrow> string" where
  "not_found l i = l (i @ '' not found -- showing overview'') (i @ '' jangbi eopseum -- gaeyoro idong'')"

definition enterRoute :: "route \<Rightarrow> nav \<Rightarrow> nav" where
  "enterRoute r n =
     (let st = nv_st n; tabChg = (case rt_alertView r of Some v \<Rightarrow> s_alertView st \<noteq> v | None \<Rightarrow> False) in
      if s_view st \<noteq> rt_view r \<or> s_selected st \<noteq> rt_selected r \<or> tabChg then patchState True (route_patch r) n else n)"

text \<open>An invalid hash is corrected in place.\<close>

definition correctHash :: "bool \<Rightarrow> nav \<Rightarrow> nav" where
  "correctHash rewritten n =
     (let want = hashOf (nv_st n) in
      if rewritten \<and> nv_hash n \<noteq> want
      then n\<lparr>nv_hash := want, nv_pushed := (if nv_history n then nv_pushed n else want # nv_pushed n)\<rparr> else n)"

definition applyHash :: "nav \<Rightarrow> nav" where
  "applyHash n =
     (let parsed = parseHash (nv_hash n); r = resolveRoute (nv_settled n) parsed (nv_st n);
          rewritten = (rt_view r \<noteq> rt_view parsed \<or> rt_selected r \<noteq> rt_selected parsed);
          n2 = correctHash rewritten (enterRoute r n)
      in case rt_selected parsed of
           Some i \<Rightarrow> if rt_view parsed = ''detail'' \<and> rt_view r \<noteq> ''detail''
             then patchState False (\<lambda>s. s\<lparr>s_toast := Some (not_found (makeL (s_lang s)) i)\<rparr>) n2 else n2
         | None \<Rightarrow> n2)"

definition goView :: "string \<Rightarrow> nav \<Rightarrow> nav" where
  "goView k n =
     (let k1 = (if k = ''logs'' then ''incidents'' else k);
          k2 = (if k1 \<notin> set SCREEN_KEYS \<or> k1 = ''detail'' then ''overview'' else k1)
      in patchState False (\<lambda>s. s\<lparr>s_view := k2, s_selected := None, s_originView := k2\<rparr>) n)"

definition goDetail :: "string option \<Rightarrow> nav \<Rightarrow> nav" where
  "goDetail i n = (case i of None \<Rightarrow> n | Some x \<Rightarrow>
     patchState False (\<lambda>s. s\<lparr>s_view := ''detail'', s_selected := Some x,
       s_originView := (if s_view s = ''detail'' then s_originView s else s_view s)\<rparr>) n)"

definition goBack :: "nav \<Rightarrow> nav" where
  "goBack n = patchState False (\<lambda>s. s\<lparr>s_view := (if s_originView s \<in> set SCREEN_KEYS \<and> s_originView s \<noteq> ''detail''
     then s_originView s else ''overview''), s_selected := None\<rparr>) n"

section \<open>Navigation as a step relation\<close>

text \<open>
  What can happen: a click, the back button of a page, a hash that is typed or chosen from the session history,
  a tab of the alert page, an answer of the poller (the first one settles the data), and any other change of the state.
\<close>

datatype nav_event =
    GoView string
  | GoDetail "string option"
  | GoBack
  | Navigate string
  | AlertTab string
  | Answer "device list"
  | Other "app_state \<Rightarrow> app_state"

definition keeps_route :: "(app_state \<Rightarrow> app_state) \<Rightarrow> bool" where
  "keeps_route f \<longleftrightarrow> (\<forall>s. s_view (f s) = s_view s \<and> s_selected (f s) = s_selected s
     \<and> s_originView (f s) = s_originView s \<and> s_alertView (f s) = s_alertView s)"

fun nav_event_ok :: "nav_event \<Rightarrow> bool" where
  "nav_event_ok (GoDetail i) = (i \<noteq> Some [])"
| "nav_event_ok (AlertTab v) = (v \<in> {''cards'', ''log'', ''stats''})"
| "nav_event_ok (Other f) = keeps_route f"
| "nav_event_ok _ = True"

fun nav_step :: "nav_event \<Rightarrow> nav \<Rightarrow> nav" where
  "nav_step (GoView k) n = goView k n"
| "nav_step (GoDetail i) n = goDetail i n"
| "nav_step GoBack n = goBack n"
| "nav_step (Navigate h) n = applyHash (n\<lparr>nv_hash := h\<rparr>)"
| "nav_step (AlertTab v) n = patchState False (\<lambda>s. s\<lparr>s_alertView := v\<rparr>) n"
| "nav_step (Answer fleet) n =
     (let n1 = patchState False (\<lambda>s. s\<lparr>s_fleet := fleet\<rparr>) n in
      if nv_settled n1 then n1 else applyHash (n1\<lparr>nv_settled := True\<rparr>))"
| "nav_step (Other f) n = patchState False f n"

text \<open>The start (\<open>boot\<close>): the route of the address, with the overview behind a detail page.\<close>

definition boot_nav :: "app_state \<Rightarrow> string \<Rightarrow> bool \<Rightarrow> nav" where
  "boot_nav st hash hist =
     (let r = resolveRoute False (parseHash hash) st in
      syncHash False \<lparr>nv_st = st\<lparr>s_view := rt_view r, s_selected := rt_selected r,
         s_originView := (if rt_view r = ''detail'' then ''overview'' else rt_view r),
         s_alertView := (case rt_alertView r of Some v \<Rightarrow> v | None \<Rightarrow> s_alertView st)\<rparr>,
       nv_hash = hash, nv_pushed = [], nv_history = hist, nv_settled = False\<rparr>)"

inductive nav_reach :: "nav \<Rightarrow> bool" where
  boot: "s_alertView st \<in> {''cards'', ''log'', ''stats''} \<Longrightarrow> nav_reach (boot_nav st hash hist)"
| step: "nav_reach n \<Longrightarrow> nav_event_ok e \<Longrightarrow> nav_reach (nav_step e n)"

section \<open>Mounting a screen\<close>

text \<open>
  \<open>swapView\<close> asks for a module and mounts it when it arrives, unless another screen has been asked
  for since. \<open>mt_waiting\<close> are the requests in flight. A module whose \<open>init\<close> throws is replaced by the placeholder.
\<close>

record mount =
  mt_want :: "string option"
  mt_waiting :: "string list"
  mt_key :: "string option"
  mt_placeholder :: bool
  mt_uiError :: bool
  mt_swapped :: bool
  mt_cached :: "string list"

datatype loaded = LoadFailed | InitFails | Works

datatype mount_event = Request string | Arrive nat loaded | Retry string

definition swapView :: "string \<Rightarrow> mount \<Rightarrow> mount" where
  "swapView k m = m\<lparr>mt_want := Some k, mt_waiting := mt_waiting m @ [k]\<rparr>"

definition swapView_done :: "string \<Rightarrow> loaded \<Rightarrow> mount \<Rightarrow> mount" where
  "swapView_done k a m =
     (let m1 = m\<lparr>mt_cached := (if a = LoadFailed \<or> k \<in> set (mt_cached m) then mt_cached m else k # mt_cached m)\<rparr> in
      if mt_want m1 \<noteq> Some k then m1
      else m1\<lparr>mt_key := Some k, mt_placeholder := (a \<noteq> Works), mt_uiError := (mt_uiError m1 \<or> a = InitFails), mt_swapped := True\<rparr>)"

text \<open>
  \<open>render\<close> asks for the screen of the state when it is not the wanted one; a retry drops the mounted
  module from the cache, forgets the wanted screen and asks for the screen of the state.
\<close>

fun mount_step :: "mount_event \<Rightarrow> mount \<Rightarrow> mount" where
  "mount_step (Request k) m = (if mt_want m \<noteq> Some k then swapView k m else m)"
| "mount_step (Arrive i a) m =
     (if length (mt_waiting m) \<le> i then m
      else swapView_done (mt_waiting m ! i) a (m\<lparr>mt_waiting := take i (mt_waiting m) @ drop (Suc i) (mt_waiting m)\<rparr>))"
| "mount_step (Retry v) m = swapView v (m\<lparr>mt_cached := filter (\<lambda>x. Some x \<noteq> mt_key m) (mt_cached m), mt_want := None\<rparr>)"

definition no_screen :: mount where
  "no_screen = \<lparr>mt_want = None, mt_waiting = [], mt_key = None, mt_placeholder = False, mt_uiError = False, mt_swapped = False, mt_cached = []\<rparr>"

section \<open>Facts about hashes\<close>

lemma hex_digit_val: "n < 16 \<Longrightarrow> is_hex (hex_digit n) \<and> hex_val (hex_digit n) = int n"
proof -
  have "list_all (\<lambda>n. is_hex (hex_digit n) \<and> hex_val (hex_digit n) = int n) [0..<16]" by code_simp
  then show "n < 16 \<Longrightarrow> is_hex (hex_digit n) \<and> hex_val (hex_digit n) = int n" by (simp add: list_all_iff)
qed

lemma hex_byte_pct: "n < 256 \<Longrightarrow> hex_byte (hex_digit (n div 16)) (hex_digit (n mod 16)) = Some n"
  using hex_digit_val [of "n div 16"] hex_digit_val [of "n mod 16"] by (simp add: hex_byte_def nat_add_distrib nat_mult_distrib)

lemma uri_dec_char: "uri_dec (uri_char c @ r) = map_option ((#) c) (uri_dec r)"
proof -
  have lt: "code c div 64 < 4" "code c mod 64 < 64" "code c < 256" using code_less [of c] by auto
  consider "uri_plain c" | "\<not> uri_plain c" "code c < 128" | "\<not> uri_plain c" "\<not> code c < 128" by blast
  then show ?thesis
  proof cases
    case 1
    then show ?thesis using uri_plain_code [OF 1] by (simp add: uri_char_def)
  next
    case 2
    then show ?thesis using lt by (simp add: uri_char_def pct_def hex_byte_pct)
  next
    case 3
    then have "code c div 64 = 2 \<or> code c div 64 = 3" using lt by auto
    then have "192 + code c div 64 = 194 \<or> 192 + code c div 64 = 195" by auto
    moreover have "(192 + code c div 64 - 192) * 64 + (128 + code c mod 64 - 128) = code c" by simp
    ultimately show ?thesis using 3 lt hex_byte_pct [of "192 + code c div 64"] hex_byte_pct [of "128 + code c mod 64"]
      by (simp add: uri_char_def pct_def del: char_of_nat)
  qed
qed

lemma uri_dec_encode: "uri_dec (encodeURIComponent s) = Some s"
  by (induction s) (simp_all add: encodeURIComponent_def uri_dec_char)

lemma encode_nonempty: "s \<noteq> [] \<Longrightarrow> encodeURIComponent s \<noteq> []"
  by (cases s) (simp_all add: encodeURIComponent_def uri_char_def pct_def)

lemma encode_no_slash: "CHR ''/'' \<notin> set (encodeURIComponent s)"
  using encode_safe [of "CHR ''/''" s] by (auto simp: url_delims_def)

lemma parse_detail:
  assumes "i \<noteq> []"
  shows "parseHash (''#/detail/'' @ encodeURIComponent i) = \<lparr>rt_view = ''detail'', rt_selected = Some i, rt_alertView = None\<rparr>"
proof -
  have "strip_hash (''#/detail/'' @ encodeURIComponent i) = ''detail'' @ CHR ''/'' # encodeURIComponent i" by (simp add: strip_hash_def)
  then have "split_on (CHR ''/'') (strip_hash (''#/detail/'' @ encodeURIComponent i)) = [''detail'', encodeURIComponent i]"
    using split_on_app [of "CHR ''/''" "''detail''"] by (simp add: split_on_none [OF encode_no_slash] del: split_on.simps)
  moreover have "uri_seg ''detail'' = ''detail''" by code_simp
  ultimately show ?thesis using assms encode_nonempty [OF assms]
    by (simp add: parseHash_def SCREEN_KEYS_def uri_seg_def uri_dec_encode del: split_on.simps)
qed

lemma parse_logs:
  "parseHash ''#/logs'' = \<lparr>rt_view = ''incidents'', rt_selected = None, rt_alertView = Some ''log''\<rparr>"
  "parseHash ''#/incidents/stats'' = \<lparr>rt_view = ''incidents'', rt_selected = None, rt_alertView = Some ''stats''\<rparr>"
  by code_simp+

lemma parse_view:
  assumes "v \<in> set SCREEN_KEYS" "v \<noteq> ''detail''"
  shows "parseHash (''#/'' @ v) = \<lparr>rt_view = v, rt_selected = None, rt_alertView = (if v = ''incidents'' then Some ''cards'' else None)\<rparr>"
proof -
  have "list_all (\<lambda>v. v = ''detail'' \<or> parseHash (''#/'' @ v) =
      \<lparr>rt_view = v, rt_selected = None, rt_alertView = (if v = ''incidents'' then Some ''cards'' else None)\<rparr>) SCREEN_KEYS" by code_simp
  then show ?thesis using assms by (auto simp: list_all_iff)
qed

text \<open>A state the router can describe, and the route that describes it.\<close>

definition routed :: "app_state \<Rightarrow> bool" where
  "routed st \<longleftrightarrow> s_view st \<in> set SCREEN_KEYS \<and> s_originView st \<in> set SCREEN_KEYS \<and> s_originView st \<noteq> ''detail''
     \<and> (if s_view st = ''detail'' then s_selected st \<noteq> None \<and> s_selected st \<noteq> Some [] else s_selected st = None)
     \<and> s_alertView st \<in> {''cards'', ''log'', ''stats''}"

definition route_ok :: "route \<Rightarrow> bool" where
  "route_ok r \<longleftrightarrow> rt_view r \<in> set SCREEN_KEYS
     \<and> (if rt_view r = ''detail'' then rt_selected r \<noteq> None \<and> rt_selected r \<noteq> Some [] else rt_selected r = None)
     \<and> (case rt_alertView r of Some v \<Rightarrow> v \<in> {''cards'', ''log'', ''stats''} | None \<Rightarrow> True)"

definition shows_route :: "route \<Rightarrow> app_state \<Rightarrow> bool" where
  "shows_route r st \<longleftrightarrow> rt_view r = s_view st \<and> rt_selected r = s_selected st
     \<and> (case rt_alertView r of Some v \<Rightarrow> v = s_alertView st | None \<Rightarrow> True)"

lemma hash_shows: "routed st \<Longrightarrow> shows_route (parseHash (hashOf st)) st"
proof (cases "s_view st = ''detail''")
  case True
  assume "routed st"
  then obtain i where "s_selected st = Some i" "i \<noteq> []" using True by (auto simp: routed_def)
  then show ?thesis using True parse_detail [of i] by (simp add: hashOf_def shows_route_def)
next
  case False
  assume r: "routed st"
  then have v: "s_view st \<in> set SCREEN_KEYS" "s_selected st = None" "s_alertView st \<in> {''cards'', ''log'', ''stats''}"
    using False by (auto simp: routed_def)
  show ?thesis using v False parse_view [OF v(1) False] parse_logs by (auto simp: hashOf_def shows_route_def)
qed

lemma keys [simp]: "''overview'' \<in> set SCREEN_KEYS" "''incidents'' \<in> set SCREEN_KEYS" "''detail'' \<in> set SCREEN_KEYS"
  by (simp_all add: SCREEN_KEYS_def)

lemma plain_ok: "v \<in> set SCREEN_KEYS \<Longrightarrow> v \<noteq> ''detail'' \<Longrightarrow> route_ok (plain_route v)"
  by (simp add: route_ok_def plain_route_def)

lemma incidents_ok: "v \<in> {''cards'', ''log'', ''stats''} \<Longrightarrow> route_ok \<lparr>rt_view = ''incidents'', rt_selected = None, rt_alertView = Some v\<rparr>"
  by (simp add: route_ok_def)

lemma detail_ok: "x \<noteq> [] \<Longrightarrow> route_ok \<lparr>rt_view = ''detail'', rt_selected = Some x, rt_alertView = None\<rparr>"
  by (simp add: route_ok_def)

lemma parse_ok: "route_ok (parseHash h)"
proof (cases "map uri_seg (filter (\<lambda>s. s \<noteq> []) (split_on (CHR ''/'') (strip_hash h)))")
  case Nil
  then show ?thesis unfolding parseHash_def by (simp add: plain_ok)
next
  case (Cons v rest)
  have d: "route_ok (case rest of x # _ \<Rightarrow> if x = [] then plain_route ''overview'' else \<lparr>rt_view = ''detail'', rt_selected = Some x, rt_alertView = None\<rparr>
      | [] \<Rightarrow> plain_route ''overview'')"
    by (cases rest) (simp_all add: plain_ok detail_ok)
  have "(case rest of x # _ \<Rightarrow> if x = ''stats'' then ''stats'' else ''cards'' | [] \<Rightarrow> ''cards'') \<in> {''cards'', ''log'', ''stats''}"
    by (cases rest) simp_all
  note t = incidents_ok [OF this] and l = incidents_ok [of "''log''"]
  consider "v = ''logs''" | "v \<noteq> ''logs''" "v \<notin> set SCREEN_KEYS" | "v = ''detail''" | "v = ''incidents''"
    | "v \<noteq> ''logs''" "v \<in> set SCREEN_KEYS" "v \<noteq> ''detail''" "v \<noteq> ''incidents''" by blast
  then show ?thesis
    unfolding parseHash_def Cons list.case by cases (use d t l in \<open>simp_all add: plain_ok\<close>)
qed

lemma resolve_ok: "route_ok r \<Longrightarrow> route_ok (resolveRoute b r st)"
  using plain_ok [of "''overview''"] by (auto simp: resolveRoute_def)

section \<open>Facts about navigation\<close>

definition nav_ok :: "nav \<Rightarrow> bool" where
  "nav_ok n \<longleftrightarrow> routed (nv_st n) \<and> shows_route (parseHash (nv_hash n)) (nv_st n)"

lemma patch_ok: "routed (f (nv_st n)) \<Longrightarrow> nav_ok (patchState False f n)"
  using hash_shows by (auto simp: patchState_def syncHash_def nav_ok_def)

lemma routed_patch: "routed st \<Longrightarrow> route_ok r \<Longrightarrow> routed (route_patch r st)"
  by (auto simp: routed_def route_ok_def route_patch_def split: option.splits if_splits)

lemma enterRoute_ok:
  assumes "routed (nv_st n)" "route_ok r"
  shows "routed (nv_st (enterRoute r n)) \<and> shows_route r (nv_st (enterRoute r n)) \<and> nv_hash (enterRoute r n) = nv_hash n"
  using routed_patch [OF assms] assms(1)
  by (auto simp: enterRoute_def Let_def patchState_def syncHash_def shows_route_def route_patch_def split: option.splits)

lemma correctHash_ok:
  assumes "routed (nv_st n)" "\<not> b \<Longrightarrow> shows_route (parseHash (nv_hash n)) (nv_st n)"
  shows "nav_ok (correctHash b n)"
  using hash_shows [OF assms(1)] assms by (auto simp: correctHash_def Let_def nav_ok_def)

lemma resolve_same:
  "rt_view (resolveRoute b p st) = rt_view p \<Longrightarrow> rt_selected (resolveRoute b p st) = rt_selected p \<Longrightarrow> resolveRoute b p st = p"
  by (auto simp: resolveRoute_def plain_route_def split: if_splits)

lemma applyHash_ok:
  assumes "routed (nv_st n)"
  shows "nav_ok (applyHash n)"
proof -
  define parsed where "parsed = parseHash (nv_hash n)"
  define r where "r = resolveRoute (nv_settled n) parsed (nv_st n)"
  define b where "b \<longleftrightarrow> rt_view r \<noteq> rt_view parsed \<or> rt_selected r \<noteq> rt_selected parsed"
  define n2 where "n2 = correctHash b (enterRoute r n)"
  have e: "routed (nv_st (enterRoute r n)) \<and> shows_route r (nv_st (enterRoute r n)) \<and> nv_hash (enterRoute r n) = nv_hash n"
    by (rule enterRoute_ok [OF assms]) (simp add: r_def parsed_def resolve_ok parse_ok)
  have "\<not> b \<Longrightarrow> r = parsed" unfolding r_def b_def using resolve_same by blast
  then have n2: "nav_ok n2" using e unfolding n2_def by (intro correctHash_ok) (auto simp: parsed_def)
  have "routed s \<Longrightarrow> routed (s\<lparr>s_toast := t\<rparr>)" for s t by (simp add: routed_def)
  then have toast: "nav_ok (patchState False (\<lambda>s. s\<lparr>s_toast := Some (not_found (makeL (s_lang s)) i)\<rparr>) n2)" for i
    using n2 by (intro patch_ok) (simp add: nav_ok_def)
  show ?thesis using n2 toast
    unfolding applyHash_def Let_def parsed_def [symmetric] r_def [symmetric] b_def [symmetric] n2_def [symmetric]
    by (simp split: option.split)
qed

lemma nav_step_ok:
  assumes "nav_ok n" "nav_event_ok e"
  shows "nav_ok (nav_step e n)"
proof -
  have r: "routed (nv_st n)" using assms(1) by (simp add: nav_ok_def)
  show ?thesis
  proof (cases e)
    case (GoView k)
    show ?thesis unfolding GoView nav_step.simps goView_def Let_def
      by (rule patch_ok) (use r in \<open>auto simp: routed_def\<close>)
  next
    case (GoDetail i)
    show ?thesis
    proof (cases i)
      case (Some x)
      then have "x \<noteq> []" using assms(2) GoDetail by simp
      then show ?thesis unfolding GoDetail nav_step.simps goDetail_def Some option.case
        by (intro patch_ok) (use r in \<open>auto simp: routed_def\<close>)
    qed (use assms(1) GoDetail in \<open>simp add: goDetail_def\<close>)
  next
    case GoBack
    show ?thesis unfolding GoBack nav_step.simps goBack_def
      by (rule patch_ok) (use r in \<open>auto simp: routed_def\<close>)
  next
    case (Navigate h)
    then show ?thesis using applyHash_ok r by simp
  next
    case (AlertTab v)
    show ?thesis unfolding AlertTab nav_step.simps
      by (rule patch_ok) (use r assms(2) AlertTab in \<open>simp add: routed_def\<close>)
  next
    case (Answer fleet)
    have p: "nav_ok (patchState False (\<lambda>s. s\<lparr>s_fleet := fleet\<rparr>) n)"
      by (rule patch_ok) (use r in \<open>simp add: routed_def\<close>)
    then show ?thesis using applyHash_ok [of "(patchState False (\<lambda>s. s\<lparr>s_fleet := fleet\<rparr>) n)\<lparr>nv_settled := True\<rparr>"]
      by (simp add: Answer Let_def nav_ok_def)
  next
    case (Other f)
    then show ?thesis using patch_ok [of f n] r assms(2) by (simp add: routed_def keeps_route_def)
  qed
qed

lemma boot_ok: "s_alertView st \<in> {''cards'', ''log'', ''stats''} \<Longrightarrow> nav_ok (boot_nav st hash hist)"
proof -
  assume a: "s_alertView st \<in> {''cards'', ''log'', ''stats''}"
  define r where "r = parseHash hash"
  define st' where "st' = st\<lparr>s_view := rt_view r, s_selected := rt_selected r,
    s_originView := (if rt_view r = ''detail'' then ''overview'' else rt_view r),
    s_alertView := (case rt_alertView r of Some v \<Rightarrow> v | None \<Rightarrow> s_alertView st)\<rparr>"
  have "routed st'" using parse_ok [of hash] a
    by (auto simp: st'_def r_def routed_def route_ok_def split: option.splits if_splits)
  moreover have "boot_nav st hash hist = syncHash False \<lparr>nv_st = st', nv_hash = hash, nv_pushed = [], nv_history = hist, nv_settled = False\<rparr>"
    by (simp add: boot_nav_def resolveRoute_def st'_def r_def Let_def)
  ultimately show ?thesis using hash_shows [of st'] by (auto simp: syncHash_def nav_ok_def)
qed

lemma nav_reach_ok: "nav_reach n \<Longrightarrow> nav_ok n"
  by (induction rule: nav_reach.induct) (auto intro: boot_ok nav_step_ok)

text \<open>Any walk over detail pages leads back to the page it left.\<close>

lemma drill_back:
  assumes "nav_ok n" "s_view (nv_st n) \<noteq> ''detail''" "is \<noteq> []"
  shows "s_view (nv_st (goBack (foldl (\<lambda>m i. goDetail (Some i) m) n is))) = s_view (nv_st n)"
proof -
  have st: "nv_st (patchState b f m) = f (nv_st m)" for b f m by (simp add: patchState_def syncHash_def)
  have step: "s_view (nv_st (foldl (\<lambda>m i. goDetail (Some i) m) m js)) = ''detail''
      \<and> s_originView (nv_st (foldl (\<lambda>m i. goDetail (Some i) m) m js)) = s_originView (nv_st m)"
    if "s_view (nv_st m) = ''detail''" for m js
    using that by (induction js arbitrary: m) (simp_all add: goDetail_def st)
  have keys: "s_view (nv_st n) \<in> set SCREEN_KEYS" using assms(1) by (simp add: nav_ok_def routed_def)
  show ?thesis
  proof (cases "is")
    case (Cons i js)
    have "s_view (nv_st (goDetail (Some i) n)) = ''detail''" "s_originView (nv_st (goDetail (Some i) n)) = s_view (nv_st n)"
      using assms(2) by (simp_all add: goDetail_def st)
    then show ?thesis using step [of "goDetail (Some i) n" js] assms(2) keys by (simp add: Cons goBack_def st)
  qed (use assms(3) in simp)
qed

section \<open>Facts about mounting\<close>

inductive mount_reach :: "mount \<Rightarrow> bool" where
  start: "mount_reach no_screen"
| step: "mount_reach m \<Longrightarrow> mount_reach (mount_step e m)"

definition mount_ok :: "mount \<Rightarrow> bool" where
  "mount_ok m \<longleftrightarrow> mt_key m = mt_want m \<or> (\<exists>k. mt_want m = Some k \<and> k \<in> set (mt_waiting m))"

lemma in_remove_nth: "i < length xs \<Longrightarrow> x \<in> set xs \<Longrightarrow> x \<noteq> xs ! i \<Longrightarrow> x \<in> set (take i xs @ drop (Suc i) xs)"
  by (metis UnE insertE id_take_nth_drop list.simps(15) set_append set_ConsD Un_iff)

lemma mount_step_ok:
  assumes "mount_ok m"
  shows "mount_ok (mount_step e m)"
proof (cases e)
  case (Arrive i a)
  show ?thesis
  proof (cases "i < length (mt_waiting m)")
    case True
    then show ?thesis using assms in_remove_nth [OF True] Arrive
      by (auto simp: mount_ok_def swapView_done_def Let_def)
  qed (use assms Arrive in simp)
qed (use assms in \<open>auto simp: mount_ok_def swapView_def\<close>)

lemma mount_reach_ok: "mount_reach m \<Longrightarrow> mount_ok m"
  by (induction rule: mount_reach.induct) (simp_all add: mount_step_ok, simp add: mount_ok_def no_screen_def)

section \<open>Properties\<close>

text \<open>
  C25. The address bar always tells the truth: whatever links are followed, hashes typed, tabs
  chosen and answers received, in every state the console can reach the hash reads back as the page that is shown, with the device and
  the tab of the alert page; the page is one the console has, and a detail page always has a device. So a reload
  or a bookmark opens the same page again.
\<close>

theorem nav_hash_tracks:
  assumes "nav_reach n"
  shows "shows_route (parseHash (nv_hash n)) (nv_st n) \<and> s_view (nv_st n) \<in> set SCREEN_KEYS
    \<and> (s_view (nv_st n) = ''detail'' \<longleftrightarrow> s_selected (nv_st n) \<noteq> None)"
  using nav_reach_ok [OF assms] by (auto simp: nav_ok_def routed_def split: if_splits)

theorem nav_hash_tracks_witness:
  "s_selected (nv_st (nav_step (GoDetail (Some ''a/b'')) (boot_nav initialState ''#/nodes'' True))) = Some ''a/b''
   \<and> shows_route (parseHash (nv_hash (nav_step (GoDetail (Some ''a/b'')) (boot_nav initialState ''#/nodes'' True))))
       (nv_st (nav_step (GoDetail (Some ''a/b'')) (boot_nav initialState ''#/nodes'' True)))"
proof -
  have "nav_reach (boot_nav initialState ''#/nodes'' True)" by (rule nav_reach.boot) (simp add: initialState_def)
  then have "nav_reach (nav_step (GoDetail (Some ''a/b'')) (boot_nav initialState ''#/nodes'' True))"
    by (rule nav_reach.step) simp
  from nav_hash_tracks [OF this] show ?thesis by (simp add: goDetail_def patchState_def syncHash_def)
qed

text \<open>
  C35. A screen that loads late never replaces a newer one: an arriving module is mounted only when its screen is still the
  one asked for; and when no module is on its way, the mounted screen is the one that was asked for last, whatever the order in which the modules arrived
  and whether they failed.
\<close>

theorem late_screen_discarded:
  assumes "mount_reach m"
  shows "(mt_waiting m = [] \<longrightarrow> mt_key m = mt_want m)
    \<and> (mt_key (mount_step e m) = mt_key m \<or> mt_key (mount_step e m) = mt_want m)"
proof
  show "mt_waiting m = [] \<longrightarrow> mt_key m = mt_want m" using mount_reach_ok [OF assms] by (auto simp: mount_ok_def)
  show "mt_key (mount_step e m) = mt_key m \<or> mt_key (mount_step e m) = mt_want m"
    by (cases e) (simp_all add: swapView_def swapView_done_def Let_def)
qed

theorem late_screen_discarded_witness:
  "mt_key (mount_step (Arrive 0 Works) (mount_step (Arrive 1 Works) (mount_step (Request ''nodes'') (mount_step (Request ''overview'') no_screen))))
     = Some ''nodes''"
proof -
  let ?m = "mount_step (Arrive 0 Works) (mount_step (Arrive 1 Works) (mount_step (Request ''nodes'') (mount_step (Request ''overview'') no_screen)))"
  have "mount_reach ?m" by (intro mount_reach.step mount_reach.start)
  moreover have "mt_waiting ?m = []" "mt_want ?m = Some ''nodes''"
    by (simp_all add: no_screen_def swapView_def swapView_done_def Let_def)
  ultimately show ?thesis using late_screen_discarded [of ?m] by metis
qed

end
