(* ===== verification/Actions.thy ===== *)
theory Actions
  imports Router
begin

text \<open>
  What an operator does to the shared state (\<open>handleAction\<close> in \<open>src/web/js/app.js\<close>): acknowledging one alert, a
  list of alerts, removing acknowledgements, opening and closing a maintenance window; the confirmation every one of these passes
  through (\<open>requestOperatorConfirmation\<close>), which stays open while the console goes on; the undo of a toast; and the
  watch of the shell that turns a changed map into deltas for the server (\<open>renderShell\<close>).

  The main facts: no record is written without an operator and a reason; an undo restores exactly what the action changed; a
  confirmed acknowledgement can remove the one of a colleague; and the deltas rebuild the console's map on the server.
\<close>

section \<open>The dialog and the toast\<close>

text \<open>
  A request waits for its confirmation. An acknowledgement is asked for as adding or removing, as the dialog
  words it. \<open>hours\<close> is the whole number of hours of the button.
\<close>

datatype request =
    SetMaint string nat
  | AckOne string bool
  | AckMany "string list"
  | ClearMany "string list"

text \<open>What an undo writes back: a maintenance entry (\<open>undefined\<close> when there was none), or acknowledgements.\<close>

datatype undo =
    UndoMaint string jsval
  | UndoAcks "string list" jsval

text \<open>What the dialog says. \<open>cn_text\<close> is the wording of the dialog last opened.\<close>

record dialog =
  dg_title :: string
  dg_impact :: string
  dg_confirm :: string

record console =
  cn_st :: app_state
  cn_dialog :: "request option"
  cn_text :: "dialog option"
  cn_undo :: "undo option"

definition LC :: "console \<Rightarrow> lfun" where "LC c = makeL (s_lang (cn_st c))"

definition showToast :: "string \<Rightarrow> undo option \<Rightarrow> console \<Rightarrow> console" where
  "showToast msg u c = c\<lparr>cn_undo := u, cn_st := (cn_st c)\<lparr>s_toast := Some msg\<rparr>\<rparr>"

definition toastTimeout :: "console \<Rightarrow> console" where
  "toastTimeout c = c\<lparr>cn_undo := None, cn_st := (cn_st c)\<lparr>s_toast := None\<rparr>\<rparr>"

text \<open>Only one dialog can be open; a second request is answered as if it had been cancelled.\<close>

definition num_text :: "nat \<Rightarrow> string" where "num_text n = int_str (int n)"

definition dialog_of :: "console \<Rightarrow> request \<Rightarrow> dialog" where
  "dialog_of c r =
     (let l = LC c in
      case r of
        SetMaint i hours \<Rightarrow>
          (let dev = find (\<lambda>d. d_id d = i) (s_fleet (cn_st c));
               name = (case dev of Some d \<Rightarrow> sor (d_host d) (d_id d) | None \<Rightarrow> i);
               active = num_text (case dev of Some d \<Rightarrow> length (m_alerts (d_meta d)) | None \<Rightarrow> 0)
           in if 0 < hours
              then \<lparr>dg_title = l ''Set maintenance window'' ''jeomgeom chang seoljeong'',
                dg_impact = l (name @ '' alerts will be suppressed for '' @ num_text hours @ '' hours. Currently active: '' @ active @ ''.'')
                  (name @ '' jangbiui gyeongboga '' @ num_text hours @ ''sigan dongan eokjedoemnida. hyeonjae hwalseong gyeongbo: '' @ active @ ''geon.''),
                dg_confirm = l ''Set window'' ''jeomgeom chang seoljeong''\<rparr>
              else \<lparr>dg_title = l ''Clear maintenance window'' ''jeomgeom chang haeje'',
                dg_impact = l (name @ '' alerts will immediately return to normal monitoring.'')
                  (name @ '' jangbiui gyeongboga jeuksi ilban moniteoringeuro bokgwihamnida.''),
                dg_confirm = l ''Clear window'' ''jeomgeom chang haeje''\<rparr>)
      | AckOne k removing \<Rightarrow>
          if removing
          then \<lparr>dg_title = l ''Remove acknowledgement'' ''gyeongbo hwagin haeje'',
            dg_impact = l ''The acknowledgement marker for this alert will be removed. The source alert is unchanged.''
              ''i gyeongboui hwagin pyosireul haejehamnida. wonbon gyeongboneun byeongyeongdoeji ansseumnida.'',
            dg_confirm = l ''Remove marker'' ''hwagin haeje''\<rparr>
          else \<lparr>dg_title = l ''Acknowledge alert'' ''gyeongbo hwagin'',
            dg_impact = l ''This alert will be marked acknowledged. Monitoring and the source alert are unchanged.''
              ''i gyeongboreul hwagindoemeuro pyosihamnida. moniteoringgwa wonbon gyeongboneun byeongyeongdoeji ansseumnida.'',
            dg_confirm = l ''Acknowledge'' ''hwagin cheori''\<rparr>
      | AckMany ks \<Rightarrow>
          \<lparr>dg_title = l ''Acknowledge filtered alerts'' ''pilteodoen gyeongbo ilgwal hwagin'',
            dg_impact = l (num_text (length ks) @ '' alerts will be marked acknowledged. Monitoring and source alerts are not changed.'')
              (num_text (length ks) @ ''geoneul hwagindoemeuro pyosihamnida. moniteoringgwa wonbon gyeongboneun byeongyeongdoeji ansseumnida.''),
            dg_confirm = l (''Acknowledge '' @ num_text (length ks)) (num_text (length ks) @ ''geon hwagin'')\<rparr>
      | ClearMany ks \<Rightarrow>
          \<lparr>dg_title = l ''Remove acknowledgements'' ''gyeongbo hwagin ilgwal haeje'',
            dg_impact = l (num_text (length ks) @ '' acknowledgement markers will be removed. Source alerts remain unchanged.'')
              (num_text (length ks) @ ''geonui hwagin pyosireul haejehamnida. wonbon gyeongboneun byeongyeongdoeji ansseumnida.''),
            dg_confirm = l (''Remove '' @ num_text (length ks)) (num_text (length ks) @ ''geon haeje'')\<rparr>)"

definition ask :: "request \<Rightarrow> console \<Rightarrow> console" where
  "ask r c = (if cn_dialog c = None then c\<lparr>cn_dialog := Some r, cn_text := Some (dialog_of c r)\<rparr> else c)"

section \<open>The actions\<close>

text \<open>
  The actions that write, toggle or show something; the ones that navigate are in \<open>Router\<close>, and a retry is made
  of the retries of the screen, the queues and the poll loop.
\<close>

text \<open>The keys of a bulk button are joined with the control character 2.\<close>

definition ack_keys :: "string \<Rightarrow> string list" where
  "ack_keys s = filter (\<lambda>k. k \<noteq> []) (split_on (CHR 0x02) s)"

datatype action =
    MaintSet string nat
  | AckAlert string
  | AckAllVisible string
  | AckClearAll string
  | ToggleLang
  | ToggleRail
  | TogglePause
  | ClearSearch
  | Toast string
  | ToastUndo
  | DismissBanner

definition writes_shared :: "action \<Rightarrow> bool" where
  "writes_shared a = (case a of MaintSet _ _ \<Rightarrow> True | AckAlert _ \<Rightarrow> True | AckAllVisible _ \<Rightarrow> True | AckClearAll _ \<Rightarrow> True | _ \<Rightarrow> False)"

definition is_acked :: "console \<Rightarrow> string \<Rightarrow> bool" where
  "is_acked c k \<longleftrightarrow> truthy (jget (as_map (s_ackedAlerts (cn_st c))) k)"

text \<open>\<open>if (prev[k]) next[k] = prev[k]; else delete next[k];\<close>\<close>

definition put_back :: "jsval \<Rightarrow> string \<Rightarrow> jsval \<Rightarrow> jsval" where
  "put_back prev k m = (if truthy (jget prev k) then jput k (jget prev k) m else jdel k m)"

definition run_undo :: "undo \<Rightarrow> console \<Rightarrow> console" where
  "run_undo u c =
     (case u of
        UndoMaint i prev \<Rightarrow>
          showToast (LC c ''Maintenance window restored'' ''jeomgeom modeu seoljeongeul chwisohaetseumnida'') None
            (c\<lparr>cn_st := (cn_st c)\<lparr>s_maint := (let m = as_map (s_maint (cn_st c)) in if truthy prev then jput i prev m else jdel i m)\<rparr>\<rparr>)
      | UndoAcks ks prev \<Rightarrow>
          showToast (LC c ''Alert acknowledgements undone'' ''ilgwal hwagineul chwisohaetseumnida'') None
            (c\<lparr>cn_st := (cn_st c)\<lparr>s_ackedAlerts := foldl (\<lambda>m k. put_back prev k m) (as_map (s_ackedAlerts (cn_st c))) ks\<rparr>\<rparr>))"

definition dismissBanner :: "console \<Rightarrow> console" where
  "dismissBanner c =
     (if isSampleMode (cn_st c) then c
      else if s_uiError (cn_st c) \<noteq> [] \<or> s_syncError (cn_st c) \<noteq> []
      then c\<lparr>cn_st := (cn_st c)\<lparr>s_uiError := [], s_syncError := []\<rparr>\<rparr> else c)"

definition handleAction :: "action \<Rightarrow> console \<Rightarrow> console" where
  "handleAction a c =
     (if isSampleMode (cn_st c) \<and> writes_shared a
      then showToast (LC c ''Sample data is read-only.'' ''saempeul deiteoneun johoeman ganeunghamnida.'') None c
      else case a of
          MaintSet i hours \<Rightarrow> if i = [] then c else ask (SetMaint i hours) c
        | AckAlert k \<Rightarrow> if k = [] then c else ask (AckOne k (is_acked c k)) c
        | AckAllVisible s \<Rightarrow> if ack_keys s = [] then c else ask (AckMany (ack_keys s)) c
        | AckClearAll s \<Rightarrow> if ack_keys s = [] then c else ask (ClearMany (ack_keys s)) c
        | ToggleLang \<Rightarrow> c\<lparr>cn_st := (cn_st c)\<lparr>s_lang := (if s_lang (cn_st c) = ''ko'' then ''en'' else ''ko'')\<rparr>\<rparr>
        | ToggleRail \<Rightarrow> c\<lparr>cn_st := (cn_st c)\<lparr>s_railOpen := (\<not> s_railOpen (cn_st c))\<rparr>\<rparr>
        | TogglePause \<Rightarrow> c\<lparr>cn_st := (cn_st c)\<lparr>s_logPaused := (\<not> s_logPaused (cn_st c))\<rparr>\<rparr>
        | ClearSearch \<Rightarrow> c\<lparr>cn_st := (cn_st c)\<lparr>s_search := []\<rparr>\<rparr>
        | Toast msg \<Rightarrow> showToast msg None c
        | ToastUndo \<Rightarrow> (case cn_undo c of None \<Rightarrow> c
            | Some u \<Rightarrow> run_undo u (c\<lparr>cn_undo := None, cn_st := (cn_st c)\<lparr>s_toast := None\<rparr>\<rparr>))
        | DismissBanner \<Rightarrow> dismissBanner c)"

section \<open>The confirmation\<close>

definition ack_entry :: "host \<Rightarrow> string \<Rightarrow> string \<Rightarrow> jsval" where
  "ack_entry h who why = JObj [(''ts'', JStr (iso_text (now h))), (''by'', JStr who), (''reason'', JStr why)]"

definition maint_entry :: "host \<Rightarrow> nat \<Rightarrow> string \<Rightarrow> string \<Rightarrow> jsval" where
  "maint_entry h hours who why = JObj [(''until'', JStr (iso_text (now h + int hours * 3600 * 1000))), (''note'', JStr why),
     (''by'', JStr who), (''ts'', JStr (iso_text (now h)))]"

text \<open>What an action does once it is approved, in the state of that moment.\<close>

definition carry_out :: "host \<Rightarrow> string \<Rightarrow> string \<Rightarrow> request \<Rightarrow> console \<Rightarrow> console" where
  "carry_out h who why r c =
     (let st = cn_st c; acks = as_map (s_ackedAlerts st); l = LC c in
      case r of
        SetMaint i hours \<Rightarrow>
          (let m = as_map (s_maint st); prev = jget m i in
           if 0 < hours
           then showToast (l (''Maintenance window set ('' @ num_text hours @ ''h)'') (''jeomgeom modeu '' @ num_text hours @ ''sigan seoljeong''))
                  (Some (UndoMaint i prev)) (c\<lparr>cn_st := st\<lparr>s_maint := jput i (maint_entry h hours who why) m\<rparr>\<rparr>)
           else showToast (l ''Maintenance window cleared'' ''jeomgeom modeureul haejehaetseumnida'') None
                  (c\<lparr>cn_st := st\<lparr>s_maint := jdel i m\<rparr>\<rparr>))
      | AckOne k removing \<Rightarrow>
          (let c' = c\<lparr>cn_st := st\<lparr>s_ackedAlerts := (if truthy (jget acks k) then jdel k acks else jput k (ack_entry h who why) acks)\<rparr>\<rparr> in
           showToast (if is_acked c' k then l ''Alert acknowledged'' ''gyeongboreul hwagin cheorihaetseumnida''
             else l ''Acknowledgement removed'' ''hwagineul haejehaetseumnida'') None c')
      | AckMany ks \<Rightarrow>
          showToast (l (num_text (length ks) @ '' alerts acknowledged'') (''gyeongbo '' @ num_text (length ks) @ ''geoneul hwagin cheorihaetseumnida''))
            (Some (UndoAcks ks acks)) (c\<lparr>cn_st := st\<lparr>s_ackedAlerts := foldl (\<lambda>m k. jput k (ack_entry h who why) m) acks ks\<rparr>\<rparr>)
      | ClearMany ks \<Rightarrow>
          showToast (l (num_text (length ks) @ '' acknowledgements removed'') (''gyeongbo '' @ num_text (length ks) @ ''geonui hwagineul haejehaetseumnida'')) None
            (c\<lparr>cn_st := st\<lparr>s_ackedAlerts := foldl (\<lambda>m k. jdel k m) acks ks\<rparr>\<rparr>))"

text \<open>
  The confirm button validates the form (every one of these dialogs demands a reason) and leaves it open when the
  reason is blank; the record carries the trimmed reason and the operator of the page.
\<close>

definition form_value :: "string \<Rightarrow> jsval" where "form_value why = JObj [(''reason'', JStr why)]"

definition confirm :: "host \<Rightarrow> string \<Rightarrow> string \<Rightarrow> console \<Rightarrow> console" where
  "confirm h who why c =
     (case cn_dialog c of None \<Rightarrow> c
      | Some r \<Rightarrow> if confirmationIssues (form_value why) (JObj [(''requireReason'', JBool True)]) \<noteq> [] then c
                  else carry_out h who (trim why) r (c\<lparr>cn_dialog := None\<rparr>))"

definition cancel :: "console \<Rightarrow> console" where "cancel c = c\<lparr>cn_dialog := None\<rparr>"

section \<open>The watch of the shell\<close>

text \<open>
  The shell remembers the maps it has last seen. What JavaScript compares by identity is a parameter: whether the
  map of a kind is the same object as before, and which of its entries are. \<open>wt_seen\<close> is \<open>None\<close> before the first render.
\<close>

record watch =
  wt_seen :: "shared_kind \<Rightarrow> jsval option"
  wt_lang :: "string option"
  wt_persisted :: nat

record ident =
  id_map :: "shared_kind \<Rightarrow> bool"
  id_entry :: "shared_kind \<Rightarrow> string \<Rightarrow> bool"
  id_other :: bool

definition shared_map :: "app_state \<Rightarrow> shared_kind \<Rightarrow> jsval" where
  "shared_map st k = (case k of Ack \<Rightarrow> s_ackedAlerts st | Maintenance \<Rightarrow> s_maint st | Notes \<Rightarrow> s_notes st)"

definition kind_delta :: "ident \<Rightarrow> bool \<Rightarrow> watch \<Rightarrow> app_state \<Rightarrow> shared_kind \<Rightarrow> (shared_kind \<times> delta) list" where
  "kind_delta i applying w st k =
     (case wt_seen w k of
        None \<Rightarrow> []
      | Some prev \<Rightarrow> if \<not> applying \<and> \<not> id_map i k
          then [(k, ackDelta (id_entry i k) prev (jor (shared_map st k) (JObj [])))] else [])"

text \<open>\<open>id_other\<close> tells that colours, theme and settings are unchanged too; then, and when no map has changed, nothing is stored.\<close>

definition watch_render :: "ident \<Rightarrow> bool \<Rightarrow> app_state \<Rightarrow> watch \<Rightarrow> watch \<times> (shared_kind \<times> delta) list" where
  "watch_render i applying st w =
     (let same = (\<lambda>k. wt_seen w k \<noteq> None \<and> id_map i k); langChanged = (wt_lang w \<noteq> Some (s_lang st)) in
      if langChanged \<or> \<not> id_other i \<or> \<not> same Ack \<or> \<not> same Maintenance \<or> \<not> same Notes
      then (w\<lparr>wt_seen := (\<lambda>k. Some (shared_map st k)), wt_lang := Some (s_lang st), wt_persisted := Suc (wt_persisted w)\<rparr>,
            kind_delta i applying w st Ack @ kind_delta i applying w st Maintenance @ kind_delta i applying w st Notes)
      else (w, []))"

section \<open>Facts about the actions\<close>

lemma issues_reason [simp]: "confirmationIssues (form_value why) (JObj [(''requireReason'', JBool True)]) = [] \<longleftrightarrow> trim why \<noteq> []"
  by (simp add: confirmationIssues_def form_value_def Let_def jor_def)

lemma as_map_map [simp]: "is_map (as_map v)" "is_map v \<Longrightarrow> as_map v = v"
  by (simp_all add: as_map_def, cases v) simp_all

lemma is_map_jdel [simp]: "is_map v \<Longrightarrow> is_map (jdel k v)"
  by (cases v) simp_all

lemma jget_jdel [simp]: "is_map v \<Longrightarrow> jget (jdel k v) k' = (if k' = k then Undef else jget v k')"
  by (cases v) simp_all

lemma foldl_put: "is_map m \<Longrightarrow> is_map (foldl (\<lambda>m k. jput k r m) m ks)
    \<and> jget (foldl (\<lambda>m k. jput k r m) m ks) k' = (if k' \<in> set ks then r else jget m k')"
  by (induction ks arbitrary: m) auto

lemma foldl_del: "is_map m \<Longrightarrow> is_map (foldl (\<lambda>m k. jdel k m) m ks)
    \<and> jget (foldl (\<lambda>m k. jdel k m) m ks) k' = (if k' \<in> set ks then Undef else jget m k')"
  by (induction ks arbitrary: m) auto

lemma is_map_back [simp]: "is_map m \<Longrightarrow> is_map (put_back prev k m)"
  by (simp add: put_back_def)

lemma foldl_back: "is_map m \<Longrightarrow> is_map (foldl (\<lambda>m k. put_back prev k m) m ks)
    \<and> jget (foldl (\<lambda>m k. put_back prev k m) m ks) k'
      = (if k' \<in> set ks then if truthy (jget prev k') then jget prev k' else Undef else jget m k')"
  by (induction ks arbitrary: m) (auto simp: put_back_def)

lemma toast_st [simp]:
  "s_ackedAlerts (cn_st (showToast msg u c)) = s_ackedAlerts (cn_st c)" "s_maint (cn_st (showToast msg u c)) = s_maint (cn_st c)"
  "cn_undo (showToast msg u c) = u" "cn_dialog (showToast msg u c) = cn_dialog c"
  by (simp_all add: showToast_def)

text \<open>The entry the console sees: a falsy value counts as none.\<close>

definition entry :: "jsval \<Rightarrow> string \<Rightarrow> jsval option" where
  "entry m k = (let v = jget (as_map m) k in if truthy v then Some v else None)"

lemma carry_acks:
  "jget (as_map (s_ackedAlerts (cn_st (carry_out h who why r c)))) k
     \<in> {jget (as_map (s_ackedAlerts (cn_st c))) k, Undef, ack_entry h who why}"
  using foldl_put [of "as_map (s_ackedAlerts (cn_st c))" "ack_entry h who why"] foldl_del [of "as_map (s_ackedAlerts (cn_st c))"]
  by (cases r) (auto simp: carry_out_def Let_def)

lemma carry_maint:
  "jget (as_map (s_maint (cn_st (carry_out h who why r c)))) i
     \<in> {jget (as_map (s_maint (cn_st c))) i, Undef} \<union> range (\<lambda>n. maint_entry h n who why)"
  by (cases r) (auto simp: carry_out_def Let_def)

section \<open>Facts about the watch\<close>

text \<open>
  A render of the shell: what is the same object as before, the kind whose map the server has just replaced, if any,
  and the state. Two maps that are the same object have the same content, and so have two entries.
\<close>

record shell_event =
  se_ident :: ident
  se_remote :: "shared_kind option"
  se_st :: app_state

definition plain_map :: "jsval \<Rightarrow> bool" where
  "plain_map v \<longleftrightarrow> (\<exists>ps. v = JObj ps \<and> Undef \<notin> snd ` set ps)"

definition shell_event_ok :: "shared_kind \<Rightarrow> shell_event \<Rightarrow> watch \<Rightarrow> bool" where
  "shell_event_ok k e w \<longleftrightarrow> plain_map (shared_map (se_st e) k)
     \<and> (case wt_seen w k of None \<Rightarrow> True | Some prev \<Rightarrow>
          (id_map (se_ident e) k \<longrightarrow> prev = shared_map (se_st e) k)
          \<and> (\<forall>x. id_entry (se_ident e) k x \<longrightarrow> jget prev x = jget (shared_map (se_st e) k) x))
     \<and> (se_remote e = None \<or> se_remote e = Some k \<or> id_map (se_ident e) k)"

text \<open>The server's map of one kind under the deltas of a render; a map that has just been read sends none.\<close>

definition server_step :: "shared_kind \<Rightarrow> shell_event \<Rightarrow> watch \<times> (string \<rightharpoonup> jsval) \<Rightarrow> watch \<times> (string \<rightharpoonup> jsval)" where
  "server_step k e wm =
     (case watch_render (se_ident e) (se_remote e \<noteq> None) (se_st e) (fst wm) of
        (w, ds) \<Rightarrow> (w, foldl (\<lambda>m d. apply_delta (snd d) m) (snd wm) (filter (\<lambda>d. fst d = k) ds)))"

definition delta_keys :: "delta \<Rightarrow> string set" where
  "delta_keys d = fst ` set (dl_set d) \<union> set (dl_del d)"

definition sent_keys :: "shared_kind \<Rightarrow> shell_event \<Rightarrow> watch \<Rightarrow> string set" where
  "sent_keys k e w = (\<Union>d \<in> set (filter (\<lambda>d. fst d = k) (snd (watch_render (se_ident e) (se_remote e \<noteq> None) (se_st e) w))). delta_keys (snd d))"

text \<open>
  A console and the server over time. The last argument is the set of the keys on which the two may differ: at the first
  render those on which the map the browser kept and the server's differ; a write of another console adds its key; a render of the shell takes away the keys it sends;
  and when the console has just read the server's map (\<open>se_remote\<close>), none is left. Deltas take effect when they are sent: that they
  arrive in this order and that nothing is read while one is pending is shown for the queue (theory Coordinator).
\<close>

inductive follows :: "shared_kind \<Rightarrow> watch \<Rightarrow> (string \<rightharpoonup> jsval) \<Rightarrow> jsval \<Rightarrow> string set \<Rightarrow> bool" for k where
  first: "wt_seen w k = Some v \<Longrightarrow> plain_map v \<Longrightarrow> follows k w m v {x. m x \<noteq> obj_map v x}"
| other_console: "follows k w m v D \<Longrightarrow> follows k w (m(x := y)) v (insert x D)"
| next_render: "follows k w m v D \<Longrightarrow> shell_event_ok k e w \<Longrightarrow> server_step k e (w, m) = (w', m')
    \<Longrightarrow> (se_remote e = Some k \<longrightarrow> obj_map (shared_map (se_st e) k) = m)
    \<Longrightarrow> follows k w' m' (shared_map (se_st e) k) (if se_remote e = Some k then {} else D - sent_keys k e w)"

lemma filter_kind: "filter (\<lambda>d. fst d = k) (kind_delta i a w st Ack @ kind_delta i a w st Maintenance @ kind_delta i a w st Notes) = kind_delta i a w st k"
  by (cases k) (auto simp: kind_delta_def split: option.splits)

lemma apply_delta_outside: "x \<notin> delta_keys d \<Longrightarrow> apply_delta d m x = m x"
  by (cases "map_of (dl_set d) x") (auto simp: apply_delta_def delta_keys_def image_iff dest!: map_of_SomeD)

lemma apply_delta_inside: "x \<in> delta_keys d \<Longrightarrow> apply_delta d m x = apply_delta d m' x"
  by (cases "map_of (dl_set d) x") (auto simp: apply_delta_def delta_keys_def map_of_eq_None_iff)

lemma render_cases:
  "watch_render i a st w = (w, []) \<and> wt_seen w k \<noteq> None \<and> id_map i k
   \<or> watch_render i a st w = (w\<lparr>wt_seen := (\<lambda>k. Some (shared_map st k)), wt_lang := Some (s_lang st), wt_persisted := Suc (wt_persisted w)\<rparr>,
       kind_delta i a w st Ack @ kind_delta i a w st Maintenance @ kind_delta i a w st Notes)"
  by (cases k) (auto simp: watch_render_def Let_def)

lemma follow_step:
  assumes seen: "wt_seen w k = Some prev" and plain: "plain_map prev" and ok: "shell_event_ok k e w"
    and agree: "\<And>x. x \<notin> D \<Longrightarrow> m x = obj_map prev x" and srv: "server_step k e (w, m) = (w', m')"
    and read: "se_remote e = Some k \<longrightarrow> obj_map (shared_map (se_st e) k) = m"
  shows "wt_seen w' k = Some (shared_map (se_st e) k)"
    "x \<notin> (if se_remote e = Some k then {} else D - sent_keys k e w) \<Longrightarrow> m' x = obj_map (shared_map (se_st e) k) x"
proof -
  let ?cur = "shared_map (se_st e) k" and ?i = "se_ident e" and ?a = "se_remote e \<noteq> None"
  let ?d = "ackDelta (id_entry ?i k) prev (jor ?cur (JObj []))"
  obtain ps ns where ps: "prev = JObj ps" and ns: "?cur = JObj ns" "Undef \<notin> snd ` set ns"
    using plain ok by (auto simp: plain_map_def shell_event_ok_def)
  have same: "id_map ?i k \<Longrightarrow> prev = ?cur" and entries: "\<And>x. id_entry ?i k x \<Longrightarrow> jget (JObj ps) x = jget (JObj ns) x"
    and rem: "se_remote e = None \<or> se_remote e = Some k \<or> id_map ?i k"
    using ok ns(1) unfolding shell_event_ok_def seen ps by simp_all
  have delta: "apply_delta ?d (obj_map prev) = obj_map ?cur"
    using apply_delta_ackDelta [OF entries ns(2)] by (simp add: ps ns(1) jor_def)
  have ds: "filter (\<lambda>d. fst d = k) (snd (watch_render ?i ?a (se_st e) w)) = (if id_map ?i k \<or> ?a then [] else [(k, ?d)])
      \<and> wt_seen (fst (watch_render ?i ?a (se_st e) w)) k = Some ?cur"
    using render_cases [of ?i ?a "se_st e" w k]
  proof
    assume "watch_render ?i ?a (se_st e) w = (w, []) \<and> wt_seen w k \<noteq> None \<and> id_map ?i k"
    then show ?thesis using seen same by simp
  next
    assume r: "watch_render ?i ?a (se_st e) w = (w\<lparr>wt_seen := (\<lambda>k. Some (shared_map (se_st e) k)), wt_lang := Some (s_lang (se_st e)),
        wt_persisted := Suc (wt_persisted w)\<rparr>,
        kind_delta ?i ?a w (se_st e) Ack @ kind_delta ?i ?a w (se_st e) Maintenance @ kind_delta ?i ?a w (se_st e) Notes)"
    show ?thesis unfolding r snd_conv fst_conv filter_kind by (simp add: kind_delta_def seen)
  qed
  then have seen': "wt_seen (fst (watch_render ?i ?a (se_st e) w)) k = Some ?cur" by simp
  have m': "m' = (if id_map ?i k \<or> ?a then m else apply_delta ?d m)" "w' = fst (watch_render ?i ?a (se_st e) w)"
    using srv ds by (auto simp: server_step_def split: prod.splits)
  show "wt_seen w' k = Some ?cur" using seen' m'(2) by simp
  assume x: "x \<notin> (if se_remote e = Some k then {} else D - sent_keys k e w)"
  show "m' x = obj_map ?cur x"
  proof (cases "id_map ?i k \<or> ?a")
    case True
    then show ?thesis using m'(1) x read rem same agree ds by (auto simp: sent_keys_def split: if_splits)
  next
    case False
    then have "sent_keys k e w = delta_keys ?d" using ds by (simp add: sent_keys_def)
    then show ?thesis
      using False x m'(1) agree [of x] apply_delta_outside [of x ?d] apply_delta_inside [of x ?d m "obj_map prev"] delta
      by (cases "x \<in> delta_keys ?d") (auto split: if_splits, metis)
  qed
qed

lemma follows_eq: "follows k w m v D \<Longrightarrow> wt_seen w k = Some v \<and> plain_map v \<and> (\<forall>x. x \<notin> D \<longrightarrow> m x = obj_map v x)"
proof (induction rule: follows.induct)
  case (next_render w m v D e w' m')
  then show ?case using follow_step [of w k v e D m w' m'] by (auto simp: shell_event_ok_def)
qed auto

section \<open>Properties\<close>

text \<open>
  C26. Nothing shared is changed without an operator and a reason: no action but an undo changes an acknowledgement or a
  maintenance window by itself, not even in sample mode; a confirmation with a blank reason does nothing; and an approved one leaves
  every record as it was, removes it, or replaces it by one that names the operator, the trimmed reason and the moment.
\<close>

theorem actions_need_reason:
  assumes "a \<noteq> ToastUndo"
  shows "s_ackedAlerts (cn_st (handleAction a c)) = s_ackedAlerts (cn_st c) \<and> s_maint (cn_st (handleAction a c)) = s_maint (cn_st c)
    \<and> (trim why = [] \<longrightarrow> confirm h who why c = c)
    \<and> jget (as_map (s_ackedAlerts (cn_st (confirm h who why c)))) k
        \<in> {jget (as_map (s_ackedAlerts (cn_st c))) k, Undef, ack_entry h who (trim why)}
    \<and> jget (as_map (s_maint (cn_st (confirm h who why c)))) k
        \<in> {jget (as_map (s_maint (cn_st c))) k, Undef} \<union> range (\<lambda>n. maint_entry h n who (trim why))"
proof (intro conjI)
  show "s_ackedAlerts (cn_st (handleAction a c)) = s_ackedAlerts (cn_st c)" "s_maint (cn_st (handleAction a c)) = s_maint (cn_st c)"
    using assms by (auto simp: handleAction_def ask_def dismissBanner_def split: action.split)
  show "jget (as_map (s_ackedAlerts (cn_st (confirm h who why c)))) k
        \<in> {jget (as_map (s_ackedAlerts (cn_st c))) k, Undef, ack_entry h who (trim why)}"
    using carry_acks [of h who "trim why" _ "c\<lparr>cn_dialog := None\<rparr>" k] by (simp add: confirm_def split: option.split)
  show "jget (as_map (s_maint (cn_st (confirm h who why c)))) k
        \<in> {jget (as_map (s_maint (cn_st c))) k, Undef} \<union> range (\<lambda>n. maint_entry h n who (trim why))"
    using carry_maint [of h who "trim why" _ "c\<lparr>cn_dialog := None\<rparr>" k] by (simp add: confirm_def split: option.split)
qed (simp add: confirm_def split: option.split)

definition idle :: console where "idle = \<lparr>cn_st = initialState, cn_dialog = None, cn_text = None, cn_undo = None\<rparr>"

theorem actions_need_reason_witness:
  "cn_dialog (handleAction (AckAlert ''k'') idle) = Some (AckOne ''k'' False)
   \<and> s_ackedAlerts (cn_st (handleAction (AckAlert ''k'') idle)) = JObj []"
  using actions_need_reason [of "AckAlert ''k''" idle]
  by (simp add: handleAction_def idle_def initialState_def isSampleMode_def ask_def is_acked_def as_map_def)

text \<open>
  C27. An undo takes back its own action and nothing else: whatever the server or another part of the console
  has made of the map meanwhile, the undo of a bulk acknowledgement gives every alert of the action the record it had before, and leaves every other
  record as it is now; the undo of a maintenance window does the same for its device.
\<close>

theorem undo_restores:
  assumes "cn_dialog c = Some r" "trim why \<noteq> []" "r = AckMany ks \<or> r = SetMaint i (Suc n)"
  shows "let c1 = confirm h who why c; c2 = c1\<lparr>cn_st := (cn_st c1)\<lparr>s_ackedAlerts := acks, s_maint := maint\<rparr>\<rparr>;
             c3 = handleAction ToastUndo c2
         in (r = AckMany ks \<longrightarrow> entry (s_ackedAlerts (cn_st c3)) k
               = (if k \<in> set ks then entry (s_ackedAlerts (cn_st c)) k else entry acks k) \<and> s_maint (cn_st c3) = maint)
          \<and> (r = SetMaint i (Suc n) \<longrightarrow> entry (s_maint (cn_st c3)) k
               = (if k = i then entry (s_maint (cn_st c)) k else entry maint k) \<and> s_ackedAlerts (cn_st c3) = acks)"
proof -
  have c: "confirm h who why c = carry_out h who (trim why) r (c\<lparr>cn_dialog := None\<rparr>)" using assms(1,2) by (simp add: confirm_def)
  have u: "handleAction ToastUndo x = (case cn_undo x of None \<Rightarrow> x
      | Some u \<Rightarrow> run_undo u (x\<lparr>cn_undo := None, cn_st := (cn_st x)\<lparr>s_toast := None\<rparr>\<rparr>))" for x
    by (simp add: handleAction_def writes_shared_def)
  show ?thesis
  proof (cases "r = AckMany ks")
    case True
    then show ?thesis
      using foldl_back [of "as_map acks" "as_map (s_ackedAlerts (cn_st c))" ks k]
      by (simp add: c u carry_out_def run_undo_def entry_def Let_def)
  next
    case False
    then have "r = SetMaint i (Suc n)" using assms(3) by blast
    then show ?thesis by (simp add: c u carry_out_def run_undo_def entry_def Let_def)
  qed
qed

definition many_asked :: console where "many_asked = idle\<lparr>cn_dialog := Some (AckMany [''k''])\<rparr>"

definition many_done :: console where
  "many_done = (let c1 = confirm code_host ''admin'' ''planned'' many_asked in
     c1\<lparr>cn_st := (cn_st c1)\<lparr>s_ackedAlerts := JObj [(''k'', Null), (''x'', JBool True)], s_maint := JObj []\<rparr>\<rparr>)"

theorem undo_restores_witness:
  "entry (s_ackedAlerts (cn_st (handleAction ToastUndo many_done))) ''k'' = None
   \<and> entry (s_ackedAlerts (cn_st (handleAction ToastUndo many_done))) ''x'' = Some (JBool True)"
proof -
  have t: "trim ''planned'' \<noteq> []" by code_simp
  have d: "cn_dialog many_asked = Some (AckMany [''k''])" and e: "entry (s_ackedAlerts (cn_st many_asked)) k = None" for k
    by (simp_all add: many_asked_def idle_def initialState_def entry_def as_map_def)
  have "entry (s_ackedAlerts (cn_st (handleAction ToastUndo many_done))) k
      = (if k = ''k'' then None else entry (JObj [(''k'', Null), (''x'', JBool True)]) k)" for k
    using undo_restores [of many_asked "AckMany [''k'']" "''planned''" "[''k'']" "[]" 0 code_host "''admin''"
      "JObj []" "JObj [(''k'', Null), (''x'', JBool True)]" k, OF d t]
    by (simp add: Let_def many_done_def e)
  then show ?thesis by (simp add: entry_def as_map_def)
qed

text \<open>
  A confirmed acknowledgement can take away a colleague's: the dialog asks whether to acknowledge an alert, but
  the approved action toggles the record of that moment; when the acknowledgement of another operator has arrived while the dialog was open, confirming removes it.
\<close>

theorem confirm_removes_colleague:
  assumes "cn_dialog c = None" "\<not> isSampleMode (cn_st c)" "k \<noteq> []" "\<not> is_acked c k" "trim why \<noteq> []"
    and "truthy (jget (as_map remote) k)"
  shows "let c1 = handleAction (AckAlert k) c; c2 = c1\<lparr>cn_st := (cn_st c1)\<lparr>s_ackedAlerts := remote\<rparr>\<rparr>; c3 = confirm h who why c2
         in cn_dialog c1 = Some (AckOne k False) \<and> is_acked c2 k \<and> \<not> is_acked c3 k"
  using assms by (simp add: handleAction_def ask_def Let_def is_acked_def confirm_def carry_out_def)

theorem confirm_removes_colleague_witness:
  "is_acked ((handleAction (AckAlert ''k'') idle)\<lparr>cn_st := (cn_st (handleAction (AckAlert ''k'') idle))\<lparr>s_ackedAlerts := JObj [(''k'', JBool True)]\<rparr>\<rparr>) ''k''
   \<and> \<not> is_acked (confirm code_host ''admin'' ''seen'' ((handleAction (AckAlert ''k'') idle)\<lparr>cn_st := (cn_st (handleAction (AckAlert ''k'') idle))\<lparr>s_ackedAlerts := JObj [(''k'', JBool True)]\<rparr>\<rparr>)) ''k''"
proof -
  have "trim ''seen'' \<noteq> []" by code_simp
  from confirm_removes_colleague [OF _ _ _ _ this, of idle "''k''" "JObj [(''k'', JBool True)]" code_host "''admin''"]
  show ?thesis by (simp add: Let_def idle_def initialState_def isSampleMode_def is_acked_def as_map_def)
qed


definition seen_none :: watch where
  "seen_none = \<lparr>wt_seen = (\<lambda>_. Some (JObj [])), wt_lang = Some ''ko'', wt_persisted = 1\<rparr>"

definition ack_event :: shell_event where
  "ack_event = \<lparr>se_ident = \<lparr>id_map = (\<lambda>k. k \<noteq> Ack), id_entry = (\<lambda>_ _. False), id_other = True\<rparr>, se_remote = None,
     se_st = initialState\<lparr>s_ackedAlerts := JObj [(''k'', JBool True)]\<rparr>\<rparr>"


end
