(* ===== verification/Shell.thy ===== *)
theory Shell
  imports Actions Cluster
begin

text \<open>
  The shell around the screens (\<open>src/web/js/app.js\<close>): the failures of the shared state, the banner, the bell, the
  badges, the breadcrumb, the live region, and the global search with its keyboard selection.

  The main facts: an error of one channel is never hidden by the success of another, and closing the banner hides it until the next report only; a dismissed failure comes back with the next failed
  poll and sample data can not be dismissed; the selection of the search is always on a result that exists.
\<close>

section \<open>Failures of the shared state\<close>

text \<open>\<open>sharedSyncFailures\<close> is a set that keeps its insertion order, the message sorts it. \<open>null\<close> is the empty text.\<close>

definition channel :: "string \<Rightarrow> string \<Rightarrow> string" where
  "channel kind phase = kind @ ''-'' @ phase"

definition failure_message :: "lfun \<Rightarrow> string list \<Rightarrow> string" where
  "failure_message l failed =
     (if failed = [] then []
      else l (''Shared operator state is not synchronized ('' @ join '', '' failed @ ''). Pending writes are retained; Retry sends them before reading the server.'')
        (''gongyu unyeong sangtaega donggihwadoeji anatseumnida('' @ join '', '' failed @ ''). boryudoen sseugineun yujidoemyeo jaesido si seobeo ilgiboda meonjeo jeonsongdoemnida.''))"

definition updateSharedSyncFailure :: "string \<Rightarrow> string \<Rightarrow> bool \<Rightarrow> string list \<times> app_state \<Rightarrow> string list \<times> app_state" where
  "updateSharedSyncFailure kind phase ok fs =
     (let key = channel kind phase;
          failures = (if ok then removeAll key (fst fs) else if key \<in> set (fst fs) then fst fs else fst fs @ [key]);
          message = failure_message (L (s_lang (snd fs))) (sort_by cmp_code failures)
      in (failures, if s_syncError (snd fs) \<noteq> message then (snd fs)\<lparr>s_syncError := message\<rparr> else snd fs))"

section \<open>The live region and the banner\<close>

text \<open>\<open>announce\<close>: a message is told once; \<open>sh_last\<close> is the one told last.\<close>

definition announce :: "string \<Rightarrow> string \<Rightarrow> string \<times> string list" where
  "announce msg lst = (if msg = [] \<or> msg = lst then (lst, []) else (msg, [msg]))"

record banner =
  bn_on :: bool
  bn_sample :: bool
  bn_text :: string
  bn_meta :: string
  bn_retry :: bool
  bn_close :: bool

record banner_state =
  bs_dismissedAt :: int
  bs_wasOn :: bool
  bs_last :: string
  bs_told :: "string list"

text \<open>The announcement of a banner: only when it appears, and then even when it was the last message.\<close>

definition appear :: "string \<Rightarrow> banner_state \<Rightarrow> banner_state" where
  "appear msg b =
     (if bs_wasOn b then b
      else (case announce msg [] of (lst, told) \<Rightarrow> b\<lparr>bs_wasOn := True, bs_last := lst, bs_told := bs_told b @ told\<rparr>))"

definition staleNames :: "app_state \<Rightarrow> string list" where
  "staleNames st = map (\<lambda>d. sor (m_label (d_meta d)) (sor (d_host d) (d_id d))) (filter (\<lambda>d. m_stale (d_meta d)) (s_fleet st))"

definition failureMark :: "app_state \<Rightarrow> int" where
  "failureMark st = max (s_lastAttempt st) (s_lastPoll st)"

definition live_failure :: "app_state \<Rightarrow> bool" where
  "live_failure st \<longleftrightarrow> s_source st = ''live'' \<and> (s_liveError st \<noteq> [] \<or> s_stale st)"

definition banner_text :: "lfun \<Rightarrow> app_state \<Rightarrow> string" where
  "banner_text l st =
     (if s_uiError st \<noteq> [] then s_uiError st
      else if s_syncError st \<noteq> [] then s_syncError st
      else if staleNames st \<noteq> [] then
        (let ns = staleNames st; n = length ns;
             names = join '', '' (take 3 ns) @ (if 3 < n then l '' and '' '' oe '' @ num_text (n - 3) @ l '' more'' ''dae'' else [])
         in l (''Collection failing -- '' @ names @ '' (check address/credentials/avcli)'')
              (''sujip jiyeon -- '' @ names @ '' -- jangbi juso.jagyeokjeungmyeong.avcli seolchireul hwaginhaseyo''))
      else (let reason = (if s_liveError st \<noteq> [] then s_liveError st else l ''no response from collector'' ''sujipgi eungdap eopseum'')
            in l (''Collector connection issue ('' @ reason @ '')'') (''sujipgi yeongyeol isang ('' @ reason @ '')'')))"

definition SAMPLE_TEXT :: string where
  "SAMPLE_TEXT = ''SAMPLE DATA . silje jangbi/gyeongbo/raiseonseuga animnida''"

definition sample_failure :: "app_state \<Rightarrow> string" where
  "sample_failure st = sor (s_uiError st) (sor (s_syncError st) (sor (s_liveError st) (if s_stale st then ''stale'' else [])))"

definition renderBanner :: "host \<Rightarrow> app_state \<Rightarrow> banner_state \<Rightarrow> banner \<times> banner_state" where
  "renderBanner h st b =
     (let l = L (s_lang st) in
      if isSampleMode st then
        (\<lparr>bn_on = True, bn_sample = True, bn_text = SAMPLE_TEXT,
          bn_meta = (if sample_failure st \<noteq> []
            then l ''Sample connection issue: '' ''saempeul yeongyeol isang: '' @ sample_failure st
            else l ''Read-only sample mode -- changes and device controls are disabled''
              ''ilgi jeonyong saempeul modeu -- seoljeong byeongyeonggwa jangbi jeeoga bihwalseonghwadoeeo itseumnida''),
          bn_retry = (sample_failure st \<noteq> []), bn_close = False\<rparr>, appear SAMPLE_TEXT b)
      else if s_uiError st \<noteq> [] \<or> s_syncError st \<noteq> [] \<or> (live_failure st \<and> bs_dismissedAt b < failureMark st) then
        (\<lparr>bn_on = True, bn_sample = False, bn_text = banner_text l st,
          bn_meta = (if s_lastPoll st \<noteq> 0
            then l ''Last successful collection: '' ''majimak seonggong sujip: '' @ formatConsoleTime h (AVal (JNum (Fin (of_int (s_lastPoll st))))) True
            else l ''No successful collection yet'' ''ajik seonggonghan sujibi eopseumnida''),
          bn_retry = True, bn_close = True\<rparr>, appear (banner_text l st) b)
      else (\<lparr>bn_on = False, bn_sample = False, bn_text = [], bn_meta = [], bn_retry = True, bn_close = True\<rparr>, b\<lparr>bs_wasOn := False\<rparr>))"

text \<open>The close button records the moment, besides what it does to the state.\<close>

definition dismissAt :: "host \<Rightarrow> app_state \<Rightarrow> banner_state \<Rightarrow> banner_state" where
  "dismissAt h st b = (if isSampleMode st then b else b\<lparr>bs_dismissedAt := now h\<rparr>)"

section \<open>Badges, bell and breadcrumb\<close>

text \<open>The model is \<open>None\<close> when it could not be built.\<close>

record badges =
  bd_incidents :: nat
  bd_nodes :: nat

definition railBadges :: "app_state \<Rightarrow> inc_stats option \<Rightarrow> badges" where
  "railBadges st m =
     \<lparr>bd_incidents = (case m of Some i \<Rightarrow> ic_total i | None \<Rightarrow> sum_list (map (\<lambda>d. length (m_alerts (d_meta d))) (s_fleet st))),
      bd_nodes = count_if (\<lambda>d. d_status d = Down) (s_fleet st)\<rparr>"

definition count99 :: "nat \<Rightarrow> string" where
  "count99 n = (if 99 < n then ''99+'' else num_text n)"

text \<open>The badge of the alert page counts the critical alerts, in red, or else all of them in a neutral colour; \<open>None\<close> is hidden.\<close>

definition alert_badge :: "app_state \<Rightarrow> inc_stats option \<Rightarrow> (string \<times> bool) option" where
  "alert_badge st m =
     (let crit = (case m of Some i \<Rightarrow> ic_critical i | None \<Rightarrow> 0); n = (if 0 < crit then crit else bd_incidents (railBadges st m))
      in if n = 0 then None else Some (count99 n, 0 < crit))"

record bell =
  be_tone :: "string option"
  be_text :: string
  be_hidden :: bool
  be_label :: string

definition sev_starts :: "string \<Rightarrow> string list \<Rightarrow> bool" where
  "sev_starts k sevs = list_ex (\<lambda>s. starts_with k (lower s)) sevs"

definition bell_tone :: "app_state \<Rightarrow> string list \<Rightarrow> string option" where
  "bell_tone st sevs =
     (if sevs \<noteq> [] then Some (if sev_starts ''c'' sevs then ''neg'' else if sev_starts ''w'' sevs then ''warn'' else ''info'')
      else if list_ex (\<lambda>d. d_status d = Down) (s_fleet st) then Some ''neg''
      else if list_ex (\<lambda>d. d_status d = Deg) (s_fleet st) then Some ''warn'' else None)"

definition renderBell :: "app_state \<Rightarrow> string list \<Rightarrow> bell" where
  "renderBell st sevs =
     (let l = L (s_lang st); sev = bell_tone st sevs;
          n = (if sevs \<noteq> [] then length sevs else count_if (\<lambda>d. d_status d = Down \<or> d_status d = Deg) (s_fleet st));
          txt = (if n = 0 then [] else count99 n);
          level = (if sev = Some ''neg'' then l ''critical'' ''simgak'' else if sev = Some ''warn'' then l ''warning'' ''gyeonggo'' else l ''information'' ''jeongbo'')
      in \<lparr>be_tone = sev, be_text = (if sev = Some ''neg'' then ''!'' else if sev = Some ''warn'' then ''(!)'' else ''i'') @ txt,
          be_hidden = (sev = None \<or> n = 0),
          be_label = (if n \<noteq> 0 then l ''Alerts: '' ''allim: '' @ level @ '' . '' @ num_text n else l ''Alerts: none'' ''allim eopseum'')\<rparr>)"

definition titleOf :: "lfun \<Rightarrow> string \<Rightarrow> string" where
  "titleOf l k = (if k = ''nodes'' then l ''All devices'' ''jeonche jangbi'' else if k = ''topology'' then l ''Topology'' ''topolloji''
     else if k = ''capacity'' then l ''Capacity'' ''yongnyang'' else if k = ''clusters'' then l ''Clusters'' ''keulleoseuteo''
     else if k = ''incidents'' then l ''Alerts & log'' ''gyeongbo . rogeu'' else if k = ''manage'' then l ''Manage'' ''jangbi gwalli''
     else if k = ''settings'' then l ''Settings'' ''seoljeong'' else if k = ''detail'' then l ''Server detail'' ''seobeo sangse''
     else l ''Overview'' ''daesibodeu'')"

definition crumbs :: "app_state \<Rightarrow> string \<times> string option" where
  "crumbs st =
     (let l = L (s_lang st) in
      if s_view st = ''detail'' then
        (titleOf l (if s_originView st \<in> set SCREEN_KEYS \<and> s_originView st \<noteq> ''detail'' then s_originView st else ''overview''),
         Some (case find (\<lambda>d. Some (d_id d) = s_selected st) (s_fleet st) of
           Some d \<Rightarrow> sor (d_host d) (d_id d) | None \<Rightarrow> (case s_selected st of Some i \<Rightarrow> i | None \<Rightarrow> [])))
      else (titleOf l (s_view st), None))"

section \<open>The global search\<close>

record shortcut =
  sc_view :: string
  sc_en :: string
  sc_ko :: string
  sc_syn :: "string list"

definition nav_screens :: "shortcut list" where
  "nav_screens = [
     \<lparr>sc_view = ''overview'', sc_en = ''Overview (Dashboard)'', sc_ko = ''gaeyo (daesibodeu)'', sc_syn = [''gaeyo'', ''daesibodeu'', ''overview'', ''dashboard'', ''home'', ''main'']\<rparr>,
     \<lparr>sc_view = ''nodes'', sc_en = ''All devices (Nodes)'', sc_ko = ''jeonche jangbi (nodeu)'', sc_syn = [''nodeu'', ''jeonche jangbi'', ''jeonchejangbi'', ''nodes'', ''devices'', ''servers'']\<rparr>,
     \<lparr>sc_view = ''topology'', sc_en = ''Topology'', sc_ko = ''topolloji'', sc_syn = [''topolloji'', ''mangdo'', ''guseongdo'', ''topology'', ''topo'', ''network'']\<rparr>,
     \<lparr>sc_view = ''capacity'', sc_en = ''Capacity'', sc_ko = ''yongnyang'', sc_syn = [''yongnyang'', ''jawon'', ''risoseu'', ''capacity'', ''resource'', ''cpu'', ''memory'', ''disk'']\<rparr>,
     \<lparr>sc_view = ''clusters'', sc_en = ''Clusters'', sc_ko = ''keulleoseuteo'', sc_syn = [''keulleoseuteo'', ''ijunghwa'', ''ha'', ''ft'', ''clusters'', ''cluster'']\<rparr>,
     \<lparr>sc_view = ''incidents'', sc_en = ''Alerts & log (Incidents)'', sc_ko = ''gyeongbo . rogeu (insideonteu)'', sc_syn = [''insideonteu'', ''gyeongbo'', ''allim'', ''rogeu'', ''incidents'', ''alerts'', ''logs'']\<rparr>,
     \<lparr>sc_view = ''manage'', sc_en = ''Device management'', sc_ko = ''jangbi gwalli'', sc_syn = [''gwalli'', ''jangbi gwalli'', ''jangbigwalli'', ''manage'', ''management'', ''admin'']\<rparr>,
     \<lparr>sc_view = ''settings'', sc_en = ''Settings'', sc_ko = ''seoljeong'', sc_syn = [''seoljeong'', ''hwangyeongseoljeong'', ''tema'', ''eoneo'', ''settings'', ''preferences'', ''config'']\<rparr>]"

record quick =
  qk_action :: string
  qk_label :: string
  qk_syn :: "string list"
  qk_tone :: string

definition quick_actions :: "lfun \<Rightarrow> app_state \<Rightarrow> quick list" where
  "quick_actions l st = [
     \<lparr>qk_action = ''toggleLang'', qk_label = l ''Switch language: hangugeo'' ''eoneo jeonhwan: English'',
      qk_syn = [''eoneo'', ''eoneojeonhwan'', ''hangeul'', ''yeongeo'', ''lang'', ''language'', ''korean'', ''english'', ''togglelang''], qk_tone = ''info''\<rparr>,
     \<lparr>qk_action = ''toggleRail'', qk_label = l (if s_railOpen st then ''Collapse sidebar'' else ''Expand sidebar'') (if s_railOpen st then ''saideuba jeopgi'' else ''saideuba pyeolchigi''),
      qk_syn = [''saideuba'', ''reil'', ''menyu'', ''jeopgi'', ''pyeolchigi'', ''sidebar'', ''rail'', ''collapse'', ''expand''], qk_tone = ''info''\<rparr>,
     \<lparr>qk_action = ''togglePause'', qk_label = l (if s_logPaused st then ''Resume live updates'' else ''Pause live updates'') (if s_logPaused st then ''silsigan gaengsin jaegae'' else ''silsigan gaengsin ilsijeongji''),
      qk_syn = [''ilsijeongji'', ''jeongji'', ''jaegae'', ''pause'', ''resume'', ''freeze''], qk_tone = ''warn''\<rparr>]"

definition hit_of :: "string \<Rightarrow> string \<Rightarrow> string \<Rightarrow> string \<Rightarrow> string \<Rightarrow> string \<Rightarrow> hit" where
  "hit_of kind i la me st tone = \<lparr>hi_kind = kind, hi_id = i, hi_icon = [], hi_label = la, hi_meta = me, hi_status = st, hi_tone = tone\<rparr>"

definition nav_hits :: "lfun \<Rightarrow> string \<Rightarrow> hit list" where
  "nav_hits l q = map (\<lambda>s. hit_of ''nav'' (sc_view s) (l (sc_en s) (sc_ko s)) (l ''Screen'' ''hwamyeon barogagi'') [] ''info'')
     (filter (\<lambda>s. contains q (lower (join '' '' ([sc_view s, sc_en s, sc_ko s] @ sc_syn s)))) nav_screens)"

definition action_hits :: "lfun \<Rightarrow> app_state \<Rightarrow> string \<Rightarrow> hit list" where
  "action_hits l st q = map (\<lambda>a. hit_of ''action'' (qk_action a) (qk_label a) (l ''Quick action'' ''ppareun aeksyeon'') [] (qk_tone a))
     (filter (\<lambda>a. contains q (lower (join '' '' ([qk_action a, qk_label a] @ qk_syn a)))) (quick_actions l st))"

text \<open>Without a model the search runs over the fleet and its alerts.\<close>

definition fallback_hits :: "app_state \<Rightarrow> string \<Rightarrow> hit list" where
  "fallback_hits st q =
     map (\<lambda>d. hit_of ''node'' (d_id d) (sor (d_host d) (d_id d)) (sor (d_site d) DASH @ '' . '' @ type_key (d_type d)) (status_key (d_status d)) [])
       (filter (\<lambda>d. contains q (lower (join '' '' [d_host d, d_site d, type_key (d_type d), d_id d]))) (s_fleet st))
     @ concat (map (\<lambda>d. map (\<lambda>a. let sev = jor (al_sev a) (JStr ''info'') in
           hit_of ''alert'' (d_id d) (trim (al_name a @ '' '' @ al_desc a)) (sor (d_host d) (d_id d)) (to_str sev)
             (if sev = JStr ''critical'' then ''neg'' else if sev = JStr ''warning'' then ''warn'' else ''info''))
         (filter (\<lambda>a. contains q (lower (trim (al_name a @ '' '' @ al_desc a)))) (m_alerts (d_meta d)))) (s_fleet st))"

definition searchItems :: "app_state \<Rightarrow> hit list option \<Rightarrow> hit list" where
  "searchItems st m =
     (let q = search_query st; l = L (s_lang st) in
      if q = [] then []
      else take 10 (nav_hits l q @ action_hits l st q @ (case m of Some rs \<Rightarrow> rs | None \<Rightarrow> fallback_hits st q)))"

text \<open>
  The drop-down list: the results it was built from, its key, the query, the selected index and whether the arrow keys have
  been used. It is rebuilt only when the key changes.
\<close>

record dropdown =
  dd_nodes :: "hit list"
  dd_key :: "string option"
  dd_query :: "string option"
  dd_active :: nat
  dd_navigated :: bool

definition item_key :: "hit \<Rightarrow> string" where
  "item_key i = hi_kind i @ '':'' @ hi_id i @ '':'' @ (if hi_kind i = ''nav'' then hi_id i else []) @ '':'' @
     (if hi_kind i = ''action'' then hi_id i else []) @ '':'' @ hi_label i @ '':'' @ hi_status i @ '':'' @ hi_tone i @ '':'' @ hi_meta i"

definition search_key :: "app_state \<Rightarrow> hit list \<Rightarrow> string" where
  "search_key st items = (if trim (s_search st) \<noteq> [] then ''q|'' else []) @ join ''|'' (map item_key items)"

definition renderSearch :: "app_state \<Rightarrow> hit list option \<Rightarrow> dropdown \<Rightarrow> dropdown" where
  "renderSearch st m d =
     (let items = searchItems st m; key = search_key st items;
          d1 = (if dd_query d \<noteq> Some (s_search st) then d\<lparr>dd_query := Some (s_search st), dd_active := 0, dd_navigated := False\<rparr> else d)
      in if dd_key d1 \<noteq> Some key then d1\<lparr>dd_key := Some key, dd_active := 0, dd_navigated := False, dd_nodes := items\<rparr> else d1)"

definition arrow :: "bool \<Rightarrow> dropdown \<Rightarrow> dropdown" where
  "arrow down d =
     (if dd_nodes d = [] then d
      else d\<lparr>dd_navigated := True, dd_active := (if down then min (Suc (dd_active d)) (length (dd_nodes d) - 1) else dd_active d - 1)\<rparr>)"

text \<open>The item that Enter opens: the selected one, or else the first.\<close>

definition enter_target :: "dropdown \<Rightarrow> hit option" where
  "enter_target d = (if dd_navigated d \<and> dd_active d < length (dd_nodes d) then Some (dd_nodes d ! dd_active d)
     else (case dd_nodes d of [] \<Rightarrow> None | x # _ \<Rightarrow> Some x))"

definition executeSearchItem :: "hit \<Rightarrow> nav \<Rightarrow> nav" where
  "executeSearchItem i n = (if hi_kind i = ''nav'' then goView (hi_id i) n
     else if hi_kind i = ''action'' then n else goDetail (Some (hi_id i)) n)"

text \<open>The colour of the dot of a result.\<close>

definition dot_class :: "hit \<Rightarrow> string option" where
  "dot_class i =
     (if hi_kind i = ''node'' then Some (if hi_status i = ''down'' then ''is-neg'' else if hi_status i = ''deg'' then ''is-warn'' else ''is-pos'')
      else if hi_tone i = ''neg'' then Some ''is-neg'' else if hi_tone i = ''warn'' then Some ''is-warn''
      else if hi_tone i = ''pos'' then Some ''is-pos'' else if hi_tone i = ''info'' then Some ''is-info'' else None)"

section \<open>Facts\<close>

type_synonym report = "string \<times> string \<times> bool"

definition failing :: "report list \<Rightarrow> string \<Rightarrow> bool" where
  "failing reports ch = (case find (\<lambda>(k, p, ok). channel k p = ch) (rev reports) of Some (k, p, ok) \<Rightarrow> \<not> ok | None \<Rightarrow> False)"

lemma failing_snoc: "failing (reports @ [(k, p, ok)]) ch = (if channel k p = ch then \<not> ok else failing reports ch)"
  by (simp add: failing_def)

lemma failure_message_empty [simp]: "failure_message (L lang) failed = [] \<longleftrightarrow> failed = []"
  by (simp add: failure_message_def L_def)

lemma update_result:
  "set (fst (updateSharedSyncFailure k p ok fs)) = (if ok then set (fst fs) - {channel k p} else insert (channel k p) (set (fst fs)))"
  "s_syncError (snd (updateSharedSyncFailure k p ok fs)) = [] \<longleftrightarrow> fst (updateSharedSyncFailure k p ok fs) = []"
proof -
  define failures where "failures = (if ok then removeAll (channel k p) (fst fs) else if channel k p \<in> set (fst fs) then fst fs else fst fs @ [channel k p])"
  define message where "message = failure_message (L (s_lang (snd fs))) (sort_by cmp_code failures)"
  have u: "updateSharedSyncFailure k p ok fs = (failures, if s_syncError (snd fs) \<noteq> message then (snd fs)\<lparr>s_syncError := message\<rparr> else snd fs)"
    by (simp add: updateSharedSyncFailure_def Let_def failures_def message_def)
  show "set (fst (updateSharedSyncFailure k p ok fs)) = (if ok then set (fst fs) - {channel k p} else insert (channel k p) (set (fst fs)))"
    by (auto simp: u failures_def)
  have "s_syncError (snd (updateSharedSyncFailure k p ok fs)) = message" by (simp add: u)
  then show "s_syncError (snd (updateSharedSyncFailure k p ok fs)) = [] \<longleftrightarrow> fst (updateSharedSyncFailure k p ok fs) = []"
    by (simp add: u message_def)
qed

text \<open>
  What can happen to the message: a channel reports, the operator closes the banner, or something else of the console changes: a poll,
  a page, the language, an error of a screen. No other code writes \<open>syncError\<close>, so such a change keeps it, and may change all the rest,
  the mode of the data included.
\<close>

datatype sync_event = Reported string string bool | Dismissed | Elsewhere console

fun status_step :: "string list \<times> console \<Rightarrow> sync_event \<Rightarrow> string list \<times> console" where
  "status_step (failures, c) (Reported k p ok) =
     (let (failures', st') = updateSharedSyncFailure k p ok (failures, cn_st c) in (failures', c\<lparr>cn_st := st'\<rparr>))"
| "status_step (failures, c) Dismissed = (failures, dismissBanner c)"
| "status_step (failures, c) (Elsewhere c') = (failures, c'\<lparr>cn_st := (cn_st c')\<lparr>s_syncError := s_syncError (cn_st c)\<rparr>\<rparr>)"

definition sync_run :: "console \<Rightarrow> sync_event list \<Rightarrow> string list \<times> console" where
  "sync_run c es = foldl status_step ([], c) es"

fun report_of :: "sync_event \<Rightarrow> report option" where
  "report_of (Reported k p ok) = Some (k, p, ok)"
| "report_of Dismissed = None"
| "report_of (Elsewhere c) = None"

definition reports_of :: "sync_event list \<Rightarrow> report list" where
  "reports_of es = List.map_filter report_of es"

text \<open>The banner was closed, outside the sample mode, and nothing has been reported since.\<close>

definition closed_since :: "console \<Rightarrow> sync_event list \<Rightarrow> bool" where
  "closed_since c es \<longleftrightarrow> (\<exists>earlier later. es = earlier @ Dismissed # later \<and> reports_of later = []
     \<and> \<not> isSampleMode (cn_st (snd (sync_run c earlier))))"

lemma reports_of_snoc: "reports_of (es @ [e]) = reports_of es @ (case report_of e of Some r \<Rightarrow> [r] | None \<Rightarrow> [])"
  by (simp add: reports_of_def map_filter_def split: option.splits)

lemma reports_of_Nil: "reports_of [] = []"
  by (simp add: reports_of_def map_filter_def)

lemma sync_run_snoc: "sync_run c (es @ [e]) = status_step (sync_run c es) e"
  by (simp add: sync_run_def)

lemma closed_snoc:
  "closed_since c (es @ [e]) \<longleftrightarrow> report_of e = None
     \<and> ((e = Dismissed \<and> \<not> isSampleMode (cn_st (snd (sync_run c es)))) \<or> closed_since c es)"
proof
  assume "closed_since c (es @ [e])"
  then obtain earlier later where *: "es @ [e] = earlier @ Dismissed # later" "reports_of later = []"
    "\<not> isSampleMode (cn_st (snd (sync_run c earlier)))" unfolding closed_since_def by blast
  show "report_of e = None \<and> ((e = Dismissed \<and> \<not> isSampleMode (cn_st (snd (sync_run c es)))) \<or> closed_since c es)"
    using * by (cases later rule: rev_cases) (auto simp: closed_since_def reports_of_snoc split: option.splits)
next
  assume *: "report_of e = None \<and> ((e = Dismissed \<and> \<not> isSampleMode (cn_st (snd (sync_run c es)))) \<or> closed_since c es)"
  then consider "e = Dismissed" "\<not> isSampleMode (cn_st (snd (sync_run c es)))" | "closed_since c es" by blast
  then show "closed_since c (es @ [e])"
  proof cases
    case 1
    then show ?thesis unfolding closed_since_def by (intro exI [of _ es] exI [of _ "[]"]) (simp add: reports_of_Nil)
  next
    case 2
    then obtain earlier later where "es = earlier @ Dismissed # later" "reports_of later = []"
      "\<not> isSampleMode (cn_st (snd (sync_run c earlier)))" unfolding closed_since_def by blast
    then show ?thesis using * unfolding closed_since_def
      by (intro exI [of _ earlier] exI [of _ "later @ [e]"]) (simp add: reports_of_snoc)
  qed
qed

lemma sync_result:
  assumes "s_syncError (cn_st c) = []"
  shows "set (fst (sync_run c es)) = {ch. failing (reports_of es) ch}
    \<and> (s_syncError (cn_st (snd (sync_run c es))) = [] \<longleftrightarrow> (\<forall>ch. \<not> failing (reports_of es) ch) \<or> closed_since c es)"
proof (induction es rule: rev_induct)
  case Nil
  then show ?case using assms by (simp add: sync_run_def reports_of_Nil failing_def)
next
  case (snoc e es)
  obtain fs d where run: "sync_run c es = (fs, d)" by (cases "sync_run c es") auto
  show ?case
  proof (cases e)
    case (Reported k p ok)
    obtain fs' st' where u: "updateSharedSyncFailure k p ok (fs, cn_st d) = (fs', st')"
      by (cases "updateSharedSyncFailure k p ok (fs, cn_st d)") auto
    have now_failing: "set fs' = {ch. failing (reports_of (es @ [Reported k p ok])) ch}"
      using snoc.IH update_result(1) [of k p ok "(fs, cn_st d)"]
      by (auto simp: run u reports_of_snoc failing_snoc split: if_splits)
    have "fs' = [] \<longleftrightarrow> (\<forall>ch. \<not> failing (reports_of (es @ [Reported k p ok])) ch)"
      using now_failing by (metis Collect_empty_eq set_empty)
    then show ?thesis using now_failing update_result(2) [of k p ok "(fs, cn_st d)"]
      by (simp add: Reported sync_run_snoc run u closed_snoc)
  next
    case Dismissed
    show ?thesis using snoc.IH
      by (auto simp: Dismissed sync_run_snoc run closed_snoc reports_of_snoc dismissBanner_def)
  next
    case (Elsewhere c')
    show ?thesis using snoc.IH by (simp add: Elsewhere sync_run_snoc run closed_snoc reports_of_snoc)
  qed
qed

lemma error_shows: "s_syncError st \<noteq> [] \<Longrightarrow> bn_on (fst (renderBanner h st b))"
  by (simp add: renderBanner_def Let_def)

text \<open>The drop-down list as the console drives it.\<close>

datatype dd_event = Render app_state "hit list option" | Arrow bool

fun dd_step :: "dd_event \<Rightarrow> dropdown \<Rightarrow> dropdown" where
  "dd_step (Render st m) d = renderSearch st m d"
| "dd_step (Arrow down) d = arrow down d"

definition no_dropdown :: dropdown where
  "no_dropdown = \<lparr>dd_nodes = [], dd_key = None, dd_query = None, dd_active = 0, dd_navigated = False\<rparr>"

definition dd_ok :: "dropdown \<Rightarrow> bool" where
  "dd_ok d \<longleftrightarrow> (if dd_navigated d then dd_active d < length (dd_nodes d) else dd_active d = 0) \<and> length (dd_nodes d) \<le> 10"

lemma length_searchItems: "length (searchItems st m) \<le> 10"
  by (simp add: searchItems_def Let_def del: take_append)

lemma last_index: "xs \<noteq> [] \<Longrightarrow> min a (length xs - Suc 0) < length xs"
  by (cases xs) auto

lemma dd_step_ok: "dd_ok d \<Longrightarrow> dd_ok (dd_step e d)"
  using length_searchItems by (cases e) (auto simp: dd_ok_def renderSearch_def arrow_def Let_def last_index split: if_splits)

lemma dd_fold_ok: "dd_ok d \<Longrightarrow> dd_ok (foldl (\<lambda>d e. dd_step e d) d es)"
  by (induction es arbitrary: d) (simp_all add: dd_step_ok)

section \<open>Properties\<close>

text \<open>
  C36. An error of the shared state is neither lost nor made up. In any sequence of reports of the channels (reading and writing of the
  three maps, and the outbox), of closings of the banner, and of other changes of the console (polls, pages, errors of screens, the mode
  of the data), the message is empty exactly when no channel's last report is a failure, or when the operator has closed the banner, outside
  the sample mode, since the last report. So a success of one channel never hides the failure of another, a closing in the sample mode does
  nothing, and the first report after a closing, whichever channel it is about and however it went, brings the message back while any
  channel still fails. While the message is there the banner is on; its text may be that of the sample data, or an error of a screen,
  which goes before it.
\<close>

theorem sync_error_exact:
  assumes "s_syncError (cn_st c) = []"
  shows "(s_syncError (cn_st (snd (sync_run c es))) = [] \<longleftrightarrow> (\<forall>ch. \<not> failing (reports_of es) ch) \<or> closed_since c es)
    \<and> ((\<exists>ch. failing (reports_of (es @ [Reported k p ok])) ch)
        \<longrightarrow> s_syncError (cn_st (snd (sync_run c (es @ [Reported k p ok])))) \<noteq> [])
    \<and> (s_syncError (cn_st (snd (sync_run c es))) \<noteq> [] \<longrightarrow> bn_on (fst (renderBanner h (cn_st (snd (sync_run c es))) b)))"
proof (intro conjI impI)
  show "s_syncError (cn_st (snd (sync_run c es))) = [] \<longleftrightarrow> (\<forall>ch. \<not> failing (reports_of es) ch) \<or> closed_since c es"
    using sync_result [OF assms, of es] by simp
  assume "\<exists>ch. failing (reports_of (es @ [Reported k p ok])) ch"
  then show "s_syncError (cn_st (snd (sync_run c (es @ [Reported k p ok])))) \<noteq> []"
    using sync_result [OF assms, of "es @ [Reported k p ok]"] by (auto simp: closed_snoc)
qed (rule error_shows)

text \<open>A failed read of the acknowledgements, closed by the operator, comes back with the successful read of the notes.\<close>

theorem sync_error_exact_witness:
  "\<exists>c. s_syncError (cn_st (snd (sync_run c [Reported ''ack'' ''read'' False, Dismissed]))) = []
    \<and> s_syncError (cn_st (snd (sync_run c ([Reported ''ack'' ''read'' False, Dismissed] @ [Reported ''notes'' ''read'' True])))) \<noteq> []"
proof -
  define c :: console where "c = idle"
  have clean: "s_syncError (cn_st c) = []" by (simp add: c_def idle_def initialState_def)
  have live: "\<not> isSampleMode (cn_st (snd (sync_run c [Reported ''ack'' ''read'' False])))"
    by (simp add: c_def idle_def sync_run_def updateSharedSyncFailure_def Let_def isSampleMode_def initialState_def)
  have closed: "closed_since c [Reported ''ack'' ''read'' False, Dismissed]"
    using live unfolding closed_since_def
    by (intro exI [of _ "[Reported ''ack'' ''read'' False]"] exI [of _ "[]"]) (simp add: reports_of_Nil)
  have "reports_of ([Reported ''ack'' ''read'' False, Dismissed] @ [Reported ''notes'' ''read'' True])
      = [(''ack'', ''read'', False), (''notes'', ''read'', True)]"
    by (simp add: reports_of_def map_filter_simps)
  moreover have "failing [(''ack'', ''read'', False), (''notes'', ''read'', True)] (channel ''ack'' ''read'')"
    by (simp add: failing_def channel_def)
  ultimately have "failing (reports_of ([Reported ''ack'' ''read'' False, Dismissed] @ [Reported ''notes'' ''read'' True])) (channel ''ack'' ''read'')"
    by simp
  then show ?thesis
    using closed sync_error_exact [OF clean, of "[Reported ''ack'' ''read'' False, Dismissed]" "''notes''" "''read''" True] by blast
qed

text \<open>
  A failure cannot be dismissed for good: after a dismissal the next failed poll shows the banner again; sample data
  is announced whatever is dismissed, without a button to close it; and an error of the screens or of the shared state always shows.
\<close>

theorem failure_comes_back:
  assumes "bs_dismissedAt b < now h"
  shows "bn_on (fst (renderBanner h (catch_state h msg st) b))
    \<and> (isSampleMode st \<longrightarrow> dismissAt h st b = b \<and> bn_on (fst (renderBanner h st b)) \<and> \<not> bn_close (fst (renderBanner h st b)))
    \<and> (s_uiError st \<noteq> [] \<or> s_syncError st \<noteq> [] \<longrightarrow> bn_on (fst (renderBanner h st b)))"
  using assms by (auto simp: renderBanner_def Let_def dismissAt_def live_failure_def failureMark_def catch_state_def)

theorem failure_comes_back_witness:
  "bn_on (fst (renderBanner code_host (catch_state code_host ''timeout'' initialState)
     \<lparr>bs_dismissedAt = now code_host - 1, bs_wasOn = False, bs_last = [], bs_told = []\<rparr>))"
  using failure_comes_back [of "\<lparr>bs_dismissedAt = now code_host - 1, bs_wasOn = False, bs_last = [], bs_told = []\<rparr>" code_host "''timeout''" initialState]
  by simp

text \<open>
  The selection of the search is always on a result: whatever is typed, polled and pressed, the list holds at
  most ten results; once an arrow key has been used, Enter opens the highlighted one, which exists; and Enter opens nothing
  exactly when there are no results.
\<close>

theorem search_selection:
  "let d = foldl (\<lambda>d e. dd_step e d) no_dropdown es in
   length (dd_nodes d) \<le> 10 \<and> (enter_target d = None \<longleftrightarrow> dd_nodes d = [])
   \<and> (if dd_navigated d then dd_active d < length (dd_nodes d) \<and> enter_target d = Some (dd_nodes d ! dd_active d) else dd_active d = 0)"
proof -
  have "dd_ok (foldl (\<lambda>d e. dd_step e d) no_dropdown es)" by (rule dd_fold_ok) (simp add: dd_ok_def no_dropdown_def)
  then show ?thesis by (auto simp: Let_def dd_ok_def enter_target_def split: list.splits)
qed

end
