(* ===== verification/TopoCard.thy ===== *)
theory TopoCard
  imports Cluster
begin

text \<open>
  The first half of \<open>src/web/js/model/compute/topo.js\<close>: the sizes of the topology drawing, the colours of the
  companies, and the pure helpers that say what a card shows and how tall a stack is. The lists the collector nests
  (\<open>supplies\<close>, \<open>volumes\<close>, \<open>disks\<close>) hold objects, as the collector sends them.

  Coordinates and sizes are rationals. Whole, half and quarter pixels below $2^{50}$ are doubles, and sums, halves and
  comparisons of them are exact; where an operation of the source can round, the model rounds with \<^const>\<open>round64\<close>.
  \<open>Number.prototype.toLocaleString\<close> belongs to the run-time environment and is the argument \<open>loc\<close>.

  The main facts: the lanes of a cluster hold every virtual machine exactly once, on the node it is placed on, and a
  lane is as high as what it shows; a path starts at its first point; a node is shown as fully
  available only if it runs in a normal standing and a normal mode.
\<close>

section \<open>Sizes and colours\<close>

definition COMPANY_PALETTE :: "string list" where
  "COMPANY_PALETTE = [''#5677A8'', ''#4E8E96'', ''#7E72B5'', ''#8A6A4F'', ''#A76C93'', ''#3F8CA8'', ''#4C63A6'', ''#6A7C8C'']"

definition real_first :: "host \<Rightarrow> (string \<Rightarrow> bool) \<Rightarrow> (string \<Rightarrow> string) \<Rightarrow> string \<Rightarrow> string \<Rightarrow> int" where
  "real_first h hasReal lab a b =
     (let ra = (if hasReal a then 0 else 1); rb = (if hasReal b then 0 else 1) in
      if ra \<noteq> rb then ra - rb else collate h (lab a) (lab b))"

definition coDefaultColorMap :: "host \<Rightarrow> string list \<Rightarrow> (string \<Rightarrow> bool) \<Rightarrow> (string \<times> string) list" where
  "coDefaultColorMap h coNames hasReal =
     (let ordered = sort_by (real_first h hasReal (\<lambda>c. c)) coNames in
      foldl (\<lambda>m p. aput (snd p) (COMPANY_PALETTE ! (fst p mod length COMPANY_PALETTE)) m) [] (enumerate 0 ordered))"

record dims =
  dm_x :: rat
  dm_w :: rat
  dm_h :: rat
  dm_gx :: rat
  dm_gy :: rat

definition mk_dims :: "rat \<Rightarrow> rat \<Rightarrow> rat \<Rightarrow> rat \<Rightarrow> rat \<Rightarrow> dims" where
  "mk_dims x w h gx gy = \<lparr>dm_x = x, dm_w = w, dm_h = h, dm_gx = gx, dm_gy = gy\<rparr>"

definition PAD :: rat where "PAD = 24"
definition CO :: dims where "CO = mk_dims 24 176 46 0 0"
definition FA :: dims where "FA = mk_dims 220 204 40 0 0"
definition GRID_X :: rat where "GRID_X = 458"
definition CARDD :: dims where "CARDD = mk_dims 0 164 62 26 12"
definition BAND_GAP :: rat where "BAND_GAP = 24"
definition ROW_GAP_FULL :: rat where "ROW_GAP_FULL = 22"
definition CO_GAP :: rat where "CO_GAP = 34"
definition CANVAS_COL_GAP :: rat where "CANVAS_COL_GAP = 48"
definition MAX_D :: nat where "MAX_D = 14"
definition MAX_C :: nat where "MAX_C = 5"
definition XD :: dims where "XD = mk_dims 0 252 140 0 0"
definition ENDU :: dims where "ENDU = mk_dims 0 595 0 0 0"
definition XN :: dims where "XN = mk_dims 288 208 74 0 14"
definition XE :: dims where "XE = mk_dims 532 142 106 0 0"
definition XV :: dims where "XV = mk_dims 718 212 92 0 12"
definition TARGET_RATIO :: rat where "TARGET_RATIO = round64 (162 / 100)"
definition RE :: dims where "RE = mk_dims 274 140 118 0 0"
definition RN :: dims where "RN = mk_dims 430 182 82 0 14"
definition RG :: dims where "RG = mk_dims 628 96 58 0 0"
definition RV :: dims where "RV = mk_dims 740 212 86 0 9"
definition LANE_GAP :: rat where "LANE_GAP = 16"

lemmas sizes = PAD_def CO_def FA_def GRID_X_def CARDD_def BAND_GAP_def ROW_GAP_FULL_def CO_GAP_def CANVAS_COL_GAP_def
  XD_def ENDU_def XN_def XE_def XV_def RE_def RN_def RG_def RV_def LANE_GAP_def mk_dims_def

definition topoOf :: "device \<Rightarrow> jsval option" where
  "topoOf s =
     (let t = m_topo (d_meta s) in
      if \<not> is_obj t then None
      else if arr_of (jget t ''networks'') \<noteq> [] \<or> arr_of (jget t ''storage'') \<noteq> [] then Some t else None)"

section \<open>Small helpers\<close>

definition stackH :: "nat \<Rightarrow> rat \<Rightarrow> rat \<Rightarrow> rat" where
  "stackH n h gy = (if 0 < n then of_nat n * h + (of_nat n - 1) * gy else 0)"

definition protoShort :: "jsval \<Rightarrow> string" where
  "protoShort p = (if p = JStr ''EtherNet/IP'' then ''E/IP'' else if p = JStr ''Modbus TCP'' then ''Modbus'' else str_or p)"

text \<open>\<open>Math.min.apply(null, xs)\<close> of a list that is not empty, and \<open>xs.join(sep)\<close>.\<close>

fun min_of :: "jsnum list \<Rightarrow> jsnum" where
  "min_of [] = PInf"
| "min_of (x # xs) = n_min x (min_of xs)"

definition jjoin :: "string \<Rightarrow> jsval list \<Rightarrow> string" where
  "jjoin sep vs = join sep (map str_nn vs)"

record toner =
  tn_minPct :: "jsnum option"
  tn_pages :: "jsnum option"

definition toner_name :: "string list \<Rightarrow> jsval \<Rightarrow> bool" where
  "toner_name ws v = rx_test (ralts (map rlit_ci ws)) (str_or v)"

definition tonerSummary :: "jsval \<Rightarrow> toner" where
  "tonerSummary printerMeta =
     (let pr = jor printerMeta (JObj []);
          toners = filter (\<lambda>x. truthy x \<and> toner_name [''cyan'', ''magenta'', ''yellow'', ''black'', ''toner''] (jget x ''name'')
                     \<and> n_le (Fin 0) (to_num (jget x ''pct''))) (arr_of (jget pr ''supplies''))
      in \<lparr>tn_minPct = (if toners \<noteq> [] then Some (min_of (map (\<lambda>x. to_num (jget x ''pct'')) toners)) else None),
          tn_pages = (if nullish (jget pr ''pages'') then None else Some (to_num (jget pr ''pages'')))\<rparr>)"

record lic_info =
  li_label :: jsval
  li_dTxt :: string
  li_tone :: string

definition licInfo :: "host \<Rightarrow> lfun \<Rightarrow> jsval \<Rightarrow> lic_info" where
  "licInfo h l lic =
     (if \<not> truthy lic then \<lparr>li_label = JStr DASH, li_dTxt = [], li_tone = ''mut''\<rparr>
      else let label = jor (jget lic ''name'') (jor (jget lic ''edition'') (JStr (l ''License'' ''raisenseu''))) in
        if truthy (jget lic ''expires'') then
          (case (if truthy (jget lic ''expire'') then parseLicDate h (jget lic ''expire'') else None) of
             Some d \<Rightarrow> (let days = day_count d (now h) in
               \<lparr>li_label = label, li_dTxt = (if days < 0 then ''D+'' @ int_str (- days) else ''D-'' @ int_str days),
                li_tone = licTone (Some days)\<rparr>)
           | None \<Rightarrow> \<lparr>li_label = label, li_dTxt = l ''Unknown'' ''misang'', li_tone = ''mut''\<rparr>)
        else \<lparr>li_label = label, li_dTxt = l ''Perp'' ''yeonggu'', li_tone = ''mut''\<rparr>)"

section \<open>The chassis card\<close>

record endu_box =
  eb_k :: string
  eb_v :: "jsval list"
  eb_state :: jsval
  eb_ms :: jsval

record endu_flow =
  ef_active :: string
  ef_tone :: string
  ef_groups :: "(string \<times> endu_box list list) list"

definition primary_node :: "jsval list \<Rightarrow> jsval" where
  "primary_node ns = (case find (\<lambda>n. truthy n \<and> truthy (jget n ''primary'')) ns of Some n \<Rightarrow> n | None \<Rightarrow> JObj [])"

definition standby_node :: "jsval list \<Rightarrow> jsval" where
  "standby_node ns = (case find (\<lambda>n. truthy n \<and> \<not> truthy (jget n ''primary'')) ns of Some n \<Rightarrow> n | None \<Rightarrow> JObj [])"

definition nic_pair :: "string \<Rightarrow> string \<Rightarrow> string \<Rightarrow> jsval \<Rightarrow> jsval list" where
  "nic_pair f a b n = (if truthy n \<and> truthy (jget n f) then [jget (jget n f) a, jget (jget n f) b] else [])"

definition endu_bx :: "jsval \<Rightarrow> string \<Rightarrow> jsval list \<Rightarrow> string \<Rightarrow> endu_box" where
  "endu_bx reach k v rk =
     (let r = jor (jget reach rk) (JObj []) in
      \<lparr>eb_k = k, eb_v = v, eb_state = jor (jget r ''state'') (JStr []),
       eb_ms = (if is_num (jget r ''ms'') then jget r ''ms'' else Null)\<rparr>)"

definition enduFlow :: "device \<Rightarrow> endu_flow" where
  "enduFlow s =
     (let m = d_meta s; e = jor (m_endurance m) (JObj []); act = primary_node (m_nodes m); stby = standby_node (m_nodes m);
          mgmt = arr_of (jget e ''managementIPs'');
          bmc = (\<lambda>n. filter truthy (nic_pair ''bmc'' ''eth0'' ''eth1'' n));
          stn = (\<lambda>n. filter truthy (nic_pair ''standbyNic'' ''eno1'' ''eno2'' n));
          bx = endu_bx (jor (jget e ''reach'') (JObj []));
          nth_ip = (\<lambda>i. if i < length mgmt \<and> truthy (mgmt ! i) then [mgmt ! i] else [])
      in \<lparr>ef_active = to_str (jor (jget act ''name'') (JStr DASH))
            @ (if truthy (jget stby ''name'') then ''  .  STBY '' @ to_str (jget stby ''name'') else []),
          ef_tone = (if d_status s = Down then ''neg'' else ''pos''),
          ef_groups =
            [(''BMC'', [[bx ''BMC A'' (bmc act) ''bmcA'', bx ''BMC B'' (bmc stby) ''bmcB'']]),
             (''STANDBY OS'', [[bx ''STANDBY A'' (stn act) ''stbyA'', bx ''STANDBY B'' (stn stby) ''stbyB'']]),
             (''MGMT'', [[bx ''MGMT UI 1'' (nth_ip 0) ''mgmt1'', bx ''MGMT UI 2'' (nth_ip 1) ''mgmt2'']]),
             (''HOST'', [[bx ''WINDOWS'' (if truthy (jget e ''windowsHost'') then [jget e ''windowsHost''] else []) ''windows'']])]\<rparr>)"

section \<open>The rows of a card\<close>

record topo_row =
  tw_k :: string
  tw_v :: jsval
  tw_tone :: string
  tw_kw :: "nat option"

definition tw :: "string \<Rightarrow> jsval \<Rightarrow> string \<Rightarrow> topo_row" where
  "tw k v t = \<lparr>tw_k = k, tw_v = v, tw_tone = t, tw_kw = None\<rparr>"

definition tw62 :: "string \<Rightarrow> jsval \<Rightarrow> string \<Rightarrow> topo_row" where
  "tw62 k v t = \<lparr>tw_k = k, tw_v = v, tw_tone = t, tw_kw = Some 62\<rparr>"

definition ipRange :: "lfun \<Rightarrow> jsval list \<Rightarrow> string" where
  "ipRange l ips =
     (if ips = [] then []
      else (let lst = (\<lambda>s. last (split_on (CHR ''.'') (to_str s)));
                prefix = join ''.'' (take 3 (split_on (CHR ''.'') (to_str (hd ips))))
        in prefix @ ''.'' @ lst (hd ips) @ (if 1 < length ips then ''~'' @ lst (last ips) else [])
           @ '' . '' @ int_str (int (length ips)) @ l '' IPs'' ''gae''))"

definition osShort :: "jsval \<Rightarrow> string" where
  "osShort s = replace_first ''Windows Server'' ''Win Srv'' (trim (hd (split_on (CHR ''('') (str_or s))))"

definition end_rows :: "lfun \<Rightarrow> device \<Rightarrow> topo_row list" where
  "end_rows l s =
     (let m = d_meta s; e = jor (m_endurance m) (JObj []); act = primary_node (m_nodes m); stby = standby_node (m_nodes m);
          bmcIps = filter truthy (concat (map (nic_pair ''bmc'' ''eth0'' ''eth1'') (m_nodes m)));
          stbyIps = filter truthy (concat (map (nic_pair ''standbyNic'' ''eno1'' ''eno2'') (m_nodes m)));
          mgmt = arr_of (jget e ''managementIPs'')
      in [tw (l ''ACTIVE'' ''aektibeu'')
            (JStr (to_str (jor (jget act ''name'') (JStr DASH))
               @ (if truthy (jget stby ''name'') then '' . STBY '' @ to_str (jget stby ''name'') else [])))
            (if d_status s = Down then ''neg'' else ''pos''),
          tw (l ''MGMT UI'' ''gwanri UI'') (JStr (if mgmt \<noteq> [] then jjoin '' / '' mgmt else sor (m_mgmt m) DASH)) ''mut'',
          tw (l ''WINDOWS'' ''windou'') (jor (jget e ''windowsHost'') (JStr DASH)) ''mut'',
          tw ''BMC'' (JStr (sor (ipRange l bmcIps) DASH)) ''mut'',
          tw (l ''STANDBY OS'' ''seutaendeubai OS'') (JStr (sor (ipRange l stbyIps) DASH)) ''mut'',
          tw ''OS'' (JStr (osShort (jget act ''os'') @ (if truthy (jget stby ''os'') then '' . STBY Ubuntu'' else []))) ''mut''])"

definition plc_rows :: "lfun \<Rightarrow> device \<Rightarrow> topo_row list" where
  "plc_rows l s =
     (let p = jor (m_plc (d_meta s)) (JObj []); down = (d_status s = Down);
          run = str_or (jget p ''runState''); goRun = (run = ''RUN'' \<or> run = ''MONITOR''); sev = str_or (jget p ''errSev'');
          bad = (truthy (jget p ''hasError'') \<or> sev = ''major'' \<or> sev = ''partial'');
          warn = (\<not> bad \<and> (sev = ''observation'' \<or> sev = ''minor''))
      in [tw (l ''RUN'' ''unjeon'')
            (JStr (if down then l ''offline'' ''opeurain''
                   else if run = ''PROGRAM'' then l ''STOP'' ''jeongji'' else sor run (l ''online'' ''onrain'')))
            (if down then ''neg'' else if goRun then ''pos'' else if run \<noteq> [] then ''warn'' else ''mut''),
          tw (l ''NET'' ''tongsin'')
            (JStr (sor (protoShort (jor (jget p ''protocol'') (JStr []))) DASH
               @ (if truthy (jget p ''port'') then '':'' @ to_str (jget p ''port'') else []))) ''mut'',
          tw (l ''DIAG'' ''jindan'')
            (JStr (if bad then l ''error'' ''ereo''
                   else if warn then (if sev = ''minor'' then l ''minor'' ''gyeongmi'' else l ''observation'' ''gwanchal'')
                   else l ''normal'' ''jeongsang''))
            (if bad then ''neg'' else if warn then ''warn'' else ''pos'')]
         @ map (\<lambda>v. tw62 (str_or (jor (jget v ''label'') (jget v ''name'')))
             (JStr ((if nullish (jget v ''value'') then DASH else to_str (jget v ''value''))
               @ (if truthy (jget v ''unit'') then '' '' @ to_str (jget v ''unit'') else []))) ''mut'')
             (take 2 (arr_of (jget p ''procVars''))))"

definition prn_rows :: "(jsnum \<Rightarrow> string) \<Rightarrow> lfun \<Rightarrow> device \<Rightarrow> topo_row list" where
  "prn_rows loc l s =
     (let p = jor (m_printer (d_meta s)) (JObj []); down = (d_status s = Down);
          toners = filter (\<lambda>x. toner_name [''cyan'', ''magenta'', ''yellow'', ''black''] (jget x ''name'')
                     \<and> n_le (Fin 0) (to_num (jget x ''pct''))) (arr_of (jget p ''supplies''));
          minT = (if toners \<noteq> [] then Some (min_of (map (\<lambda>x. to_num (jget x ''pct'')) toners)) else None);
          tray = (case arr_of (jget p ''trays'') of [] \<Rightarrow> Null | x # _ \<Rightarrow> jor x Null); level = jget tray ''level'';
          errs = arr_of (jget p ''errors'')
      in [tw (l ''STATE'' ''sangtae'')
            (if down then JStr (l ''offline'' ''opeurain'')
             else if errs \<noteq> [] then hd errs
             else JStr (if to_str (jget p ''status'') = ''printing'' then l ''Printing'' ''inswae jung''
                        else if to_str (jget p ''status'') = ''warmup'' then l ''Warming up'' ''yeyeol jung''
                        else l ''Idle'' ''daegi''))
            (if down then ''neg'' else if errs \<noteq> [] then ''warn'' else ''pos''),
          tw (l ''TONER'' ''toneo'')
            (JStr (case minT of Some t \<Rightarrow> l ''min '' ''choejeo '' @ num_str t @ ''%'' | None \<Rightarrow> DASH))
            (case minT of None \<Rightarrow> ''mut'' | Some t \<Rightarrow> if n_le t (Fin 10) then ''neg'' else if n_le t (Fin 25) then ''warn'' else ''pos''),
          tw (l ''PAPER'' ''yongji'')
            (JStr (if \<not> truthy tray then DASH
                   else if level = JNum (Fin 0) then l ''empty'' ''eopseum''
                   else if n_lt (Fin 0) (to_num level) \<and> truthy (jget tray ''max'')
                     then to_str level @ ''/'' @ to_str (jget tray ''max'')
                   else l ''present'' ''isseum''))
            (if truthy tray \<and> level = JNum (Fin 0) then ''warn'' else ''mut''),
          tw (l ''PAGES'' ''peiji'') (JStr (if nullish (jget p ''pages'') then DASH else loc (to_num (jget p ''pages'')))) ''mut''])"

definition pct_tone :: "thresholds \<Rightarrow> jsval \<Rightarrow> string" where
  "pct_tone th v = pctTone th (map_option Fin (num_val v))"

definition disk_ok :: "jsval \<Rightarrow> bool" where
  "disk_ok x \<longleftrightarrow> upper (str_or (jget x ''health'')) \<in> set [''PASSED'', ''OK'', ''UNKNOWN'', []]"

definition srv_rows :: "thresholds \<Rightarrow> lfun \<Rightarrow> device \<Rightarrow> topo_row list" where
  "srv_rows th l s =
     (let m = d_meta s; down = (d_status s = Down); sv = jor (m_srv m) (JObj []);
          n0 = (case m_nodes m of [] \<Rightarrow> JObj [] | n # _ \<Rightarrow> jor n (JObj [])); cu = usageOf th s ''cpu''; mu = usageOf th s ''mem'';
          ld = (if arr_of (jget sv ''load'') \<noteq> [] then arr_of (jget sv ''load'') else arr_of (jget n0 ''loadAvg''));
          dks = filter (\<lambda>x. truthy x \<and> jget x ''kind'' \<noteq> JStr ''usb'') (m_srvDisks m);
          okN = length (filter disk_ok dks); wear = List.map_filter (\<lambda>x. num_val (jget x ''wearout'')) dks;
          wMin = (if wear \<noteq> [] then Some (Min (set wear)) else None);
          stor = m_srvStorage m; eths = filter (\<lambda>x. truthy x \<and> jget x ''kind'' = JStr ''eth'') (m_srvNet m)
      in [tw (l ''STATE'' ''sangtae'') (JStr (if down then l ''offline'' ''opeurain'' else l ''online'' ''onrain'')) (if down then ''neg'' else ''pos''),
          tw ''CPU'' (JStr (us_text cu)) (if us_na cu then ''mut'' else us_tone cu),
          tw ''MEM'' (JStr ((case us_val mu of None \<Rightarrow> DASH | Some v \<Rightarrow> int_str v @ ''%'')
             @ (if truthy (jget n0 ''memGiB'') then '' . '' @ to_str (jget n0 ''memGiB'') @ '' GiB'' else [])))
             (if us_na mu then ''mut'' else us_tone mu),
          tw (l ''LOAD'' ''buha'') (JStr (if ld \<noteq> [] then jjoin '' '' ld else DASH)) ''mut'',
          tw ''VM'' (JStr (if nullish (jget n0 ''vmCount'') then num_str (Fin (m_vms m)) else to_str (jget n0 ''vmCount''))) ''mut'']
         @ (if dks = [] then [] else
             [tw (l ''DISK'' ''diseukeu'')
                (JStr (int_str (int okN) @ ''/'' @ int_str (int (length dks)) @ '' OK''
                   @ (case wMin of Some w \<Rightarrow> l '' . life '' '' . sumyeong '' @ num_str (Fin w) @ ''%'' | None \<Rightarrow> [])))
                (if okN < length dks then ''neg'' else case wMin of Some w \<Rightarrow> if w \<le> 10 then ''warn'' else ''pos'' | None \<Rightarrow> ''pos'')])
         @ (case stor of [] \<Rightarrow> [] | s0 # _ \<Rightarrow>
             (let worst = foldl (\<lambda>a b. if n_lt (or0 (jget a ''pct'')) (or0 (jget b ''pct'')) then b else a) s0 stor;
                  p = jor (jget worst ''pct'') (JNum (Fin 0))
              in [tw (l ''STOR'' ''pul'') (JStr (to_str (jor (jget worst ''name'') (JStr [])) @ '' '' @ to_str p @ ''%'')) (pct_tone th p)]))
         @ (if 1 < length eths
            then [tw ''LAN'' (JStr (int_str (int (length (filter (\<lambda>x. truthy (jget x ''up'')) eths))) @ ''/''
                    @ int_str (int (length eths)) @ l '' link'' '' ringkeu'')) ''mut''] else [])
         @ (if truthy (jget sv ''kernel'') then [tw62 (l ''KERNEL'' ''keoneol'') (JStr (to_str (jget sv ''kernel''))) ''mut''] else []))"

definition pc_rows :: "lfun \<Rightarrow> device \<Rightarrow> topo_row list" where
  "pc_rows l s =
     (let p = jor (m_pc (d_meta s)) (JObj []); svc = arr_of (jget p ''services'')
      in [tw ''OS'' (jor (jget p ''os'') (JStr (l ''Unknown'' ''misang''))) ''mut'',
          tw (l ''HOST'' ''hoseuteu'') (JStr (to_str (jor (jget p ''netbios'') (JStr (sor (d_host s) DASH)))
             @ (if truthy (jget p ''workgroup'') then '' . '' @ to_str (jget p ''workgroup'') else []))) ''mut'',
          tw (l ''SVC'' ''seobiseu'') (JStr (if svc \<noteq> [] then jjoin ''.'' svc else DASH)) ''mut'',
          tw (l ''MODE'' ''sujip'') (JStr (if truthy (jget p ''snmp'') then ''SNMP'' else l ''agentless'' ''eijeonteuriseu'')) ''mut''])"

definition DEG_C :: string where "DEG_C = [CHR 0xB0, CHR ''C'']"

definition temp_tone :: "rat \<Rightarrow> rat \<Rightarrow> rat option \<Rightarrow> string" where
  "temp_tone hot warm t = (case t of None \<Rightarrow> ''mut'' | Some x \<Rightarrow> if hot \<le> x then ''neg'' else if warm \<le> x then ''warn'' else ''pos'')"

definition nas_rows :: "thresholds \<Rightarrow> lfun \<Rightarrow> device \<Rightarrow> topo_row list" where
  "nas_rows th l s =
     (let n = jor (m_nas (d_meta s)) (JObj []);
          vol = (case arr_of (jget n ''volumes'') of [] \<Rightarrow> Null | v # _ \<Rightarrow> jor v Null);
          disks = arr_of (jget n ''disks'');
          badDisk = length (filter (\<lambda>d. truthy d \<and> jget d ''ok'' = JBool False) disks);
          okDisk = length (filter (\<lambda>d. truthy d \<and> jget d ''ok'' = JBool True) disks);
          naDisk = length disks - badDisk - okDisk;
          t = num_val (jget n ''tempC''); ports = arr_of (jget n ''lanPorts'');
          portsUp = length (filter (\<lambda>x. truthy x \<and> truthy (jget x ''up'')) ports);
          hasPct = (truthy vol \<and> \<not> nullish (jget vol ''pct''))
      in [tw (l ''VOL'' ''bollyum'')
            (JStr (if hasPct then (if truthy (jget vol ''name'') then to_str (jget vol ''name'') @ '' '' else [])
                     @ to_str (jget vol ''pct'') @ ''%'' else DASH))
            (if hasPct then pct_tone th (jget vol ''pct'') else ''mut''),
          tw (l ''DISK'' ''diseukeu'')
            (JStr (if 0 < okDisk + badDisk then int_str (int okDisk) @ ''/'' @ int_str (int (length disks)) @ '' OK'' else DASH))
            (if 0 < badDisk then ''neg'' else if disks \<noteq> [] \<and> naDisk = 0 then ''pos'' else ''mut''),
          tw (l ''TEMP'' ''ondo'') (JStr (case t of Some x \<Rightarrow> num_str (Fin x) @ DEG_C | None \<Rightarrow> DASH)) (temp_tone 65 55 t)]
         @ (if 1 < length ports
            then [tw ''LAN'' (JStr (int_str (int portsUp) @ ''/'' @ int_str (int (length ports)) @ l '' link'' '' ringkeu'')) ''mut'']
            else [])
         @ [tw ''DSM'' (JStr (to_str (jor (jget n ''dsmVersion'') (jor (jget n ''model'') (JStr DASH)))))
              (if truthy (jget n ''upgradeAvailable'') then ''warn'' else ''mut'')])"

definition win_rows :: "thresholds \<Rightarrow> lfun \<Rightarrow> device \<Rightarrow> topo_row list" where
  "win_rows th l s =
     (let w = jor (m_win (d_meta s)) (JObj []);
          disk = (case arr_of (jget w ''disks'') of [] \<Rightarrow> Null | d # _ \<Rightarrow> jor d Null);
          hasPct = (truthy disk \<and> \<not> nullish (jget disk ''pct''))
      in [tw ''OS'' (JStr (to_str (jor (jget w ''os'') (JStr (l ''Windows Server'' ''Windows seobeo'')))
             @ (if truthy (jget w ''build'') then '' . '' @ to_str (jget w ''build'') else []))) ''mut'',
          tw (l ''DISK'' ''diseukeu'')
            (JStr (if hasPct then to_str (jget disk ''drive'') @ '' '' @ to_str (jget disk ''pct'') @ ''%'' else DASH))
            (if hasPct then pct_tone th (jget disk ''pct'') else ''mut''),
          tw (l ''SVC'' ''seobiseu'')
            (JStr (if truthy (jget w ''svcRunning'') then to_str (jget w ''svcRunning'') @ l '' running'' '' silhaeng'' else DASH)) ''mut'',
          tw (l ''PATCH'' ''paechi'') (JStr (to_str (jor (jget w ''lastHotfix'') (JStr DASH)))) ''mut''])"

definition pi_rows :: "lfun \<Rightarrow> device \<Rightarrow> topo_row list" where
  "pi_rows l s =
     (let p = jor (m_pi (d_meta s)) (JObj []); t = num_val (jget p ''tempC''); thr = truthy (jget p ''throttled'');
          thrW = (\<not> thr \<and> (truthy (jget p ''throttleThermal'') \<or> truthy (jget p ''throttleUnderVolt'')))
      in [tw (l ''MODEL'' ''model'') (JStr (to_str (jor (jget p ''model'') (JStr ''Raspberry Pi'')))) ''mut'',
          tw (l ''TEMP'' ''ondo'') (JStr (case t of Some x \<Rightarrow> to_fixed 1 x @ DEG_C | None \<Rightarrow> DASH)) (temp_tone 75 65 t),
          tw (l ''THR'' ''seuroteul'')
            (JStr (if thr then l ''throttled'' ''seuroteul'' else if thrW then l ''warning'' ''gyeonggo'' else l ''normal'' ''jeongsang''))
            (if thr then ''neg'' else if thrW then ''warn'' else ''pos''),
          tw (l ''KERNEL'' ''keoneol'') (JStr (to_str (jor (jget p ''kernel'') (JStr DASH)))) ''mut''])"

definition typeRows :: "(jsnum \<Rightarrow> string) \<Rightarrow> thresholds \<Rightarrow> lfun \<Rightarrow> device \<Rightarrow> topo_row list option" where
  "typeRows loc th l s =
     (case d_type s of
        END \<Rightarrow> Some (end_rows l s)
      | PLC \<Rightarrow> Some (plc_rows l s)
      | PRN \<Rightarrow> Some (prn_rows loc l s)
      | SRV \<Rightarrow> Some (srv_rows th l s)
      | PC \<Rightarrow> Some (pc_rows l s)
      | NAS \<Rightarrow> Some (nas_rows th l s)
      | WIN \<Rightarrow> Some (win_rows th l s)
      | PI \<Rightarrow> Some (pi_rows l s)
      | _ \<Rightarrow> None)"

section \<open>Order, stacks and lanes\<close>

definition type_index :: "dev_type \<Rightarrow> int" where
  "type_index t = int (length (takeWhile (\<lambda>k. k \<noteq> t) TYPE_KEYS))"

definition devSort :: "host \<Rightarrow> device \<Rightarrow> device \<Rightarrow> int" where
  "devSort h x y =
     (if type_index (d_type x) \<noteq> type_index (d_type y) then type_index (d_type x) - type_index (d_type y)
      else collate h (sor (m_label (d_meta x)) (d_host x)) (sor (m_label (d_meta y)) (d_host y)))"

record blk =
  bk_cols :: nat
  bk_rows :: nat
  bk_w :: rat
  bk_h :: rat

definition rvBlock :: "nat \<Rightarrow> blk" where
  "rvBlock n = (if n = 0 then \<lparr>bk_cols = 0, bk_rows = 0, bk_w = 0, bk_h = 0\<rparr>
     else \<lparr>bk_cols = 1, bk_rows = n, bk_w = dm_w RV, bk_h = of_nat n * dm_h RV + (of_nat n - 1) * dm_gy RV\<rparr>)"

record lane =
  ln_node :: jsval
  ln_i :: nat
  ln_vms :: "jsval list"
  ln_blk :: blk
  ln_collapsed :: bool
  ln_h :: rat

text \<open>\<open>n.name || ('node' + i)\<close> as a key.\<close>

definition node_name :: "jsval \<Rightarrow> nat \<Rightarrow> string" where
  "node_name n i = to_str (jor (jget n ''name'') (JStr (''node'' @ int_str (int i))))"

definition lane_index :: "jsval list \<Rightarrow> jsval \<Rightarrow> nat" where
  "lane_index nodes v =
     (let i = length (takeWhile (\<lambda>n. jor (jget n ''name'') (JStr []) \<noteq> JStr (str_or (jget v ''node''))) nodes)
      in if i < length nodes then i else 0)"

definition lane_of :: "jsval list \<Rightarrow> jsval list \<Rightarrow> (string \<Rightarrow> bool) \<Rightarrow> nat \<Rightarrow> lane" where
  "lane_of nodes vms vgCol i =
     (let ls = filter (\<lambda>v. lane_index nodes v = i) vms;
          col = (ls \<noteq> [] \<and> vgCol (node_name (nodes ! i) i));
          b = (if col then rvBlock 0 else rvBlock (length ls))
      in \<lparr>ln_node = nodes ! i, ln_i = i, ln_vms = ls, ln_blk = b, ln_collapsed = col,
          ln_h = max (dm_h RN) (max (if ls \<noteq> [] then dm_h RG else 0) (bk_h b))\<rparr>)"

definition realLanes :: "dev_meta \<Rightarrow> (string \<Rightarrow> bool) \<Rightarrow> lane list \<times> rat" where
  "realLanes m vgCol =
     (let nodes = take 2 (m_nodes m); lanes = map (lane_of nodes (m_vmList m) vgCol) [0..<length nodes]
      in (lanes, if lanes \<noteq> [] then sum_list (map ln_h lanes) + LANE_GAP * (of_nat (length lanes) - 1) else 0))"

definition vmBlock :: "nat \<Rightarrow> blk" where
  "vmBlock n = (if n = 0 then \<lparr>bk_cols = 0, bk_rows = 0, bk_w = 0, bk_h = 0\<rparr>
     else \<lparr>bk_cols = 1, bk_rows = n, bk_w = dm_w XV, bk_h = of_nat n * dm_h XV + (of_nat n - 1) * dm_gy XV\<rparr>)"

section \<open>Lines\<close>

type_synonym point = "rat \<times> rat"

definition r1 :: "rat \<Rightarrow> rat" where
  "r1 n = of_int (rround (n * 10)) / 10"

definition xy :: "point \<Rightarrow> string" where
  "xy p = num_str (fl (r1 (fst p))) @ '' '' @ num_str (fl (r1 (snd p)))"

definition push_point :: "point list \<Rightarrow> point \<Rightarrow> point list" where
  "push_point p q = (if p = [] \<or> 1 / 100 < \<bar>fst (last p) - fst q\<bar> \<or> 1 / 100 < \<bar>snd (last p) - snd q\<bar> then p @ [q] else p)"

text \<open>The corner at \<open>c\<close> between \<open>a\<close> and \<open>b\<close>, rounded with radius \<open>r\<close> where both arms are long enough.\<close>

definition manhattan :: "point \<Rightarrow> point \<Rightarrow> rat" where
  "manhattan a b = \<bar>fst b - fst a\<bar> + \<bar>snd b - snd a\<bar>"

definition toward :: "rat \<Rightarrow> point \<Rightarrow> point \<Rightarrow> point" where
  "toward rr c a = (let d = manhattan c a; d1 = (if d = 0 then 1 else d) in
     (fst c + round64 (round64 ((fst a - fst c) / d1) * rr), snd c + round64 (round64 ((snd a - snd c) / d1) * rr)))"

definition corner :: "rat \<Rightarrow> point \<Rightarrow> point \<Rightarrow> point \<Rightarrow> string" where
  "corner r a c b =
     (let rr = max 0 (min r (min (manhattan a c / 2) (manhattan c b / 2)))
      in '' L'' @ xy (toward rr c a) @ '' Q'' @ xy c @ '' '' @ xy (toward rr c b))"

fun corners :: "rat \<Rightarrow> point list \<Rightarrow> string" where
  "corners r (a # c # b # ps) = corner r a c b @ corners r (c # b # ps)"
| "corners r _ = []"

definition orthPath :: "point list \<Rightarrow> rat \<Rightarrow> string" where
  "orthPath pts r =
     (let p = foldl push_point [] pts in
      if length p < 2 then ''M'' @ xy (hd pts) else ''M'' @ xy (hd p) @ corners r p @ '' L'' @ xy (last p))"

fun mid_from :: "rat \<Rightarrow> rat \<Rightarrow> point list \<Rightarrow> point option" where
  "mid_from tot acc (a # b # ps) =
     (let seg = manhattan a b in
      if tot / 2 \<le> acc + seg
      then (let t = (if seg = 0 then 0 else round64 ((tot / 2 - acc) / seg))
            in Some (fst a + round64 ((fst b - fst a) * t), snd a + round64 ((snd b - snd a) * t)))
      else mid_from tot (acc + seg) (b # ps))"
| "mid_from tot acc ps = None"

fun path_len :: "point list \<Rightarrow> rat" where
  "path_len (a # b # ps) = manhattan a b + path_len (b # ps)"
| "path_len _ = 0"

definition polyMid :: "point list \<Rightarrow> point" where
  "polyMid pts = (case mid_from (path_len pts) 0 pts of Some p \<Rightarrow> p | None \<Rightarrow> last pts)"

section \<open>States\<close>

definition rx_run_ci :: "jsval \<Rightarrow> bool" where
  "rx_run_ci v = rx_test (rlit_ci ''run'') (str_or v)"

definition nodeStatus :: "jsval \<Rightarrow> dev_status" where
  "nodeStatus n =
     (if \<not> (truthy n \<and> rx_run_ci (jget n ''state'')) then Down
      else (let sd = lower (str_or (jget n ''standing'')); md = lower (str_or (jget n ''mode''));
                modeBad = (md \<noteq> [] \<and> md \<noteq> ''normal'' \<and> md \<noteq> ''production'')
            in if (sd \<noteq> [] \<and> sd \<noteq> ''normal'') \<or> modeBad then Deg else Op))"

definition grpWorst :: "device list \<Rightarrow> dev_status" where
  "grpWorst xs = worstOf (map d_status xs)"

section \<open>Facts\<close>

lemma worstOf_Op [simp]: "worstOf (map f xs) = Op \<longleftrightarrow> (\<forall>x \<in> set xs. f x = Op)"
proof
  assume "worstOf (map f xs) = Op"
  then have n: "\<And>x. x \<in> set xs \<Longrightarrow> f x \<noteq> Down \<and> f x \<noteq> Deg"
    by (force simp: worstOf_def split: if_splits)
  show "\<forall>x \<in> set xs. f x = Op"
  proof
    fix x assume "x \<in> set xs"
    then show "f x = Op" using n [of x] by (cases "f x") auto
  qed
next
  assume "\<forall>x \<in> set xs. f x = Op"
  then show "worstOf (map f xs) = Op" by (auto simp: worstOf_def)
qed

lemma r1_near: "\<bar>r1 x - x\<bar> \<le> 1 / 20"
proof -
  have "of_int (rround (x * 10)) \<le> x * 10 + 1 / 2" "x * 10 - 1 / 2 \<le> of_int (rround (x * 10))"
    unfolding rround_def by linarith+
  then show ?thesis unfolding r1_def by linarith
qed

lemma r1_half [simp]: "r1 (of_int n / 2) = of_int n / 2"
proof -
  have "rround (of_int n / 2 * 10) = n * 5" using rround_of_int [of "n * 5"] by (simp add: mult.commute)
  then show ?thesis by (simp add: r1_def)
qed

lemma stackH_nonneg: "0 \<le> h \<Longrightarrow> 0 \<le> gy \<Longrightarrow> 0 \<le> stackH n h gy"
  by (cases n) (simp_all add: stackH_def)

lemma bk_h_rvBlock: "bk_h (rvBlock n) = stackH n (dm_h RV) (dm_gy RV)"
  by (simp add: rvBlock_def stackH_def)

lemma bk_h_vmBlock: "bk_h (vmBlock n) = stackH n (dm_h XV) (dm_gy XV)"
  by (simp add: vmBlock_def stackH_def)

lemma lane_index_less: "nodes \<noteq> [] \<Longrightarrow> lane_index nodes v < length nodes"
  by (simp add: lane_index_def Let_def)

lemma lane_of_facts [simp]:
  "ln_i (lane_of nodes vms g i) = i" "ln_node (lane_of nodes vms g i) = nodes ! i"
  "ln_vms (lane_of nodes vms g i) = filter (\<lambda>v. lane_index nodes v = i) vms"
  by (simp_all add: lane_of_def Let_def)

lemma lane_heights:
  "dm_h RN \<le> ln_h (lane_of nodes vms g i)"
  "bk_h (ln_blk (lane_of nodes vms g i)) \<le> ln_h (lane_of nodes vms g i)"
  "ln_vms (lane_of nodes vms g i) \<noteq> [] \<Longrightarrow> dm_h RG \<le> ln_h (lane_of nodes vms g i)"
  by (simp_all add: lane_of_def Let_def)

lemma mset_by_class:
  "(\<And>x. x \<in> set xs \<Longrightarrow> c x < n) \<Longrightarrow> mset (concat (map (\<lambda>i. filter (\<lambda>x. c x = i) xs) [0..<n])) = mset xs"
proof (induction xs)
  case (Cons x xs)
  have "mset (concat (map (\<lambda>i. filter (\<lambda>y. c y = i) (x # xs)) [0..<k]))
      = mset (concat (map (\<lambda>i. filter (\<lambda>y. c y = i) xs) [0..<k])) + (if c x < k then {#x#} else {#})" for k
    by (induction k) auto
  then show ?case using Cons by simp
qed simp

text \<open>The lanes hold every virtual machine exactly once.\<close>

lemma realLanes_vms:
  assumes "m_nodes m \<noteq> []"
  shows "mset (concat (map ln_vms (fst (realLanes m g)))) = mset (m_vmList m)"
proof -
  define nodes where "nodes = take 2 (m_nodes m)"
  then have "nodes \<noteq> []" using assms by simp
  then have "mset (concat (map (\<lambda>i. filter (\<lambda>v. lane_index nodes v = i) (m_vmList m)) [0..<length nodes])) = mset (m_vmList m)"
    by (intro mset_by_class) (simp add: lane_index_less)
  then show ?thesis by (simp add: realLanes_def Let_def nodes_def comp_def)
qed

lemma realLanes_fst: "fst (realLanes m g) = map (lane_of (take 2 (m_nodes m)) (m_vmList m) g) [0..<length (take 2 (m_nodes m))]"
  by (simp add: realLanes_def Let_def)

lemma nodeStatus_Op:
  "nodeStatus n = Op \<longleftrightarrow> truthy n \<and> rx_run_ci (jget n ''state'')
     \<and> lower (str_or (jget n ''standing'')) \<in> {[], ''normal''}
     \<and> lower (str_or (jget n ''mode'')) \<in> {[], ''normal'', ''production''}"
  by (auto simp: nodeStatus_def Let_def)

lemma hd_push_points: "p \<noteq> [] \<Longrightarrow> foldl push_point p pts \<noteq> [] \<and> hd (foldl push_point p pts) = hd p"
  by (induction pts arbitrary: p) (simp_all add: push_point_def)

text \<open>A path starts at its first point.\<close>

lemma orthPath_start: "pts \<noteq> [] \<Longrightarrow> starts_with (''M'' @ xy (hd pts)) (orthPath pts r)"
proof -
  assume "pts \<noteq> []"
  then obtain q qs where pts: "pts = q # qs" by (cases pts) auto
  have "hd (foldl push_point [] pts) = q" using hd_push_points [of "[q]" qs] by (simp add: pts push_point_def)
  then show ?thesis by (simp add: orthPath_def Let_def pts starts_with_append)
qed

end
