(* ===== verification/TopoPlan.thy ===== *)
theory TopoPlan
  imports TopoCard
begin

text \<open>
  The planning pass of \<open>buildTopo\<close> in \<open>src/web/js/model/compute/topo.js\<close>: the groups of companies and factories, their
  colours and focus, the height and width of a device row, the rows of a factory band, the block of a company, the
  newspaper columns of the canvas, and the search for the number of columns. What the function closes over is the
  record \<open>env\<close>. \<open>Math.log\<close>, an approximation the run-time environment chooses, is its field \<open>te_log\<close>.

  The main facts: the search always finds a plan and tries at most \<open>MAX_D \<times> MAX_C\<close> of them; the columns of a plan hold
  every shown company exactly once and in order; blocks, bands and rows are stacked without overlap.
\<close>

record env =
  te_h :: host
  te_th :: thresholds
  te_loc :: "jsnum \<Rightarrow> string"
  te_log :: "rat \<Rightarrow> rat"
  te_l :: lfun
  te_st :: app_state
  te_fleet :: "device list"

section \<open>Keys, tallies and groups\<close>

definition col_map :: "env \<Rightarrow> jsval" where "col_map e = jor (s_collapsed (te_st e)) (JObj [])"

definition isColCo :: "env \<Rightarrow> string \<Rightarrow> bool" where "isColCo e co = truthy (jget (col_map e) (''co:'' @ co))"
definition isColFa :: "env \<Rightarrow> string \<Rightarrow> string \<Rightarrow> bool" where "isColFa e co fa = truthy (jget (col_map e) (''fa:'' @ co @ ''/'' @ fa))"
definition isColNd :: "env \<Rightarrow> device \<Rightarrow> bool" where "isColNd e s = truthy (jget (col_map e) (''nd:'' @ d_id s))"

definition maint_map :: "env \<Rightarrow> (string \<times> jsval) list" where
  "maint_map e = activeMaint (te_h e) (s_maint (te_st e)) (now (te_h e))"

record tally =
  ty_n :: rat
  ty_crit :: "rat option"
  ty_warn :: "rat option"
  ty_info :: "rat option"
  ty_maintWin :: bool

definition zero_null :: "rat option \<Rightarrow> rat" where "zero_null x = (case x of Some n \<Rightarrow> n | None \<Rightarrow> 0)"

definition count_sev :: "string \<Rightarrow> alert_rec list \<Rightarrow> rat" where
  "count_sev k als = of_nat (length (filter (\<lambda>a. jor (al_sev a) (JStr (al_severity a)) = JStr k) als))"

definition devAlertTally :: "env \<Rightarrow> device \<Rightarrow> tally" where
  "devAlertTally e s =
     (let m = d_meta s; maintWin = (d_id s \<in> fst ` set (maint_map e)); als = (if maintWin then [] else m_alerts m);
          ac = m_alertCounts m;
          hasAC = (\<not> maintWin \<and> is_obj ac
                   \<and> (\<not> nullish (jget ac ''critical'') \<or> \<not> nullish (jget ac ''warning'') \<or> \<not> nullish (jget ac ''info'')));
          crit = (if hasAC then num_val (jget ac ''critical'') else Some (count_sev ''critical'' als));
          warn = (if hasAC then num_val (jget ac ''warning'') else Some (count_sev ''warning'' als));
          info = (if hasAC then num_val (jget ac ''info'') else Some 0)
      in \<lparr>ty_n = (if hasAC then zero_null crit + zero_null warn + zero_null info else of_nat (length als)),
          ty_crit = crit, ty_warn = warn, ty_info = info, ty_maintWin = maintWin\<rparr>)"

definition coOf :: "device \<Rightarrow> string" where "coOf s = sor (m_company (d_meta s)) UNASSIGNED_CO"
definition faOf :: "device \<Rightarrow> string" where "faOf s = sor (m_factory (d_meta s)) UNASSIGNED_FA"
definition coLabel :: "env \<Rightarrow> string \<Rightarrow> string" where
  "coLabel e co = (if co = UNASSIGNED_CO then te_l e ''Unassigned'' ''mibunryu'' else co)"
definition faLabel :: "env \<Rightarrow> string \<Rightarrow> string" where
  "faLabel e fa = (if fa = UNASSIGNED_FA then te_l e ''Unassigned'' ''mijijeong'' else fa)"

definition focusCo :: "env \<Rightarrow> string option" where
  "focusCo e = (case s_topoFocus (te_st e) of None \<Rightarrow> None
     | Some f \<Rightarrow> if f = [] then None
                 else if f = UNASSIGNED_CO \<or> f = ''Unassigned'' \<or> f = ''mibunryu'' then Some UNASSIGNED_CO else Some f)"

definition hostedIps :: "env \<Rightarrow> jsval list" where
  "hostedIps e = concat (map (\<lambda>s. if isFT (d_type s) then []
     else List.map_filter (\<lambda>vm. if truthy vm \<and> truthy (jget vm ''ip'') then Some (jget vm ''ip'') else None) (m_vmList (d_meta s)))
     (te_fleet e))"

definition hosted :: "env \<Rightarrow> device \<Rightarrow> bool" where
  "hosted e s \<longleftrightarrow> JStr (m_mgmt (d_meta s)) \<in> set (hostedIps e)"

type_synonym dev_map = "(string \<times> (string \<times> device list) list) list"

definition map_add :: "dev_map \<Rightarrow> device \<Rightarrow> dev_map" where
  "map_add m s = (let co = coOf s in aput co (push_key (faOf s) s (case map_of m co of Some c \<Rightarrow> c | None \<Rightarrow> [])) m)"

definition coMap :: "env \<Rightarrow> dev_map" where
  "coMap e = map (\<lambda>p. (fst p, map (\<lambda>q. (fst q, sort_by (devSort (te_h e)) (snd q))) (snd p)))
     (foldl map_add [] (filter (\<lambda>s. \<not> hosted e s) (te_fleet e)))"

definition facs_of :: "env \<Rightarrow> string \<Rightarrow> (string \<times> device list) list" where
  "facs_of e co = (case map_of (coMap e) co of Some c \<Rightarrow> c | None \<Rightarrow> [])"

definition devs_of :: "env \<Rightarrow> string \<Rightarrow> string \<Rightarrow> device list" where
  "devs_of e co fa = (case map_of (facs_of e co) fa of Some xs \<Rightarrow> xs | None \<Rightarrow> [])"

definition coHasTopology :: "env \<Rightarrow> string \<Rightarrow> bool" where
  "coHasTopology e co \<longleftrightarrow> (\<exists>p \<in> set (facs_of e co). \<exists>s \<in> set (snd p). topoOf s \<noteq> None)"

definition companies :: "env \<Rightarrow> string list" where
  "companies e = sort_by (real_first (te_h e) (coHasTopology e) (coLabel e)) (map fst (coMap e))"

definition coColor :: "env \<Rightarrow> string \<Rightarrow> jsval" where
  "coColor e co =
     jor (jget (jor (s_companyColors (te_st e)) (JObj [])) co)
       (if co = UNASSIGNED_CO then Null
        else (case map_of (coDefaultColorMap (te_h e) (filter (\<lambda>c. c \<noteq> UNASSIGNED_CO) (companies e)) (coHasTopology e)) co of
                Some c \<Rightarrow> JStr c | None \<Rightarrow> Undef))"

definition focused :: "env \<Rightarrow> string option" where
  "focused e = (case focusCo e of Some f \<Rightarrow> if f \<in> set (companies e) then Some f else None | None \<Rightarrow> None)"

definition shown_cos :: "env \<Rightarrow> string list" where
  "shown_cos e = (case focused e of Some f \<Rightarrow> [f] | None \<Rightarrow> companies e)"

definition sorted_fas :: "env \<Rightarrow> string \<Rightarrow> string list" where
  "sorted_fas e co = sort_by (\<lambda>a b. collate (te_h e) (faLabel e a) (faLabel e b)) (map fst (facs_of e co))"

section \<open>Rows\<close>

definition expandable :: "env \<Rightarrow> device \<Rightarrow> bool" where
  "expandable e s =
     (if isFT (d_type s) then m_nodes (d_meta s) \<noteq> []
      else m_vmList (d_meta s) \<noteq> [] \<or> typeRows (te_loc e) (te_th e) (te_l e) s \<noteq> None)"

definition fullDevH :: "env \<Rightarrow> device \<Rightarrow> rat" where
  "fullDevH e s =
     (if isFT (d_type s) \<and> d_type s \<noteq> END then dm_h XD
      else if d_type s = END then
        (let maxCol = foldl max 1 (concat (map (\<lambda>g. map length (snd g)) (ef_groups (enduFlow s))))
         in max (dm_h XD) (186 + of_nat maxCol * 54))
      else (case typeRows (te_loc e) (te_th e) (te_l e) s of
              Some rows \<Rightarrow> max (dm_h XD) (92 + of_nat (length rows) * 20)
            | None \<Rightarrow> dm_h XD))"

definition vgColOf :: "env \<Rightarrow> device \<Rightarrow> string \<Rightarrow> bool" where
  "vgColOf e s nm \<longleftrightarrow> jget (col_map e) (''vg:'' @ d_id s @ '':'' @ nm) = JBool True"

definition branchOpenOf :: "env \<Rightarrow> device \<Rightarrow> bool" where
  "branchOpenOf e s \<longleftrightarrow> jget (col_map e) (''topo:'' @ d_id s) \<noteq> JBool True"

definition realMainH :: "env \<Rightarrow> device \<Rightarrow> rat" where
  "realMainH e s = max (dm_h XD) (max (dm_h RE) (snd (realLanes (d_meta s) (vgColOf e s))))"

definition xRowH :: "env \<Rightarrow> device \<Rightarrow> rat" where
  "xRowH e s =
     (let m = d_meta s in
      if d_type s = END then fullDevH e s
      else if \<not> isFT (d_type s) then max (fullDevH e s) (bk_h (vmBlock (length (m_vmList m))))
      else if topoOf s \<noteq> None \<and> \<not> branchOpenOf e s then dm_h XD
      else if topoOf s \<noteq> None then realMainH e s
      else (let nodesH = stackH (length (take 2 (m_nodes m))) (dm_h XN) (dm_gy XN) in
            if isColNd e s then max (dm_h XD) nodesH
            else max (dm_h XD) (max nodesH (max (dm_h XE) (bk_h (vmBlock (length (m_vmList m))))))))"

definition lane_right :: "lane \<Rightarrow> rat \<Rightarrow> rat" where
  "lane_right l r =
     (if ln_vms l \<noteq> [] \<and> \<not> ln_collapsed l then max r (dm_x RV + bk_w (ln_blk l))
      else if ln_vms l \<noteq> [] then max r (dm_x RG + dm_w RG) else r)"

definition xRowW :: "env \<Rightarrow> device \<Rightarrow> rat" where
  "xRowW e s =
     (let m = d_meta s; vb = vmBlock (length (m_vmList m)) in
      if d_type s = END then dm_w ENDU
      else if \<not> isFT (d_type s) then dm_x XN + bk_w vb
      else if topoOf s \<noteq> None \<and> \<not> branchOpenOf e s then dm_w XD
      else if topoOf s \<noteq> None then foldl (\<lambda>r l. lane_right l r) (dm_x RN + dm_w RN) (fst (realLanes m (vgColOf e s)))
      else if isColNd e s then dm_x XN + dm_w XN
      else if bk_cols vb \<noteq> 0 then dm_x XV + bk_w vb else dm_x XE + dm_w XE)"

record grid_block =
  gb_rowsPerCol :: nat
  gb_cols :: nat
  gb_w :: rat
  gb_h :: rat
  gb_cells :: "(device \<times> nat \<times> nat) list"

definition ceil_div :: "nat \<Rightarrow> nat \<Rightarrow> nat" where
  "ceil_div n d = (n + d - 1) div d"

definition gridBlock :: "device list \<Rightarrow> nat \<Rightarrow> grid_block" where
  "gridBlock items D =
     (let n = length items in
      if n = 0 then \<lparr>gb_rowsPerCol = 0, gb_cols = 0, gb_w = 0, gb_h = 0, gb_cells = []\<rparr>
      else (let rpc = max 1 (ceil_div n D); cols = max 1 (ceil_div n rpc)
        in \<lparr>gb_rowsPerCol = rpc, gb_cols = cols,
            gb_w = of_nat cols * dm_w CARDD + (of_nat cols - 1) * dm_gx CARDD,
            gb_h = of_nat rpc * dm_h CARDD + (of_nat rpc - 1) * dm_gy CARDD,
            gb_cells = map (\<lambda>p. (snd p, fst p div rpc, fst p mod rpc)) (enumerate 0 items)\<rparr>))"

datatype row_kind = GridRow grid_block | FullRow device

record prow =
  pr_kind :: row_kind
  pr_h :: rat
  pr_y :: rat

fun is_full :: "row_kind \<Rightarrow> bool" where
  "is_full (FullRow s) = True"
| "is_full (GridRow b) = False"

definition flush :: "nat \<Rightarrow> device list \<Rightarrow> (row_kind \<times> rat) list" where
  "flush D batch = (if batch = [] then [] else [(GridRow (gridBlock batch D), gb_h (gridBlock batch D))])"

fun batch_rows :: "env \<Rightarrow> nat \<Rightarrow> device list \<Rightarrow> device list \<Rightarrow> (row_kind \<times> rat) list" where
  "batch_rows e D batch [] = flush D batch"
| "batch_rows e D batch (s # ss) =
     (if expandable e s then flush D batch @ (FullRow s, xRowH e s) # batch_rows e D [] ss
      else batch_rows e D (batch @ [s]) ss)"

definition band_rows :: "env \<Rightarrow> nat \<Rightarrow> device list \<Rightarrow> (row_kind \<times> rat) list" where
  "band_rows e D devs =
     (let rows = batch_rows e D [] devs in
      if rows = [] then [(GridRow (gridBlock [] D), dm_h FA)] else rows)"

text \<open>The rows of a band from \<open>y\<close> on; the gap to the row before depends on both rows.\<close>

definition row_gap :: "row_kind \<Rightarrow> row_kind \<Rightarrow> rat" where
  "row_gap p r = (if is_full r \<or> is_full p then ROW_GAP_FULL else dm_gy CARDD)"

fun lay_rows :: "rat \<Rightarrow> row_kind option \<Rightarrow> (row_kind \<times> rat) list \<Rightarrow> prow list \<times> rat" where
  "lay_rows y prev [] = ([], y)"
| "lay_rows y prev ((k, hh) # rs) =
     (let y1 = (case prev of None \<Rightarrow> y | Some p \<Rightarrow> y + row_gap p k); rest = lay_rows (y1 + hh) (Some k) rs
      in (\<lparr>pr_kind = k, pr_h = hh, pr_y = y1\<rparr> # fst rest, snd rest))"

fun row_w :: "env \<Rightarrow> row_kind \<Rightarrow> rat" where
  "row_w e (FullRow s) = xRowW e s"
| "row_w e (GridRow b) = gb_w b"

section \<open>Bands, blocks and columns\<close>

record band =
  bd_fa :: string
  bd_top :: rat
  bd_h :: rat
  bd_rows :: "prow list"

record plan =
  pl_co :: string
  pl_h :: rat
  pl_collapsed :: bool
  pl_bands :: "band list"
  pl_w :: rat

fun lay_bands :: "env \<Rightarrow> string \<Rightarrow> nat \<Rightarrow> bool \<Rightarrow> rat \<Rightarrow> string list \<Rightarrow> band list \<times> rat" where
  "lay_bands e co D first y [] = ([], y)"
| "lay_bands e co D first y (fa # fas) =
     (let top = (if first then y else y + BAND_GAP);
          rl = (if isColFa e co fa then ([], top + dm_h FA) else lay_rows top None (band_rows e D (devs_of e co fa)));
          rest = lay_bands e co D False (snd rl) fas
      in (\<lparr>bd_fa = fa, bd_top = top, bd_h = snd rl - top, bd_rows = fst rl\<rparr> # fst rest, snd rest))"

definition band_w :: "env \<Rightarrow> band list \<Rightarrow> rat" where
  "band_w e bs = foldl max (dm_w CARDD) (map (\<lambda>r. row_w e (pr_kind r)) (concat (map bd_rows bs)))"

definition planCompany :: "env \<Rightarrow> string \<Rightarrow> nat \<Rightarrow> plan" where
  "planCompany e co D =
     (if isColCo e co
      then \<lparr>pl_co = co, pl_h = dm_h CO, pl_collapsed = True, pl_bands = [], pl_w = GRID_X + dm_w CARDD\<rparr>
      else (let b = lay_bands e co D True 0 (sorted_fas e co)
            in \<lparr>pl_co = co, pl_h = snd b, pl_collapsed = False, pl_bands = fst b, pl_w = GRID_X + band_w e (fst b)\<rparr>))"

record placed =
  pc_co :: string
  pc_collapsed :: bool
  pc_top :: rat
  pc_h :: rat
  pc_xOff :: rat
  pc_bands :: "band list"

definition offsetCompany :: "plan \<Rightarrow> rat \<Rightarrow> rat \<Rightarrow> placed" where
  "offsetCompany p dy xOff =
     \<lparr>pc_co = pl_co p, pc_collapsed = pl_collapsed p, pc_top = dy, pc_h = pl_h p, pc_xOff = xOff,
      pc_bands = map (\<lambda>b. b\<lparr>bd_top := bd_top b + dy, bd_rows := map (\<lambda>r. r\<lparr>pr_y := pr_y r + dy\<rparr>) (bd_rows b)\<rparr>) (pl_bands p)\<rparr>"

text \<open>Filling the columns: the columns that are full, the open one and its height.\<close>

definition col_step :: "nat \<Rightarrow> rat option \<Rightarrow> plan list list \<times> plan list \<times> rat \<Rightarrow> plan \<Rightarrow> plan list list \<times> plan list \<times> rat" where
  "col_step C target a p =
     (case a of (full, cur, hh) \<Rightarrow>
        let addH = (if cur \<noteq> [] then CO_GAP + pl_h p else pl_h p) in
        if cur \<noteq> [] \<and> length full + 1 < C \<and> (case target of None \<Rightarrow> False | Some t \<Rightarrow> t < hh + addH)
        then (full @ [cur], [p], pl_h p)
        else (full, cur @ [p], hh + addH))"

definition columns :: "nat \<Rightarrow> plan list \<Rightarrow> plan list list" where
  "columns C plans =
     (let totalH = sum_list (map pl_h plans) + CO_GAP * (if plans = [] then 0 else of_nat (length plans) - 1);
          target = (if 1 < C then Some (round64 (totalH / of_nat C)) else None)
      in case foldl (col_step C target) ([], [], 0) plans of (full, cur, _) \<Rightarrow> full @ [cur])"

fun lay_column :: "rat \<Rightarrow> bool \<Rightarrow> rat \<Rightarrow> plan list \<Rightarrow> placed list \<times> rat" where
  "lay_column x first y [] = ([], y)"
| "lay_column x first y (p # ps) =
     (let y1 = (if first then y else y + CO_GAP); rest = lay_column x False (y1 + pl_h p) ps
      in (offsetCompany p y1 x # fst rest, snd rest))"

definition col_w :: "plan list \<Rightarrow> rat" where
  "col_w ps = (if ps = [] then GRID_X + dm_w CARDD else Max (set (map pl_w ps)))"

fun lay_columns :: "rat \<Rightarrow> rat \<Rightarrow> plan list list \<Rightarrow> placed list \<times> rat \<times> rat" where
  "lay_columns x maxH [] = ([], x, maxH)"
| "lay_columns x maxH (c # cs) =
     (let l = lay_column x True PAD c; rest = lay_columns (x + (col_w c + CANVAS_COL_GAP)) (max maxH (snd l + PAD)) cs
      in (fst l @ fst rest, snd rest))"

record packing =
  pk_cos :: "placed list"
  pk_w :: rat
  pk_h :: rat
  pk_colsUsed :: nat

definition packFor :: "env \<Rightarrow> nat \<Rightarrow> nat \<Rightarrow> packing" where
  "packFor e D C =
     (let cols = columns C (map (\<lambda>co. planCompany e co D) (shown_cos e)) in
      case lay_columns 0 0 cols of (laid, x, maxH) \<Rightarrow>
        \<lparr>pk_cos = laid, pk_w = (if cols \<noteq> [] then x - CANVAS_COL_GAP else 0) + PAD, pk_h = maxH, pk_colsUsed = length cols\<rparr>)"

section \<open>The search for the columns\<close>

record cand =
  cd_fit :: rat
  cd_pl :: packing
  cd_D :: nat
  cd_C :: nat

definition REF_W :: rat where "REF_W = 926"
definition REF_H :: rat where "REF_H = 618"

definition RATIO_TOL :: "env \<Rightarrow> rat" where
  "RATIO_TOL e = te_log e (round64 (round64 (26 / 10) / TARGET_RATIO))"

definition ratio_dev :: "env \<Rightarrow> packing \<Rightarrow> rat" where
  "ratio_dev e p = \<bar>te_log e (round64 (round64 (pk_w p / max 1 (pk_h p)) / TARGET_RATIO))\<bar>"

definition fit_of :: "packing \<Rightarrow> rat" where
  "fit_of p = min (round64 (REF_W / pk_w p)) (round64 (REF_H / pk_h p))"

definition better :: "rat \<Rightarrow> cand option \<Rightarrow> bool" where
  "better f c \<longleftrightarrow> (case c of None \<Rightarrow> True | Some b \<Rightarrow> cd_fit b < f)"

definition try_pack :: "env \<Rightarrow> cand option \<times> cand option \<Rightarrow> nat \<times> nat \<Rightarrow> cand option \<times> cand option" where
  "try_pack e bf dc =
     (let D = fst dc; C = snd dc; p = packFor e D C in
      if pk_colsUsed p < C then bf
      else (let f = fit_of p; c = Some \<lparr>cd_fit = f, cd_pl = p, cd_D = D, cd_C = C\<rparr>
        in (if ratio_dev e p \<le> RATIO_TOL e \<and> better f (fst bf) then c else fst bf,
            if better f (snd bf) then c else snd bf)))"

definition search_space :: "(nat \<times> nat) list" where
  "search_space = concat (map (\<lambda>D. map (\<lambda>C. (D, C)) [1..<Suc MAX_C]) [1..<Suc MAX_D])"

definition best_plan :: "env \<Rightarrow> cand option" where
  "best_plan e = (case foldl (try_pack e) (None, None) search_space of (b, f) \<Rightarrow> if b = None then f else b)"

end
