(* ===== verification/TopoDraw.thy ===== *)
theory TopoDraw
  imports TopoPlan
begin

text \<open>
  The drawing pass of \<open>buildTopo\<close> in \<open>src/web/js/model/compute/topo.js\<close>: the cards and the lines of the topology, the
  summary beside it, and the colour list of the settings screen. \<open>boxes.push\<close> and \<open>links.push\<close> append to two arrays;
  here a drawing step returns what it pushes, in order, as a list of strokes, and \<open>buildTopo\<close> splits them.
  The horizontal offset of a company, a variable of the source that every push adds, is added by \<open>shift\<close>.
\<close>

section \<open>Cards\<close>

record device_card =
  dc_compact :: bool
  dc_alertN :: rat
  dc_alertCrit :: "rat option"
  dc_alertWarn :: "rat option"
  dc_alertTone :: string
  dc_maintWin :: bool
  dc_maintNote :: string
  dc_label :: string
  dc_typeIcon :: string
  dc_typeLabel :: string
  dc_mgmt :: string
  dc_company :: string
  dc_code :: string
  dc_floorPos :: string
  dc_statusLabel :: string
  dc_tone :: string
  dc_anim :: string
  dc_version :: string
  dc_isFT :: bool
  dc_enduFlow :: "endu_flow option"
  dc_ftType :: bool
  dc_rows :: "topo_row list option"
  dc_lic :: lic_info
  dc_cpu :: usage
  dc_mem :: usage
  dc_vmLabel :: "string option"
  dc_syncLabel :: string
  dc_syncTone :: string
  dc_collapsible :: bool
  dc_collapsed :: bool

record node_card =
  nc_name :: string
  nc_role :: string
  nc_roleTone :: string
  nc_maint :: bool
  nc_ip :: jsval
  nc_cpu :: jsval
  nc_mem :: jsval
  nc_cpuTone :: string
  nc_memTone :: string
  nc_tone :: string
  nc_stateLabel :: string
  nc_anim :: string
  nc_collapsible :: bool
  nc_collapsed :: bool

record vm_card =
  vc_name :: jsval
  vc_ip :: string
  vc_ipIsAddress :: bool
  vc_ftL :: string
  vc_node :: string
  vc_title :: string
  vc_state :: jsval
  vc_tone :: string

datatype card =
    CompanyCard string string jsval bool bool \<comment> \<open>label, tone, color, focused, collapsed\<close>
  | FactoryCard string string nat jsval bool \<comment> \<open>label, tone, count, color, collapsed\<close>
  | DeviceCard device_card
  | EacCard string bool string \<comment> \<open>mgmt, ok, okLabel\<close>
  | NodeCard node_card
  | VmGroupCard nat nat string string bool \<comment> \<open>count, running, node, tone, collapsed\<close>
  | VmCard vm_card

record box =
  bx_id :: string
  bx_key :: string
  bx_deviceId :: string
  bx_x :: rat
  bx_y :: rat
  bx_w :: rat
  bx_h :: rat
  bx_card :: card

definition mk_box :: "string \<Rightarrow> string \<Rightarrow> string \<Rightarrow> rat \<Rightarrow> rat \<Rightarrow> rat \<Rightarrow> rat \<Rightarrow> card \<Rightarrow> box" where
  "mk_box i k d x y w hh c = \<lparr>bx_id = i, bx_key = k, bx_deviceId = d, bx_x = x, bx_y = y, bx_w = w, bx_h = hh, bx_card = c\<rparr>"

datatype stroke = SBox box | SLine "point list" dev_status jsval

definition shift :: "rat \<Rightarrow> stroke \<Rightarrow> stroke" where
  "shift xOff s = (case s of SBox b \<Rightarrow> SBox (b\<lparr>bx_x := r1 (bx_x b + xOff)\<rparr>)
     | SLine pts st c \<Rightarrow> SLine (map (\<lambda>p. (fst p + xOff, snd p)) pts) st c)"

definition hLink :: "rat \<Rightarrow> rat \<Rightarrow> rat \<Rightarrow> rat \<Rightarrow> dev_status \<Rightarrow> jsval \<Rightarrow> stroke" where
  "hLink x1 y1 x2 y2 st c = (let mx = x1 + (x2 - x1) / 2 in SLine [(x1, y1), (mx, y1), (mx, y2), (x2, y2)] st c)"

record topo_link =
  lk_id :: string
  lk_path :: string
  lk_mid :: point
  lk_tone :: string
  lk_companyColor :: jsval
  lk_dashed :: bool
  lk_packet :: bool
  lk_begin :: string

definition mk_link :: "nat \<Rightarrow> point list \<Rightarrow> dev_status \<Rightarrow> jsval \<Rightarrow> topo_link" where
  "mk_link i pts st c =
     (let m = polyMid pts in
      \<lparr>lk_id = ''lk'' @ int_str (int i), lk_path = orthPath pts 12, lk_mid = (r1 (fst m), r1 (snd m)),
       lk_tone = statusTone st, lk_companyColor = jor c Null, lk_dashed = (st = Down), lk_packet = (st = Deg),
       lk_begin = to_fixed 2 (- (of_nat (i mod 5) / 2))\<rparr>)"

fun boxes_of :: "stroke list \<Rightarrow> box list" where
  "boxes_of [] = []"
| "boxes_of (SBox b # ss) = b # boxes_of ss"
| "boxes_of (SLine p st c # ss) = boxes_of ss"

fun links_from :: "nat \<Rightarrow> stroke list \<Rightarrow> topo_link list" where
  "links_from i [] = []"
| "links_from i (SBox b # ss) = links_from i ss"
| "links_from i (SLine p st c # ss) = mk_link i p st c # links_from (Suc i) ss"

section \<open>Devices\<close>

definition rel_label :: "lfun \<Rightarrow> device \<Rightarrow> string" where
  "rel_label l s =
     (if isFT (d_type s)
      then (case d_sync s of Sync \<Rightarrow> l ''in sync'' ''donggihwa'' | Simplex \<Rightarrow> l ''simplex'' ''simpeullekseu''
            | Offline \<Rightarrow> l ''offline'' ''opeurain'')
      else if d_status s = Down then l ''offline'' ''opeurain'' else l ''online'' ''onrain'')"

definition device_card_of :: "env \<Rightarrow> device \<Rightarrow> bool \<Rightarrow> device_card" where
  "device_card_of e s full =
     (let m = d_meta s; l = te_l e; ti = typeInfo (d_type s) l; ftDev = isFT (d_type s);
          cu = usageOf (te_th e) s ''cpu''; mu = usageOf (te_th e) s ''mem'';
          rowsAll = (if ftDev \<and> d_type s \<noteq> END then None else typeRows (te_loc e) (te_th e) l s);
          compact = (\<not> full);
          keyRow = (case rowsAll of None \<Rightarrow> None
                    | Some rs \<Rightarrow> Some [case find (\<lambda>r. tw_tone r \<noteq> [] \<and> tw_tone r \<noteq> ''mut'') rs of Some r \<Rightarrow> r | None \<Rightarrow> hd rs]);
          t = devAlertTally e s
      in \<lparr>dc_compact = compact, dc_alertN = ty_n t, dc_alertCrit = ty_crit t, dc_alertWarn = ty_warn t,
          dc_alertTone = (if 0 < zero_null (ty_crit t) then ''neg'' else ''warn''),
          dc_maintWin = ty_maintWin t,
          dc_maintNote = (if ty_maintWin t
             then str_or (jget (case map_of (maint_map e) (d_id s) of Some w \<Rightarrow> jor w (JObj []) | None \<Rightarrow> JObj []) ''note'') else []),
          dc_label = dev_name s, dc_typeIcon = ti_icon ti, dc_typeLabel = sor (ti_short ti) (ti_label ti), dc_mgmt = m_mgmt m,
          dc_company = m_company m, dc_code = deviceCode (JStr (dev_name s)) (JStr (m_company m)),
          dc_floorPos = m_floorPos m, dc_statusLabel = statusLabel (d_status s) l, dc_tone = statusTone (d_status s),
          dc_anim = statusAnim (d_status s),
          dc_version = (if m_version m \<noteq> [] then m_version m
             else if truthy (m_unit m) then str_or (jget (m_unit m) ''version'') else []),
          dc_isFT = (if compact then False else ftDev \<and> d_type s \<noteq> END),
          dc_enduFlow = (if \<not> compact \<and> d_type s = END then Some (enduFlow s) else None),
          dc_ftType = ftDev,
          dc_rows = (if compact then (if us_na cu \<and> us_na mu then keyRow else None) else rowsAll),
          dc_lic = licInfo (te_h e) l (m_license m), dc_cpu = cu, dc_mem = mu,
          dc_vmLabel = (if m_vms m \<noteq> 0 then Some (num_str (Fin (m_vmRunning m)) @ ''/'' @ num_str (Fin (m_vms m))) else None),
          dc_syncLabel = rel_label l s,
          dc_syncTone = (if (if ftDev then d_sync s = Sync else d_status s \<noteq> Down) then ''pos''
             else if d_sync s = Simplex then ''warn'' else ''neg''),
          dc_collapsible = (\<not> compact \<and> ftDev \<and> topoOf s \<noteq> None), dc_collapsed = (\<not> branchOpenOf e s)\<rparr>)"

definition pushDevice :: "env \<Rightarrow> device \<Rightarrow> rat \<Rightarrow> rat \<Rightarrow> bool \<Rightarrow> rat \<Rightarrow> stroke" where
  "pushDevice e s x y full hO =
     SBox (mk_box (d_id s) (''topo:'' @ d_id s) (d_id s) x y
       (if \<not> full then dm_w CARDD else if d_type s = END then dm_w ENDU else dm_w XD)
       (if \<not> full then dm_h CARDD else if hO \<noteq> 0 then hO else dm_h XD) (DeviceCard (device_card_of e s full)))"

definition snmp_at :: "dev_meta \<Rightarrow> nat \<Rightarrow> jsval" where
  "snmp_at m i = (if i < length (m_snmp m) then m_snmp m ! i else Undef)"

definition snmp_num :: "dev_meta \<Rightarrow> nat \<Rightarrow> string \<Rightarrow> jsval" where
  "snmp_num m i f = (let sn = snmp_at m i in if truthy sn \<and> \<not> nullish (jget sn f) then jget sn f else Null)"

definition node_tone :: "jsval \<Rightarrow> dev_status" where
  "node_tone n = (if nodeMaint n then Deg else nodeStatus n)"

definition node_card_of :: "env \<Rightarrow> device \<Rightarrow> jsval \<Rightarrow> nat \<Rightarrow> bool \<Rightarrow> bool \<Rightarrow> node_card" where
  "node_card_of e s n i collapsible collapsed =
     (let l = te_l e; m = d_meta s; sn = snmp_at m i in
      \<lparr>nc_name = node_name n i,
       nc_role = (if jget n ''primary'' = JBool True then l ''PRIMARY'' ''ju nodeu''
                  else if jget n ''primary'' = JBool False then l ''STANDBY'' ''bojo nodeu'' else []),
       nc_roleTone = (if jget n ''primary'' = JBool True then ''pos'' else ''mut''),
       nc_maint = nodeMaint n,
       nc_ip = (if truthy sn \<and> truthy (jget sn ''ip'') then jget sn ''ip'' else jor (jget n ''ip'') (JStr [])),
       nc_cpu = snmp_num m i ''cpu'', nc_mem = snmp_num m i ''mem'',
       nc_cpuTone = pct_tone (te_th e) (and_get sn ''cpu''), nc_memTone = pct_tone (te_th e) (and_get sn ''mem''),
       nc_tone = statusTone (node_tone n),
       nc_stateLabel = (if nodeMaint n then l ''Maintenance'' ''jeomgeom jung'' else statusLabel (nodeStatus n) l),
       nc_anim = statusAnim (node_tone n), nc_collapsible = collapsible, nc_collapsed = collapsed\<rparr>)"

section \<open>The branch of a cluster with topology data\<close>

definition eacOk :: "device \<Rightarrow> bool" where
  "eacOk s \<longleftrightarrow> d_status s \<noteq> Down \<and> \<not> truthy (m_error (d_meta s))"

definition eac_card :: "env \<Rightarrow> device \<Rightarrow> card" where
  "eac_card e s = EacCard (m_mgmt (d_meta s)) (eacOk s)
     (if eacOk s then te_l e ''Connected'' ''jeongsang yeongyeol'' else te_l e ''No response'' ''eungdap eopseum'')"

definition vm_run :: "jsval \<Rightarrow> bool" where "vm_run v \<longleftrightarrow> rx_run_ci (jget v ''state'')"

definition vm_state :: "jsval \<Rightarrow> dev_status" where
  "vm_state v = (if vm_run v then Op else if truthy (jget v ''state'') then Deg else Down)"

definition ft_label :: "jsval \<Rightarrow> string" where
  "ft_label v = (let fr = lower (str_or (jget v ''ft'')) in if fr = ''ft'' then ''FT'' else if fr = ''ha'' then ''HA'' else [])"

definition vm_state_text :: "env \<Rightarrow> jsval \<Rightarrow> jsval" where
  "vm_state_text e v = (if vm_run v then JStr (te_l e ''Running'' ''silhaeng jung'') else jor (jget v ''state'') (JStr DASH))"

definition lane_vm_card :: "env \<Rightarrow> jsval \<Rightarrow> vm_card" where
  "lane_vm_card e v =
     (let l = te_l e; ip = trim (str_or (jget v ''ip'')); standby = jjoin ''.'' (arr_of (jget v ''standbyNodes'')) in
      \<lparr>vc_name = jor (jget v ''name'') (JStr ''VM''),
       vc_ip = sor ip (join '' . '' (filter (\<lambda>x. x \<noteq> [])
         [if truthy (jget v ''cpus'') then to_str (jget v ''cpus'') @ '' vCPU'' else [], str_or (jget v ''memory'')])),
       vc_ipIsAddress = (ip \<noteq> []), vc_ftL = ft_label v, vc_node = str_or (jget v ''node''),
       vc_title = to_str (jor (jget v ''name'') (JStr ''VM''))
         @ (if truthy (jget v ''node'') then '' . '' @ l ''on '' ''baechi '' @ to_str (jget v ''node'') else [])
         @ (if standby \<noteq> [] then '' . '' @ l ''standby '' ''daegi '' @ standby else []),
       vc_state = vm_state_text e v, vc_tone = statusTone (vm_state v)\<rparr>)"

definition groupWorst :: "jsval list \<Rightarrow> dev_status" where
  "groupWorst vms = (if list_ex (\<lambda>v. \<not> truthy (jget v ''state'')) vms then Down else if list_all vm_run vms then Op else Deg)"

definition draw_lane_vm :: "env \<Rightarrow> device \<Rightarrow> jsval \<Rightarrow> dev_status \<Rightarrow> rat \<Rightarrow> rat \<Rightarrow> nat \<times> jsval \<Rightarrow> stroke list" where
  "draw_lane_vm e s cc st grpCy vTop p =
     (let v = snd p; vx = GRID_X + dm_x RV; vy = vTop + of_nat (fst p) * (dm_h RV + dm_gy RV)
      in [SBox (mk_box (d_id s @ '':vm:'' @ to_str (jget v ''name'')) [] (d_id s) (r1 vx) (r1 vy) (dm_w RV) (dm_h RV)
            (VmCard (lane_vm_card e v))),
          hLink (GRID_X + dm_x RG + dm_w RG) grpCy vx (vy + dm_h RV / 2) (if st = Op then vm_state v else Deg) cc])"

definition lane_cy :: "lane \<times> rat \<Rightarrow> rat" where "lane_cy lt = snd lt + ln_h (fst lt) / 2"

definition lane_node_box :: "env \<Rightarrow> device \<Rightarrow> lane \<times> rat \<Rightarrow> box" where
  "lane_node_box e s lt =
     (let n = ln_node (fst lt); i = ln_i (fst lt) in
      mk_box (d_id s @ '':'' @ node_name n i) [] (d_id s) (GRID_X + dm_x RN) (r1 (lane_cy lt - dm_h RN / 2)) (dm_w RN) (dm_h RN)
        (NodeCard (node_card_of e s n i False False)))"

definition lane_group_box :: "env \<Rightarrow> device \<Rightarrow> lane \<times> rat \<Rightarrow> box" where
  "lane_group_box e s lt =
     (let a = fst lt; n = ln_node a; nm = node_name n (ln_i a); vms = ln_vms a;
          tone = (if \<not> eacOk s then ''neg'' else if nodeStatus n = Op then statusTone (groupWorst vms) else ''warn'')
      in mk_box (d_id s @ '':vg:'' @ nm) (''vg:'' @ d_id s @ '':'' @ nm) (d_id s) (GRID_X + dm_x RG) (r1 (lane_cy lt - dm_h RG / 2))
           (dm_w RG) (dm_h RG) (VmGroupCard (length vms) (length (filter vm_run vms)) nm tone (ln_collapsed a)))"

definition draw_lane :: "env \<Rightarrow> device \<Rightarrow> jsval \<Rightarrow> rat \<Rightarrow> lane \<times> rat \<Rightarrow> stroke list" where
  "draw_lane e s cc bandCy lt =
     (let a = fst lt; st = nodeStatus (ln_node a); cy = lane_cy lt; lst = (if eacOk s then st else Down)
      in SBox (lane_node_box e s lt)
         # hLink (GRID_X + dm_x RE + dm_w RE) bandCy (GRID_X + dm_x RN) cy lst cc
         # (if ln_vms a = [] then []
            else SBox (lane_group_box e s lt) # hLink (GRID_X + dm_x RN + dm_w RN) cy (GRID_X + dm_x RG) cy lst cc
              # (if ln_collapsed a then []
                 else concat (map (draw_lane_vm e s cc st cy (cy - bk_h (ln_blk a) / 2)) (enumerate 0 (ln_vms a))))))"

fun lane_tops :: "rat \<Rightarrow> lane list \<Rightarrow> (lane \<times> rat) list" where
  "lane_tops y [] = []"
| "lane_tops y (a # ls) = (a, y) # lane_tops (y + (ln_h a + LANE_GAP)) ls"

definition pushRealRow :: "env \<Rightarrow> device \<Rightarrow> rat \<Rightarrow> jsval \<Rightarrow> stroke list" where
  "pushRealRow e s bandCy cc =
     (let eacX = GRID_X + dm_x RE; rl = realLanes (d_meta s) (vgColOf e s) in
      [SBox (mk_box (d_id s @ '':eac'') [] (d_id s) eacX (r1 (bandCy - dm_h RE / 2)) (dm_w RE) (dm_h RE) (eac_card e s)),
       SLine [(GRID_X + dm_w XD, bandCy), (eacX, bandCy)] (if eacOk s then Op else Down) cc]
      @ concat (map (draw_lane e s cc bandCy) (lane_tops (bandCy - snd rl / 2) (fst rl))))"

section \<open>The branches of other devices\<close>

definition guest_of :: "env \<Rightarrow> jsval \<Rightarrow> device option" where
  "guest_of e vm = (if truthy (jget vm ''ip'') then find (\<lambda>x. JStr (m_mgmt (d_meta x)) = jget vm ''ip'') (te_fleet e) else None)"

definition guest_state :: "env \<Rightarrow> jsval \<Rightarrow> dev_status" where
  "guest_state e vm = (case guest_of e vm of Some g \<Rightarrow> d_status g
     | None \<Rightarrow> if truthy (jget vm ''state'') then (if rx_test (rlit_ci ''run'') (str_or (jget vm ''state'')) then Op else Down) else Op)"

definition guest_card :: "env \<Rightarrow> jsval \<Rightarrow> vm_card" where
  "guest_card e vm =
     (let l = te_l e; g = guest_of e vm in
      \<lparr>vc_name = (case g of Some x \<Rightarrow> (if dev_name x \<noteq> [] then JStr (dev_name x) else jor (jget vm ''name'') (JStr ''VM''))
                  | None \<Rightarrow> jor (jget vm ''name'') (JStr ''VM'')),
       vc_ip = str_or (jget vm ''ip''), vc_ipIsAddress = False, vc_ftL = [],
       vc_node = (case g of Some x \<Rightarrow> tm_short (TYPES (d_type x))
                  | None \<Rightarrow> if truthy (jget vm ''vcpu'') then to_str (jget vm ''vcpu'') @ '' vCPU'' else []),
       vc_title = [],
       vc_state = JStr (case g of Some x \<Rightarrow> statusLabel (d_status x) l
                  | None \<Rightarrow> if truthy (jget vm ''state'')
                      then (if rx_test (rlit_ci ''run'') (str_or (jget vm ''state'')) then l ''Running'' ''silhaeng jung'' else l ''Stopped'' ''jeongji'')
                      else l ''unmonitored'' ''misujip''),
       vc_tone = statusTone (guest_state e vm)\<rparr>)"

definition draw_guest :: "env \<Rightarrow> device \<Rightarrow> jsval \<Rightarrow> rat \<Rightarrow> rat \<Rightarrow> nat \<times> jsval \<Rightarrow> stroke list" where
  "draw_guest e s cc devCy hTop p =
     (let vm = snd p; vx = GRID_X + dm_x XN; vy = hTop + of_nat (fst p) * (dm_h XV + dm_gy XV)
      in [SBox (mk_box (d_id s @ '':vm:'' @ to_str (jor (jget vm ''ip'') (jget vm ''name''))) []
            (case guest_of e vm of Some g \<Rightarrow> d_id g | None \<Rightarrow> d_id s) (r1 vx) (r1 vy) (dm_w XV) (dm_h XV) (VmCard (guest_card e vm))),
          hLink (GRID_X + dm_w XD) devCy vx (vy + dm_h XV / 2) (guest_state e vm) cc])"

definition plain_vm_card :: "env \<Rightarrow> jsval \<Rightarrow> vm_card" where
  "plain_vm_card e v =
     \<lparr>vc_name = jor (jget v ''name'') (JStr ''VM''), vc_ip = str_or (jget v ''ip''), vc_ipIsAddress = False, vc_ftL = ft_label v,
      vc_node = str_or (jget v ''node''), vc_title = [], vc_state = vm_state_text e v, vc_tone = statusTone (vm_state v)\<rparr>"

definition draw_plain_vm :: "env \<Rightarrow> device \<Rightarrow> jsval \<Rightarrow> rat \<Rightarrow> rat \<Rightarrow> nat \<times> jsval \<Rightarrow> stroke list" where
  "draw_plain_vm e s cc eacCy vTop p =
     (let v = snd p; vx = GRID_X + dm_x XV; vy = vTop + of_nat (fst p) * (dm_h XV + dm_gy XV)
      in [SBox (mk_box (d_id s @ '':vm:'' @ to_str (jget v ''name'')) [] (d_id s) (r1 vx) (r1 vy) (dm_w XV) (dm_h XV)
            (VmCard (plain_vm_card e v))),
          hLink (GRID_X + dm_x XE + dm_w XE) eacCy vx (vy + dm_h XV / 2) (vm_state v) cc])"

definition draw_plain_node :: "env \<Rightarrow> device \<Rightarrow> jsval \<Rightarrow> rat \<Rightarrow> rat \<Rightarrow> nat \<times> jsval \<Rightarrow> stroke list" where
  "draw_plain_node e s cc devCy nTop p =
     (let n = snd p; i = fst p; ny = nTop + of_nat i * (dm_h XN + dm_gy XN); cy = ny + dm_h XN / 2; st = nodeStatus n
      in [SBox (mk_box (d_id s @ '':'' @ node_name n i) (''nd:'' @ d_id s) (d_id s) (GRID_X + dm_x XN) (r1 ny) (dm_w XN) (dm_h XN)
            (NodeCard (node_card_of e s n i True (isColNd e s)))),
          hLink (GRID_X + dm_w XD) devCy (GRID_X + dm_x XN) cy st cc]
         @ (if isColNd e s then [] else [hLink (GRID_X + dm_x XN + dm_w XN) cy (GRID_X + dm_x XE) devCy st cc]))"

definition draw_plain :: "env \<Rightarrow> device \<Rightarrow> rat \<Rightarrow> jsval \<Rightarrow> stroke list" where
  "draw_plain e s devCy cc =
     (let m = d_meta s; rawN = take 2 (m_nodes m); vms = m_vmList m; nodeCol = isColNd e s in
      (if nodeCol then []
       else [SBox (mk_box (d_id s @ '':eac'') [] (d_id s) (GRID_X + dm_x XE) (r1 (devCy - dm_h XE / 2)) (dm_w XE) (dm_h XE) (eac_card e s))])
      @ concat (map (draw_plain_node e s cc devCy (devCy - stackH (length rawN) (dm_h XN) (dm_gy XN) / 2)) (enumerate 0 rawN))
      @ (if nodeCol then []
         else concat (map (draw_plain_vm e s cc devCy (devCy - bk_h (vmBlock (length vms)) / 2)) (enumerate 0 vms))))"

definition draw_full :: "env \<Rightarrow> jsval \<Rightarrow> rat \<Rightarrow> rat \<Rightarrow> rat \<Rightarrow> device \<Rightarrow> stroke list" where
  "draw_full e cc faCy y rh s =
     (let ftDev = isFT (d_type s); dh = fullDevH e s; hasTopo = (ftDev \<and> topoOf s \<noteq> None); realExp = (hasTopo \<and> branchOpenOf e s);
          mainH = (if realExp then realMainH e s else rh); devCy = y + mainH / 2; vms = m_vmList (d_meta s)
      in pushDevice e s GRID_X (r1 (devCy - dh / 2)) True dh # hLink (dm_x FA + dm_w FA) faCy GRID_X devCy (d_status s) cc #
         (if d_type s = END \<or> (hasTopo \<and> \<not> branchOpenOf e s) then []
          else if \<not> ftDev then concat (map (draw_guest e s cc devCy (devCy - bk_h (vmBlock (length vms)) / 2)) (enumerate 0 vms))
          else if realExp then pushRealRow e s devCy cc
          else draw_plain e s devCy cc))"

section \<open>The canvas\<close>

definition draw_cell :: "env \<Rightarrow> jsval \<Rightarrow> rat \<Rightarrow> rat \<Rightarrow> device \<times> nat \<times> nat \<Rightarrow> stroke list" where
  "draw_cell e cc faCy y c =
     (let s = fst c; colX = GRID_X + of_nat (fst (snd c)) * (dm_w CARDD + dm_gx CARDD); spineX = colX - 13;
          cy0 = y + of_nat (snd (snd c)) * (dm_h CARDD + dm_gy CARDD); cy = cy0 + dm_h CARDD / 2
      in [pushDevice e s colX cy0 False 0,
          SLine [(dm_x FA + dm_w FA, faCy), (spineX, faCy), (spineX, cy), (colX, cy)] (d_status s) cc])"

definition draw_row :: "env \<Rightarrow> jsval \<Rightarrow> rat \<Rightarrow> prow \<Rightarrow> stroke list" where
  "draw_row e cc faCy r =
     (case pr_kind r of
        GridRow b \<Rightarrow> concat (map (draw_cell e cc faCy (pr_y r)) (gb_cells b))
      | FullRow s \<Rightarrow> draw_full e cc faCy (pr_y r) (pr_h r) s)"

definition draw_band :: "env \<Rightarrow> string \<Rightarrow> jsval \<Rightarrow> rat \<Rightarrow> band \<Rightarrow> stroke list" where
  "draw_band e co cc coCy b =
     (let fa = bd_fa b; devs = devs_of e co fa; faCy = bd_top b + bd_h b / 2; key = ''fa:'' @ co @ ''/'' @ fa in
      [SBox (mk_box key key [] (dm_x FA) (r1 (faCy - dm_h FA / 2)) (dm_w FA) (dm_h FA)
         (FactoryCard (faLabel e fa) (statusTone (grpWorst devs)) (length devs) cc (isColFa e co fa))),
       hLink (dm_x CO + dm_w CO) coCy (dm_x FA) faCy (grpWorst devs) cc]
      @ concat (map (draw_row e cc faCy) (bd_rows b)))"

definition draw_company :: "env \<Rightarrow> placed \<Rightarrow> stroke list" where
  "draw_company e cp =
     (let co = pc_co cp; cc = coColor e co; coCy = pc_top cp + pc_h cp / 2;
          coWorst = grpWorst (concat (map (devs_of e co) (sorted_fas e co)))
      in SBox (mk_box (''co:'' @ co) (''co:'' @ co) [] (dm_x CO) (r1 (coCy - dm_h CO / 2)) (dm_w CO) (dm_h CO)
           (CompanyCard (coLabel e co) (statusTone coWorst) cc (focusCo e = Some co) (pc_collapsed cp)))
         # concat (map (draw_band e co cc coCy) (pc_bands cp)))"

definition strokes :: "env \<Rightarrow> packing \<Rightarrow> stroke list" where
  "strokes e p = concat (map (\<lambda>cp. map (shift (pc_xOff cp)) (draw_company e cp)) (pk_cos p))"

section \<open>The summary beside the drawing\<close>

definition node_count :: "device \<Rightarrow> nat \<times> nat" where
  "node_count s =
     (let ns = m_nodes (d_meta s); sn = m_snmp (d_meta s) in
      if ns \<noteq> [] then (length ns, length (filter (\<lambda>n. nodeStatus n = Op) ns))
      else (length sn, length (filter (\<lambda>x. truthy (jget x ''reachable'')) sn)))"

record topo_summary =
  ts_nodes :: nat
  ts_healthy :: nat
  ts_attention :: int
  ts_alerts :: rat
  ts_criticals :: rat

definition topo_summary_of :: "env \<Rightarrow> topo_summary" where
  "topo_summary_of e =
     (let nt = sum_list (map (\<lambda>s. fst (node_count s)) (te_fleet e)); nu = sum_list (map (\<lambda>s. snd (node_count s)) (te_fleet e));
          act = filter (\<lambda>s. d_id s \<notin> fst ` set (maint_map e)) (te_fleet e)
      in \<lparr>ts_nodes = nt, ts_healthy = nu, ts_attention = max 0 (int nt - int nu),
          ts_alerts = sum_list (map (\<lambda>s. ty_n (devAlertTally e s)) act),
          ts_criticals = sum_list (map (\<lambda>s. zero_null (ty_crit (devAlertTally e s))) act)\<rparr>)"

record group_line =
  gl_key :: string
  gl_label :: string
  gl_count :: nat
  gl_tone :: string
  gl_statusLabel :: string
  gl_collapsed :: bool

definition group_lines :: "env \<Rightarrow> group_line list" where
  "group_lines e = concat (map (\<lambda>co. map (\<lambda>fa. let gw = grpWorst (devs_of e co fa) in
       \<lparr>gl_key = ''fa:'' @ co @ ''/'' @ fa, gl_label = coLabel e co @ '' . '' @ faLabel e fa, gl_count = length (devs_of e co fa),
        gl_tone = statusTone gw, gl_statusLabel = statusLabel gw (te_l e), gl_collapsed = isColFa e co fa\<rparr>)
     (sorted_fas e co)) (companies e))"

section \<open>The whole model and the colour list\<close>

record topo =
  tp_w :: rat
  tp_h :: rat
  tp_layoutSig :: string
  tp_boxes :: "box list"
  tp_links :: "topo_link list"
  tp_focus :: "string option"
  tp_focusColor :: jsval
  tp_companies :: "(string \<times> jsval \<times> bool) list"
  tp_palette :: "string list"
  tp_legend :: "(string \<times> string \<times> string) list"
  tp_summary :: topo_summary
  tp_pRows :: "group_line list"
  tp_devPlus :: bool
  tp_vgPlus :: bool

fun is_device :: "card \<Rightarrow> bool" where
  "is_device (DeviceCard d) = True"
| "is_device _ = False"

fun has_plus :: "card \<Rightarrow> bool" where
  "has_plus (DeviceCard d) = dc_collapsible d"
| "has_plus _ = False"

fun is_group :: "card \<Rightarrow> bool" where
  "is_group (VmGroupCard a b c d f) = True"
| "is_group _ = False"

definition buildTopo :: "env \<Rightarrow> topo option" where
  "buildTopo e =
     (case best_plan e of
        None \<Rightarrow> None
      | Some b \<Rightarrow>
          (let P = cd_pl b; l = te_l e; ss = strokes e P; bs = boxes_of ss in
           Some \<lparr>tp_w = of_int (rround (pk_w P)), tp_h = of_int (rround (pk_h P)),
             tp_layoutSig = int_str (int (cd_D b)) @ '':'' @ int_str (int (cd_C b)),
             tp_boxes = bs, tp_links = links_from 0 ss,
             tp_focus = map_option (coLabel e) (focused e),
             tp_focusColor = (case focused e of Some f \<Rightarrow> coColor e f | None \<Rightarrow> Null),
             tp_companies = map (\<lambda>co. (coLabel e co, coColor e co, truthy (jget (jor (s_companyColors (te_st e)) (JObj [])) co))) (companies e),
             tp_palette = COMPANY_PALETTE,
             tp_legend = [(''op'', l ''Operational'' ''gadong'', ''pos''), (''deg'', l ''Degraded'' ''jeoha'', ''warn''),
               (''down'', l ''Offline'' ''opeurain'', ''neg'')],
             tp_summary = topo_summary_of e, tp_pRows = group_lines e,
             tp_devPlus = list_ex (\<lambda>b. has_plus (bx_card b)) bs, tp_vgPlus = list_ex (\<lambda>b. is_group (bx_card b)) bs\<rparr>))"

text \<open>\<open>Array.from(new Set(xs))\<close>: the first occurrence of each element.\<close>

fun remdups_first :: "'a list \<Rightarrow> 'a list" where
  "remdups_first [] = []"
| "remdups_first (x # xs) = x # remdups_first (filter (\<lambda>y. y \<noteq> x) xs)"

record color_line =
  cx_name :: string
  cx_color :: jsval
  cx_default :: string
  cx_custom :: bool

definition default_colors :: "host \<Rightarrow> device list \<Rightarrow> (string \<times> string) list" where
  "default_colors h fleet =
     (let names = sort_by (collate h) (remdups_first (filter (\<lambda>c. c \<noteq> []) (map (\<lambda>s. m_company (d_meta s)) fleet)));
          realCos = set (map (\<lambda>s. m_company (d_meta s)) (filter (\<lambda>s. topoOf s \<noteq> None \<and> m_company (d_meta s) \<noteq> []) fleet))
      in coDefaultColorMap h names (\<lambda>co. co \<in> realCos))"

definition buildCompanyColors :: "host \<Rightarrow> app_state \<Rightarrow> device list \<Rightarrow> color_line list" where
  "buildCompanyColors h st fleet =
     (let cc = jor (s_companyColors st) (JObj []);
          names = sort_by (collate h) (remdups_first (filter (\<lambda>c. c \<noteq> []) (map (\<lambda>s. m_company (d_meta s)) fleet)));
          defaults = default_colors h fleet;
          dflt = (\<lambda>co. case map_of defaults co of Some c \<Rightarrow> c | None \<Rightarrow> [])
      in map (\<lambda>co. \<lparr>cx_name = co, cx_color = jor (jget cc co) (JStr (dflt co)), cx_default = dflt co, cx_custom = truthy (jget cc co)\<rparr>) names)"

end
