(* ===== verification/TopoSpace.thy ===== *)
theory TopoSpace
  imports TopoDraw
begin

text \<open>
  Space in the topology drawing: no two cards of \<open>buildTopo\<close> overlap and every card lies on the canvas. Two cards are
  apart when a gap of at least one pixel separates them in one direction. A drawing step with a vertical extent is a
  \<open>stacking\<close>: it draws its cards apart and inside its extent; steps whose extents follow each other may be drawn one
  after the other. The virtual machines, the lanes, the rows and the bands are interpretations of that interface.

  Rounding moves an edge by at most a twentieth of a pixel, which the gaps of the layout absorb.
\<close>

section \<open>Cards that are apart\<close>

definition sep :: "box \<Rightarrow> box \<Rightarrow> bool" where
  "sep b c \<longleftrightarrow> bx_x b + bx_w b + 1 \<le> bx_x c \<or> bx_x c + bx_w c + 1 \<le> bx_x b
     \<or> bx_y b + bx_h b + 1 \<le> bx_y c \<or> bx_y c + bx_h c + 1 \<le> bx_y b"

definition apart :: "box list \<Rightarrow> bool" where "apart bs \<longleftrightarrow> sorted_wrt sep bs"

definition yin :: "rat \<Rightarrow> rat \<Rightarrow> box \<Rightarrow> bool" where
  "yin lo hi b \<longleftrightarrow> lo \<le> bx_y b \<and> bx_y b + bx_h b \<le> hi"

definition xin :: "rat \<Rightarrow> rat \<Rightarrow> box \<Rightarrow> bool" where
  "xin lo hi b \<longleftrightarrow> lo \<le> bx_x b \<and> bx_x b + bx_w b \<le> hi"

lemma apart_simps [simp]:
  "apart []" "apart [b]" "apart (b # bs) \<longleftrightarrow> (\<forall>c \<in> set bs. sep b c) \<and> apart bs"
  "apart (as @ bs) \<longleftrightarrow> apart as \<and> apart bs \<and> (\<forall>a \<in> set as. \<forall>b \<in> set bs. sep a b)"
  by (auto simp: apart_def sorted_wrt_append)

lemma sep_x: "xin a b c \<Longrightarrow> xin a' b' c' \<Longrightarrow> b + 1 \<le> a' \<Longrightarrow> sep c c'"
  by (simp add: xin_def sep_def)

lemma sep_y: "yin a b c \<Longrightarrow> yin a' b' c' \<Longrightarrow> b + 1 \<le> a' \<Longrightarrow> sep c c'"
  by (simp add: yin_def sep_def)

lemma yin_mono: "yin a b c \<Longrightarrow> a' \<le> a \<Longrightarrow> b \<le> b' \<Longrightarrow> yin a' b' c"
  by (simp add: yin_def)

lemma xin_mono: "xin a b c \<Longrightarrow> a' \<le> a \<Longrightarrow> b \<le> b' \<Longrightarrow> xin a' b' c"
  by (simp add: xin_def)

lemma boxes_of_append [simp]: "boxes_of (as @ bs) = boxes_of as @ boxes_of bs"
  by (induction as rule: boxes_of.induct) simp_all

lemma boxes_of_concat [simp]: "boxes_of (concat (map f xs)) = concat (map (\<lambda>x. boxes_of (f x)) xs)"
  by (induction xs) simp_all

lemma boxes_of_hLink [simp]: "boxes_of (hLink a b c d st cc # ss) = boxes_of ss"
  by (simp add: hLink_def Let_def)

lemma mk_box_sel [simp]:
  "bx_x (mk_box i k d x y w hh c) = x" "bx_y (mk_box i k d x y w hh c) = y"
  "bx_w (mk_box i k d x y w hh c) = w" "bx_h (mk_box i k d x y w hh c) = hh"
  "bx_card (mk_box i k d x y w hh c) = c" "bx_deviceId (mk_box i k d x y w hh c) = d" "bx_id (mk_box i k d x y w hh c) = i"
  by (simp_all add: mk_box_def)

lemma r1_bounds: "x - 1 / 20 \<le> r1 x" "r1 x \<le> x + 1 / 20"
  using r1_near [of x] by linarith+

lemma r1_of_int: "r1 (of_int n) = of_int n"
  using r1_half [of "2 * n"] by simp

lemma r1_numeral [simp]: "r1 (numeral n) = numeral n"
  using r1_of_int [of "numeral n"] by simp

lemma yin_r1: "yin (y - 1 / 20) (y + hh + 1 / 20) (mk_box i k d x (r1 y) w hh c)"
  using r1_bounds [of y] by (simp add: yin_def)

lemma sorted_wrt_enumerate:
  assumes "\<And>i j x y. i < j \<Longrightarrow> P (i, x) (j, y)"
  shows "sorted_wrt P (enumerate k xs)"
  using assms by (induction xs arbitrary: k) (auto simp: in_set_enumerate_eq)

lemma in_enumerate: "p \<in> set (enumerate 0 xs) \<Longrightarrow> fst p < length xs"
  by (simp add: in_set_enumerate_eq)

section \<open>Stacks\<close>

locale stacking =
  fixes draw :: "'a \<Rightarrow> box list" and lo hi :: "'a \<Rightarrow> rat" and ok :: "'a \<Rightarrow> bool"
  assumes inside: "ok a \<Longrightarrow> b \<in> set (draw a) \<Longrightarrow> yin (lo a) (hi a) b"
    and alone: "ok a \<Longrightarrow> apart (draw a)"
begin

lemma stack_apart:
  "(\<And>a. a \<in> set xs \<Longrightarrow> ok a) \<Longrightarrow> sorted_wrt (\<lambda>a b. hi a + 1 \<le> lo b) xs \<Longrightarrow> apart (concat (map draw xs))"
proof (induction xs)
  case (Cons x xs)
  have "sep b c" if bc: "b \<in> set (draw x)" "y \<in> set xs" "c \<in> set (draw y)" for b c y
    using inside [of x b] inside [of y c] bc Cons.prems by (auto intro: sep_y)
  then show ?case using Cons alone [of x] by auto
qed simp

lemma stack_inside:
  assumes "\<And>a. a \<in> set xs \<Longrightarrow> ok a" and "\<And>a. a \<in> set xs \<Longrightarrow> y0 \<le> lo a \<and> hi a \<le> y1"
    and "b \<in> set (concat (map draw xs))"
  shows "yin y0 y1 b"
  using assms inside by (force intro: yin_mono)

end

section \<open>The branches of one device\<close>

text \<open>Cards of equal height at equal distances, as the virtual machines and the nodes of a device are.\<close>

definition slot_lo :: "rat \<Rightarrow> rat \<Rightarrow> rat \<Rightarrow> nat \<times> 'a \<Rightarrow> rat" where
  "slot_lo y0 hh gy p = y0 + of_nat (fst p) * (hh + gy) - 1 / 20"

definition slot_hi :: "rat \<Rightarrow> rat \<Rightarrow> rat \<Rightarrow> nat \<times> 'a \<Rightarrow> rat" where
  "slot_hi y0 hh gy p = y0 + of_nat (fst p) * (hh + gy) + hh + 1 / 20"

lemma slots_sorted:
  assumes "2 \<le> gy" "0 \<le> hh"
  shows "sorted_wrt (\<lambda>a b. slot_hi y0 hh gy a + 1 \<le> slot_lo y0 hh gy b) (enumerate k xs)"
proof (rule sorted_wrt_enumerate)
  fix i j :: nat and x y :: 'a
  assume "i < j"
  then have "(of_nat i + 1) * (hh + gy) \<le> of_nat j * (hh + gy)" using assms by (intro mult_right_mono) auto
  then show "slot_hi y0 hh gy (i, x) + 1 \<le> slot_lo y0 hh gy (j, y)" using assms by (simp add: slot_hi_def slot_lo_def algebra_simps)
qed

lemma slots_inside:
  assumes "p \<in> set (enumerate 0 xs)" "0 \<le> hh" "0 \<le> gy"
  shows "y0 - 1 / 20 \<le> slot_lo y0 hh gy p \<and> slot_hi y0 hh gy p \<le> y0 + stackH (length xs) hh gy + 1 / 20"
proof -
  have i: "fst p < length xs" using assms(1) by (rule in_enumerate)
  then have "(of_nat (fst p) + 1) * (hh + gy) \<le> of_nat (length xs) * (hh + gy)" using assms by (intro mult_right_mono) auto
  moreover have "0 \<le> of_nat (fst p) * (hh + gy)" using assms by simp
  ultimately show ?thesis using i by (auto simp: slot_lo_def slot_hi_def stackH_def algebra_simps)
qed

lemma slot_yin: "yin (slot_lo y0 hh gy p) (slot_hi y0 hh gy p) (mk_box i k d x (r1 (y0 + of_nat (fst p) * (hh + gy))) w hh c)"
  using yin_r1 [of "y0 + of_nat (fst p) * (hh + gy)"] by (simp add: slot_lo_def slot_hi_def)

lemma slot_box:
  "boxes_of (draw_lane_vm e s cc st cy vT p) =
     [mk_box (d_id s @ '':vm:'' @ to_str (jget (snd p) ''name'')) [] (d_id s) 1198 (r1 (vT + of_nat (fst p) * (dm_h RV + dm_gy RV)))
        (dm_w RV) (dm_h RV) (VmCard (lane_vm_card e (snd p)))]"
  "boxes_of (draw_guest e s cc cy vT p) =
     [mk_box (d_id s @ '':vm:'' @ to_str (jor (jget (snd p) ''ip'') (jget (snd p) ''name''))) []
        (case guest_of e (snd p) of Some g \<Rightarrow> d_id g | None \<Rightarrow> d_id s) 746 (r1 (vT + of_nat (fst p) * (dm_h XV + dm_gy XV)))
        (dm_w XV) (dm_h XV) (VmCard (guest_card e (snd p)))]"
  "boxes_of (draw_plain_vm e s cc cy vT p) =
     [mk_box (d_id s @ '':vm:'' @ to_str (jget (snd p) ''name'')) [] (d_id s) 1176 (r1 (vT + of_nat (fst p) * (dm_h XV + dm_gy XV)))
        (dm_w XV) (dm_h XV) (VmCard (plain_vm_card e (snd p)))]"
  "boxes_of (draw_plain_node e s cc cy vT p) =
     [mk_box (d_id s @ '':'' @ node_name (snd p) (fst p)) (''nd:'' @ d_id s) (d_id s) 746 (r1 (vT + of_nat (fst p) * (dm_h XN + dm_gy XN)))
        (dm_w XN) (dm_h XN) (NodeCard (node_card_of e s (snd p) (fst p) True (isColNd e s)))]"
  by (simp_all add: draw_lane_vm_def draw_guest_def draw_plain_vm_def draw_plain_node_def Let_def GRID_X_def RV_def XN_def XV_def mk_dims_def)

interpretation lane_vms: stacking "\<lambda>p. boxes_of (draw_lane_vm e s cc st cy vT p)"
    "slot_lo vT (dm_h RV) (dm_gy RV)" "slot_hi vT (dm_h RV) (dm_gy RV)" "\<lambda>p. True" for e s cc st cy vT
  by unfold_locales (auto simp: slot_box intro: slot_yin)

interpretation guests: stacking "\<lambda>p. boxes_of (draw_guest e s cc cy vT p)"
    "slot_lo vT (dm_h XV) (dm_gy XV)" "slot_hi vT (dm_h XV) (dm_gy XV)" "\<lambda>p. True" for e s cc cy vT
  by unfold_locales (auto simp: slot_box intro: slot_yin)

interpretation plain_vms: stacking "\<lambda>p. boxes_of (draw_plain_vm e s cc cy vT p)"
    "slot_lo vT (dm_h XV) (dm_gy XV)" "slot_hi vT (dm_h XV) (dm_gy XV)" "\<lambda>p. True" for e s cc cy vT
  by unfold_locales (auto simp: slot_box intro: slot_yin)

interpretation plain_nodes: stacking "\<lambda>p. boxes_of (draw_plain_node e s cc cy vT p)"
    "slot_lo vT (dm_h XN) (dm_gy XN)" "slot_hi vT (dm_h XN) (dm_gy XN)" "\<lambda>p. True" for e s cc cy vT
  by unfold_locales (auto simp: slot_box intro: slot_yin)

lemma lane_vms_ok:
  "apart (concat (map (\<lambda>p. boxes_of (draw_lane_vm e s cc st cy vT p)) (enumerate 0 xs)))"
  "b \<in> set (concat (map (\<lambda>p. boxes_of (draw_lane_vm e s cc st cy vT p)) (enumerate 0 xs)))
   \<Longrightarrow> yin (vT - 1 / 20) (vT + stackH (length xs) (dm_h RV) (dm_gy RV) + 1 / 20) b \<and> xin 1198 (1198 + dm_w RV) b"
proof -
  show "apart (concat (map (\<lambda>p. boxes_of (draw_lane_vm e s cc st cy vT p)) (enumerate 0 xs)))"
    by (rule lane_vms.stack_apart, simp, rule slots_sorted) (simp_all add: sizes)
  assume b: "b \<in> set (concat (map (\<lambda>p. boxes_of (draw_lane_vm e s cc st cy vT p)) (enumerate 0 xs)))"
  have "yin (vT - 1 / 20) (vT + stackH (length xs) (dm_h RV) (dm_gy RV) + 1 / 20) b"
    by (rule lane_vms.stack_inside [OF _ _ b], simp, rule slots_inside) (simp_all add: sizes)
  moreover have "xin 1198 (1198 + dm_w RV) b" using b by (auto simp: slot_box xin_def)
  ultimately show "yin (vT - 1 / 20) (vT + stackH (length xs) (dm_h RV) (dm_gy RV) + 1 / 20) b \<and> xin 1198 (1198 + dm_w RV) b" ..
qed

lemma guests_ok:
  "apart (concat (map (\<lambda>p. boxes_of (draw_guest e s cc cy vT p)) (enumerate 0 xs)))"
  "b \<in> set (concat (map (\<lambda>p. boxes_of (draw_guest e s cc cy vT p)) (enumerate 0 xs)))
   \<Longrightarrow> yin (vT - 1 / 20) (vT + stackH (length xs) (dm_h XV) (dm_gy XV) + 1 / 20) b \<and> xin 746 (746 + dm_w XV) b"
proof -
  show "apart (concat (map (\<lambda>p. boxes_of (draw_guest e s cc cy vT p)) (enumerate 0 xs)))"
    by (rule guests.stack_apart, simp, rule slots_sorted) (simp_all add: sizes)
  assume b: "b \<in> set (concat (map (\<lambda>p. boxes_of (draw_guest e s cc cy vT p)) (enumerate 0 xs)))"
  have "yin (vT - 1 / 20) (vT + stackH (length xs) (dm_h XV) (dm_gy XV) + 1 / 20) b"
    by (rule guests.stack_inside [OF _ _ b], simp, rule slots_inside) (simp_all add: sizes)
  moreover have "xin 746 (746 + dm_w XV) b" using b by (auto simp: slot_box xin_def)
  ultimately show "yin (vT - 1 / 20) (vT + stackH (length xs) (dm_h XV) (dm_gy XV) + 1 / 20) b \<and> xin 746 (746 + dm_w XV) b" ..
qed

lemma plain_vms_ok:
  "apart (concat (map (\<lambda>p. boxes_of (draw_plain_vm e s cc cy vT p)) (enumerate 0 xs)))"
  "b \<in> set (concat (map (\<lambda>p. boxes_of (draw_plain_vm e s cc cy vT p)) (enumerate 0 xs)))
   \<Longrightarrow> yin (vT - 1 / 20) (vT + stackH (length xs) (dm_h XV) (dm_gy XV) + 1 / 20) b \<and> xin 1176 (1176 + dm_w XV) b"
proof -
  show "apart (concat (map (\<lambda>p. boxes_of (draw_plain_vm e s cc cy vT p)) (enumerate 0 xs)))"
    by (rule plain_vms.stack_apart, simp, rule slots_sorted) (simp_all add: sizes)
  assume b: "b \<in> set (concat (map (\<lambda>p. boxes_of (draw_plain_vm e s cc cy vT p)) (enumerate 0 xs)))"
  have "yin (vT - 1 / 20) (vT + stackH (length xs) (dm_h XV) (dm_gy XV) + 1 / 20) b"
    by (rule plain_vms.stack_inside [OF _ _ b], simp, rule slots_inside) (simp_all add: sizes)
  moreover have "xin 1176 (1176 + dm_w XV) b" using b by (auto simp: slot_box xin_def)
  ultimately show "yin (vT - 1 / 20) (vT + stackH (length xs) (dm_h XV) (dm_gy XV) + 1 / 20) b \<and> xin 1176 (1176 + dm_w XV) b" ..
qed

lemma plain_nodes_ok:
  "apart (concat (map (\<lambda>p. boxes_of (draw_plain_node e s cc cy vT p)) (enumerate 0 xs)))"
  "b \<in> set (concat (map (\<lambda>p. boxes_of (draw_plain_node e s cc cy vT p)) (enumerate 0 xs)))
   \<Longrightarrow> yin (vT - 1 / 20) (vT + stackH (length xs) (dm_h XN) (dm_gy XN) + 1 / 20) b \<and> xin 746 (746 + dm_w XN) b"
proof -
  show "apart (concat (map (\<lambda>p. boxes_of (draw_plain_node e s cc cy vT p)) (enumerate 0 xs)))"
    by (rule plain_nodes.stack_apart, simp, rule slots_sorted) (simp_all add: sizes)
  assume b: "b \<in> set (concat (map (\<lambda>p. boxes_of (draw_plain_node e s cc cy vT p)) (enumerate 0 xs)))"
  have "yin (vT - 1 / 20) (vT + stackH (length xs) (dm_h XN) (dm_gy XN) + 1 / 20) b"
    by (rule plain_nodes.stack_inside [OF _ _ b], simp, rule slots_inside) (simp_all add: sizes)
  moreover have "xin 746 (746 + dm_w XN) b" using b by (auto simp: slot_box xin_def)
  ultimately show "yin (vT - 1 / 20) (vT + stackH (length xs) (dm_h XN) (dm_gy XN) + 1 / 20) b \<and> xin 746 (746 + dm_w XN) b" ..
qed

text \<open>A lane: the node, the group and the machines are side by side, none higher than the lane.\<close>

definition lane_fits :: "lane \<times> rat \<Rightarrow> bool" where
  "lane_fits lt \<longleftrightarrow> (let a = fst lt in dm_h RN \<le> ln_h a \<and> bk_h (ln_blk a) \<le> ln_h a
     \<and> (\<not> ln_collapsed a \<longrightarrow> ln_blk a = rvBlock (length (ln_vms a))))"

definition lane_lo :: "lane \<times> rat \<Rightarrow> rat" where "lane_lo lt = snd lt - 1 / 20"
definition lane_hi :: "lane \<times> rat \<Rightarrow> rat" where "lane_hi lt = snd lt + ln_h (fst lt) + 1 / 20"

lemma lane_of_fits: "lane_fits (lane_of nodes vms g i, y)"
  by (simp add: lane_fits_def lane_of_def Let_def)

lemma yin_centred:
  assumes "hh \<le> H"
  shows "yin (y - 1 / 20) (y + H + 1 / 20) (mk_box i k d x (r1 (y + H / 2 - hh / 2)) w hh c)"
  using assms r1_bounds [of "y + H / 2 - hh / 2"] by (simp add: yin_def)

definition lane_right_edge :: "lane \<Rightarrow> rat" where
  "lane_right_edge a = (if ln_vms a \<noteq> [] \<and> \<not> ln_collapsed a then dm_x RV + dm_w RV
     else if ln_vms a \<noteq> [] then dm_x RG + dm_w RG else dm_x RN + dm_w RN)"

lemma lane_boxes:
  "boxes_of (draw_lane e s cc bandCy lt) = lane_node_box e s lt # (if ln_vms (fst lt) = [] then []
     else lane_group_box e s lt # (if ln_collapsed (fst lt) then []
       else concat (map (\<lambda>p. boxes_of (draw_lane_vm e s cc (nodeStatus (ln_node (fst lt))) (lane_cy lt)
              (lane_cy lt - bk_h (ln_blk (fst lt)) / 2) p)) (enumerate 0 (ln_vms (fst lt))))))"
  by (simp add: draw_lane_def Let_def)

lemma lane_cards:
  "xin 888 1070 (lane_node_box e s lt)" "xin 1086 1182 (lane_group_box e s lt)"
  "dm_h RN \<le> ln_h (fst lt) \<Longrightarrow> yin (lane_lo lt) (lane_hi lt) (lane_node_box e s lt)"
  "dm_h RN \<le> ln_h (fst lt) \<Longrightarrow> yin (lane_lo lt) (lane_hi lt) (lane_group_box e s lt)"
proof -
  show "xin 888 1070 (lane_node_box e s lt)" "xin 1086 1182 (lane_group_box e s lt)"
    by (simp_all add: lane_node_box_def lane_group_box_def Let_def xin_def sizes)
  assume h: "dm_h RN \<le> ln_h (fst lt)"
  then have g: "dm_h RG \<le> ln_h (fst lt)" by (simp add: sizes)
  show "yin (lane_lo lt) (lane_hi lt) (lane_node_box e s lt)" "yin (lane_lo lt) (lane_hi lt) (lane_group_box e s lt)"
    unfolding lane_node_box_def lane_group_box_def Let_def lane_cy_def lane_lo_def lane_hi_def
    by (rule yin_centred [OF h], rule yin_centred [OF g])
qed

lemma lane_drawn:
  assumes fits: "lane_fits lt"
  shows "apart (boxes_of (draw_lane e s cc bandCy lt))"
    and "b \<in> set (boxes_of (draw_lane e s cc bandCy lt))
      \<Longrightarrow> yin (lane_lo lt) (lane_hi lt) b \<and> xin 888 (GRID_X + lane_right_edge (fst lt)) b"
proof -
  define vs where "vs = concat (map (\<lambda>p. boxes_of (draw_lane_vm e s cc (nodeStatus (ln_node (fst lt))) (lane_cy lt)
      (lane_cy lt - bk_h (ln_blk (fst lt)) / 2) p)) (enumerate 0 (ln_vms (fst lt))))"
  define nb gb where "nb = lane_node_box e s lt" and "gb = lane_group_box e s lt"
  have bs: "boxes_of (draw_lane e s cc bandCy lt) = nb # (if ln_vms (fst lt) = [] then []
      else gb # (if ln_collapsed (fst lt) then [] else vs))"
    by (simp add: lane_boxes vs_def nb_def gb_def)
  have x: "xin 888 1070 nb" "xin 1086 1182 gb" and y: "yin (lane_lo lt) (lane_hi lt) nb" "yin (lane_lo lt) (lane_hi lt) gb"
    using lane_cards(1,2) [of e s lt] lane_cards(3,4) [of lt e s] fits unfolding nb_def gb_def lane_fits_def Let_def by blast+
  have v: "yin (lane_lo lt) (lane_hi lt) c \<and> xin 1198 1410 c" if "c \<in> set vs" "\<not> ln_collapsed (fst lt)" for c
  proof -
    have h: "bk_h (ln_blk (fst lt)) = stackH (length (ln_vms (fst lt))) (dm_h RV) (dm_gy RV)" "bk_h (ln_blk (fst lt)) \<le> ln_h (fst lt)"
      using fits that(2) by (auto simp: lane_fits_def Let_def bk_h_rvBlock)
    have "xin 1198 (1198 + dm_w RV) c"
      using lane_vms_ok(2) that(1) unfolding vs_def by blast
    moreover have "yin (lane_lo lt) (lane_hi lt) c"
      using conjunct1 [OF lane_vms_ok(2) [OF that(1) [unfolded vs_def]]] h
      by (elim yin_mono) (simp_all add: lane_lo_def lane_hi_def lane_cy_def field_simps)
    ultimately show ?thesis by (simp add: RV_def mk_dims_def)
  qed
  have "sep nb gb" by (rule sep_x [OF x]) simp
  moreover have "sep nb c" "sep gb c" if "c \<in> set vs" "\<not> ln_collapsed (fst lt)" for c
    using sep_x [OF x(1)] sep_x [OF x(2)] v [OF that] by auto
  ultimately show "apart (boxes_of (draw_lane e s cc bandCy lt))"
    using lane_vms_ok(1) unfolding bs vs_def by auto
  have "xin 888 (GRID_X + lane_right_edge (fst lt)) nb"
    using x(1) by (rule xin_mono) (simp_all add: lane_right_edge_def sizes)
  moreover have "xin 888 (GRID_X + lane_right_edge (fst lt)) gb" if "ln_vms (fst lt) \<noteq> []"
    using x(2) by (rule xin_mono) (simp_all add: lane_right_edge_def sizes that)
  moreover have "xin 888 (GRID_X + lane_right_edge (fst lt)) c"
    if "ln_vms (fst lt) \<noteq> []" "\<not> ln_collapsed (fst lt)" "c \<in> set vs" for c
    using conjunct2 [OF v [OF that(3,2)]] by (rule xin_mono) (simp_all add: lane_right_edge_def sizes that)
  ultimately show "b \<in> set (boxes_of (draw_lane e s cc bandCy lt))
      \<Longrightarrow> yin (lane_lo lt) (lane_hi lt) b \<and> xin 888 (GRID_X + lane_right_edge (fst lt)) b"
    unfolding bs using y v by (auto split: if_splits)
qed

interpretation lanes: stacking "\<lambda>lt. boxes_of (draw_lane e s cc bandCy lt)" lane_lo lane_hi lane_fits for e s cc bandCy
  by unfold_locales (simp_all add: lane_drawn)

lemma lane_tops_ok:
  assumes "\<And>a. a \<in> set ls \<Longrightarrow> 0 \<le> ln_h a"
  shows "p \<in> set (lane_tops y ls) \<Longrightarrow> fst p \<in> set ls \<and> y \<le> snd p
      \<and> snd p + ln_h (fst p) \<le> y + (sum_list (map ln_h ls) + LANE_GAP * (of_nat (length ls) - 1))"
    and "sorted_wrt (\<lambda>a b. lane_hi a + 1 \<le> lane_lo b) (lane_tops y ls)"
proof -
  have A: "p \<in> set (lane_tops y ls) \<longrightarrow> fst p \<in> set ls \<and> y \<le> snd p
      \<and> snd p + ln_h (fst p) \<le> y + (sum_list (map ln_h ls) + LANE_GAP * (of_nat (length ls) - 1))"
    if "\<And>a. a \<in> set ls \<Longrightarrow> 0 \<le> ln_h a" for y p ls
    using that
  proof (induction ls arbitrary: y)
    case (Cons a ls)
    show ?case
    proof (cases "p = (a, y)")
      case True
      have "0 \<le> sum_list (map ln_h ls)" using Cons.prems by (intro sum_list_nonneg) auto
      then show ?thesis using True by (simp add: LANE_GAP_def)
    next
      case False
      have a: "y \<le> y + (ln_h a + LANE_GAP)" using Cons.prems by (simp add: LANE_GAP_def)
      show ?thesis using False Cons.IH [of "y + (ln_h a + LANE_GAP)"] Cons.prems order_trans [OF a]
        by (auto simp: LANE_GAP_def algebra_simps)
    qed
  qed simp
  then show "p \<in> set (lane_tops y ls) \<Longrightarrow> fst p \<in> set ls \<and> y \<le> snd p
      \<and> snd p + ln_h (fst p) \<le> y + (sum_list (map ln_h ls) + LANE_GAP * (of_nat (length ls) - 1))"
    using assms by blast
  show "sorted_wrt (\<lambda>a b. lane_hi a + 1 \<le> lane_lo b) (lane_tops y ls)"
    using assms
  proof (induction ls arbitrary: y)
    case (Cons a ls)
    have "lane_hi (a, y) + 1 \<le> lane_lo b" if "b \<in> set (lane_tops (y + (ln_h a + LANE_GAP)) ls)" for b
      using A [of ls b "y + (ln_h a + LANE_GAP)"] that Cons.prems by (auto simp: lane_hi_def lane_lo_def LANE_GAP_def)
    then show ?case using Cons by simp
  qed simp
qed

lemma realLanes_fit:
  assumes "lt \<in> set (lane_tops y (fst (realLanes m g)))"
  shows "lane_fits lt" "y \<le> snd lt" "snd lt + ln_h (fst lt) \<le> y + snd (realLanes m g)" "fst lt \<in> set (fst (realLanes m g))"
proof -
  have nn: "0 \<le> ln_h a" if "a \<in> set (fst (realLanes m g))" for a
    using that lane_heights(1) by (auto simp: realLanes_fst RN_def mk_dims_def intro: order_trans [of 0 "82 :: rat"])
  have in_set: "fst lt \<in> set (fst (realLanes m g))" and rest: "y \<le> snd lt"
    and tot: "snd lt + ln_h (fst lt) \<le> y + (sum_list (map ln_h (fst (realLanes m g))) + LANE_GAP * (of_nat (length (fst (realLanes m g))) - 1))"
    using lane_tops_ok(1) [OF nn assms] by auto
  have "fst (realLanes m g) \<noteq> []" using in_set by auto
  then have "snd (realLanes m g) = sum_list (map ln_h (fst (realLanes m g))) + LANE_GAP * (of_nat (length (fst (realLanes m g))) - 1)"
    by (simp add: realLanes_def Let_def)
  then show "snd lt + ln_h (fst lt) \<le> y + snd (realLanes m g)" using tot by simp
  show "y \<le> snd lt" "fst lt \<in> set (fst (realLanes m g))" by fact+
  show "lane_fits lt" using in_set lane_of_fits by (cases lt) (auto simp: realLanes_fst)
qed

lemma realLanes_blk_w:
  assumes "a \<in> set (fst (realLanes m g))"
  shows "\<not> ln_collapsed a \<and> ln_vms a \<noteq> [] \<longrightarrow> bk_w (ln_blk a) = dm_w RV"
proof -
  have "lane_fits (a, 0)" using assms lane_of_fits by (auto simp: realLanes_fst)
  then show ?thesis by (simp add: lane_fits_def Let_def rvBlock_def)
qed

lemma real_lanes_drawn:
  fixes m :: dev_meta and g :: "string \<Rightarrow> bool"
  defines "ls \<equiv> fst (realLanes m g)"
  shows "apart (concat (map (\<lambda>lt. boxes_of (draw_lane e s cc cy lt)) (lane_tops y ls)))"
    and "b \<in> set (concat (map (\<lambda>lt. boxes_of (draw_lane e s cc cy lt)) (lane_tops y ls)))
      \<Longrightarrow> yin (y - 1 / 20) (y + snd (realLanes m g) + 1 / 20) b \<and> (\<exists>a \<in> set ls. xin 888 (GRID_X + lane_right_edge a) b)"
proof -
  have nn: "0 \<le> ln_h a" if "a \<in> set ls" for a
    using that lane_heights(1) unfolding ls_def by (auto simp: realLanes_fst RN_def mk_dims_def intro: order_trans [of 0 "82 :: rat"])
  show "apart (concat (map (\<lambda>lt. boxes_of (draw_lane e s cc cy lt)) (lane_tops y ls)))"
    by (rule lanes.stack_apart [OF _ lane_tops_ok(2) [OF nn]]) (simp_all add: ls_def realLanes_fit)
  assume b: "b \<in> set (concat (map (\<lambda>lt. boxes_of (draw_lane e s cc cy lt)) (lane_tops y ls)))"
  then obtain lt where lt: "lt \<in> set (lane_tops y ls)" "b \<in> set (boxes_of (draw_lane e s cc cy lt))" by auto
  have "yin (lane_lo lt) (lane_hi lt) b" "xin 888 (GRID_X + lane_right_edge (fst lt)) b"
    using lane_drawn(2) [OF realLanes_fit(1) [OF lt(1) [unfolded ls_def]] lt(2)] by auto
  then show "yin (y - 1 / 20) (y + snd (realLanes m g) + 1 / 20) b \<and> (\<exists>a \<in> set ls. xin 888 (GRID_X + lane_right_edge a) b)"
    using realLanes_fit [OF lt(1) [unfolded ls_def]] unfolding ls_def [symmetric]
    by (auto simp: lane_lo_def lane_hi_def elim!: yin_mono)
qed

text \<open>The branch of a cluster with topology data, of one without, and of any other host.\<close>

lemma real_row_drawn:
  fixes e :: env and s :: device
  defines "tot \<equiv> snd (realLanes (d_meta s) (vgColOf e s))" and "ls \<equiv> fst (realLanes (d_meta s) (vgColOf e s))"
  assumes H: "dm_h RE \<le> H" "tot \<le> H"
  shows "apart (boxes_of (pushRealRow e s (y + H / 2) cc))"
    and "b \<in> set (boxes_of (pushRealRow e s (y + H / 2) cc)) \<Longrightarrow> yin (y - 1 / 20) (y + H + 1 / 20) b
      \<and> (xin 732 872 b \<or> (\<exists>a \<in> set ls. xin 888 (GRID_X + lane_right_edge a) b))"
proof -
  define eb where "eb = mk_box (d_id s @ '':eac'') [] (d_id s) (GRID_X + dm_x RE) (r1 (y + H / 2 - dm_h RE / 2)) (dm_w RE) (dm_h RE) (eac_card e s)"
  define vs where "vs = concat (map (\<lambda>lt. boxes_of (draw_lane e s cc (y + H / 2) lt)) (lane_tops (y + H / 2 - tot / 2) ls))"
  have bs: "boxes_of (pushRealRow e s (y + H / 2) cc) = eb # vs"
    by (simp add: pushRealRow_def Let_def eb_def vs_def tot_def ls_def)
  have eb: "yin (y - 1 / 20) (y + H + 1 / 20) eb" "xin 732 872 eb"
    unfolding eb_def using H(1) by (rule yin_centred) (simp add: xin_def sizes)
  have vs: "yin (y - 1 / 20) (y + H + 1 / 20) c \<and> (\<exists>a \<in> set ls. xin 888 (GRID_X + lane_right_edge a) c)" if "c \<in> set vs" for c
    using real_lanes_drawn(2) [OF that [unfolded vs_def ls_def]] H(2) unfolding ls_def tot_def [symmetric]
    by (auto elim!: yin_mono)
  have "sep eb c" if "c \<in> set vs" for c using vs [OF that] sep_x [OF eb(2)] by fastforce
  then show "apart (boxes_of (pushRealRow e s (y + H / 2) cc))"
    unfolding bs using real_lanes_drawn(1) by (simp add: vs_def ls_def)
  show "b \<in> set (boxes_of (pushRealRow e s (y + H / 2) cc)) \<Longrightarrow> yin (y - 1 / 20) (y + H + 1 / 20) b
      \<and> (xin 732 872 b \<or> (\<exists>a \<in> set ls. xin 888 (GRID_X + lane_right_edge a) b))"
    unfolding bs using eb vs by auto
qed

lemma plain_drawn:
  fixes s :: device
  defines "vms \<equiv> m_vmList (d_meta s)" and "ns \<equiv> take 2 (m_nodes (d_meta s))"
  assumes H: "stackH (length ns) (dm_h XN) (dm_gy XN) \<le> H"
    "\<not> isColNd e s \<Longrightarrow> dm_h XE \<le> H \<and> bk_h (vmBlock (length vms)) \<le> H"
  shows "apart (boxes_of (draw_plain e s (y + H / 2) cc))"
    and "b \<in> set (boxes_of (draw_plain e s (y + H / 2) cc)) \<Longrightarrow> yin (y - 1 / 20) (y + H + 1 / 20) b
      \<and> (xin 746 954 b \<or> \<not> isColNd e s \<and> (xin 990 1132 b \<or> vms \<noteq> [] \<and> xin 1176 1388 b))"
proof -
  define eb where "eb = mk_box (d_id s @ '':eac'') [] (d_id s) (GRID_X + dm_x XE) (r1 (y + H / 2 - dm_h XE / 2)) (dm_w XE) (dm_h XE) (eac_card e s)"
  define nb where "nb = concat (map (\<lambda>p. boxes_of (draw_plain_node e s cc (y + H / 2)
      (y + H / 2 - stackH (length ns) (dm_h XN) (dm_gy XN) / 2) p)) (enumerate 0 ns))"
  define vb where "vb = concat (map (\<lambda>p. boxes_of (draw_plain_vm e s cc (y + H / 2)
      (y + H / 2 - bk_h (vmBlock (length vms)) / 2) p)) (enumerate 0 vms))"
  have bs: "boxes_of (draw_plain e s (y + H / 2) cc) = (if isColNd e s then nb else eb # nb @ vb)"
    by (simp add: draw_plain_def Let_def eb_def nb_def vb_def ns_def vms_def)
  have eb: "yin (y - 1 / 20) (y + H + 1 / 20) eb" "xin 990 1132 eb" if "\<not> isColNd e s"
    unfolding eb_def using yin_centred [OF conjunct1 [OF H(2) [OF that]]] by blast (simp add: xin_def sizes)
  have nb: "yin (y - 1 / 20) (y + H + 1 / 20) c \<and> xin 746 954 c" if "c \<in> set nb" for c
  proof -
    have "xin 746 954 c" using conjunct2 [OF plain_nodes_ok(2) [OF that [unfolded nb_def]]] by (simp add: XN_def mk_dims_def)
    then show ?thesis using conjunct1 [OF plain_nodes_ok(2) [OF that [unfolded nb_def]]] H(1) by (auto elim!: yin_mono)
  qed
  have vb: "yin (y - 1 / 20) (y + H + 1 / 20) c \<and> xin 1176 1388 c \<and> vms \<noteq> []" if "c \<in> set vb" "\<not> isColNd e s" for c
  proof -
    have "xin 1176 1388 c" using conjunct2 [OF plain_vms_ok(2) [OF that(1) [unfolded vb_def]]] by (simp add: XV_def mk_dims_def)
    moreover have "vms \<noteq> []" using that(1) by (auto simp: vb_def)
    ultimately show ?thesis using conjunct1 [OF plain_vms_ok(2) [OF that(1) [unfolded vb_def]]] H(2) [OF that(2)]
      by (auto simp: bk_h_vmBlock elim!: yin_mono)
  qed
  have "sep eb c" if "c \<in> set nb" "\<not> isColNd e s" for c
    using sep_x [OF _ eb(2), of 746 954 c] nb [OF that(1)] that(2) by (auto simp: sep_def)
  moreover have "sep eb c" "sep d c" if "c \<in> set vb" "d \<in> set nb" "\<not> isColNd e s" for c d
    using vb [OF that(1,3)] nb [OF that(2)] eb(2) [OF that(3)] by (auto simp: xin_def sep_def)
  moreover have "sep eb c" if "c \<in> set vb" "\<not> isColNd e s" for c
    using vb [OF that] eb(2) [OF that(2)] by (auto simp: xin_def sep_def)
  moreover have "apart nb" "apart vb" using plain_nodes_ok(1) plain_vms_ok(1) by (simp_all add: nb_def vb_def)
  ultimately show "apart (boxes_of (draw_plain e s (y + H / 2) cc))" unfolding bs by auto
  show "b \<in> set (boxes_of (draw_plain e s (y + H / 2) cc)) \<Longrightarrow> yin (y - 1 / 20) (y + H + 1 / 20) b
      \<and> (xin 746 954 b \<or> \<not> isColNd e s \<and> (xin 990 1132 b \<or> vms \<noteq> [] \<and> xin 1176 1388 b))"
    unfolding bs using eb nb vb by (auto split: if_splits)
qed

section \<open>A device with its branch\<close>

text \<open>
  The row of an Endurance chassis is as high as its card, which \<open>buildTopo\<close> centres in the row unless the device carries
  topology data: then it centres the card in the height of a branch it does not draw.
\<close>

definition chassis_ok :: "env \<Rightarrow> device \<Rightarrow> bool" where
  "chassis_ok e s \<longleftrightarrow> (d_type s = END \<longrightarrow> topoOf s = None \<or> \<not> branchOpenOf e s)"

lemma END_FT [simp]: "isFT END"
  by (simp add: isFT_def FT_TYPES_def)

lemma fullDevH_ge: "dm_h XD \<le> fullDevH e s"
  by (simp add: fullDevH_def Let_def split: option.splits)

lemma fullDevH_le: "fullDevH e s \<le> xRowH e s"
  using fullDevH_ge [of e s] by (auto simp: xRowH_def Let_def realMainH_def fullDevH_def)

lemma lane_right_ge: "r \<le> lane_right l r"
  by (simp add: lane_right_def)

lemma foldl_lane_right: "r \<le> foldl (\<lambda>r l. lane_right l r) r ls"
  by (induction ls arbitrary: r) (auto intro: order_trans [OF lane_right_ge])

lemma lane_right_fold:
  assumes "a \<in> set ls" "\<And>a. a \<in> set ls \<Longrightarrow> \<not> ln_collapsed a \<and> ln_vms a \<noteq> [] \<longrightarrow> bk_w (ln_blk a) = dm_w RV" "dm_x RN + dm_w RN \<le> r"
  shows "lane_right_edge a \<le> foldl (\<lambda>r l. lane_right l r) r ls"
  using assms
proof (induction ls arbitrary: r)
  case (Cons b ls)
  have "lane_right_edge b \<le> lane_right b r"
    using Cons.prems(2) [of b] Cons.prems(3) by (simp add: lane_right_def lane_right_edge_def)
  then have "lane_right_edge b \<le> foldl (\<lambda>r l. lane_right l r) (lane_right b r) ls" using foldl_lane_right order_trans by blast
  moreover have "dm_x RN + dm_w RN \<le> lane_right b r" using Cons.prems(3) lane_right_ge order_trans by blast
  ultimately show ?case using Cons by auto
qed simp

definition dev_box :: "env \<Rightarrow> device \<Rightarrow> rat \<Rightarrow> rat \<Rightarrow> bool \<Rightarrow> rat \<Rightarrow> box" where
  "dev_box e s x y full hO = (case pushDevice e s x y full hO of SBox b \<Rightarrow> b)"

lemma boxes_of_pushDevice [simp]: "boxes_of (pushDevice e s x y full hO # ss) = dev_box e s x y full hO # boxes_of ss"
  by (simp add: pushDevice_def dev_box_def)

text \<open>What lies to the right of the device: the branch.\<close>

definition branch :: "env \<Rightarrow> jsval \<Rightarrow> rat \<Rightarrow> rat \<Rightarrow> device \<Rightarrow> stroke list" where
  "branch e cc y H s =
     (if d_type s = END \<or> (isFT (d_type s) \<and> topoOf s \<noteq> None \<and> \<not> branchOpenOf e s) then []
      else if \<not> isFT (d_type s)
        then concat (map (draw_guest e s cc (y + H / 2) (y + H / 2 - bk_h (vmBlock (length (m_vmList (d_meta s)))) / 2))
               (enumerate 0 (m_vmList (d_meta s))))
      else if topoOf s \<noteq> None then pushRealRow e s (y + H / 2) cc
      else draw_plain e s (y + H / 2) cc)"

lemma draw_full_eq:
  assumes "chassis_ok e s" "rh = xRowH e s"
  shows "boxes_of (draw_full e cc faCy y rh s) =
    dev_box e s GRID_X (r1 (y + rh / 2 - fullDevH e s / 2)) True (fullDevH e s) # boxes_of (branch e cc y rh s)"
proof -
  have "rh = realMainH e s" if "isFT (d_type s)" "topoOf s \<noteq> None" "branchOpenOf e s"
    using that assms by (auto simp: chassis_ok_def xRowH_def Let_def)
  then show ?thesis unfolding draw_full_def branch_def Let_def by auto
qed

lemma branch_drawn:
  assumes "chassis_ok e s" and rh: "rh = xRowH e s"
  shows "apart (boxes_of (branch e cc y rh s))"
    and "b \<in> set (boxes_of (branch e cc y rh s)) \<Longrightarrow> yin (y - 1 / 20) (y + rh + 1 / 20) b \<and> xin 732 (GRID_X + xRowW e s) b \<and> d_type s \<noteq> END"
proof -
  let ?m = "d_meta s"
  consider "boxes_of (branch e cc y rh s) = []" | "\<not> isFT (d_type s)" | "isFT (d_type s)" "d_type s \<noteq> END" "topoOf s \<noteq> None" "branchOpenOf e s"
    | "isFT (d_type s)" "d_type s \<noteq> END" "topoOf s = None"
    by (cases "isFT (d_type s)"; cases "d_type s = END"; cases "topoOf s"; cases "branchOpenOf e s") (auto simp: branch_def)
  then have "apart (boxes_of (branch e cc y rh s)) \<and> (\<forall>b \<in> set (boxes_of (branch e cc y rh s)).
      yin (y - 1 / 20) (y + rh + 1 / 20) b \<and> xin 732 (GRID_X + xRowW e s) b \<and> d_type s \<noteq> END)"
  proof cases
    case 2
    then have ne: "d_type s \<noteq> END" by auto
    define vms where "vms = m_vmList ?m"
    have h: "bk_h (vmBlock (length vms)) \<le> rh" using 2 ne by (simp add: rh xRowH_def Let_def vms_def)
    have bs: "boxes_of (branch e cc y rh s) = concat (map (\<lambda>p. boxes_of (draw_guest e s cc (y + rh / 2)
        (y + rh / 2 - bk_h (vmBlock (length vms)) / 2) p)) (enumerate 0 vms))"
      using 2 ne by (simp add: branch_def vms_def)
    have "yin (y - 1 / 20) (y + rh + 1 / 20) b \<and> xin 732 (GRID_X + xRowW e s) b" if "b \<in> set (boxes_of (branch e cc y rh s))" for b
    proof -
      have b: "b \<in> set (concat (map (\<lambda>p. boxes_of (draw_guest e s cc (y + rh / 2)
        (y + rh / 2 - bk_h (vmBlock (length vms)) / 2) p)) (enumerate 0 vms)))" using that bs by simp
      have "vms \<noteq> []" using b by auto
      then have "xRowW e s = dm_x XN + dm_w XV" using 2 ne by (simp add: xRowW_def Let_def vms_def vmBlock_def)
      then show ?thesis using guests_ok(2) [OF b] h by (auto simp: bk_h_vmBlock sizes elim!: yin_mono xin_mono)
    qed
    then show ?thesis using guests_ok(1) ne unfolding bs by blast
  next
    case 3
    have rh': "rh = realMainH e s" using 3 by (simp add: rh xRowH_def Let_def)
    define ls where "ls = fst (realLanes ?m (vgColOf e s))"
    have bs: "boxes_of (branch e cc y rh s) = boxes_of (pushRealRow e s (y + rh / 2) cc)" using 3 by (simp add: branch_def)
    have H: "dm_h RE \<le> rh" "snd (realLanes ?m (vgColOf e s)) \<le> rh" by (simp_all add: rh' realMainH_def)
    have w: "xRowW e s = foldl (\<lambda>r l. lane_right l r) (dm_x RN + dm_w RN) ls" using 3 by (simp add: xRowW_def Let_def ls_def)
    have edge: "lane_right_edge a \<le> xRowW e s" if "a \<in> set ls" for a
      unfolding w by (rule lane_right_fold [OF that realLanes_blk_w]) (simp_all add: ls_def)
    have w0: "612 \<le> xRowW e s" using foldl_lane_right [of "dm_x RN + dm_w RN" ls] w by (simp add: sizes)
    have "yin (y - 1 / 20) (y + rh + 1 / 20) b \<and> xin 732 (GRID_X + xRowW e s) b" if b: "b \<in> set (boxes_of (branch e cc y rh s))" for b
    proof -
      have y: "yin (y - 1 / 20) (y + rh + 1 / 20) b" and x: "xin 732 872 b \<or> (\<exists>a \<in> set ls. xin 888 (GRID_X + lane_right_edge a) b)"
        using real_row_drawn(2) [OF H b [unfolded bs]] by (simp_all add: ls_def)
      from x have "xin 732 (GRID_X + xRowW e s) b"
      proof
        assume "xin 732 872 b"
        then show ?thesis by (rule xin_mono) (use w0 in \<open>simp_all add: GRID_X_def\<close>)
      next
        assume "\<exists>a \<in> set ls. xin 888 (GRID_X + lane_right_edge a) b"
        then obtain a where "a \<in> set ls" "xin 888 (GRID_X + lane_right_edge a) b" by blast
        then show ?thesis using edge [of a] by (auto elim: xin_mono)
      qed
      then show ?thesis using y by simp
    qed
    then show ?thesis using real_row_drawn(1) [OF H] 3(2) unfolding bs by blast
  next
    case 4
    define vms where "vms = m_vmList ?m"
    have bs: "boxes_of (branch e cc y rh s) = boxes_of (draw_plain e s (y + rh / 2) cc)" using 4 by (simp add: branch_def)
    have H: "stackH (length (take 2 (m_nodes ?m))) (dm_h XN) (dm_gy XN) \<le> rh"
      "\<not> isColNd e s \<Longrightarrow> dm_h XE \<le> rh \<and> bk_h (vmBlock (length vms)) \<le> rh"
      using 4 by (simp_all add: rh xRowH_def Let_def vms_def le_max_iff_disj)
    have w: "496 \<le> xRowW e s" "\<not> isColNd e s \<Longrightarrow> 674 \<le> xRowW e s" "\<not> isColNd e s \<Longrightarrow> vms \<noteq> [] \<Longrightarrow> 930 \<le> xRowW e s"
      using 4 by (auto simp: xRowW_def Let_def vmBlock_def sizes vms_def)
    have "yin (y - 1 / 20) (y + rh + 1 / 20) b \<and> xin 732 (GRID_X + xRowW e s) b" if b: "b \<in> set (boxes_of (branch e cc y rh s))" for b
      using plain_drawn(2) [OF H(1) H(2) [unfolded vms_def] b [unfolded bs]] w
      unfolding vms_def [symmetric] by (auto simp: GRID_X_def xin_def)
    then show ?thesis using plain_drawn(1) [OF H(1) H(2) [unfolded vms_def]] 4(2) unfolding bs by blast
  qed simp
  then show "apart (boxes_of (branch e cc y rh s))"
    and "b \<in> set (boxes_of (branch e cc y rh s)) \<Longrightarrow> yin (y - 1 / 20) (y + rh + 1 / 20) b \<and> xin 732 (GRID_X + xRowW e s) b \<and> d_type s \<noteq> END"
    by blast+
qed

lemma dev_box_full:
  "bx_w (dev_box e s x y True hO) = (if d_type s = END then dm_w ENDU else dm_w XD)" "bx_x (dev_box e s x y f hO) = x"
  "bx_y (dev_box e s x y f hO) = y" "hO \<noteq> 0 \<Longrightarrow> bx_h (dev_box e s x y True hO) = hO"
  "bx_w (dev_box e s x y False hO) = dm_w CARDD" "bx_h (dev_box e s x y False hO) = dm_h CARDD"
  by (simp_all add: dev_box_def pushDevice_def)

lemma full_drawn:
  assumes ok: "chassis_ok e s" and rh: "rh = xRowH e s"
  shows "apart (boxes_of (draw_full e cc faCy y rh s))"
    and "b \<in> set (boxes_of (draw_full e cc faCy y rh s)) \<Longrightarrow> yin (y - 1 / 20) (y + rh + 1 / 20) b \<and> xin GRID_X (GRID_X + xRowW e s) b"
proof -
  define db where "db = dev_box e s GRID_X (r1 (y + rh / 2 - fullDevH e s / 2)) True (fullDevH e s)"
  have bs: "boxes_of (draw_full e cc faCy y rh s) = db # boxes_of (branch e cc y rh s)"
    unfolding db_def by (rule draw_full_eq [OF ok rh])
  have "fullDevH e s \<noteq> 0" using fullDevH_ge [of e s] by (simp add: XD_def mk_dims_def)
  then have h: "bx_h db = fullDevH e s" and w: "bx_w db = (if d_type s = END then dm_w ENDU else dm_w XD)"
    and x: "bx_x db = GRID_X" "bx_y db = r1 (y + rh / 2 - fullDevH e s / 2)"
    by (simp_all add: db_def dev_box_full)
  have y: "yin (y - 1 / 20) (y + rh + 1 / 20) db"
    using r1_bounds [of "y + rh / 2 - fullDevH e s / 2"] fullDevH_le [of e s] by (simp add: yin_def x h rh)
  have "dm_w XD \<le> foldl (\<lambda>r l. lane_right l r) (dm_x RN + dm_w RN) ls" for ls
    by (rule order_trans [OF _ foldl_lane_right]) (simp add: sizes)
  then have "bx_w db \<le> xRowW e s"
    by (auto simp: w xRowW_def Let_def vmBlock_def) (auto simp: sizes)
  then have xi: "xin GRID_X (GRID_X + xRowW e s) db" by (simp add: xin_def x)
  have "sep db c" if "c \<in> set (boxes_of (branch e cc y rh s))" for c
    using branch_drawn(2) [OF ok rh that] by (auto simp: sep_def xin_def x w sizes)
  then show "apart (boxes_of (draw_full e cc faCy y rh s))" unfolding bs using branch_drawn(1) [OF ok rh] by simp
  have "xin GRID_X (GRID_X + xRowW e s) c" if "xin 732 (GRID_X + xRowW e s) c" for c
    using that by (rule xin_mono) (simp_all add: GRID_X_def)
  then show "b \<in> set (boxes_of (draw_full e cc faCy y rh s)) \<Longrightarrow> yin (y - 1 / 20) (y + rh + 1 / 20) b \<and> xin GRID_X (GRID_X + xRowW e s) b"
    unfolding bs using y xi branch_drawn(2) [OF ok rh] by auto
qed

section \<open>Rows and bands\<close>

lemma ceil_div_mult: "0 < d \<Longrightarrow> n \<le> ceil_div n d * d"
proof -
  assume d: "0 < d"
  have "n + d - 1 < (n + d - 1) div d * d + d" using d by (metis div_mult_mod_eq add_less_cancel_left mod_less_divisor)
  then show ?thesis using d by (simp add: ceil_div_def)
qed

lemma cells_of:
  "items \<noteq> [] \<Longrightarrow> gb_cells (gridBlock items D) = map (\<lambda>p. (snd p, fst p div gb_rowsPerCol (gridBlock items D), fst p mod gb_rowsPerCol (gridBlock items D))) (enumerate 0 items)"
  by (simp add: gridBlock_def Let_def)

lemma grid_fits:
  fixes items :: "device list" and D i :: nat
  assumes "items \<noteq> []" and i: "i < length items"
  defines "r \<equiv> gb_rowsPerCol (gridBlock items D)"
  shows "0 < r" "of_nat (i div r) * (dm_w CARDD + dm_gx CARDD) + dm_w CARDD \<le> gb_w (gridBlock items D)"
    "of_nat (i mod r) * (dm_h CARDD + dm_gy CARDD) + dm_h CARDD \<le> gb_h (gridBlock items D)"
proof -
  define n where "n = length items"
  define c where "c = max 1 (ceil_div n r)"
  have n: "n \<noteq> 0" using assms(1) by (simp add: n_def)
  have r: "r = max 1 (ceil_div n D)" using n by (simp add: r_def gridBlock_def Let_def n_def)
  show r0: "0 < r" unfolding r by simp
  have "n \<le> c * r" using ceil_div_mult [OF r0, of n] unfolding c_def by (rule order_trans) (rule mult_le_mono1, simp)
  then have "i div r < c" using i r0 by (simp add: n_def div_less_iff_less_mult)
  then have "of_nat (i div r) + 1 \<le> (of_nat c :: rat)" by (metis Suc_leI of_nat_Suc of_nat_le_iff add.commute)
  moreover have "gb_w (gridBlock items D) = of_nat c * dm_w CARDD + (of_nat c - 1) * dm_gx CARDD"
    using n r by (simp add: gridBlock_def Let_def n_def c_def)
  ultimately show "of_nat (i div r) * (dm_w CARDD + dm_gx CARDD) + dm_w CARDD \<le> gb_w (gridBlock items D)"
    by (simp add: sizes algebra_simps)
  have "of_nat (i mod r) + 1 \<le> (of_nat r :: rat)"
    using mod_less_divisor [OF r0, of i] by (metis Suc_leI of_nat_Suc of_nat_le_iff add.commute)
  moreover have "gb_h (gridBlock items D) = of_nat r * dm_h CARDD + (of_nat r - 1) * dm_gy CARDD"
    using n r by (simp add: gridBlock_def Let_def n_def)
  ultimately show "of_nat (i mod r) * (dm_h CARDD + dm_gy CARDD) + dm_h CARDD \<le> gb_h (gridBlock items D)"
    by (simp add: sizes algebra_simps)
qed

definition grid_box :: "env \<Rightarrow> rat \<Rightarrow> device \<times> nat \<times> nat \<Rightarrow> box" where
  "grid_box e y c = dev_box e (fst c) (GRID_X + of_nat (fst (snd c)) * (dm_w CARDD + dm_gx CARDD))
     (y + of_nat (snd (snd c)) * (dm_h CARDD + dm_gy CARDD)) False 0"

lemma grid_boxes: "concat (map (\<lambda>c. boxes_of (draw_cell e cc faCy y c)) cs) = map (grid_box e y) cs"
  by (induction cs) (simp_all add: draw_cell_def Let_def grid_box_def)

lemma step_gap: "0 \<le> w \<Longrightarrow> 1 \<le> g \<Longrightarrow> a < b \<Longrightarrow> of_nat a * (w + g) + w + 1 \<le> (of_nat b * (w + g) :: rat)"
proof -
  assume "0 \<le> w" "1 \<le> g" "a < b"
  then have "(of_nat a + 1) * (w + g) \<le> of_nat b * (w + g)" by (intro mult_right_mono) auto
  then show ?thesis using \<open>1 \<le> g\<close> by (simp add: algebra_simps)
qed

lemma grid_drawn:
  fixes items :: "device list" and D :: nat
  assumes "items \<noteq> []"
  defines "g \<equiv> gridBlock items D"
  shows "apart (map (grid_box e y) (gb_cells g))"
    and "b \<in> set (map (grid_box e y) (gb_cells g)) \<Longrightarrow> yin y (y + gb_h g) b \<and> xin GRID_X (GRID_X + gb_w g) b"
proof -
  define r where "r = gb_rowsPerCol g"
  have cells: "gb_cells g = map (\<lambda>p. (snd p, fst p div r, fst p mod r)) (enumerate 0 items)"
    using cells_of [OF assms(1), of D] by (simp add: g_def r_def)
  have "sorted_wrt (\<lambda>p q. sep (grid_box e y (snd p, fst p div r, fst p mod r)) (grid_box e y (snd q, fst q div r, fst q mod r))) (enumerate 0 items)"
  proof (rule sorted_wrt_enumerate)
    fix i j :: nat and x z :: device
    assume ij: "i < j"
    show "sep (grid_box e y (snd (i, x), fst (i, x) div r, fst (i, x) mod r)) (grid_box e y (snd (j, z), fst (j, z) div r, fst (j, z) mod r))"
    proof (cases "i div r = j div r")
      case True
      then have "i mod r < j mod r" using ij by (metis div_mult_mod_eq nat_add_left_cancel_less)
      then show ?thesis using step_gap [of "dm_h CARDD" "dm_gy CARDD" "i mod r" "j mod r"]
        by (simp add: sep_def grid_box_def dev_box_full sizes)
    next
      case False
      then have "i div r < j div r" using ij by (meson div_le_mono le_neq_implies_less less_imp_le)
      then show ?thesis using step_gap [of "dm_w CARDD" "dm_gx CARDD" "i div r" "j div r"]
        by (simp add: sep_def grid_box_def dev_box_full sizes)
    qed
  qed
  then show "apart (map (grid_box e y) (gb_cells g))" by (simp add: apart_def cells sorted_wrt_map)
  assume "b \<in> set (map (grid_box e y) (gb_cells g))"
  then obtain p where p: "p \<in> set (enumerate 0 items)" "b = grid_box e y (snd p, fst p div r, fst p mod r)" by (auto simp: cells)
  then have "fst p < length items" by (simp add: in_enumerate)
  then show "yin y (y + gb_h g) b \<and> xin GRID_X (GRID_X + gb_w g) b"
    using grid_fits [OF assms(1), of "fst p" D]
    by (simp add: p(2) yin_def xin_def grid_box_def dev_box_full g_def r_def add.assoc) (simp add: sizes)
qed

text \<open>Things with a top and a height that follow each other at a distance, between two bounds.\<close>

fun ladder :: "rat \<Rightarrow> ('a \<Rightarrow> rat) \<Rightarrow> ('a \<Rightarrow> rat) \<Rightarrow> rat \<Rightarrow> rat \<Rightarrow> 'a list \<Rightarrow> bool" where
  "ladder gap y hh lo hi [] = True"
| "ladder gap y hh lo hi (a # as) =
     (lo \<le> y a \<and> 0 \<le> hh a \<and> y a + hh a \<le> hi \<and> ladder gap y hh (y a + hh a + gap) hi as)"

lemma ladder_mono: "ladder gap y hh lo hi as \<Longrightarrow> lo' \<le> lo \<Longrightarrow> hi \<le> hi' \<Longrightarrow> ladder gap y hh lo' hi' as"
  by (induction as arbitrary: lo lo') auto

lemma ladder_inside: "ladder gap y hh lo hi as \<Longrightarrow> 0 \<le> gap \<Longrightarrow> a \<in> set as \<Longrightarrow> lo \<le> y a \<and> y a + hh a \<le> hi"
proof (induction as arbitrary: lo)
  case (Cons b as)
  then show ?case using ladder_mono [of gap y hh "y b + hh b + gap" hi as lo hi] by auto
qed simp

lemma ladder_sorted: "ladder gap y hh lo hi as \<Longrightarrow> 0 \<le> gap \<Longrightarrow> sorted_wrt (\<lambda>a b. y a + hh a + gap \<le> y b) as"
proof (induction as arbitrary: lo)
  case (Cons b as)
  then show ?case using ladder_inside [of gap y hh "y b + hh b + gap" hi as] by auto
qed simp

lemma ladder_shift:
  assumes "\<And>a. y (f a) = y a + d \<and> hh (f a) = hh a"
  shows "ladder gap y hh lo hi as \<Longrightarrow> ladder gap y hh (lo + d) (hi + d) (map f as)"
proof (induction as arbitrary: lo)
  case (Cons a as)
  have eq: "y (f a) + hh (f a) + gap = y a + hh a + gap + d" using assms [of a] by simp
  have "ladder gap y hh (y (f a) + hh (f a) + gap) (hi + d) (map f as)"
    unfolding eq using Cons.IH [of "y a + hh a + gap"] Cons.prems by simp
  then show ?case using Cons.prems assms [of a] by simp
qed simp

definition kind_ok :: "env \<Rightarrow> row_kind \<times> rat \<Rightarrow> bool" where
  "kind_ok e k \<longleftrightarrow> (case fst k of
     FullRow s \<Rightarrow> chassis_ok e s \<and> snd k = xRowH e s
   | GridRow g \<Rightarrow> 0 \<le> snd k \<and> (gb_cells g = [] \<or> (\<exists>items D. items \<noteq> [] \<and> g = gridBlock items D \<and> snd k = gb_h g)))"

definition row_ok :: "env \<Rightarrow> prow \<Rightarrow> bool" where "row_ok e r = kind_ok e (pr_kind r, pr_h r)"
definition row_lo :: "prow \<Rightarrow> rat" where "row_lo r = pr_y r - 1 / 20"
definition row_hi :: "prow \<Rightarrow> rat" where "row_hi r = pr_y r + pr_h r + 1 / 20"

lemma row_drawn:
  assumes "row_ok e r"
  shows "apart (boxes_of (draw_row e cc faCy r))"
    and "b \<in> set (boxes_of (draw_row e cc faCy r)) \<Longrightarrow> yin (row_lo r) (row_hi r) b \<and> xin GRID_X (GRID_X + row_w e (pr_kind r)) b"
proof -
  have "apart (boxes_of (draw_row e cc faCy r)) \<and> (\<forall>b \<in> set (boxes_of (draw_row e cc faCy r)).
      yin (row_lo r) (row_hi r) b \<and> xin GRID_X (GRID_X + row_w e (pr_kind r)) b)"
  proof (cases "pr_kind r")
    case (FullRow s)
    then have "chassis_ok e s" "pr_h r = xRowH e s" using assms by (simp_all add: row_ok_def kind_ok_def)
    then show ?thesis using full_drawn [of e s "pr_h r"] by (simp add: draw_row_def FullRow row_lo_def row_hi_def)
  next
    case (GridRow g)
    have bs: "boxes_of (draw_row e cc faCy r) = map (grid_box e (pr_y r)) (gb_cells g)"
      by (simp add: draw_row_def GridRow grid_boxes)
    show ?thesis
    proof (cases "gb_cells g = []")
      case False
      then obtain items D where g: "items \<noteq> []" "g = gridBlock items D" "pr_h r = gb_h g"
        using assms GridRow by (auto simp: row_ok_def kind_ok_def)
      have "yin (row_lo r) (row_hi r) b \<and> xin GRID_X (GRID_X + row_w e (pr_kind r)) b"
        if "b \<in> set (map (grid_box e (pr_y r)) (gb_cells g))" for b
        using grid_drawn(2) [OF g(1) that [unfolded g(2)]] by (auto simp: GridRow g(2,3) row_lo_def row_hi_def elim!: yin_mono)
      then show ?thesis unfolding bs using grid_drawn(1) [OF g(1)] g(2) by blast
    qed (simp add: bs)
  qed
  then show "apart (boxes_of (draw_row e cc faCy r))"
    and "b \<in> set (boxes_of (draw_row e cc faCy r)) \<Longrightarrow> yin (row_lo r) (row_hi r) b \<and> xin GRID_X (GRID_X + row_w e (pr_kind r)) b"
    by blast+
qed

interpretation rows: stacking "\<lambda>r. boxes_of (draw_row e cc faCy r)" row_lo row_hi "row_ok e" for e cc faCy
  by unfold_locales (simp_all add: row_drawn)

abbreviation "row_ladder \<equiv> ladder 12 pr_y pr_h"

lemma xRowH_nonneg: "0 \<le> xRowH e s"
  using fullDevH_ge [of e s] fullDevH_le [of e s] by (simp add: XD_def mk_dims_def)

lemma kind_ok_nonneg: "kind_ok e k \<Longrightarrow> 0 \<le> snd k"
  by (auto simp: kind_ok_def xRowH_nonneg split: row_kind.splits)

lemma gb_h_nonneg: "items \<noteq> [] \<Longrightarrow> dm_h CARDD \<le> gb_h (gridBlock items D)"
proof -
  assume "items \<noteq> []"
  then have "0 < length items" by simp
  from grid_fits(3) [OF \<open>items \<noteq> []\<close> this, of D] show ?thesis by (simp add: sizes)
qed

lemma lay_rows_ok:
  "(\<And>k. k \<in> set rs \<Longrightarrow> kind_ok e k) \<Longrightarrow> y \<le> snd (lay_rows y prev rs)
     \<and> row_ladder (case prev of None \<Rightarrow> y | Some p \<Rightarrow> y + 12) (snd (lay_rows y prev rs)) (fst (lay_rows y prev rs))
     \<and> (\<forall>r \<in> set (fst (lay_rows y prev rs)). row_ok e r)
     \<and> (rs \<noteq> [] \<longrightarrow> y + snd (hd rs) \<le> snd (lay_rows y prev rs))"
proof (induction y prev rs rule: lay_rows.induct)
  case (2 y prev k hh rs)
  define y1 where "y1 = (case prev of None \<Rightarrow> y | Some p \<Rightarrow> y + row_gap p k)"
  have k: "kind_ok e (k, hh)" "0 \<le> hh" using 2(2) [of "(k, hh)"] kind_ok_nonneg [of e "(k, hh)"] by simp_all
  have y1: "(case prev of None \<Rightarrow> y | Some p \<Rightarrow> y + 12) \<le> y1" "y \<le> y1"
    by (auto simp: y1_def row_gap_def sizes split: option.splits)
  note IH = 2(1) [OF y1_def 2(2)]
  have "y1 + hh \<le> snd (lay_rows (y1 + hh) (Some k) rs)" using 2 by (simp add: y1_def)
  moreover have "row_ladder (y1 + hh + 12) (snd (lay_rows (y1 + hh) (Some k) rs)) (fst (lay_rows (y1 + hh) (Some k) rs))"
    "\<forall>r \<in> set (fst (lay_rows (y1 + hh) (Some k) rs)). row_ok e r"
    using 2 by (simp_all add: y1_def)
  ultimately show ?case using k y1 by (simp add: Let_def y1_def [symmetric] row_ok_def)
qed (auto split: option.splits)

lemma batch_rows_ok:
  "(\<And>s. s \<in> set ss \<Longrightarrow> chassis_ok e s) \<Longrightarrow> k \<in> set (batch_rows e D batch ss) \<Longrightarrow> kind_ok e k \<and> 62 \<le> snd k"
proof (induction ss arbitrary: batch)
  case Nil
  then show ?case using gb_h_nonneg [of batch D] by (auto simp: flush_def kind_ok_def sizes split: if_splits)
next
  case (Cons s ss)
  have "kind_ok e (FullRow s, xRowH e s)" "62 \<le> xRowH e s"
    using Cons.prems(1) [of s] fullDevH_ge [of e s] fullDevH_le [of e s] by (simp_all add: kind_ok_def sizes)
  moreover have "k \<in> set (flush D batch) \<Longrightarrow> kind_ok e k \<and> 62 \<le> snd k"
    using gb_h_nonneg [of batch D] by (auto simp: flush_def kind_ok_def sizes split: if_splits)
  ultimately show ?case using Cons by (auto split: if_splits)
qed

lemma band_rows_ok:
  assumes "\<And>s. s \<in> set devs \<Longrightarrow> chassis_ok e s"
  shows "k \<in> set (band_rows e D devs) \<Longrightarrow> kind_ok e k \<and> 40 \<le> snd k"
  using batch_rows_ok [of devs e k D "[]"] assms
  by (fastforce simp: band_rows_def Let_def kind_ok_def gridBlock_def sizes split: if_splits)

definition band_ok :: "env \<Rightarrow> band \<Rightarrow> bool" where
  "band_ok e b \<longleftrightarrow> 40 \<le> bd_h b \<and> row_ladder (bd_top b) (bd_top b + bd_h b) (bd_rows b) \<and> (\<forall>r \<in> set (bd_rows b). row_ok e r)"

definition band_lo :: "band \<Rightarrow> rat" where "band_lo b = bd_top b - 1 / 20"
definition band_hi :: "band \<Rightarrow> rat" where "band_hi b = bd_top b + bd_h b + 1 / 20"

definition fac_box :: "env \<Rightarrow> string \<Rightarrow> jsval \<Rightarrow> band \<Rightarrow> box" where
  "fac_box e co cc b = hd (boxes_of (draw_band e co cc 0 b))"

lemma band_boxes:
  "boxes_of (draw_band e co cc coCy b) =
     fac_box e co cc b # concat (map (\<lambda>r. boxes_of (draw_row e cc (bd_top b + bd_h b / 2) r)) (bd_rows b))"
  by (simp add: draw_band_def Let_def fac_box_def)

lemma fac_box_drawn:
  "40 \<le> bd_h b \<Longrightarrow> yin (band_lo b) (band_hi b) (fac_box e co cc b)" "xin 220 424 (fac_box e co cc b)"
proof -
  have h: "40 \<le> bd_h b \<Longrightarrow> dm_h FA \<le> bd_h b" by (simp add: sizes)
  show "40 \<le> bd_h b \<Longrightarrow> yin (band_lo b) (band_hi b) (fac_box e co cc b)"
    unfolding band_lo_def band_hi_def fac_box_def draw_band_def Let_def by (simp add: yin_centred [OF h])
  show "xin 220 424 (fac_box e co cc b)"
    by (simp add: fac_box_def draw_band_def Let_def xin_def sizes)
qed

lemma band_drawn:
  assumes ok: "band_ok e b"
  shows "apart (boxes_of (draw_band e co cc coCy b))"
    and "c \<in> set (boxes_of (draw_band e co cc coCy b)) \<Longrightarrow> yin (band_lo b) (band_hi b) c
      \<and> (xin 220 424 c \<or> (\<exists>r \<in> set (bd_rows b). xin GRID_X (GRID_X + row_w e (pr_kind r)) c))"
proof -
  let ?cy = "bd_top b + bd_h b / 2"
  define rs where "rs = concat (map (\<lambda>r. boxes_of (draw_row e cc ?cy r)) (bd_rows b))"
  have lad: "row_ladder (bd_top b) (bd_top b + bd_h b) (bd_rows b)" and rows: "\<And>r. r \<in> set (bd_rows b) \<Longrightarrow> row_ok e r"
    using ok by (auto simp: band_ok_def)
  have rs: "yin (band_lo b) (band_hi b) c \<and> (\<exists>r \<in> set (bd_rows b). xin GRID_X (GRID_X + row_w e (pr_kind r)) c)" if c: "c \<in> set rs" for c
  proof -
    obtain r where r: "r \<in> set (bd_rows b)" "c \<in> set (boxes_of (draw_row e cc ?cy r))" using c by (auto simp: rs_def)
    have "bd_top b \<le> pr_y r \<and> pr_y r + pr_h r \<le> bd_top b + bd_h b" by (rule ladder_inside [OF lad _ r(1)]) simp
    then show ?thesis using row_drawn(2) [OF rows [OF r(1)] r(2)] r(1)
      by (auto simp: row_lo_def row_hi_def band_lo_def band_hi_def elim!: yin_mono)
  qed
  have "sep (fac_box e co cc b) c" if "c \<in> set rs" for c
    using rs [OF that] fac_box_drawn(2) [of e co cc b] by (auto simp: sep_def xin_def GRID_X_def)
  moreover have "apart rs" unfolding rs_def
    by (rule rows.stack_apart [OF rows sorted_wrt_mono_rel [OF _ ladder_sorted [OF lad]]]) (simp_all add: row_lo_def row_hi_def)
  ultimately show "apart (boxes_of (draw_band e co cc coCy b))" by (simp add: band_boxes rs_def)
  show "c \<in> set (boxes_of (draw_band e co cc coCy b)) \<Longrightarrow> yin (band_lo b) (band_hi b) c
      \<and> (xin 220 424 c \<or> (\<exists>r \<in> set (bd_rows b). xin GRID_X (GRID_X + row_w e (pr_kind r)) c))"
    using rs fac_box_drawn(1) [of b e co cc] fac_box_drawn(2) [of e co cc b] ok unfolding band_boxes rs_def [symmetric] band_ok_def by auto
qed

interpretation bands: stacking "\<lambda>b. boxes_of (draw_band e co cc coCy b)" band_lo band_hi "band_ok e" for e co cc coCy
  by unfold_locales (simp_all add: band_drawn)

abbreviation "band_ladder \<equiv> ladder 24 bd_top bd_h"

lemma lay_bands_ok:
  "(\<And>fa s. fa \<in> set fas \<Longrightarrow> s \<in> set (devs_of e co fa) \<Longrightarrow> chassis_ok e s) \<Longrightarrow>
     y \<le> snd (lay_bands e co D first y fas)
     \<and> band_ladder (if first then y else y + 24) (snd (lay_bands e co D first y fas)) (fst (lay_bands e co D first y fas))
     \<and> (\<forall>b \<in> set (fst (lay_bands e co D first y fas)). band_ok e b)
     \<and> (fas \<noteq> [] \<longrightarrow> y + 40 \<le> snd (lay_bands e co D first y fas))"
proof (induction e co D first y fas rule: lay_bands.induct)
  case (2 e co D first y fa fas)
  define y0 where "y0 = (if first then y else y + BAND_GAP)"
  define rl where "rl = (if isColFa e co fa then ([], y0 + dm_h FA) else lay_rows y0 None (band_rows e D (devs_of e co fa)))"
  have k: "kind_ok e k \<and> 40 \<le> snd k" if "k \<in> set (band_rows e D (devs_of e co fa))" for k
    by (rule band_rows_ok [OF _ that], rule 2(2) [of fa]) simp
  have ne: "band_rows e D (devs_of e co fa) \<noteq> []" by (simp add: band_rows_def Let_def)
  have rl: "y0 + 40 \<le> snd rl" "row_ladder y0 (snd rl) (fst rl)" "\<forall>r \<in> set (fst rl). row_ok e r"
  proof -
    have "y0 + snd (hd (band_rows e D (devs_of e co fa))) \<le> snd (lay_rows y0 None (band_rows e D (devs_of e co fa)))"
      using lay_rows_ok [of "band_rows e D (devs_of e co fa)" e y0 None] k ne by blast
    then have "y0 + 40 \<le> snd (lay_rows y0 None (band_rows e D (devs_of e co fa)))"
      using k [OF hd_in_set [OF ne]] by linarith
    then show "y0 + 40 \<le> snd rl" "row_ladder y0 (snd rl) (fst rl)" "\<forall>r \<in> set (fst rl). row_ok e r"
      using lay_rows_ok [of "band_rows e D (devs_of e co fa)" e y0 None] k by (auto simp: rl_def sizes)
  qed
  define rest where "rest = lay_bands e co D False (snd rl) fas"
  have IH: "snd rl \<le> snd rest" "band_ladder (snd rl + 24) (snd rest) (fst rest)" "\<forall>b \<in> set (fst rest). band_ok e b"
    using 2(1) [OF y0_def rl_def] 2(2) by (auto simp: rest_def)
  define b where "b = \<lparr>bd_fa = fa, bd_top = y0, bd_h = snd rl - y0, bd_rows = fst rl\<rparr>"
  have eq: "lay_bands e co D first y (fa # fas) = (b # fst rest, snd rest)"
    by (simp add: Let_def y0_def [symmetric] rl_def [symmetric] rest_def b_def)
  have "band_ok e b" using rl by (simp add: band_ok_def b_def)
  moreover have "y \<le> y0" "(if first then y else y + 24) \<le> y0" by (simp_all add: y0_def BAND_GAP_def)
  ultimately show ?case unfolding eq using IH rl(1) by (simp add: b_def)
qed simp

end
