(* ===== verification/TopoFit.thy ===== *)
theory TopoFit
  imports TopoSpace
begin

text \<open>
  The canvas of \<open>buildTopo\<close>: the blocks of the companies, the newspaper columns and the search for their number, and the
  theorems about the whole drawing: it always exists, no two cards overlap, every card is on the canvas, and every
  shown device has exactly one card unless its company or factory is folded.
\<close>

section \<open>The groups\<close>

definition dev_sum :: "dev_map \<Rightarrow> device multiset" where
  "dev_sum m = sum_list (map (\<lambda>p. group_sum (snd p)) m)"

lemma dev_sum_add: "dev_sum (map_add m s) = add_mset s (dev_sum m)"
proof -
  define c where "c = (case map_of m (coOf s) of Some c \<Rightarrow> c | None \<Rightarrow> [])"
  have "(case map_of m (coOf s) of Some w \<Rightarrow> group_sum w | None \<Rightarrow> {#}) = group_sum c"
    by (simp add: c_def group_sum_def split: option.splits)
  then have "dev_sum (map_add m s) + group_sum c = dev_sum m + add_mset s (group_sum c)"
    using sum_aput [of group_sum "coOf s" "push_key (faOf s) s c" m] group_sum_push [of "faOf s" s c]
    by (simp add: dev_sum_def map_add_def Let_def c_def)
  then show ?thesis by simp
qed

lemma dev_sum_fold: "dev_sum (foldl map_add m xs) = dev_sum m + mset xs"
  by (induction xs arbitrary: m) (simp_all add: dev_sum_add)

definition dev_groups_ok :: "string \<Rightarrow> (string \<times> device list) list \<Rightarrow> bool" where
  "dev_groups_ok co c \<longleftrightarrow> c \<noteq> [] \<and> distinct (map fst c)
     \<and> (\<forall>p \<in> set c. snd p \<noteq> [] \<and> (\<forall>s \<in> set (snd p). coOf s = co \<and> faOf s = fst p))"

definition dev_map_ok :: "dev_map \<Rightarrow> bool" where
  "dev_map_ok m \<longleftrightarrow> distinct (map fst m) \<and> (\<forall>p \<in> set m. dev_groups_ok (fst p) (snd p))"

lemma set_aput: "distinct (map fst m) \<Longrightarrow> set (aput k v m) = insert (k, v) {p \<in> set m. fst p \<noteq> k}"
proof (induction m)
  case (Cons p m)
  then show ?case by (cases p) (auto simp: image_iff)
qed simp

lemma dev_map_ok_add: "dev_map_ok m \<Longrightarrow> dev_map_ok (map_add m s)"
proof -
  assume ok: "dev_map_ok m"
  define c where "c = (case map_of m (coOf s) of Some c \<Rightarrow> c | None \<Rightarrow> [])"
  have c: "c = [] \<or> dev_groups_ok (coOf s) c" using ok by (auto simp: c_def dev_map_ok_def dest!: map_of_SomeD split: option.splits)
  define xs where "xs = (case map_of c (faOf s) of Some xs \<Rightarrow> xs | None \<Rightarrow> [])"
  have dc: "distinct (map fst c)" using c by (auto simp: dev_groups_ok_def)
  have xs: "\<forall>t \<in> set xs. coOf t = coOf s \<and> faOf t = faOf s"
    using c by (auto simp: xs_def dev_groups_ok_def dest!: map_of_SomeD split: option.splits)
  have "push_key (faOf s) s c \<noteq> []" using keys_aput [of "faOf s" "xs @ [s]" c] by (auto simp: push_key_def xs_def)
  then have "dev_groups_ok (coOf s) (push_key (faOf s) s c)"
    using c xs dc distinct_aput [OF dc] by (auto simp: dev_groups_ok_def push_key_def xs_def [symmetric] set_aput)
  then show ?thesis
    using ok distinct_aput [of m] unfolding map_add_def Let_def c_def [symmetric] dev_map_ok_def by (auto simp: set_aput)
qed

lemma dev_map_ok_fold: "dev_map_ok m \<Longrightarrow> dev_map_ok (foldl map_add m xs)"
  by (induction xs arbitrary: m) (simp_all add: dev_map_ok_add)

lemma coMap_ok: "dev_map_ok (coMap e)"
proof -
  define g where "g = (\<lambda>p :: string \<times> (string \<times> device list) list. (fst p, map (\<lambda>q. (fst q, sort_by (devSort (te_h e)) (snd q))) (snd p)))"
  have "dev_map_ok (foldl map_add [] (filter (\<lambda>s. \<not> hosted e s) (te_fleet e)))" by (rule dev_map_ok_fold) (simp add: dev_map_ok_def)
  moreover have "dev_map_ok (map g m)" if "dev_map_ok m" for m
    using that by (auto simp: dev_map_ok_def g_def dev_groups_ok_def comp_def)
  ultimately show ?thesis by (simp add: coMap_def g_def)
qed

lemma coMap_sum: "dev_sum (coMap e) = mset (filter (\<lambda>s. \<not> hosted e s) (te_fleet e))"
proof -
  have "dev_sum (coMap e) = dev_sum (foldl map_add [] (filter (\<lambda>s. \<not> hosted e s) (te_fleet e)))"
    by (simp add: coMap_def dev_sum_def group_sum_def comp_def)
  then show ?thesis by (simp add: dev_sum_fold) (simp add: dev_sum_def)
qed

lemma facs_ok: "co \<in> set (map fst (coMap e)) \<Longrightarrow> dev_groups_ok co (facs_of e co)"
proof -
  assume "co \<in> set (map fst (coMap e))"
  then obtain c where "map_of (coMap e) co = Some c" by (metis domIff dom_map_of_conv_image_fst list.set_map not_None_eq)
  then show ?thesis using coMap_ok [of e] by (auto simp: facs_of_def dev_map_ok_def dest: map_of_SomeD)
qed

lemma set_companies [simp]: "set (companies e) = set (map fst (coMap e))"
  by (simp add: companies_def)

lemma distinct_companies: "distinct (companies e)"
  using coMap_ok [of e] by (simp add: companies_def dev_map_ok_def)

lemma set_sorted_fas [simp]: "set (sorted_fas e co) = fst ` set (facs_of e co)"
  by (simp add: sorted_fas_def)

lemma shown_subset: "set (shown_cos e) \<subseteq> set (companies e)"
  by (auto simp: shown_cos_def focused_def split: option.splits if_splits)

lemma distinct_shown: "distinct (shown_cos e)"
  using distinct_companies by (simp add: shown_cos_def split: option.splits)

lemma devs_of_facs: "co \<in> set (companies e) \<Longrightarrow> q \<in> set (facs_of e co) \<Longrightarrow> devs_of e co (fst q) = snd q"
proof -
  assume a: "co \<in> set (companies e)" "q \<in> set (facs_of e co)"
  then have "distinct (map fst (facs_of e co))" using facs_ok [of co e] by (simp add: dev_groups_ok_def)
  then have "map_of (facs_of e co) (fst q) = Some (snd q)" using a(2) by (simp add: map_of_eq_Some_iff)
  then show ?thesis by (simp add: devs_of_def)
qed

text \<open>The devices of a company, as a multiset, are those of the fleet that are not guests of another device.\<close>

definition company_devs :: "env \<Rightarrow> string \<Rightarrow> device list" where
  "company_devs e co = concat (map (devs_of e co) (sorted_fas e co))"

lemma sum_list_permute: "mset xs = mset ys \<Longrightarrow> sum_list (map f xs) = (sum_list (map f ys) :: 'b::comm_monoid_add)"
  by (metis mset_map sum_mset_sum_list)

lemma company_devs_sum:
  assumes "co \<in> set (companies e)"
  shows "mset (company_devs e co) = group_sum (facs_of e co)"
proof -
  have "mset (company_devs e co) = sum_list (map (\<lambda>fa. mset (devs_of e co fa)) (sorted_fas e co))"
    by (simp add: company_devs_def mset_concat comp_def)
  also have "\<dots> = sum_list (map (\<lambda>fa. mset (devs_of e co fa)) (map fst (facs_of e co)))"
    by (rule sum_list_permute) (simp add: sorted_fas_def)
  also have "\<dots> = group_sum (facs_of e co)"
    using devs_of_facs [OF assms] by (auto simp: group_sum_def comp_def intro!: arg_cong [where f = sum_list])
  finally show ?thesis .
qed

lemma all_devs_sum: "mset (concat (map (company_devs e) (companies e))) = mset (filter (\<lambda>s. \<not> hosted e s) (te_fleet e))"
proof -
  have "mset (concat (map (company_devs e) (companies e))) = sum_list (map (\<lambda>co. group_sum (facs_of e co)) (companies e))"
    using company_devs_sum by (auto simp: mset_concat comp_def intro!: arg_cong [where f = sum_list])
  also have "\<dots> = sum_list (map (\<lambda>co. group_sum (facs_of e co)) (map fst (coMap e)))"
    by (rule sum_list_permute) (simp add: companies_def)
  also have "\<dots> = dev_sum (coMap e)"
  proof -
    have "facs_of e (fst p) = snd p" if "p \<in> set (coMap e)" for p
      using coMap_ok [of e] that by (simp add: facs_of_def dev_map_ok_def map_of_eq_Some_iff [THEN iffD2, of _ _ "snd p"])
    then show ?thesis by (auto simp: dev_sum_def comp_def intro!: arg_cong [where f = sum_list])
  qed
  finally show ?thesis by (simp add: coMap_sum)
qed

lemma company_devs_fleet: "co \<in> set (companies e) \<Longrightarrow> s \<in> set (company_devs e co) \<Longrightarrow> s \<in> set (te_fleet e) \<and> coOf s = co"
proof -
  assume a: "co \<in> set (companies e)" "s \<in> set (company_devs e co)"
  have "s \<in># mset (concat (map (company_devs e) (companies e)))" using a by auto
  then have "s \<in> set (te_fleet e)" by (simp add: all_devs_sum)
  moreover have "coOf s = co"
    using a facs_ok [of co e] devs_of_facs [OF a(1)] by (fastforce simp: company_devs_def dev_groups_ok_def)
  ultimately show ?thesis by simp
qed

section \<open>The block of a company\<close>

definition widths_ok :: "env \<Rightarrow> rat \<Rightarrow> band list \<Rightarrow> bool" where
  "widths_ok e W bs \<longleftrightarrow> 0 \<le> W \<and> (\<forall>b \<in> set bs. \<forall>r \<in> set (bd_rows b). row_w e (pr_kind r) \<le> W)"

definition block_ok :: "env \<Rightarrow> rat \<Rightarrow> placed \<Rightarrow> bool" where
  "block_ok e W cp \<longleftrightarrow> 40 \<le> pc_h cp \<and> band_ladder (pc_top cp) (pc_top cp + pc_h cp) (pc_bands cp)
     \<and> (\<forall>b \<in> set (pc_bands cp). band_ok e b) \<and> widths_ok e W (pc_bands cp)"

definition fleet_ok :: "env \<Rightarrow> bool" where
  "fleet_ok e \<longleftrightarrow> (\<forall>s \<in> set (te_fleet e). chassis_ok e s)"

lemma foldl_max_ge: "(a :: rat) \<le> foldl max a xs \<and> (\<forall>x \<in> set xs. x \<le> foldl max a xs)"
proof (induction xs arbitrary: a)
  case (Cons x xs)
  have "max a x \<le> foldl max (max a x) xs" "\<forall>y \<in> set xs. y \<le> foldl max (max a x) xs" using Cons by auto
  then show ?case by (auto intro: order_trans [of _ "max a x"])
qed simp

lemma row_shift_ok: "row_ok e (r\<lparr>pr_y := y\<rparr>) = row_ok e r"
  by (simp add: row_ok_def)

lemma band_shift_ok:
  "band_ok e b \<Longrightarrow> band_ok e (b\<lparr>bd_top := bd_top b + dy, bd_rows := map (\<lambda>r. r\<lparr>pr_y := pr_y r + dy\<rparr>) (bd_rows b)\<rparr>)"
  using ladder_shift [of pr_y "\<lambda>r. r\<lparr>pr_y := pr_y r + dy\<rparr>" dy pr_h 12 "bd_top b" "bd_top b + bd_h b" "bd_rows b"]
  by (auto simp: band_ok_def row_shift_ok algebra_simps)

lemma planned_block:
  fixes D :: nat
  assumes "fleet_ok e" "co \<in> set (companies e)"
  defines "p \<equiv> planCompany e co D"
  shows "block_ok e (pl_w p - GRID_X) (offsetCompany p dy x)" "GRID_X + dm_w CARDD \<le> pl_w p"
proof -
  let ?b = "lay_bands e co D True 0 (sorted_fas e co)"
  have ne: "sorted_fas e co \<noteq> []"
    using facs_ok [of co e] assms(2) by (simp add: sorted_fas_def dev_groups_ok_def)
  have ch: "chassis_ok e s" if "fa \<in> set (sorted_fas e co)" "s \<in> set (devs_of e co fa)" for fa s
    using company_devs_fleet [OF assms(2), of s] that assms(1) unfolding company_devs_def fleet_ok_def by fastforce
  have L: "band_ladder 0 (snd ?b) (fst ?b)" "\<forall>b \<in> set (fst ?b). band_ok e b" "40 \<le> snd ?b"
    using lay_bands_ok [of "sorted_fas e co" e co 0 D True, OF ch] ne by auto
  have m: "dm_w CARDD \<le> band_w e (fst ?b)" "widths_ok e (band_w e (fst ?b)) (fst ?b)"
    using foldl_max_ge [of "dm_w CARDD" "map (\<lambda>r. row_w e (pr_kind r)) (concat (map bd_rows (fst ?b)))"]
    by (auto simp: band_w_def widths_ok_def sizes)
  show w: "GRID_X + dm_w CARDD \<le> pl_w p" using m by (simp add: p_def planCompany_def Let_def)
  show "block_ok e (pl_w p - GRID_X) (offsetCompany p dy x)"
  proof (cases "isColCo e co")
    case True
    then show ?thesis by (simp add: p_def planCompany_def block_ok_def offsetCompany_def widths_ok_def sizes)
  next
    case False
    have p: "p = \<lparr>pl_co = co, pl_h = snd ?b, pl_collapsed = False, pl_bands = fst ?b, pl_w = GRID_X + band_w e (fst ?b)\<rparr>"
      using False by (simp add: p_def planCompany_def Let_def)
    define sh where "sh = (\<lambda>b :: band. b\<lparr>bd_top := bd_top b + dy, bd_rows := map (\<lambda>r. r\<lparr>pr_y := pr_y r + dy\<rparr>) (bd_rows b)\<rparr>)"
    have off: "offsetCompany p dy x = \<lparr>pc_co = co, pc_collapsed = False, pc_top = dy, pc_h = snd ?b, pc_xOff = x, pc_bands = map sh (fst ?b)\<rparr>"
      by (simp add: offsetCompany_def p sh_def)
    have "band_ladder (0 + dy) (snd ?b + dy) (map sh (fst ?b))" by (rule ladder_shift [OF _ L(1)]) (simp add: sh_def)
    moreover have "\<forall>b \<in> set (map sh (fst ?b)). band_ok e b" using L(2) by (auto simp: sh_def intro!: band_shift_ok)
    moreover have "widths_ok e (band_w e (fst ?b)) (map sh (fst ?b))" using m(2) by (simp add: widths_ok_def sh_def)
    moreover have "pl_w p - GRID_X = band_w e (fst ?b)" by (simp add: p)
    ultimately show ?thesis unfolding block_ok_def off using L(3) by (simp add: add.commute)
  qed
qed

definition co_box :: "env \<Rightarrow> placed \<Rightarrow> box" where
  "co_box e cp = hd (boxes_of (draw_company e cp))"

lemma company_boxes:
  "boxes_of (draw_company e cp) = co_box e cp
     # concat (map (\<lambda>b. boxes_of (draw_band e (pc_co cp) (coColor e (pc_co cp)) (pc_top cp + pc_h cp / 2) b)) (pc_bands cp))"
  by (simp add: draw_company_def Let_def co_box_def)

lemma block_drawn:
  assumes ok: "block_ok e W cp"
  shows "apart (boxes_of (draw_company e cp))"
    and "b \<in> set (boxes_of (draw_company e cp)) \<Longrightarrow> yin (pc_top cp - 4) (pc_top cp + pc_h cp + 4) b \<and> xin 24 (GRID_X + W) b"
proof -
  let ?d = "\<lambda>b. boxes_of (draw_band e (pc_co cp) (coColor e (pc_co cp)) (pc_top cp + pc_h cp / 2) b)"
  have lad: "band_ladder (pc_top cp) (pc_top cp + pc_h cp) (pc_bands cp)" and bands: "\<And>b. b \<in> set (pc_bands cp) \<Longrightarrow> band_ok e b"
    and W: "0 \<le> W" "\<And>b r. b \<in> set (pc_bands cp) \<Longrightarrow> r \<in> set (bd_rows b) \<Longrightarrow> row_w e (pr_kind r) \<le> W" and h: "40 \<le> pc_h cp"
    using ok by (auto simp: block_ok_def widths_ok_def)
  define bs where "bs = concat (map ?d (pc_bands cp))"
  have bs: "yin (pc_top cp - 4) (pc_top cp + pc_h cp + 4) c \<and> xin 220 (GRID_X + W) c" if c: "c \<in> set bs" for c
  proof -
    obtain b where b: "b \<in> set (pc_bands cp)" "c \<in> set (?d b)" using c by (auto simp: bs_def)
    have "pc_top cp \<le> bd_top b \<and> bd_top b + bd_h b \<le> pc_top cp + pc_h cp" by (rule ladder_inside [OF lad _ b(1)]) simp
    then have "yin (pc_top cp - 4) (pc_top cp + pc_h cp + 4) c"
      using band_drawn(2) [OF bands [OF b(1)] b(2)] by (auto simp: band_lo_def band_hi_def elim!: yin_mono)
    moreover have "xin 220 (GRID_X + W) c"
      using band_drawn(2) [OF bands [OF b(1)] b(2)] W(1) W(2) [OF b(1)] by (auto simp: GRID_X_def xin_def intro: order_trans)
    ultimately show ?thesis ..
  qed
  have cb: "xin 24 200 (co_box e cp)" by (simp add: co_box_def draw_company_def Let_def xin_def sizes)
  have y: "yin (pc_top cp - 4) (pc_top cp + pc_h cp + 4) (co_box e cp)"
    using r1_bounds [of "pc_top cp + pc_h cp / 2 - 23"] h
    by (simp add: co_box_def draw_company_def Let_def yin_def sizes)
  have "sep (co_box e cp) c" if "c \<in> set bs" for c using sep_x [OF cb conjunct2 [OF bs [OF that]]] by simp
  moreover have "apart bs" unfolding bs_def
    by (rule bands.stack_apart [OF bands sorted_wrt_mono_rel [OF _ ladder_sorted [OF lad]]]) (simp_all add: band_lo_def band_hi_def)
  ultimately show "apart (boxes_of (draw_company e cp))" by (simp add: company_boxes bs_def)
  have "xin 24 (GRID_X + W) (co_box e cp)" using cb W(1) by (auto simp: GRID_X_def elim!: xin_mono)
  moreover have "xin 24 (GRID_X + W) c" if "c \<in> set bs" for c using bs [OF that] by (auto elim!: xin_mono)
  ultimately show "b \<in> set (boxes_of (draw_company e cp)) \<Longrightarrow> yin (pc_top cp - 4) (pc_top cp + pc_h cp + 4) b \<and> xin 24 (GRID_X + W) b"
    using bs y unfolding company_boxes bs_def [symmetric] by auto
qed

section \<open>The columns of the canvas\<close>

lemma col_step_concat:
  "col_step C t (full, cur, hh) p = (full', cur', hh') \<Longrightarrow> concat full' @ cur' = concat full @ cur @ [p]
     \<and> (length full < max 1 C \<longrightarrow> length full' < max 1 C)"
  by (auto simp: col_step_def Let_def split: if_splits)

lemma col_fold_concat:
  "foldl (col_step C t) (full, cur, hh) ps = (full', cur', hh') \<Longrightarrow> concat full' @ cur' = concat full @ cur @ ps
     \<and> (length full < max 1 C \<longrightarrow> length full' < max 1 C)"
proof (induction ps arbitrary: full cur hh)
  case (Cons p ps)
  obtain f c k where st: "col_step C t (full, cur, hh) p = (f, c, k)" by (cases "col_step C t (full, cur, hh) p")
  then show ?case using Cons.IH [of f c k] Cons.prems col_step_concat [OF st] by auto
qed auto

text \<open>The columns hold the companies in order, none twice, and there are at most \<open>C\<close> of them.\<close>

lemma columns_facts: "concat (columns C ps) = ps" "columns C ps \<noteq> []" "length (columns C ps) \<le> max 1 C"
proof -
  define t where "t = (if 1 < C then Some (round64 ((sum_list (map pl_h ps) + CO_GAP * (if ps = [] then 0 else of_nat (length ps) - 1)) / of_nat C)) else None)"
  obtain f c k where st: "foldl (col_step C t) ([], [], 0) ps = (f, c, k)" by (cases "foldl (col_step C t) ([], [], 0) ps")
  have c: "columns C ps = f @ [c]" using st by (simp add: columns_def Let_def t_def)
  have f: "concat f @ c = ps" "length f < max 1 C" using col_fold_concat [OF st] by auto
  show "concat (columns C ps) = ps" "columns C ps \<noteq> []" "length (columns C ps) \<le> max 1 C" using f by (auto simp: c)
qed

definition from_plan :: "rat \<Rightarrow> plan list \<Rightarrow> placed \<Rightarrow> bool" where
  "from_plan x ps cp \<longleftrightarrow> (\<exists>p \<in> set ps. \<exists>y. cp = offsetCompany p y x)"

lemma offset_sel [simp]:
  "pc_co (offsetCompany p y x) = pl_co p" "pc_top (offsetCompany p y x) = y" "pc_h (offsetCompany p y x) = pl_h p"
  "pc_xOff (offsetCompany p y x) = x" "pc_collapsed (offsetCompany p y x) = pl_collapsed p"
  by (simp_all add: offsetCompany_def)

abbreviation "block_ladder \<equiv> ladder CO_GAP pc_top pc_h"

lemma lay_column_ok:
  "\<forall>p \<in> set ps. 0 \<le> pl_h p \<Longrightarrow> y \<le> snd (lay_column x first y ps)
     \<and> block_ladder (if first then y else y + CO_GAP) (snd (lay_column x first y ps)) (fst (lay_column x first y ps))
     \<and> list_all2 (\<lambda>cp p. \<exists>z. cp = offsetCompany p z x) (fst (lay_column x first y ps)) ps"
proof (induction x first y ps rule: lay_column.induct)
  case (2 x first y p ps)
  define y1 where "y1 = (if first then y else y + CO_GAP)"
  have IH: "y1 + pl_h p \<le> snd (lay_column x False (y1 + pl_h p) ps)"
    "block_ladder (y1 + pl_h p + CO_GAP) (snd (lay_column x False (y1 + pl_h p) ps)) (fst (lay_column x False (y1 + pl_h p) ps))"
    "list_all2 (\<lambda>cp p. \<exists>z. cp = offsetCompany p z x) (fst (lay_column x False (y1 + pl_h p) ps)) ps"
    using 2(1) [OF y1_def] 2(2) by auto
  have "y \<le> y1" by (simp add: y1_def CO_GAP_def)
  then show ?case using IH 2(2) by (auto simp: Let_def y1_def [symmetric] intro: order_trans)
qed simp

lemma list_all2_in: "list_all2 R xs ys \<Longrightarrow> x \<in> set xs \<Longrightarrow> \<exists>y \<in> set ys. R x y"
  by (induction rule: list_all2_induct) auto

definition block_sep :: "(string \<Rightarrow> rat) \<Rightarrow> placed \<Rightarrow> placed \<Rightarrow> bool" where
  "block_sep wd p q \<longleftrightarrow> pc_xOff p + wd (pc_co p) + CANVAS_COL_GAP \<le> pc_xOff q \<or> pc_top p + pc_h p + CO_GAP \<le> pc_top q"

definition inside_canvas :: "(string \<Rightarrow> rat) \<Rightarrow> rat \<Rightarrow> rat \<Rightarrow> rat \<Rightarrow> placed \<Rightarrow> bool" where
  "inside_canvas wd x x' maxH p \<longleftrightarrow> x \<le> pc_xOff p \<and> pc_xOff p + wd (pc_co p) + CANVAS_COL_GAP \<le> x'
     \<and> PAD \<le> pc_top p \<and> pc_top p + pc_h p + PAD \<le> maxH"

definition plan_fits :: "(string \<Rightarrow> rat) \<Rightarrow> plan \<Rightarrow> bool" where
  "plan_fits wd p \<longleftrightarrow> 0 \<le> pl_h p \<and> 0 \<le> pl_w p \<and> pl_w p = wd (pl_co p)"

lemma inside_canvas_mono:
  "inside_canvas wd x x' H p \<Longrightarrow> y \<le> x \<Longrightarrow> x' \<le> y' \<Longrightarrow> H \<le> H' \<Longrightarrow> inside_canvas wd y y' H' p"
  by (simp add: inside_canvas_def)

lemma lay_columns_ok:
  "\<forall>c \<in> set cs. \<forall>p \<in> set c. plan_fits wd p \<Longrightarrow> lay_columns x H cs = (laid, x', H') \<Longrightarrow>
     x \<le> x' \<and> H \<le> H' \<and> sorted_wrt (block_sep wd) laid \<and> (\<forall>p \<in> set laid. inside_canvas wd x x' H' p)
     \<and> list_all2 (\<lambda>cp p. \<exists>z x. cp = offsetCompany p z x) laid (concat cs)"
proof (induction cs arbitrary: x H laid x' H')
  case (Cons c cs)
  define l where "l = lay_column x True PAD c"
  have fit: "\<forall>p \<in> set c. plan_fits wd p" and h: "\<forall>p \<in> set c. 0 \<le> pl_h p" using Cons.prems(1) by (auto simp: plan_fits_def)
  have l: "PAD \<le> snd l" "block_ladder PAD (snd l) (fst l)" "list_all2 (\<lambda>cp p. \<exists>z. cp = offsetCompany p z x) (fst l) c"
    using lay_column_ok [OF h, of PAD x True] by (auto simp: l_def)
  have w: "wd (pl_co p) \<le> col_w c \<and> 0 \<le> col_w c" if "p \<in> set c" for p
    using fit that by (auto simp: col_w_def plan_fits_def intro: order_trans [OF _ Max_ge])
  have w0: "0 \<le> col_w c"
  proof (cases c)
    case (Cons p ps)
    then show ?thesis using w [of p] by simp
  qed (simp add: col_w_def sizes)
  define x1 where "x1 = x + (col_w c + CANVAS_COL_GAP)"
  define H1 where "H1 = max H (snd l + PAD)"
  obtain rest where rest: "lay_columns x1 H1 cs = (rest, x', H')" "laid = fst l @ rest"
    using Cons.prems(2) by (cases "lay_columns x1 H1 cs") (simp add: Let_def l_def [symmetric] x1_def [symmetric] H1_def [symmetric])
  have IH: "x1 \<le> x'" "H1 \<le> H'" "sorted_wrt (block_sep wd) rest" "\<forall>p \<in> set rest. inside_canvas wd x1 x' H' p"
    "list_all2 (\<lambda>cp p. \<exists>z x. cp = offsetCompany p z x) rest (concat cs)"
    using Cons.IH [OF _ rest(1)] Cons.prems(1) by auto
  have here: "pc_xOff p = x \<and> wd (pc_co p) \<le> col_w c" if "p \<in> set (fst l)" for p
    using list_all2_in [OF l(3) that] w by auto
  have in1: "inside_canvas wd x x' H' p" if "p \<in> set (fst l)" for p
    using here [OF that] ladder_inside [OF l(2) _ that] IH(1,2)
    by (simp add: inside_canvas_def x1_def H1_def CO_GAP_def)
  have "block_sep wd p q" if "p \<in> set (fst l)" "q \<in> set rest" for p q
    using here [OF that(1)] IH(4) that(2) by (force simp: block_sep_def inside_canvas_def x1_def)
  moreover have "sorted_wrt (block_sep wd) (fst l)"
    by (rule sorted_wrt_mono_rel [OF _ ladder_sorted [OF l(2)]]) (simp_all add: block_sep_def CO_GAP_def)
  moreover have "x \<le> x1" "H \<le> H1" using w0 by (simp_all add: x1_def H1_def CANVAS_COL_GAP_def)
  moreover have "inside_canvas wd x x' H' p" if "p \<in> set rest" for p
    using IH(4) that \<open>x \<le> x1\<close> by (auto elim: inside_canvas_mono)
  moreover have "list_all2 (\<lambda>cp p. \<exists>z x. cp = offsetCompany p z x) (fst l) c" using l(3) by (rule list_all2_mono) blast
  ultimately show ?case using IH in1 by (auto simp: rest(2) sorted_wrt_append intro: order_trans list_all2_appendI)
qed simp

section \<open>The whole drawing\<close>

definition plan_w :: "env \<Rightarrow> nat \<Rightarrow> string \<Rightarrow> rat" where "plan_w e D co = pl_w (planCompany e co D)"

lemma planCompany_co [simp]: "pl_co (planCompany e co D) = co"
  by (simp add: planCompany_def Let_def)

lemma packing_ok:
  fixes D C :: nat
  assumes "fleet_ok e"
  defines "p \<equiv> packFor e D C"
  shows "list_all2 (\<lambda>cp co. \<exists>z x. cp = offsetCompany (planCompany e co D) z x) (pk_cos p) (shown_cos e)"
    "sorted_wrt (block_sep (plan_w e D)) (pk_cos p)"
    "cp \<in> set (pk_cos p) \<Longrightarrow> inside_canvas (plan_w e D) 0 (pk_w p - PAD + CANVAS_COL_GAP) (pk_h p) cp
       \<and> block_ok e (plan_w e D (pc_co cp) - GRID_X) cp"
proof -
  let ?plans = "map (\<lambda>co. planCompany e co D) (shown_cos e)"
  have ok: "block_ok e (plan_w e D co - GRID_X) (offsetCompany (planCompany e co D) z x)" "0 \<le> plan_w e D co"
    if "co \<in> set (shown_cos e)" for co z x
  proof -
    have "co \<in> set (companies e)" using subsetD [OF shown_subset that] .
    from planned_block [OF assms(1) this, of D] show "block_ok e (plan_w e D co - GRID_X) (offsetCompany (planCompany e co D) z x)"
      "0 \<le> plan_w e D co" by (simp_all add: plan_w_def sizes)
  qed
  have "\<forall>c \<in> set (columns C ?plans). \<forall>p \<in> set c. plan_fits (plan_w e D) p"
  proof (intro ballI)
    fix c p assume "c \<in> set (columns C ?plans)" "p \<in> set c"
    then have "p \<in> set (concat (columns C ?plans))" by auto
    then obtain co where co: "co \<in> set (shown_cos e)" "p = planCompany e co D" by (auto simp: columns_facts)
    have "40 \<le> pl_h p" using ok(1) [OF co(1), of 0 0] by (simp add: block_ok_def co(2))
    then show "plan_fits (plan_w e D) p" using ok(2) [OF co(1)] by (simp add: plan_fits_def co(2) plan_w_def)
  qed
  note fits = this
  obtain laid x maxH where l: "lay_columns 0 0 (columns C ?plans) = (laid, x, maxH)"
    by (cases "lay_columns 0 0 (columns C ?plans)") auto
  have p: "pk_cos p = laid" "pk_w p = x - CANVAS_COL_GAP + PAD" "pk_h p = maxH"
    using l columns_facts(2) [of C ?plans] by (simp_all add: p_def packFor_def Let_def)
  note L = lay_columns_ok [OF fits l]
  then show "sorted_wrt (block_sep (plan_w e D)) (pk_cos p)" by (simp add: p)
  have "list_all2 (\<lambda>cp p. \<exists>z x. cp = offsetCompany p z x) laid ?plans" using L by (simp add: columns_facts)
  then show al: "list_all2 (\<lambda>cp co. \<exists>z x. cp = offsetCompany (planCompany e co D) z x) (pk_cos p) (shown_cos e)"
    by (simp add: p list_all2_map2)
  assume cp: "cp \<in> set (pk_cos p)"
  obtain co z y where co: "co \<in> set (shown_cos e)" "cp = offsetCompany (planCompany e co D) z y"
    using list_all2_in [OF al cp] by blast
  show "inside_canvas (plan_w e D) 0 (pk_w p - PAD + CANVAS_COL_GAP) (pk_h p) cp \<and> block_ok e (plan_w e D (pc_co cp) - GRID_X) cp"
    using L cp ok(1) [OF co(1), of z y] by (simp add: p co(2))
qed

definition shift_box :: "rat \<Rightarrow> box \<Rightarrow> box" where
  "shift_box x b = b\<lparr>bx_x := r1 (bx_x b + x)\<rparr>"

lemma boxes_of_shift: "boxes_of (map (shift x) ss) = map (shift_box x) (boxes_of ss)"
  by (induction ss rule: boxes_of.induct) (simp_all add: shift_def shift_box_def)

lemma boxes_of_strokes:
  "boxes_of (strokes e p) = concat (map (\<lambda>cp. map (shift_box (pc_xOff cp)) (boxes_of (draw_company e cp))) (pk_cos p))"
  by (simp add: strokes_def boxes_of_shift)

definition overlap :: "box \<Rightarrow> box \<Rightarrow> bool" where
  "overlap b c \<longleftrightarrow> bx_x b < bx_x c + bx_w c \<and> bx_x c < bx_x b + bx_w b \<and> bx_y b < bx_y c + bx_h c \<and> bx_y c < bx_y b + bx_h b"

definition on_canvas :: "rat \<Rightarrow> rat \<Rightarrow> box \<Rightarrow> bool" where
  "on_canvas W H b \<longleftrightarrow> 0 \<le> bx_x b \<and> bx_x b + bx_w b \<le> W \<and> 0 \<le> bx_y b \<and> bx_y b + bx_h b \<le> H"

lemma sep_no_overlap: "sep b c \<Longrightarrow> \<not> overlap (shift_box x b) (shift_box x c)"
  using r1_bounds [of "bx_x b + x"] r1_bounds [of "bx_x c + x"] by (auto simp: sep_def overlap_def shift_box_def)

text \<open>A card of a company stays within the block of the company, wherever the block is put.\<close>

lemma shifted_block:
  assumes "block_ok e (plan_w e D (pc_co cp) - GRID_X) cp" "b \<in> set (boxes_of (draw_company e cp))"
  defines "b' \<equiv> shift_box (pc_xOff cp) b"
  shows "xin (pc_xOff cp + 23) (pc_xOff cp + plan_w e D (pc_co cp) + 1) b'" "yin (pc_top cp - 4) (pc_top cp + pc_h cp + 4) b'"
  using block_drawn(2) [OF assms(1,2)] r1_bounds [of "bx_x b + pc_xOff cp"] by (auto simp: b'_def shift_box_def xin_def yin_def)

lemma sorted_wrt_concat:
  assumes "\<And>x. x \<in> set xs \<Longrightarrow> sorted_wrt P (f x)" "sorted_wrt Q xs"
    "\<And>x y b c. x \<in> set xs \<Longrightarrow> y \<in> set xs \<Longrightarrow> Q x y \<Longrightarrow> b \<in> set (f x) \<Longrightarrow> c \<in> set (f y) \<Longrightarrow> P b c"
  shows "sorted_wrt P (concat (map f xs))"
  using assms
proof (induction xs)
  case (Cons x xs)
  have "P b c" if "b \<in> set (f x)" "y \<in> set xs" "c \<in> set (f y)" for b c y
    using Cons.prems(2) Cons.prems(3) [of x y b c] that by simp
  moreover have "sorted_wrt P (concat (map f xs))"
  proof (rule Cons.IH)
    fix u v b c assume "u \<in> set xs" "v \<in> set xs" "Q u v" "b \<in> set (f u)" "c \<in> set (f v)"
    then show "P b c" by (intro Cons.prems(3) [of u v b c]) auto
  qed (use Cons.prems(1,2) in auto)
  ultimately show ?case using Cons.prems(1) [of x] by (auto simp: sorted_wrt_append)
qed simp

lemma packing_no_overlap:
  assumes ok: "fleet_ok e"
  shows "sorted_wrt (\<lambda>b c. \<not> overlap b c) (boxes_of (strokes e (packFor e D C)))"
  unfolding boxes_of_strokes
proof (rule sorted_wrt_concat [OF _ packing_ok(2) [OF ok]])
  fix cp assume cp: "cp \<in> set (pk_cos (packFor e D C))"
  have "apart (boxes_of (draw_company e cp))" using block_drawn(1) packing_ok(3) [OF ok cp] by blast
  then show "sorted_wrt (\<lambda>b c. \<not> overlap b c) (map (shift_box (pc_xOff cp)) (boxes_of (draw_company e cp)))"
    unfolding apart_def sorted_wrt_map by (rule sorted_wrt_mono_rel [rotated]) (rule sep_no_overlap)
next
  fix p q b c
  assume pq: "p \<in> set (pk_cos (packFor e D C))" "q \<in> set (pk_cos (packFor e D C))" "block_sep (plan_w e D) p q"
    and bc: "b \<in> set (map (shift_box (pc_xOff p)) (boxes_of (draw_company e p)))" "c \<in> set (map (shift_box (pc_xOff q)) (boxes_of (draw_company e q)))"
  have "xin (pc_xOff p + 23) (pc_xOff p + plan_w e D (pc_co p) + 1) b" "yin (pc_top p - 4) (pc_top p + pc_h p + 4) b"
    "xin (pc_xOff q + 23) (pc_xOff q + plan_w e D (pc_co q) + 1) c" "yin (pc_top q - 4) (pc_top q + pc_h q + 4) c"
    using bc shifted_block packing_ok(3) [OF ok pq(1)] packing_ok(3) [OF ok pq(2)] by auto
  then show "\<not> overlap b c" using pq(3) by (auto simp: block_sep_def xin_def yin_def overlap_def sizes)
qed

lemma packing_on_canvas:
  assumes ok: "fleet_ok e" and b: "b \<in> set (boxes_of (strokes e (packFor e D C)))"
  shows "on_canvas (of_int (rround (pk_w (packFor e D C)))) (of_int (rround (pk_h (packFor e D C)))) b"
proof -
  let ?p = "packFor e D C"
  obtain cp where cp: "cp \<in> set (pk_cos ?p)" "b \<in> set (map (shift_box (pc_xOff cp)) (boxes_of (draw_company e cp)))"
    using b by (auto simp: boxes_of_strokes)
  have "xin (pc_xOff cp + 23) (pc_xOff cp + plan_w e D (pc_co cp) + 1) b" "yin (pc_top cp - 4) (pc_top cp + pc_h cp + 4) b"
    using cp(2) shifted_block packing_ok(3) [OF ok cp(1)] by auto
  moreover have "inside_canvas (plan_w e D) 0 (pk_w ?p - PAD + CANVAS_COL_GAP) (pk_h ?p) cp" using packing_ok(3) [OF ok cp(1)] by simp
  moreover have "x - 1 \<le> of_int (rround x)" for x :: rat unfolding rround_def by linarith
  note this [of "pk_w ?p"] this [of "pk_h ?p"]
  ultimately show ?thesis by (simp add: on_canvas_def xin_def yin_def inside_canvas_def sizes)
qed

section \<open>The search\<close>

definition cand_ok :: "env \<Rightarrow> cand option \<Rightarrow> bool" where
  "cand_ok e c \<longleftrightarrow> (case c of None \<Rightarrow> True
     | Some b \<Rightarrow> cd_pl b = packFor e (cd_D b) (cd_C b) \<and> (cd_D b, cd_C b) \<in> set search_space \<and> pk_colsUsed (cd_pl b) = cd_C b)"

lemma colsUsed_le: "pk_colsUsed (packFor e D C) \<le> max 1 C"
  using columns_facts(3) by (simp add: packFor_def Let_def split: prod.splits)

lemma colsUsed_pos: "0 < pk_colsUsed (packFor e D C)"
  using columns_facts(2) by (simp add: packFor_def Let_def split: prod.splits)

lemma try_pack_ok:
  assumes "cand_ok e (fst bf)" "cand_ok e (snd bf)" "(D, C) \<in> set search_space"
  shows "cand_ok e (fst (try_pack e bf (D, C)))" "cand_ok e (snd (try_pack e bf (D, C)))"
    "snd bf \<noteq> None \<or> C = 1 \<Longrightarrow> snd (try_pack e bf (D, C)) \<noteq> None"
proof -
  have "1 \<le> C" using assms(3) by (auto simp: search_space_def)
  then have "pk_colsUsed (packFor e D C) < C \<or> pk_colsUsed (packFor e D C) = C" using colsUsed_le [of e D C] by (simp add: le_less)
  then show "cand_ok e (fst (try_pack e bf (D, C)))" "cand_ok e (snd (try_pack e bf (D, C)))"
    using assms by (auto simp: try_pack_def Let_def cand_ok_def)
  show "snd bf \<noteq> None \<or> C = 1 \<Longrightarrow> snd (try_pack e bf (D, C)) \<noteq> None"
    using colsUsed_pos [of e D 1] by (auto simp: try_pack_def Let_def better_def split: option.splits)
qed

lemma fold_try_ok:
  assumes "set dcs \<subseteq> set search_space" "cand_ok e (fst bf)" "cand_ok e (snd bf)"
  shows "cand_ok e (fst (foldl (try_pack e) bf dcs)) \<and> cand_ok e (snd (foldl (try_pack e) bf dcs))
    \<and> (snd bf \<noteq> None \<longrightarrow> snd (foldl (try_pack e) bf dcs) \<noteq> None)"
  using assms
proof (induction dcs arbitrary: bf)
  case (Cons dc dcs)
  obtain D C where dc: "dc = (D, C)" by (cases dc)
  show ?case using Cons.IH [of "try_pack e bf dc"] try_pack_ok [of e bf D C] Cons.prems by (simp add: dc)
qed simp

lemma search_space_Cons: "search_space = (1, 1) # tl search_space"
  by (simp add: search_space_def MAX_D_def MAX_C_def upt_rec)

lemma best_plan_ok: "\<exists>b. best_plan e = Some b \<and> cand_ok e (Some b)"
proof -
  define r where "r = foldl (try_pack e) (None, None) search_space"
  define s1 where "s1 = try_pack e (None, None) (1, 1)"
  have "r = foldl (try_pack e) s1 (tl search_space)" unfolding r_def s1_def by (subst search_space_Cons) simp
  moreover have "(1, 1) \<in> set search_space" by (subst search_space_Cons) simp
  then have "cand_ok e (fst s1)" "cand_ok e (snd s1)" "snd s1 \<noteq> None"
    using try_pack_ok [of e "(None, None)" 1 1] by (simp_all add: s1_def cand_ok_def)
  ultimately have r: "cand_ok e (fst r)" "cand_ok e (snd r)" "snd r \<noteq> None"
    using fold_try_ok [of "tl search_space" e s1] list.set_sel(2) [of search_space] by (auto simp: search_space_def MAX_D_def MAX_C_def upt_rec)
  have "best_plan e = (if fst r = None then snd r else fst r)" by (simp add: best_plan_def r_def split: prod.splits)
  then show ?thesis using r by (cases "fst r"; cases "snd r") auto
qed

end
