(* ===== verification/Topology.thy ===== *)
theory Topology
  imports TopoFit
begin

text \<open>
  The theorems about the topology drawing of \<open>src/web/js/model/compute/topo.js\<close>: it always exists and is free of
  overlaps, every device has one card, an Endurance chassis with topology data breaks the layout, the colours of the
  settings screen are those of the drawing, and the lanes of a cluster are complete.
\<close>

section \<open>Devices on the canvas\<close>

definition dev_boxes :: "stroke list \<Rightarrow> box list" where
  "dev_boxes ss = filter (\<lambda>b. is_device (bx_card b)) (boxes_of ss)"

lemma dev_boxes_append [simp]: "dev_boxes (as @ bs) = dev_boxes as @ dev_boxes bs"
  by (simp add: dev_boxes_def)

lemma dev_boxes_concat [simp]: "dev_boxes (concat (map f xs)) = concat (map (\<lambda>x. dev_boxes (f x)) xs)"
  by (induction xs) (simp_all add: dev_boxes_def)

lemma dev_boxes_simps [simp]:
  "dev_boxes [] = []" "dev_boxes (hLink a b c d st cc # ss) = dev_boxes ss" "dev_boxes (SLine p st cc # ss) = dev_boxes ss"
  "dev_boxes (SBox bb # ss) = (if is_device (bx_card bb) then bb # dev_boxes ss else dev_boxes ss)"
  by (simp_all add: dev_boxes_def)

lemma dev_boxes_pushDevice [simp]: "dev_boxes (pushDevice e s x y f hO # ss) = dev_box e s x y f hO # dev_boxes ss"
  by (simp add: pushDevice_def dev_box_def)

lemma dev_boxes_leaf [simp]:
  "dev_boxes (draw_lane_vm e s cc st cy vT p) = []" "dev_boxes (draw_guest e s cc cy vT p) = []"
  "dev_boxes (draw_plain_vm e s cc cy vT p) = []" "dev_boxes (draw_plain_node e s cc cy vT p) = []"
  by (simp_all add: dev_boxes_def slot_box)

lemma concat_Nils [simp]: "concat (map (\<lambda>x. []) xs) = []"
  by (induction xs) simp_all

lemma dev_boxes_branch [simp]:
  "dev_boxes (draw_lane e s cc bandCy lt) = []" "dev_boxes (pushRealRow e s bandCy cc) = []" "dev_boxes (draw_plain e s devCy cc) = []"
  by (simp_all add: draw_lane_def pushRealRow_def draw_plain_def Let_def lane_node_box_def lane_group_box_def eac_card_def)

lemma dev_ids_full: "map bx_deviceId (dev_boxes (draw_full e cc faCy y rh s)) = [d_id s]"
  by (simp add: draw_full_def Let_def dev_box_def pushDevice_def)

fun kind_devs :: "row_kind \<Rightarrow> device list" where
  "kind_devs (FullRow s) = [s]"
| "kind_devs (GridRow g) = map fst (gb_cells g)"

lemma grid_devs [simp]: "map fst (gb_cells (gridBlock items D)) = items" "gb_cells (gridBlock [] D) = []"
  by (cases items) (simp_all add: gridBlock_def Let_def comp_def enumerate_eq_zip)

lemma dev_ids_row: "map bx_deviceId (dev_boxes (draw_row e cc faCy r)) = map d_id (kind_devs (pr_kind r))"
proof (cases "pr_kind r")
  case (GridRow g)
  have "map bx_deviceId (concat (map (\<lambda>c. dev_boxes (draw_cell e cc faCy (pr_y r) c)) cs)) = map (\<lambda>c. d_id (fst c)) cs" for cs
    by (induction cs) (simp_all add: draw_cell_def Let_def dev_box_def pushDevice_def)
  then show ?thesis by (simp add: draw_row_def GridRow comp_def)
qed (simp add: draw_row_def dev_ids_full)

lemma batch_devs: "concat (map (\<lambda>k. kind_devs (fst k)) (batch_rows e D batch ss)) = batch @ ss"
  by (induction ss arbitrary: batch) (simp_all add: flush_def)

lemma band_devs: "concat (map (\<lambda>k. kind_devs (fst k)) (band_rows e D devs)) = devs"
  using batch_devs [of e D "[]" devs] by (auto simp: band_rows_def Let_def)

lemma lay_rows_kinds: "map pr_kind (fst (lay_rows y prev rs)) = map fst rs"
  by (induction y prev rs rule: lay_rows.induct) (simp_all add: Let_def)

definition fac_shown :: "env \<Rightarrow> string \<Rightarrow> string \<Rightarrow> device list" where
  "fac_shown e co fa = (if isColFa e co fa then [] else devs_of e co fa)"

definition band_shown :: "band \<Rightarrow> device list" where
  "band_shown b = concat (map (\<lambda>r. kind_devs (pr_kind r)) (bd_rows b))"

lemma lay_bands_devs:
  "concat (map band_shown (fst (lay_bands e co D first y fas))) = concat (map (fac_shown e co) fas)"
proof (induction e co D first y fas rule: lay_bands.induct)
  case (2 e co D first y fa fas)
  have "concat (map (\<lambda>r. kind_devs (pr_kind r)) (fst (lay_rows t None (band_rows e D devs)))) = devs" for t devs
    using lay_rows_kinds [of t None "band_rows e D devs"] band_devs [of e D devs]
    by (metis (no_types, lifting) comp_def list.map_comp map_eq_conv)
  then show ?case using 2 by (simp add: Let_def band_shown_def fac_shown_def)
qed simp

definition shown_devs :: "env \<Rightarrow> string \<Rightarrow> device list" where
  "shown_devs e co = (if isColCo e co then [] else concat (map (fac_shown e co) (sorted_fas e co)))"

lemma placed_devs: "concat (map band_shown (pc_bands (offsetCompany (planCompany e co D) z x))) = shown_devs e co"
  using lay_bands_devs [of e co D True 0 "sorted_fas e co"]
  by (simp add: offsetCompany_def planCompany_def Let_def comp_def band_shown_def [abs_def] shown_devs_def)

lemma dev_ids_company:
  "map bx_deviceId (dev_boxes (draw_company e cp)) = map d_id (concat (map band_shown (pc_bands cp)))"
proof -
  have rows: "map bx_deviceId (concat (map (\<lambda>r. dev_boxes (draw_row e cc cy r)) rs)) = map d_id (concat (map (\<lambda>r. kind_devs (pr_kind r)) rs))" for cc cy rs
    by (induction rs) (simp_all add: dev_ids_row)
  have "map bx_deviceId (concat (map (\<lambda>b. dev_boxes (draw_band e co cc cy b)) bs)) = map d_id (concat (map band_shown bs))" for co cc cy bs
    by (induction bs) (simp_all add: draw_band_def Let_def rows band_shown_def)
  then show ?thesis by (simp add: draw_company_def Let_def)
qed

lemma dev_ids_shift: "map bx_deviceId (dev_boxes (map (shift x) ss)) = map bx_deviceId (dev_boxes ss)"
  by (induction ss rule: boxes_of.induct) (simp_all add: shift_def)

lemma dev_ids_packing:
  assumes "list_all2 (\<lambda>cp co. \<exists>z x. cp = offsetCompany (planCompany e co D) z x) cps names"
  shows "map bx_deviceId (concat (map (\<lambda>cp. dev_boxes (map (shift (pc_xOff cp)) (draw_company e cp))) cps)) = map d_id (concat (map (shown_devs e) names))"
  using assms by (induction rule: list_all2_induct) (auto simp: dev_ids_shift dev_ids_company placed_devs)

section \<open>The drawing exists and is free of overlaps\<close>

lemma buildTopo_Some:
  "\<exists>t D C. buildTopo e = Some t \<and> (D, C) \<in> set search_space \<and> tp_boxes t = boxes_of (strokes e (packFor e D C))
     \<and> tp_w t = of_int (rround (pk_w (packFor e D C))) \<and> tp_h t = of_int (rround (pk_h (packFor e D C)))
     \<and> tp_layoutSig t = int_str (int D) @ '':'' @ int_str (int C)"
proof -
  obtain b where b: "best_plan e = Some b" "cd_pl b = packFor e (cd_D b) (cd_C b)" "(cd_D b, cd_C b) \<in> set search_space"
    using best_plan_ok [of e] by (auto simp: cand_ok_def)
  then show ?thesis unfolding buildTopo_def Let_def by fastforce
qed

text \<open>
  C18. The topology drawing always exists and is free of overlaps: for every fleet in which no Endurance chassis shows a
  branch of topology data, the search over columns finds a layout, no two cards of the drawing overlap, and every card
  lies on the canvas.
\<close>

theorem topo_no_overlap:
  assumes "\<forall>s \<in> set (te_fleet e). d_type s = END \<longrightarrow> topoOf s = None \<or> \<not> branchOpenOf e s"
  shows "\<exists>t. buildTopo e = Some t \<and> sorted_wrt (\<lambda>b c. \<not> overlap b c) (tp_boxes t)
    \<and> list_all (on_canvas (tp_w t) (tp_h t)) (tp_boxes t)"
proof -
  have ok: "fleet_ok e" using assms by (simp add: fleet_ok_def chassis_ok_def)
  obtain t D C where t: "buildTopo e = Some t" "tp_boxes t = boxes_of (strokes e (packFor e D C))"
    "tp_w t = of_int (rround (pk_w (packFor e D C)))" "tp_h t = of_int (rround (pk_h (packFor e D C)))"
    using buildTopo_Some [of e] by blast
  show ?thesis
    unfolding list_all_iff using t packing_no_overlap [OF ok, of D C] packing_on_canvas [OF ok, of _ D C] by auto
qed

definition wit_env :: "device list \<Rightarrow> env" where
  "wit_env fleet = \<lparr>te_h = code_host, te_th = USAGE_THRESH, te_loc = num_str, te_log = (\<lambda>x. x - 1), te_l = makeL ''en'',
     te_st = initialState, te_fleet = fleet\<rparr>"

theorem topo_no_overlap_witness:
  "\<exists>t. buildTopo (wit_env [mkDevice ''ev-01'' EV Down (JObj []), mkDevice ''plc-1'' PLC Op (JObj [])]) = Some t
     \<and> sorted_wrt (\<lambda>b c. \<not> overlap b c) (tp_boxes t) \<and> list_all (on_canvas (tp_w t) (tp_h t)) (tp_boxes t)"
  by (rule topo_no_overlap) (simp add: wit_env_def mkDevice_def Let_def)

lemma lay_column_offsets: "list_all2 (\<lambda>cp p. \<exists>z x. cp = offsetCompany p z x) (fst (lay_column x first y ps)) ps"
  by (induction x first y ps rule: lay_column.induct) (auto simp: Let_def)

lemma lay_columns_offsets:
  "lay_columns x H cs = (laid, x', H') \<Longrightarrow> list_all2 (\<lambda>cp p. \<exists>z x. cp = offsetCompany p z x) laid (concat cs)"
proof (induction cs arbitrary: x H laid x' H')
  case (Cons c cs)
  then show ?case by (auto simp: Let_def lay_column_offsets intro!: list_all2_appendI Cons.IH prod_eqI)
qed simp

lemma packing_offsets:
  "list_all2 (\<lambda>cp co. \<exists>z x. cp = offsetCompany (planCompany e co D) z x) (pk_cos (packFor e D C)) (shown_cos e)"
proof -
  let ?plans = "map (\<lambda>co. planCompany e co D) (shown_cos e)"
  obtain laid x maxH where l: "lay_columns 0 0 (columns C ?plans) = (laid, x, maxH)"
    by (cases "lay_columns 0 0 (columns C ?plans)") auto
  have "list_all2 (\<lambda>cp p. \<exists>z x. cp = offsetCompany p z x) laid ?plans"
    using lay_columns_offsets [OF l] by (simp add: columns_facts)
  moreover have "pk_cos (packFor e D C) = laid" using l by (simp add: packFor_def Let_def)
  ultimately show ?thesis by (simp add: list_all2_map2)
qed

definition drawn :: "env \<Rightarrow> device \<Rightarrow> bool" where
  "drawn e s \<longleftrightarrow> coOf s \<in> set (shown_cos e) \<and> \<not> isColCo e (coOf s) \<and> \<not> isColFa e (coOf s) (faOf s)"

lemma shown_devs_filter:
  assumes "co \<in> set (companies e)"
  shows "filter (drawn e) (company_devs e co) = (if co \<in> set (shown_cos e) then shown_devs e co else [])"
proof -
  have g: "dev_groups_ok co (facs_of e co)" using facs_ok [of co e] assms by simp
  have f: "filter (drawn e) (devs_of e co fa) = (if co \<in> set (shown_cos e) \<and> \<not> isColCo e co then fac_shown e co fa else [])"
    if "fa \<in> set (sorted_fas e co)" for fa
  proof -
    have "fa \<in> fst ` set (facs_of e co)" using that by simp
    then obtain q where q: "q \<in> set (facs_of e co)" "fa = fst q" by blast
    then have "coOf s = co \<and> faOf s = fa" if "s \<in> set (devs_of e co fa)" for s
      using g that devs_of_facs [OF assms q(1)] by (auto simp: dev_groups_ok_def)
    then show ?thesis by (auto simp: drawn_def fac_shown_def intro: filter_True)
  qed
  have "filter (drawn e) (company_devs e co) = concat (map (\<lambda>fa. filter (drawn e) (devs_of e co fa)) (sorted_fas e co))"
    by (simp add: company_devs_def filter_concat comp_def)
  also have "\<dots> = concat (map (\<lambda>fa. if co \<in> set (shown_cos e) \<and> \<not> isColCo e co then fac_shown e co fa else []) (sorted_fas e co))"
    by (rule arg_cong [where f = concat], rule map_cong) (simp_all only: f)
  finally show ?thesis by (simp add: shown_devs_def)
qed

lemma sum_list_restrict:
  assumes "distinct xs" "distinct ys" "set ys \<subseteq> set xs"
  shows "sum_list (map (\<lambda>x. if x \<in> set ys then f x else 0) xs) = (sum_list (map f ys) :: 'b::comm_monoid_add)"
proof -
  have "sum_list (map (\<lambda>x. if x \<in> set ys then f x else 0) xs) = sum (\<lambda>x. if x \<in> set ys then f x else 0) (set xs)"
    using assms(1) by (simp add: sum_list_distinct_conv_sum_set)
  also have "\<dots> = sum f (set ys)" using assms(3) by (simp add: sum.inter_restrict [symmetric] inf.absorb2)
  finally show ?thesis using assms(2) by (simp add: sum_list_distinct_conv_sum_set)
qed

lemma shown_sum: "mset (concat (map (shown_devs e) (shown_cos e))) = mset (filter (drawn e) (filter (\<lambda>s. \<not> hosted e s) (te_fleet e)))"
proof -
  have "mset (filter (drawn e) (filter (\<lambda>s. \<not> hosted e s) (te_fleet e))) = filter_mset (drawn e) (mset (concat (map (company_devs e) (companies e))))"
    by (simp only: all_devs_sum mset_filter)
  also have "\<dots> = mset (concat (map (\<lambda>co. filter (drawn e) (company_devs e co)) (companies e)))"
    by (simp only: mset_filter [symmetric] filter_concat map_map comp_def)
  also have "\<dots> = sum_list (map (\<lambda>co. if co \<in> set (shown_cos e) then mset (shown_devs e co) else 0) (companies e))"
  proof -
    have "mset (filter (drawn e) (company_devs e co)) = (if co \<in> set (shown_cos e) then mset (shown_devs e co) else 0)"
      if "co \<in> set (companies e)" for co
      by (simp only: shown_devs_filter [OF that] if_distrib [of mset] mset.simps)
    then have "map (\<lambda>co. mset (filter (drawn e) (company_devs e co))) (companies e)
        = map (\<lambda>co. if co \<in> set (shown_cos e) then mset (shown_devs e co) else 0) (companies e)"
      by (intro map_cong refl)
    then show ?thesis by (simp only: mset_concat map_map comp_def)
  qed
  also have "\<dots> = sum_list (map (\<lambda>co. mset (shown_devs e co)) (shown_cos e))"
    using sum_list_restrict [OF distinct_companies distinct_shown shown_subset] .
  finally show ?thesis by (simp add: mset_concat comp_def)
qed

text \<open>
  C19. Every device has exactly one card: the device cards of the drawing are, as a multiset of identifiers, the devices of
  the fleet that are no guest of another device, belong to a shown company, and whose company and factory are not folded.
\<close>

theorem topo_device_once:
  "\<exists>t. buildTopo e = Some t \<and> mset (map bx_deviceId (filter (\<lambda>b. is_device (bx_card b)) (tp_boxes t)))
     = mset (map d_id (filter (\<lambda>s. \<not> hosted e s \<and> coOf s \<in> set (shown_cos e)
         \<and> \<not> isColCo e (coOf s) \<and> \<not> isColFa e (coOf s) (faOf s)) (te_fleet e)))"
proof -
  obtain t D C where t: "buildTopo e = Some t" "tp_boxes t = boxes_of (strokes e (packFor e D C))"
    using buildTopo_Some [of e] by blast
  have "map bx_deviceId (filter (\<lambda>b. is_device (bx_card b)) (tp_boxes t)) = map d_id (concat (map (shown_devs e) (shown_cos e)))"
    using dev_ids_packing [OF packing_offsets, of e D C] by (simp only: t(2) dev_boxes_def [symmetric] strokes_def dev_boxes_concat)
  then have "mset (map bx_deviceId (filter (\<lambda>b. is_device (bx_card b)) (tp_boxes t)))
      = image_mset d_id (mset (filter (drawn e) (filter (\<lambda>s. \<not> hosted e s) (te_fleet e))))"
    by (simp only: mset_map shown_sum)
  moreover have "filter (drawn e) (filter (\<lambda>s. \<not> hosted e s) (te_fleet e)) = filter (\<lambda>s. \<not> hosted e s \<and> coOf s \<in> set (shown_cos e)
      \<and> \<not> isColCo e (coOf s) \<and> \<not> isColFa e (coOf s) (faOf s)) (te_fleet e)"
    by (simp add: drawn_def conj_commute conj_left_commute) 
  ultimately show ?thesis using t(1) by (simp only: mset_map option.inject ex_simps simp_thms)
qed

section \<open>The colours of the settings screen\<close>

text \<open>A strict order has one sorted arrangement of a multiset.\<close>

lemma sort_by_unique:
  assumes c: "comparator c" and strict: "\<And>a b. c a b \<le> 0 \<Longrightarrow> c b a \<le> 0 \<Longrightarrow> a = b" and eq: "mset xs = mset ys"
  shows "sort_by c xs = sort_by c ys"
proof -
  have "us = vs" if "sorted_wrt (\<lambda>a b. c a b \<le> 0) us" "sorted_wrt (\<lambda>a b. c a b \<le> 0) vs" "mset us = mset vs" for us vs
    using that
  proof (induction us arbitrary: vs)
    case (Cons u us)
    then obtain v vs' where vs: "vs = v # vs'" by (cases vs) auto
    have "u \<in> set vs" "v \<in> set (u # us)" using Cons.prems(3) vs by (metis list.set_intros(1) set_mset_mset)+
    then have "u = v" using Cons.prems(1,2) strict [of u v] by (auto simp: vs)
    then show ?case using Cons.IH [of vs'] Cons.prems by (simp add: vs)
  qed simp
  then show ?thesis using comparator.sorted_sort_by [OF c] eq by simp
qed

lemma sort_by_cong: "(\<And>x y. x \<in> set xs \<Longrightarrow> y \<in> set xs \<Longrightarrow> c x y = d x y) \<Longrightarrow> sort_by c xs = sort_by d xs"
proof (induction xs)
  case (Cons x xs)
  have "ins_by c x ys = ins_by d x ys" if "set ys \<subseteq> set xs" for ys
    using that by (induction ys) (auto simp: Cons.prems)
  moreover have "sort_by c xs = sort_by d xs" by (rule Cons.IH) (simp add: Cons.prems)
  ultimately show ?case by simp
qed simp

lemma real_first_comparator: "comparison (collate h) \<Longrightarrow> comparator (real_first h has (\<lambda>c. c))"
proof -
  assume c: "comparison (collate h)"
  have "comparison (\<lambda>a b. if (if has a then 0 else 1) - (if has b then 0 else 1) = (0::int) then collate h a b
      else (if has a then 0 else 1) - (if has b then 0 else 1))"
    by (rule comparison_lex [OF _ c], rule comparison_I) (auto split: if_splits)
  then have "comparison (real_first h has (\<lambda>c. c))"
    by (rule back_subst [of comparison]) (auto simp: real_first_def Let_def fun_eq_iff)
  then show ?thesis by (rule comparison.axioms(1))
qed

lemma remdups_first_props: "set (remdups_first xs) = set xs \<and> distinct (remdups_first xs)"
  by (induction xs rule: remdups_first.induct) auto

lemma color_maps_agree:
  assumes c: "comparison (collate h)" and strict: "\<And>a b. collate h a b = 0 \<Longrightarrow> a = b" and m: "mset xs = mset ys"
    and has: "\<And>x. x \<in> set xs \<Longrightarrow> has x = has' x"
  shows "coDefaultColorMap h xs has = coDefaultColorMap h ys has'"
proof -
  let ?c = "\<lambda>has. real_first h has (\<lambda>c. c)"
  have "sort_by (?c has) xs = sort_by (?c has) ys"
  proof (rule sort_by_unique [OF real_first_comparator [OF c] _ m])
    fix a b assume "?c has a b \<le> 0" "?c has b a \<le> 0"
    then have "collate h a b \<le> 0" "collate h b a \<le> 0" by (auto simp: real_first_def Let_def split: if_splits)
    then show "a = b" using comparison.neg_swap [OF c, of a b] strict [of a b] by (cases "collate h a b = 0") auto
  qed
  also have "\<dots> = sort_by (?c has') ys"
    using has mset_eq_setD [OF m] by (intro sort_by_cong) (simp add: real_first_def)
  finally show ?thesis by (simp add: coDefaultColorMap_def)
qed

lemma company_names:
  assumes "\<forall>s \<in> set (te_fleet e). \<not> hosted e s"
  shows "set (companies e) = coOf ` set (te_fleet e)"
    and "co \<in> set (companies e) \<Longrightarrow> coHasTopology e co \<longleftrightarrow> (\<exists>s \<in> set (te_fleet e). coOf s = co \<and> topoOf s \<noteq> None)"
proof -
  have f: "filter (\<lambda>s. \<not> hosted e s) (te_fleet e) = te_fleet e" using assms by simp
  have all: "mset (concat (map (company_devs e) (companies e))) = mset (te_fleet e)" using all_devs_sum [of e] f by simp
  have co: "coOf s = co" if "co \<in> set (companies e)" "p \<in> set (facs_of e co)" "s \<in> set (snd p)" for s co p
    using facs_ok [of co e] that by (auto simp: dev_groups_ok_def)
  have mem: "s \<in> set (company_devs e co) \<longleftrightarrow> (\<exists>p \<in> set (facs_of e co). s \<in> set (snd p))" if "co \<in> set (companies e)" for s co
    using devs_of_facs [OF that] by (auto simp: company_devs_def)
  have fleet: "s \<in> set (te_fleet e) \<longleftrightarrow> (\<exists>co \<in> set (companies e). s \<in> set (company_devs e co))" for s
    using arg_cong [OF all, of set_mset] by auto
  have ne: "\<exists>s p. p \<in> set (facs_of e co) \<and> s \<in> set (snd p)" if "co \<in> set (companies e)" for co
  proof -
    have "dev_groups_ok co (facs_of e co)" using facs_ok [of co e] that by simp
    then obtain p where "p \<in> set (facs_of e co)" "snd p \<noteq> []"
      unfolding dev_groups_ok_def by (metis list.set_intros(1) neq_Nil_conv)
    then show ?thesis by (metis list.set_intros(1) neq_Nil_conv)
  qed
  show "set (companies e) = coOf ` set (te_fleet e)"
  proof
    show "set (companies e) \<subseteq> coOf ` set (te_fleet e)"
      using ne co mem fleet by (metis (no_types, lifting) image_eqI subsetI)
    show "coOf ` set (te_fleet e) \<subseteq> set (companies e)"
      using co mem fleet by (metis (no_types, lifting) image_subsetI)
  qed
  assume c: "co \<in> set (companies e)"
  show "coHasTopology e co \<longleftrightarrow> (\<exists>s \<in> set (te_fleet e). coOf s = co \<and> topoOf s \<noteq> None)"
    unfolding coHasTopology_def using c co mem fleet by (metis (no_types, lifting))
qed

lemma palette_line:
  "l \<in> set (buildCompanyColors h st fleet) \<Longrightarrow>
    cx_color l = jor (jget (jor (s_companyColors st) (JObj [])) (cx_name l))
      (JStr (case map_of (default_colors h fleet) (cx_name l) of Some c \<Rightarrow> c | None \<Rightarrow> []))
    \<and> cx_name l \<in> set (filter (\<lambda>c. c \<noteq> []) (map (\<lambda>s. m_company (d_meta s)) fleet))"
  using remdups_first_props [of "filter (\<lambda>c. c \<noteq> []) (map (\<lambda>s. m_company (d_meta s)) fleet)"]
  by (auto simp: buildCompanyColors_def Let_def)

lemma map_of_palette: "x \<in> set xs \<Longrightarrow> \<exists>c. map_of (coDefaultColorMap h xs has) x = Some c"
proof -
  have "fst ` set (foldl (\<lambda>m p. aput (snd p) (f p) m) m (enumerate n ys)) = fst ` set m \<union> set ys"
    for f :: "nat \<times> string \<Rightarrow> string" and m n ys
    by (induction ys arbitrary: m n) (auto simp: keys_aput)
  moreover assume "x \<in> set xs"
  ultimately have "x \<in> fst ` set (coDefaultColorMap h xs has)" by (simp add: coDefaultColorMap_def)
  then show ?thesis by (metis domIff dom_map_of_conv_image_fst not_None_eq)
qed

text \<open>
  The colour list of the settings screen is the drawing's: when the collation is a strict order, no device is a guest
  of another one and no company is named like the group of the unassigned, every company of the fleet has on the settings screen the
  colour that its card has on the canvas.
\<close>

theorem topo_colors_agree:
  assumes "comparison (collate (te_h e))" "\<forall>a b. collate (te_h e) a b = 0 \<longrightarrow> a = b"
    and "\<forall>s \<in> set (te_fleet e). \<not> hosted e s \<and> m_company (d_meta s) \<noteq> UNASSIGNED_CO"
  shows "\<forall>l \<in> set (buildCompanyColors (te_h e) (te_st e) (te_fleet e)). cx_color l = coColor e (cx_name l)"
proof
  fix l assume l: "l \<in> set (buildCompanyColors (te_h e) (te_st e) (te_fleet e))"
  define named where "named = filter (\<lambda>c. c \<noteq> []) (map (\<lambda>s. m_company (d_meta s)) (te_fleet e))"
  define ns where "ns = sort_by (collate (te_h e)) (remdups_first named)"
  define cs where "cs = filter (\<lambda>c. c \<noteq> UNASSIGNED_CO) (companies e)"
  define R where "R = set (map (\<lambda>s. m_company (d_meta s)) (filter (\<lambda>s. topoOf s \<noteq> None \<and> m_company (d_meta s) \<noteq> []) (te_fleet e)))"
  have nh: "\<forall>s \<in> set (te_fleet e). \<not> hosted e s" using assms(3) by blast
  have nn: "UNASSIGNED_CO \<noteq> []" by (simp add: UNASSIGNED_CO_def)
  have co: "coOf s = co \<and> co \<noteq> UNASSIGNED_CO \<longleftrightarrow> m_company (d_meta s) = co \<and> co \<noteq> []" if "s \<in> set (te_fleet e)" for s co
    using assms(3) that nn by (auto simp: coOf_def sor_def)
  have "x \<in> set cs \<longleftrightarrow> x \<in> set named" for x
  proof -
    have "x \<in> set cs \<longleftrightarrow> (\<exists>s \<in> set (te_fleet e). coOf s = x \<and> x \<noteq> UNASSIGNED_CO)"
      by (auto simp: cs_def company_names(1) [OF nh] simp del: set_companies)
    also have "\<dots> \<longleftrightarrow> x \<in> set named" using co by (auto simp: named_def)
    finally show ?thesis .
  qed
  then have "set cs = set ns" by (auto simp: ns_def remdups_first_props)
  moreover have "distinct cs" "distinct ns" using distinct_companies [of e] remdups_first_props [of named] by (simp_all add: cs_def ns_def)
  ultimately have m: "mset cs = mset ns" using set_eq_iff_mset_eq_distinct by blast
  have "default_colors (te_h e) (te_fleet e) = coDefaultColorMap (te_h e) ns (\<lambda>co. co \<in> R)"
    by (simp add: default_colors_def ns_def named_def R_def Let_def)
  also have "\<dots> = coDefaultColorMap (te_h e) cs (coHasTopology e)"
  proof (rule color_maps_agree [symmetric, OF assms(1) _ m])
    show "collate (te_h e) a b = 0 \<Longrightarrow> a = b" for a b using assms(2) by blast
    fix x assume "x \<in> set cs"
    then have x: "x \<in> set (companies e)" "x \<noteq> UNASSIGNED_CO" by (simp_all add: cs_def del: set_companies)
    show "coHasTopology e x = (x \<in> R)"
    proof -
      have "(\<exists>s \<in> set (te_fleet e). coOf s = x \<and> topoOf s \<noteq> None)
          \<longleftrightarrow> (\<exists>s \<in> set (te_fleet e). (m_company (d_meta s) = x \<and> x \<noteq> []) \<and> topoOf s \<noteq> None)"
        using co [of _ x] x(2) by (intro bex_cong refl) simp
      also have "\<dots> \<longleftrightarrow> x \<in> R" by (auto simp only: R_def set_map set_filter image_iff mem_Collect_eq bex_simps)
      finally show ?thesis by (simp only: company_names(2) [OF nh x(1)])
    qed
  qed
  finally have d: "default_colors (te_h e) (te_fleet e) = coDefaultColorMap (te_h e) cs (coHasTopology e)" .
  have name: "cx_name l \<in> set cs"
    using palette_line [OF l] m by (metis mset_eq_setD named_def ns_def remdups_first_props set_sort_by)
  then have "cx_name l \<noteq> UNASSIGNED_CO" by (simp add: cs_def)
  then show "cx_color l = coColor e (cx_name l)"
    using palette_line [OF l] map_of_palette [OF name, of "te_h e" "coHasTopology e"] by (auto simp: coColor_def d cs_def)
qed

lemma code_host_strict: "collate code_host a b = 0 \<Longrightarrow> a = b"
  by (auto simp: code_host_def cmp_num_def code_def inj_map_eq_map inj_def split: if_splits)

definition wit_dev :: "string \<Rightarrow> dev_type \<Rightarrow> string \<Rightarrow> device" where
  "wit_dev i t co = (let s = mkDevice i t Op (JObj []) in s\<lparr>d_meta := (d_meta s)\<lparr>m_company := co, m_topo := Null, m_mgmt := [], m_factory := [], m_vmList := []\<rparr>\<rparr>)"

lemma wit_dev_simps [simp]:
  "m_company (d_meta (wit_dev i t co)) = co" "m_topo (d_meta (wit_dev i t co)) = Null" "m_mgmt (d_meta (wit_dev i t co)) = []"
  "m_factory (d_meta (wit_dev i t co)) = []" "m_vmList (d_meta (wit_dev i t co)) = []" "d_type (wit_dev i t co) = t"
  "d_id (wit_dev i t co) = i"
  by (simp_all add: wit_dev_def mkDevice_def Let_def)

theorem topo_colors_agree_witness:
  "map (\<lambda>l. (cx_name l, coColor (wit_env [wit_dev ''ev-01'' EV ''ACME'']) (cx_name l)))
     (buildCompanyColors code_host initialState [wit_dev ''ev-01'' EV ''ACME'']) = [(''ACME'', JStr ''#5677A8'')]"
proof -
  let ?e = "wit_env [wit_dev ''ev-01'' EV ''ACME'']" and ?L = "buildCompanyColors code_host initialState [wit_dev ''ev-01'' EV ''ACME'']"
  have "\<not> hosted ?e (wit_dev ''ev-01'' EV ''ACME'')"
    by (simp add: hosted_def hostedIps_def wit_env_def isFT_def FT_TYPES_def)
  then have "\<forall>l \<in> set ?L. cx_color l = coColor ?e (cx_name l)"
    using topo_colors_agree [of ?e] code_host_comparison code_host_strict by (simp add: wit_env_def UNASSIGNED_CO_def)
  moreover have "map (\<lambda>l. (cx_name l, cx_color l)) ?L = [(''ACME'', JStr ''#5677A8'')]"
    by (simp add: buildCompanyColors_def default_colors_def coDefaultColorMap_def COMPANY_PALETTE_def initialState_def jor_def Let_def)
  ultimately show ?thesis by auto
qed

text \<open>
  A company that occurs only through guests of other devices moves the colours: it takes a place of the palette on the settings
  screen, not on the canvas. Here a storage server of the company b hosts the machine \<open>10.0.0.9\<close> of the company a.
\<close>

definition nas :: device where
  "nas = (let s = wit_dev ''nas-1'' NAS ''b'' in s\<lparr>d_meta := (d_meta s)\<lparr>m_vmList := [JObj [(''ip'', JStr ''10.0.0.9'')]]\<rparr>\<rparr>)"

definition guest_ev :: device where
  "guest_ev = (let s = wit_dev ''ev-01'' EV ''a'' in s\<lparr>d_meta := (d_meta s)\<lparr>m_mgmt := ''10.0.0.9''\<rparr>\<rparr>)"

lemma nas_facts [simp]:
  "m_company (d_meta nas) = ''b''" "m_topo (d_meta nas) = Null" "d_type nas = NAS" "m_vmList (d_meta nas) = [JObj [(''ip'', JStr ''10.0.0.9'')]]"
  "m_mgmt (d_meta nas) = []" "m_factory (d_meta nas) = []" "m_factory (d_meta guest_ev) = []"
  "m_company (d_meta guest_ev) = ''a''" "m_topo (d_meta guest_ev) = Null" "d_type guest_ev = EV" "m_mgmt (d_meta guest_ev) = ''10.0.0.9''"
  by (simp_all add: nas_def guest_ev_def Let_def)

theorem guest_company_shifts_colors:
  "coColor (wit_env [nas, guest_ev]) ''b'' = JStr ''#5677A8''"
  "map (\<lambda>l. (cx_name l, cx_color l)) (buildCompanyColors code_host initialState [nas, guest_ev])
     = [(''a'', JStr ''#5677A8''), (''b'', JStr ''#4E8E96'')]"
proof -
  let ?e = "wit_env [nas, guest_ev]"
  have h: "\<not> hosted ?e nas" "hosted ?e guest_ev"
    by (simp_all add: hosted_def hostedIps_def wit_env_def isFT_def FT_TYPES_def List.map_filter_def)
  then have m: "coMap ?e = [(''b'', [(UNASSIGNED_FA, [nas])])]"
    by (simp add: coMap_def wit_env_def map_add_def push_key_def coOf_def faOf_def sor_def)
  have t: "topoOf nas = None" "topoOf guest_ev = None" by (simp_all add: topoOf_def)
  show "coColor ?e ''b'' = JStr ''#5677A8''"
    by (simp add: coColor_def companies_def m coDefaultColorMap_def COMPANY_PALETTE_def UNASSIGNED_CO_def) (simp add: wit_env_def initialState_def jor_def)
  show "map (\<lambda>l. (cx_name l, cx_color l)) (buildCompanyColors code_host initialState [nas, guest_ev])
     = [(''a'', JStr ''#5677A8''), (''b'', JStr ''#4E8E96'')]"
    by (simp add: buildCompanyColors_def default_colors_def t coDefaultColorMap_def real_first_def COMPANY_PALETTE_def code_host_def
        cmp_num_def code_def initialState_def jor_def Let_def)
qed

section \<open>The Endurance chassis\<close>

text \<open>
  The plan gives an Endurance chassis a row of the height of its card, \<open>fullDevH\<close>. With topology data and an open branch the drawing centres
  the card in the first \<open>realMainH\<close> pixels of the row instead, and so above the row.
\<close>

lemma chassis_box:
  assumes "d_type s = END" "topoOf s \<noteq> None" "branchOpenOf e s"
  shows "boxes_of (draw_full e cc faCy y (xRowH e s) s)
     = [dev_box e s GRID_X (r1 (y + realMainH e s / 2 - fullDevH e s / 2)) True (fullDevH e s)]"
  using assms by (simp add: draw_full_def Let_def isFT_def FT_TYPES_def)

lemma realMainH_no_vms: "m_vmList (d_meta s) = [] \<Longrightarrow> realMainH e s \<le> 180"
proof -
  assume v: "m_vmList (d_meta s) = []"
  define n where "n = length (take 2 (m_nodes (d_meta s)))"
  have "ln_h (lane_of ns [] f i) = 82" for ns f i by (simp add: lane_of_def Let_def rvBlock_def sizes)
  then have "snd (realLanes (d_meta s) (vgColOf e s)) = (if 0 < n then of_nat n * 82 + 16 * (of_nat n - 1) else 0)"
    by (simp add: realLanes_def Let_def v comp_def sum_list_triv LANE_GAP_def n_def)
  moreover have "n \<le> 2" by (simp add: n_def)
  then have "n = 0 \<or> n = 1 \<or> n = 2" by linarith
  ultimately show ?thesis by (elim disjE) (simp_all add: realMainH_def sizes)
qed

lemma fullDevH_chassis: "d_type s = END \<Longrightarrow> 240 \<le> fullDevH e s"
proof -
  assume t: "d_type s = END"
  have "a \<le> foldl max a xs" for a :: nat and xs by (induction xs arbitrary: a) (auto intro: order_trans [OF max.cobounded1])
  then have "(1 :: rat) \<le> of_nat (foldl max 1 xs)" for xs :: "nat list" by (metis of_nat_1 of_nat_le_iff)
  then show ?thesis
    unfolding fullDevH_def Let_def using t by (simp add: le_max_iff_disj) 
qed

text \<open>
  An Endurance chassis with topology data covers the row above it: when its branch is open and it has no machines,
  its card overlaps the card of the device above, wherever that card fills its row.
\<close>

theorem chassis_covers_row_above:
  assumes "d_type s = END" "topoOf s \<noteq> None" "branchOpenOf e s" "m_vmList (d_meta s) = []"
    and "d_type a \<noteq> END" "xRowH e a = fullDevH e a"
    and "fst (lay_rows y None [(FullRow a, xRowH e a), (FullRow s, xRowH e s)]) = [r, q]"
  shows "\<exists>b \<in> set (boxes_of (draw_row e cc faCy r)). \<exists>c \<in> set (boxes_of (draw_row e cc faCy q)). overlap b c"
proof -
  have rq: "pr_kind r = FullRow a" "pr_y r = y" "pr_kind q = FullRow s" "pr_y q = y + xRowH e a + 22" "pr_h r = xRowH e a" "pr_h q = xRowH e s"
    using assms(7) by (auto simp: Let_def row_gap_def ROW_GAP_FULL_def)
  let ?b = "dev_box e a GRID_X (r1 y) True (fullDevH e a)"
  let ?c = "dev_box e s GRID_X (r1 (pr_y q + realMainH e s / 2 - fullDevH e s / 2)) True (fullDevH e s)"
  have "?b \<in> set (boxes_of (draw_row e cc faCy r))"
    using assms(5,6) by (auto simp: draw_row_def rq draw_full_def Let_def xRowH_def)
  moreover have "?c \<in> set (boxes_of (draw_row e cc faCy q))"
    using chassis_box [OF assms(1-3), of cc faCy "pr_y q"] by (simp add: draw_row_def rq)
  moreover have "140 \<le> fullDevH e a" "0 \<le> realMainH e s"
    using fullDevH_ge [of e a] by (simp_all add: realMainH_def sizes le_max_iff_disj)
  then have "overlap ?b ?c"
    using realMainH_no_vms [OF assms(4), of e] fullDevH_chassis [OF assms(1), of e] assms(1,5)
      r1_bounds [of y] r1_bounds [of "pr_y q + realMainH e s / 2 - fullDevH e s / 2"]
    by (simp only: overlap_def rq dev_box_full simp_thms if_True if_False) (simp add: dev_box_full sizes assms(6) rq)
  ultimately show ?thesis by blast
qed

end
