(* ===== verification/DetailTile.thy ===== *)
theory DetailTile
  imports TopoDraw
begin

text \<open>
  The first part of \<open>buildDetail\<close> in \<open>src/web/js/model/compute/detail.js\<close>: the choice of the device and of its page
  variant, the resource gauge and the tiles. What the function closes over is the record \<open>env\<close> of the topology
  (language, thresholds, state, fleet; \<open>te_loc\<close> groups digits as \<open>toLocaleString\<close> does). Values of a tile may be a
  number or a text and stay JavaScript values. Arrows and pictograms are written in ASCII.

  The code calls number methods on \<open>meta.unit.usedMem\<close> and \<open>totMem\<close>, which the normaliser copies unchecked: a text
  there throws. That is a value of the model (\<open>resource_throws\<close>).
\<close>

section \<open>The device\<close>

definition empty_dev :: device where
  "empty_dev =
     \<lparr>d_id = [], d_host = DASH, d_type = EV, d_site = DASH, d_status = Op, d_availN = 0, d_availDays = 0, d_cpu0 = - 1, d_mem0 = - 1,
      d_cpuNA = True, d_memNA = True, d_sync = Offline, d_uptime = 0, d_updatedAt = 0, d_live = False,
      d_meta = normalizeMeta [] (JObj []), d_histCpu = [], d_histMem = [], d_histRtt = []\<rparr>"

definition detail_dev :: "device list \<Rightarrow> string option \<Rightarrow> device" where
  "detail_dev fleet i =
     (case i of
        Some k \<Rightarrow> if k = [] then (case fleet of [] \<Rightarrow> empty_dev | d # _ \<Rightarrow> d)
                  else (case find (\<lambda>s. d_id s = k) fleet of Some d \<Rightarrow> d | None \<Rightarrow> empty_dev)
      | None \<Rightarrow> (case fleet of [] \<Rightarrow> empty_dev | d # _ \<Rightarrow> d))"

definition d_ko :: "env \<Rightarrow> bool" where "d_ko e \<longleftrightarrow> langOf (s_lang (te_st e)) = ''ko''"
definition d_l :: "env \<Rightarrow> lfun" where "d_l e = makeL (s_lang (te_st e))"

definition sampleData :: "env \<Rightarrow> device \<Rightarrow> bool" where
  "sampleData e s \<longleftrightarrow> m_sample (d_meta s) \<or> m_demo (d_meta s) \<or> s_sampleMode (te_st e) \<or> s_demoMode (te_st e)
     \<or> s_source (te_st e) = ''sample'' \<or> s_source (te_st e) = ''demo''"

datatype variant = V_plc | V_nas | V_win | V_pi | V_srv | V_fts | V_ft

definition isSRV :: "dev_type \<Rightarrow> bool" where "isSRV t \<longleftrightarrow> t = SRV \<or> t = PRN"
definition isServer :: "dev_type \<Rightarrow> bool" where "isServer t \<longleftrightarrow> isSRV t \<or> t = PC"

definition variant_of :: "dev_type \<Rightarrow> variant" where
  "variant_of t = (if t = PLC then V_plc else if t = NAS then V_nas else if t = WIN then V_win else if t = PI then V_pi
     else if isServer t then V_srv else if t = FTS then V_fts else V_ft)"

definition maintNodes :: "device \<Rightarrow> string list" where
  "maintNodes s = filter (\<lambda>x. x \<noteq> []) (map (\<lambda>n. str_or (jget n ''name'')) (filter nodeMaint (m_nodes (d_meta s))))"

definition d_maint :: "device \<Rightarrow> bool" where "d_maint s \<longleftrightarrow> maintNodes s \<noteq> []"

definition bag :: "jsval \<Rightarrow> jsval" where "bag v = jor v (JObj [])"

text \<open>\<open>[...].filter(Boolean).join(sep)\<close>.\<close>

definition parts :: "string \<Rightarrow> jsval list \<Rightarrow> string" where "parts sep vs = jjoin sep (filter truthy vs)"

abbreviation dot :: "jsval list \<Rightarrow> string" where "dot \<equiv> parts '' . ''"

definition opt_part :: "bool \<Rightarrow> string \<Rightarrow> jsval" where "opt_part b s = (if b then JStr s else Null)"

section \<open>Resources\<close>

record resource =
  rs_version :: jsval
  rs_vcpuUsed :: jsnum
  rs_vcpuTot :: jsnum
  rs_vcpuPct :: jsnum
  rs_memUsed :: jsnum
  rs_memTot :: jsnum
  rs_memPct :: jsnum
  rs_syncing :: bool
  rs_vcpuTone :: string
  rs_memTone :: string

definition resource_throws :: "device \<Rightarrow> bool" where
  "resource_throws s =
     (let u = m_unit (d_meta s) in
      (truthy (jget u ''totVcpu'') \<or> truthy (jget u ''totMem''))
      \<and> ((truthy (jget u ''usedMem'') \<and> \<not> is_num (jget u ''usedMem'')) \<or> (truthy (jget u ''totMem'') \<and> \<not> is_num (jget u ''totMem''))))"

definition use_pct :: "jsval \<Rightarrow> jsval \<Rightarrow> jsnum" where
  "use_pct used tot = (if truthy tot then n_round (n_mul (n_div (or0 used) (to_num tot)) (Fin 100)) else Fin 0)"

definition tone_fin :: "thresholds \<Rightarrow> jsnum \<Rightarrow> string" where "tone_fin th n = pct_tone th (JNum n)"

definition resource_of :: "thresholds \<Rightarrow> device \<Rightarrow> resource option" where
  "resource_of th s =
     (let u = m_unit (d_meta s); has = (truthy (jget u ''totVcpu'') \<or> truthy (jget u ''totMem''));
          vp = use_pct (jget u ''usedVcpu'') (jget u ''totVcpu''); mp = use_pct (jget u ''usedMem'') (jget u ''totMem'')
      in if \<not> has then None else Some \<lparr>rs_version = jor (jget u ''version'') (JStr []),
          rs_vcpuUsed = n_round (or0 (jget u ''usedVcpu'')), rs_vcpuTot = n_round (or0 (jget u ''totVcpu'')), rs_vcpuPct = vp,
          rs_memUsed = fixed1 (or0 (jget u ''usedMem'')), rs_memTot = fixed1 (or0 (jget u ''totMem'')), rs_memPct = mp,
          rs_syncing = (to_str (jget u ''syncing'') = ''true''), rs_vcpuTone = tone_fin th vp, rs_memTone = tone_fin th mp\<rparr>)"

section \<open>The tiles every variant may show\<close>

record tile =
  tl_label :: string
  tl_icon :: string
  tl_value :: jsval
  tl_unit :: string
  tl_delta :: jsval
  tl_deltaTone :: string
  tl_valueTone :: string
  tl_hasSpark :: bool
  tl_hist :: "jsval list"
  tl_histHi :: jsnum

definition tile :: "string \<Rightarrow> string \<Rightarrow> jsval \<Rightarrow> tile" where
  "tile la ic v = \<lparr>tl_label = la, tl_icon = ic, tl_value = v, tl_unit = [], tl_delta = JStr [], tl_deltaTone = ''mut'', tl_valueTone = [],
     tl_hasSpark = False, tl_hist = [], tl_histHi = Fin 100\<rparr>"

definition d_cpu :: "env \<Rightarrow> device \<Rightarrow> usage" where "d_cpu e s = usageOf (te_th e) s ''cpu''"
definition d_mem :: "env \<Rightarrow> device \<Rightarrow> usage" where "d_mem e s = usageOf (te_th e) s ''mem''"

definition d_hc :: "env \<Rightarrow> device \<Rightarrow> jsval list" where
  "d_hc e s = sparkHist (histOf (s_hist (te_st e)) s ''cpu'') (us_val (d_cpu e s))"
definition d_hm :: "env \<Rightarrow> device \<Rightarrow> jsval list" where
  "d_hm e s = sparkHist (histOf (s_hist (te_st e)) s ''mem'') (us_val (d_mem e s))"

definition rttHist :: "env \<Rightarrow> device \<Rightarrow> jsval list" where
  "rttHist e s = (let hr = histOf (s_hist (te_st e)) s ''rtt'' in if 1 < length hr then hr else [])"

definition rttHi :: "env \<Rightarrow> device \<Rightarrow> jsnum" where
  "rttHi e s = foldl n_max (Fin 2) (map (\<lambda>v. num_or v (Fin 0)) (rttHist e s))"

definition use_tile :: "string \<Rightarrow> string \<Rightarrow> jsval \<Rightarrow> usage \<Rightarrow> jsval list \<Rightarrow> tile" where
  "use_tile la ic dl u hs =
     (tile la ic (case us_val u of None \<Rightarrow> JStr DASH | Some v \<Rightarrow> JNum (Fin (of_int v))))
       \<lparr>tl_unit := (if us_na u then [] else ''%''), tl_delta := dl, tl_hasSpark := \<not> us_na u,
        tl_hist := (if us_na u then [] else hs), tl_valueTone := us_tone u\<rparr>"

definition tCpu :: "env \<Rightarrow> device \<Rightarrow> tile" where
  "tCpu e s = use_tile ''CPU'' ''ops'' (JStr (m_mgmt (d_meta s))) (d_cpu e s) (d_hc e s)"

definition tMem :: "env \<Rightarrow> device \<Rightarrow> tile" where
  "tMem e s = use_tile (d_l e ''Memory'' ''memori'') ''ssd'' (JStr (d_l e ''used'' ''sayong'')) (d_mem e s) (d_hm e s)"

definition isDown :: "device \<Rightarrow> bool" where "isDown s \<longleftrightarrow> d_status s = Down"

text \<open>Only the device of an empty page has no \<open>vms\<close>: the normaliser always sets it.\<close>

definition tVm :: "env \<Rightarrow> device \<Rightarrow> tile" where
  "tVm e s = (let m = d_meta s in
     (tile (d_l e ''VMs'' ''VM'') ''box'' (JStr (if isDown s then DASH else num_str (Fin (m_vmRunning m)))))
       \<lparr>tl_unit := (if d_id s = [] then [] else '' / '' @ num_str (Fin (m_vms m))), tl_delta := JStr (d_l e ''running'' ''silhaeng jung'')\<rparr>)"

definition tUp :: "env \<Rightarrow> device \<Rightarrow> tile" where
  "tUp e s =
     (tile (d_l e ''Uptime'' ''gadongsigan'') ''clock'' (JStr (if isDown s \<or> d_uptime s < 0 then DASH else int_str (d_uptime s))))
       \<lparr>tl_unit := ''d'', tl_delta := (if m_version (d_meta s) \<noteq> [] then JStr (m_version (d_meta s)) else jor (jget (m_unit (d_meta s)) ''version'') (JStr []))\<rparr>"

definition nodesRunning :: "device \<Rightarrow> nat" where
  "nodesRunning s = length (filter (\<lambda>n. rx_run_ci (jget n ''state'')) (m_nodes (d_meta s)))"

definition module_tile :: "string \<Rightarrow> string \<Rightarrow> device \<Rightarrow> tile" where
  "module_tile la dl s =
     (tile la ''box'' (JStr (if isDown s then DASH
        else int_str (int (nodesRunning s)) @ ''/'' @ int_str (max 1 (int (length (m_nodes (d_meta s))))))))\<lparr>tl_delta := JStr dl\<rparr>"

definition tEncl :: "env \<Rightarrow> device \<Rightarrow> tile" where "tEncl e s = module_tile (d_l e ''Enclosures'' ''inkeullojeo'') ''LOCKSTEP'' s"
definition tMod :: "env \<Rightarrow> device \<Rightarrow> tile" where "tMod e s = module_tile (d_l e ''Compute modules'' ''keompyuteu modyul'') ''ACTIVE/STANDBY'' s"

definition tBmc :: "env \<Rightarrow> device \<Rightarrow> tile" where
  "tBmc e s =
     (let b = m_bmc (d_meta s); up = truthy (jget b ''up'') in
      (tile ''BMC'' ''link'' (JStr (if truthy b then (if up then d_l e ''Online'' ''onrain'' else d_l e ''Offline'' ''opeurain'') else d_l e ''Not set'' ''mideungnok'')))
        \<lparr>tl_delta := (if truthy b then jor (jget b ''ip'') (JStr []) else JStr []),
         tl_valueTone := (if truthy b then (if up then ''pos'' else ''neg'') else ''mut'')\<rparr>)"

section \<open>The tiles of one variant\<close>

definition d_plc :: "device \<Rightarrow> jsval" where "d_plc s = bag (m_plc (d_meta s))"
definition d_run :: "device \<Rightarrow> string" where "d_run s = str_or (jget (d_plc s) ''runState'')"
definition runGo :: "device \<Rightarrow> bool" where "runGo s \<longleftrightarrow> d_run s = ''RUN'' \<or> d_run s = ''MONITOR''"
definition plcErr :: "device \<Rightarrow> bool" where "plcErr s \<longleftrightarrow> truthy (jget (d_plc s) ''hasError'')"

definition plcObs :: "device \<Rightarrow> bool" where
  "plcObs s \<longleftrightarrow> \<not> plcErr s \<and> jor (jget (d_plc s) ''errSev'') (jor (jget (bag (jget (d_plc s) ''sysDiag'')) ''ctrlSev'') (JStr [])) = JStr ''observation''"

definition d_proto :: "device \<Rightarrow> string" where "d_proto s = str_or (jget (d_plc s) ''protocol'')"
definition d_fw :: "device \<Rightarrow> string" where "d_fw s = str_or (jget (d_plc s) ''fwVersion'')"
definition detModel :: "device \<Rightarrow> string" where "detModel s = str_or (jget (d_plc s) ''detectedModel'')"

definition linkTxt :: "env \<Rightarrow> device \<Rightarrow> string" where
  "linkTxt e s = (let p = d_plc s in case num_val (jget p ''linkSpeedMbps'') of
     Some v \<Rightarrow> num_str (Fin v) @ ''Mbps . '' @ (if truthy (jget p ''linkFullDuplex'') then d_l e ''Full'' ''jeonijung'' else d_l e ''Half'' ''banijung'')
   | None \<Rightarrow> [])"

definition tilesPLC :: "env \<Rightarrow> device \<Rightarrow> tile list" where
  "tilesPLC e s =
     (let l = d_l e; m = d_meta s; p = d_plc s; run = d_run s; proto = d_proto s in
      [(tile (l ''Status'' ''sangtae'') ''bolt''
          (JStr (if isDown s then l ''Offline'' ''opeurain'' else if run \<noteq> [] then (if run = ''PROGRAM'' then l ''STOP'' ''jeongji'' else run)
            else l ''Online'' ''onrain'')))
         \<lparr>tl_delta := JStr (if isDown s then m_mgmt m
            else if run \<noteq> [] then
              (if run = ''RUN'' then l ''running program'' ''peurogeuraem silhaeng''
               else if run = ''PROGRAM'' then l ''program stopped'' ''peurogeuraem jeongji''
               else if run = ''MONITOR'' then l ''monitor mode'' ''moniteo modeu'' else run)
              @ (if plcErr s then l '' . error flag'' '' . ereo'' else if plcObs s then l '' . observation'' '' . gwanchal'' else [])
            else m_mgmt m),
          tl_deltaTone := (if plcErr s \<or> plcObs s then ''warn'' else ''mut''),
          tl_valueTone := (if isDown s then ''neg'' else if run \<noteq> [] \<and> \<not> runGo s then ''warn'' else ''pos'')\<rparr>,
       (tile (l ''Protocol'' ''peurotokol'') ''link'' (JStr (sor (protoShort (JStr proto)) DASH)))
         \<lparr>tl_delta := JStr (dot [JStr (sor proto (l ''control port'' ''jeeo poteu'')), JStr (linkTxt e s)])\<rparr>,
       (tile (l ''Port'' ''poteu'') ''link'' (if truthy (jget p ''port'') then JStr (to_str (jget p ''port'')) else JStr DASH))
         \<lparr>tl_delta := JStr (if proto = ''FINS'' then ''UDP'' else ''TCP'')\<rparr>,
       (tile (l ''Maker'' ''jejosa'') ''building'' (jor (jget p ''maker'') (JStr DASH)))
         \<lparr>tl_delta := JStr (dot [jor (JStr (detModel s)) (jget p ''model''), opt_part (d_fw s \<noteq> []) (''FW '' @ d_fw s)])\<rparr>])"

definition d_nas :: "device \<Rightarrow> jsval" where "d_nas s = bag (m_nas (d_meta s))"

definition first_of :: "jsval \<Rightarrow> jsval" where "first_of v = (case arr_of v of [] \<Rightarrow> Null | x # _ \<Rightarrow> jor x Null)"

definition num_text :: "jsval \<Rightarrow> string" where "num_text v = (case num_val v of Some x \<Rightarrow> num_str (Fin x) | None \<Rightarrow> DASH)"

definition has_num :: "jsval \<Rightarrow> bool" where "has_num v \<longleftrightarrow> num_val v \<noteq> None"

definition nasHealthTone :: "device \<Rightarrow> string" where
  "nasHealthTone s = (let st = jget (d_nas s) ''systemStatus'' in if truthy st then (if st \<noteq> JStr ''normal'' then ''neg'' else ''pos'') else ''mut'')"

definition tilesNAS :: "env \<Rightarrow> device \<Rightarrow> tile list" where
  "tilesNAS e s =
     (let l = d_l e; n = d_nas s; vol = first_of (jget n ''volumes''); pct = jget vol ''pct''; st = jget n ''systemStatus'';
          upg = truthy (jget n ''upgradeAvailable'') in
      [tCpu e s, tMem e s,
       (tile (l ''Storage'' ''jeojangso'') ''db'' (JStr (num_text pct)))
         \<lparr>tl_unit := (if has_num pct then ''%'' else []),
          tl_delta := (if truthy vol then JStr (num_text (jget vol ''usedGiB'') @ '' / '' @ num_text (jget vol ''sizeGiB'') @ '' GiB'')
            else jor (jget n ''model'') (JStr [])),
          tl_valueTone := pct_tone (te_th e) pct\<rparr>,
       (tile (l ''Health'' ''sangtae'') ''checklist'' (if truthy st then (if st = JStr ''normal'' then JStr (l ''Normal'' ''jeongsang'') else st) else JStr DASH))
         \<lparr>tl_delta := JStr ((if has_num (jget n ''tempC'') then to_str (jget n ''tempC'') @ DEG_C else [])
            @ (if upg then l '' . update'' '' . eopdeiteu'' else [])),
          tl_deltaTone := (if upg then ''warn'' else ''mut''), tl_valueTone := nasHealthTone s\<rparr>])"

definition d_win :: "device \<Rightarrow> jsval" where "d_win s = bag (m_win (d_meta s))"

definition round_num :: "rat \<Rightarrow> jsnum" where "round_num x = Fin (of_int (rround x))"

text \<open>\<open>Math.round(sizeGB * (100 - pct) / 100)\<close>, with the rounding of every operation.\<close>

definition winFreeGB :: "jsval \<Rightarrow> jsnum option" where
  "winFreeGB d =
     (if \<not> truthy d then None
      else (case num_val (jget d ''freeGB'') of
          Some f \<Rightarrow> Some (round_num f)
        | None \<Rightarrow> (case (num_val (jget d ''sizeGB''), num_val (jget d ''pct'')) of
              (Some g, Some p) \<Rightarrow> Some (n_round (n_div (n_mul (Fin g) (n_sub (Fin 100) (Fin p))) (Fin 100)))
            | _ \<Rightarrow> None)))"

definition gb_text :: "jsval \<Rightarrow> string" where "gb_text mb = num_str (n_round (n_div (to_num mb) (Fin 1024))) @ '' GB''"

definition tilesWIN :: "env \<Rightarrow> device \<Rightarrow> tile list" where
  "tilesWIN e s =
     (let l = d_l e; w = d_win s; d = first_of (jget w ''disks''); pct = jget d ''pct'' in
      [(tCpu e s)\<lparr>tl_delta := JStr (if truthy (jget w ''cores'') then to_str (jget w ''cores'') @ l '' cores'' '' koeo'' else m_mgmt (d_meta s))\<rparr>,
       (tMem e s)\<lparr>tl_delta := JStr (if truthy (jget w ''memTotMB'') then gb_text (jget w ''memTotMB'') else l ''used'' ''sayong'')\<rparr>,
       (tile (l ''Disk'' ''diseukeu'') ''ssd'' (JStr (num_text pct)))
         \<lparr>tl_unit := (if has_num pct then ''%'' else []),
          tl_delta := JStr (if truthy d then to_str (jor (jget d ''drive'') (JStr DASH))
            @ (case winFreeGB d of Some f \<Rightarrow> '' '' @ num_str f @ l '' GB free'' '' GB yeoyu'' | None \<Rightarrow> []) else []),
          tl_valueTone := pct_tone (te_th e) pct\<rparr>,
       (tUp e s)\<lparr>tl_delta := JStr (if truthy (jget w ''svcRunning'') then to_str (jget w ''svcRunning'') @ l '' services'' '' seobiseu'' else [])\<rparr>])"

text \<open>The round trip of a ping: the tile of the small computers and of the workstations.\<close>

definition ping_tile :: "env \<Rightarrow> device \<Rightarrow> jsval \<Rightarrow> tile" where
  "ping_tile e s v =
     (tile (d_l e ''Network'' ''neteuwokeu'') ''link''
        (JStr (case num_val v of Some x \<Rightarrow> if x < 1 then ''<1'' else num_str (Fin x) | None \<Rightarrow> DASH)))
       \<lparr>tl_unit := (if has_num v then ''ms'' else []), tl_delta := JStr (d_l e ''ping . RTT'' ''ping . wangbok''),
        tl_hasSpark := (rttHist e s \<noteq> [] \<and> \<not> isDown s), tl_hist := rttHist e s, tl_histHi := rttHi e s\<rparr>"

definition d_pi :: "device \<Rightarrow> jsval" where "d_pi s = bag (m_pi (d_meta s))"

definition tilesPI :: "env \<Rightarrow> device \<Rightarrow> tile list" where
  "tilesPI e s =
     (let l = d_l e; p = d_pi s; t = num_val (jget p ''tempC''); thr = truthy (jget p ''throttled'') in
      [(tCpu e s)\<lparr>tl_delta := jor (jget p ''model'') (JStr (m_mgmt (d_meta s)))\<rparr>,
       (tMem e s)\<lparr>tl_delta := JStr (if truthy (jget p ''memTotMB'') then gb_text (jget p ''memTotMB'') else l ''used'' ''sayong'')\<rparr>,
       (tile (l ''Temperature'' ''ondo'') ''bolt'' (JStr (case t of Some x \<Rightarrow> to_fixed 1 x | None \<Rightarrow> DASH)))
         \<lparr>tl_unit := (if t \<noteq> None then DEG_C else []),
          tl_delta := JStr (if thr then l ''throttled'' ''seuroteul'' else if truthy (jget p ''coreVolt'') then to_str (jget p ''coreVolt'') @ ''V'' else []),
          tl_deltaTone := (if thr then ''neg'' else ''mut''), tl_valueTone := temp_tone 75 65 t\<rparr>,
       ping_tile e s (jget p ''rttMs'')])"

definition d_pc :: "device \<Rightarrow> jsval" where "d_pc s = bag (m_pc (d_meta s))"

definition pcSkewStr :: "jsval \<Rightarrow> string" where
  "pcSkewStr v = (case num_val v of None \<Rightarrow> []
     | Some x \<Rightarrow> if \<bar>x\<bar> < 90 then (if 0 < x then ''+'' else []) @ num_str (Fin x) @ ''s''
                 else num_str (n_round (n_div (Fin x) (Fin 60))) @ ''m'')"

definition pcSign :: "lfun \<Rightarrow> jsval \<Rightarrow> string" where
  "pcSign l g = (if truthy g then
       (if truthy (jget g ''required'') then l ''signing required'' ''seomyeong gangje''
        else if truthy (jget g ''enabled'') then l ''signing on'' ''seomyeong hwalseong'' else l ''signing off'' ''seomyeong eopseum'')
     else [])"

definition tilesPC :: "env \<Rightarrow> device \<Rightarrow> tile list" where
  "tilesPC e s =
     (let l = d_l e; p = d_pc s; m = d_meta s; svc = arr_of (jget p ''services''); skew = pcSkewStr (jget p ''clockSkewSec'') in
      [(tile (l ''Host'' ''hoseuteu'') ''bookmark'' (jor (jget p ''netbios'') (JStr (sor (m_label m) (sor (d_host s) DASH)))))
         \<lparr>tl_delta := JStr (dot [JStr (if truthy (jget p ''workgroup'') then ''[group] '' @ to_str (jget p ''workgroup'')
              else if truthy (jget p ''snmp'') then ''SNMP'' else l ''agentless'' ''eijeonteuriseu''),
            opt_part (truthy (jget p ''loginUser'')) (''[user] '' @ to_str (jget p ''loginUser''))])\<rparr>,
       (tile ''OS'' ''checklist'' (jor (jget p ''os'') (JStr (l ''Unknown'' ''misang''))))
         \<lparr>tl_delta := JStr (dot [jget p ''osVersion'', opt_part (truthy (jget p ''smbDialect'')) (''SMB '' @ to_str (jget p ''smbDialect''))])\<rparr>,
       (tile (l ''Services'' ''nochul seobiseu'') ''link'' (JStr (if svc \<noteq> [] then jjoin '' . '' svc else DASH)))
         \<lparr>tl_delta := JStr (dot [JStr (pcSign l (jget p ''smbSigning'')), opt_part (skew \<noteq> []) (l ''clock '' ''sigye '' @ skew)])\<rparr>,
       ping_tile e s (jget p ''rttMs'')])"

definition tonerTile :: "env \<Rightarrow> device \<Rightarrow> tile" where
  "tonerTile e s =
     (let l = d_l e; t = tonerSummary (m_printer (d_meta s)) in
      (tile (l ''Toner'' ''toneo'') ''db'' (JStr (case tn_minPct t of Some x \<Rightarrow> num_str x | None \<Rightarrow> DASH)))
        \<lparr>tl_unit := (if tn_minPct t \<noteq> None then ''%'' else []),
         tl_delta := JStr (case tn_pages t of Some n \<Rightarrow> l ''pages '' ''peiji '' @ te_loc e n | None \<Rightarrow> []),
         tl_valueTone := (case tn_minPct t of None \<Rightarrow> [] | Some x \<Rightarrow> if n_le x (Fin 10) then ''neg'' else if n_le x (Fin 25) then ''warn'' else [])\<rparr>)"

definition tiles_of :: "env \<Rightarrow> device \<Rightarrow> tile list" where
  "tiles_of e s =
     (case variant_of (d_type s) of
        V_plc \<Rightarrow> tilesPLC e s
      | V_nas \<Rightarrow> tilesNAS e s
      | V_win \<Rightarrow> tilesWIN e s
      | V_pi \<Rightarrow> tilesPI e s
      | V_fts \<Rightarrow> [tEncl e s, tUp e s]
      | V_srv \<Rightarrow> (if d_type s = PC then tilesPC e s
                  else if d_type s = PRN then [tonerTile e s, tUp e s]
                  else [if truthy (m_bmc (d_meta s)) then tBmc e s else tVm e s, tUp e s])
      | V_ft \<Rightarrow> [if d_type s = END then tMod e s else tVm e s, tUp e s])"

end
