(* ===== verification/DetailNode.thy ===== *)
theory DetailNode
  imports DetailTile
begin

text \<open>
  The node rows and the hardware card of \<open>buildDetail\<close> in \<open>src/web/js/model/compute/detail.js\<close>. A node is what the
  collector knows of it (\<open>Known\<close>), a node that only the network management protocol answers for (\<open>SnmpOnly\<close>), or a
  placeholder of a device without data (\<open>Placeholder\<close>, the code's null).

  \<open>(dk.kind || '').toUpperCase()\<close> throws when the kind of a disk is neither empty nor a text (\<open>disks_throw\<close>).
\<close>

section \<open>The nodes of the page\<close>

datatype raw_node = Known jsval | SnmpOnly nat jsval | Placeholder

definition reachSnmp :: "device \<Rightarrow> jsval list" where
  "reachSnmp s = filter (\<lambda>x. truthy x \<and> truthy (jget x ''reachable'')) (m_snmp (d_meta s))"

definition rawNodes :: "device \<Rightarrow> raw_node list" where
  "rawNodes s =
     (if m_nodes (d_meta s) \<noteq> [] then map Known (m_nodes (d_meta s))
      else if reachSnmp s \<noteq> [] then map (\<lambda>p. SnmpOnly (fst p) (snd p)) (enumerate 0 (reachSnmp s))
      else if isFT (d_type s) then [Placeholder, Placeholder] else [Placeholder])"

text \<open>The object the code builds for a node that only answers the management protocol.\<close>

fun node_val :: "raw_node \<Rightarrow> jsval" where
  "node_val (Known n) = n"
| "node_val (SnmpOnly i x) = JObj [(''name'', JStr (''node'' @ int_str (int i))), (''state'', JStr ''running''), (''standing'', JStr ''normal''),
     (''ip'', jget x ''ip''), (''_sn'', x), (''_snmpOnly'', JBool True)]"
| "node_val Placeholder = Null"

text \<open>\<open>n._sn || (n.ip ? find : snmp[i])\<close>.\<close>

definition snmp_of :: "device \<Rightarrow> jsval \<Rightarrow> nat \<Rightarrow> jsval" where
  "snmp_of s n i =
     (if truthy (jget n ''_sn'') then jget n ''_sn''
      else if truthy n \<and> truthy (jget n ''ip'')
        then (case find (\<lambda>x. truthy x \<and> jget x ''ip'' = jget n ''ip'') (m_snmp (d_meta s)) of Some x \<Rightarrow> x | None \<Rightarrow> JObj [])
        else bag (snmp_at (d_meta s) i))"

section \<open>Durations\<close>

text \<open>The remainder of the language has the sign of the dividend and is exact.\<close>

definition rem_of :: "rat \<Rightarrow> rat \<Rightarrow> rat" where
  "rem_of x y = (if x < 0 then - (- x - y * of_int \<lfloor>- x / y\<rfloor>) else x - y * of_int \<lfloor>x / y\<rfloor>)"

definition fdiv :: "rat \<Rightarrow> rat \<Rightarrow> int" where "fdiv x y = \<lfloor>round64 (x / y)\<rfloor>"

definition upFmt :: "jsval \<Rightarrow> string" where
  "upFmt v =
     (if nullish v then DASH
      else (case to_num v of
          Fin x \<Rightarrow> (let dd = fdiv x 86400; hh = fdiv (rem_of x 86400) 3600; mi = fdiv (rem_of x 3600) 60 in
            if 0 < dd then int_str dd @ ''d '' @ int_str hh @ ''h''
            else if 0 < hh then int_str hh @ ''h '' @ int_str mi @ ''m'' else int_str mi @ ''m'')
        | PInf \<Rightarrow> ''Infinityd NaNh''
        | _ \<Rightarrow> ''NaNm''))"

section \<open>A node row\<close>

record node_row =
  nr_name :: jsval
  nr_primary :: bool
  nr_maint :: bool
  nr_badge :: string
  nr_badgeTone :: string
  nr_role :: jsval
  nr_tone :: string
  nr_state :: string
  nr_ip :: jsval
  nr_cpu :: string
  nr_mem :: string
  nr_cpuN :: "jsnum option"
  nr_memN :: "jsnum option"
  nr_cpuTone :: string
  nr_memTone :: string
  nr_modules :: jsval
  nr_module :: jsval
  nr_bmc :: jsval
  nr_standbyNic :: jsval
  nr_fabricConn :: bool
  nr_bootDevice :: jsval
  nr_osName :: jsval
  nr_uptime :: string
  nr_rebooted :: bool
  nr_fresh :: bool
  nr_rebootLabel :: string

definition rx_corp :: rx where
  "rx_corp = rseqs [ropt (rone [CHR '','', CHR 0xB7]), RStar is_space,
     ralts [rseqs [rlit_ci ''Co.'', ropt (rlit '',''), RStar is_space, rlit_ci ''Ltd'', ropt (rlit ''.'')],
            rseqs [rlit_ci ''Company'', rplus is_space, rlit_ci ''Limited''],
            RSeq (rlit_ci ''Ltd'') (ropt (rlit ''.'')), RSeq (rlit_ci ''Inc'') (ropt (rlit ''.'')), rlit_ci ''Incorporated'',
            RSeq (rlit_ci ''Corp'') (ropt (rlit ''.'')), rlit_ci ''Corporation'', rlit_ci ''GmbH'', rlit_ci ''LLC'', rlit_ci ''S.A.'',
            RSeq (rlit_ci ''Pty'') (ropt (rlit ''.''))],
     ropt (rlit ''.''), RStar is_space, REos]"

definition rx_trail :: rx where "rx_trail = RSeq (rplus (\<lambda>c. is_space c \<or> c = CHR '','')) REos"

definition clV :: "jsval \<Rightarrow> string" where
  "clV v = trim (rx_replace rx_trail [] (rx_replace rx_corp [] (str_or v)))"

text \<open>\<open>sn.x != null ? sn.x : (n && n.x_pct != null ? ... : none)\<close>, as a text, as a number and as a tone.\<close>

definition sub_pct :: "jsval \<Rightarrow> jsval \<Rightarrow> string" where
  "sub_pct v sub = (if v = JNum (Fin 0) \<and> (case num_val sub of Some x \<Rightarrow> 0 < x | None \<Rightarrow> False) then ''<1%'' else to_str v @ ''%'')"

definition node_use :: "jsval \<Rightarrow> jsval \<Rightarrow> string \<Rightarrow> string \<Rightarrow> jsval" where
  "node_use n sn f g = (if \<not> nullish (jget sn f) then jget sn f else if truthy n \<and> \<not> nullish (jget n g) then jget n g else Null)"

definition use_num :: "jsval \<Rightarrow> jsnum option" where "use_num v = (if nullish v then None else Some (to_num v))"

definition node_badge :: "lfun \<Rightarrow> device \<Rightarrow> jsval \<Rightarrow> string" where
  "node_badge l s n =
     (let t = d_type s; prim = (truthy n \<and> truthy (jget n ''primary'')); sOnly = (truthy n \<and> truthy (jget n ''_snmpOnly'')) in
      if variant_of t = V_fts then ''LOCKSTEP''
      else if t = END then (if prim then ''ACTIVE'' else ''STANDBY'')
      else if t = PLC then ''PLC'' else if t = PC then ''PC''
      else if isSRV t then (if t = PRN then l ''PRINTER'' ''peurinteo'' else l ''SERVER'' ''seobeo'')
      else if prim then l ''PRIMARY'' ''ju nodeu''
      else if truthy n \<and> \<not> sOnly then l ''STANDBY'' ''bojo nodeu'' else l ''NODE'' ''nodeu'')"

definition ip_tail :: "jsval \<Rightarrow> string" where
  "ip_tail n = (if truthy n \<and> truthy (jget n ''ip'') then '' . '' @ to_str (jget n ''ip'') else [])"

definition node_role :: "lfun \<Rightarrow> device \<Rightarrow> jsval \<Rightarrow> jsval" where
  "node_role l s n =
     (let t = d_type s; m = d_meta s in
      if variant_of t = V_fts then JStr (l ''Lockstepped enclosure'' ''rakseutep inkeullojeo'' @ ip_tail n)
      else if t = END then jor (and_get n ''os'') (JStr DASH)
      else if truthy n \<and> truthy (jget n ''primary'') then JStr (l ''Sync source'' ''donggi soseu'')
      else if t = PLC then JStr (parts '' '' [jor (and_get n ''manufacturer'') (jget (d_plc s) ''maker''), jor (and_get n ''model'') (jget (d_plc s) ''model'')] @ ip_tail n)
      else if t = PC then jor (and_get n ''ip'') (jor (jget (d_pc s) ''os'') (JStr (l ''Windows PC'' ''Windows PC'')))
      else if isSRV t then JStr ((if m_vendor m \<noteq> [] then clV (JStr (m_vendor m)) @ '' '' else []) @ l ''server'' ''seobeo'' @ ip_tail n)
      else if truthy n \<and> truthy (jget n ''_snmpOnly'') then JStr (l ''SNMP only . FT role N/A'' ''SNMP jeonyong . FT yeokhal mihwagin'' @ ip_tail n)
      else if truthy n then JStr (l ''Live mirror'' ''silsigan mireo'') else JStr (l ''Standing by'' ''daegi''))"

definition node_down :: "device \<Rightarrow> jsval \<Rightarrow> bool" where
  "node_down s n \<longleftrightarrow> (if truthy n then \<not> rx_run_ci (jget n ''state'') else isDown s)"

definition node_warn :: "jsval \<Rightarrow> bool" where
  "node_warn n \<longleftrightarrow> truthy n \<and> truthy (jget n ''standing'') \<and> lower (to_str (jget n ''standing'')) \<noteq> ''normal''"

definition node_row_tone :: "device \<Rightarrow> jsval \<Rightarrow> string" where
  "node_row_tone s n = (if truthy n \<and> nodeMaint n then ''warn'' else if node_down s n then ''neg'' else if node_warn n then ''warn'' else ''pos'')"

definition nodeRow :: "env \<Rightarrow> device \<Rightarrow> nat \<times> raw_node \<Rightarrow> node_row" where
  "nodeRow e s p =
     (let l = d_l e; i = fst p; n = node_val (snd p); sn = snmp_of s n i; prim = (truthy n \<and> truthy (jget n ''primary''));
          maint = (truthy n \<and> nodeMaint n); cpu = node_use n sn ''cpu'' ''cpu_pct''; mem = node_use n sn ''mem'' ''mem_pct''
      in \<lparr>nr_name = jor (and_get n ''name'') (JStr (d_host s @ (if i = 0 then ''-A'' else ''-B''))),
          nr_primary = prim, nr_maint = maint, nr_badge = node_badge l s n,
          nr_badgeTone = (if variant_of (d_type s) = V_fts \<or> prim then ''pos'' else ''mut''),
          nr_role = node_role l s n, nr_tone = node_row_tone s n,
          nr_state = (if maint then l ''MAINTENANCE'' ''jeomgeom jung'' else if node_down s n then l ''OFFLINE'' ''opeurain''
            else if d_type s = PLC then l ''ONLINE'' ''onrain'' else upper (to_str (jor (and_get n ''state'') (JStr ''running'')))),
          nr_ip = jor (and_get n ''ip'') (jor (jget sn ''ip'') (JStr [])),
          nr_cpu = (if \<not> nullish (jget sn ''cpu'') then to_str (jget sn ''cpu'') @ ''%''
            else if nullish cpu then DASH else sub_pct cpu (jget n ''cpu_pct1'')),
          nr_mem = (if nullish mem then DASH else to_str mem @ ''%''),
          nr_cpuN = use_num cpu, nr_memN = use_num mem, nr_cpuTone = pct_tone (te_th e) cpu, nr_memTone = pct_tone (te_th e) mem,
          nr_modules = jor (and_get n ''modules'') Null, nr_module = jor (and_get n ''module'') (JStr []),
          nr_bmc = jor (and_get n ''bmc'') Null, nr_standbyNic = jor (and_get n ''standbyNic'') Null,
          nr_fabricConn = (truthy n \<and> truthy (jget n ''fabricConn'')), nr_bootDevice = jor (and_get n ''bootDevice'') (JStr []),
          nr_osName = jor (and_get n ''os'') (JStr []), nr_uptime = upFmt (jget sn ''uptime_secs''),
          nr_rebooted = truthy (jget sn ''rebooted_at''), nr_fresh = truthy (jget sn ''fresh''),
          nr_rebootLabel = (if truthy (jget sn ''rebooted_at'')
            then l ''Rebooted'' ''jaebuting'' @ '' . '' @ agoText (age_int (jget sn ''reboot_ago'')) l (d_ko e) else [])\<rparr>)"

section \<open>The hardware card\<close>

record hw_row =
  hw_icon :: string
  hw_label :: jsval
  hw_detail :: string
  hw_value :: jsval
  hw_stat :: jsval
  hw_statTone :: string
  hw_tone :: string

definition unless_zero_serial :: "jsval \<Rightarrow> jsval" where
  "unless_zero_serial v = opt_part (truthy v \<and> v \<noteq> JStr ''00000000'') (''SN '' @ to_str v)"

definition with_unit :: "string \<Rightarrow> jsval \<Rightarrow> string \<Rightarrow> jsval" where
  "with_unit pre v post = opt_part (truthy v) (pre @ to_str v @ post)"

definition pct_part :: "string \<Rightarrow> jsval \<Rightarrow> jsval" where
  "pct_part pre v = opt_part (\<not> nullish v) (pre @ to_str v @ ''%'')"

definition standing_ok :: "jsval \<Rightarrow> bool" where
  "standing_ok n \<longleftrightarrow> \<not> truthy (jget n ''standing'') \<or> lower (to_str (jget n ''standing'')) = ''normal''"

definition hw_node_detail :: "jsval \<Rightarrow> jsval \<Rightarrow> string" where
  "hw_node_detail n sn =
     (if truthy (jget n ''_snmpOnly'')
      then dot [jget n ''ip'', jor (jget sn ''cpuModel'') (jor (jget sn ''manufacturer'') Null), with_unit [] (jget sn ''memGiB'') '' GiB'',
        unless_zero_serial (jget sn ''serial''), with_unit ''BIOS '' (jget sn ''bios'') [], pct_part ''CPU '' (jget sn ''cpu''),
        pct_part ''MEM '' (jget sn ''mem'')]
      else dot [jor (jget n ''cpuModel'') (jget n ''model''),
        (if truthy (jget n ''memGiB'') then JStr (to_str (jget n ''memGiB'') @ '' GiB'') else jget n ''memory''),
        unless_zero_serial (jget n ''serial''), with_unit ''BIOS '' (jget n ''bios'') []])"

definition hw_node_tone :: "jsval \<Rightarrow> string" where
  "hw_node_tone n = (if rx_run_ci (jor (jget n ''state'') (JStr ''running'')) then (if standing_ok n then ''pos'' else ''warn'') else ''neg'')"

definition hw_node :: "env \<Rightarrow> device \<Rightarrow> nat \<times> jsval \<Rightarrow> hw_row" where
  "hw_node e s p =
     (let n = snd p; ok = standing_ok n; srv = isServer (d_type s) in
      \<lparr>hw_icon = ''ops'',
       hw_label = (if srv then jor (JStr (m_label (d_meta s))) (jget n ''name'') else jget n ''name''),
       hw_detail = hw_node_detail n (snmp_of s n (fst p)),
       hw_value = (if srv then jor (jget n ''state'') (JStr ''running'') else JStr []),
       hw_stat = (if srv then (if ok then JStr (d_l e ''Normal'' ''jeongsang'') else jor (jget n ''standing'') (JStr [])) else JStr []),
       hw_statTone = (if ok then ''pos'' else ''warn''), hw_tone = hw_node_tone n\<rparr>)"

definition disk_health :: "jsval \<Rightarrow> string" where "disk_health dk = upper (str_or (jget dk ''health''))"

definition disk_bad :: "jsval \<Rightarrow> bool" where
  "disk_bad dk \<longleftrightarrow> jget dk ''kind'' \<noteq> JStr ''usb'' \<and> disk_health dk \<noteq> [] \<and> disk_health dk \<notin> set [''PASSED'', ''OK'', ''UNKNOWN'']"

definition disk_low :: "jsval \<Rightarrow> bool" where
  "disk_low dk \<longleftrightarrow> (case num_val (jget dk ''wearout'') of Some w \<Rightarrow> w \<le> 10 | None \<Rightarrow> False)"

definition kind_text :: "jsval \<Rightarrow> string" where "kind_text v = (case v of JStr k \<Rightarrow> upper k | _ \<Rightarrow> [])"

definition hw_disk :: "lfun \<Rightarrow> jsval \<Rightarrow> hw_row" where
  "hw_disk l dk =
     (let h = disk_health dk; usb = (jget dk ''kind'' = JStr ''usb''); bad = disk_bad dk in
      \<lparr>hw_icon = ''ssd'', hw_label = jor (jget dk ''model'') (jget dk ''dev''),
       hw_detail = dot [jget dk ''dev'', with_unit ''SN '' (jget dk ''serial'') [], JStr (kind_text (jget dk ''kind'')),
         with_unit [] (jget dk ''sizeGB'') '' GB'', with_unit [] (jget dk ''rpm'') '' RPM''],
       hw_value = JStr (if has_num (jget dk ''wearout'') then l ''life '' ''sumyeong '' @ to_str (jget dk ''wearout'') @ ''%'' else []),
       hw_stat = (if bad then jget dk ''health'' else JStr (if usb \<or> h = [] \<or> h = ''UNKNOWN'' then [] else l ''Normal'' ''jeongsang'')),
       hw_statTone = (if bad then ''neg'' else ''pos''),
       hw_tone = (if bad then ''neg'' else if disk_low dk then ''warn'' else ''pos'')\<rparr>)"

definition hw_net :: "lfun \<Rightarrow> jsval \<Rightarrow> hw_row" where
  "hw_net l nt =
     (let br = (jget nt ''kind'' = JStr ''bridge''); up = truthy (jget nt ''up''); tone = (if up then ''pos'' else ''mut'') in
      \<lparr>hw_icon = ''link'', hw_label = JStr (to_str (jget nt ''name'') @ (if br then l '' (bridge)'' '' (beuriji)'' else [])),
       hw_detail = dot [jget nt ''mac'', jget nt ''ip'', with_unit ''GW '' (jget nt ''gw'') [],
         opt_part (br \<and> truthy (jget nt ''ports'')) (''<- '' @ to_str (jget nt ''ports''))],
       hw_value = JStr [], hw_stat = JStr (if up then l ''Link'' ''ringkeu'' else l ''Unplugged'' ''miyeongyeol''), hw_statTone = tone, hw_tone = tone\<rparr>)"

definition at_least :: "rat \<Rightarrow> jsval \<Rightarrow> bool" where "at_least b v \<longleftrightarrow> n_le (Fin b) (to_num v)"

definition hw_pool :: "jsval \<Rightarrow> hw_row" where
  "hw_pool sp =
     \<lparr>hw_icon = ''db'', hw_label = jget sp ''name'',
      hw_detail = dot [jget sp ''type'', opt_part (\<not> nullish (jget sp ''usedGiB'') \<and> truthy (jget sp ''totalGiB''))
        (to_str (jget sp ''usedGiB'') @ '' / '' @ to_str (jget sp ''totalGiB'') @ '' GiB'')],
      hw_value = JStr (if nullish (jget sp ''pct'') then [] else to_str (jget sp ''pct'') @ ''%''), hw_stat = JStr [], hw_statTone = ''pos'',
      hw_tone = (if at_least 90 (jget sp ''pct'') then ''neg'' else if at_least 78 (jget sp ''pct'') then ''warn'' else ''pos'')\<rparr>"

definition isProxmox :: "device \<Rightarrow> bool" where
  "isProxmox s \<longleftrightarrow> isServer (d_type s) \<and> m_platform (d_meta s) = ''proxmox''"

definition disks_throw :: "device \<Rightarrow> bool" where
  "disks_throw s \<longleftrightarrow> isProxmox s \<and> list_ex (\<lambda>dk. truthy (jget dk ''kind'') \<and> \<not> is_str (jget dk ''kind'')) (m_srvDisks (d_meta s))"

definition hw_of :: "env \<Rightarrow> device \<Rightarrow> hw_row list" where
  "hw_of e s =
     (let m = d_meta s; l = d_l e in
      map (hw_node e s) (enumerate 0 (filter truthy (map node_val (rawNodes s))))
      @ (if isProxmox s then map (hw_disk l) (m_srvDisks m) @ map (hw_net l) (m_srvNet m) @ map hw_pool (m_srvStorage m) else []))"

definition nodes_of :: "env \<Rightarrow> device \<Rightarrow> node_row list" where
  "nodes_of e s = map (nodeRow e s) (enumerate 0 (rawNodes s))"

section \<open>Facts\<close>

text \<open>A node object is truthy, and its row never shows less than the hardware card for the same standing.\<close>

lemma length_nodes_of [simp]: "length (nodes_of e s) = length (rawNodes s)"
  by (simp add: nodes_of_def)

lemma rawNodes_pos: "rawNodes s \<noteq> []"
  by (simp add: rawNodes_def enumerate_eq_zip)

end
