(* ===== verification/DetailPlc.thy ===== *)
theory DetailPlc
  imports DetailTile
begin

text \<open>
  The cards of a programmable controller in \<open>buildDetail\<close> of \<open>src/web/js/model/compute/detail.js\<close>: state, communication,
  clock, diagnostics, memory card, network counters and process values. Each card is None for the other types. The
  modules, the history and the process values are objects because the normaliser filters these lists.
\<close>

section \<open>State and communication\<close>

record plc_main =
  pm_run :: string
  pm_runTone :: string
  pm_sub :: string
  pm_err :: bool
  pm_obs :: bool
  pm_maker :: jsval
  pm_model :: jsval
  pm_ip :: string

definition plcMain :: "lfun \<Rightarrow> device \<Rightarrow> plc_main option" where
  "plcMain l s =
     (if d_type s \<noteq> PLC then None
      else let run = d_run s; p = d_plc s in Some
        \<lparr>pm_run = (if isDown s then l ''OFFLINE'' ''opeurain'' else if run = ''PROGRAM'' then l ''STOP'' ''jeongji'' else sor run (l ''ONLINE'' ''onrain'')),
         pm_runTone = (if isDown s then ''neg'' else if (run \<noteq> [] \<and> \<not> runGo s) \<or> plcErr s then ''warn'' else ''pos''),
         pm_sub = (if isDown s then l ''Control port not responding'' ''jeeo poteu mieungdap''
           else if run \<noteq> [] then (if runGo s then l ''Program running'' ''peurogeuraem silhaeng jung'' else l ''Program stopped'' ''peurogeuraem jeongjidoem'')
           else l ''Reachable'' ''eungdap''),
         pm_err = plcErr s, pm_obs = plcObs s, pm_maker = jor (jget p ''maker'') (JStr DASH),
         pm_model = (if detModel s \<noteq> [] then JStr (detModel s) else jor (jget p ''model'') (JStr DASH)), pm_ip = m_mgmt (d_meta s)\<rparr>)"

record kv =
  kv_k :: string
  kv_v :: jsval
  kv_tone :: string
  kv_warn :: bool
  kv_dim :: bool

definition kv :: "string \<Rightarrow> jsval \<Rightarrow> kv" where "kv k v = \<lparr>kv_k = k, kv_v = v, kv_tone = [], kv_warn = False, kv_dim = False\<rparr>"
definition kvt :: "string \<Rightarrow> jsval \<Rightarrow> string \<Rightarrow> kv" where "kvt k v t = (kv k v)\<lparr>kv_tone := t\<rparr>"
definition kvw :: "string \<Rightarrow> jsval \<Rightarrow> bool \<Rightarrow> kv" where "kvw k v w = (kv k v)\<lparr>kv_warn := w\<rparr>"

text \<open>\<open>String(x || '') || DASH\<close>.\<close>

definition or_dash :: "jsval \<Rightarrow> jsval" where "or_dash v = JStr (sor (str_or v) DASH)"

definition fmtBps :: "jsval \<Rightarrow> string" where
  "fmtBps v =
     (let n = (case num_val v of Some x \<Rightarrow> x | None \<Rightarrow> 0) in
      if 1048576 \<le> n then to_fixed 1 (round64 (n / 1048576)) @ '' MB/s''
      else if 1024 \<le> n then to_fixed 1 (round64 (n / 1024)) @ '' KB/s''
      else num_str (Fin n) @ '' B/s'')"

definition io_row :: "lfun \<Rightarrow> jsval \<Rightarrow> kv" where
  "io_row l v =
     (case num_val v of
        None \<Rightarrow> kv [] (JStr DASH)
      | Some x \<Rightarrow>
          (case (if x = 2 then (l ''I/O connection fault'' ''I/O yeongyeol oryu'', ''neg'')
                 else if x = 3 then (l ''No data links'' ''deiteoringkeu eopseum'', ''mut'')
                 else if x = 6 then (l ''Data link running'' ''deiteoringkeu silhaeng'', ''pos'')
                 else if x = 7 then (l ''Data link idle'' ''deiteoringkeu yuhyu'', ''warn'')
                 else (l ''Standby'' ''daegi'', ''mut'')) of
             (t, tone) \<Rightarrow> kvt (l ''EtherNet/IP link'' ''EtherNet/IP ringkeu'') (JStr t) tone))"

definition err_count :: "jsval \<Rightarrow> string \<Rightarrow> jsnum" where "err_count p k = or0 (jget p k)"

definition plcCommRows :: "env \<Rightarrow> device \<Rightarrow> kv list" where
  "plcCommRows e s =
     (let l = d_l e; p = d_plc s; proto = d_proto s; cip = str_or (jget p ''cipStatus'');
          errs = n_add (n_add (err_count p ''netInErrors'') (err_count p ''netOutErrors'')) (err_count p ''netCrcErrors'') in
      [kv (l ''Protocol'' ''peurotokol'') (JStr (sor proto DASH)),
       kv (l ''Port'' ''poteu'') (JStr (if truthy (jget p ''port'') then to_str (jget p ''port'') @ '' . '' @ (if proto = ''FINS'' then ''UDP'' else ''TCP'') else DASH)),
       kv (l ''Link'' ''ringkeu'') (JStr (sor (linkTxt e s) DASH)),
       kv (l ''Response time'' ''eungdap sigan'') (JStr (case num_val (jget p ''finsRttMs'') of
         Some x \<Rightarrow> if x < 1 then ''<1 ms'' else num_str (Fin x) @ '' ms'' | None \<Rightarrow> DASH)),
       kv (l ''Detected model'' ''gamji model'') (JStr (sor (detModel s) DASH)),
       kv (l ''Firmware'' ''peomweeo'') (JStr (sor (d_fw s) DASH)),
       kv (l ''Unit revision'' ''yunit ribijeon'') (or_dash (jget p ''unitRev'')),
       kv (l ''Serial'' ''sirieol'') (or_dash (jget p ''serial'')),
       kv ''MAC'' (or_dash (jget p ''mac'')),
       kv (l ''Hostname'' ''hoseuteumyeong'') (or_dash (jget p ''hostname'')),
       kv (l ''IP config'' ''IP guseong'') (JStr (if truthy (jget p ''netMask'')
         then l ''mask '' ''maseukeu '' @ to_str (jget p ''netMask'') @ '' . GW '' @ to_str (jor (jget p ''gateway'') (JStr (l ''none'' ''eopseum''))) else DASH)),
       kv (l ''Traffic'' ''teuraepik'') (JStr (if has_num (jget p ''netInBps'')
         then ''down '' @ fmtBps (jget p ''netInBps'') @ '' . up '' @ fmtBps (jget p ''netOutBps'') else DASH)),
       kvt (l ''Line errors'' ''hoeseon oryu'') (JStr (if has_num (jget p ''netInErrors'')
         then l ''rx '' ''susin '' @ to_str (jget p ''netInErrors'') @ l '' . tx '' '' . songsin '' @ to_str (jor (jget p ''netOutErrors'') (JNum (Fin 0)))
              @ (if has_num (jget p ''netCrcErrors'') then '' . CRC '' @ to_str (jget p ''netCrcErrors'') else []) else DASH))
         (if n_lt (Fin 0) errs then ''warn'' else ''pos''),
       kv (l ''Product name'' ''jepummyeong'') (or_dash (jget p ''productName'')),
       kv (l ''CIP status'' ''CIP sangtae'') (JStr (if cip = [] then DASH
         else cip @ (if truthy (jget p ''cipMajorFault'') then l '' . MAJOR FAULT'' '' . meijeo polteu''
                     else if truthy (jget p ''cipMinorFault'') then l '' . minor fault'' '' . maineo polteu''
                     else l '' . no fault'' '' . polteu eopseum''))),
       io_row l (jget p ''ioConn''),
       kv (l ''Fatal code'' ''chimyeong kodeu'') (or_dash (jget p ''finsFatalCode'')),
       kv (l ''Non-fatal code'' ''bichimyeong kodeu'') (or_dash (jget p ''finsNonFatalCode''))])"

definition plcComm :: "env \<Rightarrow> device \<Rightarrow> kv list option" where
  "plcComm e s = (if d_type s \<noteq> PLC then None else Some (filter (\<lambda>r. kv_v r \<noteq> JStr DASH) (plcCommRows e s)))"

section \<open>The clock\<close>

record plc_clock =
  pk_bad :: bool
  pk_days :: int
  pk_text :: string

definition plcClock :: "lfun \<Rightarrow> device \<Rightarrow> plc_clock option" where
  "plcClock l s =
     (if d_type s \<noteq> PLC then None
      else (case num_val (jget (d_plc s) ''clockSkewSec'') of
          None \<Rightarrow> None
        | Some k \<Rightarrow> (let bad = (86400 < \<bar>k\<bar>); days = \<lfloor>round64 (\<bar>k\<bar> / 86400)\<rfloor>; ds = int_str days in Some
            \<lparr>pk_bad = bad, pk_days = days,
             pk_text = (if bad then l (''Off by ~'' @ ds @ '' days ('' @ (if 0 < k then ''behind'' else ''ahead'') @ '') -- check the RTC battery or reset the clock'')
                 (''silje sigangwa yak '' @ ds @ ''il chai ('' @ (if 0 < k then ''neurim'' else ''ppareum'') @ '') -- RTC baeteori jeomgeom ttoneun sigye jaeseoljeong piryo'')
               else l ''Within normal range (under 1 day)'' ''jeongsang beomwi (1il inae ocha)'')\<rparr>)))"

section \<open>Diagnostics\<close>

definition sysD :: "device \<Rightarrow> jsval" where
  "sysD s = (if d_type s = PLC then jor (jget (d_plc s) ''sysDiag'') Null else Null)"

definition SEV_ORD :: "jsval \<Rightarrow> int" where
  "SEV_ORD v = (if v = JStr ''observation'' then 1 else if v = JStr ''minor'' then 2 else if v = JStr ''partial'' then 3
     else if v = JStr ''major'' then 4 else 0)"

definition sev_plc :: "lfun \<Rightarrow> jsval \<Rightarrow> (string \<times> string) option" where
  "sev_plc l v =
     (if v = JStr ''observation'' then Some (l ''Observation'' ''gwanchal'', ''warn'')
      else if v = JStr ''minor'' then Some (l ''Minor fault'' ''gyeongmi gyeolham'', ''warn'')
      else if v = JStr ''partial'' then Some (l ''Partial fault'' ''bubun gyeolham'', ''neg'')
      else if v = JStr ''major'' then Some (l ''Major fault'' ''jungdae gyeolham'', ''neg'') else None)"

definition diag_modules :: "device \<Rightarrow> jsval list" where "diag_modules s = arr_of (jget (sysD s) ''modules'')"

definition worse_sev :: "jsval \<Rightarrow> jsval \<Rightarrow> jsval" where
  "worse_sev w mo = (if SEV_ORD w < SEV_ORD (jget mo ''sev'') then jget mo ''sev'' else w)"

definition worstSev :: "device \<Rightarrow> jsval" where
  "worstSev s =
     (if \<not> truthy (sysD s) then JStr []
      else let c = str_or (jget (sysD s) ''ctrlSev'') in
        if c \<noteq> [] then JStr c else foldl worse_sev (JStr []) (diag_modules s))"

record diag_module =
  dm_label :: jsval
  dm_code :: string
  dm_err :: bool
  dm_sevLabel :: string
  dm_tone :: string

definition MOD_KO :: "jsval \<Rightarrow> jsval" where
  "MOD_KO v = (if v = JStr ''Controller'' then JStr ''keonteurolleo'' else if v = JStr ''I/O bus'' then JStr ''I/O beoseu''
     else if v = JStr ''Motion'' then JStr ''mosyeon'' else v)"

definition diag_module_of :: "env \<Rightarrow> jsval \<Rightarrow> diag_module" where
  "diag_module_of e mo =
     (let si = sev_plc (d_l e) (jget mo ''sev''); err = truthy (jget mo ''err'') in
      \<lparr>dm_label = (if d_ko e then MOD_KO (jget mo ''module'') else jget mo ''module''), dm_code = str_or (jget mo ''code''), dm_err = err,
       dm_sevLabel = (case si of Some p \<Rightarrow> fst p | None \<Rightarrow> if err then d_l e ''ERR'' ''oryu'' else []),
       dm_tone = (case si of Some p \<Rightarrow> snd p | None \<Rightarrow> if err then ''neg'' else ''pos'')\<rparr>)"

record plc_diag =
  pd_err :: bool
  pd_state :: string
  pd_modules :: "diag_module list"
  pd_extras :: "kv list"
  pd_powerOn :: "rat option"
  pd_since :: string
  pd_history :: "(string \<times> string \<times> bool) list"

definition diag_state :: "device \<Rightarrow> string" where
  "diag_state s =
     (let w = worstSev s in
      if truthy w then (if w = JStr ''partial'' \<or> w = JStr ''major'' then ''err'' else ''warn'')
      else if truthy (jget (sysD s) ''ctrlErr'') then ''err'' else ''ok'')"

definition history_line :: "lfun \<Rightarrow> jsval \<Rightarrow> string \<times> string \<times> bool" where
  "history_line l hh =
     (let t = jget hh ''to'' in
      (str_or (jget hh ''at''),
       if truthy t then (case sev_plc l t of Some p \<Rightarrow> fst p | None \<Rightarrow> to_str t) @ l '' raised'' '' balsaeng'' else l ''cleared'' ''haeje'',
       truthy t))"

definition plcDiag :: "env \<Rightarrow> device \<Rightarrow> plc_diag option" where
  "plcDiag e s =
     (let l = d_l e; d = sysD s; ua = jget d ''userAlarm''; oh = jget d ''outHoldCfg'' in
      if \<not> truthy d \<or> diag_modules s = [] then None else Some
        \<lparr>pd_err = truthy (jget d ''ctrlErr''), pd_state = diag_state s, pd_modules = map (diag_module_of e) (diag_modules s),
         pd_extras =
           (if truthy ua then [kvw (l ''User alarm (FAL)'' ''sayongja allam (FAL)'')
              (JStr (if truthy (jget ua ''active'') then str_or (jget ua ''code'') else l ''None'' ''eopseum'')) (truthy (jget ua ''active''))] else [])
           @ (case oh of JBool b \<Rightarrow> [kvw (l ''Output hold'' ''chulyeok yuji seoljeong'') (JStr (if b then l ''Enabled'' ''sayong'' else l ''Off'' ''misayong'')) False] | _ \<Rightarrow> []),
         pd_powerOn = num_val (jget d ''powerOnCount''),
         pd_since = (if truthy (jget (d_plc s) ''errSince'') \<and> truthy (worstSev s) then to_str (jget (d_plc s) ''errSince'') else []),
         pd_history = map (history_line l) (take 4 (arr_of (jget (d_plc s) ''errHistory'')))\<rparr>)"

section \<open>Memory card and network\<close>

record plc_sd =
  sd_bad :: bool
  sd_rows :: "kv list"

definition plcSd :: "lfun \<Rightarrow> device \<Rightarrow> plc_sd option" where
  "plcSd l s =
     (let sd = jget (sysD s) ''sdCard''; rdy = truthy (jget sd ''ready''); old = truthy (jget sd ''deteriorated'');
          err = truthy (jget sd ''err''); pf = truthy (jget sd ''powerFail'') in
      if \<not> truthy sd then None else Some
        \<lparr>sd_bad = (old \<or> pf \<or> err),
         sd_rows = [(kv (l ''Status'' ''sangtae'') (JStr (if rdy then l ''Ready'' ''jeongsang insik'' else l ''Not inserted'' ''mijangchak'')))\<lparr>kv_dim := \<not> rdy\<rparr>]
           @ (if rdy then
               [kvw (l ''Lifetime'' ''sumyeong'') (JStr (if old then l ''Deteriorated -- replace'' ''sumyeong jeoha -- gyoche piryo'' else l ''Good'' ''yangho'')) old,
                kvw (l ''Card error'' ''kadeu oryu'') (JStr (if err then l ''Error'' ''oryu'' else l ''None'' ''eopseum'')) err,
                kvw (l ''Write protect'' ''sseugi bangji'') (JStr (if truthy (jget sd ''protected'') then l ''On'' ''seoljeongdoem'' else l ''Off'' ''haeje'')) False] else [])
           @ (if pf then [kvw (l ''Power fail'' ''jeonwon isang'') (JStr (l ''Write interrupted by power loss'' ''jeonwon chadan jung sseugi jungdan'')) True] else [])\<rparr>)"

definition size_text :: "rat \<Rightarrow> nat \<Rightarrow> rat \<Rightarrow> string \<Rightarrow> string" where
  "size_text n f unit name = to_fixed f (round64 (n / unit)) @ name"

text \<open>The counters are read as the numbers the collector sends.\<close>

definition fmtB :: "jsval \<Rightarrow> string" where
  "fmtB v =
     (if nullish v then DASH
      else (case num_val v of
          Some n \<Rightarrow> if 1073741824 \<le> n then size_text n 2 1073741824 '' GiB''
            else if 1048576 \<le> n then size_text n 1 1048576 '' MiB''
            else if 1024 \<le> n then size_text n 1 1024 '' KiB'' else num_str (Fin n) @ '' B''
        | None \<Rightarrow> to_str v @ '' B''))"

definition zero_code :: "jsval \<Rightarrow> bool" where "zero_code v \<longleftrightarrow> \<not> truthy v \<or> v = JStr ''0x0000''"

definition pair_row :: "string \<Rightarrow> jsval \<Rightarrow> string \<Rightarrow> string \<Rightarrow> kv" where
  "pair_row k nc a b =
     kvw k (JStr (to_str (jor (jget nc a) (JNum (Fin 0))) @ '' / '' @ to_str (jor (jget nc b) (JNum (Fin 0)))))
       (n_lt (Fin 0) (n_add (or0 (jget nc a)) (or0 (jget nc b))))"

definition eip_rows :: "lfun \<Rightarrow> jsval \<Rightarrow> kv list" where
  "eip_rows l eip =
     (let portBad = \<not> zero_code (jget eip ''portErr''); tcp = jget eip ''tcpAppErr''; cip = jget eip ''cipErr''; bo = jget eip ''bootpErr'';
          ide = jget eip ''identityErr''; two = (truthy bo \<or> truthy ide); ntp = jget eip ''ntp''; ok = truthy (jget ntp ''ok'');
          isBool = (\<lambda>v. v = JBool True \<or> v = JBool False) in
      [kvt (l ''EtherNet/IP service'' ''EtherNet/IP seobiseu'') (JStr (if truthy (jget eip ''online'') then l ''Online'' ''onrain'' else l ''Offline'' ''opeurain''))
         (if truthy (jget eip ''online'') then ''pos'' else ''neg''),
       kvt (l ''Tag data links'' ''taegeu deiteoringkeu'') (JStr (if truthy (jget eip ''tagLinkRun'') then l ''Running'' ''silhaeng jung'' else l ''Not in use'' ''misayong''))
         (if truthy (jget eip ''tagLinkRun'') then ''pos'' else ''mut''),
       kvt (l ''LAN hardware'' ''LAN hadeuweeo'') (JStr (if truthy (jget eip ''lanHwErr'') then l ''Error'' ''oryu'' else l ''Normal'' ''jeongsang''))
         (if truthy (jget eip ''lanHwErr'') then ''neg'' else ''pos''),
       kvt (l ''Port error'' ''poteu oryu'') (if portBad then jget eip ''portErr'' else JStr (l ''None'' ''eopseum'')) (if portBad then ''neg'' else ''pos'')]
      @ (if truthy tcp \<or> truthy cip then
           [kvt (l ''EIP errors (TCP/CIP)'' ''EIP oryu (TCP/CIP)'') (JStr (to_str (jor tcp (JStr ''0x0000'')) @ '' / '' @ to_str (jor cip (JStr ''0x0000''))))
             (if \<not> zero_code tcp \<or> \<not> zero_code cip then ''neg'' else ''pos'')] else [])
      @ (if isBool bo \<or> isBool ide then
           [kvt (l ''BOOTP / identity'' ''BOOTP / sikbyeol'') (JStr (if two then l ''Error'' ''oryu'' else l ''Normal'' ''jeongsang'')) (if two then ''neg'' else ''pos'')] else [])
      @ (if truthy ntp then
           [kvt (l ''NTP sync'' ''NTP donggihwa'') (JStr ((if ok then l ''OK'' ''jeongsang'' else l ''Failed'' ''silpae'')
              @ (if truthy (jget ntp ''last'') then '' . '' @ take 10 (to_str (jget ntp ''last'')) else []))) (if ok then ''pos'' else ''neg'')] else []))"

definition ctr_rows :: "lfun \<Rightarrow> jsval \<Rightarrow> kv list" where
  "ctr_rows l nc =
     [kv (l ''Received (since boot)'' ''susin nujeok'') (JStr (fmtB (jget nc ''inOctets''))),
      kv (l ''Sent (since boot)'' ''songsin nujeok'') (JStr (fmtB (jget nc ''outOctets''))),
      pair_row (l ''Errors (in / out)'' ''oryu (susin/songsin)'') nc ''inErrors'' ''outErrors'',
      pair_row (l ''Discards (in / out)'' ''pyegi (susin/songsin)'') nc ''inDiscards'' ''outDiscards'']"

definition plcNet :: "lfun \<Rightarrow> device \<Rightarrow> (kv list \<times> kv list) option" where
  "plcNet l s =
     (let eip = jget (sysD s) ''eip''; nc = (if d_type s = PLC then jget (d_plc s) ''netCounters'' else Null) in
      if truthy eip \<or> truthy nc then Some (if truthy eip then eip_rows l eip else [], if truthy nc then ctr_rows l nc else []) else None)"

record plc_var =
  pv_name :: string
  pv_label :: string
  pv_unit :: string
  pv_value :: string

definition plcVars :: "device \<Rightarrow> plc_var list option" where
  "plcVars s =
     (let vs = arr_of (jget (d_plc s) ''procVars'') in
      if d_type s \<noteq> PLC \<or> vs = [] then None
      else Some (map (\<lambda>v. \<lparr>pv_name = str_or (jget v ''name''), pv_label = str_or (jor (jget v ''label'') (jget v ''name'')),
        pv_unit = str_or (jget v ''unit''), pv_value = (if nullish (jget v ''value'') then DASH else to_str (jget v ''value''))\<rparr>) vs))"

section \<open>The worst severity\<close>

lemma worse_sev_ge: "SEV_ORD w \<le> SEV_ORD (worse_sev w mo)" "SEV_ORD (jget mo ''sev'') \<le> SEV_ORD (worse_sev w mo)"
  by (auto simp: worse_sev_def)

lemma worse_fold: "SEV_ORD w \<le> SEV_ORD (foldl worse_sev w ms) \<and> (\<forall>mo \<in> set ms. SEV_ORD (jget mo ''sev'') \<le> SEV_ORD (foldl worse_sev w ms))"
proof (induction ms arbitrary: w)
  case (Cons mo ms)
  show ?case using Cons.IH [of "worse_sev w mo"] worse_sev_ge(1) [of w mo] worse_sev_ge(2) [of mo w] by fastforce
qed simp

end
