(* ===== verification/DetailView.thy ===== *)
theory DetailView
  imports DetailNode DetailPlc
begin

text \<open>
  The rest of \<open>buildDetail\<close> in \<open>src/web/js/model/compute/detail.js\<close>: the licence card, alarms and notices, the lines of
  text about the hardware, the controls, the virtual machines, the header, and the composition of the whole page.

  \<open>cert.service\<close> throws on a null certificate, which the normaliser lets through (\<open>certs_throw\<close>).
\<close>

section \<open>The licence card\<close>

record license_card =
  lk_edition :: jsval
  lk_typeLabel :: jsval
  lk_name :: jsval
  lk_statusLabel :: string
  lk_statusTone :: string
  lk_expiryLabel :: string
  lk_expiry :: string
  lk_days :: "int option"
  lk_dayTone :: string
  lk_install :: string

text \<open>The days left: the code formats the date and parses the text again.\<close>

definition lic_exp :: "jsval \<Rightarrow> string option" where
  "lic_exp lic = (if truthy (jget lic ''expires'') \<and> truthy (jget lic ''expire'') then Some (fmtLicDate (jget lic ''expire'')) else None)"

definition lic_left :: "host \<Rightarrow> jsval \<Rightarrow> int option" where
  "lic_left h lic =
     (case lic_exp lic of
        None \<Rightarrow> None
      | Some x \<Rightarrow> if x = [] then None else map_option (\<lambda>d. day_count d (now h)) (date_parse h (x @ ''T00:00:00Z'')))"

definition license_of :: "host \<Rightarrow> lfun \<Rightarrow> bool \<Rightarrow> jsval \<Rightarrow> license_card option" where
  "license_of h l ko lic =
     (if \<not> truthy lic then None
      else let act = truthy (jget lic ''activated''); ty = jget lic ''type''; left = lic_left h lic in Some
        \<lparr>lk_edition = jor (jget lic ''edition'') (JStr DASH),
         lk_typeLabel = (if ty = JStr ''trial'' then JStr (l ''Trial'' ''pyeonggapan'') else if ty = JStr ''standard'' then JStr (l ''Standard'' ''jeongsik'')
           else jor ty (JStr DASH)),
         lk_name = jor (jget lic ''name'') (JStr []),
         lk_statusLabel = (if act then l ''Activated'' ''jeongpum injeungdoem'' else l ''Not activated'' ''miinjeung''),
         lk_statusTone = (if act then ''pos'' else ''neg''),
         lk_expiryLabel = (if left \<noteq> None then l ''Expires'' ''mallyoil'' else l ''Expiry'' ''mallyo''),
         lk_expiry = (case (lic_exp lic, left) of
             (Some x, Some d) \<Rightarrow> x @ '' . '' @ (if d < 0 then ddayText left ko else int_str d @ (if ko then ''il nameum'' else ''d left''))
           | _ \<Rightarrow> if truthy (jget lic ''expires'') then l ''Unknown'' ''misang'' else l ''Perpetual'' ''yeonggu''),
         lk_days = left, lk_dayTone = licTone left, lk_install = fmtLicDate (jget lic ''install'')\<rparr>)"

section \<open>Alarms, traps and notices\<close>

record alert_line =
  an_desc :: string
  an_time :: string
  an_ago :: string
  an_sev :: sev_info

definition alert_line_of :: "env \<Rightarrow> alert_rec \<Rightarrow> alert_line" where
  "alert_line_of e a =
     \<lparr>an_desc = sor (al_desc a) (al_name a), an_time = al_time a,
      an_ago = sor (agoText (agoSec (te_h e) (JStr (al_time a))) (d_l e) (d_ko e)) (al_time a),
      an_sev = sevInfo (jor (al_sev a) (JStr (al_severity a))) (d_l e)\<rparr>"

definition alertsList :: "env \<Rightarrow> device \<Rightarrow> alert_line list" where
  "alertsList e s =
     map (alert_line_of e) (take 6 (sort_by (\<lambda>x y. collate_dflt (te_h e) (al_time y) (al_time x)) (m_alerts (d_meta s))))"

record trap_line =
  tp_desc :: string
  tp_time :: string
  tp_src :: string
  tp_sev :: sev_info

definition trapsList :: "env \<Rightarrow> device \<Rightarrow> trap_line list" where
  "trapsList e s = map (\<lambda>t. \<lparr>tp_desc = sor (tr_desc t) (sor (tr_oid t) ''SNMP trap''), tp_time = tr_time t, tp_src = tr_src t,
     tp_sev = sevInfo (tr_sev t) (d_l e)\<rparr>) (take 8 (m_traps (d_meta s)))"

record notice =
  nt_icon :: string
  nt_tone :: string
  nt_strong :: string
  nt_text :: string

definition rx_certErr :: rx where "rx_certErr = ralts [rlit_ci ''cert'', rlit_ci ''ssl'', rlit_ci ''NotAfter'', rlit_ci ''handshake'']"

definition avErr :: "lfun \<Rightarrow> device \<Rightarrow> string option" where
  "avErr l s =
     (let err = m_error (d_meta s) in
      if \<not> truthy err then None
      else if rx_test rx_certErr (to_str err)
        then Some (l ''Management console certificate error -- cluster detail unavailable'' ''gwanri konsol injeungseo oryu -- keulleoseuteo sangse sujip bulga'')
        else Some (l ''Cluster detail unavailable'' ''keulleoseuteo sangse sujip bulga'' @ '': '' @ take 70 (to_str err)))"

definition notices_of :: "env \<Rightarrow> device \<Rightarrow> notice list" where
  "notices_of e s =
     (let l = d_l e; m = d_meta s; rb = m_lastReboot m; pm = jget (d_plc s) ''errorMessage'' in
      (if d_maint s then [\<lparr>nt_icon = ''jeomgeom'', nt_tone = ''warn'', nt_strong = l ''Maintenance mode'' ''jeomgeom modeu'',
         nt_text = join '', '' (maintNodes s) @ '' . '' @ l ''planned maintenance'' ''gyehoekdoen yuji bosu jung''\<rparr>] else [])
      @ (if truthy rb then [\<lparr>nt_icon = ''cycle'', nt_tone = ''info'', nt_strong = l ''Recent reboot detected'' ''jaebuting gamjidoem'',
         nt_text = str_or (jget rb ''node'') @ '' . '' @ agoText (age_int (jget rb ''agoSecs'')) l (d_ko e)\<rparr>] else [])
      @ (case avErr l s of Some t \<Rightarrow> [\<lparr>nt_icon = ''warningCircle'', nt_tone = ''neg'', nt_strong = l ''Data collection'' ''sujip sangtae'', nt_text = t\<rparr>] | None \<Rightarrow> [])
      @ (if d_type s = PLC \<and> truthy pm then [\<lparr>nt_icon = ''warningCircle'', nt_tone = ''neg'', nt_strong = l ''PLC message (FAL/FALS)'' ''PLC mesiji (FAL/FALS)'',
         nt_text = to_str pm\<rparr>] else []))"

section \<open>Lines about the hardware\<close>

definition uniq :: "jsval list \<Rightarrow> jsval list" where "uniq vs = nub (filter truthy vs)"

definition text_part :: "string \<Rightarrow> jsval" where "text_part s = opt_part (s \<noteq> []) s"

definition hwLine :: "env \<Rightarrow> device \<Rightarrow> string" where
  "hwLine e s =
     (let l = d_l e; m = d_meta s; p = d_pi s; w = d_win s; n = d_nas s; c = d_pc s; first = node_val (hd (rawNodes s)) in
      if d_type s = PI then dot [jor (jget p ''model'') (JStr ''Raspberry Pi''), with_unit ''kernel '' (jget p ''kernel'') [], jget p ''mac'',
        JStr (if nullish (jget p ''cpu'') then l ''agentless'' ''eijeonteuriseu'' else ''SSH'')]
      else if d_type s = WIN then dot [jget w ''os'', with_unit ''build '' (jget w ''build'') [], with_unit ''[domain] '' (jget w ''domain'') [],
        with_unit ''S/N '' (jget w ''serial'') [], JStr ''WinRM'']
      else if d_type s = NAS then dot [JStr (''Synology'' @ (if truthy (jget n ''model'') then '' '' @ to_str (jget n ''model'') else [])), jget n ''dsmVersion'',
        with_unit ''S/N '' (jget n ''serial'') [], JStr (l ''SNMP live'' ''SNMP sujip'')]
      else if d_type s = PC then jjoin '' . '' (uniq [jget c ''fqdn'', text_part (clV (jor (jget c ''macVendor'') (JStr (m_vendor m)))), jget c ''mac'',
        JStr (if truthy (jget c ''snmp'') then l ''SNMP live'' ''SNMP sujip'' else l ''agentless'' ''eijeonteuriseu'')])
      else if isSRV (d_type s) then jjoin '' . '' (uniq [text_part (m_vendor m), jor (and_get first ''model'') (and_get first ''cpuModel''),
        jget (snmp_at m 0) ''cpuModel''])
      else [])"

definition certs_throw :: "device \<Rightarrow> bool" where
  "certs_throw s \<longleftrightarrow> d_type s = PC \<and> list_ex nullish (arr_of (jget (d_pc s) ''certs''))"

definition cert_row :: "lfun \<Rightarrow> jsval \<Rightarrow> kv" where
  "cert_row l c =
     kv (''[lock] '' @ to_str (jor (jget c ''service'') (JStr ''TLS'')))
       (JStr (str_or (jget c ''subject'')
         @ (if truthy (jget c ''notAfter'') then '' . ~'' @ take 10 (to_str (jget c ''notAfter'')) else [])
         @ (if truthy (jget c ''selfSigned'') then l '' (self-signed)'' ''(jacheseomyeong)'' else [])))"

definition row_if :: "bool \<Rightarrow> string \<Rightarrow> string \<Rightarrow> kv list" where "row_if b k v = (if b then [kv k (JStr v)] else [])"

definition srv_lines :: "lfun \<Rightarrow> jsval \<Rightarrow> kv list" where
  "srv_lines l v =
     row_if (truthy (jget v ''cpuModel'')) ''CPU'' (to_str (jget v ''cpuModel'')
       @ (if truthy (jget v ''cores'') then '' . '' @ to_str (jget v ''cores'') @ ''C/'' @ to_str (jor (jget v ''threads'') (jget v ''cores'')) @ ''T'' else []))
     @ row_if (truthy (jget v ''memGiB'')) (l ''Memory'' ''memori'') (to_str (jget v ''memGiB'') @ '' GiB''
       @ (if truthy (jget v ''swapGiB'') then l '' . swap '' '' . seuwap '' @ to_str (jget v ''swapGiB'') @ '' GiB''
            @ (if truthy (jget v ''swapUsedPct'') then '' ('' @ to_str (jget v ''swapUsedPct'') @ ''%)'' else []) else []))
     @ row_if (truthy (jget v ''rootfsGiB'')) (l ''Root FS'' ''ruteu FS'')
       ((if nullish (jget v ''rootfsUsedGiB'') then [] else to_str (jget v ''rootfsUsedGiB'') @ '' / '') @ to_str (jget v ''rootfsGiB'') @ '' GiB''
        @ (if nullish (jget v ''rootfsPct'') then [] else '' . '' @ to_str (jget v ''rootfsPct'') @ ''%''))
     @ row_if (truthy (jget v ''kernel'')) (l ''Kernel'' ''keoneol'') (to_str (jget v ''kernel''))
     @ row_if (truthy (jget v ''boot'')) (l ''Boot'' ''buting'') (to_str (jget v ''boot''))
     @ row_if (\<not> nullish (jget v ''iowaitPct'') \<and> at_least 1 (jget v ''iowaitPct'')) ''I/O wait'' (to_str (jget v ''iowaitPct'') @ ''%'')"

definition pcRows :: "lfun \<Rightarrow> device \<Rightarrow> kv list" where
  "pcRows l s =
     (let c = d_pc s in
      if d_type s = PC then
        row_if (truthy (jget c ''loginUser'')) (l ''User'' ''rogeuin'') (''[user] '' @ to_str (jget c ''loginUser''))
        @ row_if (truthy (jget c ''fileSharing'')) (l ''File sharing'' ''pail gongyu'') (l ''active'' ''hwalseong'')
        @ row_if (truthy (jget c ''machineGuid'')) (l ''Machine GUID'' ''meosin GUID'') (to_str (jget c ''machineGuid''))
        @ map (cert_row l) (arr_of (jget c ''certs''))
      else if isServer (d_type s) \<and> truthy (m_srv (d_meta s)) then srv_lines l (m_srv (d_meta s)) else [])"

section \<open>Controls\<close>

definition clusterActionKeys :: "string list" where
  "clusterActionKeys = [''node-workon'', ''node-workoff'', ''node-reboot'', ''node-shutdown'', ''node-recover'', ''vm-shutdown'', ''vm-poweroff'', ''vm-poweron'']"

record control_node =
  cl_name :: jsval
  cl_maint :: bool
  cl_down :: bool
  cl_primary :: bool

record control =
  ct_id :: string
  ct_sample :: bool
  ct_capability :: capability
  ct_availability :: "(string \<times> availability) list"
  ct_nodes :: "control_node list"
  ct_vms :: "(jsval \<times> bool) list"

definition SAMPLE_REASON :: string where "SAMPLE_REASON = ''Sample data is read-only.''"
definition SAMPLE_REASON_KO :: string where "SAMPLE_REASON_KO = ''saempeul deiteoneun johoeman ganeunghamnida.''"

definition vm_running :: "jsval \<Rightarrow> bool" where "vm_running v \<longleftrightarrow> jget v ''state'' = JStr ''running''"

definition control_of :: "env \<Rightarrow> device \<Rightarrow> control option" where
  "control_of e s =
     (if \<not> isFT (d_type s) then None
      else let caps = caps_value (s_capabilities (te_st e)); smp = sampleData e s in Some
        \<lparr>ct_id = d_id s, ct_sample = smp,
         ct_capability = (if smp then \<lparr>cap_supported = False, cap_actions = [], cap_endpoint = ''/api/clusters/{id}/action'', cap_reason = SAMPLE_REASON,
             cap_reason_ko = SAMPLE_REASON_KO\<rparr> else normalizeCapabilities caps),
         ct_availability = map (\<lambda>k. (k, if smp then \<lparr>av_supported = False, av_reason = SAMPLE_REASON, av_reason_ko = SAMPLE_REASON_KO\<rparr>
             else clusterActionAvailability caps (JStr k))) clusterActionKeys,
         ct_nodes = map (\<lambda>n. \<lparr>cl_name = jget n ''name'', cl_maint = nodeMaint n, cl_down = (\<not> rx_run_ci (jget n ''state'')),
             cl_primary = (jget n ''primary'' = JBool True)\<rparr>) (m_nodes (d_meta s)),
         ct_vms = map (\<lambda>v. (jget v ''name'', vm_running v)) (m_vmList (d_meta s))\<rparr>)"

section \<open>Virtual machines\<close>

record proc =
  pr_name :: jsval
  pr_ip :: jsval
  pr_node :: string
  pr_ft :: string
  pr_ftTone :: string
  pr_ftTitle :: string
  pr_protDegraded :: bool
  pr_protLegs :: "string list"
  pr_diskMirrored :: bool
  pr_nicRedundant :: bool
  pr_failoverCandidates :: nat
  pr_placedOn :: string
  pr_cpu :: string
  pr_mem :: jsval
  pr_winrm :: bool
  pr_os :: string
  pr_guestHost :: string
  pr_st :: jsval
  pr_stTone :: string
  pr_running :: bool

definition mirrorBroken :: "jsval \<Rightarrow> bool" where "mirrorBroken v \<longleftrightarrow> jget v ''diskMirrored'' = JBool False"
definition nicBroken :: "jsval \<Rightarrow> bool" where "nicBroken v \<longleftrightarrow> jget v ''nicRedundant'' = JBool False"
definition noFailover :: "jsval \<Rightarrow> bool" where "noFailover v \<longleftrightarrow> length (arr_of (jget v ''instanceNodes'')) = 1"

definition prot_legs :: "lfun \<Rightarrow> jsval \<Rightarrow> string list" where
  "prot_legs l v =
     (if mirrorBroken v then [l ''disk mirror'' ''diseukeu mireo''] else []) @ (if nicBroken v then [l ''NIC redundancy'' ''NIC ijunghwa''] else [])
     @ (if noFailover v then [l ''failover target'' ''peeilobeo daesang''] else [])"

definition vm_fr :: "jsval \<Rightarrow> string" where "vm_fr v = lower (str_or (jget v ''ft''))"

definition proc_of :: "lfun \<Rightarrow> jsval \<Rightarrow> proc" where
  "proc_of l v =
     (let fr = vm_fr v; legs = prot_legs l v; dg = (legs \<noteq> []); g = jget v ''guest''; run = vm_running v in
      \<lparr>pr_name = jget v ''name'', pr_ip = jor (jget v ''ip'') (JStr []), pr_node = str_or (jget v ''node''), pr_ft = ft_label v,
       pr_ftTone = (if dg then ''neg'' else if fr = ''ft'' then ''pos'' else if fr = ''ha'' then ''info'' else ''mut''),
       pr_ftTitle = (if dg then l (''Protection degraded -- '' @ join '', '' legs @ '' lost'') (''boho jeoha -- '' @ join '' . '' legs @ '' sangsil'')
         else if fr = ''ft'' then l ''Fault-tolerant . lockstep, zero-downtime'' ''mujeongji FT . rakseutep mujungdan''
         else if fr = ''ha'' then l ''High availability . auto-restart on peer'' ''gogayongseong HA . pieo jadong jaegidong'' else []),
       pr_protDegraded = dg, pr_protLegs = legs, pr_diskMirrored = (\<not> mirrorBroken v), pr_nicRedundant = (\<not> nicBroken v),
       pr_failoverCandidates = length (arr_of (jget v ''instanceNodes'')), pr_placedOn = jjoin '', '' (arr_of (jget v ''placedOn'')),
       pr_cpu = (if truthy (jget v ''cpus'') then to_str (jget v ''cpus'') @ '' vCPU'' else DASH), pr_mem = jor (jget v ''memory'') (JStr DASH),
       pr_winrm = truthy g, pr_os = (if truthy g then trim (replace_first ''Microsoft '' [] (str_or (jget g ''os''))) else []),
       pr_guestHost = (if truthy g then str_or (jget g ''host'') else []),
       pr_st = (if run then JStr (l ''Running'' ''silhaeng jung'') else jor (jget v ''state'') (JStr DASH)),
       pr_stTone = (if run then ''pos'' else ''mut''), pr_running = run\<rparr>)"

record nas_vm =
  nv_name :: jsval
  nv_ip :: jsval
  nv_vcpu :: jsval
  nv_diskGB :: "jsnum option"
  nv_stLabel :: jsval
  nv_stTone :: string

definition nasVms :: "lfun \<Rightarrow> device \<Rightarrow> nas_vm list" where
  "nasVms l s =
     (if d_type s \<noteq> NAS then []
      else map (\<lambda>v. \<lparr>nv_name = jor (jget v ''name'') (JStr ''VM''), nv_ip = jor (jget v ''ip'') (JStr []),
        nv_vcpu = (if nullish (jget v ''vcpu'') then Null else jget v ''vcpu''),
        nv_diskGB = (if truthy (jget v ''diskMB'') then Some (n_round (n_div (to_num (jget v ''diskMB'')) (Fin 1024))) else None),
        nv_stLabel = (if truthy (jget v ''state'') then (if vm_running v then JStr (l ''Running'' ''silhaeng jung'')
            else if jget v ''state'' = JStr ''shutdown'' then JStr (l ''Stopped'' ''jeongji'') else jget v ''state'') else JStr DASH),
        nv_stTone = (if vm_running v then ''pos'' else ''mut'')\<rparr>) (m_vmList (d_meta s)))"

section \<open>The header\<close>

text \<open>
  Why the badge says degraded or offline. The memory limit is the constant 78 of the source, not the configured threshold.
\<close>

definition count_of :: "jsval \<Rightarrow> string \<Rightarrow> string \<Rightarrow> jsnum" where
  "count_of ac a b = to_num (jor (jget ac a) (jor (jget ac b) (JNum (Fin 0))))"

definition statusReason :: "env \<Rightarrow> device \<Rightarrow> string" where
  "statusReason e s =
     (let l = d_l e; ac = m_alertCounts (d_meta s); crit = count_of ac ''critical'' ''crit''; warn = count_of ac ''warning'' ''warn'';
          memHigh = (case us_val (d_mem e s) of Some v \<Rightarrow> 78 \<le> v | None \<Rightarrow> False);
          memT = (case us_val (d_mem e s) of Some v \<Rightarrow> int_str v | None \<Rightarrow> []) in
      if d_maint s \<or> d_status s = Op then []
      else if isDown s then (if isFT (d_type s) then [] else l ''not responding'' ''eungdap eopseum'')
      else if n_truthy crit then l (num_str crit @ (if crit = Fin 1 then '' critical alert'' else '' critical alerts'')) (''simgak gyeongbo '' @ num_str crit)
      else if memHigh then l (''memory '' @ memT @ ''%'') (''memori '' @ memT @ ''%'')
      else if n_truthy warn then l (num_str warn @ (if warn = Fin 1 then '' warning'' else '' warnings'')) (''gyeonggo '' @ num_str warn)
      else [])"

definition kind_text_of :: "lfun \<Rightarrow> device \<Rightarrow> jsval" where
  "kind_text_of l s =
     (let t = d_type s; m = d_meta s; p = d_plc s in
      if t = PLC then JStr (sor (dot [jget p ''maker'', jget p ''model'']) (l ''Controller'' ''jeeogi''))
      else if t = PI then jor (jget (d_pi s) ''model'') (JStr ''Raspberry Pi'')
      else if t = WIN then jor (jget (d_win s) ''os'') (JStr (l ''Windows Server'' ''Windows seobeo''))
      else if t = NAS then JStr (dot [JStr ''Synology'', jget (d_nas s) ''model''])
      else if t = PC then JStr (sor (clV (jor (jget (d_pc s) ''macVendor'') (JStr (m_vendor m)))) (l ''PC / Workstation'' ''PC / wokeuseuteisyeon''))
      else if isSRV t then JStr (sor (m_vendor m) (l ''General server'' ''ilban seobeo'')) else JStr (ti_kind (typeInfo t l)))"

definition pairTitle :: "lfun \<Rightarrow> dev_type \<Rightarrow> string" where
  "pairTitle l t =
     (if t = PLC then l ''Controller (PLC)'' ''jeeogi (PLC)'' else if t = PI then ''Raspberry Pi'' else if t = WIN then l ''Windows Server'' ''Windows seobeo''
      else if t = NAS then l ''Storage'' ''seutoriji'' else if t = PC then ''PC'' else if isSRV t then l ''Server'' ''seobeo''
      else l ''Fault-tolerant pair'' ''mujeongji peeo'')"

definition detail_syncLabel :: "lfun \<Rightarrow> device \<Rightarrow> string" where
  "detail_syncLabel l s =
     (let t = d_type s; dn = isDown s in
      if t = END then (if dn then l ''Offline'' ''opeurain'' else if d_sync s = Simplex then l ''Simplex'' ''simpeullekseu'' else l ''Protected'' ''bohodoem'')
      else if isServer t \<or> t = PLC then (if dn then l ''Offline'' ''opeurain'' else l ''Online'' ''onrain'')
      else (case d_sync s of Sync \<Rightarrow> l ''Mirrored'' ''mireoring'' | Simplex \<Rightarrow> l ''Simplex'' ''simpeullekseu'' | Offline \<Rightarrow> l ''Offline'' ''opeurain''))"

definition detail_syncTone :: "device \<Rightarrow> string" where
  "detail_syncTone s = (if (if isServer (d_type s) \<or> d_type s = PLC then \<not> isDown s else d_sync s = Sync) then ''pos''
     else if d_sync s = Simplex then ''warn'' else ''neg'')"

definition detail_ftTitle :: "lfun \<Rightarrow> device \<Rightarrow> string" where
  "detail_ftTitle l s =
     (let t = d_type s; dn = isDown s; simplex = (d_sync s \<noteq> Sync); run = d_run s in
      if t = END then (if simplex then l ''Fault tolerance degraded'' ''mujeongji sangtae jeoha'' else l ''Active/Standby protection'' ''Active/Standby boho hwalseong'')
      else if t = PLC then (if dn then l ''PLC offline'' ''PLC opeurain'' else if run \<noteq> [] then ''PLC . '' @ (if run = ''PROGRAM'' then l ''STOP'' ''jeongji'' else run)
        else l ''PLC online'' ''PLC onrain'')
      else if t = PC then (if dn then l ''PC offline'' ''PC opeurain'' else if truthy (jget (d_pc s) ''snmp'') then l ''SNMP monitored'' ''SNMP moniteoring''
        else l ''Agentless monitoring'' ''eijeonteuriseu moniteoring'')
      else if isSRV t then (if m_platform (d_meta s) = ''proxmox'' then l ''PVE API monitored'' ''PVE API moniteoring'' else l ''SNMP monitored'' ''SNMP moniteoring'')
      else if simplex then l ''Fault tolerance degraded'' ''mujeongji sangtae jeoha'' else l ''Fault tolerance active'' ''mujeongji boho hwalseong'')"

definition detail_ftSub :: "env \<Rightarrow> device \<Rightarrow> string" where
  "detail_ftSub e s =
     (let l = d_l e; t = d_type s; dn = isDown s in
      if t = PLC then (if dn then l ''Control port not responding (EtherNet/IP 44818 . FINS 9600)'' ''jeeo poteu mieungdap (EtherNet/IP 44818 . FINS 9600)''
        else sor (linkTxt e s) (l ''Control link up'' ''jeeo ringkeu jeongsang''))
      else if t = PC then (if dn then l ''PC not responding to ping'' ''PC ping mieungdap''
        else if truthy (jget (d_pc s) ''snmp'') then l ''Reachable . CPU/memory via SNMP'' ''eungdap . SNMPro CPU.memori sujip''
        else l ''Reachable . agentless (ping . NetBIOS . MAC). Enable SNMP for CPU/memory.'' ''eungdap . eijeonteuriseu (ping.NetBIOS.MAC). CPU.memorineun SNMP piryo.'')
      else if isSRV t then (if m_platform (d_meta s) = ''proxmox'' then l ''Proxmox hypervisor -- status, CPU, memory and VMs via PVE API'' ''Proxmox haipeobaijeo -- PVE APIro sangtae.CPU.memori.VM sujip''
        else l ''General server -- status, CPU and memory via SNMP'' ''ilban seobeo -- SNMPro sangtae.CPU.memori sujip'')
      else if t = END then l ''Smart Exchange -- service continuity without reboot'' ''Smart Exchange -- jaebuting eomneun seobiseu yeonsokseong''
      else if d_sync s \<noteq> Sync then l ''Running on a single node -- redundancy lost until the peer recovers'' ''danil nodeuro dongjak jung -- pieo bokgu jeonkkaji ijunghwa sangsil''
      else l ''Both nodes mirrored -- automatic failover ready'' ''du nodeu ijunghwa mireoring -- jadong peeilobeo junbi'')"

definition bmc_name :: "string \<Rightarrow> string" where
  "bmc_name vendor =
     (let v = lower vendor; has = (\<lambda>ws. list_ex (\<lambda>w. contains w v) ws) in
      if has [''hpe'', ''proliant''] \<or> rx_test (RSeq (rlit ''hp'') RWb) v then ''iLO''
      else if has [''dell'', ''idrac'', ''poweredge''] then ''iDRAC''
      else if has [''lenovo'', ''xclarity'', ''xcc'', ''imm'', ''thinksystem''] then ''XCC''
      else if has [''supermicro''] then ''IPMI'' else if has [''cisco'', ''cimc'', ''ucs''] then ''CIMC''
      else if has [''fujitsu'', ''irmc''] then ''iRMC'' else ''BMC'')"

definition peak_text :: "usage \<Rightarrow> jsval list \<Rightarrow> string" where
  "peak_text u hs =
     (case us_val u of
        None \<Rightarrow> DASH
      | Some v \<Rightarrow> (if hs \<noteq> [] then num_str (n_round (foldl n_max NInf (map to_num hs))) else int_str v) @ ''%'')"

definition flowOf :: "jsval \<Rightarrow> string" where
  "flowOf x =
     (if \<not> truthy x then []
      else if truthy (jget x ''from'') \<and> truthy (jget x ''to'') then to_str (jget x ''from'') @ '' -> '' @ to_str (jget x ''to'')
      else if truthy (jget x ''to'') then ''-> '' @ to_str (jget x ''to'')
      else if truthy (jget x ''from'') then to_str (jget x ''from'') @ '' ->'' else [])"

record switchover =
  so_label :: string
  so_ts :: jsval
  so_flow :: string
  so_detail :: jsval

definition switchovers :: "lfun \<Rightarrow> device \<Rightarrow> switchover list" where
  "switchovers l s =
     (let n = m_lastNodeSwitch (d_meta s); v = m_lastVmSwitch (d_meta s) in
      if d_type s = END then []
      else [\<lparr>so_label = l ''Last node failover'' ''majimak nodeu jeonhwan'', so_ts = (if truthy n then jget n ''ts'' else Null), so_flow = flowOf n,
             so_detail = (if truthy n then jget n ''desc'' else JStr [])\<rparr>,
            \<lparr>so_label = l ''Last VM failover'' ''majimak VM jeonhwan'', so_ts = (if truthy v then jget v ''ts'' else Null), so_flow = flowOf v,
             so_detail = (if truthy v then jor (jget v ''vm'') (jget v ''desc'') else JStr [])\<rparr>])"

section \<open>The page\<close>

record detail =
  dt_id :: string
  dt_host :: string
  dt_hostRaw :: string
  dt_sample :: bool
  dt_type :: type_info
  dt_variant :: variant
  dt_isFT :: bool
  dt_isServer :: bool
  dt_isDown :: bool
  dt_statusReason :: string
  dt_kind :: jsval
  dt_pairTitle :: string
  dt_site :: string
  dt_siteText :: string
  dt_mgmt :: string
  dt_assetTag :: string
  dt_company :: string
  dt_factory :: string
  dt_status :: dev_status
  dt_maint :: bool
  dt_statusLabel :: string
  dt_statusTone :: string
  dt_avail :: string
  dt_uptime :: string
  dt_tiles :: "tile list"
  dt_notices :: "notice list"
  dt_nodes :: "node_row list"
  dt_hw :: "hw_row list"
  dt_hwLine :: string
  dt_pcRows :: "kv list"
  dt_license :: "license_card option"
  dt_resource :: "resource option"
  dt_control :: "control option"
  dt_alertsList :: "alert_line list"
  dt_trapsList :: "trap_line list"
  dt_procs :: "proc list"
  dt_procCountLabel :: string
  dt_nasVms :: "nas_vm list"
  dt_eac :: "(string \<times> bool) option"
  dt_endurance :: jsval
  dt_bmc :: "(jsval \<times> bool \<times> string \<times> string) option"
  dt_syncLabel :: string
  dt_syncTone :: string
  dt_syncIcon :: string
  dt_ftTitle :: string
  dt_ftSub :: string
  dt_ftTone :: string
  dt_cpuHist :: "jsval list"
  dt_memHist :: "jsval list"
  dt_rtt :: "jsval list \<times> jsnum"
  dt_cpu :: usage
  dt_mem :: usage
  dt_cpuPeak :: string
  dt_memPeak :: string
  dt_switchovers :: "switchover list"
  dt_plcMain :: "plc_main option"
  dt_plcComm :: "kv list option"
  dt_plcClock :: "plc_clock option"
  dt_plcDiag :: "plc_diag option"
  dt_plcSd :: "plc_sd option"
  dt_plcNet :: "(kv list \<times> kv list) option"
  dt_plcVars :: "plc_var list option"
  dt_raw :: "(string \<times> jsval) list"
  dt_printer :: jsval

definition detail_of :: "env \<Rightarrow> device \<Rightarrow> detail" where
  "detail_of e s =
     (let l = d_l e; m = d_meta s; t = d_type s; site = sor (d_site s) DASH; b = m_bmc m; mt = d_maint s in
      \<lparr>dt_id = d_id s, dt_host = sor (m_label m) (d_host s), dt_hostRaw = d_host s, dt_sample = sampleData e s, dt_type = typeInfo t l,
       dt_variant = variant_of t, dt_isFT = isFT t, dt_isServer = isServer t, dt_isDown = isDown s, dt_statusReason = statusReason e s,
       dt_kind = kind_text_of l s, dt_pairTitle = pairTitle l t, dt_site = site,
       dt_siteText = (if m_mgmt m \<noteq> [] then site @ '' . '' @ m_mgmt m else site), dt_mgmt = m_mgmt m, dt_assetTag = m_assetTag m,
       dt_company = m_company m, dt_factory = m_factory m, dt_status = d_status s, dt_maint = mt,
       dt_statusLabel = (if mt then l ''Maintenance'' ''jeomgeom jung'' else statusLabel (d_status s) l),
       dt_statusTone = (if mt then ''warn'' else statusTone (d_status s)), dt_avail = fmtAvailN (JNum (Fin (d_availN s))),
       dt_uptime = (if t = PLC \<or> d_uptime s < 0 then DASH else fmtUptimeD (JNum (Fin (of_int (d_uptime s))))),
       dt_tiles = tiles_of e s, dt_notices = notices_of e s, dt_nodes = nodes_of e s, dt_hw = hw_of e s, dt_hwLine = hwLine e s,
       dt_pcRows = pcRows l s, dt_license = license_of (te_h e) l (d_ko e) (m_license m), dt_resource = resource_of (te_th e) s,
       dt_control = control_of e s, dt_alertsList = alertsList e s, dt_trapsList = trapsList e s, dt_procs = map (proc_of l) (m_vmList m),
       dt_procCountLabel = num_str (Fin (m_vmRunning m)) @ (if d_ko e then ''gae silhaeng jung'' else '' running''), dt_nasVms = nasVms l s,
       dt_eac = (if t = EDGE then Some (m_mgmt m, \<not> truthy (m_error m)) else None),
       dt_endurance = (if t = END then jor (m_endurance m) Null else Null),
       dt_bmc = (if truthy b then Some (jget b ''ip'', truthy (jget b ''up''), ''https://'' @ to_str (jget b ''ip''), bmc_name (m_vendor m)) else None),
       dt_syncLabel = detail_syncLabel l s, dt_syncTone = detail_syncTone s, dt_syncIcon = sy_icon (syncInfo s l),
       dt_ftTitle = detail_ftTitle l s, dt_ftSub = detail_ftSub e s,
       dt_ftTone = (if isDown s then ''neg'' else if d_sync s = Simplex then ''warn'' else ''pos''),
       dt_cpuHist = (if us_na (d_cpu e s) then [] else d_hc e s), dt_memHist = (if us_na (d_mem e s) then [] else d_hm e s),
       dt_rtt = (rttHist e s, rttHi e s), dt_cpu = d_cpu e s, dt_mem = d_mem e s,
       dt_cpuPeak = peak_text (d_cpu e s) (d_hc e s), dt_memPeak = peak_text (d_mem e s) (d_hm e s), dt_switchovers = switchovers l s,
       dt_plcMain = plcMain l s, dt_plcComm = plcComm e s, dt_plcClock = plcClock l s, dt_plcDiag = plcDiag e s, dt_plcSd = plcSd l s,
       dt_plcNet = plcNet l s, dt_plcVars = plcVars s,
       dt_raw = (if t = PI then [(''pi'', d_pi s)] else if t = WIN then [(''win'', d_win s)] else if t = NAS then [(''nas'', d_nas s)]
         else if t = PC then [(''pc'', d_pc s)] else []),
       dt_printer = (if t = PC then jor (jget (d_pc s) ''printer'') Null else jor (m_printer m) Null)\<rparr>)"

text \<open>None: the call throws.\<close>

definition detail_throws :: "device \<Rightarrow> bool" where
  "detail_throws s \<longleftrightarrow> resource_throws s \<or> disks_throw s \<or> certs_throw s"

definition buildDetail :: "env \<Rightarrow> string option \<Rightarrow> detail option" where
  "buildDetail e i = (let s = detail_dev (te_fleet e) i in if detail_throws s then None else Some (detail_of e s))"

end
