(* ===== verification/Detail.thy ===== *)
theory Detail
  imports DetailView Topology
begin

text \<open>
  The theorems about the detail page of \<open>src/web/js/model/compute/detail.js\<close>: which device it shows, what a virtual
  machine's badge promises, what a device that is down may show, which actions are open, where the licence agrees with the
  overview, and where the page and the rest of the console disagree.
\<close>

section \<open>Which device, which tiles\<close>

lemma detail_dev_id: "i \<noteq> [] \<Longrightarrow> d_id (detail_dev fleet (Some i)) \<in> {i, []}"
  by (auto simp: detail_dev_def empty_dev_def find_Some_iff split: option.splits)

lemma detail_dev_found: "s \<in> set fleet \<Longrightarrow> distinct (map d_id fleet) \<Longrightarrow> d_id s \<noteq> [] \<Longrightarrow> detail_dev fleet (Some (d_id s)) = s"
proof -
  assume a: "s \<in> set fleet" "distinct (map d_id fleet)" "d_id s \<noteq> []"
  have "find (\<lambda>x. d_id x = d_id s) fleet = Some s"
    using a(1,2) by (induction fleet) (auto simp: image_iff)
  then show ?thesis using a(3) by (simp add: detail_dev_def)
qed

text \<open>
  The page never shows another device than the one that was asked for: for an identifier that the fleet does not have,
  the page is that of no device, and for one it has, with distinct identifiers, it is that of this device.
\<close>

theorem detail_shows_asked:
  assumes "i \<noteq> []" "buildDetail e (Some i) = Some d" "distinct (map d_id (te_fleet e))"
  shows "if i \<in> set (map d_id (te_fleet e)) then dt_id d = i \<and> (\<exists>s \<in> set (te_fleet e). d_id s = i \<and> d = detail_of e s)
         else dt_id d = [] \<and> d = detail_of e empty_dev"
proof -
  have d: "d = detail_of e (detail_dev (te_fleet e) (Some i))" using assms(2) by (auto simp: buildDetail_def Let_def split: if_splits)
  have dt: "dt_id (detail_of e s) = d_id s" for s by (simp add: detail_of_def Let_def)
  show ?thesis
  proof (cases "i \<in> set (map d_id (te_fleet e))")
    case True
    then obtain s where s: "s \<in> set (te_fleet e)" "d_id s = i" by auto
    then show ?thesis using d dt detail_dev_found [OF s(1) assms(3)] assms(1) by auto
  next
    case False
    then have "find (\<lambda>s. d_id s = i) (te_fleet e) = None" by (auto simp: find_None_iff)
    then have "detail_dev (te_fleet e) (Some i) = empty_dev" using assms(1) by (simp add: detail_dev_def)
    then show ?thesis using False d dt by (auto simp: empty_dev_def)
  qed
qed

text \<open>A server with one virtual machine without its disk mirror, and a controller with one module in error.\<close>

definition wit_server :: device where
  "wit_server = (let s = wit_dev ''ev-01'' EV ''ACME'' in s\<lparr>d_meta := (d_meta s)\<lparr>m_vmList :=
     [JObj [(''name'', JStr ''mes''), (''ft'', JStr ''FT''), (''diskMirrored'', JBool False)]],
     m_license := JObj [(''expires'', JBool True), (''expire'', JStr ''Dec 31 23:59:59 UTC 2026'')]\<rparr>\<rparr>)"

definition wit_plc :: device where
  "wit_plc = (let s = wit_dev ''plc-1'' PLC ''ACME'' in s\<lparr>d_meta := (d_meta s)\<lparr>m_plc :=
     JObj [(''sysDiag'', JObj [(''modules'', JArr [JObj [(''name'', JStr ''CPU''), (''sev'', JStr ''partial'')]])])]\<rparr>\<rparr>)"

lemma wit_server_fields: "d_type wit_server = EV" "d_id wit_server = ''ev-01''" "m_license (d_meta wit_server) = JObj [(''expires'', JBool True), (''expire'', JStr ''Dec 31 23:59:59 UTC 2026'')]"
  "m_vmList (d_meta wit_server) = [JObj [(''name'', JStr ''mes''), (''ft'', JStr ''FT''), (''diskMirrored'', JBool False)]]"
  by (simp_all add: wit_server_def Let_def)

lemma wit_plc_fields: "d_type wit_plc = PLC" "d_id wit_plc = ''plc-1''"
  "m_plc (d_meta wit_plc) = JObj [(''sysDiag'', JObj [(''modules'', JArr [JObj [(''name'', JStr ''CPU''), (''sev'', JStr ''partial'')]])])]"
  by (simp_all add: wit_plc_def Let_def)

lemma wit_builds: "buildDetail (wit_env [wit_server]) (Some ''ev-01'') = Some (detail_of (wit_env [wit_server]) wit_server)"
  "buildDetail (wit_env [wit_server]) (Some ''ev-02'') = Some (detail_of (wit_env [wit_server]) empty_dev)"
proof -
  have m: "m_unit (d_meta wit_server) = JObj []" "m_unit (d_meta empty_dev) = JObj []"
    by (simp_all add: wit_server_def wit_dev_def empty_dev_def mkDevice_def normalizeMeta_def Let_def obj_or_def jor_def)
  have t: "d_type empty_dev = EV" "m_srvDisks (d_meta wit_server) = []" "m_srvDisks (d_meta empty_dev) = []"
    by (simp_all add: wit_server_def wit_dev_def empty_dev_def mkDevice_def normalizeMeta_def Let_def obj_or_def jor_def filter_objs_def)
  have "\<not> detail_throws wit_server" "\<not> detail_throws empty_dev"
    by (simp_all add: detail_throws_def resource_throws_def m disks_throw_def isProxmox_def certs_throw_def wit_server_fields t)
  then show "buildDetail (wit_env [wit_server]) (Some ''ev-01'') = Some (detail_of (wit_env [wit_server]) wit_server)"
    "buildDetail (wit_env [wit_server]) (Some ''ev-02'') = Some (detail_of (wit_env [wit_server]) empty_dev)"
    by (simp_all add: buildDetail_def detail_dev_def wit_env_def wit_server_fields)
qed

theorem detail_shows_asked_witness:
  "dt_id (detail_of (wit_env [wit_server]) wit_server) = ''ev-01'' \<and> dt_id (detail_of (wit_env [wit_server]) empty_dev) = []"
  using detail_shows_asked [OF _ wit_builds(1)] detail_shows_asked [OF _ wit_builds(2)]
  by (simp add: wit_env_def wit_server_fields)

lemma use_tile_spark: "tl_hasSpark (use_tile la ic dl u hs) = (\<not> us_na u)" "tl_hist (use_tile la ic dl u hs) = (if us_na u then [] else hs)"
  by (simp_all add: use_tile_def)

lemma down_na: "isDown s \<Longrightarrow> us_na (usageOf th s f)" "isDown s \<Longrightarrow> us_val (usageOf th s f) = None"
  by (simp_all add: usageOf_def Let_def isDown_def)

lemma tile_spark [simp]: "tl_hasSpark (tile la ic v) = False"
  by (simp add: tile_def)

lemma spark_down:
  "isDown s \<Longrightarrow> \<not> tl_hasSpark (tCpu e s)" "isDown s \<Longrightarrow> \<not> tl_hasSpark (tMem e s)" "isDown s \<Longrightarrow> \<not> tl_hasSpark (ping_tile e s v)"
  "\<not> tl_hasSpark (tUp e s)" "\<not> tl_hasSpark (tVm e s)" "\<not> tl_hasSpark (tBmc e s)" "\<not> tl_hasSpark (module_tile a b s)" "\<not> tl_hasSpark (tonerTile e s)"
  by (simp_all add: tCpu_def tMem_def d_cpu_def d_mem_def use_tile_spark down_na ping_tile_def tUp_def tVm_def tBmc_def Let_def module_tile_def tonerTile_def)

text \<open>
  A device that is down shows nothing live: no tile of any variant draws a curve, the gauges of processor and memory
  are unknown with empty histories, and no peak is shown.
\<close>

theorem down_shows_no_curve:
  assumes "buildDetail e i = Some d" "dt_isDown d"
  shows "list_all (\<lambda>t. \<not> tl_hasSpark t) (dt_tiles d) \<and> us_na (dt_cpu d) \<and> us_na (dt_mem d)
    \<and> dt_cpuHist d = [] \<and> dt_memHist d = [] \<and> dt_cpuPeak d = DASH \<and> dt_memPeak d = DASH"
proof -
  obtain s where s: "d = detail_of e s" using assms(1) by (auto simp: buildDetail_def Let_def split: if_splits)
  have dn: "isDown s" using assms(2) by (simp add: s detail_of_def Let_def)
  have "list_all (\<lambda>t. \<not> tl_hasSpark t) (tiles_of e s)"
    using dn by (cases "variant_of (d_type s)")
      (simp_all add: tiles_of_def tilesPLC_def tilesNAS_def tilesWIN_def tilesPI_def tilesPC_def tEncl_def tMod_def spark_down Let_def)
  then show ?thesis
    using dn by (simp add: s detail_of_def Let_def d_cpu_def d_mem_def down_na peak_text_def)
qed

section \<open>Promises of a badge\<close>

lemma legs_none: "prot_legs l v = [] \<longleftrightarrow> \<not> mirrorBroken v \<and> \<not> nicBroken v \<and> \<not> noFailover v"
  by (simp add: prot_legs_def)

text \<open>
  The badge of a virtual machine never hides a lost protection: it is green exactly for a fault-tolerant machine whose
  disk mirror, network redundancy and failover target are all intact; as soon as one of them is lost it is red, whatever
  the kind of protection, and the lost parts are listed.
\<close>

theorem protection_badge_honest:
  assumes "buildDetail e i = Some d" "k < length (dt_procs d)"
  shows "\<exists>v. pr_name (dt_procs d ! k) = jget v ''name''
    \<and> (pr_ftTone (dt_procs d ! k) = ''pos'' \<longleftrightarrow> vm_fr v = ''ft'' \<and> \<not> mirrorBroken v \<and> \<not> nicBroken v \<and> \<not> noFailover v)
    \<and> (pr_ftTone (dt_procs d ! k) = ''neg'' \<longleftrightarrow> mirrorBroken v \<or> nicBroken v \<or> noFailover v)
    \<and> (pr_protLegs (dt_procs d ! k) = [] \<longleftrightarrow> pr_ftTone (dt_procs d ! k) \<noteq> ''neg'')"
proof -
  obtain s where s: "d = detail_of e s" using assms(1) by (auto simp: buildDetail_def Let_def split: if_splits)
  define v where "v = m_vmList (d_meta s) ! k"
  have p: "dt_procs d ! k = proc_of (d_l e) v" using assms(2) by (simp add: s v_def detail_of_def Let_def)
  show ?thesis unfolding p by (rule exI [of _ v]) (simp add: proc_of_def Let_def legs_none)
qed

theorem protection_badge_honest_witness:
  "pr_ftTone (dt_procs (detail_of (wit_env [wit_server]) wit_server) ! 0) = ''neg''"
proof -
  have p: "dt_procs (detail_of (wit_env [wit_server]) wit_server) =
      [proc_of (d_l (wit_env [wit_server])) (JObj [(''name'', JStr ''mes''), (''ft'', JStr ''FT''), (''diskMirrored'', JBool False)])]"
    by (simp add: detail_of_def Let_def wit_server_fields)
  show ?thesis using protection_badge_honest [OF wit_builds(1), of 0] unfolding p
    by (simp add: proc_of_def Let_def legs_none mirrorBroken_def)
qed

text \<open>
  An action is open on the page exactly when the server advertised it and the data is no sample: the entries of the
  control card are the eight actions, and each is supported only if the capabilities list it.
\<close>

theorem control_only_advertised:
  assumes "buildDetail e i = Some d" "dt_control d = Some c" "(key, av) \<in> set (ct_availability c)"
  shows "key \<in> set clusterActionKeys \<and> (av_supported av \<longleftrightarrow>
      \<not> dt_sample d \<and> cap_supported (normalizeCapabilities (caps_value (s_capabilities (te_st e))))
      \<and> key \<in> set (cap_actions (normalizeCapabilities (caps_value (s_capabilities (te_st e))))))"
proof -
  obtain s where s: "d = detail_of e s" using assms(1) by (auto simp: buildDetail_def Let_def split: if_splits)
  have k: "str_or (JStr key) = key" by (cases key) (simp_all add: str_or_def)
  have c: "control_of e s = Some c" "dt_sample d = sampleData e s" using assms(2) by (simp_all add: s detail_of_def Let_def)
  then have "(key, av) \<in> set (map (\<lambda>k. (k, if sampleData e s then \<lparr>av_supported = False, av_reason = SAMPLE_REASON, av_reason_ko = SAMPLE_REASON_KO\<rparr>
      else clusterActionAvailability (caps_value (s_capabilities (te_st e))) (JStr k))) clusterActionKeys)"
    using assms(3) by (auto simp: control_of_def Let_def split: if_splits)
  then have av: "key \<in> set clusterActionKeys" "av = (if sampleData e s then \<lparr>av_supported = False, av_reason = SAMPLE_REASON, av_reason_ko = SAMPLE_REASON_KO\<rparr>
      else clusterActionAvailability (caps_value (s_capabilities (te_st e))) (JStr key))" by auto
  show ?thesis unfolding c(2) using av by (auto simp: clusterActionAvailability_def Let_def k)
qed

section \<open>Diagnostics of a controller\<close>

lemma SEV_ORD_range: "0 \<le> SEV_ORD v" "SEV_ORD v \<noteq> 0 \<Longrightarrow> truthy v" "3 \<le> SEV_ORD v \<longleftrightarrow> v = JStr ''partial'' \<or> v = JStr ''major''"
  by (auto simp: SEV_ORD_def split: if_splits)

lemma worse_fold_zero: "(\<forall>mo \<in> set ms. SEV_ORD (jget mo ''sev'') = 0) \<Longrightarrow> foldl worse_sev (JStr []) ms = JStr []"
  by (induction ms) (auto simp: worse_sev_def SEV_ORD_def)

lemma worse_fold_in: "foldl worse_sev w ms = w \<or> (\<exists>mo \<in> set ms. foldl worse_sev w ms = jget mo ''sev'')"
proof (induction ms arbitrary: w)
  case (Cons mo ms)
  show ?case using Cons.IH [of "worse_sev w mo"] by (auto simp: worse_sev_def split: if_splits)
qed simp

text \<open>
  The diagnosis of a controller is exactly as bad as its worst module: when the controller reports no severity of its
  own, the card is in error if and only if some module has a partial or a major fault, or no module has a known severity
  and the error flag of the controller is set.
\<close>

theorem diag_as_bad_as_worst:
  assumes "plcDiag e s = Some g" "str_or (jget (sysD s) ''ctrlSev'') = []"
  shows "pd_state g = ''err'' \<longleftrightarrow> (\<exists>mo \<in> set (diag_modules s). jget mo ''sev'' = JStr ''partial'' \<or> jget mo ''sev'' = JStr ''major'')
    \<or> ((\<forall>mo \<in> set (diag_modules s). SEV_ORD (jget mo ''sev'') = 0) \<and> pd_err g)"
proof -
  have g: "truthy (sysD s)" "pd_state g = diag_state s" "pd_err g = truthy (jget (sysD s) ''ctrlErr'')"
    using assms(1) by (auto simp: plcDiag_def Let_def split: if_splits)
  let ?ms = "diag_modules s"
  define w where "w = foldl worse_sev (JStr []) ?ms"
  have w: "worstSev s = w" using g(1) assms(2) by (simp add: worstSev_def w_def)
  have ge: "SEV_ORD (jget mo ''sev'') \<le> SEV_ORD w" if "mo \<in> set ?ms" for mo
    using worse_fold [of "JStr []" ?ms] that by (simp add: w_def)
  have w_in: "w = JStr [] \<or> (\<exists>mo \<in> set ?ms. w = jget mo ''sev'')" using worse_fold_in [of "JStr []" ?ms] by (simp add: w_def)
  have st: "pd_state g = ''err'' \<longleftrightarrow> (if truthy w then 3 \<le> SEV_ORD w else pd_err g)"
    by (simp add: g w diag_state_def Let_def SEV_ORD_range(3))
  have "(if truthy w then 3 \<le> SEV_ORD w else pd_err g) \<longleftrightarrow> (\<exists>mo \<in> set ?ms. 3 \<le> SEV_ORD (jget mo ''sev''))
      \<or> ((\<forall>mo \<in> set ?ms. SEV_ORD (jget mo ''sev'') = 0) \<and> pd_err g)"
  proof (cases "\<forall>mo \<in> set ?ms. SEV_ORD (jget mo ''sev'') = 0")
    case True
    then have "w = JStr []" using worse_fold_zero by (simp add: w_def)
    then show ?thesis using True by auto
  next
    case False
    then obtain mo where "mo \<in> set ?ms" "SEV_ORD (jget mo ''sev'') \<noteq> 0" by blast
    then have "SEV_ORD w \<noteq> 0" using ge [of mo] SEV_ORD_range(1) [of "jget mo ''sev''"] by linarith
    then have t: "truthy w" using SEV_ORD_range(2) by blast
    then have n: "w \<noteq> JStr []" by auto
    have "3 \<le> SEV_ORD w \<longleftrightarrow> (\<exists>mo \<in> set ?ms. 3 \<le> SEV_ORD (jget mo ''sev''))" using w_in n ge by (metis order_trans)
    then show ?thesis using False t by auto
  qed
  then show ?thesis unfolding st by (simp only: SEV_ORD_range(3))
qed

theorem diag_as_bad_as_worst_witness:
  "\<exists>g. plcDiag (wit_env [wit_plc]) wit_plc = Some g \<and> pd_state g = ''err''"
proof -
  have d: "sysD wit_plc = JObj [(''modules'', JArr [JObj [(''name'', JStr ''CPU''), (''sev'', JStr ''partial'')]])]"
    by (simp add: sysD_def wit_plc_fields d_plc_def bag_def jor_def)
  obtain g where g: "plcDiag (wit_env [wit_plc]) wit_plc = Some g"
    by (simp add: plcDiag_def Let_def d diag_modules_def)
  have "str_or (jget (sysD wit_plc) ''ctrlSev'') = []" by (simp add: d str_or_def)
  then show ?thesis using diag_as_bad_as_worst [OF g] g by (simp add: d diag_modules_def)
qed

section \<open>The licence\<close>

text \<open>A formatted licence date does not match the pattern of the clock again: it is parsed as it stands.\<close>

lemma lic_left_agrees:
  assumes "truthy (jget lic ''expires'')" "lic_ymd (to_str (jget lic ''expire'')) = Some x" "truthy (jget lic ''expire'')" "x \<noteq> []"
  shows "lic_left h lic = map_option (\<lambda>d. day_count d (now h)) (parseLicDate h (jget lic ''expire''))"
  using assms by (simp add: lic_left_def lic_exp_def fmtLicDate_def parseLicDate_def)

lemma lic_ymd_nonempty: "lic_ymd s = Some x \<Longrightarrow> x \<noteq> []"
  by (auto simp: lic_ymd_def split: option.splits list.splits)

text \<open>
  The page and the overview agree on a licence: for an expiring licence whose date has the form the cluster software
  writes, the page shows the days and the tone of the overview's row, and calls the expiry unknown exactly when the overview does.
\<close>

theorem licence_agrees:
  assumes "truthy (jget (m_license (d_meta s)) ''expires'')" "truthy (jget (m_license (d_meta s)) ''expire'')"
    and "lic_ymd (to_str (jget (m_license (d_meta s)) ''expire'')) \<noteq> None"
  shows "\<exists>c b r. license_of h l ko (m_license (d_meta s)) = Some c \<and> licence_of h l ko s = Some (b, r)
    \<and> (lk_days c \<noteq> None \<longleftrightarrow> b = Expiring) \<and> (b = Expiring \<longrightarrow> lk_days c = Some (lx_days r)) \<and> lk_dayTone c = lx_tone r
    \<and> (b \<noteq> Expiring \<longrightarrow> lk_expiry c = lx_txt r)"
proof -
  let ?lic = "m_license (d_meta s)"
  obtain x where x: "lic_ymd (to_str (jget ?lic ''expire'')) = Some x" using assms(3) by blast
  have t: "truthy ?lic" using assms(1) by (cases ?lic) auto
  note left = lic_left_agrees [OF assms(1) x assms(2) lic_ymd_nonempty [OF x], of h]
  show ?thesis
    using t assms(1,2) left
    by (cases "parseLicDate h (jget ?lic ''expire'')")
      (simp_all add: license_of_def licence_of_def Let_def lic_exp_def licTone_def)
qed

theorem licence_agrees_witness:
  "\<exists>c b r. license_of code_host (makeL ''en'') False (m_license (d_meta wit_server)) = Some c
     \<and> licence_of code_host (makeL ''en'') False wit_server = Some (b, r) \<and> lk_dayTone c = lx_tone r"
proof -
  have "lic_ymd ''Dec 31 23:59:59 UTC 2026'' \<noteq> None" by code_simp
  then have "\<exists>c b r. license_of code_host (makeL ''en'') False (m_license (d_meta wit_server)) = Some c
     \<and> licence_of code_host (makeL ''en'') False wit_server = Some (b, r)
     \<and> (lk_days c \<noteq> None \<longleftrightarrow> b = Expiring) \<and> (b = Expiring \<longrightarrow> lk_days c = Some (lx_days r)) \<and> lk_dayTone c = lx_tone r
     \<and> (b \<noteq> Expiring \<longrightarrow> lk_expiry c = lx_txt r)"
    by (intro licence_agrees) (simp_all add: wit_server_fields del: not_None_eq)
  then show ?thesis by blast
qed

section \<open>Where the page disagrees\<close>

text \<open>
  A licence date in the form of the data interchange format is a date for the overview and unknown on the page, which
  appends a time to the text before it parses it.
\<close>

definition iso_licence :: jsval where
  "iso_licence = JObj [(''expires'', JBool True), (''expire'', JStr ''2026-12-31T00:00:00Z'')]"

lemma licence_timestamp_unknown:
  "lic_left code_host iso_licence = None" "parseLicDate code_host (jget iso_licence ''expire'') \<noteq> None"
  by code_simp+

text \<open>A node without a state is offline in the node row and running on the hardware card.\<close>

lemma node_without_state:
  assumes "truthy n" "\<not> truthy (jget n ''state'')" "\<not> nodeMaint n" "standing_ok n"
  shows "node_row_tone s n = ''neg''" "hw_node_tone n = ''pos''"
proof -
  have r: "rx_run_ci v = rx_test (rlit_ci ''run'') (str_or v)" for v by (simp add: rx_run_ci_def)
  have "\<not> rx_test (rlit_ci ''run'') []" "rx_test (rlit_ci ''run'') ''running''" by code_simp+
  then show "node_row_tone s n = ''neg''" "hw_node_tone n = ''pos''"
    using assms by (simp_all add: node_row_tone_def node_down_def hw_node_tone_def r jor_def str_or_def del: rlit_ci.simps)
qed

text \<open>
  The reason of a degraded device names the memory from 78 percent on, although the server's threshold is higher and the
  gauge is green.
\<close>

lemma reason_ignores_threshold:
  assumes "d_status s = Deg" "\<not> d_maint s" "m_alertCounts (d_meta s) = JObj []" "us_val (d_mem e s) = Some 80"
    and "th_warn (te_th e) = Fin 85" "th_crit (te_th e) = Fin 95"
  shows "us_tone (d_mem e s) = ''pos''" "statusReason e s = d_l e ''memory 80%'' ''memori 80%''"
proof -
  show "us_tone (d_mem e s) = ''pos''"
    using assms(4-6) by (auto simp: d_mem_def usageOf_def Let_def pctTone_def split: if_splits)
  have "count_of (JObj []) a b = Fin 0" for a b by (simp add: count_of_def jor_def)
  moreover have "int_str 80 = ''80''" by code_simp
  ultimately show "statusReason e s = d_l e ''memory 80%'' ''memori 80%''"
    using assms(1-4) by (simp add: statusReason_def Let_def isDown_def n_truthy_def)
qed

text \<open>One null among the certificates of a workstation, which the normaliser lets through, and the page throws.\<close>

lemma null_certificate_throws:
  "\<exists>s. normalizeDevice (JObj [(''host'', JStr ''pc-1''), (''type'', JStr ''PC''), (''status'', JStr ''op''),
      (''meta'', JObj [(''pc'', JObj [(''certs'', JArr [Null])])])]) = Some s
    \<and> (\<forall>e. te_fleet e = [s] \<longrightarrow> buildDetail e None = None)"
proof -
  define s where "s = mkDevice ''pc-1'' PC Op (JObj [(''host'', JStr ''pc-1''), (''type'', JStr ''PC''), (''status'', JStr ''op''),
      (''meta'', JObj [(''pc'', JObj [(''certs'', JArr [Null])])])])"
  have n: "normalizeDevice (JObj [(''host'', JStr ''pc-1''), (''type'', JStr ''PC''), (''status'', JStr ''op''),
      (''meta'', JObj [(''pc'', JObj [(''certs'', JArr [Null])])])]) = Some s"
  proof -
    have "trim ''pc-1'' = ''pc-1''" by code_simp
    moreover have "find_type (JStr ''PC'') = Some PC" "find_status (JStr ''op'') = Some Op" by code_simp+
    ultimately show ?thesis by (simp add: normalizeDevice_def raw_host_def jor_def str_or_def s_def)
  qed
  have "m_pc (d_meta s) = JObj [(''certs'', JArr [Null])]" "d_type s = PC"
    by (simp_all add: s_def mkDevice_def Let_def normalizeMeta_def obj_or_def jor_def)
  then have "certs_throw s" by (simp add: certs_throw_def d_pc_def bag_def jor_def nullish_def)
  then show ?thesis using n by (auto simp: buildDetail_def detail_dev_def detail_throws_def)
qed

end
