(* ===== verification/ScreenControl.thy ===== *)
theory ScreenControl
  imports DetailView Poll
begin

text \<open>
  The device page as a machine: \<open>src/web/js/screens/detail.js\<close>, its pure helpers and its state. The page keeps a dialog
  for the actions on a cluster, the answer of the last action and the operator's note of the device. The state are the
  variables of the module and the fields of the dialog that the code reads back; the events are the mount, the render and
  the removal of the page, what the operator does, and the arrival of an answer. Sent requests, toasts and writes to the
  notes are effects.

  A disabled button gets no click, which is the browser's part; that a click reaches an enabled button under the dialog
  is not excluded. \<open>ds_flight\<close> holds the actions that wait for their answer: the code keeps no list of them, each is a
  call of \<open>runConfirm\<close> that is suspended.
\<close>

section \<open>Helpers\<close>

definition dl :: "bool \<Rightarrow> lfun" where "dl ko en kr = (if ko then kr else en)"

definition formatNoteTimestamp :: "host \<Rightarrow> jsval \<Rightarrow> string" where
  "formatNoteTimestamp h ts =
     (case new_date h ts of
        Some t \<Rightarrow> if truthy ts then take 16 (kst_text t) else take 16 (replace_first ''T'' '' '' (str_or ts))
      | None \<Rightarrow> take 16 (replace_first ''T'' '' '' (str_or ts)))"

definition pair_down :: "node_row \<Rightarrow> bool" where "pair_down x \<longleftrightarrow> nr_tone x = ''neg''"

definition pairState :: "node_row list \<Rightarrow> string" where
  "pairState ns =
     (let downCnt = length (filter pair_down ns) in
      if ns = [] then ''nodata'' else if downCnt = length ns then ''offline'' else if length ns = 1 then ''simplex''
      else if 0 < downCnt then ''simplex'' else ''duplex'')"

definition pairTone :: "string \<Rightarrow> string" where
  "pairTone st = (if st = ''duplex'' then ''pos'' else if st = ''simplex'' then ''warn'' else if st = ''offline'' then ''neg'' else ''mut'')"

record vm_action =
  va_act :: string
  va_destructive :: bool
  va_danger :: bool

definition vmActionPlan :: "bool \<Rightarrow> vm_action list" where
  "vmActionPlan running =
     (if running then [\<lparr>va_act = ''vm-shutdown'', va_destructive = False, va_danger = False\<rparr>,
        \<lparr>va_act = ''vm-poweroff'', va_destructive = True, va_danger = True\<rparr>]
      else [\<lparr>va_act = ''vm-poweron'', va_destructive = False, va_danger = False\<rparr>])"

definition finite_num :: "jsval \<Rightarrow> rat option" where
  "finite_num v = (case to_num v of Fin x \<Rightarrow> Some x | _ \<Rightarrow> None)"

definition num_or_dash :: "jsval \<Rightarrow> string" where
  "num_or_dash v = (case finite_num v of Some x \<Rightarrow> num_str (Fin x) | None \<Rightarrow> DASH)"

definition nasVolText :: "jsval \<Rightarrow> string" where
  "nasVolText v = (let x = jor v (JObj []) in
     num_or_dash (jget x ''usedGiB'') @ '' / '' @ num_or_dash (jget x ''sizeGiB'') @ '' GiB . '' @ num_or_dash (jget x ''pct'') @ ''%'')"

definition nasLanText :: "bool \<Rightarrow> jsval \<Rightarrow> string" where
  "nasLanText ko p = (let x = jor p (JObj []) in
     to_str (jor (jget x ''ip'') (JStr DASH)) @ '' '' @
     (if nullish (jget x ''up'') then DASH else if truthy (jget x ''up'') then ''UP'' else dl ko ''down'' ''miyeongyeol''))"

definition supplyGaugeN :: "jsval \<Rightarrow> rat option" where
  "supplyGaugeN p =
     (if nullish p then None
      else case finite_num p of None \<Rightarrow> None | Some n \<Rightarrow> if n < 0 then (if n = - 3 then Some 100 else None) else Some n)"

text \<open>The next stop of the tabulator key in the dialog; None for an empty list.\<close>

definition nextModalFocus :: "'a list \<Rightarrow> 'a option \<Rightarrow> bool \<Rightarrow> 'a option" where
  "nextModalFocus items cur shiftKey =
     (if items = [] then None
      else case (case cur of None \<Rightarrow> None | Some c \<Rightarrow> find (\<lambda>i. items ! i = c) [0..<length items]) of
        None \<Rightarrow> Some (if shiftKey then last items else hd items)
      | Some i \<Rightarrow> Some (items ! nat ((int i + (if shiftKey then - 1 else 1) + int (length items)) mod int (length items))))"

section \<open>What an action is allowed to do, and what it does\<close>

definition NO_ACTION :: string where "NO_ACTION = ''Cluster action is not supported by this server.''"
definition NO_ACTION_KO :: string where "NO_ACTION_KO = ''i seobeoneun haedang keulleoseuteo jeeoreul jiwonhaji anhseumnida.''"

definition sor_text :: "string \<Rightarrow> string \<Rightarrow> string" where "sor_text s dflt = (if s = [] then dflt else s)"

definition controlActionGate :: "control option \<Rightarrow> string \<Rightarrow> availability" where
  "controlActionGate control action =
     (case control of
        None \<Rightarrow> \<lparr>av_supported = False, av_reason = NO_ACTION, av_reason_ko = NO_ACTION_KO\<rparr>
      | Some c \<Rightarrow>
          if ct_sample c then \<lparr>av_supported = False, av_reason = SAMPLE_REASON, av_reason_ko = SAMPLE_REASON_KO\<rparr>
          else (case map_of (ct_availability c) action of
            Some a \<Rightarrow> if av_supported a then \<lparr>av_supported = True, av_reason = [], av_reason_ko = []\<rparr>
              else \<lparr>av_supported = False, av_reason = sor_text (av_reason a) NO_ACTION, av_reason_ko = sor_text (av_reason_ko a) NO_ACTION_KO\<rparr>
          | None \<Rightarrow> if cap_supported (ct_capability c) \<and> action \<in> set (cap_actions (ct_capability c))
              then \<lparr>av_supported = True, av_reason = [], av_reason_ko = []\<rparr>
              else \<lparr>av_supported = False, av_reason = sor_text (cap_reason (ct_capability c)) NO_ACTION,
                av_reason_ko = sor_text (cap_reason_ko (ct_capability c)) NO_ACTION_KO\<rparr>))"

definition actionGateReason :: "bool \<Rightarrow> availability \<Rightarrow> string" where
  "actionGateReason ko g = dl ko (sor_text (av_reason g) ''Cluster action is unavailable.'')
     (sor_text (av_reason_ko g) ''keulleoseuteo jeeoreul sayonghal su eopseumnida.'')"

definition consequenceOf :: "bool \<Rightarrow> string \<Rightarrow> string \<Rightarrow> control_node list \<Rightarrow> string" where
  "consequenceOf ko action target nodes =
     (let l = dl ko; peer = find (\<lambda>n. cl_name n \<noteq> JStr target) nodes in
      if action \<in> {''node-workon'', ''node-reboot'', ''node-shutdown''} then
        (case peer of
           None \<Rightarrow> l ''This is the only node -- VMs will stop.'' ''danil nodeu -- VMi jungjidoemnida.''
         | Some p \<Rightarrow>
             if cl_down p \<or> cl_maint p then
               l (''Peer '' @ to_str (cl_name p) @ '' is not healthy -- this would stop the VMs.'')
                 (''pieo '' @ to_str (cl_name p) @ ''ga jeongsang anim -- VM jungji wiheomi itseumnida.'')
             else l (''VMs keep running on '' @ to_str (cl_name p) @ ''; '' @ target @ '' briefly runs simplex.'')
               (''VMeun '' @ to_str (cl_name p) @ ''eseo gyesok silhaeng, '' @ target @ ''neun jamsi danilnodeu.''))
      else if action = ''vm-poweroff'' then l ''Hard power-off -- unsaved guest state is lost.'' ''gangje jongnyo -- geseuteuui jeojang an doen sangtaeneun yusildoemnida.''
      else if action = ''vm-shutdown'' then l ''Graceful guest shutdown.'' ''geseuteu jeongsang jongnyo yocheong.''
      else if action = ''node-workoff'' then l ''Bring the node back into service (triggers a resync).'' ''nodeureul seobiseuro bokgwi.''
      else if action = ''node-recover'' then l ''Recover a failed node.'' ''silpaehan nodeureul bokguhamnida.''
      else if action = ''vm-poweron'' then l ''Start the VM.'' ''VMeul sijakhamnida.''
      else [])"

section \<open>The buttons of a row\<close>

text \<open>
  A row of the control card is patched in place. Its buttons are made anew only when the mode of the node has changed, and
  carry the name the node had then; a row of the table of virtual machines compares the name too.
\<close>

record ctl_row =
  cr_name :: string
  cr_mode :: string
  cr_buttons :: "(string \<times> string) list"

definition new_row :: ctl_row where "new_row = \<lparr>cr_name = [], cr_mode = [], cr_buttons = []\<rparr>"

definition node_mode :: "control_node \<Rightarrow> string" where
  "node_mode x = (if cl_maint x then ''maint'' else if cl_down x then ''down'' else ''up'')"

definition node_actions :: "string \<Rightarrow> string list" where
  "node_actions mode = (if mode = ''maint'' then [''node-workoff''] else if mode = ''down'' then [''node-recover'']
     else [''node-workon'', ''node-reboot'', ''node-shutdown''])"

text \<open>\<open>first\<close> is the node the row was made for; its name stands in for a missing one.\<close>

definition patch_node_row :: "control_node \<Rightarrow> control_node \<Rightarrow> ctl_row \<Rightarrow> ctl_row" where
  "patch_node_row first x r =
     (let r1 = r\<lparr>cr_name := to_str (jor (cl_name x) (jor (cl_name first) (JStr DASH)))\<rparr>;
          nm = str_or (jor (cl_name x) (cl_name first)) in
      if node_mode x = cr_mode r then r1
      else r1\<lparr>cr_mode := node_mode x, cr_buttons := map (\<lambda>a. (a, nm)) (node_actions (node_mode x))\<rparr>)"

definition vm_mode :: "bool \<Rightarrow> string \<Rightarrow> string" where
  "vm_mode running nm = (if running then ''run'' else ''stop'') @ '':'' @ nm"

definition patch_vm_row :: "proc \<Rightarrow> ctl_row \<Rightarrow> ctl_row" where
  "patch_vm_row p r =
     (let r1 = r\<lparr>cr_name := to_str (jor (pr_name p) (JStr DASH))\<rparr>; nm = str_or (pr_name p);
          m = vm_mode (pr_running p) nm in
      if m = cr_mode r then r1
      else r1\<lparr>cr_mode := m, cr_buttons := map (\<lambda>a. (va_act a, nm)) (vmActionPlan (pr_running p))\<rparr>)"

section \<open>The state of the page\<close>

record confirm_state =
  cc_action :: string
  cc_target :: string
  cc_label :: string
  cc_destructive :: bool
  cc_devId :: "string option"
  cc_consequence :: string

record dscreen =
  ds_alive :: bool
  ds_ko :: bool
  ds_confirm :: "confirm_state option"
  ds_busy :: bool
  ds_result :: "(bool \<times> string) option"
  ds_last :: "detail option"
  ds_typed :: string
  ds_runDisabled :: bool
  ds_overlay :: bool
  ds_note :: string
  ds_noteFocus :: bool
  ds_noteBound :: "string option"
  ds_flight :: "(string \<times> string option) list"

text \<open>What comes back from the server: status and document, or the message of an error.\<close>

datatype reply = Answered int jsval | Failed string

datatype page_event =
  Mount bool
| Render bool "detail option" jsval
| Leave
| ClickAct bool string string string bool
| TypeName string
| ClickCancel
| ClickRun
| EnterTyped bool
| Escape bool
| Settle nat reply
| TypeNote string
| FocusNote bool
| NoteSave
| NoteClear

datatype page_effect =
  Post string string
| Toast string
| NoteSet string string
| NoteDelete string

definition shown_id :: "dscreen \<Rightarrow> string option" where
  "shown_id s = map_option dt_id (ds_last s)"

definition shown_control :: "dscreen \<Rightarrow> control option" where
  "shown_control s = (case ds_last s of Some d \<Rightarrow> dt_control d | None \<Rightarrow> None)"

definition unmounted :: "bool \<Rightarrow> dscreen" where
  "unmounted ko = \<lparr>ds_alive = False, ds_ko = ko, ds_confirm = None, ds_busy = False, ds_result = None, ds_last = None, ds_typed = [],
     ds_runDisabled = False, ds_overlay = False, ds_note = [], ds_noteFocus = False, ds_noteBound = None, ds_flight = []\<rparr>"

definition mount_page :: "bool \<Rightarrow> dscreen \<Rightarrow> dscreen" where
  "mount_page ko s = (unmounted ko)\<lparr>ds_alive := True, ds_flight := ds_flight s\<rparr>"

definition leave_page :: "dscreen \<Rightarrow> dscreen" where
  "leave_page s = (unmounted (ds_ko s))\<lparr>ds_flight := ds_flight s\<rparr>"

section \<open>Operations\<close>

definition closeConfirm :: "dscreen \<Rightarrow> dscreen" where
  "closeConfirm s = s\<lparr>ds_confirm := None, ds_overlay := False\<rparr>"

definition syncRunBtn :: "dscreen \<Rightarrow> dscreen" where
  "syncRunBtn s = (case ds_confirm s of None \<Rightarrow> s
     | Some c \<Rightarrow> s\<lparr>ds_runDisabled := ds_busy s \<or> (cc_destructive c \<and> trim (ds_typed s) \<noteq> cc_target c)\<rparr>)"

definition openConfirm :: "string \<Rightarrow> string \<Rightarrow> string \<Rightarrow> bool \<Rightarrow> dscreen \<Rightarrow> dscreen \<times> page_effect list" where
  "openConfirm action target label destructive s =
     (let gate = controlActionGate (shown_control s) action in
      if \<not> av_supported gate then (s, [Toast (actionGateReason (ds_ko s) gate)])
      else (s\<lparr>ds_confirm := Some \<lparr>cc_action = action, cc_target = target, cc_label = label, cc_destructive = destructive,
                cc_devId = (case shown_id s of Some i \<Rightarrow> if i = [] then None else Some i | None \<Rightarrow> None),
                cc_consequence = consequenceOf (ds_ko s) action target (case shown_control s of Some c \<Rightarrow> ct_nodes c | None \<Rightarrow> [])\<rparr>,
              ds_result := None, ds_typed := [], ds_runDisabled := destructive, ds_overlay := True\<rparr>, []))"

definition post_url :: "string \<Rightarrow> string" where "post_url i = ''/api/clusters/'' @ encodeURIComponent i @ ''/action''"
definition post_body :: "string \<Rightarrow> string \<Rightarrow> string" where
  "post_body action target = stringify (JObj [(''action'', JStr action), (''target'', JStr target)])"

text \<open>The part of \<open>postAction\<close> before its first \<open>await\<close>: the request, or the message of the error it throws.\<close>

definition postAction :: "string \<Rightarrow> string \<Rightarrow> string \<Rightarrow> control option \<Rightarrow> page_effect list \<times> string option" where
  "postAction i action target control =
     (let gate = controlActionGate control action in
      if \<not> av_supported gate then ([], Some (sor_text (av_reason gate) ''cluster action not supported''))
      else ([Post (post_url i) (post_body action target)], None))"

text \<open>\<open>runConfirm\<close> up to its \<open>await\<close>.\<close>

definition runConfirm :: "dscreen \<Rightarrow> dscreen \<times> page_effect list" where
  "runConfirm s =
     (case ds_confirm s of
        None \<Rightarrow> (s, [])
      | Some c \<Rightarrow>
          if ds_busy s then (s, [])
          else (let i = (case cc_devId c of Some i \<Rightarrow> i | None \<Rightarrow> (case shown_id s of Some i \<Rightarrow> i | None \<Rightarrow> ''undefined'')) in
            if cc_devId c \<noteq> None \<and> ds_last s \<noteq> None \<and> cc_devId c \<noteq> shown_id s
            then (closeConfirm s, [Toast (dl (ds_ko s) ''Device changed -- action cancelled.'' ''jangbiga bakkwieo silhaengeul chwisohaetseumnida.'')])
            else (case postAction i (cc_action c) (cc_target c) (shown_control s) of
              (es, refused) \<Rightarrow> ((syncRunBtn (s\<lparr>ds_busy := True\<rparr>))\<lparr>ds_flight := ds_flight s @ [(i, refused)]\<rparr>, es))))"

definition answer_of :: "bool \<Rightarrow> reply \<Rightarrow> bool \<times> string" where
  "answer_of ko a =
     (case a of
        Failed m \<Rightarrow> (False, m)
      | Answered st j \<Rightarrow>
          (let ok = (200 \<le> st \<and> st < 300) in
           if nullish j then (False, if ok then ''Cannot read properties of null (reading 'output')'' else ''Cannot read properties of null (reading 'error')'')
           else if ok then (True, to_str (jor (jget j ''output'') (JStr (dl ko ''started'' ''silhaeng yocheongdoem''))))
           else (False, to_str (jor (jget j ''error'') (JStr (''HTTP '' @ int_str st))))))"

text \<open>\<open>runConfirm\<close> after its \<open>await\<close>, for the action at the given place of the list.\<close>

definition settle_action :: "nat \<Rightarrow> reply \<Rightarrow> dscreen \<Rightarrow> dscreen \<times> page_effect list" where
  "settle_action k a s =
     (if length (ds_flight s) \<le> k then (s, [])
      else (case ds_flight s ! k of (i, refused) \<Rightarrow>
        (let res = (case refused of Some m \<Rightarrow> (False, m) | None \<Rightarrow> answer_of (ds_ko s) a);
             s1 = s\<lparr>ds_flight := take k (ds_flight s) @ drop (Suc k) (ds_flight s), ds_busy := False\<rparr>;
             s2 = (if shown_id s1 = Some i then s1\<lparr>ds_result := Some res\<rparr> else s1) in
         (if ds_alive s2 then closeConfirm s2 else s2, [Toast ((if fst res then ''v '' else ''x '') @ snd res)]))))"

section \<open>The note\<close>

definition note_text :: "jsval \<Rightarrow> string \<Rightarrow> string" where
  "note_text notes i = str_or (jget (jget (jor notes (JObj [])) i) ''text'')"

definition bind_note :: "jsval \<Rightarrow> detail \<Rightarrow> dscreen \<Rightarrow> dscreen \<times> page_effect list" where
  "bind_note notes d s =
     (if ds_noteBound s \<noteq> Some (dt_id d)
      then (let stale = ds_note s; prevSaved = note_text notes (case ds_noteBound s of Some i \<Rightarrow> i | None \<Rightarrow> ''null'') in
        (s\<lparr>ds_note := note_text notes (dt_id d), ds_noteBound := Some (dt_id d), ds_result := None\<rparr>,
         if trim stale \<noteq> [] \<and> stale \<noteq> prevSaved
         then [Toast (dl (ds_ko s) ''Device changed -- unsaved note discarded.'' ''jangbiga bakkwieo jeojanghaji anheun memoreul beoryeotseumnida.'')]
         else []))
      else if \<not> ds_noteFocus s then (s\<lparr>ds_note := note_text notes (dt_id d)\<rparr>, [])
      else (s, []))"

definition render_page :: "bool \<Rightarrow> detail option \<Rightarrow> jsval \<Rightarrow> dscreen \<Rightarrow> dscreen \<times> page_effect list" where
  "render_page ko od notes s =
     (if \<not> ds_alive s then (s, [])
      else (let s1 = s\<lparr>ds_ko := ko\<rparr> in
        case od of
          None \<Rightarrow> (s1, [])
        | Some d \<Rightarrow> if dt_id d = [] then (s1, []) else bind_note notes d (s1\<lparr>ds_last := Some d\<rparr>)))"

definition save_note :: "dscreen \<Rightarrow> dscreen \<times> page_effect list" where
  "save_note s =
     (case shown_id s of
        None \<Rightarrow> (s, [])
      | Some i \<Rightarrow>
          if i = [] \<or> ds_noteBound s \<noteq> Some i then (s, [])
          else (let text = take 1000 (ds_note s) in
            (s, [if trim text \<noteq> [] then NoteSet i text else NoteDelete i, Toast (dl (ds_ko s) ''Note saved'' ''memoreul jeojanghaetseumnida'')])))"

definition clear_note :: "dscreen \<Rightarrow> dscreen \<times> page_effect list" where
  "clear_note s = (case shown_id s of
     None \<Rightarrow> (s, []) | Some i \<Rightarrow> if i = [] then (s, []) else (s\<lparr>ds_note := []\<rparr>, [NoteDelete i]))"

section \<open>Steps\<close>

text \<open>Without the page its listeners are gone; only answers still arrive.\<close>

definition page_step :: "page_event \<Rightarrow> dscreen \<Rightarrow> dscreen \<times> page_effect list" where
  "page_step ev s =
     (case ev of
        Mount ko \<Rightarrow> (mount_page ko s, [])
      | Settle k a \<Rightarrow> settle_action k a s
      | _ \<Rightarrow>
        if \<not> ds_alive s then (s, [])
        else (case ev of
          Render ko od notes \<Rightarrow> render_page ko od notes s
        | Leave \<Rightarrow> (leave_page s, [])
        | ClickAct disabled action target label destructive \<Rightarrow> if disabled then (s, []) else openConfirm action target label destructive s
        | TypeName t \<Rightarrow> (syncRunBtn (s\<lparr>ds_typed := t\<rparr>), [])
        | ClickCancel \<Rightarrow> (if ds_busy s then s else closeConfirm s, [])
        | ClickRun \<Rightarrow> if ds_runDisabled s then (s, []) else runConfirm s
        | EnterTyped composing \<Rightarrow> if ds_confirm s = None \<or> composing \<or> ds_runDisabled s then (s, []) else runConfirm s
        | Escape composing \<Rightarrow> (if ds_confirm s = None \<or> composing \<or> ds_busy s then s else closeConfirm s, [])
        | TypeNote t \<Rightarrow> (s\<lparr>ds_note := t\<rparr>, [])
        | FocusNote b \<Rightarrow> (s\<lparr>ds_noteFocus := b\<rparr>, [])
        | NoteSave \<Rightarrow> save_note s
        | NoteClear \<Rightarrow> clear_note s
        | _ \<Rightarrow> (s, [])))"

fun page_run :: "page_event list \<Rightarrow> dscreen \<Rightarrow> dscreen \<times> page_effect list" where
  "page_run [] s = (s, [])"
| "page_run (ev # evs) s = (case page_step ev s of (s1, es) \<Rightarrow> case page_run evs s1 of (s2, es') \<Rightarrow> (s2, es @ es'))"

end
