(* ===== verification/ScreenSafe.thy ===== *)
theory ScreenSafe
  imports ScreenControl Detail
begin

text \<open>
  The theorems about the machine of the device page: what a request to the server presupposes, how many actions can be
  under way, whose note is saved, what the buttons of a row act on, and where the page shows more safety than there is.
\<close>

named_theorems page_defs

lemmas [page_defs] = page_step_def openConfirm_def closeConfirm_def syncRunBtn_def runConfirm_def settle_action_def render_page_def
  bind_note_def save_note_def clear_note_def mount_page_def leave_page_def unmounted_def postAction_def

section \<open>Requests\<close>

text \<open>The state in which the run button means what it says.\<close>

definition page_ok :: "dscreen \<Rightarrow> bool" where
  "page_ok s \<longleftrightarrow>
     (\<forall>c. ds_confirm s = Some c \<longrightarrow> cc_devId c \<noteq> None \<and> ds_last s \<noteq> None
        \<and> (\<not> ds_runDisabled s \<and> cc_destructive c \<longrightarrow> trim (ds_typed s) = cc_target c))
   \<and> shown_id s \<noteq> Some []"

lemma gate_none: "\<not> av_supported (controlActionGate None a)"
  by (simp add: controlActionGate_def)

lemma page_ok_open: "page_ok s \<Longrightarrow> page_ok (fst (openConfirm a t l d s))"
  by (cases "ds_last s") (auto simp: openConfirm_def page_ok_def shown_id_def shown_control_def gate_none Let_def)

lemma page_ok_close: "page_ok s \<Longrightarrow> page_ok (closeConfirm s)"
  by (simp add: page_ok_def closeConfirm_def shown_id_def)

lemma page_ok_sync: "page_ok s \<Longrightarrow> page_ok (syncRunBtn (s\<lparr>ds_typed := t\<rparr>))" "page_ok s \<Longrightarrow> page_ok (syncRunBtn (s\<lparr>ds_busy := True\<rparr>))"
  by (auto simp: page_ok_def syncRunBtn_def shown_id_def split: option.splits)

lemma page_ok_flight: "page_ok (s\<lparr>ds_flight := f\<rparr>) = page_ok s"
  by (simp add: page_ok_def shown_id_def)

lemma page_ok_runConfirm: "page_ok s \<Longrightarrow> page_ok (fst (runConfirm s))"
  by (simp add: runConfirm_def Let_def page_ok_close page_ok_flight page_ok_sync split: option.splits prod.splits)

lemma page_ok_settle: "page_ok s \<Longrightarrow> page_ok (fst (settle_action k a s))"
  by (simp add: settle_action_def Let_def page_ok_def closeConfirm_def shown_id_def split: prod.splits)

lemma page_ok_render: "page_ok s \<Longrightarrow> page_ok (fst (render_page ko od notes s))"
  by (simp add: render_page_def bind_note_def page_ok_def shown_id_def Let_def split: option.splits)

lemma page_ok_none: "ds_confirm s = None \<Longrightarrow> shown_id s \<noteq> Some [] \<Longrightarrow> page_ok s"
  by (simp add: page_ok_def)

lemma page_ok_note: "page_ok s \<Longrightarrow> page_ok (s\<lparr>ds_note := t\<rparr>)" "page_ok s \<Longrightarrow> page_ok (s\<lparr>ds_noteFocus := f\<rparr>)"
  "page_ok s \<Longrightarrow> page_ok (fst (save_note s))" "page_ok s \<Longrightarrow> page_ok (fst (clear_note s))"
  by (auto simp: page_ok_def shown_id_def save_note_def clear_note_def Let_def split: option.splits)

lemma page_ok_start: "page_ok (unmounted ko)"
  by (simp add: page_ok_def unmounted_def shown_id_def)

lemma page_ok_step: "page_ok s \<Longrightarrow> page_ok (fst (page_step ev s))"
  by (cases ev) (simp_all add: page_step_def page_ok_open page_ok_close page_ok_sync page_ok_runConfirm page_ok_settle page_ok_render
      page_ok_note mount_page_def leave_page_def page_ok_flight page_ok_start page_ok_none unmounted_def shown_id_def)

lemma page_ok_run: "page_ok s \<Longrightarrow> page_ok (fst (page_run evs s))"
proof (induction evs arbitrary: s)
  case (Cons ev evs)
  then show ?case using page_ok_step [of s ev] by (fastforce split: prod.splits)
qed simp

lemma post_only_run: "Post u b \<in> set (snd (page_step ev s)) \<Longrightarrow> Post u b \<in> set (snd (runConfirm s)) \<and> \<not> ds_runDisabled s"
  by (cases ev) (auto simp: page_step_def openConfirm_def settle_action_def render_page_def bind_note_def save_note_def clear_note_def Let_def
      split: option.splits prod.splits if_splits)

lemma post_gated:
  "Post u b \<in> set (snd (runConfirm s)) \<Longrightarrow> page_ok s \<Longrightarrow> \<exists>c d. ds_confirm s = Some c \<and> ds_last s = Some d \<and> \<not> ds_busy s
     \<and> cc_devId c = Some (dt_id d) \<and> u = post_url (dt_id d) \<and> b = post_body (cc_action c) (cc_target c)
     \<and> av_supported (controlActionGate (dt_control d) (cc_action c))"
  by (auto simp: runConfirm_def postAction_def page_ok_def shown_id_def shown_control_def Let_def split: option.splits if_splits)

text \<open>
  C9. A request to act on a cluster leaves the page only for the device that is shown and that the dialog was opened for,
  only while the busy mark of the page is not set (leaving the page forgets the mark, so an action of an earlier visit may still be under way), if the gate is open for this
  action at this moment and, when the action is destructive, if the operator has typed the name of its target; and it carries the action and the target of the dialog.
\<close>

theorem post_guarded:
  assumes "Post u b \<in> set (snd (page_step ev (fst (page_run evs (unmounted ko)))))"
  defines "s \<equiv> fst (page_run evs (unmounted ko))"
  shows "\<exists>c d. ds_confirm s = Some c \<and> ds_last s = Some d \<and> \<not> ds_busy s
    \<and> cc_devId c = Some (dt_id d) \<and> u = post_url (dt_id d) \<and> b = post_body (cc_action c) (cc_target c)
    \<and> av_supported (controlActionGate (dt_control d) (cc_action c))
    \<and> (cc_destructive c \<longrightarrow> trim (ds_typed s) = cc_target c)"
proof -
  have ok: "page_ok s" unfolding s_def by (rule page_ok_run [OF page_ok_start])
  have r: "Post u b \<in> set (snd (runConfirm s))" "\<not> ds_runDisabled s" using post_only_run assms by auto
  from post_gated [OF r(1) ok] show ?thesis using ok r(2) by (fastforce simp: page_ok_def)
qed

lemma gate_exact:
  "av_supported (controlActionGate (control_of e s) action) \<longleftrightarrow>
     isFT (d_type s) \<and> \<not> sampleData e s \<and> cap_supported (normalizeCapabilities (caps_value (s_capabilities (te_st e))))
     \<and> action \<in> set (cap_actions (normalizeCapabilities (caps_value (s_capabilities (te_st e)))))"
proof -
  have k: "str_or (JStr a) = a" for a by (cases a) (simp_all add: str_or_def)
  have m: "map_of (map (\<lambda>k. (k, f k)) xs) a = (if a \<in> set xs then Some (f a) else None)" for f :: "string \<Rightarrow> availability" and xs a
    by (induction xs) auto
  show ?thesis
    by (simp add: control_of_def controlActionGate_def m clusterActionAvailability_def k Let_def)
qed

definition wit_env_open :: env where
  "wit_env_open = (wit_env [wit_server])\<lparr>te_st := initialState\<lparr>s_capabilities :=
     \<lparr>cap_supported = True, cap_actions = [''node-reboot''], cap_endpoint = [], cap_reason = [], cap_reason_ko = []\<rparr>\<rparr>\<rparr>"

definition wit_page :: "page_event list" where
  "wit_page = [Mount True, Render True (Some (detail_of wit_env_open wit_server)) Null, ClickAct False ''node-reboot'' ''node0'' [] True, TypeName ''node0'']"

lemma wit_gate: "av_supported (controlActionGate (control_of wit_env_open wit_server) ''node-reboot'')"
proof -
  have c: "te_st wit_env_open = initialState\<lparr>s_capabilities := \<lparr>cap_supported = True, cap_actions = [''node-reboot''], cap_endpoint = [],
      cap_reason = [], cap_reason_ko = []\<rparr>\<rparr>" by (simp add: wit_env_open_def)
  have n: "normalizeCapabilities (caps_value \<lparr>cap_supported = True, cap_actions = [''node-reboot''], cap_endpoint = [], cap_reason = [], cap_reason_ko = []\<rparr>)
      = \<lparr>cap_supported = True, cap_actions = [''node-reboot''], cap_endpoint = [], cap_reason = CLUSTER_ACTIONS_DEFAULT_REASON,
         cap_reason_ko = CLUSTER_ACTIONS_DEFAULT_REASON_KO\<rparr>" by code_simp
  have m: "\<not> sampleData wit_env_open wit_server"
    by (simp add: sampleData_def c initialState_def wit_server_def wit_dev_def mkDevice_def normalizeMeta_def Let_def obj_or_def jor_def)
  show ?thesis using m by (simp add: gate_exact c n wit_server_fields isFT_def FT_TYPES_def)
qed

lemma wit_page_state: "fst (page_run wit_page (unmounted True)) = (unmounted True)\<lparr>ds_alive := True, ds_last := Some (detail_of wit_env_open wit_server),
    ds_noteBound := Some ''ev-01'', ds_overlay := True, ds_typed := ''node0'',
    ds_confirm := Some \<lparr>cc_action = ''node-reboot'', cc_target = ''node0'', cc_label = [], cc_destructive = True, cc_devId = Some ''ev-01'',
      cc_consequence = consequenceOf True ''node-reboot'' ''node0'' (case control_of wit_env_open wit_server of Some c \<Rightarrow> ct_nodes c | None \<Rightarrow> [])\<rparr>\<rparr>"
proof -
  have d: "dt_id (detail_of wit_env_open wit_server) = ''ev-01''" "dt_control (detail_of wit_env_open wit_server) = control_of wit_env_open wit_server"
    by (simp_all add: detail_of_def Let_def wit_server_fields)
  have n: "note_text Null ''ev-01'' = []" "trim [] = []" "trim ''node0'' = ''node0''" by code_simp+
  show ?thesis
    by (simp add: wit_page_def page_defs shown_id_def shown_control_def d n wit_gate Let_def)
qed

theorem post_guarded_witness:
  "\<exists>c. ds_confirm (fst (page_run wit_page (unmounted True))) = Some c \<and> cc_devId c = Some ''ev-01''
     \<and> trim (ds_typed (fst (page_run wit_page (unmounted True)))) = cc_target c
     \<and> Post (post_url ''ev-01'') (post_body (cc_action c) (cc_target c)) \<in> set (snd (page_step ClickRun (fst (page_run wit_page (unmounted True)))))"
proof -
  have d: "dt_id (detail_of wit_env_open wit_server) = ''ev-01''" "dt_control (detail_of wit_env_open wit_server) = control_of wit_env_open wit_server"
    by (simp_all add: detail_of_def Let_def wit_server_fields)
  have p: "Post (post_url ''ev-01'') (post_body ''node-reboot'' ''node0'') \<in> set (snd (page_step ClickRun (fst (page_run wit_page (unmounted True)))))"
    unfolding wit_page_state by (simp add: page_step_def runConfirm_def postAction_def unmounted_def shown_id_def shown_control_def d wit_gate Let_def)
  let ?s = "fst (page_run wit_page (unmounted True))"
  obtain c where c: "ds_confirm ?s = Some c" "cc_action c = ''node-reboot''" "cc_target c = ''node0''" "cc_destructive c"
    unfolding wit_page_state by (simp add: unmounted_def)
  obtain d' where "ds_last ?s = Some d'" "cc_devId c = Some (dt_id d')" "trim (ds_typed ?s) = cc_target c"
    using post_guarded [OF p] c by auto
  moreover have "ds_last ?s = Some (detail_of wit_env_open wit_server)" unfolding wit_page_state by (simp add: unmounted_def)
  ultimately show ?thesis using p c d(1) by auto
qed

text \<open>
  The gate of the page is open exactly for what the server advertised: for a page that \<open>buildDetail\<close> made, an action
  passes if and only if the device is of a fault-tolerant type, nothing of it is a sample and the capabilities of the server list the action.
\<close>

theorem gate_is_advertised:
  "av_supported (controlActionGate (control_of e s) action) \<longleftrightarrow>
     isFT (d_type s) \<and> \<not> sampleData e s \<and> cap_supported (normalizeCapabilities (caps_value (s_capabilities (te_st e))))
     \<and> action \<in> set (cap_actions (normalizeCapabilities (caps_value (s_capabilities (te_st e)))))"
  by (rule gate_exact)

section \<open>One action at a time\<close>

definition in_step :: "dscreen \<Rightarrow> bool" where
  "in_step s \<longleftrightarrow> length (ds_flight s) \<le> 1 \<and> (ds_busy s \<longleftrightarrow> ds_flight s \<noteq> [])"

fun stays :: "page_event \<Rightarrow> bool" where
  "stays (Mount _) = False" | "stays Leave = False" | "stays _ = True"

lemma in_step_step: "in_step s \<Longrightarrow> stays ev \<Longrightarrow> in_step (fst (page_step ev s))"
proof (cases ev)
  case (Settle k a)
  assume i: "in_step s"
  show ?thesis
  proof (cases "ds_flight s")
    case (Cons x xs)
    then have "xs = []" using i by (simp add: in_step_def)
    then show ?thesis using i Cons Settle by (auto simp: page_defs in_step_def Let_def split: prod.splits)
  qed (use i Settle in \<open>auto simp: page_defs in_step_def\<close>)
qed (auto simp: page_defs in_step_def Let_def split: option.splits prod.splits if_splits)

lemma page_run_Cons: "fst (page_run (ev # evs) s) = fst (page_run evs (fst (page_step ev s)))"
  by (simp split: prod.splits)

lemma page_run_append: "fst (page_run (xs @ ys) s) = fst (page_run ys (fst (page_run xs s)))"
  by (induction xs arbitrary: s) (simp_all add: page_run_Cons del: page_run.simps(2))

lemma in_step_run: "in_step s \<Longrightarrow> list_all stays evs \<Longrightarrow> in_step (fst (page_run evs s))"
proof (induction evs arbitrary: s)
  case (Cons ev evs)
  then show ?case using in_step_step [of s ev] by (fastforce split: prod.splits)
qed simp

fun is_mount :: "page_event \<Rightarrow> bool" where
  "is_mount (Mount _) = True" | "is_mount _ = False"

text \<open>What a page may still begin: one action, unless it is not there or busy.\<close>

definition may_begin :: "dscreen \<Rightarrow> nat" where
  "may_begin s = (if ds_alive s \<and> \<not> ds_busy s then 1 else 0)"

lemma flight_step:
  "length (ds_flight (fst (page_step ev s))) + may_begin (fst (page_step ev s))
   \<le> length (ds_flight s) + may_begin s + (if is_mount ev then 1 else 0)"
  by (cases ev) (auto simp: page_defs may_begin_def Let_def split: option.splits prod.splits if_splits)

lemma flight_run:
  "length (ds_flight (fst (page_run evs s))) + may_begin (fst (page_run evs s))
   \<le> length (ds_flight s) + may_begin s + length (filter is_mount evs)"
proof (induction evs arbitrary: s)
  case (Cons ev evs)
  have "length (filter is_mount (ev # evs)) = (if is_mount ev then 1 else 0) + length (filter is_mount evs)" by simp
  then show ?case using flight_step [of ev s] Cons.IH [of "fst (page_step ev s)"] unfolding page_run_Cons by linarith
qed simp

lemma busy_step: "ds_busy (fst (page_step ev s)) \<Longrightarrow> (ds_busy s \<longrightarrow> ds_flight s \<noteq> []) \<Longrightarrow> ds_flight (fst (page_step ev s)) \<noteq> []"
  by (cases ev) (auto simp: page_defs Let_def split: option.splits prod.splits if_splits)

lemma busy_marks_run: "ds_busy (fst (page_run evs (unmounted ko))) \<longrightarrow> ds_flight (fst (page_run evs (unmounted ko))) \<noteq> []"
proof (induction evs rule: rev_induct)
  case (snoc ev evs)
  then show ?case using busy_step [of ev "fst (page_run evs (unmounted ko))"] by (auto simp: page_run_append split: prod.splits)
qed (simp add: unmounted_def)

text \<open>
  C10. One action at a time. In any run, at most one action is under way for each time the page has been opened, so at most one if it
  has been opened once; and from any moment at which none is under way, as long as the page stays, at most one is, and the busy mark is set exactly while it is. (Leaving the page
  with an action under way and coming back forgets the mark: then a second one can begin.)
\<close>

theorem one_action_at_a_time:
  "length (ds_flight (fst (page_run evs (unmounted ko)))) \<le> length (filter is_mount evs)
   \<and> (ds_flight (fst (page_run evs (unmounted ko))) = [] \<longrightarrow> list_all stays later \<longrightarrow>
       length (ds_flight (fst (page_run (evs @ later) (unmounted ko)))) \<le> 1
       \<and> (ds_busy (fst (page_run (evs @ later) (unmounted ko))) \<longleftrightarrow> ds_flight (fst (page_run (evs @ later) (unmounted ko))) \<noteq> []))"
proof (intro conjI impI)
  show "length (ds_flight (fst (page_run evs (unmounted ko)))) \<le> length (filter is_mount evs)"
    using flight_run [of evs "unmounted ko"] by (simp add: may_begin_def unmounted_def)
next
  assume none: "ds_flight (fst (page_run evs (unmounted ko))) = []" and stay: "list_all stays later"
  have "in_step (fst (page_run evs (unmounted ko)))" using none busy_marks_run [of evs ko] by (simp add: in_step_def)
  from in_step_run [OF this stay]
  show "length (ds_flight (fst (page_run (evs @ later) (unmounted ko)))) \<le> 1"
    "ds_busy (fst (page_run (evs @ later) (unmounted ko))) \<longleftrightarrow> ds_flight (fst (page_run (evs @ later) (unmounted ko))) \<noteq> []"
    by (simp_all add: page_run_append in_step_def)
qed

theorem one_action_at_a_time_witness:
  "length (ds_flight (fst (page_run (wit_page @ [ClickRun, ClickRun, TypeName ''x'', ClickRun]) (unmounted True)))) = 1
   \<and> ds_busy (fst (page_run (wit_page @ [ClickRun, ClickRun, TypeName ''x'', ClickRun]) (unmounted True)))"
proof -
  have d: "dt_id (detail_of wit_env_open wit_server) = ''ev-01''" "dt_control (detail_of wit_env_open wit_server) = control_of wit_env_open wit_server"
    by (simp_all add: detail_of_def Let_def wit_server_fields)
  have none: "ds_flight (fst (page_run wit_page (unmounted True))) = []" unfolding wit_page_state by (simp add: unmounted_def)
  have stay: "list_all stays [ClickRun, ClickRun, TypeName ''x'', ClickRun]" by simp
  have "ds_flight (fst (page_run (wit_page @ [ClickRun, ClickRun, TypeName ''x'', ClickRun]) (unmounted True))) \<noteq> []"
    unfolding page_run_append wit_page_state
    by (simp add: page_defs shown_id_def shown_control_def d wit_gate Let_def)
  then show ?thesis
    using one_action_at_a_time [of wit_page True "[ClickRun, ClickRun, TypeName ''x'', ClickRun]"] none stay by (simp add: le_Suc_eq)
qed

section \<open>The note\<close>

text \<open>
  A note is saved under the device it was bound to and that is shown, with at most a thousand characters of what the text area holds.
\<close>

lemma note_saved_for_shown:
  assumes "NoteSet i t \<in> set (snd (page_step ev s))"
  shows "shown_id s = Some i \<and> ds_noteBound s = Some i \<and> t = take 1000 (ds_note s) \<and> trim t \<noteq> []"
  using assms by (cases ev) (auto simp: page_defs Let_def split: option.splits prod.splits if_splits)

section \<open>The buttons of a row\<close>

lemma node_mode_cases: "node_mode x \<noteq> []" by (simp add: node_mode_def)

definition vm_row_ok :: "ctl_row \<Rightarrow> bool" where
  "vm_row_ok r \<longleftrightarrow> cr_mode r = [] \<or> (\<exists>b nm. cr_mode r = vm_mode b nm \<and> cr_buttons r = map (\<lambda>a. (va_act a, nm)) (vmActionPlan b))"

lemma vm_mode_inj: "vm_mode b nm = vm_mode b' nm' \<longleftrightarrow> b = b' \<and> nm = nm'" "vm_mode b nm \<noteq> []"
  by (cases b; cases b'; auto simp: vm_mode_def) (simp add: vm_mode_def)

lemma vm_row_patch:
  assumes "vm_row_ok r"
  shows "cr_buttons (patch_vm_row p r) = map (\<lambda>a. (va_act a, str_or (pr_name p))) (vmActionPlan (pr_running p))"
    and "cr_mode (patch_vm_row p r) = vm_mode (pr_running p) (str_or (pr_name p))"
  using assms by (auto simp: patch_vm_row_def vm_row_ok_def Let_def vm_mode_inj)

lemma vm_row_ok_patch: "vm_row_ok r \<Longrightarrow> vm_row_ok (patch_vm_row p r)"
  using vm_row_patch [of r p] by (auto simp: vm_row_ok_def)

text \<open>
  However a row of the table of virtual machines has been patched before, its buttons act on the machine whose name it
  shows and are those of the state this machine is in.
\<close>

theorem vm_row_acts_on_shown:
  "cr_buttons (foldl (\<lambda>r p. patch_vm_row p r) new_row (ps @ [p])) = map (\<lambda>a. (va_act a, str_or (pr_name p))) (vmActionPlan (pr_running p))"
proof -
  have "vm_row_ok (foldl (\<lambda>r p. patch_vm_row p r) r ps)" if "vm_row_ok r" for r
    using that by (induction ps arbitrary: r) (auto intro: vm_row_ok_patch)
  then show ?thesis by (simp add: vm_row_patch vm_row_ok_def new_row_def)
qed

section \<open>Where the page misleads\<close>

text \<open>
  A row of the control card keeps the target of its buttons when the nodes of a pair change places: it shows one node and acts on the other.
\<close>

lemma node_row_stale_target:
  assumes "cl_name a = JStr na" "cl_name b = JStr nb" "na \<noteq> []" "nb \<noteq> []" "node_mode a = node_mode b"
  shows "cr_name (patch_node_row a b (patch_node_row a a new_row)) = nb"
    "\<forall>(act, target) \<in> set (cr_buttons (patch_node_row a b (patch_node_row a a new_row))). target = na"
  using assms node_mode_cases [of b]
  by (auto simp: patch_node_row_def new_row_def Let_def jor_def str_or_def)

text \<open>
  Two nodes that run while one of them is in maintenance or in an abnormal standing make the card of the pair say duplex and
  protected, and the same nodes are simplex for the rest of the console.
\<close>

lemma duplex_though_simplex:
  assumes "m_nodes (d_meta s) = ns" "2 \<le> length ns" "\<forall>n \<in> set ns. node_running n" "length (filter node_healthy ns) < 2"
  shows "pairState (nodes_of e s) = ''duplex''" "deriveSync (JArr ns) st = Simplex"
proof -
  have r: "rx_test (rlit_ci ''run'') ''running''" by code_simp
  have up: "\<not> pair_down (nodeRow e s (i, Known n))" if "n \<in> set ns" for i n
    using assms(3) that r by (auto simp: pair_down_def nodeRow_def node_row_tone_def node_down_def node_running_def rx_run_ci_def str_or_def Let_def)
  have n: "nodes_of e s = map (nodeRow e s) (enumerate 0 (map Known ns))"
    using assms(1,2) by (auto simp: nodes_of_def rawNodes_def)
  have "filter pair_down (nodes_of e s) = []"
    using up by (auto simp: n filter_empty_conv in_set_enumerate_eq)
  moreover have "length (nodes_of e s) = length ns" by (simp add: n)
  moreover have "nodes_of e s \<noteq> []" "ns \<noteq> []" using assms(2) by (cases ns; simp add: n)+
  ultimately show "pairState (nodes_of e s) = ''duplex''" using assms(2) unfolding pairState_def Let_def by simp
  have "filter node_running ns = ns" using assms(3) by simp
  then show "deriveSync (JArr ns) st = Simplex" using assms(2,4) by (auto simp: deriveSync_def Let_def)
qed

text \<open>
  Leaving the page while an action is under way makes the page forget it: a second action can be sent at once, and the
  answer of the first closes the dialog of the second.
\<close>

definition start_action :: "detail \<Rightarrow> string \<Rightarrow> string \<Rightarrow> page_event list" where
  "start_action d a t = [Mount True, Render True (Some d) Null, ClickAct False a t [] False]"

lemma second_action_in_flight:
  assumes "av_supported (controlActionGate (dt_control d) a)" "dt_id d \<noteq> []"
  shows "length (ds_flight (fst (page_run (start_action d a t @ [ClickRun, Leave] @ start_action d a t @ [ClickRun]) (unmounted True)))) = 2"
    and "ds_confirm (fst (page_run (start_action d a t @ [ClickRun, Leave] @ start_action d a t) (unmounted True))) \<noteq> None"
    and "ds_confirm (fst (page_run (start_action d a t @ [ClickRun, Leave] @ start_action d a t @ [Settle 0 ans]) (unmounted True))) = None"
  using assms
  by (simp_all add: start_action_def page_defs shown_id_def shown_control_def Let_def split: prod.splits)

end
