(* ===== verification/ScreenFloor.thy ===== *)
theory ScreenFloor
  imports TopoDraw
begin

text \<open>
  The floor map and the viewport of the topology screen, \<open>src/web/js/screens/topology.js\<close>: the grid, the cells that the
  racks take, their positions and cables; the fitting, zooming and panning of the drawing, and the gestures of the pointer.

  Cells are pairs of row and column from 1. The set of taken cells is a list here. The view is computed with doubles:
  \<open>round64\<close> stands where a result can be inexact. \<open>Math.sqrt\<close> in \<open>floorGrid\<close> is only compared with whole numbers up
  to 16, and n times 1.7 keeps a distance of a tenth from their squares, so the least such number whose square is not
  smaller is the rounded-up root.
\<close>

section \<open>Grid and cells\<close>

definition FLOOR_COLS :: nat where "FLOOR_COLS = 6"

definition root_up :: "rat \<Rightarrow> nat" where
  "root_up x = (case find (\<lambda>k. x \<le> of_nat (k * k)) [0..<17] of Some k \<Rightarrow> k | None \<Rightarrow> 16)"

definition floorGrid :: "nat \<Rightarrow> nat \<times> nat" where
  "floorGrid n =
     (let cols = (if n \<le> 30 then FLOOR_COLS else min 16 (root_up (round64 (of_nat n * round64 (17 / 10)))))
      in (cols, max 1 (ceil_div n cols)))"

definition rx_floorPos :: rx where
  "rx_floorPos = rseqs [RBos, RStar is_space, RCap (rseqs [rdig, ropt rdig, ropt rdig]), RStar is_space, rone '',-'', RStar is_space,
     RCap (rseqs [rdig, ropt rdig, ropt rdig]), RStar is_space, REos]"

definition parseFloorPos :: "string \<Rightarrow> (nat \<times> nat) option" where
  "parseFloorPos s =
     (case rx_exec rx_floorPos s of
        Some (_, _, [a, b], _) \<Rightarrow>
          (let r = nat (num_of a); c = nat (num_of b) in if 1 \<le> r \<and> 1 \<le> c then Some (r, c) else None)
      | _ \<Rightarrow> None)"

section \<open>The layout\<close>

definition cell_after :: "nat \<Rightarrow> nat \<times> nat \<Rightarrow> nat \<times> nat" where
  "cell_after cols p = (if cols < Suc (snd p) then (Suc (fst p), 1) else (fst p, Suc (snd p)))"

text \<open>The order in which the loop visits cells; it ends because only finitely many taken cells lie ahead.\<close>

definition cell_le :: "nat \<times> nat \<Rightarrow> nat \<times> nat \<Rightarrow> bool" where
  "cell_le p q \<longleftrightarrow> fst p < fst q \<or> fst p = fst q \<and> snd p \<le> snd q"

lemma cell_after_le: "cell_le (cell_after cols p) q \<Longrightarrow> cell_le p q" "\<not> cell_le (cell_after cols p) p"
  by (auto simp: cell_after_def cell_le_def split: if_splits)

function free_cell :: "nat \<Rightarrow> (nat \<times> nat) list \<Rightarrow> nat \<times> nat \<Rightarrow> nat \<times> nat" where
  "free_cell cols taken p = (if p \<in> set taken then free_cell cols taken (cell_after cols p) else p)"
  by auto

termination
proof (relation "measure (\<lambda>(cols, taken, p). card {q \<in> set taken. cell_le p q})")
  fix cols taken and p :: "nat \<times> nat"
  assume "p \<in> set taken"
  then have "{q \<in> set taken. cell_le (cell_after cols p) q} \<subset> {q \<in> set taken. cell_le p q}"
    using cell_after_le(1) [of cols p] cell_after_le(2) [of cols p] by (auto simp: cell_le_def)
  then have "card {q \<in> set taken. cell_le (cell_after cols p) q} < card {q \<in> set taken. cell_le p q}"
    by (rule psubset_card_mono [rotated]) simp
  then show "((cols, taken, cell_after cols p), cols, taken, p) \<in> measure (\<lambda>(cols, taken, p). card {q \<in> set taken. cell_le p q})"
    by simp
qed simp

declare free_cell.simps [simp del]

record placed_rack =
  pk_index :: nat
  pk_cell :: "nat \<times> nat"
  pk_pinned :: bool

fun place_posed :: "nat \<Rightarrow> (nat \<times> nat) list \<Rightarrow> (nat \<times> nat \<times> nat) list \<Rightarrow> placed_rack list" where
  "place_posed cols taken [] = []"
| "place_posed cols taken ((i, r, c) # ps) =
     (let p = free_cell cols taken (r, min c cols)
      in \<lparr>pk_index = i, pk_cell = p, pk_pinned = True\<rparr> # place_posed cols (p # taken) ps)"

fun place_rest :: "nat \<Rightarrow> (nat \<times> nat) list \<Rightarrow> nat \<times> nat \<Rightarrow> nat list \<Rightarrow> placed_rack list" where
  "place_rest cols taken f [] = []"
| "place_rest cols taken f (i # is) =
     (let p = free_cell cols taken f in \<lparr>pk_index = i, pk_cell = p, pk_pinned = False\<rparr> # place_rest cols (p # taken) p is)"

definition posed_of :: "string list \<Rightarrow> (nat \<times> nat \<times> nat) list" where
  "posed_of ps = List.map_filter (\<lambda>(i, s). map_option (\<lambda>q. (i, fst q, snd q)) (parseFloorPos s)) (enumerate 0 ps)"

definition rest_of :: "string list \<Rightarrow> nat list" where
  "rest_of ps = map fst (filter (\<lambda>(i, s). parseFloorPos s = None) (enumerate 0 ps))"

definition floor_cols :: "string list \<Rightarrow> nat" where
  "floor_cols ps = foldl (\<lambda>cols (i, r, c). if cols < c then min 16 c else cols) (fst (floorGrid (length ps))) (posed_of ps)"

record floor_plan =
  fp_cols :: nat
  fp_rows :: nat
  fp_place :: "placed_rack list"

text \<open>The list of stored positions of the devices; an unset one is the empty text.\<close>

definition floorLayout :: "string list \<Rightarrow> floor_plan" where
  "floorLayout ps =
     (let cols = floor_cols ps; a = place_posed cols [] (posed_of ps); b = place_rest cols (rev (map pk_cell a)) (1, 1) (rest_of ps)
      in \<lparr>fp_cols = cols, fp_rows = foldl (\<lambda>m p. max m (fst (pk_cell p))) 1 (a @ b), fp_place = a @ b\<rparr>)"

section \<open>Positions in percent\<close>

record cell_box =
  cb_left :: rat
  cb_top :: rat
  cb_w :: rat
  cb_h :: rat

definition row_height :: "nat \<Rightarrow> rat" where "row_height rows = min 17 (round64 (84 / of_nat rows))"

definition floorCellPos :: "nat \<times> nat \<Rightarrow> nat \<Rightarrow> nat \<Rightarrow> cell_box" where
  "floorCellPos cell cols rows =
     (let cw = round64 (90 / of_nat cols); rh = row_height rows in
      \<lparr>cb_left = round64 (5 + round64 ((of_nat (snd cell) - 1) * cw)), cb_top = round64 (8 + round64 ((of_nat (fst cell) - 1) * rh)),
       cb_w = min (round64 (21 / 2)) (round64 (cw - round64 (6 / 5))), cb_h = min 12 (round64 (rh - 3 / 2))\<rparr>)"

section \<open>Cables\<close>

text \<open>The racks of one management network, in the order of the grid; the key is the network.\<close>

definition rx_ipv4 :: rx where
  "rx_ipv4 = rseqs [RBos, rplus is_digit, rlit ''.'', rplus is_digit, rlit ''.'', rplus is_digit, rlit ''.'', rplus is_digit, REos]"

definition net_key :: "string \<Rightarrow> string" where
  "net_key ip = rx_replace (rseqs [rlit ''.'', rplus is_digit, REos]) ''.0/24'' ip"

fun net_add :: "string \<Rightarrow> nat \<Rightarrow> (string \<times> nat list) list \<Rightarrow> (string \<times> nat list) list" where
  "net_add k i [] = [(k, [i])]"
| "net_add k i ((k', is) # gs) = (if k = k' then (k', is @ [i]) # gs else (k', is) # net_add k i gs)"

definition cable_groups :: "string list \<Rightarrow> (string \<times> nat list) list" where
  "cable_groups ips = foldl (\<lambda>gs (i, ip). if rx_test rx_ipv4 ip then net_add (net_key ip) i gs else gs) [] (enumerate 0 ips)"

definition CABLE_PALETTE :: "string list" where
  "CABLE_PALETTE = [''var(--accent)'', ''var(--pos)'', ''var(--accent-deep)'', ''var(--muted)'']"

text \<open>A network with a single rack has no cable but takes a colour.\<close>

definition cables :: "string list \<Rightarrow> (string \<times> string \<times> (nat \<times> nat) list) list" where
  "cables ips =
     List.map_filter (\<lambda>(g, k, is). if length is < 2 then None
       else Some (k, CABLE_PALETTE ! (g mod length CABLE_PALETTE), zip is (tl is))) (enumerate 0 (cable_groups ips))"

section \<open>The viewport\<close>

record viewport =
  vw_s :: rat
  vw_tx :: rat
  vw_ty :: rat

text \<open>Width and height of the stage and of the drawing.\<close>

record stage =
  sg_W :: rat
  sg_H :: rat
  sg_w :: rat
  sg_h :: rat

definition MAX_SCALE :: rat where "MAX_SCALE = 6"
definition FIT_MAX :: rat where "FIT_MAX = round64 (11 / 5)"
definition FIT_READABLE :: rat where "FIT_READABLE = round64 (9 / 10)"
definition FIT_NARROW_W :: rat where "FIT_NARROW_W = 700"

definition fitScale :: "rat \<Rightarrow> rat \<Rightarrow> bool \<Rightarrow> rat" where
  "fitScale raw stageW full = min FIT_MAX (if \<not> full \<and> FIT_NARROW_W \<le> stageW then max raw FIT_READABLE else raw)"

definition inner_w :: "stage \<Rightarrow> rat" where "inner_w g = max 40 (sg_W g - 14 - 56)"
definition inner_h :: "stage \<Rightarrow> rat" where "inner_h g = max 40 (sg_H g - 12 - 30)"

definition raw_scale :: "stage \<Rightarrow> rat" where
  "raw_scale g = min (round64 (inner_w g / sg_w g)) (round64 (inner_h g / sg_h g))"

definition fitView :: "stage \<Rightarrow> bool \<Rightarrow> viewport option" where
  "fitView g full =
     (if sg_W g = 0 \<or> sg_H g = 0 \<or> sg_w g = 0 \<or> sg_h g = 0 then None
      else (let s = fitScale (raw_scale g) (sg_W g) full in Some
        \<lparr>vw_s = s,
         vw_tx = (if inner_h g + 1 < round64 (sg_h g * s) then 38
           else max 14 (round64 (14 + round64 (round64 (inner_w g - round64 (sg_w g * s)) / 2)))),
         vw_ty = max 12 (round64 (12 + round64 (round64 (inner_h g - round64 (sg_h g * s)) / 2)))\<rparr>))"

definition minScale :: "stage \<Rightarrow> rat" where
  "minScale g = (case fitView g False of Some v \<Rightarrow> if vw_s v < 1 / 4 then vw_s v else 1 / 4 | None \<Rightarrow> 1 / 4)"

record view_state =
  vs_view :: "viewport option"
  vs_zoomed :: bool

definition current_view :: "stage \<Rightarrow> view_state \<Rightarrow> viewport option" where
  "current_view g v = (case vs_view v of Some x \<Rightarrow> Some x | None \<Rightarrow> fitView g False)"

definition zoomed_view :: "stage \<Rightarrow> rat \<Rightarrow> rat \<Rightarrow> rat \<Rightarrow> viewport \<Rightarrow> viewport" where
  "zoomed_view g mx my factor v =
     (let ns = max (minScale g) (min MAX_SCALE (round64 (vw_s v * factor)));
          cx = round64 (round64 (mx - vw_tx v) / vw_s v); cy = round64 (round64 (my - vw_ty v) / vw_s v)
      in \<lparr>vw_s = ns, vw_tx = round64 (mx - round64 (cx * ns)), vw_ty = round64 (my - round64 (cy * ns))\<rparr>)"

definition zoomAtPoint :: "stage \<Rightarrow> rat \<Rightarrow> rat \<Rightarrow> rat \<Rightarrow> view_state \<Rightarrow> view_state" where
  "zoomAtPoint g mx my factor v =
     (case current_view g v of None \<Rightarrow> v | Some x \<Rightarrow> \<lparr>vs_view = Some (zoomed_view g mx my factor x), vs_zoomed = True\<rparr>)"

text \<open>The anchor is the middle of the part of the drawing that is on the stage.\<close>

definition zoomCenter :: "stage \<Rightarrow> rat \<Rightarrow> view_state \<Rightarrow> view_state" where
  "zoomCenter g factor v =
     (let mid = (sg_W g / 2, sg_H g / 2);
          (ax, ay) = (case current_view g v of
            None \<Rightarrow> mid
          | Some x \<Rightarrow>
              if sg_w g = 0 \<or> sg_h g = 0 then mid
              else (let ix0 = max 0 (vw_tx x); iy0 = max 0 (vw_ty x);
                        ix1 = min (sg_W g) (round64 (vw_tx x + round64 (sg_w g * vw_s x)));
                        iy1 = min (sg_H g) (round64 (vw_ty x + round64 (sg_h g * vw_s x)))
                    in if ix0 < ix1 \<and> iy0 < iy1 then (round64 (round64 (ix0 + ix1) / 2), round64 (round64 (iy0 + iy1) / 2)) else mid))
      in zoomAtPoint g ax ay factor v)"

definition panBy :: "stage \<Rightarrow> rat \<Rightarrow> rat \<Rightarrow> view_state \<Rightarrow> view_state" where
  "panBy g dx dy v =
     (case current_view g v of None \<Rightarrow> v
      | Some x \<Rightarrow> \<lparr>vs_view = Some (x\<lparr>vw_tx := round64 (vw_tx x + dx), vw_ty := round64 (vw_ty x + dy)\<rparr>), vs_zoomed = True\<rparr>)"

definition resetView :: "stage \<Rightarrow> view_state \<Rightarrow> view_state" where
  "resetView g v = (case fitView g True of Some x \<Rightarrow> \<lparr>vs_view = Some x, vs_zoomed = False\<rparr> | None \<Rightarrow> v\<lparr>vs_zoomed := False\<rparr>)"

definition ensureFit :: "stage \<Rightarrow> view_state \<Rightarrow> view_state" where
  "ensureFit g v =
     (if \<not> vs_zoomed v \<or> vs_view v = None
      then (case fitView g False of Some x \<Rightarrow> v\<lparr>vs_view := Some x\<rparr> | None \<Rightarrow> v) else v)"

definition ZOOM_OUT :: rat where "ZOOM_OUT = round64 (1 / round64 (6 / 5))"
definition ZOOM_IN :: rat where "ZOOM_IN = round64 (6 / 5)"

text \<open>Whether the buttons for zooming out and in are off.\<close>

definition zoom_out_off :: "stage \<Rightarrow> viewport \<Rightarrow> bool" where
  "zoom_out_off g v \<longleftrightarrow> vw_s v \<le> round64 (minScale g + round64 (1 / 1000))"

definition zoom_in_off :: "viewport \<Rightarrow> bool" where
  "zoom_in_off v \<longleftrightarrow> round64 (FIT_MAX - round64 (1 / 1000)) \<le> vw_s v"

section \<open>Gestures of the pointer\<close>

record gesture =
  ge_pressed :: bool
  ge_dragging :: bool
  ge_onBtn :: bool
  ge_movedFar :: bool
  ge_press :: "rat \<times> rat"
  ge_last :: "rat \<times> rat"
  ge_view :: view_state

datatype pointer = PDown bool rat rat | PMove rat rat | PUp | PTimer | PClick | PDouble bool | PWheel rat rat bool

definition drag_to :: "stage \<Rightarrow> rat \<Rightarrow> rat \<Rightarrow> gesture \<Rightarrow> gesture" where
  "drag_to g x y q =
     (case current_view g (ge_view q) of
        None \<Rightarrow> q
      | Some v \<Rightarrow> q\<lparr>ge_view := \<lparr>vs_view = Some (v\<lparr>vw_tx := round64 (vw_tx v + (x - fst (ge_last q))),
            vw_ty := round64 (vw_ty v + (y - snd (ge_last q)))\<rparr>), vs_zoomed = True\<rparr>, ge_last := (x, y)\<rparr>)"

text \<open>The boolean result: the click reaches the handlers behind the guard.\<close>

definition pointer_step :: "stage \<Rightarrow> pointer \<Rightarrow> gesture \<Rightarrow> gesture \<times> bool" where
  "pointer_step g ev q =
     (case ev of
        PDown b x y \<Rightarrow> (q\<lparr>ge_pressed := True, ge_movedFar := False, ge_onBtn := b, ge_dragging := False, ge_press := (x, y), ge_last := (x, y)\<rparr>, False)
      | PMove x y \<Rightarrow>
          if \<not> ge_pressed q \<or> ge_onBtn q then (q, False)
          else if ge_dragging q then (drag_to g x y q, False)
          else if \<bar>x - fst (ge_press q)\<bar> + \<bar>y - snd (ge_press q)\<bar> < 4 then (q, False)
          else (drag_to g x y (q\<lparr>ge_dragging := True, ge_movedFar := True\<rparr>), False)
      | PUp \<Rightarrow> (q\<lparr>ge_pressed := False, ge_dragging := False\<rparr>, False)
      | PTimer \<Rightarrow> (q\<lparr>ge_movedFar := False\<rparr>, False)
      | PClick \<Rightarrow> if ge_movedFar q then (q\<lparr>ge_movedFar := False\<rparr>, False) else (q, True)
      | PDouble b \<Rightarrow> (if b then q else q\<lparr>ge_view := resetView g (ge_view q)\<rparr>, False)
      | PWheel x y up \<Rightarrow> (q\<lparr>ge_view := zoomAtPoint g x y (if up then round64 (28 / 25) else round64 (1 / round64 (28 / 25))) (ge_view q)\<rparr>, False))"

fun pointer_run :: "stage \<Rightarrow> pointer list \<Rightarrow> gesture \<Rightarrow> gesture" where
  "pointer_run g [] q = q"
| "pointer_run g (ev # evs) q = pointer_run g evs (fst (pointer_step g ev q))"

end
