(* ===== verification/FloorSafe.thy ===== *)
theory FloorSafe
  imports ScreenFloor
begin

text \<open>
  The theorems about the floor map and the viewport of the topology screen: no two racks share a cell, every rack is in the
  grid, a stored position is respected, a drag is never a click; and where the screen fails.
\<close>

section \<open>Free cells\<close>

lemma free_cell_free: "free_cell cols taken p \<notin> set taken"
proof (induction cols taken p rule: free_cell.induct)
  case (1 cols taken p)
  then show ?case by (subst free_cell.simps) simp
qed

definition in_grid :: "nat \<Rightarrow> nat \<times> nat \<Rightarrow> bool" where
  "in_grid cols p \<longleftrightarrow> 1 \<le> fst p \<and> 1 \<le> snd p \<and> snd p \<le> cols"

lemma free_cell_grid: "in_grid cols p \<Longrightarrow> in_grid cols (free_cell cols taken p)"
proof (induction cols taken p rule: free_cell.induct)
  case (1 cols taken p)
  have "in_grid cols (cell_after cols p)" using "1.prems" by (auto simp: in_grid_def cell_after_def)
  then show ?case using 1 by (subst free_cell.simps) simp
qed

lemma free_cell_id: "p \<notin> set taken \<Longrightarrow> free_cell cols taken p = p"
  by (simp add: free_cell.simps)

section \<open>The two passes\<close>

lemma place_posed_index: "map pk_index (place_posed cols taken ps) = map fst ps"
  by (induction cols taken ps rule: place_posed.induct) (simp_all add: Let_def)

lemma place_rest_index: "map pk_index (place_rest cols taken f is) = is"
  by (induction cols taken f "is" rule: place_rest.induct) (simp_all add: Let_def)

lemma place_posed_distinct:
  "distinct (map pk_cell (place_posed cols taken ps)) \<and> set (map pk_cell (place_posed cols taken ps)) \<inter> set taken = {}"
  by (induction cols taken ps rule: place_posed.induct) (auto simp: Let_def free_cell_free)

lemma place_rest_distinct:
  "distinct (map pk_cell (place_rest cols taken f is)) \<and> set (map pk_cell (place_rest cols taken f is)) \<inter> set taken = {}"
  by (induction cols taken f "is" rule: place_rest.induct) (auto simp: Let_def free_cell_free)

lemma place_posed_grid:
  "1 \<le> cols \<Longrightarrow> list_all (\<lambda>(i, r, c). 1 \<le> r \<and> 1 \<le> c) ps \<Longrightarrow> list_all (in_grid cols) (map pk_cell (place_posed cols taken ps))"
  by (induction cols taken ps rule: place_posed.induct) (auto simp: Let_def intro!: free_cell_grid, auto simp: in_grid_def)

lemma place_rest_grid: "in_grid cols f \<Longrightarrow> list_all (in_grid cols) (map pk_cell (place_rest cols taken f is))"
  by (induction cols taken f "is" rule: place_rest.induct) (auto simp: Let_def intro: free_cell_grid)

lemma parse_positive: "parseFloorPos s = Some (r, c) \<Longrightarrow> 1 \<le> r \<and> 1 \<le> c"
  by (auto simp: parseFloorPos_def Let_def split: option.splits prod.splits list.splits if_splits)

lemma posed_positive: "list_all (\<lambda>(i, r, c). 1 \<le> r \<and> 1 \<le> c) (posed_of ps)"
  using parse_positive by (fastforce simp: posed_of_def list_all_iff List.map_filter_def)

lemma posed_rest_split:
  "mset (map fst (List.map_filter (\<lambda>(i, s). map_option (\<lambda>q. (i, fst q, snd q)) (parseFloorPos s)) xs))
     + mset (map fst (filter (\<lambda>(i, s). parseFloorPos s = None) xs)) = mset (map fst xs)"
proof (induction xs)
  case (Cons x xs)
  obtain i s where "x = (i, s)" by (cases x)
  then show ?case using Cons.IH by (cases "parseFloorPos s") (simp_all add: map_filter_simps)
qed (simp add: map_filter_simps)

section \<open>The number of columns\<close>

lemma root_up_range: "0 < x \<Longrightarrow> 1 \<le> root_up x" "root_up x \<le> 16"
proof -
  show "root_up x \<le> 16" by (auto simp: root_up_def find_Some_iff split: option.splits)
  show "1 \<le> root_up x" if "0 < x"
    using that by (fastforce simp: root_up_def find_Some_iff split: option.splits intro: Suc_leI gr0I)
qed

lemma grid_cols: "1 \<le> fst (floorGrid n)" "fst (floorGrid n) \<le> 16"
proof -
  have one: "1 \<le> round64 x" if "1 \<le> x" for x using round64_mono [OF that] round64_of_int [of 1] by simp
  have "1 \<le> round64 (of_nat n * round64 (17 / 10))" if "30 < n"
  proof (rule one)
    have "1 \<le> round64 (17 / 10)" by (rule one) simp
    moreover have "(1 :: rat) \<le> of_nat n" using that by simp
    ultimately show "1 \<le> of_nat n * round64 (17 / 10)" using mult_mono [of 1 "of_nat n :: rat" 1 "round64 (17 / 10)"] by simp
  qed
  then have "1 \<le> root_up (round64 (of_nat n * round64 (17 / 10)))" if "30 < n"
    using that root_up_range(1) by force
  then show "1 \<le> fst (floorGrid n)" "fst (floorGrid n) \<le> 16"
    by (auto simp: floorGrid_def FLOOR_COLS_def Let_def root_up_range)
qed

lemma cols_fold: fixes ps :: "(nat \<times> nat \<times> nat) list"
  shows "1 \<le> k \<Longrightarrow> k \<le> 16 \<Longrightarrow> list_all (\<lambda>(i, r, c). 1 \<le> r \<and> 1 \<le> c) ps \<Longrightarrow>
    1 \<le> foldl (\<lambda>cols (i, r, c). if cols < c then min 16 c else cols) k ps \<and> foldl (\<lambda>cols (i, r, c). if cols < c then min 16 c else cols) k ps \<le> 16"
proof (induction ps arbitrary: k)
  case (Cons p ps)
  obtain i r c where p: "p = (i, r, c)" by (cases p)
  have "1 \<le> (if k < c then min 16 c else k)" "(if k < c then min 16 c else k) \<le> 16" using Cons.prems by auto
  from Cons.IH [OF this] show ?case using Cons.prems(3) by (simp add: p)
qed simp

lemma floor_cols_range: "1 \<le> floor_cols ps \<and> floor_cols ps \<le> 16"
  unfolding floor_cols_def by (rule cols_fold [OF grid_cols posed_positive])

lemma rows_fold: "m \<le> foldl (\<lambda>m p. max m (fst (pk_cell p))) m ps \<and> (\<forall>p \<in> set ps. fst (pk_cell p) \<le> foldl (\<lambda>m p. max m (fst (pk_cell p))) m ps)"
proof (induction ps arbitrary: m)
  case (Cons p ps)
  show ?case using Cons.IH [of "max m (fst (pk_cell p))"] by auto
qed simp

text \<open>
  C20. The floor map never stacks two racks: for any list of devices with any stored positions, every device gets one cell, no
  cell is given twice, and every cell lies in the grid, which has at most sixteen columns.
\<close>

theorem floor_one_rack_per_cell:
  "mset (map pk_index (fp_place (floorLayout ps))) = mset [0..<length ps]
   \<and> distinct (map pk_cell (fp_place (floorLayout ps)))
   \<and> list_all (\<lambda>p. in_grid (fp_cols (floorLayout ps)) (pk_cell p) \<and> fst (pk_cell p) \<le> fp_rows (floorLayout ps)) (fp_place (floorLayout ps))
   \<and> fp_cols (floorLayout ps) \<le> 16"
proof -
  let ?c = "floor_cols ps"
  let ?a = "place_posed ?c [] (posed_of ps)"
  let ?b = "place_rest ?c (rev (map pk_cell ?a)) (1, 1) (rest_of ps)"
  have p: "fp_place (floorLayout ps) = ?a @ ?b" "fp_cols (floorLayout ps) = ?c" by (simp_all add: floorLayout_def Let_def)
  have "mset (map pk_index (?a @ ?b)) = mset (map fst (posed_of ps)) + mset (rest_of ps)"
    by (simp only: map_append mset_append place_posed_index place_rest_index)
  also have "\<dots> = mset [0..<length ps]"
    using posed_rest_split [of "enumerate 0 ps"] by (simp add: posed_of_def rest_of_def)
  finally have i: "mset (map pk_index (?a @ ?b)) = mset [0..<length ps]" .
  have d: "distinct (map pk_cell (?a @ ?b))"
    using place_posed_distinct [of ?c "[]" "posed_of ps"] place_rest_distinct [of ?c "rev (map pk_cell ?a)" "(1, 1)" "rest_of ps"] by auto
  have "list_all (in_grid ?c) (map pk_cell (?a @ ?b))"
    using place_posed_grid [OF _ posed_positive] place_rest_grid [of ?c "(1, 1)"] floor_cols_range [of ps] by (simp add: in_grid_def)
  then have g: "list_all (\<lambda>p. in_grid ?c (pk_cell p)) (?a @ ?b)" by (auto simp: list_all_iff)
  have r: "list_all (\<lambda>p. fst (pk_cell p) \<le> fp_rows (floorLayout ps)) (?a @ ?b)"
    using rows_fold [of 1 "?a @ ?b"] by (auto simp: list_all_iff floorLayout_def Let_def)
  show ?thesis unfolding p using i d g r floor_cols_range [of ps] by (auto simp: list_all_iff)
qed

text \<open>Positions that do not collide are respected, as far as the grid has the column.\<close>

lemma pins_respected:
  "distinct (map (\<lambda>(i, r, c). (r, min c cols)) ps) \<Longrightarrow> set (map (\<lambda>(i, r, c). (r, min c cols)) ps) \<inter> set taken = {} \<Longrightarrow>
   map pk_cell (place_posed cols taken ps) = map (\<lambda>(i, r, c). (r, min c cols)) ps"
proof (induction cols taken ps rule: place_posed.induct)
  case (2 cols taken i r c ps)
  have f: "free_cell cols taken (r, min c cols) = (r, min c cols)" using "2.prems" by (intro free_cell_id) auto
  show ?case using "2.IH" [OF refl] "2.prems" by (simp add: f Let_def)
qed simp

section \<open>Gestures\<close>

definition near :: "rat \<Rightarrow> rat \<Rightarrow> rat \<times> rat \<Rightarrow> bool" where
  "near x y m \<longleftrightarrow> \<bar>fst m - x\<bar> + \<bar>snd m - y\<bar> < 4"

lemma drag_to_flags [simp]: "ge_movedFar (drag_to g x y q) = ge_movedFar q" "ge_onBtn (drag_to g x y q) = ge_onBtn q"
  "ge_pressed (drag_to g x y q) = ge_pressed q" "ge_dragging (drag_to g x y q) = ge_dragging q" "ge_press (drag_to g x y q) = ge_press q"
  by (simp_all add: drag_to_def split: option.splits)

lemma moves_flag:
  "ge_pressed q \<Longrightarrow> ge_movedFar q = ge_dragging q \<Longrightarrow> \<not> (ge_onBtn q \<and> ge_dragging q) \<Longrightarrow>
   ge_movedFar (pointer_run g (map (\<lambda>m. PMove (fst m) (snd m)) ms) q)
     \<longleftrightarrow> ge_movedFar q \<or> \<not> ge_onBtn q \<and> \<not> list_all (near (fst (ge_press q)) (snd (ge_press q))) ms"
proof (induction ms arbitrary: q)
  case (Cons m ms)
  show ?case
  proof (cases "ge_onBtn q \<or> \<not> ge_dragging q \<and> near (fst (ge_press q)) (snd (ge_press q)) m")
    case True
    then have "fst (pointer_step g (PMove (fst m) (snd m)) q) = q" using Cons.prems by (auto simp: pointer_step_def near_def)
    then show ?thesis using Cons.IH [OF Cons.prems] True Cons.prems by auto
  next
    case False
    let ?q = "fst (pointer_step g (PMove (fst m) (snd m)) q)"
    have "ge_pressed ?q" "ge_movedFar ?q" "ge_dragging ?q" "\<not> ge_onBtn ?q" "ge_press ?q = ge_press q"
      using False Cons.prems by (auto simp: pointer_step_def near_def)
    then show ?thesis using Cons.IH [of ?q] False Cons.prems by auto
  qed
qed simp

text \<open>
  A drag is never a click, and a click is never lost: after a press, any moves and the release, the click is passed on
  exactly if the press was on a control or the pointer has never been four pixels or more from where it was pressed.
\<close>

theorem drag_is_no_click:
  "snd (pointer_step g PClick (pointer_run g ([PDown b x y] @ map (\<lambda>m. PMove (fst m) (snd m)) ms @ [PUp]) q))
     \<longleftrightarrow> b \<or> list_all (near x y) ms"
proof -
  let ?q = "fst (pointer_step g (PDown b x y) q)"
  have run: "pointer_run g (evs @ evs') q = pointer_run g evs' (pointer_run g evs q)" for evs evs' q
    by (induction evs arbitrary: q) simp_all
  have "ge_movedFar (pointer_run g (map (\<lambda>m. PMove (fst m) (snd m)) ms) ?q) \<longleftrightarrow> \<not> b \<and> \<not> list_all (near x y) ms"
    using moves_flag [of ?q g ms] by (simp add: pointer_step_def)
  then show ?thesis by (auto simp: run pointer_step_def [of g PClick] pointer_step_def [of g PUp])
qed

section \<open>Where the screen fails\<close>

text \<open>
  Zooming out enlarges a large drawing that has just been fitted: on a wide stage the automatic fit is never smaller than
  0.9, so the lower bound of the zoom is a quarter although the whole drawing needs less.
\<close>

definition tall_stage :: stage where
  "tall_stage = \<lparr>sg_W = 1600, sg_H = 900, sg_w = 1434, sg_h = 10000\<rparr>"

lemma zoom_numbers:
  "round64 (858 / 10000) < 9 / 100" "0 \<le> round64 (858 / 10000)" "1 \<le> round64 (1530 / 1434)" "round64 (1 / round64 (6 / 5)) \<le> 1"
  "1 / 4 \<le> round64 (11 / 5)" "1 / 4 \<le> round64 (9 / 10)" "round64 (1 / 4) = 1 / 4" "0 \<le> round64 (1 / round64 (6 / 5))"
  by code_simp+

lemma zoom_out_enlarges:
  "\<exists>v. vs_view (resetView tall_stage \<lparr>vs_view = None, vs_zoomed = False\<rparr>) = Some v
     \<and> vw_s v < 9 / 100 \<and> vw_s (zoomed_view tall_stage 800 450 ZOOM_OUT v) = 1 / 4"
proof -
  let ?s = "round64 (858 / 10000)"
  have raw: "raw_scale tall_stage = ?s"
    using zoom_numbers by (simp add: raw_scale_def inner_w_def inner_h_def tall_stage_def)
  have small: "min FIT_MAX ?s = ?s" using zoom_numbers by (simp add: FIT_MAX_def)
  obtain v where v: "fitView tall_stage True = Some v" "vw_s v = ?s"
    using raw small by (simp add: fitView_def fitScale_def tall_stage_def Let_def)
  have m: "minScale tall_stage = 1 / 4"
    using zoom_numbers by (auto simp: minScale_def fitView_def raw fitScale_def FIT_MAX_def FIT_READABLE_def FIT_NARROW_W_def Let_def tall_stage_def)
  have "?s * ZOOM_OUT \<le> 9 / 100 * 1"
    using zoom_numbers by (intro mult_mono) (simp_all add: ZOOM_OUT_def)
  then have "?s * ZOOM_OUT \<le> 1 / 4" by simp
  then have "round64 (?s * ZOOM_OUT) \<le> 1 / 4" using round64_mono [of "?s * ZOOM_OUT" "1 / 4"] zoom_numbers(7) by simp
  then have "vw_s (zoomed_view tall_stage 800 450 ZOOM_OUT v) = 1 / 4"
    using v(2) by (simp add: zoomed_view_def m Let_def)
  then show ?thesis using v zoom_numbers(1) by (simp add: resetView_def)
qed

text \<open>One rack with a stored row of sixty makes every rack of the map have a negative height.\<close>

lemma far_row_hides_racks:
  "parseFloorPos ''60,1'' = Some (60, 1)" "fp_rows (floorLayout [''60,1'', []]) = 60"
  "cb_h (floorCellPos (1, 1) (fp_cols (floorLayout [''60,1'', []])) (fp_rows (floorLayout [''60,1'', []]))) < 0"
  by code_simp+

text \<open>The button for zooming in is off from 2.2 on, although the scale goes up to 6 by wheel and key.\<close>

lemma zoom_in_off_early:
  "zoom_in_off \<lparr>vw_s = 3, vw_tx = 0, vw_ty = 0\<rparr> \<and> vw_s (zoomed_view tall_stage 0 0 ZOOM_IN \<lparr>vw_s = 3, vw_tx = 0, vw_ty = 0\<rparr>) > 3"
  by code_simp

end
