(* ===== verification/ScreenAlerts.thy ===== *)
theory ScreenAlerts
  imports KpiLog Actions
begin

text \<open>
  The alert and log screen, \<open>src/web/js/screens/incidents.js\<close>, as far as it decides: which of its faces the card view
  shows, how neighbouring alerts are merged, what the buttons for all alerts carry, the cut of a long log, and the tables
  of the CSV export. The facts at the end: merging loses no acknowledgement key, a button for all alerts acts on exactly the
  alerts its label counts, no exported text is a formula, and three columns of the export are always empty.
\<close>

section \<open>Chips and captions\<close>

definition LOG_CAP :: nat where "LOG_CAP = 200"

text \<open>\<open>cap > 0 ? cap : LOG_CAP\<close>; the code calls it without a cap.\<close>

definition capLogRows :: "'a list \<Rightarrow> nat \<Rightarrow> 'a list \<times> nat" where
  "capLogRows rows cap = (let limit = (if 0 < cap then cap else LOG_CAP); omitted = length rows - limit
     in (if omitted \<noteq> 0 then take limit rows else rows, omitted))"

definition all_filter :: "string \<Rightarrow> bool" where "all_filter f \<longleftrightarrow> f = [] \<or> f = ''all''"

definition emptyCardTitle :: "string \<Rightarrow> lfun \<Rightarrow> string" where
  "emptyCardTitle f l = (if \<not> all_filter f then l ''No alerts match this filter.'' ''i pilteoe haedanghaneun gyeongboga eopseumnida.''
     else l ''No active alerts -- all clear'' ''hwalseong gyeongbo eopseum -- jeonche jeongsang'')"

record kpi_chip =
  kc_key :: string
  kc_label :: string
  kc_tone :: string
  kc_value :: nat
  kc_icon :: string

definition chip_card :: "chip \<Rightarrow> kpi_chip" where
  "chip_card f = \<lparr>kc_key = ch_key f, kc_label = ch_label f,
     kc_tone = (if ch_key f = ''critical'' then ''neg'' else if ch_key f = ''warning'' then ''warn'' else if ch_key f = ''info'' then ''info'' else ''mut''),
     kc_value = ch_count f,
     kc_icon = (if ch_key f = ''info'' then ''infoCircle'' else if ch_key f = ''all'' then ''bell'' else ''warningCircle'')\<rparr>"

definition chipCardsFor :: "string \<Rightarrow> chip list \<Rightarrow> chip list \<Rightarrow> kpi_chip list" where
  "chipCardsFor view logFilters filters = map chip_card (if view = ''log'' then logFilters else filters)"

definition chipTone :: "kpi_chip \<Rightarrow> string" where
  "chipTone c = (if kc_key c = ''critical'' \<and> 0 < kc_value c then ''neg'' else ''mut'')"

definition filterKeyForCard :: "string \<Rightarrow> string" where "filterKeyForCard k = (if k = ''total'' then ''all'' else k)"

section \<open>Merging neighbours\<close>

text \<open>The order of strings by code units.\<close>

fun str_lt :: "string \<Rightarrow> string \<Rightarrow> bool" where
  "str_lt x [] = False"
| "str_lt [] (d # ds) = True"
| "str_lt (c # cs) (d # ds) = (code c < code d \<or> c = d \<and> str_lt cs ds)"

record merged =
  mg_rep :: shown_item
  mg_key :: string
  mg_dupCount :: nat
  mg_ackKeys :: "string list"
  mg_acked :: bool

definition row_id :: "'r shown_scheme \<Rightarrow> string" where "row_id r = sor (sh_hostId r) (sh_id r)"

definition dup_key :: "shown_item \<Rightarrow> string" where
  "dup_key r = row_id r @ ''|'' @ sh_sev r @ ''|'' @ sh_msg r @ ''|'' @ sh_ago r"

definition single :: "shown_item \<Rightarrow> merged" where
  "single r = \<lparr>mg_rep = r, mg_key = dup_key r, mg_dupCount = 1, mg_ackKeys = [sh_ackKey r], mg_acked = sh_acked r\<rparr>"

definition join_row :: "shown_item \<Rightarrow> merged \<Rightarrow> merged" where
  "join_row r p = p\<lparr>mg_rep := (if str_lt (sh_time (mg_rep p)) (sh_time r) then r else mg_rep p),
     mg_dupCount := Suc (mg_dupCount p), mg_ackKeys := mg_ackKeys p @ [sh_ackKey r], mg_acked := (mg_acked p \<and> sh_acked r)\<rparr>"

text \<open>The list under construction, its last element first.\<close>

fun merge_row :: "merged list \<Rightarrow> shown_item \<Rightarrow> merged list" where
  "merge_row [] r = [single r]"
| "merge_row (p # ps) r = (if mg_key p = dup_key r then join_row r p # ps else single r # p # ps)"

definition mergeDupAlerts :: "shown_item list \<Rightarrow> merged list" where
  "mergeDupAlerts xs = rev (foldl merge_row [] xs)"

definition rowKey :: "merged \<Rightarrow> string" where
  "rowKey m = (let r = mg_rep m in row_id r @ ''|'' @ sh_sev r @ ''|'' @ sh_time r @ ''|'' @ num_text (mg_dupCount m) @ ''|''
     @ (if mg_acked m then ''a'' else []) @ ''|'' @ (if sh_maintWin r then ''m'' else []))"

definition list_sig :: "merged list \<Rightarrow> string" where "list_sig ms = join ''~'' (map rowKey ms)"

text \<open>The keys the acknowledgement button of a row carries.\<close>

definition row_ackKeys :: "merged \<Rightarrow> string" where
  "row_ackKeys m = join [CHR 0x02] (filter (\<lambda>k. k \<noteq> []) (mg_ackKeys m))"

section \<open>The card view\<close>

definition bulkAckKeys :: "shown_item list \<Rightarrow> bool \<Rightarrow> string" where
  "bulkAckKeys xs acked = join [CHR 0x02] (map sh_ackKey (filter (\<lambda>r. sh_acked r = acked) xs))"

definition visibleCardAlerts :: "shown_item list \<Rightarrow> shown_item list" where
  "visibleCardAlerts xs = filter (\<lambda>r. \<not> sh_fixture r) xs"

record card_list =
  vl_rows :: "merged list"
  vl_unackedN :: nat
  vl_ackedN :: nat
  vl_ackAll :: string
  vl_ackNone :: string
  vl_more :: "nat option"
  vl_less :: bool

datatype card_view = CV_banner string | CV_skeleton | CV_empty string string bool | CV_cards card_list

definition CARD_CAP :: nat where "CARD_CAP = 30"

definition cards_shown :: "bool \<Rightarrow> bool \<Rightarrow> shown_item list \<Rightarrow> shown_item list" where
  "cards_shown isAll expanded xs =
     (if isAll \<and> \<not> expanded
      then (let pri = filter (\<lambda>r. sh_sevTone r = ''neg'' \<or> sh_sevTone r = ''warn'') xs in take CARD_CAP (if pri \<noteq> [] then pri else xs))
      else xs)"

definition renderCardView :: "lfun \<Rightarrow> app_state \<Rightarrow> bool \<Rightarrow> shown_item list \<Rightarrow> card_view" where
  "renderCardView l st expanded incs =
     (let f = s_alertFilter st; xs = visibleCardAlerts incs in
      if s_liveError st \<noteq> [] then CV_banner (l ''Poller unreachable -- cannot load alerts: '' ''polleo yeongyeol silpae -- gyeongboreul bulleool su eopseumnida: '' @ s_liveError st)
      else if s_pollPending st \<and> s_lastPoll st = 0 then CV_skeleton
      else if xs = [] then
        (if s_fleet st = [] then CV_empty (l ''No devices configured'' ''deungnokdoen jangbiga eopseumnida'')
           (l ''Add a supported device to begin monitoring.'' ''jiwondoeneun jangbireul deungnokhamyeon moniteoringeul sijakhal su itseumnida.'') True
         else CV_empty (emptyCardTitle f l)
           (if \<not> all_filter f then l ''Choose another severity filter to review the remaining alerts.'' ''dareun simgakdo pilteoreul seontaekhae nameoji gyeongboreul hwaginhaseyo.''
            else l ''All configured devices are currently clear.'' ''deungnokdoen modeun jangbie hyeonjae hwalseong gyeongboga eopseumnida.'') False)
      else (let isAll = all_filter f; vis = cards_shown isAll expanded xs;
                moreN = (if isAll \<and> \<not> expanded then length xs - length vis else 0); un = length (filter (\<lambda>r. \<not> sh_acked r) xs) in
        CV_cards \<lparr>vl_rows = mergeDupAlerts vis, vl_unackedN = un, vl_ackedN = length xs - un,
          vl_ackAll = bulkAckKeys xs False, vl_ackNone = bulkAckKeys xs True,
          vl_more = (if 0 < moreN then Some (length xs) else None), vl_less = (isAll \<and> expanded)\<rparr>))"

section \<open>The log view\<close>

definition log_sig :: "string \<Rightarrow> string \<Rightarrow> string \<Rightarrow> shown_item list \<Rightarrow> string" where
  "log_sig lang level query xs = lang @ ''|'' @ level @ ''|'' @ query @ ''|''
     @ join '','' (map (\<lambda>r. sh_id r @ ''@'' @ sh_time r @ ''@'' @ (if sh_trap r then ''1'' else ''0'') @ ''@'' @ sh_msg r) xs)"

record log_line =
  ll_row :: string
  ll_time :: string
  ll_host :: string
  ll_tone :: string
  ll_level :: string
  ll_msg :: string
  ll_trap :: bool

definition log_line_of :: "shown_item \<Rightarrow> log_line" where
  "log_line_of r = \<lparr>ll_row = row_id r, ll_time = sor (sh_timeShort r) (sh_time r), ll_host = sh_host r,
     ll_tone = (if sh_sevTone r = ''neg'' then ''is-neg'' else if sh_sevTone r = ''warn'' then ''is-warn'' else ''u-muted''),
     ll_level = sh_level r, ll_msg = sh_msg r, ll_trap = sh_trap r\<rparr>"

text \<open>What the list holds between two renders: the signature and the lines with the number of omitted entries.\<close>

type_synonym log_list = "string \<times> log_line list \<times> nat"

definition renderLogList :: "string \<Rightarrow> string \<Rightarrow> string \<Rightarrow> shown_item list \<Rightarrow> log_list \<Rightarrow> log_list" where
  "renderLogList lang level query xs old =
     (if xs = [] then ([], snd old)
      else (let sg = log_sig lang level query xs in
        if sg = fst old then old
        else (case capLogRows xs 0 of (vis, omitted) \<Rightarrow> (sg, map log_line_of vis, omitted))))"

section \<open>The statistics bar and the CSV export\<close>

definition availBarFrac :: "rat \<Rightarrow> rat \<Rightarrow> jsnum" where
  "availBarFrac a worst = (let down = round64 (100 - worst) in if 0 < down then fl (round64 (100 - a) / down) else Fin 0)"

definition csvSafeCell :: "jsval \<Rightarrow> jsval" where
  "csvSafeCell v = (case v of JStr (c # cs) \<Rightarrow> if c \<in> set ''=+-@'' then JStr (CHR 0x27 # c # cs) else v | _ \<Rightarrow> v)"

datatype export_kind = ExportAlerts | ExportLog | ExportDevices

definition yes :: "bool \<Rightarrow> jsval" where "yes b = JStr (if b then ''Y'' else [])"

text \<open>The rows of the log have no field \<open>kind\<close>, and the rows of the devices none of \<open>cpuNA\<close>, \<open>cpu0\<close>, \<open>memNA\<close>, \<open>mem0\<close>.\<close>

definition export_table :: "export_kind \<Rightarrow> shown_item list \<Rightarrow> shown_item list \<Rightarrow> dev_row list \<Rightarrow> string list \<times> jsval list list" where
  "export_table k as ls rows =
     (case k of
        ExportAlerts \<Rightarrow> ([''host'', ''severity'', ''message'', ''time'', ''acked'', ''maintenance''],
          map (\<lambda>r. [JStr (sh_host r), JStr (sh_sev r), JStr (sh_msg r), JStr (sh_time r), yes (sh_acked r), yes (sh_maintWin r)])
            (filter (\<lambda>r. \<not> sh_fixture r) as))
      | ExportLog \<Rightarrow> ([''time'', ''host'', ''kind'', ''severity'', ''message''],
          map (\<lambda>r. [JStr (sh_time r), JStr (sh_host r), jor Undef (JStr []), JStr (sh_sev r), JStr (sh_msg r)])
            (filter (\<lambda>r. \<not> sh_fixture r) ls))
      | ExportDevices \<Rightarrow> ([''id'', ''label'', ''type'', ''site'', ''status'', ''cpu'', ''mem'', ''availability''],
          map (\<lambda>r. [JStr (dr_id r), JStr (sor (dr_label r) (sr_host r)), JStr (type_key (dr_type r)), JStr (sr_site r), JStr (status_key (sr_status r)),
            if truthy Undef then JStr [] else Undef, if truthy Undef then JStr [] else Undef, JNum (Fin (sr_availN r))]) rows))"

definition exportCsv :: "export_kind \<Rightarrow> shown_item list \<Rightarrow> shown_item list \<Rightarrow> dev_row list \<Rightarrow> string" where
  "exportCsv k as ls rows =
     (case export_table k as ls rows of (hs, body) \<Rightarrow> toCsv (map JStr hs) (map (map csvSafeCell) body))"

section \<open>Facts about merging\<close>

lemma str_lt_irrefl: "\<not> str_lt x x"
  by (induction x) auto

lemma str_lt_trans: "str_lt x y \<Longrightarrow> str_lt y z \<Longrightarrow> str_lt x z"
proof (induction x y arbitrary: z rule: str_lt.induct)
  case (2 d ds)
  then show ?case by (cases z) auto
next
  case (3 c cs d ds)
  then show ?case by (cases z) auto
qed simp

text \<open>What a merged row says of the rows it stands for.\<close>

definition stands_for :: "merged \<Rightarrow> shown_item list \<Rightarrow> bool" where
  "stands_for m g \<longleftrightarrow> mg_rep m \<in> set g \<and> list_all (\<lambda>r. dup_key r = mg_key m) g
     \<and> mg_ackKeys m = map sh_ackKey g \<and> mg_dupCount m = length g \<and> mg_acked m = list_all sh_acked g
     \<and> list_all (\<lambda>r. \<not> str_lt (sh_time (mg_rep m)) (sh_time r)) g"

lemma stands_single: "stands_for (single r) [r]"
  by (simp add: stands_for_def single_def str_lt_irrefl)

lemma stands_join: "stands_for p g \<Longrightarrow> mg_key p = dup_key r \<Longrightarrow> stands_for (join_row r p) (g @ [r])"
  by (auto simp: stands_for_def join_row_def list_all_iff str_lt_irrefl dest: str_lt_trans)

lemma merge_fold:
  "list_all2 stands_for (rev acc) gs \<Longrightarrow> successively (\<lambda>a b. mg_key a \<noteq> mg_key b) (rev acc) \<Longrightarrow>
   \<exists>gs'. list_all2 stands_for (rev (foldl merge_row acc xs)) gs' \<and> concat gs' = concat gs @ xs
     \<and> successively (\<lambda>a b. mg_key a \<noteq> mg_key b) (rev (foldl merge_row acc xs))"
proof (induction xs arbitrary: acc gs)
  case (Cons x xs)
  show ?case
  proof (cases acc)
    case Nil
    then have "list_all2 stands_for (rev (merge_row acc x)) [[x]]" "gs = []" using Cons.prems stands_single by simp_all
    then show ?thesis using Cons.IH [of "merge_row acc x" "[[x]]"] Nil by simp
  next
    case (Cons p ps)
    obtain gs1 g where gs: "gs = gs1 @ [g]" "list_all2 stands_for (rev ps) gs1" "stands_for p g"
      using \<open>list_all2 stands_for (rev acc) gs\<close> Cons by (auto simp: list_all2_append1 list_all2_Cons1)
    show ?thesis
    proof (cases "mg_key p = dup_key x")
      case True
      have j: "mg_key (join_row x p) = mg_key p" by (simp add: join_row_def)
      have "list_all2 stands_for (rev (merge_row acc x)) (gs1 @ [g @ [x]])"
        using gs True Cons by (auto intro: list_all2_appendI stands_join)
      moreover have "successively (\<lambda>a b. mg_key a \<noteq> mg_key b) (rev (merge_row acc x))"
        using Cons.prems(2) True Cons by (simp add: successively_append_iff j)
      ultimately show ?thesis using Cons.IH [of "merge_row acc x" "gs1 @ [g @ [x]]"] gs by simp
    next
      case False
      have "list_all2 stands_for (rev (merge_row acc x)) (gs @ [[x]])"
        using list_all2_appendI [OF Cons.prems(1), of "[single x]" "[[x]]"] stands_single False Cons by simp
      moreover have "successively (\<lambda>a b. mg_key a \<noteq> mg_key b) (rev (merge_row acc x))"
        using Cons.prems(2) False Cons by (simp add: successively_append_iff single_def)
      ultimately show ?thesis using Cons.IH [of "merge_row acc x" "gs @ [[x]]"] by simp
    qed
  qed
qed auto

text \<open>The key separates alerts as long as the bar occurs in messages only; severities and ages are fixed texts, and device ids are host names.\<close>

definition bar_free :: "shown_item \<Rightarrow> bool" where
  "bar_free r \<longleftrightarrow> CHR ''|'' \<notin> set (row_id r) \<union> set (sh_sev r) \<union> set (sh_ago r)"

definition same_alert :: "shown_item \<Rightarrow> shown_item \<Rightarrow> bool" where
  "same_alert a b \<longleftrightarrow> row_id a = row_id b \<and> sh_sev a = sh_sev b \<and> sh_msg a = sh_msg b \<and> sh_ago a = sh_ago b"

lemma first_mark: "c \<notin> set a \<Longrightarrow> c \<notin> set b \<Longrightarrow> a @ c # x = b @ c # y \<longleftrightarrow> a = b \<and> x = y"
proof (induction a arbitrary: b)
  case Nil
  then show ?case by (cases b) auto
next
  case (Cons d a)
  then show ?case by (cases b) auto
qed

lemma last_mark: "c \<notin> set a \<Longrightarrow> c \<notin> set b \<Longrightarrow> x @ c # a = y @ c # b \<longleftrightarrow> x = y \<and> a = b"
proof -
  assume "c \<notin> set a" "c \<notin> set b"
  then have "rev a @ c # rev x = rev b @ c # rev y \<longleftrightarrow> rev a = rev b \<and> rev x = rev y" by (intro first_mark) simp_all
  moreover have "x @ c # a = y @ c # b \<longleftrightarrow> rev (x @ c # a) = rev (y @ c # b)" by (simp only: rev_is_rev_conv)
  ultimately show ?thesis by auto
qed

lemma dup_key_same: "bar_free a \<Longrightarrow> bar_free b \<Longrightarrow> dup_key a = dup_key b \<longleftrightarrow> same_alert a b"
  by (simp add: dup_key_def bar_free_def same_alert_def first_mark last_mark)

lemma stands_runs:
  assumes "list_all2 stands_for ms gs" "successively (\<lambda>a b. mg_key a \<noteq> mg_key b) ms" "list_all (list_all bar_free) gs"
  shows "list_all (\<lambda>g. \<forall>a \<in> set g. \<forall>b \<in> set g. same_alert a b) gs"
    "successively (\<lambda>g g'. \<forall>a \<in> set g. \<forall>b \<in> set g'. \<not> same_alert a b) gs"
proof -
  have len: "length ms = length gs" using assms(1) by (rule list_all2_lengthD)
  have key: "dup_key a = mg_key (ms ! i)" "bar_free a" if "i < length gs" "a \<in> set (gs ! i)" for i a
    using assms(1,3) that len by (auto simp: list_all2_conv_all_nth stands_for_def list_all_iff all_set_conv_all_nth [of gs])
  show "list_all (\<lambda>g. \<forall>a \<in> set g. \<forall>b \<in> set g. same_alert a b) gs"
    unfolding list_all_length using key dup_key_same by metis
  show "successively (\<lambda>g g'. \<forall>a \<in> set g. \<forall>b \<in> set g'. \<not> same_alert a b) gs"
    unfolding successively_conv_nth
  proof (intro allI impI ballI)
    fix i a b assume i: "Suc i < length gs" and a: "a \<in> set (gs ! i)" and b: "b \<in> set (gs ! Suc i)"
    have "mg_key (ms ! i) \<noteq> mg_key (ms ! Suc i)" using assms(2) i len by (simp add: successively_conv_nth)
    then show "\<not> same_alert a b" using key [of i a] key [of "Suc i" b] dup_key_same [of a b] a b i by auto
  qed
qed

text \<open>
  C21. Merging equal neighbours loses no alert: the merged rows cut the list into runs of rows with the same device, severity,
  message and age; each carries the acknowledgement keys of all rows of its run, counts them, is acknowledged only if all of
  them are and shows one with the latest time; and no row of a run equals one of the next in all four (for devices, severities and ages without a vertical bar, which
  separates the parts of the key).
\<close>

theorem merge_loses_nothing:
  assumes "list_all bar_free xs"
  shows "\<exists>gs. concat gs = xs \<and> list_all2 stands_for (mergeDupAlerts xs) gs
     \<and> list_all (\<lambda>g. \<forall>a \<in> set g. \<forall>b \<in> set g. row_id a = row_id b \<and> sh_sev a = sh_sev b \<and> sh_msg a = sh_msg b \<and> sh_ago a = sh_ago b) gs
     \<and> successively (\<lambda>g g'. \<forall>a \<in> set g. \<forall>b \<in> set g'.
          \<not> (row_id a = row_id b \<and> sh_sev a = sh_sev b \<and> sh_msg a = sh_msg b \<and> sh_ago a = sh_ago b)) gs"
proof -
  obtain gs where gs: "concat gs = xs" "list_all2 stands_for (mergeDupAlerts xs) gs" "successively (\<lambda>a b. mg_key a \<noteq> mg_key b) (mergeDupAlerts xs)"
    using merge_fold [of "[]" "[]" xs] by (auto simp: mergeDupAlerts_def)
  then have "list_all (list_all bar_free) gs" using assms by (auto simp: list_all_iff)
  from stands_runs [OF gs(2,3) this] show ?thesis using gs by (auto simp: same_alert_def)
qed

definition wit_alert :: "string \<Rightarrow> string \<Rightarrow> bool \<Rightarrow> shown_item" where
  "wit_alert msg k acked = \<lparr>sh_id = ''ev-01'', sh_hostId = ''ev-01'', sh_host = ''ev-01'', sh_ackKey = k, sh_acked = acked, sh_maintWin = False,
     sh_sev = ''critical'', sh_sevLabel = ''Critical'', sh_sevTone = ''neg'', sh_sevIcon = ''warningCircle'', sh_level = ''ERROR'', sh_msg = msg,
     sh_msgLocal = msg, sh_time = ''2026-07-16'', sh_timeShort = ''07-16'', sh_ago = ''2d ago'', sh_stLabel = [], sh_ageDays = None, sh_stale = False,
     sh_trap = False, sh_fixture = False, sw_flap = False, sw_flapCount = 0, sw_members = []\<rparr>"

theorem merge_loses_nothing_witness:
  "map mg_ackKeys (mergeDupAlerts [wit_alert ''disk|1'' ''a'' True, wit_alert ''disk|1'' ''b'' False, wit_alert ''fan'' ''c'' True]) = [[''a'', ''b''], [''c'']]
   \<and> concat (map mg_ackKeys (mergeDupAlerts [wit_alert ''disk|1'' ''a'' True, wit_alert ''disk|1'' ''b'' False, wit_alert ''fan'' ''c'' True]))
     = [''a'', ''b'', ''c'']"
proof -
  let ?xs = "[wit_alert ''disk|1'' ''a'' True, wit_alert ''disk|1'' ''b'' False, wit_alert ''fan'' ''c'' True]"
  have "list_all bar_free ?xs" by (simp add: bar_free_def wit_alert_def row_id_def sor_def)
  then obtain gs where gs: "concat gs = ?xs" "list_all2 stands_for (mergeDupAlerts ?xs) gs" using merge_loses_nothing by blast
  have "concat (map mg_ackKeys ms) = map sh_ackKey (concat gs)" if "list_all2 stands_for ms gs" for ms gs
    using that by (induction rule: list_all2_induct) (simp_all add: stands_for_def)
  from this [OF gs(2)] have "concat (map mg_ackKeys (mergeDupAlerts ?xs)) = [''a'', ''b'', ''c'']" unfolding gs(1) by (simp add: wit_alert_def)
  moreover have "map mg_ackKeys (mergeDupAlerts ?xs) = [[''a'', ''b''], [''c'']]"
    by (simp add: mergeDupAlerts_def single_def join_row_def dup_key_def wit_alert_def row_id_def sor_def)
  ultimately show ?thesis by simp
qed

section \<open>Facts about the buttons for all alerts\<close>

text \<open>
  A button for all alerts acts on what its label counts: when the card view shows cards, the keys that the action reads
  from the button for acknowledging are those of the visible unacknowledged alerts in order, as many as the label says, and
  the keys of the other button are those of the acknowledged ones.
\<close>

theorem bulk_acts_on_label:
  assumes "renderCardView l st expanded incs = CV_cards v"
    and "list_all (\<lambda>r. sh_ackKey r \<noteq> [] \<and> CHR 0x02 \<notin> set (sh_ackKey r)) incs"
  shows "ack_keys (vl_ackAll v) = map sh_ackKey (filter (\<lambda>r. \<not> sh_fixture r \<and> \<not> sh_acked r) incs)
    \<and> length (ack_keys (vl_ackAll v)) = vl_unackedN v
    \<and> ack_keys (vl_ackNone v) = map sh_ackKey (filter (\<lambda>r. \<not> sh_fixture r \<and> sh_acked r) incs)
    \<and> length (ack_keys (vl_ackNone v)) = vl_ackedN v"
proof -
  let ?xs = "visibleCardAlerts incs"
  have k: "ack_keys (bulkAckKeys xs b) = map sh_ackKey (filter (\<lambda>r. sh_acked r = b) xs)"
    if "list_all (\<lambda>r. sh_ackKey r \<noteq> [] \<and> CHR 0x02 \<notin> set (sh_ackKey r)) xs" for xs b
  proof (cases "filter (\<lambda>r. sh_acked r = b) xs = []")
    case True
    then show ?thesis by (simp add: ack_keys_def bulkAckKeys_def)
  next
    case False
    then have "split_on (CHR 0x02) (bulkAckKeys xs b) = map sh_ackKey (filter (\<lambda>r. sh_acked r = b) xs)"
      unfolding bulkAckKeys_def using that by (intro split_on_join) (auto simp: list_all_iff)
    then show ?thesis using that by (simp add: ack_keys_def filter_id_conv list_all_iff)
  qed
  have "list_all (\<lambda>r. sh_ackKey r \<noteq> [] \<and> CHR 0x02 \<notin> set (sh_ackKey r)) ?xs"
    using assms(2) by (auto simp: visibleCardAlerts_def list_all_iff)
  note k = k [OF this]
  have v: "vl_ackAll v = bulkAckKeys ?xs False" "vl_ackNone v = bulkAckKeys ?xs True"
    "vl_unackedN v = length (filter (\<lambda>r. \<not> sh_acked r) ?xs)" "vl_ackedN v = length ?xs - length (filter (\<lambda>r. \<not> sh_acked r) ?xs)"
    using assms(1) by (auto simp: renderCardView_def Let_def split: if_splits)
  have n: "length ?xs - length (filter (\<lambda>r. \<not> sh_acked r) ?xs) = length (filter sh_acked ?xs)"
    using sum_length_filter_compl [of sh_acked ?xs] by simp
  show ?thesis unfolding v k n by (simp add: visibleCardAlerts_def conj_commute)
qed

definition wit_item :: "string \<Rightarrow> bool \<Rightarrow> shown_item" where
  "wit_item k acked = \<lparr>sh_id = ''ev-01'', sh_hostId = ''ev-01'', sh_host = ''ev-01'', sh_ackKey = k, sh_acked = acked, sh_maintWin = False,
     sh_sev = ''critical'', sh_sevLabel = ''Critical'', sh_sevTone = ''neg'', sh_sevIcon = ''warningCircle'', sh_level = ''ERROR'',
     sh_msg = ''disk'', sh_msgLocal = ''disk'', sh_time = ''2026-07-16 09:00:00'', sh_timeShort = ''09:00'', sh_ago = ''1h ago'',
     sh_stLabel = ''Active'', sh_ageDays = Some 0, sh_stale = False, sh_trap = False, sh_fixture = False, sw_flap = False,
     sw_flapCount = 0, sw_members = []\<rparr>"

theorem bulk_acts_on_label_witness:
  "\<exists>v. renderCardView (makeL ''en'') (initialState\<lparr>s_pollPending := False\<rparr>) False [wit_item ''k1'' False, wit_item ''k2'' True, wit_item ''k3'' False]
       = CV_cards v \<and> ack_keys (vl_ackAll v) = [''k1'', ''k3''] \<and> vl_unackedN v = 2 \<and> ack_keys (vl_ackNone v) = [''k2'']"
proof -
  let ?xs = "[wit_item ''k1'' False, wit_item ''k2'' True, wit_item ''k3'' False]"
  obtain v where v: "renderCardView (makeL ''en'') (initialState\<lparr>s_pollPending := False\<rparr>) False ?xs = CV_cards v"
    by (simp add: renderCardView_def visibleCardAlerts_def wit_item_def initialState_def Let_def)
  have t: "list_all (\<lambda>r. sh_ackKey r \<noteq> [] \<and> CHR 0x02 \<notin> set (sh_ackKey r)) ?xs" by (simp add: wit_item_def)
  note bulk = bulk_acts_on_label [OF v t]
  have k: "ack_keys (vl_ackAll v) = [''k1'', ''k3'']" "ack_keys (vl_ackNone v) = [''k2'']" using bulk by (simp_all add: wit_item_def)
  have n: "length (ack_keys (vl_ackAll v)) = vl_unackedN v" using bulk by blast
  have "vl_unackedN v = 2" using n unfolding k by simp
  then show ?thesis using v k by blast
qed

section \<open>Facts about the log and the export\<close>

lemma cap_keeps_newest:
  "capLogRows rows cap = (vis, omitted) \<Longrightarrow> vis = take (length rows - omitted) rows \<and> length vis + omitted = length rows
     \<and> length vis \<le> (if 0 < cap then cap else LOG_CAP)"
  by (auto simp: capLogRows_def Let_def split: if_splits)

definition formula_free :: "jsval \<Rightarrow> bool" where
  "formula_free v = (case v of JStr (c # cs) \<Rightarrow> c \<notin> set ''=+-@'' | _ \<Rightarrow> True)"

definition starts_formula :: "jsval \<Rightarrow> bool" where
  "starts_formula v \<longleftrightarrow> (\<exists>c cs. v = JStr (c # cs) \<and> c \<in> set ''=+-@'')"

lemma safe_cell: "formula_free (csvSafeCell v)"
  by (auto simp: formula_free_def csvSafeCell_def split: jsval.splits list.splits)

text \<open>No text of an exported table is a formula, and a cell that is not changed by the guard comes out as it is.\<close>

lemma export_has_no_formula: "list_all (list_all formula_free) (map (map csvSafeCell) (snd (export_table k as ls rows)))"
  by (auto simp: list_all_iff safe_cell)

lemma safe_cell_id: "formula_free v \<Longrightarrow> csvSafeCell v = v"
  by (auto simp: formula_free_def csvSafeCell_def split: jsval.splits list.splits)

lemma export_shape: "fst (export_table k as ls rows) \<noteq> [] \<and> list_all (\<lambda>r. r \<noteq> []) (snd (export_table k as ls rows))"
  by (cases k) (auto simp: export_table_def list_all_iff)

text \<open>
  C33. An exported CSV loses nothing: reading the text of the file (all of it behind the byte order mark) back gives the header and every row of the table, cell by cell, whatever quotes, commas and line ends the
  cells contain, but for the guard against formulas: a text that begins with an equals sign, plus, minus or at sign reads back with a single quote in front, and every other cell as it is.
\<close>

theorem export_reads_back:
  "csv_parse (exportCsv k as ls rows)
     = Some (fst (export_table k as ls rows) # map (map (\<lambda>v. str_nn (csvSafeCell v))) (snd (export_table k as ls rows)))
   \<and> str_nn (csvSafeCell v) = (if starts_formula v then CHR 0x27 # str_nn v else str_nn v)"
proof -
  obtain hs body where t: "export_table k as ls rows = (hs, body)" by (cases "export_table k as ls rows")
  have "hs \<noteq> []" "list_all (\<lambda>r. r \<noteq> []) body" using export_shape [of k as ls rows] by (simp_all add: t)
  then have "map JStr hs \<noteq> []" "list_all (\<lambda>r. r \<noteq> []) (map (map csvSafeCell) body)" by (simp_all add: list_all_iff)
  from toCsv_roundtrip [OF this] show ?thesis
    by (auto simp: exportCsv_def t comp_def str_nn_def nullish_def csvSafeCell_def starts_formula_def split: jsval.splits list.splits)
qed

text \<open>Three columns of the export are empty whatever the fleet reports: the kind of a log entry, and processor and memory of a device.\<close>

lemma export_empty_columns:
  "r \<in> set (snd (export_table ExportLog as ls rows)) \<Longrightarrow> str_nn (r ! 2) = []"
  "r \<in> set (snd (export_table ExportDevices as ls rows)) \<Longrightarrow> str_nn (r ! 5) = [] \<and> str_nn (r ! 6) = []"
  by (auto simp: export_table_def str_nn_def nullish_def jor_def)

text \<open>
  The list of the log is not made again when the day changes: the signature does not read the short times, so entries of
  yesterday keep the bare clock time of today.
\<close>

lemma log_keeps_old_times:
  assumes "xs \<noteq> []" "renderLogList lang level query xs old = new"
  shows "renderLogList lang level query (map (\<lambda>r. r\<lparr>sh_timeShort := f (sh_time r)\<rparr>) xs) new = new"
  using assms by (auto simp: renderLogList_def log_sig_def comp_def Let_def split: prod.splits if_splits)

end
