(* ===== verification/ScreenManage.thy ===== *)
theory ScreenManage
  imports ScreenControl ScreenAlerts Cluster
begin

text \<open>
  The device management screen, \<open>src/web/js/screens/manage.js\<close>: its tables and pure helpers, the list of devices, the form
  and what each page of it shows, the checks of the form and the request it becomes. The machine around them is in the
  theory \<open>ManageForm\<close>, what they guarantee in \<open>ManageSafe\<close>.

  A form is an object with data properties that are typed or copied (\<open>fm_data\<close>, an object of the value universe, in its
  order of insertion) and with the bookkeeping of the dialog, which the record names. A property a form of some mode does
  not have is falsy in the source and has a falsy value here.
\<close>

section \<open>Tables\<close>

definition isSampleState :: "app_state \<Rightarrow> bool" where
  "isSampleState st \<longleftrightarrow> s_sampleMode st \<or> s_demoMode st \<or> s_source st = ''sample'' \<or> s_source st = ''demo''"

definition typeDefs :: "lfun \<Rightarrow> (string \<times> string) list" where
  "typeDefs l = [(''EV'', ''everRun''), (''EDGE'', ''ztC Edge''), (''END'', ''ztC Endurance''), (''FTS'', ''ftServer''),
     (''SRV'', l ''General server'' ''ilban seobeo''), (''PLC'', ''PLC''),
     (''PC'', l ''PC / Workstation'' ''PC / wokeuseuteisyeon''), (''NAS'', ''Synology NAS''),
     (''WIN'', l ''Windows Server'' ''Windows seobeo''), (''PI'', ''Raspberry Pi''),
     (''PRN'', l ''Printer'' ''peurinteo'')]"

definition platName :: "string \<Rightarrow> lfun \<Rightarrow> string" where
  "platName t l = (case map_of (typeDefs l) t of Some n \<Rightarrow> n | None \<Rightarrow> ''everRun'')"

definition isFTType :: "string \<Rightarrow> bool" where "isFTType t \<longleftrightarrow> t \<in> {''EV'', ''EDGE'', ''END'', ''FTS''}"

definition EDIT_FIELDS :: "string list" where
  "EDIT_FIELDS = [''label'', ''company'', ''factory'', ''site'', ''asset_tag'', ''floor_pos'']"

definition KEY_PREFIX :: "string \<Rightarrow> string" where
  "KEY_PREFIX t = (case map_of [(''EV'', ''ev''), (''EDGE'', ''edge''), (''END'', ''end''), (''FTS'', ''fts''), (''SRV'', ''srv''),
     (''PLC'', ''plc''), (''PC'', ''pc''), (''NAS'', ''nas''), (''WIN'', ''win''), (''PI'', ''pi''), (''PRN'', ''prn'')] t of
     Some p \<Rightarrow> p | None \<Rightarrow> ''dev'')"

text \<open>A credential the server cannot do without: its field, whether it is a password, the message when it is empty.\<close>

type_synonym req_cred = "string \<times> bool \<times> string \<times> string"

definition reqCredFields :: "string \<Rightarrow> string \<Rightarrow> req_cred list" where
  "reqCredFields t platform =
     (if isFTType t then [(''admin_user'', False, ''AC admin user is required'', ''AC gwallija IDneun pilsuimnida''),
        (''admin_pass'', True, ''AC password is required'', ''AC bimilbeonhoneun pilsuimnida'')] else [])
   @ (if t = ''WIN'' then [(''admin_user'', False, ''Windows admin user is required'', ''Windows gwallija IDneun pilsuimnida''),
        (''admin_pass'', True, ''Windows password is required'', ''Windows bimilbeonhoneun pilsuimnida'')] else [])
   @ (if t = ''PI'' then [(''admin_user'', False, ''SSH user is required'', ''SSH sayongjaneun pilsuimnida''),
        (''root_pass'', True, ''SSH password is required'', ''SSH bimilbeonhoneun pilsuimnida'')] else [])
   @ (if t = ''SRV'' \<and> platform = ''proxmox'' then [(''admin_user'', False, ''PVE user is required'', ''PVE gyejeongeun pilsuimnida''),
        (''admin_pass'', True, ''PVE password is required'', ''PVE bimilbeonhoneun pilsuimnida'')] else [])
   @ (if t = ''SRV'' \<and> (platform = ''redfish'' \<or> platform = ''both'')
      then [(''bmc_ip'', False, ''BMC / iLO IP is required'', ''BMC / iLO IPneun pilsuimnida'')] else [])
   @ (if t = ''NAS'' \<or> t = ''SRV'' \<and> platform = []
      then [(''community'', False, ''SNMP community is required'', ''SNMP keomyunitineun pilsuimnida'')] else [])"

section \<open>Process variables\<close>

text \<open>
  One token \<open>Name=Label(unit)\<close>. The pattern takes the name up to the first equals sign and the label up to the first
  parenthesis, which must be closed at the very end; the spaces it leaves to the groups are trimmed afterwards.
\<close>

definition parse_tag :: "string \<Rightarrow> (string \<times> string \<times> string) option" where
  "parse_tag tok =
     (let nm = takeWhile (\<lambda>c. c \<noteq> CHR ''='') tok in
      if nm = [] then None
      else case dropWhile (\<lambda>c. c \<noteq> CHR ''='') tok of
        [] \<Rightarrow> Some (trim nm, [], [])
      | _ # a \<Rightarrow> (let lab = takeWhile (\<lambda>c. c \<noteq> CHR ''('') a in
          case dropWhile (\<lambda>c. c \<noteq> CHR ''('') a of
            [] \<Rightarrow> Some (trim nm, trim lab, [])
          | _ # u \<Rightarrow> if u \<noteq> [] \<and> last u = CHR '')'' \<and> CHR '')'' \<notin> set (butlast u)
              then Some (trim nm, trim lab, trim (butlast u)) else None))"

definition parseTags :: "string \<Rightarrow> (string \<times> string \<times> string) list" where
  "parseTags s = filter (\<lambda>t. fst t \<noteq> []) (List.map_filter parse_tag (filter (\<lambda>t. t \<noteq> []) (map trim (split_on (CHR '','') s))))"

text \<open>How the edit form writes the variables of a controller.\<close>

definition tag_text :: "jsval \<Rightarrow> string" where
  "tag_text t = to_str (jget t ''name'')
     @ (if truthy (jget t ''label'') then ''='' @ to_str (jget t ''label'') else [])
     @ (if truthy (jget t ''unit'') then ''('' @ to_str (jget t ''unit'') @ '')'' else [])"

definition tags_text_of :: "jsval \<Rightarrow> string" where
  "tags_text_of plc = join '', '' (map tag_text (arr_of (jget plc ''procVars'')))"

section \<open>Deleting\<close>

definition key_of_device :: "string \<Rightarrow> string \<Rightarrow> bool" where
  "key_of_device i k \<longleftrightarrow> k = i \<or> starts_with (i @ [CHR 0x01]) k"

record del_impact =
  im_target :: string
  im_acks :: nat
  im_maint :: bool
  im_note :: bool

definition deleteImpact :: "app_state \<Rightarrow> string \<Rightarrow> del_impact" where
  "deleteImpact st i = \<lparr>im_target = i,
     im_acks = length (filter (key_of_device i) (own_keys (obj_copy (s_ackedAlerts st)))),
     im_maint = truthy (jget (obj_copy (s_maint st)) i),
     im_note = truthy (jget (obj_copy (s_notes st)) i)\<rparr>"

section \<open>The form\<close>

record mform =
  fm_mode :: string
  fm_origKey :: string
  fm_data :: jsval
  fm_rev :: nat
  fm_vms :: "jsval list"
  fm_impact :: "del_impact option"
  fm_operator :: string
  fm_showPw :: "string list"
  fm_err :: jsval
  fm_fieldErrors :: "(string \<times> string) list"
  fm_tab :: string
  fm_testing :: bool
  fm_testResult :: jsval
  fm_testErr :: jsval
  fm_busy :: bool

text \<open>\<open>String(f[k] || '')\<close>, and the assignment.\<close>

definition ftext :: "mform \<Rightarrow> string \<Rightarrow> string" where "ftext f k = str_or (jget (fm_data f) k)"
definition fput :: "string \<Rightarrow> jsval \<Rightarrow> mform \<Rightarrow> mform" where "fput k v f = f\<lparr>fm_data := jput k v (fm_data f)\<rparr>"

definition isEditField :: "mform \<Rightarrow> string \<Rightarrow> bool" where
  "isEditField f k \<longleftrightarrow> k \<in> set EDIT_FIELDS \<or> k = ''vendor'' \<and> \<not> isFTType (ftext f ''type'')"

definition empty_vm :: jsval where "empty_vm = JObj [(''name'', JStr []), (''ip'', JStr [])]"

definition form_data :: "(string \<times> string) list \<Rightarrow> jsval" where "form_data ps = JObj (map (\<lambda>p. (fst p, JStr (snd p))) ps)"

definition emptyForm :: mform where
  "emptyForm = \<lparr>fm_mode = ''add'', fm_origKey = [],
     fm_data = form_data [(''key'', []), (''label'', []), (''type'', ''EV''), (''company'', []), (''factory'', []), (''site'', ''LAN''), (''mgmt'', []),
       (''node0'', []), (''node1'', []), (''node0_user'', ''root''), (''node0_pass'', []), (''node1_user'', ''root''), (''node1_pass'', []),
       (''admin_user'', ''admin''), (''admin_pass'', []), (''community'', ''public''), (''root_pass'', []),
       (''vendor'', []), (''bmc_ip'', []), (''model'', []), (''asset_tag'', []), (''floor_pos'', []), (''api'', []), (''tags_text'', []),
       (''win_user'', []), (''win_pass'', [])],
     fm_rev = 0, fm_vms = [empty_vm], fm_impact = None, fm_operator = [], fm_showPw = [], fm_err = Null, fm_fieldErrors = [],
     fm_tab = ''basic'', fm_testing = False, fm_testResult = Null, fm_testErr = Null, fm_busy = False\<rparr>"

definition set_texts :: "(string \<times> string) list \<Rightarrow> mform \<Rightarrow> mform" where
  "set_texts ps f = foldl (\<lambda>g p. fput (fst p) (JStr (snd p)) g) f ps"

definition vm_row_of :: "jsval \<Rightarrow> jsval" where
  "vm_row_of v = JObj [(''name'', jor (jget v ''name'') (JStr [])), (''ip'', jor (jget v ''ip'') (JStr []))]"

text \<open>
  The form of \<open>openEdit\<close>. A value that is no text (an address that came as a number) is written as the text the form shows.
  \<open>m.api\<close> is a property no normalised device has, so the transport is always the empty text.
\<close>

definition edit_form :: "device \<Rightarrow> mform" where
  "edit_form dev =
     (let m = d_meta dev; nodes = map (\<lambda>x. str_or (jget x ''ip'')) (m_nodes m); vms = map vm_row_of (m_vmList m);
          nd = (\<lambda>i. if i < length nodes then nodes ! i else []) in
      (set_texts [(''key'', d_id dev), (''label'', sor (m_label m) (d_host dev)), (''type'', type_key (d_type dev)),
         (''company'', m_company m), (''factory'', m_factory m), (''site'', if d_site dev = DASH then [] else d_site dev),
         (''mgmt'', m_mgmt m), (''node0'', nd 0), (''node1'', nd 1), (''platform'', m_platform m),
         (''api'', []),
         (''vendor'', m_vendor m), (''bmc_ip'', str_or (jget (m_bmc m) ''ip'')), (''model'', str_or (jget (m_plc m) ''model'')),
         (''asset_tag'', m_assetTag m), (''floor_pos'', m_floorPos m),
         (''community'', []), (''admin_user'', []), (''node0_user'', []), (''node1_user'', []), (''win_user'', []),
         (''admin_pass'', []), (''root_pass'', []), (''win_pass'', []), (''node0_pass'', []), (''node1_pass'', []),
         (''tags_text'', tags_text_of (m_plc m))] emptyForm)
      \<lparr>fm_mode := ''edit'', fm_origKey := d_id dev, fm_vms := (if vms \<noteq> [] then vms else [empty_vm]), fm_tab := ''basic''\<rparr>)"

definition delete_form :: "string \<Rightarrow> app_state \<Rightarrow> device \<Rightarrow> mform" where
  "delete_form operator st dev = emptyForm\<lparr>fm_mode := ''delete'', fm_origKey := d_id dev,
     fm_data := form_data [(''label'', sor (m_label (d_meta dev)) (d_host dev)), (''delete_reason'', []), (''delete_phrase'', [])],
     fm_vms := [], fm_impact := Some (deleteImpact st (d_id dev)), fm_operator := sor operator ''admin'', fm_tab := []\<rparr>"

section \<open>Checks\<close>

text \<open>A failed check: the field and the message.\<close>

type_synonym issue = "string \<times> string"

definition validateDeleteConfirmation :: "lfun \<Rightarrow> mform \<Rightarrow> issue option" where
  "validateDeleteConfirmation l f =
     (let reason = trim (ftext f ''delete_reason'') in
      if reason = [] then Some (''delete_reason'', l ''Enter a reason.'' ''sayureul imnyeokhaseyo.'')
      else if 500 < length reason then Some (''delete_reason'', l ''Use 500 characters or fewer.'' ''sayuneun 500ja iharo imnyeokhaseyo.'')
      else if trim (ftext f ''delete_phrase'') \<noteq> fm_origKey f
      then Some (''delete_phrase'', l ''Type the exact device ID to confirm.'' ''hwagineul wihae jangbi IDreul jeonghwaki imnyeokhaseyo.'')
      else None)"

definition cred_empty :: "mform \<Rightarrow> req_cred \<Rightarrow> bool" where
  "cred_empty f c = (case c of (k, pw, en, kr) \<Rightarrow> (if pw then ftext f k else trim (ftext f k)) = [])"

definition reqCredIssue :: "lfun \<Rightarrow> mform \<Rightarrow> issue option" where
  "reqCredIssue l f =
     (if fm_mode f = ''edit'' then None
      else case find (cred_empty f) (reqCredFields (ftext f ''type'') (ftext f ''platform'')) of
        None \<Rightarrow> None
      | Some (k, pw, en, kr) \<Rightarrow> Some (k, l en kr))"

text \<open>\<open>/^\d{1,3}\s*[,\-]\s*\d{1,3}$/\<close>\<close>

definition rx_floor :: rx where
  "rx_floor = rseqs [RBos, rdig, ropt rdig, ropt rdig, RStar is_space, rone '',-'', RStar is_space, rdig, ropt rdig, ropt rdig, REos]"

definition floor_ok :: "string \<Rightarrow> bool" where "floor_ok fp \<longleftrightarrow> fp = [] \<or> rx_test rx_floor fp"

definition alnum_lower :: "char \<Rightarrow> bool" where "alnum_lower c \<longleftrightarrow> is_digit c \<or> is_lower c"

text \<open>\<open>replace(/[^a-z0-9]+/g, '-')\<close>; the flag tells that the last character read was one of a run.\<close>

fun dash_runs :: "bool \<Rightarrow> string \<Rightarrow> string" where
  "dash_runs b [] = []"
| "dash_runs b (c # cs) = (if alnum_lower c then c # dash_runs False cs else if b then dash_runs True cs else CHR ''-'' # dash_runs True cs)"

definition strip_dashes :: "string \<Rightarrow> string" where
  "strip_dashes s = rev (dropWhile (\<lambda>c. c = CHR ''-'') (rev (dropWhile (\<lambda>c. c = CHR ''-'') s)))"

definition slug_of :: "string \<Rightarrow> string" where "slug_of s = strip_dashes (dash_runs False (lower (trim s)))"

definition autoKey :: "mform \<Rightarrow> mform" where
  "autoKey f = (let slug = slug_of (ftext f ''mgmt'') in
     fput ''key'' (JStr (if slug \<noteq> [] then KEY_PREFIX (ftext f ''type'') @ ''-'' @ slug else [])) f)"

text \<open>What \<open>submit\<close> checks before and after it derives the key.\<close>

definition form_issue :: "lfun \<Rightarrow> mform \<Rightarrow> issue option" where
  "form_issue l f =
     (if fm_mode f = ''add'' \<and> trim (ftext f ''mgmt'') = [] then Some (''mgmt'', l ''Management IP is required'' ''gwalli IPneun pilsuimnida'')
      else if trim (ftext f ''label'') = [] then Some (''label'', l ''Device name is required'' ''jangbi ireumeun pilsuimnida'')
      else case reqCredIssue l f of Some i \<Rightarrow> Some i
      | None \<Rightarrow>
        if \<not> floor_ok (trim (ftext f ''floor_pos''))
        then Some (''floor_pos'', l ''Floor position format: row,col (e.g. 1,3)'' ''peulloeo wichi hyeongsik: haeng,yeol (ye: 1,3)'')
        else None)"

definition key_issue :: "lfun \<Rightarrow> device list \<Rightarrow> mform \<Rightarrow> issue option" where
  "key_issue l fleet f =
     (if fm_mode f = ''add'' \<and> trim (ftext f ''key'') = []
      then Some (''mgmt'', l ''Management IP/hostname must contain letters or digits (device key is derived from it)''
        ''gwalli IP.hoseuteumyeonge yeongmun ttoneun sutjaga isseoya hamnida(jangbi sikbyeoljaga yeogiseo mandeureojimnida)'')
      else if fm_mode f = ''add'' \<and> ftext f ''key'' \<in> d_id ` set fleet
      then Some (''mgmt'', l ''Duplicate key'' ''imi jonjaehaneun sikbyeoljaimnida'')
      else None)"

text \<open>The checks of a step of the wizard.\<close>

definition next_issue :: "lfun \<Rightarrow> nat \<Rightarrow> mform \<Rightarrow> issue option" where
  "next_issue l step f =
     (if step = 0 \<and> trim (ftext f ''label'') = [] then Some (''label'', l ''Device name is required'' ''jangbi ireumeun pilsuimnida'')
      else if step = 1 \<and> trim (ftext f ''mgmt'') = [] then Some (''mgmt'', l ''Management IP is required'' ''gwalli IPneun pilsuimnida'')
      else if step = 2 then reqCredIssue l f else None)"

section \<open>The request\<close>

definition edit_keys :: "mform \<Rightarrow> string list" where
  "edit_keys f = EDIT_FIELDS @ (if isFTType (ftext f ''type'') then [] else [''vendor''])"

definition vm_ips :: "jsval list \<Rightarrow> jsval list" where
  "vm_ips vms = List.map_filter (\<lambda>v. let ip = trim (str_or (jget v ''ip'')) in
     if ip = [] then None else Some (JObj [(''name'', JStr (trim (str_or (jget v ''name'')))), (''ip'', JStr ip)])) vms"

definition tag_val :: "string \<times> string \<times> string \<Rightarrow> jsval" where
  "tag_val t = JObj [(''name'', JStr (fst t)), (''label'', JStr (fst (snd t))), (''unit'', JStr (snd (snd t)))]"

definition PASSWORDS :: "string list" where
  "PASSWORDS = [''node0_pass'', ''node1_pass'', ''admin_pass'', ''root_pass'', ''win_pass'', ''bmc_pass'']"

definition drop_empty :: "string \<Rightarrow> jsval \<Rightarrow> jsval" where
  "drop_empty k b = (if jget b k = JStr [] then jdel k b else b)"

definition buildBody :: "mform \<Rightarrow> jsval" where
  "buildBody f =
     (if fm_mode f = ''edit'' then JObj (map (\<lambda>k. (k, JStr (trim (ftext f k)))) (edit_keys f))
      else (let nodes = filter (\<lambda>x. x \<noteq> []) [trim (ftext f ''node0''), trim (ftext f ''node1'')];
                b0 = jput ''tags'' (JArr (if ftext f ''type'' = ''PLC'' then map tag_val (parseTags (ftext f ''tags_text'')) else []))
                  (jput ''vm_ips'' (JArr (vm_ips (fm_vms f))) (jput ''nodes'' (JArr (map JStr nodes)) (fm_data f)))
        in foldl (\<lambda>b k. drop_empty k b) (jdel ''tags_text'' b0) PASSWORDS))"

definition clusters_url :: string where "clusters_url = ''/api/clusters''"
definition cluster_url :: "string \<Rightarrow> string" where "cluster_url i = ''/api/clusters/'' @ encodeURIComponent i"

text \<open>
  The answer as the code reads it, an object with \<open>ok\<close>, \<open>error\<close> and the fields of the document. \<open>nullmsg\<close> is the text of
  the error the engine throws when a property of \<open>null\<close> is read: a refusal whose document is the value \<open>null\<close>.
\<close>

definition obj_over :: "(string \<times> jsval) list \<Rightarrow> (string \<times> jsval) list \<Rightarrow> (string \<times> jsval) list" where
  "obj_over base ps = foldl (\<lambda>m p. aput (fst p) (snd p) m) base ps"

definition api_result :: "string \<Rightarrow> reply \<Rightarrow> jsval" where
  "api_result nullmsg r =
     (case r of
        Failed m \<Rightarrow> JObj [(''ok'', JBool False), (''error'', JStr m)]
      | Answered status j \<Rightarrow>
          if \<not> reply_ok status
          then (if j = Null then JObj [(''ok'', JBool False), (''error'', JStr nullmsg)]
                else JObj [(''ok'', JBool False), (''error'', jor (jget j ''error'') (JStr (''HTTP '' @ int_str status)))])
          else (case obj_copy j of JObj ps \<Rightarrow> JObj (obj_over [(''ok'', JBool True)] ps) | _ \<Rightarrow> JObj [(''ok'', JBool True)]))"

text \<open>The answer of \<open>api\<close> when it does not ask the server at all.\<close>

definition read_only :: "lfun \<Rightarrow> jsval" where
  "read_only l = JObj [(''ok'', JBool False), (''error'', JStr (l ''Sample data is read-only.'' ''saempeul deiteoneun johoeman ganeunghamnida.''))]"

section \<open>The pages of the form\<close>

datatype fkind = TextF string | PassF | SelectF "(string \<times> string) list"

text \<open>
  A field as the page draws it. \<open>ff_req\<close> is the badge: required, optional or none. \<open>ff_input\<close> tells that there is an
  input at all, which a password of the edit form has not.
\<close>

record ffield =
  ff_key :: string
  ff_label :: string
  ff_ph :: string
  ff_kind :: fkind
  ff_req :: "bool option"
  ff_input :: bool
  ff_disabled :: bool
  ff_value :: string
  ff_error :: "string option"

definition field :: "mform \<Rightarrow> string \<Rightarrow> string \<Rightarrow> string \<Rightarrow> bool option \<Rightarrow> string \<Rightarrow> ffield" where
  "field f k label ph req lst = \<lparr>ff_key = k, ff_label = label, ff_ph = ph, ff_kind = TextF lst, ff_req = req, ff_input = True,
     ff_disabled = (fm_mode f = ''edit'' \<and> \<not> isEditField f k),
     ff_value = (let v = jget (fm_data f) k in if nullish v then [] else to_str v), ff_error = map_of (fm_fieldErrors f) k\<rparr>"

definition pwField :: "mform \<Rightarrow> string \<Rightarrow> string \<Rightarrow> string \<Rightarrow> bool option \<Rightarrow> ffield" where
  "pwField f k label ph req = (field f k label (sor ph ''******'') req [])\<lparr>ff_kind := PassF, ff_input := (fm_mode f \<noteq> ''edit''),
     ff_disabled := False\<rparr>"

definition selectField :: "mform \<Rightarrow> string \<Rightarrow> string \<Rightarrow> (string \<times> string) list \<Rightarrow> ffield" where
  "selectField f k label opts = (field f k label [] None [])\<lparr>ff_kind := SelectF opts, ff_disabled := (fm_mode f = ''edit'')\<rparr>"

definition basicFields :: "lfun \<Rightarrow> mform \<Rightarrow> ffield list" where
  "basicFields l f =
    [field f ''label'' (l ''Device name'' ''jangbi ireum'') (if ftext f ''type'' = ''PLC'' then ''PLC 250.1'' else ''LGV'') (Some True) [],
     field f ''company'' (l ''Company'' ''hoesa'') ''rubikeom'' None ''mng-companies'',
     field f ''factory'' (l ''Factory'' ''gongjang'') ''1beongongjang'' None ''mng-factories'',
     field f ''asset_tag'' (l ''Asset tag'' ''jasan taegeu'') ''RB-2024-001'' None [],
     field f ''floor_pos'' (l ''Floor position (row,col)'' ''peulloeo wichi (haeng,yeol)'')
       (l ''e.g. 1,3 -- blank = auto'' ''ye: 1,3 -- biumyeon jadong'') None []]"

definition mgmtLabel :: "lfun \<Rightarrow> string \<Rightarrow> string" where
  "mgmtLabel l t = (if t = ''PLC'' then ''PLC IP'' else if t = ''SRV'' then l ''Server IP'' ''seobeo IP'' else if t = ''NAS'' then ''NAS IP''
     else if t = ''WIN'' then l ''Windows Server IP'' ''Windows seobeo IP'' else if t = ''PI'' then ''Raspberry Pi IP'' else if t = ''PC'' then ''PC IP''
     else if t = ''PRN'' then l ''Printer IP'' ''peurinteo IP'' else l ''Management IP (AC)'' ''gwalli IP (AC)'')"

definition mgmtPh :: "string \<Rightarrow> string" where
  "mgmtPh t = (if t = ''PLC'' then ''192.168.250.1'' else if t = ''NAS'' then ''172.30.1.99'' else if t = ''PI'' then ''172.30.1.79'' else ''172.30.1.30'')"

definition keep_ph :: "lfun \<Rightarrow> mform \<Rightarrow> string \<Rightarrow> string" where
  "keep_ph l f ph = (if fm_mode f = ''edit'' then l ''keep current'' ''gijon yuji'' else ph)"

definition node_fields :: "lfun \<Rightarrow> mform \<Rightarrow> string \<Rightarrow> ffield list" where
  "node_fields l f n =
    [field f (''node'' @ n) (''node'' @ n @ '' IP'') (if n = ''0'' then ''172.30.1.31'' else ''172.30.1.32'') None [],
     field f (''node'' @ n @ ''_user'') (l ''SSH user'' ''aidi'') (keep_ph l f ''root'') None [],
     pwField f (''node'' @ n @ ''_pass'') (l ''SSH password'' ''bimilbeonho'')
       (if n = ''1'' then l ''blank = same as node0'' ''biumyeon node0wa dongil'' else ''******'') None]"

definition bmc_shown :: "mform \<Rightarrow> bool" where
  "bmc_shown f \<longleftrightarrow> ftext f ''platform'' = ''redfish'' \<or> ftext f ''platform'' = ''both''"

definition connGroup :: "lfun \<Rightarrow> mform \<Rightarrow> ffield list" where
  "connGroup l f =
    (let t = ftext f ''type'' in
     [field f ''mgmt'' (mgmtLabel l t) (mgmtPh t) (Some True) [], field f ''site'' (l ''Site'' ''saiteu'') ''LAN'' None []]
   @ (if isFTType t then [selectField f ''api'' (l ''Transport'' ''sujip bangsik'')
        [([], l ''avcli (auto)'' ''avcli (jadong)''), (''rest'', ''REST API''), (''snmp'', l ''SNMP only'' ''SNMP jeonyong'')]] else [])
   @ (if t = ''SRV'' \<or> t = ''PLC'' then
        [field f ''vendor'' (if t = ''PLC'' then l ''Maker (auto-detected)'' ''jejosa (jadong gamji)'' else l ''Vendor'' ''jejosa'')
          (if t = ''PLC'' then ''Omron / Mitsubishi / Siemens'' else ''Lenovo / Dell / HPE'') (Some False) ''mng-vendors'']
      @ (if t = ''SRV'' then
           selectField f ''platform'' (l ''Collection'' ''sujip bangsik'')
             [([], l ''SNMP (OS agent)'' ''SNMP (OS eijeonteu)''), (''redfish'', ''Redfish (BMC: iLO/iDRAC/XCC)''),
              (''both'', ''SNMP + Redfish''), (''proxmox'', ''Proxmox VE API'')]
         # (if bmc_shown f then
              [field f ''bmc_ip'' ''BMC / iLO IP'' ''172.30.1.30'' (Some True) [],
               field f ''bmc_user'' (l ''BMC user'' ''BMC gyejeong'') (keep_ph l f ''Administrator'') None [],
               pwField f ''bmc_pass'' (l ''BMC password'' ''BMC bimilbeonho'') [] None] else [])
         else [])
      @ (if t = ''PLC'' then [field f ''model'' (l ''Model (auto-detected)'' ''model (jadong gamji)'') ''NX1P2-1040DT'' (Some False) []] else [])
      else [])
   @ (if t = ''PLC'' then [field f ''tags_text'' (l ''Process variables (Name=Label(unit))'' ''gongjeong byeonsu (byeonsumyeong=rabel(danwi))'')
        ''ProductCount=saengsallyang(ea), CycleTime=saikeultaim(s)'' (Some False) []] else [])
   @ (if isFTType t then node_fields l f ''0'' @ node_fields l f ''1'' else []))"

definition authGroup :: "lfun \<Rightarrow> mform \<Rightarrow> ffield list" where
  "authGroup l f =
    (let t = ftext f ''type''; pf = ftext f ''platform''; req = Some True in
     (if isFTType t then
        [field f ''admin_user'' (l ''AC admin user'' ''AC gwallija ID'') (keep_ph l f ''admin'') req [],
         pwField f ''admin_pass'' (l ''AC password'' ''AC bimilbeonho'') [] req,
         field f ''win_user'' (l ''Windows guest user (WinRM)'' ''Windows geseuteu ID (WinRM)'') (keep_ph l f ''administrator'') (Some False) [],
         pwField f ''win_pass'' (l ''Windows guest password'' ''Windows geseuteu bimilbeonho'') [] (Some False)] else [])
   @ (if t = ''WIN'' then
        [field f ''admin_user'' (l ''Windows admin user'' ''Windows gwallija ID'') (keep_ph l f ''administrator'') req [],
         pwField f ''admin_pass'' (l ''Windows password (WinRM 5985)'' ''Windows bimilbeonho (WinRM 5985)'') [] req] else [])
   @ (if t = ''PI'' then
        [field f ''admin_user'' (l ''SSH user'' ''SSH sayongja'') (keep_ph l f ''pi'') req [],
         pwField f ''root_pass'' (l ''SSH password'' ''SSH bimilbeonho'') [] req] else [])
   @ (if t = ''SRV'' \<and> pf = ''proxmox'' then
        [field f ''admin_user'' (l ''PVE user (realm)'' ''PVE gyejeong (realm)'') (keep_ph l f ''root@pam'') req [],
         pwField f ''admin_pass'' (l ''PVE password'' ''PVE bimilbeonho'') [] req] else [])
   @ (if t \<noteq> ''PLC'' \<and> t \<noteq> ''WIN'' \<and> t \<noteq> ''PI'' \<and> \<not> (t = ''SRV'' \<and> (pf = ''proxmox'' \<or> pf = ''redfish'')) then
        [field f ''community'' (if t = ''PC'' then l ''SNMP community (optional)'' ''SNMP keomyuniti (seontaek)'' else l ''SNMP community'' ''SNMP keomyuniti'')
          (keep_ph l f ''public'') (Some (t = ''NAS'' \<or> t = ''SRV'' \<and> pf = [])) []] else []))"

definition delete_fields :: "lfun \<Rightarrow> mform \<Rightarrow> ffield list" where
  "delete_fields l f =
    [field f ''delete_reason'' (l ''Confirmation reason (required)'' ''hwagin sayu (pilsu)'') [] None [],
     field f ''delete_phrase'' (l ''Type device ID to confirm'' ''hwagineul wihae jangbi ID imnyeok'') [] None []]"

text \<open>The input fields of the page on display, and the rows of the confirmation page.\<close>

definition page_fields :: "lfun \<Rightarrow> nat \<Rightarrow> mform \<Rightarrow> ffield list" where
  "page_fields l step f =
     (if fm_mode f = ''delete'' then delete_fields l f
      else if fm_mode f = ''add'' then
        (if step = 0 then basicFields l f else if step = 1 then connGroup l f else if step = 2 then authGroup l f else [])
      else if fm_tab f = ''basic'' then basicFields l f
      else if fm_tab f = ''conn'' then connGroup l f
      else if fm_tab f = ''auth'' then authGroup l f else [])"

definition summary :: "lfun \<Rightarrow> mform \<Rightarrow> (string \<times> string) list" where
  "summary l f =
    [(l ''Type'' ''jongnyu'', platName (ftext f ''type'') l), (l ''Name'' ''ireum'', sor (ftext f ''label'') DASH),
     (l ''Management IP'' ''gwalli IP'', sor (ftext f ''mgmt'') DASH),
     (l ''Location'' ''wichi'', sor (join '' . '' (filter (\<lambda>x. x \<noteq> []) [ftext f ''company'', ftext f ''factory''])) DASH),
     (l ''Site'' ''saiteu'', sor (ftext f ''site'') DASH)]"

definition tab_keys :: "mform \<Rightarrow> string list" where
  "tab_keys f = [''basic'', ''conn'', ''auth''] @ (if isFTType (ftext f ''type'') then [''vm''] else [])"

text \<open>The tab an arrow key goes to; \<open>here\<close> is the index of the focused tab.\<close>

definition tab_after :: "string \<Rightarrow> nat \<Rightarrow> nat \<Rightarrow> nat" where
  "tab_after key here n = (if key = ''Home'' then 0 else if key = ''End'' then n - 1
     else nat ((int here + (if key = ''ArrowRight'' then 1 else - 1) + int n) mod int n))"

text \<open>The buttons of the page on display that are enabled, by their attribute.\<close>

definition page_buttons :: "nat \<Rightarrow> mform \<Rightarrow> string list" where
  "page_buttons step f =
     (if fm_mode f = ''delete'' then ''close'' # (if fm_busy f then [] else [''confirm-del''])
      else if fm_mode f = ''add'' then [''close'', ''back'']
        @ (if step < 3 then [''next''] else (if fm_testing f \<or> fm_busy f then [] else [''test'']) @ (if fm_busy f then [] else [''save'']))
      else ''close'' # (if fm_busy f then [] else [''save'']))"

section \<open>The list\<close>

datatype tree_mode = NoDevice | Flat "dev_row list" | FlatFa "fac_node list" | FullTree

definition classifyTree :: "co_node list \<Rightarrow> tree_mode" where
  "classifyTree tree = (case tree of
      [] \<Rightarrow> NoDevice
    | [co] \<Rightarrow> (case cn_factories co of [] \<Rightarrow> Flat [] | [fa] \<Rightarrow> Flat (fn_devices fa) | fs \<Rightarrow> FlatFa fs)
    | _ \<Rightarrow> FullTree)"

definition mode_key :: "tree_mode \<Rightarrow> string" where
  "mode_key m = (case m of NoDevice \<Rightarrow> ''empty'' | Flat _ \<Rightarrow> ''flat'' | FlatFa _ \<Rightarrow> ''flatfa'' | FullTree \<Rightarrow> ''tree'')"

definition tree_sig :: "string \<Rightarrow> co_node list \<Rightarrow> string" where
  "tree_sig lang tree = sor lang ''ko'' @ ''|'' @ mode_key (classifyTree tree) @ ''|'' @ join ''|'' (map (\<lambda>c.
     cn_key c @ ''+'' @ num_text (cn_count c) @ '':'' @ join '';'' (map (\<lambda>f. fn_key f @ '':''
       @ join '','' (map (\<lambda>d. dr_id d @ (if dr_sample d then '':sample'' else [])) (fn_devices f))) (cn_factories c))) tree)"

text \<open>What is drawn, in its order: the heads of groups, and the rows, each with the groups that hide it when they are folded.\<close>

datatype list_item = GroupHead string string nat bool | DeviceRow dev_row "string list"

definition fac_items :: "string list \<Rightarrow> fac_node \<Rightarrow> list_item list" where
  "fac_items outer fa = GroupHead (fn_key fa) (fn_name fa) (fn_count fa) (fn_collapsed fa)
     # map (\<lambda>d. DeviceRow d (outer @ [fn_key fa])) (fn_devices fa)"

definition co_items :: "co_node \<Rightarrow> list_item list" where
  "co_items co = GroupHead (cn_key co) (cn_name co) (cn_count co) (cn_collapsed co)
     # (case cn_factories co of [fa] \<Rightarrow> map (\<lambda>d. DeviceRow d [cn_key co]) (fn_devices fa)
        | fs \<Rightarrow> concat (map (fac_items [cn_key co]) fs))"

definition list_items :: "co_node list \<Rightarrow> list_item list" where
  "list_items tree = (case classifyTree tree of NoDevice \<Rightarrow> [] | Flat ds \<Rightarrow> map (\<lambda>d. DeviceRow d []) ds
     | FlatFa fs \<Rightarrow> concat (map (fac_items []) fs) | FullTree \<Rightarrow> concat (map co_items tree))"

definition item_rows :: "list_item list \<Rightarrow> dev_row list" where
  "item_rows xs = List.map_filter (\<lambda>x. case x of DeviceRow d _ \<Rightarrow> Some d | _ \<Rightarrow> None) xs"

record mng_row =
  mr_name :: string
  mr_meta :: string
  mr_stat :: "string option"
  mr_tone :: string
  mr_canEdit :: bool
  mr_up :: string
  mr_vm :: string
  mr_avail :: string
  mr_sync :: string
  mr_ver :: string

definition without_company :: "dev_row \<Rightarrow> string" where
  "without_company d = (let nm = sor (sor (dr_label d) (sr_host d)) DASH in
     if dr_company d \<noteq> [] \<and> starts_with (dr_company d) nm then sor (trim (drop (length (dr_company d)) nm)) nm else nm)"

definition tone_class :: "string \<Rightarrow> string" where
  "tone_class t = (if t = ''neg'' then ''is-neg'' else if t = ''warn'' then ''is-warn'' else ''is-pos'')"

definition patchRow :: "lfun \<Rightarrow> dev_row \<Rightarrow> mng_row" where
  "patchRow l d =
     (let inM = dr_maint d \<or> dr_maintWin d; noTel = dr_noTel d \<or> sr_status d = Down in
      \<lparr>mr_name = without_company d,
       mr_meta = join '' . '' (filter (\<lambda>x. x \<noteq> []) [sr_typeLabel d, sor (dr_mgmt d) (sr_site d)]),
       mr_stat = (if dr_pending d \<or> inM \<or> dr_statusTone d = ''neg'' \<or> dr_statusTone d = ''warn''
          then Some (if dr_pending d then l ''Loading...'' ''bulleooneun jung''
            else if inM then (if dr_maintWin d \<and> \<not> dr_maint d then l ''Maintenance window'' ''jeomgeom chang''
               else sor (dr_maintLabel d) (l ''Maintenance'' ''jeomgeom jung''))
            else dr_statusLabel d) else None),
       mr_tone = (if inM then ''is-warn'' else tone_class (dr_statusTone d)),
       mr_canEdit = (dr_type d \<noteq> END \<and> \<not> dr_sample d),
       mr_up = sor (dr_uptime d) DASH,
       mr_vm = (if noTel then DASH else num_str (Fin (dr_vmRunning d)) @ '' / '' @ num_str (Fin (dr_vms d))),
       mr_avail = sor (dr_avail d) DASH, mr_sync = sor (sr_syncLabel d) DASH,
       mr_ver = (if dr_version d \<noteq> [] then ''v'' @ dr_version d else sor (dr_mgmt d) (sr_site d))\<rparr>)"

text \<open>The values the text fields offer.\<close>

definition str_cmp :: "string \<Rightarrow> string \<Rightarrow> int" where
  "str_cmp a b = (if str_lt a b then - 1 else if str_lt b a then 1 else 0)"

definition offered :: "(dev_meta \<Rightarrow> string) \<Rightarrow> device list \<Rightarrow> string list" where
  "offered g fleet = sort_by str_cmp (nub (filter (\<lambda>v. v \<noteq> []) (map (\<lambda>d. g (d_meta d)) fleet)))"

definition VENDORS :: "string list" where
  "VENDORS = [''Lenovo'', ''Dell'', ''HPE'', ''Supermicro'', ''Cisco'', ''Fujitsu'',
     ''Omron'', ''Mitsubishi'', ''Siemens'', ''LS ELECTRIC'', ''Keyence'', ''Rockwell'', ''Schneider'']"

definition datalists :: "device list \<Rightarrow> (string \<times> string list) list" where
  "datalists fleet = [(''mng-companies'', offered m_company fleet), (''mng-factories'', offered m_factory fleet), (''mng-vendors'', VENDORS)]"

end
