(* ===== verification/ManageForm.thy ===== *)
theory ManageForm
  imports ScreenManage
begin

text \<open>
  The machine of device management (\<open>src/web/js/screens/manage.js\<close>): the store, the form objects and the requests that wait
  for an answer. A form is an object that the store refers to and that the handlers change in place; a suspended handler keeps
  its reference after the dialog has closed, and compares it with the form of the store when its answer arrives. So the forms
  live in a heap (\<open>mg_heap\<close>), and the store's \<open>form\<close> is a reference into it (\<open>mg_form\<close>).

  \<open>mng_do\<close> is what the handlers do; \<open>mng_step\<close> adds what the page makes possible: a control that is not on display, is
  disabled or lies under the dialog (which makes the rest of the page inert) gets no event.
\<close>

section \<open>State\<close>

datatype call_kind = SubmitCall | DeleteCall | TestCall

text \<open>\<open>cl_local\<close> is the answer of a request that was never sent, because the data are samples.\<close>

record mcall =
  cl_kind :: call_kind
  cl_form :: nat
  cl_body :: jsval
  cl_local :: "jsval option"

record mng =
  mg_st :: app_state
  mg_alive :: bool
  mg_heap :: "mform list"
  mg_form :: "nat option"
  mg_calls :: "mcall list"
  mg_escSkip :: "nat option"

datatype mng_effect = MSend string string jsval | MSay string | MDetail string

type_synonym mng_out = "mng \<times> mng_effect list"

text \<open>
  \<open>MgStore\<close> is any change of the store by the rest of the console, \<open>MgHandoff\<close> the button of the device page that asks for a
  form here; the two fields of the store only this screen writes are kept. \<open>MgEscape\<close>: the composing and the prevented flag of
  the event, and the input with a list of values that has the focus, if any. \<open>MgSettle\<close>: which request is answered, the
  engine's message for a \<open>null\<close> document, and the answer.
\<close>

datatype mng_event =
  MgMount
| MgLeave
| MgHandoff string
| MgStore app_state
| MgAdd
| MgEdit string
| MgDel string
| MgToggle string
| MgRow string
| MgOverlay
| MgClose
| MgConfirm
| MgType string
| MgTab string
| MgArrow string nat
| MgStep nat
| MgNext
| MgBack
| MgSave
| MgTest
| MgField string string
| MgVm nat string string
| MgVmAdd
| MgVmDel nat
| MgFill
| MgShowPw string
| MgEscape bool bool "nat option"
| MgKey
| MgSettle nat string reply

definition mL :: "mng \<Rightarrow> lfun" where "mL m = makeL (s_lang (mg_st m))"

definition form_at :: "mng \<Rightarrow> (nat \<times> mform) option" where
  "form_at m = (if mg_alive m then map_option (\<lambda>i. (i, mg_heap m ! i)) (mg_form m) else None)"

definition put_form :: "nat \<Rightarrow> mform \<Rightarrow> mng \<Rightarrow> mng" where
  "put_form i f m = m\<lparr>mg_heap := (mg_heap m)[i := f]\<rparr>"

definition setForm :: "(mform \<Rightarrow> mform) \<Rightarrow> mng \<Rightarrow> mng" where
  "setForm g m = (case form_at m of None \<Rightarrow> m | Some (i, f) \<Rightarrow> put_form i ((g f)\<lparr>fm_rev := Suc (fm_rev f)\<rparr>) m)"

definition new_form :: "mform \<Rightarrow> mng \<Rightarrow> mng" where
  "new_form f m = m\<lparr>mg_heap := mg_heap m @ [f], mg_form := Some (length (mg_heap m))\<rparr>"

definition set_editKey :: "string option \<Rightarrow> mng \<Rightarrow> mng" where
  "set_editKey k m = m\<lparr>mg_st := (mg_st m)\<lparr>s_editKey := k\<rparr>\<rparr>"

definition set_step :: "nat \<Rightarrow> mng \<Rightarrow> mng" where
  "set_step n m = m\<lparr>mg_st := (mg_st m)\<lparr>s_wizardStep := n\<rparr>\<rparr>"

definition no_err :: "mform \<Rightarrow> mform" where "no_err f = f\<lparr>fm_err := Null\<rparr>"
definition no_test :: "mform \<Rightarrow> mform" where "no_test f = f\<lparr>fm_err := Null, fm_testResult := Null, fm_testErr := Null\<rparr>"

section \<open>Opening and closing\<close>

definition sample_text :: "mng \<Rightarrow> string" where
  "sample_text m = mL m ''Sample data is read-only.'' ''saempeul deiteoneun johoeman ganeunghamnida.''"

definition find_dev :: "mng \<Rightarrow> string \<Rightarrow> device option" where
  "find_dev m i = find (\<lambda>d. d_id d = i) (s_fleet (mg_st m))"

definition openAdd :: "mng \<Rightarrow> mng_out" where
  "openAdd m = (if isSampleState (mg_st m) then (m, [MSay (sample_text m)])
     else (set_editKey None (set_step 0 (new_form emptyForm m)), []))"

definition openEdit :: "string \<Rightarrow> mng \<Rightarrow> mng_out" where
  "openEdit i m =
     (if isSampleState (mg_st m) then (set_editKey None m, [MSay (sample_text m)])
      else case find_dev m i of
        None \<Rightarrow> (set_editKey None m, [MSay (mL m ''Device not found'' ''jangbireul chajeul su eopseumnida'')])
      | Some dev \<Rightarrow>
          if d_type dev = END
          then (set_editKey None m, [MSay (mL m ''Endurance is display-only for imported legacy data; collection and editing are not supported.''
            ''Enduranceneun gajyeoon regeosi deiteo johoeman ganeunghamyeo sujip.sujeongeun hyeonjae jiwondoeji anseumnida.'')])
          else (set_editKey None (new_form (edit_form dev) m), []))"

definition openDelete :: "string \<Rightarrow> string \<Rightarrow> mng \<Rightarrow> mng_out" where
  "openDelete operator i m =
     (if isSampleState (mg_st m) then (m, [MSay (sample_text m)])
      else case find_dev m i of
        None \<Rightarrow> (m, [])
      | Some dev \<Rightarrow>
          if d_type dev = END then (m, [MSay (mL m ''Legacy Endurance records are display-only.'' ''regeosi Endurance rekodeuneun johoe jeonyongimnida.'')])
          else (new_form (delete_form operator (mg_st m) dev) m, []))"

definition closeModal :: "mng \<Rightarrow> mng" where
  "closeModal m = (if form_at m = None then m else set_editKey None (set_step 0 (m\<lparr>mg_form := None\<rparr>)))"

definition close_unless_busy :: "mng \<Rightarrow> mng" where
  "close_unless_busy m = (case form_at m of None \<Rightarrow> closeModal m | Some (i, f) \<Rightarrow> if fm_busy f then m else closeModal m)"

definition toggleGroup :: "string \<Rightarrow> mng \<Rightarrow> mng" where
  "toggleGroup k m = (if k = [] \<or> \<not> mg_alive m then m
     else (let cur = obj_copy (s_manageCollapsed (mg_st m)) in
       m\<lparr>mg_st := (mg_st m)\<lparr>s_manageCollapsed := jput k (JBool (\<not> truthy (jget cur k))) cur\<rparr>\<rparr>))"

section \<open>The wizard\<close>

definition setValidationError :: "issue \<Rightarrow> mng \<Rightarrow> mng" where
  "setValidationError i m = setForm (\<lambda>f. f\<lparr>fm_err := JStr (snd i), fm_fieldErrors := aput (fst i) (snd i) (fm_fieldErrors f)\<rparr>) m"

definition next_step :: "mng \<Rightarrow> mng" where
  "next_step m = (case form_at m of None \<Rightarrow> m
     | Some (i, f) \<Rightarrow> (case next_issue (mL m) (s_wizardStep (mg_st m)) f of
         Some e \<Rightarrow> setValidationError e m
       | None \<Rightarrow> set_step (min 3 (Suc (s_wizardStep (mg_st m)))) (setForm (\<lambda>f. f\<lparr>fm_err := Null, fm_fieldErrors := []\<rparr>) m)))"

definition back_step :: "mng \<Rightarrow> mng" where
  "back_step m = (if s_wizardStep (mg_st m) = 0 then close_unless_busy m
     else set_step (s_wizardStep (mg_st m) - 1) (setForm no_err m))"

definition pick_step :: "nat \<Rightarrow> mng \<Rightarrow> mng" where
  "pick_step i m = (if i \<le> s_wizardStep (mg_st m) then set_step i (setForm no_err m) else m)"

definition pick_type :: "string \<Rightarrow> mng \<Rightarrow> mng" where
  "pick_type t m = (case form_at m of None \<Rightarrow> m
     | Some (i, f) \<Rightarrow> (let f1 = fput ''type'' (JStr t) f; f2 = (if \<not> isFTType t \<and> fm_tab f1 = ''vm'' then f1\<lparr>fm_tab := ''basic''\<rparr> else f1)
         in setForm no_test (put_form i (autoKey f2) m)))"

definition has_error :: "mform \<Rightarrow> string \<Rightarrow> bool" where
  "has_error f k = (case map_of (fm_fieldErrors f) k of None \<Rightarrow> False | Some e \<Rightarrow> e \<noteq> [])"

text \<open>Typing changes the object in place; only the choice of the collection draws the form anew.\<close>

definition type_field :: "string \<Rightarrow> string \<Rightarrow> mng \<Rightarrow> mng" where
  "type_field k v m = (case form_at m of None \<Rightarrow> m
     | Some (i, f) \<Rightarrow>
        (let f1 = fput k (JStr v) f;
             f2 = (if has_error f k then f1\<lparr>fm_fieldErrors := adel k (fm_fieldErrors f), fm_err := Null\<rparr> else f1);
             f3 = (if fm_mode f2 = ''add'' \<and> k = ''mgmt'' then autoKey f2 else f2);
             m1 = put_form i f3 m
         in if k = ''platform'' then setForm no_test m1 else m1))"

definition type_vm :: "nat \<Rightarrow> string \<Rightarrow> string \<Rightarrow> mng \<Rightarrow> mng" where
  "type_vm n k v m = (case form_at m of None \<Rightarrow> m
     | Some (i, f) \<Rightarrow> if n < length (fm_vms f)
         then put_form i (f\<lparr>fm_vms := (fm_vms f)[n := jput (sor k ''name'') (JStr v) (fm_vms f ! n)]\<rparr>) m else m)"

definition show_pw :: "string \<Rightarrow> mng \<Rightarrow> mng" where
  "show_pw k m = setForm (\<lambda>f. f\<lparr>fm_showPw := List.insert k (fm_showPw f)\<rparr>) m"

definition add_vm :: "mng \<Rightarrow> mng" where "add_vm m = setForm (\<lambda>f. f\<lparr>fm_vms := fm_vms f @ [empty_vm]\<rparr>) m"

definition del_vm :: "nat \<Rightarrow> mng \<Rightarrow> mng" where
  "del_vm n m = setForm (\<lambda>f. if 1 < length (fm_vms f) then f\<lparr>fm_vms := take n (fm_vms f) @ drop (Suc n) (fm_vms f)\<rparr> else f) m"

text \<open>The addresses typed so far, by name; the last row of a name wins.\<close>

definition fillVms :: "mng \<Rightarrow> mng" where
  "fillVms m = (case form_at m of None \<Rightarrow> m
     | Some (i, f) \<Rightarrow>
        if \<not> truthy (fm_testResult f) \<or> \<not> truthy (jget (fm_testResult f) ''vms'') then m
        else (let known = foldl (\<lambda>a v. if truthy (jget v ''name'') then aput (to_str (jget v ''name'')) (jget v ''ip'') a else a) [] (fm_vms f);
                  ip = (\<lambda>n. case map_of known (to_str n) of Some x \<Rightarrow> jor x (JStr []) | None \<Rightarrow> JStr []);
                  rows = map (\<lambda>v. JObj [(''name'', jget v ''name''), (''ip'', ip (jget v ''name''))]) (arr_of (jget (fm_testResult f) ''vms''))
              in setForm (\<lambda>f. (if fm_mode f = ''edit'' then f\<lparr>fm_tab := ''vm''\<rparr> else f)\<lparr>fm_vms := rows\<rparr>) m))"

section \<open>Requests\<close>

definition start_call :: "call_kind \<Rightarrow> nat \<Rightarrow> string \<Rightarrow> string \<Rightarrow> jsval \<Rightarrow> mng \<Rightarrow> mng_out" where
  "start_call kind i method url body m =
     (if isSampleState (mg_st m)
      then (m\<lparr>mg_calls := mg_calls m @ [\<lparr>cl_kind = kind, cl_form = i, cl_body = body, cl_local = Some (read_only (mL m))\<rparr>]\<rparr>, [])
      else (m\<lparr>mg_calls := mg_calls m @ [\<lparr>cl_kind = kind, cl_form = i, cl_body = body, cl_local = None\<rparr>]\<rparr>, [MSend method url body]))"

definition make_busy :: "mform \<Rightarrow> mform" where "make_busy f = f\<lparr>fm_busy := True, fm_err := Null\<rparr>"

definition submit :: "mng \<Rightarrow> mng_out" where
  "submit m = (case form_at m of None \<Rightarrow> (m, [])
     | Some (i, f) \<Rightarrow>
        if fm_busy f then (m, [])
        else case form_issue (mL m) f of Some e \<Rightarrow> (setValidationError e m, [])
        | None \<Rightarrow>
          (let f1 = (if fm_mode f = ''add'' then autoKey f else f); m1 = put_form i f1 m in
           case key_issue (mL m) (s_fleet (mg_st m)) f1 of Some e \<Rightarrow> (setValidationError e m1, [])
           | None \<Rightarrow> (let edit = (fm_mode f1 = ''edit'') in
               start_call SubmitCall i (if edit then ''PUT'' else ''POST'') (if edit then cluster_url (fm_origKey f1) else clusters_url)
                 (buildBody f1) (setForm make_busy m1))))"

definition doDelete :: "mng \<Rightarrow> mng_out" where
  "doDelete m = (case form_at m of None \<Rightarrow> (m, [])
     | Some (i, f) \<Rightarrow>
        if fm_busy f then (m, [])
        else case validateDeleteConfirmation (mL m) f of Some e \<Rightarrow> (setValidationError e m, [])
        | None \<Rightarrow> start_call DeleteCall i ''DELETE'' (cluster_url (fm_origKey f))
            (JObj [(''reason'', JStr (trim (ftext f ''delete_reason'')))]) (setForm make_busy m))"

definition testConnection :: "mng \<Rightarrow> mng_out" where
  "testConnection m = (case form_at m of None \<Rightarrow> (m, [])
     | Some (i, f) \<Rightarrow>
        if fm_testing f \<or> fm_mode f = ''edit'' then (m, [])
        else if trim (ftext f ''mgmt'') = []
        then (setForm (\<lambda>f. f\<lparr>fm_testErr := JStr (mL m ''Management IP is required'' ''gwalli IPneun pilsuimnida''), fm_testResult := Null\<rparr>) m, [])
        else start_call TestCall i ''POST'' ''/api/clusters/test'' (buildBody f)
          (setForm (\<lambda>f. f\<lparr>fm_testing := True, fm_testErr := Null, fm_testResult := Null\<rparr>) m))"

section \<open>Answers\<close>

definition meta_key_of :: "string \<Rightarrow> string" where
  "meta_key_of k = (if k = ''asset_tag'' then ''assetTag'' else if k = ''floor_pos'' then ''floorPos'' else k)"

definition apply_field :: "jsval \<Rightarrow> device \<times> jsval \<Rightarrow> string \<Rightarrow> device \<times> jsval" where
  "apply_field body p k = (case p of (dev, le) \<Rightarrow>
     let v = str_or (jget body k) in
     if k = ''site'' then (let s = sor v DASH in (dev\<lparr>d_site := s\<rparr>, jput ''site'' (JStr s) le))
     else (dev\<lparr>d_meta := set_meta_field (meta_key_of k) v (d_meta dev)\<rparr>, jput (meta_key_of k) (JStr v) le))"

definition apply_edit :: "int \<Rightarrow> jsval \<Rightarrow> string list \<Rightarrow> device \<Rightarrow> device" where
  "apply_edit t body applied dev =
     (case foldl (apply_field body) (dev, JObj [(''ts'', JNum (Fin (of_int t)))]) applied of
        (d, le) \<Rightarrow> d\<lparr>d_meta := (d_meta d)\<lparr>m_localEdit := le\<rparr>\<rparr>)"

definition update_first :: "('a \<Rightarrow> bool) \<Rightarrow> ('a \<Rightarrow> 'a) \<Rightarrow> 'a list \<Rightarrow> 'a list" where
  "update_first P g xs = (let n = length (takeWhile (\<lambda>x. \<not> P x) xs) in if n < length xs then xs[n := g (xs ! n)] else xs)"

definition applied_of :: "mform \<Rightarrow> jsval \<Rightarrow> jsval \<Rightarrow> string list" where
  "applied_of f body res =
     (if fm_mode f = ''edit'' \<and> is_arr (jget res ''applied'')
      then List.map_filter (\<lambda>v. case v of JStr k \<Rightarrow> if isEditField f k \<and> has_own body k then Some k else None | _ \<Rightarrow> None)
        (arr_of (jget res ''applied''))
      else [])"

definition err_text :: "jsval \<Rightarrow> string" where "err_text res = to_str (jget res ''error'')"
definition label_text :: "mform \<Rightarrow> string" where "label_text f = '': '' @ to_str (jget (fm_data f) ''label'')"

definition end_form :: "bool \<Rightarrow> mng \<Rightarrow> mng" where
  "end_form same m = (if same then set_step 0 (m\<lparr>mg_form := None\<rparr>) else m)"

definition fail_form :: "bool \<Rightarrow> jsval \<Rightarrow> string \<Rightarrow> mng \<Rightarrow> mng_out" where
  "fail_form same err toast m = (if same then (setForm (\<lambda>f. f\<lparr>fm_busy := False, fm_err := err\<rparr>) m, []) else (m, [MSay toast]))"

definition settle_submit :: "host \<Rightarrow> bool \<Rightarrow> mform \<Rightarrow> jsval \<Rightarrow> jsval \<Rightarrow> mng \<Rightarrow> mng_out" where
  "settle_submit h same f body res m =
     (let l = mL m; applied = applied_of f body res; st = mg_st m in
      if \<not> truthy (jget res ''ok'')
      then fail_form same (jget res ''error'') (l ''Save failed'' ''jeojang silpae'' @ '': '' @ err_text res) m
      else if fm_mode f = ''edit'' \<and> applied = []
      then (let msg = l ''No display metadata was confirmed saved.'' ''pyosi meta jeojangi hwagindoeji anasseumnida.'' in fail_form same (JStr msg) msg m)
      else if fm_mode f = ''add''
      then (end_form same m, [MSay ((if truthy (jget res ''restart_required'')
          then l ''Saved -- polling starts after poller restart'' ''jeojangdoem -- polleo jaesijak hu sujip sijak''
          else l ''Device added'' ''jangbireul chugahaetseumnida'') @ label_text f)])
      else (end_form same (m\<lparr>mg_st := st\<lparr>s_fleet := update_first (\<lambda>d. d_id d = fm_origKey f) (apply_edit (now h) body applied) (s_fleet st)\<rparr>\<rparr>),
            [MSay (l ''Display metadata saved'' ''pyosi metareul jeojanghaetseumnida'' @ label_text f)]))"

definition drop_device :: "string \<Rightarrow> app_state \<Rightarrow> app_state" where
  "drop_device i st = st\<lparr>
     s_fleet := filter (\<lambda>d. d_id d \<noteq> i) (s_fleet st),
     s_ackedAlerts := foldl (\<lambda>m k. if key_of_device i k then jdel k m else m) (obj_copy (s_ackedAlerts st)) (own_keys (obj_copy (s_ackedAlerts st))),
     s_maint := jdel i (obj_copy (s_maint st)), s_notes := jdel i (obj_copy (s_notes st)),
     s_selected := (if s_selected st = Some i then None else s_selected st)\<rparr>"

definition settle_delete :: "bool \<Rightarrow> mform \<Rightarrow> jsval \<Rightarrow> mng \<Rightarrow> mng_out" where
  "settle_delete same f res m =
     (if \<not> truthy (jget res ''ok'')
      then (let msg = mL m ''Remove failed'' ''jegeo silpae'' @ '': '' @ err_text res in fail_form same (JStr msg) msg m)
      else (let m1 = m\<lparr>mg_st := drop_device (fm_origKey f) (mg_st m)\<rparr> in
        (if same then m1\<lparr>mg_form := None\<rparr> else m1, [MSay (mL m ''Device removed'' ''jangbireul jegeohaetseumnida'' @ label_text f)])))"

definition next_testRev :: "mform \<Rightarrow> jsval" where
  "next_testRev f = JNum (Fin (1 + (case jget (fm_data f) ''_testRev'' of JNum (Fin x) \<Rightarrow> x | _ \<Rightarrow> 0)))"

definition settle_test :: "bool \<Rightarrow> jsval \<Rightarrow> mng \<Rightarrow> mng" where
  "settle_test same res m =
     (if \<not> same then m
      else setForm (\<lambda>f. (fput ''_testRev'' (next_testRev f) f)\<lparr>fm_testing := False,
             fm_testResult := (if truthy (jget res ''ok'') then res else Null),
             fm_testErr := (if truthy (jget res ''ok'') then Null else jget res ''error'')\<rparr>) m)"

definition settle_call :: "host \<Rightarrow> nat \<Rightarrow> string \<Rightarrow> reply \<Rightarrow> mng \<Rightarrow> mng_out" where
  "settle_call h n nullmsg r m =
     (if length (mg_calls m) \<le> n then (m, [])
      else (let c = mg_calls m ! n; m1 = m\<lparr>mg_calls := take n (mg_calls m) @ drop (Suc n) (mg_calls m)\<rparr>;
                res = (case cl_local c of Some x \<Rightarrow> x | None \<Rightarrow> api_result nullmsg r);
                f = mg_heap m ! cl_form c; same = (mg_alive m \<and> mg_form m = Some (cl_form c))
            in case cl_kind c of
                 SubmitCall \<Rightarrow> settle_submit h same f (cl_body c) res m1
               | DeleteCall \<Rightarrow> settle_delete same f res m1
               | TestCall \<Rightarrow> (settle_test same res m1, [])))"

section \<open>The handlers\<close>

text \<open>
  The escape key: an input with a list of values takes the first one for its list, and the dialog closes at the second in
  a row. Every other key forgets that.
\<close>

definition escape :: "bool \<Rightarrow> bool \<Rightarrow> nat option \<Rightarrow> mng \<Rightarrow> mng" where
  "escape composing prevented listInput m =
     (case form_at m of None \<Rightarrow> m
      | Some (i, f) \<Rightarrow>
          if composing \<or> fm_busy f \<or> prevented then m
          else if listInput \<noteq> None \<and> mg_escSkip m \<noteq> listInput then m\<lparr>mg_escSkip := listInput\<rparr>
          else closeModal (m\<lparr>mg_escSkip := None\<rparr>))"

definition mount_manage :: "mng \<Rightarrow> mng_out" where
  "mount_manage m = (if mg_alive m then (m, [])
     else (let m1 = m\<lparr>mg_alive := True\<rparr> in
       case s_editKey (mg_st m) of Some i \<Rightarrow> if i \<noteq> [] then openEdit i m1 else (m1, []) | None \<Rightarrow> (m1, [])))"

definition mng_do :: "host \<Rightarrow> string \<Rightarrow> mng_event \<Rightarrow> mng \<Rightarrow> mng_out" where
  "mng_do h operator ev m =
     (case ev of
        MgMount \<Rightarrow> mount_manage m
      | MgLeave \<Rightarrow> (m\<lparr>mg_alive := False\<rparr>, [])
      | MgHandoff i \<Rightarrow> (if mg_alive m then m else set_editKey (if i = [] then None else Some i) m, [])
      | MgStore st \<Rightarrow> (m\<lparr>mg_st := st\<lparr>s_wizardStep := s_wizardStep (mg_st m), s_editKey := s_editKey (mg_st m)\<rparr>\<rparr>, [])
      | MgSettle n nullmsg r \<Rightarrow> settle_call h n nullmsg r m
      | _ \<Rightarrow>
        if \<not> mg_alive m then (m, [])
        else (case ev of
          MgAdd \<Rightarrow> openAdd m
        | MgEdit i \<Rightarrow> openEdit i m
        | MgDel i \<Rightarrow> openDelete operator i m
        | MgToggle k \<Rightarrow> (toggleGroup k m, [])
        | MgRow i \<Rightarrow> (m, [MDetail i])
        | MgOverlay \<Rightarrow> (close_unless_busy m, [])
        | MgClose \<Rightarrow> (close_unless_busy m, [])
        | MgConfirm \<Rightarrow> doDelete m
        | MgType t \<Rightarrow> (pick_type t m, [])
        | MgTab k \<Rightarrow> (setForm (\<lambda>f. f\<lparr>fm_tab := k, fm_err := Null\<rparr>) m, [])
        | MgArrow key here \<Rightarrow> (setForm (\<lambda>f. f\<lparr>fm_tab := tab_keys f ! tab_after key here (length (tab_keys f)), fm_err := Null, fm_fieldErrors := []\<rparr>) m, [])
        | MgStep i \<Rightarrow> (pick_step i m, [])
        | MgNext \<Rightarrow> (next_step m, [])
        | MgBack \<Rightarrow> (back_step m, [])
        | MgSave \<Rightarrow> submit m
        | MgTest \<Rightarrow> testConnection m
        | MgField k v \<Rightarrow> (type_field k v m, [])
        | MgVm n k v \<Rightarrow> (type_vm n k v m, [])
        | MgVmAdd \<Rightarrow> (add_vm m, [])
        | MgVmDel n \<Rightarrow> (del_vm n m, [])
        | MgFill \<Rightarrow> (fillVms m, [])
        | MgShowPw k \<Rightarrow> (show_pw k m, [])
        | MgEscape composing prevented li \<Rightarrow> (escape composing prevented li m, [])
        | MgKey \<Rightarrow> (m\<lparr>mg_escSkip := (if form_at m = None then mg_escSkip m else None)\<rparr>, [])
        | _ \<Rightarrow> (m, [])))"

section \<open>What the page makes possible\<close>

definition typeable :: "lfun \<Rightarrow> nat \<Rightarrow> mform \<Rightarrow> string \<Rightarrow> bool" where
  "typeable l step f k \<longleftrightarrow> list_ex (\<lambda>d. ff_key d = k \<and> ff_input d \<and> \<not> ff_disabled d) (page_fields l step f)"

text \<open>
  The rows of the virtual machines are drawn on the last tab of the edit form only, and disabled there; the button that
  fills them belongs to the result of a test, which is drawn on the last step of the wizard only, and there only for an edit form;
  no form has a button for a hidden password.
\<close>

definition vm_tab :: "mform \<Rightarrow> bool" where "vm_tab f \<longleftrightarrow> fm_mode f = ''edit'' \<and> fm_tab f = ''vm''"
definition test_area :: "nat \<Rightarrow> mform \<Rightarrow> bool" where
  "test_area step f \<longleftrightarrow> fm_mode f = ''add'' \<and> step = 3 \<and> truthy (fm_testResult f)"

definition allowed :: "mng \<Rightarrow> mng_event \<Rightarrow> bool" where
  "allowed m ev =
     (case form_at m of
        None \<Rightarrow> (case ev of MgOverlay \<Rightarrow> False | MgClose \<Rightarrow> False | MgConfirm \<Rightarrow> False | MgType _ \<Rightarrow> False | MgTab _ \<Rightarrow> False | MgArrow _ _ \<Rightarrow> False
          | MgStep _ \<Rightarrow> False | MgNext \<Rightarrow> False | MgBack \<Rightarrow> False | MgSave \<Rightarrow> False | MgTest \<Rightarrow> False | MgField _ _ \<Rightarrow> False | MgVm _ _ _ \<Rightarrow> False
          | MgVmAdd \<Rightarrow> False | MgVmDel _ \<Rightarrow> False | MgFill \<Rightarrow> False | MgShowPw _ \<Rightarrow> False | _ \<Rightarrow> True)
      | Some (i, f) \<Rightarrow> (let step = s_wizardStep (mg_st m); on = (\<lambda>b. b \<in> set (page_buttons step f)) in
        case ev of
          MgAdd \<Rightarrow> False | MgEdit _ \<Rightarrow> False | MgDel _ \<Rightarrow> False | MgToggle _ \<Rightarrow> False | MgRow _ \<Rightarrow> False
        | MgConfirm \<Rightarrow> on ''confirm-del'' | MgNext \<Rightarrow> on ''next'' | MgBack \<Rightarrow> on ''back'' | MgSave \<Rightarrow> on ''save'' | MgTest \<Rightarrow> on ''test''
        | MgType t \<Rightarrow> fm_mode f = ''add'' \<and> step = 0 \<and> t \<in> fst ` set (typeDefs (mL m)) \<and> t \<noteq> ''END''
        | MgTab k \<Rightarrow> fm_mode f = ''edit'' \<and> k \<in> set (tab_keys f)
        | MgArrow key here \<Rightarrow> fm_mode f = ''edit'' \<and> here < length (tab_keys f)
        | MgStep n \<Rightarrow> fm_mode f = ''add'' \<and> n \<le> step
        | MgField k v \<Rightarrow> typeable (mL m) step f k
        | MgVm n k v \<Rightarrow> vm_tab f \<and> fm_mode f \<noteq> ''edit''
        | MgVmAdd \<Rightarrow> vm_tab f \<and> fm_mode f \<noteq> ''edit''
        | MgVmDel n \<Rightarrow> vm_tab f \<and> fm_mode f \<noteq> ''edit''
        | MgFill \<Rightarrow> test_area step f \<and> arr_of (jget (fm_testResult f) ''vms'') \<noteq> [] \<and> fm_mode f = ''edit''
        | MgShowPw k \<Rightarrow> False
        | _ \<Rightarrow> True))"

definition mng_step :: "host \<Rightarrow> string \<Rightarrow> mng_event \<Rightarrow> mng \<Rightarrow> mng_out" where
  "mng_step h operator ev m = (if allowed m ev then mng_do h operator ev m else (m, []))"

fun mng_run :: "host \<Rightarrow> string \<Rightarrow> mng_event list \<Rightarrow> mng \<Rightarrow> mng_out" where
  "mng_run h operator [] m = (m, [])"
| "mng_run h operator (ev # evs) m =
     (case mng_step h operator ev m of (m1, es) \<Rightarrow> case mng_run h operator evs m1 of (m2, es') \<Rightarrow> (m2, es @ es'))"

definition manage_start :: "app_state \<Rightarrow> mng" where
  "manage_start st = \<lparr>mg_st = st\<lparr>s_wizardStep := 0, s_editKey := None\<rparr>, mg_alive = False, mg_heap = [], mg_form = None, mg_calls = [],
     mg_escSkip = None\<rparr>"

text \<open>Reachable configurations, and the steps between them.\<close>

inductive mng_reach :: "host \<Rightarrow> string \<Rightarrow> mng \<Rightarrow> bool" for h operator where
  start: "mng_reach h operator (manage_start st)"
| step: "mng_reach h operator m \<Longrightarrow> mng_reach h operator (fst (mng_step h operator ev m))"

end
