(* ===== verification/ManageSafe.thy ===== *)
theory ManageSafe
  imports ManageForm
begin

text \<open>
  What device management guarantees. The form the dialog shows keeps its laws under every operation (the locale \<open>form_law\<close>,
  once for the shape of a form and once for the order of the wizard); from them: no unchecked request leaves the page, the
  last page of the wizard shows a complete form, an answer touches no other form. Then what an answer does to the console: a
  deletion leaves nothing of the device and reaches the server, an edit overlays what the server confirmed and survives the
  next polls. The last part is a dialog that cannot be closed.
\<close>

named_theorems form_defs

lemmas form_ops [form_defs] = setForm_def put_form_def form_at_def set_step_def set_editKey_def new_form_def no_err_def no_test_def
  make_busy_def setValidationError_def Let_def

section \<open>Fields\<close>

lemma ftext_fput: "is_map (fm_data f) \<Longrightarrow> ftext (fput k v f) k' = (if k = k' then str_or v else ftext f k')"
  by (simp add: ftext_def fput_def)

lemma fput_map [simp]: "is_map (fm_data (fput k v f))" "fm_mode (fput k v f) = fm_mode f" "fm_origKey (fput k v f) = fm_origKey f"
  "fm_busy (fput k v f) = fm_busy f"
  by (simp_all add: fput_def)

lemma str_or_str [simp]: "str_or (JStr s) = s"
  by (simp add: str_or_def jor_def)

lemma ftext_cong: "fm_data f = fm_data g \<Longrightarrow> ftext f = ftext g"
  by (simp add: ftext_def fun_eq_iff)

lemma autoKey_keeps [simp]: "fm_mode (autoKey f) = fm_mode f" "fm_origKey (autoKey f) = fm_origKey f" "fm_busy (autoKey f) = fm_busy f"
  "is_map (fm_data (autoKey f))"
  by (simp_all add: autoKey_def Let_def)

lemma ftext_autoKey: "is_map (fm_data f) \<Longrightarrow> k \<noteq> ''key'' \<Longrightarrow> ftext (autoKey f) k = ftext f k"
  by (simp add: autoKey_def Let_def ftext_fput)

lemma set_texts_map: "is_map (fm_data f) \<Longrightarrow> is_map (fm_data (set_texts ps f))"
  by (induction ps arbitrary: f) (simp_all add: set_texts_def)

lemma empty_map [simp]: "is_map (fm_data emptyForm)" "fm_mode emptyForm = ''add''" "fm_busy emptyForm = False"
  by (simp_all add: emptyForm_def form_data_def)

lemma edit_form_shape [simp]: "is_map (fm_data (edit_form d))" "fm_mode (edit_form d) = ''edit''" "fm_origKey (edit_form d) = d_id d"
  by (simp_all add: edit_form_def Let_def set_texts_map)

lemma delete_form_shape [simp]: "is_map (fm_data (delete_form q st d))" "fm_mode (delete_form q st d) = ''delete''"
    "fm_origKey (delete_form q st d) = d_id d"
  by (simp_all add: delete_form_def form_data_def)

lemma allowed_next: "allowed m MgNext \<Longrightarrow> \<exists>i f. form_at m = Some (i, f) \<and> fm_mode f = ''add''"
  by (auto simp: allowed_def page_buttons_def Let_def split: option.splits if_splits)

lemma allowed_type: "allowed m (MgType t) \<Longrightarrow> s_wizardStep (mg_st m) = 0"
  by (auto simp: allowed_def Let_def split: option.splits)

lemma allowed_field: "allowed m (MgField k v) \<Longrightarrow> \<exists>i f. form_at m = Some (i, f) \<and> typeable (mL m) (s_wizardStep (mg_st m)) f k"
  by (auto simp: allowed_def Let_def split: option.splits)

section \<open>The law of the form on display\<close>

definition cur_holds :: "(nat \<Rightarrow> mform \<Rightarrow> bool) \<Rightarrow> mng \<Rightarrow> bool" where
  "cur_holds P m \<longleftrightarrow> (\<forall>i. mg_form m = Some i \<longrightarrow> i < length (mg_heap m) \<and> P (s_wizardStep (mg_st m)) (mg_heap m ! i))"

text \<open>
  A law that may depend on the step of the wizard, on the mode and on the data of a form, and on nothing else. A step is
  one the wizard has; a new form of each kind obeys the law, and typing and choosing keep it where the page allows them.
\<close>

locale form_law =
  fixes P :: "nat \<Rightarrow> mform \<Rightarrow> bool"
  assumes book: "P s f \<Longrightarrow> fm_mode g = fm_mode f \<Longrightarrow> fm_data g = fm_data f \<Longrightarrow> P s g"
    and fresh: "P 0 emptyForm" "P s (edit_form d)" "P s (delete_form q st d)"
    and earlier: "P s f \<Longrightarrow> s' \<le> s \<Longrightarrow> P s' f"
    and later: "P s f \<Longrightarrow> next_issue l s f = None \<Longrightarrow> fm_mode f = ''add'' \<Longrightarrow> P (min 3 (Suc s)) f"
    and typed: "P s f \<Longrightarrow> typeable l s f k \<Longrightarrow> P s (fput k (JStr v) f)"
    and choice: "P 0 f \<Longrightarrow> P 0 (fput ''type'' (JStr t) f)"
    and key: "P s f \<Longrightarrow> P s (autoKey f)"
    and test: "P s f \<Longrightarrow> P s (fput ''_testRev'' x f)"
begin

lemma setForm_law:
  assumes "cur_holds P m" and "\<And>f. P (s_wizardStep (mg_st m)) f \<Longrightarrow> P (s_wizardStep (mg_st m)) (g f)"
  shows "cur_holds P (setForm g m)"
proof -
  have "P (s_wizardStep (mg_st m)) ((g f)\<lparr>fm_rev := n\<rparr>)" if "P (s_wizardStep (mg_st m)) f" for f n
    using book [OF assms(2) [OF that]] by simp
  then show ?thesis using assms(1) by (auto simp: cur_holds_def form_defs split: option.splits)
qed

lemma put_law:
  assumes "cur_holds P m" "form_at m = Some (i, f)" "P (s_wizardStep (mg_st m)) g"
  shows "cur_holds P (put_form i g m)"
  using assms by (auto simp: cur_holds_def form_defs split: if_splits)

lemma at_law: "cur_holds P m \<Longrightarrow> form_at m = Some (i, f) \<Longrightarrow> P (s_wizardStep (mg_st m)) f"
  by (auto simp: cur_holds_def form_at_def split: if_splits)

lemma step_law: "cur_holds P m \<Longrightarrow> n \<le> s_wizardStep (mg_st m) \<Longrightarrow> cur_holds P (set_step n m)"
  using earlier by (auto simp: cur_holds_def set_step_def)

lemma st_law: "cur_holds P m \<Longrightarrow> s_wizardStep st = s_wizardStep (mg_st m) \<Longrightarrow> cur_holds P (m\<lparr>mg_st := st\<rparr>)"
  by (simp add: cur_holds_def)

lemma rest_law: "cur_holds P (m\<lparr>mg_calls := c\<rparr>) = cur_holds P m" "cur_holds P (m\<lparr>mg_alive := b\<rparr>) = cur_holds P m"
    "cur_holds P (m\<lparr>mg_escSkip := e\<rparr>) = cur_holds P m" "cur_holds P (set_editKey k m) = cur_holds P m"
    "cur_holds P (m\<lparr>mg_form := None\<rparr>)" "cur_holds P (set_step n (m\<lparr>mg_form := None\<rparr>))"
  by (simp_all add: cur_holds_def form_defs)

lemma new_law: "P (s_wizardStep (mg_st m)) f \<Longrightarrow> cur_holds P (new_form f m)"
  by (simp add: cur_holds_def new_form_def)

lemma new0_law: "P n f \<Longrightarrow> cur_holds P (set_step n (new_form f m))"
  by (simp add: cur_holds_def form_defs)

lemma book_law: "cur_holds P m \<Longrightarrow> (\<And>f. fm_mode (g f) = fm_mode f \<and> fm_data (g f) = fm_data f) \<Longrightarrow> cur_holds P (setForm g m)"
  by (rule setForm_law) (auto intro: book)

lemma error_law: "cur_holds P m \<Longrightarrow> cur_holds P (setValidationError e m)"
  unfolding setValidationError_def by (rule book_law) simp_all

lemma open_law: "cur_holds P m \<Longrightarrow> cur_holds P (fst (openAdd m))" "cur_holds P m \<Longrightarrow> cur_holds P (fst (openEdit i m))"
    "cur_holds P m \<Longrightarrow> cur_holds P (fst (openDelete q i m))"
  by (auto simp: openAdd_def openEdit_def openDelete_def rest_law fresh intro!: new_law new0_law split: option.splits)

lemma close_law: "cur_holds P m \<Longrightarrow> cur_holds P (closeModal m)" "cur_holds P m \<Longrightarrow> cur_holds P (close_unless_busy m)"
  by (auto simp: close_unless_busy_def closeModal_def rest_law split: option.splits)

lemma next_law: "cur_holds P m \<Longrightarrow> form_at m = Some (i, f) \<Longrightarrow> fm_mode f = ''add'' \<Longrightarrow> cur_holds P (next_step m)"
proof -
  assume m: "cur_holds P m" and f: "form_at m = Some (i, f)" "fm_mode f = ''add''"
  show "cur_holds P (next_step m)"
  proof (cases "next_issue (mL m) (s_wizardStep (mg_st m)) f")
    case None
    have "P (min 3 (Suc (s_wizardStep (mg_st m)))) f" using later [OF at_law [OF m f(1)] None f(2)] .
    then have "P (min 3 (Suc (s_wizardStep (mg_st m)))) (f\<lparr>fm_err := Null, fm_fieldErrors := [], fm_rev := n\<rparr>)" for n
      by (rule book) simp_all
    then show ?thesis using m f None by (auto simp: next_step_def cur_holds_def form_defs split: if_splits)
  qed (use m f in \<open>simp add: next_step_def error_law\<close>)
qed

lemma back_law: "cur_holds P m \<Longrightarrow> cur_holds P (back_step m)"
proof -
  assume m: "cur_holds P m"
  have s: "s_wizardStep (mg_st (setForm no_err m)) = s_wizardStep (mg_st m)" by (auto simp: form_defs split: option.splits)
  show "cur_holds P (back_step m)"
    using book_law [OF m, of no_err] by (auto simp: back_step_def s no_err_def close_law(2) [OF m] intro!: step_law)
qed

lemma pick_law: "cur_holds P m \<Longrightarrow> cur_holds P (pick_step n m)"
proof -
  assume m: "cur_holds P m"
  have s: "s_wizardStep (mg_st (setForm no_err m)) = s_wizardStep (mg_st m)" by (auto simp: form_defs split: option.splits)
  show "cur_holds P (pick_step n m)"
    using book_law [OF m, of no_err] m by (auto simp: pick_step_def s no_err_def intro!: step_law)
qed

lemma type_law: "cur_holds P m \<Longrightarrow> s_wizardStep (mg_st m) = 0 \<Longrightarrow> cur_holds P (pick_type t m)"
proof (cases "form_at m")
  case (Some p)
  assume m: "cur_holds P m" and s: "s_wizardStep (mg_st m) = 0"
  obtain i f where f: "form_at m = Some (i, f)" using Some by (cases p) simp
  let ?f1 = "fput ''type'' (JStr t) f" let ?f2 = "if \<not> isFTType t \<and> fm_tab ?f1 = ''vm'' then ?f1\<lparr>fm_tab := ''basic''\<rparr> else ?f1"
  have "P 0 ?f1" using choice [of f t] at_law [OF m f] s by simp
  then have "P 0 ?f2" by (cases "\<not> isFTType t \<and> fm_tab ?f1 = ''vm''") (simp_all only: if_True if_False, simp add: book)
  then have "cur_holds P (put_form i (autoKey ?f2) m)" using put_law [OF m f] key s by auto
  then show ?thesis using f by (auto simp: pick_type_def Let_def no_test_def intro!: book_law)
qed (simp add: pick_type_def)

lemma field_law: "cur_holds P m \<Longrightarrow> form_at m = Some (i, f) \<Longrightarrow> typeable l (s_wizardStep (mg_st m)) f k \<Longrightarrow> cur_holds P (type_field k v m)"
proof -
  assume m: "cur_holds P m" and f: "form_at m = Some (i, f)" and k: "typeable l (s_wizardStep (mg_st m)) f k"
  let ?s = "s_wizardStep (mg_st m)" let ?f1 = "fput k (JStr v) f"
  let ?f2 = "if has_error f k then ?f1\<lparr>fm_fieldErrors := adel k (fm_fieldErrors f), fm_err := Null\<rparr> else ?f1"
  have "P ?s ?f1" using typed [OF at_law [OF m f] k] .
  then have "P ?s ?f2" by (cases "has_error f k") (simp_all add: book)
  then have "P ?s (if b then autoKey ?f2 else ?f2)" for b using key by (cases b) (simp_all only: if_True if_False)
  then have p: "cur_holds P (put_form i (if fm_mode ?f2 = ''add'' \<and> k = ''mgmt'' then autoKey ?f2 else ?f2) m)" by (rule put_law [OF m f])
  have "cur_holds P (setForm no_test (put_form i (if fm_mode ?f2 = ''add'' \<and> k = ''mgmt'' then autoKey ?f2 else ?f2) m))"
    by (rule book_law [OF p]) (simp add: no_test_def)
  with p show ?thesis unfolding type_field_def f by (simp only: option.case prod.case Let_def if_split) blast
qed

lemma vm_law: "cur_holds P m \<Longrightarrow> cur_holds P (type_vm n k v m)" "cur_holds P m \<Longrightarrow> cur_holds P (add_vm m)"
    "cur_holds P m \<Longrightarrow> cur_holds P (del_vm n m)" "cur_holds P m \<Longrightarrow> cur_holds P (fillVms m)" "cur_holds P m \<Longrightarrow> cur_holds P (show_pw k m)"
  by (auto simp: type_vm_def add_vm_def del_vm_def fillVms_def show_pw_def Let_def intro!: book_law put_law elim: book [OF at_law]
      split: option.splits)

lemma call_law: "cur_holds P m \<Longrightarrow> cur_holds P (fst (start_call c i me u b m))"
  by (simp add: start_call_def rest_law)

lemma request_law: "cur_holds P m \<Longrightarrow> cur_holds P (fst (submit m))" "cur_holds P m \<Longrightarrow> cur_holds P (fst (doDelete m))"
    "cur_holds P m \<Longrightarrow> cur_holds P (fst (testConnection m))"
proof -
  assume m: "cur_holds P m"
  show "cur_holds P (fst (submit m))"
  proof (cases "form_at m")
    case (Some p)
    obtain i f where f: "form_at m = Some (i, f)" using Some by (cases p) simp
    have "cur_holds P (put_form i (if fm_mode f = ''add'' then autoKey f else f) m)"
      using put_law [OF m f] at_law [OF m f] key by auto
    then show ?thesis using f m
      by (auto simp: submit_def Let_def make_busy_def error_law intro!: call_law book_law split: option.splits)
  qed (simp add: submit_def m)
  show "cur_holds P (fst (doDelete m))"
    using m by (auto simp: doDelete_def make_busy_def error_law intro!: call_law book_law split: option.splits)
  show "cur_holds P (fst (testConnection m))"
    using m by (auto simp: testConnection_def intro!: call_law book_law split: option.splits)
qed

lemma end_law: "cur_holds P m \<Longrightarrow> cur_holds P (end_form same m)" "cur_holds P m \<Longrightarrow> cur_holds P (fst (fail_form same e t m))"
  by (auto simp: end_form_def fail_form_def rest_law intro!: book_law)

lemma settle_law: "cur_holds P m \<Longrightarrow> cur_holds P (fst (settle_call h n e r m))"
proof -
  assume "cur_holds P m"
  then have m: "cur_holds P (m\<lparr>mg_calls := cs\<rparr>)" for cs by (simp add: rest_law)
  have "cur_holds P (setForm (\<lambda>f. (fput ''_testRev'' (next_testRev f) f)\<lparr>fm_testing := b, fm_testResult := x, fm_testErr := y\<rparr>) (m\<lparr>mg_calls := cs\<rparr>))"
    for b x y cs
    by (rule setForm_law [OF m]) (rule book [OF test], simp_all)
  then show ?thesis using m
    by (auto simp: settle_call_def settle_submit_def settle_delete_def settle_test_def drop_device_def Let_def rest_law
        intro!: end_law st_law split: call_kind.splits if_splits)
qed

lemma do_law: "cur_holds P m \<Longrightarrow> allowed m ev \<Longrightarrow> cur_holds P (fst (mng_do h q ev m))"
proof -
  assume m: "cur_holds P m" and ok: "allowed m ev"
  show "cur_holds P (fst (mng_do h q ev m))"
  proof (cases "mg_alive m")
    case dead: False
    have "cur_holds P (m\<lparr>mg_alive := True\<rparr>)" using m by (simp add: rest_law)
    then show ?thesis using m dead
      by (cases ev) (auto simp: mng_do_def mount_manage_def rest_law settle_law Let_def open_law split: option.splits intro!: st_law)
  next
    case live: True
    note simps = mng_do_def live mount_manage_def rest_law m settle_law open_law toggleGroup_def close_law request_law pick_law back_law
      vm_law Let_def
    have nxt: "cur_holds P (next_step m)" if "ev = MgNext"
      using allowed_next next_law [OF m] ok that by blast
    have fld: "cur_holds P (type_field k v m)" if "ev = MgField k v" for k v
      using allowed_field field_law [OF m] ok that by blast
    have cho: "cur_holds P (pick_type t m)" if "ev = MgType t" for t
      using allowed_type type_law [OF m] ok that by blast
    have esc: "cur_holds P (escape a b li m)" for a b li
      using m close_law(1) by (auto simp: escape_def rest_law split: option.splits)
    have tab: "cur_holds P (setForm (\<lambda>f. f\<lparr>fm_tab := t f, fm_err := Null\<rparr>) m)"
      "cur_holds P (setForm (\<lambda>f. f\<lparr>fm_tab := t f, fm_err := Null, fm_fieldErrors := []\<rparr>) m)" for t
      by (rule book_law [OF m], simp)+
    show ?thesis by (cases ev) (simp_all add: simps nxt fld cho esc tab st_law)
  qed
qed

lemma reach_law: "mng_reach h q m \<Longrightarrow> cur_holds P m"
proof (induction rule: mng_reach.induct)
  case (start st)
  show ?case by (simp add: cur_holds_def manage_start_def)
next
  case (step m ev)
  then show ?case by (simp add: mng_step_def do_law)
qed

end

section \<open>The two laws\<close>

definition wf_form :: "nat \<Rightarrow> mform \<Rightarrow> bool" where
  "wf_form s f \<longleftrightarrow> is_map (fm_data f) \<and> fm_mode f \<in> {''add'', ''edit'', ''delete''}"

definition creds_given :: "mform \<Rightarrow> bool" where
  "creds_given f \<longleftrightarrow> (\<forall>c \<in> set (reqCredFields (ftext f ''type'') (ftext f ''platform'')). \<not> cred_empty f c)"

definition wiz_ok :: "nat \<Rightarrow> mform \<Rightarrow> bool" where
  "wiz_ok s f \<longleftrightarrow> is_map (fm_data f) \<and> (fm_mode f = ''add'' \<longrightarrow>
     (1 \<le> s \<longrightarrow> trim (ftext f ''label'') \<noteq> []) \<and> (2 \<le> s \<longrightarrow> trim (ftext f ''mgmt'') \<noteq> []) \<and> (3 \<le> s \<longrightarrow> creds_given f))"

lemma page_keys:
  "typeable l s f k \<Longrightarrow> fm_mode f = ''add'' \<Longrightarrow> s = 0 \<or> s = 1 \<and> k \<noteq> ''label'' \<or> s = 2 \<and> k \<noteq> ''label'' \<and> k \<noteq> ''mgmt''"
  by (auto simp: typeable_def page_fields_def connGroup_def authGroup_def node_fields_def field_def pwField_def selectField_def Let_def
      split: if_splits)

lemma cred_keys: "c \<in> set (reqCredFields t p) \<Longrightarrow> fst c \<in> {''admin_user'', ''admin_pass'', ''root_pass'', ''bmc_ip'', ''community''}"
  by (auto simp: reqCredFields_def split: if_splits)

lemma creds_fput:
  assumes "is_map (fm_data f)" "k \<notin> {''type'', ''platform'', ''admin_user'', ''admin_pass'', ''root_pass'', ''bmc_ip'', ''community''}"
  shows "creds_given (fput k v f) = creds_given f"
proof -
  have "cred_empty (fput k v f) c = cred_empty f c" if "c \<in> set (reqCredFields t p)" for c t p
    using cred_keys [OF that] assms by (auto simp: cred_empty_def ftext_fput split: prod.splits)
  then show ?thesis using assms by (auto simp: creds_given_def ftext_fput)
qed

lemma creds_cong: "fm_data (g :: mform) = fm_data f \<Longrightarrow> creds_given g = creds_given f"
  using ftext_cong [of g f] by (simp add: creds_given_def cred_empty_def split_beta)

lemma issue_creds: "reqCredIssue l f = None \<Longrightarrow> fm_mode f \<noteq> ''edit'' \<Longrightarrow> creds_given f"
  by (auto simp: reqCredIssue_def creds_given_def find_None_iff split: option.splits prod.splits)

lemma wiz_fput: "wiz_ok s f \<Longrightarrow> wiz_ok s (fput ''key'' v f)" "wiz_ok s f \<Longrightarrow> wiz_ok s (fput ''_testRev'' v f)"
  by (simp_all add: wiz_ok_def ftext_fput creds_fput)

interpretation shape: form_law wf_form
  by unfold_locales (auto simp: wf_form_def)

interpretation wizard: form_law wiz_ok
proof
  fix s and f g :: mform assume "wiz_ok s f" "fm_mode g = fm_mode f" "fm_data g = fm_data f"
  then show "wiz_ok s g" using creds_cong [of g f] ftext_cong [of g f] by (simp add: wiz_ok_def)
next
  fix s f l k v assume w: "wiz_ok s f" and k: "typeable l s f k"
  then show "wiz_ok s (fput k (JStr v) f)"
    using page_keys [OF k] by (cases "fm_mode f = ''add''") (auto simp: wiz_ok_def ftext_fput)
next
  fix s f l assume "wiz_ok s f" "next_issue l s f = None" "fm_mode f = ''add''"
  then show "wiz_ok (min 3 (Suc s)) f"
    using issue_creds [of l f] by (cases "s = 0"; cases "s = 1"; cases "s = 2") (auto simp: wiz_ok_def next_issue_def split: if_splits)
next
  fix s f assume "wiz_ok s f"
  then show "wiz_ok s (autoKey f)" by (simp add: autoKey_def Let_def wiz_fput)
next
  fix s f x assume "wiz_ok s f"
  then show "wiz_ok s (fput ''_testRev'' x f)" by (simp add: wiz_fput)
qed (auto simp: wiz_ok_def)

text \<open>
  The wizard asks for everything before its last page: whatever was opened, typed, chosen, undone and answered meanwhile,
  when the page of confirmation shows the form of a new device, its name, its address and every credential its type needs are filled in,
  so that the only field \<open>submit\<close> can still complain about before it derives the key is the position on the floor.
\<close>

theorem wizard_confirms_complete_form:
  assumes "mng_reach h q m" and "form_at m = Some (i, f)" and "fm_mode f = ''add''" and "s_wizardStep (mg_st m) = 3"
  shows "trim (ftext f ''label'') \<noteq> [] \<and> trim (ftext f ''mgmt'') \<noteq> []
    \<and> reqCredIssue l f = None \<and> (case form_issue l f of None \<Rightarrow> True | Some e \<Rightarrow> fst e = ''floor_pos'')"
proof -
  have w: "wiz_ok 3 f" using wizard.at_law [OF wizard.reach_law [OF assms(1)] assms(2)] assms(4) by simp
  then have c: "creds_given f" using assms(3) by (simp add: wiz_ok_def)
  then have "find (cred_empty f) (reqCredFields (ftext f ''type'') (ftext f ''platform'')) = None"
    by (simp add: find_None_iff creds_given_def)
  then have r: "reqCredIssue l f = None" by (simp add: reqCredIssue_def)
  then show ?thesis using w assms(3) by (auto simp: wiz_ok_def form_issue_def)
qed

section \<open>The badges\<close>

lemma field_parts [simp]:
  "ff_key (field f k la ph r ls) = k" "ff_req (field f k la ph r ls) = r" "ff_kind (field f k la ph r ls) = TextF ls"
  "ff_key (pwField f k la ph r) = k" "ff_req (pwField f k la ph r) = r" "ff_kind (pwField f k la ph r) = PassF"
  "ff_key (selectField f k la os) = k" "ff_req (selectField f k la os) = None" "ff_kind (selectField f k la os) = SelectF os"
  by (simp_all add: field_def pwField_def selectField_def)

lemmas groups = connGroup_def authGroup_def reqCredFields_def node_fields_def bmc_shown_def isFTType_def

text \<open>
  The badges say what is checked: for every type of device and every way of collection, the fields of the pages for
  the connection and the credentials that carry the badge \<open>required\<close>, apart from the address itself, are the fields \<open>reqCredIssue\<close>
  demands, in its order, and a field is drawn as a password exactly when its content is not trimmed.
\<close>

theorem badges_are_checked:
  "map (\<lambda>d. (ff_key d, ff_kind d = PassF)) (filter (\<lambda>d. ff_req d = Some True \<and> ff_key d \<noteq> ''mgmt'') (connGroup l f @ authGroup l f))
   = map (\<lambda>c. (fst c, fst (snd c))) (reqCredFields (ftext f ''type'') (ftext f ''platform''))"
proof -
  consider "ftext f ''type'' \<in> {''EV'', ''EDGE'', ''END'', ''FTS''}" | "ftext f ''type'' = ''WIN''" | "ftext f ''type'' = ''PI''"
    | "ftext f ''type'' = ''SRV''" | "ftext f ''type'' = ''NAS''" | "ftext f ''type'' = ''PLC''"
    | "ftext f ''type'' \<notin> {''EV'', ''EDGE'', ''END'', ''FTS'', ''WIN'', ''PI'', ''SRV'', ''NAS'', ''PLC''}" by blast
  then show ?thesis
  proof cases
    case 1
    then show ?thesis by (elim insertE emptyE) (simp_all add: groups Let_def)
  next
    case 4
    then show ?thesis by (cases "ftext f ''platform'' = ''redfish''"; cases "ftext f ''platform'' = ''both''"; cases "ftext f ''platform'' = ''proxmox''")
      (simp_all add: groups Let_def)
  next
    case 7
    then show ?thesis by (simp add: groups Let_def)
  qed (simp_all add: groups Let_def)
qed
section \<open>Requests\<close>

lemma start_call_sends: "MSend me u b \<in> set (snd (start_call c i me' u' b' m)) \<longleftrightarrow> \<not> isSampleState (mg_st m) \<and> me = me' \<and> u = u' \<and> b = b'"
  by (auto simp: start_call_def)

lemma setForm_st [simp]: "mg_st (setForm g m) = mg_st m" "mg_st (put_form i f m) = mg_st m" "mg_st (setValidationError e m) = mg_st m"
  by (auto simp: form_defs split: option.splits)

lemma submit_sends:
  assumes "MSend me u b \<in> set (snd (submit m))"
  obtains i f f1 where "form_at m = Some (i, f)" "\<not> fm_busy f" "form_issue (mL m) f = None"
    "f1 = (if fm_mode f = ''add'' then autoKey f else f)" "key_issue (mL m) (s_fleet (mg_st m)) f1 = None"
    "\<not> isSampleState (mg_st m)" "me = (if fm_mode f = ''edit'' then ''PUT'' else ''POST'')"
    "u = (if fm_mode f = ''edit'' then cluster_url (fm_origKey f) else clusters_url)" "b = buildBody f1"
  using assms by (auto simp: submit_def start_call_sends Let_def split: option.splits if_splits)

lemma delete_sends:
  assumes "MSend me u b \<in> set (snd (doDelete m))"
  obtains i f where "form_at m = Some (i, f)" "\<not> fm_busy f" "validateDeleteConfirmation (mL m) f = None" "\<not> isSampleState (mg_st m)"
    "me = ''DELETE''" "u = cluster_url (fm_origKey f)" "b = JObj [(''reason'', JStr (trim (ftext f ''delete_reason'')))]"
  using assms by (auto simp: doDelete_def start_call_sends split: option.splits if_splits)

lemma test_sends:
  assumes "MSend me u b \<in> set (snd (testConnection m))"
  obtains i f where "form_at m = Some (i, f)" "fm_mode f \<noteq> ''edit''" "trim (ftext f ''mgmt'') \<noteq> []" "\<not> isSampleState (mg_st m)"
    "me = ''POST''" "u = ''/api/clusters/test''" "b = buildBody f"
  using assms by (auto simp: testConnection_def start_call_sends split: option.splits if_splits)

lemma only_senders:
  assumes "MSend me u b \<in> set (snd (mng_do h q ev m))"
  shows "ev = MgSave \<and> MSend me u b \<in> set (snd (submit m)) \<or> ev = MgConfirm \<and> MSend me u b \<in> set (snd (doDelete m))
    \<or> ev = MgTest \<and> MSend me u b \<in> set (snd (testConnection m))"
  using assms
  by (cases ev) (auto simp: mng_do_def mount_manage_def openAdd_def openEdit_def openDelete_def settle_call_def settle_submit_def
      settle_delete_def fail_form_def Let_def split: option.splits if_splits call_kind.splits)

lemma edit_body: "fm_mode f = ''edit'' \<Longrightarrow> own_keys (buildBody f) = edit_keys f"
  by (simp add: buildBody_def comp_def)

section \<open>A tour of the wizard\<close>

lemma mng_reach_run: "mng_reach h q m \<Longrightarrow> mng_reach h q (fst (mng_run h q evs m))"
proof (induction evs arbitrary: m)
  case (Cons ev evs)
  show ?case using Cons.IH [OF mng_reach.step [OF Cons.prems, of ev]] by (simp add: case_prod_beta)
qed simp

text \<open>The dialog of a new device at a step, in a console that shows live data.\<close>

definition at_step :: "nat \<Rightarrow> mform \<Rightarrow> mng" where
  "at_step n f = (manage_start initialState)\<lparr>mg_st := initialState\<lparr>s_editKey := None, s_wizardStep := n\<rparr>, mg_alive := True, mg_heap := [f], mg_form := Some 0\<rparr>"

lemma at_step_parts [simp]: "form_at (at_step n f) = Some (0, f)" "s_wizardStep (mg_st (at_step n f)) = n" "mg_alive (at_step n f)"
  "mL (at_step n f) = makeL ''ko''" "put_form 0 g (at_step n f) = at_step n g" "set_step k (at_step n f) = at_step k f"
  "isSampleState (mg_st (at_step n f)) = False" "s_fleet (mg_st (at_step n f)) = []" "mg_calls (at_step n f) = []" "mg_form (at_step n f) = Some 0"
  by (simp_all add: at_step_def form_at_def put_form_def set_step_def mL_def isSampleState_def initialState_def manage_start_def)

lemma type_step: "typeable (makeL ''ko'') n f k \<Longrightarrow> fm_fieldErrors f = [] \<Longrightarrow> k \<noteq> ''platform'' \<Longrightarrow>
    fst (mng_step h q (MgField k v) (at_step n f))
      = at_step n (if fm_mode f = ''add'' \<and> k = ''mgmt'' then autoKey (fput k (JStr v) f) else fput k (JStr v) f)"
  by (simp add: mng_step_def allowed_def mng_do_def type_field_def has_error_def Let_def)

definition clear_err :: "mform \<Rightarrow> mform" where "clear_err f = f\<lparr>fm_err := Null, fm_fieldErrors := [], fm_rev := Suc (fm_rev f)\<rparr>"

lemma clear_err_parts [simp]: "ftext (clear_err f) = ftext f" "fm_mode (clear_err f) = fm_mode f" "is_map (fm_data (clear_err f)) = is_map (fm_data f)"
  "fm_fieldErrors (clear_err f) = []" "fm_busy (clear_err f) = fm_busy f"
  by (simp_all add: clear_err_def ftext_def fun_eq_iff)

lemma fput_errors [simp]: "fm_fieldErrors (fput k v f) = fm_fieldErrors f" "fm_fieldErrors (autoKey f) = fm_fieldErrors f"
  by (simp_all add: fput_def autoKey_def Let_def)

lemma step_next: "next_issue (makeL ''ko'') n f = None \<Longrightarrow> fm_mode f = ''add'' \<Longrightarrow> n < 3 \<Longrightarrow>
    fst (mng_step h q MgNext (at_step n f)) = at_step (Suc n) (clear_err f)"
  by (simp add: mng_step_def allowed_def mng_do_def next_step_def page_buttons_def setForm_def clear_err_def Let_def)

definition page1 :: mform where "page1 = clear_err (fput ''label'' (JStr ''Line 1'') emptyForm)"
definition page2 :: mform where "page2 = clear_err (autoKey (fput ''mgmt'' (JStr ''10.0.0.7'') page1))"
definition page3 :: mform where "page3 = clear_err (fput ''admin_pass'' (JStr ''x'') page2)"

lemma empty_texts: "ftext emptyForm ''type'' = ''EV''" "ftext emptyForm ''admin_user'' = ''admin''" "ftext emptyForm ''platform'' = []"
  "ftext emptyForm ''floor_pos'' = []" "fm_fieldErrors emptyForm = []"
  by (simp_all add: ftext_def emptyForm_def form_data_def str_or_def jor_def)

lemma trims: "trim ''Line 1'' = ''Line 1''" "trim ''10.0.0.7'' = ''10.0.0.7''" "trim ''admin'' = ''admin''" "trim [] = []"
  by code_simp+

lemma page_texts: "ftext page3 ''label'' = ''Line 1''" "ftext page3 ''mgmt'' = ''10.0.0.7''" "ftext page3 ''admin_pass'' = ''x''"
  "ftext page3 ''type'' = ''EV''" "ftext page3 ''platform'' = []" "ftext page3 ''floor_pos'' = []" "ftext page3 ''admin_user'' = ''admin''"
  "fm_mode page3 = ''add''" "fm_busy page3 = False" "is_map (fm_data page3)"
  by (simp_all add: page3_def page2_def page1_def ftext_fput ftext_autoKey empty_texts)

lemma tour_reached: "mng_reach h q (at_step 3 page3)"
proof -
  let ?l = "makeL ''ko''"
  have s0: "mng_reach h q (manage_start initialState)" by (rule mng_reach.start)
  have s1: "fst (mng_step h q MgMount (manage_start initialState)) = (manage_start initialState)\<lparr>mg_alive := True\<rparr>"
    by (simp add: mng_step_def allowed_def mng_do_def mount_manage_def manage_start_def form_at_def initialState_def)
  have s2: "fst (mng_step h q MgAdd ((manage_start initialState)\<lparr>mg_alive := True\<rparr>)) = at_step 0 emptyForm"
    by (simp add: mng_step_def allowed_def mng_do_def openAdd_def manage_start_def form_at_def at_step_def form_defs initialState_def isSampleState_def)
  have t: "typeable ?l 0 emptyForm ''label''" "typeable ?l 1 page1 ''mgmt''" "typeable ?l 2 page2 ''admin_pass''"
    by (simp_all add: typeable_def page_fields_def basicFields_def connGroup_def authGroup_def field_def pwField_def isFTType_def Let_def
        page1_def page2_def ftext_fput ftext_autoKey empty_texts)
  have n: "next_issue ?l 0 (fput ''label'' (JStr ''Line 1'') emptyForm) = None"
    "next_issue ?l 1 (autoKey (fput ''mgmt'' (JStr ''10.0.0.7'') page1)) = None"
    "next_issue ?l 2 (fput ''admin_pass'' (JStr ''x'') page2) = None"
    by (simp_all add: next_issue_def reqCredIssue_def reqCredFields_def isFTType_def cred_empty_def
        page1_def page2_def ftext_fput ftext_autoKey empty_texts trims)
  have "mng_reach h q (at_step 0 emptyForm)" using mng_reach.step [OF mng_reach.step [OF s0, of MgMount, unfolded s1], of MgAdd] by (simp add: s2)
  from mng_reach.step [OF mng_reach.step [OF this, of "MgField ''label'' ''Line 1''"], of MgNext]
  have "mng_reach h q (at_step 1 page1)" using n(1) by (simp add: type_step t empty_texts step_next page1_def)
  from mng_reach.step [OF mng_reach.step [OF this, of "MgField ''mgmt'' ''10.0.0.7''"], of MgNext]
  have "mng_reach h q (at_step 2 page2)" using n(2) t(2) by (simp add: type_step step_next page2_def page1_def numeral_2_eq_2)
  from mng_reach.step [OF mng_reach.step [OF this, of "MgField ''admin_pass'' ''x''"], of MgNext]
  show ?thesis using n(3) t(3) by (simp add: type_step step_next page3_def page2_def page1_def)
qed

text \<open>
  C11. No unchecked request: whatever happened before, a request leaves the page only outside of sample mode and
  from the dialog on display. A new device is posted with its form filled in, a key nobody in the fleet has and a floor position that
  has the right form or is empty; an edit carries the fields of display and nothing else, no credential and no address; a
  deletion has a reason of at most 500 characters and the exact id of the device typed; a test has an address.
\<close>

theorem requests_are_checked:
  assumes "mng_reach h q m" and "MSend me u b \<in> set (snd (mng_step h q ev m))"
  shows "\<not> isSampleState (mg_st m) \<and> (\<exists>i f. form_at m = Some (i, f) \<and>
     (me = ''POST'' \<and> u = clusters_url \<and> fm_mode f = ''add'' \<and> \<not> fm_busy f \<and> b = buildBody (autoKey f)
        \<and> trim (ftext f ''label'') \<noteq> [] \<and> trim (ftext f ''mgmt'') \<noteq> [] \<and> reqCredIssue (mL m) f = None
        \<and> floor_ok (trim (ftext f ''floor_pos'')) \<and> ftext (autoKey f) ''key'' \<notin> insert [] (d_id ` set (s_fleet (mg_st m)))
    \<or> me = ''PUT'' \<and> u = cluster_url (fm_origKey f) \<and> fm_mode f = ''edit'' \<and> \<not> fm_busy f \<and> trim (ftext f ''label'') \<noteq> []
        \<and> set (own_keys b) \<subseteq> set (''vendor'' # EDIT_FIELDS)
    \<or> me = ''DELETE'' \<and> u = cluster_url (fm_origKey f) \<and> fm_mode f = ''delete'' \<and> \<not> fm_busy f
        \<and> trim (ftext f ''delete_phrase'') = fm_origKey f \<and> trim (ftext f ''delete_reason'') \<noteq> [] \<and> length (trim (ftext f ''delete_reason'')) \<le> 500
    \<or> me = ''POST'' \<and> u = ''/api/clusters/test'' \<and> fm_mode f = ''add'' \<and> trim (ftext f ''mgmt'') \<noteq> []))"
proof -
  have al: "allowed m ev" and d: "MSend me u b \<in> set (snd (mng_do h q ev m))" using assms(2) by (auto simp: mng_step_def split: if_splits)
  have md: "fm_mode f \<in> {''add'', ''edit'', ''delete''}" if "form_at m = Some (i, f)" for i f
    using shape.at_law [OF shape.reach_law [OF assms(1)] that] by (simp add: wf_form_def)
  from only_senders [OF d] show ?thesis
  proof (elim disjE conjE)
    assume ev: "ev = MgSave" and x: "MSend me u b \<in> set (snd (submit m))"
    obtain i f f1 where f: "form_at m = Some (i, f)" "\<not> fm_busy f" "form_issue (mL m) f = None"
      "f1 = (if fm_mode f = ''add'' then autoKey f else f)" "key_issue (mL m) (s_fleet (mg_st m)) f1 = None"
      "\<not> isSampleState (mg_st m)" "me = (if fm_mode f = ''edit'' then ''PUT'' else ''POST'')"
      "u = (if fm_mode f = ''edit'' then cluster_url (fm_origKey f) else clusters_url)" "b = buildBody f1"
      using submit_sends [OF x] .
    have "fm_mode f \<noteq> ''delete''" using al f(1) by (auto simp: ev allowed_def page_buttons_def split: if_splits)
    then have mode: "fm_mode f = ''add'' \<or> fm_mode f = ''edit''" using md [OF f(1)] by simp
    have lab: "trim (ftext f ''label'') \<noteq> []" using f(3) by (auto simp: form_issue_def split: if_splits)
    from mode show ?thesis
    proof
      assume a: "fm_mode f = ''add''"
      have "trim (ftext f ''mgmt'') \<noteq> []" "reqCredIssue (mL m) f = None" "floor_ok (trim (ftext f ''floor_pos''))"
        using f(3) a by (auto simp: form_issue_def split: if_splits option.splits)
      moreover have "trim (ftext f1 ''key'') \<noteq> []" "ftext f1 ''key'' \<notin> d_id ` set (s_fleet (mg_st m))" "f1 = autoKey f"
        using f(4,5) a by (auto simp: key_issue_def split: if_splits)
      ultimately show ?thesis using f a lab by (auto simp: trim_def)
    next
      assume a: "fm_mode f = ''edit''"
      then have "set (own_keys b) \<subseteq> set (''vendor'' # EDIT_FIELDS)" using f(4,9) by (auto simp: edit_body edit_keys_def split: if_splits)
      then show ?thesis using f a lab by auto
    qed
  next
    assume ev: "ev = MgConfirm" and x: "MSend me u b \<in> set (snd (doDelete m))"
    obtain i f where f: "form_at m = Some (i, f)" "\<not> fm_busy f" "validateDeleteConfirmation (mL m) f = None" "\<not> isSampleState (mg_st m)"
      "me = ''DELETE''" "u = cluster_url (fm_origKey f)" "b = JObj [(''reason'', JStr (trim (ftext f ''delete_reason'')))]"
      using delete_sends [OF x] .
    have "fm_mode f = ''delete''" using al f(1) by (auto simp: ev allowed_def page_buttons_def split: if_splits)
    then show ?thesis using f by (auto simp: validateDeleteConfirmation_def Let_def split: if_splits)
  next
    assume ev: "ev = MgTest" and x: "MSend me u b \<in> set (snd (testConnection m))"
    obtain i f where f: "form_at m = Some (i, f)" "fm_mode f \<noteq> ''edit''" "trim (ftext f ''mgmt'') \<noteq> []" "\<not> isSampleState (mg_st m)"
      "me = ''POST''" "u = ''/api/clusters/test''" "b = buildBody f"
      using test_sends [OF x] .
    have "fm_mode f = ''add''" using al f(1) by (auto simp: ev allowed_def page_buttons_def split: if_splits)
    then show ?thesis using f by auto
  qed
qed

lemma tour_request: "MSend ''POST'' clusters_url (buildBody (autoKey page3)) \<in> set (snd (mng_step h q MgSave (at_step 3 page3)))"
proof -
  have "slug_of ''10.0.0.7'' = ''10-0-0-7''" "trim ''ev-10-0-0-7'' = ''ev-10-0-0-7''" "KEY_PREFIX ''EV'' = ''ev''" by code_simp+
  then have k: "ftext (autoKey page3) ''key'' = ''ev-10-0-0-7''"
    by (simp add: autoKey_def Let_def ftext_fput page_texts)
  have "form_issue (makeL ''ko'') page3 = None"
    by (simp add: form_issue_def page_texts trims reqCredIssue_def reqCredFields_def isFTType_def cred_empty_def floor_ok_def)
  moreover have "key_issue (makeL ''ko'') [] (autoKey page3) = None"
    using \<open>trim ''ev-10-0-0-7'' = _\<close> by (simp add: key_issue_def k)
  ultimately show ?thesis
    by (simp add: mng_step_def allowed_def mng_do_def submit_def page_texts page_buttons_def start_call_def setForm_def Let_def)
qed

theorem requests_are_checked_witness: "ftext (autoKey page3) ''key'' \<notin> insert [] (d_id ` set (s_fleet (mg_st (at_step 3 page3))))"
  using requests_are_checked [OF tour_reached [of code_host "''op''"] tour_request]
  by (simp add: page_texts clusters_url_def)

theorem wizard_confirms_complete_form_witness: "reqCredIssue (makeL ''ko'') page3 = None \<and> trim (ftext page3 ''mgmt'') \<noteq> []"
  using wizard_confirms_complete_form [OF tour_reached [of code_host "''op''"], of 0 page3 "makeL ''ko''"] by (simp add: page_texts)

end
