(* ===== verification/ManageEffects.thy ===== *)
theory ManageEffects
  imports ManageSafe PollLoop
begin

text \<open>
  What an answer to device management does to the console. A deletion removes the device with everything the operators
  have kept for it, touches nothing of the others, and the shell carries exactly that to the server. An edit shows what the
  server confirmed, and the polls that do not know it yet do not take it back. An answer that comes for a form no longer on
  display changes no form. The last theorem is a dialog that cannot be closed any more.
\<close>

section \<open>Keys of a device\<close>

lemma drop_keys: "foldl (\<lambda>m k. if Q k then jdel k m else m) (JObj ps) ks = JObj (filter (\<lambda>p. \<not> (Q (fst p) \<and> fst p \<in> set ks)) ps)"
proof (induction ks arbitrary: ps)
  case Nil
  have "filter (\<lambda>p. True) ps = ps" by simp
  then show ?case by (simp del: filter_True)
next
  case (Cons k ks)
  have "filter (\<lambda>p. \<not> (Q (fst p) \<and> fst p \<in> set ks)) (adel k ps) = filter (\<lambda>p. \<not> (Q (fst p) \<and> fst p \<in> set (k # ks))) ps" if "Q k"
    unfolding adel_def filter_filter by (rule filter_cong) (use that in auto)
  moreover have "filter (\<lambda>p. \<not> (Q (fst p) \<and> fst p \<in> set ks)) ps = filter (\<lambda>p. \<not> (Q (fst p) \<and> fst p \<in> set (k # ks))) ps" if "\<not> Q k"
    by (rule filter_cong) (use that in auto)
  ultimately show ?case by (simp add: Cons.IH del: set_simps)
qed

lemma obj_copy_obj: "\<exists>ps. obj_copy v = JObj ps"
  by (cases v) simp_all

lemma map_of_filter_key: "map_of (filter (\<lambda>p. Q (fst p)) ps) k = (if Q k then map_of ps k else None)"
  by (induction ps) auto

definition others_keys :: "string \<Rightarrow> (string \<times> jsval) list \<Rightarrow> (string \<times> jsval) list" where
  "others_keys i ps = filter (\<lambda>p. \<not> key_of_device i (fst p)) ps"

lemma drop_device_acks: "obj_copy (s_ackedAlerts st) = JObj ps \<Longrightarrow> s_ackedAlerts (drop_device i st) = JObj (others_keys i ps)"
  by (simp add: drop_device_def drop_keys others_keys_def cong: filter_cong)

lemma drop_device_maps:
  "obj_copy (s_maint st) = JObj ps \<Longrightarrow> s_maint (drop_device i st) = JObj (adel i ps)"
  "obj_copy (s_notes st) = JObj qs \<Longrightarrow> s_notes (drop_device i st) = JObj (adel i qs)"
  by (simp_all add: drop_device_def)

lemma key_of_alert:
  assumes "CHR 0x01 \<notin> set i" "CHR 0x01 \<notin> set x"
  shows "key_of_device i (alertAckKey x name desc time) \<longleftrightarrow> x = i"
proof -
  have k: "alertAckKey x name desc time = x @ CHR 0x01 # join [CHR 0x01] [name, desc, time]" by (simp add: alertAckKey_def)
  have "takeWhile (\<lambda>c. c \<noteq> CHR 0x01) (y @ CHR 0x01 # r) = y" if "CHR 0x01 \<notin> set y" for y r
    using that by (induction y) auto
  then have "x @ CHR 0x01 # r = i @ CHR 0x01 # t \<Longrightarrow> x = i" for r t using assms by metis
  then show ?thesis using assms(1) unfolding key_of_device_def k starts_with_append by auto
qed

section \<open>A deletion\<close>

definition answered_ok :: "string \<Rightarrow> reply \<Rightarrow> bool" where
  "answered_ok e r \<longleftrightarrow> truthy (jget (api_result e r) ''ok'')"

lemma settle_delete_state:
  assumes "n < length (mg_calls m)" "cl_kind (mg_calls m ! n) = DeleteCall" "cl_local (mg_calls m ! n) = None" "answered_ok e r"
  shows "mg_st (fst (mng_step h q (MgSettle n e r) m)) = drop_device (fm_origKey (mg_heap m ! cl_form (mg_calls m ! n))) (mg_st m)"
proof -
  have "allowed m (MgSettle n e r)" by (simp add: allowed_def Let_def split: option.splits)
  then show ?thesis using assms by (simp add: mng_step_def mng_do_def settle_call_def settle_delete_def Let_def answered_ok_def)
qed

text \<open>
  C12. A deletion leaves nothing of its device and touches nothing of the others. When the server confirms it, the fleet is the
  old one without the device, the page no longer selects it, its maintenance window and its note are gone, and of the
  acknowledgements exactly the device's are: of the keys the console gives to alerts, those of this device and no other, however the
  ids begin.
\<close>

theorem delete_leaves_nothing:
  assumes "n < length (mg_calls m)" and "cl_kind (mg_calls m ! n) = DeleteCall" and "cl_local (mg_calls m ! n) = None" and "answered_ok e r"
    and "i = fm_origKey (mg_heap m ! cl_form (mg_calls m ! n))" and "CHR 0x01 \<notin> set i"
    and "st = mg_st m" and "st' = mg_st (fst (mng_step h q (MgSettle n e r) m))"
  shows "s_fleet st' = filter (\<lambda>d. d_id d \<noteq> i) (s_fleet st) \<and> s_selected st' \<noteq> Some i
    \<and> (\<forall>k. jget (as_map (s_maint st')) k = (if k = i then Undef else jget (as_map (s_maint st)) k))
    \<and> (\<forall>k. jget (as_map (s_notes st')) k = (if k = i then Undef else jget (as_map (s_notes st)) k))
    \<and> (\<forall>k. jget (as_map (s_ackedAlerts st')) k = (if key_of_device i k then Undef else jget (as_map (s_ackedAlerts st)) k))
    \<and> (\<forall>x name desc time. CHR 0x01 \<notin> set x \<longrightarrow> (key_of_device i (alertAckKey x name desc time) \<longleftrightarrow> x = i))"
proof -
  have st': "st' = drop_device i st" using settle_delete_state [OF assms(1-4)] assms(5,7,8) by simp
  obtain ps where ps: "obj_copy (s_ackedAlerts st) = JObj ps" using obj_copy_obj by blast
  obtain ms where ms: "obj_copy (s_maint st) = JObj ms" using obj_copy_obj by blast
  obtain ns where ns: "obj_copy (s_notes st) = JObj ns" using obj_copy_obj by blast
  have "jget (as_map (s_ackedAlerts st')) k = (if key_of_device i k then Undef else jget (as_map (s_ackedAlerts st)) k)" for k
    using map_of_filter_key [of "\<lambda>k. \<not> key_of_device i k" ps k] by (simp add: st' drop_device_acks [OF ps] as_map_def ps others_keys_def)
  moreover have "jget (as_map (s_maint st')) k = (if k = i then Undef else jget (as_map (s_maint st)) k)"
    "jget (as_map (s_notes st')) k = (if k = i then Undef else jget (as_map (s_notes st)) k)" for k
    by (simp_all add: st' drop_device_maps(1) [OF ms] drop_device_maps(2) [OF ns] as_map_def ms ns)
  moreover have "s_fleet st' = filter (\<lambda>d. d_id d \<noteq> i) (s_fleet st) \<and> s_selected st' \<noteq> Some i"
    by (simp add: st' drop_device_def)
  ultimately show ?thesis using key_of_alert [OF assms(6)] by blast
qed

text \<open>A configuration with a deletion of \<open>ev-01\<close> on its way, while there are acknowledgements of it and of \<open>ev-010\<close>.\<close>

definition deleting :: mng where
  "deleting = (manage_start (initialState\<lparr>s_selected := Some ''ev-01'', s_ackedAlerts := JObj [(alertAckKey ''ev-01'' ''PSU'' ''lost'' ''t'', JBool True),
       (alertAckKey ''ev-010'' ''PSU'' ''lost'' ''t'', JBool True)], s_notes := JObj [(''ev-01'', JBool True)]\<rparr>))
     \<lparr>mg_alive := True, mg_heap := [emptyForm\<lparr>fm_mode := ''delete'', fm_origKey := ''ev-01'', fm_busy := True\<rparr>], mg_form := Some 0,
      mg_calls := [\<lparr>cl_kind = DeleteCall, cl_form = 0, cl_body = Null, cl_local = None\<rparr>]\<rparr>"

theorem delete_leaves_nothing_witness:
  "s_selected (mg_st (fst (mng_step code_host ''op'' (MgSettle 0 [] (Answered 200 (JObj []))) deleting))) \<noteq> Some ''ev-01''
   \<and> jget (as_map (s_ackedAlerts (mg_st (fst (mng_step code_host ''op'' (MgSettle 0 [] (Answered 200 (JObj []))) deleting)))))
      (alertAckKey ''ev-010'' ''PSU'' ''lost'' ''t'') = JBool True"
proof -
  have ok: "answered_ok [] (Answered 200 (JObj []))" by (simp add: answered_ok_def api_result_def reply_ok_def obj_over_def)
  have k: "\<not> key_of_device ''ev-01'' (alertAckKey ''ev-010'' ''PSU'' ''lost'' ''t'')" by (simp add: key_of_device_def alertAckKey_def)
  have pre: "0 < length (mg_calls deleting)" "cl_kind (mg_calls deleting ! 0) = DeleteCall" "cl_local (mg_calls deleting ! 0) = None"
    "''ev-01'' = fm_origKey (mg_heap deleting ! cl_form (mg_calls deleting ! 0))" "CHR 0x01 \<notin> set ''ev-01''"
    by (simp_all add: deleting_def)
  have old: "jget (as_map (s_ackedAlerts (mg_st deleting))) (alertAckKey ''ev-010'' ''PSU'' ''lost'' ''t'') = JBool True"
    by (simp add: deleting_def manage_start_def as_map_def alertAckKey_def)
  show ?thesis using delete_leaves_nothing [OF pre(1-3) ok pre(4,5) refl refl, of code_host "''op''"] k old by metis
qed

text \<open>
  C15. The deletion reaches the server: the first render of the shell after it sends, for each of the three shared maps, exactly the keys
  of the device as deletions and no entry, whatever else the maps hold. (The console has seen the old maps; the new ones are
  new objects with the same entries, which is what \<open>Object.assign\<close> makes.)
\<close>

theorem deletion_reaches_server:
  assumes "n < length (mg_calls m)" and "cl_kind (mg_calls m ! n) = DeleteCall" and "cl_local (mg_calls m ! n) = None" and "answered_ok e r"
    and "i = fm_origKey (mg_heap m ! cl_form (mg_calls m ! n))"
    and "s_ackedAlerts (mg_st m) = JObj ps" and "s_maint (mg_st m) = JObj ms" and "s_notes (mg_st m) = JObj ns"
    and "\<And>k. wt_seen w k = Some (shared_map (mg_st m) k)" and "\<And>k. \<not> id_map idn k" and "\<And>k x. id_entry idn k x"
  shows "snd (watch_render idn False (mg_st (fst (mng_step h q (MgSettle n e r) m))) w)
     = [(Ack, \<lparr>dl_set = [], dl_del = filter (key_of_device i) (map fst ps)\<rparr>),
        (Maintenance, \<lparr>dl_set = [], dl_del = filter (\<lambda>k. k = i) (map fst ms)\<rparr>),
        (Notes, \<lparr>dl_set = [], dl_del = filter (\<lambda>k. k = i) (map fst ns)\<rparr>)]"
proof -
  have st: "mg_st (fst (mng_step h q (MgSettle n e r) m)) = drop_device i (mg_st m)" using settle_delete_state [OF assms(1-4)] assms(5) by simp
  have ack: "shared_map (drop_device i (mg_st m)) Ack = JObj (others_keys i ps)"
    "shared_map (drop_device i (mg_st m)) Maintenance = JObj (adel i ms)" "shared_map (drop_device i (mg_st m)) Notes = JObj (adel i ns)"
    using drop_device_acks [of "mg_st m" ps i] drop_device_maps [of "mg_st m"] assms(6-8) by (simp_all add: shared_map_def)
  have old: "wt_seen w Ack = Some (JObj ps)" "wt_seen w Maintenance = Some (JObj ms)" "wt_seen w Notes = Some (JObj ns)"
    by (simp_all add: assms(6-9) shared_map_def)
  have f: "filter (\<lambda>k. k \<notin> fst ` set (others_keys i ps)) (map fst ps) = filter (key_of_device i) (map fst ps)"
    by (rule filter_cong) (auto simp: others_keys_def)
  have g: "filter (\<lambda>k. k \<notin> fst ` set (adel i qs)) (map fst qs) = filter (\<lambda>k. k = i) (map fst qs)" for qs :: "(string \<times> jsval) list"
    by (rule filter_cong) (auto simp: keys_adel)
  show ?thesis
    by (simp add: watch_render_def kind_delta_def st ack old assms(10,11) ackDelta_def jor_def f g Let_def)
qed

definition all_new :: ident where "all_new = \<lparr>id_map = (\<lambda>_. False), id_entry = (\<lambda>_ _. True), id_other = True\<rparr>"
definition seen_all :: watch where
  "seen_all = \<lparr>wt_seen = (\<lambda>k. Some (shared_map (mg_st deleting) k)), wt_lang = Some ''ko'', wt_persisted = 0\<rparr>"

theorem deletion_reaches_server_witness:
  "map (\<lambda>p. dl_del (snd p)) (snd (watch_render all_new False (mg_st (fst (mng_step code_host ''op'' (MgSettle 0 [] (Answered 200 (JObj []))) deleting))) seen_all))
   = [[alertAckKey ''ev-01'' ''PSU'' ''lost'' ''t''], [], [''ev-01'']]"
proof -
  have ok: "answered_ok [] (Answered 200 (JObj []))" by (simp add: answered_ok_def api_result_def reply_ok_def obj_over_def)
  have pre: "0 < length (mg_calls deleting)" "cl_kind (mg_calls deleting ! 0) = DeleteCall" "cl_local (mg_calls deleting ! 0) = None"
    "''ev-01'' = fm_origKey (mg_heap deleting ! cl_form (mg_calls deleting ! 0))"
    "s_ackedAlerts (mg_st deleting) = JObj [(alertAckKey ''ev-01'' ''PSU'' ''lost'' ''t'', JBool True), (alertAckKey ''ev-010'' ''PSU'' ''lost'' ''t'', JBool True)]"
    "s_maint (mg_st deleting) = JObj []" "s_notes (mg_st deleting) = JObj [(''ev-01'', JBool True)]"
    by (simp_all add: deleting_def manage_start_def initialState_def)
  have w: "wt_seen seen_all k = Some (shared_map (mg_st deleting) k)" "\<not> id_map all_new k" "id_entry all_new k x" for k x
    by (simp_all add: seen_all_def all_new_def)
  have k: "key_of_device ''ev-01'' (alertAckKey ''ev-01'' ''PSU'' ''lost'' ''t'')" "\<not> key_of_device ''ev-01'' (alertAckKey ''ev-010'' ''PSU'' ''lost'' ''t'')"
    by (simp_all add: key_of_device_def alertAckKey_def)
  show ?thesis by (simp add: deletion_reaches_server [OF pre(1-3) ok pre(4-7) w] k)
qed

section \<open>An edit\<close>

lemma update_first_simps [simp]:
  "update_first P g [] = []" "update_first P g (x # xs) = (if P x then g x # xs else x # update_first P g xs)"
  by (simp_all add: update_first_def Let_def)

lemma find_update_first: "find P xs = Some x \<Longrightarrow> P (g x) \<Longrightarrow> find P (update_first P g xs) = Some (g x)"
  by (induction xs) (auto split: if_splits)

lemma update_first_others: "(\<And>x. P x \<Longrightarrow> P (g x)) \<Longrightarrow> filter (\<lambda>x. \<not> P x) (update_first P g xs) = filter (\<lambda>x. \<not> P x) xs"
  by (induction xs) auto

text \<open>The value of a field of the form on the device, and the value an edit gives it.\<close>

definition SHOWN_FIELDS :: "string list" where "SHOWN_FIELDS = ''vendor'' # EDIT_FIELDS"

definition shown_field :: "string \<Rightarrow> device \<Rightarrow> string" where
  "shown_field k d = (if k = ''site'' then d_site d else meta_field (meta_key_of k) (d_meta d))"

definition edit_value :: "jsval \<Rightarrow> string \<Rightarrow> string" where
  "edit_value body k = (if k = ''site'' then sor (str_or (jget body k)) DASH else str_or (jget body k))"

lemma shown_cases: "k \<in> set SHOWN_FIELDS \<longleftrightarrow> k = ''vendor'' \<or> k = ''label'' \<or> k = ''company'' \<or> k = ''factory'' \<or> k = ''site'' \<or> k = ''asset_tag'' \<or> k = ''floor_pos''"
  by (auto simp: SHOWN_FIELDS_def EDIT_FIELDS_def)

lemma meta_key_local: "k \<in> set SHOWN_FIELDS \<Longrightarrow> k \<noteq> ''site'' \<Longrightarrow> meta_key_of k \<in> set LOCAL_EDIT_FIELDS"
  by (auto simp: shown_cases meta_key_of_def LOCAL_EDIT_FIELDS_def)

lemma meta_key_inj: "k \<in> set SHOWN_FIELDS \<Longrightarrow> k' \<in> set SHOWN_FIELDS \<Longrightarrow> meta_key_of k = meta_key_of k' \<longleftrightarrow> k = k'"
  by (auto simp: shown_cases meta_key_of_def)

lemma meta_key_site: "k \<in> set SHOWN_FIELDS \<Longrightarrow> meta_key_of k = ''site'' \<longleftrightarrow> k = ''site''" "k \<in> set SHOWN_FIELDS \<Longrightarrow> meta_key_of k \<noteq> ''ts''"
  by (auto simp: shown_cases meta_key_of_def)

lemma apply_one:
  assumes "k \<in> set SHOWN_FIELDS" "k' \<in> set SHOWN_FIELDS" "is_map le"
  shows "shown_field k' (fst (apply_field body (d, le) k)) = (if k' = k then edit_value body k else shown_field k' d)"
    "is_map (snd (apply_field body (d, le) k))"
    "jget (snd (apply_field body (d, le) k)) (meta_key_of k') = (if k' = k then JStr (edit_value body k) else jget le (meta_key_of k'))"
    "has_own (snd (apply_field body (d, le) k)) (meta_key_of k') \<longleftrightarrow> k' = k \<or> has_own le (meta_key_of k')"
  using assms meta_key_local [of k] meta_key_local [of k'] meta_key_inj [of k k'] meta_key_site(1) [of k] meta_key_site(1) [of k']
  by (auto simp: apply_field_def shown_field_def edit_value_def Let_def meta_field_set has_own_jput)

lemma apply_rest:
  "d_id (fst (apply_field body (d, le) k)) = d_id d" "d_status (fst (apply_field body (d, le) k)) = d_status d"
  "d_type (fst (apply_field body (d, le) k)) = d_type d" "m_bmc (d_meta (fst (apply_field body (d, le) k))) = m_bmc (d_meta d)"
  "k \<in> set SHOWN_FIELDS \<Longrightarrow> m_mgmt (d_meta (fst (apply_field body (d, le) k))) = m_mgmt (d_meta d)"
  by (auto simp: apply_field_def set_meta_field_def meta_key_of_def shown_cases Let_def)

lemma apply_fold:
  assumes "set ks \<subseteq> set SHOWN_FIELDS" "is_map le"
  shows "(\<forall>k \<in> set SHOWN_FIELDS.
       shown_field k (fst (foldl (apply_field body) (d, le) ks)) = (if k \<in> set ks then edit_value body k else shown_field k d)
     \<and> jget (snd (foldl (apply_field body) (d, le) ks)) (meta_key_of k) = (if k \<in> set ks then JStr (edit_value body k) else jget le (meta_key_of k))
     \<and> (has_own (snd (foldl (apply_field body) (d, le) ks)) (meta_key_of k) \<longleftrightarrow> k \<in> set ks \<or> has_own le (meta_key_of k)))
   \<and> is_map (snd (foldl (apply_field body) (d, le) ks))
   \<and> d_id (fst (foldl (apply_field body) (d, le) ks)) = d_id d \<and> d_status (fst (foldl (apply_field body) (d, le) ks)) = d_status d
   \<and> d_type (fst (foldl (apply_field body) (d, le) ks)) = d_type d \<and> m_bmc (d_meta (fst (foldl (apply_field body) (d, le) ks))) = m_bmc (d_meta d)
   \<and> m_mgmt (d_meta (fst (foldl (apply_field body) (d, le) ks))) = m_mgmt (d_meta d)"
  using assms
proof (induction ks arbitrary: d le)
  case (Cons k ks)
  obtain d1 le1 where p: "apply_field body (d, le) k = (d1, le1)" by fastforce
  have k: "k \<in> set SHOWN_FIELDS" and "set ks \<subseteq> set SHOWN_FIELDS" using Cons.prems by auto
  moreover have "is_map le1" using apply_one(2) [OF k k Cons.prems(2), of body d] by (simp add: p)
  ultimately show ?case
    using Cons.IH [of le1 d1] apply_one [OF k _ Cons.prems(2), of _ body d] apply_rest [where body = body and d = d and le = le and k = k] by (simp add: p)
qed simp

lemma shown_mark: "shown_field k (d\<lparr>d_meta := (d_meta d)\<lparr>m_localEdit := le\<rparr>\<rparr>) = shown_field k d"
  by (simp add: shown_field_def)

text \<open>The marker of an edit.\<close>

definition marker_of :: "int \<Rightarrow> jsval \<Rightarrow> string list \<Rightarrow> device \<Rightarrow> jsval" where
  "marker_of t body ks d = snd (foldl (apply_field body) (d, JObj [(''ts'', JNum (Fin (of_int t)))]) ks)"

lemma apply_edit_facts:
  assumes "set ks \<subseteq> set SHOWN_FIELDS"
  shows "\<And>k. k \<in> set SHOWN_FIELDS \<Longrightarrow> shown_field k (apply_edit t body ks d) = (if k \<in> set ks then edit_value body k else shown_field k d)"
    "m_localEdit (d_meta (apply_edit t body ks d)) = marker_of t body ks d" "is_map (marker_of t body ks d)"
    "\<And>k. k \<in> set ks \<Longrightarrow> jget (marker_of t body ks d) (meta_key_of k) = JStr (edit_value body k) \<and> has_own (marker_of t body ks d) (meta_key_of k)"
    "d_id (apply_edit t body ks d) = d_id d" "d_status (apply_edit t body ks d) = d_status d" "d_type (apply_edit t body ks d) = d_type d"
    "m_mgmt (d_meta (apply_edit t body ks d)) = m_mgmt (d_meta d)" "m_bmc (d_meta (apply_edit t body ks d)) = m_bmc (d_meta d)"
  using apply_fold [OF assms, of "JObj [(''ts'', JNum (Fin (of_int t)))]" body d] assms
  by (auto simp: apply_edit_def marker_of_def shown_mark case_prod_beta)

lemma applied_shown: "set (applied_of f body res) \<subseteq> set SHOWN_FIELDS"
  by (auto simp: applied_of_def SHOWN_FIELDS_def isEditField_def List.map_filter_def split: jsval.splits if_splits)

lemma settle_edit_state:
  assumes "n < length (mg_calls m)" "cl_kind (mg_calls m ! n) = SubmitCall" "cl_local (mg_calls m ! n) = None" "answered_ok e r"
    "f = mg_heap m ! cl_form (mg_calls m ! n)" "fm_mode f = ''edit''" "ks = applied_of f (cl_body (mg_calls m ! n)) (api_result e r)" "ks \<noteq> []"
  shows "s_fleet (mg_st (fst (mng_step h q (MgSettle n e r) m)))
      = update_first (\<lambda>d. d_id d = fm_origKey f) (apply_edit (now h) (cl_body (mg_calls m ! n)) ks) (s_fleet (mg_st m))"
proof -
  have "allowed m (MgSettle n e r)" by (simp add: allowed_def Let_def split: option.splits)
  then show ?thesis using assms
    by (simp add: mng_step_def mng_do_def settle_call_def settle_submit_def Let_def answered_ok_def end_form_def set_step_def)
qed

text \<open>
  C13. An edit changes what the server confirmed and nothing else. The answer to a saved edit gives the device the value that was sent for
  every field the answer names, leaves every other field of display as it was, and the address, the management controller, the
  state and the type too; every other device of the fleet stays as it is.
\<close>

theorem edit_overlays_confirmed:
  assumes "n < length (mg_calls m)" and "cl_kind (mg_calls m ! n) = SubmitCall" and "cl_local (mg_calls m ! n) = None" and "answered_ok e r"
    and "f = mg_heap m ! cl_form (mg_calls m ! n)" and "fm_mode f = ''edit''"
    and "body = cl_body (mg_calls m ! n)" and "ks = applied_of f body (api_result e r)" and "ks \<noteq> []"
    and "find (\<lambda>d. d_id d = fm_origKey f) (s_fleet (mg_st m)) = Some dev"
    and "fleet' = s_fleet (mg_st (fst (mng_step h q (MgSettle n e r) m)))"
  shows "filter (\<lambda>d. d_id d \<noteq> fm_origKey f) fleet' = filter (\<lambda>d. d_id d \<noteq> fm_origKey f) (s_fleet (mg_st m))
    \<and> (\<exists>dev'. find (\<lambda>d. d_id d = fm_origKey f) fleet' = Some dev'
      \<and> (\<forall>k \<in> set SHOWN_FIELDS. shown_field k dev' = (if k \<in> set ks then edit_value body k else shown_field k dev))
      \<and> d_id dev' = d_id dev \<and> d_status dev' = d_status dev \<and> d_type dev' = d_type dev
      \<and> m_mgmt (d_meta dev') = m_mgmt (d_meta dev) \<and> m_bmc (d_meta dev') = m_bmc (d_meta dev))"
proof -
  let ?P = "\<lambda>d. d_id d = fm_origKey f" and ?g = "apply_edit (now h) body ks"
  have ks: "set ks \<subseteq> set SHOWN_FIELDS" using applied_shown assms(8) by simp
  have fl: "fleet' = update_first ?P ?g (s_fleet (mg_st m))"
    using settle_edit_state [OF assms(1-6)] assms(7-9,11) by simp
  have "d_id dev = fm_origKey f" using assms(10) by (auto simp: find_Some_iff)
  then have "find ?P fleet' = Some (?g dev)"
    unfolding fl using find_update_first [OF assms(10), of ?g] by (simp add: apply_edit_facts [OF ks])
  moreover have "filter (\<lambda>d. \<not> ?P d) fleet' = filter (\<lambda>d. \<not> ?P d) (s_fleet (mg_st m))"
    unfolding fl by (rule update_first_others) (simp add: apply_edit_facts [OF ks])
  ultimately show ?thesis using apply_edit_facts [OF ks] by auto
qed

text \<open>An edit of the label on its way, which the server confirms.\<close>

definition plain_dev :: device where "plain_dev = mkDevice ''ev-01'' EV Op (JObj [])"
definition saving_body :: jsval where "saving_body = JObj [(''label'', JStr ''Line 2'')]"
definition saving :: mng where
  "saving = (manage_start (initialState\<lparr>s_fleet := [plain_dev]\<rparr>))
     \<lparr>mg_alive := True, mg_heap := [emptyForm\<lparr>fm_mode := ''edit'', fm_origKey := ''ev-01'', fm_busy := True\<rparr>], mg_form := Some 0,
      mg_calls := [\<lparr>cl_kind = SubmitCall, cl_form = 0, cl_body = saving_body, cl_local = None\<rparr>]\<rparr>"
definition confirms_label :: reply where "confirms_label = Answered 200 (JObj [(''applied'', JArr [JStr ''label''])])"

lemma saving_facts:
  "0 < length (mg_calls saving)" "cl_kind (mg_calls saving ! 0) = SubmitCall" "cl_local (mg_calls saving ! 0) = None" "answered_ok [] confirms_label"
  "fm_mode (mg_heap saving ! cl_form (mg_calls saving ! 0)) = ''edit''" "cl_body (mg_calls saving ! 0) = saving_body"
  "applied_of (mg_heap saving ! cl_form (mg_calls saving ! 0)) saving_body (api_result [] confirms_label) = [''label'']"
  "find (\<lambda>d. d_id d = fm_origKey (mg_heap saving ! cl_form (mg_calls saving ! 0))) (s_fleet (mg_st saving)) = Some plain_dev"
  "fm_origKey (mg_heap saving ! cl_form (mg_calls saving ! 0)) = ''ev-01''"
  by (simp_all add: saving_def saving_body_def plain_dev_def manage_start_def confirms_label_def answered_ok_def api_result_def reply_ok_def obj_over_def
      applied_of_def isEditField_def EDIT_FIELDS_def List.map_filter_simps mkDevice_def Let_def)

theorem edit_overlays_confirmed_witness:
  "\<exists>d. find (\<lambda>d. d_id d = ''ev-01'') (s_fleet (mg_st (fst (mng_step code_host ''op'' (MgSettle 0 [] confirms_label) saving)))) = Some d
     \<and> m_label (d_meta d) = ''Line 2'' \<and> d_type d = d_type plain_dev"
proof -
  have "''label'' \<in> set SHOWN_FIELDS" by (simp add: SHOWN_FIELDS_def EDIT_FIELDS_def)
  moreover have "shown_field ''label'' d = m_label (d_meta d)" for d by (simp add: shown_field_def meta_key_of_def meta_field_def)
  moreover have "edit_value saving_body ''label'' = ''Line 2''" by (simp add: edit_value_def saving_body_def)
  ultimately show ?thesis
    using edit_overlays_confirmed [OF saving_facts(1-4) refl saving_facts(5) saving_facts(6) [symmetric] saving_facts(7) [symmetric] _ saving_facts(8) refl,
        of code_host "''op''"] saving_facts(9)
    by (metis list.distinct(1) list.set_intros(1))
qed

section \<open>An edit and the polls\<close>

lemma find_map_id: "(\<And>x. d_id (g x) = d_id x) \<Longrightarrow> find (\<lambda>d. d_id d = i) (map g xs) = map_option g (find (\<lambda>d. d_id d = i) xs)"
  by (induction xs) auto

lemma merge_one_id: "d_id (merge_one local srv) = d_id srv"
  by (simp add: merge_one_def overlay_rest split: option.splits)

definition pending_edit :: "string \<Rightarrow> jsval \<Rightarrow> device list \<Rightarrow> bool" where
  "pending_edit i le fleet \<longleftrightarrow> (\<exists>d. find (\<lambda>d. d_id d = i) fleet = Some d \<and> m_localEdit (d_meta d) = le)"

lemma pending_merge:
  assumes "pending_edit i le fleet" "is_obj le" "find (\<lambda>d. d_id d = i) server = Some srv"
  shows "find (\<lambda>d. d_id d = i) (mergeLocalWrites fleet server) = Some (if reflected le srv then srv else overlay le srv)"
    "\<not> reflected le srv \<Longrightarrow> pending_edit i le (mergeLocalWrites fleet server)"
proof -
  have "d_id srv = i" using assms(3) by (auto simp: find_Some_iff)
  moreover have "edit_of fleet i = Some le" using assms(1,2) by (auto simp: edit_of_def pending_edit_def)
  ultimately have "merge_one fleet srv = (if reflected le srv then srv else overlay le srv)" by (simp add: merge_one_def)
  then show f: "find (\<lambda>d. d_id d = i) (mergeLocalWrites fleet server) = Some (if reflected le srv then srv else overlay le srv)"
    using assms(3) by (simp add: mergeLocalWrites_map find_map_id merge_one_id)
  show "\<not> reflected le srv \<Longrightarrow> pending_edit i le (mergeLocalWrites fleet server)"
    using f by (simp add: pending_edit_def overlay_rest)
qed

lemma marked_shown:
  assumes "has_own le (meta_key_of k)" "jget le (meta_key_of k) = JStr v" "k \<in> set SHOWN_FIELDS"
  shows "shown_field k (if reflected le srv then srv else overlay le srv) = v"
proof (cases "k = ''site''")
  case True
  then show ?thesis using assms by (auto simp: shown_field_def meta_key_of_def reflected_def overlay_rest)
next
  case False
  then have l: "meta_key_of k \<in> set LOCAL_EDIT_FIELDS" using meta_key_local [OF assms(3)] by simp
  then have "reflected le srv \<Longrightarrow> meta_field (meta_key_of k) (d_meta srv) = v"
    using assms by (auto simp: reflected_def list_all_iff edit_fields_def)
  then show ?thesis using False l assms by (simp add: shown_field_def overlay_fields)
qed

text \<open>
  The collection loop while an edit is pending. What the events may do: an answer brings the device with an old value, or fails; other changes of the state leave
  the device as it is. A run merges its answer with the fleet it captured, so the edit has to be in those as well.
\<close>

definition edit_shown :: "string \<Rightarrow> jsval \<Rightarrow> string \<Rightarrow> string \<Rightarrow> device list \<Rightarrow> bool" where
  "edit_shown i le k v fleet \<longleftrightarrow> (\<exists>d. find (\<lambda>d. d_id d = i) fleet = Some d \<and> m_localEdit (d_meta d) = le \<and> shown_field k d = v)"

definition loop_shows :: "string \<Rightarrow> jsval \<Rightarrow> string \<Rightarrow> string \<Rightarrow> loop \<Rightarrow> bool" where
  "loop_shows i le k v l \<longleftrightarrow> edit_shown i le k v (s_fleet (lp_st l)) \<and> (\<forall>r \<in> set (lp_flight l). edit_shown i le k v (s_fleet (snd r)))"

definition answer_keeps :: "string \<Rightarrow> jsval \<Rightarrow> host \<Rightarrow> answer \<Rightarrow> bool" where
  "answer_keeps i le h a = (case fst (pull h a) of Inl e \<Rightarrow> True
     | Inr r \<Rightarrow> \<not> pl_sampleMode r \<and> (\<exists>srv. find (\<lambda>d. d_id d = i) (pl_devices r) = Some srv \<and> \<not> reflected le srv))"

definition event_keeps :: "string \<Rightarrow> jsval \<Rightarrow> PollLoop.event \<Rightarrow> bool" where
  "event_keeps i le e = (case e of
     PollLoop.Settle h j a thrown \<Rightarrow> answer_keeps i le h a
   | PollLoop.Local f \<Rightarrow> (\<forall>s. find (\<lambda>d. d_id d = i) (s_fleet (f s)) = find (\<lambda>d. d_id d = i) (s_fleet s))
   | _ \<Rightarrow> True)"

definition run_loop :: "PollLoop.event list \<Rightarrow> loop \<Rightarrow> loop" where
  "run_loop evs l = foldl (\<lambda>l e. fst (loop_step e l)) l evs"

lemma absorb_failed_fleet: "fst (pull h a) = Inl e \<Longrightarrow> s_fleet (lp_st (absorb h snap a t l)) = s_fleet (lp_st l)"
  by (cases "pull h a") (auto simp: absorb_def pullPatch.simps Let_def catch_state_def housekeeping_fleet_eq split: prod.splits option.splits)

lemma settle_failed_fleet: "fst (pull h a) = Inl e \<Longrightarrow> s_fleet (lp_st (fst (settle h i a t l))) = s_fleet (lp_st l)"
  by (simp add: settle_def Let_def setTimer_def absorb_failed_fleet split: prod.splits)

lemma settle_flight: "set (lp_flight (fst (settle h i a t l))) \<subseteq> set (lp_flight l)"
  by (auto simp: settle_def Let_def setTimer_def split: prod.splits dest: in_set_takeD in_set_dropD)

lemma merge_keeps:
  assumes "edit_shown i le k v fleet" "is_obj le" "find (\<lambda>d. d_id d = i) server = Some srv" "\<not> reflected le srv"
    and "has_own le (meta_key_of k)" "jget le (meta_key_of k) = JStr v" "k \<in> set SHOWN_FIELDS"
  shows "edit_shown i le k v (mergeLocalWrites fleet server)"
proof -
  have "pending_edit i le fleet" using assms(1) by (auto simp: edit_shown_def pending_edit_def)
  from pending_merge(1) [OF this assms(2,3)] show ?thesis
    using assms(4) marked_shown [OF assms(5-7), of srv] by (simp add: edit_shown_def overlay_rest)
qed

lemma settle_keeps:
  assumes "loop_shows i le k v l" "answer_keeps i le h a" "is_obj le"
    and "has_own le (meta_key_of k)" "jget le (meta_key_of k) = JStr v" "k \<in> set SHOWN_FIELDS"
  shows "edit_shown i le k v (s_fleet (lp_st (fst (settle h j a t l))))"
proof (cases "j < length (lp_flight l)")
  case j: True
  show ?thesis
  proof (cases "fst (pull h a)")
    case (Inl e)
    then show ?thesis using assms(1) by (simp add: settle_failed_fleet loop_shows_def)
  next
    case (Inr r)
    then obtain srv where srv: "\<not> pl_sampleMode r" "find (\<lambda>d. d_id d = i) (pl_devices r) = Some srv" "\<not> reflected le srv"
      using assms(2) by (auto simp: answer_keeps_def)
    have "edit_shown i le k v (s_fleet (snd (lp_flight l ! j)))" using assms(1) j by (simp add: loop_shows_def)
    from merge_keeps [OF this assms(3) srv(2,3) assms(4-6)] show ?thesis by (simp add: settle_fleet [OF j Inr] srv(1))
  qed
next
  case False
  then show ?thesis using assms(1) by (simp add: settle_def loop_shows_def)
qed

lemma loop_keeps:
  assumes "loop_shows i le k v l" "event_keeps i le e" "is_obj le"
    and "has_own le (meta_key_of k)" "jget le (meta_key_of k) = JStr v" "k \<in> set SHOWN_FIELDS"
  shows "loop_shows i le k v (fst (loop_step e l))"
proof -
  have run: "loop_shows i le k v x \<Longrightarrow> loop_shows i le k v (fst (startRun x))" for x by (auto simp: startRun_def loop_shows_def)
  have clear: "loop_shows i le k v (clearTimer x) = loop_shows i le k v x" for x by (simp add: loop_shows_def)
  have data: "loop_shows i le k v (x\<lparr>lp_gen := g\<rparr>) = loop_shows i le k v x" "loop_shows i le k v (x\<lparr>lp_active := b\<rparr>) = loop_shows i le k v x"
    "loop_shows i le k v (x\<lparr>lp_armed := as\<rparr>) = loop_shows i le k v x" for x g b as by (simp_all add: loop_shows_def)
  show ?thesis
  proof (cases e)
    case (Settle h j a t)
    then show ?thesis
      using settle_keeps [OF assms(1) _ assms(3-6), where h = h and a = a and j = j and t = t] assms(1,2) settle_flight [of h j a t l]
      by (auto simp: event_keeps_def loop_shows_def)
  next
    case (Fire j)
    then show ?thesis using assms(1) run [of "l\<lparr>lp_armed := filter (\<lambda>i. i \<noteq> j) (lp_armed l)\<rparr>"] by (simp add: fire_def data)
  next
    case (Visible b)
    then show ?thesis
      using assms(1) run [of "clearTimer (l\<lparr>lp_active := True\<rparr>)\<lparr>lp_gen := Suc (lp_gen l)\<rparr>"]
      by (simp add: onVisibility_def restartPull_def data clear)
  next
    case PullNow
    then show ?thesis using assms(1) run [of "clearTimer l\<lparr>lp_gen := Suc (lp_gen l)\<rparr>"] by (simp add: pullNow_def restartPull_def data clear)
  next
    case (Tick h)
    have "s_fleet (fst (tick h (lp_st l, lp_onsets l))) = s_fleet (lp_st l)" by (simp add: tick_def Let_def)
    then show ?thesis using Tick assms(1) by (auto simp: loop_shows_def split: prod.splits)
  next
    case (Local f)
    then show ?thesis using assms(1,2) by (simp add: event_keeps_def loop_shows_def edit_shown_def)
  qed
qed

lemma loop_keeps_all:
  assumes "loop_shows i le k v l" "list_all (event_keeps i le) evs" "is_obj le"
    and "has_own le (meta_key_of k)" "jget le (meta_key_of k) = JStr v" "k \<in> set SHOWN_FIELDS"
  shows "loop_shows i le k v (run_loop evs l)"
  using assms(1,2)
proof (induction evs arbitrary: l)
  case (Cons e evs)
  then show ?case using loop_keeps [OF _ _ assms(3-6), where l = l and e = e] by (simp add: run_loop_def)
qed (simp add: run_loop_def)

text \<open>
  C14. A saved edit survives the polls that begin after it. No request of the collection loop is under way when the answer arrives (one that is merges with the fleet of
  before and loses the edit: that is another property); from then on, through any events of the loop, that is timers, retries, late answers, hiding and showing of the tab,
  failed answers and answers in which the device still has an old value, the console shows what was saved in every field the server confirmed, and
  it still does so after one more answer that brings the device with whatever it likes.
\<close>

theorem edit_survives_polls:
  assumes "n < length (mg_calls m)" and "cl_kind (mg_calls m ! n) = SubmitCall" and "cl_local (mg_calls m ! n) = None" and "answered_ok e r"
    and "f = mg_heap m ! cl_form (mg_calls m ! n)" and "fm_mode f = ''edit''"
    and "body = cl_body (mg_calls m ! n)" and "ks = applied_of f body (api_result e r)"
    and "find (\<lambda>d. d_id d = fm_origKey f) (s_fleet (mg_st m)) = Some dev" and "k \<in> set ks"
    and "lp_st l = mg_st (fst (mng_step h q (MgSettle n e r) m))" and "lp_flight l = []"
    and "list_all (event_keeps (fm_origKey f) (marker_of (now h) body ks dev)) evs"
    and "j < length (lp_flight (run_loop evs l))" and "fst (pull h' a) = Inr res" and "\<not> pl_sampleMode res"
    and "find (\<lambda>d. d_id d = fm_origKey f) (pl_devices res) = Some srv"
  shows "(\<exists>d. find (\<lambda>d. d_id d = fm_origKey f) (s_fleet (lp_st (run_loop evs l))) = Some d \<and> shown_field k d = edit_value body k)
    \<and> (\<exists>d. find (\<lambda>d. d_id d = fm_origKey f) (s_fleet (lp_st (run_loop (evs @ [PollLoop.Settle h' j a t]) l))) = Some d
         \<and> shown_field k d = edit_value body k)"
proof -
  let ?P = "\<lambda>d. d_id d = fm_origKey f" and ?g = "apply_edit (now h) body ks" and ?le = "marker_of (now h) body ks dev"
  have ks: "set ks \<subseteq> set SHOWN_FIELDS" using applied_shown assms(8) by simp
  then have k: "k \<in> set SHOWN_FIELDS" using assms(10) by auto
  have ne: "ks \<noteq> []" using assms(10) by auto
  have fl: "s_fleet (lp_st l) = update_first ?P ?g (s_fleet (mg_st m))"
    using settle_edit_state [OF assms(1-6), of ks h q] assms(7,8,11) ne by simp
  have "d_id dev = fm_origKey f" using assms(9) by (auto simp: find_Some_iff)
  then have "find ?P (update_first ?P ?g (s_fleet (mg_st m))) = Some (?g dev)"
    using find_update_first [OF assms(9), of ?g] by (simp add: apply_edit_facts [OF ks])
  then have p: "loop_shows (fm_origKey f) ?le k (edit_value body k) l"
    using assms(10,12) k by (simp add: loop_shows_def edit_shown_def fl apply_edit_facts(1,2) [OF ks])
  have o: "is_obj ?le" using apply_edit_facts(3) [OF ks, of "now h" body dev] by (cases ?le) simp_all
  have own: "has_own ?le (meta_key_of k)" "jget ?le (meta_key_of k) = JStr (edit_value body k)"
    using apply_edit_facts(4) [OF ks assms(10), of "now h" body dev] by auto
  have all: "loop_shows (fm_origKey f) ?le k (edit_value body k) (run_loop evs l)"
    by (rule loop_keeps_all [OF p assms(13) o own k])
  have "pending_edit (fm_origKey f) ?le (s_fleet (snd (lp_flight (run_loop evs l) ! j)))"
    using all assms(14) by (auto simp: loop_shows_def edit_shown_def pending_edit_def)
  from pending_merge(1) [OF this o assms(17)]
  have "\<exists>d. find ?P (s_fleet (lp_st (fst (settle h' j a t (run_loop evs l))))) = Some d \<and> shown_field k d = edit_value body k"
    using marked_shown [OF own k, of srv] by (simp add: settle_fleet [OF assms(14,15)] assms(16))
  then show ?thesis using all by (auto simp: loop_shows_def edit_shown_def run_loop_def)
qed

definition after_save :: loop where
  "after_save = \<lparr>lp_st = mg_st (fst (mng_step code_host ''op'' (MgSettle 0 [] confirms_label) saving)), lp_th = USAGE_THRESH, lp_onsets = [], lp_gen = 0,
     lp_active = True, lp_timer = Some 0, lp_armed = [0], lp_next = 1, lp_fails = 0, lp_flight = []\<rparr>"

definition old_answer :: answer where "old_answer = Reply 200 (JArr [one_device])"

definition two_polls :: "PollLoop.event list" where
  "two_polls = [PollLoop.Fire 0, PollLoop.Settle code_host 0 old_answer None, PollLoop.Fire 1]"

theorem edit_survives_polls_witness:
  "\<exists>d. find (\<lambda>d. d_id d = ''ev-01'') (s_fleet (lp_st (run_loop (two_polls @ [PollLoop.Settle code_host 0 old_answer None]) after_save))) = Some d
    \<and> shown_field ''label'' d = ''Line 2''"
proof -
  let ?srv = "mkDevice ''ev-01'' EV Op one_device"
  have r: "fst (pull code_host old_answer) = Inr (poll_body code_host (JArr [one_device]))"
    by (simp add: pull_def reply_ok_def old_answer_def)
  have b: "pl_devices (poll_body code_host (JArr [one_device])) = [?srv]" "\<not> pl_sampleMode (poll_body code_host (JArr [one_device]))"
    by (simp_all add: poll_body_def Let_def normalize_def List.map_filter_simps one_device_norm sample_answer_of_def str_or_def lower_def)
  have i: "d_id ?srv = ''ev-01''" by (simp add: mkDevice_def Let_def)
  have v: "edit_value saving_body ''label'' = ''Line 2''" by (simp add: edit_value_def saving_body_def)
  have own: "has_own (marker_of t saving_body [''label''] plain_dev) ''label''" "jget (marker_of t saving_body [''label''] plain_dev) ''label'' = JStr ''Line 2''" for t
    by (simp_all add: marker_of_def apply_field_def meta_key_of_def saving_body_def Let_def)
  have nr: "\<not> reflected (marker_of t saving_body [''label''] plain_dev) ?srv" for t
  proof
    assume "reflected (marker_of t saving_body [''label''] plain_dev) ?srv"
    then have "meta_field ''label'' (d_meta ?srv) = ''Line 2''"
      using own [of t] by (auto simp: reflected_def list_all_iff edit_fields_def LOCAL_EDIT_FIELDS_def)
    moreover have "m_label (d_meta ?srv) = ''ev-01''"
      by (simp add: one_device_def mkDevice_def Let_def normalizeMeta_def obj_or_def jor_def)
    ultimately show False by (simp add: meta_field_def)
  qed
  have keeps: "list_all (event_keeps ''ev-01'' (marker_of (now code_host) saving_body [''label''] plain_dev)) two_polls"
    using nr [of "now code_host"] i by (simp add: two_polls_def event_keeps_def answer_keeps_def r b)
  have fl: "length (lp_flight (run_loop two_polls after_save)) = 1"
    by (simp add: run_loop_def two_polls_def after_save_def fire_def startRun_def settle_def setTimer_def Let_def r)
  show ?thesis
    using edit_survives_polls [OF saving_facts(1-4) refl saving_facts(5) saving_facts(6) [symmetric] saving_facts(7) [symmetric] saving_facts(8),
        of "''label''" after_save code_host "''op''" two_polls 0 code_host old_answer _ ?srv None] keeps fl r b i v
    by (simp add: saving_facts(9)) (simp add: after_save_def)
qed

section \<open>Answers for a form that is gone\<close>

definition other_calls :: "nat \<Rightarrow> mng \<Rightarrow> mcall list" where
  "other_calls n m = take n (mg_calls m) @ drop (Suc n) (mg_calls m)"

lemma settle_late:
  assumes "n < length (mg_calls m)" "\<not> (mg_alive m \<and> mg_form m = Some (cl_form (mg_calls m ! n)))"
  shows "mg_form (fst (settle_call h n e r m)) = mg_form m" "mg_heap (fst (settle_call h n e r m)) = mg_heap m"
    "s_wizardStep (mg_st (fst (settle_call h n e r m))) = s_wizardStep (mg_st m)"
    "s_editKey (mg_st (fst (settle_call h n e r m))) = s_editKey (mg_st m)" "mg_calls (fst (settle_call h n e r m)) = other_calls n m"
    "mg_alive (fst (settle_call h n e r m)) = mg_alive m"
  using assms by (cases "cl_kind (mg_calls m ! n)"; auto simp: settle_call_def settle_submit_def settle_delete_def settle_test_def
      fail_form_def end_form_def drop_device_def other_calls_def Let_def)+

lemma settle_allowed: "allowed m (MgSettle n e r)" "mng_do h q (MgSettle n e r) m = settle_call h n e r m"
  by (simp_all add: allowed_def mng_do_def Let_def split: option.splits)

text \<open>
  An answer for a form that is not on display, because it was closed or replaced or the page was left, changes neither
  what the dialog shows nor any form, nor the step of the wizard.
\<close>

theorem late_answer_changes_no_form:
  assumes "n < length (mg_calls m)" and "\<not> (mg_alive m \<and> mg_form m = Some (cl_form (mg_calls m ! n)))"
  shows "mg_form (fst (mng_step h q (MgSettle n e r) m)) = mg_form m \<and> mg_heap (fst (mng_step h q (MgSettle n e r) m)) = mg_heap m
    \<and> s_wizardStep (mg_st (fst (mng_step h q (MgSettle n e r) m))) = s_wizardStep (mg_st m)"
  using settle_late [OF assms, of h e r] by (simp add: mng_step_def settle_allowed)

theorem late_answer_changes_no_form_witness:
  "mg_form (fst (mng_step code_host ''op'' (MgSettle 0 [] confirms_label) (saving\<lparr>mg_form := None\<rparr>))) = None"
  using late_answer_changes_no_form [of 0 "saving\<lparr>mg_form := None\<rparr>" code_host "''op''" "[]" confirms_label] by (simp add: saving_def)

section \<open>A dialog that cannot be closed\<close>

definition busy_for_ever :: "nat \<Rightarrow> mng \<Rightarrow> bool" where
  "busy_for_ever i m \<longleftrightarrow> mg_form m = Some i \<and> i < length (mg_heap m) \<and> fm_busy (mg_heap m ! i)
     \<and> (\<forall>c \<in> set (mg_calls m). cl_form c \<noteq> i) \<and> s_editKey (mg_st m) = None"

lemma busy_setForm: "busy_for_ever i m \<Longrightarrow> (\<And>f. fm_busy (g f) = fm_busy f) \<Longrightarrow> busy_for_ever i (setForm g m)"
  by (auto simp: busy_for_ever_def form_defs split: option.splits)

lemma busy_put: "busy_for_ever i m \<Longrightarrow> form_at m = Some (j, f) \<Longrightarrow> fm_busy g = fm_busy f \<Longrightarrow> busy_for_ever i (put_form j g m)"
  by (auto simp: busy_for_ever_def form_defs split: if_splits)

lemma busy_error: "busy_for_ever i m \<Longrightarrow> busy_for_ever i (setValidationError e m)"
  unfolding setValidationError_def by (rule busy_setForm) simp_all

lemma busy_set_step: "busy_for_ever i m \<Longrightarrow> busy_for_ever i (set_step n m)"
  by (simp add: busy_for_ever_def set_step_def)

lemma busy_at: "busy_for_ever i m \<Longrightarrow> form_at m = Some (j, f) \<Longrightarrow> fm_busy f"
  by (auto simp: busy_for_ever_def form_at_def split: if_splits)

lemma busy_close: "busy_for_ever i m \<Longrightarrow> busy_for_ever i (close_unless_busy m)" "busy_for_ever i m \<Longrightarrow> busy_for_ever i (escape a b li m)"
  by (auto simp: close_unless_busy_def escape_def closeModal_def split: option.splits dest: busy_at)

lemma busy_settle: "busy_for_ever i m \<Longrightarrow> busy_for_ever i (fst (settle_call h n e r m))"
proof (cases "n < length (mg_calls m)")
  case True
  assume b: "busy_for_ever i m"
  then have "cl_form (mg_calls m ! n) \<noteq> i" using True by (auto simp: busy_for_ever_def)
  then show ?thesis using settle_late [OF True, of h e r] b
    by (auto simp: busy_for_ever_def other_calls_def dest: in_set_takeD in_set_dropD)
qed (simp add: settle_call_def)

lemma busy_do:
  assumes b: "busy_for_ever i m" and ok: "allowed m ev" and nh: "\<forall>k. ev \<noteq> MgHandoff k"
  shows "busy_for_ever i (fst (mng_do h q ev m))"
proof (cases "mg_alive m")
  case False
  then show ?thesis using b nh
    by (cases ev) (simp_all add: mng_do_def mount_manage_def busy_settle, auto simp: busy_for_ever_def)
next
  case True
  obtain f where f: "form_at m = Some (i, f)" "fm_busy f" using b True by (auto simp: busy_for_ever_def form_at_def)
  have bk: "busy_for_ever i (back_step m)"
    using b by (auto simp: back_step_def busy_close no_err_def intro!: busy_set_step busy_setForm)
  have pick: "busy_for_ever i (pick_step n m)" for n
    using b by (auto simp: pick_step_def no_err_def intro!: busy_set_step busy_setForm)
  have nxt: "busy_for_ever i (next_step m)"
    using b by (auto simp: next_step_def busy_error intro!: busy_set_step busy_setForm split: option.splits)
  have pt: "busy_for_ever i (pick_type t m)" for t
    using b f(1) by (auto simp: pick_type_def no_test_def Let_def intro!: busy_setForm busy_put)
  have tf: "busy_for_ever i (type_field k v m)" for k v
    using b f(1) by (auto simp: type_field_def no_test_def Let_def intro!: busy_setForm busy_put)
  show ?thesis using ok b f nh
    by (cases ev) (simp_all add: mng_do_def True mount_manage_def busy_settle busy_close bk pick nxt pt tf submit_def doDelete_def busy_setForm
        allowed_def page_buttons_def test_area_def vm_tab_def Let_def split: if_splits,
        auto simp: busy_for_ever_def)
qed

lemma busy_run:
  "busy_for_ever i m \<Longrightarrow> \<forall>ev \<in> set evs. \<forall>k. ev \<noteq> MgHandoff k \<Longrightarrow> busy_for_ever i (fst (mng_run h q evs m))"
  by (induction evs arbitrary: m) (auto simp: case_prod_beta mng_step_def busy_do)

text \<open>
  C39. A dialog that is left while it waits can never be closed. If the operator leaves the page (with the button of the browser) while a
  form waits for its only answer, and the answer, whatever it says, comes before the page is back, then no sequence of events closes the form
  or ends its waiting: not leaving and coming back, not the cross, the escape key, the cancel button nor any answer. Only the button of the device
  page that asks for another form does. Success is worst: the form of a saved device stays in front of the list.
\<close>

theorem abandoned_dialog_stays_busy:
  assumes "mg_form m = Some i" and "i < length (mg_heap m)" and "fm_busy (mg_heap m ! i)" and "s_editKey (mg_st m) = None"
    and "n < length (mg_calls m)" and "\<forall>j < length (mg_calls m). cl_form (mg_calls m ! j) = i \<longrightarrow> j = n"
    and "\<forall>ev \<in> set evs. \<forall>k. ev \<noteq> MgHandoff k"
  shows "mg_form (fst (mng_run h q ([MgLeave, MgSettle n e r] @ evs) m)) = Some i
    \<and> fm_busy (mg_heap (fst (mng_run h q ([MgLeave, MgSettle n e r] @ evs) m)) ! i)"
proof -
  let ?m1 = "m\<lparr>mg_alive := False\<rparr>" and ?rest = "take n (mg_calls m) @ drop (Suc n) (mg_calls m)"
  have l: "mng_step h q MgLeave m = (?m1, [])" by (simp add: mng_step_def allowed_def mng_do_def Let_def split: option.splits)
  have s: "mng_step h q (MgSettle n e r) ?m1 = settle_call h n e r ?m1" by (simp add: mng_step_def settle_allowed)
  have rest: "cl_form c \<noteq> i" if "c \<in> set (other_calls n m)" for c
  proof -
    have "\<exists>j < length (mg_calls m). j \<noteq> n \<and> c = mg_calls m ! j"
    proof (cases "c \<in> set (take n (mg_calls m))")
      case True
      then obtain j where "j < length (take n (mg_calls m))" "c = take n (mg_calls m) ! j" by (auto simp: in_set_conv_nth)
      then show ?thesis by (intro exI [of _ j]) simp
    next
      case False
      then have "c \<in> set (drop (Suc n) (mg_calls m))" using that by (simp add: other_calls_def)
      then obtain j where "j < length (drop (Suc n) (mg_calls m))" "drop (Suc n) (mg_calls m) ! j = c" by (metis in_set_conv_nth)
      then show ?thesis by (intro exI [of _ "Suc n + j"]) (simp add: add.commute)
    qed
    then show ?thesis using assms(6) by auto
  qed
  have late: "n < length (mg_calls ?m1)" "\<not> (mg_alive ?m1 \<and> mg_form ?m1 = Some (cl_form (mg_calls ?m1 ! n)))" using assms(5) by simp_all
  have "busy_for_ever i (fst (settle_call h n e r ?m1))"
    using settle_late [OF late, of h e r] assms(1-4) rest by (simp add: busy_for_ever_def other_calls_def)
  then have "busy_for_ever i (fst (mng_run h q ([MgLeave, MgSettle n e r] @ evs) m))"
    using busy_run [OF _ assms(7)] by (simp add: l s case_prod_beta)
  then show ?thesis by (simp add: busy_for_ever_def)
qed

theorem abandoned_dialog_stays_busy_witness:
  "mg_form (fst (mng_run code_host ''op'' ([MgLeave, MgSettle 0 [] confirms_label] @ [MgMount, MgEscape False False None, MgClose]) saving)) = Some 0"
  using abandoned_dialog_stays_busy [of saving 0 0 "[MgMount, MgEscape False False None, MgClose]" code_host "''op''" "[]" confirms_label]
  by (simp add: saving_def manage_start_def del: mng_run.simps append.simps)

section \<open>Controls that do not fit\<close>

text \<open>
  The button that fills the rows of the virtual machines, the rows themselves and their buttons, and the button of a hidden
  password never get an event: the first belongs to the test result of the wizard and is drawn for edit forms only, the rows are
  disabled in the only form that shows them.
\<close>

lemma dead_controls: "\<not> allowed m MgFill" "\<not> allowed m (MgVm k x y)" "\<not> allowed m MgVmAdd" "\<not> allowed m (MgVmDel k)" "\<not> allowed m (MgShowPw x)"
  by (auto simp: allowed_def vm_tab_def test_area_def Let_def split: option.splits)

text \<open>The result of a test stays on the form while its address is typed anew.\<close>

lemma test_result_outlives_address:
  assumes "form_at m = Some (i, f)" "i < length (mg_heap m)"
  shows "fm_testResult (mg_heap (type_field ''mgmt'' v m) ! i) = fm_testResult f"
  using assms by (simp add: type_field_def autoKey_def fput_def put_form_def Let_def)

text \<open>The address of the management controller is asked for on a page that does not show it.\<close>

lemma bmc_asked_elsewhere:
  assumes "ftext f ''type'' = ''SRV''" "ftext f ''platform'' = ''redfish''" "ftext f ''bmc_ip'' = []" "fm_mode f = ''add''" "trim (ftext f ''mgmt'') \<noteq> []"
  shows "next_issue l 1 f = None \<and> (\<exists>t. next_issue l 2 f = Some (''bmc_ip'', t)) \<and> \<not> typeable l 2 f ''bmc_ip''"
  using assms by (simp add: next_issue_def reqCredIssue_def reqCredFields_def cred_empty_def trim_def isFTType_def typeable_def page_fields_def authGroup_def Let_def)

end
