(* ===== verification/ScreenSettings.thy ===== *)
theory ScreenSettings
  imports ScreenControl TopoDraw
begin

text \<open>
  The settings screen, \<open>src/web/js/screens/settings.js\<close>: the notification policy of the server, the thresholds, the restore of
  a configuration, the colours and the preferences. The module keeps one object \<open>S\<close> while it is mounted, and its suspended
  functions look at \<open>S\<close> when they go on: at none after the page was left, at the new one after it was mounted again. \<open>sv_alive\<close>
  tells that there is one; a continuation that reads it without asking ends with an exception (\<open>SCrash\<close>).

  That a text is a web address of the kind \<open>http\<close> or \<open>https\<close> is the browser's \<open>URL\<close>, a parameter (\<open>is_url\<close>). The dialog
  that asks for approval is modelled elsewhere; here its answer is an event.
\<close>

section \<open>Pure helpers\<close>

definition THRESHOLDS :: "(string \<times> rat) list" where "THRESHOLDS = [(''warn'', 78), (''neg'', 90)]"

definition RUNTIME_KEYS :: "string list" where
  "RUNTIME_KEYS = [''healthy'', ''source_ready'', ''pending'', ''dead_letter'', ''dead_letters'', ''last_error'', ''last_success'', ''last_success_at'']"

definition cleanRuntime :: "jsval \<Rightarrow> jsval" where
  "cleanRuntime rtm = JObj (map (\<lambda>k. (k, jget rtm k)) (filter (has_own rtm) RUNTIME_KEYS))"

definition keep_bool :: "jsval \<Rightarrow> string \<Rightarrow> (string \<times> jsval) list" where
  "keep_bool src k = (case jget src k of JBool b \<Rightarrow> [(k, JBool b)] | _ \<Rightarrow> [])"

definition keep_num :: "jsval \<Rightarrow> string \<Rightarrow> (string \<times> jsval) list" where
  "keep_num src k = (case to_num (jget src k) of Fin x \<Rightarrow> [(k, JNum (Fin x))] | _ \<Rightarrow> [])"

definition keep_runtime :: "jsval \<Rightarrow> string \<Rightarrow> (string \<times> jsval) list" where
  "keep_runtime src k = (if is_map (jget src k) then [(k, cleanRuntime (jget src k))] else [])"

definition sanitizeNotificationConfig :: "jsval \<Rightarrow> jsval" where
  "sanitizeNotificationConfig v = (let src = (if is_obj v then v else JObj []) in
     JObj (keep_bool src ''enabled'' @ keep_bool src ''configured'' @ keep_num src ''escalation_hours'' @ keep_num src ''retry_max''
       @ keep_num src ''retry_base_seconds'' @ keep_runtime src ''runtime'' @ keep_runtime src ''status''))"

record notify_view =
  nv_tone :: string
  nv_key :: string
  nv_pending :: jsnum
  nv_dead :: jsnum
  nv_last :: jsval

definition runtime_of :: "jsval \<Rightarrow> jsval" where
  "runtime_of cfg = (if is_obj (jget cfg ''runtime'') then jget cfg ''runtime'' else if is_obj (jget cfg ''status'') then jget cfg ''status'' else JObj [])"

definition notificationDisplay :: "jsval \<Rightarrow> notify_view" where
  "notificationDisplay config =
     (let cfg = jor config (JObj []); rtm = runtime_of cfg;
          pending = n_max (Fin 0) (num_or (jget rtm ''pending'') (Fin 0));
          dead = n_max (Fin 0) (num_or (jget rtm ''dead_letter'') (num_or (jget rtm ''dead_letters'') (Fin 0)));
          lastOk = jor (jget rtm ''last_success'') (jor (jget rtm ''last_success_at'') (JStr []));
          view = (\<lambda>tone key l. \<lparr>nv_tone = tone, nv_key = key, nv_pending = pending, nv_dead = dead, nv_last = l\<rparr>) in
      if \<not> truthy (jget cfg ''loaded'') then view ''mut'' ''loading'' (JStr [])
      else if truthy (jget cfg ''error'') then view ''neg'' ''unavailable'' (JStr [])
      else if \<not> truthy (jget cfg ''configured'') then view ''mut'' ''unconfigured'' (JStr [])
      else if \<not> truthy (jget cfg ''enabled'') then view ''mut'' ''disabled'' lastOk
      else if n_lt (Fin 0) dead \<or> truthy (jget rtm ''last_error'') then view ''neg'' ''degraded'' lastOk
      else if jget rtm ''source_ready'' = JBool False \<or> jget rtm ''healthy'' \<noteq> JBool True then view ''warn'' ''starting'' lastOk
      else view ''pos'' ''active'' lastOk)"

text \<open>\<open>Object.assign({}, a, b)\<close> on objects; a document that is a bare text is taken to have no properties.\<close>

definition assign :: "jsval \<Rightarrow> (string \<times> jsval) list \<Rightarrow> jsval" where
  "assign v ps = foldl (\<lambda>a p. jput (fst p) (snd p) a) (obj_copy v) ps"

definition props_of :: "jsval \<Rightarrow> (string \<times> jsval) list" where
  "props_of v = (case v of JObj ps \<Rightarrow> ps | _ \<Rightarrow> [])"

definition escalationTransition :: "jsval \<Rightarrow> rat \<Rightarrow> jsval \<times> jsval" where
  "escalationTransition config hours = (let previous = obj_copy (jor config (JObj [])) in
     (previous, assign previous [(''escalation_hours'', JNum (Fin hours))]))"

section \<open>State\<close>

datatype scall =
    LoadCall
  | HookCall bool "(string \<times> jsval) list" jsval string "jsval option"
  | HookTestCall
  | ThresholdCall jsnum jsnum
  | FileCall
  | ApproveCall jsval
  | ImportCall

record sett =
  sv_st :: app_state
  sv_alive :: bool
  sv_busy :: string
  sv_cfg :: jsval
  sv_hook :: string
  sv_hookInvalid :: bool
  sv_hookMsg :: "(bool \<times> string) option"
  sv_warn :: string
  sv_crit :: string
  sv_focus :: string
  sv_thInvalid :: "string list"
  sv_thMsg :: "(bool \<times> string) option"
  sv_bkMsg :: "(bool \<times> string) option"
  sv_expanded :: "string list"
  sv_calls :: "scall list"

datatype sv_effect = SSend string string jsval | SToast string | STheme "string option" | SAsk impact | SPickFile | SCrash

type_synonym sett_out = "sett \<times> sv_effect list"

text \<open>
  An answer: its status and its document (None when it is no JSON), or the name and the message of the exception. For the
  suspended steps that are no requests: the text of a file, and the reason of an approval.
\<close>

datatype sreply =
    SvAnswered int "jsval option"
  | SvFailed string string
  | SvText string
  | SvApproved string
  | SvDeclined

datatype sv_event =
  SvMount
| SvLeave
| SvStore app_state
| SvTheme string
| SvLang string
| SvEsc rat
| SvAckAuto rat
| SvPal string string
| SvCoReset string
| SvCoChange string
| SvHookSave
| SvHookTest
| SvHookClear
| SvHookType string
| SvThSave
| SvThReset
| SvWarnType string
| SvCritType string
| SvFocus string
| SvPick
| SvFile
| SvToggle string
| SvMsgOver
| SvSettle nat string sreply

definition initial_cfg :: jsval where
  "initial_cfg = JObj [(''loaded'', JBool False), (''enabled'', JBool False), (''configured'', JBool False), (''escalation_hours'', JNum (Fin 0)),
     (''retry_max'', JNum (Fin 3)), (''retry_base_seconds'', JNum (Fin 2)), (''status'', Null), (''error'', JStr [])]"

definition sL :: "sett \<Rightarrow> lfun" where "sL m = makeL (s_lang (sv_st m))"

definition live_thresholds :: "app_state \<Rightarrow> jsnum \<times> jsnum" where
  "live_thresholds st = (case s_thresholds st of Some t \<Rightarrow> t | None \<Rightarrow> (Fin 78, Fin 90))"

text \<open>What a render writes back into the state: the inputs of the thresholds that have not the focus.\<close>

definition sv_render :: "sett \<Rightarrow> sett" where
  "sv_render m = (if \<not> sv_alive m then m
     else m\<lparr>sv_warn := (if sv_focus m = ''warn'' then sv_warn m else num_str (fst (live_thresholds (sv_st m)))),
            sv_crit := (if sv_focus m = ''crit'' then sv_crit m else num_str (snd (live_thresholds (sv_st m))))\<rparr>)"

definition set_st :: "app_state \<Rightarrow> sett \<Rightarrow> sett" where "set_st st m = sv_render (m\<lparr>sv_st := st\<rparr>)"

definition showHookMsg :: "bool \<Rightarrow> string \<Rightarrow> sett \<Rightarrow> sett" where
  "showHookMsg ok text m = (if \<not> sv_alive m then m else m\<lparr>sv_hookMsg := Some (ok, (if ok then ''v '' else ''x '') @ text)\<rparr>)"

definition not_busy :: "sett \<Rightarrow> sett" where "not_busy m = sv_render (m\<lparr>sv_busy := []\<rparr>)"

definition sv_call :: "scall \<Rightarrow> sett \<Rightarrow> sett" where "sv_call c m = m\<lparr>sv_calls := sv_calls m @ [c]\<rparr>"

text \<open>The texts of errors: \<open>String((e && e.message) || e)\<close> of what is thrown.\<close>

definition answer_error :: "string \<Rightarrow> int \<Rightarrow> jsval option \<Rightarrow> string" where
  "answer_error nullmsg status doc =
     (case doc of None \<Rightarrow> ''HTTP '' @ int_str status
      | Some j \<Rightarrow> if j = Null then nullmsg
          else (let t = to_str (jor (jget j ''error'') (JStr (''HTTP '' @ int_str status))) in if t = [] then ''Error'' else t))"

definition thrown_text :: "string \<Rightarrow> string \<Rightarrow> string" where "thrown_text name msg = (if msg = [] then name else msg)"

text \<open>The outcome of a request: the message of the error, or the document.\<close>

definition outcome :: "string \<Rightarrow> sreply \<Rightarrow> string + jsval" where
  "outcome nullmsg r =
     (case r of
        SvAnswered status doc \<Rightarrow> if reply_ok status then Inr (case doc of Some j \<Rightarrow> j | None \<Rightarrow> JObj []) else Inl (answer_error nullmsg status doc)
      | SvFailed name msg \<Rightarrow> Inl (thrown_text name msg)
      | _ \<Rightarrow> Inl [])"

section \<open>The notification policy\<close>

definition notify_url :: string where "notify_url = ''/api/admin/notifications''"

definition settle_load :: "string \<Rightarrow> sreply \<Rightarrow> sett \<Rightarrow> sett" where
  "settle_load nullmsg r m =
     (if \<not> sv_alive m then m
      else case outcome nullmsg r of
        Inr j \<Rightarrow> sv_render (m\<lparr>sv_cfg := assign (sv_cfg m) (props_of (sanitizeNotificationConfig j) @ [(''loaded'', JBool True), (''error'', JStr [])])\<rparr>)
      | Inl e \<Rightarrow> sv_render (showHookMsg False (sL m ''Could not load server notification settings: '' ''seobeo allim seoljeongeul bulleooji mothaetseumnida: '' @ e)
          (m\<lparr>sv_cfg := assign (sv_cfg m) [(''loaded'', JBool True), (''error'', JStr e)]\<rparr>)))"

definition hook_payload :: "bool \<Rightarrow> bool \<Rightarrow> jsval \<Rightarrow> string \<Rightarrow> (string \<times> jsval) list" where
  "hook_payload clear policyOnly cfg val =
     [(''enabled'', JBool (if clear then False else if policyOnly then truthy (jget cfg ''enabled'') else True)),
      (''escalation_hours'', JNum (num_or (jget cfg ''escalation_hours'') (Fin 0))),
      (''retry_max'', JNum (Fin (num_fin (jget cfg ''retry_max'') 3))),
      (''retry_base_seconds'', JNum (Fin (num_fin (jget cfg ''retry_base_seconds'') 2)))]
     @ (if val \<noteq> [] then [(''webhook_url'', JStr val)] else [])"

definition bad_url :: "sett \<Rightarrow> sett" where
  "bad_url m = (showHookMsg False (sL m ''Enter a valid http(s) webhook URL'' ''yuhyohan http(s) wephuk URLeul imnyeokhaseyo'') m)\<lparr>sv_hookInvalid := True, sv_focus := []\<rparr>"

definition saveHook :: "(string \<Rightarrow> bool) \<Rightarrow> bool \<Rightarrow> bool \<Rightarrow> jsval option \<Rightarrow> sett \<Rightarrow> sett_out" where
  "saveHook is_url clear policyOnly rollback m =
     (if \<not> sv_alive m \<or> sv_busy m \<noteq> [] then (m, [])
      else let val = (if clear \<or> policyOnly then [] else trim (sv_hook m)); cfg = sv_cfg m in
        if \<not> clear \<and> \<not> policyOnly \<and> val = [] \<and> \<not> truthy (jget cfg ''configured'') then (m, [])
        else if val \<noteq> [] \<and> \<not> is_url val then (bad_url m, [])
        else (let p = hook_payload clear policyOnly cfg val in
          (sv_call (HookCall clear p cfg val rollback) (sv_render (m\<lparr>sv_busy := (if clear then ''clear'' else ''save'')\<rparr>)), [SSend ''PUT'' notify_url (JObj p)])))"

definition settle_hook :: "string \<Rightarrow> bool \<Rightarrow> (string \<times> jsval) list \<Rightarrow> jsval \<Rightarrow> string \<Rightarrow> jsval option \<Rightarrow> sreply \<Rightarrow> sett \<Rightarrow> sett_out" where
  "settle_hook nullmsg clear p cfg val rollback r m =
     (if \<not> sv_alive m then (m, [])
      else let finish = (\<lambda>x. not_busy (x\<lparr>sv_hook := [], sv_hookInvalid := False\<rparr>)) in
        case outcome nullmsg r of
          Inr j \<Rightarrow>
            (let safe = sanitizeNotificationConfig j; c = jget safe ''configured'';
                 msg = (if clear then sL m ''Server notifications disabled'' ''seobeo allimeul bihwalseonghwahaetseumnida''
                   else sL m ''Saved on the server -- notifications continue when this browser is closed''
                     ''seobeoe jeojanghaetseumnida -- beuraujeoreul dadado allimi gyesok dongjakhamnida'')
             in (finish (showHookMsg True msg (m\<lparr>sv_cfg := assign cfg (props_of safe @
                   [(''loaded'', JBool True), (''enabled'', jget (JObj p) ''enabled''),
                    (''configured'', JBool (if nullish c then truthy (jget cfg ''configured'') \<or> val \<noteq> [] else truthy c)),
                    (''escalation_hours'', jget (JObj p) ''escalation_hours''), (''error'', JStr [])])\<rparr>)), [SToast msg]))
        | Inl e \<Rightarrow> (finish (showHookMsg False e (case rollback of Some c \<Rightarrow> m\<lparr>sv_cfg := c\<rparr> | None \<Rightarrow> m)), []))"

definition set_escalation :: "(string \<Rightarrow> bool) \<Rightarrow> rat \<Rightarrow> sett \<Rightarrow> sett_out" where
  "set_escalation is_url v m =
     (if sv_busy m \<noteq> [] then (m, [])
      else case escalationTransition (sv_cfg m) (if v = 4 \<or> v = 24 then v else 0) of
        (previous, optimistic) \<Rightarrow> saveHook is_url False True (Some previous) (m\<lparr>sv_cfg := optimistic\<rparr>))"

definition testHook :: "(string \<Rightarrow> bool) \<Rightarrow> sett \<Rightarrow> sett_out" where
  "testHook is_url m =
     (if \<not> sv_alive m \<or> sv_busy m \<noteq> [] then (m, [])
      else let val = trim (sv_hook m) in
        if val = [] \<and> \<not> truthy (jget (sv_cfg m) ''configured'') then (m, [])
        else if val \<noteq> [] \<and> \<not> is_url val then (bad_url m, [])
        else (sv_call HookTestCall (sv_render (m\<lparr>sv_busy := ''test''\<rparr>)),
              [SSend ''POST'' (notify_url @ ''/test'') (JObj (if val \<noteq> [] then [(''webhook_url'', JStr val)] else []))]))"

definition test_message :: "lfun \<Rightarrow> sreply \<Rightarrow> bool \<times> string" where
  "test_message l r =
     (case r of
        SvAnswered status doc \<Rightarrow>
          (let j = (case doc of Some x \<Rightarrow> x | None \<Rightarrow> Null) in
           if reply_ok status \<and> truthy j \<and> truthy (jget j ''ok'')
           then (True, l ''Test notification sent by the server'' ''seobeoeseo teseuteu allimeul balsonghaetseumnida'')
           else (let hcode = '' . HTTP '' @ to_str (jor (jget j ''status'') (JNum (Fin (of_int status))));
                     why = str_or (jor (jget j ''error'') (jget j ''message''))
                 in (False, l (''Send failed'' @ hcode) (''balsong silpae'' @ hcode) @ (if why \<noteq> [] then '' -- '' @ why else []))))
      | SvFailed name msg \<Rightarrow> (False, if name = ''AbortError''
          then l ''Timed out -- webhook is slow or unreachable'' ''sigan chogwa -- wephuk eungdabi neurigeona dodalhal su eopseumnida''
          else l ''Backend unreachable'' ''baegendeue yeongyeolhal su eopseumnida'')
      | _ \<Rightarrow> (False, []))"

definition settle_hook_test :: "sreply \<Rightarrow> sett \<Rightarrow> sett" where
  "settle_hook_test r m = (if \<not> sv_alive m then m
     else case test_message (sL m) r of (ok, text) \<Rightarrow> not_busy (showHookMsg ok text m))"

section \<open>Thresholds\<close>

definition thresholds_ok :: "jsnum \<Rightarrow> jsnum \<Rightarrow> bool" where
  "thresholds_ok warn crit \<longleftrightarrow> n_lt (Fin 0) warn \<and> n_lt warn crit \<and> n_le crit (Fin 100)"

definition saveThresholds :: "bool \<Rightarrow> sett \<Rightarrow> sett_out" where
  "saveThresholds reset m =
     (if \<not> sv_alive m \<or> sv_busy m \<noteq> [] then (m, [])
      else let warn = (if reset then Fin 78 else str_to_num (sv_warn m)); crit = (if reset then Fin 90 else str_to_num (sv_crit m)) in
        if \<not> thresholds_ok warn crit
        then (m\<lparr>sv_thMsg := Some (False, sL m ''Need 0 < warning < critical <= 100'' ''0 < gyeonggo < simgak <= 100 ieoya hamnida''),
                sv_thInvalid := List.insert (if \<not> (n_lt (Fin 0) warn \<and> n_lt warn (Fin 100)) then ''warn'' else ''crit'') (sv_thInvalid m),
                sv_focus := (if \<not> (n_lt (Fin 0) warn \<and> n_lt warn (Fin 100)) then ''warn'' else ''crit'')\<rparr>, [])
        else (sv_call (ThresholdCall warn crit) (sv_render (m\<lparr>sv_thInvalid := [], sv_busy := ''th''\<rparr>)),
              [SSend ''PUT'' ''/api/admin/thresholds'' (JObj [(''warn'', JNum warn), (''crit'', JNum crit)])]))"

text \<open>The store is written before the page is touched; the page is touched without asking whether it is there.\<close>

definition settle_thresholds :: "string \<Rightarrow> jsnum \<Rightarrow> jsnum \<Rightarrow> sreply \<Rightarrow> sett \<Rightarrow> sett_out" where
  "settle_thresholds nullmsg warn crit r m =
     (case outcome nullmsg r of
        Inr j \<Rightarrow> (let m1 = set_st ((sv_st m)\<lparr>s_thresholds := Some (warn, crit)\<rparr>) m in
          if \<not> sv_alive m then (m1, [SCrash])
          else (not_busy (m1\<lparr>sv_thMsg := Some (True, sL m ''Saved -- applies fleet-wide'' ''jeojanghaetseumnida -- jeonche jangbie banyeongdoemnida'')\<rparr>), []))
      | Inl e \<Rightarrow> if \<not> sv_alive m then (m, [SCrash]) else (not_busy (m\<lparr>sv_thMsg := Some (False, e)\<rparr>), []))"

section \<open>Restoring a configuration\<close>

definition bk_say :: "bool \<Rightarrow> string \<Rightarrow> sett \<Rightarrow> sett_out" where
  "bk_say ok text m = (if sv_alive m then (m\<lparr>sv_bkMsg := Some (ok, text)\<rparr>, []) else (m, [SCrash]))"

definition importConfig :: "sett \<Rightarrow> sett" where
  "importConfig m = (if \<not> sv_alive m \<or> sv_busy m \<noteq> [] then m else sv_call FileCall m)"

definition settle_file :: "sreply \<Rightarrow> sett \<Rightarrow> sett_out" where
  "settle_file r m =
     (case r of
        SvText t \<Rightarrow> (case json_parse t of
            None \<Rightarrow> bk_say False (sL m ''Invalid JSON file'' ''olbareuji aneun JSON pailimnida'') m
          | Some doc \<Rightarrow> (sv_call (ApproveCall doc) m, [SAsk (restoreImpact doc (JNum (Fin (of_nat (length (s_fleet (sv_st m)))))))]))
      | SvFailed name msg \<Rightarrow> bk_say False (thrown_text name msg) m
      | _ \<Rightarrow> (m, []))"

definition settle_approval :: "jsval \<Rightarrow> sreply \<Rightarrow> sett \<Rightarrow> sett_out" where
  "settle_approval doc r m =
     (case r of
        SvApproved reason \<Rightarrow>
          if \<not> sv_alive m then (m, [SCrash])
          else (sv_call ImportCall (sv_render (m\<lparr>sv_busy := ''bk''\<rparr>)),
                [SSend ''POST'' ''/api/admin/config/import'' (assign doc [(''reason'', JStr (trim reason))])])
      | _ \<Rightarrow> (m, []))"

definition settle_import :: "string \<Rightarrow> sreply \<Rightarrow> sett \<Rightarrow> sett_out" where
  "settle_import nullmsg r m =
     (if \<not> sv_alive m then (m, [SCrash])
      else case outcome nullmsg r of
        Inr j \<Rightarrow> (not_busy (m\<lparr>sv_bkMsg := Some (if j = Null then (False, nullmsg)
            else (True, to_str (jor (jget j ''message'') (JStr (sL m ''Restored'' ''bokguhaetseumnida'')))))\<rparr>), [])
      | Inl e \<Rightarrow> (not_busy (m\<lparr>sv_bkMsg := Some (False, e)\<rparr>), []))"

section \<open>Colours and preferences\<close>

definition setCompanyColor :: "string \<Rightarrow> string \<Rightarrow> sett \<Rightarrow> sett" where
  "setCompanyColor co color m = (if co = [] \<or> color = [] then m
     else set_st ((sv_st m)\<lparr>s_companyColors := jput co (JStr color) (obj_copy (s_companyColors (sv_st m)))\<rparr>) m)"

definition resetCompanyColor :: "string \<Rightarrow> sett \<Rightarrow> sett" where
  "resetCompanyColor co m = (if co = [] then m
     else set_st ((sv_st m)\<lparr>s_companyColors := jdel co (obj_copy (s_companyColors (sv_st m)))\<rparr>) m)"

definition toggle_setg :: "string \<Rightarrow> settings \<Rightarrow> settings" where
  "toggle_setg k s = (if k = ''refresh'' then s\<lparr>sg_refresh := (\<not> sg_refresh s)\<rparr> else if k = ''sound'' then s\<lparr>sg_sound := (\<not> sg_sound s)\<rparr>
     else if k = ''dense'' then s\<lparr>sg_dense := (\<not> sg_dense s)\<rparr> else s)"

section \<open>The machine\<close>

definition mount_settings :: "sett \<Rightarrow> sett_out" where
  "mount_settings m = (sv_call LoadCall (sv_render (m\<lparr>sv_alive := True, sv_busy := [], sv_cfg := initial_cfg, sv_hook := [], sv_hookInvalid := False,
     sv_hookMsg := None, sv_warn := [], sv_crit := [], sv_focus := [], sv_thInvalid := [], sv_thMsg := None, sv_bkMsg := None, sv_expanded := []\<rparr>)),
     [SSend ''GET'' notify_url Undef])"

definition settle_setting :: "nat \<Rightarrow> string \<Rightarrow> sreply \<Rightarrow> sett \<Rightarrow> sett_out" where
  "settle_setting n nullmsg r m =
     (if length (sv_calls m) \<le> n then (m, [])
      else let m1 = m\<lparr>sv_calls := take n (sv_calls m) @ drop (Suc n) (sv_calls m)\<rparr> in
        case sv_calls m ! n of
          LoadCall \<Rightarrow> (settle_load nullmsg r m1, [])
        | HookCall clear p cfg val rollback \<Rightarrow> settle_hook nullmsg clear p cfg val rollback r m1
        | HookTestCall \<Rightarrow> (settle_hook_test r m1, [])
        | ThresholdCall w c \<Rightarrow> settle_thresholds nullmsg w c r m1
        | FileCall \<Rightarrow> settle_file r m1
        | ApproveCall doc \<Rightarrow> settle_approval doc r m1
        | ImportCall \<Rightarrow> settle_import nullmsg r m1)"

text \<open>Buttons that are disabled get no click: those of the escalation until the settings are loaded, those of the hook without an address.\<close>

definition hook_enabled :: "sett \<Rightarrow> bool" where
  "hook_enabled m \<longleftrightarrow> sv_busy m = [] \<and> (trim (sv_hook m) \<noteq> [] \<or> truthy (jget (sv_cfg m) ''configured''))"

definition esc_enabled :: "sett \<Rightarrow> bool" where
  "esc_enabled m \<longleftrightarrow> sv_busy m = [] \<and> truthy (jget (sv_cfg m) ''loaded'')"

definition settings_do :: "(string \<Rightarrow> bool) \<Rightarrow> sv_event \<Rightarrow> sett \<Rightarrow> sett_out" where
  "settings_do is_url ev m =
     (case ev of
        SvMount \<Rightarrow> (if sv_alive m then (m, []) else mount_settings m)
      | SvLeave \<Rightarrow> (m\<lparr>sv_alive := False\<rparr>, [])
      | SvStore st \<Rightarrow> (set_st st m, [])
      | SvSettle n nullmsg r \<Rightarrow> settle_setting n nullmsg r m
      | _ \<Rightarrow>
        if \<not> sv_alive m then (m, [])
        else (case ev of
          SvTheme v \<Rightarrow> (if v \<in> {''system'', ''light'', ''dark''}
            then (set_st ((sv_st m)\<lparr>s_theme := v\<rparr>) m, [STheme (if v = ''system'' then None else Some v)]) else (m, []))
        | SvLang v \<Rightarrow> ((if v \<in> {''en'', ''ko''} then set_st ((sv_st m)\<lparr>s_lang := v\<rparr>) m else m), [])
        | SvEsc v \<Rightarrow> (if esc_enabled m then set_escalation is_url v m else (m, []))
        | SvAckAuto v \<Rightarrow> (set_st ((sv_st m)\<lparr>s_setg := (s_setg (sv_st m))\<lparr>sg_ackAutoDays := JNum (Fin (if v = 7 \<or> v = 30 then v else 0))\<rparr>\<rparr>) m, [])
        | SvPal co c \<Rightarrow> (setCompanyColor co c m, [])
        | SvCoReset co \<Rightarrow> (resetCompanyColor co m, [])
        | SvCoChange co \<Rightarrow> (sv_render (m\<lparr>sv_expanded := (if co \<in> set (sv_expanded m) then removeAll co (sv_expanded m) else co # sv_expanded m)\<rparr>), [])
        | SvHookSave \<Rightarrow> saveHook is_url False False None m
        | SvHookTest \<Rightarrow> (if hook_enabled m then testHook is_url m else (m, []))
        | SvHookClear \<Rightarrow> (if truthy (jget (sv_cfg m) ''enabled'') then saveHook is_url True False None m else (m, []))
        | SvHookType t \<Rightarrow> (m\<lparr>sv_hook := t, sv_hookInvalid := False, sv_focus := []\<rparr>, [])
        | SvThSave \<Rightarrow> saveThresholds False m
        | SvThReset \<Rightarrow> saveThresholds True m
        | SvWarnType t \<Rightarrow> (m\<lparr>sv_warn := t, sv_focus := ''warn'', sv_thInvalid := removeAll ''warn'' (sv_thInvalid m)\<rparr>, [])
        | SvCritType t \<Rightarrow> (m\<lparr>sv_crit := t, sv_focus := ''crit'', sv_thInvalid := removeAll ''crit'' (sv_thInvalid m)\<rparr>, [])
        | SvFocus w \<Rightarrow> (m\<lparr>sv_focus := w\<rparr>, [])
        | SvPick \<Rightarrow> (m, if sv_busy m = [] then [SPickFile] else [])
        | SvFile \<Rightarrow> (importConfig m, [])
        | SvToggle k \<Rightarrow> (set_st ((sv_st m)\<lparr>s_setg := toggle_setg k (s_setg (sv_st m))\<rparr>) m, [])
        | SvMsgOver \<Rightarrow> (m\<lparr>sv_hookMsg := None\<rparr>, [])
        | _ \<Rightarrow> (m, [])))"

fun settings_run :: "(string \<Rightarrow> bool) \<Rightarrow> sv_event list \<Rightarrow> sett \<Rightarrow> sett_out" where
  "settings_run is_url [] m = (m, [])"
| "settings_run is_url (ev # evs) m =
     (case settings_do is_url ev m of (m1, es) \<Rightarrow> case settings_run is_url evs m1 of (m2, es') \<Rightarrow> (m2, es @ es'))"

section \<open>What the page says\<close>

text \<open>A row of buttons of which one is chosen: its name, the words under it, the buttons (text and whether chosen), whether they are disabled.\<close>

record choice_row =
  cw_name :: string
  cw_meta :: string
  cw_buttons :: "(string \<times> bool) list"
  cw_disabled :: bool

definition lang_row :: "lfun \<Rightarrow> sett \<Rightarrow> choice_row" where
  "lang_row l m = (let en = (s_lang (sv_st m) = ''en'') in
     \<lparr>cw_name = l ''Display language'' ''pyosi eoneo'', cw_meta = l ''Applies to the entire console'' ''konsol jeonchee jeogyongdoemnida'',
      cw_buttons = [(''EN'', en), (''hangugeo'', \<not> en)], cw_disabled = False\<rparr>)"

definition theme_row :: "lfun \<Rightarrow> sett \<Rightarrow> choice_row" where
  "theme_row l m = (let th = (if s_theme (sv_st m) = ''light'' \<or> s_theme (sv_st m) = ''dark'' then s_theme (sv_st m) else ''system'') in
     \<lparr>cw_name = l ''Theme'' ''tema'', cw_meta = l ''System follows OS dark mode'' ''siseutemeun OS dakeu modeureul ttaragamnida'',
      cw_buttons = [(l ''System'' ''siseutem'', th = ''system''), (l ''Light'' ''raiteu'', th = ''light''), (l ''Dark'' ''dakeu'', th = ''dark'')],
      cw_disabled = False\<rparr>)"

definition ack_row :: "lfun \<Rightarrow> sett \<Rightarrow> choice_row" where
  "ack_row l m = (let d = sg_ackAutoDays (s_setg (sv_st m)); days = (if d = JNum (Fin 7) \<or> d = JNum (Fin 30) then d else JNum (Fin 0)) in
     \<lparr>cw_name = l ''Auto-acknowledge stale alerts'' ''oraedoen gyeongbo jadong hwagin'',
      cw_meta = l ''Alerts left unacknowledged past the limit are marked acknowledged (originals are kept)''
        ''seoljeonghan giganeul neomgin mihwagin gyeongboreul jadongeuro hwagin cheorihamnida(wonboneun jiuji anseumnida)'',
      cw_buttons = [(l ''Off'' ''haeje'', days = JNum (Fin 0)), (l ''7 days'' ''7il'', days = JNum (Fin 7)), (l ''30 days'' ''30il'', days = JNum (Fin 30))],
      cw_disabled = False\<rparr>)"

definition esc_row :: "lfun \<Rightarrow> sett \<Rightarrow> choice_row" where
  "esc_row l m = (let e = to_num (jget (sv_cfg m) ''escalation_hours''); hours = (if e = Fin 4 \<or> e = Fin 24 then e else Fin 0) in
     \<lparr>cw_name = l ''Critical escalation'' ''Critical eseukeolleisyeon'',
      cw_meta = l ''Re-notify the webhook when a critical alert stays unacknowledged past the limit''
        ''critical gyeongboga seoljeong siganeul neomgyeo mihwaginimyeon wephugeuro jaetongbohamnida'',
      cw_buttons = [(l ''Off'' ''haeje'', hours = Fin 0), (l ''4h'' ''4sigan'', hours = Fin 4), (l ''24h'' ''24sigan'', hours = Fin 24)],
      cw_disabled = (\<not> esc_enabled m)\<rparr>)"

text \<open>The card of the webhook.\<close>

record hook_view =
  hv_title :: string
  hv_name :: string
  hv_meta :: string
  hv_badge :: string
  hv_status :: string
  hv_runtime :: string
  hv_placeholder :: string
  hv_save :: string
  hv_test :: "string \<times> bool"
  hv_clear :: string
  hv_clearHidden :: bool
  hv_disabled :: bool
  hv_clearDisabled :: bool

definition status_label :: "lfun \<Rightarrow> string \<Rightarrow> string" where
  "status_label l k = (case map_of [(''loading'', l ''Loading...'' ''bulleooneun jung...''), (''unavailable'', l ''Unavailable'' ''sayong bulga''),
     (''unconfigured'', l ''Not configured'' ''miseoljeong''), (''disabled'', l ''Configured . disabled'' ''seoljeongdoem . bihwalseong''),
     (''degraded'', l ''Degraded'' ''oryu''), (''starting'', l ''Starting'' ''junbi jung''), (''active'', l ''Active'' ''hwalseong'')] k of
     Some t \<Rightarrow> t | None \<Rightarrow> [])"

definition runtime_text :: "host \<Rightarrow> lfun \<Rightarrow> notify_view \<Rightarrow> string" where
  "runtime_text h l v = join '' . '' ([l ''Pending '' ''daegi '' @ num_str (nv_pending v), l ''Dead-letter '' ''silpae bogwan '' @ num_str (nv_dead v)]
     @ (if truthy (nv_last v) then [l ''Last success '' ''majimak seonggong '' @ formatConsoleTime h (AVal (nv_last v)) True] else []))"

definition hook_card :: "host \<Rightarrow> lfun \<Rightarrow> sett \<Rightarrow> hook_view" where
  "hook_card h l m =
     (let cfg = sv_cfg m; v = notificationDisplay cfg in
      \<lparr>hv_title = l ''Notifications'' ''allim'', hv_name = l ''Critical webhook'' ''Critical wephuk'',
       hv_meta = l ''Server-resident delivery continues when this browser is closed. The stored webhook secret is never returned to the browser.''
         ''seobeo sangju balsongimeuro beuraujeoreul dadado gyesok dongjakhamnida. jeojangdoen wephuk bimireun beuraujeoro dasi nochuldoeji anseumnida.'',
       hv_badge = ''u-badge'' @ (if nv_tone v = ''mut'' then [] else '' is-'' @ nv_tone v),
       hv_status = status_label l (nv_key v),
       hv_runtime = runtime_text h l v,
       hv_placeholder = (if truthy (jget cfg ''configured'') then l ''Enter a new URL to replace'' ''sae URL imnyeok si gyoche''
         else ''https://discord.com/api/webhooks/...''),
       hv_save = (if sv_busy m = ''save'' then ''...'' else l ''Save & enable'' ''jeojang hu hwalseonghwa''),
       hv_test = (if sv_busy m = ''test'' then (l ''Testing...'' ''teseuteu jung...'', True) else (l ''Send test'' ''teseuteu balsong'', False)),
       hv_clear = (if sv_busy m = ''clear'' then ''...'' else l ''Disable'' ''bihwalseonghwa''),
       hv_clearHidden = (\<not> truthy (jget cfg ''enabled'')),
       hv_disabled = (\<not> hook_enabled m), hv_clearDisabled = (sv_busy m \<noteq> [])\<rparr>)"

text \<open>The card of the thresholds: a line for each, with its label and the place of the mark, and the words around the inputs.\<close>

record th_view =
  tv_title :: string
  tv_sub :: string
  tv_lines :: "(string \<times> string) list"
  tv_inputs :: "string list"
  tv_save :: string
  tv_reset :: string
  tv_disabled :: bool

definition th_label :: "lfun \<Rightarrow> string \<Rightarrow> string" where
  "th_label l k = (if k = ''warn'' then l ''Warning (amber)'' ''gyeonggo (juhwang)'' else l ''Critical (red)'' ''simgak (ppalgang)'')"

definition th_card :: "lfun \<Rightarrow> sett \<Rightarrow> th_view" where
  "th_card l m =
     (let live = live_thresholds (sv_st m) in
      \<lparr>tv_title = l ''Alert thresholds'' ''allim imgyegap'', tv_sub = l ''Applied fleet-wide . edit below'' ''jeonche jangbi jeogyong jung . araeeseo sujeong'',
       tv_lines = map (\<lambda>t. (th_label l (fst t), num_str (if fst t = ''warn'' then fst live else snd live) @ ''%'')) THRESHOLDS,
       tv_inputs = [l ''Warning %'' ''gyeonggo %'', l ''Critical %'' ''simgak %''],
       tv_save = (if sv_busy m = ''th'' then ''...'' else l ''Save'' ''jeojang''), tv_reset = l ''Reset to 78/90'' ''gibongap(78/90)'',
       tv_disabled = (sv_busy m \<noteq> [])\<rparr>)"

definition backup_card :: "lfun \<Rightarrow> sett \<Rightarrow> string list \<times> bool" where
  "backup_card l m =
     ([l ''Backup & restore'' ''baegeop / bokgu'', l ''Config JSON . availability CSV'' ''seoljeong JSON . gayongseong CSV'',
       l ''Export masks credentials (blank = keep current on restore). Device/collection changes apply after restart.''
         ''naebonaegineun jagyeokjeungmyeongeul maseukinghamnida(bin gap = bokgu si gijon yuji). jangbi.sujip seoljeong byeongyeongeun jaesijak hu jeogyongdoemnida.'',
       l ''Download config JSON'' ''seoljeong JSON daunrodeu'', l ''Availability CSV'' ''gayongseong CSV'',
       if sv_busy m = ''bk'' then ''...'' else l ''Restore from file...'' ''paireseo bokgu...''],
      sv_busy m \<noteq> [])"

text \<open>The switches: key, name, words, state.\<close>

definition SETG_ROWS :: "lfun \<Rightarrow> (string \<times> string \<times> string) list" where
  "SETG_ROWS l = [(''refresh'', l ''Auto refresh'' ''jadong saerogochim'',
       l ''Off keeps the 3s snapshot fetch running -- only the 1.2s screen heartbeat pauses''
         ''kkeodo 3cho seunaepsyat susineun gyesokdoego 1.2cho hwamyeon hateubiteuman meomchumnida''),
     (''sound'', l ''Alert sound'' ''allim saundeu'', l ''Plays a chime on warning-or-above alerts'' ''gyeonggo deunggeup isang gyeongboeseoman jaesaeng''),
     (''dense'', l ''Dense layout'' ''gomildo reiaut'', l ''Tighter row spacing across all screens'' ''jeonche hwamyeonui haeng gangyeogeul jopge pyosi'')]"

definition switch_on :: "settings \<Rightarrow> string \<Rightarrow> bool" where
  "switch_on s k = (if k = ''refresh'' then sg_refresh s else if k = ''sound'' then sg_sound s else sg_dense s)"

definition switch_rows :: "lfun \<Rightarrow> sett \<Rightarrow> (string \<times> string \<times> bool) list" where
  "switch_rows l m =
     (let st = sv_st m; sec = (if n_lt (Fin 0) (s_refreshSec st) then s_refreshSec st else Fin 60) in
      map (\<lambda>(k, name, words). (name,
        (if k = ''refresh'' then words @ '' . '' @ l ''collector interval '' ''jangbi sujip jugi '' @ l (num_str sec @ ''s'') (num_str sec @ ''cho'') else words),
        switch_on (s_setg st) k)) (SETG_ROWS l))"

text \<open>The row of a company. The picker keeps its value when the color is not written with six digits.\<close>

record co_row =
  cr_name :: string
  cr_swatch :: jsval
  cr_palette :: "(string \<times> bool \<times> string) list"
  cr_picker :: "string option"
  cr_resetHidden :: bool
  cr_expanded :: bool
  cr_change :: string
  cr_changeTitle :: string

definition six_digits :: "string \<Rightarrow> bool" where
  "six_digits c \<longleftrightarrow> length c = 7 \<and> hd c = CHR ''#'' \<and> list_all is_hex (tl c)"

definition company_row :: "lfun \<Rightarrow> string list \<Rightarrow> color_line \<Rightarrow> co_row" where
  "company_row l expanded c =
     (let col = to_str (cx_color c); ex = cx_name c \<in> set expanded in
      \<lparr>cr_name = cx_name c, cr_swatch = cx_color c,
       cr_palette = map (\<lambda>p. (p, lower p = lower col,
         l (''Set '' @ cx_name c @ '' color to '' @ p) (cx_name c @ '' saeksangeul '' @ p @ '' ro byeongyeong''))) COMPANY_PALETTE,
       cr_picker = (if six_digits col then Some col else None),
       cr_resetHidden = (\<not> cx_custom c), cr_expanded = ex,
       cr_change = (if ex then l ''Done'' ''wallyo'' else l ''Change'' ''byeongyeong''),
       cr_changeTitle = (if ex then l ''Collapse palette'' ''palleteu jeopgi'' else l ''Change color'' ''saek byeongyeong'')\<rparr>)"

definition company_rows :: "host \<Rightarrow> lfun \<Rightarrow> device list \<Rightarrow> sett \<Rightarrow> co_row list" where
  "company_rows h l fleet m = map (company_row l (sv_expanded m)) (buildCompanyColors h (sv_st m) fleet)"

text \<open>The rows are built anew when the names differ; this text compares them.\<close>

definition names_key :: "color_line list \<Rightarrow> string" where "names_key cs = join [CHR 0x01] (map cx_name cs)"

end
