(* ===== verification/SettingsSafe.thy ===== *)
theory SettingsSafe
  imports ScreenSettings
begin

text \<open>
  What the settings guarantee: the address of the webhook never enters what the page keeps of the server, only ordered thresholds
  are sent and shown, a refused policy is taken back. And two ways they fail: after a load that failed, a click on the escalation
  switches the notifications of the server off; and an answer that comes after the page was left and opened again ends the work of the new page.
\<close>

section \<open>Effects on the state\<close>

lemma render_keeps [simp]:
  "sv_cfg (sv_render m) = sv_cfg m" "sv_calls (sv_render m) = sv_calls m" "sv_st (sv_render m) = sv_st m" "sv_busy (sv_render m) = sv_busy m"
  "sv_alive (sv_render m) = sv_alive m" "sv_hook (sv_render m) = sv_hook m"
  by (simp_all add: sv_render_def)

lemma helpers_keep [simp]:
  "sv_cfg (set_st st m) = sv_cfg m" "sv_calls (set_st st m) = sv_calls m" "sv_st (set_st st m) = st" "sv_alive (set_st st m) = sv_alive m"
  "sv_cfg (showHookMsg b t m) = sv_cfg m" "sv_calls (showHookMsg b t m) = sv_calls m" "sv_st (showHookMsg b t m) = sv_st m"
  "sv_alive (showHookMsg b t m) = sv_alive m" "sv_busy (showHookMsg b t m) = sv_busy m"
  "sv_cfg (not_busy m) = sv_cfg m" "sv_calls (not_busy m) = sv_calls m" "sv_st (not_busy m) = sv_st m" "sv_alive (not_busy m) = sv_alive m"
  "sv_busy (not_busy m) = []"
  "sv_cfg (bad_url m) = sv_cfg m" "sv_calls (bad_url m) = sv_calls m" "sv_st (bad_url m) = sv_st m"
  "sv_cfg (sv_call c m) = sv_cfg m" "sv_calls (sv_call c m) = sv_calls m @ [c]" "sv_st (sv_call c m) = sv_st m" "sv_alive (sv_call c m) = sv_alive m"
  by (simp_all add: set_st_def showHookMsg_def not_busy_def bad_url_def sv_call_def)

lemma fst_if [simp]: "fst (if b then x else y) = (if b then fst x else fst y)" by simp

text \<open>A console whose page of settings is not open, a page that is, and an answer that echoes the address.\<close>

definition closed_page :: sett where
  "closed_page = \<lparr>sv_st = initialState, sv_alive = False, sv_busy = [], sv_cfg = JObj [], sv_hook = [], sv_hookInvalid = False, sv_hookMsg = None,
     sv_warn = [], sv_crit = [], sv_focus = [], sv_thInvalid = [], sv_thMsg = None, sv_bkMsg = None, sv_expanded = [], sv_calls = []\<rparr>"

definition loaded_page :: sett where
  "loaded_page = closed_page\<lparr>sv_alive := True, sv_cfg := JObj [(''loaded'', JBool True), (''enabled'', JBool True), (''configured'', JBool True)]\<rparr>"

definition echo :: sreply where
  "echo = SvAnswered 200 (Some (JObj [(''configured'', JBool True), (''webhook_url'', JStr ''https://hooks/x'')]))"

section \<open>Objects\<close>

lemma assign_keys:
  "is_map (assign v ps)" "set (own_keys (assign v ps)) = set (own_keys (obj_copy v)) \<union> fst ` set ps"
proof -
  have c: "is_map (obj_copy v)" by (cases v) simp_all
  have k: "set (own_keys (jput k x u)) = insert k (set (own_keys u))" if "is_map u" for k x u
    using has_own_jput [OF that, of k x] own_keys_has_own [OF that] own_keys_has_own [OF is_map_jput, of _ k x u] by blast
  have "is_map u \<Longrightarrow> is_map (foldl (\<lambda>a p. jput (fst p) (snd p) a) u ps)
      \<and> set (own_keys (foldl (\<lambda>a p. jput (fst p) (snd p) a) u ps)) = set (own_keys u) \<union> fst ` set ps" for u
    by (induction ps arbitrary: u) (auto simp: k)
  then show "is_map (assign v ps)" "set (own_keys (assign v ps)) = set (own_keys (obj_copy v)) \<union> fst ` set ps"
    using c by (auto simp: assign_def)
qed

lemma obj_copy_map: "is_map v \<Longrightarrow> obj_copy v = v"
  by (cases v) simp_all

section \<open>No secret is kept\<close>

definition CFG_KEYS :: "string list" where
  "CFG_KEYS = [''loaded'', ''enabled'', ''configured'', ''escalation_hours'', ''retry_max'', ''retry_base_seconds'', ''runtime'', ''status'', ''error'']"

definition cfg_clean :: "jsval \<Rightarrow> bool" where
  "cfg_clean c \<longleftrightarrow> is_map c \<and> set (own_keys c) \<subseteq> set CFG_KEYS"

lemma sanitized_keys: "fst ` set (props_of (sanitizeNotificationConfig v)) \<subseteq> set CFG_KEYS"
proof -
  have b: "fst ` set (keep_bool w k) \<subseteq> {k}" and n: "fst ` set (keep_num w k) \<subseteq> {k}" and r: "fst ` set (keep_runtime w k) \<subseteq> {k}" for w k
    by (auto simp: keep_bool_def keep_num_def keep_runtime_def split: jsval.splits jsnum.splits)
  show ?thesis
    unfolding sanitizeNotificationConfig_def props_of_def Let_def jsval.case set_append image_Un CFG_KEYS_def
    by (intro Un_least subset_trans [OF b] subset_trans [OF n] subset_trans [OF r]) simp_all
qed

lemma clean_assign: "cfg_clean c \<Longrightarrow> fst ` set ps \<subseteq> set CFG_KEYS \<Longrightarrow> cfg_clean (assign c ps)"
  by (simp add: cfg_clean_def assign_keys obj_copy_map)

lemma clean_sanitized: "cfg_clean c \<Longrightarrow> fst ` set ps \<subseteq> set CFG_KEYS \<Longrightarrow> cfg_clean (assign c (props_of (sanitizeNotificationConfig j) @ ps))"
  using sanitized_keys [of j] by (intro clean_assign) (auto simp: image_Un)

lemma clean_initial: "cfg_clean initial_cfg"
  by (simp add: cfg_clean_def initial_cfg_def CFG_KEYS_def)

definition call_clean :: "scall \<Rightarrow> bool" where
  "call_clean c = (case c of HookCall clear p cfg val rollback \<Rightarrow> cfg_clean cfg \<and> (case rollback of Some r \<Rightarrow> cfg_clean r | None \<Rightarrow> True)
     | ThresholdCall w c \<Rightarrow> thresholds_ok w c | _ \<Rightarrow> True)"

definition sett_clean :: "sett \<Rightarrow> bool" where
  "sett_clean m \<longleftrightarrow> cfg_clean (sv_cfg m) \<and> list_all call_clean (sv_calls m)"

lemma hook_clean: "sett_clean m \<Longrightarrow> (case rb of Some r \<Rightarrow> cfg_clean r | None \<Rightarrow> True) \<Longrightarrow> sett_clean (fst (saveHook is_url cl po rb m))"
  by (auto simp: saveHook_def sett_clean_def call_clean_def Let_def)

lemma esc_clean: "sett_clean m \<Longrightarrow> sett_clean (fst (set_escalation is_url v m))"
proof -
  assume m: "sett_clean m"
  then have c: "is_map (sv_cfg m)" by (simp add: sett_clean_def cfg_clean_def)
  then have "jor (sv_cfg m) (JObj []) = sv_cfg m" by (cases "sv_cfg m") (simp_all add: jor_def)
  moreover have "cfg_clean (assign (sv_cfg m) [(''escalation_hours'', JNum (Fin x))])" for x
    using m by (intro clean_assign) (simp_all add: sett_clean_def CFG_KEYS_def)
  ultimately show ?thesis using m c
    by (auto simp: set_escalation_def escalationTransition_def obj_copy_map Let_def sett_clean_def intro!: hook_clean [unfolded sett_clean_def])
qed

lemma settle_clean: "sett_clean m \<Longrightarrow> sett_clean (fst (settle_setting n e r m))"
proof (cases "n < length (sv_calls m)")
  case True
  assume m: "sett_clean m"
  then have c: "call_clean (sv_calls m ! n)" using True by (simp add: sett_clean_def list_all_length)
  have rest: "list_all call_clean (take n (sv_calls m) @ drop (Suc n) (sv_calls m))"
    using m by (auto simp: sett_clean_def list_all_iff dest: in_set_takeD in_set_dropD)
  have cfg: "cfg_clean (sv_cfg m)" using m by (simp add: sett_clean_def)
  show ?thesis
  proof (cases "sv_calls m ! n")
    case (HookCall clear p cf val rb)
    then show ?thesis using True c cfg rest
      by (auto simp: settle_setting_def settle_hook_def sett_clean_def call_clean_def Let_def CFG_KEYS_def clean_sanitized split: sum.splits option.splits)
  next
    case LoadCall
    then show ?thesis using True cfg rest
      by (auto simp: settle_setting_def settle_load_def sett_clean_def Let_def CFG_KEYS_def clean_sanitized clean_assign split: sum.splits)
  qed (use True cfg rest in \<open>auto simp: settle_setting_def settle_hook_test_def settle_thresholds_def settle_file_def settle_approval_def
      settle_import_def bk_say_def sett_clean_def call_clean_def Let_def split: sum.splits prod.splits sreply.splits option.splits\<close>)
qed (simp add: settle_setting_def)

lemma do_clean: "sett_clean m \<Longrightarrow> sett_clean (fst (settings_do is_url ev m))"
proof -
  assume m: "sett_clean m"
  have th: "sett_clean (fst (saveThresholds b m))" for b
    using m by (auto simp: saveThresholds_def sett_clean_def call_clean_def Let_def)
  have t: "sett_clean (fst (testHook is_url m))"
    using m by (auto simp: testHook_def sett_clean_def call_clean_def Let_def)
  have o: "sett_clean (setCompanyColor co col m)" "sett_clean (resetCompanyColor co m)" "sett_clean (importConfig m)" for co col
    using m by (auto simp: setCompanyColor_def resetCompanyColor_def importConfig_def sett_clean_def call_clean_def)
  have mt: "sett_clean (fst (mount_settings m))" using m clean_initial by (auto simp: mount_settings_def sett_clean_def call_clean_def)
  show ?thesis using m th t o mt
    by (cases ev) (simp_all add: settings_do_def hook_clean esc_clean settle_clean, simp_all add: sett_clean_def)
qed

lemma run_clean: "sett_clean m \<Longrightarrow> sett_clean (fst (settings_run is_url evs m))"
  by (induction evs arbitrary: m) (simp_all add: case_prod_beta do_clean)

section \<open>The address of the webhook\<close>

lemma mounted_clean: "\<not> sv_alive m \<Longrightarrow> sv_calls m = [] \<Longrightarrow> sett_clean (fst (settings_run is_url (SvMount # evs) m))"
  using run_clean [of "fst (mount_settings m)"] clean_initial
  by (simp add: settings_do_def mount_settings_def case_prod_beta sett_clean_def call_clean_def)

lemma hook_input_emptied:
  "sv_alive m \<Longrightarrow> n < length (sv_calls m) \<Longrightarrow> sv_calls m ! n = HookCall clear p cfg val rb \<Longrightarrow> sv_hook (fst (settle_setting n e r m)) = []"
  by (simp add: settle_setting_def settle_hook_def not_busy_def Let_def split: sum.splits)

text \<open>C16. The address of the webhook is a secret that the page does not keep: after any run of a page that was opened, with any
  answers, what it keeps of the server has none but the listed keys, so no \<open>webhook_url\<close> even where the server echoes one; and as
  soon as a save of the mounted page is answered, with success or not, the input that held the address is empty.\<close>

theorem webhook_not_kept:
  assumes "\<not> sv_alive m" "sv_calls m = []" "page = fst (settings_run is_url (SvMount # evs) m)"
  shows "set (own_keys (sv_cfg page)) \<subseteq> set CFG_KEYS \<and> ''webhook_url'' \<notin> set (own_keys (sv_cfg page))
    \<and> (sv_alive page \<and> n < length (sv_calls page) \<and> sv_calls page ! n = HookCall clear p cfg val rb
        \<longrightarrow> sv_hook (fst (settings_do is_url (SvSettle n e r) page)) = [])"
proof -
  have k: "set (own_keys (sv_cfg page)) \<subseteq> set CFG_KEYS"
    using mounted_clean [OF assms(1,2)] assms(3) by (simp add: sett_clean_def cfg_clean_def)
  moreover have "''webhook_url'' \<notin> set CFG_KEYS" by (simp add: CFG_KEYS_def)
  ultimately show ?thesis by (auto simp: settings_do_def hook_input_emptied)
qed

theorem webhook_not_kept_witness:
  "''webhook_url'' \<notin> set (own_keys (sv_cfg (fst (settings_run (\<lambda>t. True) [SvMount, SvSettle 0 [] echo] closed_page))))"
  using webhook_not_kept [of closed_page "fst (settings_run (\<lambda>t. True) [SvMount, SvSettle 0 [] echo] closed_page)" "\<lambda>t. True" "[SvSettle 0 [] echo]"]
  by (simp add: closed_page_def del: settings_run.simps)

section \<open>Thresholds\<close>

definition th_ordered :: "app_state \<Rightarrow> bool" where
  "th_ordered st = (case s_thresholds st of Some (w, c) \<Rightarrow> thresholds_ok w c | None \<Rightarrow> True)"

definition store_ordered :: "sv_event \<Rightarrow> bool" where
  "store_ordered ev = (case ev of SvStore st \<Rightarrow> th_ordered st | _ \<Rightarrow> True)"

definition th_request :: "sv_effect \<Rightarrow> bool" where
  "th_request e = (case e of SSend meth u b \<Rightarrow> u = ''/api/admin/thresholds'' | _ \<Rightarrow> False)"

definition ordered_request :: "sv_effect \<Rightarrow> bool" where
  "ordered_request e = (case e of SSend meth u b \<Rightarrow>
     thresholds_ok (to_num (jget b ''warn'')) (to_num (jget b ''crit'')) \<and> own_keys b = [''warn'', ''crit''] | _ \<Rightarrow> False)"

lemma hook_ordered [simp]: "th_ordered (sv_st (fst (saveHook is_url cl po rb m))) = th_ordered (sv_st m)"
  by (simp add: saveHook_def Let_def)

lemma settle_ordered: "sett_clean m \<Longrightarrow> th_ordered (sv_st m) \<Longrightarrow> th_ordered (sv_st (fst (settle_setting n e r m)))"
proof (cases "n < length (sv_calls m)")
  case True
  assume m: "sett_clean m" "th_ordered (sv_st m)"
  then have c: "call_clean (sv_calls m ! n)" using True by (simp add: sett_clean_def list_all_length)
  show ?thesis
  proof (cases "sv_calls m ! n")
    case (ThresholdCall w c)
    then show ?thesis using True m \<open>call_clean _\<close>
      by (auto simp: settle_setting_def settle_thresholds_def call_clean_def th_ordered_def Let_def split: sum.splits)
  qed (use True m in \<open>auto simp: settle_setting_def settle_hook_test_def settle_hook_def settle_load_def settle_file_def settle_approval_def
      settle_import_def bk_say_def Let_def split: sum.splits prod.splits sreply.splits option.splits\<close>)
qed (simp add: settle_setting_def)

lemma do_ordered: "sett_clean m \<Longrightarrow> th_ordered (sv_st m) \<Longrightarrow> store_ordered ev \<Longrightarrow> th_ordered (sv_st (fst (settings_do is_url ev m)))"
  by (cases ev) (simp_all add: settings_do_def settle_ordered store_ordered_def mount_settings_def set_escalation_def escalationTransition_def
      setCompanyColor_def resetCompanyColor_def saveThresholds_def testHook_def importConfig_def Let_def, simp_all add: th_ordered_def)

lemma do_requests: "\<forall>e \<in> set (snd (settings_do is_url ev m)). th_request e \<longrightarrow> ordered_request e"
proof -
  have h: "\<forall>e \<in> set (snd (saveHook is_url cl po rb x)). \<not> th_request e" for cl po rb x
    by (simp add: saveHook_def Let_def th_request_def notify_url_def)
  have t: "\<forall>e \<in> set (snd (saveThresholds b m)). ordered_request e" for b
    by (simp add: saveThresholds_def Let_def ordered_request_def)
  have u: "\<forall>e \<in> set (snd (testHook is_url m)). \<not> th_request e"
    by (simp add: testHook_def Let_def th_request_def notify_url_def)
  have s: "\<forall>e \<in> set (snd (settle_setting n nm r m)). \<not> th_request e" for n nm r
    by (auto simp: settle_setting_def settle_hook_def settle_thresholds_def settle_file_def settle_approval_def
        settle_import_def bk_say_def Let_def th_request_def split: scall.splits sum.splits sreply.splits option.splits)
  show ?thesis using h t u s
    by (cases ev) (auto simp: settings_do_def mount_settings_def set_escalation_def escalationTransition_def Let_def th_request_def notify_url_def)
qed

lemma run_ordered:
  "sett_clean m \<Longrightarrow> th_ordered (sv_st m) \<Longrightarrow> list_all store_ordered evs \<Longrightarrow>
   th_ordered (sv_st (fst (settings_run is_url evs m))) \<and> (\<forall>e \<in> set (snd (settings_run is_url evs m)). th_request e \<longrightarrow> ordered_request e)"
proof (induction evs arbitrary: m)
  case (Cons ev evs)
  have "sett_clean (fst (settings_do is_url ev m))" "th_ordered (sv_st (fst (settings_do is_url ev m)))"
    using Cons.prems by (simp_all add: do_clean do_ordered)
  then show ?case using Cons.IH [of "fst (settings_do is_url ev m)"] Cons.prems(3) do_requests [of is_url ev m] by (auto simp: case_prod_beta)
qed simp

text \<open>C17. Only ordered thresholds leave the page: on every run of a page that was opened, whatever is typed and answered, each request
  for the thresholds carries two numbers with \<open>0 < warning < critical \<le> 100\<close> and nothing else, and what the console shows, unless
  another part of it brings other values, is ordered too, also when the answer comes after the page was left.\<close>

theorem thresholds_stay_ordered:
  assumes "\<not> sv_alive m" "sv_calls m = []" "th_ordered (sv_st m)" "list_all store_ordered evs"
    "settings_run is_url (SvMount # evs) m = (page, effs)"
  shows "th_ordered (sv_st page) \<and> (\<forall>e \<in> set effs. th_request e \<longrightarrow> ordered_request e)"
proof -
  let ?m = "fst (mount_settings m)"
  have "sett_clean ?m" using assms(1,2) clean_initial by (simp add: mount_settings_def sett_clean_def call_clean_def)
  moreover have "th_ordered (sv_st ?m)" using assms(3) by (simp add: mount_settings_def)
  ultimately have r: "th_ordered (sv_st (fst (settings_run is_url evs ?m)))
      \<and> (\<forall>e \<in> set (snd (settings_run is_url evs ?m)). th_request e \<longrightarrow> ordered_request e)" using assms(4) by (rule run_ordered)
  have "page = fst (settings_run is_url evs ?m)" "effs = snd (mount_settings m) @ snd (settings_run is_url evs ?m)"
    using assms(1,5) by (simp_all add: settings_do_def case_prod_beta)
  moreover have "\<forall>e \<in> set (snd (mount_settings m)). \<not> th_request e" by (simp add: mount_settings_def th_request_def notify_url_def)
  ultimately show ?thesis using r by auto
qed

theorem thresholds_stay_ordered_witness:
  "th_ordered (sv_st (fst (settings_run (\<lambda>t. True) [SvMount, SvWarnType ''95'', SvThSave, SvThReset, SvLeave] closed_page)))"
proof -
  obtain page effs where r: "settings_run (\<lambda>t. True) [SvMount, SvWarnType ''95'', SvThSave, SvThReset, SvLeave] closed_page = (page, effs)" by fastforce
  have "th_ordered (sv_st closed_page)" by (simp add: closed_page_def th_ordered_def initialState_def)
  then show ?thesis
    using thresholds_stay_ordered [OF _ _ _ _ r] r by (simp add: closed_page_def store_ordered_def del: settings_run.simps)
qed

section \<open>The escalation\<close>

definition esc_hours :: "rat \<Rightarrow> rat" where "esc_hours v = (if v = 4 \<or> v = 24 then v else 0)"

lemma esc_call:
  assumes "sv_alive m" "sv_busy m = []" "is_map (sv_cfg m)"
  shows "\<exists>p. set_escalation is_url v m =
      (sv_call (HookCall False p (assign (sv_cfg m) [(''escalation_hours'', JNum (Fin (esc_hours v)))]) [] (Some (sv_cfg m)))
         (sv_render (m\<lparr>sv_cfg := assign (sv_cfg m) [(''escalation_hours'', JNum (Fin (esc_hours v)))], sv_busy := ''save''\<rparr>)),
       [SSend ''PUT'' notify_url (JObj p)])
    \<and> jget (JObj p) ''escalation_hours'' = JNum (Fin (esc_hours v)) \<and> jget (JObj p) ''enabled'' = JBool (truthy (jget (sv_cfg m) ''enabled''))"
proof -
  have j: "jor (sv_cfg m) (JObj []) = sv_cfg m" using assms(3) by (cases "sv_cfg m") (simp_all add: jor_def)
  have "jget (assign (sv_cfg m) [(''escalation_hours'', x)]) ''escalation_hours'' = x"
     "jget (assign (sv_cfg m) [(''escalation_hours'', x)]) ''enabled'' = jget (sv_cfg m) ''enabled''" for x
    using assms(3) by (cases "sv_cfg m"; simp add: assign_def jget_jput)+
  then show ?thesis using assms j
    by (auto simp: set_escalation_def escalationTransition_def obj_copy_map saveHook_def hook_payload_def esc_hours_def num_or_def Let_def)
qed

lemma esc_click:
  "sv_alive m \<Longrightarrow> esc_enabled m \<Longrightarrow> settings_do is_url (SvEsc v) m = set_escalation is_url v m"
  by (simp add: settings_do_def)

lemma settle_last:
  "sv_calls m = cs @ [c] \<Longrightarrow> settle_setting (length cs) e r m =
     (let m1 = m\<lparr>sv_calls := cs\<rparr> in case c of
          LoadCall \<Rightarrow> (settle_load e r m1, [])
        | HookCall clear p cfg val rollback \<Rightarrow> settle_hook e clear p cfg val rollback r m1
        | HookTestCall \<Rightarrow> (settle_hook_test r m1, [])
        | ThresholdCall w c \<Rightarrow> settle_thresholds e w c r m1
        | FileCall \<Rightarrow> settle_file r m1
        | ApproveCall doc \<Rightarrow> settle_approval doc r m1
        | ImportCall \<Rightarrow> settle_import e r m1)"
  by (simp add: settle_setting_def Let_def)

lemma settled_hook:
  assumes "sv_alive m"
  shows "sv_busy (fst (settle_hook e cl p cfg val rb r m)) = []"
    "outcome e r = Inl why \<Longrightarrow> sv_cfg (fst (settle_hook e cl p cfg val (Some c) r m)) = c"
    "outcome e r = Inl why \<Longrightarrow> sv_hookMsg (fst (settle_hook e cl p cfg val rb r m)) = Some (False, ''x '' @ why)"
    "outcome e r = Inr doc \<Longrightarrow> jget (sv_cfg (fst (settle_hook e cl p cfg val rb r m))) ''escalation_hours'' = jget (JObj p) ''escalation_hours''"
proof -
  have "is_map (foldl (\<lambda>a p. jput (fst p) (snd p) a) (obj_copy u) ps)" for u ps
    using assign_keys(1) [of u ps] by (simp add: assign_def)
  then have a: "jget (assign u (ps @ [(k1, x1), (k2, x2), (k3, x3), (''escalation_hours'', x), (''error'', y)])) ''escalation_hours'' = x"
    for u ps k1 x1 k2 x2 k3 x3 x y by (simp add: assign_def jget_jput)
  show "sv_busy (fst (settle_hook e cl p cfg val rb r m)) = []"
    using assms by (simp add: settle_hook_def Let_def split: sum.split)
  show "outcome e r = Inl why \<Longrightarrow> sv_cfg (fst (settle_hook e cl p cfg val (Some c) r m)) = c"
    using assms by (simp add: settle_hook_def Let_def)
  show "outcome e r = Inl why \<Longrightarrow> sv_hookMsg (fst (settle_hook e cl p cfg val rb r m)) = Some (False, ''x '' @ why)"
    using assms by (simp add: settle_hook_def Let_def not_busy_def sv_render_def showHookMsg_def split: option.split)
  show "outcome e r = Inr doc \<Longrightarrow> jget (sv_cfg (fst (settle_hook e cl p cfg val rb r m))) ''escalation_hours'' = jget (JObj p) ''escalation_hours''"
    using assms a by (simp add: settle_hook_def Let_def)
qed

text \<open>A change of the escalation is optimistic and taken back when it fails: a click on the page sends one request, whose
  hours are those of the button; while it is under way the page shows them, and no second click is taken; when the request fails, what
  the page keeps of the server is exactly what it was and the reason is shown; when it is confirmed the hours are those of the button.\<close>

theorem policy_change_settles:
  assumes "sv_alive m" "esc_enabled m" "is_map (sv_cfg m)"
    "settings_run is_url [SvEsc v, SvEsc w] m = (m1, sent)" "settings_do is_url (SvSettle (length (sv_calls m)) e r) m1 = (m2, effs)"
  shows "length sent = 1 \<and> jget (sv_cfg m1) ''escalation_hours'' = JNum (Fin (esc_hours v)) \<and> sv_busy m1 = ''save'' \<and> sv_busy m2 = []
    \<and> (case outcome e r of Inl why \<Rightarrow> sv_cfg m2 = sv_cfg m \<and> sv_hookMsg m2 = Some (False, ''x '' @ why)
       | Inr doc \<Rightarrow> jget (sv_cfg m2) ''escalation_hours'' = JNum (Fin (esc_hours v)))"
proof -
  have b: "sv_busy m = []" using assms(2) by (simp add: esc_enabled_def)
  define opt where "opt = assign (sv_cfg m) [(''escalation_hours'', JNum (Fin (esc_hours v)))]"
  obtain p where p: "set_escalation is_url v m =
      (sv_call (HookCall False p opt [] (Some (sv_cfg m))) (sv_render (m\<lparr>sv_cfg := opt, sv_busy := ''save''\<rparr>)), [SSend ''PUT'' notify_url (JObj p)])"
    "jget (JObj p) ''escalation_hours'' = JNum (Fin (esc_hours v))" using esc_call [OF assms(1) b assms(3)] unfolding opt_def by blast
  have m1: "m1 = sv_call (HookCall False p opt [] (Some (sv_cfg m))) (sv_render (m\<lparr>sv_cfg := opt, sv_busy := ''save''\<rparr>))" "length sent = 1"
    using assms(1,2,4) p(1) by (auto simp: esc_click settings_do_def esc_enabled_def sv_call_def)
  have h: "jget opt ''escalation_hours'' = JNum (Fin (esc_hours v))"
    using assms(3) unfolding opt_def by (cases "sv_cfg m"; simp add: assign_def jget_jput)
  have al: "sv_alive m1" "sv_calls m1 = sv_calls m @ [HookCall False p opt [] (Some (sv_cfg m))]" "sv_cfg m1 = opt" "sv_busy m1 = ''save''"
    using m1 assms(1) by (simp_all add: sv_call_def)
  have "m2 = fst (settle_hook e False p opt [] (Some (sv_cfg m)) r (m1\<lparr>sv_calls := sv_calls m\<rparr>))"
    using assms(5) al(2) by (simp add: settings_do_def settle_last)
  then show ?thesis using al m1(2) h p(2) settled_hook [of "m1\<lparr>sv_calls := sv_calls m\<rparr>"] by (simp split: sum.split)
qed

theorem policy_change_settles_witness:
  "sv_cfg (fst (settings_do (\<lambda>t. True) (SvSettle 0 [] (SvFailed ''TypeError'' ''Failed to fetch'')) (fst (settings_run (\<lambda>t. True) [SvEsc 4, SvEsc 24] loaded_page))))
   = sv_cfg loaded_page"
proof -
  obtain m1 sent where r: "settings_run (\<lambda>t. True) [SvEsc 4, SvEsc 24] loaded_page = (m1, sent)" by fastforce
  obtain m2 effs where d: "settings_do (\<lambda>t. True) (SvSettle (length (sv_calls loaded_page)) [] (SvFailed ''TypeError'' ''Failed to fetch'')) m1 = (m2, effs)" by fastforce
  have p: "sv_alive loaded_page" "esc_enabled loaded_page" "is_map (sv_cfg loaded_page)" "sv_calls loaded_page = []"
    by (simp_all add: loaded_page_def closed_page_def esc_enabled_def)
  have "outcome [] (SvFailed ''TypeError'' ''Failed to fetch'') = Inl ''Failed to fetch''" by (simp add: outcome_def thrown_text_def)
  then show ?thesis using policy_change_settles [OF p(1-3) r d] r d p(4) by (simp del: settings_run.simps)
qed

section \<open>How they fail\<close>

text \<open>C40. When the settings could not be loaded, a click on one of the buttons of the escalation (4 or 24 hours) switches the notifications of the server off. The load
  that failed counts as loaded, so the buttons are enabled, and the policy that is sent is the one the page was built with: disabled,
  with three attempts and two seconds, whatever the server has, and whatever the reason of the failure was.\<close>

theorem failed_load_disables_notifications:
  assumes "\<not> sv_alive m" "sv_calls m = []" "outcome e r = Inl why" "esc_hours v \<noteq> 0"
    "settings_run is_url [SvMount, SvSettle 0 e r, SvEsc v] m = (page, effs)"
  shows "nv_key (notificationDisplay (sv_cfg (fst (settings_run is_url [SvMount, SvSettle 0 e r] m)))) \<in> {''unavailable'', ''unconfigured''}
    \<and> effs = [SSend ''GET'' notify_url Undef,
         SSend ''PUT'' notify_url (JObj [(''enabled'', JBool False), (''escalation_hours'', JNum (Fin (esc_hours v))), (''retry_max'', JNum (Fin 3)),
           (''retry_base_seconds'', JNum (Fin 2))])]"
proof -
  define m0 where "m0 = fst (mount_settings m)"
  define failed where "failed = assign initial_cfg [(''loaded'', JBool True), (''error'', JStr why)]"
  define m1 where "m1 = fst (settle_setting 0 e r m0)"
  have m0: "sv_alive m0" "sv_calls m0 = [LoadCall]" "sv_cfg m0 = initial_cfg" "sv_busy m0 = []"
    using assms(2) by (simp_all add: m0_def mount_settings_def sv_call_def)
  have step0: "settings_run is_url [SvMount, SvSettle 0 e r] m = (m1, [SSend ''GET'' notify_url Undef])"
    using assms(1) m0(2) by (simp add: settings_do_def m0_def m1_def mount_settings_def settle_setting_def case_prod_beta)
  have m1: "sv_alive m1" "sv_calls m1 = []" "sv_cfg m1 = failed" "sv_busy m1 = []"
    using m0 assms(3) by (simp_all add: m1_def settle_setting_def settle_load_def failed_def Let_def)
  have f: "is_map failed" "jget failed ''loaded'' = JBool True" "jget failed ''error'' = JStr why" "jget failed ''configured'' = JBool False"
    "jget failed ''enabled'' = JBool False" "jget failed ''retry_max'' = JNum (Fin 3)" "jget failed ''retry_base_seconds'' = JNum (Fin 2)"
    by (simp_all add: failed_def assign_def initial_cfg_def)
  have esc: "settings_do is_url (SvEsc v) m1 = set_escalation is_url v m1" using m1 f(2) by (intro esc_click) (simp_all add: esc_enabled_def)
  have j: "jor failed (JObj []) = failed" using f(1) by (cases failed) (simp_all add: jor_def)
  have sent: "snd (set_escalation is_url v m1) = [SSend ''PUT'' notify_url (JObj [(''enabled'', JBool False), (''escalation_hours'', JNum (Fin (esc_hours v))),
      (''retry_max'', JNum (Fin 3)), (''retry_base_seconds'', JNum (Fin 2))])]"
    using m1 f j assms(4) by (simp add: set_escalation_def escalationTransition_def obj_copy_map saveHook_def hook_payload_def assign_def num_or_def
        num_fin_def esc_hours_def [symmetric] Let_def)
  have "effs = [SSend ''GET'' notify_url Undef] @ snd (set_escalation is_url v m1)"
    using assms(5) step0 esc by (auto simp: case_prod_beta)
  moreover have "nv_key (notificationDisplay failed) \<in> {''unavailable'', ''unconfigured''}"
    using f j by (simp add: notificationDisplay_def Let_def)
  ultimately show ?thesis using step0 sent m1(3) by simp
qed

theorem failed_load_disables_notifications_witness:
  "length (snd (settings_run (\<lambda>t. True) [SvMount, SvSettle 0 [] (SvFailed ''AbortError'' []), SvEsc 4] closed_page)) = 2"
proof -
  obtain page effs where r: "settings_run (\<lambda>t. True) [SvMount, SvSettle 0 [] (SvFailed ''AbortError'' []), SvEsc 4] closed_page = (page, effs)" by fastforce
  have p: "\<not> sv_alive closed_page" "sv_calls closed_page = []" "outcome [] (SvFailed ''AbortError'' []) = Inl ''AbortError''" "esc_hours 4 \<noteq> 0"
    by (simp_all add: closed_page_def outcome_def thrown_text_def esc_hours_def)
  show ?thesis using failed_load_disables_notifications [OF p r] r by (simp del: settings_run.simps)
qed

text \<open>Leaving the page while an answer is awaited: the thresholds and the restore go on without asking for the page and end with an exception.\<close>

lemma leaving_crashes:
  assumes "\<not> sv_alive m"
  shows "snd (settle_thresholds e w c r m) = [SCrash]" "snd (settle_import e r m) = [SCrash]"
    "snd (settle_file (SvFailed n t) m) = [SCrash]" "snd (settle_approval doc (SvApproved why) m) = [SCrash]"
  using assms by (simp_all add: settle_thresholds_def settle_import_def settle_file_def bk_say_def settle_approval_def Let_def split: sum.splits)

text \<open>Leaving and coming back: the answer to the old page ends the work of the new one and empties its input.\<close>

lemma old_answer_touches_new_page:
  assumes "sv_alive m" "n < length (sv_calls m)" "sv_calls m ! n = HookCall clear p cfg val rb"
  shows "sv_busy (fst (settle_setting n e r m)) = [] \<and> sv_hook (fst (settle_setting n e r m)) = []"
  using assms hook_input_emptied [OF assms] settled_hook(1) by (simp add: settle_setting_def)

text \<open>A typed address goes with the answer to a change of the policy that never sent it.\<close>

lemma policy_forgets_address:
  assumes "sv_alive m" "sv_busy m = []" "sv_calls m = []"
  shows "\<exists>p. snd (saveHook is_url False True rb m) = [SSend ''PUT'' notify_url (JObj p)] \<and> map_of p ''webhook_url'' = None
    \<and> sv_hook (fst (saveHook is_url False True rb m)) = sv_hook m \<and> sv_hook (fst (settle_setting 0 e r (fst (saveHook is_url False True rb m)))) = []"
proof -
  let ?c = "HookCall False (hook_payload False True (sv_cfg m) []) (sv_cfg m) [] rb"
  have "saveHook is_url False True rb m = (sv_call ?c (sv_render (m\<lparr>sv_busy := ''save''\<rparr>)), [SSend ''PUT'' notify_url (JObj (hook_payload False True (sv_cfg m) []))])"
    using assms by (simp add: saveHook_def Let_def)
  moreover have "map_of (hook_payload False True (sv_cfg m) []) ''webhook_url'' = None" by (simp add: hook_payload_def)
  moreover have "sv_hook (sv_call ?c (sv_render (m\<lparr>sv_busy := ''save''\<rparr>))) = sv_hook m" by (simp add: sv_call_def)
  moreover have "sv_hook (fst (settle_setting 0 e r (sv_call ?c (sv_render (m\<lparr>sv_busy := ''save''\<rparr>))))) = []"
    by (rule hook_input_emptied [where clear = False and p = "hook_payload False True (sv_cfg m) []" and cfg = "sv_cfg m" and val = "[]" and rb = rb])
      (use assms in \<open>simp_all add: sv_call_def\<close>)
  ultimately show ?thesis by auto
qed

end
