(* ===== verification/SyncList.thy ===== *)
theory SyncList
  imports Prelude
begin

text \<open>
  The keyed lists of the overview, \<open>syncList\<close> in \<open>src/web/js/screens/overview.js\<close>: the children of a container follow a list of
  items, and a child whose key stays is kept, so that focus, hovering and transitions survive. The container remembers a record
  for each key: the node, which has an identity here, and what it shows.
\<close>

section \<open>The algorithm\<close>

record 'r kept =
  kd_recs :: "(string \<times> nat \<times> 'r) list"
  kd_kids :: "nat list"
  kd_next :: nat

definition no_kids :: "'r kept" where "no_kids = \<lparr>kd_recs = [], kd_kids = [], kd_next = 0\<rparr>"

text \<open>\<open>insertBefore\<close>, which takes the node out first; without a reference node it is put last.\<close>

definition insert_before :: "nat \<Rightarrow> nat option \<Rightarrow> nat list \<Rightarrow> nat list" where
  "insert_before n ref xs = (let ys = removeAll n xs in case ref of None \<Rightarrow> ys @ [n]
     | Some r \<Rightarrow> takeWhile (\<lambda>x. x \<noteq> r) ys @ n # dropWhile (\<lambda>x. x \<noteq> r) ys)"

definition first_of :: "nat list \<Rightarrow> nat option" where "first_of xs = (case xs of [] \<Rightarrow> None | x # _ \<Rightarrow> Some x)"

definition sibling :: "nat option \<Rightarrow> nat list \<Rightarrow> nat option" where
  "sibling prev xs = (case prev of None \<Rightarrow> first_of xs | Some p \<Rightarrow> first_of (tl (dropWhile (\<lambda>x. x \<noteq> p) xs)))"

text \<open>\<open>create\<close> makes what a new node shows, \<open>update\<close> writes an item over what a node shows.\<close>

definition sync_one ::
    "('i \<Rightarrow> string) \<Rightarrow> ('i \<Rightarrow> 'r) \<Rightarrow> ('r \<Rightarrow> 'i \<Rightarrow> 'r) \<Rightarrow> 'i \<Rightarrow> 'r kept \<times> nat option \<Rightarrow> 'r kept \<times> nat option" where
  "sync_one keyOf create update item s =
     (case s of (k, prev) \<Rightarrow>
       let key = keyOf item;
           (n, r, k1) = (case map_of (kd_recs k) key of Some (n, r) \<Rightarrow> (n, r, k) | None \<Rightarrow> (kd_next k, create item, k\<lparr>kd_next := Suc (kd_next k)\<rparr>));
           ref = sibling prev (kd_kids k1);
           kids = (if Some n \<noteq> ref then insert_before n ref (kd_kids k1) else kd_kids k1)
       in (k1\<lparr>kd_recs := aput key (n, update r item) (kd_recs k1), kd_kids := kids\<rparr>, Some n))"

definition drop_unseen :: "string list \<Rightarrow> 'r kept \<Rightarrow> 'r kept" where
  "drop_unseen seen k =
     (let gone = map (\<lambda>p. fst (snd p)) (filter (\<lambda>p. fst p \<notin> set seen) (kd_recs k)) in
      k\<lparr>kd_recs := filter (\<lambda>p. fst p \<in> set seen) (kd_recs k), kd_kids := filter (\<lambda>n. n \<notin> set gone) (kd_kids k)\<rparr>)"

definition syncList :: "('i \<Rightarrow> string) \<Rightarrow> ('i \<Rightarrow> 'r) \<Rightarrow> ('r \<Rightarrow> 'i \<Rightarrow> 'r) \<Rightarrow> 'i list \<Rightarrow> 'r kept \<Rightarrow> 'r kept" where
  "syncList keyOf create update items k =
     drop_unseen (map keyOf items) (fst (foldl (\<lambda>s item. sync_one keyOf create update item s) (k, None) items))"

text \<open>What stands in the container: the content of its nodes from first to last.\<close>

definition shown_in :: "'r kept \<Rightarrow> 'r list" where
  "shown_in k = List.map_filter (\<lambda>n. map_of (map snd (kd_recs k)) n) (kd_kids k)"

section \<open>Well-formed containers\<close>

definition kept_ok :: "'r kept \<Rightarrow> bool" where
  "kept_ok k \<longleftrightarrow> distinct (map fst (kd_recs k)) \<and> distinct (map (\<lambda>p. fst (snd p)) (kd_recs k)) \<and> distinct (kd_kids k)
     \<and> set (kd_kids k) = (\<lambda>p. fst (snd p)) ` set (kd_recs k) \<and> (\<forall>n \<in> set (kd_kids k). n < kd_next k)"

lemma no_kids_ok [simp]: "kept_ok no_kids"
  by (simp add: kept_ok_def no_kids_def)

lemma insert_new: "n \<notin> set (xs @ ys) \<Longrightarrow> distinct (xs @ ys) \<Longrightarrow> insert_before n (first_of ys) (xs @ ys) = xs @ n # ys"
  by (cases ys) (auto simp: insert_before_def first_of_def takeWhile_append dropWhile_append)

lemma insert_move: "distinct (xs @ ys) \<Longrightarrow> n \<in> set ys \<Longrightarrow> first_of ys \<noteq> Some n \<Longrightarrow> insert_before n (first_of ys) (xs @ ys) = xs @ n # removeAll n ys"
proof -
  assume a: "distinct (xs @ ys)" "n \<in> set ys" "first_of ys \<noteq> Some n"
  then have "removeAll n xs = xs" by (intro removeAll_id) auto
  with a show ?thesis by (cases ys) (auto simp: insert_before_def first_of_def takeWhile_append dropWhile_append)
qed

lemma sibling_last: "distinct (xs @ ys) \<Longrightarrow> sibling (if xs = [] then None else Some (last xs)) (xs @ ys) = first_of ys"
  by (cases xs rule: rev_cases) (auto simp: sibling_def dropWhile_append)

lemma nodes_aput_old:
  assumes "distinct (map fst ps)" "map_of ps key = Some (n, r)"
  shows "map (\<lambda>p. fst (snd p)) (aput key (n, r') ps) = map (\<lambda>p. fst (snd p)) ps"
  using assms by (induction ps) (auto split: if_splits)

text \<open>What an item makes of its record, and the node it gets.\<close>

definition content_after :: "('i \<Rightarrow> string) \<Rightarrow> ('i \<Rightarrow> 'r) \<Rightarrow> ('r \<Rightarrow> 'i \<Rightarrow> 'r) \<Rightarrow> 'r kept \<Rightarrow> 'i \<Rightarrow> 'r" where
  "content_after keyOf create update k item =
     update (case map_of (kd_recs k) (keyOf item) of Some (n, r) \<Rightarrow> r | None \<Rightarrow> create item) item"

lemma nodes_aput_new: "key \<notin> fst ` set ps \<Longrightarrow> aput key x ps = ps @ [(key, x)]"
  by (induction ps) auto

section \<open>One item\<close>

lemma sync_step:
  assumes ok: "kept_ok k" and kids: "kd_kids k = ns @ rest"
    and here: "\<And>n r. map_of (kd_recs k) (keyOf item) = Some (n, r) \<Longrightarrow> n \<notin> set ns"
  obtains n k' where "sync_one keyOf create update item (k, if ns = [] then None else Some (last ns)) = (k', Some n)"
    "kept_ok k'" "kd_kids k' = (ns @ [n]) @ removeAll n rest"
    "map_of (kd_recs k') = (map_of (kd_recs k))(keyOf item \<mapsto> (n, content_after keyOf create update k item))"
    "\<And>r. (\<exists>m. map_of (kd_recs k) (keyOf item) = Some (m, r)) \<Longrightarrow> map_of (kd_recs k) (keyOf item) = Some (n, r)"
proof (cases "map_of (kd_recs k) (keyOf item)")
  case None
  let ?n = "kd_next k"
  let ?k = "k\<lparr>kd_next := Suc ?n, kd_recs := kd_recs k @ [(keyOf item, (?n, update (create item) item))], kd_kids := ns @ ?n # rest\<rparr>"
  have new: "?n \<notin> set (ns @ rest)" using ok kids by (auto simp: kept_ok_def)
  have d: "distinct (ns @ rest)" using ok kids by (simp add: kept_ok_def)
  have ks: "keyOf item \<notin> fst ` set (kd_recs k)" using None by (simp add: map_of_eq_None_iff)
  have neq: "Some ?n \<noteq> first_of rest" using new by (auto simp: first_of_def split: list.split)
  have "sync_one keyOf create update item (k, if ns = [] then None else Some (last ns)) = (?k, Some ?n)"
    using None neq by (simp add: sync_one_def Let_def kids sibling_last [OF d] insert_new [OF new d] nodes_aput_new [OF ks])
  moreover have "kept_ok ?k" using ok kids new ks by (auto simp: kept_ok_def less_Suc_eq)
  moreover have "map_of (kd_recs ?k) = (map_of (kd_recs k))(keyOf item \<mapsto> (?n, content_after keyOf create update k item))"
    using None by (auto simp: content_after_def map_add_def fun_eq_iff split: option.split)
  ultimately show ?thesis using that [of ?k ?n] new None by (simp add: removeAll_id)
next
  case (Some p)
  obtain n r where p: "p = (n, r)" by (cases p)
  let ?k = "k\<lparr>kd_recs := aput (keyOf item) (n, update r item) (kd_recs k), kd_kids := ns @ n # removeAll n rest\<rparr>"
  have d: "distinct (ns @ rest)" using ok kids by (simp add: kept_ok_def)
  have "n \<in> (\<lambda>p. fst (snd p)) ` set (kd_recs k)"
    using Some p by (intro image_eqI [of _ _ "(keyOf item, n, r)"]) (simp_all add: map_of_SomeD)
  then have "n \<in> set (ns @ rest)" using ok kids unfolding kept_ok_def by simp
  then have n: "n \<in> set rest" "n \<notin> set ns" using here [of n r] Some p by auto
  have kids': "(if Some n \<noteq> first_of rest then insert_before n (first_of rest) (ns @ rest) else ns @ rest) = ns @ n # removeAll n rest"
  proof (cases "first_of rest = Some n")
    case True
    then show ?thesis using d by (cases rest) (auto simp: first_of_def removeAll_id)
  next
    case False
    then show ?thesis using insert_move [OF d n(1) False] by simp
  qed
  have "sync_one keyOf create update item (k, if ns = [] then None else Some (last ns)) = (?k, Some n)"
    using Some p kids' by (simp add: sync_one_def Let_def kids sibling_last [OF d] split: if_splits)
  moreover have "kept_ok ?k"
  proof -
    have "map (\<lambda>p. fst (snd p)) (kd_recs ?k) = map (\<lambda>p. fst (snd p)) (kd_recs k)"
      using ok Some p by (simp add: kept_ok_def nodes_aput_old)
    then have "(\<lambda>p. fst (snd p)) ` set (kd_recs ?k) = (\<lambda>p. fst (snd p)) ` set (kd_recs k)" "distinct (map (\<lambda>p. fst (snd p)) (kd_recs ?k))"
      using ok by (metis image_set, simp add: kept_ok_def)
    moreover have "set (kd_kids ?k) = set (kd_kids k)" "distinct (kd_kids ?k)" using n d kids by (auto simp: distinct_removeAll)
    moreover have "distinct (map fst (kd_recs ?k))" using ok by (simp add: kept_ok_def distinct_aput)
    ultimately show ?thesis using ok by (simp add: kept_ok_def)
  qed
  moreover have "map_of (kd_recs ?k) = (map_of (kd_recs k))(keyOf item \<mapsto> (n, content_after keyOf create update k item))"
    using Some p by (simp add: content_after_def)
  moreover have "kd_kids ?k = (ns @ [n]) @ removeAll n rest" by simp
  ultimately show ?thesis using Some p by (intro that [of ?k n]) (assumption, assumption, assumption, assumption, simp)
qed

section \<open>All items\<close>

lemma sync_loop:
  assumes "kept_ok k" and "kd_kids k = ns @ rest" and "distinct (map keyOf items)"
    and "\<And>item n r. item \<in> set items \<Longrightarrow> map_of (kd_recs k) (keyOf item) = Some (n, r) \<Longrightarrow> n \<notin> set ns"
  shows "\<exists>k' ms rest'. foldl (\<lambda>s item. sync_one keyOf create update item s) (k, if ns = [] then None else Some (last ns)) items
       = (k', if ns @ ms = [] then None else Some (last (ns @ ms)))
     \<and> kept_ok k' \<and> kd_kids k' = ns @ ms @ rest'
     \<and> list_all2 (\<lambda>item n. map_of (kd_recs k') (keyOf item) = Some (n, content_after keyOf create update k item)
          \<and> (\<forall>m r. map_of (kd_recs k) (keyOf item) = Some (m, r) \<longrightarrow> m = n)) items ms
     \<and> (\<forall>key. key \<notin> keyOf ` set items \<longrightarrow> map_of (kd_recs k') key = map_of (kd_recs k) key)"
  using assms
proof (induction items arbitrary: k ns rest)
  case Nil
  then show ?case by (intro exI [of _ k] exI [of _ "[]"] exI [of _ rest]) simp
next
  case (Cons item items)
  obtain n k1 where k1: "sync_one keyOf create update item (k, if ns = [] then None else Some (last ns)) = (k1, Some n)"
    "kept_ok k1" "kd_kids k1 = (ns @ [n]) @ removeAll n rest"
    "map_of (kd_recs k1) = (map_of (kd_recs k))(keyOf item \<mapsto> (n, content_after keyOf create update k item))"
    "\<And>r. (\<exists>m. map_of (kd_recs k) (keyOf item) = Some (m, r)) \<Longrightarrow> map_of (kd_recs k) (keyOf item) = Some (n, r)"
    using sync_step [OF Cons.prems(1,2), of keyOf item create update] Cons.prems(4) [of item] by (metis list.set_intros(1))
  have other: "keyOf i \<noteq> keyOf item" if "i \<in> set items" for i using Cons.prems(3) that by (metis distinct.simps(2) image_eqI image_set list.simps(9))
  have fresh: "m \<notin> set (ns @ [n])" if "i \<in> set items" "map_of (kd_recs k1) (keyOf i) = Some (m, r)" for i m r
  proof -
    have "map_of (kd_recs k) (keyOf i) = Some (m, r)" using that k1(4) other by simp
    then have "m \<notin> set ns" using Cons.prems(4) [of i m r] that(1) by simp
    moreover have "m \<noteq> n"
    proof
      assume "m = n"
      then have a: "(keyOf i, n, r) \<in> set (kd_recs k1)" using that(2) by (simp add: map_of_SomeD)
      have b: "(keyOf item, n, content_after keyOf create update k item) \<in> set (kd_recs k1)" using k1(4) by (intro map_of_SomeD) simp
      have "inj_on (\<lambda>p. fst (snd p)) (set (kd_recs k1))" using k1(2) by (simp add: kept_ok_def distinct_map)
      from inj_onD [OF this _ a b] show False using other [OF that(1)] by simp
    qed
    ultimately show ?thesis by simp
  qed
  have same: "content_after keyOf create update k1 i = content_after keyOf create update k i" if "i \<in> set items" for i
    using k1(4) other [OF that] by (simp add: content_after_def)
  obtain k' ms rest' where ih: "foldl (\<lambda>s item. sync_one keyOf create update item s) (k1, Some n) items
       = (k', if (ns @ [n]) @ ms = [] then None else Some (last ((ns @ [n]) @ ms)))"
     "kept_ok k'" "kd_kids k' = (ns @ [n]) @ ms @ rest'"
     "list_all2 (\<lambda>item n. map_of (kd_recs k') (keyOf item) = Some (n, content_after keyOf create update k1 item)
          \<and> (\<forall>m r. map_of (kd_recs k1) (keyOf item) = Some (m, r) \<longrightarrow> m = n)) items ms"
     "\<forall>key. key \<notin> keyOf ` set items \<longrightarrow> map_of (kd_recs k') key = map_of (kd_recs k1) key"
    using Cons.IH [OF k1(2,3)] Cons.prems(3) fresh by auto
  have "list_all2 (\<lambda>item n. map_of (kd_recs k') (keyOf item) = Some (n, content_after keyOf create update k item)
          \<and> (\<forall>m r. map_of (kd_recs k) (keyOf item) = Some (m, r) \<longrightarrow> m = n)) items ms"
    using ih(4) same other k1(4) by (auto simp: list_all2_conv_all_nth)
  moreover have "keyOf item \<notin> keyOf ` set items" using Cons.prems(3) by simp
  ultimately show ?case
    using ih k1 by (intro exI [of _ k'] exI [of _ "n # ms"] exI [of _ rest']) auto
qed

section \<open>The list on display\<close>

lemma map_filter_some: "map f xs = map (Some \<circ> g) ys \<Longrightarrow> List.map_filter f xs = map g ys"
proof (induction xs arbitrary: ys)
  case (Cons x xs)
  then show ?case by (cases ys) (auto simp: map_filter_simps)
qed (simp add: map_filter_simps)

lemma map_of_filter_fst: "map_of (filter (\<lambda>p. Q (fst p)) ps) key = (if Q key then map_of ps key else None)"
  by (induction ps) auto

lemma filter_nodes:
  assumes ok: "kept_ok k" and kids: "kd_kids k = ms @ rest"
    and ms: "list_all2 (\<lambda>item n. \<exists>r. map_of (kd_recs k) (keyOf item) = Some (n, r)) items ms"
  shows "kd_kids (drop_unseen (map keyOf items) k) = ms" "kept_ok (drop_unseen (map keyOf items) k)"
    "map_of (kd_recs (drop_unseen (map keyOf items) k)) = (\<lambda>key. if key \<in> keyOf ` set items then map_of (kd_recs k) key else None)"
proof -
  let ?node = "\<lambda>p. fst (snd p)" and ?seen = "keyOf ` set items"
  let ?recs = "filter (\<lambda>p. fst p \<in> ?seen) (kd_recs k)" and ?gone = "?node ` set (filter (\<lambda>p. fst p \<notin> ?seen) (kd_recs k))"
  have inj: "inj_on ?node (set (kd_recs k))" using ok by (simp add: kept_ok_def distinct_map)
  have keys: "distinct (map fst (kd_recs k))" using ok by (simp add: kept_ok_def)
  have in_ms: "p \<in> set (kd_recs k) \<Longrightarrow> ?node p \<in> set ms \<longleftrightarrow> fst p \<in> ?seen" for p
  proof
    assume p: "p \<in> set (kd_recs k)" "?node p \<in> set ms"
    then obtain j where j: "j < length ms" "ms ! j = ?node p" by (metis in_set_conv_nth)
    then obtain r where "map_of (kd_recs k) (keyOf (items ! j)) = Some (ms ! j, r)" using ms by (auto simp: list_all2_conv_all_nth)
    then have q: "(keyOf (items ! j), ms ! j, r) \<in> set (kd_recs k)" by (rule map_of_SomeD)
    have "p = (keyOf (items ! j), ms ! j, r)" by (rule inj_onD [OF inj _ p(1) q]) (simp add: j(2))
    then have "fst p = keyOf (items ! j)" by simp
    moreover have "j < length items" using j(1) ms by (simp add: list_all2_lengthD)
    ultimately show "fst p \<in> ?seen" by simp
  next
    assume p: "p \<in> set (kd_recs k)" "fst p \<in> ?seen"
    then obtain j where j: "j < length items" "fst p = keyOf (items ! j)" by (metis image_iff in_set_conv_nth)
    then obtain r where r: "map_of (kd_recs k) (fst p) = Some (ms ! j, r)" "j < length ms" using ms by (auto simp: list_all2_conv_all_nth)
    moreover have "map_of (kd_recs k) (fst p) = Some (snd p)" using p(1) keys by (simp add: map_of_eq_Some_iff)
    ultimately show "?node p \<in> set ms" by simp
  qed
  have gone: "n \<in> ?gone \<longleftrightarrow> n \<notin> set ms" if "n \<in> set (kd_kids k)" for n
  proof -
    have "n \<in> ?node ` set (kd_recs k)" using that ok unfolding kept_ok_def by simp
    then obtain p where p: "p \<in> set (kd_recs k)" "n = ?node p" by blast
    have "q = p" if "q \<in> set (kd_recs k)" "?node q = n" for q using inj_onD [OF inj _ that(1) p(1)] that(2) p(2) by simp
    then show ?thesis using in_ms [OF p(1)] p by auto
  qed
  have "filter (\<lambda>n. n \<notin> ?gone) (kd_kids k) = filter (\<lambda>n. n \<in> set ms) (kd_kids k)"
    by (rule filter_cong [OF refl]) (simp only: gone not_not)
  also have "\<dots> = ms" using ok kids by (auto simp: kept_ok_def filter_empty_conv)
  finally show k: "kd_kids (drop_unseen (map keyOf items) k) = ms" by (simp add: drop_unseen_def Let_def)
  have "set ms = ?node ` set ?recs"
  proof -
    have "set ms \<subseteq> ?node ` set (kd_recs k)" using ok kids unfolding kept_ok_def by (metis Un_upper1 set_append)
    then show ?thesis using in_ms by fastforce
  qed
  moreover have "distinct ms" "\<forall>n \<in> set ms. n < kd_next k" using ok kids by (auto simp: kept_ok_def)
  ultimately show "kept_ok (drop_unseen (map keyOf items) k)"
    using ok k unfolding kept_ok_def by (simp add: drop_unseen_def Let_def distinct_map_filter)
  show "map_of (kd_recs (drop_unseen (map keyOf items) k)) = (\<lambda>key. if key \<in> ?seen then map_of (kd_recs k) key else None)"
    using map_of_filter_fst [of "\<lambda>key. key \<in> ?seen" "kd_recs k"] by (simp add: drop_unseen_def Let_def fun_eq_iff)
qed

text \<open>
  The container shows the list. For items with different keys, whatever stood in the container before and in whatever order, it
  holds afterwards one node for each item, in the order of the items, each with the content its item gives it; a key that was there keeps its
  node, so nothing that stays is built anew; and nothing else is remembered.
\<close>

theorem container_shows_list:
  assumes "kept_ok k" and "distinct (map keyOf items)"
  shows "kept_ok (syncList keyOf create update items k)
    \<and> shown_in (syncList keyOf create update items k) = map (content_after keyOf create update k) items
    \<and> (\<forall>key. map_of (kd_recs (syncList keyOf create update items k)) key = None \<longleftrightarrow> key \<notin> keyOf ` set items)
    \<and> (\<forall>key \<in> keyOf ` set items. \<forall>n r. map_of (kd_recs k) key = Some (n, r)
         \<longrightarrow> (\<exists>r'. map_of (kd_recs (syncList keyOf create update items k)) key = Some (n, r')))"
proof -
  obtain k' ms rest' where l: "foldl (\<lambda>s item. sync_one keyOf create update item s) (k, None) items = (k', if ms = [] then None else Some (last ms))"
     "kept_ok k'" "kd_kids k' = ms @ rest'"
     "list_all2 (\<lambda>item n. map_of (kd_recs k') (keyOf item) = Some (n, content_after keyOf create update k item)
          \<and> (\<forall>m r. map_of (kd_recs k) (keyOf item) = Some (m, r) \<longrightarrow> m = n)) items ms"
    using sync_loop [OF assms(1) _ assms(2), of "[]" "kd_kids k" create update] unfolding append_Nil by auto
  have at: "map_of (kd_recs k') (keyOf (items ! j)) = Some (ms ! j, content_after keyOf create update k (items ! j))"
    "\<And>m r. map_of (kd_recs k) (keyOf (items ! j)) = Some (m, r) \<Longrightarrow> m = ms ! j" if "j < length items" for j
    using l(4) that by (auto simp: list_all2_conv_all_nth)
  have len: "length ms = length items" using l(4) by (simp add: list_all2_lengthD)
  have "list_all2 (\<lambda>item n. \<exists>r. map_of (kd_recs k') (keyOf item) = Some (n, r)) items ms"
    using l(4) by (rule list_all2_mono) blast
  note f = filter_nodes [OF l(2,3) this]
  have s: "syncList keyOf create update items k = drop_unseen (map keyOf items) k'" using l(1) by (simp add: syncList_def)
  define recs where "recs = kd_recs (drop_unseen (map keyOf items) k')"
  have node: "map_of (map snd recs) (ms ! j) = Some (content_after keyOf create update k (items ! j))" if "j < length items" for j
  proof -
    have "map_of recs (keyOf (items ! j)) = Some (ms ! j, content_after keyOf create update k (items ! j))"
      using f(3) at(1) [OF that] that by (simp add: recs_def)
    then have "snd (keyOf (items ! j), ms ! j, content_after keyOf create update k (items ! j)) \<in> snd ` set recs"
      by (intro imageI map_of_SomeD)
    then have "(ms ! j, content_after keyOf create update k (items ! j)) \<in> set (map snd recs)" by simp
    moreover have "distinct (map fst (map snd recs))" using f(2) by (simp add: kept_ok_def recs_def comp_def)
    ultimately show ?thesis by (simp add: map_of_eq_Some_iff del: set_map)
  qed
  have "map (\<lambda>n. map_of (map snd recs) n) ms = map (Some \<circ> content_after keyOf create update k) items"
    by (rule nth_equalityI) (simp_all add: len node)
  then have "shown_in (syncList keyOf create update items k) = map (content_after keyOf create update k) items"
    unfolding s shown_in_def f(1) recs_def [symmetric] by (rule map_filter_some)
  then show ?thesis using f(2,3) at unfolding s by (auto simp: in_set_conv_nth)
qed

lemma sync_shows:
  assumes "kept_ok k" and "distinct (map keyOf items)"
  shows "shown_in (syncList keyOf create update items k) = map (content_after keyOf create update k) items"
    "kept_ok (syncList keyOf create update items k)"
  using container_shows_list [OF assms] by blast+

end
