(* ===== verification/ScreenOverview.thy ===== *)
theory ScreenOverview
  imports SyncList KpiAgg Actions
begin

text \<open>
  The overview, \<open>src/web/js/screens/overview.js\<close>: what each of its cards says, as a function of the view model, of the state
  and of the language, and its handlers. The lists are kept by \<open>syncList\<close> (theory SyncList); here are their items, keys
  and contents. A card that is hidden is None.
\<close>

section \<open>Helpers\<close>

definition ov_tone :: "string \<Rightarrow> string" where
  "ov_tone t = (case map_of [(''pos'', ''is-pos''), (''warn'', ''is-warn''), (''neg'', ''is-neg''), (''info'', ''is-info''), (''mut'', ''u-muted'')] t of
     Some c \<Rightarrow> c | None \<Rightarrow> ''u-muted'')"

text \<open>A key pressed: its name, and whether the focus is on the toggle of the log itself.\<close>

definition is_press :: "string \<Rightarrow> bool" where "is_press key \<longleftrightarrow> key \<in> {''Enter'', '' '', ''Spacebar''}"

definition isLogToggleKey :: "string \<Rightarrow> bool \<Rightarrow> bool" where "isLogToggleKey key on_toggle \<longleftrightarrow> is_press key \<and> on_toggle"

definition logRowMsg :: "shown_item \<Rightarrow> string" where "logRowMsg g = sh_msg g"
definition logRowKey :: "shown_item \<Rightarrow> string" where "logRowKey g = sor (sh_ackKey g) (sh_id g)"

definition alertRowCls :: "shown_item \<Rightarrow> string" where
  "alertRowCls a = ''sc-ov-alert '' @ ov_tone (sh_sevTone a) @ (if sh_acked a then '' is-acked'' else [])"

definition attentionHeroLabel :: "nat \<Rightarrow> nat \<Rightarrow> lfun \<Rightarrow> string" where
  "attentionHeroLabel crit att l =
     (if crit \<noteq> 0 then l (if crit = 1 then ''active critical alert'' else ''active critical alerts'') ''geon hwalseong simgak gyeongbo''
      else if att \<noteq> 0 then l (if att = 1 then ''device needs attention'' else ''devices need attention'') ''dae juui piryo''
      else l ''-- nothing needs attention'' ''geon -- jochi bulpiryo'')"

section \<open>The view model\<close>

record ov_model =
  om_total :: nat
  om_kpi :: kpis
  om_verdict :: verdict
  om_attAll :: "dev_row list"
  om_att :: "dev_row list"
  om_attMore :: nat
  om_inc :: inc_stats
  om_active :: "shown_item list"
  om_alerts :: "shown_item list"
  om_logs :: "shown_item list"
  om_heat :: "heat_cell list"
  om_legend :: "(string \<times> string \<times> string \<times> nat) list"
  om_ft :: "(string \<times> string \<times> string \<times> string) list"
  om_res :: res_agg
  om_vm :: "jsnum \<times> jsnum"
  om_lic :: licences
  om_sto :: "storage_group list"
  om_poll :: poll_stat

definition ov_model_of :: "host \<Rightarrow> thresholds \<Rightarrow> app_state \<Rightarrow> lfun \<Rightarrow> bool \<Rightarrow> string \<Rightarrow> alert_row list \<Rightarrow> trap_row list \<Rightarrow> ov_model" where
  "ov_model_of h th st l ko backend alerts traps =
     (let fleet = s_fleet st; rows = map (rowOf h th st l) fleet; k = buildKpi fleet l; p = populations h st l ko alerts;
          (att, more) = attention h st rows in
      \<lparr>om_total = length fleet, om_kpi = k, om_verdict = fleetVerdict l backend k p, om_attAll = attentionAll h st rows, om_att = att, om_attMore = more,
       om_inc = incStats p, om_active = po_active p, om_alerts = preview p, om_logs = take 7 (logRows h st l ko alerts traps),
       om_heat = heat rows, om_legend = heatLegend l k, om_ft = ftClusters rows, om_res = resAgg th fleet, om_vm = vmAgg fleet,
       om_lic = licenses h l ko fleet, om_sto = storage_groups th fleet rows, om_poll = pollStat h st l ko\<rparr>)"

section \<open>Attention\<close>

definition initial_loading :: "app_state \<Rightarrow> bool" where
  "initial_loading st \<longleftrightarrow> s_pollPending st \<and> s_lastPoll st = 0 \<and> s_liveError st = [] \<and> s_uiError st = []"

definition poller_down :: "poll_stat \<Rightarrow> bool" where
  "poller_down p \<longleftrightarrow> ps_source p = ''live'' \<and> (ps_liveError p \<noteq> [] \<or> ps_stale p)"

datatype att_mode = AttLoading | AttPoller | AttNone | AttOk | AttList

definition attention_mode :: "app_state \<Rightarrow> ov_model \<Rightarrow> att_mode" where
  "attention_mode st m = (if initial_loading st then AttLoading else if poller_down (om_poll m) then AttPoller
     else if om_total m = 0 then AttNone else if om_attAll m = [] then AttOk else AttList)"

definition hero :: "app_state \<Rightarrow> ov_model \<Rightarrow> lfun \<Rightarrow> nat \<times> string \<times> string" where
  "hero st m l = (let crit = ic_critical (om_inc m); att = length (om_attAll m) in
     (if crit \<noteq> 0 then crit else att,
      if initial_loading st then ''mut'' else if crit \<noteq> 0 then ''neg'' else if att \<noteq> 0 then ''warn'' else ''pos'',
      attentionHeroLabel crit att l))"

definition att_words :: "att_mode \<Rightarrow> nat \<Rightarrow> lfun \<Rightarrow> (string \<times> string \<times> string) option" where
  "att_words mode n l = (case mode of
       AttLoading \<Rightarrow> Some (''clock'', l ''Loading devices...'' ''jangbi bulleooneun jung...'',
         l ''Waiting for the first successful collection'' ''cheot sujip seonggongeul gidarineun jungimnida'')
     | AttPoller \<Rightarrow> Some (''warningCircle'', l ''Poller unreachable'' ''polleo yeongyeol silpae'', l ''Fleet status unknown'' ''sangtae al su eopseum'')
     | AttNone \<Rightarrow> Some (''box'', l ''No devices'' ''jangbi eopseum'',
         l ''No devices registered. Add one to begin monitoring.'' ''deungnokdoen jangbiga eopseumnida. jangbireul chugahae moniteoringeul sijakaseyo.'')
     | AttOk \<Rightarrow> Some (''check'', l ''All systems normal'' ''modeun jangbi jeongsang'',
         l (''all '' @ num_text n @ '' devices operational'') (num_text n @ ''dae modu gadong jung''))
     | AttList \<Rightarrow> None)"

text \<open>A row: tone, name, hint, type, the badge of reasons, the badge of the status.\<close>

record att_row =
  at_id :: string
  at_tone :: string
  at_name :: string
  at_hint :: string
  at_type :: string
  at_why :: "(string \<times> string) option"
  at_status :: string

definition crits_of :: "shown_item list \<Rightarrow> string \<Rightarrow> nat" where
  "crits_of active i = count_if (\<lambda>a. sh_hostId a = i \<and> sh_sev a = ''critical'') active"

definition att_why :: "shown_item list \<Rightarrow> lfun \<Rightarrow> dev_row \<Rightarrow> string list" where
  "att_why active l r = (if dr_maint r then [sor (dr_maintLabel r) (l ''MAINT'' ''jeomgeom'')] else [])
     @ (let n = crits_of active (dr_id r) in if sr_status r \<noteq> Down \<and> 0 < n
        then [l (if n = 1 then ''1 critical alert'' else num_text n @ '' critical alerts'') (''simgak gyeongbo '' @ num_text n @ ''geon'')] else [])"

definition attention_row :: "shown_item list \<Rightarrow> lfun \<Rightarrow> dev_row \<Rightarrow> att_row" where
  "attention_row active l r = (let why = att_why active l r in
     \<lparr>at_id = dr_id r, at_tone = dr_statusTone r, at_name = sor (dr_label r) (sr_host r), at_hint = sr_host r, at_type = sr_typeLabel r,
      at_why = (if why = [] then None else Some (if dr_maint r \<and> length why = 1 then ''warn'' else ''neg'', join '' . '' why)),
      at_status = dr_statusLabel r\<rparr>)"

record att_view =
  av_count :: "nat option"
  av_hero :: "nat \<times> string \<times> string"
  av_words :: "(string \<times> string \<times> string) option"
  av_addHidden :: bool
  av_rows :: "att_row list"
  av_more :: "string option"

definition attention_card :: "app_state \<Rightarrow> ov_model \<Rightarrow> lfun \<Rightarrow> att_view" where
  "attention_card st m l = (let mode = attention_mode st m; n = length (om_attAll m) in
     \<lparr>av_count = (if 0 < n then Some n else None), av_hero = hero st m l, av_words = att_words mode (om_total m) l,
      av_addHidden = (mode \<noteq> AttNone), av_rows = (if mode = AttList then map (attention_row (om_active m) l) (om_att m) else []),
      av_more = (if 0 < om_attMore m then Some (l (num_text (om_attMore m) @ '' more -- view devices'')
        (''oe '' @ num_text (om_attMore m) @ ''dae -- jangbi bogi'')) else None)\<rparr>)"

text \<open>\<open>renderAttention\<close> is called in the last mode only; in the others the container keeps what it has, hidden.\<close>

definition attention_list :: "app_state \<Rightarrow> ov_model \<Rightarrow> lfun \<Rightarrow> att_row kept \<Rightarrow> att_row kept" where
  "attention_list st m l k = (if attention_mode st m = AttList
     then syncList at_id (\<lambda>r. r) (\<lambda>_ r. r) (map (attention_row (om_active m) l) (om_att m)) k else k)"

section \<open>Availability\<close>

record avail_view =
  vl_value :: string
  vl_delta :: "string option"
  vl_title :: string
  vl_bar :: string
  vl_label :: string

definition avail_shown :: "kpis \<Rightarrow> jsnum" where
  "avail_shown k = (if kp_availIsMeasured k then kp_availPct k
     else str_to_num (if kp_availNominal k \<noteq> [] \<and> last (kp_availNominal k) = CHR ''%'' then butlast (kp_availNominal k) else kp_availNominal k))"

definition avail_card :: "lfun \<Rightarrow> ov_model \<Rightarrow> avail_view" where
  "avail_card l m =
     (let k = om_kpi m; x = avail_shown k; known = (0 < om_total m \<and> n_finite x); dv = n_sub x (Fin (round64 (9999 / 100)));
          size = (if n_le (Fin 0) dv then dv else n_sub (Fin 0) dv); days = max 1 (floor (kp_availDays k)) in
      \<lparr>vl_value = (if known then n_fixed 3 x @ ''%'' else DASH),
       vl_delta = (if known \<and> n_le (Fin (round64 (5 / 10000))) size
         then Some ((if n_le (Fin 0) dv then ''+'' else ''-'') @ n_fixed 3 size @ ''%p'') else None),
       vl_title = (if kp_availIsMeasured k then [] else kp_availMeasuredLabel k),
       vl_bar = (if known then n_fixed 0 (n_mul (n_clamp01 (n_div (n_sub x (Fin (round64 (999 / 10)))) (Fin (round64 (1 / 10))))) (Fin 100)) @ ''%''
         else sor (kp_availBarW k) ''0%''),
       vl_label = (if \<not> kp_availIsMeasured k then l ''Fleet availability . nominal'' ''peullit gayongseong . myeongmok''
         else if 30 \<le> kp_availDays k then l ''Fleet availability . 30d'' ''peullit gayongseong . 30il''
         else l (''Fleet availability . '' @ int_str days @ ''d measured'') (''peullit gayongseong . cheukjeong '' @ int_str days @ ''il''))\<rparr>)"

section \<open>The verdict, the heat map and the redundancy card\<close>

definition verdict_line :: "ov_model \<Rightarrow> string \<times> string \<times> string" where
  "verdict_line m = (ov_tone (fv_tone (om_verdict m)), fv_label (om_verdict m), join '' . '' (fv_reasons (om_verdict m)))"

definition cell_size :: "nat \<Rightarrow> nat" where
  "cell_size n = (if n \<le> 4 then 56 else if n \<le> 8 then 46 else if n \<le> 16 then 34 else if n \<le> 40 then 26 else 20)"

text \<open>A cell: its device, the hint, the type, the name and the class.\<close>

definition heat_tile :: "heat_cell \<Rightarrow> string \<times> string \<times> string \<times> string \<times> string" where
  "heat_tile c = (hc_id c, hc_title c, hc_typeShort c, sor (sor (hc_code c) (hc_label c)) (hc_host c), ''sc-ov-cell '' @ ov_tone (hc_tone c))"

record heat_view =
  ht_count :: string
  ht_labeled :: bool
  ht_cell :: nat
  ht_tiles :: "(string \<times> string \<times> string \<times> string \<times> string) list"
  ht_legend :: "(string \<times> string \<times> string) list"

definition heat_card :: "lfun \<Rightarrow> ov_model \<Rightarrow> heat_view" where
  "heat_card l m = (let n = length (om_heat m) in
     \<lparr>ht_count = num_text (om_total m) @ l '' nodes'' ''dae'', ht_labeled = (0 < n \<and> n \<le> 24), ht_cell = cell_size n,
      ht_tiles = map heat_tile (om_heat m), ht_legend = map (\<lambda>(k, lbl, t, _). (k, ov_tone t, lbl)) (om_legend m)\<rparr>)"

record ft_view =
  fc_big :: "string option"
  fc_counts :: "nat \<times> int \<times> nat \<times> nat"
  fc_empty :: "string option"
  fc_items :: "(string \<times> string \<times> string \<times> string) list"

definition ft_card :: "lfun \<Rightarrow> ov_model \<Rightarrow> ft_view" where
  "ft_card l m = (let k = om_kpi m; has = (0 < kp_ftTotal k) in
     \<lparr>fc_big = (if has then Some (num_text (kp_synced k) @ ''/'' @ num_text (kp_ftTotal k)) else None),
      fc_counts = (kp_synced k, kp_resync k, kp_simplex k, kp_offline k),
      fc_empty = (if has then None else Some (l ''No FT devices'' ''FT jangbi eopseum'')),
      fc_items = (if has then map (\<lambda>(i, code, lbl, t). (i, code, ''u-badge '' @ ov_tone t, lbl)) (om_ft m) else [])\<rparr>)"

section \<open>Resources and virtual machines\<close>

text \<open>A meter: the figures, the class and the text of the share, the length and the colour of the bar.\<close>

type_synonym meter = "string \<times> string \<times> string \<times> string \<times> string"

definition ov_meter :: "thresholds \<Rightarrow> bool \<Rightarrow> jsnum \<Rightarrow> jsnum \<Rightarrow> string \<Rightarrow> jsnum \<Rightarrow> string \<Rightarrow> meter" where
  "ov_meter th has used tot unit share tn =
     (let p = (if has then share else Fin 0) in
      (if has then num_str used @ '' / '' @ num_str tot @ unit else DASH,
       ''sc-ov-res-pct u-mono '' @ ov_tone (if \<not> has \<or> tn = ''pos'' then ''mut'' else tn),
       if has then num_str share @ ''%'' else DASH, num_str p @ ''%'', barFill th (JNum p)))"

record res_view =
  rv_count :: string
  rv_cpu :: meter
  rv_mem :: meter

definition res_card :: "thresholds \<Rightarrow> lfun \<Rightarrow> ov_model \<Rightarrow> string + res_view" where
  "res_card th l m = (let r = om_res m in
     if \<not> ra_has r then Inl (l ''No allocation data'' ''haldang jeongbo eopseum'')
     else Inr \<lparr>rv_count = num_text (ra_counted r) @ ''/'' @ num_text (ra_total r) @ l '' dev'' ''dae'',
       rv_cpu = ov_meter th (ra_vcpuHas r) (ra_vcpuUsed r) (ra_vcpuTot r) '' vCPU'' (ra_vcpuPct r) (ra_vcpuTone r),
       rv_mem = ov_meter th (ra_memHas r) (ra_memUsed r) (ra_memTot r) '' GiB'' (ra_memPct r) (ra_memTone r)\<rparr>)"

definition vm_item :: "lfun \<Rightarrow> ov_model \<Rightarrow> string \<times> string" where
  "vm_item l m = (case om_vm m of (r, t) \<Rightarrow> (num_str r, ''/ '' @ num_str t @ l '' running'' '' silhaeng jung''))"

section \<open>Licences\<close>

record lic_line =
  ll_id :: string
  ll_name :: string
  ll_host :: "string option"
  ll_tip :: string
  ll_cls :: string
  ll_txt :: string

definition lic_line :: "lic_row \<Rightarrow> string \<Rightarrow> string \<Rightarrow> string \<Rightarrow> lic_line" where
  "lic_line r tip tn txt = \<lparr>ll_id = lx_id r, ll_name = sor (lx_lic r) (lx_host r), ll_host = (if lx_lic r = [] then None else Some (lx_host r)),
     ll_tip = tip, ll_cls = ''sc-ov-lic-dd u-mono '' @ ov_tone tn, ll_txt = txt\<rparr>"

definition lic_lines :: "lfun \<Rightarrow> licences \<Rightarrow> lic_line list" where
  "lic_lines l lic =
     map (\<lambda>(r, tip). lic_line r tip (lx_tone r) (lx_txt r)) (if lc_has lic then tl (lc_list lic) else lc_list lic)
     @ map (\<lambda>r. lic_line r (l ''Perpetual license -- no expiry'' ''yeonggu raiseonseu -- manlyo eopseum'') ''mut'' (l ''Perpetual'' ''yeonggu'')) (lc_perp lic)
     @ map (\<lambda>r. lic_line r (l ''Expiry unknown -- reported as expiring but no valid date'' ''manlyoil misang -- manlyohyeongeuro bogodwaesseuna yuhyohan manlyoil eopseum'')
         ''mut'' (l ''Unknown'' ''misang'')) (lc_na lic)"

definition lic_keys :: "lic_line list \<Rightarrow> string list" where
  "lic_keys ls = map (\<lambda>(i, x). ll_id x @ '':'' @ num_text i) (enumerate 0 ls)"

text \<open>The nodes of the list, by key.\<close>

definition lic_list :: "lfun \<Rightarrow> licences \<Rightarrow> lic_line kept \<Rightarrow> lic_line kept" where
  "lic_list l lic k = syncList snd (\<lambda>p. fst p) (\<lambda>_ p. fst p) (zip (lic_lines l lic) (lic_keys (lic_lines l lic))) k"

definition lic_left :: "licences \<Rightarrow> nat" where
  "lic_left lic = (length (lc_all lic) - length (lc_list lic)) + (length (lc_perpAll lic) - length (lc_perp lic)) + (length (lc_naAll lic) - length (lc_na lic))"

record lic_view =
  lv_tone :: string
  lv_big :: string
  lv_title :: string
  lv_lead :: "string option"
  lv_lines :: "lic_line list"
  lv_more :: "string option"

definition lic_card :: "lfun \<Rightarrow> ov_model \<Rightarrow> lic_view" where
  "lic_card l m =
     (let lic = om_lic m; none = (lc_all lic = [] \<and> lc_perpAll lic = [] \<and> lc_naAll lic = []); left = lic_left lic;
          rest = (if 0 < left then Some (l (num_text left @ '' more -- view clusters'') (''oe '' @ num_text left @ ''geon -- keulleoseuteo bogi'')) else None)
      in case lc_min lic of
        Some r \<Rightarrow> \<lparr>lv_tone = ov_tone (lx_tone r), lv_big = lx_txt r,
            lv_title = lx_expDate r @ l '' expiry'' '' manlyo'' @ (if lx_host r = [] then [] else '' . '' @ lx_host r),
            lv_lead = Some (lx_host r), lv_lines = lic_lines l lic, lv_more = rest\<rparr>
      | None \<Rightarrow> \<lparr>lv_tone = ov_tone ''mut'',
            lv_big = (if lc_empty lic \<or> none then DASH else if lc_naAll lic \<noteq> [] then l ''Unknown'' ''misang'' else l ''Perpetual'' ''yeonggu''),
            lv_title = [], lv_lead = None, lv_lines = lic_lines l lic, lv_more = rest\<rparr>)"

section \<open>Storage and collection\<close>

text \<open>A storage group: device, hint, name of the device, group, share (the text and the length of the bar), suffix of both classes.\<close>

definition sto_line :: "storage_group \<Rightarrow> string \<times> string \<times> string \<times> string \<times> string \<times> string" where
  "sto_line g = (sg_id g, sg_tip g, sg_dev g, sg_group g, int_str (sg_pct g) @ ''%'',
     if sg_tone g = ''neg'' then '' is-neg'' else if sg_tone g = ''warn'' then '' is-warn'' else [])"

definition sto_card :: "lfun \<Rightarrow> ov_model \<Rightarrow> (string \<times> (string \<times> string \<times> string \<times> string \<times> string \<times> string) list) option" where
  "sto_card l m = (let n = length (om_sto m) in if om_sto m = [] then None
     else Some (num_text n @ l (if n = 1 then '' group'' else '' groups'') ''gae'', map sto_line (om_sto m)))"

record col_view =
  cv_tone :: string
  cv_status :: string
  cv_err :: "(string \<times> string) option"
  cv_maint :: "string option"
  cv_poll :: string
  cv_pollTitle :: string
  cv_stale :: "string option"

definition data_gap :: "poll_stat \<Rightarrow> int" where
  "data_gap p = (case (ps_dataAgeSec p, ps_agoSec p) of (Some a, Some b) \<Rightarrow> a - b | _ \<Rightarrow> 0)"

definition col_strip :: "lfun \<Rightarrow> ov_model \<Rightarrow> col_view" where
  "col_strip l m =
     (let p = om_poll m; n = num_text (ps_errCnt p); mo = num_text (ps_errHostMore p); late = (10 \<le> data_gap p);
          cache = (case ps_cacheAgeSec p of Some c \<Rightarrow> int_str c | None \<Rightarrow> ''null'') in
      \<lparr>cv_tone = ov_tone (if ps_empty p then ''mut'' else if ps_ok p then ''pos'' else ''warn''),
       cv_status = (if ps_empty p then DASH else if ps_ok p then l ''Healthy'' ''jeongsang'' else l ''Attention'' ''hwagin piryo''),
       cv_err = (if ps_errCnt p = 0 then None else Some (l (''. '' @ n @ '' err'') (''. oryu '' @ n),
         l (''Collection errors: '' @ n) (''sujip oryu '' @ n @ ''geon'') @ (if ps_errHosts p = [] then [] else '' . '' @ join '', '' (ps_errHosts p))
         @ (if ps_errHostMore p = 0 then [] else l ('' . +'' @ mo @ '' more'') ('' . oe '' @ mo @ ''dae'')))),
       cv_maint = (if ps_maintCnt p = 0 then None else Some (l (''. '' @ num_text (ps_maintCnt p) @ '' maint'') (''. jeomgeom '' @ num_text (ps_maintCnt p)))),
       cv_poll = sor (ps_ago p) DASH,
       cv_pollTitle = (if late then l (''Data is '' @ ps_dataAge p @ '' old (poller cache '' @ cache @ ''s)'')
         (''silje deiteo nai '' @ ps_dataAge p @ '' (polleo kaesi '' @ cache @ ''cho)'') else []),
       cv_stale = (if late then Some (l (''. data '' @ ps_dataAge p) (''. deiteo '' @ ps_dataAge p)) else None)\<rparr>)"

section \<open>Alerts and the log\<close>

record al_line =
  al_id :: string
  al_cls :: string
  al_icon :: string
  al_host :: string
  al_sev :: "string \<times> string"
  al_state :: "string option"
  al_msg :: string
  al_msgTitle :: string
  al_ago :: string
  al_agoTitle :: string
  al_ackKey :: string
  al_ackShown :: bool

definition al_line :: "lfun \<Rightarrow> shown_item \<Rightarrow> al_line" where
  "al_line l a = \<lparr>al_id = sh_hostId a, al_cls = alertRowCls a, al_icon = sh_sevIcon a, al_host = sh_host a,
     al_sev = (''u-badge is-mono '' @ ov_tone (sh_sevTone a), sh_sevLabel a),
     al_state = (if sh_acked a then Some (sor (sh_stLabel a) (l ''Acknowledged'' ''hwagindoem'')) else None),
     al_msg = sor (sh_msgLocal a) (sh_msg a), al_msgTitle = (if sh_msgLocal a \<noteq> [] \<and> sh_msgLocal a \<noteq> sh_msg a then sh_msg a else []),
     al_ago = sh_ago a, al_agoTitle = sh_time a, al_ackKey = sh_ackKey a, al_ackShown = (\<not> sh_acked a \<and> sh_ackKey a \<noteq> [])\<rparr>"

definition al_keys :: "shown_item list \<Rightarrow> string list" where
  "al_keys xs = map (\<lambda>(i, a). sor (sh_ackKey a) (sh_host a @ '':'' @ sh_time a @ '':'' @ num_text i)) (enumerate 0 xs)"

record al_view =
  an_count :: "string option"
  an_crit :: "string option"
  an_lines :: "al_line list"
  an_empty :: "string option"

definition al_card :: "lfun \<Rightarrow> ov_model \<Rightarrow> al_view" where
  "al_card l m = (let n = length (om_active m); c = ic_critical (om_inc m) in
     \<lparr>an_count = (if 0 < n then Some (num_text n) else None), an_crit = (if 0 < c then Some (l ''critical '' ''simgak '' @ num_text c) else None),
      an_lines = map (al_line l) (om_alerts m), an_empty = (if om_alerts m = [] then Some (l ''No active incidents'' ''hwalseong gyeongbo eopseum'') else None)\<rparr>)"

text \<open>A line of the log: time, host, class and text of the level, message.\<close>

definition log_line :: "shown_item \<Rightarrow> string \<times> string \<times> string \<times> string \<times> string" where
  "log_line g = (sor (sh_timeShort g) (sh_time g), sh_host g, ''sc-ov-log-l '' @ ov_tone (sh_sevTone g), sh_level g, logRowMsg g)"

definition log_tail :: "lfun \<Rightarrow> ov_model \<Rightarrow> string + (string \<times> string \<times> string \<times> string \<times> string) list" where
  "log_tail l m = (if om_logs m = [] then Inl (l ''No events yet'' ''ibenteu eopseum'') else Inr (map log_line (take 7 (om_logs m))))"

definition log_dot :: "app_state \<Rightarrow> ov_model \<Rightarrow> string" where
  "log_dot st m = ''sc-ov-log-dot'' @ (if s_logPaused st then '' is-paused'' else []) @ (if ps_source (om_poll m) = ''live'' then '' is-pos'' else '' is-info'')"

section \<open>Handlers\<close>

text \<open>
  A click is resolved to the nearest element that counts, in this order: a link (with its view, and whether it is the one below the
  attention list), the head of the log, the acknowledge button of an alert with its key, a row or tile of a device, anything else.
\<close>

datatype ov_target = OnLink string bool | OnLogHead | OnAck string | OnDevice string | OnElse

definition ov_link :: "string \<Rightarrow> bool \<Rightarrow> nav \<Rightarrow> nav" where
  "ov_link v below n =
     (let n1 = (if v = ''logs'' then patchState False (\<lambda>s. s\<lparr>s_alertView := ''log''\<rparr>) n else n);
          n2 = (if v = ''incidents'' then patchState False (\<lambda>s. s\<lparr>s_alertView := ''cards''\<rparr>) n1 else n1);
          n3 = (if below then patchState False (\<lambda>s. s\<lparr>s_nodesFilter := ''attention''\<rparr>) n2 else n2)
      in goView v n3)"

text \<open>
  The acknowledge button asks through the confirmation of the shell, of which only one can be open; \<open>qk_key\<close> is the alert it was asked for.
  The record written is that of the shell, but nothing here looks at the mode of the data.
\<close>

record quick =
  qk_console :: console
  qk_key :: "string option"

definition quick_ack :: "bool \<Rightarrow> string \<Rightarrow> quick \<Rightarrow> quick" where
  "quick_ack can_confirm key q =
     (if key = [] then q
      else if \<not> can_confirm then q\<lparr>qk_console := showToast (LC (qk_console q) ''Confirmation is unavailable; acknowledgement was not changed.''
             ''hwagin chang-eul sayonghal su eopseo gyeongbo sangtaereul byeongyeonghaji anasseumnida.'') None (qk_console q)\<rparr>
      else if cn_dialog (qk_console q) = None \<and> qk_key q = None then q\<lparr>qk_key := Some key\<rparr> else q)"

definition quick_confirm :: "host \<Rightarrow> string \<Rightarrow> string \<Rightarrow> quick \<Rightarrow> quick" where
  "quick_confirm h who why q =
     (case qk_key q of None \<Rightarrow> q
      | Some key \<Rightarrow> if confirmationIssues (form_value why) (JObj [(''requireReason'', JBool True)]) \<noteq> [] then q
          else (let c = qk_console q; st = cn_st c in
            \<lparr>qk_console = showToast (LC c ''Alert acknowledged'' ''gyeongboreul hwaginhaesseumnida'') None
                 (c\<lparr>cn_st := st\<lparr>s_ackedAlerts := jput key (ack_entry h (sor who ''admin'') (trim why)) (as_map (s_ackedAlerts st))\<rparr>\<rparr>),
             qk_key = None\<rparr>))"

definition quick_cancel :: "quick \<Rightarrow> quick" where "quick_cancel q = q\<lparr>qk_key := None\<rparr>"

text \<open>What a click or a key makes of the page: the address, the log, the acknowledgement.\<close>

record ov_page =
  op_nav :: nav
  op_log :: bool
  op_quick :: quick

text \<open>The state is one: the acknowledgement works on the state behind the address.\<close>

definition on_console :: "(quick \<Rightarrow> quick) \<Rightarrow> ov_page \<Rightarrow> ov_page" where
  "on_console f p =
     (let q = f ((op_quick p)\<lparr>qk_console := (qk_console (op_quick p))\<lparr>cn_st := nv_st (op_nav p)\<rparr>\<rparr>)
      in p\<lparr>op_quick := q, op_nav := (op_nav p)\<lparr>nv_st := cn_st (qk_console q)\<rparr>\<rparr>)"

definition ov_click :: "bool \<Rightarrow> ov_target \<Rightarrow> ov_page \<Rightarrow> ov_page" where
  "ov_click can_confirm t p =
     (case t of
        OnLink v below \<Rightarrow> p\<lparr>op_nav := ov_link v below (op_nav p)\<rparr>
      | OnLogHead \<Rightarrow> p\<lparr>op_log := \<not> op_log p\<rparr>
      | OnAck key \<Rightarrow> on_console (quick_ack can_confirm key) p
      | OnDevice i \<Rightarrow> if i = [] then p else p\<lparr>op_nav := goDetail (Some i) (op_nav p)\<rparr>
      | OnElse \<Rightarrow> p)"

text \<open>Where a key is pressed: on the toggle of the log, on a row of an alert (the device of the row), elsewhere.\<close>

datatype ov_focus = AtToggle | AtAlert string | AtElse

definition ov_key :: "string \<Rightarrow> ov_focus \<Rightarrow> ov_page \<Rightarrow> ov_page" where
  "ov_key key f p =
     (if isLogToggleKey key (f = AtToggle) then p\<lparr>op_log := \<not> op_log p\<rparr>
      else if \<not> is_press key then p
      else case f of AtAlert i \<Rightarrow> if i = [] then p else p\<lparr>op_nav := goDetail (Some i) (op_nav p)\<rparr> | _ \<Rightarrow> p)"

end
