(* ===== verification/OverviewSafe.thy ===== *)
theory OverviewSafe
  imports ScreenOverview
begin

text \<open>
  What the overview guarantees: the attention card says exactly what needs attention, the lists on display are the lists of the view
  model, no licence is dropped without being counted, the links lead where they say; and what it does not: the acknowledge button ignores
  the read-only mode, and a device that is down in a maintenance window is called operational.
\<close>

section \<open>The attention card\<close>

lemma attention_none:
  assumes "distinct (map d_id (s_fleet st))"
  shows "attentionAll h st (map (rowOf h th st l) (s_fleet st)) = [] \<longleftrightarrow> (\<forall>s \<in> set (s_fleet st). \<not> needs_attention h st s)"
proof -
  let ?al = "attentionAll h st (map (rowOf h th st l) (s_fleet st))"
  have "?al = [] \<longleftrightarrow> mset (map dr_id ?al) = {#}" by simp
  also have "\<dots> \<longleftrightarrow> filter (needs_attention h st) (s_fleet st) = []" unfolding attention_devices [OF assms] by (auto simp: filter_empty_conv)
  finally show ?thesis unfolding filter_empty_conv .
qed

lemma attention_ids:
  assumes "distinct (map d_id (s_fleet st))"
  shows "distinct (map dr_id (attentionAll h st (map (rowOf h th st l) (s_fleet st))))"
proof -
  have "distinct (map d_id (filter (needs_attention h st) (s_fleet st)))" using assms by (rule distinct_map_filter)
  then show ?thesis using mset_eq_imp_distinct_iff [OF attention_devices [OF assms, of h th l]] by simp
qed

lemma ov_model_simps:
  "om_total (ov_model_of h th st l ko b al tr) = length (s_fleet st)"
  "om_attAll (ov_model_of h th st l ko b al tr) = attentionAll h st (map (rowOf h th st l) (s_fleet st))"
  "om_att (ov_model_of h th st l ko b al tr) = take 4 (attentionAll h st (map (rowOf h th st l) (s_fleet st)))"
  "om_attMore (ov_model_of h th st l ko b al tr) = length (attentionAll h st (map (rowOf h th st l) (s_fleet st))) - 4"
  "om_poll (ov_model_of h th st l ko b al tr) = pollStat h st l ko"
  "om_lic (ov_model_of h th st l ko b al tr) = licenses h l ko (s_fleet st)"
  "om_verdict (ov_model_of h th st l ko b al tr) = fleetVerdict l b (buildKpi (s_fleet st) l) (populations h st l ko al)"
  by (simp_all add: ov_model_of_def Let_def attention_def)

lemma at_id_row [simp]: "at_id (attention_row active l r) = dr_id r"
  by (simp add: attention_row_def Let_def)

text \<open>
  All is normal only if it is. The attention card says that all systems are normal exactly if the first collection has come in, the
  poller answers, there is a device, and no device outside a maintenance window is down, degraded, in maintenance or under an open critical alert.
\<close>

theorem normal_is_exact:
  assumes "distinct (map d_id (s_fleet st))" and "m = ov_model_of h th st l ko backend alerts traps"
  shows "attention_mode st m = AttOk \<longleftrightarrow>
    \<not> initial_loading st \<and> \<not> poller_down (pollStat h st l ko) \<and> s_fleet st \<noteq> [] \<and> (\<forall>s \<in> set (s_fleet st). \<not> needs_attention h st s)"
  unfolding assms(2) by (simp add: attention_mode_def ov_model_simps attention_none [OF assms(1)])

text \<open>
  And yet it is not the verdict: a device that is down while a maintenance window of the console covers it makes the verdict at the head of
  the same page critical, and the card below it says that all systems are normal and all devices operational, the one that is down included.
\<close>

theorem normal_under_critical:
  assumes "distinct (map d_id (s_fleet st))" and "m = ov_model_of h th st l ko backend alerts traps"
    and "attention_mode st m = AttOk" and "s \<in> set (s_fleet st)" and "d_status s = Down"
  shows "fv_key (om_verdict m) = ''critical'' \<and> inMaint h st (d_id s)
    \<and> av_words (attention_card st m l) = Some (''check'', l ''All systems normal'' ''modeun jangbi jeongsang'',
         l (''all '' @ num_text (length (s_fleet st)) @ '' devices operational'') (num_text (length (s_fleet st)) @ ''dae modu gadong jung''))"
proof -
  have "0 < kp_down (buildKpi (s_fleet st) l)"
    using assms(4,5) by (auto simp: buildKpi_def Let_def count_if_def filter_empty_conv)
  then have "fv_key (om_verdict m) = ''critical''"
    unfolding assms(2) ov_model_simps by (auto simp: fleetVerdict_def Let_def rank_worse_def RANK_def)
  moreover have "\<not> needs_attention h st s"
    using assms(3,4) attention_none [OF assms(1), of h th l] by (auto simp: attention_mode_def assms(2) ov_model_simps split: if_splits)
  then have "inMaint h st (d_id s)" using assms(5) by (simp add: needs_attention_def)
  ultimately show ?thesis using assms(3) by (simp add: attention_card_def Let_def att_words_def) (simp add: assms(2) ov_model_simps)
qed

definition covered_state :: app_state where
  "covered_state = initialState\<lparr>s_fleet := [mkDevice ''ev-01'' EV Down (JObj [])], s_lastPoll := now code_host,
     s_maint := JObj [(''ev-01'', JObj [(''until'', JStr ''2999-01-01T00:00:00.000Z'')])]\<rparr>"

theorem normal_under_critical_witness:
  "fv_key (om_verdict (ov_model_of code_host USAGE_THRESH covered_state (makeL ''en'') False [] [] [])) = ''critical''
   \<and> av_words (attention_card covered_state (ov_model_of code_host USAGE_THRESH covered_state (makeL ''en'') False [] [] []) (makeL ''en''))
     = Some (''check'', ''All systems normal'', ''all 1 devices operational'')"
proof -
  let ?m = "ov_model_of code_host USAGE_THRESH covered_state (makeL ''en'') False [] [] []"
  have d: "d_id (mkDevice ''ev-01'' EV Down (JObj [])) = ''ev-01''" "d_status (mkDevice ''ev-01'' EV Down (JObj [])) = Down"
    by (simp_all add: mkDevice_def Let_def)
  have f: "s_fleet covered_state = [mkDevice ''ev-01'' EV Down (JObj [])]" by (simp add: covered_state_def)
  have "inMaint code_host covered_state ''ev-01''" by code_simp
  then have "attentionAll code_host covered_state (map (rowOf code_host USAGE_THRESH covered_state (makeL ''en'')) (s_fleet covered_state)) = []"
    using attention_none [of covered_state] by (simp add: f d needs_attention_def)
  moreover have "\<not> initial_loading covered_state" by (simp add: initial_loading_def covered_state_def code_host_def)
  moreover have "\<not> poller_down (pollStat code_host covered_state (makeL ''en'') False)"
    by (simp add: poller_down_def pollStat_def Let_def covered_state_def initialState_def)
  ultimately have m: "attention_mode covered_state ?m = AttOk" by (simp add: attention_mode_def ov_model_simps f)
  have "distinct (map d_id (s_fleet covered_state))" by (simp add: f)
  from normal_under_critical [OF this refl m, of "mkDevice ''ev-01'' EV Down (JObj [])"] show ?thesis
    by (simp add: f d makeL_def langOf_def num_text_def int_str_def nat_str.simps digit_char_def)
qed

section \<open>The lists on display\<close>

text \<open>
  C29. The attention list shows the attention list. For a fleet with distinct identifiers: when the card is in the mode of the list (data are there, the poller answers, something needs
  attention), then whatever the container showed before, it shows afterwards the four devices of the highest
  risk, in the order of the view model, one row each with the texts of now, and together with the number below the list it accounts for every device that needs attention. In
  every other mode (loading, poller down, no device, all normal) the container keeps what it has, the card shows no row of it and a text instead.
\<close>

theorem attention_on_display:
  assumes "distinct (map d_id (s_fleet st))" and "m = ov_model_of h th st l ko backend alerts traps" and "kept_ok k"
  shows "kept_ok (attention_list st m l k)
    \<and> (attention_mode st m = AttList \<longrightarrow>
         shown_in (attention_list st m l k) = take 4 (map (attention_row (om_active m) l) (om_attAll m))
         \<and> av_rows (attention_card st m l) = shown_in (attention_list st m l k) \<and> av_words (attention_card st m l) = None
         \<and> length (shown_in (attention_list st m l k)) + om_attMore m = length (filter (needs_attention h st) (s_fleet st)))
    \<and> (attention_mode st m \<noteq> AttList \<longrightarrow>
         attention_list st m l k = k \<and> av_rows (attention_card st m l) = [] \<and> av_words (attention_card st m l) \<noteq> None)"
proof (cases "attention_mode st m = AttList")
  case mode: True
  let ?rows = "map (attention_row (om_active m) l) (om_att m)"
  have "map at_id ?rows = take 4 (map dr_id (om_attAll m))" by (simp add: assms(2) ov_model_simps comp_def take_map)
  then have "distinct (map at_id ?rows)" using attention_ids [OF assms(1)] by (simp add: assms(2) ov_model_simps distinct_take)
  from sync_shows [OF assms(3) this, of "\<lambda>r. r" "\<lambda>_ r. r"]
  have s: "shown_in (attention_list st m l k) = ?rows" "kept_ok (attention_list st m l k)"
    by (simp_all add: attention_list_def mode content_after_def comp_def split: option.split)
  have "size (mset (map dr_id (om_attAll m))) = size (mset (map d_id (filter (needs_attention h st) (s_fleet st))))"
    unfolding assms(2) ov_model_simps attention_devices [OF assms(1)] ..
  then have n: "length (om_attAll m) = length (filter (needs_attention h st) (s_fleet st))" unfolding size_mset length_map .
  have c: "av_rows (attention_card st m l) = ?rows" "av_words (attention_card st m l) = None"
    by (simp_all add: attention_card_def Let_def mode att_words_def)
  have "?rows = take 4 (map (attention_row (om_active m) l) (om_attAll m))" by (simp add: take_map assms(2) ov_model_simps)
  moreover have "length ?rows + om_attMore m = length (om_attAll m)" by (simp add: assms(2) ov_model_simps)
  ultimately show ?thesis using s c n mode by simp
next
  case False
  then have "attention_list st m l k = k" "av_rows (attention_card st m l) = []" "av_words (attention_card st m l) \<noteq> None"
    by (simp_all add: attention_list_def attention_card_def Let_def att_words_def split: att_mode.split)
  then show ?thesis using assms(3) False by simp
qed

definition degraded_state :: app_state where
  "degraded_state = initialState\<lparr>s_fleet := [mkDevice ''ev-01'' EV Deg (JObj [])], s_lastPoll := now code_host\<rparr>"

theorem attention_on_display_witness:
  "length (shown_in (attention_list degraded_state (ov_model_of code_host USAGE_THRESH degraded_state (makeL ''en'') False [] [] []) (makeL ''en'') no_kids)) = 1"
proof -
  let ?m = "ov_model_of code_host USAGE_THRESH degraded_state (makeL ''en'') False [] [] []" and ?d = "mkDevice ''ev-01'' EV Deg (JObj [])"
  have d: "d_id ?d = ''ev-01''" "d_status ?d = Deg" by (simp_all add: mkDevice_def Let_def)
  have f: "s_fleet degraded_state = [?d]" by (simp add: degraded_state_def)
  have n: "needs_attention code_host degraded_state ?d"
    by (simp add: needs_attention_def d inMaint_def activeMaint_def degraded_state_def initialState_def as_map_def List.map_filter_simps)
  have dist: "distinct (map d_id (s_fleet degraded_state))" by (simp add: f)
  have ne: "attentionAll code_host degraded_state (map (rowOf code_host USAGE_THRESH degraded_state (makeL ''en'')) (s_fleet degraded_state)) \<noteq> []"
    unfolding attention_none [OF dist] using n by (simp add: f)
  have "\<not> initial_loading degraded_state" by (simp add: initial_loading_def degraded_state_def code_host_def)
  moreover have "\<not> poller_down (pollStat code_host degraded_state (makeL ''en'') False)"
    by (simp add: poller_down_def pollStat_def Let_def degraded_state_def initialState_def)
  ultimately have "attention_mode degraded_state ?m = AttList" using ne by (simp add: attention_mode_def ov_model_simps f)
  then have r: "length (shown_in (attention_list degraded_state ?m (makeL ''en'') no_kids)) = length (take 4 (om_attAll ?m))"
    using attention_on_display [OF dist refl no_kids_ok, where h = code_host and th = USAGE_THRESH and l = "makeL ''en''" and ko = False
        and backend = "[]" and alerts = "[]" and traps = "[]"]
    by (simp add: take_map)
  have "size (mset (map dr_id (om_attAll ?m))) = 1"
    unfolding ov_model_simps attention_devices [OF dist] using n by (simp add: f)
  then have "length (om_attAll ?m) = 1" unfolding size_mset length_map .
  then show ?thesis using r by simp
qed

section \<open>The licence card\<close>

lemma key_end:
  assumes "a @ CHR '':'' # num_text i = b @ CHR '':'' # num_text j"
  shows "i = j"
proof -
  have t: "takeWhile is_digit (rev (c @ CHR '':'' # num_text n)) = rev (num_text n)" for c n
  proof -
    have "\<And>x. x \<in> set (rev (num_text n)) \<Longrightarrow> is_digit x"
      using all_digits_nat_str by (simp add: num_text_def int_str_def)
    then have "takeWhile is_digit (rev (num_text n) @ CHR '':'' # rev c) = rev (num_text n) @ takeWhile is_digit (CHR '':'' # rev c)"
      by (rule takeWhile_append2)
    then show ?thesis by (simp add: is_digit_def)
  qed
  have "rev (num_text i) = rev (num_text j)" using t [of a i, symmetric] unfolding assms t [of b j] .
  then show ?thesis by (auto simp: num_text_def dest: int_str_inj)
qed

lemma lic_keys_distinct: "distinct (lic_keys ls)"
  unfolding lic_keys_def distinct_conv_nth by (auto simp: nth_enumerate_eq dest: key_end)

lemma lic_keys_length [simp]: "length (lic_keys ls) = length ls"
  by (simp add: lic_keys_def)

lemma length_map_filter: "length (List.map_filter f xs) = length (filter (\<lambda>x. f x \<noteq> None) xs)"
  by (induction xs) (auto simp: List.map_filter_simps)

lemma licence_reported: "licence_of h l ko s \<noteq> None \<longleftrightarrow> truthy (m_license (d_meta s))"
  by (simp add: licence_of_def Let_def split: option.split)

lemma licence_count:
  "length (lc_all (licenses h l ko fleet)) + length (lc_perpAll (licenses h l ko fleet)) + length (lc_naAll (licenses h l ko fleet))
   = length (filter (\<lambda>s. truthy (m_license (d_meta s))) fleet)"
proof -
  let ?rows = "List.map_filter (licence_of h l ko) fleet"
  have "length (filter (\<lambda>r. fst r = Expiring) ?rows) + length (filter (\<lambda>r. fst r = Perpetual) ?rows) + length (filter (\<lambda>r. fst r = Unknown) ?rows)
      = length ?rows"
    by (rule length_filter_partition3) (metis bucket.distinct bucket.exhaust)
  then show ?thesis unfolding length_map_filter licence_reported by (simp add: licenses_def Let_def in_bucket_def)
qed

text \<open>
  No licence disappears from the card. The headline, the lines and the number of the ones left out add up to the devices that report a
  licence, the link to the rest is there exactly if some are left out, and the container shows every line, whatever it showed before.
\<close>

theorem licences_accounted:
  assumes "m = ov_model_of h th st l ko backend alerts traps" and "kept_ok k"
  shows "(if lv_lead (lic_card l m) = None then 0 else 1) + length (lv_lines (lic_card l m)) + lic_left (om_lic m)
      = length (filter (\<lambda>s. truthy (m_license (d_meta s))) (s_fleet st))
    \<and> (lv_more (lic_card l m) = None \<longleftrightarrow> lic_left (om_lic m) = 0)
    \<and> shown_in (lic_list l (om_lic m) k) = lv_lines (lic_card l m)"
proof -
  let ?ls = "lic_lines l (om_lic m)"
  have min: "lc_min (om_lic m) = None \<longleftrightarrow> lc_all (om_lic m) = []"
    unfolding assms(1) ov_model_simps by (simp add: licenses_def Let_def split: list.split) (metis list.distinct(1) sort_by_eq_Nil)
  have v: "lv_lines (lic_card l m) = ?ls" "lv_more (lic_card l m) = None \<longleftrightarrow> lic_left (om_lic m) = 0"
    "lv_lead (lic_card l m) = None \<longleftrightarrow> lc_min (om_lic m) = None"
    by (cases "lc_min (om_lic m)"; simp add: lic_card_def Let_def)+
  have "map snd (zip ?ls (lic_keys ?ls)) = lic_keys ?ls" by simp
  then have "distinct (map snd (zip ?ls (lic_keys ?ls)))" using lic_keys_distinct by simp
  from sync_shows(1) [OF assms(2) this, of "\<lambda>p. fst p" "\<lambda>_ p. fst p"]
  have "shown_in (lic_list l (om_lic m) k) = ?ls"
    by (simp add: lic_list_def content_after_def [abs_def])
  moreover have "(if lc_all (om_lic m) = [] then 0 else 1) + length ?ls + lic_left (om_lic m)
      = length (lc_all (om_lic m)) + length (lc_perpAll (om_lic m)) + length (lc_naAll (om_lic m))"
    unfolding assms(1) ov_model_simps by (simp add: lic_lines_def lic_left_def licenses_def Let_def min_def)
  moreover have "length (lc_all (om_lic m)) + length (lc_perpAll (om_lic m)) + length (lc_naAll (om_lic m))
      = length (filter (\<lambda>s. truthy (m_license (d_meta s))) (s_fleet st))"
    unfolding assms(1) ov_model_simps by (rule licence_count)
  ultimately show ?thesis unfolding v min by simp
qed

section \<open>The acknowledge button\<close>

lemma quick_done:
  assumes "key \<noteq> []" "qk_key q = None" "cn_dialog (qk_console q) = None" "trim why \<noteq> []"
  shows "s_ackedAlerts (cn_st (qk_console (quick_confirm h who why (quick_ack True key q))))
    = jput key (ack_entry h (sor who ''admin'') (trim why)) (as_map (s_ackedAlerts (cn_st (qk_console q))))"
  using assms by (simp add: quick_ack_def quick_confirm_def showToast_def Let_def)

text \<open>
  The button does in live mode what the shell does: for an alert that is not acknowledged, asking and confirming there and here write the same map.
\<close>

lemma quick_is_shell_ack:
  assumes "key \<noteq> []" "qk_key q = None" "cn_dialog (qk_console q) = None" "trim why \<noteq> []" "who \<noteq> []"
    and "\<not> isSampleMode (cn_st (qk_console q))" "\<not> is_acked (qk_console q) key"
  shows "s_ackedAlerts (cn_st (qk_console (quick_confirm h who why (quick_ack True key q))))
    = s_ackedAlerts (cn_st (confirm h who why (handleAction (AckAlert key) (qk_console q))))"
  using assms(7) unfolding quick_done [OF assms(1-4)]
  by (simp add: assms handleAction_def ask_def confirm_def carry_out_def is_acked_def showToast_def Let_def sor_def)

lemma written_is_sent: "\<not> same k \<Longrightarrow> (k, v) \<in> set (dl_set (ackDelta same seen (jor (jput k v (as_map m)) (JObj []))))"
proof -
  assume k: "\<not> same k"
  obtain ps where "as_map m = JObj ps" by (metis as_map_map(1) is_map.elims(2))
  moreover have m: "map_of (aput k v ps) k = Some v" by (induction ps) auto
  moreover have "k \<in> fst ` set (aput k v ps)" using map_of_SomeD [OF m] by (rule rev_image_eqI) simp
  ultimately show ?thesis using k by (auto simp: ackDelta_def jor_def Let_def image_iff)
qed

text \<open>
  C24. The overview writes to sample data. In the read-only mode the acknowledgement of the shell opens no dialog and changes no shared map; the
  button of the overview, for the same alert in the same state, asks, and with a reason given it writes the record, and the render of the shell that follows, which sees a new map and a
  new record, queues it for the server.
\<close>

theorem sample_guard_bypassed:
  assumes "isSampleMode (cn_st (qk_console q))" and "key \<noteq> []" and "trim why \<noteq> []"
    and "qk_key q = None" and "cn_dialog (qk_console q) = None"
    and "wt_seen w Ack \<noteq> None" and "\<not> id_map i Ack" and "\<not> id_entry i Ack key"
  shows "cn_dialog (handleAction (AckAlert key) (qk_console q)) = None
    \<and> s_ackedAlerts (cn_st (confirm h who why (handleAction (AckAlert key) (qk_console q)))) = s_ackedAlerts (cn_st (qk_console q))
    \<and> qk_key (quick_ack True key q) = Some key
    \<and> jget (as_map (s_ackedAlerts (cn_st (qk_console (quick_confirm h who why (quick_ack True key q)))))) key = ack_entry h (sor who ''admin'') (trim why)
    \<and> (\<exists>d. (Ack, d) \<in> set (snd (watch_render i False (cn_st (qk_console (quick_confirm h who why (quick_ack True key q)))) w))
         \<and> (key, ack_entry h (sor who ''admin'') (trim why)) \<in> set (dl_set d))"
proof -
  let ?st = "cn_st (qk_console (quick_confirm h who why (quick_ack True key q)))"
  obtain seen where "wt_seen w Ack = Some seen" using assms(6) by blast
  then have "(Ack, ackDelta (id_entry i Ack) seen (jor (s_ackedAlerts ?st) (JObj []))) \<in> set (snd (watch_render i False ?st w))"
    using assms(7) by (simp add: watch_render_def Let_def kind_delta_def shared_map_def)
  moreover have "(key, ack_entry h (sor who ''admin'') (trim why)) \<in> set (dl_set (ackDelta (id_entry i Ack) seen (jor (s_ackedAlerts ?st) (JObj []))))"
    unfolding quick_done [OF assms(2,4,5,3)] using assms(8) by (rule written_is_sent)
  ultimately have sent: "\<exists>d. (Ack, d) \<in> set (snd (watch_render i False ?st w)) \<and> (key, ack_entry h (sor who ''admin'') (trim why)) \<in> set (dl_set d)"
    by blast
  have "cn_dialog (handleAction (AckAlert key) (qk_console q)) = None"
    "s_ackedAlerts (cn_st (handleAction (AckAlert key) (qk_console q))) = s_ackedAlerts (cn_st (qk_console q))"
    using assms by (simp_all add: handleAction_def writes_shared_def showToast_def)
  then show ?thesis using assms(1-5) sent by (simp add: quick_done confirm_def) (simp add: quick_ack_def)
qed

definition sample_quick :: quick where
  "sample_quick = \<lparr>qk_console = idle\<lparr>cn_st := initialState\<lparr>s_sampleMode := True\<rparr>\<rparr>, qk_key = None\<rparr>"

theorem sample_guard_bypassed_witness:
  "cn_dialog (handleAction (AckAlert ''k'') (qk_console sample_quick)) = None
   \<and> (\<exists>d. (Ack, d) \<in> set (snd (watch_render (se_ident ack_event) False
          (cn_st (qk_console (quick_confirm code_host ''kim'' ''noise'' (quick_ack True ''k'' sample_quick)))) seen_none))
       \<and> (''k'', ack_entry code_host ''kim'' ''noise'') \<in> set (dl_set d))"
proof -
  have t: "trim ''noise'' = ''noise''" by code_simp
  have "isSampleMode (cn_st (qk_console sample_quick))" "qk_key sample_quick = None" "cn_dialog (qk_console sample_quick) = None"
    by (simp_all add: sample_quick_def idle_def isSampleMode_def)
  moreover have "wt_seen seen_none Ack \<noteq> None" "\<not> id_map (se_ident ack_event) Ack" "\<not> id_entry (se_ident ack_event) Ack ''k''"
    by (simp_all add: seen_none_def ack_event_def)
  ultimately show ?thesis
    using sample_guard_bypassed [of sample_quick "''k''" "''noise''" seen_none "se_ident ack_event" code_host "''kim''"] by (simp add: t sor_def)
qed

section \<open>The links\<close>

text \<open>
  A link leads where it says, in one step of the session history: from the overview, each of its links shows its page at the address of the page and
  adds one entry; and the link below the attention list shows, on the page of devices, exactly the devices of that list, the ones left out included.
\<close>

theorem links_lead:
  assumes "s_view (nv_st n) = ''overview''" and "nv_hash n = hashOf (nv_st n)"
    and "v \<in> {''logs'', ''incidents'', ''nodes'', ''manage'', ''capacity'', ''clusters''}"
  shows "nv_hash (ov_link v below n) = ''#/'' @ v \<and> nv_pushed (ov_link v below n) = (''#/'' @ v) # nv_pushed n
    \<and> mset (fleetRows h (nv_st (ov_link ''nodes'' True n)) rows) = mset (attentionAll h (nv_st n) rows)"
proof -
  have same: "isAttn h (st\<lparr>s_nodesFilter := f, s_view := a, s_selected := b, s_originView := c\<rparr>) = isAttn h st" for f a b c st
    by (simp add: fun_eq_iff isAttn_def critOf_def inMaint_def active_crits_def isAcked_def cong: option.case_cong)
  have "mset (fleetRows h (nv_st (ov_link ''nodes'' True n)) rows) = mset (attentionAll h (nv_st n) rows)"
    by (simp add: ov_link_def Let_def goView_def patchState_def syncHash_def fleetRows_def sor_def sortRows_def attentionAll_def SCREEN_KEYS_def same)
  moreover have "nv_hash (ov_link v below n) = ''#/'' @ v \<and> nv_pushed (ov_link v below n) = (''#/'' @ v) # nv_pushed n"
    using assms by (auto simp: ov_link_def Let_def goView_def patchState_def syncHash_def hashOf_def SCREEN_KEYS_def)
  ultimately show ?thesis by simp
qed

section \<open>The age of the data\<close>

text \<open>The page warns about stale data exactly if the poller itself has served from its cache for ten seconds or more since a poll has come in.\<close>

lemma stale_note_exact:
  "cv_stale (col_strip l (ov_model_of h th st l ko backend alerts traps)) \<noteq> None \<longleftrightarrow>
   s_lastPoll st \<noteq> 0 \<and> (\<exists>c. cache_age st = Some c \<and> 10 \<le> rround c)"
  by (auto simp: col_strip_def Let_def data_gap_def ov_model_simps pollStat_def split: option.splits)

end
