(* ===== verification/Spec2Isabelle.thy ===== *)
theory Spec2Isabelle
  imports Prelude JsNumber JsText JsValue Json Data Store UiState Fmt Format Alert Outbox Coordinator Poll PollLoop KpiRow KpiLog KpiAgg Cluster Router Actions Shell Topology Detail ScreenSafe FloorSafe ScreenAlerts ManageEffects SettingsSafe OverviewSafe
begin

text \<open>
  The browser console of ServerDesk, as far as it computes: \<open>src/web/js\<close>. The console polls one server for the
  fleet of servers, network devices and power devices, normalises the answer into one shape, derives alerts and
  figures from it, shows them on nine screens, and shares acknowledgements, maintenance windows and notes with the
  consoles of the other operators. The server is written in another language and appears only as the answers of its
  HTTP interface.

  How the parts interact. \<open>model/data.js\<close> fetches and normalises (theories Data and Poll); \<open>store.js\<close> holds the one
  state object, restores it from the browser's storage and tells its subscribers of every change (Store); \<open>app.js\<close>
  runs the collection loop (PollLoop), reads and writes the address bar (Router), carries out what the operator asks
  for (Actions) and shows failures, the banner, the bell and the search box (Shell); \<open>util/shared_sync.js\<close> keeps the
  changes of the operators in a durable queue and sends them one after the other (Outbox, Coordinator);
  \<open>model/compute/*.js\<close> turns the state into what the screens show (Alert, Fmt, Format, KpiRow, KpiLog, KpiAgg,
  Cluster, TopoCard, TopoPlan, TopoDraw, DetailTile, DetailNode, DetailPlc, DetailView); \<open>util/ui_state.js\<close> decides what the console may claim about itself (UiState).

  Conventions.
  \<^item> Values that may have any shape are \<open>jsval\<close> (JsValue): null, undefined, booleans, numbers, strings, arrays and
    objects as association lists in creation order. The operators of the language that the code applies to them
    (truthiness, \<open>Number\<close>, \<open>String\<close>, property access, \<open>===\<close>) are functions there. Once the code has normalised a
    value, it is a record or a datatype.
  \<^item> Numbers are IEEE doubles (JsNumber): a finite value is the rational it denotes, and every operation rounds to
    the nearest double, ties to even. Integer counters that the code only increments are \<open>nat\<close>.
  \<^item> Strings are lists of code units below 256. Literals outside that range, the Korean texts and a few signs, are
    written in a romanised form; the model never depends on their letters, only on which texts are equal.
  \<^item> What the browser provides is an argument: the clock, the collation order and the date parser of old formats (the
    record \<open>host\<close>), the local storage (a map that may refuse), the answer of \<open>fetch\<close>, and the identity of an object
    where the code compares identities. A variable of a module is a field of a state that is passed on.
  \<^item> An \<open>await\<close> ends a step. What the code does between two of them is one transition, and a theorem about an
    asynchronous part quantifies over every order in which answers, timers and clicks arrive.
  \<^item> Inherited properties of objects and the reordering of integer-like keys are outside the model: keys are
    identifiers and field names.

  The theories and what their lemmas show.
  \<^item> Prelude: the fact collections, lists, association lists, option lists and the stable sort that all theories use.
  \<^item> JsNumber, JsText, JsValue, Json: the language. Rounding is monotone and exact on integers below $2^{53}$; digits
    read back; string search, split and trim; stringify and parse invert each other on the values the code stores.
  \<^item> Data (\<open>model/data.js\<close>, first half): every normalised device has a known type, status and sync state, clamped
    figures and arrays where arrays are promised; status and sync state agree; capabilities are closed.
  \<^item> Store (\<open>store.js\<close>): loading accepts any stored text and yields a state of the promised shape; what persist
    writes, load reads back; subscribers are told in order.
  \<^item> UiState (\<open>util/ui_state.js\<close>), Fmt (\<open>util/fmt.js\<close>, \<open>base.js\<close>, \<open>time.js\<close>), Format (\<open>format.js\<close>, \<open>node.js\<close>): labels and
    times; the console time reads back; the fleet table is a sorted, stable permutation.
  \<^item> Alert (\<open>alert.js\<close>): acknowledgement keys are injective; an abnormal device has an alert; the CSV reads back.
  \<^item> Outbox, Coordinator (\<open>util/shared_sync.js\<close>): cleaning bounds a value and removes secrets; the stored queue
    survives a reload; a queue is first in first out without loss, nothing is sent before it is stored, no server
    answer overwrites a change that is still under way, and the push loop ends when the server takes every change.
  \<^item> Poll, PollLoop (\<open>model/data.js\<close>, \<open>app.js\<close>): a failed poll never looks like a fresh one; at most one poll chain is
    alive, which is also stated as a refinement of an abstract chain; every timer is armed with the wait that follows from
    the failures since the last success. The merge of local edits in ManageEffects is proved over this loop, late answers included.
  \<^item> KpiRow, KpiLog, KpiAgg, Cluster (\<open>kpi.js\<close>, \<open>cluster.js\<close>): the figures partition the fleet, the attention list is
    exact, collapsing of flapping alerts loses nothing, the verdict is never milder than a device, the tree and the
    licence list contain each device once.
  \<^item> TopoCard, TopoPlan, TopoDraw (\<open>topo.js\<close>): what a card shows, the plan of rows, bands, blocks and columns, and
    the drawing of the plan. TopoSpace, TopoFit and Topology prove that the drawing exists, that no two cards overlap
    and every card is on the canvas, that every device has one card (the cards are total where the code
    throws on a null among the supplies of a printer, which the normaliser lets through), and that the settings screen shows the colours of
    the drawing. Coordinates are rationals: the code adds and halves whole and half pixels, which doubles do exactly,
    and the model rounds where the code divides by anything else.
  \<^item> DetailTile, DetailNode, DetailPlc, DetailView (\<open>detail.js\<close>): the page of one device, as tiles, nodes and hardware,
    controller cards, and everything else with the function that puts them together; a call that throws is None.
    Detail shows that the page is that of the device asked for, that a lost protection is never hidden, that a
    diagnosis is as bad as its worst module and a device that is down has no live figures, and that the licence agrees
    with the overview; its last section holds where the page and the rest of the console disagree.
  \<^item> ScreenControl, ScreenSafe (\<open>screens/detail.js\<close>): the device page as a machine of dialog, request, late answer and
    note. A request leaves only through an open gate, for the device that is shown and, if destructive, after its
    target has been typed; the gate is what the server advertised; one action at a time for every visit of the page, so never
    more in flight than visits; a call of an earlier visit may still be on its way.
  \<^item> ScreenFloor, FloorSafe (\<open>screens/topology.js\<close>): the floor map gives every rack one cell of the grid and no cell two
    racks; a drag is never a click. The search for a free cell ends because only finitely many taken cells lie ahead.
  \<^item> ScreenAlerts (\<open>screens/incidents.js\<close>): merging equal neighbours keeps every acknowledgement key, the bulk buttons
    act on what their labels count, no exported text is a formula and an
    exported table reads back cell by cell. What is merged agrees in device, severity, message and age. These four also hold where the screens fail.
  \<^item> ScreenManage, ManageForm, ManageSafe, ManageEffects (\<open>screens/manage.js\<close>): the management of devices. The tables, the
    form and the fields of its pages, the list; the machine of store, form objects (a heap, because suspended handlers keep
    their reference), requests and answers; every request that leaves is checked, for live data and within what its kind may
    change; the badges of the fields are the checks; a deletion leaves nothing of its device and reaches the server;
    an edit shows what was confirmed and survives the polls; and the dialog that can never be closed.
  \<^item> ScreenSettings, SettingsSafe (\<open>screens/settings.js\<close>): the page of settings as a machine of its module variable,
    requests and answers, and what its cards say. The address of the webhook is not kept, thresholds stay ordered, a refused
    policy is taken back; a failed load makes a click switch the notifications of the server off.
  \<^item> SyncList, ScreenOverview, OverviewSafe (\<open>screens/overview.js\<close>): the keyed lists that patch a container in place, with
    nodes that have an identity; what every card says, as a function of the view model, and the handlers. Patching a list shows
    what building it anew would show and keeps the nodes of the keys that stay; the attention list, the count below it and the licence
    card account for every device; a link leads to its page. The acknowledge button ignores the read-only mode, and a device that is
    down in a maintenance window makes the verdict critical while the card below says that all is normal.
  \<^item> Router, Actions, Shell (\<open>app.js\<close>): the address bar follows the view, a late screen is discarded, an action that
    hides an alert needs a reason, an undo restores, the deltas sent to the server bring it, whatever it and
    the other consoles hold, to what the console shows on the keys the console has written, a dismissed failure comes back with the next
    report.

  Interfaces are locales: the comparator of a sort, the durable outbox that the coordinator relies on, the vertical
  stacking of the drawing (\<open>stacking\<close>, shared by machines, nodes, lanes, rows and bands) and the laws of a form that the
  dialog keeps (\<open>form_law\<close>) are stated once and interpreted on the definitions of the code.

  Bounds and fuel. The number parser and printer, the JSON printer and the run detection of the log recurse on their
  input, and the search for a short decimal form is bounded by the 17 digits a double needs. The bounds of the stored
  queue (entries, length of strings, depth) are the constants of the source, and so are the 14 by 5 column counts that
  the search of the topology tries.

  What is not modelled. The writing of DOM nodes, markup, icons, the audio context, focus and keyboard listeners:
  they end in effects of the browser for which the model has no value. For this reason \<open>nodes.js\<close>, \<open>clusters.js\<close>
  and \<open>capacity.js\<close>, which write the rows of the view model into elements, the construction of elements in \<open>overview.js\<close>, and the larger part of
  \<open>screens/detail.js\<close> and \<open>screens/topology.js\<close>, which does the same with pages and drawings, have no theory. The
  locale-dependent number formatting calls the library with a locale and nothing else. The server, its packaging and the
  tests are outside the language of the model.
\<close>

section \<open>Where two components disagree\<close>

text \<open>The form of device management accepts a floor position that the floor map ignores: it counts rows and columns from one.\<close>

lemma floor_zero_is_ignored: "floor_ok ''0,0'' \<and> parseFloorPos ''0,0'' = None"
  by code_simp

end
